(* ===== verification/GoBase.thy ===== *)
theory GoBase
  imports
    Main
    "HOL-Library.AList"
    "HOL-Library.List_Lexorder"
    "HOL-Library.Char_ord"
begin

section \<open>Prelude: the parts of Go and its standard library that the components share\<close>

text \<open>
  Strings are byte lists (type \<open>string\<close>), compared bytewise as Go compares them. The
  functions below follow package \<open>strings\<close>, \<open>strconv\<close>, \<open>slices\<close> and \<open>path\<close> on ASCII text,
  which is what Kubernetes names, kinds and annotations hold; where Go decodes runes, a byte
  below 128 is its own rune. Maps that the code iterates over or measures are association
  lists with the library's \<open>AList.update\<close> and \<open>AList.delete\<close>; errors are the left injection
  of a sum.

  The collections: \<open>go_str\<close> unfolds the string helpers for evaluation, \<open>go_list\<close> holds the
  facts about the list helpers.
\<close>

named_theorems go_str
named_theorems go_list

subsection \<open>Machine integers\<close>

text \<open>Go's \<open>int32\<close> and \<open>int64\<close> conversions keep the low bits in two's complement.\<close>

definition i32 :: "int \<Rightarrow> int" where
  "i32 x = signed_take_bit 31 x"

definition i64 :: "int \<Rightarrow> int" where
  "i64 x = signed_take_bit 63 x"

lemma i32_id [simp]: "- (2 ^ 31) \<le> x \<Longrightarrow> x < 2 ^ 31 \<Longrightarrow> i32 x = x"
  unfolding i32_def by (rule signed_take_bit_int_eq_self) simp_all

lemma i64_id [simp]: "- (2 ^ 63) \<le> x \<Longrightarrow> x < 2 ^ 63 \<Longrightarrow> i64 x = x"
  unfolding i64_def by (rule signed_take_bit_int_eq_self) simp_all

lemma i32_range: "- (2 ^ 31) \<le> i32 x \<and> i32 x < 2 ^ 31"
  unfolding i32_def
  using signed_take_bit_int_greater_eq_minus_exp [of 31 x] signed_take_bit_int_less_exp [of 31 x]
  by simp

lemma i64_range: "- (2 ^ 63) \<le> i64 x \<and> i64 x < 2 ^ 63"
  unfolding i64_def
  using signed_take_bit_int_greater_eq_minus_exp [of 63 x] signed_take_bit_int_less_exp [of 63 x]
  by simp

subsection \<open>Package strings\<close>

definition isSpace :: "char \<Rightarrow> bool" where
  "isSpace c \<longleftrightarrow> c \<in> set [CHR '' '', CHR 0x09, CHR 0x0A, CHR 0x0B, CHR 0x0C, CHR 0x0D]"

definition trimSpace :: "string \<Rightarrow> string" where
  "trimSpace s = rev (dropWhile isSpace (rev (dropWhile isSpace s)))"

text \<open>\<open>strings.Fields\<close>: the maximal runs without white space. The accumulator is the current
  run, backwards.\<close>

fun fieldsAux :: "string \<Rightarrow> string \<Rightarrow> string list" where
  "fieldsAux acc [] = (if acc = [] then [] else [rev acc])"
| "fieldsAux acc (c # cs) =
     (if isSpace c then (if acc = [] then fieldsAux [] cs else rev acc # fieldsAux [] cs)
      else fieldsAux (c # acc) cs)"

definition fields :: "string \<Rightarrow> string list" where
  "fields s = fieldsAux [] s"

definition hasPrefix :: "string \<Rightarrow> string \<Rightarrow> bool" where
  "hasPrefix s p \<longleftrightarrow> take (length p) s = p"

definition hasSuffix :: "string \<Rightarrow> string \<Rightarrow> bool" where
  "hasSuffix s p \<longleftrightarrow> hasPrefix (rev s) (rev p)"

definition cutPrefix :: "string \<Rightarrow> string \<Rightarrow> string option" where
  "cutPrefix s p = (if hasPrefix s p then Some (drop (length p) s) else None)"

definition cutSuffix :: "string \<Rightarrow> string \<Rightarrow> string option" where
  "cutSuffix s p = (if hasSuffix s p then Some (take (length s - length p) s) else None)"

text \<open>\<open>strings.TrimPrefix\<close>.\<close>

definition trimPrefix :: "string \<Rightarrow> string \<Rightarrow> string" where
  "trimPrefix s p = (case cutPrefix s p of Some r \<Rightarrow> r | None \<Rightarrow> s)"

text \<open>\<open>strings.Cut\<close> around a separator of one byte: the parts before and after its first
  occurrence, or none.\<close>

fun cutChar :: "char \<Rightarrow> string \<Rightarrow> (string \<times> string) option" where
  "cutChar sep [] = None"
| "cutChar sep (c # cs) =
     (if c = sep then Some ([], cs)
      else map_option (\<lambda>(a, b). (c # a, b)) (cutChar sep cs))"

lemma cutChar_Some: "cutChar sep s = Some (a, b) \<Longrightarrow> s = a @ sep # b \<and> sep \<notin> set a"
  by (induction s arbitrary: a) (auto split: if_splits)

lemma cutChar_None: "cutChar sep s = None \<longleftrightarrow> sep \<notin> set s"
  by (induction s) auto

lemma cutChar_append: "sep \<notin> set a \<Longrightarrow> cutChar sep (a @ sep # b) = Some (a, b)"
  by (induction a) auto

lemma cutChar_length [termination_simp]: "cutChar sep s = Some (a, b) \<Longrightarrow> length b < length s"
  by (drule cutChar_Some) simp

text \<open>\<open>strings.Split\<close> and \<open>strings.SplitN\<close> with a separator of one byte.\<close>

fun splitChar :: "char \<Rightarrow> string \<Rightarrow> string list" where
  "splitChar sep s = (case cutChar sep s of None \<Rightarrow> [s] | Some (a, b) \<Rightarrow> a # splitChar sep b)"

declare splitChar.simps [simp del]

fun splitN :: "char \<Rightarrow> nat \<Rightarrow> string \<Rightarrow> string list" where
  "splitN sep 0 s = []"
| "splitN sep (Suc 0) s = [s]"
| "splitN sep (Suc (Suc n)) s =
     (case cutChar sep s of None \<Rightarrow> [s] | Some (a, b) \<Rightarrow> a # splitN sep (Suc n) b)"

fun join :: "string \<Rightarrow> string list \<Rightarrow> string" where
  "join sep [] = []"
| "join sep [x] = x"
| "join sep (x # y # zs) = x @ sep @ join sep (y # zs)"

text \<open>ASCII case folding: \<open>strings.ToLower\<close> and \<open>strings.EqualFold\<close>.\<close>

definition lowerChar :: "char \<Rightarrow> char" where
  "lowerChar c = (if of_char c \<ge> (65 :: nat) \<and> of_char c \<le> (90 :: nat) then char_of (of_char c + 32 :: nat) else c)"

definition toLower :: "string \<Rightarrow> string" where
  "toLower s = map lowerChar s"

definition equalFold :: "string \<Rightarrow> string \<Rightarrow> bool" where
  "equalFold s t \<longleftrightarrow> toLower s = toLower t"

lemmas [go_str] = isSpace_def trimSpace_def fields_def hasPrefix_def hasSuffix_def
  cutPrefix_def cutSuffix_def trimPrefix_def

lemma hasPrefix_append [simp]: "hasPrefix (p @ s) p"
  by (simp add: hasPrefix_def)

lemma hasPrefix_iff: "hasPrefix s p \<longleftrightarrow> (\<exists>r. s = p @ r)"
  unfolding hasPrefix_def by (metis append_eq_conv_conj append_take_drop_id)

lemma cutPrefix_Some: "cutPrefix s p = Some r \<longleftrightarrow> s = p @ r"
  by (auto simp: cutPrefix_def hasPrefix_iff)

lemma cutPrefix_append [simp]: "cutPrefix (p @ r) p = Some r"
  by (simp add: cutPrefix_Some)

subsection \<open>Package strconv\<close>

text \<open>\<open>strconv.Itoa\<close> and \<open>FormatInt(_, 10)\<close>.\<close>

definition digitChar :: "nat \<Rightarrow> char" where
  "digitChar d = char_of (48 + d)"

fun showNat :: "nat \<Rightarrow> string" where
  "showNat n = (if n < 10 then [digitChar n] else showNat (n div 10) @ [digitChar (n mod 10)])"

declare showNat.simps [simp del]

definition itoa :: "int \<Rightarrow> string" where
  "itoa i = (if i < 0 then CHR ''-'' # showNat (nat (- i)) else showNat (nat i))"

definition isDigit :: "char \<Rightarrow> bool" where
  "isDigit c \<longleftrightarrow> 48 \<le> (of_char c :: nat) \<and> (of_char c :: nat) \<le> 57"

definition digitVal :: "char \<Rightarrow> nat" where
  "digitVal c = of_char c - 48"

definition readNat :: "string \<Rightarrow> nat" where
  "readNat s = foldl (\<lambda>n c. 10 * n + digitVal c) 0 s"

text \<open>\<open>strconv.ParseInt(s, 10, bits)\<close>: an optional sign and at least one digit, within the
  range of a signed integer of that many bits; anything else is an error.\<close>

definition parseInt :: "nat \<Rightarrow> string \<Rightarrow> int option" where
  "parseInt bits s =
     (let (neg, ds) = (case s of [] \<Rightarrow> (False, [])
                        | c # cs \<Rightarrow> if c = CHR ''-'' then (True, cs)
                                    else if c = CHR ''+'' then (False, cs) else (False, s));
          v = (if neg then - int (readNat ds) else int (readNat ds))
      in if ds \<noteq> [] \<and> list_all isDigit ds \<and> - (2 ^ (bits - 1)) \<le> v \<and> v < 2 ^ (bits - 1)
         then Some v else None)"

lemma digitChar_props [simp]:
  assumes "d < 10"
  shows "isDigit (digitChar d)" "digitVal (digitChar d) = d"
proof -
  have "(of_char (char_of (48 + d) :: char) :: nat) = 48 + d"
    using assms by (simp add: of_char_of)
  then show "isDigit (digitChar d)" "digitVal (digitChar d) = d"
    using assms by (simp_all add: isDigit_def digitVal_def digitChar_def)
qed

lemma readNat_snoc: "readNat (s @ [c]) = 10 * readNat s + digitVal c"
  by (simp add: readNat_def)

lemma showNat_props:
  "showNat n \<noteq> [] \<and> list_all isDigit (showNat n) \<and> readNat (showNat n) = n"
proof (induction n rule: showNat.induct)
  case (1 n)
  show ?case
  proof (cases "n < 10")
    case True
    then show ?thesis by (simp add: showNat.simps [of n] readNat_def)
  next
    case False
    with 1 have IH: "list_all isDigit (showNat (n div 10))" "readNat (showNat (n div 10)) = n div 10"
      by simp_all
    have "readNat (showNat n) = 10 * (n div 10) + n mod 10"
      using False IH by (simp add: showNat.simps [of n] readNat_snoc)
    with False IH show ?thesis by (simp add: showNat.simps [of n])
  qed
qed

lemma showNat_head: "\<exists>c cs. showNat n = c # cs \<and> isDigit c \<and> list_all isDigit cs"
  using showNat_props [of n] by (cases "showNat n") auto

lemma digit_not_sign: "isDigit c \<Longrightarrow> c \<noteq> CHR ''-'' \<and> c \<noteq> CHR ''+''"
  by (auto simp: isDigit_def)

text \<open>Printing and reading an integer that fits the width gives it back.\<close>

lemma parseInt_itoa:
  assumes "- (2 ^ (bits - 1)) \<le> i" and "i < 2 ^ (bits - 1)"
  shows "parseInt bits (itoa i) = Some i"
proof (cases "i < 0")
  case True
  with assms showNat_props [of "nat (- i)"] show ?thesis
    by (simp add: parseInt_def itoa_def)
next
  case False
  obtain c cs where s: "showNat (nat i) = c # cs" "isDigit c" "list_all isDigit cs"
    using showNat_head by blast
  moreover have "readNat (c # cs) = nat i"
    using showNat_props [of "nat i"] s(1) by simp
  ultimately show ?thesis
    using assms False digit_not_sign [of c] by (simp add: parseInt_def itoa_def)
qed

subsection \<open>Slices and maps\<close>

text \<open>Appending what is not there yet (\<open>slices.Contains\<close> before \<open>append\<close>).\<close>

definition addNew :: "'a \<Rightarrow> 'a list \<Rightarrow> 'a list" where
  "addNew x xs = (if x \<in> set xs then xs else xs @ [x])"

lemma set_addNew [simp, go_list]: "set (addNew x xs) = insert x (set xs)"
  by (auto simp: addNew_def)

lemma distinct_addNew [simp, go_list]: "distinct (addNew x xs) = distinct xs"
  by (auto simp: addNew_def)

definition addAllNew :: "'a list \<Rightarrow> 'a list \<Rightarrow> 'a list" where
  "addAllNew xs out = foldl (\<lambda>acc x. addNew x acc) out xs"

lemma set_addAllNew [simp, go_list]: "set (addAllNew xs out) = set xs \<union> set out"
  unfolding addAllNew_def by (induction xs arbitrary: out) auto

lemma distinct_addAllNew [simp, go_list]: "distinct (addAllNew xs out) = distinct out"
  unfolding addAllNew_def by (induction xs arbitrary: out) auto

text \<open>\<open>slices.Compact\<close> on a sorted slice drops every repetition, as the library's
  \<open>remdups_adj\<close> does.\<close>

lemma distinct_remdups_adj_sorted [go_list]: "sorted xs \<Longrightarrow> distinct (remdups_adj xs)"
proof (induction xs rule: remdups_adj.induct)
  case (3 x y xs)
  then show ?case
    by (auto simp: remdups_adj_set)
qed auto

text \<open>A map without the keys a predicate names (the loop that deletes while it ranges).\<close>

definition dropKeys :: "('k \<Rightarrow> bool) \<Rightarrow> ('k \<times> 'v) list \<Rightarrow> ('k \<times> 'v) list" where
  "dropKeys P m = filter (\<lambda>(k, v). \<not> P k) m"

lemma map_of_dropKeys [simp]: "map_of (dropKeys P m) k = (if P k then None else map_of m k)"
  unfolding dropKeys_def by (induction m) auto

lemma set_dropKeys: "set (map fst (dropKeys P m)) = {k \<in> set (map fst m). \<not> P k}"
  unfolding dropKeys_def by (induction m) auto

lemma distinct_dropKeys: "distinct (map fst m) \<Longrightarrow> distinct (map fst (dropKeys P m))"
  unfolding dropKeys_def by (induction m) auto

end
