(* ===== verification/GoPath.thy ===== *)
theory GoPath
  imports GoBase
begin

section \<open>Glob patterns: \<open>path.Match\<close> of the Go standard library\<close>

text \<open>
  Hibernate rules, shared namespaces and workload sequences name objects by the patterns of
  package \<open>path\<close>: \<open>*\<close> and \<open>?\<close> stop at a slash, \<open>[a-z]\<close> and \<open>[^a-z]\<close> are classes, a backslash
  escapes, and a malformed pattern is an error (\<open>None\<close>). The functions follow the library's
  \<open>Match\<close>, \<open>scanChunk\<close>, \<open>matchChunk\<close> and \<open>getEsc\<close> on ASCII text.
\<close>

abbreviation backslash :: char where "backslash \<equiv> CHR 0x5C"

text \<open>\<open>scanChunk\<close>: whether stars lead, the text up to the next star outside a class, and the
  rest.\<close>

fun scanBody :: "bool \<Rightarrow> string \<Rightarrow> string \<times> string" where
  "scanBody inr [] = ([], [])"
| "scanBody inr (c # cs) =
     (if c = CHR ''*'' \<and> \<not> inr then ([], c # cs)
      else if c = backslash then
        (case cs of [] \<Rightarrow> ([c], [])
         | d # ds \<Rightarrow> (let (a, b) = scanBody inr ds in (c # d # a, b)))
      else (let (a, b) = scanBody (if c = CHR ''['' then True else if c = CHR '']'' then False else inr) cs
            in (c # a, b)))"

definition scanChunk :: "string \<Rightarrow> bool \<times> string \<times> string" where
  "scanChunk p = (let q = dropWhile (\<lambda>c. c = CHR ''*'') p; (a, b) = scanBody False q
                  in (q \<noteq> p, a, b))"

lemma scanBody_split: "scanBody inr p = (a, b) \<Longrightarrow> p = a @ b"
proof (induction inr p arbitrary: a b rule: scanBody.induct)
  case (1 inr)
  then show ?case by simp
next
  case (2 inr c cs)
  consider (star) "c = CHR ''*'' \<and> \<not> inr" | (esc) "\<not> (c = CHR ''*'' \<and> \<not> inr)" "c = backslash"
    | (other) "\<not> (c = CHR ''*'' \<and> \<not> inr)" "c \<noteq> backslash" by blast
  then show ?case
  proof cases
    case star
    with "2.prems" show ?thesis by simp
  next
    case esc
    show ?thesis
    proof (cases cs)
      case Nil
      with esc "2.prems" show ?thesis by simp
    next
      case (Cons d ds)
      obtain a' b' where s: "scanBody inr ds = (a', b')" by (cases "scanBody inr ds")
      from "2.IH"(1) [OF esc Cons s] esc Cons s "2.prems" show ?thesis by simp
    qed
  next
    case other
    obtain a' b' where s: "scanBody (if c = CHR ''['' then True else if c = CHR '']'' then False else inr) cs = (a', b')"
      by (cases "scanBody (if c = CHR ''['' then True else if c = CHR '']'' then False else inr) cs")
    have "scanBody inr (c # cs) = (c # a', b')"
      unfolding scanBody.simps if_not_P [OF other(1)] if_not_P [OF other(2)] s by simp
    with "2.IH"(2) [OF other s] "2.prems" show ?thesis by simp
  qed
qed

lemma scanChunk_length:
  assumes "scanChunk p = (star, chunk, rest)" and "p \<noteq> []"
  shows "length rest < length p"
proof (cases p)
  case Nil
  with assms show ?thesis by simp
next
  case (Cons c cs)
  let ?q = "dropWhile (\<lambda>c. c = CHR ''*'') p"
  from assms have sb: "scanBody False ?q = (chunk, rest)" and st: "star = (?q \<noteq> p)"
    by (auto simp: scanChunk_def Let_def split: prod.splits)
  have q: "?q = chunk @ rest" by (rule scanBody_split [OF sb])
  have le: "length ?q \<le> length p" by (rule length_dropWhile_le)
  show ?thesis
  proof (cases "c = CHR ''*''")
    case True
    then have "length ?q < length p"
      using Cons length_dropWhile_le [of "\<lambda>c. c = CHR ''*''" cs] by simp
    with q show ?thesis by simp
  next
    case False
    with Cons have "?q = c # cs" by simp
    moreover have "chunk \<noteq> []"
      using sb False Cons by (auto split: if_splits list.splits prod.splits)
    ultimately show ?thesis using q Cons
      by (metis append_eq_Cons_conv length_append_singleton length_append le_add2 less_Suc_eq_le
          list.size(4) add.commute add_Suc_right append_Cons length_Cons not_Cons_self2)
  qed
qed

lemma scanChunk_decreases [termination_simp]:
  "(star, chunk, rest) = scanChunk p \<Longrightarrow> p \<noteq> [] \<Longrightarrow> length rest < length p"
  using scanChunk_length by metis

text \<open>\<open>getEsc\<close>: one possibly escaped character of a class; text must follow it.\<close>

definition getEsc :: "string \<Rightarrow> (nat \<times> string) option" where
  "getEsc chunk =
     (case chunk of [] \<Rightarrow> None
      | c # cs \<Rightarrow>
          if c = CHR ''-'' \<or> c = CHR '']'' then None
          else (case (if c = backslash then cs else chunk) of
                  [] \<Rightarrow> None
                | d # ds \<Rightarrow> if ds = [] then None else Some (of_char d, ds)))"

lemma getEsc_length [termination_simp]: "getEsc chunk = Some (r, rest) \<Longrightarrow> length rest < length chunk"
  by (auto simp: getEsc_def split: list.splits if_splits)

lemma getEsc_nonempty: "getEsc chunk = Some (r, rest) \<Longrightarrow> rest \<noteq> []"
  by (auto simp: getEsc_def split: list.splits if_splits)

text \<open>The loop over the ranges of a class: whether \<open>r\<close> is in one, and the text after the
  class. A closing bracket ends it only after a first range.\<close>

function classRanges :: "nat \<Rightarrow> bool \<Rightarrow> bool \<Rightarrow> string \<Rightarrow> (bool \<times> string) option" where
  "classRanges r first m chunk =
     (if chunk \<noteq> [] \<and> hd chunk = CHR '']'' \<and> \<not> first then Some (m, tl chunk)
      else (case getEsc chunk of
              None \<Rightarrow> None
            | Some (lo, c1) \<Rightarrow>
                if hd c1 = CHR ''-'' then
                  (case getEsc (tl c1) of
                     None \<Rightarrow> None
                   | Some (hi, c2) \<Rightarrow> classRanges r False (m \<or> lo \<le> r \<and> r \<le> hi) c2)
                else classRanges r False (m \<or> lo \<le> r \<and> r \<le> lo) c1))"
  by pat_completeness auto
termination
proof (relation "measure (\<lambda>(r, first, m, chunk). length chunk)", goal_cases)
  case 1 show ?case by simp
next
  case (2 r first m chunk x lo c1 y hi c2)
  then have "length c1 < length chunk" "length c2 < length (tl c1)"
    by (auto dest: getEsc_length)
  then show ?case by simp
next
  case (3 r first m chunk x lo c1)
  then show ?case by (auto dest: getEsc_length)
qed

declare classRanges.simps [simp del]

lemma classRanges_length: "classRanges r first m chunk = Some (b, rest) \<Longrightarrow> length rest < length chunk"
proof (induction r first m chunk rule: classRanges.induct)
  case (1 r first m chunk)
  show ?case
  proof (cases "chunk \<noteq> [] \<and> hd chunk = CHR '']'' \<and> \<not> first")
    case True
    then have "rest = tl chunk"
      using "1.prems" by (subst (asm) classRanges.simps) (simp add: True)
    with True show ?thesis by (cases chunk) auto
  next
    case False
    then obtain lo c1 where e: "getEsc chunk = Some (lo, c1)"
      using "1.prems" by (auto simp: classRanges.simps [of r first m chunk] split: option.splits if_splits)
    then have l1: "length c1 < length chunk" by (rule getEsc_length)
    show ?thesis
    proof (cases "hd c1 = CHR ''-''")
      case True
      then obtain hi c2 where e2: "getEsc (tl c1) = Some (hi, c2)"
        and eq: "classRanges r False (m \<or> lo \<le> r \<and> r \<le> hi) c2 = Some (b, rest)"
        using "1.prems" False e
        by (auto simp: classRanges.simps [of r first m chunk] split: option.splits)
      have "length rest < length c2" by (rule "1.IH"(1) [OF False e refl True e2 refl eq])
      moreover have "length c2 < length (tl c1)" by (rule getEsc_length [OF e2])
      ultimately show ?thesis using l1 by simp
    next
      case nd: False
      then have eq: "classRanges r False (m \<or> lo \<le> r \<and> r \<le> lo) c1 = Some (b, rest)"
        using "1.prems" False e by (simp add: classRanges.simps [of r first m chunk])
      have "length rest < length c1" by (rule "1.IH"(2) [OF False e refl nd eq])
      then show ?thesis using l1 by simp
    qed
  qed
qed

text \<open>
  \<open>matchChunk\<close>: the text being matched is \<open>None\<close> once the match has failed, after which the
  pattern is only checked. The result is \<open>None\<close> for a malformed pattern, \<open>Some None\<close> for no
  match, \<open>Some (Some t)\<close> with the text left over.
\<close>

definition nextChar :: "string option \<Rightarrow> (char \<times> string) option" where
  "nextChar m = (case m of Some (x # s) \<Rightarrow> Some (x, s) | _ \<Rightarrow> None)"

definition negation :: "string \<Rightarrow> bool \<times> string" where
  "negation cs = (case cs of c # cs' \<Rightarrow> if c = CHR ''^'' then (True, cs') else (False, cs) | [] \<Rightarrow> (False, []))"

lemma negation_length: "negation cs = (n, cs') \<Longrightarrow> length cs' \<le> length cs"
  by (auto simp: negation_def split: list.splits if_splits)

definition matchLiteral :: "char \<Rightarrow> string option \<Rightarrow> string option" where
  "matchLiteral c m = (case nextChar m of Some (x, s) \<Rightarrow> if c = x then Some s else None | None \<Rightarrow> None)"

function matchChunk :: "string \<Rightarrow> string option \<Rightarrow> string option option" where
  "matchChunk [] m = Some m"
| "matchChunk (c # cs) m =
     (if c = CHR ''['' then
        (let (negated, cs') = negation cs;
             r = (case nextChar m of Some (x, s) \<Rightarrow> of_char x | None \<Rightarrow> 0)
         in case classRanges r True False cs' of
              None \<Rightarrow> None
            | Some (found, rest) \<Rightarrow>
                matchChunk rest (if found = negated then None else map_option snd (nextChar m)))
      else if c = CHR ''?'' then
        matchChunk cs (case nextChar m of Some (x, s) \<Rightarrow> if x = CHR ''/'' then None else Some s
                       | None \<Rightarrow> None)
      else if c = backslash then
        (case cs of [] \<Rightarrow> None | d # ds \<Rightarrow> matchChunk ds (matchLiteral d m))
      else matchChunk cs (matchLiteral c m))"
  by pat_completeness auto
termination
proof (relation "measure (\<lambda>(chunk, m). length chunk)", goal_cases)
  case 1 show ?case by simp
next
  case (2 c cs m x negated cs' r y found rest)
  then have "length cs' \<le> length cs" "length rest < length cs'"
    by (auto dest: negation_length classRanges_length sym)
  then show ?case by simp
qed auto

text \<open>After a star: the match may start at any later position before the next slash.\<close>

fun skipMatch :: "string \<Rightarrow> bool \<Rightarrow> string \<Rightarrow> string option option" where
  "skipMatch chunk final [] = Some None"
| "skipMatch chunk final (c # cs) =
     (if c = CHR ''/'' then Some None
      else (case matchChunk chunk (Some cs) of
              None \<Rightarrow> None
            | Some (Some t) \<Rightarrow> if final \<and> t \<noteq> [] then skipMatch chunk final cs else Some (Some t)
            | Some None \<Rightarrow> skipMatch chunk final cs))"

text \<open>The rest of the pattern must be well formed before a plain "no" is returned.\<close>

fun checkPattern :: "string \<Rightarrow> bool option" where
  "checkPattern p =
     (if p = [] then Some False
      else (case scanChunk p of (star, chunk, rest) \<Rightarrow>
              (case matchChunk chunk (Some []) of None \<Rightarrow> None | Some _ \<Rightarrow> checkPattern rest)))"

declare checkPattern.simps [simp del]

fun pathMatch :: "string \<Rightarrow> string \<Rightarrow> bool option" where
  "pathMatch p name =
     (if p = [] then Some (name = [])
      else (case scanChunk p of (star, chunk, rest) \<Rightarrow>
        if star \<and> chunk = [] then Some (CHR ''/'' \<notin> set name)
        else (case matchChunk chunk (Some name) of
                None \<Rightarrow> None
              | Some m \<Rightarrow>
                  (case m of Some t \<Rightarrow>
                     if t = [] \<or> rest \<noteq> [] then pathMatch rest t
                     else if star then
                       (case skipMatch chunk (rest = []) name of
                          None \<Rightarrow> None
                        | Some (Some t') \<Rightarrow> pathMatch rest t'
                        | Some None \<Rightarrow> checkPattern rest)
                     else checkPattern rest
                   | None \<Rightarrow>
                     if star then
                       (case skipMatch chunk (rest = []) name of
                          None \<Rightarrow> None
                        | Some (Some t') \<Rightarrow> pathMatch rest t'
                        | Some None \<Rightarrow> checkPattern rest)
                     else checkPattern rest))))"

declare pathMatch.simps [simp del]

text \<open>\<open>ok, err := path.Match(...); err == nil && ok\<close>, as every caller uses it.\<close>

definition globMatches :: "string \<Rightarrow> string \<Rightarrow> bool" where
  "globMatches p name \<longleftrightarrow> pathMatch p name = Some True"

definition plainPattern :: "string \<Rightarrow> bool" where
  "plainPattern p \<longleftrightarrow> list_all (\<lambda>c. c \<noteq> CHR ''*'' \<and> c \<noteq> CHR ''?'' \<and> c \<noteq> CHR ''['' \<and> c \<noteq> backslash) p"

lemma scanBody_plain: "plainPattern p \<Longrightarrow> scanBody inr p = (p, [])"
  by (induction inr p rule: scanBody.induct) (auto simp: plainPattern_def)

lemma scanChunk_plain: "plainPattern p \<Longrightarrow> scanChunk p = (False, p, [])"
proof -
  assume p: "plainPattern p"
  then have "dropWhile (\<lambda>c. c = CHR ''*'') p = p"
    by (cases p) (auto simp: plainPattern_def)
  then show ?thesis by (simp add: scanChunk_def scanBody_plain [OF p])
qed

lemma matchChunk_failed: "plainPattern p \<Longrightarrow> matchChunk p None = Some None"
  by (induction p) (auto simp: plainPattern_def matchLiteral_def nextChar_def)

lemma matchChunk_plain:
  "plainPattern p \<Longrightarrow> matchChunk p (Some s) = Some (if hasPrefix s p then Some (drop (length p) s) else None)"
proof (induction p arbitrary: s)
  case Nil
  then show ?case by (simp add: hasPrefix_def)
next
  case (Cons c cs)
  then have cs: "plainPattern cs" by (simp add: plainPattern_def)
  show ?case
  proof (cases s)
    case Nil
    with Cons.prems show ?thesis
      by (simp add: matchLiteral_def nextChar_def hasPrefix_def plainPattern_def
          matchChunk_failed [OF cs])
  next
    case (Cons x t)
    with Cons.prems Cons.IH [OF cs] show ?thesis
      by (auto simp: matchLiteral_def nextChar_def hasPrefix_def plainPattern_def
          matchChunk_failed [OF cs])
  qed
qed

text \<open>A pattern without metacharacters names one object.\<close>

lemma globMatches_plain: "plainPattern p \<Longrightarrow> globMatches p name \<longleftrightarrow> name = p"
proof -
  assume p: "plainPattern p"
  show ?thesis
  proof (cases "p = []")
    case True
    then show ?thesis by (simp add: globMatches_def pathMatch.simps)
  next
    case False
    have rest: "pathMatch [] t = Some (t = [])" "checkPattern [] = Some False" for t
      by (simp_all add: pathMatch.simps checkPattern.simps)
    show ?thesis
      using False p
      by (auto simp: globMatches_def pathMatch.simps [of p name] scanChunk_plain matchChunk_plain
          rest hasPrefix_def split: if_splits)
  qed
qed

end
