(* ===== verification/GoTime.thy ===== *)
theory GoTime
  imports GoBase
begin

section \<open>Prelude: instants, durations, locations and the parsing of dates\<close>

text \<open>
  An instant (\<open>time.Time\<close>) is its number of nanoseconds since the Unix epoch, a duration a
  number of nanoseconds. A location (\<open>*time.Location\<close>) is a function from Unix seconds to the
  offset from UTC, in seconds, that is in force then; the time zone database that names
  locations is data outside the repository and a parameter (record \<open>zoneinfo\<close>). The zero value
  of \<open>time.Time\<close> and \<open>metav1.Time\<close> is midnight of the first of January of year one, UTC.
\<close>

type_synonym time = int
type_synonym duration = int
type_synonym location = "int \<Rightarrow> int"

record zoneinfo =
  zoneLoad :: "string \<Rightarrow> location option"  \<comment> \<open>\<open>time.LoadLocation\<close>\<close>
  zoneLocal :: location                       \<comment> \<open>\<open>time.Local\<close>\<close>

abbreviation second :: duration where "second \<equiv> 1000000000"
abbreviation minute :: duration where "minute \<equiv> 60000000000"
abbreviation hour :: duration where "hour \<equiv> 3600000000000"

definition zeroTime :: time where
  "zeroTime = - 62135596800 * second"

definition isZero :: "time \<Rightarrow> bool" where
  "isZero t \<longleftrightarrow> t = zeroTime"

text \<open>\<open>Time.Truncate(d)\<close> rounds down to a multiple of \<open>d\<close> since the zero time.\<close>

definition truncateTo :: "duration \<Rightarrow> time \<Rightarrow> time" where
  "truncateTo d t = t - (t - zeroTime) mod d"

lemma truncateTo_minute: "truncateTo minute t = t - t mod minute"
proof -
  have "(t - zeroTime) mod minute = (t + 1035593280 * minute) mod minute"
    by (simp add: zeroTime_def)
  also have "\<dots> = t mod minute" by (rule mod_mult_self1)
  finally show ?thesis by (simp add: truncateTo_def)
qed

text \<open>\<open>Duration.Truncate(m)\<close> rounds towards zero to a multiple of \<open>m\<close>.\<close>

definition durTruncate :: "duration \<Rightarrow> duration \<Rightarrow> duration" where
  "durTruncate m d = (if m \<le> 0 then d else sgn d * (\<bar>d\<bar> div m) * m)"

text \<open>\<open>Duration.Round(m)\<close> rounds to the nearest multiple of \<open>m\<close>, halves away from zero.\<close>

definition durRound :: "duration \<Rightarrow> duration \<Rightarrow> duration" where
  "durRound m d = (if m \<le> 0 then d else sgn d * ((2 * \<bar>d\<bar> + m) div (2 * m)) * m)"

subsection \<open>Clock and calendar in a location\<close>

definition localSeconds :: "location \<Rightarrow> time \<Rightarrow> int" where
  "localSeconds loc t = t div second + loc (t div second)"

text \<open>The first of January 1970 was a Thursday; Sunday is 0.\<close>

definition weekdayIn :: "location \<Rightarrow> time \<Rightarrow> int" where
  "weekdayIn loc t = (localSeconds loc t div 86400 + 4) mod 7"

definition hourIn :: "location \<Rightarrow> time \<Rightarrow> int" where
  "hourIn loc t = localSeconds loc t mod 86400 div 3600"

definition minuteIn :: "location \<Rightarrow> time \<Rightarrow> int" where
  "minuteIn loc t = localSeconds loc t mod 3600 div 60"

text \<open>
  \<open>time.Date\<close> reads local seconds in a location: the offset in force at that many UTC
  seconds is tried first and, unless it is zero, the one in force after subtracting it is
  used, which is what the library's two lookups amount to.
\<close>

definition fromLocal :: "location \<Rightarrow> int \<Rightarrow> time" where
  "fromLocal loc u = (let off = loc u in if off \<noteq> 0 then u - loc (u - off) else u) * second"

text \<open>Days since the epoch of a date of the Gregorian calendar.\<close>

definition isLeap :: "int \<Rightarrow> bool" where
  "isLeap y \<longleftrightarrow> y mod 4 = 0 \<and> (y mod 100 \<noteq> 0 \<or> y mod 400 = 0)"

definition monthLengths :: "int \<Rightarrow> int list" where
  "monthLengths y = [31, if isLeap y then 29 else 28, 31, 30, 31, 30, 31, 31, 30, 31, 30, 31]"

definition daysIn :: "int \<Rightarrow> int \<Rightarrow> int" where
  "daysIn m y = (if 1 \<le> m \<and> m \<le> 12 then monthLengths y ! nat (m - 1) else 0)"

definition dayNumber :: "int \<Rightarrow> int \<Rightarrow> int \<Rightarrow> int" where
  "dayNumber y m d =
     365 * (y - 1) + (y - 1) div 4 - (y - 1) div 100 + (y - 1) div 400
       + sum_list (take (nat (m - 1)) (monthLengths y)) + (d - 1) - 719162"

lemma dayNumber_epoch: "dayNumber 1970 1 1 = 0"
  by (simp add: dayNumber_def monthLengths_def)

text \<open>The days of consecutive dates are consecutive, within a month and across its end.\<close>

lemma dayNumber_next_day: "dayNumber y m (d + 1) = dayNumber y m d + 1"
  by (simp add: dayNumber_def)

lemma dayNumber_next_month:
  assumes "1 \<le> m" "m < 12"
  shows "dayNumber y (m + 1) 1 = dayNumber y m (daysIn m y) + 1"
proof -
  define n where "n = nat (m - 1)"
  have n: "nat (m + 1 - 1) = Suc n" "n < length (monthLengths y)"
    using assms by (auto simp: n_def monthLengths_def)
  show ?thesis
    using assms n by (simp add: dayNumber_def daysIn_def take_Suc_conv_app_nth flip: n_def)
qed

text \<open>\<open>t.Date()\<close> in the location, then \<open>time.Date(y, m, d+1, 0, 0, 0, 0, loc)\<close>: the start of
  the next local day.\<close>

definition endOfDay :: "location \<Rightarrow> time \<Rightarrow> time" where
  "endOfDay loc t = fromLocal loc ((localSeconds loc t div 86400 + 1) * 86400)"

subsection \<open>Parsing\<close>

text \<open>The library's \<open>getnum\<close>: two digits, or one when they are not fixed.\<close>

definition getnum :: "bool \<Rightarrow> string \<Rightarrow> (int \<times> string) option" where
  "getnum fixed s =
     (case s of [] \<Rightarrow> None
      | c # cs \<Rightarrow>
          if \<not> isDigit c then None
          else (case cs of
                  d # ds \<Rightarrow> if isDigit d then Some (int (10 * digitVal c + digitVal d), ds)
                            else if fixed then None else Some (int (digitVal c), cs)
                | [] \<Rightarrow> if fixed then None else Some (int (digitVal c), cs)))"

definition skipChar :: "char \<Rightarrow> string \<Rightarrow> string option" where
  "skipChar c s = (case s of d # ds \<Rightarrow> if d = c then Some ds else None | [] \<Rightarrow> None)"

text \<open>A year of four digits, a month and a day of two, with dashes between: the date and the
  text after it. The day is checked against the month at the end of the parse.\<close>

definition parseYMD :: "string \<Rightarrow> ((int \<times> int \<times> int) \<times> string) option" where
  "parseYMD s =
     (if length s < 4 \<or> \<not> list_all isDigit (take 4 s) then None
      else Option.bind (skipChar CHR ''-'' (drop 4 s)) (\<lambda>s1.
           Option.bind (getnum True s1) (\<lambda>(m, s2).
           if m \<le> 0 \<or> 12 < m then None
           else Option.bind (skipChar CHR ''-'' s2) (\<lambda>s3.
                Option.bind (getnum True s3) (\<lambda>(d, s4).
                Some ((int (readNat (take 4 s)), m, d), s4))))))"

text \<open>\<open>time.ParseInLocation("2006-01-02", s, loc)\<close>.\<close>

definition parseDate :: "location \<Rightarrow> string \<Rightarrow> time option" where
  "parseDate loc s =
     Option.bind (parseYMD s) (\<lambda>((y, m, d), r).
       if r \<noteq> [] \<or> d < 1 \<or> daysIn m y < d then None
       else Some (fromLocal loc (dayNumber y m d * 86400)))"

text \<open>\<open>time.ParseInLocation("2006-01-02T15:04", s, loc)\<close>: the hour may have one digit.\<close>

definition parseDateTime :: "location \<Rightarrow> string \<Rightarrow> time option" where
  "parseDateTime loc s =
     Option.bind (parseYMD s) (\<lambda>((y, m, d), r).
     Option.bind (skipChar CHR ''T'' r) (\<lambda>r1.
     Option.bind (getnum False r1) (\<lambda>(h, r2).
     if h < 0 \<or> 24 \<le> h then None
     else Option.bind (skipChar CHR '':'' r2) (\<lambda>r3.
          Option.bind (getnum True r3) (\<lambda>(mi, r4).
          if mi < 0 \<or> 60 \<le> mi \<or> r4 \<noteq> [] \<or> d < 1 \<or> daysIn m y < d then None
          else Some (fromLocal loc (dayNumber y m d * 86400 + h * 3600 + mi * 60)))))))"

text \<open>Locations whose offset never changes, by a whole number of minutes, such as UTC.\<close>

definition fixedZone :: "location \<Rightarrow> bool" where
  "fixedZone loc \<longleftrightarrow> (\<exists>off. loc = (\<lambda>_. 60 * off))"

lemma fixedZone_UTC [simp]: "fixedZone (\<lambda>_. 0)"
  unfolding fixedZone_def by (rule exI [of _ 0]) simp

lemma fixedZoneE:
  assumes "fixedZone loc"
  obtains off where "loc = (\<lambda>_. 60 * off)"
  using assms by (auto simp: fixedZone_def)

end
