(* ===== verification/ApiTypes.thy ===== *)
theory ApiTypes
  imports GoTime
begin

section \<open>The API types of ScalingGroup and ScalingConfig\<close>

text \<open>
  The Go structs of \<open>api/v1\<close>, field for field, in their order. A pointer is an option, a slice
  a list, \<open>metav1.Time\<close> an instant, and a map the code iterates over an association list. The
  type of a selector (\<open>metav1.LabelSelector\<close>) is the API's: labels to match and expressions;
  what a selector matches is decided by apimachinery and a parameter where it is used.
\<close>

subsection \<open>scalingconfig\_types.go: schedules, exceptions, hibernate rules, status\<close>

record ScalingSchedule =
  Days :: "int list"
  StartDay :: "int option"
  EndDay :: "int option"
  StartTime :: string
  EndTime :: string
  Timezone :: string

record ScheduleException =
  exName :: string
  exStart :: string
  exEnd :: string
  exState :: string
  exTimezone :: string

record HibernateRule =
  Preset :: string
  APIVersion :: string
  hrKind :: string
  ReplicasField :: string
  ReadyField :: string
  Names :: "string list"

record ScheduledTransition =
  stTime :: time
  stDesiredState :: string

record Prewarm =
  Auto :: bool
  Minutes :: int

record WakeUp =
  StartedAt :: time
  Seconds :: int

record ScaleDownNode =
  nodeName :: string
  HourlyCost :: string

text \<open>What decides the desired state (\<open>status.mode\<close>), named in \<open>decision.go\<close>, \<open>idle.go\<close> and
  \<open>dependencies.go\<close>; \<open>ModeUnset\<close> is the empty string.\<close>

datatype mode = ModeUnset | ModeSchedule | ModeManualUp | ModeManualDown | ModeException
  | ModeAlwaysOn | ModeDependency | ModePrewarm | ModeOnDemand | ModeIdle

text \<open>\<open>status.phase\<close>, as \<open>workloads.go\<close>, \<open>dependencies.go\<close> and the controllers name it;
  \<open>PhaseUnset\<close> is the empty string of an object never reconciled.\<close>

datatype phase = PhaseUnset | PhaseScaledUp | PhaseScalingUp | PhaseScaledDown | PhaseScalingDown
  | PhaseDryRun | PhaseWaitingForDependencies | PhaseOverriddenByGroup

record ScheduleStatus =
  Mode :: mode
  ssException :: string
  ExceptionEndsAt :: "time option"
  DesiredState :: string
  OverrideExpiresAt :: "time option"
  NextTransition :: "ScheduledTransition option"
  EstimatedHourlySavings :: string
  Currency :: string
  ScaleDownNodes :: "ScaleDownNode list"
  ScaleDownAt :: "time option"
  ssIdleUntil :: "time option"
  WakeUpStartedAt :: "time option"
  RecentWakeUps :: "WakeUp list"
  PrewarmMinutes :: int

text \<open>The zero value of the struct.\<close>

definition emptyScheduleStatus :: ScheduleStatus where
  "emptyScheduleStatus =
     \<lparr>Mode = ModeUnset, ssException = [], ExceptionEndsAt = None, DesiredState = [],
      OverrideExpiresAt = None, NextTransition = None, EstimatedHourlySavings = [], Currency = [],
      ScaleDownNodes = [], ScaleDownAt = None, ssIdleUntil = None, WakeUpStartedAt = None,
      RecentWakeUps = [], PrewarmMinutes = 0\<rparr>"

text \<open>A status condition (\<open>metav1.Condition\<close>) without its transition time, which the API
  machinery keeps. The conditions of an object are a list, with one of each type.\<close>

record Condition =
  condStatus :: bool
  condReason :: string
  condMessage :: string
  condGeneration :: int

type_synonym conditions = "(string \<times> Condition) list"

subsection \<open>costdeckconfig\_types.go: holiday calendars\<close>

record CalendarDay =
  Date :: string
  dayName :: string

record HolidayCalendar =
  calName :: string
  calTimezone :: string
  calState :: string
  calDays :: "CalendarDay list"

subsection \<open>scalinggroup\_types.go\<close>

record LabelRequirement =
  reqKey :: string
  reqOperator :: string
  reqValues :: "string list"

record LabelSelector =
  MatchLabels :: "(string \<times> string) list"
  MatchExpressions :: "LabelRequirement list"

record ScalingGroupFeatureFlags =
  SkipOnTimeout :: bool
  TimeoutMinutes :: int

record ExternalTarget =
  etProvider :: string
  etType :: string
  etIdentifier :: string
  etRegion :: string
  etExecuteAfter :: string
  etStatus :: string
  etName :: string

record ScalingGroupSpec =
  Category :: string
  gNamespaces :: "string list"
  NamespaceSelector :: "LabelSelector option"
  gActive :: "bool option"
  gActiveUntil :: "time option"
  gSchedules :: "ScalingSchedule list"
  gHibernate :: "HibernateRule list"
  gExceptions :: "ScheduleException list"
  gCalendars :: "string list"
  gSequence :: "string list"
  ExternalTargets :: "ExternalTarget list"
  gFeatureFlags :: "ScalingGroupFeatureFlags option"
  DependsOn :: "string list"
  Activation :: string
  gDryRun :: bool
  gPauseGitOps :: bool
  gSleepPage :: bool
  gIdleAfter :: "duration option"
  gPrewarm :: "Prewarm option"

record ScalingGroupStatus =
  gPhase :: phase
  gLastAction :: time
  gOriginalReplicas :: "(string \<times> int) list"
  ManagedCount :: int
  NamespacesReady :: int
  NamespacesTotal :: int
  ReadyNamespaces :: "string list"
  CurrentStage :: int
  SkippedNamespaces :: "string list"
  gsRequiredBy :: "string list"
  ManagedNamespaces :: "string list"
  SelectedNamespaces :: "string list"
  gsConflictingNamespaces :: "string list"
  StoppedExternalTargets :: "ExternalTarget list"
  gScheduleStatus :: ScheduleStatus
  gConditions :: conditions

text \<open>The object: what the code reads of its metadata, the spec and the status.\<close>

record ScalingGroup =
  gName :: string
  gNamespace :: string
  gUID :: string
  gGeneration :: int
  gAnnotations :: "string \<rightharpoonup> string"
  gCreated :: time
  gDeleted :: "time option"
  gFinalizers :: "string list"
  Spec :: ScalingGroupSpec
  Status :: ScalingGroupStatus

text \<open>\<open>OptOutLabel\<close> and \<open>Members\<close> of \<open>scalinggroup_members.go\<close>.\<close>

abbreviation OptOutLabel :: string where
  "OptOutLabel \<equiv> ''costdeck.io/schedule''"

definition Members :: "ScalingGroup \<Rightarrow> string list" where
  "Members g =
     remdups_adj (sort (gNamespaces (Spec g) @
       (if NamespaceSelector (Spec g) \<noteq> None then SelectedNamespaces (Status g) else [])))"

lemma set_Members:
  "set (Members g) = set (gNamespaces (Spec g)) \<union>
     (if NamespaceSelector (Spec g) \<noteq> None then set (SelectedNamespaces (Status g)) else {})"
  by (auto simp: Members_def)

lemma sorted_Members: "sorted (Members g)"
  unfolding Members_def by (rule sorted_remdups_adj) simp

lemma distinct_Members: "distinct (Members g)"
  unfolding Members_def by (rule distinct_remdups_adj_sorted) simp

subsection \<open>ScalingConfig\<close>

record ScalingConfigSpec =
  TargetNamespace :: string
  cActive :: "bool option"
  cActiveUntil :: "time option"
  cSchedules :: "ScalingSchedule list"
  cExceptions :: "ScheduleException list"
  cCalendars :: "string list"
  cSequence :: "string list"
  cFeatureFlags :: "ScalingGroupFeatureFlags option"
  cExclusions :: "string list"
  cHibernate :: "HibernateRule list"
  cDryRun :: bool
  cPauseGitOps :: bool
  cSleepPage :: bool
  cIdleAfter :: "duration option"
  cPrewarm :: "Prewarm option"

record ScalingConfigStatus =
  cPhase :: phase
  cLastAction :: time
  cOriginalReplicas :: "(string \<times> int) list"
  cScheduleStatus :: ScheduleStatus
  cConditions :: conditions

record ScalingConfig =
  cName :: string
  cNamespace :: string
  cUID :: string
  cGeneration :: int
  cAnnotations :: "string \<rightharpoonup> string"
  cDeleted :: "time option"
  cFinalizers :: "string list"
  cSpec :: ScalingConfigSpec
  cStatus :: ScalingConfigStatus

subsection \<open>Namespaces\<close>

record NamespaceObj =
  nsName :: string
  nsLabels :: "string \<rightharpoonup> string"
  nsDeleting :: bool

text \<open>A namespace as the cleanup of previews reads it.\<close>

record PreviewNamespace = NamespaceObj +
  nsAnnotations :: "string \<rightharpoonup> string"
  nsCreated :: time
  nsUID :: string

subsection \<open>Settings\<close>

text \<open>The parts of the CostDeckConfig that the cleanup of previews and the guard of right-sized
  workloads read.\<close>

record NamespaceTTLConfig =
  ntEnabled :: bool
  ntDryRun :: bool
  ntSelector :: string
  ntTTL :: "duration option"
  ntWarnBefore :: "duration option"

record CostDeckConfig =
  cdNamespaceTTL :: NamespaceTTLConfig
  cdGuardMinutes :: int

subsection \<open>Changes made by right-sizing (namespaceoptimization\_types.go)\<close>

record ResourceValues =
  rvCPURequest :: string
  rvCPULimit :: string
  rvMemoryRequest :: string
  rvMemoryLimit :: string

record ContainerOptimization =
  coName :: string
  coOriginal :: ResourceValues
  coOptimized :: ResourceValues

record WorkloadOptimization =
  woName :: string
  woKind :: string
  woOriginal :: ResourceValues
  woOptimized :: ResourceValues
  woContainers :: "ContainerOptimization list"
  woAppliedAt :: "time option"
  woAppliedBy :: string
  woState :: string
  woReason :: string
  woPullRequest :: string

record NamespaceOptimization =
  noNamespace :: string
  noName :: string
  noVersion :: nat
  noTarget :: string
  noActive :: bool
  noOptimizedAt :: time
  noWorkloads :: "WorkloadOptimization list"

end
