(* ===== verification/GoFormat.thy ===== *)
theory GoFormat
  imports GoTime
begin

section \<open>Prelude: printing times, durations and quoted text\<close>

text \<open>
  What the messages in the status are printed with: \<open>time.RFC3339\<close> in UTC, the text of a
  duration, and \<open>%q\<close>. The lemmas show that the date printed is the date of the day.
\<close>

subsection \<open>Dates\<close>

text \<open>The year, the month and the day of the month of a day since the epoch: the year among the
  146097 days of the 400-year cycle, then the month among the days of the year.\<close>

definition yearStart :: "int \<Rightarrow> int" where
  "yearStart y = 365 * (y - 1) + (y - 1) div 4 - (y - 1) div 100 + (y - 1) div 400 - 719162"

text \<open>The estimate is off by one year at most.\<close>

definition yearOf :: "int \<Rightarrow> int" where
  "yearOf n =
     (let y = (n + 719162) * 400 div 146097 + 1
      in if n < yearStart y then y - 1 else if yearStart (y + 1) \<le> n then y + 1 else y)"

fun monthDay :: "int list \<Rightarrow> int \<Rightarrow> int \<Rightarrow> int \<times> int" where
  "monthDay [] m n = (m, n + 1)"
| "monthDay (l # ls) m n = (if n < l \<or> ls = [] then (m, n + 1) else monthDay ls (m + 1) (n - l))"

definition dateOf :: "int \<Rightarrow> int \<times> int \<times> int" where
  "dateOf n = (let y = yearOf n in (y, monthDay (monthLengths y) 1 (n - yearStart y)))"

definition padded :: "nat \<Rightarrow> int \<Rightarrow> string" where
  "padded k n = (let s = itoa n in replicate (k - length s) (CHR ''0'') @ s)"

text \<open>\<open>t.UTC().Format(time.RFC3339)\<close>, of a year with four digits.\<close>

definition formatRFC3339 :: "time \<Rightarrow> string" where
  "formatRFC3339 t =
     (let s = t div second; (y, m, d) = dateOf (s div 86400); c = s mod 86400
      in padded 4 y @ ''-'' @ padded 2 m @ ''-'' @ padded 2 d @ ''T''
         @ padded 2 (c div 3600) @ '':'' @ padded 2 (c mod 3600 div 60) @ '':'' @ padded 2 (c mod 60) @ ''Z'')"

subsection \<open>Durations\<close>

text \<open>A number of units with its fraction in so many digits, without the zeros at its end.\<close>

definition withFraction :: "nat \<Rightarrow> int \<Rightarrow> string" where
  "withFraction k n =
     (let f = rev (dropWhile (\<lambda>c. c = CHR ''0'') (rev (padded k (n mod 10 ^ k))))
      in itoa (n div 10 ^ k) @ (if f = [] then [] else CHR ''.'' # f))"

definition durationText :: "duration \<Rightarrow> string" where
  "durationText d =
     (let u = \<bar>d\<bar>; m = u div minute
      in (if d < 0 then ''-'' else []) @
         (if u = 0 then ''0s''
          else if u < 1000 then itoa u @ ''ns''
          else if u < 1000000 then withFraction 3 u @ [CHR 0xC2, CHR 0xB5] @ ''s''
          else if u < second then withFraction 6 u @ ''ms''
          else (if 60 \<le> m then itoa (m div 60) @ ''h'' else []) @ (if 0 < m then itoa (m mod 60) @ ''m'' else [])
               @ withFraction 9 (u mod minute) @ ''s''))"

subsection \<open>Quoted text\<close>

text \<open>\<open>strconv.Quote\<close> of text whose characters beyond ASCII are printable.\<close>

definition hexDigit :: "nat \<Rightarrow> char" where
  "hexDigit n = (if n < 10 then digitChar n else char_of (87 + n))"

definition quotedChar :: "char \<Rightarrow> string" where
  "quotedChar c =
     (let n = of_char c :: nat
      in if c = CHR 0x22 \<or> c = CHR 0x5C then [CHR 0x5C, c]
         else if n = 7 then CHR 0x5C # ''a'' else if n = 8 then CHR 0x5C # ''b'' else if n = 9 then CHR 0x5C # ''t''
         else if n = 10 then CHR 0x5C # ''n'' else if n = 11 then CHR 0x5C # ''v'' else if n = 12 then CHR 0x5C # ''f''
         else if n = 13 then CHR 0x5C # ''r''
         else if n < 32 \<or> n = 127 then CHR 0x5C # ''x'' @ [hexDigit (n div 16), hexDigit (n mod 16)]
         else [c])"

definition quoted :: "string \<Rightarrow> string" where
  "quoted s = CHR 0x22 # concat (map quotedChar s) @ [CHR 0x22]"

subsection \<open>The date printed is the date\<close>

lemma leap_bounds:
  fixes x a b c :: int
  assumes "x = 4 * a + r" "0 \<le> r" "r < 4" "x = 100 * b + s" "0 \<le> s" "s < 100" "x = 400 * c + t" "0 \<le> t" "t < 400"
  shows "400 * (a - b + c) \<le> 97 * x + 396 \<and> 97 * x - 699 \<le> 400 * (a - b + c)"
proof -
  have "400 * (a - b + c) = 97 * x - 100 * r + 4 * s - t" using assms(1,4,7) by simp
  then show ?thesis using assms(2,3,5,6,8,9) by simp
qed

lemma leaps:
  fixes x :: int
  shows "400 * (x div 4 - x div 100 + x div 400) \<le> 97 * x + 396
    \<and> 97 * x - 699 \<le> 400 * (x div 4 - x div 100 + x div 400)"
  by (rule leap_bounds [of x _ "x mod 4" _ "x mod 100" _ "x mod 400"]) simp_all

lemma year_between:
  fixes k y p q :: int
  assumes "146097 * (y - 1) \<le> 400 * k" "400 * k < 146097 * y"
    and "400 * p \<le> 97 * (y - 2) + 396" "97 * (y + 1) - 699 \<le> 400 * q"
  shows "365 * (y - 2) + p \<le> k" "k < 365 * (y + 1) + q"
  using assms by (simp_all add: algebra_simps)

lemma div_pred:
  fixes k y q r :: int
  assumes "y = k * q + r" "0 \<le> r" "r < k"
  shows "(y - 1) div k = (if r = 0 then q - 1 else q)"
proof (cases "r = 0")
  case True
  with assms have "y - 1 = k * (q - 1) + (k - 1)" by (simp add: algebra_simps)
  with True assms show ?thesis by (simp add: int_div_pos_eq [of _ _ "q - 1" "k - 1"])
next
  case False
  with assms have "y - 1 = k * q + (r - 1)" by simp
  with False assms show ?thesis by (simp add: int_div_pos_eq [of _ _ q "r - 1"])
qed

lemma yearOf_bounds: "yearStart (yearOf n) \<le> n \<and> n < yearStart (yearOf n + 1)"
proof -
  define k where "k = n + 719162"
  define y where "y = k * 400 div 146097 + 1"
  have y: "146097 * (y - 1) \<le> 400 * k" "400 * k < 146097 * y"
  proof -
    define r where "r = k * 400 mod 146097"
    have "k * 400 = 146097 * (y - 1) + r" "0 \<le> r" "r < 146097" by (simp_all add: y_def r_def)
    then show "146097 * (y - 1) \<le> 400 * k" "400 * k < 146097 * y" by (simp_all add: algebra_simps)
  qed
  have start: "yearStart x = 365 * (x - 1) + (x - 1) div 4 - (x - 1) div 100 + (x - 1) div 400 - 719162" for x
    by (simp add: yearStart_def)
  have "365 * (y - 2) + ((y - 2) div 4 - (y - 2) div 100 + (y - 2) div 400) \<le> k"
    "k < 365 * (y + 1) + ((y + 1) div 4 - (y + 1) div 100 + (y + 1) div 400)"
    using year_between [OF y conjunct1 [OF leaps [of "y - 2"]] conjunct2 [OF leaps [of "y + 1"]]] .
  then have a: "yearStart (y - 1) \<le> n" and b: "n < yearStart (y + 2)"
    by (simp_all add: start k_def add.commute)
  show ?thesis
    unfolding yearOf_def Let_def k_def [symmetric] y_def [symmetric] using a b by (auto simp: algebra_simps)
qed

lemma monthDay_sum:
  "ls \<noteq> [] \<Longrightarrow> 0 \<le> n \<Longrightarrow> n < sum_list ls \<Longrightarrow> monthDay ls m n = (m', d) \<Longrightarrow>
     m \<le> m' \<and> nat (m' - m) < length ls \<and> n = sum_list (take (nat (m' - m)) ls) + (d - 1)
       \<and> 1 \<le> d \<and> d \<le> ls ! nat (m' - m)"
proof (induction ls m n rule: monthDay.induct)
  case (2 l ls m n)
  show ?case
  proof (cases "n < l \<or> ls = []")
    case True
    with 2 show ?thesis by auto
  next
    case False
    with 2 have "m + 1 \<le> m' \<and> nat (m' - (m + 1)) < length ls \<and> n - l = sum_list (take (nat (m' - (m + 1))) ls) + (d - 1)
        \<and> 1 \<le> d \<and> d \<le> ls ! nat (m' - (m + 1))" by auto
    moreover from this have "nat (m' - m) = Suc (nat (m' - (m + 1)))" by linarith
    ultimately show ?thesis by auto
  qed
qed auto

lemma year_step:
  fixes y a b c :: int
  assumes "a' = a - u" "b' = b - v" "c' = c - w"
  shows "365 * y + a - b + c - 719162 - (365 * (y - 1) + a' - b' + c' - 719162) = 365 + u - v + w"
  using assms by simp

lemma year_length: "yearStart (y + 1) - yearStart y = sum_list (monthLengths y)"
proof -
  have d: "((y::int) - 1) div k = y div k - (if y mod k = 0 then 1 else 0)" if "0 < k" for k
    using div_pred [of y k "y div k" "y mod k"] that by simp
  have "yearStart (y + 1) - yearStart y =
      365 + (if y mod 4 = 0 then 1 else 0) - (if y mod 100 = 0 then 1 else 0) + (if y mod 400 = 0 then 1 else 0)"
    unfolding yearStart_def add_diff_cancel_right'
    by (rule year_step) (rule d, simp)+
  moreover have "y mod 4 = 0" if "y mod 100 = 0"
    using mod_mod_cancel [of 4 100 y] that by simp
  moreover have "y mod 100 = 0" if "y mod 400 = 0"
    using mod_mod_cancel [of 100 400 y] that by simp
  moreover have "sum_list (monthLengths y) = (if isLeap y then 366 else 365)"
    by (simp add: monthLengths_def)
  ultimately show ?thesis
    unfolding isLeap_def by (cases "y mod 4 = 0"; cases "y mod 100 = 0"; cases "y mod 400 = 0") simp_all
qed

text \<open>The date of a day is a date of the calendar, and the day of that date.\<close>

lemma dateOf_dayNumber:
  assumes "dateOf n = (y, m, d)"
  shows "dayNumber y m d = n" "1 \<le> m" "m \<le> 12" "1 \<le> d" "d \<le> daysIn m y"
proof -
  from assms have y: "y = yearOf n" and md: "monthDay (monthLengths y) 1 (n - yearStart y) = (m, d)"
    by (auto simp: dateOf_def Let_def)
  have "0 \<le> n - yearStart y" "n - yearStart y < sum_list (monthLengths y)"
    using yearOf_bounds [of n] year_length [of y] by (auto simp: y)
  from monthDay_sum [OF _ this md]
  have *: "1 \<le> m \<and> nat (m - 1) < 12 \<and> n - yearStart y = sum_list (take (nat (m - 1)) (monthLengths y)) + (d - 1)
      \<and> 1 \<le> d \<and> d \<le> monthLengths y ! nat (m - 1)"
    by (simp add: monthLengths_def)
  then show "dayNumber y m d = n" by (simp add: dayNumber_def yearStart_def)
  from * show "1 \<le> m" "m \<le> 12" "1 \<le> d" "d \<le> daysIn m y" by (auto simp: daysIn_def)
qed

end
