(* ===== verification/KubeApi.thy ===== *)
theory KubeApi
  imports Complex_Main ApiTypes GoFormat "HOL-Library.State_Monad"
begin

section \<open>The boundary to the cluster\<close>

text \<open>
  Cost Deck acts on the cluster through the client of controller-runtime and the API server,
  which are not part of the repository. They are a parameter here: a record of the calls the
  code makes, each a state transformer on a world of any type, about whose answers nothing is
  assumed (other clients may change the cluster between any two calls, and every call may
  fail). Beside the world the model keeps the trace of the changes the code has asked for,
  in order, whether they succeeded or not. What a function may ask for is stated with
  \<open>gives\<close>, whatever the cluster answers.

  The objects are those fields the code reads or writes. A resource the code handles without
  its Go type (\<open>unstructured.Unstructured\<close>) is its metadata and the rest of it as a JSON
  value; a JSON number that is not an integer is kept as the integer its conversion to
  \<open>int64\<close> gives, which is all the code reads of one.
\<close>

named_theorems wp

subsection \<open>Objects\<close>

datatype json = JNull | JBool bool | JInt int | JFloat int | JStr string
  | JArr "json list" | JObj "(string \<times> json) list"

record OwnerRef =
  orKind :: string
  orName :: string
  orController :: "bool option"

record ObjMeta =
  omName :: string
  omNamespace :: string
  omLabels :: "string \<rightharpoonup> string"
  omAnnotations :: "string \<rightharpoonup> string"
  omOwners :: "OwnerRef list"
  omGeneration :: int

text \<open>Deployments and StatefulSets; their pod template is the JSON value of it.\<close>

record AppWorkload =
  awMeta :: ObjMeta
  awReplicas :: "int option"
  awSelector :: "LabelSelector option"
  awReadyReplicas :: int
  awStatusReplicas :: int
  awTemplate :: json

record Unstr =
  uGroup :: string
  uVersion :: string
  uKind :: string
  uMeta :: ObjMeta
  uObject :: json

datatype workload = Deployment AppWorkload | StatefulSet AppWorkload | Unstructured Unstr

record CronJob =
  cjMeta :: ObjMeta
  cjSuspend :: "bool option"

record Pod =
  podPhase :: string
  podNode :: string
  podDeleting :: bool
  podConditions :: "(string \<times> string) list"

datatype podQuery = BySelector LabelSelector | ByLabels "(string \<times> string) list"

record ConfigMap =
  cmNamespace :: string
  cmName :: string
  cmLabels :: "(string \<times> string) list"
  cmData :: "(string \<times> string) list"
  cmVersion :: nat

subsection \<open>Errors\<close>

datatype apiError = NotFound | NoMatch | Forbidden | Conflict | AlreadyExists | Invalid | BadRequest | OtherError string

text \<open>An error of the code: one of the API, one of its own, either with context
  (\<open>fmt.Errorf("...: %w", err)\<close>), or several together. A panic ends the call like an error
  without context.\<close>

datatype goError = Api apiError | Msg string | Wrap string goError | Panic string | Aggregate "goError list"

fun rootError :: "goError \<Rightarrow> goError" where
  "rootError (Wrap _ e) = rootError e"
| "rootError e = e"

definition IsNotFound :: "goError \<Rightarrow> bool" where "IsNotFound e \<longleftrightarrow> rootError e = Api NotFound"
definition IsForbidden :: "goError \<Rightarrow> bool" where "IsForbidden e \<longleftrightarrow> rootError e = Api Forbidden"
definition IsConflict :: "goError \<Rightarrow> bool" where "IsConflict e \<longleftrightarrow> rootError e = Api Conflict"
definition IsAlreadyExists :: "goError \<Rightarrow> bool" where "IsAlreadyExists e \<longleftrightarrow> rootError e = Api AlreadyExists"
definition IsNoMatchError :: "goError \<Rightarrow> bool" where "IsNoMatchError e \<longleftrightarrow> rootError e = Api NoMatch"

subsection \<open>Changes and calls\<close>

text \<open>The changes the scaling engine asks for: a merge patch from a copy to the object
  (\<open>client.MergeFrom\<close>), a raw merge patch, a creation, a deletion, the scaling of an
  external target through its provider, and, by the controllers, the update of one of Cost
  Deck's own objects or of its status and the announcement of a finished transition. The upkeep of
  namespaces patches and deletes them (with the UID they must still have), keeps its log in a
  ConfigMap, sends notices and keeps the record of the workloads it changed. The API creates and
  deletes groups and configs, and the chat bot answers in a room under a message.\<close>

datatype change =
    PatchWorkload workload workload
  | PatchCronJob CronJob CronJob
  | PatchObject Unstr Unstr
  | MergePatch Unstr json
  | CreateObject Unstr
  | DeleteObject Unstr
  | ScaleExternal ExternalTarget bool
  | UpdateGroup ScalingGroup
  | UpdateGroupStatus ScalingGroup
  | UpdateConfig ScalingConfig
  | UpdateConfigStatus ScalingConfig
  | Announce string string phase
  | PatchNamespace string json
  | DeleteNamespace string string
  | CreateConfigMap ConfigMap
  | UpdateConfigMap ConfigMap
  | SendNotice string string
  | CreateOptimization NamespaceOptimization
  | UpdateOptimizationStatus NamespaceOptimization
  | CreateGroup ScalingGroup
  | DeleteGroup string string
  | CreateConfig ScalingConfig
  | DeleteConfig string string
  | SendMessage string string string

type_synonym 'a reply = "goError + 'a"

record 'w api =
  listDeployments :: "string \<Rightarrow> ('w, AppWorkload list reply) state"
  listStatefulSets :: "string \<Rightarrow> ('w, AppWorkload list reply) state"
  listCronJobs :: "string \<Rightarrow> ('w, CronJob list reply) state"
  listPods :: "string \<Rightarrow> podQuery \<Rightarrow> ('w, Pod list reply) state"
  listUnstructured :: "string \<Rightarrow> string \<Rightarrow> string \<Rightarrow> string option \<Rightarrow> ('w, Unstr list reply) state"
  restMapping :: "string \<Rightarrow> string \<Rightarrow> string list \<Rightarrow> ('w, string reply) state"
  getWorkload :: "workload \<Rightarrow> ('w, workload reply) state"
  getStatefulSet :: "string \<Rightarrow> string \<Rightarrow> ('w, AppWorkload reply) state"
  getUnstructured :: "Unstr \<Rightarrow> ('w, Unstr reply) state"
  patchWorkload :: "workload \<Rightarrow> workload \<Rightarrow> ('w, workload reply) state"
  patchCronJob :: "CronJob \<Rightarrow> CronJob \<Rightarrow> ('w, CronJob reply) state"
  patchObject :: "Unstr \<Rightarrow> Unstr \<Rightarrow> ('w, Unstr reply) state"
  mergePatch :: "Unstr \<Rightarrow> json \<Rightarrow> ('w, Unstr reply) state"
  createObject :: "Unstr \<Rightarrow> ('w, unit reply) state"
  deleteObject :: "Unstr \<Rightarrow> ('w, unit reply) state"
  providerScale :: "ExternalTarget \<Rightarrow> bool \<Rightarrow> ('w, unit reply) state"
  providerReady :: "ExternalTarget \<Rightarrow> bool \<Rightarrow> ('w, bool reply) state"
  clockNow :: "('w, time) state"
  findProvider :: "string \<Rightarrow> ('w, unit reply) state"
  getGroup :: "string \<Rightarrow> string \<Rightarrow> ('w, ScalingGroup reply) state"
  listGroups :: "string option \<Rightarrow> ('w, ScalingGroup list reply) state"
  updateGroup :: "ScalingGroup \<Rightarrow> ('w, unit reply) state"
  updateGroupStatus :: "ScalingGroup \<Rightarrow> ('w, unit reply) state"
  getConfig :: "string \<Rightarrow> string \<Rightarrow> ('w, ScalingConfig reply) state"
  listConfigs :: "string option \<Rightarrow> ('w, ScalingConfig list reply) state"
  updateConfig :: "ScalingConfig \<Rightarrow> ('w, unit reply) state"
  updateConfigStatus :: "ScalingConfig \<Rightarrow> ('w, unit reply) state"
  listNamespaces :: "('w, NamespaceObj list reply) state"
  readCalendars :: "('w, HolidayCalendar list reply) state"
  countRequests :: "(string \<Rightarrow> duration \<Rightarrow> ('w, (rat \<times> bool) reply) state) option"
  gpuPeakOf :: "(string \<Rightarrow> duration \<Rightarrow> ('w, (rat \<times> bool) reply) state) option"
  priceOf :: "int \<times> int \<Rightarrow> ('w, (string \<times> string) option) state"  \<comment> \<open>formatted amount and currency\<close>
  nodeCost :: "string \<Rightarrow> ('w, string) state"
  asSelector :: "LabelSelector \<Rightarrow> bool option"         \<comment> \<open>valid, and then whether it is empty\<close>
  selectorToJson :: "LabelSelector \<Rightarrow> json option"     \<comment> \<open>\<open>ToUnstructured\<close>\<close>
  selectorOfJson :: "json \<Rightarrow> LabelSelector option"     \<comment> \<open>\<open>FromUnstructured\<close>\<close>
  parseSelector :: "string \<Rightarrow> LabelSelector option"    \<comment> \<open>\<open>ParseToLabelSelector\<close>\<close>
  namespaceMatcher :: "LabelSelector \<Rightarrow> ((string \<rightharpoonup> string) \<Rightarrow> bool) option"
  podRequests :: "json \<Rightarrow> int \<times> int"                   \<comment> \<open>\<open>PodRequests\<close> of a template, in smallest units\<close>
  groupVersionOf :: "string \<Rightarrow> (string \<times> string) option"       \<comment> \<open>\<open>ParseGroupVersion\<close>\<close>
  zones :: zoneinfo
  errorText :: "goError \<Rightarrow> string"                   \<comment> \<open>\<open>err.Error()\<close>\<close>
  env :: "string \<Rightarrow> string"                          \<comment> \<open>\<open>os.Getenv\<close>\<close>
  notifier :: bool                                   \<comment> \<open>whether transitions are announced\<close>

text \<open>The world with the trace, and what the process keeps in memory: whether KEDA is installed
  (\<open>kedaProbe\<close>), when the use of an object was last measured (\<open>idleWatch\<close>) and the phase last
  announced for it (\<open>transitionLog\<close>).\<close>

record 'w world =
  ext :: 'w
  trace :: "change list"
  kedaMissing :: bool
  kedaCheckedAt :: time
  measuredAt :: "string \<rightharpoonup> time"
  announcedPhase :: "string \<rightharpoonup> phase"

type_synonym ('w, 'a) io = "('w world, 'a) state"

text \<open>A call that only reads, and one that asks for a change.\<close>

definition ask :: "('w, 'a) state \<Rightarrow> ('w, 'a) io" where
  "ask m = State (\<lambda>w. case run_state m (ext w) of (x, e) \<Rightarrow> (x, w\<lparr>ext := e\<rparr>))"

definition act :: "change \<Rightarrow> ('w, 'a) state \<Rightarrow> ('w, 'a) io" where
  "act c m = State (\<lambda>w. case run_state m (ext w) of (x, e) \<Rightarrow> (x, w\<lparr>ext := e, trace := trace w @ [c]\<rparr>))"

text \<open>Go's early return on an error.\<close>

definition attempt :: "('w, 'e + 'a) state \<Rightarrow> ('a \<Rightarrow> ('w, 'e + 'b) state) \<Rightarrow> ('w, 'e + 'b) state" where
  "attempt m f = do { r \<leftarrow> m; case r of Inl e \<Rightarrow> State_Monad.return (Inl e) | Inr x \<Rightarrow> f x }"

definition wrapped :: "string \<Rightarrow> ('w, goError + 'a) state \<Rightarrow> ('w, goError + 'a) state" where
  "wrapped ctx m = do { r \<leftarrow> m; State_Monad.return (map_sum (Wrap ctx) id r) }"

subsection \<open>What a function may ask for\<close>

definition gives :: "('w, 'a) io \<Rightarrow> ('a \<Rightarrow> change list \<Rightarrow> bool) \<Rightarrow> bool" where
  "gives m R \<longleftrightarrow> (\<forall>w x w'. run_state m w = (x, w') \<longrightarrow> (\<exists>cs. trace w' = trace w @ cs \<and> R x cs))"

lemma givesD:
  assumes "gives m R" "run_state m w = (x, w')"
  obtains cs where "trace w' = trace w @ cs" "R x cs"
  using assms unfolding gives_def by blast

lemma gives_mono: "gives m R \<Longrightarrow> (\<And>x cs. R x cs \<Longrightarrow> S x cs) \<Longrightarrow> gives m S"
  unfolding gives_def by blast

lemma gives_conj: "gives m R \<Longrightarrow> gives m S \<Longrightarrow> gives m (\<lambda>x cs. R x cs \<and> S x cs)"
  unfolding gives_def by (metis same_append_eq)

lemma gives_return [wp]: "R x [] \<Longrightarrow> gives (State_Monad.return x) R"
  by (simp add: gives_def)

lemma gives_bind [wp]:
  assumes "gives m (\<lambda>x cs. gives (f x) (\<lambda>y ds. R y (cs @ ds)))"
  shows "gives (m \<bind> f) R"
  unfolding gives_def
proof (intro allI impI)
  fix w y w''
  assume r: "run_state (m \<bind> f) w = (y, w'')"
  obtain x w' where m: "run_state m w = (x, w')" by fastforce
  with r have f: "run_state (f x) w' = (y, w'')" by simp
  obtain cs where cs: "trace w' = trace w @ cs" "gives (f x) (\<lambda>y ds. R y (cs @ ds))"
    by (rule givesD [OF assms m])
  obtain ds where ds: "trace w'' = trace w' @ ds" "R y (cs @ ds)"
    by (rule givesD [OF cs(2) f])
  show "\<exists>cs. trace w'' = trace w @ cs \<and> R y cs"
    by (rule exI [of _ "cs @ ds"]) (use cs ds in simp)
qed

text \<open>The answers a call can give are \<open>set_state\<close> of it.\<close>

lemma gives_ask [wp]: "(\<And>x. x \<in> set_state m \<Longrightarrow> R x []) \<Longrightarrow> gives (ask m) R"
  by (auto simp: gives_def ask_def set_state_iff split: prod.splits)

lemma gives_act [wp]: "(\<And>x. R x [c]) \<Longrightarrow> gives (act c m) R"
  by (auto simp: gives_def act_def split: prod.splits)

lemma gives_attempt [wp]:
  assumes "gives m (\<lambda>r cs. case r of Inl e \<Rightarrow> R (Inl e) cs | Inr x \<Rightarrow> gives (f x) (\<lambda>y ds. R y (cs @ ds)))"
  shows "gives (attempt m f) R"
  unfolding attempt_def
  by (rule gives_bind, rule gives_mono [OF assms]) (auto intro: gives_return split: sum.splits)

lemma gives_wrapped [wp]: "gives m (\<lambda>r. R (map_sum (Wrap ctx) id r)) \<Longrightarrow> gives (wrapped ctx m) R"
  unfolding wrapped_def
  by (rule gives_bind, erule gives_mono, rule gives_return) simp

lemma gives_get [wp]: "(\<And>w. R w []) \<Longrightarrow> gives State_Monad.get R"
  by (simp add: gives_def)

lemma gives_if [wp]: "(b \<Longrightarrow> gives m R) \<Longrightarrow> (\<not> b \<Longrightarrow> gives n R) \<Longrightarrow> gives (if b then m else n) R"
  by simp

text \<open>Every change asked for satisfies \<open>P\<close>.\<close>

definition only :: "(change \<Rightarrow> bool) \<Rightarrow> ('w, 'a) io \<Rightarrow> bool" where
  "only P m \<longleftrightarrow> gives m (\<lambda>_ cs. \<forall>c \<in> set cs. P c)"

lemma onlyD: "only P m \<Longrightarrow> run_state m w = (x, w') \<Longrightarrow> \<exists>cs. trace w' = trace w @ cs \<and> (\<forall>c \<in> set cs. P c)"
  unfolding only_def gives_def by blast

lemma only_mono: "only P m \<Longrightarrow> (\<And>c. P c \<Longrightarrow> Q c) \<Longrightarrow> only Q m"
  unfolding only_def by (erule gives_mono) blast

text \<open>A computation that asks for no change.\<close>

definition reads :: "('w, 'a) io \<Rightarrow> bool" where
  "reads m \<longleftrightarrow> only (\<lambda>_. False) m"

lemma reads_only: "reads m \<Longrightarrow> only P m"
  unfolding reads_def by (erule only_mono) simp

lemma readsI: "(\<And>P. only P m) \<Longrightarrow> reads m"
  by (simp add: reads_def)

lemma only_return: "only P (State_Monad.return x)"
  by (simp add: only_def gives_return)

lemma only_ask: "only P (ask m)"
  by (simp add: only_def gives_ask)

lemma only_act: "P c \<Longrightarrow> only P (act c m)"
  by (simp add: only_def gives_act)

lemma only_get: "only P State_Monad.get"
  by (simp add: only_def gives_get)

lemma only_bind: "only P m \<Longrightarrow> (\<And>x. only P (f x)) \<Longrightarrow> only P (m \<bind> f)"
  unfolding only_def
  by (rule gives_bind, erule gives_mono, rule gives_mono, assumption) auto

lemma only_attempt: "only P m \<Longrightarrow> (\<And>x. only P (f x)) \<Longrightarrow> only P (attempt m f)"
  unfolding attempt_def by (rule only_bind) (auto intro: only_return split: sum.splits)

lemma only_wrapped: "only P m \<Longrightarrow> only P (wrapped ctx m)"
  unfolding wrapped_def by (rule only_bind) (auto intro: only_return)

lemma only_if: "(b \<Longrightarrow> only P m) \<Longrightarrow> (\<not> b \<Longrightarrow> only P n) \<Longrightarrow> only P (if b then m else n)"
  by simp

lemma only_sum: "(\<And>e. only P (f e)) \<Longrightarrow> (\<And>x. only P (g x)) \<Longrightarrow> only P (case r of Inl e \<Rightarrow> f e | Inr x \<Rightarrow> g x)"
  by (simp split: sum.split)

lemma only_prod: "(\<And>x y. only P (f x y)) \<Longrightarrow> only P (case p of (x, y) \<Rightarrow> f x y)"
  by (simp split: prod.split)

lemma only_option: "only P m \<Longrightarrow> (\<And>x. only P (f x)) \<Longrightarrow> only P (case r of None \<Rightarrow> m | Some x \<Rightarrow> f x)"
  by (simp split: option.split)

lemmas only_intros = only_return only_ask only_act only_get only_bind only_attempt only_wrapped

text \<open>The changes come in the order of a list of kinds of change: first any number of the first
  kind, then any number of the second, and so on. Ending early keeps to every order.\<close>

fun inOrder :: "(change \<Rightarrow> bool) list \<Rightarrow> change list \<Rightarrow> bool" where
  "inOrder [] cs \<longleftrightarrow> cs = []"
| "inOrder (P # Ps) cs \<longleftrightarrow> (\<exists>as bs. cs = as @ bs \<and> (\<forall>c \<in> set as. P c) \<and> inOrder Ps bs)"

lemma inOrder_Nil [simp]: "inOrder Ps []"
  by (induction Ps) auto

lemma inOrder_append: "inOrder Ps cs \<Longrightarrow> inOrder Qs ds \<Longrightarrow> inOrder (Ps @ Qs) (cs @ ds)"
  by (induction Ps arbitrary: cs) (auto, metis append_assoc)

lemma inOrder_merge:
  assumes "\<forall>c \<in> set cs. P c" "inOrder (P # Ps) ds"
  shows "inOrder (P # Ps) (cs @ ds)"
proof -
  from assms(2) obtain as bs where "ds = as @ bs" "\<forall>c \<in> set as. P c" "inOrder Ps bs" by auto
  with assms(1) have "cs @ ds = (cs @ as) @ bs \<and> (\<forall>c \<in> set (cs @ as). P c) \<and> inOrder Ps bs" by auto
  then show ?thesis unfolding inOrder.simps by blast
qed

lemma inOrder_one: "inOrder [P] cs \<longleftrightarrow> (\<forall>c \<in> set cs. P c)"
  by auto

lemma inOrder_set: "inOrder Ps cs \<Longrightarrow> c \<in> set cs \<Longrightarrow> \<exists>P \<in> set Ps. P c"
proof (induction Ps arbitrary: cs)
  case (Cons P Ps)
  then obtain as bs where "cs = as @ bs" "\<forall>c \<in> set as. P c" "inOrder Ps bs" by auto
  with Cons show ?case by (cases "c \<in> set as") auto
qed simp

definition ordered :: "(change \<Rightarrow> bool) list \<Rightarrow> ('w, 'a) io \<Rightarrow> bool" where
  "ordered Ps m \<longleftrightarrow> gives m (\<lambda>_. inOrder Ps)"

lemma orderedD: "ordered Ps m \<Longrightarrow> run_state m w = (x, w') \<Longrightarrow> \<exists>cs. trace w' = trace w @ cs \<and> inOrder Ps cs"
  unfolding ordered_def gives_def by blast

lemma ordered_return: "ordered Ps (State_Monad.return x)"
  by (simp add: ordered_def gives_return)

lemma ordered_only: "only P m \<Longrightarrow> ordered [P] m"
  unfolding only_def ordered_def by (erule gives_mono) (simp add: inOrder_one)

lemma ordered_bind: "ordered Ps m \<Longrightarrow> (\<And>x. ordered Qs (f x)) \<Longrightarrow> ordered (Ps @ Qs) (m \<bind> f)"
  unfolding ordered_def
  by (rule gives_bind, erule gives_mono, rule gives_mono, assumption) (rule inOrder_append)

lemma list_all_False: "list_all (\<lambda>_. False) xs \<longleftrightarrow> xs = []"
  by (cases xs) auto

text \<open>With what is known of the result.\<close>

lemma ordered_bind_result:
  assumes "gives m (\<lambda>x cs. inOrder Ps cs \<and> P x)" "\<And>x. P x \<Longrightarrow> ordered Qs (f x)"
  shows "ordered (Ps @ Qs) (m \<bind> f)"
  unfolding ordered_def
proof (rule gives_bind, rule gives_mono [OF assms(1)])
  fix x cs assume "inOrder Ps cs \<and> P x"
  with assms(2) show "gives (f x) (\<lambda>_ ds. inOrder (Ps @ Qs) (cs @ ds))"
    unfolding ordered_def by (auto intro: gives_mono inOrder_append)
qed

definition yields :: "('w, 'a) io \<Rightarrow> ('a \<Rightarrow> bool) \<Rightarrow> bool" where
  "yields m P \<longleftrightarrow> (\<forall>w x w'. run_state m w = (x, w') \<longrightarrow> P x)"

lemma yields_return: "P x \<Longrightarrow> yields (State_Monad.return x) P"
  by (simp add: yields_def)

lemma yields_bind: "yields m Q \<Longrightarrow> (\<And>x. Q x \<Longrightarrow> yields (f x) P) \<Longrightarrow> yields (m \<bind> f) P"
  unfolding yields_def
proof (intro allI impI)
  fix w y w''
  assume m: "\<forall>w x w'. run_state m w = (x, w') \<longrightarrow> Q x"
    and f: "\<And>x. Q x \<Longrightarrow> \<forall>w y w'. run_state (f x) w = (y, w') \<longrightarrow> P y"
    and r: "run_state (m \<bind> f) w = (y, w'')"
  obtain x w' where x: "run_state m w = (x, w')" by fastforce
  with r have "run_state (f x) w' = (y, w'')" by simp
  with m f x show "P y" by blast
qed

lemma yields_True: "yields m (\<lambda>_. True)"
  by (simp add: yields_def)

lemma yields_ask: "(\<And>x. x \<in> set_state m \<Longrightarrow> P x) \<Longrightarrow> yields (ask m) P"
  by (auto simp: yields_def ask_def set_state_iff split: prod.splits)

lemma ordered_yields: "ordered Ps m \<Longrightarrow> yields m P \<Longrightarrow> gives m (\<lambda>x cs. inOrder Ps cs \<and> P x)"
  unfolding ordered_def gives_def yields_def by blast

lemma reads_yields:
  assumes "reads m" "yields m P"
  shows "gives m (\<lambda>x cs. cs = [] \<and> P x)"
proof -
  have "gives m (\<lambda>x cs. (\<forall>c \<in> set cs. False) \<and> P x)"
    using assms unfolding reads_def only_def gives_def yields_def by blast
  then show ?thesis by (rule gives_mono) (simp add: list_all_iff [symmetric] list_all_False)
qed

lemma reads_ordered: "reads m \<Longrightarrow> ordered [] m"
  unfolding ordered_def by (erule gives_mono [OF reads_yields [OF _ yields_True]]) simp

lemma ordered_then: "ordered Ps m \<Longrightarrow> (\<And>x. ordered [] (f x)) \<Longrightarrow> ordered Ps (m \<bind> f)"
  by (rule ordered_bind [where Qs = "[]", simplified])

lemma ordered_if: "(b \<Longrightarrow> ordered Ps m) \<Longrightarrow> (\<not> b \<Longrightarrow> ordered Ps n) \<Longrightarrow> ordered Ps (if b then m else n)"
  by simp

lemma ordered_sum: "(\<And>e. ordered P (f e)) \<Longrightarrow> (\<And>x. ordered P (g x)) \<Longrightarrow> ordered P (case r of Inl e \<Rightarrow> f e | Inr x \<Rightarrow> g x)"
  by (simp split: sum.split)

lemma ordered_prod: "(\<And>x y. ordered P (f x y)) \<Longrightarrow> ordered P (case p of (x, y) \<Rightarrow> f x y)"
  by (simp split: prod.split)

text \<open>What only reads stands anywhere in an order.\<close>

lemma ordered_reads:
  assumes "reads m" "\<And>x. ordered Ps (f x)"
  shows "ordered Ps (m \<bind> f)"
proof -
  have "ordered [] m"
    using assms(1) unfolding reads_def only_def ordered_def by (rule gives_mono) (simp add: list_all_iff [symmetric] list_all_False)
  from ordered_bind [OF this assms(2)] show ?thesis by simp
qed

lemma ordered_attempt: "ordered Ps m \<Longrightarrow> (\<And>x. ordered Qs (f x)) \<Longrightarrow> ordered (Ps @ Qs) (attempt m f)"
  unfolding attempt_def by (rule ordered_bind) (auto intro: ordered_return split: sum.split)

lemma ordered_wrapped: "ordered Ps m \<Longrightarrow> ordered Ps (wrapped ctx m)"
  unfolding wrapped_def by (rule ordered_bind [where Qs = "[]", simplified]) (auto intro: ordered_return)

lemma ordered_before:
  assumes "ordered Ps m"
  shows "ordered (Qs @ Ps) m"
proof -
  have "inOrder (Qs @ Ps) cs" if "inOrder Ps cs" for cs
    using inOrder_append [OF inOrder_Nil that] by simp
  with assms show ?thesis unfolding ordered_def by (blast intro: gives_mono)
qed

lemma ordered_after:
  assumes "ordered Ps m"
  shows "ordered (Ps @ Qs) m"
proof -
  have "inOrder (Ps @ Qs) cs" if "inOrder Ps cs" for cs
    using inOrder_append [OF that inOrder_Nil] by simp
  with assms show ?thesis unfolding ordered_def by (blast intro: gives_mono)
qed

lemma ordered_mono: "ordered Ps m \<Longrightarrow> list_all2 (\<lambda>P Q. \<forall>c. P c \<longrightarrow> Q c) Ps Qs \<Longrightarrow> ordered Qs m"
proof -
  have "inOrder Qs cs" if "list_all2 (\<lambda>P Q. \<forall>c. P c \<longrightarrow> Q c) Ps Qs" "inOrder Ps cs" for cs
    using that by (induction Ps Qs arbitrary: cs rule: list_all2_induct) (auto, blast)
  moreover assume "ordered Ps m" "list_all2 (\<lambda>P Q. \<forall>c. P c \<longrightarrow> Q c) Ps Qs"
  ultimately show ?thesis unfolding ordered_def by (blast intro: gives_mono)
qed

subsection \<open>After one run\<close>

text \<open>What holds of the answer and the state after one run.\<close>

definition after :: "('s, 'a) state \<Rightarrow> ('a \<Rightarrow> 's \<Rightarrow> bool) \<Rightarrow> 's \<Rightarrow> bool" where
  "after m Q h \<longleftrightarrow> (case run_state m h of (x, h') \<Rightarrow> Q x h')"

lemma afterD: "after m Q h \<Longrightarrow> run_state m h = (x, h') \<Longrightarrow> Q x h'"
  by (simp add: after_def)

lemma afterI: "(\<And>x h'. run_state m h = (x, h') \<Longrightarrow> Q x h') \<Longrightarrow> after m Q h"
  by (simp add: after_def split: prod.split)

lemma after_mono: "after m Q h \<Longrightarrow> (\<And>x h'. Q x h' \<Longrightarrow> R x h') \<Longrightarrow> after m R h"
  by (auto simp: after_def)

lemma after_return [simp]: "after (State_Monad.return x) Q h \<longleftrightarrow> Q x h"
  by (simp add: after_def)

lemma after_bind [simp]: "after (m \<bind> f) Q h \<longleftrightarrow> after m (\<lambda>x. after (f x) Q) h"
  by (simp add: after_def split: prod.splits)

lemma after_attempt [simp]: "after (attempt m f) Q h \<longleftrightarrow>
    after m (\<lambda>r. case r of Inl e \<Rightarrow> Q (Inl e) | Inr x \<Rightarrow> after (f x) Q) h"
  unfolding attempt_def after_bind by (rule arg_cong [of _ _ "\<lambda>Q. after m Q h"]) (simp add: fun_eq_iff split: sum.split)

lemma after_get [simp]: "after State_Monad.get Q h \<longleftrightarrow> Q h h"
  by (simp add: after_def)

lemma after_if [simp]: "after (if b then m else n) Q h \<longleftrightarrow> (if b then after m Q h else after n Q h)"
  by simp

lemma after_True: "(\<And>x h'. Q x h') \<Longrightarrow> after m Q h"
  by (simp add: after_def split: prod.split)

lemma after_ask [simp]: "after (ask m) Q w \<longleftrightarrow> after m (\<lambda>x e. Q x (w\<lparr>ext := e\<rparr>)) (ext w)"
  by (simp add: after_def ask_def split: prod.splits)

lemma after_act [simp]: "after (act c m) Q w \<longleftrightarrow> after m (\<lambda>x e. Q x (w\<lparr>ext := e, trace := trace w @ [c]\<rparr>)) (ext w)"
  by (simp add: after_def act_def split: prod.splits)

subsection \<open>JSON values and nested fields\<close>

fun lookupField :: "string \<Rightarrow> json \<Rightarrow> json option" where
  "lookupField k (JObj m) = map_of m k"
| "lookupField k _ = None"

text \<open>\<open>NestedFieldNoCopy\<close>: the value at a path of keys; a missing key or a value that is no
  object on the way gives none.\<close>

fun nestedField :: "string list \<Rightarrow> json \<Rightarrow> json option" where
  "nestedField [] j = Some j"
| "nestedField (k # ks) j = Option.bind (lookupField k j) (nestedField ks)"

definition nestedString :: "string list \<Rightarrow> json \<Rightarrow> string" where
  "nestedString ks j = (case nestedField ks j of Some (JStr s) \<Rightarrow> s | _ \<Rightarrow> [])"

definition nestedBool :: "string list \<Rightarrow> json \<Rightarrow> bool" where
  "nestedBool ks j = (case nestedField ks j of Some (JBool b) \<Rightarrow> b | _ \<Rightarrow> False)"

definition nestedInt64 :: "string list \<Rightarrow> json \<Rightarrow> int option" where
  "nestedInt64 ks j = (case nestedField ks j of Some (JInt n) \<Rightarrow> Some n | _ \<Rightarrow> None)"

definition nestedSlice :: "string list \<Rightarrow> json \<Rightarrow> json list" where
  "nestedSlice ks j = (case nestedField ks j of Some (JArr xs) \<Rightarrow> xs | _ \<Rightarrow> [])"

definition nestedMap :: "string list \<Rightarrow> json \<Rightarrow> (string \<times> json) list option" where
  "nestedMap ks j = (case nestedField ks j of Some (JObj m) \<Rightarrow> Some m | _ \<Rightarrow> None)"

definition stringAt :: "string \<Rightarrow> json \<Rightarrow> string" where
  "stringAt k j = (case lookupField k j of Some (JStr s) \<Rightarrow> s | _ \<Rightarrow> [])"

fun setField :: "string \<Rightarrow> json \<Rightarrow> json \<Rightarrow> json" where
  "setField k v (JObj m) = JObj (AList.update k v m)"
| "setField k v _ = JObj [(k, v)]"

text \<open>\<open>SetNestedField\<close>: missing objects on the way are created; a value on the way that is no
  object is an error.\<close>

fun setNestedField :: "string list \<Rightarrow> json \<Rightarrow> json \<Rightarrow> json option" where
  "setNestedField [] v j = Some v"
| "setNestedField (k # ks) v (JObj m) =
     (case map_of m k of
        None \<Rightarrow> map_option (\<lambda>j'. JObj (AList.update k j' m)) (setNestedField ks v (JObj []))
      | Some j \<Rightarrow> map_option (\<lambda>j'. JObj (AList.update k j' m)) (setNestedField ks v j))"
| "setNestedField (k # ks) v _ = None"

lemma nestedField_set:
  "setNestedField ks v j = Some j' \<Longrightarrow> nestedField ks j' = Some v"
proof (induction ks v j arbitrary: j' rule: setNestedField.induct)
  case (2 k ks v m)
  then show ?case by (auto simp: update_conv' split: option.splits)
qed auto

end
