(* ===== verification/Workloads.thy ===== *)
theory Workloads
  imports GoPath KubeApi
begin

section \<open>Workloads (internal/scaling/workloads.go, rollouts.go)\<close>

text \<open>
  The Deployments, StatefulSets and Argo Rollouts of a namespace: which of them a schedule
  scales, in which stage, to how many replicas, and when they are there. The replica count a
  workload had before it was scaled down is recorded in an annotation on the workload in the
  patch that scales it down; the lemmas show the round trip, what a scale-down and a scale-up
  may ask for, and how stages are chosen.
\<close>

abbreviation OriginalReplicasAnnotation :: string where
  "OriginalReplicasAnnotation \<equiv> ''costdeck.io/original-replicas''"
abbreviation unsequenced :: nat where "unsequenced \<equiv> 999"
abbreviation kindRollout :: string where "kindRollout \<equiv> ''Rollout''"
abbreviation kindDeployment :: string where "kindDeployment \<equiv> ''Deployment''"
abbreviation kindStatefulSet :: string where "kindStatefulSet \<equiv> ''StatefulSet''"
abbreviation argoGroup :: string where "argoGroup \<equiv> ''argoproj.io''"

subsection \<open>Accessors\<close>

fun metaOf :: "workload \<Rightarrow> ObjMeta" where
  "metaOf (Deployment d) = awMeta d"
| "metaOf (StatefulSet s) = awMeta s"
| "metaOf (Unstructured u) = uMeta u"

abbreviation wName :: "workload \<Rightarrow> string" where "wName w \<equiv> omName (metaOf w)"
abbreviation wNamespace :: "workload \<Rightarrow> string" where "wNamespace w \<equiv> omNamespace (metaOf w)"
abbreviation wAnnotations :: "workload \<Rightarrow> string \<rightharpoonup> string" where
  "wAnnotations w \<equiv> omAnnotations (metaOf w)"

text \<open>A Go map read at a missing key gives the empty string.\<close>

definition annotation :: "(string \<rightharpoonup> string) \<Rightarrow> string \<Rightarrow> string" where
  "annotation m k = (case m k of Some v \<Rightarrow> v | None \<Rightarrow> [])"

definition isRolloutObj :: "Unstr \<Rightarrow> bool" where
  "isRolloutObj u \<longleftrightarrow> uGroup u = argoGroup \<and> uKind u = kindRollout"

fun isRollout :: "workload \<Rightarrow> Unstr option" where
  "isRollout (Unstructured u) = (if isRolloutObj u then Some u else None)"
| "isRollout _ = None"

fun workloadKind :: "workload \<Rightarrow> string" where
  "workloadKind (Deployment _) = kindDeployment"
| "workloadKind (StatefulSet _) = kindStatefulSet"
| "workloadKind (Unstructured u) = (if isRolloutObj u then kindRollout else [])"

definition rolloutReplicas :: "Unstr \<Rightarrow> int" where
  "rolloutReplicas u = (case nestedInt64 [''spec'', ''replicas''] (uObject u) of Some n \<Rightarrow> i32 n | None \<Rightarrow> 1)"

fun getReplicas :: "workload \<Rightarrow> int" where
  "getReplicas (Deployment d) = (case awReplicas d of Some n \<Rightarrow> n | None \<Rightarrow> 1)"
| "getReplicas (StatefulSet s) = (case awReplicas s of Some n \<Rightarrow> n | None \<Rightarrow> 1)"
| "getReplicas (Unstructured u) = (if isRolloutObj u then rolloutReplicas u else 1)"

record workloadState =
  wsDesired :: int
  wsReady :: int
  wsCurrent :: int
  wsSelector :: "LabelSelector option"

definition int64OrZero :: "string list \<Rightarrow> json \<Rightarrow> int" where
  "int64OrZero ks j = (case nestedInt64 ks j of Some n \<Rightarrow> n | None \<Rightarrow> 0)"

definition rolloutState :: "'w api \<Rightarrow> Unstr \<Rightarrow> workloadState" where
  "rolloutState api u =
     \<lparr>wsDesired = rolloutReplicas u,
      wsReady = i32 (int64OrZero [''status'', ''readyReplicas''] (uObject u)),
      wsCurrent = i32 (int64OrZero [''status'', ''replicas''] (uObject u)),
      wsSelector =
        (case nestedMap [''spec'', ''selector''] (uObject u) of
           Some m \<Rightarrow> selectorOfJson api (JObj m)
         | None \<Rightarrow>
             (let s = nestedString [''status'', ''selector''] (uObject u)
              in if s \<noteq> [] then parseSelector api s else None))\<rparr>"

definition appState :: "AppWorkload \<Rightarrow> workloadState" where
  "appState a =
     \<lparr>wsDesired = (case awReplicas a of Some n \<Rightarrow> n | None \<Rightarrow> 1),
      wsReady = awReadyReplicas a, wsCurrent = awStatusReplicas a, wsSelector = awSelector a\<rparr>"

fun stateOf :: "'w api \<Rightarrow> workload \<Rightarrow> workloadState option" where
  "stateOf api (Deployment d) = Some (appState d)"
| "stateOf api (StatefulSet s) = Some (appState s)"
| "stateOf api (Unstructured u) = (if isRolloutObj u then Some (rolloutState api u) else None)"

definition rolloutTemplate :: "Unstr \<Rightarrow> json" where
  "rolloutTemplate u =
     (case nestedMap [''spec'', ''template''] (uObject u) of Some m \<Rightarrow> JObj m | None \<Rightarrow> JObj [])"

fun podTemplate :: "workload \<Rightarrow> json" where
  "podTemplate (Deployment d) = awTemplate d"
| "podTemplate (StatefulSet s) = awTemplate s"
| "podTemplate (Unstructured u) = (if isRolloutObj u then rolloutTemplate u else JObj [])"

subsection \<open>Exclusions\<close>

fun isExcludedTrimmed :: "string \<Rightarrow> string list \<Rightarrow> bool" where
  "isExcludedTrimmed name [] = False"
| "isExcludedTrimmed name (ex0 # exs) =
     (let ex = trimSpace ex0
      in if ex = [] then isExcludedTrimmed name exs
         else if ex = ''*'' then True
         else if (case cutSuffix ex ''*'' of Some before \<Rightarrow> hasPrefix name before | None \<Rightarrow> False) then True
         else if ex = name then True
         else isExcludedTrimmed name exs)"

definition isExcluded :: "string \<Rightarrow> string list \<Rightarrow> bool" where
  "isExcluded name exclusions = isExcludedTrimmed (trimSpace name) exclusions"

definition ownerExclusion :: "OwnerRef \<Rightarrow> string \<Rightarrow> bool" where
  "ownerExclusion ref ex =
     (case cutPrefix (trimSpace ex) ''owner:'' of Some kind \<Rightarrow> equalFold kind (orKind ref) | None \<Rightarrow> False)"

definition ownedByKind :: "workload \<Rightarrow> string list \<Rightarrow> string" where
  "ownedByKind obj exclusions =
     (case find (\<lambda>ref. orController ref = Some True \<and> list_ex (ownerExclusion ref) exclusions)
             (omOwners (metaOf obj)) of
        Some ref \<Rightarrow> orKind ref
      | None \<Rightarrow> [])"

definition excludedObject :: "workload \<Rightarrow> string list \<Rightarrow> bool" where
  "excludedObject obj exclusions \<longleftrightarrow>
     isExcluded (wName obj) exclusions \<or> ownedByKind obj exclusions \<noteq> []"

subsection \<open>Listing\<close>

text \<open>\<open>mapping\<close> (sleep.go): the served version of a kind, or none when it is not installed.\<close>

definition mapping :: "'w api \<Rightarrow> string \<Rightarrow> string \<Rightarrow> string list \<Rightarrow> ('w, string option reply) io" where
  "mapping api grp kind versions =
     do { r \<leftarrow> ask (restMapping api grp kind versions);
          State_Monad.return (case r of
              Inl e \<Rightarrow> if IsNoMatchError e then Inr None else Inl e
            | Inr v \<Rightarrow> Inr (Some v)) }"

definition rolloutRef :: "Unstr \<Rightarrow> string list" where
  "rolloutRef r =
     (if nestedString [''spec'', ''workloadRef'', ''kind''] (uObject r) = kindDeployment
      then (let name = nestedString [''spec'', ''workloadRef'', ''name''] (uObject r)
            in if name \<noteq> [] then [name] else [])
      else [])"

definition listRollouts :: "'w api \<Rightarrow> string \<Rightarrow> ('w, (Unstr list \<times> string list) reply) io" where
  "listRollouts api ns =
     attempt (mapping api argoGroup kindRollout [''v1alpha1'']) (\<lambda>gvk.
       case gvk of
         None \<Rightarrow> State_Monad.return (Inr ([], []))
       | Some version \<Rightarrow>
           attempt (ask (listUnstructured api argoGroup version ''RolloutList'' (Some ns))) (\<lambda>items.
             let rs = map (\<lambda>r. r\<lparr>uGroup := argoGroup, uVersion := version, uKind := kindRollout\<rparr>) items
             in State_Monad.return (Inr (rs, concat (map rolloutRef rs)))))"

definition setOr :: "string list \<Rightarrow> json \<Rightarrow> json \<Rightarrow> json" where
  "setOr ks v j = (case setNestedField ks v j of Some j' \<Rightarrow> j' | None \<Rightarrow> j)"

definition withReferencedTemplate :: "'w api \<Rightarrow> (string \<rightharpoonup> AppWorkload) \<Rightarrow> Unstr \<Rightarrow> Unstr" where
  "withReferencedTemplate api deployments r =
     (if nestedMap [''spec'', ''template''] (uObject r) \<noteq> None then r
      else (case deployments (nestedString [''spec'', ''workloadRef'', ''name''] (uObject r)) of
              None \<Rightarrow> r
            | Some d \<Rightarrow>
                (let o1 = setOr [''spec'', ''template''] (awTemplate d) (uObject r);
                     o2 = (if nestedMap [''spec'', ''selector''] o1 = None
                           then (case Option.bind (awSelector d) (selectorToJson api) of
                                   Some sel \<Rightarrow> setOr [''spec'', ''selector''] sel o1
                                 | None \<Rightarrow> o1)
                           else o1)
                 in r\<lparr>uObject := o2\<rparr>)))"

definition selectScalable ::
    "'w api \<Rightarrow> AppWorkload list \<Rightarrow> AppWorkload list \<Rightarrow> Unstr list \<Rightarrow> string list \<Rightarrow> string list \<Rightarrow> workload list" where
  "selectScalable api deployments statefulSets rollouts referenced exclusions =
     map Deployment (filter (\<lambda>d. omName (awMeta d) \<notin> set referenced \<and> \<not> excludedObject (Deployment d) exclusions)
                       deployments)
     @ map StatefulSet (filter (\<lambda>s. \<not> excludedObject (StatefulSet s) exclusions) statefulSets)
     @ map (\<lambda>r. Unstructured (withReferencedTemplate api
                   (map_of (rev (map (\<lambda>d. (omName (awMeta d), d)) deployments))) r))
         (filter (\<lambda>r. \<not> excludedObject (Unstructured r) exclusions) rollouts)"

definition listScalableResources :: "'w api \<Rightarrow> string \<Rightarrow> string list \<Rightarrow> ('w, workload list reply) io" where
  "listScalableResources api ns exclusions =
     attempt (ask (listDeployments api ns)) (\<lambda>deployments.
     attempt (ask (listStatefulSets api ns)) (\<lambda>statefulSets.
     attempt (listRollouts api ns) (\<lambda>(rollouts, referenced).
       State_Monad.return (Inr (selectScalable api deployments statefulSets rollouts referenced exclusions)))))"

subsection \<open>Stages\<close>

definition dropGroupVersion :: "string \<Rightarrow> string" where
  "dropGroupVersion pattern =
     (case cutChar CHR '':'' pattern of Some (_, rest) \<Rightarrow> rest | None \<Rightarrow> pattern)"

definition patternSpecificity :: "string \<Rightarrow> nat" where
  "patternSpecificity pattern =
     (if pattern = ''*'' then 1
      else (let p = dropGroupVersion pattern;
                n = (case cutChar CHR ''/'' p of Some (_, n) \<Rightarrow> n | None \<Rightarrow> p)
            in if list_ex (\<lambda>c. c \<in> set ''*?['') n then 2 else 3))"

definition matchWorkloadPattern :: "string \<Rightarrow> string \<Rightarrow> string \<Rightarrow> bool" where
  "matchWorkloadPattern pattern kind name =
     (if pattern = ''*'' then True
      else (let p = dropGroupVersion pattern
            in case cutChar CHR ''/'' p of
                 Some (k, n) \<Rightarrow> equalFold k kind \<and> globMatches n name
               | None \<Rightarrow> globMatches p name))"

fun bestPattern :: "string \<Rightarrow> string \<Rightarrow> nat \<Rightarrow> string list \<Rightarrow> nat \<times> nat \<Rightarrow> nat \<times> nat" where
  "bestPattern kind name i [] best = best"
| "bestPattern kind name i (p # ps) best =
     bestPattern kind name i ps
       (if matchWorkloadPattern p kind name \<and> snd best < patternSpecificity p
        then (i, patternSpecificity p) else best)"

fun bestStage :: "string \<Rightarrow> string \<Rightarrow> nat \<Rightarrow> string list \<Rightarrow> nat \<times> nat \<Rightarrow> nat \<times> nat" where
  "bestStage kind name i [] best = best"
| "bestStage kind name i (stage # stages) best =
     bestStage kind name (Suc i) stages (bestPattern kind name i (GoBase.fields stage) best)"

definition getSequenceIndex :: "workload \<Rightarrow> string list \<Rightarrow> nat" where
  "getSequenceIndex obj sequence = fst (bestStage (workloadKind obj) (wName obj) 0 sequence (unsequenced, 0))"

text \<open>The priorities in the order they are scaled in, and the workloads of each.\<close>

definition groupAndSortPriorities ::
    "workload list \<Rightarrow> string list \<Rightarrow> bool \<Rightarrow> nat list \<times> (nat \<Rightarrow> workload list)" where
  "groupAndSortPriorities resources sequence active =
     (let priorities = sort (remdups (map (\<lambda>obj. getSequenceIndex obj sequence) resources))
      in (if active then priorities else rev priorities,
          \<lambda>p. filter (\<lambda>obj. getSequenceIndex obj sequence = p) resources))"

subsection \<open>Replica counts\<close>

type_synonym originals = "(string \<times> int) list"

text \<open>The key of a workload in \<open>status.originalReplicas\<close>, \<open>%T/%s\<close> of its Go type.\<close>

fun goType :: "workload \<Rightarrow> string" where
  "goType (Deployment _) = ''*v1.Deployment''"
| "goType (StatefulSet _) = ''*v1.StatefulSet''"
| "goType (Unstructured _) = ''*unstructured.Unstructured''"

definition originalKey :: "workload \<Rightarrow> string" where
  "originalKey obj = (if isRollout obj \<noteq> None then kindRollout else goType obj) @ ''/'' @ wName obj"

definition originalOf :: "originals \<Rightarrow> string \<Rightarrow> int" where
  "originalOf m k = (case map_of m k of Some n \<Rightarrow> n | None \<Rightarrow> 0)"

definition recordedReplicas :: "workload \<Rightarrow> originals \<Rightarrow> int" where
  "recordedReplicas obj originals =
     (case parseInt 32 (annotation (wAnnotations obj) OriginalReplicasAnnotation) of
        Some v \<Rightarrow> if 0 < v then v else max (originalOf originals (originalKey obj)) 0
      | None \<Rightarrow> max (originalOf originals (originalKey obj)) 0)"

definition targetReplicas :: "bool \<Rightarrow> int \<Rightarrow> int \<Rightarrow> int" where
  "targetReplicas active current original =
     (if \<not> active then 0
      else if current < original then original
      else if 0 < current then current
      else 1)"

definition cleanupOriginals :: "workload list \<Rightarrow> originals \<Rightarrow> originals" where
  "cleanupOriginals objs originals = dropKeys (\<lambda>k. k \<in> set (map originalKey objs)) originals"

definition recordAnnotation :: "int \<Rightarrow> int \<Rightarrow> (string \<rightharpoonup> string) \<Rightarrow> string \<rightharpoonup> string" where
  "recordAnnotation count rec annotations =
     (if 0 < rec then annotations(OriginalReplicasAnnotation \<mapsto> itoa rec)
      else if 0 < count then annotations(OriginalReplicasAnnotation := None)
      else annotations)"

definition annotated :: "int \<Rightarrow> int \<Rightarrow> ObjMeta \<Rightarrow> ObjMeta" where
  "annotated count rec m = m\<lparr>omAnnotations := recordAnnotation count rec (omAnnotations m)\<rparr>"

text \<open>What \<open>setReplicas\<close> makes of the object before it patches it.\<close>

fun withReplicas :: "workload \<Rightarrow> int \<Rightarrow> int \<Rightarrow> workload reply" where
  "withReplicas (Deployment d) count rec =
     Inr (Deployment (d\<lparr>awReplicas := Some count, awMeta := annotated count rec (awMeta d)\<rparr>))"
| "withReplicas (StatefulSet s) count rec =
     Inr (StatefulSet (s\<lparr>awReplicas := Some count, awMeta := annotated count rec (awMeta s)\<rparr>))"
| "withReplicas (Unstructured u) count rec =
     (if \<not> isRolloutObj u then Inl (Msg (''unsupported workload kind '' @ uKind u))
      else (case setNestedField [''spec'', ''replicas''] (JInt count) (uObject u) of
              None \<Rightarrow> Inl (Msg ''value cannot be set'')
            | Some o' \<Rightarrow> Inr (Unstructured (u\<lparr>uObject := o', uMeta := annotated count rec (uMeta u)\<rparr>))))"

definition setReplicas :: "'w api \<Rightarrow> workload \<Rightarrow> int \<Rightarrow> int \<Rightarrow> ('w, workload reply) io" where
  "setReplicas api obj count rec =
     (case withReplicas obj count rec of
        Inl e \<Rightarrow> State_Monad.return (Inl e)
      | Inr new \<Rightarrow> act (PatchWorkload obj new) (patchWorkload api obj new))"

text \<open>The recorded counts are a Go map the function changes in place, also when it fails.\<close>

definition scaleResource ::
    "'w api \<Rightarrow> workload \<Rightarrow> bool \<Rightarrow> originals \<Rightarrow> ('w, originals \<times> workload reply) io" where
  "scaleResource api obj active originals =
     (let key = originalKey obj;
          current = getReplicas obj;
          target = targetReplicas active current (recordedReplicas obj originals);
          hasMark = wAnnotations obj OriginalReplicasAnnotation \<noteq> None
      in if current = target \<and> (\<not> active \<or> \<not> hasMark) then State_Monad.return (originals, Inr obj)
         else (let rec = (if \<not> active \<and> 0 < current then current else 0);
                   originals' = (if \<not> active \<and> 0 < current then AList.update key current originals else originals)
               in do { r \<leftarrow> wrapped ''scale'' (setReplicas api obj target rec);
                       State_Monad.return (originals', r) }))"

subsection \<open>Readiness\<close>

definition podRuns :: "Pod \<Rightarrow> bool" where
  "podRuns p \<longleftrightarrow> podPhase p \<noteq> ''Succeeded'' \<and> podPhase p \<noteq> ''Failed''"

definition hasRemainingPods :: "'w api \<Rightarrow> string \<Rightarrow> LabelSelector option \<Rightarrow> ('w, bool) io" where
  "hasRemainingPods api ns selector =
     (case selector of
        None \<Rightarrow> State_Monad.return False
      | Some s \<Rightarrow>
          if asSelector api s \<noteq> Some False then State_Monad.return False
          else do { r \<leftarrow> ask (listPods api ns (BySelector s));
                    State_Monad.return (case r of Inl e \<Rightarrow> True | Inr pods \<Rightarrow> list_ex podRuns pods) })"

text \<open>The object as the API returned it goes on being used.\<close>

definition isResourceReady :: "'w api \<Rightarrow> workload \<Rightarrow> bool \<Rightarrow> ('w, bool \<times> workload) io" where
  "isResourceReady api obj targetActive =
     do { r \<leftarrow> ask (getWorkload api obj);
          case r of
            Inl e \<Rightarrow> State_Monad.return (IsNotFound e, obj)
          | Inr o' \<Rightarrow>
              (case stateOf api o' of
                 None \<Rightarrow> State_Monad.return (True, o')
               | Some st \<Rightarrow>
                   if targetActive
                   then State_Monad.return (0 < wsDesired st \<and> wsDesired st \<le> wsReady st, o')
                   else if wsDesired st = 0 \<and> wsReady st = 0
                   then do { pods \<leftarrow> hasRemainingPods api (wNamespace o') (wsSelector st);
                             State_Monad.return (\<not> pods, o') }
                   else State_Monad.return (False, o')) }"

fun isGroupReady :: "'w api \<Rightarrow> workload list \<Rightarrow> bool \<Rightarrow> ('w, bool \<times> workload list) io" where
  "isGroupReady api [] targetActive = State_Monad.return (True, [])"
| "isGroupReady api (obj # objs) targetActive =
     do { r \<leftarrow> isResourceReady api obj targetActive;
          if \<not> fst r then State_Monad.return (False, snd r # objs)
          else do { rest \<leftarrow> isGroupReady api objs targetActive;
                    State_Monad.return (fst rest, snd r # snd rest) } }"

fun scaleAll ::
    "'w api \<Rightarrow> workload list \<Rightarrow> bool \<Rightarrow> originals \<Rightarrow> ('w, originals \<times> workload list reply) io" where
  "scaleAll api [] active originals = State_Monad.return (originals, Inr [])"
| "scaleAll api (obj # objs) active originals =
     do { r \<leftarrow> scaleResource api obj active originals;
          case snd r of
            Inl e \<Rightarrow> State_Monad.return (fst r, Inl e)
          | Inr obj' \<Rightarrow>
              do { rest \<leftarrow> scaleAll api objs active (fst r);
                   State_Monad.return (fst rest, map_sum id (\<lambda>os. obj' # os) (snd rest)) } }"

definition settleStage :: "bool \<Rightarrow> workload list \<Rightarrow> bool \<Rightarrow> originals \<Rightarrow> bool \<Rightarrow> originals \<times> bool reply" where
  "settleStage ready objs active originals timeoutPassed =
     (if \<not> ready then (originals, Inr timeoutPassed)
      else (if active then cleanupOriginals objs originals else originals, Inr True))"

definition rescaleStage ::
    "'w api \<Rightarrow> workload list \<Rightarrow> bool \<Rightarrow> originals \<Rightarrow> bool \<Rightarrow> ('w, originals \<times> bool reply) io" where
  "rescaleStage api objs active originals timeoutPassed =
     do { s \<leftarrow> scaleAll api objs active originals;
          case snd s of
            Inl e \<Rightarrow> State_Monad.return (fst s, Inl e)
          | Inr objs' \<Rightarrow>
              do { again \<leftarrow> isGroupReady api objs' active;
                   State_Monad.return (settleStage (fst again) (snd again) active (fst s) timeoutPassed) } }"

definition scalePriorityGroup ::
    "'w api \<Rightarrow> workload list \<Rightarrow> bool \<Rightarrow> originals \<Rightarrow> bool \<Rightarrow> ('w, originals \<times> bool reply) io" where
  "scalePriorityGroup api objs active originals timeoutPassed =
     do { r \<leftarrow> isGroupReady api objs active;
          if \<not> fst r \<or> active then rescaleStage api (snd r) active originals timeoutPassed
          else State_Monad.return (settleStage (fst r) (snd r) active originals timeoutPassed) }"

text \<open>\<open>ComputePhase\<close>: how many workloads there are, are at zero and are ready.\<close>

fun countStates :: "'w api \<Rightarrow> string \<Rightarrow> workload list \<Rightarrow> ('w, nat \<times> nat \<times> nat) io" where
  "countStates api ns [] = State_Monad.return (0, 0, 0)"
| "countStates api ns (obj # objs) =
     (let st = (case stateOf api obj of Some st \<Rightarrow> st
                | None \<Rightarrow> \<lparr>wsDesired = 0, wsReady = 0, wsCurrent = 0, wsSelector = None\<rparr>)
      in do { zero \<leftarrow> (if wsDesired st = 0 \<and> wsCurrent st = 0
                      then do { pods \<leftarrow> hasRemainingPods api ns (wsSelector st); State_Monad.return (\<not> pods) }
                      else State_Monad.return False);
              rest \<leftarrow> countStates api ns objs;
              State_Monad.return
                (Suc (fst rest),
                 (if zero then 1 else 0) + fst (snd rest),
                 (if 0 < wsDesired st \<and> wsDesired st \<le> wsReady st then 1 else 0) + snd (snd rest)) })"

definition ComputePhase :: "'w api \<Rightarrow> string \<Rightarrow> bool \<Rightarrow> string list \<Rightarrow> ('w, phase) io" where
  "ComputePhase api ns targetActive exclusions =
     do { r \<leftarrow> listScalableResources api ns exclusions;
          case r of
            Inl e \<Rightarrow> State_Monad.return (if targetActive then PhaseScalingUp else PhaseScalingDown)
          | Inr objs \<Rightarrow>
              do { c \<leftarrow> countStates api ns objs;
                   State_Monad.return
                     (let (total, zero, ready) = c
                      in if targetActive \<and> ready = total then PhaseScaledUp
                         else if targetActive then PhaseScalingUp
                         else if zero = total then PhaseScaledDown
                         else PhaseScalingDown) } }"

text \<open>The requests of a pod are apimachinery's to work out (\<open>PodRequests\<close>); quantities are
  integers of the smallest unit.\<close>

definition KeptDown ::
    "'w api \<Rightarrow> string \<Rightarrow> originals \<Rightarrow> ('w, (int \<times> int) reply) io" where
  "KeptDown api ns originals =
     (if originals = [] then State_Monad.return (Inr (0, 0))
      else attempt (listScalableResources api ns []) (\<lambda>objs.
        State_Monad.return (Inr (foldl (\<lambda>(cpu, mem) obj.
            let missing = i32 (recordedReplicas obj originals - getReplicas obj);
                (podCPU, podMem) = podRequests api (podTemplate obj)
            in if missing \<le> 0 then (cpu, mem) else (cpu + podCPU * missing, mem + podMem * missing))
          (0, 0) objs))))"

subsection \<open>By hand (rollouts.go)\<close>

record WorkloadInfo =
  wiKind :: string
  wiName :: string
  wiReplicas :: int
  wiReady :: int
  wiAnnotations :: "string \<rightharpoonup> string"
  wiTemplate :: json

definition workloadInfo :: "'w api \<Rightarrow> workload \<Rightarrow> WorkloadInfo" where
  "workloadInfo api obj =
     \<lparr>wiKind = workloadKind obj, wiName = wName obj, wiReplicas = getReplicas obj,
      wiReady = (case stateOf api obj of Some st \<Rightarrow> wsReady st | None \<Rightarrow> 0),
      wiAnnotations = wAnnotations obj, wiTemplate = podTemplate obj\<rparr>"

definition WorkloadsOf :: "'w api \<Rightarrow> string \<Rightarrow> ('w, WorkloadInfo list reply) io" where
  "WorkloadsOf api ns =
     attempt (listScalableResources api ns []) (\<lambda>objs.
       State_Monad.return (Inr (map (workloadInfo api) objs)))"

text \<open>Only the kind, name and namespace of the object a \<open>Get\<close> is given matter to it.\<close>

definition emptyMeta :: "string \<Rightarrow> string \<Rightarrow> ObjMeta" where
  "emptyMeta ns name = \<lparr>omName = name, omNamespace = ns, omLabels = Map.empty, omAnnotations = Map.empty,
     omOwners = [], omGeneration = 0\<rparr>"

definition emptyApp :: "string \<Rightarrow> string \<Rightarrow> AppWorkload" where
  "emptyApp ns name = \<lparr>awMeta = emptyMeta ns name, awReplicas = None, awSelector = None,
     awReadyReplicas = 0, awStatusReplicas = 0, awTemplate = JObj []\<rparr>"

fun withCount :: "workload \<Rightarrow> int \<Rightarrow> workload reply" where
  "withCount (Deployment d) count = Inr (Deployment (d\<lparr>awReplicas := Some count\<rparr>))"
| "withCount (StatefulSet s) count = Inr (StatefulSet (s\<lparr>awReplicas := Some count\<rparr>))"
| "withCount (Unstructured u) count =
     (case setNestedField [''spec'', ''replicas''] (JInt count) (uObject u) of
        None \<Rightarrow> Inl (Msg ''value cannot be set'')
      | Some o' \<Rightarrow> Inr (Unstructured (u\<lparr>uObject := o'\<rparr>)))"

definition setCount :: "'w api \<Rightarrow> workload \<Rightarrow> int \<Rightarrow> ('w, unit reply) io" where
  "setCount api key replicas =
     attempt (ask (getWorkload api key)) (\<lambda>obj.
       case withCount obj replicas of
         Inl e \<Rightarrow> State_Monad.return (Inl e)
       | Inr new \<Rightarrow> attempt (act (PatchWorkload obj new) (patchWorkload api obj new))
                      (\<lambda>_. State_Monad.return (Inr ())))"

definition SetWorkloadReplicas ::
    "'w api \<Rightarrow> string \<Rightarrow> string \<Rightarrow> string \<Rightarrow> int \<Rightarrow> ('w, unit reply) io" where
  "SetWorkloadReplicas api ns kind name replicas =
     (if kind = kindDeployment then setCount api (Deployment (emptyApp ns name)) replicas
      else if kind = kindStatefulSet then setCount api (StatefulSet (emptyApp ns name)) replicas
      else if kind = kindRollout then
        attempt (mapping api argoGroup kindRollout [''v1alpha1'']) (\<lambda>gvk.
          case gvk of
            None \<Rightarrow> State_Monad.return (Inl (Wrap ''Argo Rollouts is not installed'' (Msg ''unknown workload kind'')))
          | Some version \<Rightarrow>
              setCount api (Unstructured \<lparr>uGroup = argoGroup, uVersion = version, uKind = kindRollout,
                 uMeta = emptyMeta ns name, uObject = JObj []\<rparr>) replicas)
      else State_Monad.return (Inl (Msg ''unknown workload kind'')))"

subsection \<open>Replica counts: recorded on the way down, restored on the way up\<close>

lemma parseInt_recorded:
  "0 < n \<Longrightarrow> n < 2 ^ 31 \<Longrightarrow> parseInt 32 (itoa n) = Some n"
  by (rule parseInt_itoa) auto

lemma withReplicas_replicas:
  assumes "withReplicas obj count rec = Inr new" "- (2 ^ 31) \<le> count" "count < 2 ^ 31"
  shows "getReplicas new = count"
  using assms
  by (cases obj) (auto simp: rolloutReplicas_def nestedInt64_def isRolloutObj_def
      dest!: nestedField_set split: if_splits option.splits)

lemma withReplicas_meta:
  "withReplicas obj count rec = Inr new \<Longrightarrow> metaOf new = annotated count rec (metaOf obj)"
  by (cases obj) (auto split: if_splits option.splits)

lemma withReplicas_kind:
  "withReplicas obj count rec = Inr new \<Longrightarrow> workloadKind new = workloadKind obj"
  by (cases obj) (auto simp: isRolloutObj_def split: if_splits option.splits)

lemma recorded_by_patch:
  assumes "withReplicas obj count n = Inr new" "0 < n" "n < 2 ^ 31"
  shows "recordedReplicas new originals = n"
  using assms withReplicas_meta [OF assms(1)]
  by (simp add: recordedReplicas_def annotated_def recordAnnotation_def annotation_def parseInt_recorded)

lemma targetReplicas_bounds:
  "\<not> active \<Longrightarrow> targetReplicas active current original = 0"
  "active \<Longrightarrow> current \<le> targetReplicas active current original
     \<and> (0 \<le> current \<longrightarrow> 1 \<le> targetReplicas active current original)"
  by (auto simp: targetReplicas_def)

lemma targetReplicas_range:
  assumes "current < 2 ^ 31" "original < 2 ^ 31" "- (2 ^ 31) \<le> original"
  shows "- (2 ^ 31) \<le> targetReplicas active current original \<and> targetReplicas active current original < 2 ^ 31"
  using assms by (auto simp: targetReplicas_def)

subsection \<open>What scaling asks for\<close>

text \<open>The change a scale-down or a scale-up of \<open>obj\<close> makes.\<close>

definition scaleChange :: "bool \<Rightarrow> workload \<Rightarrow> workload \<Rightarrow> bool" where
  "scaleChange active obj new \<longleftrightarrow>
     (if active then (\<exists>count. getReplicas obj \<le> count \<and> (0 \<le> getReplicas obj \<longrightarrow> 1 \<le> count)
                     \<and> withReplicas obj count 0 = Inr new)
      else withReplicas obj 0 (max (getReplicas obj) 0) = Inr new)"

lemma scaleResource_gives:
  "gives (scaleResource api obj active originals)
     (\<lambda>r cs. cs = [] \<or> (\<exists>new. cs = [PatchWorkload obj new] \<and> scaleChange active obj new))"
proof -
  have set: "gives (setReplicas api obj count rec)
      (\<lambda>r cs. cs = [] \<or> (\<exists>new. cs = [PatchWorkload obj new] \<and> withReplicas obj count rec = Inr new))" for count rec
    unfolding setReplicas_def by (cases "withReplicas obj count rec") (auto intro: gives_return gives_act)
  have ch: "withReplicas obj (targetReplicas active (getReplicas obj) (recordedReplicas obj originals))
      (if \<not> active \<and> 0 < getReplicas obj then getReplicas obj else 0) = Inr new \<Longrightarrow> scaleChange active obj new" for new
    using targetReplicas_bounds [of active "getReplicas obj" "recordedReplicas obj originals"]
    by (auto simp: scaleChange_def split: if_splits)
  show ?thesis
  proof (cases "getReplicas obj = targetReplicas active (getReplicas obj) (recordedReplicas obj originals)
      \<and> (\<not> active \<or> wAnnotations obj OriginalReplicasAnnotation = None)")
    case True
    then show ?thesis by (auto simp: scaleResource_def Let_def intro: gives_return)
  next
    case False
    then show ?thesis
      unfolding scaleResource_def Let_def
      by (simp only: not_not if_False)
         (rule gives_bind, rule gives_wrapped, rule gives_mono [OF set], rule gives_return,
          simp only: append_Nil2, blast intro: ch)
  qed
qed

lemma isResourceReady_reads: "only P (isResourceReady api obj active)"
  unfolding isResourceReady_def hasRemainingPods_def
  by (intro only_bind only_ask) (auto intro!: only_return only_bind only_ask split: sum.splits option.splits)

lemma listScalableResources_reads: "only P (listScalableResources api ns exclusions)"
  unfolding listScalableResources_def listRollouts_def mapping_def Let_def
  by (intro only_attempt only_ask)
     (auto intro!: only_attempt only_ask only_return only_bind split: option.splits prod.splits)

subsection \<open>Identity of the objects that are scaled\<close>

text \<open>A \<open>Get\<close> answers with the object it was asked for: the one thing assumed of the API where
  identity matters.\<close>

definition sameObject :: "workload \<Rightarrow> workload \<Rightarrow> bool" where
  "sameObject a b \<longleftrightarrow> workloadKind b = workloadKind a \<and> wName b = wName a \<and> wNamespace b = wNamespace a"

definition getsItself :: "'w api \<Rightarrow> bool" where
  "getsItself api \<longleftrightarrow> (\<forall>obj r. Inr r \<in> set_state (getWorkload api obj) \<longrightarrow> sameObject obj r)"

lemma sameObject_refl [simp]: "sameObject a a"
  by (simp add: sameObject_def)

lemma sameObject_trans: "sameObject a b \<Longrightarrow> sameObject b c \<Longrightarrow> sameObject a c"
  by (simp add: sameObject_def)

lemma sameObject_stage: "sameObject a b \<Longrightarrow> getSequenceIndex b sequence = getSequenceIndex a sequence"
  by (simp add: sameObject_def getSequenceIndex_def)

lemma sameObject_excluded: "sameObject a b \<Longrightarrow> isExcluded (wName b) exclusions = isExcluded (wName a) exclusions"
  by (simp add: sameObject_def)

lemma hasRemainingPods_gives: "(\<And>b. R b []) \<Longrightarrow> gives (hasRemainingPods api ns sel) R"
  unfolding hasRemainingPods_def
  by (auto intro!: gives_return gives_bind gives_ask split: option.splits)

lemma isResourceReady_gives:
  assumes "getsItself api"
  shows "gives (isResourceReady api obj active) (\<lambda>r cs. cs = [] \<and> sameObject obj (snd r))"
  unfolding isResourceReady_def
proof (rule gives_bind, rule gives_ask)
  fix r assume r: "r \<in> set_state (getWorkload api obj)"
  show "gives (case r of
            Inl e \<Rightarrow> State_Monad.return (IsNotFound e, obj)
          | Inr o' \<Rightarrow>
              (case stateOf api o' of
                 None \<Rightarrow> State_Monad.return (True, o')
               | Some st \<Rightarrow>
                   if active
                   then State_Monad.return (0 < wsDesired st \<and> wsDesired st \<le> wsReady st, o')
                   else if wsDesired st = 0 \<and> wsReady st = 0
                   then do { pods \<leftarrow> hasRemainingPods api (wNamespace o') (wsSelector st);
                             State_Monad.return (\<not> pods, o') }
                   else State_Monad.return (False, o')))
          (\<lambda>y ds. [] @ ds = [] \<and> sameObject obj (snd y))"
  proof (cases r)
    case (Inl e)
    then show ?thesis by (auto intro: gives_return)
  next
    case (Inr o')
    with r assms have "sameObject obj o'" by (auto simp: getsItself_def)
    with Inr show ?thesis
      by (auto intro!: gives_return gives_bind hasRemainingPods_gives split: option.splits)
  qed
qed

lemma isGroupReady_gives:
  assumes "getsItself api"
  shows "gives (isGroupReady api objs active) (\<lambda>r cs. cs = [] \<and> list_all2 sameObject objs (snd r))"
proof (induction objs)
  case Nil
  show ?case by (simp add: gives_return)
next
  case (Cons obj objs)
  have refl: "list_all2 sameObject objs objs" by (simp add: list_all2_refl)
  show ?case
    unfolding isGroupReady.simps
    by (rule gives_bind, rule gives_mono [OF isResourceReady_gives [OF assms, of obj active]])
       (use refl in \<open>auto intro!: gives_return gives_bind gives_mono [OF Cons.IH]\<close>)
qed

lemma scaleAll_gives:
  "gives (scaleAll api objs active originals)
     (\<lambda>r cs. \<forall>c \<in> set cs. \<exists>obj \<in> set objs. \<exists>new. c = PatchWorkload obj new \<and> scaleChange active obj new)"
proof (induction objs arbitrary: originals)
  case Nil
  show ?case by (simp add: gives_return)
next
  case (Cons obj objs)
  show ?case
    unfolding scaleAll.simps
  proof (rule gives_bind, rule gives_mono [OF scaleResource_gives])
    fix r cs
    assume cs: "cs = [] \<or> (\<exists>new. cs = [PatchWorkload obj new] \<and> scaleChange active obj new)"
    show "gives (case snd r of
            Inl e \<Rightarrow> State_Monad.return (fst r, Inl e)
          | Inr obj' \<Rightarrow>
              do { rest \<leftarrow> scaleAll api objs active (fst r);
                   State_Monad.return (fst rest, map_sum id (\<lambda>os. obj' # os) (snd rest)) })
        (\<lambda>r ds. \<forall>c \<in> set (cs @ ds). \<exists>obj \<in> set (obj # objs). \<exists>new. c = PatchWorkload obj new \<and> scaleChange active obj new)"
    proof (cases "snd r")
      case (Inl e)
      with cs show ?thesis by (auto intro!: gives_return)
    next
      case (Inr obj')
      show ?thesis unfolding Inr sum.case
        by (rule gives_bind, rule gives_mono [OF Cons.IH], rule gives_return) (use cs in auto)
    qed
  qed
qed

text \<open>Scaling a stage changes only the workloads it was given, as the API returns them.\<close>

definition stageChange :: "bool \<Rightarrow> workload list \<Rightarrow> change \<Rightarrow> bool" where
  "stageChange active objs c \<longleftrightarrow>
     (\<exists>obj \<in> set objs. \<exists>old new. c = PatchWorkload old new \<and> sameObject obj old \<and> scaleChange active old new)"

lemma scalePriorityGroup_gives:
  assumes "getsItself api"
  shows "gives (scalePriorityGroup api objs active originals timeoutPassed)
     (\<lambda>r cs. \<forall>c \<in> set cs. stageChange active objs c)"
proof -
  have st: "\<forall>c \<in> set cs. stageChange active objs c"
    if "list_all2 sameObject objs objs'"
      and "\<forall>c \<in> set cs. \<exists>obj \<in> set objs'. \<exists>new. c = PatchWorkload obj new \<and> scaleChange active obj new" for objs' cs
    using that unfolding stageChange_def by (fastforce simp: list_all2_conv_all_nth in_set_conv_nth)
  have re: "gives (rescaleStage api objs' active originals timeoutPassed)
      (\<lambda>r cs. \<forall>c \<in> set cs. stageChange active objs c)" if same: "list_all2 sameObject objs objs'" for objs'
    unfolding rescaleStage_def
  proof (rule gives_bind, rule gives_mono [OF scaleAll_gives])
    fix s :: "originals \<times> workload list reply" and cs
    assume "\<forall>c \<in> set cs. \<exists>obj \<in> set objs'. \<exists>new. c = PatchWorkload obj new \<and> scaleChange active obj new"
    with st [OF same] have cs: "\<forall>c \<in> set cs. stageChange active objs c" by blast
    then show "gives (case snd s of
            Inl e \<Rightarrow> State_Monad.return (fst s, Inl e)
          | Inr objs' \<Rightarrow>
              do { again \<leftarrow> isGroupReady api objs' active;
                   State_Monad.return (settleStage (fst again) (snd again) active (fst s) timeoutPassed) })
        (\<lambda>r ds. \<forall>c \<in> set (cs @ ds). stageChange active objs c)"
      by (auto intro!: gives_return gives_bind gives_mono [OF isGroupReady_gives [OF assms]] split: sum.split)
  qed
  show ?thesis
    unfolding scalePriorityGroup_def
  proof (rule gives_bind, rule gives_mono [OF isGroupReady_gives [OF assms, of objs active]])
    fix r :: "bool \<times> workload list" and cs :: "change list"
    assume "cs = [] \<and> list_all2 sameObject objs (snd r)"
    with re [of "snd r"] show "gives (if \<not> fst r \<or> active then rescaleStage api (snd r) active originals timeoutPassed
          else State_Monad.return (settleStage (fst r) (snd r) active originals timeoutPassed))
        (\<lambda>y ds. \<forall>c \<in> set (cs @ ds). stageChange active objs c)"
      by (auto intro!: gives_return)
  qed
qed

text \<open>Listing and readiness ask for no change whatever the API answers.\<close>

lemma isGroupReady_reads: "only P (isGroupReady api objs active)"
  by (induction objs) (auto intro!: only_return only_bind isResourceReady_reads)

lemma countStates_reads: "only P (countStates api ns objs)"
  by (induction objs)
     (auto simp: Let_def hasRemainingPods_def intro!: only_return only_bind only_ask split: option.split)

lemma ComputePhase_reads: "only P (ComputePhase api ns active exclusions)"
  unfolding ComputePhase_def
  by (intro only_bind listScalableResources_reads)
     (auto intro!: only_return only_bind countStates_reads split: sum.split)

subsection \<open>The stage of a workload\<close>

text \<open>The patterns of a sequence that match a workload: the stage and how specific each is, in
  order.\<close>

definition stageHits :: "string \<Rightarrow> string \<Rightarrow> string list \<Rightarrow> (nat \<times> nat) list" where
  "stageHits kind name sequence =
     concat (map (\<lambda>(i, stage). map (\<lambda>p. (i, patternSpecificity p))
                    (filter (\<lambda>p. matchWorkloadPattern p kind name) (GoBase.fields stage)))
               (enumerate 0 sequence))"

definition keepBest :: "nat \<times> nat \<Rightarrow> nat \<times> nat \<Rightarrow> nat \<times> nat" where
  "keepBest b h = (if snd b < snd h then h else b)"

lemma foldl_keepBest:
  "foldl keepBest b hs = r \<Longrightarrow>
     (r = b \<and> (\<forall>h \<in> set hs. snd h \<le> snd b))
   \<or> (\<exists>xs ys. hs = xs @ r # ys \<and> snd b < snd r
        \<and> (\<forall>h \<in> set xs. snd h < snd r) \<and> (\<forall>h \<in> set ys. snd h \<le> snd r))"
proof (induction hs arbitrary: r rule: rev_induct)
  case Nil
  then show ?case by simp
next
  case (snoc h hs)
  define m where "m = foldl keepBest b hs"
  have "r = keepBest m h" using snoc.prems by (simp add: m_def)
  then have r: "r = (if snd m < snd h then h else m)" by (simp add: keepBest_def)
  note IH = snoc.IH [OF m_def [symmetric]]
  show ?case
  proof (cases "snd m < snd h")
    case True
    have "snd b \<le> snd m \<and> (\<forall>x \<in> set hs. snd x \<le> snd m)" using IH
    proof
      assume "\<exists>xs ys. hs = xs @ m # ys \<and> snd b < snd m
        \<and> (\<forall>h \<in> set xs. snd h < snd m) \<and> (\<forall>h \<in> set ys. snd h \<le> snd m)"
      then obtain xs ys where "hs = xs @ m # ys" "snd b < snd m"
        "\<forall>h \<in> set xs. snd h < snd m" "\<forall>h \<in> set ys. snd h \<le> snd m" by blast
      then show ?thesis by (simp add: ball_Un less_imp_le)
    qed simp
    with True have "\<forall>x \<in> set hs. snd x < snd h" "snd b < snd h" by (meson le_less_trans)+
    with r True show ?thesis by (intro disjI2 exI [of _ hs] exI [of _ "[]"]) simp
  next
    case False
    with IH r show ?thesis
    proof (elim disjE)
      assume "\<exists>xs ys. hs = xs @ m # ys \<and> snd b < snd m
        \<and> (\<forall>h \<in> set xs. snd h < snd m) \<and> (\<forall>h \<in> set ys. snd h \<le> snd m)"
      then obtain xs ys where "hs = xs @ m # ys" "snd b < snd m"
        "\<forall>h \<in> set xs. snd h < snd m" "\<forall>h \<in> set ys. snd h \<le> snd m" by blast
      with False r show ?thesis by (intro disjI2 exI [of _ xs] exI [of _ "ys @ [h]"]) auto
    qed auto
  qed
qed

lemma bestPattern_foldl:
  "bestPattern kind name i ps best =
     foldl keepBest best (map (\<lambda>p. (i, patternSpecificity p)) (filter (\<lambda>p. matchWorkloadPattern p kind name) ps))"
  by (induction ps arbitrary: best) (auto simp: keepBest_def)

lemma bestStage_foldl:
  "bestStage kind name i stages best =
     foldl keepBest best (concat (map (\<lambda>(i, stage). map (\<lambda>p. (i, patternSpecificity p))
                    (filter (\<lambda>p. matchWorkloadPattern p kind name) (GoBase.fields stage)))
               (enumerate i stages)))"
  by (induction stages arbitrary: i best) (auto simp: bestPattern_foldl)

lemma patternSpecificity_pos: "1 \<le> patternSpecificity p"
  by (auto simp: patternSpecificity_def Let_def)

lemma stageHits_sorted: "sorted (map fst (stageHits kind name sequence))"
proof -
  have gen: "sorted (map fst (concat (map (\<lambda>(i, stage). map (\<lambda>p. (i, g p)) (f stage)) (enumerate k xs))))
      \<and> (\<forall>h \<in> set (concat (map (\<lambda>(i, stage). map (\<lambda>p. (i, g p)) (f stage)) (enumerate k xs))). k \<le> fst h)"
    for f :: "string \<Rightarrow> string list" and g :: "string \<Rightarrow> nat" and k xs
  proof (induction xs arbitrary: k)
    case (Cons x xs)
    have "sorted (map fst (map (\<lambda>p. (k, g p)) (f x)))" by (simp add: comp_def map_replicate_const)
    with Cons [of "Suc k"] show ?case by (fastforce simp: sorted_append comp_def)
  qed simp
  show ?thesis unfolding stageHits_def
    by (rule conjunct1 [OF gen [where g = patternSpecificity and f = "\<lambda>stage. filter (\<lambda>p. matchWorkloadPattern p kind name) (GoBase.fields stage)"]])
qed

lemma stageHits_in:
  "(i, s) \<in> set (stageHits kind name sequence) \<longleftrightarrow>
     i < length sequence \<and> (\<exists>p \<in> set (GoBase.fields (sequence ! i)). matchWorkloadPattern p kind name \<and> s = patternSpecificity p)"
proof -
  have "(j, stage) \<in> set (enumerate 0 sequence) \<longleftrightarrow> j < length sequence \<and> stage = sequence ! j" for j stage
    by (auto simp: in_set_enumerate_eq)
  then show ?thesis by (auto simp: stageHits_def)
qed

lemma getSequenceIndex_hits:
  assumes "r = foldl keepBest (unsequenced, 0) (stageHits (workloadKind obj) (wName obj) sequence)"
  shows "getSequenceIndex obj sequence = fst r"
    and "stageHits (workloadKind obj) (wName obj) sequence = [] \<Longrightarrow> r = (unsequenced, 0)"
    and "stageHits (workloadKind obj) (wName obj) sequence \<noteq> [] \<Longrightarrow>
      r \<in> set (stageHits (workloadKind obj) (wName obj) sequence)
      \<and> (\<forall>h \<in> set (stageHits (workloadKind obj) (wName obj) sequence).
           snd h < snd r \<or> snd h = snd r \<and> fst r \<le> fst h)"
proof -
  let ?h = "stageHits (workloadKind obj) (wName obj) sequence"
  show "getSequenceIndex obj sequence = fst r"
    by (simp add: getSequenceIndex_def assms bestStage_foldl stageHits_def)
  show "?h = [] \<Longrightarrow> r = (unsequenced, 0)" using assms by simp
  assume ne: "?h \<noteq> []"
  have pos: "\<forall>h \<in> set ?h. 1 \<le> snd h"
    using patternSpecificity_pos by (auto simp: stageHits_def)
  from foldl_keepBest [OF assms [symmetric]] pos ne obtain xs ys where s: "?h = xs @ r # ys"
    "\<forall>h \<in> set xs. snd h < snd r" "\<forall>h \<in> set ys. snd h \<le> snd r"
    by (metis hd_in_set le_zero_eq not_one_le_zero snd_conv)
  have "\<forall>h \<in> set ys. fst r \<le> fst h"
    using stageHits_sorted [of "workloadKind obj" "wName obj" sequence] unfolding s by (auto simp: sorted_append)
  with s(2,3) show "r \<in> set ?h \<and> (\<forall>h \<in> set ?h. snd h < snd r \<or> snd h = snd r \<and> fst r \<le> fst h)"
    unfolding s(1) by (auto simp: le_less)
qed

lemma groupAndSort_props:
  assumes "groupAndSortPriorities objs sequence active = (ps, gs)"
  shows "distinct ps" "set ps = (\<lambda>obj. getSequenceIndex obj sequence) ` set objs"
    "sorted (if active then ps else rev ps)"
    "gs p = filter (\<lambda>obj. getSequenceIndex obj sequence = p) objs"
  using assms by (cases active; auto simp: groupAndSortPriorities_def Let_def)+

subsection \<open>Properties\<close>

text \<open>C37. A workload is scaled down and up again without losing its size: the patch that takes its
  running replicas to zero records their number on the workload itself, so that, whatever the
  status has recorded, scaling up restores exactly that number and removes the record.\<close>

theorem replicas_round_trip:
  assumes n: "getReplicas obj = n" "0 < n" "n < 2 ^ 31"
    and down: "withReplicas obj (targetReplicas False n (recordedReplicas obj originals)) n = Inr obj'"
    and up: "withReplicas obj' (targetReplicas True (getReplicas obj') (recordedReplicas obj' originals')) 0 = Inr obj''"
  shows "getReplicas obj' = 0 \<and> getReplicas obj'' = n
    \<and> wAnnotations obj'' = (wAnnotations obj)(OriginalReplicasAnnotation := None)
    \<and> sameObject obj obj''"
proof -
  have z: "withReplicas obj 0 n = Inr obj'" using down by (simp add: targetReplicas_def)
  have d: "getReplicas obj' = 0" by (rule withReplicas_replicas [OF z]) simp_all
  have r: "recordedReplicas obj' originals' = n" by (rule recorded_by_patch [OF z n(2,3)])
  have t: "withReplicas obj' n 0 = Inr obj''" using up n(2) by (simp add: d r targetReplicas_def)
  have u: "getReplicas obj'' = n" by (rule withReplicas_replicas [OF t]) (use n in auto)
  have "metaOf obj'' = annotated n 0 (annotated 0 n (metaOf obj))"
    using withReplicas_meta [OF z] withReplicas_meta [OF t] by simp
  then show ?thesis
    using d u n(2) withReplicas_kind [OF z] withReplicas_kind [OF t]
    by (simp add: annotated_def recordAnnotation_def sameObject_def fun_upd_idem_iff)
qed

definition sampleDeployment :: "string \<Rightarrow> int \<Rightarrow> workload" where
  "sampleDeployment name n =
     Deployment \<lparr>awMeta = emptyMeta ''shop'' name, awReplicas = Some n, awSelector = None,
       awReadyReplicas = n, awStatusReplicas = n, awTemplate = JObj []\<rparr>"

lemma replicas_round_trip_witness:
  "\<exists>obj' obj''. withReplicas (sampleDeployment ''web'' 3) 0 3 = Inr obj'
     \<and> withReplicas obj' 3 0 = Inr obj'' \<and> getReplicas obj'' = 3
     \<and> wAnnotations obj'' OriginalReplicasAnnotation = None"
proof -
  obtain obj' where d: "withReplicas (sampleDeployment ''web'' 3) 0 3 = Inr obj'"
    by (simp add: sampleDeployment_def)
  obtain obj'' where u: "withReplicas obj' 3 0 = Inr obj''"
    using d by (auto simp: sampleDeployment_def)
  have n: "getReplicas (sampleDeployment ''web'' 3) = 3" by (simp add: sampleDeployment_def)
  have z: "getReplicas obj' = 0" by (rule withReplicas_replicas [OF d]) simp_all
  have r: "recordedReplicas obj' [] = 3" by (rule recorded_by_patch [OF d]) simp_all
  from replicas_round_trip [of "sampleDeployment ''web'' 3" 3 "[]" obj' "[]" obj''] d u n z r
  show ?thesis by (auto simp: targetReplicas_def)
qed

text \<open>The most specific pattern decides the stage of a workload: when some pattern of the
  sequence matches it, it is in a stage with a matching pattern such that every matching pattern
  anywhere is less specific, or as specific and in the same or a later stage. A workload no
  pattern matches is in none.\<close>

theorem getSequenceIndex_most_specific:
  "if \<exists>i < length sequence. \<exists>p \<in> set (GoBase.fields (sequence ! i)). matchWorkloadPattern p (workloadKind obj) (wName obj)
   then \<exists>p. getSequenceIndex obj sequence < length sequence
      \<and> p \<in> set (GoBase.fields (sequence ! getSequenceIndex obj sequence))
      \<and> matchWorkloadPattern p (workloadKind obj) (wName obj)
      \<and> (\<forall>i < length sequence. \<forall>q \<in> set (GoBase.fields (sequence ! i)).
           matchWorkloadPattern q (workloadKind obj) (wName obj) \<longrightarrow>
             patternSpecificity q < patternSpecificity p
             \<or> patternSpecificity q = patternSpecificity p \<and> getSequenceIndex obj sequence \<le> i)
   else getSequenceIndex obj sequence = unsequenced"
proof -
  let ?h = "stageHits (workloadKind obj) (wName obj) sequence"
  define r where "r = foldl keepBest (unsequenced, 0) ?h"
  note g = getSequenceIndex_hits [OF r_def]
  have some: "(\<exists>i < length sequence. \<exists>p \<in> set (GoBase.fields (sequence ! i)). matchWorkloadPattern p (workloadKind obj) (wName obj))
      \<longleftrightarrow> ?h \<noteq> []"
    using stageHits_in [of _ _ "workloadKind obj" "wName obj" sequence]
    by (metis ex_in_conv set_empty surj_pair)
  show ?thesis
  proof (cases "?h = []")
    case True
    with some have "\<not> (\<exists>i < length sequence. \<exists>p \<in> set (GoBase.fields (sequence ! i)).
        matchWorkloadPattern p (workloadKind obj) (wName obj))" by blast
    then show ?thesis using g(1) g(2) [OF True] by (subst if_not_P) simp_all
  next
    case False
    note b = g(3) [OF False]
    then obtain p where p: "fst r < length sequence" "p \<in> set (GoBase.fields (sequence ! fst r))"
      "matchWorkloadPattern p (workloadKind obj) (wName obj)" "snd r = patternSpecificity p"
      using stageHits_in [of "fst r" "snd r" "workloadKind obj" "wName obj" sequence] by auto
    have "patternSpecificity q < patternSpecificity p \<or> patternSpecificity q = patternSpecificity p \<and> fst r \<le> i"
      if "i < length sequence" "q \<in> set (GoBase.fields (sequence ! i))"
        "matchWorkloadPattern q (workloadKind obj) (wName obj)" for i q
    proof -
      have "(i, patternSpecificity q) \<in> set ?h" using that stageHits_in by blast
      with b p(4) show ?thesis by fastforce
    qed
    with p g(1) have "\<exists>p. getSequenceIndex obj sequence < length sequence
      \<and> p \<in> set (GoBase.fields (sequence ! getSequenceIndex obj sequence))
      \<and> matchWorkloadPattern p (workloadKind obj) (wName obj)
      \<and> (\<forall>i < length sequence. \<forall>q \<in> set (GoBase.fields (sequence ! i)).
           matchWorkloadPattern q (workloadKind obj) (wName obj) \<longrightarrow>
             patternSpecificity q < patternSpecificity p
             \<or> patternSpecificity q = patternSpecificity p \<and> getSequenceIndex obj sequence \<le> i)"
      by (intro exI [of _ p]) simp
    with some False show ?thesis by (subst if_P) blast+
  qed
qed

lemma getSequenceIndex_most_specific_witness:
  "getSequenceIndex (sampleDeployment ''api-1'' 1) [''*'', ''api-1''] \<noteq> unsequenced"
proof -
  have f: "''*'' \<in> set (GoBase.fields ''*'')" by (simp add: GoBase.fields_def isSpace_def)
  have "\<exists>i < length [''*'', ''api-1'']. \<exists>p \<in> set (GoBase.fields ([''*'', ''api-1''] ! i)).
      matchWorkloadPattern p (workloadKind (sampleDeployment ''api-1'' 1)) (wName (sampleDeployment ''api-1'' 1))"
    by (rule exI [of _ 0]) (use f in \<open>auto simp: matchWorkloadPattern_def\<close>)
  with getSequenceIndex_most_specific [of "[''*'', ''api-1'']" "sampleDeployment ''api-1'' 1"]
  have "getSequenceIndex (sampleDeployment ''api-1'' 1) [''*'', ''api-1''] < length [''*'', ''api-1'']"
    by (simp only: if_True simp_thms) blast
  then show ?thesis by simp
qed

end
