(* ===== verification/Pausing.thy ===== *)
theory Pausing
  imports Main
begin

section \<open>The interface of things that are paused and resumed\<close>

text \<open>
  Cost Deck pauses objects that are not its own: it suspends CronJobs, pauses ScaledObjects,
  redirects routes. In each case an object is held when it is \<open>due\<close>, marked as held, and
  released only when the mark says so. The locale states the laws such a pair of operations
  must satisfy, up to an equivalence of objects; inside it, any sequence of holds and releases,
  in any order and repeated any number of times, is shown to leave an unmarked object as it
  was or held once, according to the last step alone.
\<close>

definition toggle :: "('o \<Rightarrow> bool) \<Rightarrow> ('o \<Rightarrow> bool) \<Rightarrow> ('o \<Rightarrow> 'o) \<Rightarrow> ('o \<Rightarrow> 'o) \<Rightarrow> bool \<Rightarrow> 'o \<Rightarrow> 'o" where
  "toggle due mine hold release down x =
     (if down then (if due x then hold x else x) else (if mine x then release x else x))"

definition toggles :: "('o \<Rightarrow> bool) \<Rightarrow> ('o \<Rightarrow> bool) \<Rightarrow> ('o \<Rightarrow> 'o) \<Rightarrow> ('o \<Rightarrow> 'o) \<Rightarrow> bool list \<Rightarrow> 'o \<Rightarrow> 'o" where
  "toggles due mine hold release downs x = foldl (\<lambda>y down. toggle due mine hold release down y) x downs"

locale reversible_pause =
  fixes due mine :: "'o \<Rightarrow> bool"
    and hold release :: "'o \<Rightarrow> 'o"
    and same :: "'o \<Rightarrow> 'o \<Rightarrow> bool"
  assumes same_refl: "same x x"
    and same_trans: "same x y \<Longrightarrow> same y z \<Longrightarrow> same x z"
    and same_due: "same x y \<Longrightarrow> due x = due y"
    and same_mine: "same x y \<Longrightarrow> mine x = mine y"
    and same_hold: "same x y \<Longrightarrow> same (hold x) (hold y)"
    and same_release: "same x y \<Longrightarrow> same (release x) (release y)"
    and hold_marks: "due x \<Longrightarrow> mine (hold x) \<and> \<not> due (hold x)"
    and release_hold: "due x \<Longrightarrow> \<not> mine x \<Longrightarrow> same (release (hold x)) x"
begin

lemma toggles_not_due:
  "\<not> due x \<Longrightarrow> \<not> mine x \<Longrightarrow> toggles due mine hold release downs x = x"
  by (induction downs) (auto simp: toggles_def toggle_def)

lemma toggles_due:
  assumes d: "due x" and m: "\<not> mine x"
  shows "same (toggles due mine hold release downs x) (if downs \<noteq> [] \<and> last downs then hold x else x)"
proof (induction downs rule: rev_induct)
  case Nil
  show ?case by (simp add: toggles_def same_refl)
next
  case (snoc down downs)
  define r where "r = toggles due mine hold release downs x"
  have step: "toggles due mine hold release (downs @ [down]) x = toggle due mine hold release down r"
    by (simp add: toggles_def r_def)
  from snoc consider "same r x" | "same r (hold x)" unfolding r_def by (auto split: if_splits)
  then show ?case
  proof cases
    case 1
    with d m same_due same_mine same_hold show ?thesis
      unfolding step by (cases down) (auto simp: toggle_def)
  next
    case 2
    with hold_marks [OF d] same_due same_mine have "\<not> due r" "mine r" by blast+
    moreover have "same (release r) x" by (rule same_trans [OF same_release [OF 2] release_hold [OF d m]])
    ultimately show ?thesis unfolding step using 2 by (cases down) (auto simp: toggle_def)
  qed
qed

end

end
