(* ===== verification/Companions.thy ===== *)
theory Companions
  imports Workloads Pausing
begin

section \<open>Companions and the scaling of a namespace (internal/scaling/companions.go, engine.go)\<close>

text \<open>
  CronJobs and KEDA ScaledObjects would undo a scale-down. They are suspended and paused
  before a namespace goes down, marked as Cost Deck's own doing, and released once it is up.
  \<open>ScaleTarget\<close> puts this together with the workloads, stage by stage. The lemmas say what it
  may ask of the cluster and in which order, whatever the cluster answers; of the API it is
  only assumed that a \<open>Get\<close> answers with the object it was asked for.
\<close>

abbreviation AnnotationSuspended :: string where "AnnotationSuspended \<equiv> ''costdeck.io/suspended''"
abbreviation AnnotationKEDAPaused :: string where "AnnotationKEDAPaused \<equiv> ''costdeck.io/keda-paused''"
abbreviation kedaPausedReplicas :: string where
  "kedaPausedReplicas \<equiv> ''autoscaling.keda.sh/paused-replicas''"
abbreviation markerValue :: string where "markerValue \<equiv> ''true''"

subsection \<open>CronJobs\<close>

definition cronJobDue :: "bool \<Rightarrow> string list \<Rightarrow> CronJob \<Rightarrow> bool" where
  "cronJobDue suspend exclusions cj \<longleftrightarrow>
     \<not> isExcluded (omName (cjMeta cj)) exclusions
     \<and> (if suspend then cjSuspend cj \<noteq> Some True
        else omAnnotations (cjMeta cj) AnnotationSuspended = Some markerValue)"

definition withSuspended :: "bool \<Rightarrow> CronJob \<Rightarrow> CronJob" where
  "withSuspended suspend cj =
     (let m = cjMeta cj
      in cj\<lparr>cjSuspend := Some suspend,
            cjMeta := m\<lparr>omAnnotations :=
              (if suspend then (omAnnotations m)(AnnotationSuspended \<mapsto> markerValue)
               else (omAnnotations m)(AnnotationSuspended := None))\<rparr>\<rparr>)"

fun updateCronJobs :: "'w api \<Rightarrow> string list \<Rightarrow> bool \<Rightarrow> CronJob list \<Rightarrow> ('w, unit reply) io" where
  "updateCronJobs api exclusions suspend [] = State_Monad.return (Inr ())"
| "updateCronJobs api exclusions suspend (cj # cjs) =
     (if \<not> cronJobDue suspend exclusions cj then updateCronJobs api exclusions suspend cjs
      else attempt (wrapped ''update CronJob'' (act (PatchCronJob cj (withSuspended suspend cj))
                      (patchCronJob api cj (withSuspended suspend cj))))
             (\<lambda>_. updateCronJobs api exclusions suspend cjs))"

definition setCronJobsSuspended :: "'w api \<Rightarrow> string \<Rightarrow> string list \<Rightarrow> bool \<Rightarrow> ('w, unit reply) io" where
  "setCronJobsSuspended api ns exclusions suspend =
     attempt (wrapped ''list CronJobs'' (ask (listCronJobs api ns))) (updateCronJobs api exclusions suspend)"

subsection \<open>ScaledObjects\<close>

text \<open>The probe: after KEDA was found missing, ten minutes pass before it is looked for again.\<close>

definition kedaSkip :: "'w api \<Rightarrow> ('w, bool) io" where
  "kedaSkip api =
     do { w \<leftarrow> State_Monad.get;
          if \<not> kedaMissing w then State_Monad.return False
          else do { now \<leftarrow> ask (clockNow api); State_Monad.return (now - kedaCheckedAt w < 10 * minute) } }"

definition noteKeda :: "bool \<Rightarrow> time \<Rightarrow> ('w, unit) io" where
  "noteKeda missing now = State (\<lambda>w. ((), w\<lparr>kedaMissing := missing, kedaCheckedAt := now\<rparr>))"

definition kedaRecord :: "'w api \<Rightarrow> bool \<Rightarrow> ('w, unit) io" where
  "kedaRecord api missing = do { now \<leftarrow> ask (clockNow api); noteKeda missing now }"

definition scaledObjectDue :: "bool \<Rightarrow> string list \<Rightarrow> Unstr \<Rightarrow> bool" where
  "scaledObjectDue pause exclusions so \<longleftrightarrow>
     (let annotations = omAnnotations (uMeta so);
          ours = (annotations AnnotationKEDAPaused = Some markerValue);
          paused = (annotations kedaPausedReplicas \<noteq> None)
      in \<not> (isExcluded (omName (uMeta so)) exclusions \<or> (pause \<and> paused) \<or> (\<not> pause \<and> \<not> ours)))"

definition withPaused :: "bool \<Rightarrow> Unstr \<Rightarrow> Unstr" where
  "withPaused pause so =
     (let m = uMeta so
      in so\<lparr>uMeta := m\<lparr>omAnnotations :=
           (if pause then (omAnnotations m)(kedaPausedReplicas \<mapsto> ''0'', AnnotationKEDAPaused \<mapsto> markerValue)
            else (omAnnotations m)(kedaPausedReplicas := None, AnnotationKEDAPaused := None))\<rparr>\<rparr>)"

fun updateScaledObjects :: "'w api \<Rightarrow> string list \<Rightarrow> bool \<Rightarrow> Unstr list \<Rightarrow> ('w, unit reply) io" where
  "updateScaledObjects api exclusions pause [] = State_Monad.return (Inr ())"
| "updateScaledObjects api exclusions pause (so # sos) =
     (if \<not> scaledObjectDue pause exclusions so then updateScaledObjects api exclusions pause sos
      else attempt (wrapped ''update ScaledObject'' (act (PatchObject so (withPaused pause so))
                      (patchObject api so (withPaused pause so))))
             (\<lambda>_. updateScaledObjects api exclusions pause sos))"

definition setScaledObjectsPaused :: "'w api \<Rightarrow> string \<Rightarrow> string list \<Rightarrow> bool \<Rightarrow> ('w, unit reply) io" where
  "setScaledObjectsPaused api ns exclusions pause =
     do { skip \<leftarrow> kedaSkip api;
          if skip then State_Monad.return (Inr ())
          else do { r \<leftarrow> ask (listUnstructured api ''keda.sh'' ''v1alpha1'' ''ScaledObjectList'' (Some ns));
                    case r of
                      Inl e \<Rightarrow>
                        if IsNoMatchError e
                        then do { _ \<leftarrow> kedaRecord api True; State_Monad.return (Inr ()) }
                        else State_Monad.return (Inl (Wrap ''list ScaledObjects'' e))
                    | Inr items \<Rightarrow>
                        do { _ \<leftarrow> kedaRecord api False; updateScaledObjects api exclusions pause items } } }"

definition holdCompanions :: "'w api \<Rightarrow> string \<Rightarrow> string list \<Rightarrow> ('w, unit reply) io" where
  "holdCompanions api ns exclusions =
     attempt (setCronJobsSuspended api ns exclusions True) (\<lambda>_. setScaledObjectsPaused api ns exclusions True)"

definition releaseCompanions :: "'w api \<Rightarrow> string \<Rightarrow> string list \<Rightarrow> ('w, unit reply) io" where
  "releaseCompanions api ns exclusions =
     attempt (setScaledObjectsPaused api ns exclusions False) (\<lambda>_. setCronJobsSuspended api ns exclusions False)"

subsection \<open>ScaleTarget\<close>

text \<open>The recorded counts it returns are none after a failed listing, as in the code.\<close>

fun runStages ::
    "'w api \<Rightarrow> bool \<Rightarrow> bool \<Rightarrow> (nat \<Rightarrow> workload list) \<Rightarrow> nat list \<Rightarrow> originals \<Rightarrow> ('w, originals \<times> bool reply) io" where
  "runStages api active timeoutPassed stage [] originals = State_Monad.return (originals, Inr True)"
| "runStages api active timeoutPassed stage (p # ps) originals =
     do { r \<leftarrow> scalePriorityGroup api (stage p) active originals timeoutPassed;
          case snd r of
            Inl e \<Rightarrow> State_Monad.return (fst r, Inl e)
          | Inr ready \<Rightarrow>
              if \<not> ready then State_Monad.return (fst r, Inr False)
              else runStages api active timeoutPassed stage ps (fst r) }"

definition afterStages ::
    "'w api \<Rightarrow> string \<Rightarrow> bool \<Rightarrow> string list \<Rightarrow> originals \<times> bool reply \<Rightarrow> ('w, originals option \<times> bool reply) io" where
  "afterStages api ns active exclusions r =
     (if snd r = Inr True \<and> active
      then do { c \<leftarrow> releaseCompanions api ns exclusions;
                State_Monad.return (Some (fst r), map_sum id (\<lambda>_. True) c) }
      else State_Monad.return (Some (fst r), snd r))"

definition scaleWorkloads ::
    "'w api \<Rightarrow> string \<Rightarrow> bool \<Rightarrow> string list \<Rightarrow> string list \<Rightarrow> originals \<Rightarrow> bool \<Rightarrow> ('w, originals option \<times> bool reply) io" where
  "scaleWorkloads api ns active sequence exclusions originals timeoutPassed =
     do { l \<leftarrow> listScalableResources api ns exclusions;
          case l of
            Inl e \<Rightarrow> State_Monad.return (None, Inl e)
          | Inr objs \<Rightarrow>
              (case groupAndSortPriorities objs sequence active of
                 (priorities, stage) \<Rightarrow>
                   do { r \<leftarrow> runStages api active timeoutPassed stage priorities originals;
                        afterStages api ns active exclusions r }) }"

definition ScaleTarget ::
    "'w api \<Rightarrow> string \<Rightarrow> bool \<Rightarrow> string list \<Rightarrow> string list \<Rightarrow> originals \<Rightarrow> bool \<Rightarrow> ('w, originals option \<times> bool reply) io" where
  "ScaleTarget api ns active sequence exclusions originals timeoutPassed =
     (if active then scaleWorkloads api ns active sequence exclusions originals timeoutPassed
      else do { h \<leftarrow> holdCompanions api ns exclusions;
                case h of
                  Inl e \<Rightarrow> State_Monad.return (Some originals, Inl e)
                | Inr _ \<Rightarrow> scaleWorkloads api ns active sequence exclusions originals timeoutPassed })"

subsection \<open>What the companions are asked\<close>

definition holdChange :: "string list \<Rightarrow> change \<Rightarrow> bool" where
  "holdChange exclusions c \<longleftrightarrow>
     (\<exists>cj. c = PatchCronJob cj (withSuspended True cj) \<and> cronJobDue True exclusions cj)
     \<or> (\<exists>so. c = PatchObject so (withPaused True so) \<and> scaledObjectDue True exclusions so)"

definition releaseChange :: "string list \<Rightarrow> change \<Rightarrow> bool" where
  "releaseChange exclusions c \<longleftrightarrow>
     (\<exists>cj. c = PatchCronJob cj (withSuspended False cj) \<and> cronJobDue False exclusions cj)
     \<or> (\<exists>so. c = PatchObject so (withPaused False so) \<and> scaledObjectDue False exclusions so)"

lemma only_noteKeda: "only P (noteKeda missing now)"
  by (simp add: only_def gives_def noteKeda_def)

lemma updateCronJobs_only:
  "(\<And>cj. cronJobDue suspend exclusions cj \<Longrightarrow> P (PatchCronJob cj (withSuspended suspend cj))) \<Longrightarrow>
     only P (updateCronJobs api exclusions suspend cjs)"
  by (induction cjs) (auto intro!: only_return only_attempt only_wrapped only_act)

lemma updateScaledObjects_only:
  "(\<And>so. scaledObjectDue pause exclusions so \<Longrightarrow> P (PatchObject so (withPaused pause so))) \<Longrightarrow>
     only P (updateScaledObjects api exclusions pause sos)"
  by (induction sos) (auto intro!: only_return only_attempt only_wrapped only_act)

lemma setCronJobsSuspended_only:
  "(\<And>cj. cronJobDue suspend exclusions cj \<Longrightarrow> P (PatchCronJob cj (withSuspended suspend cj))) \<Longrightarrow>
     only P (setCronJobsSuspended api ns exclusions suspend)"
  unfolding setCronJobsSuspended_def
  by (intro only_attempt only_wrapped only_ask updateCronJobs_only)

lemma setScaledObjectsPaused_only:
  "(\<And>so. scaledObjectDue pause exclusions so \<Longrightarrow> P (PatchObject so (withPaused pause so))) \<Longrightarrow>
     only P (setScaledObjectsPaused api ns exclusions pause)"
  unfolding setScaledObjectsPaused_def kedaSkip_def kedaRecord_def
  by (auto intro!: only_bind only_ask only_return only_get only_noteKeda updateScaledObjects_only split: sum.split)

lemma holdCompanions_only: "only (holdChange exclusions) (holdCompanions api ns exclusions)"
  unfolding holdCompanions_def
  by (auto intro!: only_attempt setCronJobsSuspended_only setScaledObjectsPaused_only simp: holdChange_def)

lemma releaseCompanions_only: "only (releaseChange exclusions) (releaseCompanions api ns exclusions)"
  unfolding releaseCompanions_def
  by (auto intro!: only_attempt setCronJobsSuspended_only setScaledObjectsPaused_only simp: releaseChange_def)

text \<open>
  Holding and releasing companions are instances of \<open>reversible_pause\<close>. A CronJob's unset
  \<open>suspend\<close> counts as false, and a mark of another value than Cost Deck's as none.
\<close>

definition ownMark :: "string \<Rightarrow> (string \<rightharpoonup> string) \<Rightarrow> string \<rightharpoonup> string" where
  "ownMark k m = m(k := (if m k = Some markerValue then Some markerValue else None))"

definition sameCronJob :: "CronJob \<Rightarrow> CronJob \<Rightarrow> bool" where
  "sameCronJob a b \<longleftrightarrow>
     (cjSuspend a = Some True) = (cjSuspend b = Some True)
     \<and> (cjMeta a)\<lparr>omAnnotations := ownMark AnnotationSuspended (omAnnotations (cjMeta a))\<rparr>
       = (cjMeta b)\<lparr>omAnnotations := ownMark AnnotationSuspended (omAnnotations (cjMeta b))\<rparr>"

definition sameScaledObject :: "Unstr \<Rightarrow> Unstr \<Rightarrow> bool" where
  "sameScaledObject a b \<longleftrightarrow>
     a\<lparr>uMeta := (uMeta a)\<lparr>omAnnotations := ownMark AnnotationKEDAPaused (omAnnotations (uMeta a))\<rparr>\<rparr>
     = b\<lparr>uMeta := (uMeta b)\<lparr>omAnnotations := ownMark AnnotationKEDAPaused (omAnnotations (uMeta b))\<rparr>\<rparr>"

lemma ownMark_apply:
  "ownMark k m x = (if x = k then (if m k = Some markerValue then Some markerValue else None) else m x)"
  by (simp add: ownMark_def)

lemma sameCronJob_iff:
  "sameCronJob a b \<longleftrightarrow> (cjSuspend a = Some True) = (cjSuspend b = Some True)
     \<and> omName (cjMeta a) = omName (cjMeta b) \<and> omNamespace (cjMeta a) = omNamespace (cjMeta b)
     \<and> omLabels (cjMeta a) = omLabels (cjMeta b) \<and> omOwners (cjMeta a) = omOwners (cjMeta b)
     \<and> omGeneration (cjMeta a) = omGeneration (cjMeta b)
     \<and> (\<forall>k. k \<noteq> AnnotationSuspended \<longrightarrow> omAnnotations (cjMeta a) k = omAnnotations (cjMeta b) k)
     \<and> (omAnnotations (cjMeta a) AnnotationSuspended = Some markerValue)
       = (omAnnotations (cjMeta b) AnnotationSuspended = Some markerValue)"
  by (cases "cjMeta a"; cases "cjMeta b") (auto simp: sameCronJob_def fun_eq_iff ownMark_apply split: if_splits)

lemma sameScaledObject_iff:
  "sameScaledObject a b \<longleftrightarrow> uGroup a = uGroup b \<and> uVersion a = uVersion b \<and> uKind a = uKind b \<and> uObject a = uObject b
     \<and> omName (uMeta a) = omName (uMeta b) \<and> omNamespace (uMeta a) = omNamespace (uMeta b)
     \<and> omLabels (uMeta a) = omLabels (uMeta b) \<and> omOwners (uMeta a) = omOwners (uMeta b)
     \<and> omGeneration (uMeta a) = omGeneration (uMeta b)
     \<and> (\<forall>k. k \<noteq> AnnotationKEDAPaused \<longrightarrow> omAnnotations (uMeta a) k = omAnnotations (uMeta b) k)
     \<and> (omAnnotations (uMeta a) AnnotationKEDAPaused = Some markerValue)
       = (omAnnotations (uMeta b) AnnotationKEDAPaused = Some markerValue)"
  by (cases a; cases b; cases "uMeta a"; cases "uMeta b")
     (auto simp: sameScaledObject_def fun_eq_iff ownMark_apply split: if_splits)

interpretation cronJob: reversible_pause "cronJobDue True exclusions" "cronJobDue False exclusions"
    "withSuspended True" "withSuspended False" sameCronJob
  by unfold_locales (auto simp: sameCronJob_iff cronJobDue_def withSuspended_def Let_def)

interpretation scaledObject: reversible_pause "scaledObjectDue True exclusions" "scaledObjectDue False exclusions"
    "withPaused True" "withPaused False" sameScaledObject
  by unfold_locales (auto simp: sameScaledObject_iff scaledObjectDue_def withPaused_def Let_def)

subsection \<open>Stage by stage\<close>

text \<open>The stage of the workload a change is about.\<close>

definition changeStage :: "string list \<Rightarrow> change \<Rightarrow> nat" where
  "changeStage sequence c = (case c of PatchWorkload old new \<Rightarrow> getSequenceIndex old sequence | _ \<Rightarrow> 0)"

lemma runStages_gives:
  assumes get: "getsItself api"
    and st: "\<And>p obj. obj \<in> set (stage p) \<Longrightarrow> getSequenceIndex obj sequence = p \<and> P obj"
    and srt: "sorted_wrt le ps" and refl: "\<And>p. le p p"
  shows "gives (runStages api active timeoutPassed stage ps originals)
     (\<lambda>r cs. (\<forall>c \<in> set cs. \<exists>obj old new. c = PatchWorkload old new \<and> P obj \<and> sameObject obj old
                \<and> scaleChange active old new \<and> getSequenceIndex old sequence \<in> set ps)
       \<and> sorted_wrt le (map (changeStage sequence) cs))"
  using srt
proof (induction ps arbitrary: originals)
  case Nil
  show ?case by (simp add: gives_return)
next
  case (Cons p ps)
  let ?R = "\<lambda>qs cs. (\<forall>c \<in> set cs. \<exists>obj old new. c = PatchWorkload old new \<and> P obj \<and> sameObject obj old
                \<and> scaleChange active old new \<and> getSequenceIndex old sequence \<in> set qs)
       \<and> sorted_wrt le (map (changeStage sequence) cs)"
  have one: "?R [p] cs" if "\<forall>c \<in> set cs. stageChange active (stage p) c" for cs
  proof -
    have e: "\<exists>obj old new. c = PatchWorkload old new \<and> P obj \<and> sameObject obj old
        \<and> scaleChange active old new \<and> getSequenceIndex old sequence = p" if "c \<in> set cs" for c
      using \<open>\<forall>c \<in> set cs. stageChange active (stage p) c\<close> that st sameObject_stage
      unfolding stageChange_def by metis
    then have s: "\<forall>c \<in> set cs. changeStage sequence c = p" by (fastforce simp: changeStage_def)
    have "sorted_wrt le (map (changeStage sequence) cs)"
      unfolding sorted_wrt_map by (rule sorted_wrt_mono_rel [of _ "\<lambda>_ _. True"]) (use s refl in auto)
    with e show ?thesis by auto
  qed
  have both: "?R (p # ps) (cs @ ds)" if "?R [p] cs" "?R ps ds" for cs ds
  proof -
    have "changeStage sequence c = p" if "c \<in> set cs" for c
      using \<open>?R [p] cs\<close> that by (fastforce simp: changeStage_def)
    moreover have "changeStage sequence d \<in> set ps" if "d \<in> set ds" for d
      using \<open>?R ps ds\<close> that by (fastforce simp: changeStage_def)
    ultimately have "le (changeStage sequence c) (changeStage sequence d)" if "c \<in> set cs" "d \<in> set ds" for c d
      using Cons.prems that by simp
    with \<open>?R [p] cs\<close> \<open>?R ps ds\<close> show ?thesis by (fastforce simp: sorted_wrt_append)
  qed
  show ?case
    unfolding runStages.simps
  proof (rule gives_bind, rule gives_mono [OF scalePriorityGroup_gives [OF get]])
    fix r :: "originals \<times> bool reply" and cs
    assume "\<forall>c \<in> set cs. stageChange active (stage p) c"
    note cs = one [OF this]
    then have c1: "?R (p # ps) cs" by simp (metis (no_types, opaque_lifting))
    have rest: "gives (runStages api active timeoutPassed stage ps (fst r)) (\<lambda>r ds. ?R ps ds)"
      by (rule Cons.IH) (use Cons.prems in simp)
    show "gives (case snd r of
            Inl e \<Rightarrow> State_Monad.return (fst r, Inl e)
          | Inr ready \<Rightarrow>
              if \<not> ready then State_Monad.return (fst r, Inr False)
              else runStages api active timeoutPassed stage ps (fst r))
        (\<lambda>r ds. ?R (p # ps) (cs @ ds))"
    proof (cases "snd r")
      case (Inl e)
      show ?thesis unfolding Inl sum.case by (rule gives_return) (use c1 in simp)
    next
      case (Inr ready)
      show ?thesis unfolding Inr sum.case
      proof (rule gives_if)
        show "gives (State_Monad.return (fst r, Inr False)) (\<lambda>r ds. ?R (p # ps) (cs @ ds))"
          by (rule gives_return) (use c1 in simp)
        show "gives (runStages api active timeoutPassed stage ps (fst r)) (\<lambda>r ds. ?R (p # ps) (cs @ ds))"
          by (rule gives_mono [OF rest]) (rule both [OF cs])
      qed
    qed
  qed
qed

lemma withReferencedTemplate_meta: "uMeta (withReferencedTemplate api ds r) = uMeta r"
  by (auto simp: withReferencedTemplate_def Let_def split: option.splits)

lemma selectScalable_not_excluded:
  "obj \<in> set (selectScalable api deployments statefulSets rollouts referenced exclusions)
     \<Longrightarrow> \<not> excludedObject obj exclusions"
  by (auto simp: selectScalable_def excludedObject_def ownedByKind_def withReferencedTemplate_meta)

lemma listScalableResources_gives:
  "gives (listScalableResources api ns exclusions)
     (\<lambda>r cs. cs = [] \<and> (\<forall>objs. r = Inr objs \<longrightarrow> (\<forall>obj \<in> set objs. \<not> excludedObject obj exclusions)))"
proof -
  let ?R = "\<lambda>r cs. cs = [] \<and> (\<forall>objs. r = Inr objs \<longrightarrow> (\<forall>obj \<in> set objs. \<not> excludedObject obj exclusions))"
  have ro: "gives (listRollouts api ns) (\<lambda>r cs. cs = [])"
    unfolding listRollouts_def mapping_def Let_def
    by (auto intro!: gives_attempt gives_bind gives_ask gives_return split: sum.split option.split)
  have sel: "gives (attempt (listRollouts api ns) (\<lambda>(rollouts, referenced).
       State_Monad.return (Inr (selectScalable api ds ss rollouts referenced exclusions)))) ?R" for ds ss
    by (rule gives_attempt, rule gives_mono [OF ro])
       (auto intro!: gives_return dest: selectScalable_not_excluded split: sum.split)
  show ?thesis
    unfolding listScalableResources_def
    by (auto intro!: gives_attempt gives_ask sel split: sum.split)
qed

definition reversedWhenDown :: "bool \<Rightarrow> nat \<Rightarrow> nat \<Rightarrow> bool" where
  "reversedWhenDown active p q = (if active then p \<le> q else q \<le> p)"

text \<open>The changes of workloads are of ones that are not excluded, go to the state asked for and
  come stage by stage; only an up target with every stage done has its companions released.\<close>

definition workloadChange :: "bool \<Rightarrow> string list \<Rightarrow> change \<Rightarrow> bool" where
  "workloadChange active exclusions c \<longleftrightarrow>
     (\<exists>old new. c = PatchWorkload old new \<and> \<not> isExcluded (wName old) exclusions \<and> scaleChange active old new)"

lemma scaleWorkloads_gives:
  assumes get: "getsItself api"
  shows "gives (scaleWorkloads api ns active sequence exclusions originals timeoutPassed)
     (\<lambda>r cs. \<exists>ws rs. cs = ws @ rs \<and> (\<forall>c \<in> set ws. workloadChange active exclusions c)
        \<and> sorted_wrt (reversedWhenDown active) (map (changeStage sequence) ws)
        \<and> (\<forall>c \<in> set rs. active \<and> releaseChange exclusions c))"
  unfolding scaleWorkloads_def
proof (rule gives_bind, rule gives_mono [OF listScalableResources_gives])
  fix l :: "workload list reply" and cs :: "change list"
  assume l: "cs = [] \<and> (\<forall>objs. l = Inr objs \<longrightarrow> (\<forall>obj \<in> set objs. \<not> excludedObject obj exclusions))"
  let ?R = "\<lambda>cs. \<exists>ws rs. cs = ws @ rs \<and> (\<forall>c \<in> set ws. workloadChange active exclusions c)
        \<and> sorted_wrt (reversedWhenDown active) (map (changeStage sequence) ws)
        \<and> (\<forall>c \<in> set rs. active \<and> releaseChange exclusions c)"
  show "gives (case l of
            Inl e \<Rightarrow> State_Monad.return (None, Inl e)
          | Inr objs \<Rightarrow>
              (case groupAndSortPriorities objs sequence active of
                 (priorities, stage) \<Rightarrow>
                   do { r \<leftarrow> runStages api active timeoutPassed stage priorities originals;
                        afterStages api ns active exclusions r }))
        (\<lambda>r ds. ?R (cs @ ds))"
  proof (cases l)
    case (Inl e)
    with l show ?thesis by (auto intro!: gives_return)
  next
    case (Inr objs)
    obtain ps gs where g: "groupAndSortPriorities objs sequence active = (ps, gs)" by fastforce
    note gp = groupAndSort_props [OF g]
    have srt: "sorted_wrt (reversedWhenDown active) ps"
      using gp(3) by (cases active) (simp_all add: reversedWhenDown_def [abs_def] sorted_wrt_rev)
    have runs: "gives (runStages api active timeoutPassed gs ps originals)
     (\<lambda>r cs. (\<forall>c \<in> set cs. \<exists>obj old new. c = PatchWorkload old new \<and> \<not> excludedObject obj exclusions \<and> sameObject obj old
                \<and> scaleChange active old new \<and> getSequenceIndex old sequence \<in> set ps)
       \<and> sorted_wrt (reversedWhenDown active) (map (changeStage sequence) cs))"
      by (rule runStages_gives [OF get _ srt]) (use gp(4) l Inr in \<open>auto simp: reversedWhenDown_def\<close>)
    have wc: "workloadChange active exclusions (PatchWorkload old new)"
      if "\<not> excludedObject obj exclusions" "sameObject obj old" "scaleChange active old new" for obj old new
      using that sameObject_excluded [OF that(2)] by (auto simp: workloadChange_def excludedObject_def)
    have rel: "gives (releaseCompanions api ns exclusions) (\<lambda>_ cs. \<forall>c \<in> set cs. releaseChange exclusions c)"
      using releaseCompanions_only unfolding only_def .
    show ?thesis
      unfolding Inr sum.case g prod.case afterStages_def
    proof (rule gives_bind, rule gives_mono [OF runs])
      fix r :: "originals \<times> bool reply" and ws
      assume all: "(\<forall>c \<in> set ws. \<exists>obj old new. c = PatchWorkload old new \<and> \<not> excludedObject obj exclusions \<and> sameObject obj old
                \<and> scaleChange active old new \<and> getSequenceIndex old sequence \<in> set ps)
       \<and> sorted_wrt (reversedWhenDown active) (map (changeStage sequence) ws)"
      have ws: "\<forall>c \<in> set ws. workloadChange active exclusions c"
      proof
        fix c assume "c \<in> set ws"
        with all obtain obj old new where "c = PatchWorkload old new" "\<not> excludedObject obj exclusions"
          "sameObject obj old" "scaleChange active old new" by blast
        with wc show "workloadChange active exclusions c" by simp
      qed
      note srtd = conjunct2 [OF all]
      show "gives (if snd r = Inr True \<and> active
            then do { c \<leftarrow> releaseCompanions api ns exclusions;
                      State_Monad.return (Some (fst r), map_sum id (\<lambda>_. True) c) }
            else State_Monad.return (Some (fst r), snd r))
          (\<lambda>r ds. ?R (cs @ ws @ ds))"
      proof (rule gives_if)
        assume up: "snd r = Inr True \<and> active"
        show "gives (do { c \<leftarrow> releaseCompanions api ns exclusions;
                      State_Monad.return (Some (fst r), map_sum id (\<lambda>_. True) c) }) (\<lambda>r ds. ?R (cs @ ws @ ds))"
          by (rule gives_bind, rule gives_mono [OF rel], rule gives_return)
             (use ws srtd up l in \<open>simp, blast\<close>)
      qed (rule gives_return, rule exI [of _ ws], rule exI [of _ "[]"], use ws srtd l in simp)
    qed
  qed
qed

lemma ScaleTarget_down_gives:
  assumes "getsItself api"
  shows "gives (ScaleTarget api ns False sequence exclusions originals timeoutPassed)
     (\<lambda>r cs. \<exists>hs ws. cs = hs @ ws \<and> (\<forall>c \<in> set hs. holdChange exclusions c)
        \<and> (\<forall>c \<in> set ws. workloadChange False exclusions c)
        \<and> sorted_wrt (reversedWhenDown False) (map (changeStage sequence) ws))"
proof -
  note hold = holdCompanions_only [where exclusions = exclusions and api = api and ns = ns, unfolded only_def]
  have ws: "gives (scaleWorkloads api ns False sequence exclusions originals timeoutPassed)
     (\<lambda>r cs. (\<forall>c \<in> set cs. workloadChange False exclusions c)
        \<and> sorted_wrt (reversedWhenDown False) (map (changeStage sequence) cs))"
    by (rule gives_mono [OF scaleWorkloads_gives [OF assms]]) force
  show ?thesis
    unfolding ScaleTarget_def if_False
  proof (rule gives_bind, rule gives_mono [OF hold])
    fix h :: "unit reply" and hs
    assume hs: "\<forall>c \<in> set hs. holdChange exclusions c"
    show "gives (case h of
                  Inl e \<Rightarrow> State_Monad.return (Some originals, Inl e)
                | Inr _ \<Rightarrow> scaleWorkloads api ns False sequence exclusions originals timeoutPassed)
       (\<lambda>r cs. \<exists>hs' ws. hs @ cs = hs' @ ws \<and> (\<forall>c \<in> set hs'. holdChange exclusions c)
        \<and> (\<forall>c \<in> set ws. workloadChange False exclusions c)
        \<and> sorted_wrt (reversedWhenDown False) (map (changeStage sequence) ws))"
    proof (cases h)
      case (Inl e)
      show ?thesis unfolding Inl sum.case
        by (rule gives_return, rule exI [of _ hs], rule exI [of _ "[]"]) (use hs in simp)
    next
      case (Inr u)
      show ?thesis unfolding Inr sum.case
        by (rule gives_mono [OF ws]) (use hs in blast)
    qed
  qed
qed

subsection \<open>An empty cluster for concrete checks\<close>

definition quietApi :: "'w api" where
  "quietApi =
     \<lparr>listDeployments = \<lambda>_. State_Monad.return (Inr []), listStatefulSets = \<lambda>_. State_Monad.return (Inr []),
      listCronJobs = \<lambda>_. State_Monad.return (Inr []), listPods = \<lambda>_ _. State_Monad.return (Inr []),
      listUnstructured = \<lambda>_ _ _ _. State_Monad.return (Inr []),
      restMapping = \<lambda>_ _ _. State_Monad.return (Inl (Api NoMatch)),
      getWorkload = \<lambda>obj. State_Monad.return (Inr obj),
      getStatefulSet = \<lambda>_ _. State_Monad.return (Inl (Api NotFound)),
      getUnstructured = \<lambda>u. State_Monad.return (Inr u),
      patchWorkload = \<lambda>_ new. State_Monad.return (Inr new), patchCronJob = \<lambda>_ new. State_Monad.return (Inr new),
      patchObject = \<lambda>_ new. State_Monad.return (Inr new), mergePatch = \<lambda>u _. State_Monad.return (Inr u),
      createObject = \<lambda>_. State_Monad.return (Inr ()), deleteObject = \<lambda>_. State_Monad.return (Inr ()),
      providerScale = \<lambda>_ _. State_Monad.return (Inr ()), providerReady = \<lambda>_ _. State_Monad.return (Inr True),
      clockNow = State_Monad.return 0, findProvider = \<lambda>_. State_Monad.return (Inr ()),
      getGroup = \<lambda>_ _. State_Monad.return (Inl (Api NotFound)), listGroups = \<lambda>_. State_Monad.return (Inr []),
      updateGroup = \<lambda>_. State_Monad.return (Inr ()), updateGroupStatus = \<lambda>_. State_Monad.return (Inr ()),
      getConfig = \<lambda>_ _. State_Monad.return (Inl (Api NotFound)), listConfigs = \<lambda>_. State_Monad.return (Inr []),
      updateConfig = \<lambda>_. State_Monad.return (Inr ()), updateConfigStatus = \<lambda>_. State_Monad.return (Inr ()),
      listNamespaces = State_Monad.return (Inr []), readCalendars = State_Monad.return (Inr []),
      countRequests = None, gpuPeakOf = None, priceOf = \<lambda>_. State_Monad.return None,
      nodeCost = \<lambda>_. State_Monad.return [], asSelector = \<lambda>_. Some False, selectorToJson = \<lambda>_. None,
      selectorOfJson = \<lambda>_. None, parseSelector = \<lambda>_. None, namespaceMatcher = \<lambda>_. None,
      podRequests = \<lambda>_. (0, 0), groupVersionOf = \<lambda>_. None, zones = \<lparr>zoneLoad = \<lambda>_. None, zoneLocal = \<lambda>_. 0\<rparr>,
      errorText = \<lambda>_. [], env = \<lambda>_. [], notifier = False\<rparr>"

text \<open>One with the deployments web and db and a CronJob.\<close>

definition shopApi :: "unit api" where
  "shopApi = quietApi\<lparr>
     listDeployments := \<lambda>ns. State_Monad.return (Inr
       [\<lparr>awMeta = emptyMeta ns ''web'', awReplicas = Some 3, awSelector = None, awReadyReplicas = 3,
         awStatusReplicas = 3, awTemplate = JObj []\<rparr>,
        \<lparr>awMeta = emptyMeta ns ''db'', awReplicas = Some 1, awSelector = None, awReadyReplicas = 1,
         awStatusReplicas = 1, awTemplate = JObj []\<rparr>]),
     listCronJobs := \<lambda>ns. State_Monad.return (Inr [\<lparr>cjMeta = emptyMeta ns ''report'', cjSuspend = None\<rparr>])\<rparr>"

definition freshWorld :: "unit world" where
  "freshWorld = \<lparr>ext = (), trace = [], kedaMissing = False, kedaCheckedAt = 0,
     measuredAt = Map.empty, announcedPhase = Map.empty\<rparr>"

lemma getsItself_shopApi: "getsItself shopApi"
  by (auto simp: getsItself_def shopApi_def quietApi_def set_state_iff)

subsection \<open>Properties\<close>



text \<open>C5. Scaling a namespace up never lowers a replica count: whatever the cluster answers, its
  workloads, none of them excluded, are patched stage by stage, earlier stages first, to at least
  as many replicas as they have and at least one, and lose the record of their replicas; CronJobs
  and ScaledObjects are released after all of that, and only those Cost Deck holds itself.\<close>

theorem ScaleTarget_up:
  assumes "getsItself api"
    and "run_state (ScaleTarget api ns True sequence exclusions originals timeoutPassed) w = (r, w')"
  shows "\<exists>ws rs. trace w' = trace w @ ws @ rs
     \<and> (\<forall>c \<in> set ws. \<exists>old new count. c = PatchWorkload old new \<and> \<not> isExcluded (wName old) exclusions
          \<and> withReplicas old count 0 = Inr new \<and> getReplicas old \<le> count \<and> (0 \<le> getReplicas old \<longrightarrow> 1 \<le> count))
     \<and> sorted_wrt (\<le>) (map (changeStage sequence) ws)
     \<and> (\<forall>c \<in> set rs. releaseChange exclusions c)"
proof -
  have s: "ScaleTarget api ns True sequence exclusions originals timeoutPassed =
      scaleWorkloads api ns True sequence exclusions originals timeoutPassed"
    by (simp add: ScaleTarget_def)
  obtain cs where cs: "trace w' = trace w @ cs" and ex: "\<exists>ws rs. cs = ws @ rs \<and> (\<forall>c \<in> set ws. workloadChange True exclusions c)
        \<and> sorted_wrt (reversedWhenDown True) (map (changeStage sequence) ws)
        \<and> (\<forall>c \<in> set rs. True \<and> releaseChange exclusions c)"
    by (rule givesD [OF scaleWorkloads_gives [OF assms(1)] assms(2) [unfolded s]]) (rule that)
  from ex obtain ws rs where p: "cs = ws @ rs" "\<forall>c \<in> set ws. workloadChange True exclusions c"
    "sorted_wrt (reversedWhenDown True) (map (changeStage sequence) ws)" "\<forall>c \<in> set rs. releaseChange exclusions c"
    by blast
  have "\<forall>c \<in> set ws. \<exists>old new count. c = PatchWorkload old new \<and> \<not> isExcluded (wName old) exclusions
          \<and> withReplicas old count 0 = Inr new \<and> getReplicas old \<le> count \<and> (0 \<le> getReplicas old \<longrightarrow> 1 \<le> count)"
    using p(2) by (fastforce simp: workloadChange_def scaleChange_def)
  moreover have "reversedWhenDown True = (\<le>)" by (auto simp: reversedWhenDown_def fun_eq_iff)
  ultimately show ?thesis using cs p by (intro exI [of _ ws] exI [of _ rs]) auto
qed

lemma ScaleTarget_up_witness:
  "\<exists>r w' ws rs. run_state (ScaleTarget shopApi ''shop'' True [''db'', ''web''] [] [] False) freshWorld = (r, w')
     \<and> trace w' = ws @ rs \<and> (\<forall>c \<in> set rs. releaseChange [] c) \<and> sorted_wrt (\<le>) (map (changeStage [''db'', ''web'']) ws)"
proof -
  obtain r w' where run: "run_state (ScaleTarget shopApi ''shop'' True [''db'', ''web''] [] [] False) freshWorld = (r, w')"
    by fastforce
  from ScaleTarget_up [OF getsItself_shopApi run] run show ?thesis
    by (auto simp: freshWorld_def)
qed

text \<open>However often a namespace goes down and up, in whatever order the steps are retried, a
  CronJob that was not Cost Deck's comes back as it was: one that a user had suspended, or that
  is excluded, is never touched, and any other is held exactly while the last step was down.\<close>

theorem cronJob_toggles:
  assumes "\<not> cronJobDue False exclusions cj"
  shows "(if cronJobDue True exclusions cj
     then sameCronJob (toggles (cronJobDue True exclusions) (cronJobDue False exclusions)
                        (withSuspended True) (withSuspended False) downs cj)
            (if downs \<noteq> [] \<and> last downs then withSuspended True cj else cj)
     else toggles (cronJobDue True exclusions) (cronJobDue False exclusions)
            (withSuspended True) (withSuspended False) downs cj = cj)"
  using cronJob.toggles_due [OF _ assms] cronJob.toggles_not_due [OF _ assms] by simp

lemma cronJob_toggles_witness:
  "sameCronJob (toggles (cronJobDue True []) (cronJobDue False []) (withSuspended True) (withSuspended False)
       [True, True, False] \<lparr>cjMeta = emptyMeta ''shop'' ''report'', cjSuspend = None\<rparr>)
     \<lparr>cjMeta = emptyMeta ''shop'' ''report'', cjSuspend = None\<rparr>"
  using cronJob_toggles [of "[]" "\<lparr>cjMeta = emptyMeta ''shop'' ''report'', cjSuspend = None\<rparr>" "[True, True, False]"]
  by (simp add: cronJobDue_def emptyMeta_def isExcluded_def)

text \<open>The same for ScaledObjects: one that is paused already, or excluded, is never touched, and
  any other is paused exactly while the last step was down.\<close>

theorem scaledObject_toggles:
  assumes "\<not> scaledObjectDue False exclusions so"
  shows "(if scaledObjectDue True exclusions so
     then sameScaledObject (toggles (scaledObjectDue True exclusions) (scaledObjectDue False exclusions)
                        (withPaused True) (withPaused False) downs so)
            (if downs \<noteq> [] \<and> last downs then withPaused True so else so)
     else toggles (scaledObjectDue True exclusions) (scaledObjectDue False exclusions)
            (withPaused True) (withPaused False) downs so = so)"
  using scaledObject.toggles_due [OF _ assms] scaledObject.toggles_not_due [OF _ assms] by simp

lemma scaledObject_toggles_witness:
  "sameScaledObject (toggles (scaledObjectDue True []) (scaledObjectDue False []) (withPaused True) (withPaused False)
       [True, False, True, False] \<lparr>uGroup = ''keda.sh'', uVersion = ''v1alpha1'', uKind = ''ScaledObject'',
        uMeta = emptyMeta ''shop'' ''web'', uObject = JObj []\<rparr>)
     \<lparr>uGroup = ''keda.sh'', uVersion = ''v1alpha1'', uKind = ''ScaledObject'',
        uMeta = emptyMeta ''shop'' ''web'', uObject = JObj []\<rparr>"
  using scaledObject_toggles [of "[]" "\<lparr>uGroup = ''keda.sh'', uVersion = ''v1alpha1'', uKind = ''ScaledObject'',
        uMeta = emptyMeta ''shop'' ''web'', uObject = JObj []\<rparr>" "[True, False, True, False]"]
  by (simp add: scaledObjectDue_def emptyMeta_def isExcluded_def)

end
