(* ===== verification/Hibernate.thy ===== *)
theory Hibernate
  imports Companions
begin

section \<open>Services run by operators (internal/scaling/hibernate.go)\<close>

text \<open>
  A hibernate rule stops the custom resources of an operator instead of its workloads. The
  theory models the kinds a rule covers, the validation of rules, the patches that stop and
  start a resource with the count to restore, when it has got there, and the order in which a
  namespace is scaled together with its services. Parsing an apiVersion is apimachinery's
  (\<open>ParseGroupVersion\<close>) and a parameter.
\<close>

abbreviation HibernatedAnnotation :: string where "HibernatedAnnotation \<equiv> ''costdeck.io/hibernated''"
abbreviation hibernatedStopped :: string where "hibernatedStopped \<equiv> ''stopped''"
abbreviation hibernatedStarting :: string where "hibernatedStarting \<equiv> ''starting''"
abbreviation cnpgHibernation :: string where "cnpgHibernation \<equiv> ''cnpg.io/hibernation''"
abbreviation presetCNPG :: string where "presetCNPG \<equiv> ''cnpg''"
abbreviation presetZalando :: string where "presetZalando \<equiv> ''zalando-postgres''"
abbreviation presetStrimzi :: string where "presetStrimzi \<equiv> ''strimzi''"

subsection \<open>Rules\<close>

record hibernateKind =
  hkGroup :: string
  hkKind :: string
  hkVersions :: "string list"

type_synonym gvParser = "string \<Rightarrow> (string \<times> string) option"

definition kindsOf :: "gvParser \<Rightarrow> HibernateRule \<Rightarrow> hibernateKind list" where
  "kindsOf parseGV r =
     (if Preset r = presetCNPG
      then [\<lparr>hkGroup = ''postgresql.cnpg.io'', hkKind = ''Cluster'', hkVersions = [''v1'']\<rparr>]
      else if Preset r = presetZalando
      then [\<lparr>hkGroup = ''acid.zalan.do'', hkKind = ''postgresql'', hkVersions = [''v1'']\<rparr>]
      else if Preset r = presetStrimzi
      then map (\<lambda>k. \<lparr>hkGroup = ''kafka.strimzi.io'', hkKind = k, hkVersions = [''v1'', ''v1beta2'']\<rparr>)
             [''KafkaConnect'', ''KafkaMirrorMaker2'', ''KafkaBridge'']
      else (case parseGV (APIVersion r) of
              None \<Rightarrow> []
            | Some (g, v) \<Rightarrow> [\<lparr>hkGroup = g, hkKind = hrKind r, hkVersions = [v]\<rparr>]))"

definition fieldPath :: "string \<Rightarrow> bool" where
  "fieldPath s \<longleftrightarrow>
     (let keys = splitChar CHR ''.'' s in 1 < length keys \<and> hd keys \<noteq> ''metadata'' \<and> [] \<notin> set keys)"

datatype hibernateProblem = UnknownPreset string | PresetTakesNoFields | SetPresetOrFields
  | BadAPIVersion string | BadFieldPath | BadName string

definition ruleProblem :: "gvParser \<Rightarrow> HibernateRule \<Rightarrow> hibernateProblem option" where
  "ruleProblem parseGV r =
     (if Preset r \<noteq> [] then
        (if Preset r \<noteq> presetCNPG \<and> Preset r \<noteq> presetZalando \<and> Preset r \<noteq> presetStrimzi
         then Some (UnknownPreset (Preset r))
         else if APIVersion r \<noteq> [] \<or> hrKind r \<noteq> [] \<or> ReplicasField r \<noteq> [] \<or> ReadyField r \<noteq> []
         then Some PresetTakesNoFields else None)
      else if APIVersion r = [] \<or> hrKind r = [] \<or> ReplicasField r = [] then Some SetPresetOrFields
      else if (case parseGV (APIVersion r) of None \<Rightarrow> True | Some (g, v) \<Rightarrow> g = [] \<or> v = [])
      then Some (BadAPIVersion (APIVersion r))
      else if \<not> fieldPath (ReplicasField r) \<or> (ReadyField r \<noteq> [] \<and> \<not> fieldPath (ReadyField r))
      then Some BadFieldPath else None)"

text \<open>The first rule at fault, counted from one, and what is wrong with it.\<close>

fun ValidateHibernateFrom :: "gvParser \<Rightarrow> nat \<Rightarrow> HibernateRule list \<Rightarrow> (nat \<times> hibernateProblem) option" where
  "ValidateHibernateFrom parseGV i [] = None"
| "ValidateHibernateFrom parseGV i (r # rs) =
     (case ruleProblem parseGV r of
        Some p \<Rightarrow> Some (i + 1, p)
      | None \<Rightarrow>
          (case find (\<lambda>g. pathMatch g [] = None \<or> g = []) (Names r) of
             Some g \<Rightarrow> Some (i + 1, BadName g)
           | None \<Rightarrow> ValidateHibernateFrom parseGV (Suc i) rs))"

definition ValidateHibernate :: "gvParser \<Rightarrow> HibernateRule list \<Rightarrow> (nat \<times> hibernateProblem) option" where
  "ValidateHibernate parseGV rules = ValidateHibernateFrom parseGV 0 rules"

definition ExclusionsWith :: "gvParser \<Rightarrow> string list \<Rightarrow> HibernateRule list \<Rightarrow> string list" where
  "ExclusionsWith parseGV exclusions rules =
     addAllNew (concat (map (\<lambda>r. map (\<lambda>k. ''owner:'' @ hkKind k) (kindsOf parseGV r)) rules)) exclusions"

definition nameMatches :: "string \<Rightarrow> string list \<Rightarrow> bool" where
  "nameMatches name globs \<longleftrightarrow> globs = [] \<or> list_ex (\<lambda>g. globMatches g name) globs"

subsection \<open>Fields of a resource\<close>

definition intField :: "Unstr \<Rightarrow> string \<Rightarrow> int option" where
  "intField obj dotted =
     (case nestedField (splitChar CHR ''.'' dotted) (uObject obj) of
        Some (JInt n) \<Rightarrow> Some n | Some (JFloat n) \<Rightarrow> Some n | _ \<Rightarrow> None)"

definition intOrZero :: "Unstr \<Rightarrow> string \<Rightarrow> int" where
  "intOrZero obj dotted = (case intField obj dotted of Some n \<Rightarrow> n | None \<Rightarrow> 0)"

definition condition :: "Unstr \<Rightarrow> string \<Rightarrow> string" where
  "condition obj kind =
     (case find (\<lambda>c. lookupField ''type'' c = Some (JStr kind)) (nestedSlice [''status'', ''conditions''] (uObject obj)) of
        Some c \<Rightarrow> stringAt ''status'' c
      | None \<Rightarrow> [])"

definition replicasPath :: "HibernateRule \<Rightarrow> string" where
  "replicasPath r =
     (if Preset r = presetZalando then ''spec.numberOfInstances''
      else if Preset r = presetStrimzi then ''spec.replicas''
      else ReplicasField r)"

fun setPath :: "string list \<Rightarrow> json \<Rightarrow> json \<Rightarrow> json" where
  "setPath [] v j = v"
| "setPath [k] v (JObj m) = JObj (AList.update k v m)"
| "setPath (k # k' # ks) v (JObj m) =
     JObj (AList.update k
       (setPath (k' # ks) v (case map_of m k of Some (JObj n) \<Rightarrow> JObj n | _ \<Rightarrow> JObj [])) m)"
| "setPath (k # ks) v j = JObj []"

abbreviation uAnnotation :: "Unstr \<Rightarrow> string \<Rightarrow> string" where
  "uAnnotation obj k \<equiv> annotation (omAnnotations (uMeta obj)) k"

subsection \<open>Stopping and starting\<close>

definition stoppedAlready :: "Unstr \<Rightarrow> HibernateRule \<Rightarrow> bool" where
  "stoppedAlready obj r \<longleftrightarrow>
     (if Preset r = presetCNPG then uAnnotation obj cnpgHibernation = ''on''
      else intField obj (replicasPath r) = Some 0)"

definition annotationsPatch :: "(string \<times> json) list \<Rightarrow> (string \<times> json) list" where
  "annotationsPatch as = [(''metadata'', JObj [(''annotations'', JObj as)])]"

definition forget :: json where
  "forget = JObj (annotationsPatch [(HibernatedAnnotation, JNull)])"

definition startCount :: "Unstr \<Rightarrow> int" where
  "startCount obj =
     (case parseInt 64 (uAnnotation obj OriginalReplicasAnnotation) of
        Some v \<Rightarrow> if 0 < v then v else 1
      | None \<Rightarrow> 1)"

text \<open>The patch \<open>setService\<close> sends, if any.\<close>

definition servicePatch :: "Unstr \<Rightarrow> HibernateRule \<Rightarrow> bool \<Rightarrow> json option" where
  "servicePatch obj r active =
     (if Preset r = presetCNPG then
        (if active then Some (JObj (annotationsPatch
             [(cnpgHibernation, JNull), (HibernatedAnnotation, JStr hibernatedStarting)]))
         else if uAnnotation obj cnpgHibernation = ''on'' then None
         else Some (JObj (annotationsPatch
             [(cnpgHibernation, JStr ''on''), (HibernatedAnnotation, JStr hibernatedStopped)])))
      else
        (let field = splitChar CHR ''.'' (replicasPath r);
             current = intOrZero obj (replicasPath r)
         in if active then Some (setPath field (JInt (startCount obj)) (JObj (annotationsPatch
                [(OriginalReplicasAnnotation, JNull), (HibernatedAnnotation, JStr hibernatedStarting)])))
            else if current = 0 then None
            else Some (setPath field (JInt 0) (JObj (annotationsPatch
                [(OriginalReplicasAnnotation, JStr (itoa current)), (HibernatedAnnotation, JStr hibernatedStopped)])))))"

definition patchService :: "'w api \<Rightarrow> Unstr \<Rightarrow> json \<Rightarrow> ('w, Unstr reply) io" where
  "patchService api obj patch = act (MergePatch obj patch) (mergePatch api obj patch)"

definition setService :: "'w api \<Rightarrow> Unstr \<Rightarrow> HibernateRule \<Rightarrow> bool \<Rightarrow> ('w, Unstr reply) io" where
  "setService api obj r active =
     (case servicePatch obj r active of
        None \<Rightarrow> State_Monad.return (Inr obj)
      | Some patch \<Rightarrow> patchService api obj patch)"

definition podReady :: "Pod \<Rightarrow> bool" where
  "podReady p \<longleftrightarrow> \<not> podDeleting p \<and> (''Ready'', ''True'') \<in> set (podConditions p)"

definition observed :: "Unstr \<Rightarrow> bool" where
  "observed obj \<longleftrightarrow>
     (case intField obj ''status.observedGeneration'' of None \<Rightarrow> True | Some seen \<Rightarrow> omGeneration (uMeta obj) \<le> seen)"

definition cnpgReady :: "Unstr \<Rightarrow> bool \<Rightarrow> bool" where
  "cnpgReady obj active \<longleftrightarrow>
     (if \<not> active then condition obj cnpgHibernation = ''True''
      else condition obj cnpgHibernation = [] \<and> condition obj ''Ready'' = ''True''
        \<and> intOrZero obj ''spec.instances'' \<le> intOrZero obj ''status.readyInstances'')"

definition serviceReady :: "'w api \<Rightarrow> Unstr \<Rightarrow> HibernateRule \<Rightarrow> bool \<Rightarrow> ('w, bool) io" where
  "serviceReady api obj r active =
     (if Preset r = presetCNPG then State_Monad.return (cnpgReady obj active)
      else if Preset r = presetZalando then
        do { s \<leftarrow> ask (getStatefulSet api (omNamespace (uMeta obj)) (omName (uMeta obj)));
             State_Monad.return (case s of
                 Inl e \<Rightarrow> \<not> active \<and> IsNotFound e
               | Inr sts \<Rightarrow>
                   if \<not> active then awReadyReplicas sts = 0 \<and> awStatusReplicas sts = 0
                   else intOrZero obj ''spec.numberOfInstances'' \<le> awReadyReplicas sts) }
      else if Preset r = presetStrimzi then
        do { p \<leftarrow> ask (listPods api (omNamespace (uMeta obj))
                (ByLabels [(''strimzi.io/cluster'', omName (uMeta obj)), (''strimzi.io/kind'', uKind obj)]));
             State_Monad.return (case p of
                 Inl e \<Rightarrow> False
               | Inr pods \<Rightarrow>
                   if \<not> active then \<not> list_ex podRuns pods
                   else observed obj \<and> condition obj ''Ready'' = ''True''
                     \<and> intOrZero obj ''spec.replicas'' \<le> int (length (filter podReady pods))) }
      else State_Monad.return
        (if ReadyField r = [] then True
         else if \<not> active then intOrZero obj (ReadyField r) = 0
         else intOrZero obj (ReplicasField r) \<le> intOrZero obj (ReadyField r)))"

subsection \<open>The resources of a namespace\<close>

definition listKind :: "'w api \<Rightarrow> string \<Rightarrow> hibernateKind \<Rightarrow> ('w, Unstr list reply) io" where
  "listKind api ns k =
     do { m \<leftarrow> ask (restMapping api (hkGroup k) (hkKind k) (hkVersions k));
          case m of
            Inl e \<Rightarrow> State_Monad.return (if IsNoMatchError e then Inr [] else Inl (Wrap ''find'' e))
          | Inr version \<Rightarrow>
              wrapped ''list'' (ask (listUnstructured api (hkGroup k) version (hkKind k @ ''List'') (Some ns))) }"

text \<open>The resources found so far with their rules; a resource is taken once.\<close>

definition takeItems :: "string \<Rightarrow> HibernateRule \<Rightarrow> Unstr list \<Rightarrow> (string \<times> Unstr \<times> HibernateRule) list
    \<Rightarrow> (string \<times> Unstr \<times> HibernateRule) list" where
  "takeItems kind r items out =
     foldl (\<lambda>out item.
         let ident = kind @ ''/'' @ omName (uMeta item)
         in if ident \<notin> fst ` set out \<and> nameMatches (omName (uMeta item)) (Names r)
            then out @ [(ident, item, r)] else out) out items"

fun targetsLoop :: "'w api \<Rightarrow> string \<Rightarrow> (HibernateRule \<times> hibernateKind) list
    \<Rightarrow> (string \<times> Unstr \<times> HibernateRule) list \<Rightarrow> ('w, (string \<times> Unstr \<times> HibernateRule) list reply) io" where
  "targetsLoop api ns [] out = State_Monad.return (Inr out)"
| "targetsLoop api ns ((r, k) # ks) out =
     attempt (listKind api ns k) (\<lambda>items. targetsLoop api ns ks (takeItems (hkKind k) r items out))"

definition HibernateTargets ::
    "'w api \<Rightarrow> gvParser \<Rightarrow> string \<Rightarrow> HibernateRule list \<Rightarrow> ('w, (Unstr \<times> HibernateRule) list reply) io" where
  "HibernateTargets api parseGV ns rules =
     attempt (targetsLoop api ns (concat (map (\<lambda>r. map (\<lambda>k. (r, k)) (kindsOf parseGV r)) rules)) [])
       (\<lambda>out. State_Monad.return (Inr (map snd out)))"

subsection \<open>HibernateServices\<close>

text \<open>One resource: whether it has got there, after stopping or starting it when it is due.\<close>

definition stepService :: "'w api \<Rightarrow> bool \<Rightarrow> Unstr \<Rightarrow> HibernateRule \<Rightarrow> ('w, bool reply) io" where
  "stepService api active obj r =
     (let state = uAnnotation obj HibernatedAnnotation;
          settle = (\<lambda>obj. do { ready \<leftarrow> serviceReady api obj r active;
                               if \<not> ready then State_Monad.return (Inr False)
                               else if active then attempt (patchService api obj forget) (\<lambda>_. State_Monad.return (Inr True))
                               else State_Monad.return (Inr True) })
      in if active \<and> state = [] then State_Monad.return (Inr True)
         else if active \<and> state = hibernatedStopped then attempt (wrapped ''service'' (setService api obj r True)) settle
         else if \<not> active \<and> state = [] \<and> stoppedAlready obj r then State_Monad.return (Inr True)
         else if \<not> active then attempt (wrapped ''service'' (setService api obj r False)) settle
         else settle obj)"

fun stepServices :: "'w api \<Rightarrow> bool \<Rightarrow> (Unstr \<times> HibernateRule) list \<Rightarrow> ('w, bool reply) io" where
  "stepServices api active [] = State_Monad.return (Inr True)"
| "stepServices api active ((obj, r) # rest) =
     attempt (stepService api active obj r) (\<lambda>ready.
     attempt (stepServices api active rest) (\<lambda>others. State_Monad.return (Inr (ready \<and> others))))"

definition HibernateServices ::
    "'w api \<Rightarrow> gvParser \<Rightarrow> string \<Rightarrow> bool \<Rightarrow> HibernateRule list \<Rightarrow> ('w, bool reply) io" where
  "HibernateServices api parseGV ns active rules =
     (if rules = [] then State_Monad.return (Inr True)
      else attempt (HibernateTargets api parseGV ns rules) (stepServices api active))"

definition ScaleWithServices ::
    "'w api \<Rightarrow> gvParser \<Rightarrow> string \<Rightarrow> bool \<Rightarrow> string list \<Rightarrow> string list \<Rightarrow> HibernateRule list \<Rightarrow> originals \<Rightarrow> bool
       \<Rightarrow> ('w, originals option \<times> bool reply) io" where
  "ScaleWithServices api parseGV ns active sequence exclusions rules originals timeoutPassed =
     (if active then
        do { h \<leftarrow> HibernateServices api parseGV ns True rules;
             case h of
               Inl e \<Rightarrow> State_Monad.return (Some originals, Inl e)
             | Inr ready \<Rightarrow>
                 if \<not> ready then State_Monad.return (Some originals, Inr False)
                 else ScaleTarget api ns True sequence exclusions originals timeoutPassed }
      else
        do { t \<leftarrow> ScaleTarget api ns False sequence exclusions originals timeoutPassed;
             if snd t \<noteq> Inr True then State_Monad.return t
             else do { h \<leftarrow> HibernateServices api parseGV ns False rules;
                       State_Monad.return (fst t, h) } })"

subsection \<open>Release, preview and dry run\<close>

fun releaseEach :: "'w api \<Rightarrow> (Unstr \<times> HibernateRule) list \<Rightarrow> ('w, unit reply) io" where
  "releaseEach api [] = State_Monad.return (Inr ())"
| "releaseEach api ((obj, r) # rest) =
     (let state = uAnnotation obj HibernatedAnnotation
      in attempt (if state = hibernatedStopped then setService api obj r True else State_Monad.return (Inr obj)) (\<lambda>obj'.
         attempt (if state \<noteq> [] then patchService api obj' forget else State_Monad.return (Inr obj')) (\<lambda>_.
         releaseEach api rest)))"

definition ReleaseServices :: "'w api \<Rightarrow> gvParser \<Rightarrow> string \<Rightarrow> HibernateRule list \<Rightarrow> ('w, unit reply) io" where
  "ReleaseServices api parseGV ns rules = attempt (HibernateTargets api parseGV ns rules) (releaseEach api)"

record HibernatedService =
  hsKind :: string
  hsName :: string
  hsRunning :: bool
  hsStopped :: bool

definition serviceOf :: "Unstr \<times> HibernateRule \<Rightarrow> HibernatedService" where
  "serviceOf x = (case x of (obj, r) \<Rightarrow>
     \<lparr>hsKind = uKind obj, hsName = omName (uMeta obj), hsRunning = \<not> stoppedAlready obj r,
      hsStopped = (uAnnotation obj HibernatedAnnotation = hibernatedStopped)\<rparr>)"

definition Services :: "'w api \<Rightarrow> gvParser \<Rightarrow> string \<Rightarrow> HibernateRule list \<Rightarrow> ('w, HibernatedService list reply) io" where
  "Services api parseGV ns rules =
     attempt (HibernateTargets api parseGV ns rules) (\<lambda>targets.
       State_Monad.return (Inr (sort_key (\<lambda>s. hsKind s @ ''/'' @ hsName s) (map serviceOf targets))))"

definition ServicesToChange :: "'w api \<Rightarrow> gvParser \<Rightarrow> string \<Rightarrow> bool \<Rightarrow> HibernateRule list \<Rightarrow> ('w, nat reply) io" where
  "ServicesToChange api parseGV ns active rules =
     attempt (Services api parseGV ns rules) (\<lambda>services.
       State_Monad.return (Inr (length (filter
         (\<lambda>s. (\<not> active \<and> hsRunning s) \<or> (active \<and> hsStopped s)) services))))"

subsection \<open>Patches at a path\<close>

lemma nestedField_setPath:
  "ks \<noteq> [] \<Longrightarrow> nestedField ks (setPath ks v (JObj m)) = Some v"
proof (induction ks v "JObj m" arbitrary: m rule: setPath.induct)
  case (3 k k' ks v m)
  have "\<exists>n. (case map_of m k of Some (JObj n) \<Rightarrow> JObj n | _ \<Rightarrow> JObj []) = JObj n"
    by (auto split: option.splits json.splits)
  with 3 show ?case by (auto simp: update_conv' split: option.splits json.splits)
qed (auto simp: update_conv')

lemma lookupField_setPath:
  "ks \<noteq> [] \<Longrightarrow> k \<noteq> hd ks \<Longrightarrow> lookupField k (setPath ks v (JObj m)) = map_of m k"
  by (cases ks rule: remdups_adj.cases) (auto simp: update_conv')

lemma fieldPath_keys:
  "fieldPath s \<Longrightarrow> splitChar CHR ''.'' s \<noteq> [] \<and> hd (splitChar CHR ''.'' s) \<noteq> ''metadata''"
  by (auto simp: fieldPath_def Let_def)

lemma presetPaths: "fieldPath ''spec.numberOfInstances''" "fieldPath ''spec.replicas''"
  by (simp_all add: fieldPath_def splitChar.simps)

definition annotationIn :: "json \<Rightarrow> string \<Rightarrow> json option" where
  "annotationIn patch k = nestedField [''metadata'', ''annotations'', k] patch"

lemma annotationIn_setPath:
  assumes "ks \<noteq> []" "hd ks \<noteq> ''metadata''"
  shows "annotationIn (setPath ks v (JObj (annotationsPatch as))) k = map_of as k"
  using lookupField_setPath [OF assms(1) assms(2) [symmetric], of v "annotationsPatch as"]
  by (cases "map_of as k") (simp_all add: annotationIn_def annotationsPatch_def)

subsection \<open>What services are asked\<close>

definition startChange :: "change \<Rightarrow> bool" where
  "startChange c \<longleftrightarrow>
     (\<exists>obj. c = MergePatch obj forget)
     \<or> (\<exists>obj r p. c = MergePatch obj p \<and> uAnnotation obj HibernatedAnnotation = hibernatedStopped
          \<and> servicePatch obj r True = Some p)"

definition stopChange :: "change \<Rightarrow> bool" where
  "stopChange c \<longleftrightarrow>
     (\<exists>obj r p. c = MergePatch obj p \<and> servicePatch obj r False = Some p
        \<and> (uAnnotation obj HibernatedAnnotation = [] \<longrightarrow> \<not> stoppedAlready obj r))"

lemma setService_only:
  "(\<And>p. servicePatch obj r active = Some p \<Longrightarrow> P (MergePatch obj p)) \<Longrightarrow> only P (setService api obj r active)"
  unfolding setService_def patchService_def
  by (cases "servicePatch obj r active") (auto intro: only_return only_act)

lemma serviceReady_reads: "only P (serviceReady api obj r active)"
  unfolding serviceReady_def by (auto intro!: only_return only_bind only_ask)

lemma listKind_reads: "only P (listKind api ns k)"
  unfolding listKind_def by (auto intro!: only_bind only_ask only_return only_wrapped split: sum.split)

lemma HibernateTargets_reads: "only P (HibernateTargets api parseGV ns rules)"
proof -
  have "only P (targetsLoop api ns ks out)" for ks out
    by (induction api ns ks out rule: targetsLoop.induct) (auto intro!: only_return only_attempt listKind_reads)
  then show ?thesis unfolding HibernateTargets_def by (auto intro!: only_attempt only_return)
qed

lemma forget_starts: "startChange (MergePatch obj forget)"
  by (auto simp: startChange_def)

lemma start_service: "uAnnotation obj HibernatedAnnotation = hibernatedStopped \<Longrightarrow> servicePatch obj r True = Some p
    \<Longrightarrow> startChange (MergePatch obj p)"
  by (auto simp: startChange_def)

lemma patchService_only: "P (MergePatch obj p) \<Longrightarrow> only P (patchService api obj p)"
  unfolding patchService_def by (rule only_act)

lemmas service_intros = only_return only_attempt only_wrapped only_bind serviceReady_reads HibernateTargets_reads
  setService_only patchService_only forget_starts start_service

lemma stepService_only:
  "only startChange (stepService api True obj r)" "only stopChange (stepService api False obj r)"
  unfolding stepService_def Let_def
  by (auto intro!: service_intros) (auto intro!: service_intros simp: stopChange_def)

lemma stepServices_only:
  "only startChange (stepServices api True xs)" "only stopChange (stepServices api False xs)"
  by (induction xs) (auto intro!: only_return only_attempt stepService_only)

lemma HibernateServices_only:
  "only (if active then startChange else stopChange) (HibernateServices api parseGV ns active rules)"
  unfolding HibernateServices_def
  by (auto intro!: only_return only_attempt HibernateTargets_reads stepServices_only)

lemma ReleaseServices_only: "only startChange (ReleaseServices api parseGV ns rules)"
proof -
  have "only startChange (releaseEach api xs)" for xs
    by (induction api xs rule: releaseEach.induct) (auto simp: Let_def intro!: service_intros)
  then show ?thesis unfolding ReleaseServices_def by (intro only_attempt HibernateTargets_reads)
qed

definition isServiceChange :: "change \<Rightarrow> bool" where
  "isServiceChange c \<longleftrightarrow> (\<exists>obj p. c = MergePatch obj p)"

lemma service_changes: "startChange c \<Longrightarrow> isServiceChange c" "stopChange c \<Longrightarrow> isServiceChange c"
  by (auto simp: startChange_def stopChange_def isServiceChange_def)

definition isScaleChange :: "change \<Rightarrow> bool" where
  "isScaleChange c \<longleftrightarrow>
     (case c of PatchWorkload _ _ \<Rightarrow> True | PatchCronJob _ _ \<Rightarrow> True | PatchObject _ _ \<Rightarrow> True | _ \<Rightarrow> False)"

lemma ScaleTarget_scales:
  assumes "getsItself api"
  shows "only isScaleChange (ScaleTarget api ns active sequence exclusions originals timeoutPassed)"
proof -
  have c: "holdChange exclusions c \<Longrightarrow> isScaleChange c" "releaseChange exclusions c \<Longrightarrow> isScaleChange c"
    "workloadChange a exclusions c \<Longrightarrow> isScaleChange c" for c a
    by (auto simp: holdChange_def releaseChange_def workloadChange_def isScaleChange_def)
  show ?thesis
  proof (cases active)
    case True
    have "only isScaleChange (scaleWorkloads api ns True sequence exclusions originals timeoutPassed)"
      unfolding only_def by (rule gives_mono [OF scaleWorkloads_gives [OF assms]]) (use c in fastforce)
    with True show ?thesis by (simp add: ScaleTarget_def)
  next
    case False
    have "only isScaleChange (ScaleTarget api ns False sequence exclusions originals timeoutPassed)"
      unfolding only_def by (rule gives_mono [OF ScaleTarget_down_gives [OF assms]]) (use c in fastforce)
    with False show ?thesis by simp
  qed
qed

lemma ScaleWithServices_gives:
  assumes "getsItself api"
  shows "gives (ScaleWithServices api parseGV ns active sequence exclusions rules originals timeoutPassed)
     (\<lambda>r cs. \<exists>first next. cs = first @ next
        \<and> (\<forall>c \<in> set (if active then first else next). isServiceChange c)
        \<and> (\<forall>c \<in> set (if active then next else first). isScaleChange c))"
proof -
  have sv: "gives (HibernateServices api parseGV ns a rules) (\<lambda>_ cs. \<forall>c \<in> set cs. isServiceChange c)" for a
    by (rule only_mono [OF HibernateServices_only, unfolded only_def]) (auto dest: service_changes split: if_splits)
  have sc: "gives (ScaleTarget api ns a sequence exclusions originals timeoutPassed) (\<lambda>_ cs. \<forall>c \<in> set cs. isScaleChange c)" for a
    using ScaleTarget_scales [OF assms] unfolding only_def .
  show ?thesis
  proof (cases active)
    case True
    show ?thesis
      unfolding ScaleWithServices_def using True
    proof (simp only: if_True, intro gives_bind gives_mono [OF sv])
      fix h :: "bool reply" and ss
      assume ss: "\<forall>c \<in> set ss. isServiceChange c"
      have stop: "gives (State_Monad.return x) (\<lambda>r ds. \<exists>first next. ss @ ds = first @ next
          \<and> (\<forall>c \<in> set first. isServiceChange c) \<and> (\<forall>c \<in> set next. isScaleChange c))" for x
        by (rule gives_return, rule exI [of _ ss], rule exI [of _ "[]"]) (use ss in simp)
      have "gives (ScaleTarget api ns True sequence exclusions originals timeoutPassed)
          (\<lambda>r ds. \<exists>first next. ss @ ds = first @ next
          \<and> (\<forall>c \<in> set first. isServiceChange c) \<and> (\<forall>c \<in> set next. isScaleChange c))"
        by (rule gives_mono [OF sc]) (use ss in blast)
      with stop show "gives (case h of
               Inl e \<Rightarrow> State_Monad.return (Some originals, Inl e)
             | Inr ready \<Rightarrow>
                 if \<not> ready then State_Monad.return (Some originals, Inr False)
                 else ScaleTarget api ns True sequence exclusions originals timeoutPassed)
          (\<lambda>r ds. \<exists>first next. ss @ ds = first @ next
          \<and> (\<forall>c \<in> set first. isServiceChange c) \<and> (\<forall>c \<in> set next. isScaleChange c))"
        by (auto split: sum.split)
    qed
  next
    case False
    show ?thesis
      unfolding ScaleWithServices_def using False
    proof (simp only: if_False, intro gives_bind gives_mono [OF sc])
      fix t :: "originals option \<times> bool reply" and ts
      assume ts: "\<forall>c \<in> set ts. isScaleChange c"
      show "gives (if snd t \<noteq> Inr True then State_Monad.return t
             else do { h \<leftarrow> HibernateServices api parseGV ns False rules; State_Monad.return (fst t, h) })
          (\<lambda>r ds. \<exists>first next. ts @ ds = first @ next
          \<and> (\<forall>c \<in> set next. isServiceChange c) \<and> (\<forall>c \<in> set first. isScaleChange c))"
      proof (rule gives_if)
        show "gives (State_Monad.return t) (\<lambda>r ds. \<exists>first next. ts @ ds = first @ next
          \<and> (\<forall>c \<in> set next. isServiceChange c) \<and> (\<forall>c \<in> set first. isScaleChange c))"
          by (rule gives_return, rule exI [of _ ts], rule exI [of _ "[]"]) (use ts in simp)
        show "gives (do { h \<leftarrow> HibernateServices api parseGV ns False rules; State_Monad.return (fst t, h) })
          (\<lambda>r ds. \<exists>first next. ts @ ds = first @ next
          \<and> (\<forall>c \<in> set next. isServiceChange c) \<and> (\<forall>c \<in> set first. isScaleChange c))"
          by (rule gives_bind, rule gives_mono [OF sv], rule gives_return) (use ts in \<open>simp, blast\<close>)
      qed
    qed
  qed
qed

subsection \<open>Properties\<close>

text \<open>Hibernation starts only what Cost Deck stopped and stops only what runs: whatever the
  cluster answers, the changes on the way up either drop Cost Deck's mark or start a resource
  marked as stopped by it, and those on the way down stop resources that nobody had stopped
  before.\<close>

theorem HibernateServices_own:
  assumes "run_state (HibernateServices api parseGV ns active rules) w = (r, w')"
  shows "\<exists>cs. trace w' = trace w @ cs \<and> (\<forall>c \<in> set cs. if active then startChange c else stopChange c)"
  using onlyD [OF HibernateServices_only assms] by (auto split: if_splits)

lemma HibernateServices_own_witness:
  "\<exists>r w' cs. run_state (HibernateServices quietApi (\<lambda>_. None) ''shop'' False
       [\<lparr>Preset = presetCNPG, APIVersion = [], hrKind = [], ReplicasField = [], ReadyField = [], Names = []\<rparr>])
       freshWorld = (r, w') \<and> trace w' = cs \<and> (\<forall>c \<in> set cs. stopChange c)"
proof -
  obtain r w' where run: "run_state (HibernateServices quietApi (\<lambda>_. None) ''shop'' False
       [\<lparr>Preset = presetCNPG, APIVersion = [], hrKind = [], ReplicasField = [], ReadyField = [], Names = []\<rparr>])
       freshWorld = (r, w')" by fastforce
  from HibernateServices_own [OF run] run show ?thesis by (auto simp: freshWorld_def)
qed

text \<open>Stopping a resource through its replica field and starting it again restores its size: the
  stop patch sets the field to zero and records the running count in the annotation, and the
  start patch of any resource with that annotation sets the field back to that count and drops
  the record. Both keep the mark up to date.\<close>

theorem servicePatch_round_trip:
  assumes path: "Preset r \<noteq> presetCNPG" "fieldPath (replicasPath r)"
    and n: "intField obj (replicasPath r) = Some n" "0 < n" "n < 2 ^ 63"
    and stop: "servicePatch obj r False = Some p"
    and start: "uAnnotation obj' OriginalReplicasAnnotation = itoa n" "servicePatch obj' r True = Some q"
  shows "nestedField (splitChar CHR ''.'' (replicasPath r)) p = Some (JInt 0)
    \<and> annotationIn p OriginalReplicasAnnotation = Some (JStr (itoa n))
    \<and> annotationIn p HibernatedAnnotation = Some (JStr hibernatedStopped)
    \<and> nestedField (splitChar CHR ''.'' (replicasPath r)) q = Some (JInt n)
    \<and> annotationIn q OriginalReplicasAnnotation = Some JNull
    \<and> annotationIn q HibernatedAnnotation = Some (JStr hibernatedStarting)"
proof -
  note k = fieldPath_keys [OF path(2)]
  have "parseInt 64 (itoa n) = Some n" by (rule parseInt_itoa) (use n in auto)
  then have q: "q = setPath (splitChar CHR ''.'' (replicasPath r)) (JInt n) (JObj (annotationsPatch
                [(OriginalReplicasAnnotation, JNull), (HibernatedAnnotation, JStr hibernatedStarting)]))"
    using start path(1) n(2) by (simp add: servicePatch_def startCount_def Let_def)
  have p: "p = setPath (splitChar CHR ''.'' (replicasPath r)) (JInt 0) (JObj (annotationsPatch
                [(OriginalReplicasAnnotation, JStr (itoa n)), (HibernatedAnnotation, JStr hibernatedStopped)]))"
    using stop path(1) n by (simp add: servicePatch_def intOrZero_def Let_def)
  show ?thesis
    unfolding p q using k by (simp add: nestedField_setPath annotationIn_setPath)
qed

definition sampleRule :: HibernateRule where
  "sampleRule = \<lparr>Preset = presetZalando, APIVersion = [], hrKind = [], ReplicasField = [], ReadyField = [], Names = []\<rparr>"

definition samplePostgres :: "(string \<rightharpoonup> string) \<Rightarrow> Unstr" where
  "samplePostgres as = \<lparr>uGroup = ''acid.zalan.do'', uVersion = ''v1'', uKind = ''postgresql'',
     uMeta = (emptyMeta ''shop'' ''pg'')\<lparr>omAnnotations := as\<rparr>,
     uObject = JObj [(''spec'', JObj [(''numberOfInstances'', JInt 2)])]\<rparr>"

lemma servicePatch_round_trip_witness:
  "\<exists>q. servicePatch (samplePostgres [OriginalReplicasAnnotation \<mapsto> itoa 2]) sampleRule True = Some q
     \<and> nestedField [''spec'', ''numberOfInstances''] q = Some (JInt 2)"
proof -
  have path: "replicasPath sampleRule = ''spec.numberOfInstances''" by (simp add: replicasPath_def sampleRule_def)
  have keys: "splitChar CHR ''.'' ''spec.numberOfInstances'' = [''spec'', ''numberOfInstances'']"
    by (simp add: splitChar.simps)
  have n: "intField (samplePostgres Map.empty) (replicasPath sampleRule) = Some 2"
    by (simp add: intField_def path keys samplePostgres_def)
  have np: "Preset sampleRule \<noteq> presetCNPG" by (simp add: sampleRule_def)
  obtain p where p: "servicePatch (samplePostgres Map.empty) sampleRule False = Some p"
    using np n by (simp add: servicePatch_def Let_def intOrZero_def)
  obtain q where q: "servicePatch (samplePostgres [OriginalReplicasAnnotation \<mapsto> itoa 2]) sampleRule True = Some q"
    using np by (simp add: servicePatch_def Let_def)
  have a: "uAnnotation (samplePostgres [OriginalReplicasAnnotation \<mapsto> itoa 2]) OriginalReplicasAnnotation = itoa 2"
    by (simp add: annotation_def samplePostgres_def)
  from servicePatch_round_trip [OF np _ n _ _ p a q] q show ?thesis
    by (simp add: path presetPaths keys)
qed

text \<open>Applications never run without their services: on the way up every change to services
  comes before every change to workloads and their companions, and on the way down after them,
  whatever the cluster answers.\<close>

theorem ScaleWithServices_order:
  assumes "getsItself api"
    and "run_state (ScaleWithServices api parseGV ns active sequence exclusions rules originals timeoutPassed) w = (r, w')"
  shows "\<exists>first next. trace w' = trace w @ first @ next
     \<and> (\<forall>c \<in> set (if active then first else next). isServiceChange c)
     \<and> (\<forall>c \<in> set (if active then next else first). isScaleChange c)"
proof -
  obtain cs where "trace w' = trace w @ cs" "\<exists>first next. cs = first @ next
     \<and> (\<forall>c \<in> set (if active then first else next). isServiceChange c)
     \<and> (\<forall>c \<in> set (if active then next else first). isScaleChange c)"
    by (rule givesD [OF ScaleWithServices_gives [OF assms(1)] assms(2)]) (rule that)
  then show ?thesis by blast
qed

lemma ScaleWithServices_order_witness:
  "\<exists>r w' first next. run_state (ScaleWithServices shopApi (\<lambda>_. None) ''shop'' False [] [] [sampleRule] [] False) freshWorld = (r, w')
     \<and> trace w' = first @ next \<and> (\<forall>c \<in> set next. isServiceChange c) \<and> (\<forall>c \<in> set first. isScaleChange c)"
proof -
  obtain r w' where run: "run_state (ScaleWithServices shopApi (\<lambda>_. None) ''shop'' False [] [] [sampleRule] [] False) freshWorld = (r, w')"
    by fastforce
  from ScaleWithServices_order [OF getsItself_shopApi run] run show ?thesis
    by (auto simp: freshWorld_def)
qed

text \<open>Valid rules are usable ones: when the validation finds no fault, every rule covers at
  least one kind, and its replica count is written at a path outside the metadata, so that
  stopping and starting do what the round trip says.\<close>

theorem ValidateHibernate_usable:
  assumes "ValidateHibernate parseGV rules = None" "r \<in> set rules"
  shows "kindsOf parseGV r \<noteq> [] \<and> (Preset r \<noteq> presetCNPG \<longrightarrow> fieldPath (replicasPath r))
    \<and> (\<forall>g \<in> set (Names r). g \<noteq> [] \<and> pathMatch g [] \<noteq> None)"
proof -
  have "ValidateHibernateFrom parseGV i rules = None \<Longrightarrow> r \<in> set rules \<Longrightarrow>
      ruleProblem parseGV r = None \<and> find (\<lambda>g. pathMatch g [] = None \<or> g = []) (Names r) = None" for i
    by (induction rules arbitrary: i) (auto split: option.splits)
  with assms have v: "ruleProblem parseGV r = None" "find (\<lambda>g. pathMatch g [] = None \<or> g = []) (Names r) = None"
    unfolding ValidateHibernate_def by blast+
  have "kindsOf parseGV r \<noteq> []"
    using v(1) by (auto simp: ruleProblem_def kindsOf_def split: if_splits option.splits)
  moreover have "Preset r \<noteq> presetCNPG \<longrightarrow> fieldPath (replicasPath r)"
    using v(1) presetPaths by (auto simp: ruleProblem_def replicasPath_def split: if_splits)
  ultimately show ?thesis using v(2) by (auto simp: find_None_iff)
qed

lemma ValidateHibernate_usable_witness:
  "ValidateHibernate (\<lambda>_. None) [sampleRule] = None \<and> kindsOf (\<lambda>_. None) sampleRule \<noteq> []"
proof -
  have v: "ValidateHibernate (\<lambda>_. None) [sampleRule] = None"
    by (simp add: ValidateHibernate_def ruleProblem_def sampleRule_def)
  from ValidateHibernate_usable [OF v, of sampleRule] v show ?thesis by simp
qed

text \<open>The workloads of a hibernated service are left to its operator: with the exclusions the
  rules add, a workload controlled by an object of a covered kind, in any capitalisation, is
  excluded from scaling.\<close>

theorem ExclusionsWith_leaves_operators:
  assumes "r \<in> set rules" "k \<in> set (kindsOf parseGV r)" "hkKind k \<noteq> []" "list_all (\<lambda>c. \<not> isSpace c) (hkKind k)"
    and "ref \<in> set (omOwners (metaOf obj))" "orController ref = Some True" "equalFold (hkKind k) (orKind ref)"
    and "\<forall>ref \<in> set (omOwners (metaOf obj)). orController ref = Some True \<longrightarrow> orKind ref \<noteq> []"
  shows "excludedObject obj (ExclusionsWith parseGV exclusions rules)"
proof -
  have ns: "trimSpace (''owner:'' @ hkKind k) = ''owner:'' @ hkKind k"
  proof -
    have "dropWhile isSpace (rev (''owner:'' @ hkKind k)) = rev (''owner:'' @ hkKind k)"
    proof (cases "hkKind k" rule: rev_cases)
      case (snoc ys y)
      with assms(4) show ?thesis by simp
    qed (use assms(3) in simp)
    then show ?thesis by (simp add: trimSpace_def isSpace_def)
  qed
  have "''owner:'' @ hkKind k \<in> set (ExclusionsWith parseGV exclusions rules)"
    using assms(1,2) by (auto simp: ExclusionsWith_def)
  moreover have "ownerExclusion ref (''owner:'' @ hkKind k)"
    unfolding ownerExclusion_def ns using assms(7) by (simp add: cutPrefix_def hasPrefix_def)
  ultimately have "orController ref = Some True \<and> list_ex (ownerExclusion ref) (ExclusionsWith parseGV exclusions rules)"
    using assms(6) by (auto simp: list_ex_iff)
  with assms(5) obtain ref' where f: "find (\<lambda>ref. orController ref = Some True
      \<and> list_ex (ownerExclusion ref) (ExclusionsWith parseGV exclusions rules)) (omOwners (metaOf obj)) = Some ref'"
    by (cases "find (\<lambda>ref. orController ref = Some True
      \<and> list_ex (ownerExclusion ref) (ExclusionsWith parseGV exclusions rules)) (omOwners (metaOf obj))")
       (auto simp: find_None_iff)
  then have "ref' \<in> set (omOwners (metaOf obj))" "orController ref' = Some True"
    by (auto simp: find_Some_iff)
  with f assms(8) show ?thesis by (auto simp: excludedObject_def ownedByKind_def)
qed

lemma ExclusionsWith_leaves_operators_witness:
  "excludedObject (StatefulSet ((emptyApp ''shop'' ''pg'')\<lparr>awMeta := (emptyMeta ''shop'' ''pg'')
       \<lparr>omOwners := [\<lparr>orKind = ''Cluster'', orName = ''pg'', orController = Some True\<rparr>]\<rparr>\<rparr>))
     (ExclusionsWith (\<lambda>_. None) [] [sampleRule\<lparr>Preset := presetCNPG\<rparr>])"
  by (rule ExclusionsWith_leaves_operators [of "sampleRule\<lparr>Preset := presetCNPG\<rparr>" _
        "\<lparr>hkGroup = ''postgresql.cnpg.io'', hkKind = ''Cluster'', hkVersions = [''v1'']\<rparr>" _
        "\<lparr>orKind = ''Cluster'', orName = ''pg'', orController = Some True\<rparr>"])
     (simp_all add: kindsOf_def sampleRule_def isSpace_def equalFold_def)

end
