(* ===== verification/GitOps.thy ===== *)
theory GitOps
  imports Companions
begin

section \<open>GitOps tools (internal/scaling/gitops.go)\<close>

text \<open>
  Argo CD and Flux bring workloads back to what Git says, so a schedule can pause them while it
  keeps a namespace down. The theory models which object manages a workload, what such an
  object reaches, the patches that pause and resume it, and shows that a pause never reaches
  beyond the namespaces of the schedule and that only what Cost Deck paused is resumed. The
  texts of the notes are left out: a note is the case it reports.
\<close>

abbreviation GitOpsPausedAnnotation :: string where "GitOpsPausedAnnotation \<equiv> ''costdeck.io/gitops-paused''"
abbreviation argoTrackingAnnotation :: string where "argoTrackingAnnotation \<equiv> ''argocd.argoproj.io/tracking-id''"
abbreviation fluxKustomizationName :: string where "fluxKustomizationName \<equiv> ''kustomize.toolkit.fluxcd.io/name''"
abbreviation fluxKustomizationNS :: string where "fluxKustomizationNS \<equiv> ''kustomize.toolkit.fluxcd.io/namespace''"
abbreviation fluxHelmReleaseName :: string where "fluxHelmReleaseName \<equiv> ''helm.toolkit.fluxcd.io/name''"
abbreviation fluxHelmReleaseNS :: string where "fluxHelmReleaseNS \<equiv> ''helm.toolkit.fluxcd.io/namespace''"
abbreviation pausedSuspend :: string where "pausedSuspend \<equiv> ''suspend''"
abbreviation pausedSelfHeal :: string where "pausedSelfHeal \<equiv> ''self-heal''"

subsection \<open>Owners\<close>

text \<open>The kinds the code constructs owners with, and their names.\<close>

datatype gitOpsKind = Kustomization | HelmRelease | Application

primrec kindName :: "gitOpsKind \<Rightarrow> string" where
  "kindName Kustomization = ''Kustomization''"
| "kindName HelmRelease = ''HelmRelease''"
| "kindName Application = ''Application''"

primrec kindGV :: "gitOpsKind \<Rightarrow> string \<times> string" where
  "kindGV Kustomization = (''kustomize.toolkit.fluxcd.io'', ''v1'')"
| "kindGV HelmRelease = (''helm.toolkit.fluxcd.io'', ''v2'')"
| "kindGV Application = (''argoproj.io'', ''v1alpha1'')"

record GitOpsOwner =
  goKind :: gitOpsKind
  goName :: string
  goNamespace :: string

definition ownerString :: "GitOpsOwner \<Rightarrow> string" where
  "ownerString ow =
     (let ref = (if goNamespace ow \<noteq> [] then goNamespace ow @ ''/'' @ goName ow else goName ow)
      in if goKind ow = Application then ''Argo CD application '' @ ref
         else ''Flux '' @ kindName (goKind ow) @ '' '' @ ref)"

definition GitOpsOwnerOf :: "workload \<Rightarrow> GitOpsOwner option" where
  "GitOpsOwnerOf obj =
     (let labels = annotation (omLabels (metaOf obj));
          track = annotation (wAnnotations obj) argoTrackingAnnotation
      in if labels fluxKustomizationName \<noteq> [] then
           Some \<lparr>goKind = Kustomization, goName = labels fluxKustomizationName, goNamespace = labels fluxKustomizationNS\<rparr>
         else if labels fluxHelmReleaseName \<noteq> [] then
           Some \<lparr>goKind = HelmRelease, goName = labels fluxHelmReleaseName, goNamespace = labels fluxHelmReleaseNS\<rparr>
         else if track \<noteq> [] then
           (let inst = (case cutChar CHR '':'' track of Some (a, _) \<Rightarrow> a | None \<Rightarrow> track)
            in case cutChar CHR ''_'' inst of
                 Some (ns, name) \<Rightarrow> Some \<lparr>goKind = Application, goName = name, goNamespace = ns\<rparr>
               | None \<Rightarrow> Some \<lparr>goKind = Application, goName = inst, goNamespace = []\<rparr>)
         else None)"

text \<open>The owners once each, sorted as they are written, with the workloads each manages.\<close>

definition managedBy :: "workload list \<Rightarrow> GitOpsOwner \<Rightarrow> workload list" where
  "managedBy objs ow = filter (\<lambda>w. GitOpsOwnerOf w = Some ow) objs"

definition ownersOf :: "workload list \<Rightarrow> GitOpsOwner list" where
  "ownersOf objs = sort_key ownerString (addAllNew (List.map_filter GitOpsOwnerOf objs) [])"

definition gitOpsOwnersWithWorkloads ::
    "'w api \<Rightarrow> string \<Rightarrow> string list \<Rightarrow> ('w, (GitOpsOwner \<times> workload list) list reply) io" where
  "gitOpsOwnersWithWorkloads api ns exclusions =
     attempt (listScalableResources api ns exclusions) (\<lambda>objs.
       State_Monad.return (Inr (map (\<lambda>ow. (ow, managedBy objs ow)) (ownersOf objs))))"

definition GitOpsOwners :: "'w api \<Rightarrow> string \<Rightarrow> string list \<Rightarrow> ('w, GitOpsOwner list reply) io" where
  "GitOpsOwners api ns exclusions =
     attempt (gitOpsOwnersWithWorkloads api ns exclusions) (\<lambda>owners.
       State_Monad.return (Inr (map fst owners)))"

subsection \<open>What an object manages\<close>

definition workloadRef :: "workload \<Rightarrow> string \<times> string" where
  "workloadRef w =
     (let kind = workloadKind w
      in if kind = kindRollout then (argoGroup, kind) else (''apps'', kind))"

definition namespaceObjectIn :: "string \<Rightarrow> string \<Rightarrow> string list \<Rightarrow> bool" where
  "namespaceObjectIn kind name allowed \<longleftrightarrow> kind = ''Namespace'' \<and> name \<in> set allowed"

definition inventoryIds :: "Unstr \<Rightarrow> string list" where
  "inventoryIds obj = map (stringAt ''id'') (nestedSlice [''status'', ''inventory'', ''entries''] (uObject obj))"

text \<open>The id of an object in an inventory.\<close>

definition inventoryId :: "string \<Rightarrow> string \<Rightarrow> string \<Rightarrow> string \<Rightarrow> string" where
  "inventoryId ns name grp kind = ns @ ''_'' @ name @ ''_'' @ grp @ ''_'' @ kind"

definition workloadLabel :: "workload \<Rightarrow> string" where
  "workloadLabel w = snd (workloadRef w) @ '' '' @ wName w"

definition notInInventory :: "Unstr \<Rightarrow> workload list \<Rightarrow> string list" where
  "notInInventory obj workloads =
     (let ids = filter (\<lambda>i. i \<noteq> []) (inventoryIds obj)
      in map workloadLabel (filter (\<lambda>w. case workloadRef w of (grp, kind) \<Rightarrow>
             inventoryId (wNamespace w) (wName w) grp kind \<notin> set ids) workloads))"

text \<open>What a resource adds to the list of what lies outside: its namespace, or that it has
  none.\<close>

definition outsideOf :: "string list \<Rightarrow> string \<Rightarrow> string \<Rightarrow> string \<Rightarrow> string list" where
  "outsideOf allowed ns kind name =
     (if ns \<noteq> [] \<and> ns \<notin> set allowed then [ns]
      else if ns = [] \<and> \<not> namespaceObjectIn kind name allowed then [''cluster-scoped resources'']
      else [])"

definition entryOutside :: "string list \<Rightarrow> string \<Rightarrow> string list" where
  "entryOutside allowed entry =
     (case splitN CHR ''_'' 4 entry of
        [ns, name, _, kind] \<Rightarrow> outsideOf allowed ns kind name
      | _ \<Rightarrow> [])"

definition inventoryOutside :: "Unstr \<Rightarrow> string list \<Rightarrow> string list" where
  "inventoryOutside obj allowed = sort (addAllNew (concat (map (entryOutside allowed) (inventoryIds obj))) [])"

definition resourcesOf :: "Unstr \<Rightarrow> json list" where
  "resourcesOf obj = nestedSlice [''status'', ''resources''] (uObject obj)"

definition resourceKey :: "string \<Rightarrow> string \<Rightarrow> string \<Rightarrow> string \<Rightarrow> string" where
  "resourceKey grp kind ns name = grp @ ''/'' @ kind @ ''/'' @ ns @ ''/'' @ name"

definition listedKey :: "json \<Rightarrow> string" where
  "listedKey r = resourceKey (stringAt ''group'' r) (stringAt ''kind'' r) (stringAt ''namespace'' r) (stringAt ''name'' r)"

definition notListedByApplication :: "Unstr \<Rightarrow> workload list \<Rightarrow> string list" where
  "notListedByApplication obj workloads =
     map workloadLabel (filter (\<lambda>w. case workloadRef w of (grp, kind) \<Rightarrow>
        resourceKey grp kind (wNamespace w) (wName w) \<notin> set (map listedKey (resourcesOf obj))) workloads)"

definition resourceOutside :: "string list \<Rightarrow> json \<Rightarrow> string list" where
  "resourceOutside allowed r = outsideOf allowed (stringAt ''namespace'' r) (stringAt ''kind'' r) (stringAt ''name'' r)"

definition applicationOutside :: "Unstr \<Rightarrow> string list \<Rightarrow> string list" where
  "applicationOutside obj allowed =
     (let dest = nestedString [''spec'', ''destination'', ''namespace''] (uObject obj)
      in sort (addAllNew
           ((if dest \<noteq> [] \<and> dest \<notin> set allowed then [dest] else [])
            @ concat (map (resourceOutside allowed) (resourcesOf obj))) []))"

definition releaseTarget :: "Unstr \<Rightarrow> string" where
  "releaseTarget obj =
     (let target = nestedString [''spec'', ''targetNamespace''] (uObject obj)
      in if target = [] then omNamespace (uMeta obj) else target)"

primrec outsideTheSchedule :: "gitOpsKind \<Rightarrow> Unstr \<Rightarrow> workload list \<Rightarrow> string list \<Rightarrow> string" where
  "outsideTheSchedule Kustomization obj workloads allowed =
     (if notInInventory obj workloads \<noteq> []
      then ''does not list '' @ join '', '' (notInInventory obj workloads) @ '' in its inventory''
      else if inventoryOutside obj allowed \<noteq> []
      then ''also applies to '' @ join '', '' (inventoryOutside obj allowed)
      else [])"
| "outsideTheSchedule HelmRelease obj workloads allowed =
     (let target = releaseTarget obj
      in case find (\<lambda>w. wNamespace w \<noteq> target) workloads of
           Some w \<Rightarrow> ''installs into '' @ target @ '', not '' @ wNamespace w
         | None \<Rightarrow> if target \<notin> set allowed
                    then ''installs into '' @ target @ '', which the schedule does not scale''
                    else [])"
| "outsideTheSchedule Application obj workloads allowed =
     (if notListedByApplication obj workloads \<noteq> []
      then ''does not list '' @ join '', '' (notListedByApplication obj workloads) @ '' among its resources''
      else if applicationOutside obj allowed \<noteq> []
      then ''also manages '' @ join '', '' (applicationOutside obj allowed)
      else [])"

subsection \<open>Reading the object of an owner\<close>

definition ownerRefObject :: "GitOpsOwner \<Rightarrow> Unstr" where
  "ownerRefObject ow =
     \<lparr>uGroup = fst (kindGV (goKind ow)), uVersion = snd (kindGV (goKind ow)), uKind = kindName (goKind ow),
      uMeta = emptyMeta (goNamespace ow) (goName ow), uObject = JObj []\<rparr>"

definition chooseNamed :: "GitOpsOwner \<Rightarrow> workload list \<Rightarrow> Unstr list \<Rightarrow> Unstr reply" where
  "chooseNamed ow workloads items =
     (let named = filter (\<lambda>i. omName (uMeta i) = goName ow) items;
          listing = filter (\<lambda>i. notListedByApplication i workloads = []) named
      in case listing of
           [i] \<Rightarrow> Inr i
         | _ # _ # _ \<Rightarrow> Inl (Msg (itoa (int (length listing)) @ '' Applications named '' @ goName ow
               @ '' list these workloads; it is not clear which one manages them''))
         | [] \<Rightarrow>
             (case named of
                [i] \<Rightarrow> Inr i
              | [] \<Rightarrow> Inl (Api NotFound)
              | _ \<Rightarrow> Inl (Msg (itoa (int (length named)) @ '' Applications are named '' @ goName ow
                    @ '' and none lists these workloads''))))"

definition gitOpsObject :: "'w api \<Rightarrow> GitOpsOwner \<Rightarrow> workload list \<Rightarrow> ('w, Unstr reply) io" where
  "gitOpsObject api ow workloads =
     (if goNamespace ow \<noteq> [] then ask (getUnstructured api (ownerRefObject ow))
      else (case kindGV (goKind ow) of (grp, version) \<Rightarrow>
        attempt (ask (listUnstructured api grp version (kindName (goKind ow) @ ''List'') None)) (\<lambda>items.
          State_Monad.return (chooseNamed ow workloads items))))"

definition ownerKind :: "Unstr \<Rightarrow> string \<Rightarrow> string" where
  "ownerKind obj kind =
     (case find (\<lambda>ref. orKind ref = kind) (omOwners (uMeta obj)) of Some ref \<Rightarrow> orName ref | None \<Rightarrow> [])"

subsection \<open>Pausing\<close>

datatype pauseFailure = NoPermission | NotThere | OtherFailure goError

definition gitOpsError :: "goError \<Rightarrow> pauseFailure" where
  "gitOpsError e =
     (if IsForbidden e then NoPermission
      else if IsNotFound e \<or> IsNoMatchError e then NotThere
      else OtherFailure e)"

datatype pauseNote = CannotPause GitOpsOwner pauseFailure | FromApplicationSet GitOpsOwner string
  | LeftRunning GitOpsOwner string

definition suspendSpec :: "bool \<Rightarrow> json" where
  "suspendSpec b = JObj [(''suspend'', JBool b)]"

definition selfHealSpec :: "bool \<Rightarrow> json" where
  "selfHealSpec b = JObj [(''syncPolicy'', JObj [(''automated'', JObj [(''selfHeal'', JBool b)])])]"

definition markPatch :: "json \<Rightarrow> (string \<times> json) list" where
  "markPatch v = [(''metadata'', JObj [(''annotations'', JObj [(GitOpsPausedAnnotation, v)])])]"

definition pausePatch :: "gitOpsKind \<Rightarrow> json" where
  "pausePatch k =
     JObj ((''spec'', if k = Application then selfHealSpec False else suspendSpec True)
       # markPatch (JStr (if k = Application then pausedSelfHeal else pausedSuspend)))"

abbreviation pausedMark :: "Unstr \<Rightarrow> string" where
  "pausedMark obj \<equiv> annotation (omAnnotations (uMeta obj)) GitOpsPausedAnnotation"

text \<open>Whether the object would bring workloads back, as far as the code looks.\<close>

definition reconciles :: "gitOpsKind \<Rightarrow> Unstr \<Rightarrow> bool" where
  "reconciles k obj =
     (if k = Application then nestedBool [''spec'', ''syncPolicy'', ''automated'', ''selfHeal''] (uObject obj)
      else \<not> nestedBool [''spec'', ''suspend''] (uObject obj))"

text \<open>What is done about an object that could be read: the notes, or the patch.\<close>

definition pauseStep :: "GitOpsOwner \<Rightarrow> Unstr \<Rightarrow> workload list \<Rightarrow> string list \<Rightarrow> pauseNote list + json" where
  "pauseStep ow obj workloads allowed =
     (let k = goKind ow; reason = outsideTheSchedule k obj workloads allowed
      in if pausedMark obj \<noteq> [] then Inl []
         else if \<not> reconciles k obj then Inl []
         else if k = Application \<and> ownerKind obj ''ApplicationSet'' \<noteq> []
         then Inl [FromApplicationSet ow (ownerKind obj ''ApplicationSet'')]
         else if reason \<noteq> [] then Inl [LeftRunning ow reason]
         else Inr (pausePatch k))"

fun pauseEach :: "'w api \<Rightarrow> string list \<Rightarrow> (GitOpsOwner \<times> workload list) list \<Rightarrow> ('w, pauseNote list) io" where
  "pauseEach api allowed [] = State_Monad.return []"
| "pauseEach api allowed ((ow, workloads) # rest) =
     do { r \<leftarrow> gitOpsObject api ow workloads;
          notes \<leftarrow> (case r of
              Inl e \<Rightarrow> State_Monad.return [CannotPause ow (gitOpsError e)]
            | Inr obj \<Rightarrow>
                (case pauseStep ow obj workloads allowed of
                   Inl ns \<Rightarrow> State_Monad.return ns
                 | Inr patch \<Rightarrow>
                     do { p \<leftarrow> act (MergePatch obj patch) (mergePatch api obj patch);
                          State_Monad.return (case p of Inl e \<Rightarrow> [CannotPause ow (gitOpsError e)] | Inr _ \<Rightarrow> []) }));
          others \<leftarrow> pauseEach api allowed rest;
          State_Monad.return (notes @ others) }"

definition PauseGitOps ::
    "'w api \<Rightarrow> string \<Rightarrow> string list \<Rightarrow> string list \<Rightarrow> ('w, pauseNote list reply) io" where
  "PauseGitOps api ns exclusions allowed =
     attempt (gitOpsOwnersWithWorkloads api ns exclusions) (\<lambda>owners.
       do { notes \<leftarrow> pauseEach api allowed owners; State_Monad.return (Inr notes) })"

subsection \<open>Resuming\<close>

definition resumePatch :: "Unstr \<Rightarrow> json option" where
  "resumePatch obj =
     (if pausedMark obj = pausedSuspend then
        Some (JObj ((''spec'', suspendSpec False) # markPatch JNull))
      else if pausedMark obj = pausedSelfHeal then
        (if nestedMap [''spec'', ''syncPolicy'', ''automated''] (uObject obj) \<noteq> None
         then Some (JObj ((''spec'', selfHealSpec True) # markPatch JNull))
         else Some (JObj (markPatch JNull)))
      else None)"

fun resumeEach :: "'w api \<Rightarrow> (GitOpsOwner \<times> workload list) list \<Rightarrow> ('w, unit reply) io" where
  "resumeEach api [] = State_Monad.return (Inr ())"
| "resumeEach api ((ow, workloads) # rest) =
     do { r \<leftarrow> gitOpsObject api ow workloads;
          case r of
            Inl e \<Rightarrow> resumeEach api rest
          | Inr obj \<Rightarrow>
              (case resumePatch obj of
                 None \<Rightarrow> resumeEach api rest
               | Some patch \<Rightarrow>
                   attempt (wrapped (''resume '' @ ownerString ow)
                     (act (MergePatch obj patch) (mergePatch api obj patch))) (\<lambda>_. resumeEach api rest)) }"

definition ResumeGitOps :: "'w api \<Rightarrow> string \<Rightarrow> string list \<Rightarrow> ('w, unit reply) io" where
  "ResumeGitOps api ns exclusions =
     attempt (gitOpsOwnersWithWorkloads api ns exclusions) (resumeEach api)"

subsection \<open>What an object reaches\<close>

lemma splitN_join:
  assumes "sep \<notin> set a" "sep \<notin> set b" "sep \<notin> set c"
  shows "splitN sep 4 (a @ sep # b @ sep # c @ sep # d) = [a, b, c, d]"
  using assms by (simp add: cutChar_append eval_nat_numeral)

lemma entryOutside_id:
  assumes "CHR ''_'' \<notin> set ns" "CHR ''_'' \<notin> set name" "CHR ''_'' \<notin> set grp"
  shows "entryOutside allowed (inventoryId ns name grp kind) = outsideOf allowed ns kind name"
  using splitN_join [OF assms, of kind] by (simp add: entryOutside_def inventoryId_def)

text \<open>A resource that lies within: in an allowed namespace, or the object of one.\<close>

definition withinAllowed :: "string list \<Rightarrow> string \<Rightarrow> string \<Rightarrow> string \<Rightarrow> bool" where
  "withinAllowed allowed ns kind name \<longleftrightarrow>
     (if ns = [] then kind = ''Namespace'' \<and> name \<in> set allowed else ns \<in> set allowed)"

lemma outsideOf_iff: "outsideOf allowed ns kind name = [] \<longleftrightarrow> withinAllowed allowed ns kind name"
  by (simp add: outsideOf_def withinAllowed_def namespaceObjectIn_def)

text \<open>What the statuses show an object to manage, as namespace, kind and name.\<close>

primrec managesThings :: "gitOpsKind \<Rightarrow> Unstr \<Rightarrow> (string \<times> string \<times> string) set" where
  "managesThings Kustomization obj =
     {(ns, kind, name). \<exists>e \<in> set (inventoryIds obj). \<exists>grp. splitN CHR ''_'' 4 e = [ns, name, grp, kind]}"
| "managesThings HelmRelease obj = {}"
| "managesThings Application obj =
     (\<lambda>r. (stringAt ''namespace'' r, stringAt ''kind'' r, stringAt ''name'' r)) ` set (resourcesOf obj)"

primrec listsWorkload :: "gitOpsKind \<Rightarrow> Unstr \<Rightarrow> workload \<Rightarrow> bool" where
  "listsWorkload Kustomization obj w \<longleftrightarrow>
     inventoryId (wNamespace w) (wName w) (fst (workloadRef w)) (snd (workloadRef w)) \<in> set (inventoryIds obj)"
| "listsWorkload HelmRelease obj w \<longleftrightarrow> wNamespace w = releaseTarget obj"
| "listsWorkload Application obj w \<longleftrightarrow>
     (\<exists>r \<in> set (resourcesOf obj). listedKey r
        = resourceKey (fst (workloadRef w)) (snd (workloadRef w)) (wNamespace w) (wName w))"

primrec destinationsOf :: "gitOpsKind \<Rightarrow> Unstr \<Rightarrow> string set" where
  "destinationsOf Kustomization obj = {}"
| "destinationsOf HelmRelease obj = {releaseTarget obj}"
| "destinationsOf Application obj =
     {nestedString [''spec'', ''destination'', ''namespace''] (uObject obj)} - {[]}"

definition staysWithin :: "gitOpsKind \<Rightarrow> Unstr \<Rightarrow> string list \<Rightarrow> bool" where
  "staysWithin k obj allowed \<longleftrightarrow>
     (\<forall>(ns, kind, name) \<in> managesThings k obj. withinAllowed allowed ns kind name)
     \<and> destinationsOf k obj \<subseteq> set allowed"

lemma sorted_set_empty: "sort xs = [] \<longleftrightarrow> xs = []"
  by (metis set_empty set_sort)

lemma notInInventory_none:
  "notInInventory obj ws = [] \<Longrightarrow> w \<in> set ws \<Longrightarrow> listsWorkload Kustomization obj w"
  by (auto simp: notInInventory_def Let_def filter_empty_conv split_beta)

lemma notListed_none:
  "notListedByApplication obj ws = [] \<Longrightarrow> w \<in> set ws \<Longrightarrow> listsWorkload Application obj w"
  by (fastforce simp: notListedByApplication_def filter_empty_conv split_beta)

lemma entryOutside_none:
  "entryOutside allowed entry = [] \<Longrightarrow> splitN CHR ''_'' 4 entry = [ns, name, grp, kind] \<Longrightarrow> withinAllowed allowed ns kind name"
  by (simp add: entryOutside_def outsideOf_iff)

lemma sort_addAllNew_none: "sort (addAllNew (xs :: string list) []) = [] \<longleftrightarrow> xs = []"
  by (metis set_addAllNew set_empty sorted_set_empty sup_bot_right)

lemma outsideTheSchedule_none:
  assumes "outsideTheSchedule k obj ws allowed = []" "w \<in> set ws"
  shows "listsWorkload k obj w \<and> staysWithin k obj allowed"
proof (cases k)
  case Kustomization
  with assms(1) have n: "notInInventory obj ws = []" and o: "inventoryOutside obj allowed = []"
    by (auto split: if_splits)
  from o have "\<forall>e \<in> set (inventoryIds obj). entryOutside allowed e = []"
    by (simp add: inventoryOutside_def sort_addAllNew_none)
  then show ?thesis
    using Kustomization notInInventory_none [OF n assms(2)] entryOutside_none
    by (auto simp: staysWithin_def)
next
  case HelmRelease
  with assms show ?thesis
    by (auto simp: staysWithin_def Let_def find_None_iff split: option.splits if_splits)
next
  case Application
  with assms(1) have n: "notListedByApplication obj ws = []" and o: "applicationOutside obj allowed = []"
    by (auto split: if_splits)
  from o have "\<forall>r \<in> set (resourcesOf obj). resourceOutside allowed r = []"
    and "destinationsOf Application obj \<subseteq> set allowed"
    by (auto simp: applicationOutside_def Let_def sort_addAllNew_none split: if_splits)
  then show ?thesis
    using Application notListed_none [OF n assms(2)]
    by (auto simp: staysWithin_def resourceOutside_def outsideOf_iff)
qed

subsection \<open>What pausing and resuming ask for\<close>

definition pauseChange :: "string list \<Rightarrow> change \<Rightarrow> bool" where
  "pauseChange allowed c \<longleftrightarrow>
     (\<exists>k obj ws. c = MergePatch obj (pausePatch k) \<and> pausedMark obj = [] \<and> reconciles k obj
        \<and> ws \<noteq> [] \<and> (\<forall>w \<in> set ws. listsWorkload k obj w) \<and> staysWithin k obj allowed)"

definition resumeChange :: "change \<Rightarrow> bool" where
  "resumeChange c \<longleftrightarrow>
     (\<exists>obj p. c = MergePatch obj p
        \<and> nestedField [''metadata'', ''annotations'', GitOpsPausedAnnotation] p = Some JNull
        \<and> (pausedMark obj = pausedSuspend \<and> nestedField [''spec''] p = Some (suspendSpec False)
           \<or> pausedMark obj = pausedSelfHeal
             \<and> nestedField [''spec''] p =
                 (if nestedMap [''spec'', ''syncPolicy'', ''automated''] (uObject obj) = None then None
                  else Some (selfHealSpec True))))"

lemma resumePatch_change: "resumePatch obj = Some p \<Longrightarrow> resumeChange (MergePatch obj p)"
  by (auto simp: resumePatch_def resumeChange_def markPatch_def split: if_splits)

lemma gitOpsObject_reads: "only P (gitOpsObject api ow ws)"
  unfolding gitOpsObject_def by (auto intro!: only_ask only_attempt only_return split: prod.split)

lemma pauseStep_change:
  assumes "pauseStep ow obj ws allowed = Inr p" "ws \<noteq> []"
  shows "pauseChange allowed (MergePatch obj p)"
proof -
  from assms(1) have "pausedMark obj = []" "reconciles (goKind ow) obj" "p = pausePatch (goKind ow)"
    and o: "outsideTheSchedule (goKind ow) obj ws allowed = []"
    by (auto simp: pauseStep_def Let_def split: if_splits)
  moreover from assms(2) obtain w where "w \<in> set ws" by (cases ws) auto
  ultimately show ?thesis
    unfolding pauseChange_def using assms(2) outsideTheSchedule_none [OF o] by blast
qed

lemma pauseEach_only:
  assumes "\<forall>(ow, ws) \<in> set owners. ws \<noteq> []"
  shows "only (pauseChange allowed) (pauseEach api allowed owners)"
  using assms
  by (induction api allowed owners rule: pauseEach.induct)
     (auto intro!: only_return only_bind gitOpsObject_reads only_act pauseStep_change split: sum.split)

lemma ownersOf_managed: "ow \<in> set (ownersOf objs) \<Longrightarrow> managedBy objs ow \<noteq> []"
  by (force simp: ownersOf_def managedBy_def List.map_filter_def filter_empty_conv)

lemma gitOpsOwners_gives:
  "gives (gitOpsOwnersWithWorkloads api ns exclusions)
     (\<lambda>r cs. cs = [] \<and> (\<forall>owners. r = Inr owners \<longrightarrow> (\<forall>(ow, ws) \<in> set owners. ws \<noteq> [])))"
  unfolding gitOpsOwnersWithWorkloads_def
  by (rule gives_attempt, rule gives_mono [OF listScalableResources_reads [of "\<lambda>_. False", unfolded only_def]])
     (auto intro!: gives_return dest: ownersOf_managed [THEN not_sym] split: sum.split)

lemma PauseGitOps_only: "only (pauseChange allowed) (PauseGitOps api ns exclusions allowed)"
  unfolding PauseGitOps_def only_def
  by (rule gives_attempt, rule gives_mono [OF gitOpsOwners_gives])
     (auto split: sum.split intro!: gives_bind gives_mono [OF pauseEach_only [unfolded only_def]] gives_return)

lemma ResumeGitOps_only: "only resumeChange (ResumeGitOps api ns exclusions)"
proof -
  have "only resumeChange (resumeEach api owners)" for owners
    by (induction api owners rule: resumeEach.induct)
       (auto intro!: only_return only_bind only_attempt only_wrapped gitOpsObject_reads only_act resumePatch_change
          split: sum.split option.split)
  moreover have "only resumeChange (gitOpsOwnersWithWorkloads api ns exclusions)"
    unfolding gitOpsOwnersWithWorkloads_def
    by (auto intro!: only_attempt only_return listScalableResources_reads)
  ultimately show ?thesis unfolding ResumeGitOps_def by (blast intro: only_attempt)
qed

subsection \<open>Properties\<close>

text \<open>Pausing GitOps tools never reaches beyond the schedule: whatever the cluster answers,
  every object paused was reconciling and bore no mark of an earlier pause, shows in its status
  or its target that it manages workloads of the schedule, manages nothing outside the allowed
  namespaces, and deploys to no other.\<close>

theorem PauseGitOps_within:
  assumes "run_state (PauseGitOps api ns exclusions allowed) w = (r, w')"
  shows "\<exists>cs. trace w' = trace w @ cs \<and> (\<forall>c \<in> set cs. pauseChange allowed c)"
  using onlyD [OF PauseGitOps_only assms] .

definition fluxWeb :: AppWorkload where
  "fluxWeb = \<lparr>awMeta = (emptyMeta ''shop'' ''web'')
       \<lparr>omLabels := [fluxKustomizationName \<mapsto> ''apps'', fluxKustomizationNS \<mapsto> ''flux-system'']\<rparr>,
     awReplicas = Some 3, awSelector = None, awReadyReplicas = 3, awStatusReplicas = 3, awTemplate = JObj []\<rparr>"

definition fluxApps :: Unstr where
  "fluxApps = \<lparr>uGroup = ''kustomize.toolkit.fluxcd.io'', uVersion = ''v1'', uKind = ''Kustomization'',
     uMeta = emptyMeta ''flux-system'' ''apps'',
     uObject = JObj [(''status'', JObj [(''inventory'', JObj [(''entries'', JArr
       [JObj [(''id'', JStr ''shop_web_apps_Deployment'')], JObj [(''id'', JStr ''_shop__Namespace'')]])])])]\<rparr>"

definition fluxApi :: "unit api" where
  "fluxApi = quietApi\<lparr>listDeployments := \<lambda>_. State_Monad.return (Inr [fluxWeb]),
     getUnstructured := \<lambda>_. State_Monad.return (Inr fluxApps)\<rparr>"

definition patchOf :: "change \<Rightarrow> json option" where "patchOf c = (case c of MergePatch _ p \<Rightarrow> Some p | _ \<Rightarrow> None)"

lemma PauseGitOps_within_witness:
  "\<exists>r w' cs. run_state (PauseGitOps fluxApi ''shop'' [] [''shop'']) freshWorld = (r, w')
     \<and> trace w' = cs \<and> (\<forall>c \<in> set cs. pauseChange [''shop''] c) \<and> map patchOf cs = [Some (pausePatch Kustomization)]"
proof -
  have patched: "map patchOf (trace (snd (run_state (PauseGitOps fluxApi ''shop'' [] [''shop'']) freshWorld)))
      = [Some (pausePatch Kustomization)]"
    by code_simp
  obtain r w' where run: "run_state (PauseGitOps fluxApi ''shop'' [] [''shop'']) freshWorld = (r, w')"
    by fastforce
  from PauseGitOps_within [OF run] run patched show ?thesis by (auto simp: freshWorld_def)
qed

text \<open>Only what Cost Deck paused is resumed: whatever the cluster answers, every patch removes
  the mark of an object that bears it, lifts a suspension it stands for, and gives self-heal
  back only where automated sync is still on.\<close>

theorem ResumeGitOps_own:
  assumes "run_state (ResumeGitOps api ns exclusions) w = (r, w')"
  shows "\<exists>cs. trace w' = trace w @ cs \<and> (\<forall>c \<in> set cs. resumeChange c)"
  using onlyD [OF ResumeGitOps_only assms] .

lemma ResumeGitOps_own_witness:
  "\<exists>r w' cs. run_state (ResumeGitOps (fluxApi\<lparr>getUnstructured := \<lambda>_. State_Monad.return (Inr
       (fluxApps\<lparr>uMeta := (emptyMeta ''flux-system'' ''apps'')
          \<lparr>omAnnotations := [GitOpsPausedAnnotation \<mapsto> pausedSuspend]\<rparr>\<rparr>))\<rparr>) ''shop'' []) freshWorld = (r, w')
     \<and> trace w' = cs \<and> (\<forall>c \<in> set cs. resumeChange c) \<and> length cs = 1" (is "\<exists>r w' cs. run_state ?m _ = _ \<and> _")
proof -
  have one: "length (trace (snd (run_state ?m freshWorld))) = 1" by code_simp
  obtain r w' where run: "run_state ?m freshWorld = (r, w')" by fastforce
  from ResumeGitOps_own [OF run] run one show ?thesis by (auto simp: freshWorld_def)
qed

text \<open>The setting a pause changes.\<close>

primrec pausedField :: "gitOpsKind \<Rightarrow> string list" where
  "pausedField Kustomization = [''spec'', ''suspend'']"
| "pausedField HelmRelease = [''spec'', ''suspend'']"
| "pausedField Application = [''spec'', ''syncPolicy'', ''automated'', ''selfHeal'']"

text \<open>Resuming undoes pausing: when an object is paused and later read with the mark the pause
  patch has set (and, for Argo CD, with automated sync still on), the resume patch gives the
  setting the pause patch had changed the value it had before.\<close>

theorem pause_then_resume:
  assumes "pauseStep ow obj workloads allowed = Inr p"
    and "nestedString [''metadata'', ''annotations'', GitOpsPausedAnnotation] p = pausedMark obj'"
    and "goKind ow = Application \<Longrightarrow> nestedMap [''spec'', ''syncPolicy'', ''automated''] (uObject obj') \<noteq> None"
  shows "\<exists>q. resumePatch obj' = Some q
     \<and> nestedField (pausedField (goKind ow)) p = Some (JBool (\<not> nestedBool (pausedField (goKind ow)) (uObject obj)))
     \<and> nestedField (pausedField (goKind ow)) q = Some (JBool (nestedBool (pausedField (goKind ow)) (uObject obj)))
     \<and> nestedField [''metadata'', ''annotations'', GitOpsPausedAnnotation] q = Some JNull"
proof -
  from assms(1) have p: "p = pausePatch (goKind ow)" and r: "reconciles (goKind ow) obj"
    by (auto simp: pauseStep_def Let_def split: if_splits)
  then show ?thesis using assms(2,3)
    by (cases "goKind ow")
       (auto simp: pausePatch_def resumePatch_def reconciles_def markPatch_def suspendSpec_def selfHealSpec_def
          nestedString_def)
qed

lemma pause_then_resume_witness:
  "\<exists>q. resumePatch (fluxApps\<lparr>uMeta := (emptyMeta ''flux-system'' ''apps'')
          \<lparr>omAnnotations := [GitOpsPausedAnnotation \<mapsto> pausedSuspend]\<rparr>\<rparr>) = Some q
     \<and> nestedField [''spec'', ''suspend''] q = Some (JBool False)"
proof -
  let ?ow = "\<lparr>goKind = Kustomization, goName = ''apps'', goNamespace = ''flux-system''\<rparr>"
  have p: "pauseStep ?ow fluxApps [Deployment fluxWeb] [''shop''] = Inr (pausePatch Kustomization)"
    by code_simp
  from pause_then_resume [OF p, of "fluxApps\<lparr>uMeta := (emptyMeta ''flux-system'' ''apps'')
          \<lparr>omAnnotations := [GitOpsPausedAnnotation \<mapsto> pausedSuspend]\<rparr>\<rparr>"]
  show ?thesis
    by (auto simp: pausePatch_def markPatch_def nestedString_def annotation_def nestedBool_def fluxApps_def)
qed

text \<open>The inventory of a Kustomization is read the way Flux writes it: with entries whose
  namespace, name and group are free of underscores, as Kubernetes requires, nothing lies
  outside exactly when every entry is in an allowed namespace or is the object of one.\<close>

theorem inventoryOutside_entries:
  assumes "nestedSlice [''status'', ''inventory'', ''entries''] (uObject obj)
      = map (\<lambda>(ns, name, grp, kind). JObj [(''id'', JStr (inventoryId ns name grp kind))]) entries"
    and "\<forall>(ns, name, grp, kind) \<in> set entries. CHR ''_'' \<notin> set ns \<union> set name \<union> set grp"
  shows "inventoryOutside obj allowed = [] \<longleftrightarrow>
    (\<forall>(ns, name, grp, kind) \<in> set entries.
       if ns = [] then kind = ''Namespace'' \<and> name \<in> set allowed else ns \<in> set allowed)"
proof -
  have "inventoryIds obj = map (\<lambda>(ns, name, grp, kind). inventoryId ns name grp kind) entries"
    by (simp add: inventoryIds_def assms(1) stringAt_def split_beta comp_def)
  then have "inventoryOutside obj allowed = [] \<longleftrightarrow>
      (\<forall>(ns, name, grp, kind) \<in> set entries. entryOutside allowed (inventoryId ns name grp kind) = [])"
    by (auto simp: inventoryOutside_def sort_addAllNew_none)
  also have "\<dots> \<longleftrightarrow> (\<forall>(ns, name, grp, kind) \<in> set entries. withinAllowed allowed ns kind name)"
    using assms(2) by (force simp: entryOutside_id outsideOf_iff)
  finally show ?thesis by (simp add: withinAllowed_def)
qed

lemma inventoryOutside_entries_witness:
  "inventoryOutside fluxApps [''shop''] = []"
proof -
  have "nestedSlice [''status'', ''inventory'', ''entries''] (uObject fluxApps)
      = map (\<lambda>(ns, name, grp, kind). JObj [(''id'', JStr (inventoryId ns name grp kind))])
          [(''shop'', ''web'', ''apps'', ''Deployment''), ([], ''shop'', [], ''Namespace'')]"
    by (simp add: fluxApps_def nestedSlice_def inventoryId_def)
  from inventoryOutside_entries [OF this, of "[''shop'']"] show ?thesis by simp
qed

text \<open>An Argo CD tracking id names its application: outside Argo CD's own namespace the instance
  is the namespace and the name of the application around an underscore, and what follows the
  colon does not matter.\<close>

theorem GitOpsOwnerOf_tracking:
  assumes "annotation (omLabels (metaOf obj)) fluxKustomizationName = []"
    and "annotation (omLabels (metaOf obj)) fluxHelmReleaseName = []"
    and "wAnnotations obj argoTrackingAnnotation = Some (ns @ ''_'' @ name @ '':'' @ rest)"
    and "CHR '':'' \<notin> set ns \<union> set name" "CHR ''_'' \<notin> set ns"
  shows "GitOpsOwnerOf obj = Some \<lparr>goKind = Application, goName = name, goNamespace = ns\<rparr>"
proof -
  have "cutChar CHR '':'' (ns @ ''_'' @ name @ '':'' @ rest) = Some (ns @ ''_'' @ name, rest)"
    using cutChar_append [of "CHR '':''" "ns @ ''_'' @ name" rest] assms(4) by simp
  moreover have "cutChar CHR ''_'' (ns @ ''_'' @ name) = Some (ns, name)"
    using cutChar_append [OF assms(5)] by simp
  ultimately show ?thesis
    using assms(1-3) by (simp add: GitOpsOwnerOf_def Let_def annotation_def)
qed

lemma GitOpsOwnerOf_tracking_witness:
  "GitOpsOwnerOf (Deployment ((emptyApp ''shop'' ''web'')\<lparr>awMeta := (emptyMeta ''shop'' ''web'')
      \<lparr>omAnnotations := [argoTrackingAnnotation \<mapsto> ''argocd-apps_shop:apps/Deployment:shop/web'']\<rparr>\<rparr>))
   = Some \<lparr>goKind = Application, goName = ''shop'', goNamespace = ''argocd-apps''\<rparr>"
  by (rule GitOpsOwnerOf_tracking [of _ _ _ "''apps/Deployment:shop/web''"])
     (simp_all add: emptyApp_def emptyMeta_def annotation_def)

end
