(* ===== verification/Previews.thy ===== *)
theory Previews
  imports Hibernate GitOps "HOL-Library.Product_Lexorder"
begin

section \<open>Previews and dry runs (internal/scaling/preview.go, nodes.go)\<close>

text \<open>
  What scaling a namespace down would stop, how many workloads a schedule would change now and
  which nodes a scale-down could free, all without changing anything. The lemmas show that
  none of it asks for a change and that a dry run counts exactly the workloads a scaling of
  the same state would give another replica count.
\<close>

record WorkloadPreview =
  wpKind :: string
  wpName :: string
  wpReplicas :: int
  wpExcluded :: bool
  wpManagedBy :: string
  wpCPU :: int
  wpMemory :: int
  wpGitOps :: "GitOpsOwner option"

record NamespacePreview =
  npWorkloads :: "WorkloadPreview list"
  npCronJobs :: nat
  npServices :: "HibernatedService list"
  npCPU :: int
  npMemory :: int

definition workloadPreview :: "'w api \<Rightarrow> string list \<Rightarrow> workload \<Rightarrow> WorkloadPreview" where
  "workloadPreview api exclusions obj =
     (let (cpu, mem) = podRequests api (podTemplate obj)
      in \<lparr>wpKind = workloadKind obj, wpName = wName obj,
          wpReplicas = targetReplicas True (getReplicas obj) (recordedReplicas obj []),
          wpExcluded = excludedObject obj exclusions, wpManagedBy = ownedByKind obj exclusions,
          wpCPU = cpu, wpMemory = mem, wpGitOps = GitOpsOwnerOf obj\<rparr>)"

definition previewTotal :: "(WorkloadPreview \<Rightarrow> int) \<Rightarrow> WorkloadPreview list \<Rightarrow> int" where
  "previewTotal request ws = sum_list (map (\<lambda>w. request w * wpReplicas w) (filter (\<lambda>w. \<not> wpExcluded w) ws))"

definition PreviewNamespace :: "'w api \<Rightarrow> string \<Rightarrow> string list \<Rightarrow> ('w, NamespacePreview reply) io" where
  "PreviewNamespace api ns exclusions =
     attempt (listScalableResources api ns []) (\<lambda>objs.
       do { let ws = map (workloadPreview api exclusions) objs;
            cronJobs \<leftarrow> ask (listCronJobs api ns);
            State_Monad.return (Inr
              \<lparr>npWorkloads = sort_key (\<lambda>w. (wpKind w, wpName w)) ws,
               npCronJobs = (case cronJobs of
                   Inl _ \<Rightarrow> 0
                 | Inr cjs \<Rightarrow> length (filter (\<lambda>cj. \<not> isExcluded (omName (cjMeta cj)) exclusions) cjs)),
               npServices = [], npCPU = previewTotal wpCPU ws, npMemory = previewTotal wpMemory ws\<rparr>) })"

definition changesReplicas :: "bool \<Rightarrow> workload \<Rightarrow> bool" where
  "changesReplicas active obj \<longleftrightarrow>
     targetReplicas active (getReplicas obj) (recordedReplicas obj []) \<noteq> getReplicas obj"

definition WouldChange :: "'w api \<Rightarrow> string \<Rightarrow> bool \<Rightarrow> string list \<Rightarrow> ('w, nat reply) io" where
  "WouldChange api ns active exclusions =
     attempt (listScalableResources api ns exclusions) (\<lambda>objs.
       State_Monad.return (Inr (length (filter (changesReplicas active) objs))))"

subsection \<open>Nodes\<close>

definition podNodes :: "Pod list \<Rightarrow> string list" where
  "podNodes pods = map podNode (filter (\<lambda>p. podNode p \<noteq> [] \<and> podRuns p) pods)"

fun nodesLoop :: "'w api \<Rightarrow> string \<Rightarrow> workload list \<Rightarrow> string list \<Rightarrow> ('w, string list reply) io" where
  "nodesLoop api ns [] seen = State_Monad.return (Inr seen)"
| "nodesLoop api ns (obj # objs) seen =
     (case Option.bind (stateOf api obj) wsSelector of
        None \<Rightarrow> nodesLoop api ns objs seen
      | Some sel \<Rightarrow>
          if asSelector api sel \<noteq> Some False then nodesLoop api ns objs seen
          else attempt (ask (listPods api ns (BySelector sel))) (\<lambda>pods.
                 nodesLoop api ns objs (addAllNew (podNodes pods) seen)))"

definition WorkloadNodes :: "'w api \<Rightarrow> string \<Rightarrow> string list \<Rightarrow> ('w, string list reply) io" where
  "WorkloadNodes api ns exclusions =
     attempt (listScalableResources api ns exclusions) (\<lambda>objs.
     attempt (nodesLoop api ns objs []) (\<lambda>seen. State_Monad.return (Inr (sort seen))))"

subsection \<open>Dry runs (internal/controller/schedule\_status.go)\<close>

definition wouldChange :: "'w api \<Rightarrow> string \<Rightarrow> bool \<Rightarrow> string list \<Rightarrow> HibernateRule list \<Rightarrow> ('w, nat reply) io" where
  "wouldChange api ns active exclusions hibernate =
     attempt (WouldChange api ns active exclusions) (\<lambda>n.
     attempt (ServicesToChange api (groupVersionOf api) ns active hibernate) (\<lambda>services.
       State_Monad.return (Inr (n + services))))"

subsection \<open>Nothing is changed\<close>

lemma WouldChange_reads: "only P (WouldChange api ns active exclusions)"
  unfolding WouldChange_def by (auto intro!: only_attempt only_return listScalableResources_reads)

lemma Services_reads: "only P (Services api parser ns rules)"
  unfolding Services_def by (auto intro!: only_attempt only_return HibernateTargets_reads)

lemma wouldChange_reads: "only P (wouldChange api ns active exclusions hibernate)"
  unfolding wouldChange_def ServicesToChange_def
  by (auto intro!: only_attempt only_return WouldChange_reads Services_reads)

lemma PreviewNamespace_reads: "only P (PreviewNamespace api ns exclusions)"
  unfolding PreviewNamespace_def Let_def
  by (auto intro!: only_attempt only_bind only_ask only_return listScalableResources_reads)

lemma WorkloadNodes_reads: "only P (WorkloadNodes api ns exclusions)"
proof -
  have "only P (nodesLoop api ns objs seen)" for objs seen
    by (induction api ns objs seen rule: nodesLoop.induct)
       (auto intro!: only_return only_attempt only_ask split: option.split)
  then show ?thesis
    unfolding WorkloadNodes_def by (auto intro!: only_attempt only_return listScalableResources_reads)
qed

lemma parseInt_range: "parseInt bits s = Some v \<Longrightarrow> - (2 ^ (bits - 1)) \<le> v \<and> v < 2 ^ (bits - 1)"
  by (auto simp: parseInt_def Let_def split: prod.splits if_splits)

text \<open>A computation all of whose changes satisfy \<open>False\<close> leaves the trace alone.\<close>

lemma no_change: "only (\<lambda>_. False) m \<Longrightarrow> run_state m w = (x, w') \<Longrightarrow> trace w' = trace w"
  using onlyD [of "\<lambda>_. False" m w x w'] by auto

subsection \<open>Properties\<close>

text \<open>A dry run changes nothing: counting what a schedule would change in a namespace,
  its hibernated services included, asks the cluster for no change, whatever it answers.\<close>

theorem dry_run_changes_nothing:
  assumes "run_state (wouldChange api ns active exclusions hibernate) w = (r, w')"
  shows "trace w' = trace w"
  by (rule no_change [OF wouldChange_reads assms])

lemma dry_run_changes_nothing_witness:
  "\<exists>r w'. run_state (wouldChange shopApi ''shop'' False [] []) freshWorld = (r, w') \<and> trace w' = []"
proof -
  obtain r w' where run: "run_state (wouldChange shopApi ''shop'' False [] []) freshWorld = (r, w')" by fastforce
  from dry_run_changes_nothing [OF run] run show ?thesis by (simp add: freshWorld_def)
qed

text \<open>A dry run counts what scaling changes: with no counts recorded in the status, scaling a
  workload to a state gives it another replica count exactly when the dry run counts it.\<close>

theorem dry_run_counts_changes:
  assumes "run_state (scaleResource api obj active []) w = (r, w')" "getReplicas obj < 2 ^ 31"
    and "\<And>count rec. \<exists>new. withReplicas obj count rec = Inr new"
  shows "changesReplicas active obj \<longleftrightarrow>
    (\<exists>new. trace w' = trace w @ [PatchWorkload obj new] \<and> getReplicas new \<noteq> getReplicas obj)"
proof -
  let ?t = "targetReplicas active (getReplicas obj) (recordedReplicas obj [])"
  define rec where "rec = (if \<not> active \<and> 0 < getReplicas obj then getReplicas obj else 0)"
  obtain new where new: "withReplicas obj ?t rec = Inr new" using assms(3) by blast
  have "0 \<le> recordedReplicas obj []" "recordedReplicas obj [] < 2 ^ 31"
    using parseInt_range [of 32 "annotation (wAnnotations obj) OriginalReplicasAnnotation"]
    by (auto simp: recordedReplicas_def originalOf_def split: option.splits)
  then have count: "getReplicas new = ?t"
    using targetReplicas_range [OF assms(2), of "recordedReplicas obj []" active]
    by (intro withReplicas_replicas [OF new]) auto
  have set: "setReplicas api obj ?t rec = act (PatchWorkload obj new) (patchWorkload api obj new)"
    by (simp add: setReplicas_def new)
  show ?thesis
  proof (cases "getReplicas obj = ?t \<and> (\<not> active \<or> wAnnotations obj OriginalReplicasAnnotation = None)")
    case True
    with assms(1) show ?thesis by (auto simp: scaleResource_def Let_def changesReplicas_def)
  next
    case False
    then have "scaleResource api obj active [] =
      do { x \<leftarrow> wrapped ''scale'' (act (PatchWorkload obj new) (patchWorkload api obj new));
           State_Monad.return (if \<not> active \<and> 0 < getReplicas obj
             then AList.update (originalKey obj) (getReplicas obj) [] else [], x) }"
      by (auto simp: scaleResource_def Let_def set [unfolded rec_def] rec_def)
    with assms(1) have "trace w' = trace w @ [PatchWorkload obj new]"
      by (auto simp: wrapped_def act_def split: prod.splits)
    then show ?thesis by (auto simp: changesReplicas_def count)
  qed
qed

lemma dry_run_counts_changes_witness:
  "changesReplicas False (sampleDeployment ''web'' 3) \<and>
    (\<exists>r w' new. run_state (scaleResource shopApi (sampleDeployment ''web'' 3) False []) freshWorld = (r, w')
       \<and> trace w' = [PatchWorkload (sampleDeployment ''web'' 3) new] \<and> getReplicas new \<noteq> 3)"
proof -
  obtain r w' where run: "run_state (scaleResource shopApi (sampleDeployment ''web'' 3) False []) freshWorld = (r, w')"
    by fastforce
  have n: "getReplicas (sampleDeployment ''web'' 3) = 3" by (simp add: sampleDeployment_def)
  have c: "changesReplicas False (sampleDeployment ''web'' 3)"
    by (simp add: changesReplicas_def n targetReplicas_def)
  have "\<exists>new. withReplicas (sampleDeployment ''web'' 3) count rec = Inr new" for count rec
    by (simp add: sampleDeployment_def)
  with dry_run_counts_changes [OF run] c n run show ?thesis by (auto simp: freshWorld_def)
qed

end
