(* ===== verification/Cycles.thy ===== *)
theory Cycles
  imports ApiTypes
begin

section \<open>Dependency cycles (findCycles of internal/scaling/dependencies.go)\<close>

text \<open>
  \<open>findCycles\<close> is a depth first search over the \<open>dependsOn\<close> lists of the groups of a
  namespace, which marks what lies on the stack from a revisited group on. The recursion is
  given the number of groups as fuel and fails when it runs out; the lemmas show that it never
  does, that every group it marks lies on a cycle and that every cycle has a marked group, so
  that the dependencies between unmarked groups are acyclic.
\<close>

subsection \<open>The search\<close>

datatype colour = Unvisited | Visiting | Visited

record dfs =
  colour :: "string \<Rightarrow> colour"
  marked :: "string list"

text \<open>\<open>edges name\<close> is \<open>Spec.DependsOn\<close> of the group \<open>name\<close>, and \<open>None\<close> when no such group
  exists (\<open>byName\<close>).\<close>

type_synonym graph = "string \<rightharpoonup> string list"

definition edgesOf :: "graph \<Rightarrow> string \<Rightarrow> string list" where
  "edgesOf g name = (case g name of Some ds \<Rightarrow> ds | None \<Rightarrow> [])"

function visit :: "graph \<Rightarrow> nat \<Rightarrow> string list \<Rightarrow> dfs \<Rightarrow> string \<Rightarrow> dfs option"
  and visitDeps :: "graph \<Rightarrow> nat \<Rightarrow> string list \<Rightarrow> dfs \<Rightarrow> string list \<Rightarrow> dfs option" where
  "visit g 0 stack st name = None"
| "visit g (Suc n) stack st name =
     map_option (\<lambda>st'. st'\<lparr>colour := (colour st')(name := Visited)\<rparr>)
       (visitDeps g n (stack @ [name]) (st\<lparr>colour := (colour st)(name := Visiting)\<rparr>) (edgesOf g name))"
| "visitDeps g n stack st [] = Some st"
| "visitDeps g n stack st (dep # deps) =
     (if g dep = None then visitDeps g n stack st deps
      else case colour st dep of
             Unvisited \<Rightarrow> (case visit g n stack st dep of
                            None \<Rightarrow> None
                          | Some st' \<Rightarrow> visitDeps g n stack st' deps)
           | Visiting \<Rightarrow>
               visitDeps g n stack
                 (st\<lparr>marked := addAllNew (dropWhile (\<lambda>m. m \<noteq> dep) stack) (marked st)\<rparr>) deps
           | Visited \<Rightarrow> visitDeps g n stack st deps)"
  by pat_completeness auto
termination
  by (relation "measures [\<lambda>x. case x of Inl (g, n, _) \<Rightarrow> n | Inr (g, n, _) \<Rightarrow> n,
                          \<lambda>x. case x of Inl _ \<Rightarrow> 0 | Inr (g, n, stack, st, deps) \<Rightarrow> Suc (length deps)]")
     (auto simp: less_Suc_eq)

fun visitAll :: "graph \<Rightarrow> nat \<Rightarrow> dfs \<Rightarrow> string list \<Rightarrow> dfs option" where
  "visitAll g n st [] = Some st"
| "visitAll g n st (name # names) =
     (if colour st name = Unvisited
      then (case visit g n [] st name of None \<Rightarrow> None | Some st' \<Rightarrow> visitAll g n st' names)
      else visitAll g n st names)"

text \<open>The groups in order of their names, each searched from if it was not reached before.\<close>

definition runCycles :: "graph \<Rightarrow> string list \<Rightarrow> dfs option" where
  "runCycles g names = visitAll g (length names) \<lparr>colour = (\<lambda>_. Unvisited), marked = []\<rparr> names"

definition findCycles :: "graph \<Rightarrow> string list \<Rightarrow> string list" where
  "findCycles g names = (case runCycles g names of Some st \<Rightarrow> marked st | None \<Rightarrow> [])"

subsection \<open>The dependency relation\<close>

definition dependsOnRel :: "graph \<Rightarrow> (string \<times> string) set" where
  "dependsOnRel g = {(a, b). g b \<noteq> None \<and> b \<in> set (edgesOf g a)}"

lemma dependsOnRel_dom: "(a, b) \<in> dependsOnRel g \<Longrightarrow> a \<in> dom g \<and> b \<in> dom g"
  by (cases "g a") (auto simp: dependsOnRel_def edgesOf_def)

text \<open>Consecutive members of the stack depend on each other.\<close>

definition chained :: "graph \<Rightarrow> string list \<Rightarrow> bool" where
  "chained g stack \<longleftrightarrow> (\<forall>i. Suc i < length stack \<longrightarrow> (stack ! i, stack ! Suc i) \<in> dependsOnRel g)"

lemma chained_snoc:
  "chained g (stack @ [x]) \<longleftrightarrow> chained g stack \<and> (stack = [] \<or> (last stack, x) \<in> dependsOnRel g)"
proof (cases "stack = []")
  case True
  then show ?thesis by (simp add: chained_def)
next
  case False
  then have l: "last stack = stack ! (length stack - 1)" by (simp add: last_conv_nth)
  show ?thesis
  proof
    assume c: "chained g (stack @ [x])"
    have "(stack ! i, stack ! Suc i) \<in> dependsOnRel g" if "Suc i < length stack" for i
      using c that unfolding chained_def by (auto dest!: spec [of _ i] simp: nth_append)
    moreover have "(last stack, x) \<in> dependsOnRel g"
      using c False l unfolding chained_def
      by (auto dest!: spec [of _ "length stack - 1"] simp: nth_append)
    ultimately show "chained g stack \<and> (stack = [] \<or> (last stack, x) \<in> dependsOnRel g)"
      by (simp add: chained_def)
  next
    assume c: "chained g stack \<and> (stack = [] \<or> (last stack, x) \<in> dependsOnRel g)"
    show "chained g (stack @ [x])" unfolding chained_def
    proof (intro allI impI)
      fix i assume i: "Suc i < length (stack @ [x])"
      show "((stack @ [x]) ! i, (stack @ [x]) ! Suc i) \<in> dependsOnRel g"
      proof (cases "Suc i < length stack")
        case True
        with c show ?thesis by (simp add: chained_def nth_append)
      next
        case no: False
        with i have "i = length stack - 1" "Suc i = length stack" by auto
        with c False l show ?thesis by (simp add: nth_append)
      qed
    qed
  qed
qed

lemma chained_path:
  assumes "chained g stack" "i \<le> j" "j < length stack"
  shows "(stack ! i, stack ! j) \<in> (dependsOnRel g)\<^sup>*"
  using assms(2,3)
proof (induction j)
  case (Suc j)
  show ?case
  proof (cases "i = Suc j")
    case False
    with Suc have "(stack ! i, stack ! j) \<in> (dependsOnRel g)\<^sup>*" by simp
    moreover have "(stack ! j, stack ! Suc j) \<in> dependsOnRel g"
      using assms(1) Suc.prems by (simp add: chained_def)
    ultimately show ?thesis by simp
  qed simp
qed simp

text \<open>What lies on the stack from a dependency of its top on is on a cycle.\<close>

lemma stack_cycle:
  assumes "chained g stack" "stack \<noteq> []" "(last stack, dep) \<in> dependsOnRel g" "dep \<in> set stack"
    and "m \<in> set (dropWhile (\<lambda>m. m \<noteq> dep) stack)"
  shows "(m, m) \<in> (dependsOnRel g)\<^sup>+"
proof -
  define xs where "xs = takeWhile (\<lambda>m. m \<noteq> dep) stack"
  define ys where "ys = dropWhile (\<lambda>m. m \<noteq> dep) stack"
  have st: "stack = xs @ ys" by (simp add: xs_def ys_def)
  have ys: "ys \<noteq> []" "hd ys = dep"
    using assms(4) hd_dropWhile [of "\<lambda>m. m \<noteq> dep" stack] by (auto simp: ys_def dropWhile_eq_Nil_conv)
  obtain k where k: "k < length ys" "m = ys ! k"
    using assms(5) by (metis ys_def in_set_conv_nth)
  have m: "stack ! (length xs + k) = m" using k by (simp add: st)
  have d: "stack ! length xs = dep" using ys by (simp add: st nth_append hd_conv_nth)
  have l: "last stack = stack ! (length stack - 1)" using assms(2) by (simp add: last_conv_nth)
  have "(dep, m) \<in> (dependsOnRel g)\<^sup>*"
    using chained_path [OF assms(1), of "length xs" "length xs + k"] k m d by (simp add: st)
  moreover have "(m, last stack) \<in> (dependsOnRel g)\<^sup>*"
    using chained_path [OF assms(1), of "length xs + k" "length stack - 1"] k m l by (simp add: st)
  ultimately have "(m, dep) \<in> (dependsOnRel g)\<^sup>+" "(dep, m) \<in> (dependsOnRel g)\<^sup>*"
    using assms(3) by (auto intro: rtrancl_into_trancl1)
  then show ?thesis by (rule trancl_rtrancl_trancl)
qed

subsection \<open>The invariant of the search\<close>

text \<open>\<open>fin\<close> lists the visited groups in the order in which they were finished. A dependency of a
  finished group was finished before it, unless both are marked.\<close>

definition finishOrder :: "graph \<Rightarrow> string list \<Rightarrow> string set \<Rightarrow> bool" where
  "finishOrder g fin M \<longleftrightarrow>
     (\<forall>xs u ys v. fin = xs @ u # ys \<and> (u, v) \<in> dependsOnRel g \<longrightarrow> v \<in> set xs \<or> u \<in> M \<and> v \<in> M)"

lemma finishOrder_mono: "finishOrder g fin M \<Longrightarrow> M \<subseteq> N \<Longrightarrow> finishOrder g fin N"
  unfolding finishOrder_def by (metis subsetD)

lemma finishOrder_snoc:
  assumes "finishOrder g fin M" "\<And>v. (u, v) \<in> dependsOnRel g \<Longrightarrow> v \<in> set fin \<or> u \<in> M \<and> v \<in> M"
  shows "finishOrder g (fin @ [u]) M"
  unfolding finishOrder_def
proof (intro allI impI, elim conjE)
  fix xs w ys v
  assume s: "fin @ [u] = xs @ w # ys" and r: "(w, v) \<in> dependsOnRel g"
  show "v \<in> set xs \<or> w \<in> M \<and> v \<in> M"
  proof (cases ys rule: rev_cases)
    case Nil
    with s have "xs = fin" "w = u" by auto
    with assms(2) r show ?thesis by auto
  next
    case (snoc zs z)
    with s have "fin = xs @ w # zs" by simp
    with assms(1) r show ?thesis unfolding finishOrder_def by blast
  qed
qed

definition searchInv :: "graph \<Rightarrow> string list \<Rightarrow> dfs \<Rightarrow> string list \<Rightarrow> bool" where
  "searchInv g stack st fin \<longleftrightarrow>
     (\<forall>x. colour st x = Visiting \<longleftrightarrow> x \<in> set stack) \<and>
     (\<forall>x. colour st x = Visited \<longleftrightarrow> x \<in> set fin) \<and>
     distinct stack \<and> distinct fin \<and> set stack \<subseteq> dom g \<and> set fin \<subseteq> dom g \<and> chained g stack \<and>
     (\<forall>m \<in> set (marked st). (m, m) \<in> (dependsOnRel g)\<^sup>+) \<and> finishOrder g fin (set (marked st))"

lemma searchInv_push:
  assumes "searchInv g stack st fin" "name \<in> dom g" "colour st name = Unvisited"
    and "stack = [] \<or> (last stack, name) \<in> dependsOnRel g"
  shows "searchInv g (stack @ [name]) (st\<lparr>colour := (colour st)(name := Visiting)\<rparr>) fin"
  using assms unfolding searchInv_def chained_snoc
  by (auto split: if_splits) (metis colour.distinct)+

lemma searchInv_pop:
  assumes inv: "searchInv g (stack @ [name]) st fin"
    and deps: "\<And>v. (name, v) \<in> dependsOnRel g \<Longrightarrow>
      v \<in> set fin \<or> name \<in> set (marked st) \<and> v \<in> set (marked st)"
  shows "searchInv g stack (st\<lparr>colour := (colour st)(name := Visited)\<rparr>) (fin @ [name])"
proof -
  have nf: "name \<notin> set fin" using inv unfolding searchInv_def
    by (metis colour.distinct(5) in_set_conv_decomp)
  have ns: "name \<notin> set stack" using inv by (simp add: searchInv_def)
  have order: "finishOrder g (fin @ [name]) (set (marked st))"
    by (rule finishOrder_snoc) (use inv deps in \<open>auto simp: searchInv_def\<close>)
  have ch: "chained g stack" using inv unfolding searchInv_def chained_snoc by blast
  from inv nf ns ch order show ?thesis unfolding searchInv_def
    by (auto split: if_splits)
qed

lemma searchInv_mark:
  assumes inv: "searchInv g stack st fin" and "stack \<noteq> []" "(last stack, dep) \<in> dependsOnRel g"
    and dep: "dep \<in> set stack"
  shows "searchInv g stack (st\<lparr>marked := addAllNew (dropWhile (\<lambda>m. m \<noteq> dep) stack) (marked st)\<rparr>) fin"
proof -
  have "chained g stack" using inv by (simp add: searchInv_def)
  note c = stack_cycle [OF this assms(2,3) dep]
  moreover have "finishOrder g fin (set (addAllNew (dropWhile (\<lambda>m. m \<noteq> dep) stack) (marked st)))"
    using inv by (auto simp: searchInv_def intro: finishOrder_mono)
  ultimately show ?thesis using inv unfolding searchInv_def by auto
qed

lemma marked_ends:
  assumes "dep \<in> set stack"
  shows "dep \<in> set (dropWhile (\<lambda>m. m \<noteq> dep) stack)" "last stack \<in> set (dropWhile (\<lambda>m. m \<noteq> dep) stack)"
proof -
  from assms have ne: "dropWhile (\<lambda>m. m \<noteq> dep) stack \<noteq> []" by (auto simp: dropWhile_eq_Nil_conv)
  then show "dep \<in> set (dropWhile (\<lambda>m. m \<noteq> dep) stack)"
    using hd_dropWhile [of "\<lambda>m. m \<noteq> dep" stack] by (metis hd_in_set)
  have "last (dropWhile (\<lambda>m. m \<noteq> dep) stack) = last stack"
    using ne by (metis last_appendR takeWhile_dropWhile_id)
  then show "last stack \<in> set (dropWhile (\<lambda>m. m \<noteq> dep) stack)"
    using ne by (metis last_in_set)
qed

text \<open>What a completed search of a group or of a list of dependencies gives.\<close>

definition depsFinished :: "string list \<Rightarrow> dfs \<Rightarrow> string \<Rightarrow> string list \<Rightarrow> graph \<Rightarrow> bool" where
  "depsFinished fin st u deps g \<longleftrightarrow>
     (\<forall>d \<in> set deps. g d \<noteq> None \<longrightarrow> d \<in> set fin \<or> u \<in> set (marked st) \<and> d \<in> set (marked st))"

lemma depsFinished_simps [simp]:
  "depsFinished fin st u [] g"
  "depsFinished fin st u (d # ds) g \<longleftrightarrow>
     (g d \<noteq> None \<longrightarrow> d \<in> set fin \<or> u \<in> set (marked st) \<and> d \<in> set (marked st)) \<and> depsFinished fin st u ds g"
  by (auto simp: depsFinished_def)

lemma search_correct:
  shows "finite (dom g) \<Longrightarrow> searchInv g stack st fin \<Longrightarrow> name \<in> dom g \<Longrightarrow> colour st name = Unvisited
     \<Longrightarrow> stack = [] \<or> (last stack, name) \<in> dependsOnRel g \<Longrightarrow> card (dom g) \<le> n + length stack
     \<Longrightarrow> \<exists>st' more. visit g n stack st name = Some st' \<and> searchInv g stack st' (fin @ more @ [name])
           \<and> set (marked st) \<subseteq> set (marked st')"
    and "finite (dom g) \<Longrightarrow> searchInv g stack st fin \<Longrightarrow> stack \<noteq> []
     \<Longrightarrow> set deps \<subseteq> set (edgesOf g (last stack)) \<Longrightarrow> card (dom g) \<le> n + length stack
     \<Longrightarrow> \<exists>st' more. visitDeps g n stack st deps = Some st' \<and> searchInv g stack st' (fin @ more)
           \<and> set (marked st) \<subseteq> set (marked st') \<and> depsFinished (fin @ more) st' (last stack) deps g"
proof (induction g n stack st name and g n stack st deps arbitrary: fin and fin rule: visit_visitDeps.induct)
  case (1 g stack st name)
  then have "set (stack @ [name]) \<subseteq> dom g" "distinct (stack @ [name])"
    using 1(2) by (auto simp: searchInv_def) (metis colour.distinct(1))
  then have "length (stack @ [name]) \<le> card (dom g)"
    using 1(1) by (metis card_mono distinct_card)
  with 1 show ?case by simp
next
  case (2 g n stack st name)
  let ?st = "st\<lparr>colour := (colour st)(name := Visiting)\<rparr>"
  have "\<exists>st' more. visitDeps g n (stack @ [name]) ?st (edgesOf g name) = Some st'
      \<and> searchInv g (stack @ [name]) st' (fin @ more) \<and> set (marked ?st) \<subseteq> set (marked st')
      \<and> depsFinished (fin @ more) st' (last (stack @ [name])) (edgesOf g name) g"
    by (rule "2.IH") (use searchInv_push [OF "2.prems"(2,3,4,5)] "2.prems" in auto)
  then obtain st' more where r: "visitDeps g n (stack @ [name]) ?st (edgesOf g name) = Some st'"
    "searchInv g (stack @ [name]) st' (fin @ more)" "set (marked st) \<subseteq> set (marked st')"
    "depsFinished (fin @ more) st' name (edgesOf g name) g" by auto
  have "searchInv g stack (st'\<lparr>colour := (colour st')(name := Visited)\<rparr>) ((fin @ more) @ [name])"
    by (rule searchInv_pop [OF r(2)]) (use r(4) in \<open>auto simp: depsFinished_def dependsOnRel_def\<close>)
  with r(1,3) show ?case by auto
next
  case (3 g n stack st)
  then show ?case by (auto simp: depsFinished_def intro!: exI [of _ "[]"])
next
  case (4 g n stack st dep deps)
  note inv = "4.prems"(2)
  show ?case
  proof (cases "g dep = None")
    case True
    with "4.IH"(1) [OF True "4.prems"(1,2,3) _ "4.prems"(5)] "4.prems"(4) show ?thesis
      by fastforce
  next
    case ex: False
    with "4.prems"(4) have rel: "(last stack, dep) \<in> dependsOnRel g" by (simp add: dependsOnRel_def)
    have sub: "set deps \<subseteq> set (edgesOf g (last stack))" using "4.prems"(4) by simp
    show ?thesis
    proof (cases "colour st dep")
      case Unvisited
      obtain st1 more1 where v: "visit g n stack st dep = Some st1"
        "searchInv g stack st1 (fin @ more1 @ [dep])" "set (marked st) \<subseteq> set (marked st1)"
        using "4.IH"(2) [OF ex Unvisited "4.prems"(1,2) _ Unvisited _ "4.prems"(5)] ex rel by blast
      obtain st2 more2 where w: "visitDeps g n stack st1 deps = Some st2"
        "searchInv g stack st2 ((fin @ more1 @ [dep]) @ more2)" "set (marked st1) \<subseteq> set (marked st2)"
        "depsFinished ((fin @ more1 @ [dep]) @ more2) st2 (last stack) deps g"
        using "4.IH"(3) [OF ex Unvisited v(1) "4.prems"(1) v(2) "4.prems"(3) sub "4.prems"(5)] by blast
      have "visitDeps g n stack st (dep # deps) = Some st2" using v(1) w(1) ex Unvisited by auto
      moreover have "searchInv g stack st2 (fin @ (more1 @ [dep] @ more2))" using w(2) by simp
      moreover have "depsFinished (fin @ (more1 @ [dep] @ more2)) st2 (last stack) (dep # deps) g"
        using w(4) by simp
      ultimately show ?thesis using v(3) w(3) by blast
    next
      case Visiting
      then have on: "dep \<in> set stack" using inv by (simp add: searchInv_def)
      let ?st = "st\<lparr>marked := addAllNew (dropWhile (\<lambda>m. m \<noteq> dep) stack) (marked st)\<rparr>"
      obtain st2 more2 where w: "visitDeps g n stack ?st deps = Some st2"
        "searchInv g stack st2 (fin @ more2)" "set (marked ?st) \<subseteq> set (marked st2)"
        "depsFinished (fin @ more2) st2 (last stack) deps g"
        using "4.IH"(4) [OF ex Visiting "4.prems"(1)
            searchInv_mark [OF inv "4.prems"(3) rel on] "4.prems"(3) sub "4.prems"(5)] by blast
      have "dep \<in> set (marked st2)" "last stack \<in> set (marked st2)"
        using marked_ends [OF on] w(3) by auto
      with w ex Visiting show ?thesis by auto
    next
      case Visited
      then have "dep \<in> set fin" using inv by (simp add: searchInv_def)
      with "4.IH"(5) [OF ex Visited "4.prems"(1,2,3) sub "4.prems"(5)] ex Visited show ?thesis
        by fastforce
    qed
  qed
qed

lemma visitAll_correct:
  assumes "finite (dom g)" "card (dom g) \<le> n"
  shows "searchInv g [] st fin \<Longrightarrow> set names \<subseteq> dom g \<Longrightarrow>
     \<exists>st' fin'. visitAll g n st names = Some st' \<and> searchInv g [] st' fin'
       \<and> set names \<subseteq> set fin' \<and> set fin \<subseteq> set fin'"
proof (induction names arbitrary: st fin)
  case (Cons name names)
  show ?case
  proof (cases "colour st name = Unvisited")
    case True
    obtain st1 more where v: "visit g n [] st name = Some st1" "searchInv g [] st1 (fin @ more @ [name])"
      using search_correct(1) [OF assms(1) Cons.prems(1) _ True, of n] Cons.prems(2) assms(2) by auto
    from Cons.IH [OF v(2)] Cons.prems(2) v(1) True show ?thesis by fastforce
  next
    case False
    then have "colour st name = Visited"
      using Cons.prems(1) by (cases "colour st name") (auto simp: searchInv_def)
    then have "name \<in> set fin" using Cons.prems(1) by (simp add: searchInv_def)
    with Cons.IH [OF Cons.prems(1)] Cons.prems(2) False show ?thesis by fastforce
  qed
qed auto

lemma runCycles_correct:
  assumes "distinct names" "set names = dom g"
  obtains st fin where "runCycles g names = Some st" "searchInv g [] st fin" "set fin = dom g"
proof -
  have "finite (dom g)" using assms(2) by (metis List.finite_set)
  moreover have "card (dom g) \<le> length names" using assms by (metis distinct_card order_refl)
  moreover have "searchInv g [] \<lparr>colour = (\<lambda>_. Unvisited), marked = []\<rparr> []"
    by (simp add: searchInv_def chained_def finishOrder_def)
  ultimately obtain st fin where "runCycles g names = Some st" "searchInv g [] st fin" "set names \<subseteq> set fin"
    using visitAll_correct assms(2) unfolding runCycles_def by blast
  moreover from this assms(2) have "set fin = dom g" unfolding searchInv_def by blast
  ultimately show ?thesis using that by blast
qed

lemma takeWhile_neq_less: "v \<in> set xs \<Longrightarrow> length (takeWhile (\<lambda>y. y \<noteq> v) xs) < length xs"
  by (induction xs) auto

text \<open>The dependencies between unmarked groups descend in the order of finishing.\<close>

lemma finishOrder_wf:
  assumes "finishOrder g fin M" "distinct fin" "dom g \<subseteq> set fin"
  shows "wf {(v, u). (u, v) \<in> dependsOnRel g \<and> \<not> (u \<in> M \<and> v \<in> M)}"
proof -
  define pos where "pos x = length (takeWhile (\<lambda>y. y \<noteq> x) fin)" for x
  have "pos v < pos u" if r: "(u, v) \<in> dependsOnRel g" and m: "\<not> (u \<in> M \<and> v \<in> M)" for u v
  proof -
    have "u \<in> set fin" using dependsOnRel_dom [OF r] assms(3) by auto
    then obtain xs ys where s: "fin = xs @ u # ys" by (meson split_list)
    with assms(1) r m have v: "v \<in> set xs" unfolding finishOrder_def by blast
    have "u \<notin> set xs" using s assms(2) by auto
    then have "takeWhile (\<lambda>y. y \<noteq> u) fin = xs" unfolding s by (subst takeWhile_append2) auto
    moreover have "length (takeWhile (\<lambda>y. y \<noteq> v) fin) < length xs"
      using v by (auto simp: s takeWhile_append1 takeWhile_neq_less)
    ultimately show ?thesis by (simp add: pos_def)
  qed
  then show ?thesis by (intro wf_subset [OF wf_measure [of pos]]) auto
qed

lemma findCycles_sound:
  assumes "distinct names" "set names = dom g" "m \<in> set (findCycles g names)"
  shows "(m, m) \<in> (dependsOnRel g)\<^sup>+"
proof -
  obtain st fin where "runCycles g names = Some st" "searchInv g [] st fin"
    using runCycles_correct [OF assms(1,2)] by metis
  with assms(3) show ?thesis by (auto simp: findCycles_def searchInv_def)
qed

lemma findCycles_wf:
  assumes "distinct names" "set names = dom g"
  shows "wf {(v, u). (u, v) \<in> dependsOnRel g
                \<and> \<not> (u \<in> set (findCycles g names) \<and> v \<in> set (findCycles g names))}"
proof -
  obtain st fin where r: "runCycles g names = Some st" "searchInv g [] st fin" "set fin = dom g"
    by (rule runCycles_correct [OF assms])
  then show ?thesis
    by (intro finishOrder_wf [of g fin]) (auto simp: searchInv_def findCycles_def)
qed

end
