(* ===== verification/Schedule.thy ===== *)
theory Schedule
  imports ApiTypes
begin

section \<open>Weekly schedules (internal/scaling/engine.go)\<close>

text \<open>
  A schedule is a set of windows over the minutes of a week, Sunday midnight being 0. This
  theory models the parsing of schedules into windows, the test whether a window is open and
  \<open>IsActiveAt\<close>, which combines the schedules of a target with a manual override. The
  specification \<open>scheduleOpen\<close> reads a schedule by weekday and time of day, without the
  encoding in minutes of the week; \<open>IsActiveAt_spec\<close> relates the two. In zones with a fixed
  offset the answer depends on the minute only and repeats every week, which the search for
  the next change relies on.
\<close>

abbreviation minutesPerDay :: int where "minutesPerDay \<equiv> 1440"
abbreviation minutesPerWeek :: int where "minutesPerWeek \<equiv> 10080"

subsection \<open>Overrides\<close>

definition EffectiveOverride :: "bool option \<Rightarrow> time option \<Rightarrow> time \<Rightarrow> bool option" where
  "EffectiveOverride active activeUntil now =
     (case active of
        None \<Rightarrow> None
      | Some a \<Rightarrow>
          (case activeUntil of
             Some u \<Rightarrow> if \<not> isZero u \<and> \<not> now < u then None else Some a
           | None \<Rightarrow> Some a))"

subsection \<open>Windows\<close>

record weeklyWindow =
  winStart :: int
  winEnd :: int

definition windowContains :: "weeklyWindow \<Rightarrow> int \<Rightarrow> bool" where
  "windowContains w m =
     (if winStart w \<le> winEnd w then winStart w \<le> m \<and> m \<le> winEnd w
      else winStart w \<le> m \<or> m \<le> winEnd w)"

definition multiContains :: "weeklyWindow list \<Rightarrow> int \<Rightarrow> bool" where
  "multiContains ws m \<longleftrightarrow> list_ex (\<lambda>w. windowContains w m) ws"

definition weekMinute :: "location \<Rightarrow> time \<Rightarrow> int" where
  "weekMinute loc t = weekdayIn loc t * minutesPerDay + hourIn loc t * 60 + minuteIn loc t"

definition isWeekday :: "int \<Rightarrow> bool" where
  "isWeekday d \<longleftrightarrow> 0 \<le> d \<and> d \<le> 6"

text \<open>
  \<open>parseMinutes\<close>: the regular expression \<open>^([0-1]?[0-9]|2[0-3]):([0-5][0-9])$\<close> accepts an hour of
  one digit, or of two up to 23, and a minute of two.
\<close>

definition minuteDigits :: "char \<Rightarrow> char \<Rightarrow> int option" where
  "minuteDigits a b =
     (if isDigit a \<and> digitVal a \<le> 5 \<and> isDigit b then Some (int (10 * digitVal a + digitVal b))
      else None)"

definition hourDigits :: "char \<Rightarrow> char \<Rightarrow> int option" where
  "hourDigits a b =
     (if isDigit a \<and> isDigit b \<and> (digitVal a \<le> 1 \<or> digitVal a = 2 \<and> digitVal b \<le> 3)
      then Some (int (10 * digitVal a + digitVal b)) else None)"

definition parseMinutes :: "string \<Rightarrow> int option" where
  "parseMinutes hhmm =
     (case hhmm of
        [h, c, m1, m2] \<Rightarrow>
          if isDigit h \<and> c = CHR '':''
          then map_option (\<lambda>m. int (digitVal h) * 60 + m) (minuteDigits m1 m2) else None
      | [h1, h2, c, m1, m2] \<Rightarrow>
          if c = CHR '':''
          then Option.bind (hourDigits h1 h2)
                 (\<lambda>h. map_option (\<lambda>m. h * 60 + m) (minuteDigits m1 m2))
          else None
      | _ \<Rightarrow> None)"

definition dailyWindow :: "int \<Rightarrow> int \<Rightarrow> int \<Rightarrow> weeklyWindow" where
  "dailyWindow startMin endMin d =
     (let start = d * minutesPerDay + startMin;
          end = d * minutesPerDay + endMin;
          end' = (if endMin < startMin then end + minutesPerDay else end)
      in \<lparr>winStart = start, winEnd = end' mod minutesPerWeek\<rparr>)"

definition parseWindow :: "ScalingSchedule \<Rightarrow> weeklyWindow list option" where
  "parseWindow s =
     (case (parseMinutes (StartTime s), parseMinutes (EndTime s)) of
        (Some startMin, Some endMin) \<Rightarrow>
          (case (StartDay s, EndDay s) of
             (Some sd, Some ed) \<Rightarrow>
               if \<not> isWeekday sd \<or> \<not> isWeekday ed then None
               else Some [\<lparr>winStart = sd * minutesPerDay + startMin,
                           winEnd = ed * minutesPerDay + endMin\<rparr>]
           | _ \<Rightarrow>
               if Days s = [] then None
               else (let windows = map (dailyWindow startMin endMin) (filter isWeekday (Days s))
                     in if windows = [] then None else Some windows))
      | _ \<Rightarrow> None)"

subsection \<open>Time zones of schedules\<close>

text \<open>An empty name is the operator's zone, and so is an unknown one.\<close>

definition loadLocation :: "zoneinfo \<Rightarrow> string \<Rightarrow> location" where
  "loadLocation zi name =
     (if name = [] then zoneLocal zi
      else (case zoneLoad zi name of Some loc \<Rightarrow> loc | None \<Rightarrow> zoneLocal zi))"

text \<open>The same with the cache the code keeps of the zones it has looked up.\<close>

definition loadLocationCached ::
    "zoneinfo \<Rightarrow> (string \<rightharpoonup> location) \<Rightarrow> string \<Rightarrow> location \<times> (string \<rightharpoonup> location)" where
  "loadLocationCached zi cache name =
     (if name = [] then (zoneLocal zi, cache)
      else (case cache name of
              Some loc \<Rightarrow> (loc, cache)
            | None \<Rightarrow>
                (let loc = (case zoneLoad zi name of Some l \<Rightarrow> l | None \<Rightarrow> zoneLocal zi)
                 in (loc, cache(name \<mapsto> loc)))))"

definition cacheAgrees :: "zoneinfo \<Rightarrow> (string \<rightharpoonup> location) \<Rightarrow> bool" where
  "cacheAgrees zi cache \<longleftrightarrow> (\<forall>name loc. cache name = Some loc \<longrightarrow> name \<noteq> [] \<and> loc = loadLocation zi name)"

lemma cacheAgrees_empty: "cacheAgrees zi Map.empty"
  by (simp add: cacheAgrees_def)

text \<open>The cache is transparent: it never changes an answer and keeps agreeing.\<close>

lemma loadLocationCached_transparent:
  assumes "cacheAgrees zi cache" and "loadLocationCached zi cache name = (loc, cache')"
  shows "loc = loadLocation zi name \<and> cacheAgrees zi cache'"
proof (cases "name = []")
  case True
  with assms show ?thesis by (simp add: loadLocationCached_def loadLocation_def)
next
  case named: False
  show ?thesis
  proof (cases "cache name")
    case (Some l)
    with assms named have "loc = l" "cache' = cache" by (simp_all add: loadLocationCached_def)
    with Some assms(1) show ?thesis unfolding cacheAgrees_def by blast
  next
    case None
    with assms named have "loc = loadLocation zi name" "cache' = cache(name \<mapsto> loc)"
      by (auto simp: loadLocationCached_def loadLocation_def Let_def)
    with assms(1) named show ?thesis by (auto simp: cacheAgrees_def split: if_splits)
  qed
qed

subsection \<open>Whether a target should be up\<close>

text \<open>The loop over the schedules: true at the first open window; without any usable
  schedule, up.\<close>

fun scheduleLoop :: "zoneinfo \<Rightarrow> time \<Rightarrow> bool \<Rightarrow> ScalingSchedule list \<Rightarrow> bool" where
  "scheduleLoop zi now hasValid [] = (\<not> hasValid)"
| "scheduleLoop zi now hasValid (s # ss) =
     (case parseWindow s of
        None \<Rightarrow> scheduleLoop zi now hasValid ss
      | Some w \<Rightarrow>
          if multiContains w (weekMinute (loadLocation zi (Timezone s)) now) then True
          else scheduleLoop zi now True ss)"

definition IsActiveAt :: "zoneinfo \<Rightarrow> time \<Rightarrow> ScalingSchedule list \<Rightarrow> bool option \<Rightarrow> bool" where
  "IsActiveAt zi now schedules manualActive =
     (case manualActive of Some b \<Rightarrow> b | None \<Rightarrow> scheduleLoop zi now False schedules)"

definition ResolveDesiredState ::
    "zoneinfo \<Rightarrow> time \<Rightarrow> ScalingSchedule list \<Rightarrow> bool option \<Rightarrow> time option \<Rightarrow> bool" where
  "ResolveDesiredState zi now schedules active activeUntil =
     IsActiveAt zi now schedules (EffectiveOverride active activeUntil now)"

definition hasUsableSchedule :: "ScalingSchedule list \<Rightarrow> bool" where
  "hasUsableSchedule schedules \<longleftrightarrow> list_ex (\<lambda>s. parseWindow s \<noteq> None) schedules"

subsection \<open>Specification by weekday and time of day\<close>

definition lexle :: "int \<times> int \<Rightarrow> int \<times> int \<Rightarrow> bool" where
  "lexle a b \<longleftrightarrow> fst a < fst b \<or> fst a = fst b \<and> snd a \<le> snd b"

text \<open>
  Whether a schedule with readable times is open on weekday \<open>d\<close> at minute \<open>m\<close> of the day. A
  continuous window runs from its start day and time to its end day and time, through the end
  of the week when the end comes first. A daily window is open on its days between its times;
  an overnight one from its start on each of its days to its end on the following day.
\<close>

definition scheduleOpen :: "ScalingSchedule \<Rightarrow> int \<Rightarrow> int \<Rightarrow> bool" where
  "scheduleOpen s d m =
     (case (parseMinutes (StartTime s), parseMinutes (EndTime s)) of
        (Some sm, Some em) \<Rightarrow>
          (case (StartDay s, EndDay s) of
             (Some sd, Some ed) \<Rightarrow>
               if lexle (sd, sm) (ed, em) then lexle (sd, sm) (d, m) \<and> lexle (d, m) (ed, em)
               else lexle (sd, sm) (d, m) \<or> lexle (d, m) (ed, em)
           | _ \<Rightarrow>
               if sm \<le> em then d \<in> set (Days s) \<and> sm \<le> m \<and> m \<le> em
               else d \<in> set (Days s) \<and> sm \<le> m \<or> (d - 1) mod 7 \<in> set (Days s) \<and> m \<le> em)
      | _ \<Rightarrow> False)"

lemma digitVal_bound: "isDigit c \<Longrightarrow> digitVal c \<le> 9"
  by (auto simp: isDigit_def digitVal_def)

lemma parseMinutes_range:
  assumes "parseMinutes s = Some m" shows "0 \<le> m \<and> m < minutesPerDay"
proof -
  have md: "minuteDigits a b = Some k \<Longrightarrow> 0 \<le> k \<and> k \<le> 59" for a b k
    using digitVal_bound [of b] by (auto simp: minuteDigits_def split: if_splits)
  have hd: "hourDigits a b = Some k \<Longrightarrow> 0 \<le> k \<and> k \<le> 23" for a b k
    using digitVal_bound [of b] by (auto simp: hourDigits_def split: if_splits)
  from assms show ?thesis
    by (auto simp: parseMinutes_def split: list.splits if_splits option.splits bind_splits
        dest!: md hd dest: digitVal_bound)
qed

lemma weekday_range: "0 \<le> weekdayIn loc t \<and> weekdayIn loc t \<le> 6"
  by (auto simp: weekdayIn_def)

definition dayMinute :: "location \<Rightarrow> time \<Rightarrow> int" where
  "dayMinute loc t = hourIn loc t * 60 + minuteIn loc t"

lemma dayMinute_range: "0 \<le> dayMinute loc t \<and> dayMinute loc t < minutesPerDay"
proof -
  define x where "x = localSeconds loc t"
  have "0 \<le> x mod 86400 div 3600 \<and> x mod 86400 div 3600 \<le> 23"
       "0 \<le> x mod 3600 div 60 \<and> x mod 3600 div 60 \<le> 59"
    by (simp_all add: pos_imp_zdiv_nonneg_iff)
  then show ?thesis
    by (simp add: dayMinute_def hourIn_def minuteIn_def flip: x_def)
qed

lemma weekMinute_split: "weekMinute loc t = weekdayIn loc t * minutesPerDay + dayMinute loc t"
  by (simp add: weekMinute_def dayMinute_def)

text \<open>A minute of the week compares as its weekday and minute do.\<close>

lemma week_le_iff_lexle:
  assumes "0 \<le> m" "m < minutesPerDay" "0 \<le> m'" "m' < minutesPerDay"
  shows "d * minutesPerDay + m \<le> d' * minutesPerDay + m' \<longleftrightarrow> lexle (d, m) (d', m')"
  using assms by (auto simp: lexle_def)

lemma lexle_day: "sm \<le> em \<Longrightarrow> lexle (d, sm) (e, m) \<and> lexle (e, m) (d, em) \<longleftrightarrow> e = d \<and> sm \<le> m \<and> m \<le> em"
  by (auto simp: lexle_def)

lemma lexle_overnight:
  "em < sm \<Longrightarrow> lexle (d, sm) (e, m) \<and> lexle (e, m) (d + 1, em) \<longleftrightarrow> e = d \<and> sm \<le> m \<or> e = d + 1 \<and> m \<le> em"
  by (auto simp: lexle_def)

lemma lexle_week_end:
  "0 \<le> e \<Longrightarrow> e \<le> 6 \<Longrightarrow> lexle (6, sm) (e, m) \<or> lexle (e, m) (0, em) \<longleftrightarrow> e = 6 \<and> sm \<le> m \<or> e = 0 \<and> m \<le> em"
  by (auto simp: lexle_def)

lemma previous_weekday:
  fixes e d :: int
  assumes "0 \<le> e" "e \<le> 6" "0 \<le> d" "d \<le> 6"
  shows "(e - 1) mod 7 = d \<longleftrightarrow> (if d = 6 then e = 0 else e = d + 1)"
proof (cases "e = 0")
  case True
  with assms show ?thesis by auto
next
  case False
  with assms have "(e - 1) mod 7 = e - 1" by (intro mod_pos_pos_trivial) auto
  with assms False show ?thesis by auto
qed

lemma dailyWindow_contains:
  assumes d: "isWeekday d" and e: "isWeekday e"
    and m: "0 \<le> m" "m < minutesPerDay" and sm: "0 \<le> sm" "sm < minutesPerDay"
    and em: "0 \<le> em" "em < minutesPerDay"
  shows "windowContains (dailyWindow sm em d) (e * minutesPerDay + m) \<longleftrightarrow>
    (if sm \<le> em then e = d \<and> sm \<le> m \<and> m \<le> em
     else e = d \<and> sm \<le> m \<or> (e - 1) mod 7 = d \<and> m \<le> em)"
proof -
  have r: "0 \<le> d" "d \<le> 6" "0 \<le> e" "e \<le> 6"
    using d e by (auto simp: isWeekday_def)
  note le = week_le_iff_lexle [OF sm m] week_le_iff_lexle [OF m em]
  have small: "0 \<le> k \<Longrightarrow> k \<le> 6 \<Longrightarrow> (k * minutesPerDay + em) mod minutesPerWeek = k * minutesPerDay + em" for k
    using em by (intro mod_pos_pos_trivial) auto
  show ?thesis
  proof (cases "sm \<le> em")
    case True
    with r have "dailyWindow sm em d = \<lparr>winStart = d * minutesPerDay + sm, winEnd = d * minutesPerDay + em\<rparr>"
      by (simp add: dailyWindow_def Let_def small)
    with True show ?thesis
      by (simp add: windowContains_def le lexle_day)
  next
    case False
    then have lt: "em < sm" by simp
    show ?thesis
    proof (cases "d = 6")
      case True
      have "(d * minutesPerDay + em + minutesPerDay) mod minutesPerWeek = (em + minutesPerWeek) mod minutesPerWeek"
        using True by simp
      also have "\<dots> = em" using small [of 0] by simp
      finally have w: "dailyWindow sm em d = \<lparr>winStart = d * minutesPerDay + sm, winEnd = 0 * minutesPerDay + em\<rparr>"
        using lt by (simp add: dailyWindow_def)
      have "\<not> d * minutesPerDay + sm \<le> 0 * minutesPerDay + em" using True sm em by simp
      then have "windowContains (dailyWindow sm em d) (e * minutesPerDay + m) \<longleftrightarrow> lexle (d, sm) (e, m) \<or> lexle (e, m) (0, em)"
        unfolding w windowContains_def weeklyWindow.simps le by (simp only: if_False)
      also have "\<dots> \<longleftrightarrow> e = 6 \<and> sm \<le> m \<or> e = 0 \<and> m \<le> em"
        unfolding True by (rule lexle_week_end [OF r(3,4)])
      finally show ?thesis
        unfolding previous_weekday [OF r(3,4,1,2)] using lt True by simp
    next
      case nd: False
      have "(d * minutesPerDay + em + minutesPerDay) mod minutesPerWeek = ((d + 1) * minutesPerDay + em) mod minutesPerWeek"
        by (simp add: algebra_simps)
      also have "\<dots> = (d + 1) * minutesPerDay + em" using small [of "d + 1"] r nd by simp
      finally have w: "dailyWindow sm em d = \<lparr>winStart = d * minutesPerDay + sm, winEnd = (d + 1) * minutesPerDay + em\<rparr>"
        using lt by (simp add: dailyWindow_def)
      have "d * minutesPerDay + sm \<le> (d + 1) * minutesPerDay + em" using sm em by simp
      then have "windowContains (dailyWindow sm em d) (e * minutesPerDay + m) \<longleftrightarrow> lexle (d, sm) (e, m) \<and> lexle (e, m) (d + 1, em)"
        unfolding w windowContains_def weeklyWindow.simps le by (simp only: if_True)
      then show ?thesis
        unfolding previous_weekday [OF r(3,4,1,2)] lexle_overnight [OF lt] using lt nd by simp
    qed
  qed
qed

lemma multiContains_spec:
  assumes "parseWindow s = Some ws" and e: "isWeekday e" and m: "0 \<le> m" "m < minutesPerDay"
  shows "multiContains ws (e * minutesPerDay + m) \<longleftrightarrow> scheduleOpen s e m"
proof -
  obtain sm em where t: "parseMinutes (StartTime s) = Some sm" "parseMinutes (EndTime s) = Some em"
    using assms(1) by (auto simp: parseWindow_def split: option.splits)
  then have r: "0 \<le> sm" "sm < minutesPerDay" "0 \<le> em" "em < minutesPerDay"
    using parseMinutes_range by blast+
  show ?thesis
  proof (cases "StartDay s \<noteq> None \<and> EndDay s \<noteq> None")
    case True
    then obtain sd ed where "StartDay s = Some sd" "EndDay s = Some ed" by auto
    with assms t show ?thesis
      by (auto simp: parseWindow_def scheduleOpen_def multiContains_def windowContains_def
          week_le_iff_lexle r m split: if_splits)
  next
    case False
    then have ws: "ws = map (dailyWindow sm em) (filter isWeekday (Days s))"
      using assms(1) t
      by (cases "StartDay s"; cases "EndDay s") (auto simp: parseWindow_def Let_def split: if_splits)
    have open_eq: "scheduleOpen s e m =
        (if sm \<le> em then e \<in> set (Days s) \<and> sm \<le> m \<and> m \<le> em
         else e \<in> set (Days s) \<and> sm \<le> m \<or> (e - 1) mod 7 \<in> set (Days s) \<and> m \<le> em)"
      using False t by (cases "StartDay s"; cases "EndDay s") (simp_all add: scheduleOpen_def)
    have "(e - 1) mod 7 < 7" "0 \<le> (e - 1) mod 7" by simp_all
    then have w: "isWeekday ((e - 1) mod 7)" by (simp add: isWeekday_def)
    have "multiContains ws (e * minutesPerDay + m) \<longleftrightarrow>
        (\<exists>d \<in> set (Days s). isWeekday d \<and> windowContains (dailyWindow sm em d) (e * minutesPerDay + m))"
      by (auto simp: ws multiContains_def list_ex_iff)
    also have "\<dots> \<longleftrightarrow> scheduleOpen s e m"
      unfolding open_eq using e w by (cases "sm \<le> em") (auto simp: dailyWindow_contains [OF _ e m r])
    finally show ?thesis .
  qed
qed

lemma scheduleLoop_spec:
  "scheduleLoop zi now v ss \<longleftrightarrow>
     (\<not> v \<and> \<not> hasUsableSchedule ss) \<or>
     (\<exists>s \<in> set ss. parseWindow s \<noteq> None \<and>
        scheduleOpen s (weekdayIn (loadLocation zi (Timezone s)) now)
                       (dayMinute (loadLocation zi (Timezone s)) now))"
proof (induction ss arbitrary: v)
  case Nil
  then show ?case by (simp add: hasUsableSchedule_def)
next
  case (Cons s ss)
  let ?loc = "loadLocation zi (Timezone s)"
  show ?case
  proof (cases "parseWindow s")
    case None
    with Cons show ?thesis by (simp add: hasUsableSchedule_def)
  next
    case (Some ws)
    have "multiContains ws (weekMinute ?loc now) \<longleftrightarrow> scheduleOpen s (weekdayIn ?loc now) (dayMinute ?loc now)"
      unfolding weekMinute_split
      by (rule multiContains_spec [OF Some]) (use weekday_range dayMinute_range in \<open>auto simp: isWeekday_def\<close>)
    with Some Cons show ?thesis by (auto simp: hasUsableSchedule_def)
  qed
qed

lemma IsActiveAt_None [simp]: "IsActiveAt zi now ss None = scheduleLoop zi now False ss"
  by (simp add: IsActiveAt_def)

lemma IsActiveAt_Some [simp]: "IsActiveAt zi now ss (Some b) = b"
  by (simp add: IsActiveAt_def)

text \<open>Staying up is the fail-safe: without a usable schedule a target is up at any time.\<close>

lemma scheduleLoop_unusable: "\<not> hasUsableSchedule ss \<Longrightarrow> scheduleLoop zi now False ss"
  by (simp add: scheduleLoop_spec)

subsection \<open>Zones with a fixed offset: the minute decides, and the week repeats\<close>

lemma weekMinute_fixed:
  "weekMinute (\<lambda>_. 60 * off) t = (t div minute + off + 5760) mod minutesPerWeek"
proof -
  define x where "x = t div second + 60 * off"
  have m: "t div minute + off = x div 60"
  proof -
    have "t div (second * 60) = t div second div 60"
      by (rule zdiv_zmult2_eq) simp
    then show ?thesis by (simp add: x_def)
  qed
  define y where "y = x div 60"
  have q: "x div 3600 = y div 60" "x div 86400 = y div 1440"
    using zdiv_zmult2_eq [of 60 x 60] zdiv_zmult2_eq [of 1440 x 60] by (simp_all add: y_def)
  have "x mod 86400 = 3600 * (x div 3600 mod 24) + x mod 3600"
    using zmod_zmult2_eq [of 24 x 3600] by simp
  then have h: "x mod 86400 div 3600 = y div 60 mod 24" by (simp add: q)
  have "x mod 3600 = 60 * (y mod 60) + x mod 60"
    using zmod_zmult2_eq [of 60 x 60] by (simp add: y_def)
  then have n: "x mod 3600 div 60 = y mod 60" by simp
  have r: "60 * (y div 60 mod 24) + y mod 60 = y mod 1440"
    using zmod_zmult2_eq [of 24 y 60] by simp
  have w: "(y + 5760) mod 10080 = 1440 * ((y + 5760) div 1440 mod 7) + (y + 5760) mod 1440"
    using zmod_zmult2_eq [of 7 "y + 5760" 1440] by simp
  have d: "(y + 5760) div 1440 = y div 1440 + 4" "(y + 5760) mod 1440 = y mod 1440"
    using div_mult_self1 [of 1440 y 4] mod_mult_self1 [of y 4 1440] by simp_all
  have "(x div 86400 + 4) mod 7 * 1440 + x mod 86400 div 3600 * 60 + x mod 3600 div 60
          = 1440 * ((y div 1440 + 4) mod 7) + (60 * (y div 60 mod 24) + y mod 60)"
    by (simp only: h n q mult.commute add.assoc)
  also have "\<dots> = (x div 60 + 5760) mod 10080"
    by (simp only: r w d flip: y_def)
  finally have "(x div 86400 + 4) mod 7 * 1440 + x mod 86400 div 3600 * 60 + x mod 3600 div 60
          = (x div 60 + 5760) mod 10080" .
  moreover have "localSeconds (\<lambda>_. 60 * off) t = x"
    by (simp add: localSeconds_def x_def)
  ultimately show ?thesis
    by (simp only: weekMinute_def weekdayIn_def hourIn_def minuteIn_def m)
qed

definition zonesFixed :: "zoneinfo \<Rightarrow> ScalingSchedule list \<Rightarrow> bool" where
  "zonesFixed zi ss \<longleftrightarrow> (\<forall>s \<in> set ss. fixedZone (loadLocation zi (Timezone s)))"

lemma scheduleLoop_cong:
  assumes "\<And>s. s \<in> set ss \<Longrightarrow>
    weekMinute (loadLocation zi (Timezone s)) t = weekMinute (loadLocation zi (Timezone s)) u"
  shows "scheduleLoop zi t v ss = scheduleLoop zi u v ss"
  using assms by (induction ss arbitrary: v) (auto split: option.splits)

lemma scheduleLoop_minute:
  assumes "zonesFixed zi ss" and "t div minute = u div minute"
  shows "scheduleLoop zi t v ss = scheduleLoop zi u v ss"
proof (rule scheduleLoop_cong)
  fix s assume "s \<in> set ss"
  then obtain off where loc: "loadLocation zi (Timezone s) = (\<lambda>_. 60 * off)"
    using assms(1) by (auto simp: zonesFixed_def elim!: fixedZoneE)
  show "weekMinute (loadLocation zi (Timezone s)) t = weekMinute (loadLocation zi (Timezone s)) u"
    unfolding loc weekMinute_fixed assms(2) ..
qed

lemma scheduleLoop_week:
  assumes "zonesFixed zi ss"
  shows "scheduleLoop zi (t + k * (minutesPerWeek * minute)) v ss = scheduleLoop zi t v ss"
proof (rule scheduleLoop_cong)
  fix s assume "s \<in> set ss"
  then obtain off where loc: "loadLocation zi (Timezone s) = (\<lambda>_. 60 * off)"
    using assms by (auto simp: zonesFixed_def elim!: fixedZoneE)
  have "(t + k * (minutesPerWeek * minute)) div minute = t div minute + k * minutesPerWeek"
    using div_mult_self1 [of minute t "k * minutesPerWeek"] by (simp add: mult.assoc)
  then have "(t + k * (minutesPerWeek * minute)) div minute + off + 5760
      = (t div minute + off + 5760) + k * minutesPerWeek"
    by simp
  then show "weekMinute (loadLocation zi (Timezone s)) (t + k * (minutesPerWeek * minute))
      = weekMinute (loadLocation zi (Timezone s)) t"
    unfolding loc weekMinute_fixed by (simp only: mod_mult_self1)
qed

subsection \<open>Properties\<close>

text \<open>C3. Without an override, a target is up at an instant exactly if none of its schedules is
  usable (the fail-safe), or a usable one is open on the weekday and at the time of day that
  its own time zone shows. The encoding of windows as minutes of a week, their wrap over the
  end of the week and overnight windows are thereby equivalent to the reading of a schedule by
  weekday and clock.\<close>

theorem IsActiveAt_by_weekday_and_clock:
  "IsActiveAt zi now schedules None =
     (if hasUsableSchedule schedules
      then \<exists>s \<in> set schedules. parseWindow s \<noteq> None \<and>
         scheduleOpen s (weekdayIn (loadLocation zi (Timezone s)) now)
                        (dayMinute (loadLocation zi (Timezone s)) now)
      else True)"
  by (simp add: scheduleLoop_spec)

text \<open>An override decides until its deadline and not after it: while it is in force the
  desired state is the one it names, whatever the schedules say; from the deadline on, and
  without an override, the schedules decide. A zero deadline counts as none.\<close>

theorem ResolveDesiredState_override:
  "ResolveDesiredState zi now schedules active activeUntil =
     (case active of
        Some a \<Rightarrow> if (\<exists>u. activeUntil = Some u \<and> u \<noteq> zeroTime \<and> u \<le> now)
                  then IsActiveAt zi now schedules None else a
      | None \<Rightarrow> IsActiveAt zi now schedules None)"
  by (auto simp: ResolveDesiredState_def EffectiveOverride_def isZero_def split: option.splits)

text \<open>The cache of time zones is transparent: whatever sequence of names is looked up through
  it, from an empty cache, each answer is the one a fresh lookup would give.\<close>

theorem loadLocationCached_sequence:
  "fst (foldl (\<lambda>(locs, cache) name.
           case loadLocationCached zi cache name of (loc, cache') \<Rightarrow> (locs @ [loc], cache'))
         ([], Map.empty) names) = map (loadLocation zi) names"
proof -
  have "cacheAgrees zi cache \<Longrightarrow>
     fst (foldl (\<lambda>(locs, cache) name.
           case loadLocationCached zi cache name of (loc, cache') \<Rightarrow> (locs @ [loc], cache'))
         (acc, cache) names) = acc @ map (loadLocation zi) names" for acc cache
  proof (induction names arbitrary: acc cache)
    case (Cons n names)
    obtain loc cache' where l: "loadLocationCached zi cache n = (loc, cache')" by fastforce
    from loadLocationCached_transparent [OF Cons.prems l] Cons.IH [of cache' "acc @ [loc]"]
    show ?case by (simp add: l)
  qed simp
  from this [OF cacheAgrees_empty, of "[]"] show ?thesis by simp
qed

end
