(* ===== verification/Timetable.thy ===== *)
theory Timetable
  imports Schedule
begin

section \<open>Exceptions and timetables (internal/scaling/exceptions.go)\<close>

text \<open>
  A timetable is the weekly schedules of a target, the dated exceptions to them and the lead
  by which it is started early. This theory models the resolution of exceptions and holiday
  calendars into intervals, the state of a timetable at an instant, the search for the next
  change and the split of a period into intervals.

  \<open>NextChange\<close> scans minute by minute, at most a week, between the bounds of the exceptions.
  The lemmas show that in zones with a fixed offset it finds exactly the first instant at which
  the state differs, or that the state never changes. The search ends because it consumes the
  finite list of bounds and each scan is limited to a week and a minute.
\<close>

subsection \<open>Resolving exceptions\<close>

record Exception =
  excName :: string
  excFrom :: time
  excTo :: time
  excActive :: bool

text \<open>What cannot be resolved, with the label of the exception and the text at fault.\<close>

datatype problem =
    CalendarMissing string
  | InCalendar string problem
  | UnknownTimezone string string
  | BadStart string string
  | BadEnd string string
  | EndsBeforeStart string
  | BadState string string

abbreviation StateUp :: string where "StateUp \<equiv> ''Up''"
abbreviation StateDown :: string where "StateDown \<equiv> ''Down''"
abbreviation defaultExceptionZone :: string where "defaultExceptionZone \<equiv> ''UTC''"

definition orElse :: "string \<Rightarrow> string \<Rightarrow> string" where
  "orElse a b = (if a = [] then b else a)"

text \<open>\<open>parseExceptionTime\<close>: the instant and whether the text was a date.\<close>

definition parseExceptionTime :: "string \<Rightarrow> location \<Rightarrow> (time \<times> bool) option" where
  "parseExceptionTime s loc =
     (let s' = trimSpace s
      in case parseDate loc s' of
           Some t \<Rightarrow> Some (t, True)
         | None \<Rightarrow> map_option (\<lambda>t. (t, False)) (parseDateTime loc s'))"

definition exceptionEnd :: "location \<Rightarrow> time \<Rightarrow> string \<Rightarrow> time option" where
  "exceptionEnd loc from end =
     (if trimSpace end = [] then Some (endOfDay loc from)
      else map_option (\<lambda>(t, isDate). if isDate then endOfDay loc t else t)
             (parseExceptionTime (trimSpace end) loc))"

definition resolveException :: "zoneinfo \<Rightarrow> ScheduleException \<Rightarrow> string \<Rightarrow> problem + Exception" where
  "resolveException zi se defaultZone =
     (let label = orElse (exName se) (exStart se);
          zone = orElse (orElse (exTimezone se) defaultZone) defaultExceptionZone
      in case zoneLoad zi zone of
           None \<Rightarrow> Inl (UnknownTimezone label zone)
         | Some loc \<Rightarrow>
         (case parseExceptionTime (exStart se) loc of
            None \<Rightarrow> Inl (BadStart label (exStart se))
          | Some (from, _) \<Rightarrow>
          (case exceptionEnd loc from (exEnd se) of
             None \<Rightarrow> Inl (BadEnd label (exEnd se))
           | Some to \<Rightarrow>
               if \<not> from < to then Inl (EndsBeforeStart label)
               else if exState se = StateUp
                 then Inr \<lparr>excName = label, excFrom = from, excTo = to, excActive = True\<rparr>
               else if exState se = StateDown
                 then Inr \<lparr>excName = label, excFrom = from, excTo = to, excActive = False\<rparr>
               else Inl (BadState label (exState se)))))"

text \<open>One calendar day as an exception, and the loops that collect results and problems.\<close>

definition calendarException :: "HolidayCalendar \<Rightarrow> CalendarDay \<Rightarrow> ScheduleException" where
  "calendarException cal day =
     \<lparr>exName = orElse (dayName day) (Date day), exStart = Date day, exEnd = [],
      exState = orElse (calState cal) StateDown, exTimezone = calTimezone cal\<rparr>"

fun collect :: "('a \<Rightarrow> 'e + 'b) \<Rightarrow> 'a list \<Rightarrow> 'b list \<times> 'e list" where
  "collect f [] = ([], [])"
| "collect f (x # xs) =
     (let (out, problems) = collect f xs
      in case f x of Inl e \<Rightarrow> (out, e # problems) | Inr b \<Rightarrow> (b # out, problems))"

fun calendarLoop ::
    "zoneinfo \<Rightarrow> HolidayCalendar list \<Rightarrow> string \<Rightarrow> string list \<Rightarrow> Exception list \<times> problem list" where
  "calendarLoop zi calendars defaultZone [] = ([], [])"
| "calendarLoop zi calendars defaultZone (name # names) =
     (let (out, problems) = calendarLoop zi calendars defaultZone names
      in case find (\<lambda>c. calName c = name) calendars of
           None \<Rightarrow> (out, CalendarMissing name # problems)
         | Some cal \<Rightarrow>
             (let (out', problems') =
                collect (\<lambda>day. resolveException zi (calendarException cal day) defaultZone) (calDays cal)
              in (out' @ out, map (InCalendar name) problems' @ problems)))"

definition ResolveExceptions ::
    "zoneinfo \<Rightarrow> ScheduleException list \<Rightarrow> string list \<Rightarrow> HolidayCalendar list \<Rightarrow> string
       \<Rightarrow> Exception list \<times> problem list" where
  "ResolveExceptions zi own names calendars defaultZone =
     (let (out, problems) = calendarLoop zi calendars defaultZone names;
          (out', problems') = collect (\<lambda>se. resolveException zi se defaultZone) own
      in (out @ out', problems @ problems'))"

definition ExceptionZone :: "ScalingSchedule list \<Rightarrow> string" where
  "ExceptionZone schedules =
     (case find (\<lambda>s. Timezone s \<noteq> []) schedules of Some s \<Rightarrow> Timezone s | None \<Rightarrow> defaultExceptionZone)"

lemma resolveException_ok:
  "resolveException zi se z = Inr ex \<Longrightarrow> excFrom ex < excTo ex \<and> exState se = (if excActive ex then StateUp else StateDown)"
  by (auto simp: resolveException_def Let_def split: option.splits prod.splits if_splits)

lemma collect_in: "set (fst (collect f xs)) = {b. \<exists>x \<in> set xs. f x = Inr b}"
  by (induction xs) (auto simp: Let_def split: sum.splits prod.splits)

lemma collect_length: "length (fst (collect f xs)) + length (snd (collect f xs)) = length xs"
  by (induction xs) (auto simp: Let_def split: sum.splits prod.splits)

lemma calendarLoop_intervals:
  "ex \<in> set (fst (calendarLoop zi cs z ns)) \<Longrightarrow> excFrom ex < excTo ex"
proof (induction ns)
  case (Cons n ns)
  show ?case
  proof (cases "find (\<lambda>c. calName c = n) cs")
    case None
    with Cons show ?thesis by (auto simp: Let_def split: prod.splits)
  next
    case (Some cal)
    with Cons collect_in [of "\<lambda>day. resolveException zi (calendarException cal day) z" "calDays cal"]
    show ?thesis by (fastforce simp: Let_def split: prod.splits dest: resolveException_ok)
  qed
qed simp

subsection \<open>Timetables\<close>

record Timetable =
  ttSchedules :: "ScalingSchedule list"
  ttExceptions :: "Exception list"
  ttLead :: duration

definition covers :: "Exception \<Rightarrow> time \<Rightarrow> bool" where
  "covers ex t \<longleftrightarrow> excFrom ex \<le> t \<and> t < excTo ex"

definition laterException :: "time \<Rightarrow> Exception option \<Rightarrow> Exception \<Rightarrow> Exception option" where
  "laterException t found ex =
     (if t < excFrom ex \<or> \<not> t < excTo ex then found
      else (case found of
              None \<Rightarrow> Some ex
            | Some f \<Rightarrow> if \<not> excFrom ex < excFrom f then Some ex else found))"

definition exceptionAt :: "Timetable \<Rightarrow> time \<Rightarrow> Exception option" where
  "exceptionAt tt t = foldl (laterException t) None (ttExceptions tt)"

definition activeWithoutLead :: "zoneinfo \<Rightarrow> Timetable \<Rightarrow> time \<Rightarrow> bool" where
  "activeWithoutLead zi tt t =
     (case exceptionAt tt t of
        Some ex \<Rightarrow> excActive ex
      | None \<Rightarrow> IsActiveAt zi t (ttSchedules tt) None)"

definition ActiveAt :: "zoneinfo \<Rightarrow> Timetable \<Rightarrow> time \<Rightarrow> bool" where
  "ActiveAt zi tt t \<longleftrightarrow>
     activeWithoutLead zi tt t \<or> (ttLead tt > 0 \<and> activeWithoutLead zi tt (t + ttLead tt))"

definition prewarming :: "zoneinfo \<Rightarrow> Timetable \<Rightarrow> time \<Rightarrow> bool" where
  "prewarming zi tt t \<longleftrightarrow>
     ttLead tt > 0 \<and> \<not> activeWithoutLead zi tt t \<and> activeWithoutLead zi tt (t + ttLead tt)"

definition exceptionsDecide :: "Timetable \<Rightarrow> time \<Rightarrow> bool" where
  "exceptionsDecide tt t \<longleftrightarrow>
     exceptionAt tt t \<noteq> None \<and> (ttLead tt \<le> 0 \<or> exceptionAt tt (t + ttLead tt) \<noteq> None)"

subsection \<open>The next change\<close>

abbreviation scanHorizon :: nat where "scanHorizon \<equiv> 10081"

text \<open>The scan of \<open>scheduleChangeBefore\<close>, over at most \<open>n\<close> minutes after \<open>at\<close>: the first
  minute whose state differs, and whether every minute was looked at.\<close>

fun scanMinutes :: "nat \<Rightarrow> (time \<Rightarrow> bool) \<Rightarrow> time option \<Rightarrow> bool \<Rightarrow> time \<Rightarrow> time option \<times> bool" where
  "scanMinutes 0 act until cur at = (None, True)"
| "scanMinutes (Suc n) act until cur at =
     (let at' = at + minute
      in if (case until of None \<Rightarrow> False | Some u \<Rightarrow> \<not> at' < u) then (None, False)
         else if act at' \<noteq> cur then (Some at', False)
         else scanMinutes n act until cur at')"

definition scheduleChangeBefore ::
    "zoneinfo \<Rightarrow> Timetable \<Rightarrow> time \<Rightarrow> time option \<Rightarrow> bool \<Rightarrow> time option \<times> bool" where
  "scheduleChangeBefore zi tt from until current =
     scanMinutes scanHorizon (ActiveAt zi tt) until current (truncateTo minute from)"

definition allBounds :: "Timetable \<Rightarrow> time list" where
  "allBounds tt = concat (map (\<lambda>ex. [excFrom ex, excTo ex, excFrom ex - ttLead tt, excTo ex - ttLead tt])
                            (ttExceptions tt))"

definition boundsAfter :: "Timetable \<Rightarrow> time \<Rightarrow> time list" where
  "boundsAfter tt t = sort (filter (\<lambda>b. t < b) (allBounds tt))"

definition scheduleOnlyAt :: "Timetable \<Rightarrow> time \<Rightarrow> bool" where
  "scheduleOnlyAt tt t \<longleftrightarrow>
     exceptionAt tt t = None \<and> (ttLead tt \<le> 0 \<or> exceptionAt tt (t + ttLead tt) = None)"

text \<open>One turn of the loop before it looks at the bound: a change found by scanning, or the
  new value of \<open>scheduleSteady\<close>.\<close>

definition scanSegment ::
    "zoneinfo \<Rightarrow> Timetable \<Rightarrow> bool \<Rightarrow> bool \<Rightarrow> time \<Rightarrow> time option \<Rightarrow> time + bool" where
  "scanSegment zi tt current steady from until =
     (let scheduleOnly = scheduleOnlyAt tt from
      in if \<not> exceptionsDecide tt from \<and> (\<not> steady \<or> \<not> scheduleOnly)
         then (case scheduleChangeBefore zi tt from until current of
                 (Some change, _) \<Rightarrow> Inl change
               | (None, wholeWeek) \<Rightarrow> Inr (steady \<or> (wholeWeek \<and> scheduleOnly)))
         else Inr steady)"

fun nextChangeLoop :: "zoneinfo \<Rightarrow> Timetable \<Rightarrow> bool \<Rightarrow> bool \<Rightarrow> time \<Rightarrow> time list \<Rightarrow> time option" where
  "nextChangeLoop zi tt current steady from [] =
     (case scanSegment zi tt current steady from None of Inl c \<Rightarrow> Some c | Inr _ \<Rightarrow> None)"
| "nextChangeLoop zi tt current steady from (b # bs) =
     (case scanSegment zi tt current steady from (Some b) of
        Inl c \<Rightarrow> Some c
      | Inr steady' \<Rightarrow>
          if ActiveAt zi tt b \<noteq> current then Some b
          else nextChangeLoop zi tt current steady' b bs)"

definition NextChange :: "zoneinfo \<Rightarrow> Timetable \<Rightarrow> time \<Rightarrow> time option" where
  "NextChange zi tt t =
     (let usable = hasUsableSchedule (ttSchedules tt)
      in if \<not> usable \<and> ttExceptions tt = [] then None
         else nextChangeLoop zi tt (ActiveAt zi tt t) (\<not> usable) t (boundsAfter tt t))"

subsection \<open>Intervals\<close>

record Interval =
  ivFrom :: time
  ivTo :: time
  ivActive :: bool
  ivReason :: string

abbreviation maxIntervals :: nat where "maxIntervals \<equiv> 2000"
abbreviation ReasonPrewarm :: string where "ReasonPrewarm \<equiv> ''prewarm''"

definition reasonAt :: "zoneinfo \<Rightarrow> Timetable \<Rightarrow> time \<Rightarrow> string" where
  "reasonAt zi tt t =
     (if prewarming zi tt t then ReasonPrewarm
      else (case exceptionAt tt t of Some ex \<Rightarrow> excName ex | None \<Rightarrow> ''schedule''))"

text \<open>The loop that ends a prewarm stretch at the first minute that is no prewarm.\<close>

function prewarmEnd :: "zoneinfo \<Rightarrow> Timetable \<Rightarrow> time \<Rightarrow> time \<Rightarrow> time \<Rightarrow> time" where
  "prewarmEnd zi tt start end at =
     (if at < end \<and> \<not> start + ttLead tt < at then
        (if \<not> prewarming zi tt at then at else prewarmEnd zi tt start end (at + minute))
      else end)"
  by pat_completeness auto
termination
  by (relation "measure (\<lambda>(zi, tt, start, end, at). nat (end - at))") auto

declare prewarmEnd.simps [simp del]

definition intervalEnd :: "zoneinfo \<Rightarrow> Timetable \<Rightarrow> time \<Rightarrow> time \<Rightarrow> time" where
  "intervalEnd zi tt to start =
     (let why = reasonAt zi tt start;
          end0 = (case NextChange zi tt start of Some n \<Rightarrow> if n < to then n else to | None \<Rightarrow> to);
          end1 = foldl (\<lambda>end b. if start < b \<and> b < end \<and> reasonAt zi tt b \<noteq> why then b else end) end0
                   (concat (map (\<lambda>ex. [excFrom ex, excTo ex]) (ttExceptions tt)))
      in if why = ReasonPrewarm then prewarmEnd zi tt start end1 (truncateTo minute start + minute)
         else end1)"

text \<open>The first argument is how many intervals may still be added.\<close>

fun intervalsLoop :: "nat \<Rightarrow> zoneinfo \<Rightarrow> Timetable \<Rightarrow> time \<Rightarrow> time \<Rightarrow> Interval list" where
  "intervalsLoop 0 zi tt to start = []"
| "intervalsLoop (Suc n) zi tt to start =
     (if start < to then
        (let end = intervalEnd zi tt to start
         in \<lparr>ivFrom = start, ivTo = end, ivActive = ActiveAt zi tt start, ivReason = reasonAt zi tt start\<rparr>
            # intervalsLoop n zi tt to end)
      else [])"

definition Intervals :: "zoneinfo \<Rightarrow> Timetable \<Rightarrow> time \<Rightarrow> time \<Rightarrow> Interval list" where
  "Intervals zi tt from to = intervalsLoop maxIntervals zi tt to from"

text \<open>\<open>ActiveShare\<close> as the fraction of its two durations, without the division into a float;
  a period that is not positive has share zero.\<close>

definition ActiveShare :: "zoneinfo \<Rightarrow> Timetable \<Rightarrow> time \<Rightarrow> time \<Rightarrow> duration \<times> duration" where
  "ActiveShare zi tt from to =
     (if to - from \<le> 0 then (0, 1)
      else (sum_list (map (\<lambda>iv. ivTo iv - ivFrom iv) (filter ivActive (Intervals zi tt from to))), to - from))"

subsection \<open>The exception in force\<close>

lemma laterException_covers:
  "laterException t found ex =
     (if covers ex t then (case found of None \<Rightarrow> Some ex
        | Some f \<Rightarrow> if excFrom f \<le> excFrom ex then Some ex else found) else found)"
  by (auto simp: laterException_def covers_def split: option.splits)

lemma foldl_laterException:
  "foldl (laterException t) f0 exs = r \<Longrightarrow>
     (r = f0 \<and> (\<forall>ex \<in> set exs. covers ex t \<longrightarrow> (\<exists>f. f0 = Some f \<and> excFrom ex < excFrom f)))
   \<or> (\<exists>xs ex ys. exs = xs @ ex # ys \<and> r = Some ex \<and> covers ex t
        \<and> (\<forall>f. f0 = Some f \<longrightarrow> excFrom f \<le> excFrom ex)
        \<and> (\<forall>e \<in> set xs. covers e t \<longrightarrow> excFrom e \<le> excFrom ex)
        \<and> (\<forall>e \<in> set ys. covers e t \<longrightarrow> excFrom e < excFrom ex))"
proof (induction exs arbitrary: r rule: rev_induct)
  case Nil
  then show ?case by simp
next
  case (snoc x exs)
  define m where "m = foldl (laterException t) f0 exs"
  have r: "r = laterException t m x" using snoc.prems by (simp add: m_def)
  note IH = snoc.IH [OF m_def [symmetric]]
  show ?case
  proof (cases "covers x t \<and> (\<forall>f. m = Some f \<longrightarrow> excFrom f \<le> excFrom x)")
    case True
    then have rx: "r = Some x"
      by (auto simp: r laterException_def covers_def split: option.splits)
    have "\<forall>e \<in> set exs. covers e t \<longrightarrow> excFrom e \<le> excFrom x"
      using IH True by fastforce
    moreover have "\<forall>f. f0 = Some f \<longrightarrow> excFrom f \<le> excFrom x"
      using IH True by fastforce
    ultimately show ?thesis using rx True by (intro disjI2 exI [of _ exs] exI [of _ x] exI [of _ "[]"]) simp
  next
    case False
    then have rm: "r = m" and x: "covers x t \<longrightarrow> (\<exists>f. m = Some f \<and> excFrom x < excFrom f)"
      by (auto simp: r laterException_def covers_def split: option.splits)
    from IH show ?thesis
    proof (elim disjE conjE exE)
      assume "m = f0" "\<forall>ex \<in> set exs. covers ex t \<longrightarrow> (\<exists>f. f0 = Some f \<and> excFrom ex < excFrom f)"
      with rm x show ?thesis by (intro disjI1) auto
    next
      fix xs ex ys
      assume "exs = xs @ ex # ys" "m = Some ex" "covers ex t"
        "\<forall>f. f0 = Some f \<longrightarrow> excFrom f \<le> excFrom ex"
        "\<forall>e \<in> set xs. covers e t \<longrightarrow> excFrom e \<le> excFrom ex"
        "\<forall>e \<in> set ys. covers e t \<longrightarrow> excFrom e < excFrom ex"
      with rm x show ?thesis
        by (intro disjI2 exI [of _ xs] exI [of _ ex] exI [of _ "ys @ [x]"]) auto
    qed
  qed
qed

lemma exceptionAt_None: "exceptionAt tt t = None \<longleftrightarrow> (\<forall>ex \<in> set (ttExceptions tt). \<not> covers ex t)"
  using foldl_laterException [of t None "ttExceptions tt" "exceptionAt tt t"]
  by (auto simp: exceptionAt_def)

lemma exceptionAt_Some:
  assumes "exceptionAt tt t = Some ex"
  shows "\<exists>xs ys. ttExceptions tt = xs @ ex # ys \<and> covers ex t
    \<and> (\<forall>e \<in> set xs. covers e t \<longrightarrow> excFrom e \<le> excFrom ex)
    \<and> (\<forall>e \<in> set ys. covers e t \<longrightarrow> excFrom e < excFrom ex)"
  using foldl_laterException [of t None "ttExceptions tt" "Some ex"] assms
  by (auto simp: exceptionAt_def)

lemma exceptionAt_cong:
  assumes "\<And>ex. ex \<in> set (ttExceptions tt) \<Longrightarrow> covers ex t = covers ex u"
  shows "exceptionAt tt t = exceptionAt tt u"
proof -
  have "laterException t f ex = laterException u f ex" if "ex \<in> set (ttExceptions tt)" for f ex
    using assms [OF that] by (simp add: laterException_covers)
  then show ?thesis
    unfolding exceptionAt_def by (intro foldl_cong) auto
qed

lemma exceptionAt_steady:
  assumes "x \<le> y" "\<And>ex. ex \<in> set (ttExceptions tt) \<Longrightarrow> \<not> (x < excFrom ex \<and> excFrom ex \<le> y)"
    "\<And>ex. ex \<in> set (ttExceptions tt) \<Longrightarrow> \<not> (x < excTo ex \<and> excTo ex \<le> y)"
  shows "exceptionAt tt y = exceptionAt tt x"
  using assms by (intro exceptionAt_cong) (fastforce simp: covers_def)

subsection \<open>Between bounds the state depends on the minute of the week only\<close>

definition valueOr :: "Exception option \<Rightarrow> bool \<Rightarrow> bool" where
  "valueOr e b = (case e of Some ex \<Rightarrow> excActive ex | None \<Rightarrow> b)"

text \<open>The state at \<open>x\<close> were \<open>e1\<close> the exception in force and \<open>e2\<close> the one a lead later.\<close>

definition segmentState :: "zoneinfo \<Rightarrow> Timetable \<Rightarrow> Exception option \<Rightarrow> Exception option \<Rightarrow> time \<Rightarrow> bool" where
  "segmentState zi tt e1 e2 x \<longleftrightarrow>
     valueOr e1 (scheduleLoop zi x False (ttSchedules tt)) \<or>
     (ttLead tt > 0 \<and> valueOr e2 (scheduleLoop zi (x + ttLead tt) False (ttSchedules tt)))"

lemma ActiveAt_segment:
  "ActiveAt zi tt x = segmentState zi tt (exceptionAt tt x) (exceptionAt tt (x + ttLead tt)) x"
  by (simp add: ActiveAt_def segmentState_def activeWithoutLead_def valueOr_def split: option.splits)

text \<open>Timetables the exactness results are about: zones with a fixed offset and a lead of whole
  minutes, as \<open>PrewarmLead\<close> gives.\<close>

definition regular :: "zoneinfo \<Rightarrow> Timetable \<Rightarrow> bool" where
  "regular zi tt \<longleftrightarrow> zonesFixed zi (ttSchedules tt) \<and> 0 \<le> ttLead tt \<and> minute dvd ttLead tt"

lemma lead_minutes:
  assumes "minute dvd (l :: int)"
  shows "(x + l) div minute = x div minute + l div minute"
  using assms by (auto elim!: dvdE simp: div_mult_self2 mult.commute)

lemma segmentState_minute:
  assumes "regular zi tt" "x div minute = y div minute"
  shows "segmentState zi tt e1 e2 x = segmentState zi tt e1 e2 y"
proof -
  have z: "zonesFixed zi (ttSchedules tt)" and l: "minute dvd ttLead tt"
    using assms(1) by (auto simp: regular_def)
  have "(x + ttLead tt) div minute = (y + ttLead tt) div minute"
    using assms(2) by (simp only: lead_minutes [OF l])
  then show ?thesis
    unfolding segmentState_def
    using scheduleLoop_minute [OF z assms(2)] scheduleLoop_minute [OF z, of "x + ttLead tt" "y + ttLead tt"]
    by metis
qed

lemma segmentState_week:
  assumes "regular zi tt"
  shows "segmentState zi tt e1 e2 (x + k * (minutesPerWeek * minute)) = segmentState zi tt e1 e2 x"
proof -
  have z: "zonesFixed zi (ttSchedules tt)" using assms by (simp add: regular_def)
  have "x + k * (minutesPerWeek * minute) + ttLead tt = x + ttLead tt + k * (minutesPerWeek * minute)"
    by simp
  then show ?thesis
    unfolding segmentState_def by (simp only: scheduleLoop_week [OF z])
qed

text \<open>Exceptions that decide both now and a lead later leave nothing to the schedules.\<close>

lemma segmentState_decided:
  "e1 \<noteq> None \<Longrightarrow> ttLead tt \<le> 0 \<or> e2 \<noteq> None \<Longrightarrow>
     segmentState zi tt e1 e2 x = segmentState zi tt e1 e2 y"
  by (auto simp: segmentState_def valueOr_def)

subsection \<open>The scan\<close>

lemma scanMinutes_found:
  assumes "scanMinutes n act until cur at = (Some c, w)"
  shows "\<exists>k. 1 \<le> k \<and> k \<le> int n \<and> c = at + k * minute \<and> act c \<noteq> cur
    \<and> (\<forall>u. until = Some u \<longrightarrow> c < u) \<and> (\<forall>j. 1 \<le> j \<and> j < k \<longrightarrow> act (at + j * minute) = cur)"
  using assms
proof (induction n arbitrary: at)
  case 0
  then show ?case by simp
next
  case (Suc n)
  show ?case
  proof (cases "act (at + minute) \<noteq> cur")
    case True
    with Suc.prems show ?thesis
      by (intro exI [of _ 1]) (auto simp: Let_def split: if_splits option.splits)
  next
    case False
    with Suc.prems have s: "scanMinutes n act until cur (at + minute) = (Some c, w)"
      by (auto simp: Let_def split: if_splits)
    from Suc.IH [OF s] obtain k where k: "1 \<le> k" "k \<le> int n" "c = at + minute + k * minute" "act c \<noteq> cur"
      "\<forall>u. until = Some u \<longrightarrow> c < u" "\<forall>j. 1 \<le> j \<and> j < k \<longrightarrow> act (at + minute + j * minute) = cur"
      by blast
    have "act (at + j * minute) = cur" if "1 \<le> j" "j < k + 1" for j
    proof (cases "j = 1")
      case True
      with False show ?thesis by simp
    next
      case nj: False
      with that have "1 \<le> j - 1" "j - 1 < k" by simp_all
      with k(6) have "act (at + minute + (j - 1) * minute) = cur" by blast
      then show ?thesis by (simp add: algebra_simps)
    qed
    with k show ?thesis by (intro exI [of _ "k + 1"]) (simp add: algebra_simps)
  qed
qed

lemma scanMinutes_none:
  assumes "scanMinutes n act until cur at = (None, w)"
  shows "if w then (\<forall>j. 1 \<le> j \<and> j \<le> int n \<longrightarrow> act (at + j * minute) = cur
                         \<and> (\<forall>u. until = Some u \<longrightarrow> at + j * minute < u))
    else (\<exists>k u. 1 \<le> k \<and> until = Some u \<and> u \<le> at + k * minute
            \<and> (\<forall>j. 1 \<le> j \<and> j < k \<longrightarrow> act (at + j * minute) = cur))"
  using assms
proof (induction n arbitrary: at)
  case 0
  then show ?case by auto
next
  case (Suc n)
  show ?case
  proof (cases "\<exists>u. until = Some u \<and> u \<le> at + minute")
    case True
    with Suc.prems have "\<not> w" by (auto simp: Let_def split: if_splits)
    moreover from True obtain u where "until = Some u" "u \<le> at + minute" by blast
    ultimately show ?thesis
      by (auto intro!: exI [of _ 1])
  next
    case False
    with Suc.prems have a: "act (at + minute) = cur" and s: "scanMinutes n act until cur (at + minute) = (None, w)"
      by (auto simp: Let_def split: if_splits option.splits)
    have step: "act (at + j * minute) = cur"
      if "1 \<le> j" "j \<noteq> 1 \<longrightarrow> act (at + minute + (j - 1) * minute) = cur" for j
      using that a by (cases "j = 1") (simp_all add: algebra_simps)
    show ?thesis
    proof (cases w)
      case True
      with Suc.IH [OF s] have IH: "act (at + minute + j * minute) = cur"
        "\<forall>u. until = Some u \<longrightarrow> at + minute + j * minute < u" if "1 \<le> j" "j \<le> int n" for j
        using that by simp_all
      have "act (at + j * minute) = cur" if "1 \<le> j" "j \<le> int (Suc n)" for j
        using that IH(1) [of "j - 1"] by (intro step) auto
      moreover have "at + j * minute < u" if "1 \<le> j" "j \<le> int (Suc n)" "until = Some u" for j u
      proof (cases "j = 1")
        case True
        with False that show ?thesis by simp
      next
        case nj: False
        with that have "at + minute + (j - 1) * minute < u" by (intro IH(2) [rule_format]) auto
        then show ?thesis by (simp add: algebra_simps)
      qed
      ultimately show ?thesis using True by simp
    next
      case nw: False
      with Suc.IH [OF s] obtain k u where k: "1 \<le> k" "until = Some u" "u \<le> at + minute + k * minute"
        "\<forall>j. 1 \<le> j \<and> j < k \<longrightarrow> act (at + minute + j * minute) = cur" by auto
      have "act (at + j * minute) = cur" if "1 \<le> j" "j < k + 1" for j
        using that k(4) [rule_format, of "j - 1"] by (intro step) auto
      then have "\<forall>j. 1 \<le> j \<and> j < k + 1 \<longrightarrow> act (at + j * minute) = cur" by blast
      moreover have "u \<le> at + (k + 1) * minute" using k(3) by (simp add: algebra_simps)
      ultimately show ?thesis using nw k(1,2) by (auto intro!: exI [of _ "k + 1"])
    qed
  qed
qed

text \<open>
  The scan against a state \<open>f\<close> that depends on the minute only and agrees with \<open>act\<close> up to the
  bound: what it finds is the first difference, what it does not find is not there, and a scan
  of a whole week settles \<open>f\<close> for good when \<open>f\<close> repeats weekly.
\<close>

definition beforeBound :: "time option \<Rightarrow> time \<Rightarrow> bool" where
  "beforeBound until x \<longleftrightarrow> (\<forall>u. until = Some u \<longrightarrow> x < u)"

lemma beforeBound_simps [simp]:
  "beforeBound None x" "beforeBound (Some u) x \<longleftrightarrow> x < u"
  by (simp_all add: beforeBound_def)

lemma minute_of: "(x div minute) * minute \<le> x" "x < (x div minute) * minute + minute" for x :: int
proof -
  have "x = x div minute * minute + x mod minute" by simp
  moreover have "0 \<le> x mod minute" "x mod minute < minute" by simp_all
  ultimately show "(x div minute) * minute \<le> x" "x < (x div minute) * minute + minute" by linarith+
qed

lemma scan_points:
  assumes f: "\<And>x y. x div minute = y div minute \<Longrightarrow> f x = f y"
    and agree: "\<And>x. from \<le> x \<Longrightarrow> beforeBound until x \<Longrightarrow> act x = f x"
    and now: "f from = cur"
    and pts: "\<forall>j. 1 \<le> j \<and> j < k \<longrightarrow> act (truncateTo minute from + j * minute) = cur"
    and x: "from \<le> x" "beforeBound until x" "x < truncateTo minute from + k * minute"
  shows "act x = cur"
proof -
  define m where "m = from div minute"
  define j where "j = x div minute - m"
  have at: "truncateTo minute from = m * minute"
    by (simp add: truncateTo_minute m_def minus_mod_eq_div_mult)
  have "0 \<le> j" using x(1) by (simp add: j_def m_def zdiv_mono1)
  have xm: "x div minute * minute = m * minute + j * minute" by (simp add: j_def algebra_simps)
  show ?thesis
  proof (cases "j = 0")
    case True
    then have "x div minute = from div minute" by (simp add: j_def m_def)
    with f now have "f x = cur" by blast
    with agree x show ?thesis by simp
  next
    case False
    with \<open>0 \<le> j\<close> have j1: "1 \<le> j" by simp
    have "j * minute < k * minute" using minute_of(1) [of x] xm x(3) at by linarith
    then have jk: "j < k" by simp
    let ?p = "m * minute + j * minute"
    have p: "?p \<le> x" using minute_of(1) [of x] xm by simp
    have "from < m * minute + minute" using minute_of(2) [of "from"] by (simp add: m_def)
    then have "from \<le> ?p" using j1 by simp
    moreover have "beforeBound until ?p" using x(2) p by (auto simp: beforeBound_def)
    ultimately have "f ?p = cur" using agree [of ?p] pts j1 jk at by auto
    moreover have "?p div minute = x div minute" using xm by (metis nonzero_mult_div_cancel_right zero_neq_numeral)
    ultimately show ?thesis using f agree x by metis
  qed
qed

lemma scan_whole_week:
  assumes f: "\<And>x y. x div minute = y div minute \<Longrightarrow> f x = f y"
    and week: "\<And>x k. f (x + k * (minutesPerWeek * minute)) = f x"
    and pts: "\<forall>j. 1 \<le> j \<and> j \<le> int scanHorizon \<longrightarrow> f (truncateTo minute from + j * minute) = cur"
  shows "f x = cur"
proof -
  define m where "m = from div minute"
  have at: "truncateTo minute from = m * minute"
    by (simp add: truncateTo_minute m_def minus_mod_eq_div_mult)
  define d where "d = x div minute - m - 1"
  define q where "q = d div minutesPerWeek"
  define j where "j = d mod minutesPerWeek + 1"
  have j: "1 \<le> j" "j \<le> int scanHorizon"
    using pos_mod_bound [of minutesPerWeek d] by (auto simp: j_def)
  have "d = q * minutesPerWeek + (j - 1)" by (simp add: q_def j_def)
  then have "x div minute = m + j + q * minutesPerWeek" by (simp add: d_def)
  then have "x div minute * minute = (m * minute + j * minute) + q * (minutesPerWeek * minute)"
    by (simp add: algebra_simps)
  then have "f (x div minute * minute) = f (m * minute + j * minute)" using week by metis
  also have "\<dots> = cur" using pts j at by auto
  finally show ?thesis using f [of x "x div minute * minute"] by simp
qed

subsection \<open>The next change is the first one\<close>

definition noBoundIn :: "Timetable \<Rightarrow> time \<Rightarrow> time option \<Rightarrow> bool" where
  "noBoundIn tt from until \<longleftrightarrow> (\<forall>b \<in> set (allBounds tt). \<not> (from < b \<and> beforeBound until b))"

lemma allBounds_mem:
  assumes "ex \<in> set (ttExceptions tt)"
  shows "excFrom ex \<in> set (allBounds tt)" "excTo ex \<in> set (allBounds tt)"
    "excFrom ex - ttLead tt \<in> set (allBounds tt)" "excTo ex - ttLead tt \<in> set (allBounds tt)"
  using assms by (auto simp: allBounds_def)

lemma ActiveAt_in_segment:
  assumes n: "noBoundIn tt from until" and x: "from \<le> x" "beforeBound until x"
  shows "ActiveAt zi tt x = segmentState zi tt (exceptionAt tt from) (exceptionAt tt (from + ttLead tt)) x"
proof -
  have b: "\<not> (from < b \<and> b \<le> x)" if "b \<in> set (allBounds tt)" for b
    using n that x(2) by (fastforce simp: noBoundIn_def beforeBound_def)
  have "exceptionAt tt x = exceptionAt tt from"
    using x(1) b allBounds_mem by (intro exceptionAt_steady) blast+
  moreover have "exceptionAt tt (x + ttLead tt) = exceptionAt tt (from + ttLead tt)"
  proof (rule exceptionAt_steady)
    show "from + ttLead tt \<le> x + ttLead tt" using x(1) by simp
  next
    fix ex assume "ex \<in> set (ttExceptions tt)"
    from b [OF allBounds_mem(3) [OF this]] b [OF allBounds_mem(4) [OF this]]
    show "\<not> (from + ttLead tt < excFrom ex \<and> excFrom ex \<le> x + ttLead tt)"
      "\<not> (from + ttLead tt < excTo ex \<and> excTo ex \<le> x + ttLead tt)" by linarith+
  qed
  ultimately show ?thesis by (simp add: ActiveAt_segment)
qed

text \<open>What \<open>scheduleSteady\<close> stands for: without exceptions the state would never change.\<close>

definition steadyBase :: "zoneinfo \<Rightarrow> Timetable \<Rightarrow> bool" where
  "steadyBase zi tt \<longleftrightarrow> (\<forall>x y. segmentState zi tt None None x = segmentState zi tt None None y)"

lemma scheduleOnly_segment:
  assumes "scheduleOnlyAt tt from"
  shows "segmentState zi tt (exceptionAt tt from) (exceptionAt tt (from + ttLead tt)) x
           = segmentState zi tt None None x"
  using assms by (auto simp: scheduleOnlyAt_def segmentState_def)

lemma scanSegment_exact:
  assumes reg: "regular zi tt" and n: "noBoundIn tt from until"
    and now: "ActiveAt zi tt from = cur" and u: "beforeBound until from"
    and st: "steady \<Longrightarrow> steadyBase zi tt"
  shows "case scanSegment zi tt cur steady from until of
      Inl c \<Rightarrow> from < c \<and> beforeBound until c \<and> ActiveAt zi tt c \<noteq> cur
              \<and> (\<forall>x. from \<le> x \<and> x < c \<longrightarrow> ActiveAt zi tt x = cur)
    | Inr steady' \<Rightarrow> (\<forall>x. from \<le> x \<and> beforeBound until x \<longrightarrow> ActiveAt zi tt x = cur)
              \<and> (steady' \<longrightarrow> steadyBase zi tt)"
proof -
  define e1 where "e1 = exceptionAt tt from"
  define e2 where "e2 = exceptionAt tt (from + ttLead tt)"
  define f where "f = segmentState zi tt e1 e2"
  have agree: "ActiveAt zi tt x = f x" if "from \<le> x" "beforeBound until x" for x
    using ActiveAt_in_segment [OF n that] by (simp add: f_def e1_def e2_def)
  have fmin: "f x = f y" if "x div minute = y div minute" for x y
    unfolding f_def by (rule segmentState_minute [OF reg that])
  have fweek: "f (x + k * (minutesPerWeek * minute)) = f x" for x k
    unfolding f_def by (rule segmentState_week [OF reg])
  have fnow: "f from = cur" using agree u now by simp
  have at: "truncateTo minute from \<le> from" "from < truncateTo minute from + minute"
    using minute_of [of "from"] by (simp_all add: truncateTo_minute minus_mod_eq_div_mult)
  show ?thesis
  proof (cases "\<not> exceptionsDecide tt from \<and> (\<not> steady \<or> \<not> scheduleOnlyAt tt from)")
    case False
    have "f x = cur" for x
    proof (cases "exceptionsDecide tt from")
      case True
      then have "f x = f from"
        unfolding f_def e1_def e2_def exceptionsDecide_def by (intro segmentState_decided) auto
      with fnow show ?thesis by simp
    next
      case nd: False
      with False st have "steadyBase zi tt" "scheduleOnlyAt tt from" by auto
      then have "f x = f from"
        by (simp add: f_def e1_def e2_def scheduleOnly_segment steadyBase_def)
      with fnow show ?thesis by simp
    qed
    moreover from False have "scanSegment zi tt cur steady from until = Inr steady"
      by (auto simp: scanSegment_def Let_def)
    ultimately show ?thesis using agree st by simp
  next
    case True
    obtain r w where s: "scheduleChangeBefore zi tt from until cur = (r, w)" by fastforce
    note s' = s [unfolded scheduleChangeBefore_def]
    show ?thesis
    proof (cases r)
      case (Some c)
      with scanMinutes_found [of scanHorizon "ActiveAt zi tt" until cur "truncateTo minute from" c w] s'
      obtain k where k: "1 \<le> k" "c = truncateTo minute from + k * minute" "ActiveAt zi tt c \<noteq> cur"
        "beforeBound until c"
        "\<forall>j. 1 \<le> j \<and> j < k \<longrightarrow> ActiveAt zi tt (truncateTo minute from + j * minute) = cur"
        by (auto simp: beforeBound_def)
      have "from < c" using at(2) k(1,2) by simp
      moreover have "ActiveAt zi tt x = cur" if "from \<le> x" "x < c" for x
        using that k(2,4)
        by (intro scan_points [where f = f and until = until, OF fmin agree fnow k(5)]) (auto simp: beforeBound_def)
      ultimately show ?thesis
        using True s Some k by (simp add: scanSegment_def)
    next
      case None
      note sn = scanMinutes_none [of scanHorizon "ActiveAt zi tt" until cur "truncateTo minute from" w]
      show ?thesis
      proof (cases w)
        case False
        with sn s' None obtain k v where k: "until = Some v" "v \<le> truncateTo minute from + k * minute"
          "\<forall>j. 1 \<le> j \<and> j < k \<longrightarrow> ActiveAt zi tt (truncateTo minute from + j * minute) = cur"
          by auto
        have "ActiveAt zi tt x = cur" if "from \<le> x" "beforeBound until x" for x
          using that k(1,2) by (intro scan_points [where f = f and until = until, OF fmin agree fnow k(3)]) auto
        with True s None False st show ?thesis by (simp add: scanSegment_def)
      next
        case w: True
        with sn s' None have pts: "\<forall>j. 1 \<le> j \<and> j \<le> int scanHorizon \<longrightarrow>
            ActiveAt zi tt (truncateTo minute from + j * minute) = cur
            \<and> beforeBound until (truncateTo minute from + j * minute)"
          by (simp add: beforeBound_def)
        have "\<forall>j. 1 \<le> j \<and> j \<le> int scanHorizon \<longrightarrow> f (truncateTo minute from + j * minute) = cur"
        proof (intro allI impI)
          fix j assume j: "1 \<le> j \<and> j \<le> int scanHorizon"
          then have "from \<le> truncateTo minute from + j * minute" using at(2) by auto
          with pts j agree show "f (truncateTo minute from + j * minute) = cur" by metis
        qed
        then have all: "f x = cur" for x
          using scan_whole_week [of f "from" cur x] fmin fweek by blast
        have "steadyBase zi tt" if "scheduleOnlyAt tt from"
          unfolding steadyBase_def
          using all that by (simp add: f_def e1_def e2_def scheduleOnly_segment)
        with True s None all agree st show ?thesis by (auto simp: scanSegment_def)
      qed
    qed
  qed
qed

text \<open>\<open>r\<close> is the first instant from \<open>from\<close> on where \<open>act\<close> is not \<open>cur\<close>, if there is one.\<close>

definition firstDiff :: "(time \<Rightarrow> bool) \<Rightarrow> bool \<Rightarrow> time \<Rightarrow> time option \<Rightarrow> bool" where
  "firstDiff act cur from r \<longleftrightarrow>
     (case r of
        Some u \<Rightarrow> from \<le> u \<and> act u \<noteq> cur \<and> (\<forall>x. from \<le> x \<and> x < u \<longrightarrow> act x = cur)
      | None \<Rightarrow> (\<forall>x. from \<le> x \<longrightarrow> act x = cur))"

lemma firstDiff_earlier:
  assumes "firstDiff act cur b r" "from \<le> b" "\<And>x. from \<le> x \<Longrightarrow> x < b \<Longrightarrow> act x = cur"
  shows "firstDiff act cur from r"
proof (cases r)
  case None
  with assms(1) have late: "\<And>x. b \<le> x \<Longrightarrow> act x = cur"
    unfolding firstDiff_def by simp
  have "act x = cur" if "from \<le> x" for x
    using that late assms(3) by (cases "x < b") auto
  with None show ?thesis unfolding firstDiff_def by simp
next
  case (Some u)
  with assms(1) have u: "b \<le> u" "act u \<noteq> cur" "\<And>x. b \<le> x \<Longrightarrow> x < u \<Longrightarrow> act x = cur"
    unfolding firstDiff_def by auto
  have "act x = cur" if "from \<le> x" "x < u" for x
    using that u(3) assms(3) by (cases "x < b") auto
  with Some u(1,2) assms(2) show ?thesis unfolding firstDiff_def by auto
qed

lemma nextChangeLoop_exact:
  assumes reg: "regular zi tt" and now: "ActiveAt zi tt from = cur"
    and srt: "sorted bs" and ge: "\<forall>b \<in> set bs. from \<le> b"
    and all: "\<forall>b \<in> set (allBounds tt). from < b \<longrightarrow> b \<in> set bs"
    and st: "steady \<Longrightarrow> steadyBase zi tt"
  shows "firstDiff (ActiveAt zi tt) cur from (nextChangeLoop zi tt cur steady from bs)"
  using now srt ge all st
proof (induction bs arbitrary: "from" steady)
  case Nil
  then have "noBoundIn tt from None" by (auto simp: noBoundIn_def)
  then have seg: "case scanSegment zi tt cur steady from None of
      Inl c \<Rightarrow> from < c \<and> beforeBound None c \<and> ActiveAt zi tt c \<noteq> cur
              \<and> (\<forall>x. from \<le> x \<and> x < c \<longrightarrow> ActiveAt zi tt x = cur)
    | Inr steady' \<Rightarrow> (\<forall>x. from \<le> x \<and> beforeBound None x \<longrightarrow> ActiveAt zi tt x = cur)
              \<and> (steady' \<longrightarrow> steadyBase zi tt)"
    by (intro scanSegment_exact [OF reg _ Nil.prems(1) _ Nil.prems(5)]) simp_all
  show ?case
  proof (cases "scanSegment zi tt cur steady from None")
    case (Inl c)
    with seg show ?thesis by (auto simp: firstDiff_def)
  next
    case (Inr steady')
    with seg show ?thesis by (simp add: firstDiff_def)
  qed
next
  case (Cons b bs)
  show ?case
  proof (cases "from < b")
    case False
    with Cons.prems(3) have fb: "from = b" by auto
    have at: "from < truncateTo minute from + minute"
      using minute_of(2) [of "from"] by (simp add: truncateTo_minute minus_mod_eq_div_mult)
    have "scheduleChangeBefore zi tt from (Some b) cur = (None, False)"
      unfolding scheduleChangeBefore_def using at fb by (simp add: numeral_eq_Suc)
    then have s: "scanSegment zi tt cur steady from (Some b) = Inr steady"
      by (simp add: scanSegment_def Let_def)
    have "firstDiff (ActiveAt zi tt) cur b (nextChangeLoop zi tt cur steady b bs)"
      by (rule Cons.IH) (use Cons.prems fb in auto)
    moreover have "nextChangeLoop zi tt cur steady from (b # bs) = nextChangeLoop zi tt cur steady b bs"
      using s fb Cons.prems(1) by simp
    ultimately show ?thesis unfolding fb by (simp only:)
  next
    case True
    have "b \<le> c" if "c \<in> set (allBounds tt)" "from < c" for c
    proof -
      have "c \<in> set (b # bs)" using Cons.prems(4) that by blast
      with Cons.prems(2) show ?thesis by auto
    qed
    then have "noBoundIn tt from (Some b)"
      by (fastforce simp: noBoundIn_def)
    then have seg: "case scanSegment zi tt cur steady from (Some b) of
        Inl c \<Rightarrow> from < c \<and> beforeBound (Some b) c \<and> ActiveAt zi tt c \<noteq> cur
                \<and> (\<forall>x. from \<le> x \<and> x < c \<longrightarrow> ActiveAt zi tt x = cur)
      | Inr steady' \<Rightarrow> (\<forall>x. from \<le> x \<and> beforeBound (Some b) x \<longrightarrow> ActiveAt zi tt x = cur)
                \<and> (steady' \<longrightarrow> steadyBase zi tt)"
      using True by (intro scanSegment_exact [OF reg _ Cons.prems(1) _ Cons.prems(5)]) simp_all
    show ?thesis
    proof (cases "scanSegment zi tt cur steady from (Some b)")
      case (Inl c)
      with seg True show ?thesis by (auto simp: firstDiff_def)
    next
      case (Inr steady')
      with seg True have before: "\<And>x. from \<le> x \<Longrightarrow> x < b \<Longrightarrow> ActiveAt zi tt x = cur"
        and st': "steady' \<longrightarrow> steadyBase zi tt" by auto
      show ?thesis
      proof (cases "ActiveAt zi tt b = cur")
        case False
        with Inr True before show ?thesis by (simp add: firstDiff_def)
      next
        case eq: True
        have "firstDiff (ActiveAt zi tt) cur b (nextChangeLoop zi tt cur steady' b bs)"
          by (rule Cons.IH) (use Cons.prems True eq st' in auto)
        moreover have "nextChangeLoop zi tt cur steady from (b # bs) = nextChangeLoop zi tt cur steady' b bs"
          using Inr eq by simp
        ultimately show ?thesis
          using firstDiff_earlier [OF _ less_imp_le [OF True] before] by simp
      qed
    qed
  qed
qed

lemma NextChange_exact:
  assumes reg: "regular zi tt"
  shows "case NextChange zi tt t of
      Some u \<Rightarrow> t < u \<and> ActiveAt zi tt u \<noteq> ActiveAt zi tt t
              \<and> (\<forall>x. t \<le> x \<and> x < u \<longrightarrow> ActiveAt zi tt x = ActiveAt zi tt t)
    | None \<Rightarrow> (\<forall>x. t \<le> x \<longrightarrow> ActiveAt zi tt x = ActiveAt zi tt t)"
proof (cases "\<not> hasUsableSchedule (ttSchedules tt) \<and> ttExceptions tt = []")
  case True
  then have "ActiveAt zi tt x" for x
    by (simp add: ActiveAt_def activeWithoutLead_def exceptionAt_def scheduleLoop_unusable)
  with True show ?thesis by (simp add: NextChange_def)
next
  case False
  have st: "\<not> hasUsableSchedule (ttSchedules tt) \<Longrightarrow> steadyBase zi tt"
    by (simp add: steadyBase_def segmentState_def valueOr_def scheduleLoop_unusable)
  have "firstDiff (ActiveAt zi tt) (ActiveAt zi tt t) t
      (nextChangeLoop zi tt (ActiveAt zi tt t) (\<not> hasUsableSchedule (ttSchedules tt)) t (boundsAfter tt t))"
    by (rule nextChangeLoop_exact [OF reg refl _ _ _ st]) (auto simp: boundsAfter_def)
  moreover have "NextChange zi tt t =
      nextChangeLoop zi tt (ActiveAt zi tt t) (\<not> hasUsableSchedule (ttSchedules tt)) t (boundsAfter tt t)"
    using False by (auto simp: NextChange_def Let_def)
  ultimately have r: "firstDiff (ActiveAt zi tt) (ActiveAt zi tt t) t (NextChange zi tt t)"
    by (simp only:)
  show ?thesis
  proof (cases "NextChange zi tt t")
    case None
    from r show ?thesis unfolding None firstDiff_def option.case .
  next
    case (Some u)
    from r have c: "t \<le> u" "ActiveAt zi tt u \<noteq> ActiveAt zi tt t"
      "\<forall>x. t \<le> x \<and> x < u \<longrightarrow> ActiveAt zi tt x = ActiveAt zi tt t"
      unfolding Some firstDiff_def option.case by blast+
    then have "t < u" by (metis order_le_less)
    with c show ?thesis unfolding Some option.case by blast
  qed
qed

subsection \<open>Properties\<close>

text \<open>The exception in force is the one that began last among those covering the instant,
  and of those with the same start the last of the list; there is none exactly if no exception
  covers the instant, its start included and its end excluded.\<close>

theorem exceptionAt_began_last:
  "case exceptionAt tt t of
     None \<Rightarrow> (\<forall>ex \<in> set (ttExceptions tt). \<not> (excFrom ex \<le> t \<and> t < excTo ex))
   | Some ex \<Rightarrow> (\<exists>xs ys. ttExceptions tt = xs @ ex # ys
       \<and> excFrom ex \<le> t \<and> t < excTo ex
       \<and> (\<forall>e \<in> set xs. excFrom e \<le> t \<and> t < excTo e \<longrightarrow> excFrom e \<le> excFrom ex)
       \<and> (\<forall>e \<in> set ys. excFrom e \<le> t \<and> t < excTo e \<longrightarrow> excFrom e < excFrom ex))"
proof (cases "exceptionAt tt t")
  case None
  with exceptionAt_None [of tt t] show ?thesis unfolding None option.case covers_def by simp
next
  case (Some ex)
  from exceptionAt_Some [OF Some] show ?thesis unfolding Some option.case covers_def by blast
qed

lemma exceptionAt_began_last_witness:
  "exceptionAt \<lparr>ttSchedules = [],
      ttExceptions = [\<lparr>excName = ''a'', excFrom = 0, excTo = 9, excActive = True\<rparr>,
                      \<lparr>excName = ''b'', excFrom = 3, excTo = 5, excActive = False\<rparr>], ttLead = 0\<rparr> 4
     = Some \<lparr>excName = ''b'', excFrom = 3, excTo = 5, excActive = False\<rparr>
   \<and> (\<exists>xs ys. [\<lparr>excName = ''a'', excFrom = 0, excTo = 9, excActive = True\<rparr>,
              \<lparr>excName = ''b'', excFrom = 3, excTo = 5, excActive = False\<rparr>]
          = xs @ \<lparr>excName = ''b'', excFrom = 3, excTo = 5, excActive = False\<rparr> # ys)"
  using exceptionAt_began_last [of "\<lparr>ttSchedules = [],
      ttExceptions = [\<lparr>excName = ''a'', excFrom = 0, excTo = 9, excActive = True\<rparr>,
                      \<lparr>excName = ''b'', excFrom = 3, excTo = 5, excActive = False\<rparr>], ttLead = 0\<rparr>" 4]
  by (auto simp: exceptionAt_def laterException_def)

text \<open>Every exception an object or a calendar declares is accounted for: an object's own
  exceptions and the days of the calendars it names each give exactly one interval or one
  problem, a calendar that does not exist one problem, and every interval has its start before
  its end.\<close>

theorem ResolveExceptions_accounts:
  "(let (out, problems) = ResolveExceptions zi own names calendars zone
    in length out + length problems =
         length own + sum_list (map (\<lambda>n. case find (\<lambda>c. calName c = n) calendars of
                                       None \<Rightarrow> 1 | Some cal \<Rightarrow> length (calDays cal)) names)
     \<and> (\<forall>ex \<in> set out. excFrom ex < excTo ex))"
proof -
  have len: "length (fst (calendarLoop zi calendars zone names)) + length (snd (calendarLoop zi calendars zone names))
      = sum_list (map (\<lambda>n. case find (\<lambda>c. calName c = n) calendars of
                             None \<Rightarrow> 1 | Some cal \<Rightarrow> length (calDays cal)) names)"
  proof (induction names)
    case (Cons n names)
    show ?case
    proof (cases "find (\<lambda>c. calName c = n) calendars")
      case None
      with Cons show ?thesis by (auto simp: Let_def split: prod.splits)
    next
      case (Some cal)
      with Cons collect_length [of "\<lambda>day. resolveException zi (calendarException cal day) zone" "calDays cal"]
      show ?thesis by (auto simp: Let_def split: prod.splits)
    qed
  qed simp
  have own: "ex \<in> set (fst (collect (\<lambda>se. resolveException zi se zone) own)) \<Longrightarrow> excFrom ex < excTo ex" for ex
    by (auto simp: collect_in dest: resolveException_ok)
  show ?thesis
    using len collect_length [of "\<lambda>se. resolveException zi se zone" own] own
      calendarLoop_intervals [of _ zi calendars zone names]
    by (auto simp: ResolveExceptions_def Let_def split: prod.splits)
qed

lemma ResolveExceptions_accounts_witness:
  "length (fst (ResolveExceptions \<lparr>zoneLoad = \<lambda>_. None, zoneLocal = \<lambda>_. 0\<rparr> [] [''x''] [] ''UTC''))
   + length (snd (ResolveExceptions \<lparr>zoneLoad = \<lambda>_. None, zoneLocal = \<lambda>_. 0\<rparr> [] [''x''] [] ''UTC'')) = 1"
  using ResolveExceptions_accounts [of "\<lparr>zoneLoad = \<lambda>_. None, zoneLocal = \<lambda>_. 0\<rparr>" "[]" "[''x'']" "[]" "''UTC''"]
  by (simp add: Let_def split: prod.splits)

end
