(* ===== verification/Intervals.thy ===== *)
theory Intervals
  imports Timetable
begin

section \<open>The interface of a timetable and its intervals (internal/scaling/exceptions.go)\<close>

text \<open>
  What the decisions, the previews and the controllers use of a timetable is its state at an
  instant and its next change. The locale \<open>change_search\<close> is that interface: the search
  finds the first instant of a different state, or says that there is none. It is interpreted
  by \<open>ActiveAt\<close> and \<open>NextChange\<close>; the split of a period into intervals is shown to tile the
  period with stretches of one state through the facts of the interface only.
\<close>

locale change_search =
  fixes good :: "'e \<Rightarrow> 'tt \<Rightarrow> bool"
    and active_at :: "'e \<Rightarrow> 'tt \<Rightarrow> time \<Rightarrow> bool"
    and next_change :: "'e \<Rightarrow> 'tt \<Rightarrow> time \<Rightarrow> time option"
  assumes found: "good e tt \<Longrightarrow> next_change e tt t = Some u \<Longrightarrow>
      t < u \<and> active_at e tt u \<noteq> active_at e tt t
      \<and> (\<forall>x. t \<le> x \<and> x < u \<longrightarrow> active_at e tt x = active_at e tt t)"
    and never: "good e tt \<Longrightarrow> next_change e tt t = None \<Longrightarrow> t \<le> x
      \<Longrightarrow> active_at e tt x = active_at e tt t"
begin

lemma later: "good e tt \<Longrightarrow> next_change e tt t = Some u \<Longrightarrow> t < u"
  using found by blast

lemma flips: "good e tt \<Longrightarrow> next_change e tt t = Some u \<Longrightarrow> active_at e tt u = (\<not> active_at e tt t)"
  using found by blast

lemma steady:
  assumes "good e tt" "t \<le> x" "\<And>u. next_change e tt t = Some u \<Longrightarrow> x < u"
  shows "active_at e tt x = active_at e tt t"
proof (cases "next_change e tt t")
  case None
  show ?thesis by (rule never [OF assms(1) None assms(2)])
next
  case (Some u)
  with assms found [OF assms(1) Some] show ?thesis by blast
qed

text \<open>Asked again at any later time before the change, the answer is the same change.\<close>

lemma unchanged_until:
  assumes g: "good e tt" and u: "next_change e tt t = Some u" and s: "t \<le> s" "s < u"
  shows "next_change e tt s = Some u"
proof -
  have same: "active_at e tt s = active_at e tt t" using found [OF g u] s by blast
  have fl: "active_at e tt u = (\<not> active_at e tt t)" by (rule flips [OF g u])
  show ?thesis
  proof (cases "next_change e tt s")
    case None
    from never [OF g None less_imp_le [OF s(2)]] same fl show ?thesis by simp
  next
    case (Some v)
    note v = found [OF g Some]
    have "\<not> v < u"
      using found [OF g u] v s(1) same by (meson order_le_less_trans less_imp_le)
    moreover have "\<not> u < v" using v s(2) same fl by (meson less_imp_le)
    ultimately show ?thesis using Some by simp
  qed
qed

lemma changes_iff:
  assumes g: "good e tt"
  shows "next_change e tt t \<noteq> None \<longleftrightarrow> (\<exists>x \<ge> t. active_at e tt x \<noteq> active_at e tt t)"
proof (cases "next_change e tt t")
  case None
  then show ?thesis using never [OF g None] by blast
next
  case (Some u)
  then show ?thesis using found [OF g Some] less_imp_le by blast
qed

end

interpretation tt: change_search regular ActiveAt NextChange
proof
  fix zi tt t u
  assume "regular zi tt" and s: "NextChange zi tt t = Some u"
  from NextChange_exact [OF this(1), of t]
  show "t < u \<and> ActiveAt zi tt u \<noteq> ActiveAt zi tt t
      \<and> (\<forall>x. t \<le> x \<and> x < u \<longrightarrow> ActiveAt zi tt x = ActiveAt zi tt t)"
    unfolding s option.case .
next
  fix zi tt t x
  assume "regular zi tt" and s: "NextChange zi tt t = None" and le: "(t::time) \<le> x"
  from NextChange_exact [OF this(1), of t] le
  show "ActiveAt zi tt x = ActiveAt zi tt t" unfolding s option.case by blast
qed

subsection \<open>Intervals tile the period\<close>

text \<open>Consecutive nonempty intervals from \<open>a\<close> to \<open>b\<close>.\<close>

fun tiles :: "time \<Rightarrow> Interval list \<Rightarrow> time \<Rightarrow> bool" where
  "tiles a [] b \<longleftrightarrow> a = b"
| "tiles a (iv # ivs) b \<longleftrightarrow> ivFrom iv = a \<and> a < ivTo iv \<and> tiles (ivTo iv) ivs b"

lemma tiles_le: "tiles a ivs b \<Longrightarrow> a \<le> b"
  by (induction ivs arbitrary: a) (auto, fastforce)

lemma tiles_sum: "tiles a ivs b \<Longrightarrow> sum_list (map (\<lambda>iv. ivTo iv - ivFrom iv) ivs) = b - a"
  by (induction ivs arbitrary: a) auto

lemma tiles_positive: "tiles a ivs b \<Longrightarrow> iv \<in> set ivs \<Longrightarrow> ivFrom iv < ivTo iv"
  by (induction ivs arbitrary: a) auto

lemma prewarmEnd_bounds:
  "a < at \<Longrightarrow> a < end \<Longrightarrow> a < prewarmEnd zi tt start end at \<and> prewarmEnd zi tt start end at \<le> end"
proof (induction zi tt start "end" at rule: prewarmEnd.induct)
  case (1 zi tt start "end" at)
  then show ?case by (subst (1 2) prewarmEnd.simps) auto
qed

lemma foldl_pick_bounds:
  "(a::int) < e \<Longrightarrow> e \<le> t \<Longrightarrow>
     a < foldl (\<lambda>e b. if a < b \<and> b < e \<and> P b then b else e) e bs
     \<and> foldl (\<lambda>e b. if a < b \<and> b < e \<and> P b then b else e) e bs \<le> e"
proof (induction bs arbitrary: e)
  case (Cons b bs)
  have "a < (if a < b \<and> b < e \<and> P b then b else e)" "(if a < b \<and> b < e \<and> P b then b else e) \<le> e"
    using Cons.prems by auto
  with Cons.IH [of "if a < b \<and> b < e \<and> P b then b else e"] Cons.prems show ?case
    unfolding foldl.simps by linarith
qed simp

lemma after_truncated_minute: "t < truncateTo minute t + minute"
  using minute_of(2) [of t] by (simp add: truncateTo_minute minus_mod_eq_div_mult)

lemma intervalEnd_props:
  assumes reg: "regular zi tt" and less: "start < to"
  shows "start < intervalEnd zi tt to start" "intervalEnd zi tt to start \<le> to"
    and "\<And>x. start \<le> x \<Longrightarrow> x < intervalEnd zi tt to start \<Longrightarrow> ActiveAt zi tt x = ActiveAt zi tt start"
proof -
  define e0 where "e0 = (case NextChange zi tt start of Some n \<Rightarrow> if n < to then n else to | None \<Rightarrow> to)"
  have e0: "start < e0" "e0 \<le> to"
    using tt.later [OF reg, of start] less by (auto simp: e0_def split: option.splits)
  define e1 where "e1 = foldl (\<lambda>end b. if start < b \<and> b < end \<and> reasonAt zi tt b \<noteq> reasonAt zi tt start then b else end)
      e0 (concat (map (\<lambda>ex. [excFrom ex, excTo ex]) (ttExceptions tt)))"
  have e1: "start < e1" "e1 \<le> e0"
    using foldl_pick_bounds [OF e0, of "\<lambda>b. reasonAt zi tt b \<noteq> reasonAt zi tt start"]
    unfolding e1_def by auto
  have ie: "intervalEnd zi tt to start =
      (if reasonAt zi tt start = ReasonPrewarm
       then prewarmEnd zi tt start e1 (truncateTo minute start + minute) else e1)"
    by (simp add: intervalEnd_def Let_def e1_def e0_def)
  have b: "start < intervalEnd zi tt to start" "intervalEnd zi tt to start \<le> e1"
    using prewarmEnd_bounds [OF after_truncated_minute e1(1)] e1(1) unfolding ie by auto
  then show "start < intervalEnd zi tt to start" "intervalEnd zi tt to start \<le> to"
    using e1 e0 by auto
  show "ActiveAt zi tt x = ActiveAt zi tt start"
    if "start \<le> x" "x < intervalEnd zi tt to start" for x
  proof (rule tt.steady [OF reg that(1)])
    fix u assume "NextChange zi tt start = Some u"
    then have "e0 \<le> u" by (auto simp: e0_def)
    then show "x < u" using that(2) b(2) e1(2) by linarith
  qed
qed

lemma intervalsLoop_tiles:
  assumes reg: "regular zi tt"
  shows "start \<le> to \<Longrightarrow> \<exists>e. tiles start (intervalsLoop n zi tt to start) e \<and> e \<le> to
     \<and> (length (intervalsLoop n zi tt to start) < n \<longrightarrow> e = to)
     \<and> (\<forall>iv \<in> set (intervalsLoop n zi tt to start).
          \<forall>x. ivFrom iv \<le> x \<and> x < ivTo iv \<longrightarrow> ActiveAt zi tt x = ivActive iv)"
proof (induction n arbitrary: start)
  case 0
  then show ?case by auto
next
  case (Suc n)
  show ?case
  proof (cases "start < to")
    case False
    with Suc.prems show ?thesis by auto
  next
    case True
    note p = intervalEnd_props [OF reg True]
    define m where "m = intervalEnd zi tt to start"
    define iv where "iv = \<lparr>ivFrom = start, ivTo = m, ivActive = ActiveAt zi tt start,
      ivReason = reasonAt zi tt start\<rparr>"
    have eq: "intervalsLoop (Suc n) zi tt to start = iv # intervalsLoop n zi tt to m"
      using True by (simp add: m_def iv_def Let_def)
    have iv: "ivFrom iv = start" "start < ivTo iv" "ivTo iv = m"
      using p(1) by (simp_all add: iv_def m_def)
    have state: "\<forall>x. ivFrom iv \<le> x \<and> x < ivTo iv \<longrightarrow> ActiveAt zi tt x = ivActive iv"
      using p(3) unfolding iv_def m_def Interval.select_convs by blast
    from Suc.IH [OF p(2)] obtain e where e: "tiles m (intervalsLoop n zi tt to m) e" "e \<le> to"
      "length (intervalsLoop n zi tt to m) < n \<longrightarrow> e = to"
      "\<forall>iv \<in> set (intervalsLoop n zi tt to m).
          \<forall>x. ivFrom iv \<le> x \<and> x < ivTo iv \<longrightarrow> ActiveAt zi tt x = ivActive iv"
      unfolding m_def by blast
    show ?thesis
      unfolding eq
    proof (intro exI [of _ e] conjI)
      show "tiles start (iv # intervalsLoop n zi tt to m) e" using e(1) iv by simp
      show "e \<le> to" by (rule e(2))
      show "length (iv # intervalsLoop n zi tt to m) < Suc n \<longrightarrow> e = to" using e(3) by simp
      show "\<forall>iv \<in> set (iv # intervalsLoop n zi tt to m).
          \<forall>x. ivFrom iv \<le> x \<and> x < ivTo iv \<longrightarrow> ActiveAt zi tt x = ivActive iv"
        unfolding list.set ball_simps using e(4) state by blast
    qed
  qed
qed

lemma sum_filter_bounds:
  "(\<forall>iv \<in> set ivs. 0 \<le> (f iv :: int)) \<Longrightarrow>
     0 \<le> sum_list (map f (filter P ivs)) \<and> sum_list (map f (filter P ivs)) \<le> sum_list (map f ivs)"
  by (induction ivs) auto

subsection \<open>Properties\<close>

text \<open>Zones and a timetable for concrete checks: up from three minutes past midnight, UTC, until
  noon on Thursdays.\<close>

definition utcZones :: zoneinfo where
  "utcZones = \<lparr>zoneLoad = \<lambda>n. if n = ''UTC'' then Some (\<lambda>_. 0) else None, zoneLocal = \<lambda>_. 0\<rparr>"

definition thursdaySchedule :: ScalingSchedule where
  "thursdaySchedule = \<lparr>Days = [4], StartDay = None, EndDay = None, StartTime = ''00:03'',
                       EndTime = ''12:00'', Timezone = ''UTC''\<rparr>"

definition thursdayTable :: Timetable where
  "thursdayTable = \<lparr>ttSchedules = [thursdaySchedule], ttExceptions = [], ttLead = 0\<rparr>"

lemma thursdayWindow: "parseWindow thursdaySchedule = Some [\<lparr>winStart = 5763, winEnd = 6480\<rparr>]"
  by (simp add: parseWindow_def thursdaySchedule_def parseMinutes_def minuteDigits_def
      hourDigits_def isDigit_def digitVal_def Let_def dailyWindow_def isWeekday_def)

lemma thursday_ActiveAt:
  "ActiveAt utcZones thursdayTable t \<longleftrightarrow>
     5763 \<le> weekMinute (\<lambda>_. 0) t \<and> weekMinute (\<lambda>_. 0) t \<le> 6480"
proof -
  have "Timezone thursdaySchedule = ''UTC''" by (simp add: thursdaySchedule_def)
  then show ?thesis
    by (simp add: ActiveAt_def activeWithoutLead_def exceptionAt_def thursdayTable_def thursdayWindow
        multiContains_def windowContains_def utcZones_def loadLocation_def)
qed

lemma thursday_morning:
  "\<not> ActiveAt utcZones thursdayTable 0" "\<not> ActiveAt utcZones thursdayTable minute"
  "\<not> ActiveAt utcZones thursdayTable (2 * minute)" "ActiveAt utcZones thursdayTable (3 * minute)"
  by (simp_all add: thursday_ActiveAt weekMinute_def weekdayIn_def hourIn_def minuteIn_def localSeconds_def)

lemma regular_thursdayTable: "regular utcZones thursdayTable"
  by (simp add: regular_def zonesFixed_def thursdayTable_def thursdaySchedule_def utcZones_def loadLocation_def)

lemma scanMinutes_numeral:
  "scanMinutes (numeral k) act until cur at =
     (let at' = at + minute
      in if (case until of None \<Rightarrow> False | Some u \<Rightarrow> \<not> at' < u) then (None, False)
         else if act at' \<noteq> cur then (Some at', False)
         else scanMinutes (pred_numeral k) act until cur at')"
  unfolding numeral_eq_Suc [of k] by (rule scanMinutes.simps(2))

lemma NextChange_thursday: "NextChange utcZones thursdayTable 0 = Some (3 * minute)"
proof -
  have "scheduleChangeBefore utcZones thursdayTable 0 None False = (Some (3 * minute), False)"
    using thursday_morning
    by (simp add: scheduleChangeBefore_def truncateTo_minute scanMinutes_numeral Let_def)
  moreover have "ttExceptions thursdayTable = []" "ttLead thursdayTable = 0"
    by (simp_all add: thursdayTable_def)
  moreover have "hasUsableSchedule (ttSchedules thursdayTable)"
    by (simp add: hasUsableSchedule_def thursdayTable_def thursdayWindow)
  ultimately show ?thesis
    using thursday_morning(1)
    by (simp add: NextChange_def boundsAfter_def allBounds_def scanSegment_def scheduleOnlyAt_def
        exceptionsDecide_def exceptionAt_def)
qed

text \<open>C1. In time zones with a fixed offset, the next change a timetable announces is exact: it
  lies after the instant asked about, the state differs there, and it is the same at every
  earlier instant since; asked again in between, the answer is the same change. When no change
  is announced, the state never changes again.\<close>

theorem NextChange_first:
  assumes "regular zi tt"
  shows "case NextChange zi tt t of
      Some u \<Rightarrow> t < u \<and> ActiveAt zi tt u = (\<not> ActiveAt zi tt t)
        \<and> (\<forall>x. t \<le> x \<and> x < u \<longrightarrow> ActiveAt zi tt x = ActiveAt zi tt t \<and> NextChange zi tt x = Some u)
    | None \<Rightarrow> (\<forall>x. t \<le> x \<longrightarrow> ActiveAt zi tt x = ActiveAt zi tt t)"
proof (cases "NextChange zi tt t")
  case None
  show ?thesis unfolding None option.case
    by (intro allI impI) (rule tt.never [OF assms None])
next
  case (Some u)
  have "ActiveAt zi tt x = ActiveAt zi tt t" if "t \<le> x" "x < u" for x
    by (rule tt.steady [OF assms that(1)]) (use Some that in simp)
  with Some tt.later [OF assms Some] tt.flips [OF assms Some] tt.unchanged_until [OF assms Some]
  show ?thesis unfolding Some option.case by blast
qed

lemma NextChange_first_witness:
  "NextChange utcZones thursdayTable 0 = Some (3 * minute)
   \<and> ActiveAt utcZones thursdayTable (3 * minute) = (\<not> ActiveAt utcZones thursdayTable 0)
   \<and> NextChange utcZones thursdayTable minute = Some (3 * minute)"
proof -
  note f = NextChange_first [OF regular_thursdayTable, of 0, unfolded NextChange_thursday option.case]
  have m: "0 \<le> minute \<and> minute < 3 * minute" by simp
  from f m NextChange_thursday show ?thesis by blast
qed

text \<open>\<open>Intervals\<close> splits a period into consecutive nonempty stretches from its start that
  never reach past its end and cover all of it unless the bound of 2000 was reached; at every
  instant of a stretch the timetable is in the state the stretch reports.\<close>

theorem Intervals_tile:
  assumes "regular zi tt" "from \<le> to"
  shows "\<exists>e. tiles from (Intervals zi tt from to) e \<and> e \<le> to
     \<and> (length (Intervals zi tt from to) < maxIntervals \<longrightarrow> e = to)
     \<and> (\<forall>iv \<in> set (Intervals zi tt from to).
          \<forall>x. ivFrom iv \<le> x \<and> x < ivTo iv \<longrightarrow> ActiveAt zi tt x = ivActive iv)"
  unfolding Intervals_def by (rule intervalsLoop_tiles [OF assms])

lemma Intervals_tile_witness:
  "\<exists>e. tiles 0 (Intervals utcZones thursdayTable 0 minute) e \<and> e \<le> minute"
  using Intervals_tile [OF regular_thursdayTable, of 0 minute] by auto

text \<open>The share of a period in which a timetable keeps its target up is a fraction between
  zero and one.\<close>

theorem ActiveShare_fraction:
  assumes "regular zi tt"
  shows "case ActiveShare zi tt from to of (up, period) \<Rightarrow> 0 < period \<and> 0 \<le> up \<and> up \<le> period"
proof (cases "from < to")
  case False
  then show ?thesis by (simp add: ActiveShare_def)
next
  case True
  let ?ivs = "Intervals zi tt from to"
  obtain e where e: "tiles from ?ivs e" "e \<le> to"
    using intervalsLoop_tiles [OF assms less_imp_le [OF True]] unfolding Intervals_def by blast
  have "\<forall>iv \<in> set ?ivs. 0 \<le> ivTo iv - ivFrom iv" using tiles_positive [OF e(1)] by fastforce
  from sum_filter_bounds [OF this, of ivActive] tiles_sum [OF e(1)] e(2) True
  show ?thesis by (auto simp: ActiveShare_def)
qed

lemma ActiveShare_fraction_witness:
  "case ActiveShare utcZones thursdayTable 0 minute of (up, period) \<Rightarrow> 0 < period \<and> 0 \<le> up \<and> up \<le> period"
  by (rule ActiveShare_fraction [OF regular_thursdayTable])

end
