(* ===== verification/Decision.thy ===== *)
theory Decision
  imports Intervals
begin

section \<open>Decisions (internal/scaling/decision.go, idle.go)\<close>

text \<open>
  \<open>Decide\<close> resolves the desired state of a target from the legacy annotation, the manual
  override and the timetable, with the reason and the time of the next change. Its state over
  time and its \<open>NextTransition\<close> are again an instance of the interface \<open>change_search\<close>: the
  announced transition is the first instant at which a later decision differs. \<open>ApplyIdle\<close>
  puts an unused target to sleep on top of it.
\<close>

abbreviation prewarmMargin :: duration where "prewarmMargin \<equiv> minute"
abbreviation maxAutoPrewarm :: duration where "maxAutoPrewarm \<equiv> 30 * minute"
abbreviation LegacyOverrideAnnotation :: string where
  "LegacyOverrideAnnotation \<equiv> ''costdeck.io/manual-override''"

subsection \<open>The prewarm lead\<close>

definition slowestWakeUp :: "WakeUp list \<Rightarrow> duration" where
  "slowestWakeUp recent = foldl (\<lambda>slowest w. max slowest (i64 (Seconds w * second))) 0 recent"

definition PrewarmLead :: "Prewarm option \<Rightarrow> WakeUp list \<Rightarrow> duration" where
  "PrewarmLead p recent =
     (case p of
        None \<Rightarrow> 0
      | Some p \<Rightarrow>
          (let fixed = i64 (Minutes p * minute)
           in if \<not> Auto p \<or> recent = [] then fixed
              else min (i64 (durTruncate minute (i64 (slowestWakeUp recent + minute - 1)) + prewarmMargin))
                       maxAutoPrewarm))"

subsection \<open>Decide\<close>

record Decision =
  dActive :: bool
  dMode :: mode
  dOverrideExpiresAt :: "time option"
  dNextTransition :: "time option"
  dException :: string
  dExceptionEndsAt :: "time option"
  dPrewarmLead :: duration

text \<open>A decision with only the state, the mode and the next transition set.\<close>

definition plainDecision :: "bool \<Rightarrow> mode \<Rightarrow> time option \<Rightarrow> Decision" where
  "plainDecision active m next =
     \<lparr>dActive = active, dMode = m, dOverrideExpiresAt = None, dNextTransition = next,
      dException = [], dExceptionEndsAt = None, dPrewarmLead = 0\<rparr>"

lemma plainDecision_simps [simp]:
  "dActive (plainDecision a m n) = a" "dMode (plainDecision a m n) = m"
  "dNextTransition (plainDecision a m n) = n" "dOverrideExpiresAt (plainDecision a m n) = None"
  "dException (plainDecision a m n) = []" "dExceptionEndsAt (plainDecision a m n) = None"
  "dPrewarmLead (plainDecision a m n) = 0"
  by (simp_all add: plainDecision_def)

definition State :: "Decision \<Rightarrow> string" where
  "State d = (if dActive d then StateUp else StateDown)"

definition manualMode :: "bool \<Rightarrow> mode" where
  "manualMode active = (if active then ModeManualUp else ModeManualDown)"

definition legacyOverride :: "(string \<rightharpoonup> string) \<Rightarrow> bool option" where
  "legacyOverride annotations =
     (case annotations LegacyOverrideAnnotation of
        Some v \<Rightarrow> if v = ''ScaledUp'' then Some True else if v = ''ScaledDown'' then Some False else None
      | None \<Rightarrow> None)"

definition decide ::
    "zoneinfo \<Rightarrow> time \<Rightarrow> Timetable \<Rightarrow> bool option \<Rightarrow> time option \<Rightarrow> (string \<rightharpoonup> string) \<Rightarrow> Decision" where
  "decide zi now tt active activeUntil annotations =
     (case legacyOverride annotations of
        Some legacy \<Rightarrow> plainDecision legacy (manualMode legacy) None
      | None \<Rightarrow>
     (case EffectiveOverride active activeUntil now of
        Some override \<Rightarrow>
          (let d = plainDecision override (manualMode override) None
           in case activeUntil of
                None \<Rightarrow> d
              | Some expiry \<Rightarrow>
                  if isZero expiry then d
                  else d\<lparr>dOverrideExpiresAt := Some expiry,
                         dNextTransition := (if ActiveAt zi tt expiry \<noteq> override then Some expiry
                                             else NextChange zi tt expiry)\<rparr>)
      | None \<Rightarrow>
          if prewarming zi tt now then plainDecision True ModePrewarm (NextChange zi tt now)
          else (case exceptionAt tt now of
                  Some ex \<Rightarrow>
                    (plainDecision (excActive ex) ModeException (NextChange zi tt now))
                      \<lparr>dException := excName ex, dExceptionEndsAt := Some (excTo ex)\<rparr>
                | None \<Rightarrow>
                    plainDecision (ActiveAt zi tt now)
                      (if hasUsableSchedule (ttSchedules tt) then ModeSchedule else ModeAlwaysOn)
                      (NextChange zi tt now))))"

definition Decide ::
    "zoneinfo \<Rightarrow> time \<Rightarrow> Timetable \<Rightarrow> bool option \<Rightarrow> time option \<Rightarrow> (string \<rightharpoonup> string) \<Rightarrow> Decision" where
  "Decide zi now tt active activeUntil annotations =
     (decide zi now tt active activeUntil annotations)\<lparr>dPrewarmLead := ttLead tt\<rparr>"

definition NextScheduleChange :: "zoneinfo \<Rightarrow> time \<Rightarrow> ScalingSchedule list \<Rightarrow> time option" where
  "NextScheduleChange zi now schedules =
     NextChange zi \<lparr>ttSchedules = schedules, ttExceptions = [], ttLead = 0\<rparr> now"

lemma Decide_simps [simp]:
  "dActive (Decide zi t tt a u ann) = dActive (decide zi t tt a u ann)"
  "dMode (Decide zi t tt a u ann) = dMode (decide zi t tt a u ann)"
  "dNextTransition (Decide zi t tt a u ann) = dNextTransition (decide zi t tt a u ann)"
  "dPrewarmLead (Decide zi t tt a u ann) = ttLead tt"
  by (simp_all add: Decide_def)

subsection \<open>Idle auto-sleep\<close>

definition ApplyIdle :: "Decision \<Rightarrow> time option \<Rightarrow> time \<Rightarrow> (time \<Rightarrow> Decision) \<Rightarrow> Decision" where
  "ApplyIdle d idleUntil now at =
     (case idleUntil of
        None \<Rightarrow> d
      | Some until \<Rightarrow>
          if \<not> now < until \<or> dMode d \<noteq> ModeSchedule \<or> \<not> dActive d then d
          else (let atEnd = at until
                in plainDecision False ModeIdle
                     (if \<not> dActive atEnd then dNextTransition atEnd else Some until)))"

definition IdleUntil :: "ScheduleStatus \<Rightarrow> time option" where
  "IdleUntil st = ssIdleUntil st"

definition IdleFor :: "duration \<Rightarrow> time \<Rightarrow> time \<Rightarrow> bool \<Rightarrow> bool \<Rightarrow> bool" where
  "IdleFor period upSince now used known \<longleftrightarrow>
     0 < period \<and> known \<and> \<not> used \<and> \<not> isZero upSince \<and> period \<le> now - upSince"

subsection \<open>The lead\<close>

lemma foldl_max_bounds:
  "(\<forall>x \<in> set xs. 0 \<le> f x \<and> f x \<le> B) \<Longrightarrow> 0 \<le> a \<Longrightarrow> a \<le> (B::int) \<Longrightarrow>
     0 \<le> foldl (\<lambda>s w. max s (f w)) a xs \<and> a \<le> foldl (\<lambda>s w. max s (f w)) a xs
     \<and> foldl (\<lambda>s w. max s (f w)) a xs \<le> B
     \<and> (\<forall>x \<in> set xs. f x \<le> foldl (\<lambda>s w. max s (f w)) a xs)"
proof (induction xs arbitrary: a)
  case (Cons x xs)
  have "0 \<le> max a (f x)" "max a (f x) \<le> B" using Cons.prems by auto
  with Cons.IH [of "max a (f x)"] Cons.prems show ?case by auto
qed simp

text \<open>Wake-ups are recorded in seconds of an \<open>int32\<close>, which is where the lead cannot wrap.\<close>

definition saneWakeUps :: "WakeUp list \<Rightarrow> bool" where
  "saneWakeUps recent \<longleftrightarrow> (\<forall>w \<in> set recent. 0 \<le> Seconds w \<and> Seconds w < 2 ^ 31)"

lemma slowestWakeUp_bounds:
  assumes "saneWakeUps recent"
  shows "0 \<le> slowestWakeUp recent" "slowestWakeUp recent \<le> 2 ^ 31 * second"
    "\<forall>w \<in> set recent. Seconds w * second \<le> slowestWakeUp recent"
proof -
  have w: "i64 (Seconds w * second) = Seconds w * second" "0 \<le> Seconds w * second"
    "Seconds w * second \<le> 2 ^ 31 * second" if "w \<in> set recent" for w
    using assms that by (auto simp: saneWakeUps_def intro!: i64_id)
  have "\<forall>w \<in> set recent. 0 \<le> i64 (Seconds w * second) \<and> i64 (Seconds w * second) \<le> 2 ^ 31 * second"
    using w by simp
  from foldl_max_bounds [OF this, of 0]
  show "0 \<le> slowestWakeUp recent" "slowestWakeUp recent \<le> 2 ^ 31 * second"
    "\<forall>w \<in> set recent. Seconds w * second \<le> slowestWakeUp recent"
    using w unfolding slowestWakeUp_def by auto
qed

lemma durTruncate_up:
  assumes "0 \<le> s"
  shows "minute dvd durTruncate minute (s + minute - 1)"
    "s \<le> durTruncate minute (s + minute - 1)"
    "durTruncate minute (s + minute - 1) < s + minute"
proof -
  have pos: "0 < s + minute - 1" using assms by simp
  then have eq: "durTruncate minute (s + minute - 1) = (s + minute - 1) div minute * minute"
    by (simp add: durTruncate_def)
  show "minute dvd durTruncate minute (s + minute - 1)" unfolding eq by simp
  show "s \<le> durTruncate minute (s + minute - 1)" "durTruncate minute (s + minute - 1) < s + minute"
    using minute_of [of "s + minute - 1"] unfolding eq by linarith+
qed

lemma autoLead:
  assumes "saneWakeUps recent" "recent \<noteq> []" "Auto p"
  shows "PrewarmLead (Some p) recent =
    min (durTruncate minute (slowestWakeUp recent + minute - 1) + prewarmMargin) maxAutoPrewarm"
proof -
  note b = slowestWakeUp_bounds [OF assms(1)]
  note t = durTruncate_up [OF b(1)]
  have "i64 (slowestWakeUp recent + minute - 1) = slowestWakeUp recent + minute - 1"
    using b(1,2) by (intro i64_id) auto
  moreover have "i64 (durTruncate minute (slowestWakeUp recent + minute - 1) + prewarmMargin)
      = durTruncate minute (slowestWakeUp recent + minute - 1) + prewarmMargin"
    using b(1,2) t(2,3) by (intro i64_id) auto
  ultimately show ?thesis using assms by (simp add: PrewarmLead_def Let_def)
qed

lemma fixedLead:
  assumes "0 \<le> Minutes p" "Minutes p \<le> 2 ^ 24" "\<not> Auto p \<or> recent = []"
  shows "PrewarmLead (Some p) recent = Minutes p * minute"
proof -
  have "i64 (Minutes p * minute) = Minutes p * minute"
    using assms(1,2) by (intro i64_id) auto
  with assms(3) show ?thesis by (auto simp: PrewarmLead_def)
qed

subsection \<open>The state a decision gives, and its next transition\<close>

lemma EffectiveOverride_None: "EffectiveOverride None u t = None"
  by (simp add: EffectiveOverride_def)

lemma decide_state:
  "dActive (decide zi t tt a u ann) =
     (case legacyOverride ann of
        Some b \<Rightarrow> b
      | None \<Rightarrow> (case EffectiveOverride a u t of Some b \<Rightarrow> b | None \<Rightarrow> ActiveAt zi tt t))"
  by (auto simp: decide_def Let_def ActiveAt_def prewarming_def activeWithoutLead_def split: option.splits)

lemma decide_next_free:
  "legacyOverride ann = None \<Longrightarrow> EffectiveOverride a u t = None \<Longrightarrow>
     dNextTransition (decide zi t tt a u ann) = NextChange zi tt t"
  by (auto simp: decide_def split: option.splits)

lemma override_free_later:
  "EffectiveOverride a u t = None \<Longrightarrow> t \<le> x \<Longrightarrow> EffectiveOverride a u x = None"
  by (auto simp: EffectiveOverride_def split: option.splits if_splits)

lemma override_bounded:
  assumes "EffectiveOverride a (Some e) t = Some b" "\<not> isZero e"
  shows "t < e" "x < e \<Longrightarrow> EffectiveOverride a (Some e) x = Some b"
    "e \<le> x \<Longrightarrow> EffectiveOverride a (Some e) x = None"
  using assms by (auto simp: EffectiveOverride_def split: option.splits if_splits)

lemma override_forever:
  assumes "EffectiveOverride a u t = Some b" "\<And>e. u = Some e \<Longrightarrow> isZero e"
  shows "EffectiveOverride a u x = Some b"
  using assms by (auto simp: EffectiveOverride_def split: option.splits if_splits)

text \<open>The cases of \<open>dNextTransition\<close>, with what the state is on the way.\<close>

lemma decide_next:
  assumes reg: "regular zi tt"
  shows "case dNextTransition (decide zi t tt a u ann) of
      Some n \<Rightarrow> t < n \<and> dActive (decide zi n tt a u ann) \<noteq> dActive (decide zi t tt a u ann)
        \<and> (\<forall>x. t \<le> x \<and> x < n \<longrightarrow> dActive (decide zi x tt a u ann) = dActive (decide zi t tt a u ann))
    | None \<Rightarrow> (\<forall>x. t \<le> x \<longrightarrow> dActive (decide zi x tt a u ann) = dActive (decide zi t tt a u ann))"
proof (cases "legacyOverride ann")
  case (Some b)
  then have "dNextTransition (decide zi t tt a u ann) = None" by (simp add: decide_def)
  then show ?thesis using Some by (simp add: decide_state)
next
  case leg: None
  define act where "act x = (case EffectiveOverride a u x of Some b \<Rightarrow> b | None \<Rightarrow> ActiveAt zi tt x)" for x
  have act: "dActive (decide zi x tt a u ann) = act x" for x
    by (simp add: decide_state leg act_def)
  show ?thesis
  proof (cases "EffectiveOverride a u t")
    case None
    then have free: "act x = ActiveAt zi tt x" if "t \<le> x" for x
      using override_free_later that by (simp add: act_def)
    note e = NextChange_exact [OF reg, of t]
    show ?thesis unfolding act decide_next_free [OF leg None]
    proof (cases "NextChange zi tt t")
      case None
      have n: "\<forall>x. t \<le> x \<longrightarrow> ActiveAt zi tt x = ActiveAt zi tt t"
        using e unfolding None option.case .
      have "act x = act t" if "t \<le> x" for x
        using n [rule_format, OF that] free [OF that] free [of t] by (simp only: order_refl)
      then have "\<forall>x. t \<le> x \<longrightarrow> act x = act t" by blast
      then show "case NextChange zi tt t of
          Some n \<Rightarrow> t < n \<and> act n \<noteq> act t \<and> (\<forall>x. t \<le> x \<and> x < n \<longrightarrow> act x = act t)
        | None \<Rightarrow> (\<forall>x. t \<le> x \<longrightarrow> act x = act t)" unfolding None option.case .
    next
      case (Some n)
      have n: "t < n" "ActiveAt zi tt n \<noteq> ActiveAt zi tt t"
        "\<forall>x. t \<le> x \<and> x < n \<longrightarrow> ActiveAt zi tt x = ActiveAt zi tt t"
        using e unfolding Some option.case by blast+
      have "act n \<noteq> act t" using n(2) free [of n] free [of t] n(1) by simp
      moreover have "act x = act t" if "t \<le> x" "x < n" for x
        using n(3) [rule_format, of x] that free [OF that(1)] free [of t] by simp
      ultimately show "case NextChange zi tt t of
          Some n \<Rightarrow> t < n \<and> act n \<noteq> act t \<and> (\<forall>x. t \<le> x \<and> x < n \<longrightarrow> act x = act t)
        | None \<Rightarrow> (\<forall>x. t \<le> x \<longrightarrow> act x = act t)" using n(1) unfolding Some option.case by blast
    qed
  next
    case ov: (Some b)
    show ?thesis
    proof (cases "\<exists>e. u = Some e \<and> \<not> isZero e")
      case False
      then have z: "\<And>e. u = Some e \<Longrightarrow> isZero e" by blast
      then have "act x = b" for x using override_forever [OF ov] by (simp add: act_def)
      moreover have "dNextTransition (decide zi t tt a u ann) = None"
        using z ov leg by (auto simp: decide_def Let_def split: option.splits)
      ultimately show ?thesis by (simp add: act)
    next
      case True
      then obtain e where u: "u = Some e" "\<not> isZero e" by blast
      note b = override_bounded [OF ov [unfolded u(1)] u(2)]
      have before: "act x = b" if "x < e" for x using b(2) that u(1) by (simp add: act_def)
      have after: "act x = ActiveAt zi tt x" if "e \<le> x" for x using b(3) that u(1) by (simp add: act_def)
      have nx: "dNextTransition (decide zi t tt a u ann) =
          (if ActiveAt zi tt e \<noteq> b then Some e else NextChange zi tt e)"
        using ov u leg by (simp add: decide_def Let_def)
      note ne = NextChange_exact [OF reg, of e]
      have now: "act t = b" by (rule before [OF b(1)])
      show ?thesis
      proof (cases "ActiveAt zi tt e = b")
        case False
        with nx b(1) before after [of e] now show ?thesis by (simp add: act)
      next
        case eb: True
        have stay: "act x = b" if "x < e \<or> ActiveAt zi tt x = b" for x
          using that before after by (cases "x < e") auto
        show ?thesis
        proof (cases "NextChange zi tt e")
          case None
          have "ActiveAt zi tt x = b" if "e \<le> x" for x
            using ne eb that unfolding None option.case by blast
          then have "act x = b" for x using stay by (cases "x < e") auto
          with nx eb None show ?thesis by (simp add: act)
        next
          case (Some n)
          have n: "e < n" "ActiveAt zi tt n \<noteq> b"
            "\<And>x. e \<le> x \<Longrightarrow> x < n \<Longrightarrow> ActiveAt zi tt x = b"
            using ne eb unfolding Some option.case by blast+
          have "act x = b" if "x < n" for x using stay n(3) that by (cases "x < e") auto
          moreover have "act n \<noteq> b" using after [of n] n(1,2) by simp
          moreover have "t < n" using b(1) n(1) by simp
          ultimately show ?thesis using nx eb Some now by (simp add: act)
        qed
      qed
    qed
  qed
qed

text \<open>A target: its timetable, override, deadline and annotations.\<close>

type_synonym target = "Timetable \<times> bool option \<times> time option \<times> (string \<rightharpoonup> string)"

definition decideTarget :: "zoneinfo \<Rightarrow> target \<Rightarrow> time \<Rightarrow> Decision" where
  "decideTarget zi x t = (case x of (tt, a, u, ann) \<Rightarrow> Decide zi t tt a u ann)"

interpretation decision: change_search
    "\<lambda>zi x. regular zi (fst x)"
    "\<lambda>zi x t. dActive (decideTarget zi x t)"
    "\<lambda>zi x t. dNextTransition (decideTarget zi x t)"
proof
  fix zi :: zoneinfo and x :: target and t n
  assume reg: "regular zi (fst x)" and s: "dNextTransition (decideTarget zi x t) = Some n"
  obtain tt a u ann where x: "x = (tt, a, u, ann)" by (metis prod_cases4)
  note s' = s [unfolded x decideTarget_def prod.case Decide_simps]
  from decide_next [OF reg [unfolded x fst_conv], of t a u ann]
  show "t < n \<and> dActive (decideTarget zi x n) \<noteq> dActive (decideTarget zi x t)
      \<and> (\<forall>y. t \<le> y \<and> y < n \<longrightarrow> dActive (decideTarget zi x y) = dActive (decideTarget zi x t))"
    unfolding x decideTarget_def prod.case Decide_simps s' option.case .
next
  fix zi :: zoneinfo and x :: target and t y
  assume reg: "regular zi (fst x)" and s: "dNextTransition (decideTarget zi x t) = None" and le: "t \<le> y"
  obtain tt a u ann where x: "x = (tt, a, u, ann)" by (metis prod_cases4)
  note s' = s [unfolded x decideTarget_def prod.case Decide_simps]
  from decide_next [OF reg [unfolded x fst_conv], of t a u ann] le
  show "dActive (decideTarget zi x y) = dActive (decideTarget zi x t)"
    unfolding x decideTarget_def prod.case Decide_simps s' option.case by blast
qed

subsection \<open>Properties\<close>

text \<open>The state \<open>Decide\<close> gives follows its precedence: the legacy annotation, else the manual
  override in force, else the timetable, prewarm included; and prewarm never reports a target
  down.\<close>

theorem Decide_precedence:
  "dActive (Decide zi now tt active activeUntil ann) =
     (case legacyOverride ann of
        Some b \<Rightarrow> b
      | None \<Rightarrow> (case EffectiveOverride active activeUntil now of Some b \<Rightarrow> b | None \<Rightarrow> ActiveAt zi tt now))
   \<and> (dMode (Decide zi now tt active activeUntil ann) \<in> {ModePrewarm, ModeAlwaysOn, ModeManualUp}
        \<longrightarrow> dActive (Decide zi now tt active activeUntil ann) \<or> ttExceptions tt \<noteq> [])
   \<and> (dMode (Decide zi now tt active activeUntil ann) = ModePrewarm
        \<longrightarrow> dActive (Decide zi now tt active activeUntil ann)
          \<and> \<not> activeWithoutLead zi tt now \<and> activeWithoutLead zi tt (now + ttLead tt))"
proof -
  have "\<not> hasUsableSchedule (ttSchedules tt) \<Longrightarrow> ttExceptions tt = [] \<Longrightarrow> ActiveAt zi tt now"
    by (simp add: ActiveAt_def activeWithoutLead_def exceptionAt_def scheduleLoop_unusable)
  then show ?thesis
    unfolding Decide_simps
    by (auto simp: decide_def Let_def manualMode_def prewarming_def ActiveAt_def activeWithoutLead_def
        split: option.splits if_splits)
qed

lemma Decide_precedence_witness:
  "dActive (Decide utcZones 0 thursdayTable (Some True) None Map.empty)"
  using Decide_precedence [of utcZones 0 thursdayTable "Some True" None Map.empty]
  by (simp add: legacyOverride_def EffectiveOverride_def)



text \<open>The automatic lead starts a target early enough for its slowest recent wake-up with a
  minute to spare, is less than two minutes longer than it, and is capped at thirty minutes; it
  is a whole number of minutes, so that a timetable with it is scanned exactly.\<close>

theorem PrewarmLead_auto:
  assumes "Auto p" "recent \<noteq> []" "saneWakeUps recent"
  shows "minute dvd PrewarmLead (Some p) recent
    \<and> 0 < PrewarmLead (Some p) recent \<and> PrewarmLead (Some p) recent \<le> 30 * minute
    \<and> PrewarmLead (Some p) recent < slowestWakeUp recent + 2 * minute
    \<and> (PrewarmLead (Some p) recent < 30 * minute \<longrightarrow>
         (\<forall>w \<in> set recent. Seconds w * second + minute \<le> PrewarmLead (Some p) recent))"
proof -
  note b = slowestWakeUp_bounds [OF assms(3)]
  note t = durTruncate_up [OF b(1)]
  note l = autoLead [OF assms(3,2,1)]
  have "minute dvd PrewarmLead (Some p) recent" unfolding l using t(1) by (simp add: min_def)
  moreover have "0 < PrewarmLead (Some p) recent \<and> PrewarmLead (Some p) recent \<le> 30 * minute"
    unfolding l using t(2) b(1) by auto
  moreover have "PrewarmLead (Some p) recent < slowestWakeUp recent + 2 * minute"
    unfolding l using t(3) by auto
  moreover have "Seconds w * second + minute \<le> PrewarmLead (Some p) recent"
    if "PrewarmLead (Some p) recent < 30 * minute" "w \<in> set recent" for w
    using that b(3) t(2) unfolding l by auto
  ultimately show ?thesis by blast
qed

lemma PrewarmLead_auto_witness:
  "minute dvd PrewarmLead (Some \<lparr>Auto = True, Minutes = 5\<rparr>) [\<lparr>StartedAt = 0, Seconds = 90\<rparr>]
   \<and> PrewarmLead (Some \<lparr>Auto = True, Minutes = 5\<rparr>) [\<lparr>StartedAt = 0, Seconds = 90\<rparr>] = 3 * minute
   \<and> 90 * second + minute \<le> PrewarmLead (Some \<lparr>Auto = True, Minutes = 5\<rparr>) [\<lparr>StartedAt = 0, Seconds = 90\<rparr>]"
proof -
  have v: "PrewarmLead (Some \<lparr>Auto = True, Minutes = 5\<rparr>) [\<lparr>StartedAt = 0, Seconds = 90\<rparr>] = 3 * minute"
  proof -
    have "slowestWakeUp [\<lparr>StartedAt = 0, Seconds = 90\<rparr>] = 90 * second"
      by (simp add: slowestWakeUp_def)
    then show ?thesis by (simp add: autoLead saneWakeUps_def durTruncate_def)
  qed
  note p = PrewarmLead_auto [of "\<lparr>Auto = True, Minutes = 5\<rparr>" "[\<lparr>StartedAt = 0, Seconds = 90\<rparr>]"]
  show ?thesis using p v by (simp add: saneWakeUps_def)
qed

end
