(* ===== verification/GroupPlans.thy ===== *)
theory GroupPlans
  imports Cycles Decision "HOL-Library.Product_Lexorder"
begin

section \<open>Plans of the groups of a namespace (internal/scaling/dependencies.go, members.go)\<close>

text \<open>
  \<open>PlanGroups\<close> resolves the desired state of all groups of a namespace together: each group's
  own decision, the dependents that keep it up, what it still waits for and which namespaces
  belong to another group. A plan is resolved after the plans of its dependents and kept in a
  map; the recursion carries the number of groups as fuel, which the acyclicity of the
  dependencies between groups outside cycles shows to be enough.
\<close>

subsection \<open>Names and lookup\<close>

text \<open>\<open>byName\<close>: the last group of a name wins. The maps the code iterates in Go's random order
  are iterated in the order of names; the result does not depend on it.\<close>

definition byName :: "ScalingGroup list \<Rightarrow> string \<rightharpoonup> ScalingGroup" where
  "byName groups name = find (\<lambda>g. gName g = name) (rev groups)"

definition groupNames :: "ScalingGroup list \<Rightarrow> string list" where
  "groupNames groups = sort (remdups (map gName groups))"

definition groupGraph :: "ScalingGroup list \<Rightarrow> graph" where
  "groupGraph groups name = map_option (\<lambda>g. DependsOn (Spec g)) (byName groups name)"

definition cyclicGroups :: "ScalingGroup list \<Rightarrow> string list" where
  "cyclicGroups groups = findCycles (groupGraph groups) (groupNames groups)"

text \<open>The groups that depend on \<open>dep\<close>, once per entry that names it.\<close>

definition dependents :: "ScalingGroup list \<Rightarrow> string \<Rightarrow> string list" where
  "dependents groups dep =
     (let inCycle = cyclicGroups groups
      in concat (map (\<lambda>name.
           if name \<in> set inCycle then []
           else map (\<lambda>_. name)
                  (filter (\<lambda>d. d = dep \<and> byName groups d \<noteq> None \<and> d \<noteq> name \<and> d \<notin> set inCycle)
                     (edgesOf (groupGraph groups) name)))
         (groupNames groups)))"

subsection \<open>Owners of namespaces\<close>

definition olderGroup :: "ScalingGroup \<Rightarrow> time \<times> string" where
  "olderGroup g = (gCreated g, gName g)"

definition claimNamespaces :: "string \<Rightarrow> string list \<Rightarrow> (string \<rightharpoonup> string) \<Rightarrow> string \<rightharpoonup> string" where
  "claimNamespaces name nss owners =
     foldl (\<lambda>ow ns. if ow ns = None then ow(ns \<mapsto> name) else ow) owners nss"

definition orderedGroups :: "ScalingGroup list \<Rightarrow> ScalingGroup list" where
  "orderedGroups groups = sort_key olderGroup (filter (\<lambda>g. \<not> gDryRun (Spec g)) groups)"

definition NamespaceOwners :: "ScalingGroup list \<Rightarrow> string \<rightharpoonup> string" where
  "NamespaceOwners groups =
     (let ordered = orderedGroups groups;
          byList = foldl (\<lambda>ow g. claimNamespaces (gName g) (gNamespaces (Spec g)) ow) Map.empty ordered
      in foldl (\<lambda>ow g. if NamespaceSelector (Spec g) \<noteq> None
                       then claimNamespaces (gName g) (SelectedNamespaces (Status g)) ow else ow)
           byList ordered)"

subsection \<open>Namespaces a selector may take\<close>

datatype protection = RunsCostDeck | BelongsToKubernetes | OptedOut

definition ProtectedNamespace :: "NamespaceObj \<Rightarrow> string \<Rightarrow> protection option" where
  "ProtectedNamespace ns operatorNamespace =
     (if nsName ns = operatorNamespace then Some RunsCostDeck
      else if hasPrefix (nsName ns) ''kube-'' then Some BelongsToKubernetes
      else if nsLabels ns OptOutLabel = Some ''off'' then Some OptedOut
      else None)"

datatype selectorError = EmptySelector | InvalidSelector

text \<open>\<open>asSelector\<close> is \<open>LabelSelectorAsSelector\<close> of apimachinery: the matcher of a valid
  selector.\<close>

definition SelectNamespaces ::
    "(LabelSelector \<Rightarrow> ((string \<rightharpoonup> string) \<Rightarrow> bool) option) \<Rightarrow> LabelSelector option
       \<Rightarrow> NamespaceObj list \<Rightarrow> string \<Rightarrow> selectorError + string list" where
  "SelectNamespaces asSelector selector namespaces operatorNamespace =
     (case selector of
        None \<Rightarrow> Inr []
      | Some s \<Rightarrow>
          if MatchLabels s = [] \<and> MatchExpressions s = [] then Inl EmptySelector
          else (case asSelector s of
                  None \<Rightarrow> Inl InvalidSelector
                | Some matches \<Rightarrow>
                    Inr (sort (map nsName (filter (\<lambda>ns. \<not> (ProtectedNamespace ns operatorNamespace \<noteq> None
                           \<or> nsDeleting ns \<or> \<not> matches (nsLabels ns))) namespaces)))))"

subsection \<open>Plans\<close>

record GroupPlan =
  pDecision :: Decision
  RequiredBy :: "string list"
  WaitingFor :: "string list"
  MissingDependencies :: "string list"
  InCycle :: bool
  ConflictingNamespaces :: "string list"
  pNamespaceOwners :: "string \<rightharpoonup> string"
  Owners :: "string \<rightharpoonup> string"
  ExceptionProblems :: "problem list"

definition BlockedOnDependencies :: "GroupPlan \<Rightarrow> bool" where
  "BlockedOnDependencies p \<longleftrightarrow>
     dActive (pDecision p) \<and> (WaitingFor p \<noteq> [] \<or> MissingDependencies p \<noteq> [])"

definition isRunning :: "phase \<Rightarrow> bool" where
  "isRunning ph \<longleftrightarrow> ph = PhaseScaledUp \<or> ph = PhaseScalingUp \<or> ph = PhaseDryRun"

definition groupTimetable :: "zoneinfo \<Rightarrow> ScalingGroup \<Rightarrow> HolidayCalendar list \<Rightarrow> Timetable \<times> problem list" where
  "groupTimetable zi g calendars =
     (let (exceptions, problems) = ResolveExceptions zi (gExceptions (Spec g)) (gCalendars (Spec g)) calendars
                                     (ExceptionZone (gSchedules (Spec g)))
      in (\<lparr>ttSchedules = gSchedules (Spec g), ttExceptions = exceptions,
           ttLead = PrewarmLead (gPrewarm (Spec g)) (RecentWakeUps (gScheduleStatus (Status g)))\<rparr>, problems))"

definition isManual :: "Decision \<Rightarrow> bool" where
  "isManual d \<longleftrightarrow> dMode d = ModeManualUp \<or> dMode d = ModeManualDown"

definition ownDecision ::
    "zoneinfo \<Rightarrow> time \<Rightarrow> ScalingGroup \<Rightarrow> HolidayCalendar list \<Rightarrow> Decision \<times> problem list" where
  "ownDecision zi now g calendars =
     (let (tt, problems) = groupTimetable zi g calendars;
          at = (\<lambda>t. Decide zi t tt (gActive (Spec g)) (gActiveUntil (Spec g)) (gAnnotations g));
          d = at now;
          keeps = (isManual d \<or> (dMode d = ModeException \<and> dActive d))
      in if Activation (Spec g) = ''OnDemand'' \<and> \<not> keeps
         then (plainDecision False ModeOnDemand None, problems)
         else (ApplyIdle d (IdleUntil (gScheduleStatus (Status g))) now at, problems))"

text \<open>Whether the plan of a dependent keeps this group up.\<close>

definition needsUp :: "GroupPlan \<Rightarrow> ScalingGroup \<Rightarrow> ScalingGroup \<Rightarrow> bool" where
  "needsUp dp d g \<longleftrightarrow>
     dActive (pDecision dp)
     \<or> (\<not> dActive (pDecision dp) \<and> gPhase (Status d) \<noteq> PhaseScaledDown \<and> isRunning (gPhase (Status g)))"

definition ownPlan ::
    "zoneinfo \<Rightarrow> time \<Rightarrow> ScalingGroup list \<Rightarrow> HolidayCalendar list \<Rightarrow> string \<Rightarrow> ScalingGroup \<Rightarrow> string list \<Rightarrow> GroupPlan" where
  "ownPlan zi now groups calendars name g required =
     (let (own, problems) = ownDecision zi now g calendars;
          required = sort required;
          decision = (if \<not> isManual own \<and> \<not> dActive own \<and> required \<noteq> []
                      then plainDecision True ModeDependency None else own)
      in \<lparr>pDecision = decision, RequiredBy = required, WaitingFor = [], MissingDependencies = [],
          InCycle = name \<in> set (cyclicGroups groups), ConflictingNamespaces = [],
          pNamespaceOwners = Map.empty, Owners = Map.empty, ExceptionProblems = problems\<rparr>)"

type_synonym plans = "string \<rightharpoonup> GroupPlan"

text \<open>\<open>resolve\<close> with the map of plans it fills; the loop over the dependents of a group gives
  the plan it ends in the list of those that require the group.\<close>

function resolve ::
    "zoneinfo \<Rightarrow> time \<Rightarrow> ScalingGroup list \<Rightarrow> HolidayCalendar list \<Rightarrow> nat \<Rightarrow> plans \<Rightarrow> string
       \<Rightarrow> (GroupPlan \<times> plans) option"
  and requiredLoop ::
    "zoneinfo \<Rightarrow> time \<Rightarrow> ScalingGroup list \<Rightarrow> HolidayCalendar list \<Rightarrow> nat \<Rightarrow> plans \<Rightarrow> ScalingGroup \<Rightarrow> string list
       \<Rightarrow> (string list \<times> plans) option" where
  "resolve zi now groups calendars 0 plans name = None"
| "resolve zi now groups calendars (Suc n) plans name =
     (case plans name of
        Some p \<Rightarrow> Some (p, plans)
      | None \<Rightarrow>
     (case byName groups name of
        None \<Rightarrow> None
      | Some g \<Rightarrow>
     (case requiredLoop zi now groups calendars n plans g (dependents groups name) of
        None \<Rightarrow> None
      | Some (required, plans') \<Rightarrow>
          (let plan = ownPlan zi now groups calendars name g required
           in Some (plan, plans'(name \<mapsto> plan))))))"
| "requiredLoop zi now groups calendars n plans g [] = Some ([], plans)"
| "requiredLoop zi now groups calendars n plans g (d # ds) =
     (case resolve zi now groups calendars n plans d of
        None \<Rightarrow> None
      | Some (dp, plans') \<Rightarrow>
     (case requiredLoop zi now groups calendars n plans' g ds of
        None \<Rightarrow> None
      | Some (required, plans'') \<Rightarrow>
          (case byName groups d of
             None \<Rightarrow> None
           | Some dg \<Rightarrow> Some (if needsUp dp dg g then d # required else required, plans''))))"
  by pat_completeness auto
termination
  by (relation "measures [\<lambda>x. case x of Inl (zi, now, groups, calendars, n, _) \<Rightarrow> n | Inr (zi, now, groups, calendars, n, _) \<Rightarrow> n,
        \<lambda>x. case x of Inl _ \<Rightarrow> 0 | Inr (zi, now, groups, calendars, n, plans, g, ds) \<Rightarrow> Suc (length ds)]")
     auto

fun resolveAll ::
    "zoneinfo \<Rightarrow> time \<Rightarrow> ScalingGroup list \<Rightarrow> HolidayCalendar list \<Rightarrow> nat \<Rightarrow> plans \<Rightarrow> string list \<Rightarrow> plans option" where
  "resolveAll zi now groups calendars n plans [] = Some plans"
| "resolveAll zi now groups calendars n plans (name # names) =
     (case resolve zi now groups calendars n plans name of
        None \<Rightarrow> None
      | Some (_, plans') \<Rightarrow> resolveAll zi now groups calendars n plans' names)"

definition missingOf :: "ScalingGroup list \<Rightarrow> ScalingGroup \<Rightarrow> string list" where
  "missingOf groups g = filter (\<lambda>dep. byName groups dep = None) (DependsOn (Spec g))"

definition waitingOf :: "ScalingGroup list \<Rightarrow> ScalingGroup \<Rightarrow> string list" where
  "waitingOf groups g =
     filter (\<lambda>dep. case byName groups dep of
         None \<Rightarrow> False
       | Some dg \<Rightarrow> gPhase (Status dg) \<noteq> PhaseScaledUp \<and> gPhase (Status dg) \<noteq> PhaseDryRun)
       (DependsOn (Spec g))"

definition conflictsOf :: "(string \<rightharpoonup> string) \<Rightarrow> string \<Rightarrow> ScalingGroup \<Rightarrow> string list" where
  "conflictsOf owners name g =
     filter (\<lambda>ns. case owners ns of None \<Rightarrow> False | Some owner \<Rightarrow> owner \<noteq> name) (Members g)"

definition finishPlan :: "ScalingGroup list \<Rightarrow> string \<Rightarrow> ScalingGroup \<Rightarrow> GroupPlan \<Rightarrow> GroupPlan" where
  "finishPlan groups name g plan =
     (let owners = NamespaceOwners groups;
          conflicts = conflictsOf owners name g
      in plan\<lparr>Owners := owners,
              MissingDependencies := if InCycle plan then [] else missingOf groups g,
              WaitingFor := if InCycle plan then [] else waitingOf groups g,
              ConflictingNamespaces := conflicts,
              pNamespaceOwners := (\<lambda>ns. if ns \<in> set conflicts then owners ns else None)\<rparr>)"

definition PlanGroups ::
    "zoneinfo \<Rightarrow> time \<Rightarrow> ScalingGroup list \<Rightarrow> HolidayCalendar list \<Rightarrow> plans option" where
  "PlanGroups zi now groups calendars =
     map_option (\<lambda>plans name. case (plans name, byName groups name) of
           (Some p, Some g) \<Rightarrow> Some (finishPlan groups name g p) | _ \<Rightarrow> None)
       (resolveAll zi now groups calendars (length (groupNames groups)) Map.empty (groupNames groups))"

subsection \<open>The dependency graph between groups outside cycles\<close>

lemma find_in: "find P xs = Some x \<Longrightarrow> P x \<and> x \<in> set xs"
  by (induction xs) (auto split: if_splits)

lemma byName_Some: "byName groups name = Some g \<Longrightarrow> g \<in> set groups \<and> gName g = name"
  using find_in [of "\<lambda>g. gName g = name" "rev groups" g] by (simp add: byName_def)

lemma byName_None: "byName groups name = None \<longleftrightarrow> name \<notin> gName ` set groups"
  by (auto simp: byName_def find_None_iff)

lemma byName_distinct:
  assumes "distinct (map gName groups)" "g \<in> set groups"
  shows "byName groups (gName g) = Some g"
proof -
  from assms(2) obtain g' where g': "byName groups (gName g) = Some g'"
    using byName_None [of groups "gName g"] by (cases "byName groups (gName g)") auto
  with byName_Some [OF g'] assms show ?thesis by (metis distinct_map inj_onD)
qed

lemma groupNames_props: "distinct (groupNames groups)" "set (groupNames groups) = gName ` set groups"
  by (auto simp: groupNames_def)

lemma groupGraph_dom: "dom (groupGraph groups) = gName ` set groups"
  using byName_None [of groups] by (auto simp: groupGraph_def dom_def)

lemma edgesOf_groupGraph: "byName groups name = Some g \<Longrightarrow> edgesOf (groupGraph groups) name = DependsOn (Spec g)"
  by (simp add: edgesOf_def groupGraph_def)

lemma in_dependents:
  "d \<in> set (dependents groups name) \<longleftrightarrow>
     d \<notin> set (cyclicGroups groups) \<and> name \<notin> set (cyclicGroups groups) \<and> d \<noteq> name
     \<and> (d, name) \<in> dependsOnRel (groupGraph groups)"
proof -
  have "(d, name) \<in> dependsOnRel (groupGraph groups) \<Longrightarrow> d \<in> set (groupNames groups)"
    using dependsOnRel_dom groupGraph_dom groupNames_props(2) by blast
  then show ?thesis
    by (auto simp: dependents_def Let_def dependsOnRel_def groupGraph_def split: if_splits)
qed

text \<open>
  The interface of a dependency graph that can be resolved recursively: every element is
  resolved after those it \<open>needs\<close>, and there is no way to go on forever. The fuel lemma is what
  the resolution of plans uses: the longest chain is shorter than the number of nodes.
\<close>

locale dependency_order =
  fixes nodes :: "'g \<Rightarrow> string list"
    and needs :: "'g \<Rightarrow> string \<Rightarrow> string list"
  assumes inside: "d \<in> set (needs g x) \<Longrightarrow> x \<in> set (nodes g) \<and> d \<in> set (nodes g)"
    and grounded: "wf {(d, x). d \<in> set (needs g x)}"
begin

lemma no_loop: "(x, x) \<notin> {(d, x). d \<in> set (needs g x)}\<^sup>+"
  using wf_trancl [OF grounded] by (simp add: wf_not_refl)

lemma fuel_bound:
  obtains rank :: "string \<Rightarrow> nat"
  where "\<And>x. x \<in> set (nodes g) \<Longrightarrow> rank x < length (nodes g)"
    and "\<And>x d. d \<in> set (needs g x) \<Longrightarrow> rank d < rank x"
proof -
  let ?R = "{(d, x). d \<in> set (needs g x)}"
  define below where "below x = {y. (y, x) \<in> ?R\<^sup>+}" for x
  have sub: "below x \<subseteq> set (nodes g)" for x
  proof
    fix y assume "y \<in> below x"
    then have "(y, x) \<in> ?R\<^sup>+" by (simp add: below_def)
    then show "y \<in> set (nodes g)" by (rule converse_tranclE) (auto dest: inside)
  qed
  have fin: "finite (below x)" for x by (rule finite_subset [OF sub]) simp
  have less: "card (below d) < card (below x)" if "d \<in> set (needs g x)" for x d
  proof (rule psubset_card_mono [OF fin])
    have "d \<in> below x" using that by (auto simp: below_def)
    moreover have "d \<notin> below d" using no_loop by (simp add: below_def)
    moreover have "below d \<subseteq> below x" using that by (auto simp: below_def intro: trancl_into_trancl)
    ultimately show "below d \<subset> below x" by blast
  qed
  have bound: "card (below x) < length (nodes g)" if "x \<in> set (nodes g)" for x
  proof -
    have "x \<notin> below x" using no_loop by (simp add: below_def)
    with sub that have "below x \<subset> set (nodes g)" by blast
    then have "card (below x) < card (set (nodes g))" by (rule psubset_card_mono [OF finite_set])
    also have "\<dots> \<le> length (nodes g)" by (rule card_length)
    finally show ?thesis .
  qed
  show ?thesis by (rule that [of "\<lambda>x. card (below x)"]) (use bound less in auto)
qed

end

interpretation plan: dependency_order groupNames dependents
proof
  fix d groups x
  assume "d \<in> set (dependents groups x)"
  then have "(d, x) \<in> dependsOnRel (groupGraph groups)" by (simp add: in_dependents)
  from dependsOnRel_dom [OF this]
  show "x \<in> set (groupNames groups) \<and> d \<in> set (groupNames groups)"
    by (simp only: groupGraph_dom groupNames_props)
next
  fix groups
  have dom: "set (groupNames groups) = dom (groupGraph groups)"
    by (simp only: groupGraph_dom groupNames_props)
  have "{(d, x). d \<in> set (dependents groups x)} \<subseteq>
      ({(v, u). (u, v) \<in> dependsOnRel (groupGraph groups)
          \<and> \<not> (u \<in> set (cyclicGroups groups) \<and> v \<in> set (cyclicGroups groups))})\<inverse>"
    by (auto simp: in_dependents)
  moreover have "{(d, x). d \<in> set (dependents groups x)} \<subseteq>
      set (groupNames groups) \<times> set (groupNames groups)"
    using dependsOnRel_dom unfolding dom by (fastforce simp: in_dependents)
  then have "finite {(d, x). d \<in> set (dependents groups x)}"
    by (rule finite_subset) simp
  moreover have "acyclic ({(v, u). (u, v) \<in> dependsOnRel (groupGraph groups)
          \<and> \<not> (u \<in> set (cyclicGroups groups) \<and> v \<in> set (cyclicGroups groups))}\<inverse>)"
    unfolding acyclic_converse cyclicGroups_def
    by (rule wf_acyclic [OF findCycles_wf [OF groupNames_props(1) dom]])
  ultimately show "wf {(d, x). d \<in> set (dependents groups x)}"
    by (meson acyclic_subset finite_acyclic_wf)
qed

subsection \<open>Resolution always ends and gives a solution\<close>

text \<open>The plan of a group in terms of the plans of its dependents.\<close>

definition requiredIn :: "ScalingGroup list \<Rightarrow> plans \<Rightarrow> string \<Rightarrow> ScalingGroup \<Rightarrow> string list" where
  "requiredIn groups plans name g =
     filter (\<lambda>d. needsUp (the (plans d)) (the (byName groups d)) g) (dependents groups name)"

definition planSolved ::
    "zoneinfo \<Rightarrow> time \<Rightarrow> ScalingGroup list \<Rightarrow> HolidayCalendar list \<Rightarrow> plans \<Rightarrow> string \<Rightarrow> bool" where
  "planSolved zi now groups calendars plans name \<longleftrightarrow>
     (\<exists>g. byName groups name = Some g
        \<and> plans name = Some (ownPlan zi now groups calendars name g (requiredIn groups plans name g))
        \<and> (\<forall>d \<in> set (dependents groups name). plans d \<noteq> None))"

definition solved :: "zoneinfo \<Rightarrow> time \<Rightarrow> ScalingGroup list \<Rightarrow> HolidayCalendar list \<Rightarrow> plans \<Rightarrow> bool" where
  "solved zi now groups calendars plans \<longleftrightarrow>
     (\<forall>name. plans name \<noteq> None \<longrightarrow> planSolved zi now groups calendars plans name)"

lemma filter_required_cong:
  assumes "plans \<subseteq>\<^sub>m plans'" "\<forall>d \<in> set ds. plans d \<noteq> None"
  shows "filter (\<lambda>d. needsUp (the (plans' d)) (the (byName groups d)) g) ds
       = filter (\<lambda>d. needsUp (the (plans d)) (the (byName groups d)) g) ds"
proof (intro filter_cong refl)
  fix d assume "d \<in> set ds"
  with assms have "plans' d = plans d" by (force simp: map_le_def dom_def)
  then show "needsUp (the (plans' d)) (the (byName groups d)) g = needsUp (the (plans d)) (the (byName groups d)) g"
    by simp
qed

lemma planSolved_mono:
  assumes le: "plans \<subseteq>\<^sub>m plans'" and s: "planSolved zi now groups calendars plans name"
  shows "planSolved zi now groups calendars plans' name"
proof -
  from s obtain g where g: "byName groups name = Some g"
    "plans name = Some (ownPlan zi now groups calendars name g (requiredIn groups plans name g))"
    "\<forall>d \<in> set (dependents groups name). plans d \<noteq> None"
    by (auto simp: planSolved_def)
  have "requiredIn groups plans' name g = requiredIn groups plans name g"
    unfolding requiredIn_def by (rule filter_required_cong [OF le g(3)])
  moreover have same: "plans' x = plans x" if "plans x \<noteq> None" for x
    using le that by (auto simp: map_le_def dom_def)
  ultimately show ?thesis using g by (simp add: planSolved_def same)
qed

lemma solved_step:
  assumes s: "solved zi now groups calendars plans" and g: "byName groups name = Some g"
    and all: "\<forall>d \<in> set (dependents groups name). plans d \<noteq> None"
    and p: "p = ownPlan zi now groups calendars name g (requiredIn groups plans name g)"
  shows "solved zi now groups calendars (plans(name \<mapsto> p)) \<and> plans \<subseteq>\<^sub>m plans(name \<mapsto> p)"
proof -
  have same: "plans name = Some p" if "plans name \<noteq> None"
  proof -
    from s that have "planSolved zi now groups calendars plans name" by (simp add: solved_def)
    with g p show ?thesis by (simp add: planSolved_def)
  qed
  then have le: "plans \<subseteq>\<^sub>m plans(name \<mapsto> p)" by (auto simp: map_le_def)
  have "name \<notin> set (dependents groups name)" by (simp add: in_dependents)
  then have "requiredIn groups (plans(name \<mapsto> p)) name g = requiredIn groups plans name g"
    unfolding requiredIn_def by (intro filter_cong) auto
  then have new: "planSolved zi now groups calendars (plans(name \<mapsto> p)) name"
    using g p all by (simp add: planSolved_def)
  have "planSolved zi now groups calendars (plans(name \<mapsto> p)) x" if "(plans(name \<mapsto> p)) x \<noteq> None" for x
  proof (cases "x = name")
    case False
    with that have "plans x \<noteq> None" by simp
    with s have "planSolved zi now groups calendars plans x" by (simp add: solved_def)
    then show ?thesis by (rule planSolved_mono [OF le])
  qed (use new in simp)
  with le show ?thesis by (simp add: solved_def)
qed

lemma resolve_ok:
  fixes rank :: "string \<Rightarrow> nat"
  shows "(\<forall>x. \<forall>d \<in> set (dependents groups x). rank d < rank x) \<Longrightarrow> solved zi now groups calendars plans \<Longrightarrow> name \<in> gName ` set groups \<Longrightarrow> rank name < n \<Longrightarrow>
     \<exists>p plans'. resolve zi now groups calendars n plans name = Some (p, plans') \<and> plans \<subseteq>\<^sub>m plans'
       \<and> solved zi now groups calendars plans' \<and> plans' name = Some p"
    and "(\<forall>x. \<forall>d \<in> set (dependents groups x). rank d < rank x) \<Longrightarrow>
     solved zi now groups calendars plans \<Longrightarrow> (\<forall>d \<in> set ds. d \<in> gName ` set groups \<and> rank d < n) \<Longrightarrow>
     \<exists>required plans'. requiredLoop zi now groups calendars n plans g ds = Some (required, plans')
       \<and> plans \<subseteq>\<^sub>m plans' \<and> solved zi now groups calendars plans' \<and> (\<forall>d \<in> set ds. plans' d \<noteq> None)
       \<and> required = filter (\<lambda>d. needsUp (the (plans' d)) (the (byName groups d)) g) ds"
proof (induction zi now groups calendars n plans name and zi now groups calendars n plans g ds
    rule: resolve_requiredLoop.induct)
  case (1 zi now groups calendars plans name)
  then show ?case by simp
next
  case (2 zi now groups calendars n plans name)
  show ?case
  proof (cases "plans name")
    case (Some p)
    with "2.prems"(2) show ?thesis by (auto intro!: exI [of _ p] exI [of _ plans])
  next
    case None
    from "2.prems"(3) obtain g where g: "byName groups name = Some g"
      using byName_None [of groups name] by (cases "byName groups name") auto
    have "\<forall>d \<in> set (dependents groups name). d \<in> gName ` set groups \<and> rank d < n"
      using "2.prems"(1) "2.prems"(4) plan.inside [of _ groups name] groupNames_props(2) by fastforce
    with "2.IH" [OF None g "2.prems"(1,2)] obtain required plans' where r:
      "requiredLoop zi now groups calendars n plans g (dependents groups name) = Some (required, plans')"
      "plans \<subseteq>\<^sub>m plans'" "solved zi now groups calendars plans'"
      "\<forall>d \<in> set (dependents groups name). plans' d \<noteq> None"
      "required = requiredIn groups plans' name g"
      unfolding requiredIn_def by blast
    define p where "p = ownPlan zi now groups calendars name g required"
    from solved_step [OF r(3) g r(4)] r(5) have
      "solved zi now groups calendars (plans'(name \<mapsto> p))" "plans' \<subseteq>\<^sub>m plans'(name \<mapsto> p)"
      unfolding p_def by blast+
    moreover have "resolve zi now groups calendars (Suc n) plans name = Some (p, plans'(name \<mapsto> p))"
      using None g r(1) by (simp add: p_def Let_def)
    ultimately show ?thesis using r(2) map_le_trans by fastforce
  qed
next
  case (3 zi now groups calendars n plans g)
  then show ?case by auto
next
  case (4 zi now groups calendars n plans g d ds)
  then have d: "d \<in> gName ` set groups" "rank d < n" by auto
  from "4.IH"(1) [OF "4.prems"(1,2) d] obtain p plans1 where a:
    "resolve zi now groups calendars n plans d = Some (p, plans1)" "plans \<subseteq>\<^sub>m plans1"
    "solved zi now groups calendars plans1" "plans1 d = Some p" by blast
  from "4.IH"(2) [OF a(1) refl "4.prems"(1) a(3)] "4.prems"(3) obtain required plans2 where b:
    "requiredLoop zi now groups calendars n plans1 g ds = Some (required, plans2)"
    "plans1 \<subseteq>\<^sub>m plans2" "solved zi now groups calendars plans2" "\<forall>d \<in> set ds. plans2 d \<noteq> None"
    "required = filter (\<lambda>d. needsUp (the (plans2 d)) (the (byName groups d)) g) ds" by auto
  from d(1) obtain dg where dg: "byName groups d = Some dg"
    using byName_None [of groups d] by (cases "byName groups d") auto
  have p: "plans2 d = Some p" using a(4) b(2) by (metis domI map_le_def)
  define required' where "required' = (if needsUp p dg g then d # required else required)"
  have "requiredLoop zi now groups calendars n plans g (d # ds) = Some (required', plans2)"
    using a(1) b(1) dg by (simp add: required'_def)
  moreover have "required' = filter (\<lambda>d. needsUp (the (plans2 d)) (the (byName groups d)) g) (d # ds)"
    using b(5) p dg by (simp add: required'_def)
  moreover have "\<forall>x \<in> set (d # ds). plans2 x \<noteq> None" using b(4) p by auto
  moreover have "plans \<subseteq>\<^sub>m plans2" using a(2) b(2) map_le_trans by blast
  ultimately show ?case using b(3) by blast
qed

lemma resolveAll_ok:
  fixes rank :: "string \<Rightarrow> nat"
  assumes rank: "\<forall>x. \<forall>d \<in> set (dependents groups x). rank d < rank x"
  shows "solved zi now groups calendars plans \<Longrightarrow> \<forall>x \<in> set names. x \<in> gName ` set groups \<and> rank x < n \<Longrightarrow>
     \<exists>plans'. resolveAll zi now groups calendars n plans names = Some plans' \<and> plans \<subseteq>\<^sub>m plans'
       \<and> solved zi now groups calendars plans' \<and> (\<forall>x \<in> set names. plans' x \<noteq> None)"
proof (induction names arbitrary: plans)
  case Nil
  then show ?case by auto
next
  case (Cons name names)
  from Cons.prems(2) have "name \<in> gName ` set groups" "rank name < n" by auto
  from resolve_ok(1) [where rank = rank, OF rank Cons.prems(1) this] obtain p plans1 where a:
    "resolve zi now groups calendars n plans name = Some (p, plans1)" "plans \<subseteq>\<^sub>m plans1"
    "solved zi now groups calendars plans1" "plans1 name = Some p" by blast
  from Cons.IH [OF a(3)] Cons.prems(2) obtain plans2 where b:
    "resolveAll zi now groups calendars n plans1 names = Some plans2" "plans1 \<subseteq>\<^sub>m plans2"
    "solved zi now groups calendars plans2" "\<forall>x \<in> set names. plans2 x \<noteq> None" by auto
  have "plans2 name = Some p" using a(4) b(2) by (metis domI map_le_def)
  moreover have "plans \<subseteq>\<^sub>m plans2" using a(2) b(2) map_le_trans by blast
  ultimately show ?case using a(1) b by auto
qed

text \<open>What planning gives, with the plans before their waiting lists and owners are filled in.\<close>

lemma PlanGroups_plans:
  obtains plans where
    "PlanGroups zi now groups calendars = Some (\<lambda>name. case (plans name, byName groups name) of
        (Some p, Some g) \<Rightarrow> Some (finishPlan groups name g p) | _ \<Rightarrow> None)"
    "\<And>name. name \<in> gName ` set groups \<Longrightarrow> planSolved zi now groups calendars plans name"
proof -
  obtain rank :: "string \<Rightarrow> nat" where rank:
    "\<And>x. x \<in> set (groupNames groups) \<Longrightarrow> rank x < length (groupNames groups)"
    "\<And>x d. d \<in> set (dependents groups x) \<Longrightarrow> rank d < rank x"
    by (rule plan.fuel_bound [of groups]) blast
  have descends: "\<forall>x. \<forall>d \<in> set (dependents groups x). rank d < rank x" using rank(2) by blast
  have "solved zi now groups calendars Map.empty" by (simp add: solved_def)
  from resolveAll_ok [where names = "groupNames groups" and n = "length (groupNames groups)",
      OF descends this] rank(1)
  obtain plans where p:
    "resolveAll zi now groups calendars (length (groupNames groups)) Map.empty (groupNames groups) = Some plans"
    "solved zi now groups calendars plans" "\<forall>x \<in> set (groupNames groups). plans x \<noteq> None"
    by (auto simp: groupNames_props(2))
  show ?thesis
  proof (rule that)
    show "PlanGroups zi now groups calendars = Some (\<lambda>name. case (plans name, byName groups name) of
        (Some p, Some g) \<Rightarrow> Some (finishPlan groups name g p) | _ \<Rightarrow> None)"
      by (simp add: PlanGroups_def p(1))
    show "planSolved zi now groups calendars plans name" if "name \<in> gName ` set groups" for name
      using p(2,3) that unfolding solved_def groupNames_props(2) by blast
  qed
qed

subsection \<open>Owners\<close>

lemma claimNamespaces_lookup:
  "claimNamespaces name nss owners ns =
     (case owners ns of Some o' \<Rightarrow> Some o' | None \<Rightarrow> if ns \<in> set nss then Some name else None)"
  by (induction nss arbitrary: owners) (auto simp: claimNamespaces_def split: option.splits)

lemma foldl_claim:
  "foldl (\<lambda>ow g. if P g then claimNamespaces (gName g) (nssOf g) ow else ow) owners gs ns =
     (case owners ns of Some o' \<Rightarrow> Some o'
      | None \<Rightarrow> map_option gName (find (\<lambda>g. P g \<and> ns \<in> set (nssOf g)) gs))"
  by (induction gs arbitrary: owners) (auto simp: claimNamespaces_lookup split: option.splits)

lemma NamespaceOwners_first:
  "NamespaceOwners groups ns =
     map_option gName
       (case find (\<lambda>g. ns \<in> set (gNamespaces (Spec g))) (orderedGroups groups) of
          Some g \<Rightarrow> Some g
        | None \<Rightarrow> find (\<lambda>g. NamespaceSelector (Spec g) \<noteq> None \<and> ns \<in> set (SelectedNamespaces (Status g)))
                    (orderedGroups groups))"
  using foldl_claim [of "\<lambda>_. True" "\<lambda>g. gNamespaces (Spec g)" Map.empty "orderedGroups groups" ns]
  by (simp add: NamespaceOwners_def Let_def foldl_claim split: option.split)

lemma find_None_set: "find P xs = None \<longleftrightarrow> (\<forall>x \<in> set xs. \<not> P x)"
  by (auto simp: find_None_iff)

lemma set_orderedGroups: "set (orderedGroups groups) = {g \<in> set groups. \<not> gDryRun (Spec g)}"
  by (auto simp: orderedGroups_def)

lemma find_sorted:
  assumes "sorted (map k xs)" "find P xs = Some x" "y \<in> set xs" "P y"
  shows "k x \<le> k y"
  using assms by (induction xs) (auto split: if_splits)

lemma member_owned:
  assumes "g \<in> set groups" "\<not> gDryRun (Spec g)" "ns \<in> set (Members g)"
  shows "NamespaceOwners groups ns \<noteq> None"
proof -
  have g: "g \<in> set (orderedGroups groups)" using assms(1,2) by (simp add: set_orderedGroups)
  have "ns \<in> set (gNamespaces (Spec g))
      \<or> NamespaceSelector (Spec g) \<noteq> None \<and> ns \<in> set (SelectedNamespaces (Status g))"
    using assms(3) by (auto simp: set_Members split: if_splits)
  with g have "find (\<lambda>g. ns \<in> set (gNamespaces (Spec g))) (orderedGroups groups) \<noteq> None
      \<or> find (\<lambda>g. NamespaceSelector (Spec g) \<noteq> None \<and> ns \<in> set (SelectedNamespaces (Status g)))
          (orderedGroups groups) \<noteq> None"
    unfolding find_None_set by blast
  then show ?thesis unfolding NamespaceOwners_first by (auto split: option.split)
qed

lemma finishPlan_simps [simp]:
  "pDecision (finishPlan groups name g p) = pDecision p"
  "RequiredBy (finishPlan groups name g p) = RequiredBy p"
  "InCycle (finishPlan groups name g p) = InCycle p"
  "ConflictingNamespaces (finishPlan groups name g p) = conflictsOf (NamespaceOwners groups) name g"
  "WaitingFor (finishPlan groups name g p) = (if InCycle p then [] else waitingOf groups g)"
  "MissingDependencies (finishPlan groups name g p) = (if InCycle p then [] else missingOf groups g)"
  by (simp_all add: finishPlan_def Let_def)

lemma ownPlan_simps [simp]:
  "RequiredBy (ownPlan zi now groups calendars name g req) = sort req"
  "InCycle (ownPlan zi now groups calendars name g req) = (name \<in> set (cyclicGroups groups))"
  "pDecision (ownPlan zi now groups calendars name g req) =
     (let own = fst (ownDecision zi now g calendars)
      in if \<not> isManual own \<and> \<not> dActive own \<and> req \<noteq> [] then plainDecision True ModeDependency None else own)"
proof -
  have "sort req = [] \<longleftrightarrow> req = []" by (metis length_0_conv length_sort)
  then show "pDecision (ownPlan zi now groups calendars name g req) =
     (let own = fst (ownDecision zi now g calendars)
      in if \<not> isManual own \<and> \<not> dActive own \<and> req \<noteq> [] then plainDecision True ModeDependency None else own)"
    by (simp add: ownPlan_def Let_def split: prod.split)
qed (simp_all add: ownPlan_def Let_def split: prod.split)

text \<open>The final plans as an equation system: each plan in terms of those of its dependents.\<close>

lemma PlanGroups_solution:
  obtains plans where "PlanGroups zi now groups calendars = Some plans" "dom plans = gName ` set groups"
    "\<And>name g. byName groups name = Some g \<Longrightarrow> plans name =
       Some (finishPlan groups name g (ownPlan zi now groups calendars name g (requiredIn groups plans name g)))"
proof -
  obtain raw where raw:
    "PlanGroups zi now groups calendars = Some (\<lambda>name. case (raw name, byName groups name) of
        (Some p, Some g) \<Rightarrow> Some (finishPlan groups name g p) | _ \<Rightarrow> None)"
    "\<And>name. name \<in> gName ` set groups \<Longrightarrow> planSolved zi now groups calendars raw name"
    by (rule PlanGroups_plans [of zi now groups calendars]) (rule that)
  define plans where "plans name = (case (raw name, byName groups name) of
        (Some p, Some g) \<Rightarrow> Some (finishPlan groups name g p) | _ \<Rightarrow> None)" for name
  have eq: "plans name = Some (finishPlan groups name g
      (ownPlan zi now groups calendars name g (requiredIn groups raw name g)))
      \<and> (\<forall>d \<in> set (dependents groups name). raw d \<noteq> None)"
    if "byName groups name = Some g" for name g
  proof -
    have "name \<in> gName ` set groups" using byName_Some [OF that] by blast
    from raw(2) [OF this] that show ?thesis by (auto simp: planSolved_def plans_def)
  qed
  have same: "requiredIn groups raw name g = requiredIn groups plans name g"
    if "byName groups name = Some g" for name g
    unfolding requiredIn_def
  proof (intro filter_cong refl)
    fix d assume d: "d \<in> set (dependents groups name)"
    with eq [OF that] obtain p where p: "raw d = Some p" by blast
    have "d \<in> gName ` set groups" using plan.inside [OF d] by (simp add: groupNames_props(2))
    then obtain dg where "byName groups d = Some dg"
      using byName_None [of groups d] by (cases "byName groups d") auto
    with p show "needsUp (the (raw d)) (the (byName groups d)) g = needsUp (the (plans d)) (the (byName groups d)) g"
      by (simp add: plans_def needsUp_def)
  qed
  show ?thesis
  proof (rule that)
    show "PlanGroups zi now groups calendars = Some plans" unfolding raw(1) plans_def ..
    show sol: "plans name =
       Some (finishPlan groups name g (ownPlan zi now groups calendars name g (requiredIn groups plans name g)))"
      if "byName groups name = Some g" for name g
      using eq [OF that] same [OF that] by simp
    have none: "plans name = None" if "byName groups name = None" for name
      using that by (simp add: plans_def split: option.split)
    show "dom plans = gName ` set groups"
    proof (intro set_eqI)
      fix name
      show "name \<in> dom plans \<longleftrightarrow> name \<in> gName ` set groups"
        using sol [of name] none [of name] byName_None [of groups name]
        by (cases "byName groups name") auto
    qed
  qed
qed

subsection \<open>Two groups for concrete checks\<close>

definition sampleGroup :: "string \<Rightarrow> string list \<Rightarrow> bool option \<Rightarrow> string list \<Rightarrow> ScalingGroup" where
  "sampleGroup name deps active nss =
     \<lparr>gName = name, gNamespace = ''ops'', gUID = name, gGeneration = 1, gAnnotations = Map.empty,
      gCreated = 0, gDeleted = None, gFinalizers = [],
      Spec = \<lparr>Category = [], gNamespaces = nss, NamespaceSelector = None, gActive = active,
        gActiveUntil = None, gSchedules = [thursdaySchedule], gHibernate = [], gExceptions = [],
        gCalendars = [], gSequence = [], ExternalTargets = [], gFeatureFlags = None, DependsOn = deps,
        Activation = [], gDryRun = False, gPauseGitOps = False, gSleepPage = False, gIdleAfter = None,
        gPrewarm = None\<rparr>,
      Status = \<lparr>gPhase = PhaseScaledDown, gLastAction = 0, gOriginalReplicas = [], ManagedCount = 0,
        NamespacesReady = 0, NamespacesTotal = 0, ReadyNamespaces = [], CurrentStage = 0,
        SkippedNamespaces = [], gsRequiredBy = [], ManagedNamespaces = [], SelectedNamespaces = [],
        gsConflictingNamespaces = [], StoppedExternalTargets = [],
        gScheduleStatus = emptyScheduleStatus, gConditions = []\<rparr>\<rparr>"

definition webAndDb :: "ScalingGroup list" where
  "webAndDb = [sampleGroup ''web'' [''db''] (Some True) [''shop''], sampleGroup ''db'' [] None [''shop'']]"

lemma webAndDb_lookup:
  "byName webAndDb ''web'' = Some (sampleGroup ''web'' [''db''] (Some True) [''shop''])"
  "byName webAndDb ''db'' = Some (sampleGroup ''db'' [] None [''shop''])"
  by (simp_all add: byName_def webAndDb_def sampleGroup_def)

lemma webAndDb_acyclic: "cyclicGroups webAndDb = []"
proof -
  have names: "groupNames webAndDb = [''db'', ''web'']"
    by (simp add: groupNames_def webAndDb_def sampleGroup_def)
  have g: "groupGraph webAndDb ''web'' = Some [''db'']" "groupGraph webAndDb ''db'' = Some []"
    by (simp_all add: groupGraph_def webAndDb_lookup sampleGroup_def)
  show ?thesis
    by (simp add: cyclicGroups_def findCycles_def runCycles_def names edgesOf_def g numeral_2_eq_2)
qed

lemma webAndDb_web: "ownDecision zi now (sampleGroup ''web'' [''db''] (Some True) [''shop'']) calendars
    = (\<lparr>dActive = True, dMode = ModeManualUp, dOverrideExpiresAt = None, dNextTransition = None,
        dException = [], dExceptionEndsAt = None, dPrewarmLead = 0\<rparr>, [])"
  by (simp add: ownDecision_def groupTimetable_def ResolveExceptions_def sampleGroup_def Let_def Decide_def
      decide_def legacyOverride_def EffectiveOverride_def manualMode_def isManual_def ApplyIdle_def
      IdleUntil_def emptyScheduleStatus_def plainDecision_def PrewarmLead_def)

subsection \<open>Properties\<close>

text \<open>C38. Planning always ends with a plan for every group, and the state of a group follows from
  its own decision and its dependents: the groups it is required by are, sorted, those outside
  cycles that list it in dependsOn and either are to be up or are still going down while this
  one runs; with such a dependent it is up unless a manual override keeps it down; without, and
  with a manual override, its own decision stands.\<close>

theorem PlanGroups_by_dependents:
  "\<exists>plans. PlanGroups zi now groups calendars = Some plans \<and> dom plans = gName ` set groups \<and>
     (\<forall>name g. byName groups name = Some g \<longrightarrow>
       (let p = the (plans name); own = fst (ownDecision zi now g calendars)
        in sorted (RequiredBy p)
         \<and> set (RequiredBy p) = {d. d \<in> gName ` set groups \<and> d \<noteq> name
              \<and> name \<in> set (DependsOn (Spec (the (byName groups d))))
              \<and> d \<notin> set (cyclicGroups groups) \<and> name \<notin> set (cyclicGroups groups)
              \<and> (dActive (pDecision (the (plans d)))
                 \<or> gPhase (Status (the (byName groups d))) \<noteq> PhaseScaledDown \<and> isRunning (gPhase (Status g)))}
         \<and> pDecision p = (if isManual own \<or> dActive own \<or> RequiredBy p = [] then own
                          else plainDecision True ModeDependency None)))"
proof -
  obtain plans where p: "PlanGroups zi now groups calendars = Some plans" "dom plans = gName ` set groups"
    "\<And>name g. byName groups name = Some g \<Longrightarrow> plans name =
       Some (finishPlan groups name g (ownPlan zi now groups calendars name g (requiredIn groups plans name g)))"
    by (rule PlanGroups_solution [of zi now groups calendars]) (rule that)
  have req: "set (requiredIn groups plans name g) = {d. d \<in> gName ` set groups \<and> d \<noteq> name
              \<and> name \<in> set (DependsOn (Spec (the (byName groups d))))
              \<and> d \<notin> set (cyclicGroups groups) \<and> name \<notin> set (cyclicGroups groups)
              \<and> (dActive (pDecision (the (plans d)))
                 \<or> gPhase (Status (the (byName groups d))) \<noteq> PhaseScaledDown \<and> isRunning (gPhase (Status g)))}"
    if g: "byName groups name = Some g" for name g
  proof -
    have rel: "(d, name) \<in> dependsOnRel (groupGraph groups) \<longleftrightarrow>
        d \<in> gName ` set groups \<and> name \<in> set (DependsOn (Spec (the (byName groups d))))" for d
    proof (cases "byName groups d")
      case None
      then show ?thesis using byName_None [of groups d]
        by (simp add: dependsOnRel_def edgesOf_def groupGraph_def)
    next
      case (Some dg)
      then have "d \<in> gName ` set groups" using byName_Some by blast
      with Some g show ?thesis by (simp add: dependsOnRel_def edgesOf_groupGraph groupGraph_def)
    qed
    show ?thesis by (auto simp: requiredIn_def in_dependents rel needsUp_def)
  qed
  have "RequiredBy (the (plans name)) = [] \<longleftrightarrow> requiredIn groups plans name g = []"
    if "byName groups name = Some g" for name g
    using p(3) [OF that] by (simp flip: length_0_conv)
  then show ?thesis
    by (intro exI [of _ plans] conjI allI impI) (use p req in \<open>auto simp: Let_def\<close>)
qed

lemma PlanGroups_by_dependents_witness:
  "\<exists>plans. PlanGroups utcZones 0 webAndDb [] = Some plans
     \<and> pDecision (the (plans ''web'')) = fst (ownDecision utcZones 0 (the (byName webAndDb ''web'')) [])"
  using PlanGroups_by_dependents [of utcZones 0 webAndDb "[]"] webAndDb_lookup(1) webAndDb_web
  by (fastforce simp: Let_def)

text \<open>Planning is closed under dependencies: when a group is to be up, every group it depends
  on is to be up too, unless a manual override keeps that one down or one of the two lies on
  a marked cycle.\<close>

theorem PlanGroups_closed:
  assumes "PlanGroups zi now groups calendars = Some plans"
    and "byName groups d = Some dg" "byName groups name = Some g" "name \<in> set (DependsOn (Spec dg))" "d \<noteq> name"
    and "dActive (pDecision (the (plans d)))" "\<not> InCycle (the (plans d))" "\<not> InCycle (the (plans name))"
  shows "dActive (pDecision (the (plans name))) \<or> isManual (pDecision (the (plans name)))"
proof -
  obtain plans' where "PlanGroups zi now groups calendars = Some plans'"
    and eq: "\<And>name g. byName groups name = Some g \<Longrightarrow> plans' name =
       Some (finishPlan groups name g (ownPlan zi now groups calendars name g (requiredIn groups plans' name g)))"
    by (rule PlanGroups_solution [of zi now groups calendars]) (rule that)
  with assms(1) have eq: "byName groups name = Some g \<Longrightarrow> plans name =
       Some (finishPlan groups name g (ownPlan zi now groups calendars name g (requiredIn groups plans name g)))"
    for name g by simp
  have "(d, name) \<in> dependsOnRel (groupGraph groups)"
    using assms(2-4) by (simp add: dependsOnRel_def edgesOf_groupGraph groupGraph_def)
  moreover have "d \<notin> set (cyclicGroups groups)" "name \<notin> set (cyclicGroups groups)"
    using assms(7,8) eq [OF assms(2)] eq [OF assms(3)] by simp_all
  ultimately have "d \<in> set (dependents groups name)" using assms(5) by (simp add: in_dependents)
  then have "d \<in> set (requiredIn groups plans name g)"
    using assms(6) by (simp add: requiredIn_def needsUp_def)
  then have "requiredIn groups plans name g \<noteq> []" by auto
  with eq [OF assms(3)] show ?thesis by (auto simp: Let_def isManual_def)
qed

lemma PlanGroups_closed_witness:
  "\<exists>plans. PlanGroups utcZones 0 webAndDb [] = Some plans
     \<and> (dActive (pDecision (the (plans ''db''))) \<or> isManual (pDecision (the (plans ''db''))))"
proof -
  obtain plans where p: "PlanGroups utcZones 0 webAndDb [] = Some plans"
    and eq: "\<And>name g. byName webAndDb name = Some g \<Longrightarrow> plans name =
       Some (finishPlan webAndDb name g (ownPlan utcZones 0 webAndDb [] name g (requiredIn webAndDb plans name g)))"
    by (rule PlanGroups_solution [of utcZones 0 webAndDb "[]"]) (rule that)
  have "dActive (pDecision (the (plans ''web'')))" "\<not> InCycle (the (plans ''web''))" "\<not> InCycle (the (plans ''db''))"
    using eq [OF webAndDb_lookup(1)] eq [OF webAndDb_lookup(2)]
    by (simp_all add: webAndDb_acyclic webAndDb_web)
  moreover have "''db'' \<in> set (DependsOn (Spec (sampleGroup ''web'' [''db''] (Some True) [''shop''])))"
    by (simp add: sampleGroup_def)
  ultimately show ?thesis
    using PlanGroups_closed [OF p webAndDb_lookup] p by simp
qed

text \<open>What is marked as part of a dependency cycle lies on one, and ignoring the dependencies
  between marked groups leaves no cycle, so that a cycle can neither deadlock the others nor
  pin groups up; the search itself always ends.\<close>

theorem cyclicGroups_breaks_cycles:
  "runCycles (groupGraph groups) (groupNames groups) \<noteq> None
   \<and> set (cyclicGroups groups) \<subseteq> {m. (m, m) \<in> (dependsOnRel (groupGraph groups))\<^sup>+}
   \<and> acyclic {(a, b). (a, b) \<in> dependsOnRel (groupGraph groups)
                \<and> \<not> (a \<in> set (cyclicGroups groups) \<and> b \<in> set (cyclicGroups groups))}"
proof -
  have dom: "set (groupNames groups) = dom (groupGraph groups)"
    by (simp only: groupGraph_dom groupNames_props)
  have "runCycles (groupGraph groups) (groupNames groups) \<noteq> None"
    by (rule runCycles_correct [OF groupNames_props(1) dom]) simp
  moreover have "{(a, b). (a, b) \<in> dependsOnRel (groupGraph groups)
                \<and> \<not> (a \<in> set (cyclicGroups groups) \<and> b \<in> set (cyclicGroups groups))} =
      {(v, u). (u, v) \<in> dependsOnRel (groupGraph groups)
          \<and> \<not> (u \<in> set (cyclicGroups groups) \<and> v \<in> set (cyclicGroups groups))}\<inverse>" by auto
  ultimately show ?thesis
    using findCycles_sound [OF groupNames_props(1) dom]
      wf_acyclic [OF findCycles_wf [OF groupNames_props(1) dom]]
    by (auto simp: cyclicGroups_def acyclic_converse)
qed

text \<open>Not every group on a cycle is marked: of the groups a, b and c with a depending on b and
  c, b on a and c on b, the search marks a and b but not c, which lies on the cycle of a, c
  and b.\<close>

theorem findCycles_incomplete:
  "findCycles [''a'' \<mapsto> [''b'', ''c''], ''b'' \<mapsto> [''a''], ''c'' \<mapsto> [''b'']] [''a'', ''b'', ''c''] = [''a'', ''b'']
   \<and> (''c'', ''c'') \<in> (dependsOnRel [''a'' \<mapsto> [''b'', ''c''], ''b'' \<mapsto> [''a''], ''c'' \<mapsto> [''b'']])\<^sup>+"
proof
  let ?g = "[''a'' \<mapsto> [''b'', ''c''], ''b'' \<mapsto> [''a''], ''c'' \<mapsto> [''b'']]"
  show "findCycles ?g [''a'', ''b'', ''c''] = [''a'', ''b'']"
    by (simp add: findCycles_def runCycles_def edgesOf_def numeral_3_eq_3 addAllNew_def addNew_def)
  have "(''c'', ''b'') \<in> dependsOnRel ?g" "(''b'', ''a'') \<in> dependsOnRel ?g" "(''a'', ''c'') \<in> dependsOnRel ?g"
    by (simp_all add: dependsOnRel_def edgesOf_def)
  then show "(''c'', ''c'') \<in> (dependsOnRel ?g)\<^sup>+" by (meson trancl.simps)
qed



text \<open>The owner of a namespace is the oldest group that lists it by name, names breaking ties;
  only when none does, the oldest whose selector matched it. Groups in a dry run own nothing.\<close>

theorem NamespaceOwners_oldest:
  assumes "NamespaceOwners groups ns = Some name"
  shows "\<exists>g \<in> set groups. gName g = name \<and> \<not> gDryRun (Spec g) \<and>
     (if \<exists>h \<in> set groups. \<not> gDryRun (Spec h) \<and> ns \<in> set (gNamespaces (Spec h))
      then ns \<in> set (gNamespaces (Spec g)) \<and>
        (\<forall>h \<in> set groups. \<not> gDryRun (Spec h) \<and> ns \<in> set (gNamespaces (Spec h))
           \<longrightarrow> (gCreated g, gName g) \<le> (gCreated h, gName h))
      else NamespaceSelector (Spec g) \<noteq> None \<and> ns \<in> set (SelectedNamespaces (Status g)) \<and>
        (\<forall>h \<in> set groups. \<not> gDryRun (Spec h) \<and> NamespaceSelector (Spec h) \<noteq> None
             \<and> ns \<in> set (SelectedNamespaces (Status h))
           \<longrightarrow> (gCreated g, gName g) \<le> (gCreated h, gName h)))"
proof -
  let ?o = "orderedGroups groups"
  have srt: "sorted (map olderGroup ?o)" by (simp add: orderedGroups_def)
  note mem = set_orderedGroups [of groups]
  show ?thesis
  proof (cases "find (\<lambda>g. ns \<in> set (gNamespaces (Spec g))) ?o")
    case (Some g)
    with assms have n: "gName g = name" by (simp add: NamespaceOwners_first)
    from find_in [OF Some] mem have g: "g \<in> set groups" "\<not> gDryRun (Spec g)" "ns \<in> set (gNamespaces (Spec g))" by auto
    have "(gCreated g, gName g) \<le> (gCreated h, gName h)"
      if "h \<in> set groups" "\<not> gDryRun (Spec h)" "ns \<in> set (gNamespaces (Spec h))" for h
      using find_sorted [OF srt Some, of h] that mem by (simp add: olderGroup_def)
    with g n show ?thesis by auto
  next
    case None
    then have no: "\<not> (\<exists>h \<in> set groups. \<not> gDryRun (Spec h) \<and> ns \<in> set (gNamespaces (Spec h)))"
      using mem by (auto simp: find_None_set)
    from None assms obtain g where s:
      "find (\<lambda>g. NamespaceSelector (Spec g) \<noteq> None \<and> ns \<in> set (SelectedNamespaces (Status g))) ?o = Some g"
      and n: "gName g = name" by (auto simp: NamespaceOwners_first)
    from find_in [OF s] mem have g: "g \<in> set groups" "\<not> gDryRun (Spec g)"
      "NamespaceSelector (Spec g) \<noteq> None" "ns \<in> set (SelectedNamespaces (Status g))" by auto
    have "(gCreated g, gName g) \<le> (gCreated h, gName h)"
      if "h \<in> set groups" "\<not> gDryRun (Spec h)" "NamespaceSelector (Spec h) \<noteq> None"
        "ns \<in> set (SelectedNamespaces (Status h))" for h
      using find_sorted [OF srt s, of h] that mem by (simp add: olderGroup_def)
    with g n no show ?thesis by auto
  qed
qed

lemma NamespaceOwners_oldest_witness:
  "NamespaceOwners webAndDb ''shop'' = Some ''db''
   \<and> (\<exists>g \<in> set webAndDb. gName g = ''db'' \<and> ''shop'' \<in> set (gNamespaces (Spec g)))"
proof -
  have ow: "NamespaceOwners webAndDb ''shop'' = Some ''db''"
    by (simp add: NamespaceOwners_first orderedGroups_def webAndDb_def sampleGroup_def olderGroup_def)
  have "\<exists>h \<in> set webAndDb. \<not> gDryRun (Spec h) \<and> ''shop'' \<in> set (gNamespaces (Spec h))"
    by (simp add: webAndDb_def sampleGroup_def)
  with NamespaceOwners_oldest [OF ow] ow show ?thesis by auto
qed

text \<open>A namespace selector never takes the operator's own namespace, a kube namespace, one
  that opted out or one being deleted, and takes nothing at all when it is empty or invalid.\<close>

theorem SelectNamespaces_safe:
  assumes "SelectNamespaces asSelector selector namespaces operatorNamespace = Inr nss" "ns \<in> set nss"
  shows "\<exists>obj \<in> set namespaces. nsName obj = ns \<and> ns \<noteq> operatorNamespace \<and> \<not> hasPrefix ns ''kube-''
     \<and> nsLabels obj OptOutLabel \<noteq> Some ''off'' \<and> \<not> nsDeleting obj
     \<and> (\<exists>s matches. selector = Some s \<and> (MatchLabels s \<noteq> [] \<or> MatchExpressions s \<noteq> [])
           \<and> asSelector s = Some matches \<and> matches (nsLabels obj))"
  using assms
  by (force simp: SelectNamespaces_def ProtectedNamespace_def split: option.splits if_splits)

lemma SelectNamespaces_safe_witness:
  "SelectNamespaces (\<lambda>s. Some (\<lambda>labels. True)) (Some \<lparr>MatchLabels = [(''team'', ''a'')], MatchExpressions = []\<rparr>)
     [\<lparr>nsName = ''kube-system'', nsLabels = Map.empty, nsDeleting = False\<rparr>,
      \<lparr>nsName = ''shop'', nsLabels = Map.empty, nsDeleting = False\<rparr>] ''costdeck'' = Inr [''shop'']
   \<and> \<not> hasPrefix ''shop'' ''kube-''"
proof -
  have e: "SelectNamespaces (\<lambda>s. Some (\<lambda>labels. True)) (Some \<lparr>MatchLabels = [(''team'', ''a'')], MatchExpressions = []\<rparr>)
     [\<lparr>nsName = ''kube-system'', nsLabels = Map.empty, nsDeleting = False\<rparr>,
      \<lparr>nsName = ''shop'', nsLabels = Map.empty, nsDeleting = False\<rparr>] ''costdeck'' = Inr [''shop'']"
    by (simp add: SelectNamespaces_def ProtectedNamespace_def hasPrefix_def)
  from SelectNamespaces_safe [OF e, of "''shop''"] e show ?thesis by simp
qed

end
