(* ===== verification/StatusReport.thy ===== *)
theory StatusReport
  imports Previews GroupPlans
begin

section \<open>What the status says (internal/controller/schedule\_status.go)\<close>

text \<open>
  The part of the status ScalingGroups and ScalingConfigs share: conditions and their messages,
  the decision, the clock of wake-ups, the requeue interval, and the log that decides which
  transitions are announced. The lemmas show that the log announces the settled phases of an
  object without repetition, that the recorded wake-ups stay within the bounds prewarm relies
  on, and that a settled target is looked at again in time for its next transition.
\<close>

abbreviation ConditionReady :: string where "ConditionReady \<equiv> ''Ready''"
abbreviation ConditionManualOverride :: string where "ConditionManualOverride \<equiv> ''ManualOverride''"
abbreviation ConditionDependenciesReady :: string where "ConditionDependenciesReady \<equiv> ''DependenciesReady''"
abbreviation ConditionNamespaceConflict :: string where "ConditionNamespaceConflict \<equiv> ''NamespaceConflict''"
abbreviation ConditionExceptionsApplied :: string where "ConditionExceptionsApplied \<equiv> ''ExceptionsApplied''"
abbreviation ConditionDryRun :: string where "ConditionDryRun \<equiv> ''DryRun''"

text \<open>The conditions as a map from their type (\<open>meta.SetStatusCondition\<close> and its companions).\<close>

definition setCondition :: "string \<Rightarrow> bool \<Rightarrow> string \<Rightarrow> string \<Rightarrow> int \<Rightarrow> conditions \<Rightarrow> conditions" where
  "setCondition type status reason message generation =
     AList.update type \<lparr>condStatus = status, condReason = reason, condMessage = message, condGeneration = generation\<rparr>"

definition removeCondition :: "string \<Rightarrow> conditions \<Rightarrow> conditions" where
  "removeCondition type = AList.delete type"

lemma map_of_setCondition [simp]:
  "map_of (setCondition t s r m g conds) = (map_of conds)(t \<mapsto> \<lparr>condStatus = s, condReason = r, condMessage = m, condGeneration = g\<rparr>)"
  by (simp add: setCondition_def update_conv')

lemma map_of_removeCondition [simp]: "map_of (removeCondition t conds) = (map_of conds)(t := None)"
  by (simp add: removeCondition_def delete_conv')

subsection \<open>Texts\<close>

primrec modeText :: "mode \<Rightarrow> string" where
  "modeText ModeUnset = []"
| "modeText ModeSchedule = ''Schedule''"
| "modeText ModeManualUp = ''ManualUp''"
| "modeText ModeManualDown = ''ManualDown''"
| "modeText ModeException = ''Exception''"
| "modeText ModeAlwaysOn = ''AlwaysOn''"
| "modeText ModeDependency = ''Dependency''"
| "modeText ModePrewarm = ''Prewarm''"
| "modeText ModeOnDemand = ''OnDemand''"
| "modeText ModeIdle = ''Idle''"

primrec phaseText :: "phase \<Rightarrow> string" where
  "phaseText PhaseUnset = []"
| "phaseText PhaseScaledUp = ''ScaledUp''"
| "phaseText PhaseScalingUp = ''ScalingUp''"
| "phaseText PhaseScaledDown = ''ScaledDown''"
| "phaseText PhaseScalingDown = ''ScalingDown''"
| "phaseText PhaseDryRun = ''DryRun''"
| "phaseText PhaseWaitingForDependencies = ''WaitingForDependencies''"
| "phaseText PhaseOverriddenByGroup = ''OverriddenByGroup''"

primrec problemText :: "problem \<Rightarrow> string" where
  "problemText (CalendarMissing name) = ''calendar '' @ quoted name @ '' does not exist''"
| "problemText (InCalendar name p) = ''calendar '' @ quoted name @ '': '' @ problemText p"
| "problemText (UnknownTimezone label z) = ''exception '' @ quoted label @ '': unknown timezone '' @ quoted z"
| "problemText (BadStart label s) =
     ''exception '' @ quoted label @ '': start '' @ quoted s @ '' is not a date or date and time''"
| "problemText (BadEnd label s) =
     ''exception '' @ quoted label @ '': end '' @ quoted s @ '' is not a date or date and time''"
| "problemText (EndsBeforeStart label) = ''exception '' @ quoted label @ '': ends before it starts''"
| "problemText (BadState label s) =
     ''exception '' @ quoted label @ '': state must be Up or Down, not '' @ quoted s"

subsection \<open>Conditions\<close>

definition dryRunMessage :: "string \<Rightarrow> bool \<Rightarrow> nat \<Rightarrow> nat \<Rightarrow> nat \<Rightarrow> string list \<Rightarrow> string" where
  "dryRunMessage kind active workloads namespaces cloud waitingFor =
     (let verb = (if active then ''start'' else ''scale down'');
          parts =
            (if 0 < workloads then [verb @ '' '' @ itoa (int workloads) @ '' workload(s) in '' @ itoa (int namespaces) @ '' namespace(s)''] else [])
            @ (if 0 < cloud then [verb @ '' '' @ itoa (int cloud) @ '' cloud resource(s)''] else [])
      in (if parts = [] then ''Nothing to change: everything is already '' @ (if active then ''up'' else ''down'') @ ''.''
          else ''Would '' @ join '' and '' parts @ '' now.'')
         @ (if waitingFor = [] then [] else '' It would first wait for '' @ join '', '' waitingFor @ ''.'')
         @ '' Nothing is scaled while the '' @ kind @ [CHR 0x27] @ ''s spec.dryRun is true.'')"

definition setDryRunCondition :: "string \<Rightarrow> int \<Rightarrow> conditions \<Rightarrow> conditions" where
  "setDryRunCondition message generation conds =
     (if message = [] then removeCondition ConditionDryRun conds
      else setCondition ConditionReady False ''DryRun'' ''Nothing is scaled in a dry run.'' generation
             (setCondition ConditionDryRun True ''DryRun'' message generation conds))"

definition setExceptionsCondition :: "problem list \<Rightarrow> int \<Rightarrow> conditions \<Rightarrow> conditions" where
  "setExceptionsCondition problems generation conds =
     (if problems = [] then removeCondition ConditionExceptionsApplied conds
      else setCondition ConditionExceptionsApplied False ''Invalid''
             (''Not applied: '' @ join ''; '' (map problemText problems) @ ''.'') generation conds)"

definition setReadyCondition :: "phase \<Rightarrow> bool \<Rightarrow> int \<Rightarrow> string \<Rightarrow> conditions \<Rightarrow> conditions" where
  "setReadyCondition ph desiredActive generation detail =
     (if ph = (if desiredActive then PhaseScaledUp else PhaseScaledDown)
      then setCondition ConditionReady True (phaseText ph) ''All targets reached the desired state.'' generation
      else setCondition ConditionReady False (phaseText ph)
             (if detail = [] then ''Scaling is in progress.'' else detail) generation)"

subsection \<open>The decision\<close>

text \<open>The minutes of the lead, as the status and the message give them.\<close>

definition wholeMinutes :: "duration \<Rightarrow> int" where
  "wholeMinutes d = sgn d * (\<bar>d\<bar> div minute)"

text \<open>The reason and the message of the ManualOverride condition. A decision by an exception
  says when the exception ends (\<open>decide_exception_ends\<close>).\<close>

definition overrideMessage :: "Decision \<Rightarrow> string \<Rightarrow> string \<times> string" where
  "overrideMessage d kind =
     (case dMode d of
        ModeDependency \<Rightarrow> (''RequiredByDependents'', ''The '' @ kind @ '' is kept up for the groups that depend on it (status.requiredBy).'')
      | ModeOnDemand \<Rightarrow> (''OnDemand'', ''The '' @ kind @ '' only runs while a group that depends on it needs it.'')
      | ModeAlwaysOn \<Rightarrow> (''NoSchedule'', ''The '' @ kind @ '' has no usable schedule and is kept up as a fail-safe.'')
      | ModeIdle \<Rightarrow> (''Idle'', ''The '' @ kind @ '' sleeps for being unused (status.idleUntil); a manual start wakes it.'')
      | ModePrewarm \<Rightarrow> (''Prewarm'', ''The '' @ kind @ '' is started '' @ itoa (wholeMinutes (dPrewarmLead d))
            @ '' minutes ahead of its schedule so it is ready when the schedule starts (spec.prewarm).'')
      | ModeException \<Rightarrow> (''Exception'', ''The '' @ kind @ '' is kept '' @ toLower (State d) @ '' for '' @ quoted (dException d)
            @ '' until '' @ (case dExceptionEndsAt d of Some t \<Rightarrow> formatRFC3339 t | None \<Rightarrow> []) @ ''; then the schedule takes over.'')
      | _ \<Rightarrow>
          if isManual d then
            (modeText (dMode d), ''The '' @ kind @ '' is forced '' @ State d @ '' and its schedule is ignored ''
              @ (case dOverrideExpiresAt d of Some t \<Rightarrow> ''until '' @ formatRFC3339 t | None \<Rightarrow> ''until spec.active is removed'')
              @ ''.'')
          else (''ScheduleInControl'', ''The schedule decides the desired state.''))"

definition applyDecision ::
    "Decision \<Rightarrow> int \<Rightarrow> string \<Rightarrow> ScheduleStatus \<times> conditions \<Rightarrow> ScheduleStatus \<times> conditions" where
  "applyDecision d generation kind =
     (\<lambda>(st, conds).
       (st\<lparr>Mode := dMode d, DesiredState := State d, PrewarmMinutes := i32 (wholeMinutes (dPrewarmLead d)),
           ssException := dException d, ExceptionEndsAt := dExceptionEndsAt d,
           OverrideExpiresAt := dOverrideExpiresAt d,
           NextTransition := map_option (\<lambda>t. \<lparr>stTime = t, stDesiredState = if dActive d then StateDown else StateUp\<rparr>)
                               (dNextTransition d)\<rparr>,
        setCondition ConditionManualOverride (isManual d) (fst (overrideMessage d kind)) (snd (overrideMessage d kind))
          generation conds))"

subsection \<open>The clock\<close>

text \<open>\<open>t.Sub(u)\<close> saturates at the ends of a duration.\<close>

definition timeSub :: "time \<Rightarrow> time \<Rightarrow> duration" where
  "timeSub t u = max (- (2 ^ 63)) (min (2 ^ 63 - 1) (t - u))"

definition settledRequeue :: "Decision \<Rightarrow> time \<Rightarrow> duration" where
  "settledRequeue d now =
     (case dNextTransition d of
        None \<Rightarrow> minute
      | Some next \<Rightarrow>
          (let wait = i64 (timeSub next now + second)
           in if wait < second then second else min wait minute))"

abbreviation recentWakeUps :: nat where "recentWakeUps \<equiv> 5"

definition trackWakeUp :: "ScheduleStatus \<Rightarrow> phase \<Rightarrow> phase \<Rightarrow> time \<Rightarrow> ScheduleStatus" where
  "trackWakeUp st oldPhase newPhase now =
     (if oldPhase = PhaseScaledDown \<and> (newPhase = PhaseScalingUp \<or> newPhase = PhaseWaitingForDependencies)
      then st\<lparr>WakeUpStartedAt := Some now\<rparr>
      else if newPhase = PhaseScaledUp then
        (case WakeUpStartedAt st of
           None \<Rightarrow> st
         | Some started \<Rightarrow>
             (let took = i32 (durRound second (timeSub now started) div second)
              in st\<lparr>RecentWakeUps := take recentWakeUps (\<lparr>StartedAt = started, Seconds = max took 0\<rparr> # RecentWakeUps st),
                    WakeUpStartedAt := None\<rparr>))
      else if newPhase = PhaseScalingDown \<or> newPhase = PhaseScaledDown then st\<lparr>WakeUpStartedAt := None\<rparr>
      else st)"

subsection \<open>Reading and writing\<close>

definition calendarsOf :: "'w api \<Rightarrow> ('w, HolidayCalendar list) io" where
  "calendarsOf api =
     do { r \<leftarrow> ask (readCalendars api); State_Monad.return (case r of Inl _ \<Rightarrow> [] | Inr cs \<Rightarrow> cs) }"

text \<open>The status is written unless it is what was read; the replica counts are a map, whose order
  does not count.\<close>

definition sameCounts :: "originals \<Rightarrow> originals \<Rightarrow> bool" where
  "sameCounts m n \<longleftrightarrow> sort_key fst (AList.clearjunk m) = sort_key fst (AList.clearjunk n)"

definition updateConfigIfChanged :: "'w api \<Rightarrow> ScalingConfigStatus \<Rightarrow> ScalingConfig \<Rightarrow> ('w, unit reply) io" where
  "updateConfigIfChanged api before config =
     (if sameCounts (cOriginalReplicas before) (cOriginalReplicas (cStatus config))
         \<and> before\<lparr>cOriginalReplicas := []\<rparr> = (cStatus config)\<lparr>cOriginalReplicas := []\<rparr>
      then State_Monad.return (Inr ())
      else act (UpdateConfigStatus config) (updateConfigStatus api config))"

definition updateGroupIfChanged :: "'w api \<Rightarrow> ScalingGroupStatus \<Rightarrow> ScalingGroup \<Rightarrow> ('w, unit reply) io" where
  "updateGroupIfChanged api before g =
     (if sameCounts (gOriginalReplicas before) (gOriginalReplicas (Status g))
         \<and> before\<lparr>gOriginalReplicas := []\<rparr> = (Status g)\<lparr>gOriginalReplicas := []\<rparr>
      then State_Monad.return (Inr ())
      else act (UpdateGroupStatus g) (updateGroupStatus api g))"

text \<open>The price of what is kept down: none without pricing, or when it is zero.\<close>

definition recordSavings :: "'w api \<Rightarrow> int \<times> int \<Rightarrow> ScheduleStatus \<Rightarrow> ('w, ScheduleStatus) io" where
  "recordSavings api requests st =
     do { p \<leftarrow> ask (priceOf api requests);
          State_Monad.return (case p of
              None \<Rightarrow> st\<lparr>EstimatedHourlySavings := [], Currency := []\<rparr>
            | Some (amount, currency) \<Rightarrow> st\<lparr>EstimatedHourlySavings := amount, Currency := currency\<rparr>) }"

subsection \<open>Announcements\<close>

definition settled :: "phase \<Rightarrow> bool" where
  "settled ph \<longleftrightarrow> ph = PhaseScaledUp \<or> ph = PhaseScaledDown"

definition changed :: "string \<Rightarrow> phase \<Rightarrow> phase \<Rightarrow> (string \<rightharpoonup> phase) \<Rightarrow> bool \<times> (string \<rightharpoonup> phase)" where
  "changed uid oldPhase newPhase entries =
     (let known = (if entries uid = None \<and> settled oldPhase then entries(uid \<mapsto> oldPhase) else entries)
      in if \<not> settled newPhase then (False, known)
         else (oldPhase \<noteq> PhaseUnset \<and> oldPhase \<noteq> newPhase \<and> known uid \<noteq> Some newPhase, known(uid \<mapsto> newPhase)))"

definition noteChanged :: "string \<Rightarrow> phase \<Rightarrow> phase \<Rightarrow> ('w, bool) io" where
  "noteChanged uid oldPhase newPhase =
     state.State (\<lambda>w. case changed uid oldPhase newPhase (announcedPhase w) of (c, entries) \<Rightarrow> (c, w\<lparr>announcedPhase := entries\<rparr>))"

definition forgetAnnounced :: "string \<Rightarrow> ('w, unit) io" where
  "forgetAnnounced uid = state.State (\<lambda>w. ((), w\<lparr>announcedPhase := (announcedPhase w)(uid := None)\<rparr>))"

definition announce :: "'w api \<Rightarrow> string \<Rightarrow> string \<Rightarrow> string \<Rightarrow> phase \<Rightarrow> phase \<Rightarrow> ('w, unit) io" where
  "announce api uid kind name oldPhase newPhase =
     (if \<not> notifier api then State_Monad.return ()
      else do { c \<leftarrow> noteChanged uid oldPhase newPhase;
                if c then act (Announce kind name newPhase) (State_Monad.return ()) else State_Monad.return () })"

subsection \<open>Rules for the boundary\<close>

lemma only_noteChanged: "only P (noteChanged uid oldPhase newPhase)"
  by (auto simp: only_def gives_def noteChanged_def split: prod.splits)

lemma only_forgetAnnounced: "only P (forgetAnnounced uid)"
  by (auto simp: only_def gives_def forgetAnnounced_def)

lemma announce_only: "P (Announce kind name newPhase) \<Longrightarrow> only P (announce api uid kind name oldPhase newPhase)"
  unfolding announce_def by (auto intro!: only_bind only_noteChanged only_act only_return)

lemma calendarsOf_reads: "only P (calendarsOf api)"
  unfolding calendarsOf_def by (intro only_intros)

lemma recordSavings_reads: "only P (recordSavings api requests st)"
  unfolding recordSavings_def by (intro only_intros)

lemmas status_intros = calendarsOf_reads recordSavings_reads only_noteChanged only_forgetAnnounced

text \<open>A decision by an exception has the end its message gives.\<close>

lemma decide_exception_ends: "dMode (decide zi now tt a u ann) = ModeException \<Longrightarrow> dExceptionEndsAt (decide zi now tt a u ann) \<noteq> None"
  by (auto simp: decide_def manualMode_def Let_def split: option.splits if_splits)

subsection \<open>The log of announcements\<close>

text \<open>The reconciles of objects in order, each with the phase it found and the phase it left; what
  the log says is worth announcing of one of them.\<close>

type_synonym phaseChange = "string \<times> phase \<times> phase"

fun announcements :: "string \<Rightarrow> phaseChange list \<Rightarrow> (string \<rightharpoonup> phase) \<Rightarrow> phase list" where
  "announcements uid [] entries = []"
| "announcements uid ((u, old, new) # es) entries =
     (case changed u old new entries of (c, entries') \<Rightarrow>
        (if u = uid \<and> c then [new] else []) @ announcements uid es entries')"

text \<open>A reconcile finds the phase the one before left, or one that shows no settled state (a dry
  run, a wait, another owner); \<open>p\<close> is the phase the object had.\<close>

fun follows :: "phase \<Rightarrow> (phase \<times> phase) list \<Rightarrow> bool" where
  "follows p [] \<longleftrightarrow> True"
| "follows p ((old, new) # es) \<longleftrightarrow>
     (old = p \<or> old \<noteq> PhaseUnset \<and> \<not> settled old) \<and> new \<noteq> PhaseUnset \<and> follows new es"

definition ownChanges :: "string \<Rightarrow> phaseChange list \<Rightarrow> (phase \<times> phase) list" where
  "ownChanges uid es = map snd (filter (\<lambda>e. fst e = uid) es)"

lemma changed_other: "u \<noteq> uid \<Longrightarrow> changed u old new entries = (c, entries') \<Longrightarrow> entries' uid = entries uid"
  by (auto simp: changed_def Let_def split: if_splits)

lemma announcements_known:
  "entries uid = Some l \<Longrightarrow> follows p (ownChanges uid es) \<Longrightarrow> p \<noteq> PhaseUnset \<Longrightarrow> (settled p \<Longrightarrow> p = l) \<Longrightarrow>
     announcements uid es entries = tl (remdups_adj (l # filter settled (map snd (ownChanges uid es))))"
proof (induction uid es entries arbitrary: p l rule: announcements.induct)
  case (2 uid u old new es entries)
  obtain c entries' where ch: "changed u old new entries = (c, entries')" by fastforce
  show ?case
  proof (cases "u = uid")
    case False
    with 2 ch show ?thesis by (simp add: ownChanges_def changed_other)
  next
    case True
    with 2 have f: "old = p \<or> old \<noteq> PhaseUnset \<and> \<not> settled old" "new \<noteq> PhaseUnset" "follows new (ownChanges uid es)"
      by (auto simp: ownChanges_def)
    show ?thesis
    proof (cases "settled new")
      case False
      with ch 2(2) True have "\<not> c" "entries' = entries" by (auto simp: changed_def Let_def)
      with 2 f False True ch show ?thesis by (auto simp: ownChanges_def)
    next
      case t: True
      with ch 2(2) True have c: "c \<longleftrightarrow> old \<noteq> PhaseUnset \<and> old \<noteq> new \<and> l \<noteq> new" "entries' uid = Some new"
        by (auto simp: changed_def Let_def)
      with f(1) 2(4,5) t have "c \<longleftrightarrow> l \<noteq> new" by auto
      moreover have "announcements uid es entries' = tl (remdups_adj (new # filter settled (map snd (ownChanges uid es))))"
        using 2(1) ch c(2) f(2,3) t by auto
      ultimately show ?thesis
        using True ch t by (auto simp: ownChanges_def)
    qed
  qed
qed (simp add: ownChanges_def)

lemma remdups_adj_head: "x # tl (remdups_adj (x # xs)) = remdups_adj (x # xs)"
  by (cases xs) auto

lemma announcements_unknown:
  "entries uid = None \<Longrightarrow> follows p (ownChanges uid es) \<Longrightarrow> p \<noteq> PhaseUnset \<Longrightarrow> \<not> settled p \<Longrightarrow>
     announcements uid es entries = remdups_adj (filter settled (map snd (ownChanges uid es)))"
proof (induction uid es entries arbitrary: p rule: announcements.induct)
  case (2 uid u old new es entries)
  obtain c entries' where ch: "changed u old new entries = (c, entries')" by fastforce
  show ?case
  proof (cases "u = uid")
    case False
    with 2 ch show ?thesis by (simp add: ownChanges_def changed_other)
  next
    case True
    with 2 have f: "old \<noteq> PhaseUnset" "\<not> settled old" "new \<noteq> PhaseUnset" "follows new (ownChanges uid es)"
      by (auto simp: ownChanges_def)
    show ?thesis
    proof (cases "settled new")
      case False
      with ch 2(2) True f have "\<not> c" "entries' = entries" by (auto simp: changed_def Let_def)
      with 2 f False True ch show ?thesis by (auto simp: ownChanges_def)
    next
      case t: True
      with ch 2(2) True f have c: "c" "entries' uid = Some new" by (auto simp: changed_def Let_def)
      have "announcements uid es entries' = tl (remdups_adj (new # filter settled (map snd (ownChanges uid es))))"
        by (rule announcements_known [of entries' uid new new es, OF c(2) f(4) f(3)]) simp
      then show ?thesis
        using True ch t c by (simp add: ownChanges_def remdups_adj_head)
    qed
  qed
qed (simp add: ownChanges_def)

subsection \<open>Properties\<close>

text \<open>What is promised of the announcements of an object: its settled phases without repetition.
  The first is not announced when the object is found in it, or is new and settles at once.\<close>

definition announced :: "phase \<Rightarrow> phase list \<Rightarrow> phase list" where
  "announced first phases =
     (let s = remdups_adj (filter settled (first # phases))
      in if settled first \<or> first = PhaseUnset \<and> phases \<noteq> [] \<and> settled (hd phases) then tl s else s)"

lemma announcements_fresh:
  "entries uid = None \<Longrightarrow> ownChanges uid es = (first, new) # rest \<Longrightarrow> new \<noteq> PhaseUnset \<Longrightarrow> follows new rest \<Longrightarrow>
     announcements uid es entries = announced first (new # map snd rest)"
proof (induction es arbitrary: entries)
  case (Cons e es)
  obtain u old n where e: "e = (u, old, n)" by (cases e) auto
  obtain c entries' where ch: "changed u old n entries = (c, entries')" by fastforce
  show ?case
  proof (cases "u = uid")
    case False
    with Cons ch e show ?thesis by (simp add: ownChanges_def changed_other)
  next
    case True
    with Cons(3) e have own: "old = first" "n = new" "ownChanges uid es = rest" by (auto simp: ownChanges_def)
    show ?thesis
    proof (cases "settled new")
      case t: True
      with ch Cons(2) True own have c: "entries' uid = Some new"
          "c \<longleftrightarrow> first \<noteq> PhaseUnset \<and> first \<noteq> new"
        by (auto simp: changed_def Let_def split: if_splits)
      have "announcements uid es entries' = tl (remdups_adj (new # filter settled (map snd rest)))"
        using announcements_known [of entries' uid new new es] c(1) Cons(4,5) own(3) by simp
      then show ?thesis
        using True ch e t c own by (auto simp: announced_def Let_def remdups_adj_head settled_def)
    next
      case f: False
      show ?thesis
      proof (cases "settled first")
        case True': True
        with ch Cons(2) True own f have "\<not> c" "entries' uid = Some first" by (auto simp: changed_def Let_def)
        with announcements_known [of entries' uid first new es] Cons(4,5) own(3) f True' True ch e show ?thesis
          by (simp add: announced_def)
      next
        case False
        with ch Cons(2) True own f have "\<not> c" "entries' uid = None" by (auto simp: changed_def Let_def)
        with announcements_unknown [of entries' uid new es] Cons(4,5) own(3) f False True ch e show ?thesis
          by (auto simp: announced_def)
      qed
    qed
  qed
qed (simp add: ownChanges_def)

text \<open>C23. The log of transitions implements that promise: whatever the reconciles of other objects
  between them, a restarted operator announces of an object exactly its settled phases, each
  once per change, crashes and dry runs between them included, and not the one it found.\<close>

theorem announcements_refine:
  assumes "ownChanges uid es = (first, new) # rest" "new \<noteq> PhaseUnset" "follows new rest"
  shows "announcements uid es Map.empty = announced first (new # map snd rest)"
  by (rule announcements_fresh [OF _ assms]) simp

lemma announcements_refine_witness:
  "announcements ''a'' [(''a'', PhaseScaledUp, PhaseScaledUp), (''b'', PhaseScaledDown, PhaseScaledUp), (''a'', PhaseScaledUp, PhaseScalingUp),
     (''a'', PhaseScalingUp, PhaseScaledUp), (''a'', PhaseScaledUp, PhaseScaledDown)] Map.empty = [PhaseScaledDown]"
  by (subst announcements_refine [where first = PhaseScaledUp and new = PhaseScaledUp and rest =
       "[(PhaseScaledUp, PhaseScalingUp), (PhaseScalingUp, PhaseScaledUp), (PhaseScaledUp, PhaseScaledDown)]"])
     (simp_all add: ownChanges_def announced_def settled_def)

text \<open>The status after a sequence of phase changes, each with the time it is recorded at.\<close>

definition trackAll :: "(phase \<times> phase \<times> time) list \<Rightarrow> ScheduleStatus \<Rightarrow> ScheduleStatus" where
  "trackAll changes st = foldl (\<lambda>st (old, new, now). trackWakeUp st old new now) st changes"

definition wakeUpsKept :: "ScheduleStatus \<Rightarrow> bool" where
  "wakeUpsKept st \<longleftrightarrow> length (RecentWakeUps st) \<le> recentWakeUps \<and> saneWakeUps (RecentWakeUps st)"

lemma trackWakeUp_kept: "wakeUpsKept st \<Longrightarrow> wakeUpsKept (trackWakeUp st old new now)"
  using i32_range
  by (auto simp: wakeUpsKept_def trackWakeUp_def saneWakeUps_def Let_def split: option.split dest: in_set_takeD)

lemma trackWakeUp_clock:
  "WakeUpStartedAt (trackWakeUp st old new now) \<noteq> None \<Longrightarrow> new \<notin> {PhaseScaledUp, PhaseScalingDown, PhaseScaledDown}"
  by (auto simp: trackWakeUp_def Let_def split: if_splits option.splits)

text \<open>The recorded wake-ups are what prewarm relies on: after any sequence of phase changes at
  any times, at most five are kept, each a number of seconds that fits the field and is not
  negative, and the clock of a wake-up only runs while the target has not arrived at a state nor
  heads down.\<close>

theorem trackAll_bounded:
  "length (RecentWakeUps (trackAll changes emptyScheduleStatus)) \<le> 5 \<and>
   saneWakeUps (RecentWakeUps (trackAll changes emptyScheduleStatus)) \<and>
   (WakeUpStartedAt (trackAll changes emptyScheduleStatus) = None \<or>
     fst (snd (last changes)) \<notin> {PhaseScaledUp, PhaseScalingDown, PhaseScaledDown})"
proof -
  have "wakeUpsKept (trackAll changes st)" if "wakeUpsKept st" for st
    using that by (induction changes arbitrary: st) (auto simp: trackAll_def trackWakeUp_kept)
  moreover have "wakeUpsKept emptyScheduleStatus"
    by (simp add: wakeUpsKept_def emptyScheduleStatus_def saneWakeUps_def)
  moreover have "WakeUpStartedAt (trackAll changes emptyScheduleStatus) = None \<or>
     fst (snd (last changes)) \<notin> {PhaseScaledUp, PhaseScalingDown, PhaseScaledDown}"
  proof (cases changes rule: rev_cases)
    case Nil
    then show ?thesis by (simp add: trackAll_def emptyScheduleStatus_def)
  next
    case (snoc es e)
    obtain old new now where e: "e = (old, new, now)" by (cases e) auto
    show ?thesis
      using trackWakeUp_clock [of "trackAll es emptyScheduleStatus" old new now]
      by (auto simp: snoc e trackAll_def)
  qed
  ultimately show ?thesis by (auto simp: wakeUpsKept_def)
qed

text \<open>The clock times the wake-up it was started for.\<close>

lemma trackAll_times:
  assumes "old = PhaseScaledDown" "new = PhaseScalingUp \<or> new = PhaseWaitingForDependencies"
    and "\<And>o' n' t'. (o', n', t') \<in> set es \<Longrightarrow>
           o' \<noteq> PhaseScaledDown \<and> n' \<notin> {PhaseScaledUp, PhaseScalingDown, PhaseScaledDown}"
    and "o'' \<noteq> PhaseScaledDown"
  shows "hd (RecentWakeUps (trackAll ((old, new, t0) # es @ [(o'', PhaseScaledUp, t1)]) st)) =
    \<lparr>StartedAt = t0, Seconds = max (i32 (durRound second (timeSub t1 t0) div second)) 0\<rparr>"
proof -
  have "WakeUpStartedAt (foldl (\<lambda>st (old, new, now). trackWakeUp st old new now) st es) = Some t0"
    if "WakeUpStartedAt st = Some t0" for st
    using that assms(3)
  proof (induction es arbitrary: st)
    case (Cons e es)
    obtain o' n' t' where e: "e = (o', n', t')" by (cases e) auto
    have "o' \<noteq> PhaseScaledDown \<and> n' \<notin> {PhaseScaledUp, PhaseScalingDown, PhaseScaledDown}"
      by (rule Cons(3) [of o' n' t']) (simp add: e)
    then have "WakeUpStartedAt (trackWakeUp st o' n' t') = Some t0"
      by (simp add: trackWakeUp_def Cons(2))
    then have "WakeUpStartedAt (foldl (\<lambda>st (old, new, now). trackWakeUp st old new now) (trackWakeUp st o' n' t') es) = Some t0"
      by (rule Cons.IH) (rule Cons(3), erule list.set_intros(2))
    then show ?case by (simp add: e)
  qed simp
  from this [of "trackWakeUp st old new t0"] assms(1,2,4) show ?thesis
    by (auto simp: trackAll_def trackWakeUp_def Let_def)
qed

text \<open>A settled target is looked at again within a minute and not in less than a second, and
  in time for its next transition: at most a second after it, and only sooner than a minute when
  the transition has then passed.\<close>

theorem settledRequeue_in_time:
  assumes "dNextTransition d = Some next" "now \<le> next" "next - now < 2 ^ 62"
  shows "second \<le> settledRequeue d now \<and> settledRequeue d now \<le> minute
    \<and> now + settledRequeue d now \<le> next + second
    \<and> (settledRequeue d now = minute \<or> now + settledRequeue d now = next + second)"
proof -
  have "i64 (timeSub next now + second) = next - now + second"
    using assms(2,3) by (simp add: timeSub_def)
  then have "settledRequeue d now = min (next - now + second) minute"
    using assms(1,2) by (simp add: settledRequeue_def)
  then show ?thesis using assms(2) by (simp add: min_def)
qed

lemma settledRequeue_in_time_witness:
  "settledRequeue (plainDecision True ModeSchedule (Some (30 * second))) 0 = 31 * second"
  using settledRequeue_in_time [of "plainDecision True ModeSchedule (Some (30 * second))" "30 * second" 0] by auto

end
