(* ===== verification/GoJson.thy ===== *)
theory GoJson
  imports KubeApi
begin

section \<open>JSON text (encoding/json)\<close>

text \<open>
  \<open>Marshal\<close> and \<open>Unmarshal\<close> of package encoding/json, as far as the code uses them: it keeps
  JSON text in an annotation and reads it back. Objects print with their keys in order, as Go
  prints maps, and the characters Go escapes for HTML are escaped. Strings are UTF-8 bytes and
  are assumed valid; numbers read as \<open>float64\<close>, of which the model keeps the integer part
  (exact up to \<open>2 ^ 53\<close>); the nesting limit of the decoder is left out.
\<close>

subsection \<open>Printing\<close>

definition hexDigit :: "nat \<Rightarrow> char" where
  "hexDigit d = char_of (if d < 10 then 48 + d else 87 + d)"

abbreviation charCode :: "char \<Rightarrow> nat" where "charCode c \<equiv> of_char c"

definition escapeChar :: "char \<Rightarrow> string" where
  "escapeChar c =
     (if c = CHR 0x22 then [CHR 0x5C, CHR 0x22]
      else if c = CHR 0x5C then [CHR 0x5C, CHR 0x5C]
      else if charCode c = 8 then CHR 0x5C # ''b''
      else if charCode c = 12 then CHR 0x5C # ''f''
      else if charCode c = 10 then CHR 0x5C # ''n''
      else if charCode c = 13 then CHR 0x5C # ''r''
      else if charCode c = 9 then CHR 0x5C # ''t''
      else if charCode c < 32 \<or> c \<in> {CHR ''<'', CHR ''>'', CHR ''&''}
      then CHR 0x5C # ''u00'' @ [hexDigit (charCode c div 16), hexDigit (charCode c mod 16)]
      else [c])"

text \<open>The line and paragraph separators U+2028 and U+2029 are escaped too.\<close>

fun escapeString :: "string \<Rightarrow> string" where
  "escapeString [] = []"
| "escapeString (c # cs) =
     (if c = CHR 0xE2 \<and> take 2 cs = [CHR 0x80, CHR 0xA8] then CHR 0x5C # ''u2028'' @ escapeString (drop 2 cs)
      else if c = CHR 0xE2 \<and> take 2 cs = [CHR 0x80, CHR 0xA9] then CHR 0x5C # ''u2029'' @ escapeString (drop 2 cs)
      else escapeChar c @ escapeString cs)"

definition quoteString :: "string \<Rightarrow> string" where
  "quoteString s = CHR 0x22 # escapeString s @ [CHR 0x22]"

fun marshalJson :: "json \<Rightarrow> string" where
  "marshalJson JNull = ''null''"
| "marshalJson (JBool b) = (if b then ''true'' else ''false'')"
| "marshalJson (JInt n) = itoa n"
| "marshalJson (JFloat n) = itoa n"
| "marshalJson (JStr s) = quoteString s"
| "marshalJson (JArr xs) = ''['' @ join '','' (map marshalJson xs) @ '']''"
| "marshalJson (JObj m) =
     ''{'' @ join '','' (map (\<lambda>(k, s). quoteString k @ '':'' @ s)
        (sort_key fst (map (\<lambda>(k, v). (k, marshalJson v)) m))) @ ''}''"

subsection \<open>Reading\<close>

definition isJsonSpace :: "char \<Rightarrow> bool" where
  "isJsonSpace c \<longleftrightarrow> c \<in> {CHR '' '', CHR 0x09, CHR 0x0A, CHR 0x0D}"

abbreviation skipWs :: "string \<Rightarrow> string" where "skipWs \<equiv> dropWhile isJsonSpace"

definition hexVal :: "char \<Rightarrow> nat option" where
  "hexVal c =
     (let n = charCode c
      in if 48 \<le> n \<and> n \<le> 57 then Some (n - 48)
         else if 97 \<le> n \<and> n \<le> 102 then Some (n - 87)
         else if 65 \<le> n \<and> n \<le> 70 then Some (n - 55)
         else None)"

fun hex4 :: "string \<Rightarrow> (nat \<times> string) option" where
  "hex4 (a # b # c # d # rest) =
     (case (hexVal a, hexVal b, hexVal c, hexVal d) of
        (Some w, Some x, Some y, Some z) \<Rightarrow> Some (((w * 16 + x) * 16 + y) * 16 + z, rest)
      | _ \<Rightarrow> None)"
| "hex4 _ = None"

definition utf8 :: "nat \<Rightarrow> string" where
  "utf8 n =
     (if n < 128 then [char_of n]
      else if n < 2048 then [char_of (192 + n div 64), char_of (128 + n mod 64)]
      else if n < 65536 then [char_of (224 + n div 4096), char_of (128 + n div 64 mod 64), char_of (128 + n mod 64)]
      else [char_of (240 + n div 262144), char_of (128 + n div 4096 mod 64),
            char_of (128 + n div 64 mod 64), char_of (128 + n mod 64)])"

text \<open>What an escape stands for, and what follows it; half a surrogate pair stands for the
  replacement character.\<close>

definition unicodeEscape :: "nat \<Rightarrow> string \<Rightarrow> string \<times> string" where
  "unicodeEscape n rest =
     (if 55296 \<le> n \<and> n < 57344 then
        (case rest of
           b # u # rest' \<Rightarrow>
             (case (if b = CHR 0x5C \<and> u = CHR ''u'' then hex4 rest' else None) of
                Some (m, rest'') \<Rightarrow>
                  if n < 56320 \<and> 56320 \<le> m \<and> m < 57344
                  then (utf8 (65536 + (n - 55296) * 1024 + (m - 56320)), rest'')
                  else (utf8 65533, rest)
              | None \<Rightarrow> (utf8 65533, rest))
         | _ \<Rightarrow> (utf8 65533, rest))
      else (utf8 n, rest))"

definition unescape :: "char \<Rightarrow> string \<Rightarrow> (string \<times> string) option" where
  "unescape c cs =
     (if c = CHR ''u'' then map_option (\<lambda>(n, rest). unicodeEscape n rest) (hex4 cs)
      else if c = CHR ''b'' then Some ([CHR 0x08], cs)
      else if c = CHR ''f'' then Some ([CHR 0x0C], cs)
      else if c = CHR ''n'' then Some ([CHR 0x0A], cs)
      else if c = CHR ''r'' then Some ([CHR 0x0D], cs)
      else if c = CHR ''t'' then Some ([CHR 0x09], cs)
      else if c \<in> {CHR 0x22, CHR 0x5C, CHR ''/''} then Some ([c], cs)
      else None)"

lemma hex4_length: "hex4 s = Some (n, rest) \<Longrightarrow> length rest < length s"
  by (induction s rule: hex4.induct) (auto split: option.splits)

lemma unicodeEscape_length: "length (snd (unicodeEscape n rest)) \<le> length rest"
proof -
  have "hex4 r = Some (m, r') \<Longrightarrow> length r' \<le> length r" for r m r'
    using hex4_length by (metis less_imp_le_nat)
  then show ?thesis
    by (fastforce simp: unicodeEscape_def split: list.splits option.splits if_splits)
qed

lemma unescape_length [termination_simp]: "unescape c cs = Some (x, rest) \<Longrightarrow> length rest < Suc (Suc (length cs))"
proof -
  assume a: "unescape c cs = Some (x, rest)"
  have "length rest \<le> length cs"
  proof (cases "c = CHR ''u''")
    case True
    with a obtain n r where "hex4 cs = Some (n, r)" "rest = snd (unicodeEscape n r)"
      by (auto simp: unescape_def)
    then show ?thesis
      using hex4_length [of cs n r] unicodeEscape_length [of n r] by simp
  qed (use a in \<open>auto simp: unescape_def split: if_splits\<close>)
  then show ?thesis by simp
qed

text \<open>The characters of a string literal after its opening quote.\<close>

fun parseChars :: "string \<Rightarrow> (string \<times> string) option" where
  "parseChars [] = None"
| "parseChars (c # cs) =
     (if c = CHR 0x22 then Some ([], cs)
      else if charCode c < 32 then None
      else if c = CHR 0x5C then
        (case cs of
           [] \<Rightarrow> None
         | e # cs' \<Rightarrow>
             (case unescape e cs' of
                None \<Rightarrow> None
              | Some (x, rest) \<Rightarrow> map_option (\<lambda>(s, r). (x @ s, r)) (parseChars rest)))
      else map_option (\<lambda>(s, r). (c # s, r)) (parseChars cs))"

text \<open>Numbers: the digits, then fraction and exponent; the value is truncated.\<close>

definition digitsOf :: "string \<Rightarrow> (string \<times> string) option" where
  "digitsOf s = (let ds = takeWhile isDigit s in if ds = [] then None else Some (ds, dropWhile isDigit s))"

definition fractionOf :: "string \<Rightarrow> (string \<times> string) option" where
  "fractionOf s = (case s of c # cs \<Rightarrow> if c = CHR ''.'' then digitsOf cs else Some ([], s) | [] \<Rightarrow> Some ([], s))"

definition exponentOf :: "string \<Rightarrow> (int \<times> string) option" where
  "exponentOf s =
     (case s of
        c # cs \<Rightarrow>
          if c = CHR ''e'' \<or> c = CHR ''E'' then
            (let (neg, ds) = (case cs of d # ds \<Rightarrow> if d = CHR ''-'' then (True, ds)
                                 else if d = CHR ''+'' then (False, ds) else (False, cs) | [] \<Rightarrow> (False, []))
             in map_option (\<lambda>(es, r). ((if neg then - int (readNat es) else int (readNat es)), r)) (digitsOf ds))
          else Some (0, s)
      | [] \<Rightarrow> Some (0, s))"

definition magnitude :: "string \<Rightarrow> string \<Rightarrow> int \<Rightarrow> nat" where
  "magnitude ds fs e =
     (let m = readNat (ds @ fs); x = e - int (length fs)
      in if 0 \<le> x then m * 10 ^ nat x else m div 10 ^ nat (- x))"

text \<open>What no \<open>float64\<close> holds is an error.\<close>

definition numberLimit :: nat where "numberLimit = 2 ^ 1024"

definition parseNumber :: "string \<Rightarrow> (int \<times> string) option" where
  "parseNumber s =
     (let (neg, s1) = (case s of c # cs \<Rightarrow> if c = CHR ''-'' then (True, cs) else (False, s) | [] \<Rightarrow> (False, []))
      in Option.bind (digitsOf s1) (\<lambda>(ds, s2).
         if hd ds = CHR ''0'' \<and> 1 < length ds then None
         else Option.bind (fractionOf s2) (\<lambda>(fs, s3).
              Option.bind (exponentOf s3) (\<lambda>(e, s4).
                if numberLimit \<le> magnitude ds fs e then None
                else Some (if neg then - int (magnitude ds fs e) else int (magnitude ds fs e), s4)))))"

definition parseLiteral :: "string \<Rightarrow> (json \<times> string) option" where
  "parseLiteral s =
     (case cutPrefix s ''null'' of Some r \<Rightarrow> Some (JNull, r) | None \<Rightarrow>
     (case cutPrefix s ''true'' of Some r \<Rightarrow> Some (JBool True, r) | None \<Rightarrow>
     (case cutPrefix s ''false'' of Some r \<Rightarrow> Some (JBool False, r) | None \<Rightarrow>
       map_option (\<lambda>(n, r). (JFloat n, r)) (parseNumber s))))"

text \<open>Values with fuel; the members of an object are kept in the order of the text, repeated keys
  included.\<close>

fun parseValue :: "nat \<Rightarrow> string \<Rightarrow> (json \<times> string) option"
and parseElems :: "nat \<Rightarrow> string \<Rightarrow> (json list \<times> string) option"
and parseMembers :: "nat \<Rightarrow> string \<Rightarrow> ((string \<times> json) list \<times> string) option" where
  "parseValue 0 s = None"
| "parseValue (Suc f) s =
     (case skipWs s of
        [] \<Rightarrow> None
      | c # cs \<Rightarrow>
          if c = CHR 0x22 then map_option (\<lambda>(x, r). (JStr x, r)) (parseChars cs)
          else if c = CHR ''['' then
            (if take 1 (skipWs cs) = '']'' then Some (JArr [], drop 1 (skipWs cs))
             else map_option (\<lambda>(xs, r). (JArr xs, r)) (parseElems f cs))
          else if c = CHR ''{'' then
            (if take 1 (skipWs cs) = ''}'' then Some (JObj [], drop 1 (skipWs cs))
             else map_option (\<lambda>(m, r). (JObj m, r)) (parseMembers f cs))
          else parseLiteral (c # cs))"
| "parseElems 0 s = None"
| "parseElems (Suc f) s =
     Option.bind (parseValue f s) (\<lambda>(x, r).
       case skipWs r of
         [] \<Rightarrow> None
       | c # cs \<Rightarrow>
           if c = CHR '','' then map_option (\<lambda>(xs, r'). (x # xs, r')) (parseElems f cs)
           else if c = CHR '']'' then Some ([x], cs)
           else None)"
| "parseMembers 0 s = None"
| "parseMembers (Suc f) s =
     (case skipWs s of
        [] \<Rightarrow> None
      | q # cs \<Rightarrow>
          if q \<noteq> CHR 0x22 then None
          else Option.bind (parseChars cs) (\<lambda>(k, r).
            case skipWs r of
              [] \<Rightarrow> None
            | d # ds \<Rightarrow>
                if d \<noteq> CHR '':'' then None
                else Option.bind (parseValue f ds) (\<lambda>(x, r').
                  case skipWs r' of
                    [] \<Rightarrow> None
                  | c # cs' \<Rightarrow>
                      if c = CHR '','' then map_option (\<lambda>(m, r''). ((k, x) # m, r'')) (parseMembers f cs')
                      else if c = CHR ''}'' then Some ([(k, x)], cs')
                      else None)))"

definition parseJson :: "string \<Rightarrow> json option" where
  "parseJson s =
     (case parseValue (2 * length s + 2) s of
        Some (j, r) \<Rightarrow> if skipWs r = [] then Some j else None
      | None \<Rightarrow> None)"

text \<open>Decoding into an \<open>any\<close>: of the members of an object with one key the last counts.\<close>

fun asAny :: "json \<Rightarrow> json" where
  "asAny (JArr xs) = JArr (map asAny xs)"
| "asAny (JObj m) = JObj (AList.updates (map fst m) (map (asAny \<circ> snd) m) [])"
| "asAny j = j"


subsection \<open>Reading back what was printed\<close>

lemma sort_key_map: "sort_key f (map g xs) = map g (sort_key (f \<circ> g) xs)"
proof (induction xs)
  case (Cons x xs)
  have "insort_key f (g x) (map g ys) = map g (insort_key (f \<circ> g) x ys)" for ys
    by (induction ys) auto
  with Cons show ?case by (simp del: comp_apply)
qed simp

lemma marshal_object:
  "marshalJson (JObj m) = ''{'' @ join '','' (map (\<lambda>(k, v). quoteString k @ '':'' @ marshalJson v) (sort_key fst m)) @ ''}''"
proof -
  have f: "fst \<circ> (\<lambda>(k, v). (k, marshalJson v)) = fst" by auto
  have g: "(\<lambda>(k, s). quoteString k @ '':'' @ s) \<circ> (\<lambda>(k, v). (k, marshalJson v))
      = (\<lambda>(k, v). quoteString k @ '':'' @ marshalJson v)" by auto
  show ?thesis unfolding marshalJson.simps sort_key_map f map_map g ..
qed

declare marshalJson.simps(7) [simp del]

lemma char_code [simp]: "char_of (of_char c :: nat) = c"
  by simp

lemma hexVal_hexDigit: "d < 16 \<Longrightarrow> hexVal (hexDigit d) = Some d"
  by (auto simp: hexVal_def hexDigit_def of_char_of Let_def)

lemma unescape_short:
  "unescape CHR ''b'' t = Some ([CHR 0x08], t)" "unescape CHR ''f'' t = Some ([CHR 0x0C], t)"
  "unescape CHR ''n'' t = Some ([CHR 0x0A], t)" "unescape CHR ''r'' t = Some ([CHR 0x0D], t)"
  "unescape CHR ''t'' t = Some ([CHR 0x09], t)" "unescape CHR 0x22 t = Some ([CHR 0x22], t)"
  "unescape CHR 0x5C t = Some ([CHR 0x5C], t)"
  by (simp_all add: unescape_def)

lemma unescape_hex:
  assumes "charCode c < 128"
  shows "unescape CHR ''u'' (''00'' @ [hexDigit (charCode c div 16), hexDigit (charCode c mod 16)] @ t) = Some ([c], t)"
proof -
  have "hexVal CHR ''0'' = Some 0" by (simp add: hexVal_def)
  moreover have "charCode c div 16 * 16 + charCode c mod 16 = charCode c" by simp
  ultimately have "hex4 (''00'' @ [hexDigit (charCode c div 16), hexDigit (charCode c mod 16)] @ t) = Some (charCode c, t)"
    using assms by (simp add: hexVal_hexDigit)
  then show ?thesis
    using assms by (simp add: unescape_def unicodeEscape_def utf8_def)
qed

lemma charCode_eq: "charCode c = charCode d \<Longrightarrow> c = d"
  by (metis char_code)

lemma parseChars_escapeChar:
  "parseChars (escapeChar c @ t) = map_option (\<lambda>(s, r). (c # s, r)) (parseChars t)"
proof -
  consider (plain) "escapeChar c = [c]" "c \<noteq> CHR 0x22" "c \<noteq> CHR 0x5C" "32 \<le> charCode c"
    | (hex) "escapeChar c = CHR 0x5C # ''u00'' @ [hexDigit (charCode c div 16), hexDigit (charCode c mod 16)]" "charCode c < 128"
    | (short) e where "escapeChar c = [CHR 0x5C, e]" "unescape e t = Some ([c], t)"
  proof (cases "c \<in> {CHR 0x22, CHR 0x5C, CHR 0x08, CHR 0x0C, CHR 0x0A, CHR 0x0D, CHR 0x09}")
    case True
    then show ?thesis using that(3) by (auto simp: escapeChar_def unescape_short)
  next
    case False
    then have n: "charCode c \<notin> {8, 12, 10, 13, 9}" 
      using charCode_eq [of c "CHR 0x08"] charCode_eq [of c "CHR 0x0C"] charCode_eq [of c "CHR 0x0A"]
        charCode_eq [of c "CHR 0x0D"] charCode_eq [of c "CHR 0x09"] by auto
    show ?thesis
    proof (cases "charCode c < 32 \<or> c \<in> {CHR ''<'', CHR ''>'', CHR ''&''}")
      case True
      moreover have "charCode c < 128" using True by auto
      ultimately show ?thesis using that(2) False n by (simp add: escapeChar_def)
    next
      case False2: False
      then show ?thesis using that(1) False n by (simp add: escapeChar_def)
    qed
  qed
  then show ?thesis
  proof cases
    case hex
    then show ?thesis using unescape_hex [OF hex(2), of t] by simp
  qed auto
qed

lemma parse_separators:
  "parseChars (CHR 0x5C # ''u2028'' @ t) = map_option (\<lambda>(s, r). ([CHR 0xE2, CHR 0x80, CHR 0xA8] @ s, r)) (parseChars t)"
  "parseChars (CHR 0x5C # ''u2029'' @ t) = map_option (\<lambda>(s, r). ([CHR 0xE2, CHR 0x80, CHR 0xA9] @ s, r)) (parseChars t)"
proof -
  have h: "hexVal CHR ''0'' = Some 0" "hexVal CHR ''2'' = Some 2" "hexVal CHR ''8'' = Some 8" "hexVal CHR ''9'' = Some 9"
    by (simp_all add: hexVal_def)
  have u: "utf8 8232 = [CHR 0xE2, CHR 0x80, CHR 0xA8]" "utf8 8233 = [CHR 0xE2, CHR 0x80, CHR 0xA9]"
    using char_code [of "CHR 0xE2"] char_code [of "CHR 0x80"] char_code [of "CHR 0xA8"] char_code [of "CHR 0xA9"]
    by (simp_all add: utf8_def)
  show "parseChars (CHR 0x5C # ''u2028'' @ t) = map_option (\<lambda>(s, r). ([CHR 0xE2, CHR 0x80, CHR 0xA8] @ s, r)) (parseChars t)"
    "parseChars (CHR 0x5C # ''u2029'' @ t) = map_option (\<lambda>(s, r). ([CHR 0xE2, CHR 0x80, CHR 0xA9] @ s, r)) (parseChars t)"
    by (simp_all add: unescape_def unicodeEscape_def h u)
qed

lemma parseChars_quoted: "parseChars (escapeString s @ CHR 0x22 # rest) = Some (s, rest)"
proof (induction s rule: escapeString.induct)
  case (2 c cs)
  consider "c = CHR 0xE2" "take 2 cs = [CHR 0x80, CHR 0xA8]" | "c = CHR 0xE2" "take 2 cs = [CHR 0x80, CHR 0xA9]"
    | "escapeString (c # cs) = escapeChar c @ escapeString cs" "parseChars (escapeString cs @ CHR 0x22 # rest) = Some (cs, rest)"
    using 2(3) by fastforce
  then show ?case
  proof cases
    case 1
    with 2(1) have "parseChars (escapeString (drop 2 cs) @ CHR 0x22 # rest) = Some (drop 2 cs, rest)" by blast
    with 1 show ?thesis using append_take_drop_id [of 2 cs] by (simp del: parseChars.simps append_take_drop_id add: parse_separators [simplified])
  next
    case 2
    with "2.IH"(2) have "parseChars (escapeString (drop 2 cs) @ CHR 0x22 # rest) = Some (drop 2 cs, rest)" by auto
    with 2 show ?thesis using append_take_drop_id [of 2 cs] by (simp del: parseChars.simps append_take_drop_id add: parse_separators [simplified])
  next
    case 3
    then show ?thesis by (simp del: parseChars.simps add: parseChars_escapeChar)
  qed
qed simp

text \<open>What reading gives back: numbers as \<open>float64\<close> and objects in the order of their keys.\<close>

fun canon :: "json \<Rightarrow> json" where
  "canon (JInt n) = JFloat n"
| "canon (JArr xs) = JArr (map canon xs)"
| "canon (JObj m) = JObj (sort_key fst (map (\<lambda>(k, v). (k, canon v)) m))"
| "canon j = j"

text \<open>Values with exact numbers and no repeated keys.\<close>

fun exactJson :: "json \<Rightarrow> bool" where
  "exactJson (JInt n) \<longleftrightarrow> \<bar>n\<bar> \<le> 2 ^ 53"
| "exactJson (JFloat n) \<longleftrightarrow> \<bar>n\<bar> \<le> 2 ^ 53"
| "exactJson (JArr xs) \<longleftrightarrow> list_all exactJson xs"
| "exactJson (JObj m) \<longleftrightarrow> distinct (map fst m) \<and> list_all (\<lambda>(k, v). exactJson v) m"
| "exactJson j \<longleftrightarrow> True"

lemma canon_object: "canon (JObj m) = JObj (map (\<lambda>(k, v). (k, canon v)) (sort_key fst m))"
proof -
  have f: "fst \<circ> (\<lambda>(k, v). (k, canon v)) = fst" by auto
  show ?thesis unfolding canon.simps sort_key_map f ..
qed

declare canon.simps(3) [simp del]

definition stops :: "string \<Rightarrow> bool" where
  "stops rest \<longleftrightarrow> (case rest of [] \<Rightarrow> True | c # _ \<Rightarrow> c \<in> set '',]}'')"

lemma numberLimit_big: "n \<le> 2 ^ 53 \<Longrightarrow> n < numberLimit"
proof -
  assume "n \<le> 2 ^ 53"
  also have "(2::nat) ^ 53 < numberLimit" unfolding numberLimit_def by (rule power_strict_increasing) auto
  finally show ?thesis .
qed

lemma digitsOf_append:
  assumes "ds \<noteq> []" "list_all isDigit ds" "stops rest"
  shows "digitsOf (ds @ rest) = Some (ds, rest)"
proof -
  have "takeWhile isDigit rest = []" "dropWhile isDigit rest = rest"
    using assms(3) by (auto simp: stops_def isDigit_def split: list.splits)
  moreover have "takeWhile isDigit (ds @ rest) = ds @ takeWhile isDigit rest"
    "dropWhile isDigit (ds @ rest) = dropWhile isDigit rest"
    using assms(2) by (auto simp: list_all_iff takeWhile_append2 dropWhile_append2)
  ultimately show ?thesis using assms(1) by (simp add: digitsOf_def)
qed

lemma showNat_no_zero: "hd (showNat n) = CHR ''0'' \<Longrightarrow> length (showNat n) = 1"
proof (induction n rule: showNat.induct)
  case (1 n)
  show ?case
  proof (cases "n < 10")
    case True
    then show ?thesis by (simp add: showNat.simps [of n])
  next
    case False
    have ne: "showNat (n div 10) \<noteq> []" using showNat_props by blast
    with 1 False have "length (showNat (n div 10)) = 1" "hd (showNat (n div 10)) = CHR ''0''"
      by (simp_all add: showNat.simps [of n])
    then have "showNat (n div 10) = ''0''" by (cases "showNat (n div 10)") auto
    then have "n div 10 = readNat ''0''" using showNat_props [of "n div 10"] by simp
    then have "n div 10 = 0" by (simp add: readNat_def digitVal_def)
    with False show ?thesis by simp
  qed
qed

lemma parseNumber_itoa:
  assumes "\<bar>n\<bar> \<le> 2 ^ 53" "stops rest"
  shows "parseNumber (itoa n @ rest) = Some (n, rest)"
proof -
  define ds where "ds = showNat (nat \<bar>n\<bar>)"
  have p: "ds \<noteq> []" "list_all isDigit ds" "readNat ds = nat \<bar>n\<bar>"
    using showNat_props unfolding ds_def by blast+
  have z: "hd ds = CHR ''0'' \<Longrightarrow> length ds = 1" unfolding ds_def by (rule showNat_no_zero)
  have "nat \<bar>n\<bar> < numberLimit" using assms(1) by (intro numberLimit_big) (simp add: nat_le_iff)
  then have m: "magnitude ds [] 0 = nat \<bar>n\<bar>" "\<not> numberLimit \<le> magnitude ds [] 0"
    using p(3) by (simp_all add: magnitude_def)
  have fe: "fractionOf rest = Some ([], rest)" "exponentOf rest = Some (0, rest)"
    using assms(2) by (auto simp: fractionOf_def exponentOf_def stops_def split: list.splits)
  have d: "digitsOf (ds @ rest) = Some (ds, rest)" by (rule digitsOf_append [OF p(1,2) assms(2)])
  obtain c cs where ds: "ds = c # cs" "isDigit c" using p(1,2) by (cases ds) auto
  with digit_not_sign have "c \<noteq> CHR ''-''" by blast
  with ds d have pos: "parseNumber (ds @ rest) = Some (int (nat \<bar>n\<bar>), rest)"
    using fe m z by (auto simp: parseNumber_def)
  have neg: "parseNumber (CHR ''-'' # ds @ rest) = Some (- int (nat \<bar>n\<bar>), rest)"
    using d fe m z by (auto simp: parseNumber_def)
  show ?thesis
  proof (cases "n < 0")
    case True
    with neg show ?thesis by (simp add: itoa_def ds_def)
  next
    case False
    with pos show ?thesis by (simp add: itoa_def ds_def)
  qed
qed

lemma itoa_head: "\<exists>c cs. itoa n = c # cs \<and> (isDigit c \<or> c = CHR ''-'')"
  using showNat_head [of "nat n"] by (auto simp: itoa_def)

lemma parseLiteral_itoa:
  assumes "\<bar>n\<bar> \<le> 2 ^ 53" "stops rest"
  shows "parseLiteral (itoa n @ rest) = Some (JFloat n, rest)"
proof -
  obtain c cs where c: "itoa n = c # cs" "isDigit c \<or> c = CHR ''-''" using itoa_head by blast
  then have "c \<notin> {CHR ''n'', CHR ''t'', CHR ''f''}" by (auto simp: isDigit_def)
  with c(1) have "cutPrefix (itoa n @ rest) ''null'' = None" "cutPrefix (itoa n @ rest) ''true'' = None"
    "cutPrefix (itoa n @ rest) ''false'' = None"
    by (simp_all add: cutPrefix_def hasPrefix_def)
  with parseNumber_itoa [OF assms] show ?thesis by (simp add: parseLiteral_def)
qed

text \<open>How the text of a value begins.\<close>

definition startsValue :: "char \<Rightarrow> bool" where
  "startsValue c \<longleftrightarrow> \<not> isJsonSpace c \<and> c \<notin> set '',]}''"

lemma marshal_head: "\<exists>c cs. marshalJson j = c # cs \<and> startsValue c"
proof (cases j)
  case (JInt n)
  then show ?thesis using itoa_head [of n] by (auto simp: startsValue_def isJsonSpace_def isDigit_def)
next
  case (JFloat n)
  then show ?thesis using itoa_head [of n] by (auto simp: startsValue_def isJsonSpace_def isDigit_def)
qed (auto simp: startsValue_def isJsonSpace_def quoteString_def marshal_object)

lemma skipWs_start: "startsValue c \<Longrightarrow> skipWs (c # cs) = c # cs"
  by (simp add: startsValue_def)

definition readsAs :: "string \<Rightarrow> json \<Rightarrow> bool" where
  "readsAs s j \<longleftrightarrow> (\<forall>f rest. 2 * length s \<le> f \<longrightarrow> stops rest \<longrightarrow> parseValue f (s @ rest) = Some (j, rest))"

lemma readsAsD: "readsAs s j \<Longrightarrow> 2 * length s \<le> f \<Longrightarrow> stops rest \<Longrightarrow> parseValue f (s @ rest) = Some (j, rest)"
  unfolding readsAs_def by blast

lemma parseElems_join:
  assumes "xs \<noteq> []" "\<forall>x \<in> set xs. readsAs (t x) (g x)" "2 * length (join '','' (map t xs)) + 1 \<le> f"
  shows "parseElems f (join '','' (map t xs) @ '']'' @ rest) = Some (map g xs, rest)"
  using assms
proof (induction xs arbitrary: f rule: induct_list012)
  case (2 x)
  then obtain f' where f: "f = Suc f'" "2 * length (t x) \<le> f'" by (cases f) auto
  have "parseValue f' (t x @ '']'' @ rest) = Some (g x, '']'' @ rest)"
    by (rule readsAsD) (use 2 f in \<open>auto simp: stops_def\<close>)
  with f show ?case by (simp add: isJsonSpace_def)
next
  case (3 x y zs)
  then obtain f' where f: "f = Suc f'" "2 * length (t x) \<le> f'"
    "2 * length (join '','' (map t (y # zs))) + 1 \<le> f'" by (cases f) auto
  define tail where "tail = join '','' (map t (y # zs)) @ '']'' @ rest"
  have "parseValue f' (t x @ '','' @ tail) = Some (g x, '','' @ tail)"
    by (rule readsAsD) (use 3 f in \<open>auto simp: stops_def\<close>)
  moreover have "parseElems f' tail = Some (map g (y # zs), rest)"
    unfolding tail_def by (rule "3.IH"(2)) (use 3 f in auto)
  ultimately have "parseElems f (t x @ '','' @ tail) = Some (map g (x # y # zs), rest)"
    using f by (simp add: isJsonSpace_def)
  then show ?case by (simp add: tail_def)
qed simp

lemma parseMembers_join:
  assumes "m \<noteq> []" "\<forall>(k, v) \<in> set m. readsAs (t v) (g v)"
    and "2 * length (join '','' (map (\<lambda>(k, v). quoteString k @ '':'' @ t v) m)) + 1 \<le> f"
  shows "parseMembers f (join '','' (map (\<lambda>(k, v). quoteString k @ '':'' @ t v) m) @ ''}'' @ rest)
    = Some (map (\<lambda>(k, v). (k, g v)) m, rest)"
  using assms
proof (induction m arbitrary: f rule: induct_list012)
  case (2 x)
  obtain k v where x: "x = (k, v)" by fastforce
  with 2 obtain f' where f: "f = Suc f'" "2 * length (t v) \<le> f'" by (cases f) auto
  have "parseValue f' (t v @ ''}'' @ rest) = Some (g v, ''}'' @ rest)"
    by (rule readsAsD) (use 2 x f in \<open>auto simp: stops_def\<close>)
  with f x show ?case by (simp add: isJsonSpace_def quoteString_def parseChars_quoted)
next
  case (3 x y zs)
  obtain k v where x: "x = (k, v)" by fastforce
  with 3 obtain f' where f: "f = Suc f'" "2 * length (t v) \<le> f'"
    "2 * length (join '','' (map (\<lambda>(k, v). quoteString k @ '':'' @ t v) (y # zs))) + 1 \<le> f'" by (cases f) auto
  define tail where "tail = join '','' (map (\<lambda>(k, v). quoteString k @ '':'' @ t v) (y # zs)) @ ''}'' @ rest"
  have "parseValue f' (t v @ '','' @ tail) = Some (g v, '','' @ tail)"
    by (rule readsAsD) (use 3 x f in \<open>auto simp: stops_def\<close>)
  moreover have "parseMembers f' tail = Some (map (\<lambda>(k, v). (k, g v)) (y # zs), rest)"
    unfolding tail_def by (rule "3.IH"(2)) (use 3 f in auto)
  ultimately have "parseMembers f (quoteString k @ '':'' @ t v @ '','' @ tail)
      = Some (map (\<lambda>(k, v). (k, g v)) (x # y # zs), rest)"
    using f x by (simp add: isJsonSpace_def quoteString_def parseChars_quoted)
  then show ?case by (simp add: tail_def x)
qed simp

lemma quoted_reads: "readsAs (quoteString s) (JStr s)"
  unfolding readsAs_def
proof (intro allI impI)
  fix f rest
  assume "2 * length (quoteString s) \<le> f"
  then obtain f' where "f = Suc f'" by (cases f) (auto simp: quoteString_def)
  then show "parseValue f (quoteString s @ rest) = Some (JStr s, rest)"
    by (simp add: quoteString_def isJsonSpace_def parseChars_quoted)
qed

lemma literal_reads:
  assumes "s = c # cs" "startsValue c" "c \<notin> {CHR 0x22, CHR ''['', CHR ''{''}"
    and "\<And>rest. stops rest \<Longrightarrow> parseLiteral (s @ rest) = Some (j, rest)"
  shows "readsAs s j"
  unfolding readsAs_def
proof (intro allI impI)
  fix f rest
  assume "2 * length s \<le> f" and st: "stops rest"
  with assms(1) obtain f' where f: "f = Suc f'" by (cases f) auto
  have "skipWs (s @ rest) = s @ rest" using assms(1,2) by (simp add: startsValue_def)
  with f assms(1,3) assms(4) [OF st] show "parseValue f (s @ rest) = Some (j, rest)" by simp
qed

lemma join_head: "xs \<noteq> [] \<Longrightarrow> (\<And>x. x \<in> set xs \<Longrightarrow> \<exists>c cs. t x = c # cs \<and> P c) \<Longrightarrow> \<exists>c cs. join sep (map t xs) = c # cs \<and> P c"
  by (cases xs rule: remdups_adj.cases) (fastforce simp: list.simps)+

lemma array_reads:
  assumes "\<forall>x \<in> set xs. readsAs (t x) (g x)" "\<And>x. x \<in> set xs \<Longrightarrow> \<exists>c cs. t x = c # cs \<and> startsValue c"
  shows "readsAs (''['' @ join '','' (map t xs) @ '']'') (JArr (map g xs))"
  unfolding readsAs_def
proof (intro allI impI)
  fix f rest
  assume "2 * length (''['' @ join '','' (map t xs) @ '']'') \<le> f"
  then obtain f' where f: "f = Suc f'" "2 * length (join '','' (map t xs)) + 1 \<le> f'" by (cases f) auto
  show "parseValue f ((''['' @ join '','' (map t xs) @ '']'') @ rest) = Some (JArr (map g xs), rest)"
  proof (cases "xs = []")
    case False
    obtain c cs where c: "join '','' (map t xs) = c # cs" "startsValue c"
      using join_head [OF False, of t startsValue] assms(2) by blast
    then have "skipWs (join '','' (map t xs) @ '']'' @ rest) = join '','' (map t xs) @ '']'' @ rest"
      "take 1 (join '','' (map t xs) @ '']'' @ rest) \<noteq> '']''"
      by (auto simp: startsValue_def)
    with parseElems_join [OF False assms(1) f(2), of rest] f(1) show ?thesis by (simp add: isJsonSpace_def)
  qed (simp add: f isJsonSpace_def)
qed

lemma object_reads:
  assumes "\<forall>(k, v) \<in> set m. readsAs (t v) (g v)"
  shows "readsAs (''{'' @ join '','' (map (\<lambda>(k, v). quoteString k @ '':'' @ t v) m) @ ''}'') (JObj (map (\<lambda>(k, v). (k, g v)) m))"
    (is "readsAs (''{'' @ ?body @ ''}'') _")
  unfolding readsAs_def
proof (intro allI impI)
  fix f rest
  assume "2 * length (''{'' @ ?body @ ''}'') \<le> f"
  then obtain f' where f: "f = Suc f'" "2 * length ?body + 1 \<le> f'" by (cases f) auto
  show "parseValue f ((''{'' @ ?body @ ''}'') @ rest) = Some (JObj (map (\<lambda>(k, v). (k, g v)) m), rest)"
  proof (cases "m = []")
    case False
    have "\<exists>c cs. ?body = c # cs \<and> startsValue c"
      by (rule join_head [OF False]) (auto simp: quoteString_def startsValue_def isJsonSpace_def)
    then obtain c cs where c: "?body = c # cs" "startsValue c" by blast
    then have "skipWs (?body @ ''}'' @ rest) = ?body @ ''}'' @ rest" "take 1 (?body @ ''}'' @ rest) \<noteq> ''}''"
      by (auto simp: startsValue_def)
    with parseMembers_join [OF False assms f(2), of rest] f(1) show ?thesis by (simp add: isJsonSpace_def)
  qed (simp add: f isJsonSpace_def)
qed

lemma number_reads:
  assumes "\<bar>n\<bar> \<le> 2 ^ 53"
  shows "readsAs (itoa n) (JFloat n)"
proof -
  obtain c cs where c: "itoa n = c # cs" "isDigit c \<or> c = CHR ''-''" using itoa_head by blast
  then have "startsValue c" "c \<notin> {CHR 0x22, CHR ''['', CHR ''{''}"
    by (auto simp: startsValue_def isJsonSpace_def isDigit_def)
  from literal_reads [OF c(1) this parseLiteral_itoa [OF assms]] show ?thesis .
qed

text \<open>What was printed reads back as the same value, numbers as \<open>float64\<close>.\<close>

lemma marshal_reads: "exactJson j \<Longrightarrow> readsAs (marshalJson j) (canon j)"
proof (induction j)
  case JNull
  show ?case by (rule literal_reads [of _ "CHR ''n''"])
      (auto simp: startsValue_def isJsonSpace_def parseLiteral_def cutPrefix_def hasPrefix_def)
next
  case (JBool b)
  have "readsAs ''true'' (JBool True)" by (rule literal_reads [of _ "CHR ''t''"])
      (auto simp: startsValue_def isJsonSpace_def parseLiteral_def cutPrefix_def hasPrefix_def)
  moreover have "readsAs ''false'' (JBool False)" by (rule literal_reads [of _ "CHR ''f''"])
      (auto simp: startsValue_def isJsonSpace_def parseLiteral_def cutPrefix_def hasPrefix_def)
  ultimately show ?case by (cases b) simp_all
next
  case (JInt n)
  then show ?case by (simp add: number_reads)
next
  case (JFloat n)
  then show ?case by (simp add: number_reads)
next
  case (JStr s)
  show ?case by (simp add: quoted_reads)
next
  case (JArr xs)
  then have "\<forall>x \<in> set xs. readsAs (marshalJson x) (canon x)" by (auto simp: list_all_iff)
  from array_reads [OF this marshal_head] show ?case by simp
next
  case (JObj m)
  then have "\<forall>(k, v) \<in> set (sort_key fst m). readsAs (marshalJson v) (canon v)"
    by (fastforce simp: list_all_iff)
  from object_reads [OF this] show ?case unfolding marshal_object canon_object .
qed

lemma parseJson_marshal: "exactJson j \<Longrightarrow> parseJson (marshalJson j) = Some (canon j)"
  using readsAsD [OF marshal_reads, of j "2 * length (marshalJson j) + 2" "[]"]
  by (simp add: parseJson_def stops_def)

lemma update_new: "k \<notin> fst ` set al \<Longrightarrow> AList.update k v al = al @ [(k, v)]"
  by (induction al) auto

lemma updates_distinct: "distinct (map fst ps) \<Longrightarrow> AList.updates (map fst ps) (map snd ps) [] = ps"
proof -
  have "distinct (map fst al @ map fst ps) \<Longrightarrow> fold (\<lambda>(k, v). AList.update k v) ps al = al @ ps" for al
    by (induction ps arbitrary: al) (auto simp: update_new)
  from this [of "[]"] show "distinct (map fst ps) \<Longrightarrow> ?thesis"
    by (simp add: AList.updates_def zip_map_fst_snd)
qed

lemma asAny_canon: "exactJson j \<Longrightarrow> asAny (canon j) = canon j"
proof (induction j)
  case (JObj m)
  define ms where "ms = map (\<lambda>(k, v). (k, canon v)) (sort_key fst m)"
  have v: "\<forall>x \<in> set ms. asAny (snd x) = snd x"
    using JObj by (fastforce simp: ms_def list_all_iff)
  have "distinct (map fst ms)"
    using JObj(2) by (simp add: ms_def split_beta comp_def distinct_map inj_on_def)
  then have "AList.updates (map fst ms) (map snd ms) [] = ms" by (rule updates_distinct)
  moreover have "map (asAny \<circ> snd) ms = map snd ms" using v by simp
  ultimately show ?case unfolding canon_object ms_def [symmetric] asAny.simps by (simp only:)
qed (auto simp: list_all_iff)

lemma lookup_sort: "distinct (map fst m) \<Longrightarrow> map_of (sort_key fst m) = map_of m"
  by (rule map_of_inject_set [THEN iffD2]) (auto simp: distinct_map inj_on_def)

lemma lookup_canon: "exactJson j \<Longrightarrow> lookupField k (canon j) = map_option canon (lookupField k j)"
proof (cases j)
  case (JObj m)
  assume "exactJson j"
  with JObj have "map_of (sort_key fst m) = map_of m" by (intro lookup_sort) simp
  moreover have "map_of (map (\<lambda>(k, v). (k, canon v)) xs) k = map_option canon (map_of xs k)" for xs :: "(string \<times> json) list"
    by (induction xs) auto
  ultimately show ?thesis using JObj by (simp add: canon_object)
qed auto

end
