(* ===== verification/SleepPage.thy ===== *)
theory SleepPage
  imports Companions GoJson
begin

section \<open>The sleep page (internal/scaling/sleep.go)\<close>

text \<open>
  While a namespace is down its HTTPRoutes can point at Cost Deck's sleep page. The rules a
  route had are kept as JSON text in an annotation of the route. The theory models pointing
  routes at the page and back, the grant that lets them reach it, and shows that waking a
  route gives it its rules back, through the text, and that a route already asleep never has
  its saved rules overwritten.
\<close>

abbreviation SleepingAnnotation :: string where "SleepingAnnotation \<equiv> ''costdeck.io/sleeping''"
abbreviation SleepingHeader :: string where "SleepingHeader \<equiv> ''X-Costdeck-Sleeping''"
abbreviation SleepGrantName :: string where "SleepGrantName \<equiv> ''costdeck-sleep-page''"
abbreviation gatewayGroup :: string where "gatewayGroup \<equiv> ''gateway.networking.k8s.io''"
abbreviation backendRefsKey :: string where "backendRefsKey \<equiv> ''backendRefs''"
abbreviation filtersKey :: string where "filtersKey \<equiv> ''filters''"

record SleepBackend =
  sbName :: string
  sbNamespace :: string
  sbPort :: int

subsection \<open>What is saved of a rule\<close>

text \<open>A field of Go type \<open>any\<close> that is nil is none.\<close>

record savedRule =
  srBackendRefs :: "json option"
  srFilters :: "json option"

definition notNil :: "json option \<Rightarrow> json option" where
  "notNil v = (case v of Some JNull \<Rightarrow> None | _ \<Rightarrow> v)"

definition savedRuleOf :: "json \<Rightarrow> savedRule" where
  "savedRuleOf rule =
     \<lparr>srBackendRefs = notNil (lookupField backendRefsKey rule), srFilters = notNil (lookupField filtersKey rule)\<rparr>"

definition optField :: "string \<Rightarrow> json option \<Rightarrow> (string \<times> json) list" where
  "optField k v = (case v of Some j \<Rightarrow> [(k, j)] | None \<Rightarrow> [])"

definition savedJson :: "savedRule \<Rightarrow> json" where
  "savedJson sr = JObj (optField backendRefsKey (srBackendRefs sr) @ optField filtersKey (srFilters sr))"

definition marshalSaved :: "savedRule list \<Rightarrow> string" where
  "marshalSaved saved = marshalJson (JArr (map savedJson saved))"

text \<open>Decoding: the members of an object fill the fields of their name, in any case.\<close>

definition emptySaved :: savedRule where "emptySaved = \<lparr>srBackendRefs = None, srFilters = None\<rparr>"

definition setMember :: "savedRule \<Rightarrow> string \<times> json \<Rightarrow> savedRule" where
  "setMember sr kv =
     (if equalFold (fst kv) backendRefsKey then sr\<lparr>srBackendRefs := notNil (Some (asAny (snd kv)))\<rparr>
      else if equalFold (fst kv) filtersKey then sr\<lparr>srFilters := notNil (Some (asAny (snd kv)))\<rparr>
      else sr)"

fun decodeRule :: "json \<Rightarrow> savedRule option" where
  "decodeRule JNull = Some emptySaved"
| "decodeRule (JObj m) = Some (foldl setMember emptySaved m)"
| "decodeRule _ = None"

fun decodeSaved :: "json \<Rightarrow> savedRule list option" where
  "decodeSaved JNull = Some []"
| "decodeSaved (JArr xs) = those (map decodeRule xs)"
| "decodeSaved _ = None"

definition unmarshalSaved :: "string \<Rightarrow> savedRule list option" where
  "unmarshalSaved s = Option.bind (parseJson s) decodeSaved"

subsection \<open>Rules on the page and back\<close>

definition pageRefs :: "SleepBackend \<Rightarrow> json" where
  "pageRefs page = JArr [JObj [(''group'', JStr []), (''kind'', JStr ''Service''), (''name'', JStr (sbName page)),
     (''namespace'', JStr (sbNamespace page)), (''port'', JInt (sbPort page))]]"

definition pageFilters :: "string \<Rightarrow> json" where
  "pageFilters ns = JArr [JObj [(''type'', JStr ''RequestHeaderModifier''),
     (''requestHeaderModifier'', JObj [(''set'', JArr [JObj [(''name'', JStr SleepingHeader), (''value'', JStr ns)]])])]]"

text \<open>Writing to a rule that is no object panics: its map is nil.\<close>

fun sleepRule :: "SleepBackend \<Rightarrow> string \<Rightarrow> json \<Rightarrow> json option" where
  "sleepRule page ns (JObj m) =
     Some (JObj (AList.update filtersKey (pageFilters ns) (AList.update backendRefsKey (pageRefs page) m)))"
| "sleepRule page ns _ = None"

definition putField :: "string \<Rightarrow> json option \<Rightarrow> (string \<times> json) list \<Rightarrow> (string \<times> json) list" where
  "putField k v m = (case v of Some j \<Rightarrow> AList.update k j m | None \<Rightarrow> m)"

fun wakeRule :: "savedRule \<Rightarrow> json \<Rightarrow> json option" where
  "wakeRule sr (JObj m) =
     Some (JObj (putField filtersKey (srFilters sr) (putField backendRefsKey (srBackendRefs sr)
       (AList.delete filtersKey (AList.delete backendRefsKey m)))))"
| "wakeRule sr _ = (if sr = emptySaved then Some JNull else None)"

text \<open>Rules beyond the saved ones lose their backends and filters.\<close>

definition savedAt :: "savedRule list \<Rightarrow> nat \<Rightarrow> savedRule" where
  "savedAt saved j = (if j < length saved then saved ! j else emptySaved)"

definition wakeRules :: "savedRule list \<Rightarrow> json list \<Rightarrow> json list option" where
  "wakeRules saved rules = those (map (\<lambda>(j, rule). wakeRule (savedAt saved j) rule) (enumerate 0 rules))"

definition rulesOf :: "Unstr \<Rightarrow> json list" where
  "rulesOf r = nestedSlice [''spec'', ''rules''] (uObject r)"

text \<open>A route without rules has a nil list, which prints as null.\<close>

definition rulesJson :: "Unstr \<Rightarrow> json list \<Rightarrow> json" where
  "rulesJson r rules =
     (case nestedField [''spec'', ''rules''] (uObject r) of Some (JArr _) \<Rightarrow> JArr rules | _ \<Rightarrow> JNull)"

definition portOf :: "json \<Rightarrow> int" where
  "portOf ref = (case lookupField ''port'' ref of Some (JInt n) \<Rightarrow> n | Some (JFloat n) \<Rightarrow> n | _ \<Rightarrow> 0)"

definition rulePointsAt :: "SleepBackend \<Rightarrow> json \<Rightarrow> bool" where
  "rulePointsAt page rule \<longleftrightarrow>
     (case lookupField backendRefsKey rule of
        Some (JArr [ref]) \<Rightarrow>
          lookupField ''name'' ref = Some (JStr (sbName page))
          \<and> lookupField ''namespace'' ref = Some (JStr (sbNamespace page)) \<and> portOf ref = sbPort page
      | _ \<Rightarrow> False)"

definition pointsAt :: "json list \<Rightarrow> SleepBackend \<Rightarrow> bool" where
  "pointsAt rules page \<longleftrightarrow> list_all (rulePointsAt page) rules"

subsection \<open>Routes\<close>

abbreviation sleepingMark :: "Unstr \<Rightarrow> string" where
  "sleepingMark r \<equiv> annotation (omAnnotations (uMeta r)) SleepingAnnotation"

definition routes :: "'w api \<Rightarrow> string \<Rightarrow> ('w, Unstr list reply) io" where
  "routes api ns =
     attempt (mapping api gatewayGroup ''HTTPRoute'' [''v1'', ''v1beta1'']) (\<lambda>gvk.
       case gvk of
         None \<Rightarrow> State_Monad.return (Inr [])
       | Some version \<Rightarrow>
           ask (listUnstructured api gatewayGroup version ''HTTPRouteList'' (if ns = [] then None else Some ns)))"

definition routePatch :: "json \<Rightarrow> string \<Rightarrow> json" where
  "routePatch rules mark =
     JObj [(''metadata'', JObj [(''annotations'', JObj [(SleepingAnnotation, if mark = [] then JNull else JStr mark)])]),
           (''spec'', JObj [(''rules'', rules)])]"

definition patchRoute :: "'w api \<Rightarrow> Unstr \<Rightarrow> json \<Rightarrow> string \<Rightarrow> ('w, Unstr reply) io" where
  "patchRoute api r rules mark = act (MergePatch r (routePatch rules mark)) (mergePatch api r (routePatch rules mark))"

text \<open>What is sent for one route: nothing when it shows the page already.\<close>

definition sleepStep :: "SleepBackend \<Rightarrow> string \<Rightarrow> Unstr \<Rightarrow> (json \<times> string) option reply" where
  "sleepStep page ns r =
     (let rules = rulesOf r; mark = sleepingMark r
      in if mark \<noteq> [] \<and> pointsAt rules page then Inr None
         else (let mark' = (if mark = [] then marshalSaved (map savedRuleOf rules) else mark)
               in case those (map (sleepRule page ns) rules) of
                    None \<Rightarrow> Inl (Panic ''assignment to entry in nil map'')
                  | Some rules' \<Rightarrow> Inr (Some (rulesJson r rules', mark'))))"

fun sleepEach :: "'w api \<Rightarrow> SleepBackend \<Rightarrow> string \<Rightarrow> Unstr list \<Rightarrow> nat \<Rightarrow> ('w, nat \<times> goError option) io" where
  "sleepEach api page ns [] asleep = State_Monad.return (asleep, None)"
| "sleepEach api page ns (r # rs) asleep =
     (case sleepStep page ns r of
        Inl e \<Rightarrow> State_Monad.return (asleep, Some e)
      | Inr None \<Rightarrow> sleepEach api page ns rs (Suc asleep)
      | Inr (Some (rules, mark)) \<Rightarrow>
          do { p \<leftarrow> patchRoute api r rules mark;
               case p of
                 Inl e \<Rightarrow> State_Monad.return (asleep, Some (Wrap ''point HTTPRoute at the sleep page'' e))
               | Inr _ \<Rightarrow> sleepEach api page ns rs (Suc asleep) })"

definition SleepRoutes :: "'w api \<Rightarrow> string \<Rightarrow> SleepBackend \<Rightarrow> ('w, nat \<times> goError option) io" where
  "SleepRoutes api ns page =
     do { rs \<leftarrow> routes api ns;
          case rs of
            Inl e \<Rightarrow> State_Monad.return (0, Some e)
          | Inr rs \<Rightarrow> sleepEach api page ns rs 0 }"

definition wakeStep :: "Unstr \<Rightarrow> json option reply" where
  "wakeStep r =
     (if sleepingMark r = [] then Inr None
      else (case unmarshalSaved (sleepingMark r) of
              None \<Rightarrow> Inl (Msg ''unreadable costdeck.io/sleeping'')
            | Some saved \<Rightarrow>
                (case wakeRules saved (rulesOf r) of
                   None \<Rightarrow> Inl (Panic ''assignment to entry in nil map'')
                 | Some rules \<Rightarrow> Inr (Some (rulesJson r rules)))))"

fun wakeEach :: "'w api \<Rightarrow> Unstr list \<Rightarrow> nat \<Rightarrow> ('w, nat \<times> goError option) io" where
  "wakeEach api [] changed = State_Monad.return (changed, None)"
| "wakeEach api (r # rs) changed =
     (case wakeStep r of
        Inl e \<Rightarrow> State_Monad.return (changed, Some e)
      | Inr None \<Rightarrow> wakeEach api rs changed
      | Inr (Some rules) \<Rightarrow>
          do { p \<leftarrow> patchRoute api r rules [];
               case p of
                 Inl e \<Rightarrow> State_Monad.return (changed, Some (Wrap ''restore HTTPRoute'' e))
               | Inr _ \<Rightarrow> wakeEach api rs (Suc changed) })"

definition WakeRoutes :: "'w api \<Rightarrow> string \<Rightarrow> ('w, nat \<times> goError option) io" where
  "WakeRoutes api ns =
     do { rs \<leftarrow> routes api ns;
          case rs of
            Inl e \<Rightarrow> State_Monad.return (0, Some e)
          | Inr rs \<Rightarrow> wakeEach api rs 0 }"

subsection \<open>The grant\<close>

definition SleepingNamespaces :: "'w api \<Rightarrow> ('w, string list reply) io" where
  "SleepingNamespaces api =
     attempt (routes api []) (\<lambda>rs. State_Monad.return (Inr (sort (addAllNew
       (map (\<lambda>r. omNamespace (uMeta r)) (filter (\<lambda>r. sleepingMark r \<noteq> []) rs)) []))))"

definition grantObject :: "string \<Rightarrow> SleepBackend \<Rightarrow> Unstr" where
  "grantObject version page =
     \<lparr>uGroup = gatewayGroup, uVersion = version, uKind = ''ReferenceGrant'',
      uMeta = emptyMeta (sbNamespace page) SleepGrantName, uObject = JObj []\<rparr>"

definition grantSpec :: "string list \<Rightarrow> SleepBackend \<Rightarrow> json" where
  "grantSpec namespaces page =
     JObj [(''from'', JArr (map (\<lambda>ns. JObj [(''group'', JStr gatewayGroup), (''kind'', JStr ''HTTPRoute''),
             (''namespace'', JStr ns)]) namespaces)),
           (''to'', JArr [JObj [(''group'', JStr []), (''kind'', JStr ''Service''), (''name'', JStr (sbName page))]])]"

definition newGrant :: "string \<Rightarrow> string list \<Rightarrow> SleepBackend \<Rightarrow> Unstr" where
  "newGrant version namespaces page =
     (grantObject version page)
       \<lparr>uMeta := (emptyMeta (sbNamespace page) SleepGrantName)
          \<lparr>omLabels := [''app.kubernetes.io/managed-by'' \<mapsto> ''costdeck'']\<rparr>,
        uObject := JObj [(''spec'', grantSpec namespaces page)]\<rparr>"

definition writeGrant :: "'w api \<Rightarrow> string \<Rightarrow> SleepBackend \<Rightarrow> string list \<Rightarrow> ('w, unit reply) io" where
  "writeGrant api version page namespaces =
     (if namespaces = [] then
        do { d \<leftarrow> act (DeleteObject (grantObject version page)) (deleteObject api (grantObject version page));
             State_Monad.return (case d of Inl e \<Rightarrow> if IsNotFound e then Inr () else Inl e | Inr _ \<Rightarrow> Inr ()) }
      else
        do { g \<leftarrow> ask (getUnstructured api (grantObject version page));
             case g of
               Inl e \<Rightarrow>
                 if IsNotFound e then act (CreateObject (newGrant version namespaces page))
                                          (createObject api (newGrant version namespaces page))
                 else State_Monad.return (Inl e)
             | Inr current \<Rightarrow>
                 (let patch = JObj [(''spec'', grantSpec namespaces page)]
                  in attempt (act (MergePatch current patch) (mergePatch api current patch)) (\<lambda>_.
                       State_Monad.return (Inr ()))) })"

definition SyncSleepGrant :: "'w api \<Rightarrow> SleepBackend \<Rightarrow> string list \<Rightarrow> ('w, unit reply) io" where
  "SyncSleepGrant api page extra =
     attempt (mapping api gatewayGroup ''ReferenceGrant'' [''v1'', ''v1beta1'']) (\<lambda>gvk.
       case gvk of
         None \<Rightarrow> State_Monad.return (Inr ())
       | Some version \<Rightarrow>
           attempt (SleepingNamespaces api) (\<lambda>namespaces.
             writeGrant api version page (sort (addAllNew extra namespaces))))"

text \<open>\<open>NestedStringSlice\<close>: none of it when an element is no string.\<close>

definition hostnamesOf :: "Unstr \<Rightarrow> string list" where
  "hostnamesOf r =
     (case those (map (\<lambda>j. case j of JStr s \<Rightarrow> Some s | _ \<Rightarrow> None) (nestedSlice [''spec'', ''hostnames''] (uObject r))) of
        Some hosts \<Rightarrow> hosts
      | None \<Rightarrow> [])"

definition RouteHostnames :: "'w api \<Rightarrow> string \<Rightarrow> ('w, string list reply) io" where
  "RouteHostnames api ns =
     attempt (routes api ns) (\<lambda>rs.
       State_Monad.return (Inr (sort (addAllNew (concat (map hostnamesOf rs)) []))))"

subsection \<open>The saved rules through their text\<close>

definition canonSaved :: "savedRule \<Rightarrow> savedRule" where
  "canonSaved sr = \<lparr>srBackendRefs = map_option canon (srBackendRefs sr), srFilters = map_option canon (srFilters sr)\<rparr>"

definition exactOpt :: "json option \<Rightarrow> bool" where
  "exactOpt v \<longleftrightarrow> (case v of None \<Rightarrow> True | Some j \<Rightarrow> exactJson j \<and> j \<noteq> JNull)"

lemma key_folds: "equalFold backendRefsKey backendRefsKey" "equalFold filtersKey filtersKey"
  "\<not> equalFold filtersKey backendRefsKey"
  by code_simp+

lemma key_order: "backendRefsKey \<le> filtersKey" "backendRefsKey \<noteq> filtersKey"
  by code_simp+

lemma canon_not_null: "canon j = JNull \<longleftrightarrow> j = JNull"
  by (cases j) (auto simp: canon_object)

lemma sort_fields: "sort_key fst (optField backendRefsKey x @ optField filtersKey y) = optField backendRefsKey x @ optField filtersKey y"
  using key_order by (simp add: optField_def split: option.split)

lemma canon_savedJson: "canon (savedJson sr) = savedJson (canonSaved sr)"
  by (simp add: savedJson_def canon_object sort_fields canonSaved_def optField_def split: option.split)

lemma exact_savedJson: "exactOpt (srBackendRefs sr) \<Longrightarrow> exactOpt (srFilters sr) \<Longrightarrow> exactJson (savedJson sr)"
  by (auto simp: savedJson_def exactOpt_def optField_def split: option.splits)

lemma notNil_canon: "exactJson j \<Longrightarrow> j \<noteq> JNull \<Longrightarrow> notNil (Some (asAny (canon j))) = Some (canon j)"
  by (simp add: asAny_canon notNil_def canon_not_null split: json.split)

lemma decode_savedJson:
  assumes "exactOpt (srBackendRefs sr)" "exactOpt (srFilters sr)"
  shows "decodeRule (savedJson (canonSaved sr)) = Some (canonSaved sr)"
  using assms
  by (cases sr) (auto simp: savedJson_def canonSaved_def optField_def setMember_def emptySaved_def exactOpt_def
      key_folds notNil_canon split: option.splits)

lemma unmarshal_marshal:
  assumes "\<forall>sr \<in> set saved. exactOpt (srBackendRefs sr) \<and> exactOpt (srFilters sr)"
  shows "unmarshalSaved (marshalSaved saved) = Some (map canonSaved saved)"
proof -
  have "exactJson (JArr (map savedJson saved))"
    using assms by (auto simp: list_all_iff exact_savedJson)
  then have "parseJson (marshalSaved saved) = Some (JArr (map (\<lambda>sr. savedJson (canonSaved sr)) saved))"
    unfolding marshalSaved_def by (subst parseJson_marshal) (simp_all add: canon_savedJson)
  moreover have "those (map (\<lambda>sr. decodeRule (savedJson (canonSaved sr))) saved) = Some (map canonSaved saved)"
    using assms by (induction saved) (auto simp: decode_savedJson)
  ultimately show ?thesis by (simp add: unmarshalSaved_def comp_def)
qed

lemma exact_lookup: "exactJson r \<Longrightarrow> exactOpt (notNil (lookupField k r))"
proof -
  assume "exactJson r"
  then have "exactJson j" if "lookupField k r = Some j" for j
    using that by (cases r) (auto simp: list_all_iff dest!: map_of_SomeD)
  then show ?thesis by (auto simp: exactOpt_def notNil_def split: option.split json.split)
qed

lemma exact_savedRuleOf: "exactJson r \<Longrightarrow> exactOpt (srBackendRefs (savedRuleOf r)) \<and> exactOpt (srFilters (savedRuleOf r))"
  by (simp add: savedRuleOf_def exact_lookup)

subsection \<open>Rules there and back\<close>

text \<open>What waking gives back of a rule.\<close>

definition restoredRule :: "json \<Rightarrow> json \<Rightarrow> bool" where
  "restoredRule r r' \<longleftrightarrow>
     (\<forall>k. lookupField k r' = (if k = backendRefsKey \<or> k = filtersKey then map_option canon (notNil (lookupField k r))
                              else lookupField k r))"

lemma putField_lookup: "map_of (putField k v m) k' = (if k' = k \<and> v \<noteq> None then v else map_of m k')"
  by (auto simp: putField_def update_conv' split: option.split)

lemma wake_sleep_rule:
  "sleepRule page ns r = Some r' \<Longrightarrow> \<exists>r''. wakeRule (canonSaved (savedRuleOf r)) r' = Some r'' \<and> restoredRule r r''"
  using key_order(2)
  by (cases r) (auto simp: restoredRule_def putField_lookup delete_conv' update_conv' canonSaved_def savedRuleOf_def)

lemma those_Some: "those xs = Some ys \<longleftrightarrow> xs = map Some ys"
  by (induction xs arbitrary: ys) (auto split: option.splits)

lemma wake_sleep_rules:
  assumes "those (map (sleepRule page ns) rules) = Some rules'"
  shows "\<exists>rules''. wakeRules (map (\<lambda>r. canonSaved (savedRuleOf r)) rules) rules' = Some rules'' \<and> list_all2 restoredRule rules rules''"
proof -
  from assms have s: "list_all2 (\<lambda>r r'. sleepRule page ns r = Some r') rules rules'"
    unfolding those_Some by (auto simp: list_all2_conv_all_nth) (metis length_map nth_map)+
  let ?w = "\<lambda>j. the (wakeRule (canonSaved (savedRuleOf (rules ! j))) (rules' ! j))"
  have l: "length rules' = length rules" using s by (simp add: list_all2_lengthD)
  have w: "wakeRule (canonSaved (savedRuleOf (rules ! j))) (rules' ! j) = Some (?w j) \<and> restoredRule (rules ! j) (?w j)"
    if "j < length rules" for j
    using wake_sleep_rule [of page ns "rules ! j" "rules' ! j"] list_all2_nthD [OF s that] by auto
  have "wakeRules (map (\<lambda>r. canonSaved (savedRuleOf r)) rules) rules' = Some (map ?w [0..<length rules])"
    unfolding wakeRules_def those_Some
    by (rule nth_equalityI) (use w l in \<open>auto simp: nth_enumerate_eq savedAt_def\<close>)
  moreover have "list_all2 restoredRule rules (map ?w [0..<length rules])"
    using w by (auto simp: list_all2_conv_all_nth)
  ultimately show ?thesis by blast
qed

subsection \<open>What is asked of routes\<close>

definition sleepChange :: "SleepBackend \<Rightarrow> change \<Rightarrow> bool" where
  "sleepChange page c \<longleftrightarrow>
     (\<exists>r rules mark. c = MergePatch r (routePatch (rulesJson r rules) mark) \<and> pointsAt rules page
        \<and> length rules = length (rulesOf r)
        \<and> mark = (if sleepingMark r = [] then marshalSaved (map savedRuleOf (rulesOf r)) else sleepingMark r))"

definition wakeChange :: "change \<Rightarrow> bool" where
  "wakeChange c \<longleftrightarrow>
     (\<exists>r saved rules. c = MergePatch r (routePatch (rulesJson r rules) []) \<and> sleepingMark r \<noteq> []
        \<and> unmarshalSaved (sleepingMark r) = Some saved \<and> wakeRules saved (rulesOf r) = Some rules)"

lemma sleepRule_points: "sleepRule page ns r = Some r' \<Longrightarrow> rulePointsAt page r'"
  using key_order(2)
  by (cases r) (auto simp: rulePointsAt_def update_conv' pageRefs_def portOf_def)

lemma sleepStep_change:
  assumes "sleepStep page ns r = Inr (Some (rs, mark))"
  shows "sleepChange page (MergePatch r (routePatch rs mark))"
proof -
  from assms obtain rules where "those (map (sleepRule page ns) (rulesOf r)) = Some rules"
    and rs: "rs = rulesJson r rules"
    and mark: "mark = (if sleepingMark r = [] then marshalSaved (map savedRuleOf (rulesOf r)) else sleepingMark r)"
    by (auto simp: sleepStep_def Let_def split: if_splits option.splits)
  then have m: "map (sleepRule page ns) (rulesOf r) = map Some rules" by (simp add: those_Some)
  then have "length rules = length (rulesOf r)" by (metis length_map)
  moreover have "pointsAt rules page"
    unfolding pointsAt_def list_all_length
  proof (intro allI impI)
    fix j assume "j < length rules"
    then have "sleepRule page ns (rulesOf r ! j) = Some (rules ! j)"
      using m calculation by (metis nth_map)
    then show "rulePointsAt page (rules ! j)" by (rule sleepRule_points)
  qed
  ultimately show ?thesis unfolding sleepChange_def rs using mark by blast
qed

lemma routes_reads: "only P (routes api ns)"
  unfolding routes_def mapping_def
  by (auto intro!: only_attempt only_bind only_ask only_return split: option.split)

lemma patchRoute_only: "P (MergePatch r (routePatch rules mark)) \<Longrightarrow> only P (patchRoute api r rules mark)"
  unfolding patchRoute_def by (rule only_act)

lemma SleepRoutes_only: "only (sleepChange page) (SleepRoutes api ns page)"
proof -
  have "only (sleepChange page) (sleepEach api page ns rs n)" for rs n
    by (induction api page ns rs n rule: sleepEach.induct)
       (auto intro!: only_return only_bind patchRoute_only sleepStep_change split: sum.split option.split)
  then show ?thesis unfolding SleepRoutes_def by (auto intro!: only_bind routes_reads only_return split: sum.split)
qed

lemma WakeRoutes_only: "only wakeChange (WakeRoutes api ns)"
proof -
  have c: "wakeStep r = Inr (Some rs) \<Longrightarrow> wakeChange (MergePatch r (routePatch rs []))" for r rs
    unfolding wakeStep_def wakeChange_def by (fastforce split: if_splits option.splits)
  have "only wakeChange (wakeEach api rs n)" for rs n
    by (induction api rs n rule: wakeEach.induct)
       (auto intro!: only_return only_bind patchRoute_only c split: sum.split option.split)
  then show ?thesis unfolding WakeRoutes_def by (auto intro!: only_bind routes_reads only_return split: sum.split)
qed

text \<open>The namespaces asleep, as far as the cluster listed their routes.\<close>

definition listedAsleep :: "'w api \<Rightarrow> string set \<Rightarrow> bool" where
  "listedAsleep api nss \<longleftrightarrow> nss = {}
     \<or> (\<exists>v rs. Inr rs \<in> set_state (listUnstructured api gatewayGroup v ''HTTPRouteList'' None)
          \<and> nss = (\<lambda>r. omNamespace (uMeta r)) ` {r \<in> set rs. sleepingMark r \<noteq> []})"

lemma listedAsleep_listed:
  "rs = [] \<or> (\<exists>v. Inr rs \<in> set_state (listUnstructured api gatewayGroup v ''HTTPRouteList'' None)) \<Longrightarrow>
    listedAsleep api ((\<lambda>r. omNamespace (uMeta r)) ` {r \<in> set rs. sleepingMark r \<noteq> []})"
  unfolding listedAsleep_def by (cases "rs = []") auto

lemma SleepingNamespaces_gives:
  "gives (SleepingNamespaces api) (\<lambda>r cs. cs = [] \<and> (\<forall>nss. r = Inr nss \<longrightarrow> sorted nss \<and> distinct nss \<and> listedAsleep api (set nss)))"
proof -
  have r: "gives (routes api []) (\<lambda>r cs. cs = [] \<and> (\<forall>rs. r = Inr rs \<longrightarrow> rs = []
      \<or> (\<exists>v. Inr rs \<in> set_state (listUnstructured api gatewayGroup v ''HTTPRouteList'' None))))"
    unfolding routes_def mapping_def
    by (rule gives_attempt, rule gives_bind, rule gives_ask)
       (auto intro!: gives_return gives_ask split: sum.split option.split)
  show ?thesis
    unfolding SleepingNamespaces_def
    by (rule gives_attempt, rule gives_mono [OF r])
       (auto intro!: gives_return listedAsleep_listed split: sum.split)
qed

definition grantChange :: "'w api \<Rightarrow> SleepBackend \<Rightarrow> string list \<Rightarrow> change \<Rightarrow> bool" where
  "grantChange api page extra c \<longleftrightarrow>
     (\<exists>version nss asleep. sorted nss \<and> distinct nss \<and> set nss = asleep \<union> set extra \<and> listedAsleep api asleep
        \<and> (if nss = [] then c = DeleteObject (grantObject version page)
           else c = CreateObject (newGrant version nss page)
              \<or> (\<exists>current. c = MergePatch current (JObj [(''spec'', grantSpec nss page)]))))"

lemma SyncSleepGrant_gives:
  "gives (SyncSleepGrant api page extra) (\<lambda>_ cs. length cs \<le> 1 \<and> (\<forall>c \<in> set cs. grantChange api page extra c))"
proof -
  have w: "gives (writeGrant api version page nss) (\<lambda>_ cs. length cs \<le> 1 \<and> (\<forall>c \<in> set cs. grantChange api page extra c))"
    if "sorted nss" "distinct nss" "set nss = asleep \<union> set extra" "listedAsleep api asleep" for version nss asleep
  proof (cases "nss = []")
    case True
    with that have "grantChange api page extra (DeleteObject (grantObject version page))"
      unfolding grantChange_def by (intro exI [of _ version] exI [of _ nss] exI [of _ asleep]) simp
    with True show ?thesis
      unfolding writeGrant_def by (auto intro!: gives_bind gives_act gives_return)
  next
    case False
    with that have "grantChange api page extra (CreateObject (newGrant version nss page))"
      "\<And>current. grantChange api page extra (MergePatch current (JObj [(''spec'', grantSpec nss page)]))"
      unfolding grantChange_def by (auto intro!: exI [of _ version] exI [of _ nss] exI [of _ asleep])
    with False show ?thesis
      unfolding writeGrant_def Let_def
      by (auto intro!: gives_bind gives_ask gives_act gives_attempt gives_return split: sum.split)
  qed
  have w': "gives (writeGrant api version page (sort (addAllNew extra nss)))
      (\<lambda>_ ds. length ds \<le> 1 \<and> (\<forall>c \<in> set ds. grantChange api page extra c))"
    if "distinct nss" "listedAsleep api (set nss)" for version nss
    by (rule w [of _ "set nss"]) (use that in auto)
  have m: "gives (mapping api gatewayGroup ''ReferenceGrant'' [''v1'', ''v1beta1'']) (\<lambda>_ cs. cs = [])"
    unfolding mapping_def by (auto intro!: gives_bind gives_ask gives_return)
  show ?thesis
    unfolding SyncSleepGrant_def
  proof (rule gives_attempt, rule gives_mono [OF m], goal_cases)
    case (1 g cs)
    have "gives (attempt (SleepingNamespaces api) (\<lambda>namespaces.
             writeGrant api version page (sort (addAllNew extra namespaces))))
        (\<lambda>_ ds. length ds \<le> 1 \<and> (\<forall>c \<in> set ds. grantChange api page extra c))" for version
      by (rule gives_attempt, rule gives_mono [OF SleepingNamespaces_gives])
         (auto split: sum.split intro!: w' [simplified])
    with 1 show ?case by (auto intro!: gives_return split: sum.split option.split)
  qed
qed

subsection \<open>Properties\<close>

text \<open>C40. Waking a route gives back what sleeping took: when a route that was awake is pointed at the
  page and later read with those rules and that mark, every rule gets back the backends and
  filters it had, read through the JSON text of the annotation (numbers as \<open>float64\<close>, keys in
  order, a null as absent), and nothing else of it has changed.\<close>

theorem wake_after_sleep:
  assumes "\<forall>rule \<in> set (rulesOf r). exactJson rule"
    and "sleepingMark r = []" "sleepStep page ns r = Inr (Some (JArr rules, mark))"
    and "nestedField [''spec'', ''rules''] (uObject r') = Some (JArr rules)" "sleepingMark r' = mark"
  shows "\<exists>rules'. wakeStep r' = Inr (Some (JArr rules'))
    \<and> list_all2 (\<lambda>rule rule'. \<forall>k. lookupField k rule' =
          (if k = backendRefsKey \<or> k = filtersKey then map_option canon (notNil (lookupField k rule))
           else lookupField k rule)) (rulesOf r) rules'"
proof -
  from assms(2,3) have slept: "those (map (sleepRule page ns) (rulesOf r)) = Some rules"
    and mark: "mark = marshalSaved (map savedRuleOf (rulesOf r))"
    by (auto simp: sleepStep_def Let_def rulesJson_def split: if_splits option.splits json.splits)
  have "mark \<noteq> []" unfolding mark marshalSaved_def by simp
  moreover have "unmarshalSaved mark = Some (map (\<lambda>r. canonSaved (savedRuleOf r)) (rulesOf r))"
    unfolding mark using assms(1) by (subst unmarshal_marshal) (auto simp: exact_savedRuleOf comp_def)
  moreover obtain rules' where "wakeRules (map (\<lambda>r. canonSaved (savedRuleOf r)) (rulesOf r)) rules = Some rules'"
    "list_all2 restoredRule (rulesOf r) rules'"
    using wake_sleep_rules [OF slept] by blast
  ultimately show ?thesis
    using assms(4,5) unfolding restoredRule_def
    by (intro exI [of _ rules']) (simp add: wakeStep_def rulesOf_def nestedSlice_def rulesJson_def)
qed

definition sleepPage :: SleepBackend where
  "sleepPage = \<lparr>sbName = ''sleep'', sbNamespace = ''costdeck'', sbPort = 80\<rparr>"

definition shopRule :: json where
  "shopRule = JObj [(backendRefsKey, JArr [JObj [(''name'', JStr ''web''), (''port'', JInt 8080)]]), (filtersKey, JNull)]"

definition shopRoute :: "(string \<rightharpoonup> string) \<Rightarrow> json list \<Rightarrow> Unstr" where
  "shopRoute as rules = \<lparr>uGroup = gatewayGroup, uVersion = ''v1'', uKind = ''HTTPRoute'',
     uMeta = (emptyMeta ''shop'' ''web'')\<lparr>omAnnotations := as\<rparr>,
     uObject = JObj [(''spec'', JObj [(''rules'', JArr rules)])]\<rparr>"

lemma shopRoute_simps [simp]:
  "rulesOf (shopRoute as rules) = rules"
  "omAnnotations (uMeta (shopRoute as rules)) = as"
  "uObject (shopRoute as rules) = JObj [(''spec'', JObj [(''rules'', JArr rules)])]"
  by (simp_all add: shopRoute_def rulesOf_def nestedSlice_def)

lemma wake_after_sleep_witness:
  "\<exists>rules rules'. sleepStep sleepPage ''shop'' (shopRoute Map.empty [shopRule]) = Inr (Some (JArr rules, marshalSaved [savedRuleOf shopRule]))
     \<and> wakeStep (shopRoute [SleepingAnnotation \<mapsto> marshalSaved [savedRuleOf shopRule]] rules) = Inr (Some (JArr rules'))
     \<and> map (lookupField backendRefsKey) rules' = [Some (JArr [JObj [(''name'', JStr ''web''), (''port'', JFloat 8080)]])]
     \<and> map (lookupField filtersKey) rules' = [None]"
proof -
  obtain rule where rule: "sleepRule sleepPage ''shop'' shopRule = Some rule" by (simp add: shopRule_def)
  have s: "sleepStep sleepPage ''shop'' (shopRoute Map.empty [shopRule])
      = Inr (Some (JArr [rule], marshalSaved [savedRuleOf shopRule]))"
    unfolding sleepStep_def Let_def by (simp add: rule annotation_def rulesJson_def)
  have e: "\<forall>r \<in> set (rulesOf (shopRoute Map.empty [shopRule])). exactJson r" by (simp add: shopRule_def)
  have m: "sleepingMark (shopRoute Map.empty [shopRule]) = []" by (simp add: annotation_def)
  from wake_after_sleep [OF e m s, of "shopRoute [SleepingAnnotation \<mapsto> marshalSaved [savedRuleOf shopRule]] [rule]"] key_order(2)
  obtain r' where "wakeStep (shopRoute [SleepingAnnotation \<mapsto> marshalSaved [savedRuleOf shopRule]] [rule]) = Inr (Some (JArr [r']))"
    "lookupField backendRefsKey r' = map_option canon (notNil (lookupField backendRefsKey shopRule))"
    "lookupField filtersKey r' = map_option canon (notNil (lookupField filtersKey shopRule))"
    by (auto simp: annotation_def list_all2_Cons1)
  with s show ?thesis
    using key_order(2)
    by (intro exI [of _ "[rule]"] exI [of _ "[r']"])
       (auto simp: shopRule_def notNil_def canon_object)
qed

text \<open>The rules saved on a route are never lost: whatever the cluster answers, every patch that
  sends routes to the page leaves all rules pointing at it and keeps the text of a route that
  was asleep, or saves the current backends and filters of one that was awake.\<close>

theorem SleepRoutes_keeps_saved:
  assumes "run_state (SleepRoutes api ns page) w = (x, w')"
  shows "\<exists>cs. trace w' = trace w @ cs \<and> (\<forall>c \<in> set cs. sleepChange page c)"
  using onlyD [OF SleepRoutes_only assms] .

definition routeApi :: "unit api" where
  "routeApi = quietApi\<lparr>restMapping := \<lambda>_ _ _. State_Monad.return (Inr ''v1''),
     listUnstructured := \<lambda>_ _ k _. State_Monad.return (Inr (if k = ''HTTPRouteList'' then [shopRoute Map.empty [shopRule]] else []))\<rparr>"

lemma SleepRoutes_keeps_saved_witness:
  "\<exists>x w' cs. run_state (SleepRoutes routeApi ''shop'' sleepPage) freshWorld = (x, w')
     \<and> trace w' = cs \<and> (\<forall>c \<in> set cs. sleepChange sleepPage c) \<and> length cs = 1"
proof -
  have one: "length (trace (snd (run_state (SleepRoutes routeApi ''shop'' sleepPage) freshWorld))) = 1"
    by (simp add: SleepRoutes_def routes_def mapping_def attempt_def ask_def act_def patchRoute_def routeApi_def
        quietApi_def freshWorld_def sleepStep_def annotation_def shopRule_def)
  obtain x w' where run: "run_state (SleepRoutes routeApi ''shop'' sleepPage) freshWorld = (x, w')" by fastforce
  from SleepRoutes_keeps_saved [OF run] run one show ?thesis by (auto simp: freshWorld_def)
qed

text \<open>Only routes that Cost Deck put to sleep are woken: every patch of a wake removes the mark
  of a route that bears it and writes the rules its text saved.\<close>

theorem WakeRoutes_own:
  assumes "run_state (WakeRoutes api ns) w = (x, w')"
  shows "\<exists>cs. trace w' = trace w @ cs \<and> (\<forall>c \<in> set cs. wakeChange c)"
  using onlyD [OF WakeRoutes_only assms] .

lemma WakeRoutes_own_witness:
  "\<exists>x w' cs. run_state (WakeRoutes (routeApi\<lparr>listUnstructured := \<lambda>_ _ _ _. State_Monad.return (Inr
        [shopRoute [SleepingAnnotation \<mapsto> marshalSaved [savedRuleOf shopRule]] [shopRule]])\<rparr>) ''shop'') freshWorld = (x, w')
     \<and> trace w' = cs \<and> (\<forall>c \<in> set cs. wakeChange c)"
proof -
  obtain x w' where run: "run_state (WakeRoutes (routeApi\<lparr>listUnstructured := \<lambda>_ _ _ _. State_Monad.return (Inr
        [shopRoute [SleepingAnnotation \<mapsto> marshalSaved [savedRuleOf shopRule]] [shopRule]])\<rparr>) ''shop'') freshWorld = (x, w')"
    by fastforce
  from WakeRoutes_own [OF run] run show ?thesis by (auto simp: freshWorld_def)
qed

text \<open>The grant admits exactly the namespaces asleep: a synchronisation makes at most one
  change, which lists each namespace about to sleep and each with a sleeping route once, in
  order, and deletes the grant only when there is none.\<close>

theorem SyncSleepGrant_lists:
  assumes "run_state (SyncSleepGrant api page extra) w = (x, w')"
  shows "\<exists>cs. trace w' = trace w @ cs \<and> length cs \<le> 1 \<and> (\<forall>c \<in> set cs. grantChange api page extra c)"
  by (rule givesD [OF SyncSleepGrant_gives assms]) blast

lemma SyncSleepGrant_lists_witness:
  "\<exists>x w' cs. run_state (SyncSleepGrant routeApi sleepPage [''shop'']) freshWorld = (x, w')
     \<and> trace w' = cs \<and> length cs \<le> 1 \<and> (\<forall>c \<in> set cs. grantChange routeApi sleepPage [''shop''] c)"
proof -
  obtain x w' where run: "run_state (SyncSleepGrant routeApi sleepPage [''shop'']) freshWorld = (x, w')" by fastforce
  from SyncSleepGrant_lists [OF run] run show ?thesis by (auto simp: freshWorld_def)
qed

end
