(* ===== verification/Release.thy ===== *)
theory Release
  imports StatusReport SleepPage
begin

section \<open>GitOps, sleep page, nodes and release (internal/controller/gitops.go, sleep.go, realized.go, release.go)\<close>

text \<open>
  The steps the two controllers share beside the scaling itself. What is excluded in a namespace
  is a computation (a group looks the rules up for each namespace). The lemmas show the order
  in which the sleep page and its grant change and what a release gives back.
\<close>

subsection \<open>gitops.go\<close>

abbreviation ConditionGitOps :: string where "ConditionGitOps \<equiv> ''GitOps''"

primrec failureText :: "(goError \<Rightarrow> string) \<Rightarrow> pauseFailure \<Rightarrow> string" where
  "failureText err NoPermission = ''no permission to pause it; enable gitops.pause in the Helm chart''"
| "failureText err NotThere = ''not found''"
| "failureText err (OtherFailure e) = err e"

primrec noteText :: "(goError \<Rightarrow> string) \<Rightarrow> pauseNote \<Rightarrow> string" where
  "noteText err (CannotPause ow f) = ownerString ow @ '': '' @ failureText err f"
| "noteText err (FromApplicationSet ow name) = ownerString ow @ '' comes from the ApplicationSet '' @ name
     @ '', which would undo a pause; ignore the replicas in Argo CD instead''"
| "noteText err (LeftRunning ow reason) = ownerString ow @ '' '' @ reason @ '', so it is left running''"

abbreviation FieldManager :: string where "FieldManager \<equiv> ''costdeck''"

fun gitOpsEach ::
    "'w api \<Rightarrow> (string \<Rightarrow> ('w, string list) io) \<Rightarrow> string list \<Rightarrow> bool \<Rightarrow> string list
       \<Rightarrow> string list \<times> string list \<Rightarrow> ('w, string list \<times> string list) io" where
  "gitOpsEach api exclusionsOf allowed pausing [] found = State_Monad.return found"
| "gitOpsEach api exclusionsOf allowed pausing (ns # nss) (owners, notes) =
     do { new \<leftarrow> (if pausing then
                  do { exclusions \<leftarrow> exclusionsOf ns;
                       n \<leftarrow> PauseGitOps api ns exclusions allowed;
                       State_Monad.return (case n of Inl _ \<Rightarrow> [] | Inr n \<Rightarrow> map (noteText (errorText api)) n) }
                else State_Monad.return []);
          exclusions \<leftarrow> exclusionsOf ns;
          found \<leftarrow> GitOpsOwners api ns exclusions;
          gitOpsEach api exclusionsOf allowed pausing nss
            (case found of Inl _ \<Rightarrow> owners | Inr os \<Rightarrow> addAllNew (map ownerString os) owners, notes @ new) }"

definition gitOpsCondition :: "bool \<Rightarrow> int \<Rightarrow> string list \<times> string list \<Rightarrow> conditions \<Rightarrow> conditions" where
  "gitOpsCondition pause generation found =
     (case found of (owners, notes) \<Rightarrow>
        if owners = [] then removeCondition ConditionGitOps
        else (let managed = ''The workloads are managed by '' @ join '', '' owners @ ''.''
              in if \<not> pause then
                   setCondition ConditionGitOps True ''NotPaused''
                     (managed @ '' Unless they ignore the replicas (Argo CD: managedFieldsManagers ['' @ FieldManager
                      @ '']), their sync brings scaled-down workloads back; spec.pauseGitOps pauses them while the schedule keeps them down.'')
                     generation
                 else if notes \<noteq> [] then
                   setCondition ConditionGitOps True ''PartlyPaused'' (managed @ '' Not paused: '' @ join ''; '' notes @ ''.'') generation
                 else setCondition ConditionGitOps True ''Paused''
                        (managed @ '' They are paused while the schedule keeps the workloads down.'') generation))"

definition reconcileGitOps ::
    "'w api \<Rightarrow> (string \<Rightarrow> ('w, string list) io) \<Rightarrow> int \<Rightarrow> string list \<Rightarrow> bool \<Rightarrow> bool \<Rightarrow> conditions \<Rightarrow> ('w, conditions) io" where
  "reconcileGitOps api exclusionsOf generation namespaces pause active conds =
     do { found \<leftarrow> gitOpsEach api exclusionsOf namespaces (pause \<and> \<not> active) namespaces ([], []);
          State_Monad.return (gitOpsCondition pause generation found conds) }"

fun resumeGitOps :: "'w api \<Rightarrow> (string \<Rightarrow> ('w, string list) io) \<Rightarrow> string list \<Rightarrow> ('w, unit) io" where
  "resumeGitOps api exclusionsOf [] = State_Monad.return ()"
| "resumeGitOps api exclusionsOf (ns # nss) =
     do { exclusions \<leftarrow> exclusionsOf ns;
          _ \<leftarrow> ResumeGitOps api ns exclusions;
          resumeGitOps api exclusionsOf nss }"

subsection \<open>sleep.go\<close>

abbreviation ConditionSleepPage :: string where "ConditionSleepPage \<equiv> ''SleepPage''"

text \<open>\<open>config.OperatorNamespace\<close>.\<close>

definition OperatorNamespace :: "'w api \<Rightarrow> string" where
  "OperatorNamespace api = (let ns = env api ''POD_NAMESPACE'' in if ns \<noteq> [] then ns else ''costdeck'')"

definition sleepPageService :: "'w api \<Rightarrow> SleepBackend" where
  "sleepPageService api =
     (let name = env api ''COSTDECK_SLEEP_PAGE_SERVICE''
      in \<lparr>sbName = (if name = [] then ''costdeck-operator-sleep'' else name),
          sbNamespace = OperatorNamespace api,
          sbPort = (case parseInt 64 (env api ''COSTDECK_SLEEP_PAGE_PORT'') of
                      Some port \<Rightarrow> if 0 < port then port else 80 | None \<Rightarrow> 80)\<rparr>)"

fun wakeAll :: "'w api \<Rightarrow> string list \<Rightarrow> ('w, unit reply) io" where
  "wakeAll api [] = SyncSleepGrant api (sleepPageService api) []"
| "wakeAll api (ns # nss) =
     do { (_, e) \<leftarrow> WakeRoutes api ns;
          case e of Some e \<Rightarrow> State_Monad.return (Inl e) | None \<Rightarrow> wakeAll api nss }"

fun sleepAll :: "'w api \<Rightarrow> string list \<Rightarrow> nat \<Rightarrow> ('w, nat reply) io" where
  "sleepAll api [] shown = State_Monad.return (Inr shown)"
| "sleepAll api (ns # nss) shown =
     do { (n, e) \<leftarrow> SleepRoutes api ns (sleepPageService api);
          case e of Some e \<Rightarrow> State_Monad.return (Inl e) | None \<Rightarrow> sleepAll api nss (shown + n) }"

definition sleepPageFailed :: "'w api \<Rightarrow> int \<Rightarrow> goError \<Rightarrow> conditions \<Rightarrow> conditions" where
  "sleepPageFailed api generation e =
     (if IsForbidden e then setCondition ConditionSleepPage False ''Forbidden''
        ''No permission to change HTTPRoutes or the ReferenceGrant; enable sleepPage.enabled in the Helm chart.'' generation
      else setCondition ConditionSleepPage False ''Failed'' (errorText api e) generation)"

definition showsAsleep :: "conditions \<Rightarrow> bool" where
  "showsAsleep conds \<longleftrightarrow> (case map_of conds ConditionSleepPage of Some c \<Rightarrow> condReason c = ''Asleep'' | None \<Rightarrow> False)"

definition showSleepPage :: "'w api \<Rightarrow> int \<Rightarrow> string list \<Rightarrow> conditions \<Rightarrow> ('w, conditions) io" where
  "showSleepPage api generation namespaces conds =
     do { g \<leftarrow> SyncSleepGrant api (sleepPageService api) namespaces;
          case g of
            Inl e \<Rightarrow> State_Monad.return (sleepPageFailed api generation e conds)
          | Inr _ \<Rightarrow>
              do { r \<leftarrow> sleepAll api namespaces 0;
                   case r of
                     Inl e \<Rightarrow> State_Monad.return (sleepPageFailed api generation e conds)
                   | Inr shown \<Rightarrow>
                       if shown = 0 then
                         do { _ \<leftarrow> SyncSleepGrant api (sleepPageService api) [];
                              State_Monad.return (setCondition ConditionSleepPage False ''NoRoutes''
                                (''No Gateway API HTTPRoute in '' @ join '', '' namespaces @ '' to show the sleep page on.'') generation conds) }
                       else State_Monad.return (setCondition ConditionSleepPage True ''Asleep''
                              (itoa (int shown) @ '' HTTPRoute(s) in '' @ join '', '' namespaces @ '' show the sleep page.'') generation conds) } }"

definition reconcileSleepPage ::
    "'w api \<Rightarrow> int \<Rightarrow> string list \<Rightarrow> bool \<Rightarrow> bool \<Rightarrow> bool \<Rightarrow> conditions \<Rightarrow> ('w, conditions) io" where
  "reconcileSleepPage api generation namespaces enabled targetActive isSettled conds =
     (if \<not> enabled then
        (if showsAsleep conds then
           do { r \<leftarrow> wakeAll api namespaces;
                State_Monad.return (case r of
                    Inl e \<Rightarrow> sleepPageFailed api generation e conds
                  | Inr _ \<Rightarrow> removeCondition ConditionSleepPage conds) }
         else State_Monad.return (removeCondition ConditionSleepPage conds))
      else if \<not> isSettled then State_Monad.return conds
      else if targetActive then
        do { r \<leftarrow> wakeAll api namespaces;
             State_Monad.return (case r of
                 Inl e \<Rightarrow> sleepPageFailed api generation e conds
               | Inr _ \<Rightarrow> setCondition ConditionSleepPage False ''Awake'' ''The routes lead to the applications.'' generation conds) }
      else showSleepPage api generation namespaces conds)"

subsection \<open>realized.go\<close>

abbreviation maxScaleDownNodes :: nat where "maxScaleDownNodes \<equiv> 200"

fun nodesOfAll :: "'w api \<Rightarrow> (string \<Rightarrow> ('w, string list) io) \<Rightarrow> string list \<Rightarrow> string list \<Rightarrow> ('w, string list reply) io" where
  "nodesOfAll api exclusionsOf [] names = State_Monad.return (Inr names)"
| "nodesOfAll api exclusionsOf (ns # nss) names =
     do { exclusions \<leftarrow> exclusionsOf ns;
          r \<leftarrow> WorkloadNodes api ns exclusions;
          case r of
            Inl e \<Rightarrow> State_Monad.return (Inl e)
          | Inr nodes \<Rightarrow> nodesOfAll api exclusionsOf nss (addAllNew nodes names) }"

fun nodeRecords :: "'w api \<Rightarrow> string list \<Rightarrow> ('w, ScaleDownNode list) io" where
  "nodeRecords api [] = State_Monad.return []"
| "nodeRecords api (name # names) =
     do { cost \<leftarrow> ask (nodeCost api name);
          rest \<leftarrow> nodeRecords api names;
          State_Monad.return (\<lparr>nodeName = name, HourlyCost = cost\<rparr> # rest) }"

definition recordScaleDown ::
    "'w api \<Rightarrow> (string \<Rightarrow> ('w, string list) io) \<Rightarrow> string list \<Rightarrow> bool \<Rightarrow> bool \<Rightarrow> ScheduleStatus \<Rightarrow> ('w, ScheduleStatus) io" where
  "recordScaleDown api exclusionsOf namespaces active alreadyDown st =
     (if active then State_Monad.return (st\<lparr>ScaleDownNodes := [], ScaleDownAt := None\<rparr>)
      else if ScaleDownAt st \<noteq> None \<or> alreadyDown then State_Monad.return st
      else do { r \<leftarrow> nodesOfAll api exclusionsOf namespaces [];
                case r of
                  Inl _ \<Rightarrow> State_Monad.return st
                | Inr names \<Rightarrow>
                    do { nodes \<leftarrow> nodeRecords api (take maxScaleDownNodes (sort names));
                         now \<leftarrow> ask (clockNow api);
                         State_Monad.return (st\<lparr>ScaleDownNodes := nodes, ScaleDownAt := Some now\<rparr>) } })"

subsection \<open>release.go\<close>

abbreviation ReleaseFinalizer :: string where "ReleaseFinalizer \<equiv> ''finops.costdeck.io/release''"
abbreviation releaseGiveUpAfter :: duration where "releaseGiveUpAfter \<equiv> 10 * minute"
abbreviation releaseRetry :: duration where "releaseRetry \<equiv> 15 * second"

record namespaceRules =
  rExclusions :: "string list"
  rSequence :: "string list"
  rHibernate :: "HibernateRule list"
  rOriginals :: originals
  scaledByThem :: bool
  rDryRun :: bool

text \<open>A Forbidden answer under the optional permissions is no error.\<close>

definition forbiddenOk :: "string \<Rightarrow> 'a reply \<Rightarrow> unit reply" where
  "forbiddenOk ctx r = (case r of Inl e \<Rightarrow> if IsForbidden e then Inr () else Inl (Wrap ctx e) | Inr _ \<Rightarrow> Inr ())"

definition releaseScaled :: "'w api \<Rightarrow> string \<Rightarrow> namespaceRules \<Rightarrow> ('w, unit reply) io" where
  "releaseScaled api ns rules =
     attempt (wrapped (''start the hibernated services of '' @ ns) (ReleaseServices api (groupVersionOf api) ns (rHibernate rules))) (\<lambda>_.
       do { (_, r) \<leftarrow> ScaleTarget api ns True (rSequence rules) (rExclusions rules) (rOriginals rules) True;
            State_Monad.return (map_sum (Wrap (''scale '' @ ns @ '' back up'')) (\<lambda>_. ()) r) })"

definition releaseNamespace :: "'w api \<Rightarrow> string \<Rightarrow> namespaceRules \<Rightarrow> ('w, unit reply) io" where
  "releaseNamespace api ns rules =
     (if rDryRun rules \<and> \<not> scaledByThem rules then State_Monad.return (Inr ())
      else attempt (if scaledByThem rules then releaseScaled api ns rules else State_Monad.return (Inr ())) (\<lambda>_.
           attempt (do { r \<leftarrow> ResumeGitOps api ns (rExclusions rules);
                         State_Monad.return (forbiddenOk (''resume GitOps for '' @ ns) r) }) (\<lambda>_.
             do { (n, e) \<leftarrow> WakeRoutes api ns;
                  State_Monad.return (forbiddenOk (''wake the HTTPRoutes of '' @ ns)
                    (case e of Some e \<Rightarrow> Inl e | None \<Rightarrow> Inr n)) })))"

definition phaseReachedByScaling :: "phase \<Rightarrow> bool" where
  "phaseReachedByScaling ph \<longleftrightarrow> ph \<noteq> PhaseUnset \<and> ph \<noteq> PhaseScaledUp \<and> ph \<noteq> PhaseDryRun"

definition syncSleepGrantAfterRelease :: "'w api \<Rightarrow> ('w, unit reply) io" where
  "syncSleepGrantAfterRelease api =
     do { r \<leftarrow> SyncSleepGrant api (sleepPageService api) [];
          State_Monad.return (forbiddenOk ''update the sleep page ReferenceGrant'' r) }"

definition giveUpOnRelease :: "time \<Rightarrow> time \<Rightarrow> bool" where
  "giveUpOnRelease deletedAt now \<longleftrightarrow> releaseGiveUpAfter \<le> timeSub now deletedAt"

subsection \<open>What the steps ask for\<close>

lemma GitOpsOwners_reads: "only P (GitOpsOwners api ns exclusions)"
  unfolding GitOpsOwners_def gitOpsOwnersWithWorkloads_def
  by (intro only_attempt only_return listScalableResources_reads)

lemma gitOpsEach_only:
  assumes "\<And>ns. reads (exclusionsOf ns)"
  shows "only (\<lambda>c. pausing \<and> pauseChange allowed c) (gitOpsEach api exclusionsOf allowed pausing nss found)"
proof (induction nss arbitrary: found)
  case (Cons ns nss)
  have pause: "only (\<lambda>c. pausing \<and> pauseChange allowed c) (PauseGitOps api ns exclusions allowed)" if pausing for exclusions
    by (rule only_mono [OF PauseGitOps_only]) (use that in simp)
  show ?case
    by (cases found; simp only: gitOpsEach.simps)
       (intro only_bind only_if only_return pause reads_only [OF assms] GitOpsOwners_reads Cons)
qed (simp add: only_return)

lemma reconcileGitOps_only:
  assumes "\<And>ns. reads (exclusionsOf ns)"
  shows "only (\<lambda>c. pause \<and> \<not> active \<and> pauseChange namespaces c)
    (reconcileGitOps api exclusionsOf generation namespaces pause active conds)"
  unfolding reconcileGitOps_def
  by (intro only_bind only_return only_mono [OF gitOpsEach_only [OF assms]]) simp

lemma resumeGitOps_only:
  assumes "\<And>ns. reads (exclusionsOf ns)"
  shows "only resumeChange (resumeGitOps api exclusionsOf nss)"
  by (induction nss) (auto intro!: only_bind only_return reads_only [OF assms] ResumeGitOps_only)

abbreviation grants :: "'w api \<Rightarrow> string list \<Rightarrow> change \<Rightarrow> bool" where
  "grants api extra \<equiv> grantChange api (sleepPageService api) extra"

lemma SyncSleepGrant_only: "only (grantChange api page extra) (SyncSleepGrant api page extra)"
  unfolding only_def by (rule gives_mono [OF SyncSleepGrant_gives]) simp

lemma wakeAll_ordered: "ordered [wakeChange, grants api []] (wakeAll api nss)"
proof (induction nss)
  case Nil
  show ?case
    using ordered_before [OF ordered_only [OF SyncSleepGrant_only], of "[wakeChange]"] by simp
next
  case (Cons ns nss)
  have wakes: "gives (WakeRoutes api ns) (\<lambda>_ cs. \<forall>c \<in> set cs. wakeChange c)"
    using WakeRoutes_only unfolding only_def .
  have rest: "gives (wakeAll api nss) (\<lambda>_. inOrder [wakeChange, grants api []])"
    using Cons unfolding ordered_def .
  have now: "inOrder [wakeChange, grants api []] (cs @ [])" if "\<forall>c \<in> set cs. wakeChange c" for cs
    using that by (rule inOrder_merge) simp
  show ?case
    unfolding ordered_def wakeAll.simps
    by (rule gives_bind, rule gives_mono [OF wakes])
       (auto split: prod.split option.split intro!: gives_return gives_mono [OF rest] inOrder_merge now simp del: inOrder.simps append_Nil2)
qed

lemma sleepAll_only: "only (sleepChange (sleepPageService api)) (sleepAll api nss shown)"
  by (induction nss arbitrary: shown)
     (auto intro!: only_bind only_return SleepRoutes_only split: option.split)

lemma showSleepPage_ordered:
  "ordered [grants api namespaces, sleepChange (sleepPageService api), grants api []]
     (showSleepPage api generation namespaces conds)"
proof -
  let ?sleeps = "sleepChange (sleepPageService api)"
  have last: "ordered [grants api []] (do { _ \<leftarrow> SyncSleepGrant api (sleepPageService api) []; State_Monad.return x })" for x :: conditions
    by (intro ordered_then ordered_only SyncSleepGrant_only ordered_return)
  have "ordered ([?sleeps] @ [grants api []])
      (do { r \<leftarrow> sleepAll api namespaces 0;
            case r of Inl e \<Rightarrow> State_Monad.return (f e)
            | Inr n \<Rightarrow> if n = 0 then do { _ \<leftarrow> SyncSleepGrant api (sleepPageService api) []; State_Monad.return x }
                       else State_Monad.return (g n) })" for f g and x :: conditions
    by (rule ordered_bind [OF ordered_only [OF sleepAll_only]]) (auto intro: ordered_return last split: sum.split)
  then have "ordered ([grants api namespaces] @ [?sleeps, grants api []]) (showSleepPage api generation namespaces conds)"
    unfolding showSleepPage_def
    by (intro ordered_bind [OF ordered_only [OF SyncSleepGrant_only]]) (auto intro: ordered_return split: sum.split)
  then show ?thesis by simp
qed

text \<open>What the sleep page of a schedule may change, in order.\<close>

definition sleepPageOrder :: "'w api \<Rightarrow> string list \<Rightarrow> bool \<Rightarrow> bool \<Rightarrow> bool \<Rightarrow> (change \<Rightarrow> bool) list" where
  "sleepPageOrder api namespaces enabled targetActive isSettled =
     (if enabled \<and> \<not> isSettled then []
      else if enabled \<and> \<not> targetActive then [grants api namespaces, sleepChange (sleepPageService api), grants api []]
      else [wakeChange, grants api []])"

lemma reconcileSleepPage_ordered:
  "ordered (sleepPageOrder api namespaces enabled targetActive isSettled)
     (reconcileSleepPage api generation namespaces enabled targetActive isSettled conds)"
proof -
  have wake: "ordered [wakeChange, grants api []] (do { r \<leftarrow> wakeAll api namespaces; State_Monad.return (f r) })" for f :: "unit reply \<Rightarrow> conditions"
    by (intro ordered_then wakeAll_ordered ordered_return)
  show ?thesis
    unfolding reconcileSleepPage_def sleepPageOrder_def
    by (auto intro: ordered_return wake showSleepPage_ordered)
qed

text \<open>Whether everything is there is not known before the scaling.\<close>

lemma reconcileSleepPage_settling:
  "ordered (sleepPageOrder api namespaces enabled targetActive True)
     (reconcileSleepPage api generation namespaces enabled targetActive isSettled conds)"
proof (cases "isSettled \<or> \<not> enabled")
  case True
  then have "sleepPageOrder api namespaces enabled targetActive True = sleepPageOrder api namespaces enabled targetActive isSettled"
    by (auto simp: sleepPageOrder_def)
  then show ?thesis using reconcileSleepPage_ordered by metis
next
  case False
  then show ?thesis by (simp add: reconcileSleepPage_def ordered_return)
qed

lemma nodesOfAll_reads:
  assumes "\<And>ns. reads (exclusionsOf ns)"
  shows "only P (nodesOfAll api exclusionsOf nss names)"
  by (induction nss arbitrary: names)
     (auto intro!: only_bind only_return reads_only [OF assms] WorkloadNodes_reads split: sum.split)

lemma nodeRecords_reads: "only P (nodeRecords api names)"
  by (induction names) (auto intro!: only_bind only_return only_ask)

lemma recordScaleDown_reads:
  assumes "\<And>ns. reads (exclusionsOf ns)"
  shows "reads (recordScaleDown api exclusionsOf namespaces active alreadyDown st)"
  unfolding recordScaleDown_def reads_def
  by (auto intro!: only_bind only_return only_ask nodesOfAll_reads [OF assms] nodeRecords_reads split: sum.split)

lemma syncSleepGrantAfterRelease_only: "only (grants api []) (syncSleepGrantAfterRelease api)"
  unfolding syncSleepGrantAfterRelease_def by (intro only_bind only_return SyncSleepGrant_only)

text \<open>Scaling up in order: the workloads, then their companions.\<close>

lemma ScaleTarget_up_ordered:
  assumes "getsItself api"
  shows "ordered [workloadChange True exclusions, releaseChange exclusions]
    (ScaleTarget api ns True sequence exclusions originals timeoutPassed)"
  unfolding ordered_def ScaleTarget_def if_True
  by (rule gives_mono [OF scaleWorkloads_gives [OF assms]]) auto

lemma ScaleTarget_down_ordered:
  assumes "getsItself api"
  shows "ordered [holdChange exclusions, workloadChange False exclusions]
    (ScaleTarget api ns False sequence exclusions originals timeoutPassed)"
  unfolding ordered_def
  by (rule gives_mono [OF ScaleTarget_down_gives [OF assms]]) auto

definition giveBackOrder :: "string list \<Rightarrow> bool \<Rightarrow> (change \<Rightarrow> bool) list" where
  "giveBackOrder exclusions scaled =
     (if scaled then [startChange, workloadChange True exclusions, releaseChange exclusions] else [])
     @ [resumeChange, wakeChange]"

lemma releaseScaled_ordered:
  assumes "getsItself api"
  shows "ordered [startChange, workloadChange True (rExclusions rules), releaseChange (rExclusions rules)]
    (releaseScaled api ns rules)"
proof -
  have "ordered ([startChange] @ [workloadChange True (rExclusions rules), releaseChange (rExclusions rules)] @ [])
    (releaseScaled api ns rules)"
    unfolding releaseScaled_def
    by (intro ordered_attempt ordered_wrapped ordered_only ReleaseServices_only ordered_bind ScaleTarget_up_ordered assms)
       (auto intro: ordered_return split: prod.split)
  then show ?thesis by simp
qed

lemma releaseNamespace_ordered:
  assumes "getsItself api"
  shows "ordered (giveBackOrder (rExclusions rules) (scaledByThem rules)) (releaseNamespace api ns rules)"
proof -
  let ?scaled = "[startChange, workloadChange True (rExclusions rules), releaseChange (rExclusions rules)]"
  have resume: "ordered [resumeChange] (do { r \<leftarrow> ResumeGitOps api ns (rExclusions rules); State_Monad.return (f r) })" for f :: "unit reply \<Rightarrow> unit reply"
    by (intro ordered_then ordered_only ResumeGitOps_only ordered_return)
  have wake: "ordered [wakeChange] (do { (n, e) \<leftarrow> WakeRoutes api ns; State_Monad.return (f n e) })" for f :: "nat \<Rightarrow> goError option \<Rightarrow> unit reply"
    by (intro ordered_then ordered_only WakeRoutes_only ordered_prod ordered_return)
  have scaled: "ordered (if scaledByThem rules then ?scaled else [])
      (if scaledByThem rules then releaseScaled api ns rules else State_Monad.return (Inr ()))"
    using releaseScaled_ordered [OF assms] by (simp add: ordered_return)
  have "ordered ((if scaledByThem rules then ?scaled else []) @ ([resumeChange] @ [wakeChange])) (releaseNamespace api ns rules)"
    unfolding releaseNamespace_def
    by (rule ordered_if [OF ordered_return], rule ordered_attempt [OF scaled], rule ordered_attempt [OF resume], rule wake)
  then show ?thesis by (simp add: giveBackOrder_def)
qed

end
