(* ===== verification/Deletion.thy ===== *)
theory Deletion
  imports Release
begin

section \<open>The interface of objects with a release finalizer\<close>

text \<open>
  Configs and groups are deleted alike: while the finalizer is on the object a reconcile tries to
  give everything back, and the finalizer goes when that succeeds or when it has failed for ten
  minutes. The locale states what both reconcilers do as laws and proves once how a deletion ends;
  it is interpreted by the reconcilers of the two objects.
\<close>

locale release_finalizer =
  fixes api :: "'w api"
    and give_back :: "'o \<Rightarrow> ('w, 'o \<times> unit reply) io"
    and let_go :: "'o \<Rightarrow> ('w, duration reply) io"
    and last_change :: "'o \<Rightarrow> change"
    and held :: "'o \<Rightarrow> bool"
    and finish :: "'o \<Rightarrow> time \<Rightarrow> ('w, duration reply) io"
  assumes let_go_asks: "run_state (let_go x) w = (r, w') \<Longrightarrow> trace w' = trace w @ [last_change x]"
    and finish_tries: "held x \<Longrightarrow> finish x deletedAt =
      do { (y, r) \<leftarrow> give_back x;
           case r of
             Inl e \<Rightarrow>
               do { now \<leftarrow> ask (clockNow api);
                    if \<not> giveUpOnRelease deletedAt now then State_Monad.return (Inr releaseRetry) else let_go y }
           | Inr _ \<Rightarrow> let_go y }"
begin

lemma ends:
  assumes "held x" "run_state (finish x deletedAt) w = (r, w')"
    and "run_state (give_back x) w = ((y, released), w1)"
  shows "trace w' = trace w1 @ [last_change y]
      \<and> (released = Inr () \<or> (\<exists>now \<in> set_state (clockNow api). giveUpOnRelease deletedAt now))
    \<or> r = Inr releaseRetry \<and> trace w' = trace w1 \<and> released \<noteq> Inr ()
      \<and> (\<exists>now \<in> set_state (clockNow api). \<not> giveUpOnRelease deletedAt now)"
proof (cases released)
  case (Inr u)
  with assms have "run_state (let_go y) w1 = (r, w')" by (simp add: finish_tries)
  from let_go_asks [OF this] Inr show ?thesis by simp
next
  case (Inl e)
  obtain now e1 where now: "run_state (clockNow api) (ext w1) = (now, e1)" by fastforce
  then have in_now: "now \<in> set_state (clockNow api)" unfolding set_state_iff by (metis fst_conv)
  show ?thesis
  proof (cases "giveUpOnRelease deletedAt now")
    case True
    with assms Inl now have "run_state (let_go y) (w1\<lparr>ext := e1\<rparr>) = (r, w')"
      by (simp add: finish_tries ask_def)
    from let_go_asks [OF this] True in_now show ?thesis by auto
  next
    case False
    with assms Inl now have "r = Inr releaseRetry" "trace w' = trace w1" by (auto simp: finish_tries ask_def)
    with False in_now Inl show ?thesis by auto
  qed
qed

end

end
