(* ===== verification/IdleWatch.thy ===== *)
theory IdleWatch
  imports StatusReport
begin

section \<open>Idle auto-sleep (internal/controller/idle.go)\<close>

text \<open>
  Namespaces nobody uses are put to sleep within their schedule's hours. What the metrics answer
  is a parameter: requests and the peak use of GPUs, as rational numbers, each with whether it
  is known. The lemmas show when a sleep may begin and how long it may last, and that the use of
  an object is measured at most once a minute.
\<close>

abbreviation ConditionIdle :: string where "ConditionIdle \<equiv> ''Idle''"
definition idleSleepLongest :: duration where "idleSleepLongest = 7 * 24 * hour"
definition GPUIdlePercent :: rat where "GPUIdlePercent = 5"

record idleCheck =
  icUID :: string
  icGeneration :: int
  icIdleAfter :: "duration option"
  icNamespaces :: "string list"
  icPhase :: phase
  icUpSince :: time
  icRequired :: bool

subsection \<open>When the use was last measured\<close>

definition due :: "string \<Rightarrow> time \<Rightarrow> (string \<rightharpoonup> time) \<Rightarrow> bool \<times> (string \<rightharpoonup> time)" where
  "due uid now measured =
     (case measured uid of
        Some before \<Rightarrow> if timeSub now before < minute then (False, measured) else (True, measured(uid \<mapsto> now))
      | None \<Rightarrow> (True, measured(uid \<mapsto> now)))"

definition noteDue :: "string \<Rightarrow> time \<Rightarrow> ('w, bool) io" where
  "noteDue uid now =
     state.State (\<lambda>w. case due uid now (measuredAt w) of (b, m) \<Rightarrow> (b, w\<lparr>measuredAt := m\<rparr>))"

subsection \<open>The use\<close>

record usage =
  uRequests :: rat
  uGpuPeak :: rat
  uRequestsKnown :: bool
  uGpuKnown :: bool

definition noUsage :: usage where
  "noUsage = \<lparr>uRequests = 0, uGpuPeak = 0, uRequestsKnown = False, uGpuKnown = False\<rparr>"

definition usageKnown :: "usage \<Rightarrow> bool" where
  "usageKnown u \<longleftrightarrow> uRequestsKnown u \<or> uGpuKnown u"

definition gpuBusy :: "usage \<Rightarrow> bool" where
  "gpuBusy u \<longleftrightarrow> uGpuKnown u \<and> GPUIdlePercent \<le> uGpuPeak u"

definition used :: "usage \<Rightarrow> bool" where
  "used u \<longleftrightarrow> 0 < uRequests u \<or> gpuBusy u"

definition unused :: "usage \<Rightarrow> string list \<Rightarrow> string" where
  "unused u namespaces =
     (let names = join '', '' namespaces
      in if uGpuKnown u \<and> uRequestsKnown u then ''No requests reached '' @ names @ '' and their GPUs stayed idle''
         else if uGpuKnown u then ''The GPUs of '' @ names @ '' stayed idle''
         else ''No requests reached '' @ names)"

type_synonym 'w meter = "string \<Rightarrow> duration \<Rightarrow> ('w, (rat \<times> bool) reply) state"

definition addRequests :: "rat \<times> bool \<Rightarrow> usage \<Rightarrow> usage" where
  "addRequests r u = u\<lparr>uRequests := uRequests u + fst r, uRequestsKnown := uRequestsKnown u \<or> snd r\<rparr>"

definition addPeak :: "rat \<times> bool \<Rightarrow> usage \<Rightarrow> usage" where
  "addPeak p u = u\<lparr>uGpuPeak := max (uGpuPeak u) (fst p), uGpuKnown := uGpuKnown u \<or> snd p\<rparr>"

fun measureUse :: "'w meter \<Rightarrow> 'w meter option \<Rightarrow> duration \<Rightarrow> string list \<Rightarrow> usage \<Rightarrow> ('w, usage reply) io" where
  "measureUse counter gpus period [] u = State_Monad.return (Inr u)"
| "measureUse counter gpus period (ns # nss) u =
     attempt (ask (counter ns period)) (\<lambda>r.
       (case gpus of
          None \<Rightarrow> measureUse counter gpus period nss (addRequests r u)
        | Some gpu \<Rightarrow>
            attempt (ask (gpu ns period)) (\<lambda>p.
              measureUse counter gpus period nss (addPeak p (addRequests r u)))))"

definition isNoHistory :: "goError \<Rightarrow> bool" where
  "isNoHistory e \<longleftrightarrow> rootError e = Msg ''usage history beyond the last hour needs VictoriaMetrics''"

subsection \<open>The step\<close>

text \<open>What is decided, the status and the conditions.\<close>

type_synonym idleResult = "Decision \<times> ScheduleStatus \<times> conditions"

definition setIdle :: "idleCheck \<Rightarrow> bool \<Rightarrow> string \<Rightarrow> string \<Rightarrow> conditions \<Rightarrow> conditions" where
  "setIdle c status reason message = setCondition ConditionIdle status reason message (icGeneration c)"

text \<open>\<open>ApplyIdle\<close> asks for the decision at the end of the sleep when there is a sleep.\<close>

definition fallAsleep :: "(time \<Rightarrow> ('w, Decision) io) \<Rightarrow> Decision \<Rightarrow> time \<Rightarrow> time \<Rightarrow> ('w, Decision) io" where
  "fallAsleep decideAt d until now =
     (if now < until \<and> dMode d = ModeSchedule \<and> dActive d
      then do { atEnd \<leftarrow> decideAt until; State_Monad.return (ApplyIdle d (Some until) now (\<lambda>_. atEnd)) }
      else State_Monad.return d)"

definition sleepUntil :: "Decision \<Rightarrow> time \<Rightarrow> time" where
  "sleepUntil d now =
     (case dNextTransition d of
        Some next \<Rightarrow> if next < now + idleSleepLongest then next else now + idleSleepLongest
      | None \<Rightarrow> now + idleSleepLongest)"

definition actOnUse ::
    "(time \<Rightarrow> ('w, Decision) io) \<Rightarrow> 'w api \<Rightarrow> idleCheck \<Rightarrow> duration \<Rightarrow> time \<Rightarrow> usage reply \<Rightarrow> idleResult \<Rightarrow> ('w, idleResult) io" where
  "actOnUse decideAt api c period now r res =
     (case res of (d, st, conds) \<Rightarrow>
      (case r of
         Inl e \<Rightarrow>
           State_Monad.return (d, st,
             if isNoHistory e then
               setIdle c False ''NoVictoriaMetrics'' ''Idle auto-sleep counts requests and GPU use in VictoriaMetrics, which is not enabled.'' conds
             else setIdle c False ''Failed'' (''Could not measure the use: '' @ errorText api e) conds)
       | Inr u \<Rightarrow>
           if \<not> usageKnown u then
             State_Monad.return (d, st, setIdle c False ''NoTrafficData''
               ''No Envoy Gateway, Istio or ingress-nginx requests and no DCGM GPU metrics for these namespaces in VictoriaMetrics, so they are never treated as unused.'' conds)
           else if \<not> IdleFor period (icUpSince c) now (used u) (usageKnown u) then
             State_Monad.return (d, st, setIdle c False ''InUse''
               ((if uRequests u = 0 then ''Their GPUs were busy'' else ''Requests reached the namespaces'')
                @ '' in the last '' @ durationText period @ ''.'') conds)
           else do { let until = sleepUntil d now;
                     d' \<leftarrow> fallAsleep decideAt d until now;
                     let back = (case dNextTransition d' of
                                   Some next \<Rightarrow> ''until '' @ formatRFC3339 next @ '' or until someone starts them''
                                 | None \<Rightarrow> ''until someone starts them'');
                     State_Monad.return (d', st\<lparr>ssIdleUntil := Some until\<rparr>,
                       setIdle c True ''Unused''
                         (unused u (icNamespaces c) @ '' for '' @ durationText period @ '', so they sleep '' @ back @ ''.'') conds) }))"

definition watchIdle ::
    "'w api \<Rightarrow> (time \<Rightarrow> ('w, Decision) io) \<Rightarrow> idleCheck \<Rightarrow> time \<Rightarrow> idleResult \<Rightarrow> ('w, idleResult) io" where
  "watchIdle api decideAt c now res =
     (case res of (d, st, conds) \<Rightarrow>
      let period = (case icIdleAfter c of Some p \<Rightarrow> p | None \<Rightarrow> 0) in
      if period \<le> 0 then State_Monad.return (d, st\<lparr>ssIdleUntil := None\<rparr>, removeCondition ConditionIdle conds)
      else if dMode d = ModeIdle then State_Monad.return (d, st, conds)
      else
        (let (st, conds) =
           (if ssIdleUntil st \<noteq> None \<or> map_of conds ConditionIdle = None
            then (st\<lparr>ssIdleUntil := None\<rparr>,
                  setIdle c False ''Watching'' (''The namespaces sleep once nobody uses them for '' @ durationText period
                    @ '' within the schedule'' @ [CHR 0x27] @ ''s hours.'') conds)
            else (st, conds))
         in (case countRequests api of
               None \<Rightarrow> State_Monad.return (d, st, conds)
             | Some counter \<Rightarrow>
                 if dMode d \<noteq> ModeSchedule \<or> \<not> dActive d \<or> icRequired c \<or> icPhase c \<noteq> PhaseScaledUp
                    \<or> timeSub now (icUpSince c) < period
                 then State_Monad.return (d, st, conds)
                 else do { isDue \<leftarrow> noteDue (icUID c) now;
                           if \<not> isDue then State_Monad.return (d, st, conds)
                           else do { r \<leftarrow> measureUse counter (gpuPeakOf api) period (icNamespaces c) noUsage;
                                     actOnUse decideAt api c period now r (d, st, conds) } })))"

subsection \<open>Rules for the boundary\<close>

lemma only_noteDue: "only P (noteDue uid now)"
  by (auto simp: only_def gives_def noteDue_def split: prod.splits)

lemma measureUse_reads: "only P (measureUse counter gpus period nss u)"
  by (induction counter gpus period nss u rule: measureUse.induct)
     (auto intro!: only_attempt only_ask only_return split: option.split)

lemma fallAsleep_reads: "(\<And>t. reads (decideAt t)) \<Longrightarrow> only P (fallAsleep decideAt d until now)"
  unfolding fallAsleep_def by (intro only_if only_bind only_return reads_only) blast

lemma watchIdle_reads:
  assumes "\<And>t. reads (decideAt t)"
  shows "reads (watchIdle api decideAt c now res)"
  unfolding watchIdle_def actOnUse_def reads_def
  by (auto simp: Let_def intro!: only_bind only_return only_noteDue measureUse_reads fallAsleep_reads assms
      split: prod.split option.split sum.split)

subsection \<open>When a sleep begins\<close>

lemma fallAsleep_sleeps:
  assumes "run_state (fallAsleep decideAt d until now) w = (d', w')"
  shows "d' = d \<or> dMode d = ModeSchedule \<and> dActive d \<and> now < until \<and> dMode d' = ModeIdle \<and> \<not> dActive d'"
proof (cases "now < until \<and> dMode d = ModeSchedule \<and> dActive d")
  case True
  obtain atEnd w1 where r: "run_state (decideAt until) w = (atEnd, w1)" by fastforce
  with True assms have "d' = ApplyIdle d (Some until) now (\<lambda>_. atEnd)" by (simp add: fallAsleep_def)
  with True show ?thesis by (auto simp: ApplyIdle_def Let_def)
next
  case False
  then have "fallAsleep decideAt d until now = State_Monad.return d" by (auto simp: fallAsleep_def)
  with assms show ?thesis by simp
qed

lemma sleepUntil_bounds:
  "sleepUntil d now \<le> now + idleSleepLongest" "dNextTransition d = Some next \<Longrightarrow> sleepUntil d now \<le> next"
  by (auto simp: sleepUntil_def split: option.split)

text \<open>A sleep that begins is measured: what the step decided, and that it decided it on such a use.\<close>

definition measuredUnused :: "'w api \<Rightarrow> idleCheck \<Rightarrow> duration \<Rightarrow> bool" where
  "measuredUnused api c period \<longleftrightarrow>
     (\<exists>counter u w w'. countRequests api = Some counter
        \<and> run_state (measureUse counter (gpuPeakOf api) period (icNamespaces c) noUsage) w = (Inr u, w')
        \<and> usageKnown u \<and> \<not> used u)"

lemma actOnUse_sleeps:
  assumes "run_state (actOnUse decideAt api c period now r (d, st, conds)) w = ((d', st', conds'), w')" "d' \<noteq> d"
  shows "\<exists>u. r = Inr u \<and> usageKnown u \<and> IdleFor period (icUpSince c) now (used u) True
    \<and> dMode d = ModeSchedule \<and> dActive d \<and> dMode d' = ModeIdle \<and> \<not> dActive d'
    \<and> ssIdleUntil st' = Some (sleepUntil d now)"
proof -
  have "r = Inr (projr r)" "usageKnown (projr r)" and i: "IdleFor period (icUpSince c) now (used (projr r)) (usageKnown (projr r))"
    using assms by (auto simp: actOnUse_def split: sum.splits if_splits)
  moreover obtain d1 w1 where f: "run_state (fallAsleep decideAt d (sleepUntil d now) now) w = (d1, w1)" by fastforce
  ultimately have "d' = d1" "ssIdleUntil st' = Some (sleepUntil d now)"
    using assms(1) by (auto simp: actOnUse_def Let_def split: sum.splits)
  with fallAsleep_sleeps [OF f] assms(2) \<open>r = _\<close> \<open>usageKnown _\<close> i show ?thesis by (intro exI [of _ "projr r"]) auto
qed

lemma watchIdle_sleeps:
  assumes "run_state (watchIdle api decideAt c now (d, st, conds)) w = ((d', st', conds'), w')" "d' \<noteq> d"
  shows "\<exists>period. icIdleAfter c = Some period \<and> 0 < period \<and> period \<le> now - icUpSince c
    \<and> dMode d = ModeSchedule \<and> dActive d \<and> \<not> icRequired c \<and> icPhase c = PhaseScaledUp
    \<and> measuredUnused api c period \<and> dMode d' = ModeIdle \<and> \<not> dActive d'
    \<and> ssIdleUntil st' = Some (sleepUntil d now)"
proof -
  obtain period where period: "icIdleAfter c = Some period" "0 < period"
    using assms by (auto simp: watchIdle_def split: option.splits if_splits)
  obtain st1 conds1 where mark: "(if ssIdleUntil st \<noteq> None \<or> map_of conds ConditionIdle = None
            then (st\<lparr>ssIdleUntil := None\<rparr>,
                  setIdle c False ''Watching'' (''The namespaces sleep once nobody uses them for '' @ durationText period
                    @ '' within the schedule'' @ [CHR 0x27] @ ''s hours.'') conds)
            else (st, conds)) = (st1, conds1)" by fastforce
  obtain counter where counter: "countRequests api = Some counter"
    using assms period mark by (auto simp: watchIdle_def split: option.splits if_splits)
  have go: "\<not> icRequired c \<and> icPhase c = PhaseScaledUp" "dMode d \<noteq> ModeIdle"
    using assms period mark counter by (auto simp: watchIdle_def split: if_splits)
  obtain isDue w1 where n: "run_state (noteDue (icUID c) now) w = (isDue, w1)" by fastforce
  obtain r w2 where m: "run_state (measureUse counter (gpuPeakOf api) period (icNamespaces c) noUsage) w1 = (r, w2)" by fastforce
  have "run_state (actOnUse decideAt api c period now r (d, st1, conds1)) w2 = ((d', st', conds'), w')"
    using assms period mark counter n m by (auto simp: watchIdle_def Let_def split: if_splits)
  from actOnUse_sleeps [OF this assms(2)] m counter period go show ?thesis
    by (auto simp: IdleFor_def measuredUnused_def)
qed

subsection \<open>Properties\<close>

text \<open>C35. Namespaces are put to sleep only when nobody used them: if the step replaces the decision,
  the schedule had them up, no dependents need them, they were seen up for the whole idle period,
  and the metrics answered for all of them that there was neither a request nor a busy GPU in
  it. The sleep ends at the schedule's next change or after seven days, whichever is sooner.\<close>

theorem watchIdle_only_unused:
  assumes "run_state (watchIdle api decideAt c now (d, st, conds)) w = ((d', st', conds'), w')" "d' \<noteq> d"
  shows "\<exists>period until. icIdleAfter c = Some period \<and> 0 < period \<and> period \<le> now - icUpSince c
    \<and> dMode d = ModeSchedule \<and> dActive d \<and> \<not> icRequired c \<and> icPhase c = PhaseScaledUp
    \<and> measuredUnused api c period \<and> dMode d' = ModeIdle \<and> \<not> dActive d'
    \<and> ssIdleUntil st' = Some until \<and> until \<le> now + 7 * 24 * hour
    \<and> (case dNextTransition d of Some next \<Rightarrow> until \<le> next | None \<Rightarrow> True)"
proof -
  from watchIdle_sleeps [OF assms] obtain period where "icIdleAfter c = Some period \<and> 0 < period \<and> period \<le> now - icUpSince c
    \<and> dMode d = ModeSchedule \<and> dActive d \<and> \<not> icRequired c \<and> icPhase c = PhaseScaledUp
    \<and> measuredUnused api c period \<and> dMode d' = ModeIdle \<and> \<not> dActive d'
    \<and> ssIdleUntil st' = Some (sleepUntil d now)" by blast
  moreover have "sleepUntil d now \<le> now + 7 * 24 * hour"
    using sleepUntil_bounds(1) [of d now] by (simp add: idleSleepLongest_def)
  moreover have "case dNextTransition d of Some next \<Rightarrow> sleepUntil d now \<le> next | None \<Rightarrow> True"
    using sleepUntil_bounds(2) by (simp split: option.split)
  ultimately show ?thesis by blast
qed

definition idleApi :: "unit api" where
  "idleApi = quietApi\<lparr>countRequests := Some (\<lambda>_ _. State_Monad.return (Inr (0, True)))\<rparr>"

definition idleShop :: idleCheck where
  "idleShop = \<lparr>icUID = ''u'', icGeneration = 1, icIdleAfter = Some hour, icNamespaces = [''shop''],
     icPhase = PhaseScaledUp, icUpSince = 0, icRequired = False\<rparr>"

lemma watchIdle_only_unused_witness:
  "\<exists>d' st' conds' w'. run_state (watchIdle idleApi (\<lambda>_. State_Monad.return (plainDecision True ModeSchedule None)) idleShop (2 * hour)
       (plainDecision True ModeSchedule None, emptyScheduleStatus, [])) freshWorld = ((d', st', conds'), w')
     \<and> \<not> dActive d' \<and> measuredUnused idleApi idleShop hour"
proof -
  let ?d = "plainDecision True ModeSchedule None"
  obtain d' st' conds' w' where run: "run_state (watchIdle idleApi (\<lambda>_. State_Monad.return ?d) idleShop (2 * hour)
       (?d, emptyScheduleStatus, [])) freshWorld = ((d', st', conds'), w')" by (metis prod.exhaust)
  have "d' \<noteq> ?d"
    using run
    by (auto simp: watchIdle_def idleShop_def emptyScheduleStatus_def idleApi_def quietApi_def noteDue_def due_def
        freshWorld_def timeSub_def ask_def attempt_def actOnUse_def Let_def usageKnown_def addRequests_def noUsage_def
        IdleFor_def used_def gpuBusy_def isZero_def zeroTime_def fallAsleep_def sleepUntil_def idleSleepLongest_def
        ApplyIdle_def plainDecision_def)
  from watchIdle_only_unused [OF run this] run show ?thesis by (auto simp: idleShop_def)
qed

text \<open>The times at which the use of an object is measured, in a sequence of attempts.\<close>

fun measuredTimes :: "string \<Rightarrow> (string \<times> time) list \<Rightarrow> (string \<rightharpoonup> time) \<Rightarrow> time list" where
  "measuredTimes uid [] measured = []"
| "measuredTimes uid ((u, now) # calls) measured =
     (case due u now measured of (b, measured') \<Rightarrow>
        (if b \<and> u = uid then [now] else []) @ measuredTimes uid calls measured')"

lemma due_other: "u \<noteq> uid \<Longrightarrow> due u now measured = (b, measured') \<Longrightarrow> measured' uid = measured uid"
  by (auto simp: due_def split: option.splits if_splits)

lemma due_self: "due uid now measured = (b, measured') \<Longrightarrow>
    (if b then measured' uid = Some now \<and> (\<forall>t. measured uid = Some t \<longrightarrow> t + minute \<le> now) else measured' = measured)"
  by (auto simp: due_def timeSub_def split: option.splits if_splits)

lemma measuredTimes_spaced:
  "sorted_wrt (\<lambda>a b. a + minute \<le> b) (measuredTimes uid calls measured) \<and>
   (\<forall>t. measured uid = Some t \<longrightarrow> (\<forall>x \<in> set (measuredTimes uid calls measured). t + minute \<le> x))"
proof (induction uid calls measured rule: measuredTimes.induct)
  case (2 uid u now calls measured)
  obtain b measured' where d: "due u now measured = (b, measured')" by fastforce
  note IH = "2.IH" [OF d [symmetric]]
  show ?case
  proof (cases "u = uid")
    case True
    with due_self [of uid now measured b measured'] d IH show ?thesis by (cases b) force+
  next
    case False
    with due_other [OF False d] IH d show ?thesis by auto
  qed
qed simp

text \<open>Watch events do not flood the metrics: whatever the attempts and their times, those of
  other objects between them, the use of an object is measured at times a minute or more apart.\<close>

theorem measured_once_a_minute:
  "sorted_wrt (\<lambda>a b. a + minute \<le> b) (measuredTimes uid calls Map.empty)"
  using measuredTimes_spaced by blast

end
