(* ===== verification/ConfigController.thy ===== *)
theory ConfigController
  imports Deletion IdleWatch
begin

section \<open>The reconciler of ScalingConfigs (internal/controller/scalingconfig\_controller.go)\<close>

text \<open>
  One reconcile of a ScalingConfig: the deletion with its release, the groups that own the
  namespace, the dry run, and the scaling with all that goes with it, up to the status and the
  time of the next reconcile. A result is that time, zero for none. Logs, events and telemetry
  are left out. The lemmas show what a reconcile may change and in which order, and that a
  deleted config goes.
\<close>

text \<open>\<open>timeoutMinutes\<close> of \<open>scalinggroup_controller.go\<close>.\<close>

definition timeoutMinutes :: "ScalingGroupFeatureFlags option \<Rightarrow> int" where
  "timeoutMinutes flags =
     (case flags of Some f \<Rightarrow> if 0 < TimeoutMinutes f then TimeoutMinutes f else 5 | None \<Rightarrow> 5)"

definition skipsOnTimeout :: "ScalingGroupFeatureFlags option \<Rightarrow> bool" where
  "skipsOnTimeout flags \<longleftrightarrow> (case flags of Some f \<Rightarrow> SkipOnTimeout f | None \<Rightarrow> False)"

definition isManagedByGroup :: "'w api \<Rightarrow> string \<Rightarrow> ('w, string option reply) io" where
  "isManagedByGroup api ns =
     attempt (ask (listGroups api None)) (\<lambda>groups. State_Monad.return (Inr (NamespaceOwners groups ns)))"

definition configExclusions :: "'w api \<Rightarrow> ScalingConfig \<Rightarrow> string list" where
  "configExclusions api config = ExclusionsWith (groupVersionOf api) (cExclusions (cSpec config)) (cHibernate (cSpec config))"

subsection \<open>Deletion\<close>

definition configRules :: "'w api \<Rightarrow> ScalingConfig \<Rightarrow> namespaceRules" where
  "configRules api config =
     \<lparr>rExclusions = configExclusions api config, rSequence = cSequence (cSpec config),
      rHibernate = cHibernate (cSpec config), rOriginals = cOriginalReplicas (cStatus config),
      scaledByThem = (phaseReachedByScaling (cPhase (cStatus config)) \<or> cOriginalReplicas (cStatus config) \<noteq> []),
      rDryRun = (cPhase (cStatus config) = PhaseDryRun)\<rparr>"

definition releaseEverything :: "'w api \<Rightarrow> ScalingConfig \<Rightarrow> ('w, unit reply) io" where
  "releaseEverything api config =
     (if cPhase (cStatus config) = PhaseOverriddenByGroup then State_Monad.return (Inr ())
      else attempt (isManagedByGroup api (TargetNamespace (cSpec config))) (\<lambda>managed.
           if managed \<noteq> None then State_Monad.return (Inr ())
           else attempt (releaseNamespace api (TargetNamespace (cSpec config)) (configRules api config)) (\<lambda>_.
                syncSleepGrantAfterRelease api)))"

definition withoutFinalizer :: "ScalingConfig \<Rightarrow> ScalingConfig" where
  "withoutFinalizer config = config\<lparr>cFinalizers := filter (\<lambda>f. f \<noteq> ReleaseFinalizer) (cFinalizers config)\<rparr>"

definition dropFinalizer :: "'w api \<Rightarrow> ScalingConfig \<Rightarrow> ('w, duration reply) io" where
  "dropFinalizer api config =
     do { r \<leftarrow> act (UpdateConfig (withoutFinalizer config)) (updateConfig api (withoutFinalizer config));
          case r of
            Inl e \<Rightarrow> State_Monad.return (if IsNotFound e then Inr 0 else Inl e)
          | Inr _ \<Rightarrow> do { forgetAnnounced (cUID config); State_Monad.return (Inr 0) } }"

definition finalize :: "'w api \<Rightarrow> ScalingConfig \<Rightarrow> time \<Rightarrow> ('w, duration reply) io" where
  "finalize api config deletedAt =
     (if ReleaseFinalizer \<notin> set (cFinalizers config) then State_Monad.return (Inr 0)
      else do { r \<leftarrow> releaseEverything api config;
                case r of
                  Inl e \<Rightarrow>
                    do { now \<leftarrow> ask (clockNow api);
                         if \<not> giveUpOnRelease deletedAt now then State_Monad.return (Inr releaseRetry)
                         else dropFinalizer api config }
                | Inr _ \<Rightarrow> dropFinalizer api config })"

definition handleDeletion :: "'w api \<Rightarrow> ScalingConfig \<Rightarrow> ('w, ScalingConfig \<times> duration reply option) io" where
  "handleDeletion api config =
     (case cDeleted config of
        Some deletedAt \<Rightarrow>
          do { r \<leftarrow> finalize api config deletedAt; State_Monad.return (config, Some r) }
      | None \<Rightarrow>
          if ReleaseFinalizer \<in> set (cFinalizers config) then State_Monad.return (config, None)
          else do { let config' = config\<lparr>cFinalizers := cFinalizers config @ [ReleaseFinalizer]\<rparr>;
                    r \<leftarrow> act (UpdateConfig config') (updateConfig api config');
                    State_Monad.return (config', case r of Inl e \<Rightarrow> Some (Inl e) | Inr _ \<Rightarrow> None) })"

subsection \<open>The status\<close>

definition configMapStatus :: "(ScalingConfigStatus \<Rightarrow> ScalingConfigStatus) \<Rightarrow> ScalingConfig \<Rightarrow> ScalingConfig" where
  "configMapStatus f config = config\<lparr>cStatus := f (cStatus config)\<rparr>"

text \<open>A change of the part of the status that groups share.\<close>

definition onReport :: "(ScheduleStatus \<times> conditions \<Rightarrow> ScheduleStatus \<times> conditions) \<Rightarrow> ScalingConfigStatus \<Rightarrow> ScalingConfigStatus" where
  "onReport f st =
     (case f (cScheduleStatus st, cConditions st) of (s, c) \<Rightarrow> st\<lparr>cScheduleStatus := s, cConditions := c\<rparr>)"

definition markAsOverridden ::
    "'w api \<Rightarrow> ScalingConfig \<Rightarrow> ScalingConfigStatus \<Rightarrow> string \<Rightarrow> ('w, duration reply) io" where
  "markAsOverridden api config before groupName =
     do { lastAction \<leftarrow> (if cPhase (cStatus config) \<noteq> PhaseOverriddenByGroup then ask (clockNow api)
                        else State_Monad.return (cLastAction (cStatus config)));
          let config' = configMapStatus (\<lambda>st. st\<lparr>cLastAction := lastAction, cPhase := PhaseOverriddenByGroup,
                cScheduleStatus := emptyScheduleStatus,
                cConditions := setCondition ConditionReady False (phaseText PhaseOverriddenByGroup)
                  (''Namespace '' @ TargetNamespace (cSpec config) @ '' is managed by ScalingGroup '' @ groupName
                   @ ''; this config only contributes its sequence, exclusions and hibernate rules.'')
                  (cGeneration config) (cConditions st)\<rparr>) config;
          attempt (updateConfigIfChanged api before config') (\<lambda>_. State_Monad.return (Inr (5 * minute))) }"

definition updateStatusPhase :: "'w api \<Rightarrow> ScalingConfig \<Rightarrow> bool \<Rightarrow> string list \<Rightarrow> ('w, ScalingConfig \<times> bool) io" where
  "updateStatusPhase api config targetActive exclusions =
     do { computed \<leftarrow> ComputePhase api (TargetNamespace (cSpec config)) targetActive exclusions;
          config' \<leftarrow>
            (if cPhase (cStatus config) \<noteq> computed then
               do { now \<leftarrow> ask (clockNow api);
                    State_Monad.return (configMapStatus (\<lambda>st. st\<lparr>cPhase := computed, cLastAction := now\<rparr>) config) }
             else if isZero (cLastAction (cStatus config)) then
               do { now \<leftarrow> ask (clockNow api);
                    State_Monad.return (configMapStatus (\<lambda>st. st\<lparr>cLastAction := now\<rparr>) config) }
             else State_Monad.return config);
          let flags = cFeatureFlags (cSpec config);
          if (cPhase (cStatus config') = PhaseScalingUp \<or> cPhase (cStatus config') = PhaseScalingDown) \<and> skipsOnTimeout flags
          then do { now \<leftarrow> ask (clockNow api);
                    State_Monad.return (config', i64 (timeoutMinutes flags * minute) < timeSub now (cLastAction (cStatus config'))) }
          else State_Monad.return (config', False) }"

subsection \<open>A dry run\<close>

definition requeueSettled :: "'w api \<Rightarrow> Decision \<Rightarrow> ('w, duration reply) io" where
  "requeueSettled api d = do { now \<leftarrow> ask (clockNow api); State_Monad.return (Inr (settledRequeue d now)) }"

definition dryRunConfig ::
    "'w api \<Rightarrow> ScalingConfig \<Rightarrow> ScalingConfigStatus \<Rightarrow> Decision \<Rightarrow> problem list \<Rightarrow> ('w, duration reply) io" where
  "dryRunConfig api config before d problems =
     attempt (wouldChange api (TargetNamespace (cSpec config)) (dActive d) (configExclusions api config) (cHibernate (cSpec config))) (\<lambda>n.
       do { let config' = configMapStatus (\<lambda>st. onReport (\<lambda>(s, c). (s,
                  setDryRunCondition (dryRunMessage ''schedule'' (dActive d) n (min n 1) 0 []) (cGeneration config)
                    (setExceptionsCondition problems (cGeneration config) c)))
                (onReport (applyDecision d (cGeneration config) ''namespace'') st)\<lparr>cPhase := PhaseDryRun\<rparr>) config;
            attempt (updateConfigIfChanged api before config') (\<lambda>_. requeueSettled api d) })"

subsection \<open>Scaling\<close>

text \<open>Before the scaling: the idle watch, the phase, GitOps and the nodes a scale-down frees.\<close>

definition configIdleCheck :: "ScalingConfig \<Rightarrow> idleCheck" where
  "configIdleCheck config =
     \<lparr>icUID = cUID config, icGeneration = cGeneration config, icIdleAfter = cIdleAfter (cSpec config),
      icNamespaces = [TargetNamespace (cSpec config)], icPhase = cPhase (cStatus config),
      icUpSince = cLastAction (cStatus config), icRequired = False\<rparr>"

definition watchConfig ::
    "'w api \<Rightarrow> (time \<Rightarrow> Decision) \<Rightarrow> ScalingConfig \<Rightarrow> Decision \<Rightarrow> ('w, Decision \<times> ScalingConfig) io" where
  "watchConfig api decideAt config d =
     do { now \<leftarrow> ask (clockNow api);
          (d', s, c) \<leftarrow> watchIdle api (\<lambda>t. State_Monad.return (decideAt t)) (configIdleCheck config) now
            (d, cScheduleStatus (cStatus config),
             setDryRunCondition [] (cGeneration config) (cConditions (cStatus config)));
          State_Monad.return (d', configMapStatus (onReport (\<lambda>_. (s, c))) config) }"

definition prepareConfig :: "'w api \<Rightarrow> ScalingConfig \<Rightarrow> bool \<Rightarrow> ('w, ScalingConfig \<times> bool) io" where
  "prepareConfig api config targetActive =
     do { let ns = TargetNamespace (cSpec config);
          let exclusionsOf = (\<lambda>_. State_Monad.return (configExclusions api config));
          (config', timeoutPassed) \<leftarrow> updateStatusPhase api config targetActive (configExclusions api config);
          c \<leftarrow> reconcileGitOps api exclusionsOf (cGeneration config) [ns] (cPauseGitOps (cSpec config)) targetActive
                 (cConditions (cStatus config'));
          s \<leftarrow> recordScaleDown api exclusionsOf [ns] targetActive (cPhase (cStatus config) = PhaseScaledDown)
                 (cScheduleStatus (cStatus config'));
          State_Monad.return (configMapStatus (onReport (\<lambda>_. (s, c))) config', timeoutPassed) }"

text \<open>After it: GitOps and the routes, then the status. \<open>previousPhase\<close> is the phase found.\<close>

definition showConfig :: "'w api \<Rightarrow> ScalingConfig \<Rightarrow> bool \<Rightarrow> bool \<Rightarrow> ('w, ScalingConfig) io" where
  "showConfig api config targetActive ready =
     do { let ns = TargetNamespace (cSpec config);
          (if targetActive \<and> ready then resumeGitOps api (\<lambda>_. State_Monad.return (configExclusions api config)) [ns]
           else State_Monad.return ());
          c \<leftarrow> reconcileSleepPage api (cGeneration config) [ns] (cSleepPage (cSpec config)) targetActive ready
                 (cConditions (cStatus config));
          State_Monad.return (configMapStatus (\<lambda>st. st\<lparr>cConditions := c\<rparr>) config) }"

definition reportConfig ::
    "'w api \<Rightarrow> ScalingConfig \<Rightarrow> Decision \<Rightarrow> problem list \<Rightarrow> phase \<Rightarrow> bool \<Rightarrow> ('w, ScalingConfig) io" where
  "reportConfig api config d problems previousPhase ready =
     do { let generation = cGeneration config;
          let ph = (if ready then if dActive d then PhaseScaledUp else PhaseScaledDown else cPhase (cStatus config));
          let config1 = configMapStatus (\<lambda>st. onReport (\<lambda>(s, c). (s,
                setReadyCondition ph (dActive d) generation [] (setExceptionsCondition problems generation c)))
              (onReport (applyDecision d generation ''namespace'') st)\<lparr>cPhase := ph\<rparr>) config;
          now \<leftarrow> ask (clockNow api);
          let s = trackWakeUp (cScheduleStatus (cStatus config1)) previousPhase ph now;
          k \<leftarrow> KeptDown api (TargetNamespace (cSpec config)) (cOriginalReplicas (cStatus config1));
          s' \<leftarrow> (case k of Inl _ \<Rightarrow> State_Monad.return s | Inr requests \<Rightarrow> recordSavings api requests s);
          State_Monad.return (configMapStatus (\<lambda>st. st\<lparr>cScheduleStatus := s'\<rparr>) config1) }"

definition finishConfig ::
    "'w api \<Rightarrow> ScalingConfig \<Rightarrow> ScalingConfigStatus \<Rightarrow> Decision \<Rightarrow> phase \<Rightarrow> bool \<Rightarrow> ('w, duration reply) io" where
  "finishConfig api config before d previousPhase ready =
     attempt (updateConfigIfChanged api before config) (\<lambda>_.
       do { announce api (cUID config) ''Namespace'' (TargetNamespace (cSpec config)) previousPhase (cPhase (cStatus config));
            if \<not> ready then State_Monad.return (Inr (5 * second)) else requeueSettled api d })"

definition actOnConfig ::
    "'w api \<Rightarrow> ScalingConfig \<Rightarrow> ScalingConfigStatus \<Rightarrow> Decision \<Rightarrow> problem list \<Rightarrow> ('w, duration reply) io" where
  "actOnConfig api config before d problems =
     do { let previousPhase = cPhase (cStatus config);
          (config, timeoutPassed) \<leftarrow> prepareConfig api config (dActive d);
          (newReplicas, r) \<leftarrow> ScaleWithServices api (groupVersionOf api) (TargetNamespace (cSpec config)) (dActive d)
            (cSequence (cSpec config)) (configExclusions api config) (cHibernate (cSpec config))
            (cOriginalReplicas (cStatus config)) timeoutPassed;
          case r of
            Inl e \<Rightarrow> State_Monad.return (Inl e)
          | Inr ready \<Rightarrow>
              do { config \<leftarrow> showConfig api config (dActive d) ready;
                   let config = configMapStatus (\<lambda>st. st\<lparr>cOriginalReplicas := (case newReplicas of Some m \<Rightarrow> m | None \<Rightarrow> [])\<rparr>) config;
                   config \<leftarrow> reportConfig api config d problems previousPhase ready;
                   finishConfig api config before d previousPhase ready } }"

definition scaleConfig ::
    "'w api \<Rightarrow> (time \<Rightarrow> Decision) \<Rightarrow> ScalingConfig \<Rightarrow> ScalingConfigStatus \<Rightarrow> Decision \<Rightarrow> problem list \<Rightarrow> ('w, duration reply) io" where
  "scaleConfig api decideAt config before d problems =
     do { (d, config) \<leftarrow> watchConfig api decideAt config d;
          actOnConfig api config before d problems }"

subsection \<open>Reconcile\<close>

definition configTimetable :: "'w api \<Rightarrow> ScalingConfig \<Rightarrow> HolidayCalendar list \<Rightarrow> Timetable \<times> problem list" where
  "configTimetable api config calendars =
     (let (exceptions, problems) = ResolveExceptions (zones api) (cExceptions (cSpec config)) (cCalendars (cSpec config))
            calendars (ExceptionZone (cSchedules (cSpec config)))
      in (\<lparr>ttSchedules = cSchedules (cSpec config), ttExceptions = exceptions,
           ttLead = PrewarmLead (cPrewarm (cSpec config)) (RecentWakeUps (cScheduleStatus (cStatus config)))\<rparr>, problems))"

definition configDecision :: "'w api \<Rightarrow> ScalingConfig \<Rightarrow> Timetable \<Rightarrow> time \<Rightarrow> Decision" where
  "configDecision api config tt t =
     Decide (zones api) t tt (cActive (cSpec config)) (cActiveUntil (cSpec config)) (cAnnotations config)"

definition reconcileConfig :: "'w api \<Rightarrow> ScalingConfig \<Rightarrow> ('w, duration reply) io" where
  "reconcileConfig api config =
     attempt (isManagedByGroup api (TargetNamespace (cSpec config))) (\<lambda>managed.
       case managed of
         Some groupName \<Rightarrow> markAsOverridden api config (cStatus config) groupName
       | None \<Rightarrow>
           do { calendars \<leftarrow> calendarsOf api;
                let (tt, problems) = configTimetable api config calendars;
                let decideAt = configDecision api config tt;
                now \<leftarrow> ask (clockNow api);
                now' \<leftarrow> ask (clockNow api);
                let d = ApplyIdle (decideAt now) (IdleUntil (cScheduleStatus (cStatus config))) now' decideAt;
                if cDryRun (cSpec config) then dryRunConfig api config (cStatus config) d problems
                else scaleConfig api decideAt config (cStatus config) d problems })"

definition Reconcile :: "'w api \<Rightarrow> string \<Rightarrow> string \<Rightarrow> ('w, duration reply) io" where
  "Reconcile api ns name =
     do { r \<leftarrow> ask (getConfig api ns name);
          case r of
            Inl e \<Rightarrow> State_Monad.return (if IsNotFound e then Inr 0 else Inl e)
          | Inr config \<Rightarrow>
              do { (config, handled) \<leftarrow> handleDeletion api config;
                   case handled of
                     Some result \<Rightarrow> State_Monad.return result
                   | None \<Rightarrow> reconcileConfig api config } }"

subsection \<open>Events that enqueue configs\<close>

definition selectionChanged :: "ScalingGroup \<Rightarrow> ScalingGroup \<Rightarrow> bool" where
  "selectionChanged old new \<longleftrightarrow> SelectedNamespaces (Status old) \<noteq> SelectedNamespaces (Status new)"

definition configKey :: "ScalingConfig \<Rightarrow> string \<times> string" where
  "configKey config = (cNamespace config, cName config)"

definition configsBesideGroup :: "'w api \<Rightarrow> string \<Rightarrow> ('w, (string \<times> string) list) io" where
  "configsBesideGroup api ns =
     do { r \<leftarrow> ask (listConfigs api (Some ns));
          State_Monad.return (case r of Inl _ \<Rightarrow> [] | Inr configs \<Rightarrow> map configKey configs) }"

definition configsWithCalendars :: "'w api \<Rightarrow> string \<Rightarrow> ('w, (string \<times> string) list) io" where
  "configsWithCalendars api ns =
     do { r \<leftarrow> ask (listConfigs api (Some ns));
          State_Monad.return (case r of Inl _ \<Rightarrow> []
            | Inr configs \<Rightarrow> map configKey (filter (\<lambda>c. cCalendars (cSpec c) \<noteq> []) configs)) }"

subsection \<open>What the steps ask for\<close>

lemma configMapStatus_simps [simp]:
  "cSpec (configMapStatus f config) = cSpec config" "cStatus (configMapStatus f config) = f (cStatus config)"
  by (simp_all add: configMapStatus_def)

definition sameSpec :: "ScalingConfig \<Rightarrow> ScalingConfig \<Rightarrow> bool" where
  "sameSpec a b \<longleftrightarrow> cSpec b = cSpec a"

lemma sameSpec_map [simp]: "sameSpec a (configMapStatus f b) = sameSpec a b" "sameSpec a a"
  by (simp_all add: sameSpec_def)

text \<open>Writing the object itself or its status, and announcing.\<close>

definition ownWrite :: "change \<Rightarrow> bool" where
  "ownWrite c \<longleftrightarrow> (\<exists>config. c = UpdateConfig config \<or> c = UpdateConfigStatus config)"

definition isAnnouncement :: "change \<Rightarrow> bool" where
  "isAnnouncement c \<longleftrightarrow> (\<exists>kind name ph. c = Announce kind name ph)"

definition stepOrder :: "'w api \<Rightarrow> string \<Rightarrow> string list \<Rightarrow> bool \<Rightarrow> (change \<Rightarrow> bool) list" where
  "stepOrder api ns exclusions active =
     (if active then [startChange, workloadChange True exclusions, releaseChange exclusions]
      else [holdChange exclusions, workloadChange False exclusions, stopChange])"

lemma ScaleWithServices_ordered:
  assumes "getsItself api"
  shows "ordered (stepOrder api ns exclusions active)
    (ScaleWithServices api parseGV ns active sequence exclusions rules originals timeoutPassed)"
proof (cases active)
  case True
  have "ordered ([startChange] @ [workloadChange True exclusions, releaseChange exclusions])
      (ScaleWithServices api parseGV ns True sequence exclusions rules originals timeoutPassed)"
    unfolding ScaleWithServices_def if_True
    by (intro ordered_bind ordered_only ordered_sum ordered_if ordered_return ScaleTarget_up_ordered [OF assms]
        HibernateServices_only [where active = True, unfolded if_True])
  with True show ?thesis by (simp add: stepOrder_def)
next
  case False
  have "ordered ([holdChange exclusions, workloadChange False exclusions] @ [stopChange])
      (ScaleWithServices api parseGV ns False sequence exclusions rules originals timeoutPassed)"
    unfolding ScaleWithServices_def if_False
    by (intro ordered_bind ScaleTarget_down_ordered [OF assms] ordered_if ordered_return ordered_then ordered_only
        HibernateServices_only [where active = False, unfolded if_False])
  with False show ?thesis by (simp add: stepOrder_def)
qed

lemma watchConfig_reads: "reads (watchConfig api decideAt config d)"
  unfolding watchConfig_def reads_def Let_def
  by (intro only_bind only_ask only_prod only_return reads_only [OF watchIdle_reads] readsI)

lemma watchConfig_yields:
  "yields (watchConfig api decideAt config d) (\<lambda>(d', config'). sameSpec config config' \<and> (d' = d \<or> dMode d = ModeSchedule))"
proof -
  have "yields (watchIdle api at' c now (d, s, conds)) (\<lambda>(d', s', c'). d' = d \<or> dMode d = ModeSchedule)" for at' c now s conds
    unfolding yields_def using watchIdle_sleeps by fastforce
  note w = this
  show ?thesis
    unfolding watchConfig_def Let_def
    by (rule yields_bind [OF yields_True], rule yields_bind [OF w]) (auto intro: yields_return)
qed

lemma updateStatusPhase_reads: "reads (updateStatusPhase api config targetActive exclusions)"
  unfolding updateStatusPhase_def reads_def Let_def
  by (intro only_bind only_if only_ask only_return ComputePhase_reads)

lemma updateStatusPhase_yields:
  "yields (updateStatusPhase api config targetActive exclusions) (\<lambda>(config', _). sameSpec config config')"
proof -
  have "yields (if cPhase (cStatus config) \<noteq> computed then
               do { now \<leftarrow> ask (clockNow api);
                    State_Monad.return (configMapStatus (\<lambda>st. st\<lparr>cPhase := computed, cLastAction := now\<rparr>) config) }
             else if isZero (cLastAction (cStatus config)) then
               do { now \<leftarrow> ask (clockNow api);
                    State_Monad.return (configMapStatus (\<lambda>st. st\<lparr>cLastAction := now\<rparr>) config) }
             else State_Monad.return config) (sameSpec config)" for computed
    by (auto intro!: yields_bind [OF yields_True] yields_return)
  then show ?thesis
    unfolding updateStatusPhase_def Let_def
    by (intro yields_bind [OF yields_True] yields_bind)
       (auto intro!: yields_bind [OF yields_True] yields_return)
qed

lemma prepareConfig_ordered:
  "ordered [\<lambda>c. cPauseGitOps (cSpec config) \<and> \<not> targetActive \<and> pauseChange [TargetNamespace (cSpec config)] c]
    (prepareConfig api config targetActive)"
proof -
  have ex: "reads (State_Monad.return x)" for x :: "string list" by (intro readsI only_return)
  have "ordered [\<lambda>c. cPauseGitOps (cSpec config) \<and> \<not> targetActive \<and> pauseChange [TargetNamespace (cSpec config)] c]
      (reconcileGitOps api (\<lambda>_. State_Monad.return (configExclusions api config)) g [TargetNamespace (cSpec config)]
        (cPauseGitOps (cSpec config)) targetActive c)" for g c
    by (intro ordered_only reconcileGitOps_only ex)
  moreover have "ordered [] (recordScaleDown api (\<lambda>_. State_Monad.return (configExclusions api config)) nss a b s)" for nss a b s
    by (intro reads_ordered recordScaleDown_reads ex)
  ultimately show ?thesis
    unfolding prepareConfig_def Let_def
    by (intro ordered_reads [OF updateStatusPhase_reads] ordered_prod ordered_then) (auto intro: ordered_return)
qed

lemma prepareConfig_yields: "yields (prepareConfig api config targetActive) (\<lambda>(config', _). sameSpec config config')"
  unfolding prepareConfig_def Let_def
  by (intro yields_bind [OF updateStatusPhase_yields])
     (auto intro!: yields_bind [OF yields_True] yields_return split: prod.splits)

lemma showConfig_ordered:
  "ordered ((if targetActive then [resumeChange] else []) @
      sleepPageOrder api [TargetNamespace (cSpec config)] (cSleepPage (cSpec config)) targetActive True)
    (showConfig api config targetActive ready)"
proof -
  have ex: "reads (State_Monad.return x)" for x :: "string list" by (intro readsI only_return)
  have "ordered (if targetActive then [resumeChange] else [])
     (if targetActive \<and> ready then resumeGitOps api (\<lambda>_. State_Monad.return (configExclusions api config)) [TargetNamespace (cSpec config)]
           else State_Monad.return ())"
    by (cases targetActive; cases ready) (auto intro: ordered_return ordered_only resumeGitOps_only ex simp del: resumeGitOps.simps)
  with reconcileSleepPage_settling show ?thesis
    unfolding showConfig_def Let_def by (intro ordered_bind ordered_then ordered_return)
qed

lemma showConfig_yields: "yields (showConfig api config targetActive ready) (sameSpec config)"
  unfolding showConfig_def Let_def
  by (intro yields_bind [OF yields_True] yields_return) simp

lemma reportConfig_reads: "reads (reportConfig api config d problems previousPhase ready)"
proof -
  have "only P (KeptDown api ns m)" for P ns m
    unfolding KeptDown_def by (intro only_if only_attempt only_return listScalableResources_reads)
  then show ?thesis
    unfolding reportConfig_def reads_def Let_def
    by (intro only_bind only_ask only_return only_sum recordSavings_reads)
qed

lemma updateConfigIfChanged_only: "only ownWrite (updateConfigIfChanged api before config)"
  unfolding updateConfigIfChanged_def by (intro only_if only_return only_act) (auto simp: ownWrite_def)

lemma requeueSettled_reads: "only P (requeueSettled api d)"
  unfolding requeueSettled_def by (intro only_bind only_ask only_return)

lemma finishConfig_ordered: "ordered [ownWrite, isAnnouncement] (finishConfig api config before d previousPhase ready)"
proof -
  have "ordered ([ownWrite] @ [isAnnouncement]) (finishConfig api config before d previousPhase ready)"
    unfolding finishConfig_def
    by (intro ordered_attempt ordered_only updateConfigIfChanged_only only_bind only_if only_return announce_only requeueSettled_reads)
       (auto simp: isAnnouncement_def)
  then show ?thesis by simp
qed

text \<open>The changes of a reconcile that scales, in order.\<close>

definition configOrder :: "'w api \<Rightarrow> ScalingConfig \<Rightarrow> bool \<Rightarrow> (change \<Rightarrow> bool) list" where
  "configOrder api config active =
     [\<lambda>c. cPauseGitOps (cSpec config) \<and> \<not> active \<and> pauseChange [TargetNamespace (cSpec config)] c]
     @ stepOrder api (TargetNamespace (cSpec config)) (configExclusions api config) active
     @ ((if active then [resumeChange] else [])
        @ sleepPageOrder api [TargetNamespace (cSpec config)] (cSleepPage (cSpec config)) active True)
     @ [ownWrite, isAnnouncement]"

lemma configOrder_cong: "sameSpec a b \<Longrightarrow> configOrder api b = configOrder api a"
  by (simp add: sameSpec_def configOrder_def configExclusions_def fun_eq_iff)

lemma actOnConfig_ordered:
  assumes "getsItself api"
  shows "ordered (configOrder api config (dActive d)) (actOnConfig api config before d problems)"
proof -
  let ?ns = "TargetNamespace (cSpec config)"
  let ?rest = "\<lambda>previousPhase newReplicas ready config'. do {
      config2 \<leftarrow> showConfig api config' (dActive d) ready;
      let config3 = configMapStatus (\<lambda>st. st\<lparr>cOriginalReplicas := (case newReplicas of Some m \<Rightarrow> m | None \<Rightarrow> [])\<rparr>) config2;
      config4 \<leftarrow> reportConfig api config3 d problems previousPhase ready;
      finishConfig api config4 before d previousPhase ready }"
  have rest: "ordered (((if dActive d then [resumeChange] else []) @ sleepPageOrder api [?ns] (cSleepPage (cSpec config)) (dActive d) True)
        @ [ownWrite, isAnnouncement]) (?rest previousPhase newReplicas ready config')"
    if same: "sameSpec config config'" for previousPhase newReplicas ready config'
    using showConfig_ordered [where config = config' and targetActive = "dActive d" and ready = ready and api = api] that
    unfolding Let_def sameSpec_def
    by (intro ordered_bind [OF _ ordered_reads [OF reportConfig_reads finishConfig_ordered]]) simp
  have steps: "ordered (stepOrder api ?ns (configExclusions api config) (dActive d))
      (ScaleWithServices api (groupVersionOf api) (TargetNamespace (cSpec config')) (dActive d)
            (cSequence (cSpec config')) (configExclusions api config') (cHibernate (cSpec config'))
            (cOriginalReplicas (cStatus config')) timeoutPassed)" if "sameSpec config config'" for config' timeoutPassed
    using that ScaleWithServices_ordered [OF assms] by (simp add: sameSpec_def configExclusions_def)
  show ?thesis
    unfolding actOnConfig_def Let_def configOrder_def
    by (rule ordered_bind_result [OF ordered_yields [OF prepareConfig_ordered prepareConfig_yields]], clarify,
        rule ordered_bind, erule steps, intro ordered_prod ordered_sum)
       (rule ordered_return, erule rest [unfolded Let_def])
qed

lemma scaleConfig_gives:
  assumes "getsItself api"
  shows "gives (scaleConfig api decideAt config before d problems)
    (\<lambda>_ cs. \<exists>active. (active = dActive d \<or> dMode d = ModeSchedule) \<and> inOrder (configOrder api config active) cs)"
proof -
  have w: "gives (watchConfig api decideAt config d)
      (\<lambda>(d', config') cs. cs = [] \<and> sameSpec config config' \<and> (d' = d \<or> dMode d = ModeSchedule))"
    by (rule gives_mono [OF reads_yields [OF watchConfig_reads watchConfig_yields]]) auto
  have act: "gives (actOnConfig api config' before d' problems) (\<lambda>_ cs. inOrder (configOrder api config (dActive d')) cs)"
    if "sameSpec config config'" for d' config'
    using actOnConfig_ordered [OF assms, of config' d'] configOrder_cong [OF that] unfolding ordered_def by metis
  show ?thesis
    unfolding scaleConfig_def
  proof (rule gives_bind, rule gives_mono [OF w], clarify)
    fix d' config'
    assume s: "sameSpec config config'" and d: "d' = d \<or> dMode d = ModeSchedule"
    from d have "dActive d' = dActive d \<or> dMode d = ModeSchedule" by blast
    then show "gives (actOnConfig api config' before d' problems)
        (\<lambda>_ ds. \<exists>active. (active = dActive d \<or> dMode d = ModeSchedule) \<and> inOrder (configOrder api config active) ([] @ ds))"
      unfolding append_Nil by (intro gives_mono [OF act [OF s]] exI [of _ "dActive d'"] conjI)
  qed
qed

subsection \<open>A whole reconcile\<close>

text \<open>The state an override without an end forces.\<close>

definition forcedState :: "ScalingConfig \<Rightarrow> bool option" where
  "forcedState config =
     (case legacyOverride (cAnnotations config) of
        Some b \<Rightarrow> Some b
      | None \<Rightarrow> if cActiveUntil (cSpec config) = None then cActive (cSpec config) else None)"

lemma forced_decision:
  assumes "forcedState config = Some b"
  shows "dActive (configDecision api config tt t) = b" "dMode (configDecision api config tt t) \<noteq> ModeSchedule"
  using assms
  by (auto simp: forcedState_def configDecision_def decide_def EffectiveOverride_def manualMode_def split: option.splits if_splits)

lemma ApplyIdle_other: "dMode d \<noteq> ModeSchedule \<Longrightarrow> ApplyIdle d u now decideAt = d"
  by (simp add: ApplyIdle_def split: option.split)

lemma isManagedByGroup_reads: "reads (isManagedByGroup api ns)"
  unfolding isManagedByGroup_def reads_def by (intro only_attempt only_ask only_return)

lemma markAsOverridden_only: "only ownWrite (markAsOverridden api config before groupName)"
  unfolding markAsOverridden_def Let_def
  by (intro only_bind only_if only_ask only_return only_attempt updateConfigIfChanged_only)

lemma dryRunConfig_only: "only ownWrite (dryRunConfig api config before d problems)"
  unfolding dryRunConfig_def Let_def
  by (intro only_attempt wouldChange_reads updateConfigIfChanged_only requeueSettled_reads)

definition ownerAmong :: "'w api \<Rightarrow> string \<Rightarrow> bool" where
  "ownerAmong api ns \<longleftrightarrow>
     (\<forall>groups. Inr groups \<in> set_state (listGroups api None) \<longrightarrow> NamespaceOwners groups ns \<noteq> None)"

lemma managed_yields:
  "yields (isManagedByGroup api ns) (\<lambda>r. ownerAmong api ns \<longrightarrow> r \<noteq> Inr None)"
  unfolding isManagedByGroup_def attempt_def ownerAmong_def
  by (rule yields_bind [where Q = "\<lambda>r. \<forall>groups. r = Inr groups \<longrightarrow> Inr groups \<in> set_state (listGroups api None)"])
     (auto intro!: yields_ask yields_return split: sum.split)

definition reconcileChanges :: "'w api \<Rightarrow> ScalingConfig \<Rightarrow> change list \<Rightarrow> bool" where
  "reconcileChanges api config cs \<longleftrightarrow>
     (\<forall>c \<in> set cs. ownWrite c) \<or>
     \<not> cDryRun (cSpec config) \<and> \<not> ownerAmong api (TargetNamespace (cSpec config)) \<and>
     (\<exists>active. (forcedState config = None \<or> forcedState config = Some active) \<and> inOrder (configOrder api config active) cs)"

lemma reconcileConfig_gives:
  assumes "cDryRun (cSpec config) \<or> ownerAmong api (TargetNamespace (cSpec config)) \<or> getsItself api"
  shows "gives (reconcileConfig api config) (\<lambda>_. reconcileChanges api config)"
proof -
  have own: "gives m (\<lambda>_. reconcileChanges api config)" if "only ownWrite m" for m :: "('a, duration reply) io"
    using that unfolding only_def by (rule gives_mono) (simp add: reconcileChanges_def)
  have scale: "gives (scaleConfig api decideAt config before d problems) (\<lambda>_. reconcileChanges api config)"
    if "\<not> cDryRun (cSpec config)" "\<not> ownerAmong api (TargetNamespace (cSpec config))"
      "\<forall>b. forcedState config = Some b \<longrightarrow> dActive d = b \<and> dMode d \<noteq> ModeSchedule" for decideAt before d problems
  proof (rule gives_mono [OF scaleConfig_gives])
    show "getsItself api" using assms that(1,2) by blast
  next
    fix cs assume "\<exists>active. (active = dActive d \<or> dMode d = ModeSchedule) \<and> inOrder (configOrder api config active) cs"
    then obtain active where a: "active = dActive d \<or> dMode d = ModeSchedule" "inOrder (configOrder api config active) cs" by blast
    with that(3) have "forcedState config = None \<or> forcedState config = Some active" by (cases "forcedState config") auto
    with a(2) that(1,2) show "reconcileChanges api config cs" unfolding reconcileChanges_def by blast
  qed
  have decided: "\<forall>b. forcedState config = Some b \<longrightarrow>
      dActive (ApplyIdle (configDecision api config tt t) u t' f) = b \<and> dMode (ApplyIdle (configDecision api config tt t) u t' f) \<noteq> ModeSchedule" for tt t u t' f
    using forced_decision [of config _ api tt t] by (auto simp: ApplyIdle_other)
  have main: "gives (do { calendars \<leftarrow> calendarsOf api;
                let (tt, problems) = configTimetable api config calendars;
                let decideAt = configDecision api config tt;
                now \<leftarrow> ask (clockNow api);
                now' \<leftarrow> ask (clockNow api);
                let d = ApplyIdle (decideAt now) (IdleUntil (cScheduleStatus (cStatus config))) now' decideAt;
                if cDryRun (cSpec config) then dryRunConfig api config (cStatus config) d problems
                else scaleConfig api decideAt config (cStatus config) d problems }) (\<lambda>_. reconcileChanges api config)"
    if "\<not> ownerAmong api (TargetNamespace (cSpec config))"
    unfolding Let_def
    by (rule gives_bind, rule gives_mono [OF reads_yields [OF readsI [OF calendarsOf_reads] yields_True]])
       (auto split: prod.split intro!: gives_bind gives_ask own [OF dryRunConfig_only] scale that decided)
  show ?thesis
    unfolding reconcileConfig_def
  proof (rule gives_attempt, rule gives_mono [OF reads_yields [OF isManagedByGroup_reads managed_yields]])
    fix r :: "string option reply" and cs :: "change list"
    assume r: "cs = [] \<and> (ownerAmong api (TargetNamespace (cSpec config)) \<longrightarrow> r \<noteq> Inr None)"
    show "case r of Inl e \<Rightarrow> reconcileChanges api config cs
        | Inr managed \<Rightarrow> gives (case managed of
             Some groupName \<Rightarrow> markAsOverridden api config (cStatus config) groupName
           | None \<Rightarrow> do { calendars \<leftarrow> calendarsOf api;
                let (tt, problems) = configTimetable api config calendars;
                let decideAt = configDecision api config tt;
                now \<leftarrow> ask (clockNow api);
                now' \<leftarrow> ask (clockNow api);
                let d = ApplyIdle (decideAt now) (IdleUntil (cScheduleStatus (cStatus config))) now' decideAt;
                if cDryRun (cSpec config) then dryRunConfig api config (cStatus config) d problems
                else scaleConfig api decideAt config (cStatus config) d problems })
            (\<lambda>_ ds. reconcileChanges api config (cs @ ds))"
      using r main own [OF markAsOverridden_only]
      by (auto split: sum.split option.split) (auto simp: reconcileChanges_def)
  qed
qed

lemma handleDeletion_live:
  assumes "cDeleted config = None"
  shows "gives (handleDeletion api config) (\<lambda>(config', _) cs. (\<forall>c \<in> set cs. ownWrite c) \<and> (\<exists>fs. config' = config\<lparr>cFinalizers := fs\<rparr>))"
proof -
  have "\<exists>fs. config = config\<lparr>cFinalizers := fs\<rparr>" by (rule exI [of _ "cFinalizers config"]) simp
  then show ?thesis
    unfolding handleDeletion_def assms option.case Let_def
    by (auto intro!: gives_return gives_bind gives_act simp: ownWrite_def)
qed

lemma reconcileChanges_finalizers: "reconcileChanges api (config\<lparr>cFinalizers := fs\<rparr>) cs = reconcileChanges api config cs"
proof -
  have "configOrder api (config\<lparr>cFinalizers := fs\<rparr>) = configOrder api config"
    by (rule configOrder_cong) (simp add: sameSpec_def)
  moreover have "forcedState (config\<lparr>cFinalizers := fs\<rparr>) = forcedState config"
    unfolding forcedState_def by (auto split: option.split)
  ultimately show ?thesis by (simp add: reconcileChanges_def)
qed

text \<open>A reconcile of a config that is not being deleted.\<close>

lemma Reconcile_gives:
  assumes "\<And>config. Inr config \<in> set_state (getConfig api ns name) \<Longrightarrow> cDeleted config = None
      \<and> (cDryRun (cSpec config) \<or> ownerAmong api (TargetNamespace (cSpec config)) \<or> getsItself api)"
  shows "gives (Reconcile api ns name)
    (\<lambda>_ cs. \<exists>own ds. cs = own @ ds \<and> (\<forall>c \<in> set own. ownWrite c) \<and>
       (ds = [] \<or> (\<exists>config. Inr config \<in> set_state (getConfig api ns name) \<and> reconcileChanges api config ds)))"
  unfolding Reconcile_def
proof (rule gives_bind, rule gives_ask)
  fix r assume r: "r \<in> set_state (getConfig api ns name)"
  let ?R = "\<lambda>cs. \<exists>own ds. cs = own @ ds \<and> (\<forall>c \<in> set own. ownWrite c) \<and>
       (ds = [] \<or> (\<exists>config. Inr config \<in> set_state (getConfig api ns name) \<and> reconcileChanges api config ds))"
  show "gives (case r of Inl e \<Rightarrow> State_Monad.return (if IsNotFound e then Inr 0 else Inl e)
      | Inr config \<Rightarrow> do { (config, handled) \<leftarrow> handleDeletion api config;
            case handled of Some result \<Rightarrow> State_Monad.return result | None \<Rightarrow> reconcileConfig api config })
      (\<lambda>_ cs. ?R ([] @ cs))"
  proof (cases r)
    case (Inl e)
    then show ?thesis by (simp add: gives_return)
  next
    case (Inr config)
    note config = r [unfolded Inr]
    from assms [OF config] have live: "cDeleted config = None"
      and ok: "cDryRun (cSpec config) \<or> ownerAmong api (TargetNamespace (cSpec config)) \<or> getsItself api" by blast+
    show ?thesis
      unfolding Inr sum.case append_Nil
    proof (rule gives_bind, rule gives_mono [OF handleDeletion_live [OF live]], clarify)
      fix config' handled own fs
      assume own: "\<forall>c \<in> set own. ownWrite c"
      have "cDryRun (cSpec (config\<lparr>cFinalizers := fs\<rparr>)) \<or> ownerAmong api (TargetNamespace (cSpec (config\<lparr>cFinalizers := fs\<rparr>))) \<or> getsItself api"
        using ok by simp
      note rest = reconcileConfig_gives [OF this]
      show "gives (case handled of Some result \<Rightarrow> State_Monad.return result
          | None \<Rightarrow> reconcileConfig api (config\<lparr>cFinalizers := fs\<rparr>)) (\<lambda>_ ds. ?R (own @ ds))"
      proof (cases handled)
        case None
        show ?thesis
          unfolding None option.case
          by (rule gives_mono [OF rest]) (use own config in \<open>unfold reconcileChanges_finalizers, blast\<close>)
      next
        case (Some result)
        show ?thesis
          unfolding Some option.case
          by (rule gives_return) (use own in auto)
      qed
    qed
  qed
qed

subsection \<open>The end of a config\<close>

interpretation config: release_finalizer api
    "\<lambda>config. do { r \<leftarrow> releaseEverything api config; State_Monad.return (config, r) }"
    "dropFinalizer api" "\<lambda>config. UpdateConfig (withoutFinalizer config)"
    "\<lambda>config. ReleaseFinalizer \<in> set (cFinalizers config)" "finalize api"
proof
  show "trace w' = trace w @ [UpdateConfig (withoutFinalizer config)]"
    if "run_state (dropFinalizer api config) w = (r, w')" for config r w w'
    using that by (auto simp: dropFinalizer_def act_def forgetAnnounced_def split: prod.splits sum.splits)
qed (simp add: finalize_def)

subsection \<open>A config for concrete checks\<close>

definition sampleConfig :: "bool \<Rightarrow> ScalingConfig" where
  "sampleConfig dryRun =
     \<lparr>cName = ''shop'', cNamespace = ''costdeck'', cUID = ''c1'', cGeneration = 1, cAnnotations = Map.empty,
      cDeleted = None, cFinalizers = [ReleaseFinalizer],
      cSpec = \<lparr>TargetNamespace = ''shop'', cActive = Some False, cActiveUntil = None, cSchedules = [],
        cExceptions = [], cCalendars = [], cSequence = [], cFeatureFlags = None, cExclusions = [], cHibernate = [],
        cDryRun = dryRun, cPauseGitOps = True, cSleepPage = False, cIdleAfter = None, cPrewarm = None\<rparr>,
      cStatus = \<lparr>cPhase = PhaseUnset, cLastAction = zeroTime, cOriginalReplicas = [],
        cScheduleStatus = emptyScheduleStatus, cConditions = []\<rparr>\<rparr>"

definition configApi :: "bool \<Rightarrow> unit api" where
  "configApi dryRun = shopApi\<lparr>getConfig := \<lambda>_ _. State_Monad.return (Inr (sampleConfig dryRun))\<rparr>"

lemma configApi_simps:
  "getsItself (configApi b)" "Inr config \<in> set_state (getConfig (configApi b) ns name) \<longleftrightarrow> config = sampleConfig b"
  by (auto simp: getsItself_def configApi_def shopApi_def quietApi_def set_state_iff)

subsection \<open>Properties\<close>

text \<open>C7. A reconcile keeps to an order, whatever the cluster answers: beside writes of the config
  itself it either changes nothing or goes one way. On the way down GitOps is paused first, then
  CronJobs and autoscalers are held, workloads go to zero and the services stop; on the way up
  the services start, then the workloads, their companions are released and GitOps resumes. The
  routes change after all that and the status is written and announced last. A config in a dry
  run does none of it, and the way is the one of an override without an end.\<close>

theorem Reconcile_order:
  assumes "getsItself api" "run_state (Reconcile api ns name) w = (r, w')"
    and "\<And>config. Inr config \<in> set_state (getConfig api ns name) \<Longrightarrow> cDeleted config = None"
  shows "\<exists>own ds. trace w' = trace w @ own @ ds \<and> (\<forall>c \<in> set own. ownWrite c)
    \<and> ((\<forall>c \<in> set ds. ownWrite c) \<or>
       (\<exists>config active. Inr config \<in> set_state (getConfig api ns name) \<and> \<not> cDryRun (cSpec config)
          \<and> (forcedState config = None \<or> forcedState config = Some active)
          \<and> inOrder (configOrder api config active) ds))"
proof -
  have "gives (Reconcile api ns name)
    (\<lambda>_ cs. \<exists>own ds. cs = own @ ds \<and> (\<forall>c \<in> set own. ownWrite c) \<and>
       (ds = [] \<or> (\<exists>config. Inr config \<in> set_state (getConfig api ns name) \<and> reconcileChanges api config ds)))"
    by (rule Reconcile_gives) (use assms(1,3) in blast)
  from givesD [OF this assms(2)] obtain own ds where "trace w' = trace w @ own @ ds" "\<forall>c \<in> set own. ownWrite c"
    "ds = [] \<or> (\<exists>config. Inr config \<in> set_state (getConfig api ns name) \<and> reconcileChanges api config ds)" by metis
  then show ?thesis unfolding reconcileChanges_def by (intro exI [of _ own] exI [of _ ds]) (auto; blast)
qed

lemma Reconcile_order_witness:
  "\<exists>r w' own ds. run_state (Reconcile (configApi False) ''costdeck'' ''shop'') freshWorld = (r, w') \<and> trace w' = own @ ds
     \<and> (\<forall>c \<in> set own. ownWrite c)
     \<and> ((\<forall>c \<in> set ds. ownWrite c) \<or> inOrder (configOrder (configApi False) (sampleConfig False) False) ds)"
proof -
  obtain r w' where run: "run_state (Reconcile (configApi False) ''costdeck'' ''shop'') freshWorld = (r, w')" by fastforce
  have "forcedState (sampleConfig False) = Some False"
    by (simp add: forcedState_def sampleConfig_def legacyOverride_def)
  moreover have "cDeleted (sampleConfig False) = None" by (simp add: sampleConfig_def)
  ultimately obtain own ds where "trace w' = own @ ds" "\<forall>c \<in> set own. ownWrite c"
    "(\<forall>c \<in> set ds. ownWrite c) \<or> inOrder (configOrder (configApi False) (sampleConfig False) False) ds"
    using Reconcile_order [OF configApi_simps(1) run] by (auto simp: configApi_simps(2) freshWorld_def)
  with run show ?thesis by blast
qed

text \<open>A config stands aside in a dry run and while a ScalingGroup owns its namespace: if every answer
  the cluster can give says so, a reconcile writes nothing but the config and its status.\<close>

theorem Reconcile_stands_aside:
  assumes "run_state (Reconcile api ns name) w = (r, w')"
    and "\<And>config. Inr config \<in> set_state (getConfig api ns name) \<Longrightarrow>
           cDeleted config = None \<and> (cDryRun (cSpec config) \<or> ownerAmong api (TargetNamespace (cSpec config)))"
  shows "\<exists>cs. trace w' = trace w @ cs \<and> (\<forall>c \<in> set cs. ownWrite c)"
proof -
  have "gives (Reconcile api ns name)
    (\<lambda>_ cs. \<exists>own ds. cs = own @ ds \<and> (\<forall>c \<in> set own. ownWrite c) \<and>
       (ds = [] \<or> (\<exists>config. Inr config \<in> set_state (getConfig api ns name) \<and> reconcileChanges api config ds)))"
    by (rule Reconcile_gives) (use assms(2) in blast)
  from givesD [OF this assms(1)] obtain own ds where "trace w' = trace w @ own @ ds" "\<forall>c \<in> set own. ownWrite c"
    "ds = [] \<or> (\<exists>config. Inr config \<in> set_state (getConfig api ns name) \<and> reconcileChanges api config ds)" by metis
  moreover from this(3) assms(2) have "\<forall>c \<in> set ds. ownWrite c" unfolding reconcileChanges_def by auto
  ultimately show ?thesis by (intro exI [of _ "own @ ds"]) auto
qed

lemma Reconcile_stands_aside_witness:
  "\<exists>r w' cs. run_state (Reconcile (configApi True) ''costdeck'' ''shop'') freshWorld = (r, w') \<and> trace w' = cs
     \<and> (\<forall>c \<in> set cs. ownWrite c)"
proof -
  obtain r w' where run: "run_state (Reconcile (configApi True) ''costdeck'' ''shop'') freshWorld = (r, w')" by fastforce
  have "cDeleted (sampleConfig True) = None" "cDryRun (cSpec (sampleConfig True))" by (simp_all add: sampleConfig_def)
  with Reconcile_stands_aside [OF run] run show ?thesis by (auto simp: configApi_simps(2) freshWorld_def)
qed



end
