(* ===== verification/GroupTargets.thy ===== *)
theory GroupTargets
  imports ConfigController "HOL-Library.Multiset"
begin

section \<open>The targets of a ScalingGroup (internal/controller/scalinggroup\_controller.go)\<close>

text \<open>
  The stages of a group, the namespaces and cloud targets they scale, and the replica counts the
  group keeps for all its namespaces under the key \<open>namespace/workload\<close>. A function that changes
  the status of the group returns the group. The lemmas show that the stages hold each managed
  namespace, that scaling one namespace leaves the counts of the others alone, and that a cloud
  target is on record from its stop until it runs.
\<close>

definition groupMapStatus :: "(ScalingGroupStatus \<Rightarrow> ScalingGroupStatus) \<Rightarrow> ScalingGroup \<Rightarrow> ScalingGroup" where
  "groupMapStatus f g = g\<lparr>Status := f (Status g)\<rparr>"

lemma groupMapStatus_simps [simp]:
  "Spec (groupMapStatus f g) = Spec g" "Status (groupMapStatus f g) = f (Status g)"
  "gName (groupMapStatus f g) = gName g" "gNamespace (groupMapStatus f g) = gNamespace g"
  "gUID (groupMapStatus f g) = gUID g" "gGeneration (groupMapStatus f g) = gGeneration g"
  "gAnnotations (groupMapStatus f g) = gAnnotations g"
  by (simp_all add: groupMapStatus_def)

abbreviation extPrefix :: string where "extPrefix \<equiv> ''ext:''"

subsection \<open>Stages\<close>

definition stageOf :: "string list \<Rightarrow> string \<Rightarrow> string list" where
  "stageOf managed s = filter (\<lambda>t. hasPrefix t extPrefix \<or> t \<in> set managed) (GoBase.fields s)"

definition getScalingStages :: "ScalingGroup \<Rightarrow> bool \<Rightarrow> string list \<Rightarrow> string list list" where
  "getScalingStages g targetActive skip =
     (let managed = filter (\<lambda>ns. ns \<notin> set skip) (Members g);
          stages =
            (if gSequence (Spec g) \<noteq> [] then
               (let named = filter (\<lambda>st. st \<noteq> []) (map (stageOf managed) (gSequence (Spec g)));
                    missing = filter (\<lambda>ns. \<not> list_ex (\<lambda>st. ns \<in> set st) named) managed
                in named @ (if missing = [] then [] else [missing]))
             else [managed])
      in if targetActive then stages else rev stages)"

subsection \<open>Replica counts\<close>

definition originalsPrefix :: "string \<Rightarrow> string" where
  "originalsPrefix ns = ns @ ''/''"

definition namespaceOriginals :: "ScalingGroup \<Rightarrow> string \<Rightarrow> originals" where
  "namespaceOriginals g ns =
     List.map_filter (\<lambda>(k, v). map_option (\<lambda>r. (r, v)) (cutPrefix k (originalsPrefix ns))) (gOriginalReplicas (Status g))"

definition forgetOriginals :: "string \<Rightarrow> ScalingGroup \<Rightarrow> ScalingGroup" where
  "forgetOriginals ns =
     groupMapStatus (\<lambda>st. st\<lparr>gOriginalReplicas := dropKeys (\<lambda>k. hasPrefix k (originalsPrefix ns)) (gOriginalReplicas st)\<rparr>)"

definition mergeOriginals :: "string \<Rightarrow> originals \<Rightarrow> ScalingGroup \<Rightarrow> ScalingGroup" where
  "mergeOriginals ns updated g =
     groupMapStatus (\<lambda>st. st\<lparr>gOriginalReplicas :=
       foldl (\<lambda>m (k, v). AList.update (originalsPrefix ns @ k) v m) (gOriginalReplicas st) updated\<rparr>) (forgetOriginals ns g)"

subsection \<open>Rules of a namespace\<close>

definition workloadRules ::
    "'w api \<Rightarrow> ScalingGroup \<Rightarrow> string \<Rightarrow> ('w, string list \<times> string list \<times> HibernateRule list) io" where
  "workloadRules api g ns =
     do { r \<leftarrow> ask (listConfigs api (Some (gNamespace g)));
          let cfg = (case r of Inl _ \<Rightarrow> None | Inr configs \<Rightarrow> find (\<lambda>c. TargetNamespace (cSpec c) = ns) configs);
          let (exclusions, sequence, hibernate) =
            (case cfg of
               None \<Rightarrow> ([], [], gHibernate (Spec g))
             | Some c \<Rightarrow> (cExclusions (cSpec c), cSequence (cSpec c), gHibernate (Spec g) @ cHibernate (cSpec c)));
          State_Monad.return (ExclusionsWith (groupVersionOf api) exclusions hibernate, sequence, hibernate) }"

definition exclusionsIn :: "'w api \<Rightarrow> ScalingGroup \<Rightarrow> string \<Rightarrow> ('w, string list) io" where
  "exclusionsIn api g ns = do { (exclusions, _, _) \<leftarrow> workloadRules api g ns; State_Monad.return exclusions }"

subsection \<open>Cloud targets\<close>

definition sameExternalTarget :: "ExternalTarget \<Rightarrow> ExternalTarget \<Rightarrow> bool" where
  "sameExternalTarget target other \<longleftrightarrow>
     etProvider other = etProvider target \<and> etType other = etType target
     \<and> etIdentifier other = etIdentifier target \<and> etRegion other = etRegion target"

text \<open>The first recorded entry of a target replaced (or the target appended), or deleted.\<close>

fun putTarget :: "ExternalTarget \<Rightarrow> ExternalTarget list \<Rightarrow> ExternalTarget list" where
  "putTarget target [] = [target]"
| "putTarget target (t # ts) = (if sameExternalTarget target t then target # ts else t # putTarget target ts)"

fun deleteTarget :: "ExternalTarget \<Rightarrow> ExternalTarget list \<Rightarrow> ExternalTarget list" where
  "deleteTarget target [] = []"
| "deleteTarget target (t # ts) = (if sameExternalTarget target t then ts else t # deleteTarget target ts)"

definition recordTarget :: "ExternalTarget \<Rightarrow> bool \<Rightarrow> bool \<Rightarrow> ExternalTarget list \<Rightarrow> ExternalTarget list" where
  "recordTarget target active ready stopped =
     (if active then (if ready then deleteTarget target stopped else stopped) else putTarget target stopped)"

text \<open>An answer about readiness with an error counts as not ready.\<close>

definition scaleExternalTarget ::
    "'w api \<Rightarrow> ScalingGroup \<Rightarrow> ExternalTarget \<Rightarrow> bool \<Rightarrow> ('w, ScalingGroup \<times> bool reply) io" where
  "scaleExternalTarget api g target active =
     do { p \<leftarrow> ask (findProvider api (etProvider target));
          case p of
            Inl e \<Rightarrow> State_Monad.return (g, Inl e)
          | Inr _ \<Rightarrow>
              do { s \<leftarrow> act (ScaleExternal target active) (providerScale api target active);
                   case s of
                     Inl e \<Rightarrow> State_Monad.return (g, Inl e)
                   | Inr _ \<Rightarrow>
                       do { r \<leftarrow> ask (providerReady api target active);
                            State_Monad.return
                              (groupMapStatus (\<lambda>st. st\<lparr>StoppedExternalTargets :=
                                 recordTarget target active (r = Inr True) (StoppedExternalTargets st)\<rparr>) g, r) } } }"

definition reconcileExternalTarget ::
    "'w api \<Rightarrow> ScalingGroup \<Rightarrow> string \<Rightarrow> bool \<Rightarrow> ('w, ScalingGroup \<times> bool reply) io" where
  "reconcileExternalTarget api g name targetActive =
     (let extId = trimPrefix name extPrefix
      in case find (\<lambda>t. etIdentifier t = extId) (ExternalTargets (Spec g)) of
           None \<Rightarrow> State_Monad.return (g, Inl (Msg (''external target '' @ extId @ '' not found in spec'')))
         | Some target \<Rightarrow> scaleExternalTarget api g target targetActive)"

definition sequencedExternalTargets :: "ScalingGroup \<Rightarrow> ExternalTarget list" where
  "sequencedExternalTargets g =
     filter (\<lambda>t. list_ex (\<lambda>s. extPrefix @ etIdentifier t \<in> set (GoBase.fields s)) (gSequence (Spec g))) (ExternalTargets (Spec g))"

fun startTargets :: "'w api \<Rightarrow> ExternalTarget list \<Rightarrow> ScalingGroup \<Rightarrow> ('w, ScalingGroup) io" where
  "startTargets api [] g = State_Monad.return g"
| "startTargets api (t # ts) g =
     do { (g, _) \<leftarrow> scaleExternalTarget api g t True; startTargets api ts g }"

definition releaseExternalTargets :: "'w api \<Rightarrow> ScalingGroup \<Rightarrow> ('w, ScalingGroup) io" where
  "releaseExternalTargets api g =
     startTargets api
       (filter (\<lambda>t. \<not> list_ex (sameExternalTarget t) (sequencedExternalTargets g)) (StoppedExternalTargets (Status g))) g"

subsection \<open>One target\<close>

definition reconcileK8sTarget ::
    "'w api \<Rightarrow> ScalingGroup \<Rightarrow> string \<Rightarrow> bool \<Rightarrow> bool \<Rightarrow> ('w, ScalingGroup \<times> bool reply) io" where
  "reconcileK8sTarget api g ns targetActive timeoutPassed =
     do { (exclusions, sequence, hibernate) \<leftarrow> workloadRules api g ns;
          (updated, r) \<leftarrow> ScaleWithServices api (groupVersionOf api) ns targetActive sequence exclusions hibernate
            (namespaceOriginals g ns) timeoutPassed;
          case r of
            Inl e \<Rightarrow> State_Monad.return (g, Inl e)
          | Inr ready \<Rightarrow>
              (let g = mergeOriginals ns (case updated of Some m \<Rightarrow> m | None \<Rightarrow> []) g
               in if \<not> ready then State_Monad.return (g, Inr False)
                  else do { ph \<leftarrow> ComputePhase api ns targetActive exclusions;
                            State_Monad.return (g, Inr ((targetActive \<and> ph = PhaseScaledUp) \<or> (\<not> targetActive \<and> ph = PhaseScaledDown))) }) }"

definition reconcileTarget ::
    "'w api \<Rightarrow> ScalingGroup \<Rightarrow> string \<Rightarrow> bool \<Rightarrow> bool \<Rightarrow> ('w, ScalingGroup \<times> bool reply) io" where
  "reconcileTarget api g name targetActive timeoutPassed =
     (if hasPrefix name extPrefix then reconcileExternalTarget api g name targetActive
      else reconcileK8sTarget api g name targetActive timeoutPassed)"

subsection \<open>The stages in turn\<close>

text \<open>What the stages leave behind: the group, the stage being waited on and since when, whether
  every target is there, how many were tried, which are there, which not, and which of those a
  stage went on without.\<close>

record progress =
  pgGroup :: ScalingGroup
  pgStage :: int
  pgStarted :: time
  pgAllReady :: bool
  pgManaged :: nat
  pgReady :: "string list"
  pgBlocking :: "string list"
  pgSkipped :: "string list"

text \<open>The targets of one stage; the second result are those not there yet.\<close>

fun runTargets ::
    "'w api \<Rightarrow> bool \<Rightarrow> bool \<Rightarrow> string list \<Rightarrow> progress \<times> string list \<Rightarrow> ('w, progress \<times> string list) io" where
  "runTargets api targetActive timedOut [] (p, waiting) = State_Monad.return (p, waiting)"
| "runTargets api targetActive timedOut (name # names) (p, waiting) =
     do { (g, r) \<leftarrow> reconcileTarget api (pgGroup p) name targetActive timedOut;
          let p = p\<lparr>pgGroup := g, pgManaged := pgManaged p + 1\<rparr>;
          runTargets api targetActive timedOut names
            (if r = Inr True then (p\<lparr>pgReady := pgReady p @ [name]\<rparr>, waiting)
             else (p\<lparr>pgAllReady := False, pgBlocking := pgBlocking p @ [name]\<rparr>, waiting @ [name])) }"

definition stageTimedOut :: "'w api \<Rightarrow> ScalingGroupFeatureFlags option \<Rightarrow> bool \<Rightarrow> time \<Rightarrow> ('w, bool) io" where
  "stageTimedOut api flags passed started =
     (if passed then State_Monad.return True
      else if skipsOnTimeout flags then
        do { now \<leftarrow> ask (clockNow api);
             State_Monad.return (i64 (timeoutMinutes flags * minute) < timeSub now started) }
      else State_Monad.return False)"

fun runGroupStages ::
    "'w api \<Rightarrow> ScalingGroupFeatureFlags option \<Rightarrow> bool \<Rightarrow> int \<Rightarrow> string list list \<Rightarrow> progress \<Rightarrow> ('w, progress) io" where
  "runGroupStages api flags targetActive i [] p = State_Monad.return p"
| "runGroupStages api flags targetActive i (stage # stages) p =
     do { let passed = i < pgStage p;
          timedOut \<leftarrow> stageTimedOut api flags passed (pgStarted p);
          (p, waiting) \<leftarrow> runTargets api targetActive timedOut stage (p, []);
          if waiting \<noteq> [] \<and> \<not> timedOut then State_Monad.return p
          else do { let p = p\<lparr>pgSkipped := pgSkipped p @ waiting\<rparr>;
                    p \<leftarrow> (if passed then State_Monad.return p
                         else do { now \<leftarrow> ask (clockNow api);
                                   State_Monad.return (p\<lparr>pgStage := i + 1, pgStarted := now\<rparr>) });
                    runGroupStages api flags targetActive (i + 1) stages p } }"

definition startProgress :: "ScalingGroup \<Rightarrow> int \<Rightarrow> time \<Rightarrow> progress" where
  "startProgress g currentStage started =
     \<lparr>pgGroup = g, pgStage = currentStage, pgStarted = started, pgAllReady = True, pgManaged = 0,
      pgReady = [], pgBlocking = [], pgSkipped = []\<rparr>"

subsection \<open>What the stages hold\<close>

lemma stages_reversed: "getScalingStages g False skip = rev (getScalingStages g True skip)"
  by (simp add: getScalingStages_def Let_def)

lemma concat_last_stage: "set (concat (xs @ (if m = [] then [] else [m]))) = set (concat xs) \<union> set m"
  by (cases "m = []") auto

lemma stages_cover:
  "set (concat (getScalingStages g active skip)) =
     (set (Members g) - set skip) \<union> {t. hasPrefix t extPrefix \<and> (\<exists>s \<in> set (gSequence (Spec g)). t \<in> set (GoBase.fields s))}"
proof -
  define managed where "managed = filter (\<lambda>ns. ns \<notin> set skip) (Members g)"
  have m: "set managed = set (Members g) - set skip" by (auto simp: managed_def)
  have "set (concat (getScalingStages g active skip)) = set (concat (getScalingStages g True skip))"
    by (cases active) (simp_all add: stages_reversed)
  also have "\<dots> = set managed \<union> {t. hasPrefix t extPrefix \<and> (\<exists>s \<in> set (gSequence (Spec g)). t \<in> set (GoBase.fields s))}"
  proof (cases "gSequence (Spec g) = []")
    case True
    then show ?thesis by (simp add: getScalingStages_def managed_def)
  next
    case False
    define named where "named = filter (\<lambda>st. st \<noteq> []) (map (stageOf managed) (gSequence (Spec g)))"
    have n: "set (concat named) = {t. \<exists>s \<in> set (gSequence (Spec g)). t \<in> set (GoBase.fields s) \<and> (hasPrefix t extPrefix \<or> t \<in> set managed)}"
    proof -
      have "concat (filter (\<lambda>st. st \<noteq> []) xs) = concat xs" for xs :: "string list list"
        by (induction xs) auto
      then have "concat named = concat (map (stageOf managed) (gSequence (Spec g)))" unfolding named_def .
      then show ?thesis by (auto simp: stageOf_def)
    qed
    have "getScalingStages g True skip =
        named @ (let missing = filter (\<lambda>ns. \<not> list_ex (\<lambda>st. ns \<in> set st) named) managed in if missing = [] then [] else [missing])"
      using False by (simp add: getScalingStages_def named_def managed_def Let_def)
    then have "set (concat (getScalingStages g True skip)) =
        set (concat named) \<union> set (filter (\<lambda>ns. \<not> list_ex (\<lambda>st. ns \<in> set st) named) managed)"
      by (simp only: Let_def concat_last_stage)
    also have "\<dots> = set (concat named) \<union> {ns \<in> set managed. \<not> (\<exists>st \<in> set named. ns \<in> set st)}"
      by (simp add: list_ex_iff)
    also have "\<dots> = set (concat named) \<union> set managed" by auto
    finally show ?thesis unfolding n by auto
  qed
  finally show ?thesis unfolding m .
qed

subsection \<open>The counts of one namespace\<close>

lemma originalsPrefix_other:
  assumes "CHR ''/'' \<notin> set ns" "CHR ''/'' \<notin> set ns'" "originalsPrefix ns @ k = originalsPrefix ns' @ k'"
  shows "ns = ns'"
proof -
  have "takeWhile (\<lambda>c. c \<noteq> CHR ''/'') (originalsPrefix n @ r) = n" if "CHR ''/'' \<notin> set n" for n r
    using that by (induction n) (auto simp: originalsPrefix_def)
  with assms show ?thesis by metis
qed

lemma map_of_namespaceOriginals:
  "map_of (namespaceOriginals g ns) k = map_of (gOriginalReplicas (Status g)) (originalsPrefix ns @ k)"
proof -
  have "map_of (List.map_filter (\<lambda>(k, v). map_option (\<lambda>r. (r, v)) (cutPrefix k p)) m) k = map_of m (p @ k)" for p and m :: originals
    by (induction m) (auto simp: List.map_filter_simps cutPrefix_Some split: option.splits)
  then show ?thesis by (simp add: namespaceOriginals_def)
qed

lemma map_of_updates:
  "distinct (map fst updated) \<Longrightarrow> map_of (foldl (\<lambda>m (k, v). AList.update (p @ k) v m) m updated) k' =
     (case (if hasPrefix k' p then map_of updated (drop (length p) k') else None) of Some v \<Rightarrow> Some v | None \<Rightarrow> map_of m k')"
proof (induction updated arbitrary: m)
  case (Cons x updated)
  obtain k v where x: "x = (k, v)" by fastforce
  from Cons.prems have "map_of updated k = None" by (auto simp: x map_of_eq_None_iff)
  with Cons show ?case
    by (auto simp: x update_conv' hasPrefix_iff split: option.split)
qed simp

lemma mergeOriginals_counts:
  assumes "distinct (map fst updated)" "CHR ''/'' \<notin> set ns" "CHR ''/'' \<notin> set ns'"
  shows "map_of (namespaceOriginals (mergeOriginals ns updated g) ns') k =
    (if ns' = ns then map_of updated k else map_of (namespaceOriginals g ns') k)"
proof -
  have "hasPrefix (originalsPrefix ns' @ k) (originalsPrefix ns) \<longleftrightarrow> ns' = ns"
    using originalsPrefix_other [OF assms(2,3)] by (auto simp: hasPrefix_iff) metis
  then show ?thesis
    by (simp add: map_of_namespaceOriginals mergeOriginals_def forgetOriginals_def map_of_updates [OF assms(1)] split: option.split)
qed

subsection \<open>Cloud targets on record\<close>

definition onRecord :: "ExternalTarget \<Rightarrow> ExternalTarget list \<Rightarrow> bool" where
  "onRecord t ts \<longleftrightarrow> list_ex (sameExternalTarget t) ts"

text \<open>No target twice.\<close>

definition oneEach :: "ExternalTarget list \<Rightarrow> bool" where
  "oneEach ts \<longleftrightarrow> distinct (map (\<lambda>t. (etProvider t, etType t, etIdentifier t, etRegion t)) ts)"

lemma sameExternalTarget_key:
  "sameExternalTarget t u \<longleftrightarrow>
     (etProvider u, etType u, etIdentifier u, etRegion u) = (etProvider t, etType t, etIdentifier t, etRegion t)"
  by (simp add: sameExternalTarget_def)

lemma onRecord_key:
  "onRecord t ts \<longleftrightarrow> (etProvider t, etType t, etIdentifier t, etRegion t) \<in>
     set (map (\<lambda>t. (etProvider t, etType t, etIdentifier t, etRegion t)) ts)"
  by (induction ts) (auto simp: onRecord_def sameExternalTarget_def)

lemma putTarget_keys:
  "map (\<lambda>t. (etProvider t, etType t, etIdentifier t, etRegion t)) (putTarget t ts) =
     addNew (etProvider t, etType t, etIdentifier t, etRegion t) (map (\<lambda>t. (etProvider t, etType t, etIdentifier t, etRegion t)) ts)"
  by (induction ts) (auto simp: addNew_def sameExternalTarget_key)

lemma deleteTarget_keys:
  "map (\<lambda>t. (etProvider t, etType t, etIdentifier t, etRegion t)) (deleteTarget t ts) =
     remove1 (etProvider t, etType t, etIdentifier t, etRegion t) (map (\<lambda>t. (etProvider t, etType t, etIdentifier t, etRegion t)) ts)"
  by (induction ts) (auto simp: sameExternalTarget_key)

lemma recordTarget_oneEach: "oneEach ts \<Longrightarrow> oneEach (recordTarget t active ready ts)"
  by (simp add: oneEach_def recordTarget_def putTarget_keys deleteTarget_keys del: map_map)

lemma recordTarget_onRecord:
  assumes "oneEach ts"
  shows "onRecord u (recordTarget t active ready ts) \<longleftrightarrow>
    (if sameExternalTarget t u then \<not> active \<or> \<not> ready \<and> onRecord u ts else onRecord u ts)"
  using assms
  by (auto simp: onRecord_key oneEach_def recordTarget_def putTarget_keys deleteTarget_keys sameExternalTarget_key simp del: set_map)

subsection \<open>The stages in turn\<close>

lemma runTargets_result:
  assumes "run_state (runTargets api targetActive timedOut names (p, waiting)) w = ((p', waiting'), w')"
  shows "\<exists>R W. mset R + mset W = mset names \<and> pgReady p' = pgReady p @ R \<and> pgBlocking p' = pgBlocking p @ W
    \<and> waiting' = waiting @ W \<and> pgManaged p' = pgManaged p + length names
    \<and> (pgAllReady p' \<longleftrightarrow> pgAllReady p \<and> W = [])
    \<and> pgStage p' = pgStage p \<and> pgStarted p' = pgStarted p \<and> pgSkipped p' = pgSkipped p"
  using assms
proof (induction names arbitrary: p waiting w)
  case (Cons name names)
  obtain g r w1 where t: "run_state (reconcileTarget api (pgGroup p) name targetActive timedOut) w = ((g, r), w1)"
    by (metis prod.exhaust)
  define p1 where "p1 = p\<lparr>pgGroup := g, pgManaged := pgManaged p + 1\<rparr>"
  show ?case
  proof (cases "r = Inr True")
    case True
    with Cons.prems t have "run_state (runTargets api targetActive timedOut names (p1\<lparr>pgReady := pgReady p1 @ [name]\<rparr>, waiting)) w1
        = ((p', waiting'), w')" by (simp add: p1_def)
    from Cons.IH [OF this] obtain R W where "mset R + mset W = mset names" "pgReady p' = pgReady p @ name # R"
      "pgBlocking p' = pgBlocking p @ W" "waiting' = waiting @ W" "pgManaged p' = Suc (pgManaged p + length names)"
      "pgAllReady p' \<longleftrightarrow> pgAllReady p \<and> W = []"
      "pgStage p' = pgStage p" "pgStarted p' = pgStarted p" "pgSkipped p' = pgSkipped p" by (auto simp: p1_def)
    then show ?thesis by - (rule exI [of _ "name # R"], rule exI [of _ W], auto)
  next
    case False
    with Cons.prems t have "run_state (runTargets api targetActive timedOut names
          (p1\<lparr>pgAllReady := False, pgBlocking := pgBlocking p1 @ [name]\<rparr>, waiting @ [name])) w1 = ((p', waiting'), w')"
      by (simp add: p1_def)
    from Cons.IH [OF this] obtain R W where "mset R + mset W = mset names" "pgReady p' = pgReady p @ R"
      "pgBlocking p' = pgBlocking p @ name # W" "waiting' = waiting @ name # W" "pgManaged p' = Suc (pgManaged p + length names)"
      "\<not> pgAllReady p'"
      "pgStage p' = pgStage p" "pgStarted p' = pgStarted p" "pgSkipped p' = pgSkipped p" by (auto simp: p1_def)
    then show ?thesis by - (rule exI [of _ R], rule exI [of _ "name # W"], auto)
  qed
qed simp

text \<open>The time of a stage that started then is up at every reading of the clock.\<close>

definition stageLate :: "'w api \<Rightarrow> ScalingGroupFeatureFlags option \<Rightarrow> time \<Rightarrow> bool" where
  "stageLate api flags started \<longleftrightarrow>
     skipsOnTimeout flags \<and> (\<forall>now \<in> set_state (clockNow api). i64 (timeoutMinutes flags * minute) < timeSub now started)"

lemma stageTimedOut_result:
  assumes "run_state (stageTimedOut api flags passed started) w = (timedOut, w')"
  shows "timedOut \<Longrightarrow> passed \<or> skipsOnTimeout flags" "passed \<Longrightarrow> timedOut"
    "stageLate api flags started \<Longrightarrow> timedOut"
proof -
  show "timedOut \<Longrightarrow> passed \<or> skipsOnTimeout flags" "passed \<Longrightarrow> timedOut"
    using assms by (auto simp: stageTimedOut_def split: if_splits)
  assume late: "stageLate api flags started"
  obtain now x where now: "run_state (clockNow api) (ext w) = (now, x)" by fastforce
  then have "now \<in> set_state (clockNow api)" unfolding set_state_iff by (metis fst_conv)
  with assms late now show timedOut by (cases passed) (auto simp: stageTimedOut_def ask_def stageLate_def)
qed

text \<open>One stage: what it leaves, and whether the next follows.\<close>

lemma runGroupStages_step:
  assumes "run_state (runGroupStages api flags targetActive i (stage # stages) p) w = (p', w')"
  obtains timedOut R W p1 w1 where
    "mset R + mset W = mset stage" "pgReady p1 = pgReady p @ R" "pgBlocking p1 = pgBlocking p @ W"
    "pgManaged p1 = pgManaged p + length stage" "pgAllReady p1 \<longleftrightarrow> pgAllReady p \<and> W = []"
    "timedOut \<longrightarrow> i < pgStage p \<or> skipsOnTimeout flags" "i < pgStage p \<longrightarrow> timedOut"
    "stageLate api flags (pgStarted p) \<longrightarrow> timedOut"
    "W \<noteq> [] \<and> \<not> timedOut \<and> p' = p1 \<and> pgStage p1 = pgStage p \<and> pgSkipped p1 = pgSkipped p \<or>
     (W = [] \<or> timedOut) \<and> pgSkipped p1 = pgSkipped p @ W
       \<and> pgStage p1 = (if i < pgStage p then pgStage p else i + 1) \<and> (i < pgStage p \<longrightarrow> pgStarted p1 = pgStarted p)
       \<and> run_state (runGroupStages api flags targetActive (i + 1) stages p1) w1 = (p', w')"
proof -
  obtain timedOut w2 where t: "run_state (stageTimedOut api flags (i < pgStage p) (pgStarted p)) w = (timedOut, w2)" by fastforce
  obtain p2 W w3 where r: "run_state (runTargets api targetActive timedOut stage (p, [])) w2 = ((p2, W), w3)"
    by (metis prod.exhaust)
  from runTargets_result [OF r] obtain R where R: "mset R + mset W = mset stage" "pgReady p2 = pgReady p @ R"
    "pgBlocking p2 = pgBlocking p @ W" "pgManaged p2 = pgManaged p + length stage" "pgAllReady p2 \<longleftrightarrow> pgAllReady p \<and> W = []"
    "pgStage p2 = pgStage p" "pgStarted p2 = pgStarted p" "pgSkipped p2 = pgSkipped p" by auto
  note T = stageTimedOut_result [OF t]
  define p3 where "p3 = p2\<lparr>pgSkipped := pgSkipped p2 @ W\<rparr>"
  show ?thesis
  proof (cases "W \<noteq> [] \<and> \<not> timedOut")
    case True
    with assms t r have "p' = p2" by (simp add: Let_def)
    with True R show ?thesis by (intro that [of R W p2 timedOut w3]) (use T in auto)
  next
    case go: False
    show ?thesis
    proof (cases "i < pgStage p")
      case True
      with assms t r go have "run_state (runGroupStages api flags targetActive (i + 1) stages p3) w3 = (p', w')"
        by (auto simp: Let_def p3_def)
      with True go R show ?thesis by (intro that [of R W p3 timedOut w3]) (use T in \<open>auto simp: p3_def\<close>)
    next
      case False
      obtain now x where now: "run_state (clockNow api) (ext w3) = (now, x)" by fastforce
      with False assms t r go have "run_state (runGroupStages api flags targetActive (i + 1) stages (p3\<lparr>pgStage := i + 1, pgStarted := now\<rparr>)) (w3\<lparr>ext := x\<rparr>) = (p', w')"
        by (auto simp: Let_def p3_def ask_def)
      with False go R show ?thesis
        by (intro that [of R W "p3\<lparr>pgStage := i + 1, pgStarted := now\<rparr>" timedOut "w3\<lparr>ext := x\<rparr>"])
          (use T in \<open>auto simp: p3_def\<close>)
    qed
  qed
qed

text \<open>What a pass over the stages leaves: \<open>n\<close> of them were tried.\<close>

lemma runGroupStages_result:
  assumes "run_state (runGroupStages api flags targetActive i stages p) w = (p', w')"
  shows "\<exists>n R B S. n \<le> length stages \<and> mset R + mset B = mset (concat (take n stages))
    \<and> pgReady p' = pgReady p @ R \<and> pgBlocking p' = pgBlocking p @ B \<and> pgSkipped p' = pgSkipped p @ S
    \<and> pgManaged p' = pgManaged p + length (concat (take n stages))
    \<and> (pgAllReady p' \<longleftrightarrow> pgAllReady p \<and> B = []) \<and> (n < length stages \<longrightarrow> B \<noteq> [])
    \<and> set (concat (take (n - 1) stages)) \<subseteq> set R \<union> set S \<and> set S \<subseteq> set B
    \<and> (S \<noteq> [] \<longrightarrow> i < pgStage p \<or> skipsOnTimeout flags)"
  using assms
proof (induction stages arbitrary: i p w)
  case Nil
  then show ?case by auto
next
  case (Cons stage stages)
  from Cons.prems obtain timedOut R W p1 w1 where st: "mset R + mset W = mset stage"
    "pgReady p1 = pgReady p @ R" "pgBlocking p1 = pgBlocking p @ W"
    "pgManaged p1 = pgManaged p + length stage" "pgAllReady p1 \<longleftrightarrow> pgAllReady p \<and> W = []"
    and out: "timedOut \<longrightarrow> i < pgStage p \<or> skipsOnTimeout flags"
    and go: "W \<noteq> [] \<and> \<not> timedOut \<and> p' = p1 \<and> pgStage p1 = pgStage p \<and> pgSkipped p1 = pgSkipped p \<or>
     (W = [] \<or> timedOut) \<and> pgSkipped p1 = pgSkipped p @ W
       \<and> pgStage p1 = (if i < pgStage p then pgStage p else i + 1) \<and> (i < pgStage p \<longrightarrow> pgStarted p1 = pgStarted p)
       \<and> run_state (runGroupStages api flags targetActive (i + 1) stages p1) w1 = (p', w')"
    by (rule runGroupStages_step) (rule that; assumption)
  have stage: "set R \<union> set W = set stage" using st(1) by (metis set_mset_mset set_mset_union)
  consider (stop) "W \<noteq> []" "p' = p1" "pgSkipped p1 = pgSkipped p"
    | (on) "W = [] \<or> timedOut" "pgSkipped p1 = pgSkipped p @ W" "pgStage p1 = (if i < pgStage p then pgStage p else i + 1)"
        "run_state (runGroupStages api flags targetActive (i + 1) stages p1) w1 = (p', w')" using go by blast
  then show ?case
  proof cases
    case stop
    with st show ?thesis by - (rule exI [of _ 1], rule exI [of _ R], rule exI [of _ W], rule exI [of _ "[]"], simp)
  next
    case on
    from Cons.IH [OF on(4)] obtain n R' B S where IH: "n \<le> length stages" "mset R' + mset B = mset (concat (take n stages))"
      "pgReady p' = pgReady p1 @ R'" "pgBlocking p' = pgBlocking p1 @ B" "pgSkipped p' = pgSkipped p1 @ S"
      "pgManaged p' = pgManaged p1 + length (concat (take n stages))"
      "pgAllReady p' \<longleftrightarrow> pgAllReady p1 \<and> B = []" "n < length stages \<longrightarrow> B \<noteq> []"
      "set (concat (take (n - 1) stages)) \<subseteq> set R' \<union> set S" "set S \<subseteq> set B"
      "S \<noteq> [] \<longrightarrow> i + 1 < pgStage p1 \<or> skipsOnTimeout flags" by blast
    have sk: "W @ S \<noteq> [] \<longrightarrow> i < pgStage p \<or> skipsOnTimeout flags"
      using on(1,3) out IH(11) by (auto split: if_splits)
    have cover: "set (concat (take (Suc n - 1) (stage # stages))) \<subseteq> set (R @ R') \<union> set (W @ S)"
      by (cases n) (use IH(9) stage in auto)
    show ?thesis
      by (rule exI [of _ "Suc n"], rule exI [of _ "R @ R'"], rule exI [of _ "W @ B"], rule exI [of _ "W @ S"])
        (use st on(2) IH(1-8,10) sk cover in \<open>auto simp: ac_simps\<close>)
  qed
qed

lemma runGroupStages_stage:
  assumes "run_state (runGroupStages api flags targetActive i stages p) w = (p', w')"
  shows "pgStage p \<le> pgStage p' \<and> pgStage p' \<le> max (pgStage p) (i + int (length stages))"
  using assms
proof (induction stages arbitrary: i p w)
  case (Cons stage stages)
  from Cons.prems obtain timedOut W p1 w1 where
    go: "W \<noteq> [] \<and> \<not> timedOut \<and> p' = p1 \<and> pgStage p1 = pgStage p \<and> pgSkipped p1 = pgSkipped p \<or>
     (W = [] \<or> timedOut) \<and> pgSkipped p1 = pgSkipped p @ W
       \<and> pgStage p1 = (if i < pgStage p then pgStage p else i + 1) \<and> (i < pgStage p \<longrightarrow> pgStarted p1 = pgStarted p)
       \<and> run_state (runGroupStages api flags targetActive (i + 1) stages p1) w1 = (p', w')"
    by (rule runGroupStages_step) (rule that; assumption)
  then show ?case using Cons.IH [of "i + 1" p1 w1] by (auto split: if_splits)
qed simp

text \<open>A stage whose time is up gives way.\<close>

lemma runGroupStages_moves_on:
  assumes "run_state (runGroupStages api flags targetActive i stages p) w = (p', w')"
    and "i \<le> pgStage p" "pgStage p < i + int (length stages)" "stageLate api flags (pgStarted p)"
  shows "pgStage p + 1 \<le> pgStage p'"
  using assms
proof (induction stages arbitrary: i p w)
  case (Cons stage stages)
  from Cons.prems(1) obtain timedOut W p1 w1 where
    out: "i < pgStage p \<longrightarrow> timedOut" "stageLate api flags (pgStarted p) \<longrightarrow> timedOut" and
    go: "W \<noteq> [] \<and> \<not> timedOut \<and> p' = p1 \<and> pgStage p1 = pgStage p \<and> pgSkipped p1 = pgSkipped p \<or>
     (W = [] \<or> timedOut) \<and> pgSkipped p1 = pgSkipped p @ W
       \<and> pgStage p1 = (if i < pgStage p then pgStage p else i + 1) \<and> (i < pgStage p \<longrightarrow> pgStarted p1 = pgStarted p)
       \<and> run_state (runGroupStages api flags targetActive (i + 1) stages p1) w1 = (p', w')"
    by (rule runGroupStages_step) (rule that; assumption)
  from go out(2) Cons.prems(4) have p1: "pgStage p1 = (if i < pgStage p then pgStage p else i + 1)"
    "i < pgStage p \<longrightarrow> pgStarted p1 = pgStarted p"
    and r: "run_state (runGroupStages api flags targetActive (i + 1) stages p1) w1 = (p', w')" by auto
  show ?case
  proof (cases "i < pgStage p")
    case True
    with p1 Cons.prems Cons.IH [OF r] show ?thesis by simp
  next
    case False
    with p1 Cons.prems(2) runGroupStages_stage [OF r] show ?thesis by simp
  qed
qed simp

subsection \<open>Properties\<close>

text \<open>A group whose first stage is the namespace shop, whose second is the database, with a minute
  for each stage.\<close>

definition hurried :: ScalingGroupFeatureFlags where
  "hurried = \<lparr>SkipOnTimeout = True, TimeoutMinutes = 1\<rparr>"

definition shopDatabase :: ExternalTarget where
  "shopDatabase = \<lparr>etProvider = ''aws'', etType = ''rds'', etIdentifier = ''db'', etRegion = ''eu-west-1'',
     etExecuteAfter = [], etStatus = [], etName = []\<rparr>"

definition stagedGroup :: ScalingGroup where
  "stagedGroup =
     \<lparr>gName = ''web'', gNamespace = ''costdeck'', gUID = ''g1'', gGeneration = 1, gAnnotations = Map.empty,
      gCreated = 0, gDeleted = None, gFinalizers = [ReleaseFinalizer],
      Spec = \<lparr>Category = [], gNamespaces = [''shop''], NamespaceSelector = None, gActive = Some False,
        gActiveUntil = None, gSchedules = [], gHibernate = [], gExceptions = [], gCalendars = [],
        gSequence = [''shop'', ''ext:db''], ExternalTargets = [shopDatabase], gFeatureFlags = Some hurried,
        DependsOn = [], Activation = [], gDryRun = False, gPauseGitOps = True, gSleepPage = False,
        gIdleAfter = None, gPrewarm = None\<rparr>,
      Status = \<lparr>gPhase = PhaseUnset, gLastAction = zeroTime, gOriginalReplicas = [], ManagedCount = 0,
        NamespacesReady = 0, NamespacesTotal = 0, ReadyNamespaces = [], CurrentStage = 0,
        SkippedNamespaces = [], gsRequiredBy = [], ManagedNamespaces = [], SelectedNamespaces = [],
        gsConflictingNamespaces = [], StoppedExternalTargets = [], gScheduleStatus = emptyScheduleStatus,
        gConditions = []\<rparr>\<rparr>"

text \<open>C15. The stages are taken in turn: a pass tries a first part of them, each of their targets once,
  and stops only at a stage that is not there. Each target of an earlier stage is there or was
  given up, which needs a stage passed in an earlier reconcile or the group's skipOnTimeout.\<close>

theorem runGroupStages_in_turn:
  assumes "run_state (runGroupStages api flags targetActive 0 stages (startProgress g cur started)) w = (p, w')"
  shows "\<exists>n. n \<le> length stages \<and> mset (pgReady p) + mset (pgBlocking p) = mset (concat (take n stages))
    \<and> pgManaged p = length (concat (take n stages))
    \<and> (pgAllReady p \<longleftrightarrow> pgBlocking p = []) \<and> (n < length stages \<longrightarrow> pgBlocking p \<noteq> [])
    \<and> set (concat (take (n - 1) stages)) \<subseteq> set (pgReady p) \<union> set (pgSkipped p)
    \<and> set (pgSkipped p) \<subseteq> set (pgBlocking p)
    \<and> (pgSkipped p \<noteq> [] \<longrightarrow> 0 < cur \<or> skipsOnTimeout flags)"
  using runGroupStages_result [OF assms] by (auto simp: startProgress_def)

lemma runGroupStages_in_turn_witness:
  "\<exists>p w' n. run_state (runGroupStages quietApi (Some hurried) False 0 (getScalingStages stagedGroup False []) (startProgress stagedGroup 0 0)) freshWorld = (p, w')
     \<and> mset (pgReady p) + mset (pgBlocking p) = mset (concat (take n (getScalingStages stagedGroup False [])))"
proof -
  obtain p w' where run: "run_state (runGroupStages quietApi (Some hurried) False 0 (getScalingStages stagedGroup False []) (startProgress stagedGroup 0 0)) freshWorld = (p, w')"
    by fastforce
  from runGroupStages_in_turn [OF run] run show ?thesis by blast
qed

text \<open>A group with skipOnTimeout is never held up for good by a stage: a pass that finds the time
  of the stage it waits on used up leaves that stage behind.\<close>

theorem runGroupStages_gives_way:
  assumes "run_state (runGroupStages api flags targetActive 0 stages (startProgress g cur started)) w = (p, w')"
    and "0 \<le> cur" "cur < int (length stages)" "skipsOnTimeout flags"
    and "\<And>now. now \<in> set_state (clockNow api) \<Longrightarrow> i64 (timeoutMinutes flags * minute) < timeSub now started"
  shows "cur < pgStage p \<and> pgStage p \<le> int (length stages)"
proof -
  have "stageLate api flags started" using assms(4,5) by (simp add: stageLate_def)
  with runGroupStages_moves_on [OF assms(1)] runGroupStages_stage [OF assms(1)] assms(2,3) show ?thesis
    by (simp add: startProgress_def)
qed

lemma runGroupStages_gives_way_witness:
  "\<exists>p w'. run_state (runGroupStages quietApi (Some hurried) False 0 [[''shop''], [''ext:db'']] (startProgress stagedGroup 0 (- hour))) freshWorld = (p, w')
     \<and> 0 < pgStage p"
proof -
  obtain p w' where run: "run_state (runGroupStages quietApi (Some hurried) False 0 [[''shop''], [''ext:db'']] (startProgress stagedGroup 0 (- hour))) freshWorld = (p, w')"
    by fastforce
  have "i64 (timeoutMinutes (Some hurried) * minute) < timeSub now (- hour)" if "now \<in> set_state (clockNow quietApi)" for now
    using that by (simp add: quietApi_def set_state_iff timeoutMinutes_def hurried_def timeSub_def i64_def)
  with runGroupStages_gives_way [OF run] run show ?thesis by (auto simp: skipsOnTimeout_def hurried_def)
qed

text \<open>A cloud target is on record from a stop until a start that runs: of what was asked of it,
  the last stop or successful start decides. No target is on record twice.\<close>

theorem recordTarget_until_it_runs:
  "(onRecord u (foldl (\<lambda>ts (t, active, ready). recordTarget t active ready ts) [] events) \<longleftrightarrow>
     (case find (\<lambda>(t, active, ready). sameExternalTarget t u \<and> (if active then ready else True)) (rev events) of
        Some (t, active, ready) \<Rightarrow> \<not> active
      | None \<Rightarrow> False))
   \<and> oneEach (foldl (\<lambda>ts (t, active, ready). recordTarget t active ready ts) [] events)"
proof -
  let ?all = "foldl (\<lambda>ts (t, active, ready). recordTarget t active ready ts) []"
  have one: "oneEach (?all events)" for events
    by (induction events rule: rev_induct) (auto simp: oneEach_def [of "[]"] recordTarget_oneEach)
  have "onRecord u (?all events) \<longleftrightarrow>
     (case find (\<lambda>(t, active, ready). sameExternalTarget t u \<and> (if active then ready else True)) (rev events) of
        Some (t, active, ready) \<Rightarrow> \<not> active | None \<Rightarrow> False)"
  proof (induction events rule: rev_induct)
    case Nil
    then show ?case by (simp add: onRecord_def)
  next
    case (snoc e events)
    then show ?case by (cases e) (auto simp: recordTarget_onRecord [OF one])
  qed
  with one show ?thesis by blast
qed

text \<open>The counts of a namespace in the group's status are those its last scaling returned, and
  every other namespace keeps its own.\<close>

theorem mergeOriginals_keeps_apart:
  assumes "distinct (map fst updated)" "CHR ''/'' \<notin> set ns" "CHR ''/'' \<notin> set ns'"
  shows "map_of (namespaceOriginals (mergeOriginals ns updated g) ns') =
    (if ns' = ns then map_of updated else map_of (namespaceOriginals g ns'))"
  by (rule ext) (simp add: mergeOriginals_counts [OF assms])

lemma mergeOriginals_keeps_apart_witness:
  "map_of (namespaceOriginals (mergeOriginals ''shop'' [(''Deployment/web'', 3)] stagedGroup) ''shop'') =
     map_of [(''Deployment/web'', 3)]"
  using mergeOriginals_keeps_apart [of "[(''Deployment/web'', 3)]" "''shop''" "''shop''"] by simp

end
