(* ===== verification/GroupController.thy ===== *)
theory GroupController
  imports GroupTargets GroupPlans Previews
begin

section \<open>The reconciler of ScalingGroups (internal/controller/scalinggroup\_controller.go)\<close>

text \<open>
  One reconcile of a ScalingGroup: its deletion, the namespaces its selector matches, those that
  left it, its plan among the other groups, the dry run, the wait for its dependencies, and the
  stages with all that goes with them, up to the status and the time of the next reconcile. A
  result is that time, zero for none. Logs, events and telemetry are left out. The lemmas show
  what a reconcile may change and in which order, that a group waits for its dependencies, that
  a namespace which could not be released is tried again, and that a deleted group leaves no
  cloud target behind.
\<close>

subsection \<open>The plan\<close>

text \<open>The group as read takes the place of its listed copy.\<close>

definition withFresh :: "ScalingGroup \<Rightarrow> ScalingGroup list \<Rightarrow> ScalingGroup list" where
  "withFresh g groups =
     (let replaced = map (\<lambda>x. if gName x = gName g then g else x) groups
      in if list_ex (\<lambda>x. gName x = gName g) groups then replaced else replaced @ [g])"

text \<open>The group is among those planned, so that its plan is always there (\<open>planFor_there\<close>).\<close>

definition planFor :: "'w api \<Rightarrow> ScalingGroup \<Rightarrow> ('w, GroupPlan reply) io" where
  "planFor api g =
     attempt (ask (listGroups api (Some (gNamespace g)))) (\<lambda>groups.
       do { now \<leftarrow> ask (clockNow api);
            calendars \<leftarrow> calendarsOf api;
            State_Monad.return
              (case Option.bind (PlanGroups (zones api) now (withFresh g groups) calendars) (\<lambda>plans. plans (gName g)) of
                 Some plan \<Rightarrow> Inr plan
               | None \<Rightarrow> Inl (Panic ''no plan'')) })"

subsection \<open>Namespaces that join and leave\<close>

definition selectNamespaces :: "'w api \<Rightarrow> ScalingGroup \<Rightarrow> ('w, (ScalingGroup \<times> string list) reply) io" where
  "selectNamespaces api g =
     (let previous = SelectedNamespaces (Status g);
          select = (\<lambda>selected.
            (groupMapStatus (\<lambda>st. st\<lparr>SelectedNamespaces := selected\<rparr>) g,
             filter (\<lambda>ns. ns \<notin> set selected \<and> ns \<notin> set (gNamespaces (Spec g))) previous))
      in case NamespaceSelector (Spec g) of
           None \<Rightarrow> State_Monad.return (Inr (if previous = [] then (g, []) else select []))
         | Some s \<Rightarrow>
             attempt (ask (listNamespaces api)) (\<lambda>namespaces. State_Monad.return (Inr (select
               (case SelectNamespaces (namespaceMatcher api) (Some s) namespaces (gNamespace g) of
                  Inl _ \<Rightarrow> [] | Inr selected \<Rightarrow> selected)))))"

definition wasManaged :: "ScalingGroup \<Rightarrow> string \<Rightarrow> bool" where
  "wasManaged g ns \<longleftrightarrow> ns \<in> set (ManagedNamespaces (Status g)) \<or> namespaceOriginals g ns \<noteq> []"

definition removedNamespaces :: "ScalingGroup \<Rightarrow> string list \<Rightarrow> string list" where
  "removedNamespaces g already =
     (let recorded = List.map_filter (\<lambda>(k, _). if CHR ''/'' \<in> set k then Some (takeWhile (\<lambda>c. c \<noteq> CHR ''/'') k) else None)
            (gOriginalReplicas (Status g))
      in sort (remdups (filter (\<lambda>ns. ns \<notin> set (Members g) \<and> ns \<notin> set already) (ManagedNamespaces (Status g) @ recorded))))"

definition managedNamespaces :: "ScalingGroup \<Rightarrow> GroupPlan \<Rightarrow> string list \<Rightarrow> string list" where
  "managedNamespaces g plan unreleased =
     sort (remdups (filter (\<lambda>ns. ns \<notin> set (ConflictingNamespaces plan)) (Members g @ unreleased)))"

definition handOver :: "'w api \<Rightarrow> ScalingGroup \<Rightarrow> string \<Rightarrow> string \<Rightarrow> ('w, unit reply) io" where
  "handOver api g ns owner =
     attempt (wrapped (''read group '' @ owner) (ask (getGroup api (gNamespace g) owner))) (\<lambda>successor.
       if gSleepPage (Spec successor) then State_Monad.return (Inr ())
       else do { (n, e) \<leftarrow> WakeRoutes api ns;
                 State_Monad.return (forbiddenOk (''wake the HTTPRoutes of '' @ ns)
                   (case e of Some e \<Rightarrow> Inl e | None \<Rightarrow> Inr n)) })"

definition rulesFor :: "'w api \<Rightarrow> ScalingGroup \<Rightarrow> string \<Rightarrow> ('w, namespaceRules) io" where
  "rulesFor api g ns =
     do { (exclusions, sequence, hibernate) \<leftarrow> workloadRules api g ns;
          let originals = namespaceOriginals g ns;
          State_Monad.return
            \<lparr>rExclusions = exclusions, rSequence = sequence, rHibernate = hibernate, rOriginals = originals,
             scaledByThem = (phaseReachedByScaling (gPhase (Status g)) \<or> originals \<noteq> []),
             rDryRun = (gPhase (Status g) = PhaseDryRun)\<rparr> }"

definition giveBack :: "'w api \<Rightarrow> ScalingGroup \<Rightarrow> string \<Rightarrow> ('w, unit reply) io" where
  "giveBack api g ns = do { rules \<leftarrow> rulesFor api g ns; releaseNamespace api ns rules }"

text \<open>What becomes of a namespace that left: another group's all along, released or handed over,
  or kept because that failed.\<close>

datatype departure = NeverOurs | LetGo | Kept

definition releaseOne :: "'w api \<Rightarrow> GroupPlan \<Rightarrow> ScalingGroup \<Rightarrow> string \<Rightarrow> ('w, departure) io" where
  "releaseOne api plan g ns =
     (let done = (\<lambda>r. State_Monad.return (case r of Inl _ \<Rightarrow> Kept | Inr () \<Rightarrow> LetGo))
      in case Owners plan ns of
           Some owner \<Rightarrow>
             if owner = gName g then giveBack api g ns \<bind> done
             else if \<not> wasManaged g ns then State_Monad.return NeverOurs
             else handOver api g ns owner \<bind> done
         | None \<Rightarrow> giveBack api g ns \<bind> done)"

fun releaseDeparted ::
    "'w api \<Rightarrow> GroupPlan \<Rightarrow> string list \<Rightarrow> ScalingGroup \<times> bool \<times> string list
       \<Rightarrow> ('w, ScalingGroup \<times> bool \<times> string list) io" where
  "releaseDeparted api plan [] res = State_Monad.return res"
| "releaseDeparted api plan (ns # nss) (g, released, unreleased) =
     do { d \<leftarrow> releaseOne api plan g ns;
          releaseDeparted api plan nss
            (case d of
               NeverOurs \<Rightarrow> (g, released, unreleased)
             | LetGo \<Rightarrow> (forgetOriginals ns g, True, unreleased)
             | Kept \<Rightarrow> (g, released, unreleased @ [ns])) }"

definition release :: "'w api \<Rightarrow> ScalingGroup \<Rightarrow> string list \<Rightarrow> GroupPlan \<Rightarrow> ('w, ScalingGroup \<times> string list) io" where
  "release api g departed plan =
     do { (g, released, unreleased) \<leftarrow> releaseDeparted api plan departed (g, False, []);
          (if released then do { _ \<leftarrow> syncSleepGrantAfterRelease api; State_Monad.return () }
           else State_Monad.return ());
          State_Monad.return (g, unreleased) }"

subsection \<open>Deletion\<close>

definition successors :: "'w api \<Rightarrow> ScalingGroup \<Rightarrow> ('w, (string \<rightharpoonup> string) reply) io" where
  "successors api g =
     attempt (ask (listGroups api (Some (gNamespace g)))) (\<lambda>groups.
       State_Monad.return (Inr (NamespaceOwners (filter (\<lambda>x. gName x \<noteq> gName g) groups))))"

definition noteError :: "goError list \<Rightarrow> 'a reply \<Rightarrow> goError list" where
  "noteError errs r = (case r of Inl e \<Rightarrow> errs @ [e] | Inr _ \<Rightarrow> errs)"

fun giveBackEach ::
    "'w api \<Rightarrow> ScalingGroup \<Rightarrow> GroupPlan \<Rightarrow> (string \<rightharpoonup> string) \<Rightarrow> string list \<Rightarrow> goError list \<Rightarrow> ('w, goError list) io" where
  "giveBackEach api g plan heirs [] errs = State_Monad.return errs"
| "giveBackEach api g plan heirs (ns # nss) errs =
     (if ns \<in> set (ConflictingNamespaces plan) then giveBackEach api g plan heirs nss errs
      else do { r \<leftarrow> (case heirs ns of
                         Some successor \<Rightarrow> handOver api g ns successor
                       | None \<Rightarrow> giveBack api g ns);
                giveBackEach api g plan heirs nss (noteError errs r) })"

fun startEach :: "'w api \<Rightarrow> ExternalTarget list \<Rightarrow> ScalingGroup \<times> goError list \<Rightarrow> ('w, ScalingGroup \<times> goError list) io" where
  "startEach api [] res = State_Monad.return res"
| "startEach api (t # ts) (g, errs) =
     do { (g, r) \<leftarrow> scaleExternalTarget api g t True;
          startEach api ts (g,
            case r of
              Inl e \<Rightarrow> errs @ [Wrap (''start '' @ etIdentifier t) e]
            | Inr ready \<Rightarrow> if ready then errs else errs @ [Msg (etIdentifier t @ '' has not started yet'')]) }"

definition releaseGroup :: "'w api \<Rightarrow> ScalingGroup \<Rightarrow> ('w, ScalingGroup \<times> unit reply) io" where
  "releaseGroup api g =
     do { p \<leftarrow> planFor api g;
          case p of
            Inl e \<Rightarrow> State_Monad.return (g, Inl e)
          | Inr plan \<Rightarrow>
              do { s \<leftarrow> successors api g;
                   case s of
                     Inl e \<Rightarrow> State_Monad.return (g, Inl e)
                   | Inr heirs \<Rightarrow>
                       do { errs \<leftarrow> giveBackEach api g plan heirs (Members g @ removedNamespaces g (Members g)) [];
                            (g, errs) \<leftarrow> startEach api (StoppedExternalTargets (Status g)) (g, errs);
                            r \<leftarrow> syncSleepGrantAfterRelease api;
                            let errs = noteError errs r;
                            State_Monad.return (g, if errs = [] then Inr () else Inl (Aggregate errs)) } } }"

definition groupWithoutFinalizer :: "ScalingGroup \<Rightarrow> ScalingGroup" where
  "groupWithoutFinalizer g = g\<lparr>gFinalizers := filter (\<lambda>f. f \<noteq> ReleaseFinalizer) (gFinalizers g)\<rparr>"

definition dropGroupFinalizer :: "'w api \<Rightarrow> ScalingGroup \<Rightarrow> ('w, duration reply) io" where
  "dropGroupFinalizer api g =
     do { r \<leftarrow> act (UpdateGroup (groupWithoutFinalizer g)) (updateGroup api (groupWithoutFinalizer g));
          case r of
            Inl e \<Rightarrow> State_Monad.return (if IsNotFound e then Inr 0 else Inl e)
          | Inr _ \<Rightarrow> do { forgetAnnounced (gUID g); State_Monad.return (Inr 0) } }"

definition finalizeGroup :: "'w api \<Rightarrow> ScalingGroup \<Rightarrow> time \<Rightarrow> ('w, duration reply) io" where
  "finalizeGroup api g deletedAt =
     (if ReleaseFinalizer \<notin> set (gFinalizers g) then State_Monad.return (Inr 0)
      else do { (g, r) \<leftarrow> releaseGroup api g;
                case r of
                  Inl e \<Rightarrow>
                    do { now \<leftarrow> ask (clockNow api);
                         if \<not> giveUpOnRelease deletedAt now then State_Monad.return (Inr releaseRetry)
                         else dropGroupFinalizer api g }
                | Inr _ \<Rightarrow> dropGroupFinalizer api g })"

definition handleGroupDeletion :: "'w api \<Rightarrow> ScalingGroup \<Rightarrow> ('w, ScalingGroup \<times> duration reply option) io" where
  "handleGroupDeletion api g =
     (case gDeleted g of
        Some deletedAt \<Rightarrow> do { r \<leftarrow> finalizeGroup api g deletedAt; State_Monad.return (g, Some r) }
      | None \<Rightarrow>
          if ReleaseFinalizer \<in> set (gFinalizers g) then State_Monad.return (g, None)
          else do { let g' = g\<lparr>gFinalizers := gFinalizers g @ [ReleaseFinalizer]\<rparr>;
                    r \<leftarrow> act (UpdateGroup g') (updateGroup api g');
                    State_Monad.return (g', case r of Inl e \<Rightarrow> Some (Inl e) | Inr _ \<Rightarrow> None) })"

subsection \<open>The status\<close>

text \<open>\<open>setDependencyConditions\<close>: how the group stands with its dependencies, and the namespaces
  it leaves to older groups.\<close>

definition dependencyCondition :: "ScalingGroup \<Rightarrow> GroupPlan \<Rightarrow> conditions \<Rightarrow> conditions" where
  "dependencyCondition g plan =
     (let report = (\<lambda>status reason message. setCondition ConditionDependenciesReady status reason message (gGeneration g))
      in if DependsOn (Spec g) = [] then removeCondition ConditionDependenciesReady
         else if InCycle plan then
           report False ''Cycle'' (''dependsOn forms a cycle and is ignored: '' @ join '', '' (DependsOn (Spec g)))
         else if MissingDependencies plan \<noteq> [] then
           report False ''NotFound'' (''No such ScalingGroup: '' @ join '', '' (MissingDependencies plan))
         else if WaitingFor plan \<noteq> [] then
           report False ''NotScaledUp'' (''Not ScaledUp yet: '' @ join '', '' (WaitingFor plan))
         else report True ''ScaledUp'' (''All dependencies are ScaledUp: '' @ join '', '' (DependsOn (Spec g))))"

definition conflictCondition :: "ScalingGroup \<Rightarrow> GroupPlan \<Rightarrow> conditions \<Rightarrow> conditions" where
  "conflictCondition g plan =
     (if ConflictingNamespaces plan = [] then removeCondition ConditionNamespaceConflict
      else setCondition ConditionNamespaceConflict True ''OwnedByOlderGroup''
        (''Skipping namespaces already managed by another ScalingGroup: '' @
         join '', '' (map (\<lambda>ns. ns @ '' (owned by '' @ (case pNamespaceOwners plan ns of Some owner \<Rightarrow> owner | None \<Rightarrow> []) @ '')'')
           (ConflictingNamespaces plan)))
        (gGeneration g))"

definition setDependencyConditions :: "ScalingGroup \<Rightarrow> GroupPlan \<Rightarrow> conditions \<Rightarrow> conditions" where
  "setDependencyConditions g plan conds = conflictCondition g plan (dependencyCondition g plan conds)"

definition onGroupReport ::
    "(ScheduleStatus \<times> conditions \<Rightarrow> ScheduleStatus \<times> conditions) \<Rightarrow> ScalingGroup \<Rightarrow> ScalingGroup" where
  "onGroupReport f =
     groupMapStatus (\<lambda>st. case f (gScheduleStatus st, gConditions st) of (s, c) \<Rightarrow> st\<lparr>gScheduleStatus := s, gConditions := c\<rparr>)"

definition waitingText :: "GroupPlan \<Rightarrow> string list" where
  "waitingText plan = WaitingFor plan @ MissingDependencies plan"

definition waitForDependencies ::
    "'w api \<Rightarrow> ScalingGroup \<Rightarrow> ScalingGroupStatus \<Rightarrow> GroupPlan \<Rightarrow> ('w, duration reply) io" where
  "waitForDependencies api g before plan =
     do { let msg = ''Waiting for ScalingGroup(s) to be ScaledUp: '' @ join '', '' (waitingText plan);
          g \<leftarrow> (if gPhase (Status g) \<noteq> PhaseWaitingForDependencies then
                  do { now \<leftarrow> ask (clockNow api);
                       now' \<leftarrow> ask (clockNow api);
                       State_Monad.return (groupMapStatus (\<lambda>st.
                         st\<lparr>gScheduleStatus := trackWakeUp (gScheduleStatus st) (gPhase st) PhaseWaitingForDependencies now,
                            gPhase := PhaseWaitingForDependencies, gLastAction := now'\<rparr>) g) }
                else State_Monad.return g);
          let g = onGroupReport (\<lambda>(s, c). (s, setReadyCondition PhaseWaitingForDependencies True (gGeneration g) msg c))
                    (onGroupReport (applyDecision (pDecision plan) (gGeneration g) ''group'') g);
          attempt (updateGroupIfChanged api before g) (\<lambda>_. State_Monad.return (Inr (10 * second))) }"

fun keptDownOf :: "'w api \<Rightarrow> ScalingGroup \<Rightarrow> string list \<Rightarrow> int \<times> int \<Rightarrow> ('w, int \<times> int) io" where
  "keptDownOf api g [] acc = State_Monad.return acc"
| "keptDownOf api g (ns # nss) acc =
     do { r \<leftarrow> KeptDown api ns (namespaceOriginals g ns);
          keptDownOf api g nss
            (case r of Inl _ \<Rightarrow> acc | Inr (cpu, mem) \<Rightarrow> (fst acc + cpu, snd acc + mem)) }"

definition recordGroupSavings :: "'w api \<Rightarrow> ScalingGroup \<Rightarrow> string list \<Rightarrow> ('w, ScalingGroup) io" where
  "recordGroupSavings api g skip =
     do { requests \<leftarrow> keptDownOf api g (filter (\<lambda>ns. ns \<notin> set skip) (Members g)) (0, 0);
          s \<leftarrow> recordSavings api requests (gScheduleStatus (Status g));
          State_Monad.return (groupMapStatus (\<lambda>st. st\<lparr>gScheduleStatus := s\<rparr>) g) }"

definition reachedPhase :: "bool \<Rightarrow> bool \<Rightarrow> phase" where
  "reachedPhase allReady targetActive =
     (if allReady then if targetActive then PhaseScaledUp else PhaseScaledDown
      else if targetActive then PhaseScalingUp else PhaseScalingDown)"

text \<open>\<open>updateStatusAndPhase\<close>, its arguments out of what the stages left.\<close>

definition enterPhase :: "'w api \<Rightarrow> phase \<Rightarrow> ScalingGroup \<Rightarrow> ('w, ScalingGroup) io" where
  "enterPhase api ph g =
     (if gPhase (Status g) \<noteq> ph then
        do { now \<leftarrow> ask (clockNow api);
             now' \<leftarrow> ask (clockNow api);
             State_Monad.return (groupMapStatus (\<lambda>st.
               st\<lparr>gScheduleStatus := trackWakeUp (gScheduleStatus st) (gPhase st) ph now, gPhase := ph, gLastAction := now'\<rparr>) g) }
      else if isZero (gLastAction (Status g)) then
        do { now \<leftarrow> ask (clockNow api); State_Monad.return (groupMapStatus (\<lambda>st. st\<lparr>gLastAction := now\<rparr>) g) }
      else State_Monad.return g)"

definition updateStatusAndPhase ::
    "'w api \<Rightarrow> ScalingGroup \<Rightarrow> ScalingGroupStatus \<Rightarrow> Decision \<Rightarrow> nat \<Rightarrow> progress \<Rightarrow> string \<Rightarrow> ('w, duration reply) io" where
  "updateStatusAndPhase api g before d targets p detail =
     do { let oldPhase = gPhase (Status g);
          let newPhase = reachedPhase (pgAllReady p) (dActive d);
          g \<leftarrow> enterPhase api newPhase (groupMapStatus (\<lambda>st.
                 st\<lparr>ManagedCount := int (pgManaged p), NamespacesReady := int (length (pgReady p)),
                    NamespacesTotal := int targets, ReadyNamespaces := pgReady p\<rparr>) g);
          let g = onGroupReport (\<lambda>(s, c). (s, setReadyCondition newPhase (dActive d) (gGeneration g) detail c)) g;
          attempt (updateGroupIfChanged api before g) (\<lambda>_.
            do { announce api (gUID g) ''Group'' (gName g) oldPhase newPhase;
                 if \<not> pgAllReady p then State_Monad.return (Inr (5 * second)) else requeueSettled api d }) }"

subsection \<open>A dry run\<close>

text \<open>The workloads, the namespaces and the cloud targets that would change.\<close>

fun wouldChangeIn ::
    "'w api \<Rightarrow> ScalingGroup \<Rightarrow> bool \<Rightarrow> string list \<Rightarrow> nat \<times> nat \<times> nat \<Rightarrow> ('w, nat \<times> nat \<times> nat) io" where
  "wouldChangeIn api g active [] found = State_Monad.return found"
| "wouldChangeIn api g active (ns # nss) (workloads, namespaces, cloud) =
     (if hasPrefix ns extPrefix then wouldChangeIn api g active nss (workloads, namespaces, cloud + 1)
      else do { (exclusions, _, hibernate) \<leftarrow> workloadRules api g ns;
                r \<leftarrow> wouldChange api ns active exclusions hibernate;
                wouldChangeIn api g active nss
                  (case r of
                     Inl _ \<Rightarrow> (workloads, namespaces, cloud)
                   | Inr n \<Rightarrow> if 0 < n then (workloads + n, namespaces + 1, cloud) else (workloads, namespaces, cloud)) })"

definition dryRunGroup ::
    "'w api \<Rightarrow> ScalingGroup \<Rightarrow> ScalingGroupStatus \<Rightarrow> GroupPlan \<Rightarrow> ('w, duration reply) io" where
  "dryRunGroup api g before plan =
     do { let d = pDecision plan;
          let g = onGroupReport (applyDecision d (gGeneration g) ''group'') g;
          (workloads, namespaces, cloud) \<leftarrow>
            wouldChangeIn api g (dActive d) (concat (getScalingStages g (dActive d) (ConflictingNamespaces plan))) (0, 0, 0);
          let waiting = (if BlockedOnDependencies plan then waitingText plan else []);
          let g = onGroupReport (\<lambda>(s, c). (s, setDryRunCondition
                    (dryRunMessage ''group'' (dActive d) workloads namespaces cloud waiting) (gGeneration g) c))
                    (groupMapStatus (\<lambda>st. st\<lparr>gPhase := PhaseDryRun, CurrentStage := 0, SkippedNamespaces := []\<rparr>) g);
          attempt (updateGroupIfChanged api before g) (\<lambda>_. requeueSettled api d) }"

subsection \<open>Idle sleep\<close>

definition groupIdleCheck :: "ScalingGroup \<Rightarrow> GroupPlan \<Rightarrow> idleCheck" where
  "groupIdleCheck g plan =
     \<lparr>icUID = gUID g, icGeneration = gGeneration g, icIdleAfter = gIdleAfter (Spec g),
      icNamespaces = filter (\<lambda>ns. ns \<notin> set (ConflictingNamespaces plan)) (Members g),
      icPhase = gPhase (Status g), icUpSince = gLastAction (Status g), icRequired = (RequiredBy plan \<noteq> [])\<rparr>"

definition groupDecisionAt :: "'w api \<Rightarrow> ScalingGroup \<Rightarrow> time \<Rightarrow> ('w, Decision) io" where
  "groupDecisionAt api g t =
     do { calendars \<leftarrow> calendarsOf api;
          let (tt, _) = groupTimetable (zones api) g calendars;
          State_Monad.return (Decide (zones api) t tt (gActive (Spec g)) (gActiveUntil (Spec g)) (gAnnotations g)) }"

definition watchGroup :: "'w api \<Rightarrow> ScalingGroup \<Rightarrow> GroupPlan \<Rightarrow> ('w, ScalingGroup \<times> GroupPlan) io" where
  "watchGroup api g plan =
     do { now \<leftarrow> ask (clockNow api);
          (d, s, c) \<leftarrow> watchIdle api (groupDecisionAt api g) (groupIdleCheck g plan) now
            (pDecision plan, gScheduleStatus (Status g), gConditions (Status g));
          State_Monad.return (onGroupReport (\<lambda>_. (s, c)) g, plan\<lparr>pDecision := d\<rparr>) }"

subsection \<open>Scaling\<close>

definition stageNamespaces :: "string list list \<Rightarrow> string list" where
  "stageNamespaces stages = filter (\<lambda>ns. \<not> hasPrefix ns extPrefix) (concat stages)"

definition gitOpsBeforeStages :: "'w api \<Rightarrow> ScalingGroup \<Rightarrow> string list list \<Rightarrow> bool \<Rightarrow> ('w, ScalingGroup) io" where
  "gitOpsBeforeStages api g stages targetActive =
     do { c \<leftarrow> reconcileGitOps api (exclusionsIn api g) (gGeneration g) (stageNamespaces stages)
                 (gPauseGitOps (Spec g)) targetActive (gConditions (Status g));
          State_Monad.return (groupMapStatus (\<lambda>st. st\<lparr>gConditions := c\<rparr>) g) }"

text \<open>Before the stages: GitOps, the nodes a scale-down frees, and where the transition stands.\<close>

definition prepareGroup :: "'w api \<Rightarrow> ScalingGroup \<Rightarrow> string list list \<Rightarrow> bool \<Rightarrow> ('w, progress) io" where
  "prepareGroup api g stages targetActive =
     do { g \<leftarrow> gitOpsBeforeStages api g stages targetActive;
          s \<leftarrow> recordScaleDown api (exclusionsIn api g) (stageNamespaces stages) targetActive
                 (gPhase (Status g) = PhaseScaledDown) (gScheduleStatus (Status g));
          let g = groupMapStatus (\<lambda>st. st\<lparr>gScheduleStatus := s\<rparr>) g;
          if gPhase (Status g) \<noteq> (if targetActive then PhaseScalingUp else PhaseScalingDown)
          then do { now \<leftarrow> ask (clockNow api); State_Monad.return (startProgress g 0 now) }
          else State_Monad.return (startProgress g (CurrentStage (Status g)) (gLastAction (Status g))) }"

text \<open>After them: GitOps, the routes and what the status keeps of the stages.\<close>

definition showGroup :: "'w api \<Rightarrow> string list \<Rightarrow> bool \<Rightarrow> progress \<Rightarrow> ('w, ScalingGroup) io" where
  "showGroup api namespaces targetActive p =
     do { let g = pgGroup p;
          (if targetActive \<and> pgAllReady p then resumeGitOps api (exclusionsIn api g) namespaces else State_Monad.return ());
          c \<leftarrow> reconcileSleepPage api (gGeneration g) namespaces (gSleepPage (Spec g)) targetActive (pgAllReady p)
                 (gConditions (Status g));
          State_Monad.return (groupMapStatus (\<lambda>st.
            let st = st\<lparr>gConditions := c, CurrentStage := 0, SkippedNamespaces := pgSkipped p\<rparr>
            in if pgAllReady p then st else st\<lparr>CurrentStage := pgStage p, gLastAction := pgStarted p\<rparr>) g) }"

definition reportGroup ::
    "'w api \<Rightarrow> ScalingGroup \<Rightarrow> ScalingGroupStatus \<Rightarrow> GroupPlan \<Rightarrow> nat \<Rightarrow> progress \<Rightarrow> ('w, duration reply) io" where
  "reportGroup api g before plan targets p =
     do { let g = onGroupReport (applyDecision (pDecision plan) (gGeneration g) ''group'') g;
          g \<leftarrow> recordGroupSavings api g (ConflictingNamespaces plan);
          updateStatusAndPhase api g before (pDecision plan) targets p
            (if pgBlocking p \<noteq> [] then ''Waiting for: '' @ join '', '' (pgBlocking p) else []) }"

definition scaleGroup :: "'w api \<Rightarrow> ScalingGroup \<Rightarrow> ScalingGroupStatus \<Rightarrow> GroupPlan \<Rightarrow> ('w, duration reply) io" where
  "scaleGroup api g before plan =
     do { let targetActive = dActive (pDecision plan);
          let stages = getScalingStages g targetActive (ConflictingNamespaces plan);
          p \<leftarrow> prepareGroup api g stages targetActive;
          p \<leftarrow> runGroupStages api (gFeatureFlags (Spec g)) targetActive 0 stages p;
          g \<leftarrow> showGroup api (stageNamespaces stages) targetActive p;
          reportGroup api g before plan (length (concat stages)) p }"

subsection \<open>Reconcile\<close>

definition actOnPlan :: "'w api \<Rightarrow> ScalingGroup \<Rightarrow> ScalingGroupStatus \<Rightarrow> GroupPlan \<Rightarrow> ('w, duration reply) io" where
  "actOnPlan api g before plan =
     (if BlockedOnDependencies plan \<and> gPhase (Status g) \<noteq> PhaseScaledUp then waitForDependencies api g before plan
      else scaleGroup api g before plan)"

definition followPlan :: "'w api \<Rightarrow> ScalingGroup \<Rightarrow> ScalingGroupStatus \<Rightarrow> GroupPlan \<Rightarrow> ('w, duration reply) io" where
  "followPlan api g before plan =
     do { let g = onGroupReport (\<lambda>(s, c). (s, setExceptionsCondition (ExceptionProblems plan) (gGeneration g)
                      (setDependencyConditions g plan c)))
                    (groupMapStatus (\<lambda>st. st\<lparr>gsRequiredBy := RequiredBy plan,
                       gsConflictingNamespaces := ConflictingNamespaces plan\<rparr>) g);
          if gDryRun (Spec g) then dryRunGroup api g before plan
          else do { (g, plan) \<leftarrow> watchGroup api (onGroupReport (\<lambda>(s, c). (s, setDryRunCondition [] (gGeneration g) c)) g) plan;
                    actOnPlan api g before plan } }"

definition reconcileGroup :: "'w api \<Rightarrow> ScalingGroup \<Rightarrow> ('w, duration reply) io" where
  "reconcileGroup api g =
     attempt (selectNamespaces api g) (\<lambda>(g', departed).
       let departed = departed @ removedNamespaces g' departed
       in attempt (planFor api g') (\<lambda>plan.
            do { (g', unreleased) \<leftarrow> release api g' departed plan;
                 let g' = groupMapStatus (\<lambda>st. st\<lparr>ManagedNamespaces := managedNamespaces g' plan unreleased\<rparr>) g';
                 g' \<leftarrow> releaseExternalTargets api g';
                 followPlan api g' (Status g) plan }))"

definition ReconcileGroup :: "'w api \<Rightarrow> string \<Rightarrow> string \<Rightarrow> ('w, duration reply) io" where
  "ReconcileGroup api ns name =
     do { r \<leftarrow> ask (getGroup api ns name);
          case r of
            Inl e \<Rightarrow> State_Monad.return (if IsNotFound e then Inr 0 else Inl e)
          | Inr g \<Rightarrow>
              do { (g, handled) \<leftarrow> handleGroupDeletion api g;
                   case handled of
                     Some result \<Rightarrow> State_Monad.return result
                   | None \<Rightarrow> reconcileGroup api g } }"

subsection \<open>Events that enqueue groups\<close>

definition groupKey :: "ScalingGroup \<Rightarrow> string \<times> string" where
  "groupKey g = (gNamespace g, gName g)"

definition groupsWhere :: "'w api \<Rightarrow> string \<Rightarrow> (ScalingGroup \<Rightarrow> bool) \<Rightarrow> ('w, (string \<times> string) list) io" where
  "groupsWhere api ns P =
     do { r \<leftarrow> ask (listGroups api (Some ns));
          State_Monad.return (case r of Inl _ \<Rightarrow> [] | Inr groups \<Rightarrow> map groupKey (filter P groups)) }"

definition groupsWithSelectors :: "'w api \<Rightarrow> ('w, (string \<times> string) list) io" where
  "groupsWithSelectors api =
     groupsWhere api (OperatorNamespace api) (\<lambda>g. NamespaceSelector (Spec g) \<noteq> None \<or> SelectedNamespaces (Status g) \<noteq> [])"

definition groupsWithCalendars :: "'w api \<Rightarrow> string \<Rightarrow> ('w, (string \<times> string) list) io" where
  "groupsWithCalendars api ns = groupsWhere api ns (\<lambda>g. gCalendars (Spec g) \<noteq> [])"

definition related :: "ScalingGroup \<Rightarrow> ScalingGroup \<Rightarrow> bool" where
  "related moved g \<longleftrightarrow>
     gName g \<noteq> gName moved
     \<and> (gName g \<in> set (DependsOn (Spec moved)) \<or> gName moved \<in> set (DependsOn (Spec g))
        \<or> list_ex (\<lambda>ns. ns \<in> set (Members moved)) (Members g))"

definition relatedGroups :: "'w api \<Rightarrow> ScalingGroup \<Rightarrow> ('w, (string \<times> string) list) io" where
  "relatedGroups api moved = groupsWhere api (gNamespace moved) (related moved)"

end
