(* ===== verification/GroupGuarantees.thy ===== *)
theory GroupGuarantees
  imports GroupController
begin

section \<open>What a reconcile of a ScalingGroup guarantees\<close>

text \<open>
  Which changes the steps of \<open>GroupController\<close> ask for and in which order, whatever the cluster
  answers; what becomes of a namespace that leaves a group; and what a group leaves behind when
  it is deleted. The steps never change the spec of the group they hand on.
\<close>

subsection \<open>Kinds of change\<close>

definition ownGroup :: "change \<Rightarrow> bool" where
  "ownGroup c \<longleftrightarrow> (\<exists>g. c = UpdateGroup g \<or> c = UpdateGroupStatus g)"

text \<open>What giving a namespace back asks for.\<close>

definition backChange :: "'w api \<Rightarrow> change \<Rightarrow> bool" where
  "backChange api c \<longleftrightarrow>
     startChange c \<or> (\<exists>ex. workloadChange True ex c) \<or> (\<exists>ex. releaseChange ex c)
     \<or> resumeChange c \<or> wakeChange c \<or> grants api [] c"

definition startsTarget :: "change \<Rightarrow> bool" where
  "startsTarget c \<longleftrightarrow> (\<exists>t. c = ScaleExternal t True)"

text \<open>What scaling a target one way asks for.\<close>

definition targetChange :: "bool \<Rightarrow> change \<Rightarrow> bool" where
  "targetChange active c \<longleftrightarrow>
     (\<exists>t. c = ScaleExternal t active) \<or> (\<exists>ex. workloadChange active ex c)
     \<or> (if active then startChange c \<or> (\<exists>ex. releaseChange ex c) else stopChange c \<or> (\<exists>ex. holdChange ex c))"

lemma ordered_weaken:
  assumes "ordered Ps m" "\<And>P c. P \<in> set Ps \<Longrightarrow> P c \<Longrightarrow> Q c"
  shows "only Q m"
proof -
  have "\<forall>c \<in> set cs. Q c" if "inOrder Ps cs" for cs
    using inOrder_set [OF that] assms(2) by blast
  with assms(1) show ?thesis unfolding only_def ordered_def by (auto intro: gives_mono)
qed

subsection \<open>Steps that only read\<close>

lemma workloadRules_reads: "only P (workloadRules api g ns)"
  unfolding workloadRules_def by (auto intro!: only_bind only_ask only_return split: prod.split)

lemma exclusionsIn_reads: "reads (exclusionsIn api g ns)"
  unfolding exclusionsIn_def reads_def by (intro only_bind only_prod only_return workloadRules_reads)

lemma rulesFor_reads: "only P (rulesFor api g ns)"
  unfolding rulesFor_def Let_def by (intro only_bind only_prod only_return workloadRules_reads)

lemma planFor_reads: "reads (planFor api g)"
  unfolding planFor_def reads_def by (intro only_attempt only_bind only_ask only_return calendarsOf_reads)

lemma selectNamespaces_reads: "reads (selectNamespaces api g)"
  unfolding selectNamespaces_def reads_def Let_def
  by (auto intro!: only_attempt only_ask only_return split: option.split)

lemma successors_reads: "reads (successors api g)"
  unfolding successors_def reads_def by (intro only_attempt only_ask only_return)

lemma groupDecisionAt_reads: "reads (groupDecisionAt api g t)"
  unfolding groupDecisionAt_def reads_def
  by (auto intro!: only_bind only_return calendarsOf_reads split: prod.split)

lemma watchGroup_reads: "reads (watchGroup api g plan)"
  unfolding watchGroup_def reads_def
  by (intro only_bind only_ask only_prod only_return reads_only [OF watchIdle_reads] groupDecisionAt_reads)

lemma KeptDown_reads: "only P (KeptDown api ns m)"
  unfolding KeptDown_def by (intro only_if only_attempt only_return listScalableResources_reads)

lemma keptDownOf_reads: "only P (keptDownOf api g nss acc)"
proof (induction nss arbitrary: acc)
  case (Cons ns nss)
  show ?case unfolding keptDownOf.simps by (intro only_bind KeptDown_reads Cons)
qed (simp add: only_return)

lemma recordGroupSavings_reads: "reads (recordGroupSavings api g skip)"
  unfolding recordGroupSavings_def reads_def by (intro only_bind only_return keptDownOf_reads recordSavings_reads)

lemma enterPhase_reads: "reads (enterPhase api ph g)"
  unfolding enterPhase_def reads_def by (intro only_if only_bind only_ask only_return)

lemma wouldChangeIn_reads: "only P (wouldChangeIn api g active nss found)"
proof (induction nss arbitrary: found)
  case (Cons ns nss)
  obtain workloads namespaces cloud where found: "found = (workloads, namespaces, cloud)" by (metis prod_cases3)
  show ?case
    unfolding found wouldChangeIn.simps
    by (intro only_if Cons only_bind workloadRules_reads only_prod wouldChange_reads)
qed (simp add: only_return)

subsection \<open>Giving namespaces back\<close>

lemma handOver_only: "only wakeChange (handOver api g ns owner)"
  unfolding handOver_def
  by (intro only_attempt only_wrapped only_ask only_if only_return only_bind only_prod WakeRoutes_only)

lemma giveBack_only:
  assumes "getsItself api"
  shows "only (backChange api) (giveBack api g ns)"
  unfolding giveBack_def
  by (intro only_bind rulesFor_reads ordered_weaken [OF releaseNamespace_ordered [OF assms]])
     (auto simp: giveBackOrder_def backChange_def split: if_splits)

lemma wake_back: "only wakeChange m \<Longrightarrow> only (backChange api) m"
  by (erule only_mono) (simp add: backChange_def)

lemma releaseOne_only:
  assumes "getsItself api"
  shows "only (backChange api) (releaseOne api plan g ns)"
  unfolding releaseOne_def Let_def
  by (intro only_option only_if only_bind only_return giveBack_only assms wake_back [OF handOver_only])

lemma releaseDeparted_only:
  assumes "getsItself api"
  shows "only (backChange api) (releaseDeparted api plan nss res)"
proof (induction nss arbitrary: res)
  case (Cons ns nss)
  obtain g released unreleased where res: "res = (g, released, unreleased)" by (metis prod_cases3)
  show ?case
    unfolding res releaseDeparted.simps by (intro only_bind releaseOne_only assms Cons)
qed (simp add: only_return)

lemma grant_back: "only (backChange api) (syncSleepGrantAfterRelease api)"
  by (rule only_mono [OF syncSleepGrantAfterRelease_only]) (simp add: backChange_def)

lemma release_only:
  assumes "getsItself api"
  shows "only (backChange api) (release api g departed plan)"
  unfolding release_def
  by (intro only_bind only_prod only_if only_return releaseDeparted_only assms grant_back)

subsection \<open>Targets and stages\<close>

lemma scaleExternalTarget_only: "only (\<lambda>c. c = ScaleExternal t active) (scaleExternalTarget api g t active)"
  unfolding scaleExternalTarget_def by (auto intro!: only_bind only_ask only_act only_return split: sum.split)

lemma startTargets_only: "only startsTarget (startTargets api ts g)"
proof (induction ts arbitrary: g)
  case (Cons t ts)
  have "only startsTarget (scaleExternalTarget api g t True)"
    by (rule only_mono [OF scaleExternalTarget_only]) (simp add: startsTarget_def)
  then show ?case by (auto intro!: only_bind Cons split: prod.split)
qed (simp add: only_return)

lemma releaseExternalTargets_only: "only startsTarget (releaseExternalTargets api g)"
  unfolding releaseExternalTargets_def by (rule startTargets_only)

lemma ScaleWithServices_only:
  assumes "getsItself api"
  shows "only (targetChange active) (ScaleWithServices api parseGV ns active sequence exclusions rules originals timeoutPassed)"
  by (rule ordered_weaken [OF ScaleWithServices_ordered [OF assms]])
     (auto simp: stepOrder_def targetChange_def split: if_splits)

lemma reconcileTarget_only:
  assumes "getsItself api"
  shows "only (targetChange active) (reconcileTarget api g name active timeoutPassed)"
proof -
  have "only (targetChange active) (scaleExternalTarget api g t active)" for t
    by (rule only_mono [OF scaleExternalTarget_only]) (simp add: targetChange_def)
  then have ext: "only (targetChange active) (reconcileExternalTarget api g name active)"
    unfolding reconcileExternalTarget_def Let_def by (intro only_option only_return)
  have "only (targetChange active) (reconcileK8sTarget api g name active timeoutPassed)"
    unfolding reconcileK8sTarget_def Let_def
    by (intro only_bind only_prod only_sum only_if only_return workloadRules_reads ScaleWithServices_only assms ComputePhase_reads)
  with ext show ?thesis unfolding reconcileTarget_def by (intro only_if)
qed

lemma runTargets_only:
  assumes "getsItself api"
  shows "only (targetChange active) (runTargets api active timedOut names res)"
proof (induction names arbitrary: res)
  case (Cons name names)
  obtain p waiting where res: "res = (p, waiting)" by fastforce
  show ?case
    unfolding res runTargets.simps Let_def by (intro only_bind only_prod reconcileTarget_only assms Cons)
next
  case Nil
  show ?case by (cases res) (simp add: only_return)
qed

lemma stageTimedOut_reads: "only P (stageTimedOut api flags passed started)"
  unfolding stageTimedOut_def by (intro only_if only_return only_bind only_ask)

lemma runGroupStages_only:
  assumes "getsItself api"
  shows "only (targetChange active) (runGroupStages api flags active i stages p)"
proof (induction stages arbitrary: i p)
  case (Cons stage stages)
  show ?case
    unfolding runGroupStages.simps Let_def
    by (intro only_bind only_prod only_if only_return only_ask stageTimedOut_reads runTargets_only assms Cons)
qed (simp add: only_return)

subsection \<open>The spec is kept\<close>

definition sameGroupSpec :: "ScalingGroup \<Rightarrow> ScalingGroup \<Rightarrow> bool" where
  "sameGroupSpec a b \<longleftrightarrow> Spec b = Spec a"

lemma sameGroupSpec_map [simp]:
  "sameGroupSpec a (groupMapStatus f b) = sameGroupSpec a b" "sameGroupSpec a a"
  "sameGroupSpec a (onGroupReport h b) = sameGroupSpec a b" "sameGroupSpec a (forgetOriginals ns b) = sameGroupSpec a b"
  "sameGroupSpec a (mergeOriginals ns m b) = sameGroupSpec a b"
  by (simp_all add: sameGroupSpec_def onGroupReport_def forgetOriginals_def mergeOriginals_def)

lemma yields_sum: "(\<And>e. yields (f e) P) \<Longrightarrow> (\<And>x. yields (h x) P) \<Longrightarrow> yields (case r of Inl e \<Rightarrow> f e | Inr x \<Rightarrow> h x) P"
  by (simp split: sum.split)

lemma yields_any: "(\<And>x. yields (f x) P) \<Longrightarrow> yields (m \<bind> f) P"
  by (rule yields_bind [OF yields_True])

lemma yields_prod: "(\<And>x y. yields (f x y) P) \<Longrightarrow> yields (case r of (x, y) \<Rightarrow> f x y) P"
  by (simp split: prod.split)

lemma yields_pair: "(\<And>x y. r = (x, y) \<Longrightarrow> yields (f x y) P) \<Longrightarrow> yields (case r of (x, y) \<Rightarrow> f x y) P"
  by (simp split: prod.split)

lemma yields_if: "(b \<Longrightarrow> yields m P) \<Longrightarrow> (\<not> b \<Longrightarrow> yields n P) \<Longrightarrow> yields (if b then m else n) P"
  by simp

lemma scaleExternalTarget_spec:
  "yields (scaleExternalTarget api b t active) (\<lambda>(g, r). Spec g = Spec b)"
  unfolding scaleExternalTarget_def by (intro yields_any yields_sum yields_return) auto

lemma startTargets_keep: "Spec b = sp \<Longrightarrow> yields (startTargets api ts b) (\<lambda>g. Spec g = sp)"
proof (induction ts arbitrary: b)
  case (Cons t ts)
  show ?case
    unfolding startTargets.simps
    by (rule yields_bind [OF scaleExternalTarget_spec]) (use Cons in \<open>auto split: prod.splits\<close>)
qed (simp add: yields_return)

lemma releaseExternalTargets_spec: "yields (releaseExternalTargets api b) (\<lambda>g. Spec g = Spec b)"
  unfolding releaseExternalTargets_def by (rule startTargets_keep) simp

lemma reconcileTarget_spec: "yields (reconcileTarget api b name active timedOut) (\<lambda>(g, r). Spec g = Spec b)"
proof -
  have "yields (reconcileExternalTarget api b name active) (\<lambda>(g, r). Spec g = Spec b)"
    unfolding reconcileExternalTarget_def Let_def
    by (auto split: option.split intro: yields_return scaleExternalTarget_spec)
  moreover have "Spec (mergeOriginals ns m b) = Spec b" for ns m
    by (simp add: mergeOriginals_def forgetOriginals_def)
  then have "yields (reconcileK8sTarget api b name active timedOut) (\<lambda>(g, r). Spec g = Spec b)"
    unfolding reconcileK8sTarget_def Let_def
    by (intro yields_any yields_prod yields_sum) (auto intro!: yields_return yields_any)
  ultimately show ?thesis unfolding reconcileTarget_def by simp
qed

lemma runTargets_keep:
  "Spec (pgGroup b) = sp \<Longrightarrow> yields (runTargets api active timedOut names (b, waiting)) (\<lambda>r. Spec (pgGroup (fst r)) = sp)"
proof (induction names arbitrary: b waiting)
  case (Cons name names)
  have target: "yields (reconcileTarget api (pgGroup b) name active timedOut) (\<lambda>r. Spec (fst r) = sp)"
    using reconcileTarget_spec [of api "pgGroup b" name active timedOut] Cons.prems
    by (auto simp: yields_def split: prod.splits)
  show ?case
    unfolding runTargets.simps Let_def if_distrib [of "runTargets api active timedOut names"]
    by (rule yields_bind [OF target], rule yields_pair, intro yields_if Cons.IH) simp_all
qed (simp add: yields_return)

lemma runGroupStages_keep:
  "Spec (pgGroup b) = sp \<Longrightarrow> yields (runGroupStages api flags active i stages b) (\<lambda>p. Spec (pgGroup p) = sp)"
proof (induction stages arbitrary: i b)
  case (Cons stage stages)
  have step: "yields (if passed then State_Monad.return q
       else do { now \<leftarrow> ask (clockNow api); State_Monad.return (q\<lparr>pgStage := i + 1, pgStarted := now\<rparr>) })
     (\<lambda>p. Spec (pgGroup p) = sp)" if "Spec (pgGroup q) = sp" for passed q
    using that by (simp add: yields_return yields_any)
  show ?case
    unfolding runGroupStages.simps Let_def
    by (rule yields_any, rule yields_bind [OF runTargets_keep [OF Cons.prems]], rule yields_pair)
       (intro yields_if yields_return yields_bind [OF step] Cons.IH; simp)
qed (simp add: yields_return)

subsection \<open>Scaling in order\<close>

lemma updateGroupIfChanged_only: "only ownGroup (updateGroupIfChanged api before g)"
  unfolding updateGroupIfChanged_def by (intro only_if only_return only_act) (auto simp: ownGroup_def)

text \<open>GitOps is paused, in the namespaces of the stages, before anything goes down.\<close>

definition pauses :: "ScalingGroup \<Rightarrow> bool \<Rightarrow> string list \<Rightarrow> change \<Rightarrow> bool" where
  "pauses g active namespaces c \<longleftrightarrow> gPauseGitOps (Spec g) \<and> \<not> active \<and> pauseChange namespaces c"

lemma gitOpsBeforeStages_only:
  "only (pauses g active (stageNamespaces stages)) (gitOpsBeforeStages api g stages active)"
  unfolding gitOpsBeforeStages_def pauses_def [abs_def]
  by (intro only_bind only_return reconcileGitOps_only exclusionsIn_reads)

lemma gitOpsBeforeStages_keep: "yields (gitOpsBeforeStages api g stages active) (\<lambda>h. Spec h = Spec g)"
  unfolding gitOpsBeforeStages_def by (intro yields_any yields_return) simp

lemma prepareGroup_ordered:
  "ordered [pauses g active (stageNamespaces stages)] (prepareGroup api g stages active)"
  unfolding prepareGroup_def Let_def
  by (intro ordered_then [OF ordered_only [OF gitOpsBeforeStages_only]] ordered_reads [OF recordScaleDown_reads]
      exclusionsIn_reads ordered_if ordered_return ordered_reads [OF readsI [OF only_ask]])

lemma prepareGroup_keep: "yields (prepareGroup api g stages active) (\<lambda>p. Spec (pgGroup p) = Spec g)"
  unfolding prepareGroup_def Let_def
  by (rule yields_bind [OF gitOpsBeforeStages_keep], intro yields_any yields_if yields_return) (simp_all add: startProgress_def)

lemma showGroup_ordered:
  assumes "Spec (pgGroup p) = Spec g"
  shows "ordered ((if active then [resumeChange] else []) @ sleepPageOrder api namespaces (gSleepPage (Spec g)) active True)
    (showGroup api namespaces active p)"
proof -
  have resume: "ordered (if active then [resumeChange] else [])
     (if active \<and> pgAllReady p then resumeGitOps api (exclusionsIn api (pgGroup p)) namespaces else State_Monad.return ())"
    by (cases active; cases "pgAllReady p")
       (auto intro: ordered_return ordered_only resumeGitOps_only exclusionsIn_reads simp del: resumeGitOps.simps)
  show ?thesis
    unfolding showGroup_def Let_def assms [symmetric]
    by (intro ordered_bind [OF resume] ordered_then reconcileSleepPage_settling ordered_return)
qed

lemma updateStatusAndPhase_ordered:
  "ordered ([ownGroup] @ [isAnnouncement]) (updateStatusAndPhase api g before d targets p detail)"
  unfolding updateStatusAndPhase_def Let_def
  by (intro ordered_reads [OF enterPhase_reads] ordered_attempt ordered_only updateGroupIfChanged_only only_bind only_if
      only_return announce_only requeueSettled_reads) (auto simp: isAnnouncement_def)

lemma reportGroup_ordered: "ordered ([ownGroup] @ [isAnnouncement]) (reportGroup api g before plan targets p)"
  unfolding reportGroup_def Let_def
  by (intro ordered_reads [OF recordGroupSavings_reads] updateStatusAndPhase_ordered)

text \<open>The changes of a reconcile that scales the group one way, in order.\<close>

definition groupOrder :: "'w api \<Rightarrow> ScalingGroup \<Rightarrow> bool \<Rightarrow> string list \<Rightarrow> (change \<Rightarrow> bool) list" where
  "groupOrder api g active namespaces =
     [pauses g active namespaces] @ [targetChange active]
     @ ((if active then [resumeChange] else []) @ sleepPageOrder api namespaces (gSleepPage (Spec g)) active True)
     @ [ownGroup] @ [isAnnouncement]"

lemma scaleGroup_ordered:
  assumes "getsItself api"
  shows "ordered (groupOrder api g (dActive (pDecision plan))
      (stageNamespaces (getScalingStages g (dActive (pDecision plan)) (ConflictingNamespaces plan))))
    (scaleGroup api g before plan)"
proof -
  let ?active = "dActive (pDecision plan)"
  let ?stages = "getScalingStages g ?active (ConflictingNamespaces plan)"
  have stages: "gives (runGroupStages api flags ?active 0 ?stages p)
      (\<lambda>q cs. inOrder [targetChange ?active] cs \<and> Spec (pgGroup q) = Spec g)" if "Spec (pgGroup p) = Spec g" for flags p
    by (rule ordered_yields [OF ordered_only [OF runGroupStages_only [OF assms]] runGroupStages_keep [OF that]])
  show ?thesis
    unfolding scaleGroup_def Let_def groupOrder_def
    by (rule ordered_bind_result [OF ordered_yields [OF prepareGroup_ordered prepareGroup_keep]],
        rule ordered_bind_result [OF stages], assumption)
       (intro ordered_bind [OF showGroup_ordered reportGroup_ordered])
qed

subsection \<open>Waiting and dry runs\<close>

lemma waitForDependencies_only: "only ownGroup (waitForDependencies api g before plan)"
  unfolding waitForDependencies_def Let_def
  by (intro only_bind only_if only_ask only_return only_attempt updateGroupIfChanged_only)

lemma dryRunGroup_only: "only ownGroup (dryRunGroup api g before plan)"
  unfolding dryRunGroup_def Let_def
  by (intro only_bind only_prod only_attempt wouldChangeIn_reads updateGroupIfChanged_only requeueSettled_reads)

text \<open>What a reconcile does to the members of the group: nothing, or one way.\<close>

definition membersChanges :: "'w api \<Rightarrow> ScalingGroup \<Rightarrow> change list \<Rightarrow> bool" where
  "membersChanges api g cs \<longleftrightarrow>
     (\<forall>c \<in> set cs. ownGroup c)
     \<or> \<not> gDryRun (Spec g) \<and> (\<exists>active namespaces. inOrder (groupOrder api g active namespaces) cs)"

lemma membersChanges_own: "only ownGroup m \<Longrightarrow> gives m (\<lambda>_. membersChanges api g)"
  unfolding only_def by (erule gives_mono) (simp add: membersChanges_def)

lemma groupOrder_cong: "Spec b = Spec a \<Longrightarrow> groupOrder api b = groupOrder api a"
  by (simp add: groupOrder_def pauses_def [abs_def] fun_eq_iff)

lemma actOnPlan_gives:
  assumes "getsItself api" "Spec g = Spec g0" "\<not> gDryRun (Spec g0)"
  shows "gives (actOnPlan api g before plan) (\<lambda>_. membersChanges api g0)"
proof -
  have "gives (scaleGroup api g before plan) (\<lambda>_. membersChanges api g0)"
    by (rule gives_mono [OF scaleGroup_ordered [OF assms(1), unfolded ordered_def]])
       (use assms(3) in \<open>unfold membersChanges_def groupOrder_cong [OF assms(2)], blast\<close>)
  then show ?thesis
    unfolding actOnPlan_def by (simp add: membersChanges_own waitForDependencies_only)
qed

lemma watchGroup_yields: "yields (watchGroup api g plan) (\<lambda>r. Spec (fst r) = Spec g)"
  unfolding watchGroup_def by (intro yields_any yields_prod yields_return) (simp add: onGroupReport_def)

lemma onGroupReport_spec [simp]: "Spec (onGroupReport f g) = Spec g"
  by (simp add: onGroupReport_def)

lemma followPlan_gives:
  assumes "getsItself api" "Spec g = Spec g0"
  shows "gives (followPlan api g before plan) (\<lambda>_. membersChanges api g0)"
proof (cases "gDryRun (Spec g0)")
  case True
  then show ?thesis
    using assms(2) unfolding followPlan_def Let_def by (simp add: membersChanges_own dryRunGroup_only)
next
  case False
  have "gives (do { (g', plan') \<leftarrow> watchGroup api h plan; actOnPlan api g' before plan' }) (\<lambda>_. membersChanges api g0)"
    if "Spec h = Spec g0" for h
  proof (rule gives_bind, rule gives_mono [OF reads_yields [OF watchGroup_reads watchGroup_yields]])
    fix r :: "ScalingGroup \<times> GroupPlan" and cs :: "change list"
    assume r: "cs = [] \<and> Spec (fst r) = Spec h"
    have act: "gives (actOnPlan api (fst r) before (snd r)) (\<lambda>_. membersChanges api g0)"
      by (rule actOnPlan_gives [OF assms(1) _ False]) (use r that in simp)
    show "gives (case r of (g', plan') \<Rightarrow> actOnPlan api g' before plan') (\<lambda>_ ds. membersChanges api g0 (cs @ ds))"
      using r act by (simp add: case_prod_beta)
  qed
  with False assms(2) show ?thesis unfolding followPlan_def Let_def by simp
qed

subsection \<open>A whole reconcile\<close>

lemma selectNamespaces_yields:
  "yields (selectNamespaces api g) (\<lambda>r. \<forall>g' departed. r = Inr (g', departed) \<longrightarrow> Spec g' = Spec g)"
  unfolding selectNamespaces_def Let_def attempt_def
  by (auto intro!: yields_return yields_any yields_sum split: option.split)

lemma releaseDeparted_keep:
  "Spec g = sp \<Longrightarrow> yields (releaseDeparted api plan nss (g, released, unreleased)) (\<lambda>r. Spec (fst r) = sp)"
proof (induction nss arbitrary: g released unreleased)
  case (Cons ns nss)
  have "yields (releaseDeparted api plan nss (case d of NeverOurs \<Rightarrow> (g, released, unreleased)
      | LetGo \<Rightarrow> (forgetOriginals ns g, True, unreleased) | Kept \<Rightarrow> (g, released, unreleased @ [ns])))
      (\<lambda>r. Spec (fst r) = sp)" for d
    by (cases d; simp only: departure.case; rule Cons.IH; simp add: forgetOriginals_def Cons.prems)
  then show ?case unfolding releaseDeparted.simps by (intro yields_any)
qed (simp add: yields_return)

lemma release_keep: "yields (release api g departed plan) (\<lambda>r. Spec (fst r) = Spec g)"
  unfolding release_def
  by (rule yields_bind [OF releaseDeparted_keep [OF refl]], rule yields_pair, rule yields_pair, intro yields_any yields_return)
     simp

definition releasesFirst :: "'w api \<Rightarrow> ScalingGroup \<Rightarrow> change list \<Rightarrow> bool" where
  "releasesFirst api g cs \<longleftrightarrow>
     (\<exists>back starts rest. cs = back @ starts @ rest \<and> (\<forall>c \<in> set back. backChange api c)
        \<and> (\<forall>c \<in> set starts. startsTarget c) \<and> membersChanges api g rest)"

lemma membersChanges_Nil [simp]: "membersChanges api g []"
  by (simp add: membersChanges_def)

lemma releasesFirst_Nil [simp]: "releasesFirst api g []"
  unfolding releasesFirst_def by (intro exI [of _ "[]"]) simp

lemma only_yields: "only P m \<Longrightarrow> yields m Q \<Longrightarrow> gives m (\<lambda>x cs. (\<forall>c \<in> set cs. P c) \<and> Q x)"
  unfolding only_def yields_def gives_def by blast

lemma afterRelease_gives:
  assumes "getsItself api" "Spec g' = Spec g"
  shows "gives (do { h \<leftarrow> releaseExternalTargets api g'; followPlan api h before plan })
    (\<lambda>_ cs. \<exists>starts rest. cs = starts @ rest \<and> (\<forall>c \<in> set starts. startsTarget c) \<and> membersChanges api g rest)"
proof (rule gives_bind, rule gives_mono [OF only_yields [OF releaseExternalTargets_only releaseExternalTargets_spec]])
  fix h :: ScalingGroup and cs :: "change list" assume h: "(\<forall>c \<in> set cs. startsTarget c) \<and> Spec h = Spec g'"
  show "gives (followPlan api h before plan)
      (\<lambda>_ ds. \<exists>starts rest. cs @ ds = starts @ rest \<and> (\<forall>c \<in> set starts. startsTarget c) \<and> membersChanges api g rest)"
    by (rule gives_mono [OF followPlan_gives [OF assms(1)]]) (use h assms(2) in auto)
qed

lemma release_gives:
  assumes "getsItself api" "Spec g' = Spec g"
  shows "gives (do { (g', unreleased) \<leftarrow> release api g' departed plan;
           h \<leftarrow> releaseExternalTargets api (groupMapStatus (\<lambda>st. st\<lparr>ManagedNamespaces := managedNamespaces g' plan unreleased\<rparr>) g');
           followPlan api h before plan })
    (\<lambda>_. releasesFirst api g)"
proof (rule gives_bind, rule gives_mono [OF only_yields [OF release_only [OF assms(1)] release_keep]])
  fix r :: "ScalingGroup \<times> string list" and cs :: "change list"
  assume r: "(\<forall>c \<in> set cs. backChange api c) \<and> Spec (fst r) = Spec g'"
  obtain h unreleased where h: "r = (h, unreleased)" by fastforce
  have "Spec (groupMapStatus (\<lambda>st. st\<lparr>ManagedNamespaces := managedNamespaces h plan unreleased\<rparr>) h) = Spec g"
    using r h assms(2) by simp
  note after = afterRelease_gives [OF assms(1) this]
  show "gives (case r of (g', unreleased) \<Rightarrow> do {
           h \<leftarrow> releaseExternalTargets api (groupMapStatus (\<lambda>st. st\<lparr>ManagedNamespaces := managedNamespaces g' plan unreleased\<rparr>) g');
           followPlan api h before plan }) (\<lambda>_ ds. releasesFirst api g (cs @ ds))"
    unfolding h prod.case by (rule gives_mono [OF after]) (use r in \<open>unfold releasesFirst_def, blast\<close>)
qed

lemma gives_attempt_reads:
  assumes "reads m" "yields m Q" "\<And>e. R (Inl e) []" "\<And>x. Q (Inr x) \<Longrightarrow> gives (f x) R"
  shows "gives (attempt m f) R"
  by (rule gives_attempt, rule gives_mono [OF reads_yields [OF assms(1,2)]])
     (use assms(3,4) in \<open>auto split: sum.split\<close>)

lemma reconcileGroup_gives:
  assumes "getsItself api"
  shows "gives (reconcileGroup api g) (\<lambda>_. releasesFirst api g)"
  unfolding reconcileGroup_def Let_def
proof (rule gives_attempt_reads [OF selectNamespaces_reads selectNamespaces_yields])
  fix r :: "ScalingGroup \<times> string list"
  assume "\<forall>g' departed. Inr r = Inr (g', departed) \<longrightarrow> Spec g' = Spec g"
  then obtain g' departed where r: "r = (g', departed)" "Spec g' = Spec g" by (cases r) auto
  show "gives (case r of (g', departed) \<Rightarrow> attempt (planFor api g') (\<lambda>plan.
       do { (g', unreleased) \<leftarrow> release api g' (departed @ removedNamespaces g' departed) plan;
            h \<leftarrow> releaseExternalTargets api (groupMapStatus (\<lambda>st. st\<lparr>ManagedNamespaces := managedNamespaces g' plan unreleased\<rparr>) g');
            followPlan api h (Status g) plan })) (\<lambda>_. releasesFirst api g)"
    unfolding r(1) prod.case
    by (rule gives_attempt_reads [OF planFor_reads yields_True]) (auto intro: release_gives [OF assms r(2)])
qed simp

lemma handleGroupDeletion_live:
  assumes "gDeleted g = None"
  shows "gives (handleGroupDeletion api g) (\<lambda>r cs. (\<forall>c \<in> set cs. ownGroup c) \<and> Spec (fst r) = Spec g)"
  unfolding handleGroupDeletion_def assms option.case Let_def
  by (auto intro!: gives_return gives_bind gives_act simp: ownGroup_def)

lemma releasesFirst_cong:
  assumes "Spec b = Spec a"
  shows "releasesFirst api b = releasesFirst api a"
  unfolding releasesFirst_def membersChanges_def fun_eq_iff groupOrder_cong [OF assms] using assms by simp

lemma ReconcileGroup_gives:
  assumes "getsItself api"
    and "\<And>g. Inr g \<in> set_state (getGroup api ns name) \<Longrightarrow> gDeleted g = None"
  shows "gives (ReconcileGroup api ns name)
    (\<lambda>_ cs. \<exists>own ds. cs = own @ ds \<and> (\<forall>c \<in> set own. ownGroup c) \<and>
       (ds = [] \<or> (\<exists>g. Inr g \<in> set_state (getGroup api ns name) \<and> releasesFirst api g ds)))"
  unfolding ReconcileGroup_def
proof (rule gives_bind, rule gives_ask)
  fix r assume r: "r \<in> set_state (getGroup api ns name)"
  let ?R = "\<lambda>cs. \<exists>own ds. cs = own @ ds \<and> (\<forall>c \<in> set own. ownGroup c) \<and>
       (ds = [] \<or> (\<exists>g. Inr g \<in> set_state (getGroup api ns name) \<and> releasesFirst api g ds))"
  show "gives (case r of Inl e \<Rightarrow> State_Monad.return (if IsNotFound e then Inr 0 else Inl e)
      | Inr g \<Rightarrow> do { (g, handled) \<leftarrow> handleGroupDeletion api g;
            case handled of Some result \<Rightarrow> State_Monad.return result | None \<Rightarrow> reconcileGroup api g })
      (\<lambda>_ cs. ?R ([] @ cs))"
  proof (cases r)
    case (Inl e)
    then show ?thesis by (simp add: gives_return)
  next
    case (Inr g)
    note g = r [unfolded Inr]
    show ?thesis
      unfolding Inr sum.case append_Nil
    proof (rule gives_bind, rule gives_mono [OF handleGroupDeletion_live [OF assms(2) [OF g]]])
      fix x :: "ScalingGroup \<times> duration reply option" and own
      assume own: "(\<forall>c \<in> set own. ownGroup c) \<and> Spec (fst x) = Spec g"
      obtain h handled where x: "x = (h, handled)" by fastforce
      have rest: "gives (reconcileGroup api h) (\<lambda>_. releasesFirst api g)"
        using reconcileGroup_gives [OF assms(1), of h] own x by (simp add: releasesFirst_cong [of h g])
      show "gives (case x of (g, handled) \<Rightarrow> (case handled of Some result \<Rightarrow> State_Monad.return result
          | None \<Rightarrow> reconcileGroup api g)) (\<lambda>_ ds. ?R (own @ ds))"
      proof (cases handled)
        case None
        show ?thesis
          unfolding x None prod.case option.case by (rule gives_mono [OF rest]) (use own g in blast)
      next
        case (Some result)
        show ?thesis
          unfolding x Some prod.case option.case by (rule gives_return) (use own in auto)
      qed
    qed
  qed
qed

subsection \<open>The plan of the group\<close>

lemma withFresh_named: "x \<in> set (withFresh g groups) \<Longrightarrow> gName x = gName g \<Longrightarrow> x = g"
  by (auto simp: withFresh_def Let_def split: if_splits)

lemma withFresh_has: "g \<in> set (withFresh g groups)"
  by (auto simp: withFresh_def Let_def list_ex_iff image_iff)

lemma byName_withFresh: "byName (withFresh g groups) (gName g) = Some g"
proof -
  obtain h where h: "byName (withFresh g groups) (gName g) = Some h"
    using withFresh_has [of g groups] by (metis byName_None imageI not_None_eq)
  from byName_Some [OF h] withFresh_named have "h = g" by blast
  with h show ?thesis by simp
qed

lemma planFor_there:
  "yields (planFor api g) (\<lambda>r. (\<exists>plan. r = Inr plan \<and> set (ConflictingNamespaces plan) \<subseteq> set (Members g))
      \<or> (\<exists>e. r = Inl e \<and> Inl e \<in> set_state (listGroups api (Some (gNamespace g)))))"
  (is "yields _ ?there")
proof -
  have plan: "\<exists>plan. Option.bind (PlanGroups (zones api) now (withFresh g groups) calendars) (\<lambda>plans. plans (gName g)) = Some plan
      \<and> set (ConflictingNamespaces plan) \<subseteq> set (Members g)" for now groups calendars
  proof -
    obtain plans where p: "PlanGroups (zones api) now (withFresh g groups) calendars = Some plans"
      and sol: "\<And>name h. byName (withFresh g groups) name = Some h \<Longrightarrow> plans name =
        Some (finishPlan (withFresh g groups) name h
          (ownPlan (zones api) now (withFresh g groups) calendars name h (requiredIn (withFresh g groups) plans name h)))"
      by (rule PlanGroups_solution [of "zones api" now "withFresh g groups" calendars]) (rule that)
    show ?thesis
      unfolding p bind.bind_lunit sol [OF byName_withFresh] by (auto simp: finishPlan_def Let_def conflictsOf_def)
  qed
  show ?thesis
    unfolding planFor_def attempt_def
  proof (rule yields_bind [OF yields_ask [where P = "\<lambda>r. r \<in> set_state (listGroups api (Some (gNamespace g)))"]], assumption)
    fix r assume r: "r \<in> set_state (listGroups api (Some (gNamespace g)))"
    let ?plan = "\<lambda>now groups calendars. State_Monad.return
        (case Option.bind (PlanGroups (zones api) now (withFresh g groups) calendars) (\<lambda>plans. plans (gName g)) of
           Some plan \<Rightarrow> Inr plan | None \<Rightarrow> Inl (Panic ''no plan''))"
    have there: "yields (?plan now groups calendars) ?there" for now groups calendars
      using plan [of now groups calendars] by (intro yields_return) auto
    show "yields (case r of Inl e \<Rightarrow> State_Monad.return (Inl e) | Inr groups \<Rightarrow>
       do { now \<leftarrow> ask (clockNow api); calendars \<leftarrow> calendarsOf api; ?plan now groups calendars }) ?there"
    proof (cases r)
      case (Inl e)
      with r show ?thesis by (simp add: yields_return)
    next
      case (Inr groups)
      show ?thesis unfolding Inr sum.case by (intro yields_any there)
    qed
  qed
qed

subsection \<open>Namespaces that leave\<close>

text \<open>Forgetting counts is all the release of namespaces does to the group.\<close>

lemma forgetOriginals_other:
  assumes "CHR ''/'' \<notin> set ns" "CHR ''/'' \<notin> set n" "n \<noteq> ns"
  shows "map_of (namespaceOriginals (forgetOriginals ns g) n) = map_of (namespaceOriginals g n)"
  using mergeOriginals_counts [where updated = "[]" and ns = ns and ns' = n and g = g] assms
  by (auto simp: mergeOriginals_def groupMapStatus_def fun_eq_iff)

lemma forgetOriginals_members [simp]:
  "Members (forgetOriginals ns g) = Members g"
  by (simp add: Members_def forgetOriginals_def)

lemma releaseDeparted_result:
  assumes "run_state (releaseDeparted api plan nss (g, released, unreleased)) w = ((g', released', unreleased'), w')"
    and "distinct nss" "\<forall>n \<in> set nss. CHR ''/'' \<notin> set n"
  shows "\<exists>us. unreleased' = unreleased @ us \<and> set us \<subseteq> set nss \<and> Members g' = Members g
    \<and> (\<forall>n. CHR ''/'' \<notin> set n \<and> (n \<notin> set nss \<or> n \<in> set us) \<longrightarrow>
          map_of (namespaceOriginals g' n) = map_of (namespaceOriginals g n))"
  using assms
proof (induction nss arbitrary: g released unreleased w)
  case (Cons ns nss)
  obtain d w1 where d: "run_state (releaseOne api plan g ns) w = (d, w1)" by fastforce
  define res where "res = (case d of NeverOurs \<Rightarrow> (g, released, unreleased)
      | LetGo \<Rightarrow> (forgetOriginals ns g, True, unreleased) | Kept \<Rightarrow> (g, released, unreleased @ [ns]))"
  obtain h rel unrel where res: "res = (h, rel, unrel)" by (metis prod_cases3)
  have run: "run_state (releaseDeparted api plan nss (h, rel, unrel)) w1 = ((g', released', unreleased'), w')"
    using Cons.prems(1) d by (simp add: res [symmetric] res_def)
  have "distinct nss" "\<forall>n \<in> set nss. CHR ''/'' \<notin> set n" using Cons.prems by simp_all
  from Cons.IH [OF run this] obtain us where us: "unreleased' = unrel @ us" "set us \<subseteq> set nss" "Members g' = Members h"
    "\<And>n. CHR ''/'' \<notin> set n \<Longrightarrow> n \<notin> set nss \<or> n \<in> set us \<Longrightarrow> map_of (namespaceOriginals g' n) = map_of (namespaceOriginals h n)"
    by blast
  have ns: "ns \<notin> set nss" "CHR ''/'' \<notin> set ns" using Cons.prems by simp_all
  show ?case
  proof (cases d)
    case Kept
    then have h: "h = g" "unrel = unreleased @ [ns]" using res by (simp_all add: res_def)
    show ?thesis
      by (rule exI [of _ "ns # us"]) (use us h ns in auto)
  next
    case NeverOurs
    then have h: "h = g" "unrel = unreleased" using res by (simp_all add: res_def)
    show ?thesis
      by (rule exI [of _ us]) (use us h in auto)
  next
    case LetGo
    then have h: "h = forgetOriginals ns g" "unrel = unreleased" using res by (simp_all add: res_def)
    have "map_of (namespaceOriginals g' n) = map_of (namespaceOriginals g n)"
      if "CHR ''/'' \<notin> set n" "n \<notin> set (ns # nss) \<or> n \<in> set us" for n
    proof -
      from that(2) us(2) ns(1) have n: "n \<noteq> ns" by auto
      from that(2) have "n \<notin> set nss \<or> n \<in> set us" by auto
      from us(4) [OF that(1) this] show ?thesis unfolding h(1) forgetOriginals_other [OF ns(2) that(1) n] .
    qed
    then show ?thesis
      by (intro exI [of _ us]) (use us h in auto)
  qed
qed simp

lemma release_result:
  assumes "run_state (release api g departed plan) w = ((g', unreleased), w')"
    and "distinct departed" "\<forall>n \<in> set departed. CHR ''/'' \<notin> set n"
  shows "set unreleased \<subseteq> set departed" "Members g' = Members g"
    "\<And>n. CHR ''/'' \<notin> set n \<Longrightarrow> n \<notin> set departed \<or> n \<in> set unreleased \<Longrightarrow>
       map_of (namespaceOriginals g' n) = map_of (namespaceOriginals g n)"
proof -
  obtain h rel us w1 where run: "run_state (releaseDeparted api plan departed (g, False, [])) w = ((h, rel, us), w1)"
    by (metis prod_cases3 surj_pair)
  have "g' = h \<and> unreleased = us"
    using assms(1) run by (cases rel) (auto simp: release_def split: prod.splits)
  with releaseDeparted_result [OF run assms(2,3)]
  show "set unreleased \<subseteq> set departed" "Members g' = Members g"
    "\<And>n. CHR ''/'' \<notin> set n \<Longrightarrow> n \<notin> set departed \<or> n \<in> set unreleased \<Longrightarrow>
       map_of (namespaceOriginals g' n) = map_of (namespaceOriginals g n)" by auto
qed

subsection \<open>Waiting\<close>

lemma waitForDependencies_gives:
  "gives (waitForDependencies api g before plan)
    (\<lambda>r cs. (r = Inr (10 * second) \<or> (\<exists>e. r = Inl e)) \<and>
       (cs = [] \<or> (\<exists>h. cs = [UpdateGroupStatus h] \<and> gPhase (Status h) = PhaseWaitingForDependencies \<and> Spec h = Spec g)))"
  (is "gives _ ?R")
proof -
  let ?enter = "if gPhase (Status g) \<noteq> PhaseWaitingForDependencies then
      do { now \<leftarrow> ask (clockNow api);
           now' \<leftarrow> ask (clockNow api);
           State_Monad.return (groupMapStatus (\<lambda>st.
             st\<lparr>gScheduleStatus := trackWakeUp (gScheduleStatus st) (gPhase st) PhaseWaitingForDependencies now,
                gPhase := PhaseWaitingForDependencies, gLastAction := now'\<rparr>) g) }
      else State_Monad.return g"
  have phase: "gPhase (Status (onGroupReport f h)) = gPhase (Status h)" for f h
    by (simp add: onGroupReport_def split: prod.split)
  have reads: "reads ?enter"
    unfolding reads_def by (intro only_if only_bind only_ask only_return)
  have enter: "yields ?enter (\<lambda>h. gPhase (Status h) = PhaseWaitingForDependencies \<and> Spec h = Spec g)"
    by (intro yields_if yields_any yields_return) simp_all
  have update: "gives (updateGroupIfChanged api before h) (\<lambda>_ cs. cs = [] \<or> cs = [UpdateGroupStatus h])" for h
    unfolding updateGroupIfChanged_def by (intro gives_if gives_return gives_act) simp_all
  have rest: "gives (attempt (updateGroupIfChanged api before h) (\<lambda>_. State_Monad.return (Inr (10 * second)))) ?R"
    if "gPhase (Status h) = PhaseWaitingForDependencies" "Spec h = Spec g" for h
    by (rule gives_attempt, rule gives_mono [OF update]) (use that in \<open>auto intro: gives_return split: sum.split\<close>)
  show ?thesis
    unfolding waitForDependencies_def Let_def
    by (rule gives_bind, rule gives_mono [OF reads_yields [OF reads enter]]) (clarify, unfold append_Nil, rule rest, simp_all only: phase onGroupReport_spec)
qed

subsection \<open>Cloud targets of a deleted group\<close>

lemma startEach_result:
  assumes "run_state (startEach api ts (g, errs)) w = ((g', errs'), w')"
  shows "\<exists>es. errs' = errs @ es \<and> (es = [] \<longrightarrow>
    StoppedExternalTargets (Status g') = fold deleteTarget ts (StoppedExternalTargets (Status g)))"
  using assms
proof (induction ts arbitrary: g errs w)
  case (Cons t ts)
  obtain h r w1 where h: "run_state (scaleExternalTarget api g t True) w = ((h, r), w1)" by (metis prod.exhaust)
  define errs1 where "errs1 = (case r of Inl e \<Rightarrow> errs @ [Wrap (''start '' @ etIdentifier t) e]
      | Inr ready \<Rightarrow> if ready then errs else errs @ [Msg (etIdentifier t @ '' has not started yet'')])"
  from Cons.prems h have "run_state (startEach api ts (h, errs1)) w1 = ((g', errs'), w')" by (simp add: errs1_def)
  from Cons.IH [OF this] obtain es where es: "errs' = errs1 @ es"
    "es = [] \<Longrightarrow> StoppedExternalTargets (Status g') = fold deleteTarget ts (StoppedExternalTargets (Status h))" by auto
  show ?case
  proof (cases "r = Inr True")
    case True
    with h have "StoppedExternalTargets (Status h) = deleteTarget t (StoppedExternalTargets (Status g))"
      by (auto simp: scaleExternalTarget_def recordTarget_def act_def ask_def split: prod.splits sum.splits)
    with True es show ?thesis by (auto simp: errs1_def)
  next
    case False
    have "\<exists>e. errs1 = errs @ [e]"
    proof (cases r)
      case (Inr ready)
      with False show ?thesis by (cases ready) (simp_all add: errs1_def)
    qed (simp add: errs1_def)
    with es(1) show ?thesis by auto
  qed
qed simp

lemma fold_deleteTarget: "fold deleteTarget ts ts = []"
proof -
  let ?key = "\<lambda>t. (etProvider t, etType t, etIdentifier t, etRegion t)"
  have keys: "map ?key (fold deleteTarget us ts) = fold remove1 (map ?key us) (map ?key ts)" for us ts
    by (induction us arbitrary: ts) (simp_all only: fold.simps list.map comp_apply id_apply deleteTarget_keys)
  have "mset (fold remove1 xs ys) = mset ys - mset xs" for xs ys :: "(string \<times> string \<times> string \<times> string) list"
    by (induction xs arbitrary: ys) simp_all
  from this [of "map ?key ts" "map ?key ts"] have "fold remove1 (map ?key ts) (map ?key ts) = []" by simp
  then show ?thesis unfolding keys [symmetric] by simp
qed

lemma giveBackEach_only:
  assumes "getsItself api"
  shows "only (backChange api) (giveBackEach api g plan heirs nss errs)"
proof (induction nss arbitrary: errs)
  case (Cons ns nss)
  show ?case
    unfolding giveBackEach.simps
    by (intro only_if Cons only_bind only_option wake_back [OF handOver_only] giveBack_only assms)
qed (simp add: only_return)

lemma startEach_only: "only startsTarget (startEach api ts res)"
proof (induction ts arbitrary: res)
  case (Cons t ts)
  have "only startsTarget (scaleExternalTarget api g t True)" for g
    by (rule only_mono [OF scaleExternalTarget_only]) (simp add: startsTarget_def)
  with Cons show ?case by (cases res) (simp, intro only_bind only_prod)
qed (simp add: only_return)

lemma releaseGroup_only:
  assumes "getsItself api"
  shows "only (\<lambda>c. backChange api c \<or> startsTarget c) (releaseGroup api g)"
proof -
  have mono: "only (\<lambda>c. backChange api c \<or> startsTarget c) m" if "only (backChange api) m \<or> only startsTarget m" for m :: "('a, 'b) io"
    using that by (auto elim: only_mono)
  show ?thesis
    unfolding releaseGroup_def Let_def
    by (intro only_bind only_sum only_prod only_return reads_only [OF planFor_reads] reads_only [OF successors_reads]
        mono [OF disjI1 [OF giveBackEach_only [OF assms]]] mono [OF disjI2 [OF startEach_only]] mono [OF disjI1 [OF grant_back]])
qed

lemma releaseGroup_finished:
  assumes "run_state (releaseGroup api g) w = ((g', Inr ()), w')"
  shows "StoppedExternalTargets (Status g') = []"
proof -
  obtain errs w1 h errs1 w2 and r :: "unit reply" where
    errs: "run_state (startEach api (StoppedExternalTargets (Status g)) (g, errs)) w1 = ((h, errs1), w2)"
    "noteError errs1 r = []" "g' = h"
    using assms by (simp add: releaseGroup_def Let_def split: prod.splits sum.splits if_splits)
  then have "errs1 = []" by (auto simp: noteError_def split: sum.splits)
  with startEach_result [OF errs(1)] errs(3) show ?thesis by (auto simp: fold_deleteTarget)
qed

interpretation gone: release_finalizer api "releaseGroup api" "dropGroupFinalizer api"
    "\<lambda>g. UpdateGroup (groupWithoutFinalizer g)" "\<lambda>g. ReleaseFinalizer \<in> set (gFinalizers g)" "finalizeGroup api"
proof
  show "trace w' = trace w @ [UpdateGroup (groupWithoutFinalizer g)]"
    if "run_state (dropGroupFinalizer api g) w = (r, w')" for g r w w'
    using that by (auto simp: dropGroupFinalizer_def act_def forgetAnnounced_def split: prod.splits sum.splits)
qed (simp add: finalizeGroup_def)

subsection \<open>Properties\<close>

text \<open>A cluster with the group \<open>stagedGroup\<close>; and one whose Deployments cannot be listed.\<close>

definition groupApi :: "unit api" where
  "groupApi = quietApi\<lparr>getGroup := \<lambda>_ _. State_Monad.return (Inr stagedGroup),
     listGroups := \<lambda>_. State_Monad.return (Inr [stagedGroup])\<rparr>"

definition brokenApi :: "unit api" where
  "brokenApi = groupApi\<lparr>listDeployments := \<lambda>_. State_Monad.return (Inl (Api (OtherError ''down''))),
     getGroup := \<lambda>_ _. State_Monad.return (Inl (Api (OtherError ''down'')))\<rparr>"

text \<open>The group while it is down, with the namespace old it still manages.\<close>

definition shrunkGroup :: ScalingGroup where
  "shrunkGroup = groupMapStatus (\<lambda>st. st\<lparr>gPhase := PhaseScaledDown, ManagedNamespaces := [''old'', ''shop''],
     gOriginalReplicas := [(''old/Deployment/web'', 2)]\<rparr>) stagedGroup"

definition blockedPlan :: GroupPlan where
  "blockedPlan = \<lparr>pDecision = plainDecision True ModeManualUp None, RequiredBy = [], WaitingFor = [''db''],
     MissingDependencies = [], InCycle = False, ConflictingNamespaces = [], pNamespaceOwners = Map.empty,
     Owners = Map.empty, ExceptionProblems = []\<rparr>"

lemma groupApi_simps:
  "getsItself groupApi" "Inr g \<in> set_state (getGroup groupApi ns name) \<longleftrightarrow> g = stagedGroup"
  by (auto simp: getsItself_def groupApi_def quietApi_def set_state_iff)



text \<open>A group whose plan is blocked on dependencies and which is not up yet changes nothing: a
  reconcile writes its status, which then says that it waits, and comes back in ten seconds.\<close>

theorem actOnPlan_waits:
  assumes "run_state (actOnPlan api g before plan) w = (r, w')"
    and "BlockedOnDependencies plan" "gPhase (Status g) \<noteq> PhaseScaledUp"
  shows "(r = Inr (10 * second) \<or> (\<exists>e. r = Inl e)) \<and>
    (trace w' = trace w \<or> (\<exists>h. trace w' = trace w @ [UpdateGroupStatus h]
       \<and> gPhase (Status h) = PhaseWaitingForDependencies \<and> Spec h = Spec g))"
proof -
  from assms have "run_state (waitForDependencies api g before plan) w = (r, w')" by (simp add: actOnPlan_def)
  from givesD [OF waitForDependencies_gives this] obtain cs where cs: "trace w' = trace w @ cs"
    "(r = Inr (10 * second) \<or> (\<exists>e. r = Inl e)) \<and>
       (cs = [] \<or> (\<exists>h. cs = [UpdateGroupStatus h] \<and> gPhase (Status h) = PhaseWaitingForDependencies \<and> Spec h = Spec g))" .
  then show ?thesis by (cases "cs = []") auto
qed

lemma actOnPlan_waits_witness:
  "\<exists>r w'. run_state (actOnPlan groupApi stagedGroup (Status stagedGroup) blockedPlan) freshWorld = (r, w')
     \<and> (r = Inr (10 * second) \<or> (\<exists>e. r = Inl e))"
proof -
  obtain r w' where run: "run_state (actOnPlan groupApi stagedGroup (Status stagedGroup) blockedPlan) freshWorld = (r, w')" by fastforce
  have "BlockedOnDependencies blockedPlan" "gPhase (Status stagedGroup) \<noteq> PhaseScaledUp"
    by (simp_all add: BlockedOnDependencies_def blockedPlan_def stagedGroup_def)
  from actOnPlan_waits [OF run this] run show ?thesis by blast
qed

text \<open>C21. A namespace that left the group and could not be given back is not lost: the group goes on
  managing it, the next reconcile finds it again, and its replica counts stay as they were.\<close>

theorem release_tries_again:
  assumes "run_state (planFor api g) w0 = (Inr plan, w1)"
    and "run_state (release api g departed plan) w = ((g', unreleased), w')"
    and "distinct departed" "\<forall>n \<in> set departed. CHR ''/'' \<notin> set n"
    and "ns \<in> set unreleased" "ns \<notin> set (Members g)"
  shows "ns \<in> set (removedNamespaces (groupMapStatus (\<lambda>st. st\<lparr>ManagedNamespaces := managedNamespaces g' plan unreleased\<rparr>) g') [])
    \<and> map_of (namespaceOriginals g' ns) = map_of (namespaceOriginals g ns)"
proof -
  note res = release_result [OF assms(2-4)]
  have "set (ConflictingNamespaces plan) \<subseteq> set (Members g)"
    using planFor_there [of api g] assms(1) unfolding yields_def by blast
  with assms(5,6) have "ns \<in> set (managedNamespaces g' plan unreleased)" by (auto simp: managedNamespaces_def)
  moreover have "Members (groupMapStatus (\<lambda>st. st\<lparr>ManagedNamespaces := m\<rparr>) g') = Members g" for m
    unfolding res(2) [symmetric] by (simp add: Members_def)
  moreover have "CHR ''/'' \<notin> set ns" using assms(4,5) res(1) by blast
  with res(3) assms(5) have "map_of (namespaceOriginals g' ns) = map_of (namespaceOriginals g ns)" by blast
  ultimately show ?thesis using assms(6) by (simp add: removedNamespaces_def Let_def)
qed

lemma brokenApi_simps:
  "run_state (listDeployments brokenApi ns) x = (Inl (Api (OtherError ''down'')), x)"
  "run_state (getGroup brokenApi ns name) x = (Inl (Api (OtherError ''down'')), x)"
  "run_state (listConfigs brokenApi n) x = (Inr [], x)"
  "set_state (listGroups brokenApi n) = {Inr [stagedGroup]}"
  by (auto simp: brokenApi_def groupApi_def quietApi_def set_state_iff)

lemma broken_release:
  assumes "scaledByThem rules" "\<not> rDryRun rules" "rHibernate rules = []"
  shows "\<exists>e w'. run_state (releaseNamespace brokenApi ns rules) w = (Inl e, w')"
proof -
  have "run_state (listScalableResources brokenApi ns ex) w = (Inl (Api (OtherError ''down'')), w)" for ex w
    by (simp add: listScalableResources_def attempt_def ask_def brokenApi_simps)
  then have "\<exists>e w'. run_state (releaseScaled brokenApi ns rules) w = (Inl e, w')"
    by (simp add: releaseScaled_def ReleaseServices_def HibernateTargets_def assms(3) wrapped_def attempt_def
        ScaleTarget_def scaleWorkloads_def)
  with assms(1,2) show ?thesis by (auto simp: releaseNamespace_def attempt_def)
qed

lemma broken_giveBack: "\<exists>e w'. run_state (giveBack brokenApi shrunkGroup ns) w = (Inl e, w')"
proof -
  obtain rules w1 where r: "run_state (rulesFor brokenApi shrunkGroup ns) w = (rules, w1)" by fastforce
  then have "scaledByThem rules" "\<not> rDryRun rules" "rHibernate rules = []"
    by (auto simp: rulesFor_def workloadRules_def ask_def brokenApi_simps shrunkGroup_def stagedGroup_def phaseReachedByScaling_def Let_def)
  from broken_release [OF this, of ns w1] r show ?thesis by (simp add: giveBack_def)
qed

lemma broken_releaseOne: "\<exists>w'. run_state (releaseOne brokenApi plan shrunkGroup ''old'') w = (Kept, w')"
proof -
  have "run_state (handOver brokenApi shrunkGroup ns owner) w =
      (Inl (Wrap (''read group '' @ owner) (Api (OtherError ''down''))), w)" for ns owner
    by (simp add: handOver_def attempt_def wrapped_def ask_def brokenApi_simps)
  moreover have "wasManaged shrunkGroup ''old''" by (simp add: wasManaged_def shrunkGroup_def)
  ultimately show ?thesis
    using broken_giveBack [of "''old''" w] by (auto simp: releaseOne_def Let_def split: option.split)
qed

lemma release_tries_again_witness:
  "\<exists>plan w1 g' unreleased w'. run_state (planFor brokenApi shrunkGroup) freshWorld = (Inr plan, w1)
     \<and> run_state (release brokenApi shrunkGroup [''old''] plan) freshWorld = ((g', unreleased), w')
     \<and> ''old'' \<in> set (removedNamespaces (groupMapStatus (\<lambda>st. st\<lparr>ManagedNamespaces := managedNamespaces g' plan unreleased\<rparr>) g') [])"
proof -
  obtain res w1 where p: "run_state (planFor brokenApi shrunkGroup) freshWorld = (res, w1)" by fastforce
  with planFor_there [of brokenApi shrunkGroup] obtain plan where plan: "res = Inr plan"
    unfolding yields_def brokenApi_simps by blast
  obtain w' where "run_state (releaseOne brokenApi plan shrunkGroup ''old'') freshWorld = (Kept, w')"
    using broken_releaseOne by blast
  then have rel: "run_state (release brokenApi shrunkGroup [''old''] plan) freshWorld = ((shrunkGroup, [''old'']), w')"
    by (simp add: release_def)
  have "''old'' \<notin> set (Members shrunkGroup)" by (simp add: set_Members shrunkGroup_def stagedGroup_def)
  with release_tries_again [OF p [unfolded plan] rel, of "''old''"] p plan rel show ?thesis by auto
qed

text \<open>C22. The finalizer of a deleted group goes only once every cloud target it stopped runs again,
  or when its deletion is ten minutes old; until then a reconcile comes back in fifteen seconds.\<close>

theorem finalizeGroup_starts_targets:
  assumes "getsItself api" "ReleaseFinalizer \<in> set (gFinalizers g)"
    and "run_state (finalizeGroup api g deletedAt) w = (r, w')"
  shows "\<exists>cs. (\<forall>c \<in> set cs. backChange api c \<or> startsTarget c) \<and>
    (trace w' = trace w @ cs \<and> r = Inr releaseRetry
     \<or> (\<exists>h. trace w' = trace w @ cs @ [UpdateGroup (groupWithoutFinalizer h)]
          \<and> (StoppedExternalTargets (Status h) = []
             \<or> (\<exists>now \<in> set_state (clockNow api). giveUpOnRelease deletedAt now))))"
proof -
  obtain h res w1 where rel: "run_state (releaseGroup api g) w = ((h, res), w1)" by (metis prod.exhaust)
  obtain cs where cs: "trace w1 = trace w @ cs" "\<forall>c \<in> set cs. backChange api c \<or> startsTarget c"
    using onlyD [OF releaseGroup_only [OF assms(1)] rel] by blast
  have "res = Inr () \<Longrightarrow> StoppedExternalTargets (Status h) = []" using releaseGroup_finished rel by blast
  with gone.ends [OF assms(2,3) rel] cs show ?thesis by auto
qed

lemma finalizeGroup_starts_targets_witness:
  "\<exists>r w'. run_state (finalizeGroup groupApi stagedGroup 0) freshWorld = (r, w')
     \<and> (r = Inr releaseRetry \<or> (\<exists>h. UpdateGroup (groupWithoutFinalizer h) \<in> set (trace w')))"
proof -
  obtain r w' where run: "run_state (finalizeGroup groupApi stagedGroup 0) freshWorld = (r, w')" by fastforce
  have "ReleaseFinalizer \<in> set (gFinalizers stagedGroup)" by (simp add: stagedGroup_def)
  from finalizeGroup_starts_targets [OF groupApi_simps(1) this run] run show ?thesis by auto
qed

subsection \<open>A dry run that acts\<close>

text \<open>A group in a dry run that took its stopped database out of the sequence: a reconcile starts the
  database, although a dry run is to scale nothing.\<close>

definition dryGroup :: ScalingGroup where
  "dryGroup = groupMapStatus (\<lambda>st. st\<lparr>StoppedExternalTargets := [shopDatabase]\<rparr>)
     (stagedGroup\<lparr>Spec := (Spec stagedGroup)\<lparr>gDryRun := True, gSequence := []\<rparr>\<rparr>)"

definition dryApi :: "unit api" where
  "dryApi = quietApi\<lparr>getGroup := \<lambda>_ _. State_Monad.return (Inr dryGroup), listGroups := \<lambda>_. State_Monad.return (Inr [dryGroup])\<rparr>"

lemma dryApi_simps:
  "getsItself dryApi" "set_state (listGroups dryApi n) = {Inr [dryGroup]}"
  "run_state (findProvider dryApi p) x = (Inr (), x)" "run_state (providerScale dryApi t b) x = (Inr (), x)"
  "run_state (providerReady dryApi t b) x = (Inr True, x)"
  "run_state (getGroup dryApi ns name) x = (Inr dryGroup, x)"
  by (auto simp: getsItself_def dryApi_def quietApi_def set_state_iff)

lemma dry_start:
  assumes "StoppedExternalTargets (Status g) = [shopDatabase]" "gSequence (Spec g) = []"
  shows "\<exists>h. run_state (releaseExternalTargets dryApi g) w = (h, w\<lparr>trace := trace w @ [ScaleExternal shopDatabase True]\<rparr>)"
  by (simp add: releaseExternalTargets_def sequencedExternalTargets_def assms scaleExternalTarget_def ask_def act_def dryApi_simps
      list_ex_iff)

lemma dry_run_starts_a_target:
  "gDryRun (Spec dryGroup)
   \<and> ScaleExternal shopDatabase True \<in> set (trace (snd (run_state (ReconcileGroup dryApi ''costdeck'' ''web'') freshWorld)))"
proof -
  have g: "NamespaceSelector (Spec dryGroup) = None" "SelectedNamespaces (Status dryGroup) = []"
    "ManagedNamespaces (Status dryGroup) = []" "gOriginalReplicas (Status dryGroup) = []"
    "StoppedExternalTargets (Status dryGroup) = [shopDatabase]" "gSequence (Spec dryGroup) = []" "gDryRun (Spec dryGroup)"
    "gDeleted dryGroup = None" "ReleaseFinalizer \<in> set (gFinalizers dryGroup)"
    by (simp_all add: dryGroup_def stagedGroup_def groupMapStatus_def)
  obtain res w1 where p: "run_state (planFor dryApi dryGroup) freshWorld = (res, w1)" by fastforce
  with planFor_there [of dryApi dryGroup] obtain plan where plan: "res = Inr plan"
    unfolding yields_def dryApi_simps by blast
  define m where "m = managedNamespaces dryGroup plan []"
  obtain h where h: "run_state (releaseExternalTargets dryApi (groupMapStatus (\<lambda>st. st\<lparr>ManagedNamespaces := m\<rparr>) dryGroup)) w1 =
      (h, w1\<lparr>trace := trace w1 @ [ScaleExternal shopDatabase True]\<rparr>)"
    using dry_start [of "groupMapStatus (\<lambda>st. st\<lparr>ManagedNamespaces := m\<rparr>) dryGroup" w1] g(5,6) by auto
  obtain r w3 where r: "run_state (followPlan dryApi h (Status dryGroup) plan) (w1\<lparr>trace := trace w1 @ [ScaleExternal shopDatabase True]\<rparr>) = (r, w3)"
    by fastforce
  have "run_state (ReconcileGroup dryApi ''costdeck'' ''web'') freshWorld = (r, w3)"
    using p plan h r g(1-4,8,9)
    by (simp add: ReconcileGroup_def handleGroupDeletion_def reconcileGroup_def selectNamespaces_def removedNamespaces_def
        release_def attempt_def ask_def dryApi_simps Let_def List.map_filter_simps m_def freshWorld_def)
  moreover obtain cs where "trace w3 = (trace w1 @ [ScaleExternal shopDatabase True]) @ cs"
    using givesD [OF followPlan_gives [OF dryApi_simps(1) refl] r] by auto
  ultimately show ?thesis using g(7) by simp
qed

end
