(* ===== verification/Suggest.thy ===== *)
theory Suggest
  imports Complex_Main Schedule
begin

section \<open>Suggested schedules (internal/scaling/suggest.go)\<close>

text \<open>
  A schedule suggested from the CPU use of a namespace: the hours of the week it is busy and an
  hour on either side. Usage is a rational number, where the code has a \<open>float64\<close>; what a
  quantity stands for is apimachinery's to say and a parameter. The lemmas show that the
  suggested windows, read back by the engine, are open exactly in the hours they are made
  from and in the minute that ends them.
\<close>

datatype suggestReason = SuggestPattern | SuggestSteady | SuggestIdle | SuggestInsufficient

type_synonym hours = "int \<Rightarrow> int \<Rightarrow> bool"

record Suggestion =
  sgReason :: suggestReason
  sgSchedules :: "ScalingSchedule list"
  sgUpShare :: rat
  sgBusy :: hours
  sgUp :: hours
  sgDays :: int
  sgTimezone :: string

record MetricDataPoint =
  mpTimestamp :: time
  mpUsage :: string

abbreviation minSuggestPoints :: nat where "minSuggestPoints \<equiv> 24"
definition idleCores :: rat where "idleCores = 5 / 1000"
definition minBusySpan :: rat where "minBusySpan = 1 / 100"
definition busyShare :: rat where "busyShare = 1 / 4"
definition steadyUpShare :: rat where "steadyUpShare = 85 / 100"

subsection \<open>Windows\<close>

text \<open>The hour after the run of up hours that starts at \<open>h\<close>, and the runs from \<open>h\<close> on, as
  hours from and, exclusive, to.\<close>

function runEnd :: "(int \<Rightarrow> bool) \<Rightarrow> int \<Rightarrow> int" where
  "runEnd u h = (if h < 24 \<and> u h then runEnd u (h + 1) else h)"
  by auto
termination by (relation "measure (\<lambda>(u, h). nat (24 - h))") auto

declare runEnd.simps [simp del]

lemma runEnd_ge: "h \<le> runEnd u h"
proof (induction u h rule: runEnd.induct)
  case (1 u h)
  then show ?case by (subst runEnd.simps) auto
qed

function spans :: "(int \<Rightarrow> bool) \<Rightarrow> int \<Rightarrow> (int \<times> int) list" where
  "spans u h =
     (if 24 \<le> h then []
      else if \<not> u h then spans u (h + 1)
      else (h, runEnd u h) # spans u (runEnd u h + 1))"
  by auto
termination
proof (relation "measure (\<lambda>(u, h). nat (24 - h))")
  fix u :: "int \<Rightarrow> bool" and h
  assume "\<not> 24 \<le> h" "\<not> \<not> u h"
  with runEnd_ge [of h u] show "((u, runEnd u h + 1), u, h) \<in> measure (\<lambda>(u, h). nat (24 - h))" by simp
qed auto

declare spans.simps [simp del]

definition twoDigits :: "int \<Rightarrow> string" where
  "twoDigits n = [digitChar (nat (n div 10)), digitChar (nat (n mod 10))]"

definition onTheHour :: "int \<Rightarrow> string" where
  "onTheHour h = twoDigits h @ '':00''"

definition spanSchedule :: "string \<Rightarrow> int list \<Rightarrow> int \<times> int \<Rightarrow> ScalingSchedule" where
  "spanSchedule tz days sp =
     \<lparr>Days = days, StartDay = None, EndDay = None, StartTime = onTheHour (fst sp),
      EndTime = (if snd sp = 24 then ''23:59'' else onTheHour (snd sp)), Timezone = tz\<rparr>"

text \<open>Days are grouped by their spans, in the order of the first day that has them.\<close>

definition weekdays :: "int list" where "weekdays = [0, 1, 2, 3, 4, 5, 6]"

definition spanKeys :: "hours \<Rightarrow> (int \<times> int) list list" where
  "spanKeys up = rev (remdups (rev (filter (\<lambda>k. k \<noteq> []) (map (\<lambda>d. spans (up d) 0) weekdays))))"

definition windows :: "hours \<Rightarrow> string \<Rightarrow> ScalingSchedule list" where
  "windows up tz =
     concat (map (\<lambda>key. map (spanSchedule tz (filter (\<lambda>d. spans (up d) 0 = key) weekdays)) key) (spanKeys up))"

subsection \<open>SuggestSchedule\<close>

definition percentile :: "rat list \<Rightarrow> rat \<Rightarrow> rat" where
  "percentile values p =
     (if values = [] then 0 else values ! nat \<lfloor>p * of_nat (length values - 1)\<rfloor>)"

definition samplesOf :: "(string \<Rightarrow> rat option) \<Rightarrow> MetricDataPoint list \<Rightarrow> duration \<Rightarrow> (time \<times> rat) list" where
  "samplesOf quantity points step =
     List.map_filter (\<lambda>p. map_option (\<lambda>q. (mpTimestamp p - step, q)) (quantity (mpUsage p))) points"

definition busyHours :: "location \<Rightarrow> rat \<Rightarrow> (time \<times> rat) list \<Rightarrow> hours" where
  "busyHours loc threshold samples d h \<longleftrightarrow>
     list_ex (\<lambda>(t, cores). threshold < cores \<and> weekdayIn loc t = d \<and> hourIn loc t = h) samples"

text \<open>An hour of margin on either side, around the week.\<close>

definition upHours :: "hours \<Rightarrow> hours" where
  "upHours busy d h \<longleftrightarrow>
     (let x = d * 24 + h; before = (x + 167) mod 168; after = (x + 1) mod 168
      in busy d h \<or> busy (before div 24) (before mod 24) \<or> busy (after div 24) (after mod 24))"

definition upCount :: "hours \<Rightarrow> nat" where
  "upCount up = length (filter (\<lambda>(d, h). up d h) (List.product weekdays [0..23]))"

definition SuggestSchedule ::
    "(string \<Rightarrow> rat option) \<Rightarrow> MetricDataPoint list \<Rightarrow> duration \<Rightarrow> location \<Rightarrow> string \<Rightarrow> Suggestion" where
  "SuggestSchedule quantity points step loc locName =
     (let samples = samplesOf quantity points step;
          none = (\<lambda>_ _. False);
          s = \<lparr>sgReason = SuggestInsufficient, sgSchedules = [], sgUpShare = 0, sgBusy = none, sgUp = none,
               sgDays = 0, sgTimezone = locName\<rparr>
      in if length samples < minSuggestPoints then s
         else (let span = fst (last samples) - fst (hd samples);
                   x = of_int span / of_int hour / 24 + 1 / 2 :: rat;
                   s = s\<lparr>sgDays := if x < 0 then - \<lfloor>- x\<rfloor> else \<lfloor>x\<rfloor>\<rparr>;
                   values = sort (map snd samples);
                   low = percentile values (1 / 10); high = last values
               in if high < idleCores then s\<lparr>sgReason := SuggestIdle\<rparr>
                  else if high - low < minBusySpan then s\<lparr>sgReason := SuggestSteady, sgUpShare := 1\<rparr>
                  else (let busy = busyHours loc (low + busyShare * (high - low)) samples;
                            up = upHours busy;
                            share = of_nat (upCount up) / 168;
                            s = s\<lparr>sgBusy := busy, sgUp := up, sgUpShare := share\<rparr>
                        in if steadyUpShare < share then s\<lparr>sgReason := SuggestSteady\<rparr>
                           else s\<lparr>sgReason := SuggestPattern, sgSchedules := windows up locName\<rparr>)))"

subsection \<open>What the spans cover\<close>

lemma runEnd_run: "h \<le> x \<Longrightarrow> x < runEnd u h \<Longrightarrow> x < 24 \<and> u x"
proof (induction u h rule: runEnd.induct)
  case (1 u h)
  show ?case
  proof (cases "h < 24 \<and> u h")
    case True
    with 1 show ?thesis by (cases "x = h") (auto simp: runEnd.simps [of u h])
  next
    case False
    with 1 show ?thesis by (auto simp: runEnd.simps [of u h])
  qed
qed

lemma runEnd_stop: "h \<le> 24 \<Longrightarrow> runEnd u h \<le> 24 \<and> (runEnd u h < 24 \<longrightarrow> \<not> u (runEnd u h))"
proof (induction u h rule: runEnd.induct)
  case (1 u h)
  then show ?case by (cases "h < 24 \<and> u h") (auto simp: runEnd.simps [of u h])
qed

lemma spans_cover:
  "(\<exists>sp \<in> set (spans u h). fst sp \<le> x \<and> x < snd sp) \<longleftrightarrow> h \<le> x \<and> x < 24 \<and> u x"
proof (induction u h rule: spans.induct)
  case (1 u h)
  consider "24 \<le> h" | "h < 24" "\<not> u h" | "h < 24" "u h" by linarith
  then show ?case
  proof cases
    case 1
    then show ?thesis by (simp add: spans.simps [of u h])
  next
    case 2
    then have "h + 1 \<le> x \<longleftrightarrow> h \<le> x" if "u x" using that by (cases "x = h") auto
    with 2 "1.IH"(1) show ?thesis by (auto simp: spans.simps [of u h])
  next
    case 3
    define e where "e = runEnd u h"
    have "h < e" using 3 runEnd_ge [of "h + 1" u] by (simp add: e_def runEnd.simps [of u h])
    moreover have "e \<le> 24 \<and> (e < 24 \<longrightarrow> \<not> u e)" using 3 runEnd_stop [of h u] by (simp add: e_def)
    moreover have "h \<le> x \<Longrightarrow> x < e \<Longrightarrow> x < 24 \<and> u x" using runEnd_run [of h x u] by (simp add: e_def)
    moreover have "e + 1 \<le> x \<longleftrightarrow> e \<le> x" if "x < 24" "u x"
      using that calculation(2) by (cases "x = e") auto
    moreover have "(\<exists>sp \<in> set (spans u (e + 1)). fst sp \<le> x \<and> x < snd sp) \<longleftrightarrow> e + 1 \<le> x \<and> x < 24 \<and> u x"
      using 3 "1.IH"(2) by (simp add: e_def)
    moreover have "spans u h = (h, e) # spans u (e + 1)"
      using 3 by (simp add: spans.simps [of u h] e_def)
    ultimately show ?thesis by (cases "x < e") auto
  qed
qed

lemma spans_bounds:
  "0 \<le> h \<Longrightarrow> sp \<in> set (spans u h) \<Longrightarrow> h \<le> fst sp \<and> fst sp < snd sp \<and> snd sp \<le> 24"
proof (induction u h rule: spans.induct)
  case (1 u h)
  consider "24 \<le> h" | "h < 24" "\<not> u h" | "h < 24" "u h" by linarith
  then show ?case
  proof cases
    case 3
    have "h + 1 \<le> runEnd u h" using 3 runEnd_ge [of "h + 1" u] by (simp add: runEnd.simps [of u h])
    with 3 1 show ?thesis using runEnd_stop [of h u] by (fastforce simp: spans.simps [of u h])
  qed (use 1 in \<open>fastforce simp: spans.simps [of u h]\<close>)+
qed

text \<open>The hour before the end of a span is in it.\<close>

lemma spans_end:
  "(\<exists>sp \<in> set (spans u 0). snd sp = x) \<Longrightarrow> 0 < x \<and> x \<le> 24 \<and> u (x - 1)"
proof -
  assume "\<exists>sp \<in> set (spans u 0). snd sp = x"
  then obtain sp where sp: "sp \<in> set (spans u 0)" "snd sp = x" by blast
  with spans_bounds [of 0 sp u] have b: "0 \<le> fst sp" "fst sp < x" "x \<le> 24" by auto
  with sp have "\<exists>sp \<in> set (spans u 0). fst sp \<le> x - 1 \<and> x - 1 < snd sp" by auto
  with spans_cover [of u 0 "x - 1"] b show ?thesis by auto
qed

subsection \<open>The windows read back\<close>

lemma parse_onTheHour: "0 \<le> h \<Longrightarrow> h < 24 \<Longrightarrow> parseMinutes (onTheHour h) = Some (h * 60)"
proof -
  assume "0 \<le> h" "h < 24"
  then have d: "h div 10 < 10" "0 \<le> h div 10" "h mod 10 < 10" "0 \<le> h mod 10"
    and "h div 10 \<le> 1 \<or> h div 10 = 2 \<and> h mod 10 \<le> 3" by presburger+
  moreover have "isDigit CHR ''0''" "digitVal CHR ''0'' = 0" by (simp_all add: isDigit_def digitVal_def)
  moreover have "10 * (h div 10) + h mod 10 = h" by simp
  ultimately show ?thesis
    by (simp add: onTheHour_def twoDigits_def parseMinutes_def hourDigits_def minuteDigits_def) linarith
qed

lemma parse_lastMinute: "parseMinutes ''23:59'' = Some 1439"
  by (simp add: parseMinutes_def hourDigits_def minuteDigits_def isDigit_def digitVal_def)

lemma spanSchedule_open:
  assumes "0 \<le> fst sp" "fst sp < snd sp" "snd sp \<le> 24"
  shows "scheduleOpen (spanSchedule tz days sp) d m \<longleftrightarrow>
      d \<in> set days \<and> fst sp * 60 \<le> m \<and> m \<le> (if snd sp = 24 then 1439 else snd sp * 60)"
  using assms
  by (auto simp: scheduleOpen_def spanSchedule_def parse_onTheHour parse_lastMinute)

lemma spanSchedule_parses:
  assumes "0 \<le> fst sp" "fst sp < snd sp" "snd sp \<le> 24" "filter isWeekday days \<noteq> []"
  shows "parseWindow (spanSchedule tz days sp) \<noteq> None"
  using assms
  by (auto simp: parseWindow_def spanSchedule_def parse_onTheHour parse_lastMinute Let_def)

lemma set_spanKeys: "set (spanKeys up) = (\<lambda>d. spans (up d) 0) ` set weekdays - {[]}"
  by (auto simp: spanKeys_def)

lemma in_windows:
  "s \<in> set (windows up tz) \<longleftrightarrow>
     (\<exists>d \<in> set weekdays. \<exists>sp \<in> set (spans (up d) 0).
        s = spanSchedule tz (filter (\<lambda>e. spans (up e) 0 = spans (up d) 0) weekdays) sp)"
  unfolding windows_def by (force simp: set_spanKeys)

lemma weekday_in: "isWeekday d \<longleftrightarrow> d \<in> set weekdays"
  by (auto simp: isWeekday_def weekdays_def)

lemma span_minutes:
  fixes m :: int
  assumes "m = 60 * q + r" "0 \<le> r" "r < 60" "a < b" "b \<le> 24" "m < 1440"
  shows "a * 60 \<le> m \<and> m \<le> (if b = 24 then 1439 else b * 60) \<longleftrightarrow> (a \<le> q \<and> q < b) \<or> (r = 0 \<and> b = q)"
proof -
  have "a * 60 \<le> m \<longleftrightarrow> a \<le> q" using assms(1-3) by linarith
  moreover have "m \<le> b * 60 \<longleftrightarrow> q < b \<or> (r = 0 \<and> b = q)" using assms(1-3) by linarith
  ultimately show ?thesis using assms by (cases "b = 24") auto
qed

lemma windows_open:
  assumes "isWeekday d" "0 \<le> m" "m < minutesPerDay"
  shows "(\<exists>s \<in> set (windows up tz). scheduleOpen s d m) \<longleftrightarrow>
    up d (m div 60) \<or> m mod 60 = 0 \<and> 0 < m \<and> up d (m div 60 - 1)"
proof -
  have d: "d \<in> set weekdays" using assms(1) by (simp only: weekday_in)
  have b: "0 \<le> fst sp \<and> fst sp < snd sp \<and> snd sp \<le> 24" if "sp \<in> set (spans u 0)" for u sp
    using spans_bounds [of 0 sp u] that by simp
  have "(\<exists>s \<in> set (windows up tz). scheduleOpen s d m) \<longleftrightarrow>
      (\<exists>e \<in> set weekdays. \<exists>sp \<in> set (spans (up e) 0). spans (up d) 0 = spans (up e) 0
         \<and> fst sp * 60 \<le> m \<and> m \<le> (if snd sp = 24 then 1439 else snd sp * 60))"
  proof
    assume "\<exists>s \<in> set (windows up tz). scheduleOpen s d m"
    then obtain s where s: "s \<in> set (windows up tz)" "scheduleOpen s d m" by blast
    from s(1) [unfolded in_windows] s(2)
    obtain e sp where e: "e \<in> set weekdays" "sp \<in> set (spans (up e) 0)"
      and "scheduleOpen (spanSchedule tz (filter (\<lambda>x. spans (up x) 0 = spans (up e) 0) weekdays) sp) d m" by blast
    with b [OF e(2)] have "spans (up d) 0 = spans (up e) 0 \<and> fst sp * 60 \<le> m
        \<and> m \<le> (if snd sp = 24 then 1439 else snd sp * 60)"
      by (simp add: spanSchedule_open)
    with e show "\<exists>e \<in> set weekdays. \<exists>sp \<in> set (spans (up e) 0). spans (up d) 0 = spans (up e) 0
         \<and> fst sp * 60 \<le> m \<and> m \<le> (if snd sp = 24 then 1439 else snd sp * 60)" by blast
  next
    assume "\<exists>e \<in> set weekdays. \<exists>sp \<in> set (spans (up e) 0). spans (up d) 0 = spans (up e) 0
         \<and> fst sp * 60 \<le> m \<and> m \<le> (if snd sp = 24 then 1439 else snd sp * 60)"
    then obtain e sp where e: "e \<in> set weekdays" "sp \<in> set (spans (up e) 0)" "spans (up d) 0 = spans (up e) 0"
      "fst sp * 60 \<le> m" "m \<le> (if snd sp = 24 then 1439 else snd sp * 60)" by blast
    then have "scheduleOpen (spanSchedule tz (filter (\<lambda>x. spans (up x) 0 = spans (up e) 0) weekdays) sp) d m"
      using b [OF e(2)] d by (auto simp: spanSchedule_open)
    with e(1,2) show "\<exists>s \<in> set (windows up tz). scheduleOpen s d m" unfolding Bex_def in_windows by blast
  qed
  also have "\<dots> \<longleftrightarrow> (\<exists>sp \<in> set (spans (up d) 0).
         fst sp * 60 \<le> m \<and> m \<le> (if snd sp = 24 then 1439 else snd sp * 60))"
    using d by metis
  also have "\<dots> \<longleftrightarrow> (\<exists>sp \<in> set (spans (up d) 0). fst sp \<le> m div 60 \<and> m div 60 < snd sp)
      \<or> m mod 60 = 0 \<and> (\<exists>sp \<in> set (spans (up d) 0). snd sp = m div 60)"
  proof -
    have eq: "fst sp * 60 \<le> m \<and> m \<le> (if snd sp = 24 then 1439 else snd sp * 60) \<longleftrightarrow>
        (fst sp \<le> m div 60 \<and> m div 60 < snd sp) \<or> (m mod 60 = 0 \<and> snd sp = m div 60)"
      if "sp \<in> set (spans (up d) 0)" for sp
    proof (rule span_minutes)
      show "m = 60 * (m div 60) + m mod 60" "0 \<le> m mod 60" "m mod 60 < 60" by simp_all
    qed (use b [OF that] assms(3) in simp_all)
    have "(\<exists>sp \<in> S. P sp) \<longleftrightarrow> (\<exists>sp \<in> S. A sp) \<or> z \<and> (\<exists>sp \<in> S. B sp)"
      if "\<And>sp. sp \<in> S \<Longrightarrow> P sp \<longleftrightarrow> A sp \<or> z \<and> B sp" for S :: "(int \<times> int) set" and P A B z
      using that by blast
    from this [OF eq] show ?thesis .
  qed
  also have "\<dots> \<longleftrightarrow> up d (m div 60) \<or> m mod 60 = 0 \<and> 0 < m \<and> up d (m div 60 - 1)"
  proof -
    have "m div 60 < 24" "0 \<le> m div 60" using assms(2,3) by auto
    then have "(\<exists>sp \<in> set (spans (up d) 0). fst sp \<le> m div 60 \<and> m div 60 < snd sp) \<longleftrightarrow> up d (m div 60)"
      by (simp add: spans_cover)
    moreover have "(\<exists>sp \<in> set (spans (up d) 0). snd sp = m div 60) \<Longrightarrow> 0 < m div 60 \<and> up d (m div 60 - 1)"
      using spans_end by blast
    moreover have "(\<exists>sp \<in> set (spans (up d) 0). fst sp \<le> m div 60 \<and> m div 60 < snd sp)
        \<or> (\<exists>sp \<in> set (spans (up d) 0). snd sp = m div 60)"
      if "0 < m div 60" "up d (m div 60 - 1)"
    proof -
      have "\<exists>sp \<in> set (spans (up d) 0). fst sp \<le> m div 60 - 1 \<and> m div 60 - 1 < snd sp"
        using that \<open>m div 60 < 24\<close> spans_cover [of "up d" 0 "m div 60 - 1"] by simp
      then show ?thesis by force
    qed
    moreover have "0 < m div 60 \<longleftrightarrow> 0 < m" if "m mod 60 = 0"
      using that assms(2) by (auto simp: pos_imp_zdiv_pos_iff)
    ultimately show ?thesis by metis
  qed
  finally show ?thesis .
qed

lemma windows_usable:
  assumes "isWeekday d" "0 \<le> h" "h < 24" "up d h"
  shows "hasUsableSchedule (windows up tz)"
proof -
  have d: "d \<in> set weekdays" using assms(1) by (simp only: weekday_in)
  from assms obtain sp where sp: "sp \<in> set (spans (up d) 0)" using spans_cover [of "up d" 0 h] by auto
  let ?s = "spanSchedule tz (filter (\<lambda>e. spans (up e) 0 = spans (up d) 0) weekdays) sp"
  have "d \<in> set (filter isWeekday (filter (\<lambda>e. spans (up e) 0 = spans (up d) 0) weekdays))"
    using d assms(1) by simp
  then have "filter isWeekday (filter (\<lambda>e. spans (up e) 0 = spans (up d) 0) weekdays) \<noteq> []"
    by (metis empty_iff empty_set)
  then have "parseWindow ?s \<noteq> None"
    using spans_bounds [of 0 sp "up d"] sp by (intro spanSchedule_parses) auto
  moreover have "?s \<in> set (windows up tz)" unfolding in_windows using d sp by blast
  ultimately show ?thesis by (auto simp: hasUsableSchedule_def list_ex_iff)
qed

lemma windows_parse: "s \<in> set (windows up tz) \<Longrightarrow> scheduleOpen s d m \<Longrightarrow> parseWindow s \<noteq> None"
proof -
  assume s: "s \<in> set (windows up tz)" "scheduleOpen s d m"
  then obtain e sp where e: "e \<in> set weekdays" "sp \<in> set (spans (up e) 0)"
    and s': "s = spanSchedule tz (filter (\<lambda>x. spans (up x) 0 = spans (up e) 0) weekdays) sp"
    unfolding in_windows by blast
  have "e \<in> set (filter isWeekday (filter (\<lambda>x. spans (up x) 0 = spans (up e) 0) weekdays))"
    using e(1) by (simp add: weekday_in)
  then have "filter isWeekday (filter (\<lambda>x. spans (up x) 0 = spans (up e) 0) weekdays) \<noteq> []"
    by (metis empty_iff empty_set)
  then show ?thesis
    unfolding s' using spans_bounds [of 0 sp "up e"] e(2) by (intro spanSchedule_parses) auto
qed

lemma dayMinute_split: "dayMinute loc t div 60 = hourIn loc t" "dayMinute loc t mod 60 = minuteIn loc t"
proof -
  have "0 \<le> minuteIn loc t \<and> minuteIn loc t < 60" by (simp add: minuteIn_def pos_imp_zdiv_nonneg_iff)
  then show "dayMinute loc t div 60 = hourIn loc t" "dayMinute loc t mod 60 = minuteIn loc t"
    by (simp_all add: dayMinute_def)
qed

lemma windows_active:
  assumes "isWeekday d" "0 \<le> h" "h < 24" "up d h"
  shows "IsActiveAt zi now (windows up tz) None \<longleftrightarrow>
    (let loc = loadLocation zi tz
     in up (weekdayIn loc now) (hourIn loc now)
        \<or> minuteIn loc now = 0 \<and> 0 < dayMinute loc now \<and> up (weekdayIn loc now) (hourIn loc now - 1))"
proof -
  define loc where "loc = loadLocation zi tz"
  have tz: "Timezone s = tz" if "s \<in> set (windows up tz)" for s
    using that unfolding in_windows by (auto simp: spanSchedule_def)
  have "IsActiveAt zi now (windows up tz) None \<longleftrightarrow>
      (\<exists>s \<in> set (windows up tz). parseWindow s \<noteq> None \<and>
        scheduleOpen s (weekdayIn (loadLocation zi (Timezone s)) now) (dayMinute (loadLocation zi (Timezone s)) now))"
    using scheduleLoop_spec [of zi now False "windows up tz"] windows_usable [of d h up tz, OF assms] by simp
  also have "\<dots> \<longleftrightarrow> (\<exists>s \<in> set (windows up tz). scheduleOpen s (weekdayIn loc now) (dayMinute loc now))"
    by (intro bex_cong refl) (auto simp: tz loc_def dest: windows_parse)
  also have "\<dots> \<longleftrightarrow> up (weekdayIn loc now) (hourIn loc now)
        \<or> minuteIn loc now = 0 \<and> 0 < dayMinute loc now \<and> up (weekdayIn loc now) (hourIn loc now - 1)"
    using windows_open [of "weekdayIn loc now" "dayMinute loc now" up tz] weekday_range [of loc now] dayMinute_range [of loc now]
    by (simp add: isWeekday_def dayMinute_split)
  finally show ?thesis by (simp only: loc_def Let_def)
qed

subsection \<open>Properties\<close>

text \<open>The hour of the week of an instant.\<close>

definition weekHour :: "location \<Rightarrow> time \<Rightarrow> int" where
  "weekHour loc t = weekdayIn loc t * 24 + hourIn loc t"

lemma circle_neighbours:
  assumes "0 \<le> x" "x < 168" "0 \<le> y" "y < (168::int)" "(x - y) mod 168 \<in> {0, 1, 167}"
  shows "x = y \<or> (x + 167) mod 168 = y \<or> (x + 1) mod 168 = y"
proof -
  define k where "k = (x - y) div 168"
  have eq: "x - y = 168 * k + (x - y) mod 168" by (simp add: k_def)
  have "- 168 < x - y" "x - y < 168" using assms(1-4) by linarith+
  then have "k = 0 \<or> k = - 1" using eq assms(5) by auto
  with eq assms consider "x = y" | "x = y + 1" | "x = y - 167" "y = 167" | "x = y - 1" | "x = y + 167" "y = 0"
    by auto
  then show ?thesis using assms(1-4) by cases auto
qed

text \<open>A suggested schedule keeps the busy hours up with an hour of margin: at every instant whose
  hour of the week is one with a busy sample, the one before or the one after, in the zone the
  samples were read in, the engine reads the suggested schedules as up.\<close>

theorem SuggestSchedule_covers_use:
  assumes "r = SuggestSchedule quantity points step loc locName" "sgReason r = SuggestPattern"
    and "loadLocation zi locName = loc"
    and "sgBusy r d h" "0 \<le> h" "h < 24" "isWeekday d"
    and "(weekHour loc now - (d * 24 + h)) mod 168 \<in> {0, 1, 167}"
  shows "IsActiveAt zi now (sgSchedules r) None"
proof -
  have r: "sgSchedules r = windows (upHours (sgBusy r)) locName"
    using assms(1,2) by (auto simp: SuggestSchedule_def Let_def split: if_splits)
  have range: "0 \<le> hourIn loc now" "hourIn loc now < 24" "isWeekday (weekdayIn loc now)"
    using weekday_range [of loc now] by (auto simp: hourIn_def isWeekday_def pos_imp_zdiv_nonneg_iff)
  define x where "x = weekHour loc now"
  have x: "0 \<le> x" "x < 168" "x div 24 = weekdayIn loc now" "x mod 24 = hourIn loc now"
    using range by (auto simp: x_def weekHour_def isWeekday_def)
  define y where "y = d * 24 + h"
  have y: "0 \<le> y" "y < 168" "y div 24 = d" "y mod 24 = h"
    using assms(5-7) by (auto simp: y_def isWeekday_def)
  have "(x - y) mod 168 \<in> {0, 1, 167}" using assms(8) by (simp add: x_def y_def)
  then have "x = y \<or> (x + 167) mod 168 = y \<or> (x + 1) mod 168 = y"
    by (rule circle_neighbours [OF x(1,2) y(1,2)])
  then have "upHours (sgBusy r) (weekdayIn loc now) (hourIn loc now)"
    using assms(4) y(3,4) x(3,4) by (auto simp: upHours_def Let_def weekHour_def x_def [unfolded weekHour_def, symmetric])
  then show ?thesis
    using windows_active [of "weekdayIn loc now" "hourIn loc now" "upHours (sgBusy r)" zi now locName] range assms(3)
    unfolding r by (simp add: Let_def)
qed

definition oneBusyHour :: "MetricDataPoint list" where
  "oneBusyHour = map (\<lambda>h. \<lparr>mpTimestamp = (h + 1) * hour, mpUsage = if h = 10 then ''1'' else ''0''\<rparr>) [0..23]"

definition wholeCores :: "string \<Rightarrow> rat option" where
  "wholeCores s = map_option of_int (parseInt 32 s)"

definition oneBusySample :: "int \<Rightarrow> time \<times> rat" where
  "oneBusySample h = (h * hour, if h = 10 then 1 else 0)"

lemma oneBusyHour_samples: "samplesOf wholeCores oneBusyHour hour = map oneBusySample [0..23]"
proof -
  have q: "wholeCores ''1'' = Some 1" "wholeCores ''0'' = Some 0"
    by (simp_all add: wholeCores_def) (code_simp+)?
  show ?thesis
    by (simp add: samplesOf_def oneBusyHour_def List.map_filter_def oneBusySample_def q comp_def algebra_simps
        cong: if_cong map_cong)
qed

lemma oneBusyHour_busy:
  "busyHours (\<lambda>_. 0) (1 / 4) (map oneBusySample [0..23]) = (\<lambda>d h. d = 4 \<and> h = 10)"
proof (intro ext)
  fix d h
  have "(\<exists>x \<in> set [0..23]. x = 10 \<and> weekdayIn (\<lambda>_. 0) (x * hour) = d \<and> hourIn (\<lambda>_. 0) (x * hour) = h) \<longleftrightarrow> d = 4 \<and> h = 10"
    by (auto simp: weekdayIn_def hourIn_def localSeconds_def)
  moreover have "(1 / 4 < (if x = 10 then 1 else (0::rat))) \<longleftrightarrow> x = (10::int)" for x by simp
  ultimately show "busyHours (\<lambda>_. 0) (1 / 4) (map oneBusySample [0..23]) d h = (d = 4 \<and> h = 10)"
    by (simp add: busyHours_def list_ex_iff oneBusySample_def)
qed

lemma oneBusyHour_values:
  "sort (map snd (map oneBusySample [0..23])) = replicate 23 0 @ [1]"
  by code_simp

lemma oneBusyHour_up: "upCount (upHours (\<lambda>d h. d = 4 \<and> h = 10)) = 3"
  by code_simp

lemma oneBusyHour_pattern:
  "sgReason (SuggestSchedule wholeCores oneBusyHour hour (\<lambda>_. 0) ''UTC'') = SuggestPattern"
  "sgBusy (SuggestSchedule wholeCores oneBusyHour hour (\<lambda>_. 0) ''UTC'') 4 10"
proof -
  have p: "percentile (replicate 23 0 @ [1]) (1 / 10) = 0"
    by (simp add: percentile_def nth_append floor_divide_of_int_eq [of 23 10, simplified])
  show "sgReason (SuggestSchedule wholeCores oneBusyHour hour (\<lambda>_. 0) ''UTC'') = SuggestPattern"
    "sgBusy (SuggestSchedule wholeCores oneBusyHour hour (\<lambda>_. 0) ''UTC'') 4 10"
    by (simp_all add: SuggestSchedule_def Let_def oneBusyHour_samples oneBusyHour_values p oneBusyHour_busy
        oneBusyHour_up idleCores_def minBusySpan_def busyShare_def steadyUpShare_def del: map_map)
qed

lemma SuggestSchedule_covers_use_witness:
  "IsActiveAt \<lparr>zoneLoad = \<lambda>_. None, zoneLocal = \<lambda>_. 0\<rparr> (9 * hour)
     (sgSchedules (SuggestSchedule wholeCores oneBusyHour hour (\<lambda>_. 0) ''UTC'')) None"
  by (rule SuggestSchedule_covers_use [OF refl oneBusyHour_pattern(1) _ oneBusyHour_pattern(2)])
     (simp_all add: isWeekday_def loadLocation_def weekHour_def weekdayIn_def hourIn_def localSeconds_def)

text \<open>Suggested windows say what the engine reads: for any hours of the week to be up, at least
  one of them, the schedules made from them are up exactly in those hours and in the one
  minute at which a run of them ends before midnight.\<close>

theorem windows_read_back:
  assumes "isWeekday d" "0 \<le> h" "h < 24" "up d h"
  shows "IsActiveAt zi now (windows up tz) None \<longleftrightarrow>
    (let loc = loadLocation zi tz
     in up (weekdayIn loc now) (hourIn loc now)
        \<or> minuteIn loc now = 0 \<and> 0 < dayMinute loc now \<and> up (weekdayIn loc now) (hourIn loc now - 1))"
  by (rule windows_active [of d h up, OF assms])

lemma windows_read_back_witness:
  "IsActiveAt \<lparr>zoneLoad = \<lambda>_. None, zoneLocal = \<lambda>_. 0\<rparr> (10 * hour) (windows (\<lambda>d h. d = 4 \<and> 9 \<le> h \<and> h < 17) ''UTC'') None"
  using windows_read_back [of 4 10 "\<lambda>d h. d = 4 \<and> 9 \<le> h \<and> h < 17" "\<lparr>zoneLoad = \<lambda>_. None, zoneLocal = \<lambda>_. 0\<rparr>" "10 * hour" "''UTC''"]
  by (simp add: isWeekday_def loadLocation_def weekdayIn_def hourIn_def localSeconds_def)

end
