(* ===== verification/Encodings.thy ===== *)
theory Encodings
  imports GoJson "HOL-Library.Word"
begin

section \<open>Text encodings and digests (encoding/base64, encoding/hex, crypto/sha256, crypto/hmac)\<close>

text \<open>
  What the session cookies, the tokens and the keys of the sign-in records are made with: the
  unpadded URL alphabet of base64 and hexadecimal text, over byte strings, and SHA-256 with its
  keyed digest HMAC, over 32-bit words whose additions wrap around. The encodings are proved to
  decode to what was encoded; of the digests nothing is used but that they are functions.
\<close>

unbundle bit_operations_syntax

abbreviation byteOf :: "nat \<Rightarrow> char" where "byteOf n \<equiv> char_of n"

lemma charCode_bound [simp]: "charCode c < 256"
  by (simp add: of_char_def horner_sum_less_eq_iff_lexordp_eq split: char.split)

lemma charCode_byteOf [simp]: "charCode (byteOf n) = n mod 256"
  by (simp add: of_char_of)

subsection \<open>base64.RawURLEncoding\<close>

definition base64Char :: "nat \<Rightarrow> char" where
  "base64Char d =
     (if d < 26 then byteOf (65 + d) else if d < 52 then byteOf (71 + d)
      else if d < 62 then byteOf (d - 4) else if d = 62 then CHR ''-'' else CHR ''_'')"

definition base64Val :: "char \<Rightarrow> nat option" where
  "base64Val c =
     (let n = charCode c
      in if 65 \<le> n \<and> n \<le> 90 then Some (n - 65)
         else if 97 \<le> n \<and> n \<le> 122 then Some (n - 71)
         else if 48 \<le> n \<and> n \<le> 57 then Some (n + 4)
         else if c = CHR ''-'' then Some 62
         else if c = CHR ''_'' then Some 63 else None)"

text \<open>Three bytes are four digits; one or two bytes at the end are two or three digits.\<close>

fun base64Digits :: "nat list \<Rightarrow> nat list" where
  "base64Digits [] = []"
| "base64Digits [a] = [a div 4, a mod 4 * 16]"
| "base64Digits [a, b] = [a div 4, a mod 4 * 16 + b div 16, b mod 16 * 4]"
| "base64Digits (a # b # c # bs) =
     a div 4 # (a mod 4 * 16 + b div 16) # (b mod 16 * 4 + c div 64) # c mod 64 # base64Digits bs"

definition encodeBase64 :: "string \<Rightarrow> string" where
  "encodeBase64 s = map base64Char (base64Digits (map charCode s))"

text \<open>The bits of the last digit that make no byte are ignored; one digit alone is an error.\<close>

fun base64Bytes :: "nat list \<Rightarrow> nat list option" where
  "base64Bytes [] = Some []"
| "base64Bytes [a] = None"
| "base64Bytes [a, b] = Some [a * 4 + b div 16]"
| "base64Bytes [a, b, c] = Some [a * 4 + b div 16, b mod 16 * 16 + c div 4]"
| "base64Bytes (a # b # c # d # ds) =
     map_option (\<lambda>bs. (a * 4 + b div 16) # (b mod 16 * 16 + c div 4) # (c mod 4 * 64 + d) # bs) (base64Bytes ds)"

fun allSome :: "'a option list \<Rightarrow> 'a list option" where
  "allSome [] = Some []"
| "allSome (None # xs) = None"
| "allSome (Some x # xs) = map_option ((#) x) (allSome xs)"

text \<open>Line ends in the text are skipped.\<close>

definition decodeBase64 :: "string \<Rightarrow> string option" where
  "decodeBase64 s =
     map_option (map byteOf)
       (Option.bind (allSome (map base64Val (filter (\<lambda>c. c \<noteq> CHR 0x0A \<and> c \<noteq> CHR 0x0D) s))) base64Bytes)"

lemma allSome_map: "(\<And>x. x \<in> set xs \<Longrightarrow> f x = Some (g x)) \<Longrightarrow> allSome (map f xs) = Some (map g xs)"
  by (induction xs) auto

lemma inj_charCode: "inj charCode"
  by (rule injI) (rule charCode_eq)

lemma base64_code: "d < 64 \<Longrightarrow> charCode (base64Char d) =
    (if d < 26 then 65 + d else if d < 52 then 71 + d else if d < 62 then d - 4 else if d = 62 then 45 else 95)"
  by (simp add: base64Char_def)

lemma base64_char: "d < 64 \<Longrightarrow> base64Val (base64Char d) = Some d"
proof -
  assume d: "d < 64"
  have "base64Char d = CHR ''-'' \<longleftrightarrow> d = 62" "base64Char d = CHR ''_'' \<longleftrightarrow> d = 63"
    using d by (auto simp: inj_eq [OF inj_charCode, symmetric] base64_code split: if_splits)
  then show ?thesis
    using d unfolding base64Val_def Let_def base64_code [OF d] by (auto split: if_splits)
qed

lemma base64_plain: "d < 64 \<Longrightarrow> base64Char d \<notin> {CHR 0x0A, CHR 0x0D, CHR ''.''}"
  using base64_code [of d] by (auto split: if_splits)

lemma base64Digits_bound: "\<forall>b \<in> set bs. b < 256 \<Longrightarrow> \<forall>d \<in> set (base64Digits bs). d < 64"
  by (induction bs rule: base64Digits.induct) auto

lemma digit_pair: "r < m \<Longrightarrow> (q * m + r) div m = q \<and> (q * m + r) mod m = (r :: nat)"
  by simp

lemma base64Bytes_Digits: "\<forall>b \<in> set bs. b < 256 \<Longrightarrow> base64Bytes (base64Digits bs) = Some bs"
proof (induction bs rule: base64Digits.induct)
  case (3 a b)
  then have "b div 16 < 16" by (simp add: less_mult_imp_div_less)
  with digit_pair [OF this, of "a mod 4"] show ?case by simp
next
  case (4 a b c bs)
  then have IH: "base64Bytes (base64Digits bs) = Some bs" and r: "b div 16 < 16" "c div 64 < 4"
    by (simp_all add: less_mult_imp_div_less)
  show ?case
    using IH digit_pair [OF r(1), of "a mod 4"] digit_pair [OF r(2), of "b mod 16"] by simp
qed simp_all

text \<open>Decoding gives back what was encoded, and the text is without dots.\<close>

lemma decode_encode_base64: "decodeBase64 (encodeBase64 s) = Some s"
proof -
  define ds where "ds = base64Digits (map charCode s)"
  have b: "\<forall>d \<in> set ds. d < 64" unfolding ds_def by (rule base64Digits_bound) auto
  have "filter (\<lambda>c. c \<noteq> CHR 0x0A \<and> c \<noteq> CHR 0x0D) (map base64Char ds) = map base64Char ds"
    using b base64_plain by (fastforce simp: filter_id_conv)
  moreover have "allSome (map (base64Val \<circ> base64Char) ds) = Some (map id ds)"
    by (rule allSome_map) (use b base64_char in auto)
  moreover have "base64Bytes ds = Some (map charCode s)"
    unfolding ds_def by (rule base64Bytes_Digits) auto
  ultimately show ?thesis
    by (simp add: decodeBase64_def encodeBase64_def ds_def [symmetric] comp_def)
qed

lemma encodeBase64_no_dot: "CHR ''.'' \<notin> set (encodeBase64 s)"
proof -
  have "\<forall>d \<in> set (base64Digits (map charCode s)). d < 64" by (rule base64Digits_bound) auto
  then show ?thesis using base64_plain by (fastforce simp: encodeBase64_def)
qed

subsection \<open>encoding/hex\<close>

definition encodeHex :: "string \<Rightarrow> string" where
  "encodeHex s = concat (map (\<lambda>c. [hexDigit (charCode c div 16), hexDigit (charCode c mod 16)]) s)"

lemma encodeHex_length [simp]: "length (encodeHex s) = 2 * length s"
  by (induction s) (auto simp: encodeHex_def)

subsection \<open>crypto/sha256\<close>

type_synonym w32 = "32 word"

text \<open>The constants of the standard: the first 32 bits of the fractional parts of the cube roots of the
  first 64 primes, and of the square roots of the first eight.\<close>

definition firstPrimes :: "nat list" where
  "firstPrimes =
    [2, 3, 5, 7, 11, 13, 17, 19, 23, 29, 31, 37, 41, 43, 47, 53,
     59, 61, 67, 71, 73, 79, 83, 89, 97, 101, 103, 107, 109, 113, 127, 131,
     137, 139, 149, 151, 157, 163, 167, 173, 179, 181, 191, 193, 197, 199, 211, 223,
     227, 229, 233, 239, 241, 251, 257, 263, 269, 271, 277, 281, 283, 293, 307, 311]"

text \<open>The integer part of a root, bit by bit from the highest of 40.\<close>

definition intRoot :: "nat \<Rightarrow> nat \<Rightarrow> nat" where
  "intRoot k n = foldl (\<lambda>r i. if (r + 2 ^ i) ^ k \<le> n then r + 2 ^ i else r) 0 (rev [0..<40])"

definition shaConstants :: "w32 list" where
  "shaConstants = map (\<lambda>p. of_nat (intRoot 3 (p * 2 ^ 96))) firstPrimes"

definition shaInit :: "w32 list" where
  "shaInit = map (\<lambda>p. of_nat (intRoot 2 (p * 2 ^ 64))) (take 8 firstPrimes)"

definition rotr :: "nat \<Rightarrow> w32 \<Rightarrow> w32" where
  "rotr n x = drop_bit n x OR push_bit (32 - n) x"

text \<open>The message with a one bit, zeros up to a whole block and its length in bits.\<close>

definition bigEndian :: "nat \<Rightarrow> nat \<Rightarrow> string" where
  "bigEndian k n = map (\<lambda>i. byteOf (n div 256 ^ i)) (rev [0..<k])"

definition shaPad :: "string \<Rightarrow> string" where
  "shaPad s = s @ [CHR 0x80] @ replicate ((119 - length s mod 64) mod 64) (CHR 0x00)
     @ bigEndian 8 (8 * length s)"

fun wordsOf :: "string \<Rightarrow> w32 list" where
  "wordsOf (a # b # c # d # s) =
     of_nat (charCode a * 16777216 + charCode b * 65536 + charCode c * 256 + charCode d) # wordsOf s"
| "wordsOf _ = []"

text \<open>The message schedule: each word after the sixteenth out of four before it.\<close>

fun expand :: "nat \<Rightarrow> w32 list \<Rightarrow> w32 list" where
  "expand 0 w = w"
| "expand (Suc n) w =
     (let i = length w; x = w ! (i - 15); y = w ! (i - 2);
          s0 = rotr 7 x XOR rotr 18 x XOR drop_bit 3 x;
          s1 = rotr 17 y XOR rotr 19 y XOR drop_bit 10 y
      in expand n (w @ [s1 + w ! (i - 7) + s0 + w ! (i - 16)]))"

fun shaRound :: "w32 list \<Rightarrow> w32 \<times> w32 \<Rightarrow> w32 list" where
  "shaRound [a, b, c, d, e, f, g, h] (k, w) =
     (let t1 = h + (rotr 6 e XOR rotr 11 e XOR rotr 25 e) + ((e AND f) XOR (NOT e AND g)) + k + w;
          t2 = (rotr 2 a XOR rotr 13 a XOR rotr 22 a) + ((a AND b) XOR (a AND c) XOR (b AND c))
      in [t1 + t2, a, b, c, d + t1, e, f, g])"
| "shaRound hs _ = hs"

definition shaBlock :: "w32 list \<Rightarrow> w32 list \<Rightarrow> w32 list" where
  "shaBlock hs block = map2 (+) hs (foldl shaRound hs (zip shaConstants (expand 48 block)))"

function shaBlocks :: "w32 list \<Rightarrow> w32 list \<Rightarrow> w32 list" where
  "shaBlocks hs w = (if length w < 16 then hs else shaBlocks (shaBlock hs (take 16 w)) (drop 16 w))"
  by auto
termination by (relation "measure (\<lambda>(_, w). length w)") auto

declare shaBlocks.simps [simp del]

definition sha256 :: "string \<Rightarrow> string" where
  "sha256 s = concat (map (\<lambda>w. bigEndian 4 (unat w)) (shaBlocks shaInit (wordsOf (shaPad s))))"

subsection \<open>crypto/hmac\<close>

definition hmacSHA256 :: "string \<Rightarrow> string \<Rightarrow> string" where
  "hmacSHA256 key msg =
     (let k = (if length key > 64 then sha256 key else key);
          k0 = map charCode (k @ replicate (64 - length k) (CHR 0x00));
          ipad = map (\<lambda>b. byteOf (b XOR 0x36)) k0;
          opad = map (\<lambda>b. byteOf (b XOR 0x5c)) k0
      in sha256 (opad @ sha256 (ipad @ msg)))"

text \<open>Every digest has 32 bytes.\<close>

lemma shaRound_length: "length hs = 8 \<Longrightarrow> length (shaRound hs kw) = 8"
  by (cases "(hs, kw)" rule: shaRound.cases) (auto simp: Let_def)

lemma shaBlock_length: "length hs = 8 \<Longrightarrow> length (shaBlock hs block) = 8"
proof -
  have "length hs = 8 \<Longrightarrow> length (foldl shaRound hs ks) = 8" for hs ks
    by (induction ks arbitrary: hs) (auto simp: shaRound_length)
  then show "length hs = 8 \<Longrightarrow> ?thesis" by (simp add: shaBlock_def)
qed

lemma shaBlocks_length: "length hs = 8 \<Longrightarrow> length (shaBlocks hs w) = 8"
  by (induction hs w rule: shaBlocks.induct) (subst shaBlocks.simps, simp add: shaBlock_length)

lemma sha256_length [simp]: "length (sha256 s) = 32"
proof -
  have "length (concat (map (\<lambda>w. bigEndian 4 (unat w)) ws)) = 4 * length ws" for ws :: "w32 list"
    by (induction ws) (auto simp: bigEndian_def)
  moreover have "length (shaBlocks shaInit w) = 8" for w
    by (rule shaBlocks_length) (simp add: shaInit_def firstPrimes_def)
  ultimately show ?thesis by (simp add: sha256_def)
qed

lemma hmacSHA256_length [simp]: "length (hmacSHA256 key msg) = 32"
  by (simp add: hmacSHA256_def Let_def)

end
