(* ===== verification/StoredText.thy ===== *)
theory StoredText
  imports Encodings
begin

section \<open>Records as JSON text (encoding/json of Go structs)\<close>

text \<open>
  Sessions, users, tokens and sign-ins are kept as the JSON text of a Go struct. Printing one
  writes its fields in their order, leaving out the empty ones of the fields marked so; reading
  one takes each member of the object for the field of that name, or of that name in another
  case, ignores the others and nulls, and lets the last member of a field count. A time is
  printed with its fraction of a second in UTC. What is read is strict about times: the lenient
  forms the library also takes, an hour of one digit or a comma before the fraction, are errors
  here; a number with a fraction reads as its integer part.

  The lemmas build the round trip of a record out of those of its fields (collection
  \<open>field_reads\<close>).
\<close>

named_theorems field_reads

subsection \<open>Times\<close>

text \<open>\<open>Time.MarshalJSON\<close>: RFC 3339 with the fraction of the second, for years of four digits.\<close>

definition fractionText :: "int \<Rightarrow> string" where
  "fractionText n =
     (let f = rev (dropWhile (\<lambda>c. c = CHR ''0'') (rev (padded 9 n)))
      in if f = [] then [] else CHR ''.'' # f)"

definition timeText :: "time \<Rightarrow> string" where
  "timeText t =
     (let s = t div second; (y, m, d) = dateOf (s div 86400); c = s mod 86400
      in padded 4 y @ ''-'' @ padded 2 m @ ''-'' @ padded 2 d @ ''T''
         @ padded 2 (c div 3600) @ '':'' @ padded 2 (c mod 3600 div 60) @ '':'' @ padded 2 (c mod 60)
         @ fractionText (t mod second) @ ''Z'')"

definition hasTimeText :: "time \<Rightarrow> bool" where
  "hasTimeText t \<longleftrightarrow> (let y = yearOf (t div second div 86400) in 0 \<le> y \<and> y \<le> 9999)"

text \<open>\<open>Time.UnmarshalJSON\<close>.\<close>

definition parseFraction :: "string \<Rightarrow> int \<times> string" where
  "parseFraction s =
     (case s of
        c # ds \<Rightarrow> if c = CHR ''.'' \<and> takeWhile isDigit ds \<noteq> []
                  then (int (readNat (take 9 (takeWhile isDigit ds @ replicate 9 (CHR ''0'')))), dropWhile isDigit ds)
                  else (0, s)
      | [] \<Rightarrow> (0, s))"

definition parseZone :: "string \<Rightarrow> int option" where
  "parseZone s =
     (case s of
        [] \<Rightarrow> None
      | c # cs \<Rightarrow>
          if c = CHR ''Z'' then (if cs = [] then Some 0 else None)
          else if c \<noteq> CHR ''+'' \<and> c \<noteq> CHR ''-'' then None
          else Option.bind (getnum True cs) (\<lambda>(h, r).
               Option.bind (skipChar CHR '':'' r) (\<lambda>r1.
               Option.bind (getnum True r1) (\<lambda>(m, r2).
               if 24 \<le> h \<or> 60 \<le> m \<or> r2 \<noteq> [] then None
               else Some ((if c = CHR ''-'' then -1 else 1) * (h * 3600 + m * 60))))))"

definition parseTimeText :: "string \<Rightarrow> time option" where
  "parseTimeText s =
     Option.bind (parseYMD s) (\<lambda>((y, m, d), r).
     Option.bind (skipChar CHR ''T'' r) (\<lambda>r1.
     Option.bind (getnum True r1) (\<lambda>(h, r2).
     Option.bind (skipChar CHR '':'' r2) (\<lambda>r3.
     Option.bind (getnum True r3) (\<lambda>(mi, r4).
     Option.bind (skipChar CHR '':'' r4) (\<lambda>r5.
     Option.bind (getnum True r5) (\<lambda>(se, r6).
     case parseFraction r6 of (ns, r7) \<Rightarrow>
     Option.bind (parseZone r7) (\<lambda>off.
     if 24 \<le> h \<or> 60 \<le> mi \<or> 60 \<le> se \<or> d < 1 \<or> daysIn m y < d then None
     else Some ((dayNumber y m d * 86400 + h * 3600 + mi * 60 + se - off) * second + ns)))))))))"

lemma showNat_length: "n < 10 ^ k \<Longrightarrow> 0 < k \<Longrightarrow> length (showNat n) \<le> k"
proof (induction n arbitrary: k rule: showNat.induct)
  case (1 n)
  show ?case
  proof (cases "n < 10")
    case False
    with 1(2,3) obtain k' where k: "k = Suc k'" "0 < k'" by (cases k; cases "k - 1") auto
    with 1(2) have "n div 10 < 10 ^ k'" by (simp add: less_mult_imp_div_less mult.commute)
    with 1(1) [OF False] k show ?thesis by (simp add: showNat.simps [of n])
  qed (use 1(3) in \<open>simp add: showNat.simps [of n]\<close>)
qed

lemma readNat_zeros: "readNat (replicate j (CHR ''0'') @ s) = readNat s"
  by (induction j) (simp_all add: readNat_def digitVal_def)

text \<open>A padded number is that many digits, and reads back.\<close>

lemma padded_props:
  assumes "0 \<le> n" "n < 10 ^ k" "0 < k"
  shows "length (padded k n) = k" "list_all isDigit (padded k n)" "int (readNat (padded k n)) = n"
proof -
  have i: "itoa n = showNat (nat n)" using assms(1) by (simp add: itoa_def)
  have "nat n < 10 ^ k" using assms(1,2) by (simp add: nat_less_iff)
  then have "length (showNat (nat n)) \<le> k" using assms(3) by (rule showNat_length)
  then show "length (padded k n) = k" by (simp add: padded_def i Let_def)
  have "list_all isDigit (replicate j (CHR ''0''))" for j by (induction j) (simp_all add: isDigit_def)
  then show "list_all isDigit (padded k n)" "int (readNat (padded k n)) = n"
    using showNat_props [of "nat n"] assms(1) by (simp_all add: padded_def i readNat_zeros Let_def)
qed

lemma getnum_padded:
  assumes "0 \<le> n" "n < 100"
  shows "getnum True (padded 2 n @ rest) = Some (n, rest)"
proof -
  have p: "length (padded 2 n) = 2" "list_all isDigit (padded 2 n)" "int (readNat (padded 2 n)) = n"
    using padded_props [of n 2] assms by simp_all
  then obtain a b where ab: "padded 2 n = [a, b]" by (auto simp: length_Suc_conv numeral_2_eq_2)
  with p show ?thesis by (auto simp: getnum_def readNat_def)
qed

lemma parse_fraction:
  assumes "0 \<le> n" "n < second"
  shows "parseFraction (fractionText n @ ''Z'') = (n, ''Z'')"
proof -
  have p: "length (padded 9 n) = 9" "list_all isDigit (padded 9 n)" "int (readNat (padded 9 n)) = n"
    using padded_props [of n 9] assms by simp_all
  define zs where "zs = takeWhile (\<lambda>c. c = CHR ''0'') (rev (padded 9 n))"
  define f where "f = rev (dropWhile (\<lambda>c. c = CHR ''0'') (rev (padded 9 n)))"
  have "rev (padded 9 n) = zs @ rev f" by (simp add: zs_def f_def)
  then have s: "padded 9 n = f @ rev zs" by (metis rev_append rev_rev_ident)
  have "\<forall>c \<in> set zs. c = CHR ''0''" unfolding zs_def by (auto dest: set_takeWhileD)
  then have z: "rev zs = replicate (length zs) (CHR ''0'')" by (metis length_rev replicate_length_same set_rev)
  have l: "length f + length zs = 9" using p(1) s by (metis length_append length_rev)
  have t: "take 9 (f @ replicate 9 (CHR ''0'')) = padded 9 n"
    using l by (simp add: s z min_def)
  show ?thesis
  proof (cases "f = []")
    case True
    have "readNat (replicate (length zs) (CHR ''0'')) = 0"
      using readNat_zeros [of "length zs" "[]"] by (simp add: readNat_def)
    with p(3) s z True have "n = 0" by simp
    with True show ?thesis by (simp add: fractionText_def parseFraction_def f_def)
  next
    case False
    have "list_all isDigit f" using p(2) s by simp
    moreover have "\<not> isDigit (CHR ''Z'')" by (simp add: isDigit_def)
    ultimately have "takeWhile isDigit (f @ ''Z'') = f" "dropWhile isDigit (f @ ''Z'') = ''Z''"
      by (simp_all add: takeWhile_append2 dropWhile_append2 list_all_iff)
    moreover have "fractionText n = CHR ''.'' # f" using False by (simp add: fractionText_def f_def)
    ultimately show ?thesis using False t p(3) by (simp add: parseFraction_def)
  qed
qed

text \<open>Reading the text of a time gives the time.\<close>

lemma parse_timeText:
  assumes "hasTimeText t"
  shows "parseTimeText (timeText t) = Some t"
proof -
  define s where "s = t div second"
  define c where "c = s mod 86400"
  obtain y m d where ymd: "dateOf (s div 86400) = (y, m, d)" by (cases "dateOf (s div 86400)") auto
  note date = dateOf_dayNumber [OF ymd]
  have y: "0 \<le> y" "y \<le> 9999"
    using assms ymd unfolding hasTimeText_def s_def [symmetric] by (auto simp: dateOf_def Let_def)
  have "daysIn m y \<le> 31"
    using date(2,3) by (auto simp: daysIn_def monthLengths_def nth_Cons' split: if_splits)
  then have d: "d < 100" using date(5) by simp
  have c: "0 \<le> c" "c < 86400" by (simp_all add: c_def)
  define h where "h = c div 3600"
  define mi where "mi = c mod 3600 div 60"
  define se where "se = c mod 60"
  have h: "0 \<le> h" "h < 24" using c by (simp_all add: h_def div_less_iff_less_mult)
  have mi: "0 \<le> mi" "mi < 60" by (simp_all add: mi_def div_less_iff_less_mult)
  have se: "0 \<le> se" "se < 60" by (simp_all add: se_def)
  have clock: "h * 3600 + mi * 60 + se = c"
  proof -
    have "c mod 3600 mod 60 = se" unfolding se_def by (rule mod_mod_cancel) simp
    then have "mi * 60 + se = c mod 3600" using div_mult_mod_eq [of "c mod 3600" 60] by (simp add: mi_def)
    then show ?thesis using div_mult_mod_eq [of c 3600] unfolding h_def by linarith
  qed
  have yp: "length (padded 4 y) = 4" "list_all isDigit (padded 4 y)" "int (readNat (padded 4 y)) = y"
    using padded_props [of y 4] y by simp_all
  have "parseYMD (padded 4 y @ ''-'' @ padded 2 m @ ''-'' @ padded 2 d @ rest) = Some ((y, m, d), rest)" for rest
    using yp date(2-4) d by (simp add: parseYMD_def skipChar_def getnum_padded)
  moreover have "parseFraction (fractionText (t mod second) @ ''Z'') = (t mod second, ''Z'')"
    by (rule parse_fraction) simp_all
  moreover have "parseZone ''Z'' = Some 0" by (simp add: parseZone_def)
  moreover have "(dayNumber y m d * 86400 + h * 3600 + mi * 60 + se) * second + t mod second = t"
  proof -
    have "dayNumber y m d * 86400 + (h * 3600 + mi * 60 + se) = s"
      unfolding clock date(1) c_def by (rule div_mult_mod_eq)
    then show ?thesis using div_mult_mod_eq [of t second] by (simp add: s_def add.assoc)
  qed
  ultimately show ?thesis
    using h mi se date(4,5)
    by (simp add: timeText_def Let_def s_def [symmetric] ymd c_def [symmetric] h_def [symmetric]
        mi_def [symmetric] se_def [symmetric] parseTimeText_def skipChar_def getnum_padded)
qed

subsection \<open>Structs\<close>

text \<open>Printing: the fields in their order; an empty field marked \<open>omitempty\<close> is left out.\<close>

definition structText :: "(string \<times> json) list \<Rightarrow> string" where
  "structText fs = ''{'' @ join '','' (map (\<lambda>(k, v). quoteString k @ '':'' @ marshalJson v) fs) @ ''}''"

definition field :: "string \<Rightarrow> json \<Rightarrow> (string \<times> json) list" where
  "field k v = [(k, v)]"

definition omitEmpty :: "bool \<Rightarrow> string \<Rightarrow> json \<Rightarrow> (string \<times> json) list" where
  "omitEmpty b k v = (if b then [] else [(k, v)])"

text \<open>Reading: the field a member is for, and the value of a field after the members for it.\<close>

definition fieldNamed :: "string list \<Rightarrow> string \<Rightarrow> string option" where
  "fieldNamed names k = (if k \<in> set names then Some k else find (\<lambda>n. equalFold n k) names)"

fun memberFields :: "string list \<Rightarrow> (string \<times> json) list \<Rightarrow> (string \<times> json) list" where
  "memberFields names [] = []"
| "memberFields names ((k, v) # m) =
     (case fieldNamed names k of None \<Rightarrow> memberFields names m | Some n \<Rightarrow> (n, v) # memberFields names m)"

definition readStruct :: "string list \<Rightarrow> string \<Rightarrow> (string \<times> json) list option" where
  "readStruct names s =
     (case parseJson s of
        Some (JObj m) \<Rightarrow> Some (memberFields names m)
      | Some JNull \<Rightarrow> Some []
      | _ \<Rightarrow> None)"

fun readField :: "(json \<Rightarrow> 'a option) \<Rightarrow> string \<Rightarrow> 'a \<Rightarrow> (string \<times> json) list \<Rightarrow> 'a option" where
  "readField rd n x [] = Some x"
| "readField rd n x ((k, v) # fs) =
     (if k = n \<and> v \<noteq> JNull then Option.bind (rd v) (\<lambda>y. readField rd n y fs) else readField rd n x fs)"

fun asString :: "json \<Rightarrow> string option" where
  "asString (JStr s) = Some s"
| "asString _ = None"

fun asBool :: "json \<Rightarrow> bool option" where
  "asBool (JBool b) = Some b"
| "asBool _ = None"

text \<open>A number for an \<open>int64\<close> is an error outside its range.\<close>

fun asInt64 :: "json \<Rightarrow> int option" where
  "asInt64 (JFloat n) = (if i64 n = n then Some n else None)"
| "asInt64 (JInt n) = (if i64 n = n then Some n else None)"
| "asInt64 _ = None"

fun asTime :: "json \<Rightarrow> time option" where
  "asTime (JStr s) = parseTimeText s"
| "asTime _ = None"

definition timeJson :: "time \<Rightarrow> json" where
  "timeJson t = JStr (timeText t)"

subsection \<open>Round trips of structs\<close>

definition scalar :: "json \<Rightarrow> bool" where
  "scalar v \<longleftrightarrow> (case v of JStr _ \<Rightarrow> True | JBool _ \<Rightarrow> True | JInt n \<Rightarrow> \<bar>n\<bar> \<le> 2 ^ 53 | _ \<Rightarrow> False)"

lemma memberFields_exact: "\<forall>(k, v) \<in> set m. k \<in> set names \<Longrightarrow> memberFields names m = m"
  by (induction m) (auto simp: fieldNamed_def)

text \<open>The text of a struct is an object of its fields, as reading gives their values.\<close>

lemma parse_structText:
  assumes "\<forall>(k, v) \<in> set fs. scalar v"
  shows "parseJson (structText fs) = Some (JObj (map (\<lambda>(k, v). (k, canon v)) fs))"
proof -
  have "\<forall>(k, v) \<in> set fs. readsAs (marshalJson v) (canon v)"
    using assms by (fastforce simp: scalar_def intro: marshal_reads split: json.splits)
  from readsAsD [OF object_reads [OF this], of "2 * length (structText fs) + 2" "[]"]
  show ?thesis by (simp add: parseJson_def structText_def stops_def)
qed

lemma readStruct_text:
  assumes "\<forall>(k, v) \<in> set fs. k \<in> set names \<and> scalar v"
  shows "readStruct names (structText fs) = Some (map (\<lambda>(k, v). (k, canon v)) fs)"
proof -
  have "\<forall>(k, v) \<in> set fs. scalar v" using assms by auto
  moreover have "memberFields names (map (\<lambda>(k, v). (k, canon v)) fs) = map (\<lambda>(k, v). (k, canon v)) fs"
    by (rule memberFields_exact) (use assms in auto)
  ultimately show ?thesis by (simp add: readStruct_def parse_structText)
qed

lemma readField_append [field_reads]:
  "readField rd n x (fs @ gs) = Option.bind (readField rd n x fs) (\<lambda>y. readField rd n y gs)"
  by (induction fs arbitrary: x) (auto split: Option.bind_split)

lemma readField_field [field_reads]:
  "readField rd n x (map (\<lambda>(k, v). (k, canon v)) (field k v)) =
     (if k = n \<and> canon v \<noteq> JNull then rd (canon v) else Some x)"
  by (cases "rd (canon v)") (auto simp: field_def)

lemma readField_omitEmpty [field_reads]:
  "readField rd n x (map (\<lambda>(k, v). (k, canon v)) (omitEmpty e k v)) =
     (if k = n \<and> \<not> e \<and> canon v \<noteq> JNull then rd (canon v) else Some x)"
  by (cases "rd (canon v)") (auto simp: omitEmpty_def)

lemma set_field [simp]: "set (field k v) = {(k, v)}"
  by (simp add: field_def)

lemma set_omitEmpty: "x \<in> set (omitEmpty e k v) \<Longrightarrow> x = (k, v)"
  by (simp add: omitEmpty_def split: if_splits)

lemma canon_timeJson [simp]: "canon (timeJson t) = timeJson t"
  by (simp add: timeJson_def)

lemma asTime_timeJson [simp]: "hasTimeText t \<Longrightarrow> asTime (timeJson t) = Some t \<and> timeJson t \<noteq> JNull"
  by (simp add: timeJson_def parse_timeText)

lemma scalar_simps [simp]: "scalar (JStr s)" "scalar (JBool b)" "scalar (timeJson t)" "scalar (JInt n) \<longleftrightarrow> \<bar>n\<bar> \<le> 2 ^ 53"
  by (simp_all add: scalar_def timeJson_def)

end
