(* ===== verification/Accounts.thy ===== *)
theory Accounts
  imports StoredText
begin

section \<open>Roles, identities and accounts (internal/auth: session.go, tokens.go, users.go)\<close>

text \<open>
  The data of authentication: the three roles and their order, the identity a session carries,
  and the records kept of API tokens, local users and sign-ins, each with its JSON text. A role
  is a string, as in the code: what is read from a session or a record may be none of the three,
  and then ranks below them all. Every record read back from its own text is proved to be the
  record.
\<close>

subsection \<open>Roles\<close>

type_synonym Role = string

definition RoleViewer :: Role where "RoleViewer = ''viewer''"
definition RoleOperator :: Role where "RoleOperator = ''operator''"
definition RoleAdmin :: Role where "RoleAdmin = ''admin''"

text \<open>A role outside the table has the zero rank.\<close>

definition roleRank :: "Role \<Rightarrow> nat" where
  "roleRank r = (if r = RoleViewer then 1 else if r = RoleOperator then 2 else if r = RoleAdmin then 3 else 0)"

definition knownRole :: "Role \<Rightarrow> bool" where
  "knownRole r \<longleftrightarrow> r \<in> {RoleViewer, RoleOperator, RoleAdmin}"

definition ParseRole :: "string \<Rightarrow> Role option" where
  "ParseRole s =
     (let t = trimPrefix (toLower (trimSpace s)) ''costdeck.''
      in if t \<in> {''admin'', ''administrator''} then Some RoleAdmin
         else if t \<in> {''operator'', ''owner'', ''editor''} then Some RoleOperator
         else if t \<in> {''viewer'', ''reader'', ''readonly'', ''read-only''} then Some RoleViewer
         else None)"

definition Allows :: "Role \<Rightarrow> Role \<Rightarrow> bool" where
  "Allows r least \<longleftrightarrow> roleRank least \<le> roleRank r"

definition Higher :: "Role \<Rightarrow> Role \<Rightarrow> Role" where
  "Higher a b = (if roleRank a < roleRank b then b else a)"

lemmas role_defs = RoleViewer_def RoleOperator_def RoleAdmin_def

lemma knownRole_rank: "knownRole r \<longleftrightarrow> 0 < roleRank r"
  by (auto simp: knownRole_def roleRank_def role_defs)

lemma roleRank_inj: "knownRole a \<Longrightarrow> roleRank a = roleRank b \<Longrightarrow> a = b"
  by (auto simp: knownRole_def roleRank_def role_defs split: if_splits)

lemma ParseRole_known: "ParseRole s = Some r \<Longrightarrow> knownRole r"
  by (auto simp: ParseRole_def knownRole_def Let_def split: if_splits)

text \<open>The role names are read as themselves.\<close>

lemma ParseRole_names: "knownRole r \<Longrightarrow> ParseRole r = Some r"
  unfolding knownRole_def
  by (elim insertE) (simp_all add: role_defs ParseRole_def toLower_def lowerChar_def go_str)

subsection \<open>Identities\<close>

record Identity =
  idSubject :: string
  idName :: string
  idEmail :: string
  idRole :: Role
  idProvider :: string
  idExpiresAt :: int
  idIssuedAt :: int
  idMustChange :: bool

definition identityFields :: "Identity \<Rightarrow> (string \<times> json) list" where
  "identityFields i =
     field ''sub'' (JStr (idSubject i)) @ field ''name'' (JStr (idName i))
     @ omitEmpty (idEmail i = []) ''email'' (JStr (idEmail i)) @ field ''role'' (JStr (idRole i))
     @ field ''provider'' (JStr (idProvider i)) @ field ''exp'' (JInt (idExpiresAt i))
     @ omitEmpty (idIssuedAt i = 0) ''iat'' (JInt (idIssuedAt i))
     @ omitEmpty (\<not> idMustChange i) ''mustChangePassword'' (JBool (idMustChange i))"

definition identityNames :: "string list" where
  "identityNames = [''sub'', ''name'', ''email'', ''role'', ''provider'', ''exp'', ''iat'', ''mustChangePassword'']"

definition readIdentity :: "string \<Rightarrow> Identity option" where
  "readIdentity s =
     Option.bind (readStruct identityNames s) (\<lambda>fs.
     Option.bind (readField asString ''sub'' [] fs) (\<lambda>sub.
     Option.bind (readField asString ''name'' [] fs) (\<lambda>name.
     Option.bind (readField asString ''email'' [] fs) (\<lambda>email.
     Option.bind (readField asString ''role'' [] fs) (\<lambda>role.
     Option.bind (readField asString ''provider'' [] fs) (\<lambda>prov.
     Option.bind (readField asInt64 ''exp'' 0 fs) (\<lambda>ex.
     Option.bind (readField asInt64 ''iat'' 0 fs) (\<lambda>iat.
     Option.bind (readField asBool ''mustChangePassword'' False fs) (\<lambda>must.
     Some \<lparr>idSubject = sub, idName = name, idEmail = email, idRole = role, idProvider = prov,
           idExpiresAt = ex, idIssuedAt = iat, idMustChange = must\<rparr>)))))))))"

lemma asInt64_small [simp]: "\<bar>n\<bar> \<le> 2 ^ 53 \<Longrightarrow> asInt64 (JFloat n) = Some n"
  by simp

lemma readIdentity_text:
  assumes "\<bar>idExpiresAt i\<bar> \<le> 2 ^ 53" "\<bar>idIssuedAt i\<bar> \<le> 2 ^ 53"
  shows "readIdentity (structText (identityFields i)) = Some i"
proof -
  have "\<forall>(k, v) \<in> set (identityFields i). k \<in> set identityNames \<and> scalar v"
    using assms by (auto simp: identityFields_def identityNames_def dest!: set_omitEmpty)
  from readStruct_text [OF this] show ?thesis
    using assms by (simp add: readIdentity_def identityFields_def field_reads del: asInt64.simps)
qed

subsection \<open>API tokens\<close>

record TokenInfo =
  tkName :: string
  tkRole :: Role
  tkCreatedAt :: time
  tkCreatedBy :: string
  tkExpiresAt :: "time option"
  tkHash :: string

definition tokenFields :: "TokenInfo \<Rightarrow> (string \<times> json) list" where
  "tokenFields t =
     field ''name'' (JStr (tkName t)) @ field ''role'' (JStr (tkRole t)) @ field ''createdAt'' (timeJson (tkCreatedAt t))
     @ omitEmpty (tkCreatedBy t = []) ''createdBy'' (JStr (tkCreatedBy t))
     @ omitEmpty (tkExpiresAt t = None) ''expiresAt'' (timeJson (case tkExpiresAt t of Some e \<Rightarrow> e | None \<Rightarrow> zeroTime))
     @ omitEmpty (tkHash t = []) ''hash'' (JStr (tkHash t))"

definition tokenNames :: "string list" where
  "tokenNames = [''name'', ''role'', ''createdAt'', ''createdBy'', ''expiresAt'', ''hash'']"

definition tokenPrintable :: "TokenInfo \<Rightarrow> bool" where
  "tokenPrintable t \<longleftrightarrow> hasTimeText (tkCreatedAt t) \<and> (case tkExpiresAt t of Some e \<Rightarrow> hasTimeText e | None \<Rightarrow> True)"

text \<open>\<open>json.Marshal\<close> fails on a time without text.\<close>

definition tokenText :: "TokenInfo \<Rightarrow> string option" where
  "tokenText t = (if tokenPrintable t then Some (structText (tokenFields t)) else None)"

definition readToken :: "string \<Rightarrow> TokenInfo option" where
  "readToken s =
     Option.bind (readStruct tokenNames s) (\<lambda>fs.
     Option.bind (readField asString ''name'' [] fs) (\<lambda>name.
     Option.bind (readField asString ''role'' [] fs) (\<lambda>role.
     Option.bind (readField asTime ''createdAt'' zeroTime fs) (\<lambda>created.
     Option.bind (readField asString ''createdBy'' [] fs) (\<lambda>creator.
     Option.bind (readField (map_option Some \<circ> asTime) ''expiresAt'' None fs) (\<lambda>ex.
     Option.bind (readField asString ''hash'' [] fs) (\<lambda>h.
     Some \<lparr>tkName = name, tkRole = role, tkCreatedAt = created, tkCreatedBy = creator,
           tkExpiresAt = ex, tkHash = h\<rparr>)))))))"

lemma readToken_text:
  assumes "tokenText t = Some s"
  shows "readToken s = Some t"
proof -
  have t: "tokenPrintable t" and s: "s = structText (tokenFields t)"
    using assms by (auto simp: tokenText_def split: if_splits)
  have "\<forall>(k, v) \<in> set (tokenFields t). k \<in> set tokenNames \<and> scalar v"
    by (auto simp: tokenFields_def tokenNames_def dest!: set_omitEmpty)
  from readStruct_text [OF this] show ?thesis
    using t by (cases "tkExpiresAt t")
      (simp_all add: s readToken_def tokenFields_def field_reads tokenPrintable_def)
qed

subsection \<open>Local users\<close>

record User =
  usUsername :: string
  usName :: string
  usEmail :: string
  usRole :: Role
  usDisabled :: bool
  usMustChange :: bool
  usCreatedAt :: time
  usCreatedBy :: string
  usPasswordChangedAt :: time
  usHash :: string

definition userFields :: "User \<Rightarrow> (string \<times> json) list" where
  "userFields u =
     field ''username'' (JStr (usUsername u)) @ omitEmpty (usName u = []) ''name'' (JStr (usName u))
     @ omitEmpty (usEmail u = []) ''email'' (JStr (usEmail u)) @ field ''role'' (JStr (usRole u))
     @ omitEmpty (\<not> usDisabled u) ''disabled'' (JBool (usDisabled u))
     @ omitEmpty (\<not> usMustChange u) ''mustChangePassword'' (JBool (usMustChange u))
     @ field ''createdAt'' (timeJson (usCreatedAt u)) @ omitEmpty (usCreatedBy u = []) ''createdBy'' (JStr (usCreatedBy u))
     @ field ''passwordChangedAt'' (timeJson (usPasswordChangedAt u)) @ omitEmpty (usHash u = []) ''hash'' (JStr (usHash u))"

definition userNames :: "string list" where
  "userNames = [''username'', ''name'', ''email'', ''role'', ''disabled'', ''mustChangePassword'', ''createdAt'',
     ''createdBy'', ''passwordChangedAt'', ''hash'']"

definition userPrintable :: "User \<Rightarrow> bool" where
  "userPrintable u \<longleftrightarrow> hasTimeText (usCreatedAt u) \<and> hasTimeText (usPasswordChangedAt u)"

definition userText :: "User \<Rightarrow> string option" where
  "userText u = (if userPrintable u then Some (structText (userFields u)) else None)"

definition readUser :: "string \<Rightarrow> User option" where
  "readUser s =
     Option.bind (readStruct userNames s) (\<lambda>fs.
     Option.bind (readField asString ''username'' [] fs) (\<lambda>username.
     Option.bind (readField asString ''name'' [] fs) (\<lambda>name.
     Option.bind (readField asString ''email'' [] fs) (\<lambda>email.
     Option.bind (readField asString ''role'' [] fs) (\<lambda>role.
     Option.bind (readField asBool ''disabled'' False fs) (\<lambda>disabled.
     Option.bind (readField asBool ''mustChangePassword'' False fs) (\<lambda>must.
     Option.bind (readField asTime ''createdAt'' zeroTime fs) (\<lambda>created.
     Option.bind (readField asString ''createdBy'' [] fs) (\<lambda>creator.
     Option.bind (readField asTime ''passwordChangedAt'' zeroTime fs) (\<lambda>changed.
     Option.bind (readField asString ''hash'' [] fs) (\<lambda>h.
     Some \<lparr>usUsername = username, usName = name, usEmail = email, usRole = role, usDisabled = disabled,
           usMustChange = must, usCreatedAt = created, usCreatedBy = creator, usPasswordChangedAt = changed,
           usHash = h\<rparr>)))))))))))"

lemma readUser_text:
  assumes "userText u = Some s"
  shows "readUser s = Some u"
proof -
  have u: "userPrintable u" and s: "s = structText (userFields u)"
    using assms by (auto simp: userText_def split: if_splits)
  have "\<forall>(k, v) \<in> set (userFields u). k \<in> set userNames \<and> scalar v"
    by (auto simp: userFields_def userNames_def dest!: set_omitEmpty)
  from readStruct_text [OF this] show ?thesis
    using u by (simp add: s readUser_def userFields_def field_reads userPrintable_def)
qed

subsection \<open>Sign-ins\<close>

record SignIn =
  siSubject :: string
  siName :: string
  siEmail :: string
  siProvider :: string
  siRole :: Role
  siAt :: time
  siCount :: int

definition signInFields :: "SignIn \<Rightarrow> (string \<times> json) list" where
  "signInFields r =
     field ''subject'' (JStr (siSubject r)) @ field ''name'' (JStr (siName r))
     @ omitEmpty (siEmail r = []) ''email'' (JStr (siEmail r)) @ field ''provider'' (JStr (siProvider r))
     @ field ''role'' (JStr (siRole r)) @ field ''at'' (timeJson (siAt r)) @ field ''count'' (JInt (siCount r))"

definition signInNames :: "string list" where
  "signInNames = [''subject'', ''name'', ''email'', ''provider'', ''role'', ''at'', ''count'']"

definition signInText :: "SignIn \<Rightarrow> string option" where
  "signInText r = (if hasTimeText (siAt r) then Some (structText (signInFields r)) else None)"

definition readSignIn :: "string \<Rightarrow> SignIn option" where
  "readSignIn s =
     Option.bind (readStruct signInNames s) (\<lambda>fs.
     Option.bind (readField asString ''subject'' [] fs) (\<lambda>subject.
     Option.bind (readField asString ''name'' [] fs) (\<lambda>name.
     Option.bind (readField asString ''email'' [] fs) (\<lambda>email.
     Option.bind (readField asString ''provider'' [] fs) (\<lambda>prov.
     Option.bind (readField asString ''role'' [] fs) (\<lambda>role.
     Option.bind (readField asTime ''at'' zeroTime fs) (\<lambda>a.
     Option.bind (readField asInt64 ''count'' 0 fs) (\<lambda>n.
     Some \<lparr>siSubject = subject, siName = name, siEmail = email, siProvider = prov, siRole = role,
           siAt = a, siCount = n\<rparr>))))))))"

lemma readSignIn_text:
  assumes "signInText r = Some s" "\<bar>siCount r\<bar> \<le> 2 ^ 53"
  shows "readSignIn s = Some r"
proof -
  have r: "hasTimeText (siAt r)" and s: "s = structText (signInFields r)"
    using assms(1) by (auto simp: signInText_def split: if_splits)
  have "\<forall>(k, v) \<in> set (signInFields r). k \<in> set signInNames \<and> scalar v"
    using assms(2) by (auto simp: signInFields_def signInNames_def dest!: set_omitEmpty)
  from readStruct_text [OF this] show ?thesis
    using r assms(2) by (simp add: s readSignIn_def signInFields_def field_reads del: asInt64.simps)
qed

end
