(* ===== verification/AuthApi.thy ===== *)
theory AuthApi
  imports Accounts
begin

section \<open>What authentication works on: requests, answers, Secrets and the clock\<close>

text \<open>
  The calls of internal/auth to code outside the repository are a record of state transformers
  on a world of any type, like those of the scaling engine: reading, creating and updating a
  Secret of the operator's namespace, the clock, random bytes, bcrypt (whose hashes are salted,
  so making one is a call, and comparing is a function), URL parsing, and the rate limiters of
  golang.org/x/time, values of a type of their own. Beside the world, the process keeps its two
  caches and its limiters (\<open>host\<close>); requests are taken one at a time.

  \<open>optimistic\<close> states what the API server promises about Secrets, with the sequence of contents
  a Secret went through (maps, hence without repeated keys): a read answers the latest one with its version, and an update succeeds
  only on the version that was read. Other clients may write between any two calls. The code
  changes a Secret by reading it, editing what was read and writing that back, again on a
  conflict; \<open>commits\<close> says that such a change, when it succeeds, is the edit applied to what it
  replaced, so that no other client's write is lost.
\<close>

subsection \<open>Requests and answers\<close>

record Request =
  rqMethod :: string
  rqPath :: string
  rqHeader :: "string \<Rightarrow> string"                \<comment> \<open>\<open>Header.Get\<close>, empty when missing\<close>
  rqQuery :: "string \<Rightarrow> string"                 \<comment> \<open>\<open>URL.Query().Get\<close>\<close>
  rqCookie :: "string \<Rightarrow> string option"
  rqHost :: string
  rqRemoteAddr :: string
  rqTLS :: bool
  rqBody :: string

record Cookie =
  ckName :: string
  ckValue :: string
  ckPath :: string
  ckHttpOnly :: bool
  ckSecure :: bool
  ckSameSiteLax :: bool
  ckMaxAge :: int

text \<open>What a handler answers: JSON with its status, a redirect (the URL given to \<open>http.Redirect\<close>, which
  goes on to clean its path), or the next handler with the identity put into the request's context.\<close>

datatype body = JsonBody json | PlainBody string

datatype answer =
    Reply nat "Cookie list" "(string \<times> string) list" body
  | Redirect string "Cookie list"
  | Forward "Identity option"

definition errorReply :: "nat \<Rightarrow> string \<Rightarrow> answer" where
  "errorReply code msg = Reply code [] [] (JsonBody (JObj [(''error'', JStr msg)]))"

text \<open>A JSON body of at most so many bytes: the first value of it counts, \<open>json.NewDecoder(
  http.MaxBytesReader(w, r.Body, n)).Decode\<close>.\<close>

definition decodeBody :: "nat \<Rightarrow> string list \<Rightarrow> string \<Rightarrow> (string \<times> json) list option" where
  "decodeBody n names s =
     (case parseValue (2 * n + 2) (take n s) of
        Some (JObj m, r) \<Rightarrow> Some (memberFields names m)
      | Some (JNull, r) \<Rightarrow> if r = [] \<or> isJsonSpace (hd r) then Some [] else None
      | _ \<Rightarrow> None)"

subsection \<open>Errors\<close>

datatype secretError = SecretMissing | SecretExists | SecretConflict | SecretError string

datatype authError =
    OfApi secretError
  | Context string authError
  | InvalidUser string
  | UserNotFound
  | UserDisabled
  | TokenNotFound string
  | PlainError string

fun isConflict :: "authError \<Rightarrow> bool" where
  "isConflict (OfApi e) \<longleftrightarrow> e = SecretConflict"
| "isConflict (Context _ e) \<longleftrightarrow> isConflict e"
| "isConflict _ \<longleftrightarrow> False"

subsection \<open>The calls\<close>

record Secret =
  secName :: string
  secLabels :: "(string \<times> string) list"
  secData :: "(string \<times> string) list"
  secVersion :: nat

definition managedLabels :: "(string \<times> string) list" where
  "managedLabels = [(''app.kubernetes.io/managed-by'', ''costdeck-operator'')]"

text \<open>The sign-in settings of the CostDeckConfig (api/v1/costdeckconfig\_types.go), the fields the code
  reads.\<close>

record EntraConfig =
  enEnabled :: bool
  enTenantID :: string
  enClientID :: string
  enClientSecretRef :: string
  enRedirectURL :: string
  enAuthorityHost :: string
  enDefaultRole :: string
  enAutoProvision :: "bool option"
  enGroupRoleMapping :: "string \<rightharpoonup> string"
  enSkipSSLVerify :: bool

record OIDCConfig =
  ocEnabled :: bool
  ocDisplayName :: string
  ocIssuerURL :: string
  ocClientID :: string
  ocClientSecretRef :: string
  ocRedirectURL :: string
  ocScopes :: "string list"
  ocGroupsClaim :: string
  ocRolesClaim :: string
  ocRoleMapping :: "string \<rightharpoonup> string"
  ocDefaultRole :: string
  ocAutoProvision :: "bool option"
  ocGroupRoleMapping :: "string \<rightharpoonup> string"
  ocSkipSSLVerify :: bool

record AuthConfig =
  acEntra :: "EntraConfig option"
  acOIDC :: "OIDCConfig option"
  acDisableLocalLogin :: bool

text \<open>
  The libraries of OpenID Connect and OAuth: a discovered provider is a number here, and what the
  calls make of it is theirs. \<open>newProvider\<close> discovers an issuer, checked against the issuer URL
  of the second argument; \<open>exchangeCode\<close> answers the \<open>id_token\<close> of the token response, empty when
  there is none; \<open>verifyIDToken\<close> checks its signature, audience and expiry, and its issuer unless
  told not to.
\<close>

record OAuth =
  oaClientID :: string
  oaClientSecret :: string
  oaRedirectURL :: string
  oaScopes :: "string list"

record IDToken =
  itNonce :: string
  itClaims :: json

record ('w, 'l) authority =
  getSecret :: "string \<Rightarrow> ('w, secretError + Secret) state"
  createSecret :: "Secret \<Rightarrow> ('w, secretError + unit) state"
  updateSecret :: "Secret \<Rightarrow> ('w, secretError + unit) state"
  getSettings :: "('w, secretError + AuthConfig) state"    \<comment> \<open>\<open>spec.auth\<close> of the CostDeckConfig\<close>
  timeNow :: "('w, time) state"
  randomBytes :: "nat \<Rightarrow> ('w, string + string) state"
  randomText :: "('w, string) state"                       \<comment> \<open>\<open>rand.Text\<close>\<close>
  bcryptHash :: "string \<Rightarrow> ('w, string + string) state"
  bcryptMatches :: "string \<Rightarrow> string \<Rightarrow> bool"
  moreAttempts :: nat                                      \<comment> \<open>of \<open>retry.DefaultRetry\<close>, after the first\<close>
  environ :: "string \<Rightarrow> string"
  parseURL :: "string \<Rightarrow> (string \<times> string) option"          \<comment> \<open>\<open>url.Parse\<close>: scheme and host\<close>
  secretErrorText :: "secretError \<Rightarrow> string"
  freshLimiter :: 'l                                       \<comment> \<open>\<open>rate.NewLimiter(rate.Every(12s), 5)\<close>\<close>
  limiterAllow :: "time \<Rightarrow> 'l \<Rightarrow> bool \<times> 'l"
  limiterTokens :: "time \<Rightarrow> 'l \<Rightarrow> rat"
  newProvider :: "bool \<Rightarrow> string \<Rightarrow> string \<Rightarrow> ('w, string + nat) state"
  authCodeURL :: "nat \<Rightarrow> OAuth \<Rightarrow> string \<Rightarrow> string \<Rightarrow> string \<Rightarrow> (string \<times> string) list \<Rightarrow> string"
  exchangeCode :: "nat \<Rightarrow> OAuth \<Rightarrow> string \<Rightarrow> string \<Rightarrow> ('w, string + string) state"
  verifyIDToken :: "nat \<Rightarrow> string \<Rightarrow> bool \<Rightarrow> string \<Rightarrow> ('w, string + IDToken) state"
  newVerifier :: "('w, string) state"

fun errText :: "('w, 'l) authority \<Rightarrow> authError \<Rightarrow> string" where
  "errText api (OfApi e) = secretErrorText api e"
| "errText api (Context c e) = c @ '': '' @ errText api e"
| "errText api (InvalidUser m) = ''invalid user: '' @ m"
| "errText api UserNotFound = ''user not found''"
| "errText api UserDisabled = ''this account is disabled''"
| "errText api (TokenNotFound n) = ''token '' @ quoted n @ '' not found''"
| "errText api (PlainError m) = m"

text \<open>The world with what the process keeps: the tokens by hash and the users by name with the
  times they were read, the limiters by client address or account, the hash made once of
  the built-in admin's password (\<open>Some None\<close> when it could not be made), and the discovered providers.\<close>

record ('w, 'l) host =
  outside :: 'w
  tokensByHash :: "(string \<times> TokenInfo) list option"
  tokensLoadedAt :: time
  usersByName :: "(string \<times> User) list option"
  usersLoadedAt :: time
  limiters :: "(string \<times> 'l) list"
  adminHash :: "string option option"
  entraProviders :: "(string \<times> nat \<times> time) list"
  oidcProviders :: "(string \<times> nat \<times> time) list"

type_synonym ('w, 'l, 'a) auth = "(('w, 'l) host, 'a) state"

definition call :: "('w, 'a) state \<Rightarrow> ('w, 'l, 'a) auth" where
  "call m = State (\<lambda>h. case run_state m (outside h) of (x, w) \<Rightarrow> (x, h\<lparr>outside := w\<rparr>))"

definition changeHost :: "(('w, 'l) host \<Rightarrow> ('w, 'l) host) \<Rightarrow> ('w, 'l, unit) auth" where
  "changeHost f = State (\<lambda>h. ((), f h))"

definition apiCall :: "('w, secretError + 'a) state \<Rightarrow> ('w, 'l, authError + 'a) auth" where
  "apiCall m = do { r \<leftarrow> call m; State_Monad.return (map_sum OfApi id r) }"

definition toAuth :: "('w, string + 'a) state \<Rightarrow> ('w, 'l, authError + 'a) auth" where
  "toAuth m = do { r \<leftarrow> call m; State_Monad.return (map_sum PlainError id r) }"

lemma attempt_Inr: "attempt (State_Monad.return (Inr x)) f = f x"
  by (simp add: attempt_def)

text \<open>\<open>retry.RetryOnConflict\<close>: again while the answer is a conflict and attempts are left.\<close>

fun retryOnConflict :: "nat \<Rightarrow> ('s, authError + 'a) state \<Rightarrow> ('s, authError + 'a) state" where
  "retryOnConflict 0 m = m"
| "retryOnConflict (Suc n) m =
     do { r \<leftarrow> m;
          case r of
            Inl e \<Rightarrow> if isConflict e then retryOnConflict n m else State_Monad.return r
          | Inr x \<Rightarrow> State_Monad.return r }"

subsection \<open>What the API server promises\<close>

text \<open>The contents a Secret went through, oldest first; none while it does not exist.\<close>

type_synonym contents = "(string \<times> string) list option"
type_synonym 'w history = "'w \<Rightarrow> string \<Rightarrow> contents list"

definition latest :: "contents list \<Rightarrow> contents" where
  "latest cs = (if cs = [] then None else last cs)"

definition growing :: "'w history \<Rightarrow> ('w, 'a) state \<Rightarrow> bool" where
  "growing H m \<longleftrightarrow> (\<forall>w x w' n. run_state m w = (x, w') \<longrightarrow> (\<exists>os. H w' n = H w n @ os))"

definition optimistic :: "('w, 'l) authority \<Rightarrow> 'w history \<Rightarrow> bool" where
  "optimistic api H \<longleftrightarrow>
     (\<forall>n. growing H (getSecret api n)) \<and> (\<forall>s. growing H (createSecret api s)) \<and> (\<forall>s. growing H (updateSecret api s))
     \<and> (\<forall>k u i. growing H (newProvider api k u i)) \<and> (\<forall>p a c v. growing H (exchangeCode api p a c v))
     \<and> (\<forall>p c k i. growing H (verifyIDToken api p c k i)) \<and> growing H (newVerifier api)
     \<and> growing H (getSettings api) \<and> growing H (timeNow api) \<and> (\<forall>n. growing H (randomBytes api n)) \<and> growing H (randomText api)
     \<and> (\<forall>p. growing H (bcryptHash api p))
     \<and> (\<forall>n w s w'. run_state (getSecret api n) w = (Inr s, w') \<longrightarrow>
          secName s = n \<and> latest (H w' n) = Some (secData s) \<and> secVersion s = length (H w' n)
          \<and> distinct (map fst (secData s)))
     \<and> (\<forall>n w w'. run_state (getSecret api n) w = (Inl SecretMissing, w') \<longrightarrow> latest (H w' n) = None)
     \<and> (\<forall>s w w'. run_state (createSecret api s) w = (Inr (), w') \<longrightarrow>
          (\<exists>os. H w' (secName s) = H w (secName s) @ os @ [Some (secData s)] \<and> latest (H w (secName s) @ os) = None))
     \<and> (\<forall>s w w'. run_state (updateSecret api s) w = (Inr (), w') \<longrightarrow>
          (\<exists>os. H w' (secName s) = H w (secName s) @ os @ [Some (secData s)]
                \<and> length (H w (secName s) @ os) = secVersion s))"

text \<open>What holds after the calls (\<open>after\<close>).\<close>

lemma after_call [simp]: "after (call m) Q h \<longleftrightarrow> after m (\<lambda>x w. Q x (h\<lparr>outside := w\<rparr>)) (outside h)"
  by (simp add: after_def call_def split: prod.splits)

lemma after_apiCall [simp]: "after (apiCall m) Q h \<longleftrightarrow> after m (\<lambda>x w. Q (map_sum OfApi id x) (h\<lparr>outside := w\<rparr>)) (outside h)"
  by (simp add: apiCall_def)

lemma after_toAuth [simp]: "after (toAuth m) Q h \<longleftrightarrow> after m (\<lambda>x w. Q (map_sum PlainError id x) (h\<lparr>outside := w\<rparr>)) (outside h)"
  by (simp add: toAuth_def)

lemma after_changeHost [simp]: "after (changeHost f) Q h \<longleftrightarrow> Q () (f h)"
  by (simp add: after_def changeHost_def)

lemma optimistic_get: "optimistic api H \<Longrightarrow> run_state (getSecret api n) w = (Inr s, w') \<Longrightarrow>
    secName s = n \<and> latest (H w' n) = Some (secData s) \<and> secVersion s = length (H w' n) \<and> distinct (map fst (secData s))"
  unfolding optimistic_def by blast

lemma optimistic_missing: "optimistic api H \<Longrightarrow> run_state (getSecret api n) w = (Inl SecretMissing, w') \<Longrightarrow>
    latest (H w' n) = None"
  unfolding optimistic_def by blast

lemma optimistic_create: "optimistic api H \<Longrightarrow> run_state (createSecret api s) w = (Inr u, w') \<Longrightarrow>
    \<exists>os. H w' (secName s) = H w (secName s) @ os @ [Some (secData s)] \<and> latest (H w (secName s) @ os) = None"
  unfolding optimistic_def unit_eq [of u] by blast

lemma optimistic_update: "optimistic api H \<Longrightarrow> run_state (updateSecret api s) w = (Inr u, w') \<Longrightarrow>
    \<exists>os. H w' (secName s) = H w (secName s) @ os @ [Some (secData s)] \<and> length (H w (secName s) @ os) = secVersion s"
  unfolding optimistic_def unit_eq [of u] by blast

lemma after_getSecret:
  assumes "optimistic api H"
    and "\<And>w s. latest (H w n) = Some (secData s) \<Longrightarrow> secName s = n \<Longrightarrow> Q (Inr s) w"
    and "\<And>w. latest (H w n) = None \<Longrightarrow> Q (Inl SecretMissing) w"
    and "\<And>w e. e \<noteq> SecretMissing \<Longrightarrow> Q (Inl e) w"
  shows "after (getSecret api n) Q w0"
proof (rule afterI)
  fix x w assume r: "run_state (getSecret api n) w0 = (x, w)"
  show "Q x w"
  proof (cases x)
    case (Inl e)
    show ?thesis
    proof (cases "e = SecretMissing")
      case True
      with r Inl optimistic_missing [OF assms(1), of n w0 w] assms(3) show ?thesis by simp
    qed (use assms(4) Inl in simp)
  next
    case (Inr s)
    with optimistic_get [OF assms(1), of n w0 s w] r assms(2) show ?thesis by simp
  qed
qed

lemma after_updateSecret:
  assumes "optimistic api H"
    and "\<And>w. latest (H w (secName s)) = Some (secData s) \<Longrightarrow> Q (Inr ()) w" "\<And>w e. Q (Inl e) w"
  shows "after (updateSecret api s) Q w0"
proof (rule afterI)
  fix x w assume r: "run_state (updateSecret api s) w0 = (x, w)"
  show "Q x w"
  proof (cases x)
    case (Inr u)
    with optimistic_update [OF assms(1), of s w0 u w] r
    have "latest (H w (secName s)) = Some (secData s)" by (auto simp: latest_def)
    with assms(2) Inr show ?thesis by simp
  qed (use assms(3) in simp)
qed

lemma after_createSecret:
  assumes "optimistic api H"
    and "\<And>w. latest (H w (secName s)) = Some (secData s) \<Longrightarrow> Q (Inr ()) w" "\<And>w e. Q (Inl e) w"
  shows "after (createSecret api s) Q w0"
proof (rule afterI)
  fix x w assume r: "run_state (createSecret api s) w0 = (x, w)"
  show "Q x w"
  proof (cases x)
    case (Inr u)
    with optimistic_create [OF assms(1), of s w0 u w] r
    have "latest (H w (secName s)) = Some (secData s)" by (auto simp: latest_def)
    with assms(2) Inr show ?thesis by simp
  qed (use assms(3) in simp)
qed

text \<open>A successful run ends with a write of the Secret that replaces a content by what \<open>R\<close> allows
  for it and for the answer.\<close>

definition commits :: "'w history \<Rightarrow> string \<Rightarrow> (contents \<Rightarrow> (string \<times> string) list \<Rightarrow> 'a \<Rightarrow> bool)
    \<Rightarrow> ('w, 'l, 'e + 'a) auth \<Rightarrow> bool" where
  "commits H n R m \<longleftrightarrow>
     (\<forall>h x h'. run_state m h = (Inr x, h') \<longrightarrow>
        (\<exists>os d. H (outside h') n = H (outside h) n @ os @ [Some d] \<and> R (latest (H (outside h) n @ os)) d x))"

definition grows :: "'w history \<Rightarrow> ('w, 'l, 'a) auth \<Rightarrow> bool" where
  "grows H m \<longleftrightarrow> (\<forall>h x h' n. run_state m h = (x, h') \<longrightarrow> (\<exists>os. H (outside h') n = H (outside h) n @ os))"

lemma growsD: "grows H m \<Longrightarrow> run_state m h = (x, h') \<Longrightarrow> \<exists>os. H (outside h') n = H (outside h) n @ os"
  unfolding grows_def by blast

lemma grows_return: "grows H (State_Monad.return x)"
  by (simp add: grows_def)

lemma grows_bind:
  assumes "grows H m" "\<And>x. grows H (f x)"
  shows "grows H (m \<bind> f)"
  unfolding grows_def
proof (intro allI impI)
  fix h y h'' n
  assume r: "run_state (m \<bind> f) h = (y, h'')"
  obtain x h' where m: "run_state m h = (x, h')" by fastforce
  with r have f: "run_state (f x) h' = (y, h'')" by simp
  obtain os where os: "H (outside h') n = H (outside h) n @ os" using growsD [OF assms(1) m] by blast
  obtain os' where "H (outside h'') n = H (outside h') n @ os'" using growsD [OF assms(2) f] by blast
  with os show "\<exists>os. H (outside h'') n = H (outside h) n @ os" by simp
qed

lemma grows_call: "growing H m \<Longrightarrow> grows H (call m)"
  unfolding grows_def growing_def call_def by (auto split: prod.splits)

lemma grows_apiCall: "growing H m \<Longrightarrow> grows H (apiCall m)"
  unfolding apiCall_def by (intro grows_bind grows_call grows_return)

lemma grows_toAuth: "growing H m \<Longrightarrow> grows H (toAuth m)"
  unfolding toAuth_def by (intro grows_bind grows_call grows_return)

lemma grows_attempt: "grows H m \<Longrightarrow> (\<And>x. grows H (f x)) \<Longrightarrow> grows H (attempt m f)"
  unfolding attempt_def by (rule grows_bind) (auto intro: grows_return split: sum.splits)

lemma grows_sum: "(\<And>e. grows H (f e)) \<Longrightarrow> (\<And>x. grows H (g x)) \<Longrightarrow> grows H (case r of Inl e \<Rightarrow> f e | Inr x \<Rightarrow> g x)"
  by (simp split: sum.split)

lemma grows_changeHost: "(\<And>h. outside (f h) = outside h) \<Longrightarrow> grows H (changeHost f)"
  by (simp add: grows_def changeHost_def)

lemma grows_retry: "grows H m \<Longrightarrow> grows H (retryOnConflict k m)"
  by (induction k) (auto intro!: grows_bind grows_return split: sum.splits)

lemmas grows_intros = grows_return grows_bind grows_call grows_apiCall grows_toAuth grows_attempt

lemma optimistic_growing:
  assumes "optimistic api H"
  shows "growing H (getSecret api n)" "growing H (createSecret api s)" "growing H (updateSecret api s)"
    "growing H (timeNow api)" "growing H (randomBytes api k)" "growing H (randomText api)" "growing H (bcryptHash api p)"
    "growing H (getSettings api)" "growing H (newProvider api b u i)" "growing H (exchangeCode api j a c v)"
    "growing H (verifyIDToken api j c b i)" "growing H (newVerifier api)"
  using assms unfolding optimistic_def by simp_all

text \<open>Something before a change, and a change tried again, still commits it.\<close>

lemma commitsD: "commits H n R m \<Longrightarrow> run_state m h = (Inr x, h') \<Longrightarrow>
    \<exists>os d. H (outside h') n = H (outside h) n @ os @ [Some d] \<and> R (latest (H (outside h) n @ os)) d x"
  unfolding commits_def by blast

lemma commits_mono: "commits H n R m \<Longrightarrow> (\<And>c d x. R c d x \<Longrightarrow> S c d x) \<Longrightarrow> commits H n S m"
  unfolding commits_def by meson

lemma commits_fail: "commits H n R (State_Monad.return (Inl e))"
  by (simp add: commits_def)

lemma commits_bind_run:
  assumes "grows H m" "\<And>h x h'. run_state m h = (x, h') \<Longrightarrow> commits H n R (f x)"
  shows "commits H n R (m \<bind> f)"
  unfolding commits_def
proof (intro allI impI)
  fix h y h''
  assume r: "run_state (m \<bind> f) h = (Inr y, h'')"
  obtain x h' where m: "run_state m h = (x, h')" by fastforce
  with r have f: "run_state (f x) h' = (Inr y, h'')" by simp
  obtain os where os: "H (outside h') n = H (outside h) n @ os" using growsD [OF assms(1) m] by blast
  obtain os' d where d: "H (outside h'') n = H (outside h') n @ os' @ [Some d]" "R (latest (H (outside h') n @ os')) d y"
    using commitsD [OF assms(2) [OF m] f] by blast
  with os have "H (outside h'') n = H (outside h) n @ (os @ os') @ [Some d] \<and> R (latest (H (outside h) n @ os @ os')) d y"
    by simp
  then show "\<exists>os d. H (outside h'') n = H (outside h) n @ os @ [Some d] \<and> R (latest (H (outside h) n @ os)) d y"
    by blast
qed

lemma commits_bind: "grows H m \<Longrightarrow> (\<And>x. commits H n R (f x)) \<Longrightarrow> commits H n R (m \<bind> f)"
  by (rule commits_bind_run)

lemma commits_attempt_run:
  assumes "grows H m" "\<And>h x h'. run_state m h = (Inr x, h') \<Longrightarrow> commits H n R (f x)"
  shows "commits H n R (attempt m f)"
  unfolding attempt_def
proof (rule commits_bind_run [OF assms(1)])
  fix h r h' assume "run_state m h = (r, h')"
  then show "commits H n R (case r of Inl e \<Rightarrow> State_Monad.return (Inl e) | Inr x \<Rightarrow> f x)"
    using assms(2) by (cases r) (auto simp: commits_fail)
qed

lemma commits_attempt: "grows H m \<Longrightarrow> (\<And>x. commits H n R (f x)) \<Longrightarrow> commits H n R (attempt m f)"
  by (rule commits_attempt_run)

text \<open>What is made of the answer of a change.\<close>

lemma commits_answer:
  assumes "commits H n (\<lambda>c d x. \<forall>y. f x = Inr y \<longrightarrow> R c d y) m"
  shows "commits H n R (attempt m (\<lambda>x. State_Monad.return (f x)))"
  unfolding commits_def
proof (intro allI impI)
  fix h y h''
  assume r: "run_state (attempt m (\<lambda>x. State_Monad.return (f x))) h = (Inr y, h'')"
  obtain x h' where m: "run_state m h = (x, h')" by fastforce
  with r obtain z where z: "x = Inr z" "f z = Inr y" "h'' = h'" by (cases x) (auto simp: attempt_def)
  with commitsD [OF assms, of h z h'] m
  show "\<exists>os d. H (outside h'') n = H (outside h) n @ os @ [Some d] \<and> R (latest (H (outside h) n @ os)) d y"
    by blast
qed

lemma commits_retry: "grows H m \<Longrightarrow> commits H n R m \<Longrightarrow> commits H n R (retryOnConflict k m)"
proof (induction k)
  case (Suc k)
  show ?case
    unfolding commits_def
  proof (intro allI impI)
    fix h y h''
    assume r: "run_state (retryOnConflict (Suc k) m) h = (Inr y, h'')"
    obtain x h' where m: "run_state m h = (x, h')" by fastforce
    show "\<exists>os d. H (outside h'') n = H (outside h) n @ os @ [Some d] \<and> R (latest (H (outside h) n @ os)) d y"
    proof (cases x)
      case (Inr z)
      with r m have "run_state m h = (Inr y, h'')" by simp
      then show ?thesis by (rule commitsD [OF Suc(3)])
    next
      case (Inl e)
      with r m have "run_state (m \<bind> (\<lambda>_. retryOnConflict k m)) h = (Inr y, h'')" by (simp split: if_splits)
      then show ?thesis by (rule commitsD [OF commits_bind [OF Suc(2) Suc(1) [OF Suc(2,3)]]])
    qed
  qed
qed simp

text \<open>What follows a change without another write, when its answer is passed on.\<close>

lemma commits_then:
  assumes "commits H n R m" "\<And>h. outside (f h) = outside h"
  shows "commits H n R (m \<bind> (\<lambda>r. changeHost f \<bind> (\<lambda>_. State_Monad.return r)))"
  using assms unfolding commits_def by (fastforce simp: changeHost_def split: prod.splits)

end
