(* ===== verification/Sessions.thy ===== *)
theory Sessions
  imports AuthApi
begin

section \<open>Session cookies (internal/auth/session.go)\<close>

text \<open>
  A session is the identity as JSON text, signed with HMAC-SHA256 under the key of the
  installation, in a cookie. The theory models the key (from the environment or from a Secret
  that racing replicas create), signing and verifying, and issuing, reading and clearing the
  cookie. The lemmas show that what was signed verifies, that an issued session reads back as
  the identity with its stamps until it expires and no longer, and that what a replica takes for
  the data of the Secret is what the Secret holds.
\<close>

record Sessions =
  ssKey :: string
  ssTTL :: duration

definition SessionCookie :: string where "SessionCookie = ''costdeck-session''"
definition sessionTTL :: duration where "sessionTTL = 12 * hour"
definition keySecretName :: string where "keySecretName = ''costdeck-session-key''"
definition keySecretKey :: string where "keySecretKey = ''SESSION_KEY''"

definition NewSessions :: "string \<Rightarrow> authError + Sessions" where
  "NewSessions key =
     (if length key < 32 then Inl (PlainError ''session key must be at least 32 bytes'')
      else Inr \<lparr>ssKey = key, ssTTL = sessionTTL\<rparr>)"

subsection \<open>Secrets made once\<close>

definition dataField :: "string \<Rightarrow> (string \<times> string) list \<Rightarrow> string" where
  "dataField k d = (case map_of d k of Some v \<Rightarrow> v | None \<Rightarrow> [])"

text \<open>Repairing a Secret in place, and creating a missing one, where another replica may win the
  race.\<close>

definition repairSecret :: "('w, 'l) authority \<Rightarrow> Secret \<Rightarrow> (string \<times> string) list
    \<Rightarrow> ('w, 'l, authError + (string \<times> string) list) auth" where
  "repairSecret api s data =
     do { u \<leftarrow> call (updateSecret api (s\<lparr>secData := data\<rparr>));
          State_Monad.return (case u of
              Inl e \<Rightarrow> Inl (Context (''update Secret '' @ secName s) (OfApi e))
            | Inr _ \<Rightarrow> Inr data) }"

definition makeSecret :: "('w, 'l) authority \<Rightarrow> string \<Rightarrow> (string \<times> string) list
    \<Rightarrow> ('w, 'l, authError + (string \<times> string) list) auth" where
  "makeSecret api n data =
     do { c \<leftarrow> call (createSecret api \<lparr>secName = n, secLabels = managedLabels, secData = data, secVersion = 0\<rparr>);
          case c of
            Inr _ \<Rightarrow> State_Monad.return (Inr data)
          | Inl e \<Rightarrow>
              if e \<noteq> SecretExists then State_Monad.return (Inl (Context (''create Secret '' @ n) (OfApi e)))
              else do { g \<leftarrow> call (getSecret api n);
                        State_Monad.return (map_sum OfApi secData g) } }"

definition loadOrCreateSecret ::
    "('w, 'l) authority \<Rightarrow> string \<Rightarrow> ((string \<times> string) list \<Rightarrow> bool)
      \<Rightarrow> ('w, 'l, authError + (string \<times> string) list) auth \<Rightarrow> ('w, 'l, authError + (string \<times> string) list) auth" where
  "loadOrCreateSecret api n valid generate =
     do { r \<leftarrow> call (getSecret api n);
          case r of
            Inr s \<Rightarrow>
              if valid (secData s) then State_Monad.return (Inr (secData s))
              else attempt generate (repairSecret api s)
          | Inl e \<Rightarrow>
              if e \<noteq> SecretMissing then State_Monad.return (Inl (Context (''read Secret '' @ n) (OfApi e)))
              else attempt generate (makeSecret api n) }"

definition LoadOrCreateKey :: "('w, 'l) authority \<Rightarrow> ('w, 'l, authError + string) auth" where
  "LoadOrCreateKey api =
     (if environ api ''COSTDECK_SESSION_KEY'' \<noteq> [] then State_Monad.return (Inr (environ api ''COSTDECK_SESSION_KEY''))
      else attempt (loadOrCreateSecret api keySecretName (\<lambda>d. 32 \<le> length (dataField keySecretKey d))
               (attempt (toAuth (randomBytes api 48)) (\<lambda>fresh. State_Monad.return (Inr [(keySecretKey, fresh)]))))
             (\<lambda>data. State_Monad.return (Inr (dataField keySecretKey data))))"

text \<open>Whoever wins a race, what is returned is what the Secret holds.\<close>

definition holdsAnswer :: "'w history \<Rightarrow> string \<Rightarrow> 'e + (string \<times> string) list \<Rightarrow> ('w, 'l) host \<Rightarrow> bool" where
  "holdsAnswer H n r h \<longleftrightarrow> (case r of Inr d \<Rightarrow> latest (H (outside h) n) = Some d | Inl _ \<Rightarrow> True)"

lemma repairSecret_holds:
  assumes "optimistic api H" "secName s = n"
  shows "after (repairSecret api s d) (holdsAnswer H n) h"
  unfolding repairSecret_def after_bind after_call after_return
  by (rule after_updateSecret [OF assms(1)]) (simp_all add: holdsAnswer_def assms(2))

lemma makeSecret_holds:
  assumes "optimistic api H"
  shows "after (makeSecret api n d) (holdsAnswer H n) h"
  unfolding makeSecret_def after_bind after_call
proof (rule after_createSecret [OF assms])
  fix w e
  have "after (getSecret api n) (\<lambda>g w'. holdsAnswer H n (map_sum OfApi secData g) (h\<lparr>outside := w'\<rparr>)) w"
    by (rule after_getSecret [OF assms]) (simp_all add: holdsAnswer_def)
  then show "after (case Inl e of Inr _ \<Rightarrow> State_Monad.return (Inr d)
      | Inl e \<Rightarrow> if e \<noteq> SecretExists then State_Monad.return (Inl (Context (''create Secret '' @ n) (OfApi e)))
          else do { g \<leftarrow> call (getSecret api n); State_Monad.return (map_sum OfApi secData g) })
    (holdsAnswer H n) (h\<lparr>outside := w\<rparr>)"
    by (simp add: holdsAnswer_def)
qed (simp add: holdsAnswer_def)

lemma loadOrCreateSecret_holds:
  assumes "optimistic api H"
  shows "after (loadOrCreateSecret api n valid generate) (holdsAnswer H n) h"
  unfolding loadOrCreateSecret_def after_bind after_call
  by (rule after_getSecret [OF assms])
    (auto simp: holdsAnswer_def [of _ _ "Inl _"] holdsAnswer_def [of _ _ "Inr (secData _)"] split: sum.split
      intro!: after_True repairSecret_holds [OF assms] makeSecret_holds [OF assms])

subsection \<open>Signing\<close>

text \<open>\<open>Sign\<close> of a value with its JSON text, if it has one, and \<open>Verify\<close> with the way the value is
  read back.\<close>

definition Sign :: "Sessions \<Rightarrow> string option \<Rightarrow> authError + string" where
  "Sign s payload =
     (case payload of
        None \<Rightarrow> Inl (PlainError ''json'')
      | Some p \<Rightarrow> Inr (encodeBase64 p @ ''.'' @ encodeBase64 (hmacSHA256 (ssKey s) p)))"

definition Verify :: "Sessions \<Rightarrow> (string \<Rightarrow> 'a option) \<Rightarrow> string \<Rightarrow> authError + 'a" where
  "Verify s rd token =
     (case cutChar CHR ''.'' token of
        None \<Rightarrow> Inl (PlainError ''malformed token'')
      | Some (payloadPart, sigPart) \<Rightarrow>
          (case decodeBase64 payloadPart of
             None \<Rightarrow> Inl (PlainError ''malformed token'')
           | Some payload \<Rightarrow>
               (case decodeBase64 sigPart of
                  None \<Rightarrow> Inl (PlainError ''malformed token'')
                | Some sig \<Rightarrow>
                    if sig \<noteq> hmacSHA256 (ssKey s) payload then Inl (PlainError ''invalid signature'')
                    else (case rd payload of None \<Rightarrow> Inl (PlainError ''json'') | Some v \<Rightarrow> Inr v))))"

subsection \<open>The cookie\<close>

definition isHTTPS :: "Request \<Rightarrow> bool" where
  "isHTTPS r \<longleftrightarrow> rqTLS r \<or> equalFold (rqHeader r ''X-Forwarded-Proto'') ''https''"

definition unixOf :: "time \<Rightarrow> int" where
  "unixOf t = t div second"

definition identityText :: "Identity \<Rightarrow> string option" where
  "identityText i = Some (structText (identityFields i))"

definition stamped :: "Sessions \<Rightarrow> time \<Rightarrow> Identity \<Rightarrow> Identity" where
  "stamped s now i = i\<lparr>idIssuedAt := unixOf now, idExpiresAt := unixOf (now + ssTTL s)\<rparr>"

definition Issue :: "Sessions \<Rightarrow> Request \<Rightarrow> time \<Rightarrow> Identity \<Rightarrow> authError + Cookie" where
  "Issue s r now i =
     map_sum id (\<lambda>token. \<lparr>ckName = SessionCookie, ckValue = token, ckPath = ''/'', ckHttpOnly = True,
         ckSecure = isHTTPS r, ckSameSiteLax = True, ckMaxAge = ssTTL s div second\<rparr>)
       (Sign s (identityText (stamped s now i)))"

definition Read :: "Sessions \<Rightarrow> Request \<Rightarrow> time \<Rightarrow> authError + Identity" where
  "Read s r now =
     (case rqCookie r SessionCookie of
        None \<Rightarrow> Inl (PlainError ''http: named cookie not present'')
      | Some token \<Rightarrow>
          (case Verify s readIdentity token of
             Inl e \<Rightarrow> Inl e
           | Inr i \<Rightarrow>
               if idExpiresAt i < unixOf now then Inl (PlainError ''session expired'')
               else if \<not> knownRole (idRole i) then Inl (PlainError ''session carries an unknown role'')
               else Inr i))"

definition Clear :: "Request \<Rightarrow> Cookie" where
  "Clear r = \<lparr>ckName = SessionCookie, ckValue = [], ckPath = ''/'', ckHttpOnly = True, ckSecure = isHTTPS r,
     ckSameSiteLax = True, ckMaxAge = -1\<rparr>"

subsection \<open>What was signed verifies\<close>

lemma Verify_Sign: "Sign s (Some p) = Inr token \<Longrightarrow> Verify s rd token = (case rd p of None \<Rightarrow> Inl (PlainError ''json'') | Some v \<Rightarrow> Inr v)"
  by (auto simp: Sign_def Verify_def cutChar_append encodeBase64_no_dot decode_encode_base64)

text \<open>Nothing verifies but a payload with its digest under the key.\<close>

definition signedBy :: "Sessions \<Rightarrow> string \<Rightarrow> string \<Rightarrow> bool" where
  "signedBy s token payload \<longleftrightarrow>
     (\<exists>p g. token = p @ ''.'' @ g \<and> decodeBase64 p = Some payload \<and> decodeBase64 g = Some (hmacSHA256 (ssKey s) payload))"

lemma Verify_signed: "Verify s rd token = Inr v \<Longrightarrow> \<exists>payload. signedBy s token payload \<and> rd payload = Some v"
  unfolding Verify_def signedBy_def
  by (fastforce split: option.splits prod.splits if_splits dest: cutChar_Some)

text \<open>Clocks between the years 1970 and 9999.\<close>

definition clockRange :: "time \<Rightarrow> bool" where
  "clockRange t \<longleftrightarrow> 0 \<le> t \<and> t < 253402300800 * second"

lemma unixOf_range: "clockRange t \<Longrightarrow> 0 \<le> unixOf t \<and> unixOf t < 253402300800"
  using div_mult_mod_eq [of t second] pos_mod_sign [of second t] pos_mod_bound [of second t]
  unfolding clockRange_def unixOf_def by linarith

lemma unixOf_mono: "a \<le> b \<Longrightarrow> unixOf a \<le> unixOf b"
  unfolding unixOf_def by (rule zdiv_mono1) simp_all

lemma stamped_range:
  assumes "clockRange now" "ssTTL s = sessionTTL"
  shows "\<bar>idExpiresAt (stamped s now i)\<bar> \<le> 2 ^ 53 \<and> \<bar>idIssuedAt (stamped s now i)\<bar> \<le> 2 ^ 53"
proof -
  have n: "0 \<le> unixOf now" "unixOf now < 253402300800" using unixOf_range [OF assms(1)] by simp_all
  moreover have "unixOf (now + sessionTTL) = unixOf now + 43200"
    using div_mult_self1 [of second now 43200] by (simp add: unixOf_def sessionTTL_def)
  ultimately show ?thesis by (simp add: stamped_def assms(2))
qed

lemma readIdentity_stamped:
  assumes "clockRange now" "ssTTL s = sessionTTL"
  shows "readIdentity (structText (identityFields (stamped s now i))) = Some (stamped s now i)"
  by (rule readIdentity_text) (use stamped_range [OF assms, of i] in simp_all)

text \<open>An issued session reads back, with its stamps, exactly until it expires.\<close>

lemma Issue_Read:
  assumes "Issue s r now i = Inr c" "rqCookie q (ckName c) = Some (ckValue c)"
    and "clockRange now" "ssTTL s = sessionTTL" "knownRole (idRole i)"
  shows "Read s q later = (if unixOf later \<le> unixOf (now + sessionTTL) then Inr (stamped s now i)
    else Inl (PlainError ''session expired''))"
proof -
  obtain token where t: "Sign s (identityText (stamped s now i)) = Inr token"
    and c: "ckName c = SessionCookie" "ckValue c = token"
    using assms(1) by (cases "Sign s (identityText (stamped s now i))") (auto simp: Issue_def)
  have "Verify s readIdentity token = Inr (stamped s now i)"
    using Verify_Sign [OF t [unfolded identityText_def], of readIdentity] readIdentity_stamped [OF assms(3,4)] by simp
  with assms(2,4,5) c show ?thesis by (auto simp: Read_def stamped_def)
qed

end
