(* ===== verification/SecretRecords.thy ===== *)
theory SecretRecords
  imports Sessions
begin

section \<open>Records kept in a Secret, and what is remembered of them\<close>

text \<open>
  Tokens, users and sign-ins are kept the same way: a Secret with one record per key, as JSON
  text; what does not read as a record is left out. Two locales state what the three share.
  \<open>secret_records\<close> is the contract of a record type, that the text written of a record reads back;
  its lemmas say what the records of a Secret are after one was set or deleted.
  \<open>timed_cache\<close> is the contract of the two caches: asking one gives a view of the Secret that is
  not older than the cache's time to live; its lemma says that what is gone from the Secret for
  that long is gone from every answer.
\<close>

subsection \<open>Reading and writing records\<close>

fun readRecords :: "(string \<Rightarrow> 'r option) \<Rightarrow> (string \<Rightarrow> 'r \<Rightarrow> 'r) \<Rightarrow> (string \<times> string) list \<Rightarrow> (string \<times> 'r) list" where
  "readRecords rd named [] = []"
| "readRecords rd named ((n, raw) # d) =
     (case rd raw of None \<Rightarrow> readRecords rd named d | Some r \<Rightarrow> (n, named n r) # readRecords rd named d)"

definition loadRecords :: "('w, 'l) authority \<Rightarrow> string \<Rightarrow> (string \<Rightarrow> 'r option) \<Rightarrow> (string \<Rightarrow> 'r \<Rightarrow> 'r)
    \<Rightarrow> ('w, 'l, authError + Secret option \<times> (string \<times> 'r) list) auth" where
  "loadRecords api n rd named =
     do { r \<leftarrow> call (getSecret api n);
          State_Monad.return (case r of
              Inr s \<Rightarrow> Inr (Some s, readRecords rd named (secData s))
            | Inl e \<Rightarrow> if e = SecretMissing then Inr (None, []) else Inl (OfApi e)) }"

text \<open>Writing a record back: into the Secret that was read, or into a new one.\<close>

definition storeRecord :: "('w, 'l) authority \<Rightarrow> string \<Rightarrow> Secret option \<Rightarrow> string \<Rightarrow> string \<Rightarrow> ('w, 'l, authError + unit) auth" where
  "storeRecord api n secret k text =
     (case secret of
        None \<Rightarrow> apiCall (createSecret api \<lparr>secName = n, secLabels = managedLabels, secData = [(k, text)], secVersion = 0\<rparr>)
      | Some s \<Rightarrow> apiCall (updateSecret api (s\<lparr>secData := AList.update k text (secData s)\<rparr>)))"

text \<open>The records of a content, as a map.\<close>

definition recordsOf :: "(string \<Rightarrow> 'r option) \<Rightarrow> (string \<Rightarrow> 'r \<Rightarrow> 'r) \<Rightarrow> contents \<Rightarrow> (string \<rightharpoonup> 'r)" where
  "recordsOf rd named c k = map_option (named k) (Option.bind (Option.bind c (\<lambda>d. map_of d k)) rd)"

lemma readRecords_keys: "k \<notin> fst ` set d \<Longrightarrow> k \<notin> fst ` set (readRecords rd named d)"
  by (induction d) (auto split: option.splits)

lemma readRecords_distinct: "distinct (map fst d) \<Longrightarrow> distinct (map fst (readRecords rd named d))"
  by (induction d) (auto simp: readRecords_keys split: option.splits)

lemma map_of_readRecords: "distinct (map fst d) \<Longrightarrow> map_of (readRecords rd named d) = recordsOf rd named (Some d)"
proof (induction d)
  case (Cons x d)
  obtain n raw where x: "x = (n, raw)" by fastforce
  have "n \<notin> fst ` set (readRecords rd named d)" by (rule readRecords_keys) (use Cons(2) x in auto)
  then have "map_of (readRecords rd named d) n = None" by (simp add: map_of_eq_None_iff)
  with Cons x show ?case
    by (intro ext) (auto simp: recordsOf_def fun_eq_iff split: option.splits)
qed (simp add: recordsOf_def fun_eq_iff)

locale secret_records =
  fixes rd :: "string \<Rightarrow> 'r option"
    and named :: "string \<Rightarrow> 'r \<Rightarrow> 'r"
    and wr :: "'r \<Rightarrow> string option"
    and fits :: "'r \<Rightarrow> bool"
  assumes reads_back: "wr r = Some s \<Longrightarrow> fits r \<Longrightarrow> rd s = Some r"
begin

lemma records_set:
  assumes "wr r = Some s" "fits r"
  shows "recordsOf rd named (Some (AList.update k s d)) = (recordsOf rd named (Some d))(k \<mapsto> named k r)"
  using reads_back [OF assms] by (intro ext) (simp add: recordsOf_def update_conv')

lemma records_new:
  assumes "wr r = Some s" "fits r"
  shows "recordsOf rd named (Some [(k, s)]) = [k \<mapsto> named k r]"
  using reads_back [OF assms] by (intro ext) (simp add: recordsOf_def)

lemma records_delete: "recordsOf rd named (Some (AList.delete k d)) = (recordsOf rd named (Some d))(k := None)"
  by (intro ext) (simp add: recordsOf_def delete_conv')

lemma records_none: "recordsOf rd named None = Map.empty"
  by (intro ext) (simp add: recordsOf_def)

end

subsection \<open>A write on what was read\<close>

text \<open>A successful run writes the Secret at the version that was read, or creates it while it does
  not exist.\<close>

definition writesOn :: "'w history \<Rightarrow> string \<Rightarrow> Secret option \<Rightarrow> (contents \<Rightarrow> (string \<times> string) list \<Rightarrow> 'a \<Rightarrow> bool)
    \<Rightarrow> ('w, 'l, 'e + 'a) auth \<Rightarrow> bool" where
  "writesOn H n sec R m \<longleftrightarrow>
     (\<forall>h x h'. run_state m h = (Inr x, h') \<longrightarrow>
        (\<exists>os d. H (outside h') n = H (outside h) n @ os @ [Some d] \<and>
           (case sec of Some s \<Rightarrow> length (H (outside h) n @ os) = secVersion s
                      | None \<Rightarrow> latest (H (outside h) n @ os) = None)
           \<and> R (map_option secData sec) d x))"

lemma writesOnD: "writesOn H n sec R m \<Longrightarrow> run_state m h = (Inr x, h') \<Longrightarrow>
    \<exists>os d. H (outside h') n = H (outside h) n @ os @ [Some d] \<and>
       (case sec of Some s \<Rightarrow> length (H (outside h) n @ os) = secVersion s
                  | None \<Rightarrow> latest (H (outside h) n @ os) = None)
       \<and> R (map_option secData sec) d x"
  unfolding writesOn_def by blast

lemma writesOn_fail: "writesOn H n sec R (State_Monad.return (Inl e))"
  by (simp add: writesOn_def)

lemma writesOn_bind:
  assumes "grows H m" "\<And>h x h'. run_state m h = (x, h') \<Longrightarrow> writesOn H n sec R (f x)"
  shows "writesOn H n sec R (m \<bind> f)"
  unfolding writesOn_def
proof (intro allI impI)
  fix h y h''
  assume r: "run_state (m \<bind> f) h = (Inr y, h'')"
  obtain x h' where m: "run_state m h = (x, h')" by fastforce
  with r have f: "run_state (f x) h' = (Inr y, h'')" by simp
  obtain os where os: "H (outside h') n = H (outside h) n @ os" using growsD [OF assms(1) m] by blast
  from writesOnD [OF assms(2) [OF m] f] obtain os' d where
    d: "H (outside h'') n = H (outside h') n @ os' @ [Some d]"
      "case sec of Some s \<Rightarrow> length (H (outside h') n @ os') = secVersion s | None \<Rightarrow> latest (H (outside h') n @ os') = None"
      "R (map_option secData sec) d y"
    by blast
  with os have "H (outside h'') n = H (outside h) n @ (os @ os') @ [Some d] \<and>
      (case sec of Some s \<Rightarrow> length (H (outside h) n @ os @ os') = secVersion s | None \<Rightarrow> latest (H (outside h) n @ os @ os') = None)
      \<and> R (map_option secData sec) d y"
    by (cases sec) simp_all
  then show "\<exists>os d. H (outside h'') n = H (outside h) n @ os @ [Some d] \<and>
      (case sec of Some s \<Rightarrow> length (H (outside h) n @ os) = secVersion s | None \<Rightarrow> latest (H (outside h) n @ os) = None)
      \<and> R (map_option secData sec) d y"
    by blast
qed

lemma writesOn_attempt:
  assumes "grows H m" "\<And>h x h'. run_state m h = (Inr x, h') \<Longrightarrow> writesOn H n sec R (f x)"
  shows "writesOn H n sec R (attempt m f)"
  unfolding attempt_def
proof (rule writesOn_bind [OF assms(1)])
  fix h r h' assume "run_state m h = (r, h')"
  then show "writesOn H n sec R (case r of Inl e \<Rightarrow> State_Monad.return (Inl e) | Inr x \<Rightarrow> f x)"
    using assms(2) by (cases r) (auto simp: writesOn_fail)
qed

lemma writesOn_answer:
  assumes "writesOn H n sec (\<lambda>c d x. R c d (g x)) m"
  shows "writesOn H n sec R (attempt m (\<lambda>x. State_Monad.return (Inr (g x))))"
  unfolding writesOn_def
proof (intro allI impI)
  fix h y h''
  assume r: "run_state (attempt m (\<lambda>x. State_Monad.return (Inr (g x)))) h = (Inr y, h'')"
  obtain x h' where m: "run_state m h = (x, h')" by fastforce
  with r obtain z where z: "x = Inr z" "g z = y" "h'' = h'" by (cases x) (auto simp: attempt_def)
  with writesOnD [OF assms, of h z h'] m
  show "\<exists>os d. H (outside h'') n = H (outside h) n @ os @ [Some d] \<and>
      (case sec of Some s \<Rightarrow> length (H (outside h) n @ os) = secVersion s | None \<Rightarrow> latest (H (outside h) n @ os) = None)
      \<and> R (map_option secData sec) d y"
    by blast
qed

lemma writesOn_update:
  assumes "optimistic api H" "sec = Some s" "secName s = n" "R (Some (secData s)) d ()"
  shows "writesOn H n sec R (apiCall (updateSecret api (s\<lparr>secData := d\<rparr>)))"
  unfolding writesOn_def
proof (intro allI impI)
  fix h and x :: unit and h'
  assume "run_state (apiCall (updateSecret api (s\<lparr>secData := d\<rparr>))) h = (Inr x, h')"
  then obtain u w where u: "run_state (updateSecret api (s\<lparr>secData := d\<rparr>)) (outside h) = (Inr u, w)" "h' = h\<lparr>outside := w\<rparr>"
    by (auto simp: apiCall_def call_def map_sum_def split: prod.splits sum.splits)
  from optimistic_update [OF assms(1) u(1)] assms(2-4) u(2)
  show "\<exists>os d. H (outside h') n = H (outside h) n @ os @ [Some d] \<and>
      (case sec of Some s \<Rightarrow> length (H (outside h) n @ os) = secVersion s | None \<Rightarrow> latest (H (outside h) n @ os) = None)
      \<and> R (map_option secData sec) d x"
    by (auto simp: unit_eq [of x])
qed

lemma writesOn_create:
  assumes "optimistic api H" "secName s = n" "R None (secData s) ()"
  shows "writesOn H n None R (apiCall (createSecret api s))"
  unfolding writesOn_def
proof (intro allI impI)
  fix h and x :: unit and h'
  assume "run_state (apiCall (createSecret api s)) h = (Inr x, h')"
  then obtain u w where u: "run_state (createSecret api s) (outside h) = (Inr u, w)" "h' = h\<lparr>outside := w\<rparr>"
    by (auto simp: apiCall_def call_def map_sum_def split: prod.splits sum.splits)
  from optimistic_create [OF assms(1) u(1)] assms(2,3) u(2)
  show "\<exists>os d. H (outside h') n = H (outside h) n @ os @ [Some d] \<and>
      (case None of Some s \<Rightarrow> length (H (outside h) n @ os) = secVersion s | None \<Rightarrow> latest (H (outside h) n @ os) = None)
      \<and> R (map_option secData None) d x"
    by (auto simp: unit_eq [of x])
qed

lemma writesOn_store:
  assumes "optimistic api H" "sec = None \<or> (\<exists>s. sec = Some s \<and> secName s = n)"
    and "sec = None \<Longrightarrow> R None [(k, text)] ()"
    and "\<And>s. sec = Some s \<Longrightarrow> R (Some (secData s)) (AList.update k text (secData s)) ()"
  shows "writesOn H n sec R (storeRecord api n sec k text)"
  using assms by (cases sec) (auto simp: storeRecord_def intro!: writesOn_create writesOn_update)

text \<open>Reading the Secret and writing on what was read commits the change.\<close>

lemma commits_read:
  assumes api: "optimistic api H"
    and found: "\<And>s. secName s = n \<Longrightarrow> distinct (map fst (secData s)) \<Longrightarrow> writesOn H n (Some s) R (f (Inr s))"
    and missing: "writesOn H n None R (f (Inl SecretMissing))"
    and failed: "\<And>e h x h'. e \<noteq> SecretMissing \<Longrightarrow> run_state (f (Inl e)) h \<noteq> (Inr x, h')"
  shows "commits H n R (call (getSecret api n) \<bind> f)"
  unfolding commits_def
proof (intro allI impI)
  fix h y h''
  assume r: "run_state (call (getSecret api n) \<bind> f) h = (Inr y, h'')"
  obtain g w where g: "run_state (getSecret api n) (outside h) = (g, w)" by fastforce
  with r have f: "run_state (f g) (h\<lparr>outside := w\<rparr>) = (Inr y, h'')" by (simp add: call_def)
  obtain os where os: "H w n = H (outside h) n @ os"
    using optimistic_growing(1) [OF api] g unfolding growing_def by blast
  show "\<exists>os d. H (outside h'') n = H (outside h) n @ os @ [Some d] \<and> R (latest (H (outside h) n @ os)) d y"
  proof (cases g)
    case (Inl e)
    with f failed have "e = SecretMissing" by blast
    with writesOnD [OF missing] f Inl obtain os' d where
      "H (outside h'') n = H w n @ os' @ [Some d]" "latest (H w n @ os') = None" "R None d y"
      by fastforce
    then have "H (outside h'') n = H (outside h) n @ (os @ os') @ [Some d] \<and> R (latest (H (outside h) n @ os @ os')) d y"
      using os by simp
    then show ?thesis by blast
  next
    case (Inr s)
    then have s: "secName s = n" "latest (H w n) = Some (secData s)" "secVersion s = length (H w n)" "distinct (map fst (secData s))"
      using optimistic_get [OF api] g by blast+
    from writesOnD [OF found [OF s(1,4)]] f Inr obtain os' d where
      "H (outside h'') n = H w n @ os' @ [Some d]" "length (H w n @ os') = secVersion s" "R (Some (secData s)) d y"
      by fastforce
    with s have "H (outside h'') n = H (outside h) n @ os @ [Some d] \<and> R (latest (H (outside h) n @ os)) d y"
      using os by simp
    then show ?thesis by blast
  qed
qed

lemma grows_loadRecords: "optimistic api H \<Longrightarrow> grows H (loadRecords api n rd named)"
  unfolding loadRecords_def by (intro grows_intros optimistic_growing)

lemma grows_storeRecord: "optimistic api H \<Longrightarrow> grows H (storeRecord api n sec k text)"
  unfolding storeRecord_def by (cases sec) (auto intro!: grows_apiCall optimistic_growing)

text \<open>Reading the records and writing on what was read.\<close>

lemma commits_loadRecords:
  assumes api: "optimistic api H"
    and found: "\<And>s rs. secName s = n \<Longrightarrow> map_of rs = recordsOf rd named (Some (secData s)) \<Longrightarrow> writesOn H n (Some s) R (f (Some s, rs))"
    and missing: "writesOn H n None R (f (None, []))"
  shows "commits H n R (attempt (loadRecords api n rd named) f)"
proof -
  define g where "g = (\<lambda>r. case r of
      Inr s \<Rightarrow> f (Some s, readRecords rd named (secData s))
    | Inl e \<Rightarrow> if e = SecretMissing then f (None, []) else State_Monad.return (Inl (OfApi e)))"
  have "attempt (loadRecords api n rd named) f = call (getSecret api n) \<bind> g"
    unfolding attempt_def loadRecords_def g_def
    by (rule state.expand) (simp add: fun_eq_iff split: sum.split prod.split)
  moreover have "commits H n R (call (getSecret api n) \<bind> g)"
    by (rule commits_read [OF api]) (simp_all add: g_def found missing map_of_readRecords)
  ultimately show ?thesis by simp
qed

lemma mem_keys: "map_of rs = m \<Longrightarrow> k \<in> fst ` set rs \<longleftrightarrow> m k \<noteq> None"
  using map_of_eq_None_iff [of rs k] by auto

lemma commits_finish:
  assumes "commits H n (\<lambda>c d x. R c d (g x)) m" "\<And>h. outside (f h) = outside h"
  shows "commits H n R (attempt m (\<lambda>x. changeHost f \<bind> (\<lambda>_. State_Monad.return (Inr (g x)))))"
  unfolding commits_def
proof (intro allI impI)
  fix h y h''
  assume r: "run_state (attempt m (\<lambda>x. changeHost f \<bind> (\<lambda>_. State_Monad.return (Inr (g x))))) h = (Inr y, h'')"
  obtain x h' where m: "run_state m h = (x, h')" by fastforce
  with r obtain z where z: "x = Inr z" "y = g z" "h'' = f h'"
    by (cases x) (auto simp: attempt_def changeHost_def)
  with commitsD [OF assms(1), of h z h'] m assms(2)
  show "\<exists>os d. H (outside h'') n = H (outside h) n @ os @ [Some d] \<and> R (latest (H (outside h) n @ os)) d y"
    by simp
qed

subsection \<open>Caches with a time to live\<close>

text \<open>A world with a clock: what a Secret holds at each time, and reads that take at most \<open>lat\<close> and
  answer what it held meanwhile.\<close>

definition forward :: "('w \<Rightarrow> time) \<Rightarrow> ('w, 'a) state \<Rightarrow> bool" where
  "forward T m \<longleftrightarrow> (\<forall>w x w'. run_state m w = (x, w') \<longrightarrow> T w \<le> T w')"

definition timely :: "('w, 'l) authority \<Rightarrow> ('w \<Rightarrow> time) \<Rightarrow> (time \<Rightarrow> string \<Rightarrow> contents) \<Rightarrow> duration \<Rightarrow> bool" where
  "timely api T S lat \<longleftrightarrow>
     (\<forall>s. forward T (createSecret api s)) \<and> (\<forall>s. forward T (updateSecret api s))
     \<and> (\<forall>n. forward T (randomBytes api n)) \<and> forward T (randomText api) \<and> (\<forall>p. forward T (bcryptHash api p))
     \<and> forward T (getSettings api)
     \<and> (\<forall>k u i. forward T (newProvider api k u i)) \<and> (\<forall>p a c v. forward T (exchangeCode api p a c v))
     \<and> (\<forall>p c k i. forward T (verifyIDToken api p c k i)) \<and> forward T (newVerifier api)
     \<and> (\<forall>w x w'. run_state (timeNow api) w = (x, w') \<longrightarrow> x = T w \<and> T w \<le> T w')
     \<and> (\<forall>n w r w'. run_state (getSecret api n) w = (r, w') \<longrightarrow> T w \<le> T w' \<and> T w' \<le> T w + lat \<and>
          (case r of
             Inr s \<Rightarrow> distinct (map fst (secData s)) \<and> (\<exists>t. T w \<le> t \<and> t \<le> T w' \<and> S t n = Some (secData s))
           | Inl e \<Rightarrow> e = SecretMissing \<longrightarrow> (\<exists>t. T w \<le> t \<and> t \<le> T w' \<and> S t n = None)))"

lemma timely_now: "timely api T S lat \<Longrightarrow> run_state (timeNow api) w = (x, w') \<Longrightarrow> x = T w \<and> T w \<le> T w'"
  unfolding timely_def by blast

lemma timely_get: "timely api T S lat \<Longrightarrow> run_state (getSecret api n) w = (r, w') \<Longrightarrow> T w \<le> T w' \<and> T w' \<le> T w + lat \<and>
    (case r of
       Inr s \<Rightarrow> distinct (map fst (secData s)) \<and> (\<exists>t. T w \<le> t \<and> t \<le> T w' \<and> S t n = Some (secData s))
     | Inl e \<Rightarrow> e = SecretMissing \<longrightarrow> (\<exists>t. T w \<le> t \<and> t \<le> T w' \<and> S t n = None))"
  unfolding timely_def by blast

lemma timely_forward:
  assumes "timely api T S lat"
  shows "forward T (createSecret api s)" "forward T (updateSecret api s)" "forward T (randomBytes api k)"
    "forward T (randomText api)" "forward T (bcryptHash api p)" "forward T (timeNow api)" "forward T (getSecret api n)"
    "forward T (getSettings api)" "forward T (newProvider api b u i)" "forward T (exchangeCode api j a c v)"
    "forward T (verifyIDToken api j c b i)" "forward T (newVerifier api)"
proof -
  show "forward T (timeNow api)" "forward T (getSecret api n)"
    unfolding forward_def using timely_now [OF assms] timely_get [OF assms] by blast+
qed (use assms in \<open>auto simp: timely_def\<close>)

text \<open>The records of a content as the code's list of them.\<close>

definition recordList :: "(string \<Rightarrow> 'r option) \<Rightarrow> (string \<Rightarrow> 'r \<Rightarrow> 'r) \<Rightarrow> contents \<Rightarrow> (string \<times> 'r) list" where
  "recordList rd named c = (case c of None \<Rightarrow> [] | Some d \<Rightarrow> readRecords rd named d)"

lemma after_loadRecords:
  assumes api: "timely api T S lat"
    and ok: "\<And>w s t. T w0 \<le> t \<Longrightarrow> t \<le> T w \<Longrightarrow> T w \<le> T w0 + lat \<Longrightarrow> Q (Inr (s, recordList rd named (S t n))) (h\<lparr>outside := w\<rparr>)"
    and bad: "\<And>w e. T w0 \<le> T w \<Longrightarrow> Q (Inl e) (h\<lparr>outside := w\<rparr>)"
    and w0: "w0 = outside h"
  shows "after (loadRecords api n rd named) Q h"
  unfolding loadRecords_def after_bind after_call after_return
proof (rule afterI)
  fix r w assume "run_state (getSecret api n) (outside h) = (r, w)"
  from timely_get [OF api this [folded w0]]
  have t: "T w0 \<le> T w" "T w \<le> T w0 + lat" and r: "case r of
       Inr s \<Rightarrow> distinct (map fst (secData s)) \<and> (\<exists>t. T w0 \<le> t \<and> t \<le> T w \<and> S t n = Some (secData s))
     | Inl e \<Rightarrow> e = SecretMissing \<longrightarrow> (\<exists>t. T w0 \<le> t \<and> t \<le> T w \<and> S t n = None)" by auto
  show "Q (case r of Inr s \<Rightarrow> Inr (Some s, readRecords rd named (secData s))
      | Inl e \<Rightarrow> if e = SecretMissing then Inr (None, []) else Inl (OfApi e)) (h\<lparr>outside := w\<rparr>)"
  proof (cases r)
    case (Inr s)
    with r obtain u where "T w0 \<le> u" "u \<le> T w" "S u n = Some (secData s)" by auto
    with ok [OF this(1,2) t(2), of "Some s"] Inr show ?thesis by (simp add: recordList_def)
  next
    case (Inl e)
    show ?thesis
    proof (cases "e = SecretMissing")
      case True
      with r Inl obtain u where "T w0 \<le> u" "u \<le> T w" "S u n = None" by auto
      with ok [OF this(1,2) t(2), of None] Inl True show ?thesis by (simp add: recordList_def)
    qed (use bad [OF t(1)] Inl in simp)
  qed
qed

definition fresh :: "(('w, 'l) host \<Rightarrow> 'v option) \<Rightarrow> (('w, 'l) host \<Rightarrow> time) \<Rightarrow> (contents \<Rightarrow> 'v) \<Rightarrow> string
    \<Rightarrow> ('w \<Rightarrow> time) \<Rightarrow> (time \<Rightarrow> string \<Rightarrow> contents) \<Rightarrow> duration \<Rightarrow> ('w, 'l) host \<Rightarrow> bool" where
  "fresh cacheOf loadedAt view n T S lat h \<longleftrightarrow>
     (case cacheOf h of
        None \<Rightarrow> True
      | Some m \<Rightarrow> loadedAt h \<le> T (outside h) \<and>
                  (\<exists>t. loadedAt h - lat \<le> t \<and> t \<le> loadedAt h \<and> m = view (S t n)))"

lemma after_now:
  assumes "timely api T S lat" "\<And>w'. T w \<le> T w' \<Longrightarrow> Q (T w) w'"
  shows "after (timeNow api) Q w"
proof (rule afterI)
  fix x w' assume "run_state (timeNow api) w = (x, w')"
  with timely_now [OF assms(1) this] assms(2) show "Q x w'" by simp
qed

definition recentAnswer :: "(('w, 'l) host \<Rightarrow> 'v option) \<Rightarrow> (('w, 'l) host \<Rightarrow> time) \<Rightarrow> (contents \<Rightarrow> 'v) \<Rightarrow> string
    \<Rightarrow> ('w \<Rightarrow> time) \<Rightarrow> (time \<Rightarrow> string \<Rightarrow> contents) \<Rightarrow> duration \<Rightarrow> time \<Rightarrow> time \<Rightarrow> authError + 'v \<Rightarrow> ('w, 'l) host \<Rightarrow> bool" where
  "recentAnswer cacheOf loadedAt view n T S lat oldest start r h' \<longleftrightarrow>
     start \<le> T (outside h') \<and> fresh cacheOf loadedAt view n T S lat h' \<and>
     (\<forall>m. r = Inr m \<longrightarrow> (\<exists>t. oldest \<le> t \<and> t \<le> T (outside h') \<and> m = view (S t n)))"

text \<open>Reading the records again and keeping what was made of them.\<close>

lemma reload_recent:
  assumes api: "timely api T S lat"
    and f: "fresh cacheOf loadedAt (\<lambda>c. g (recordList rd named c)) n T S lat h"
    and keep: "\<And>v t h. cacheOf (keep v t h) = Some v \<and> loadedAt (keep v t h) = t \<and> outside (keep v t h) = outside h"
    and out: "\<And>w h. cacheOf (h\<lparr>outside := w\<rparr>) = cacheOf h \<and> loadedAt (h\<lparr>outside := w\<rparr>) = loadedAt h"
  shows "after (attempt (loadRecords api n rd named) (\<lambda>(_, rs).
      do { now \<leftarrow> call (timeNow api); changeHost (keep (g rs) now); State_Monad.return (Inr (g rs)) }))
    (recentAnswer cacheOf loadedAt (\<lambda>c. g (recordList rd named c)) n T S lat (T (outside h)) (T (outside h))) h"
  unfolding after_attempt
proof (rule after_loadRecords [OF api _ _ refl], goal_cases)
  case (1 w s t)
  define rs where "rs = recordList rd named (S t n)"
  have "after (timeNow api) (\<lambda>now w'. recentAnswer cacheOf loadedAt (\<lambda>c. g (recordList rd named c)) n T S lat
      (T (outside h)) (T (outside h)) (Inr (g rs)) (keep (g rs) now (h\<lparr>outside := w'\<rparr>))) w"
  proof (rule after_now [OF api])
    fix w' assume "T w \<le> T w'"
    moreover have "\<exists>u. T w - lat \<le> u \<and> u \<le> T w \<and> g rs = g (recordList rd named (S u n))"
      by (rule exI [of _ t]) (use 1 in \<open>simp add: rs_def\<close>)
    moreover have "\<exists>u. T (outside h) \<le> u \<and> u \<le> T w' \<and> g rs = g (recordList rd named (S u n))"
      by (rule exI [of _ t]) (use 1 \<open>T w \<le> T w'\<close> in \<open>simp add: rs_def\<close>)
    ultimately show "recentAnswer cacheOf loadedAt (\<lambda>c. g (recordList rd named c)) n T S lat
      (T (outside h)) (T (outside h)) (Inr (g rs)) (keep (g rs) (T w) (h\<lparr>outside := w'\<rparr>))"
      using 1 keep [of "g rs" "T w" "h\<lparr>outside := w'\<rparr>"] by (simp add: recentAnswer_def fresh_def)
  qed
  then show ?case by (simp add: rs_def [symmetric])
next
  case (2 w e)
  have "fresh cacheOf loadedAt (\<lambda>c. g (recordList rd named c)) n T S lat (h\<lparr>outside := w\<rparr>)"
    using f 2 out [of w h] by (cases "cacheOf h") (auto simp: fresh_def)
  with 2 show ?case by (simp add: recentAnswer_def)
qed

lemma timely_lat: "timely api T S lat \<Longrightarrow> 0 \<le> lat"
proof -
  fix w
  assume api: "timely api T S lat"
  obtain r w' where "run_state (getSecret api []) w = (r, w')" by fastforce
  from timely_get [OF api this] show "0 \<le> lat" by simp
qed

lemma fresh_later:
  assumes "fresh cacheOf loadedAt view n T S lat h" "T (outside h) \<le> T w"
    and "\<And>w h. cacheOf (h\<lparr>outside := w\<rparr>) = cacheOf h \<and> loadedAt (h\<lparr>outside := w\<rparr>) = loadedAt h"
  shows "fresh cacheOf loadedAt view n T S lat (h\<lparr>outside := w\<rparr>)"
  using assms(1,2) assms(3) [of w h] by (cases "cacheOf h") (auto simp: fresh_def)

lemma recentAnswer_weaken:
  assumes "recentAnswer cacheOf loadedAt view n T S lat old1 start1 r h" "old2 \<le> old1" "start2 \<le> start1"
  shows "recentAnswer cacheOf loadedAt view n T S lat old2 start2 r h"
proof -
  have "\<exists>t. old2 \<le> t \<and> t \<le> T (outside h) \<and> m = view (S t n)" if r: "r = Inr m" for m
  proof -
    from assms(1) r obtain t where "old1 \<le> t" "t \<le> T (outside h)" "m = view (S t n)"
      unfolding recentAnswer_def by blast
    with assms(2) show ?thesis by (intro exI [of _ t]) simp
  qed
  then show ?thesis using assms(1,3) unfolding recentAnswer_def by simp
qed

text \<open>An answer out of a cache read at most \<open>ttl\<close> ago.\<close>

lemma cached_recent:
  assumes "fresh cacheOf loadedAt view n T S lat h" "cacheOf h = Some m" "T (outside h) - loadedAt h \<le> ttl"
    and "T (outside h) \<le> T w"
    and "\<And>w h. cacheOf (h\<lparr>outside := w\<rparr>) = cacheOf h \<and> loadedAt (h\<lparr>outside := w\<rparr>) = loadedAt h"
  shows "recentAnswer cacheOf loadedAt view n T S lat (T (outside h) - ttl - lat) (T (outside h)) (Inr m) (h\<lparr>outside := w\<rparr>)"
proof -
  obtain t where "loadedAt h - lat \<le> t" "t \<le> loadedAt h" "loadedAt h \<le> T (outside h)" "m = view (S t n)"
    using assms(1,2) by (auto simp: fresh_def)
  then have "T (outside h) - ttl - lat \<le> t \<and> t \<le> T w \<and> m = view (S t n)" using assms(3,4) by simp
  then show ?thesis
    using assms(4) fresh_later [OF assms(1,4,5)] unfolding recentAnswer_def by auto
qed

locale timed_cache =
  fixes look :: "('w, 'l) authority \<Rightarrow> ('w, 'l, authError + 'v) auth"
    and cacheOf :: "('w, 'l) host \<Rightarrow> 'v option"
    and loadedAt :: "('w, 'l) host \<Rightarrow> time"
    and view :: "contents \<Rightarrow> 'v"
    and n :: string
    and ttl :: duration
  assumes look_recent: "timely api T S lat \<Longrightarrow> fresh cacheOf loadedAt view n T S lat h \<Longrightarrow>
      after (look api) (recentAnswer cacheOf loadedAt view n T S lat (T (outside h) - ttl - lat) (T (outside h))) h"
begin

text \<open>What holds of the Secret from some time on holds of every answer once that long has passed.\<close>

lemma look_settled:
  assumes "timely api T S lat" "fresh cacheOf loadedAt view n T S lat h"
    and "\<And>t. t0 \<le> t \<Longrightarrow> P (view (S t n))" "t0 + ttl + lat \<le> T (outside h)"
  shows "after (look api) (\<lambda>r h'. \<forall>m. r = Inr m \<longrightarrow> P m) h"
proof (rule after_mono [OF look_recent [OF assms(1,2)]])
  fix r h'
  assume *: "recentAnswer cacheOf loadedAt view n T S lat (T (outside h) - ttl - lat) (T (outside h)) r h'"
  show "\<forall>m. r = Inr m \<longrightarrow> P m"
  proof (intro allI impI)
    fix m assume "r = Inr m"
    with * obtain t where "T (outside h) - ttl - lat \<le> t" "m = view (S t n)" unfolding recentAnswer_def by blast
    with assms(4) assms(3) [of t] show "P m" by simp
  qed
qed

end

end
