(* ===== verification/Tokens.thy ===== *)
theory Tokens
  imports SecretRecords
begin

section \<open>API tokens (internal/auth/tokens.go)\<close>

text \<open>
  Tokens for machine clients: listing, creating and deleting them in their Secret, and resolving
  a bearer token through the cache of hashes. The interpretations show that tokens are records
  of a Secret and that the cache keeps to its time to live; creating and deleting commit exactly
  the change of one record, whatever other clients write meanwhile.
\<close>

definition tokensSecretName :: string where "tokensSecretName = ''costdeck-api-tokens''"
definition TokenPrefix :: string where "TokenPrefix = ''cdk_''"
definition tokenCache :: duration where "tokenCache = 30 * second"

definition alnum :: "char \<Rightarrow> bool" where
  "alnum c \<longleftrightarrow> (let n = charCode c in (97 \<le> n \<and> n \<le> 122) \<or> isDigit c)"

text \<open>The name patterns: a letter or digit at both ends, these and the extra characters between,
  at most 63 in all.\<close>

definition namePattern :: "string \<Rightarrow> string \<Rightarrow> bool" where
  "namePattern extra s \<longleftrightarrow> s \<noteq> [] \<and> length s \<le> 63 \<and> alnum (hd s) \<and> alnum (last s)
     \<and> list_all (\<lambda>c. alnum c \<or> c \<in> set extra) s"

definition tokenNameOK :: "string \<Rightarrow> bool" where
  "tokenNameOK s \<longleftrightarrow> namePattern ''-'' s"

definition hashToken :: "string \<Rightarrow> string" where
  "hashToken token = encodeHex (sha256 token)"

definition setTokenName :: "string \<Rightarrow> TokenInfo \<Rightarrow> TokenInfo" where
  "setTokenName n t = t\<lparr>tkName := n\<rparr>"

definition loadTokens :: "('w, 'l) authority \<Rightarrow> ('w, 'l, authError + Secret option \<times> (string \<times> TokenInfo) list) auth" where
  "loadTokens api = loadRecords api tokensSecretName readToken setTokenName"

definition ListTokens :: "('w, 'l) authority \<Rightarrow> ('w, 'l, authError + TokenInfo list) auth" where
  "ListTokens api =
     attempt (loadTokens api) (\<lambda>(_, infos).
       State_Monad.return (Inr (sort_key tkName (map (\<lambda>(_, t). t\<lparr>tkHash := []\<rparr>) infos))))"

definition invalidateTokens :: "('w, 'l, unit) auth" where
  "invalidateTokens = changeHost (\<lambda>h. h\<lparr>tokensByHash := None\<rparr>)"

text \<open>The closure \<open>Create\<close> gives to \<open>RetryOnConflict\<close>.\<close>

definition putToken :: "('w, 'l) authority \<Rightarrow> string \<Rightarrow> string \<Rightarrow> ('w, 'l, authError + unit) auth" where
  "putToken api name data =
     attempt (loadTokens api) (\<lambda>(secret, infos).
       if name \<in> fst ` set infos
       then State_Monad.return (Inl (PlainError (''a token named '' @ quoted name @ '' already exists'')))
       else storeRecord api tokensSecretName secret name data)"

definition newToken :: "string \<Rightarrow> Role \<Rightarrow> duration \<Rightarrow> string \<Rightarrow> time \<Rightarrow> string \<Rightarrow> TokenInfo" where
  "newToken name role ttl creator now token =
     (let created = truncateTo second now
      in \<lparr>tkName = name, tkRole = role, tkCreatedAt = created, tkCreatedBy = creator,
          tkExpiresAt = (if 0 < ttl then Some (created + ttl) else None), tkHash = hashToken token\<rparr>)"

definition CreateToken :: "('w, 'l) authority \<Rightarrow> string \<Rightarrow> Role \<Rightarrow> duration \<Rightarrow> string
    \<Rightarrow> ('w, 'l, authError + string \<times> TokenInfo) auth" where
  "CreateToken api name role ttl creator =
     (if \<not> tokenNameOK name
      then State_Monad.return (Inl (PlainError ''token names are lower-case letters, digits and dashes (max 63)''))
      else if \<not> knownRole role then State_Monad.return (Inl (PlainError (''unknown role '' @ quoted role)))
      else attempt (toAuth (randomBytes api 32)) (\<lambda>raw.
        do { now \<leftarrow> call (timeNow api);
             let token = TokenPrefix @ encodeBase64 raw;
             let info = newToken name role ttl creator now token;
             case tokenText info of
               None \<Rightarrow> State_Monad.return (Inl (PlainError ''json''))
             | Some data \<Rightarrow>
                 attempt (retryOnConflict (moreAttempts api) (putToken api name data)) (\<lambda>_.
                   do { invalidateTokens;
                        State_Monad.return (Inr (token, info\<lparr>tkHash := []\<rparr>)) }) }))"

text \<open>The closure of \<open>Delete\<close>, and \<open>Delete\<close>.\<close>

definition dropToken :: "('w, 'l) authority \<Rightarrow> string \<Rightarrow> ('w, 'l, authError + unit) auth" where
  "dropToken api name =
     attempt (loadTokens api) (\<lambda>(secret, infos).
       case secret of
         None \<Rightarrow> State_Monad.return (Inl (TokenNotFound name))
       | Some s \<Rightarrow>
           if name \<notin> fst ` set infos then State_Monad.return (Inl (TokenNotFound name))
           else apiCall (updateSecret api (s\<lparr>secData := AList.delete name (secData s)\<rparr>)))"

definition DeleteToken :: "('w, 'l) authority \<Rightarrow> string \<Rightarrow> ('w, 'l, authError + unit) auth" where
  "DeleteToken api name =
     do { r \<leftarrow> retryOnConflict (moreAttempts api) (dropToken api name);
          changeHost (\<lambda>h. h\<lparr>tokensByHash := None\<rparr>);
          State_Monad.return r }"

subsection \<open>Resolving a bearer token\<close>

definition byHash :: "(string \<times> TokenInfo) list \<Rightarrow> (string \<times> TokenInfo) list" where
  "byHash infos = foldl (\<lambda>m (_, t). AList.update (tkHash t) t m) [] infos"

text \<open>The part of \<open>Authenticate\<close> that reads the cache, or the Secret when it is stale.\<close>

definition reloadTokens :: "('w, 'l) authority \<Rightarrow> ('w, 'l, authError + (string \<times> TokenInfo) list) auth" where
  "reloadTokens api =
     attempt (loadTokens api) (\<lambda>(_, infos).
       do { now \<leftarrow> call (timeNow api);
            changeHost (\<lambda>h. h\<lparr>tokensByHash := Some (byHash infos), tokensLoadedAt := now\<rparr>);
            State_Monad.return (Inr (byHash infos)) })"

definition currentTokens :: "('w, 'l) authority \<Rightarrow> ('w, 'l, authError + (string \<times> TokenInfo) list) auth" where
  "currentTokens api =
     do { h \<leftarrow> State_Monad.get;
          now \<leftarrow> call (timeNow api);
          case tokensByHash h of
            Some m \<Rightarrow> if tokenCache < now - tokensLoadedAt h then reloadTokens api else State_Monad.return (Inr m)
          | None \<Rightarrow> reloadTokens api }"

definition tokenIdentity :: "TokenInfo \<Rightarrow> Identity" where
  "tokenIdentity t =
     \<lparr>idSubject = ''token:'' @ tkName t, idName = tkName t, idEmail = [], idRole = tkRole t, idProvider = ''token'',
      idExpiresAt = 0, idIssuedAt = 0, idMustChange = False\<rparr>"

definition AuthenticateToken :: "('w, 'l) authority \<Rightarrow> string \<Rightarrow> ('w, 'l, Identity option) auth" where
  "AuthenticateToken api token =
     (if \<not> hasPrefix token TokenPrefix then State_Monad.return None
      else do { r \<leftarrow> currentTokens api;
                case r of
                  Inl _ \<Rightarrow> State_Monad.return None
                | Inr m \<Rightarrow>
                    (case map_of m (hashToken token) of
                       None \<Rightarrow> State_Monad.return None
                     | Some t \<Rightarrow>
                         (case tkExpiresAt t of
                            None \<Rightarrow> State_Monad.return (Some (tokenIdentity t))
                          | Some e \<Rightarrow>
                              do { now \<leftarrow> call (timeNow api);
                                   State_Monad.return (if e < now then None else Some (tokenIdentity t)) })) })"

subsection \<open>Tokens are records of a Secret\<close>

interpretation token_records: secret_records readToken setTokenName tokenText "\<lambda>_. True"
  by unfold_locales (rule readToken_text)

abbreviation tokenMap :: "contents \<Rightarrow> (string \<rightharpoonup> TokenInfo)" where
  "tokenMap \<equiv> recordsOf readToken setTokenName"

lemma putToken_commits:
  assumes api: "optimistic api H" and t: "tokenText t = Some data"
  shows "commits H tokensSecretName (\<lambda>c d _. tokenMap c name = None \<and> tokenMap (Some d) = (tokenMap c)(name \<mapsto> setTokenName name t))
    (putToken api name data)"
  unfolding putToken_def loadTokens_def
  by (rule commits_loadRecords [OF api])
    (auto simp: mem_keys token_records.records_set [OF t] token_records.records_new [OF t] token_records.records_none
      intro!: writesOn_fail writesOn_store [OF api])

lemma dropToken_commits:
  assumes api: "optimistic api H"
  shows "commits H tokensSecretName (\<lambda>c d _. tokenMap c name \<noteq> None \<and> tokenMap (Some d) = (tokenMap c)(name := None))
    (dropToken api name)"
  unfolding dropToken_def loadTokens_def
  by (rule commits_loadRecords [OF api])
    (auto simp: mem_keys token_records.records_delete intro!: writesOn_fail writesOn_update [OF api])

lemma grows_putToken: "optimistic api H \<Longrightarrow> grows H (putToken api name data)"
  unfolding putToken_def loadTokens_def
  by (auto intro!: grows_attempt grows_loadRecords grows_storeRecord grows_return)

lemma grows_dropToken: "optimistic api H \<Longrightarrow> grows H (dropToken api name)"
  unfolding dropToken_def loadTokens_def
  by (auto intro!: grows_attempt grows_loadRecords grows_apiCall optimistic_growing grows_return split: option.split)

lemma CreateToken_commits:
  assumes api: "optimistic api H"
  shows "commits H tokensSecretName (\<lambda>c d (token, info).
      tokenNameOK name \<and> knownRole role \<and> tokenMap c name = None \<and>
      (\<exists>t. tokenMap (Some d) = (tokenMap c)(name \<mapsto> t) \<and> tkName t = name \<and> tkRole t = role \<and> tkHash t = hashToken token
           \<and> info = t\<lparr>tkHash := []\<rparr>))
    (CreateToken api name role ttl creator)"
    (is "commits H _ ?R _")
proof (cases "tokenNameOK name \<and> knownRole role")
  case True
  have "commits H tokensSecretName ?R
      (do { now \<leftarrow> call (timeNow api);
            case tokenText (newToken name role ttl creator now token) of
              None \<Rightarrow> State_Monad.return (Inl (PlainError ''json''))
            | Some data \<Rightarrow>
                attempt (retryOnConflict (moreAttempts api) (putToken api name data)) (\<lambda>_.
                  do { invalidateTokens;
                       State_Monad.return (Inr (token, newToken name role ttl creator now token\<lparr>tkHash := []\<rparr>)) }) })"
    for token
  proof (intro commits_bind grows_call optimistic_growing [OF api])
    fix now
    define t where "t = newToken name role ttl creator now token"
    have t: "tkName t = name" "tkRole t = role" "tkHash t = hashToken token" "setTokenName name t = t"
      by (simp_all add: t_def newToken_def Let_def setTokenName_def)
    have "commits H tokensSecretName ?R
        (attempt (retryOnConflict (moreAttempts api) (putToken api name data)) (\<lambda>_.
          do { invalidateTokens; State_Monad.return (Inr (token, t\<lparr>tkHash := []\<rparr>)) }))"
      if "tokenText t = Some data" for data
      unfolding invalidateTokens_def
    proof (rule commits_finish [where g = "\<lambda>_. (token, t\<lparr>tkHash := []\<rparr>)"])
      show "commits H tokensSecretName (\<lambda>c d x. ?R c d (token, t\<lparr>tkHash := []\<rparr>))
          (retryOnConflict (moreAttempts api) (putToken api name data))"
        by (rule commits_mono [OF commits_retry [OF grows_putToken [OF api] putToken_commits [OF api that]]])
          (use True t in auto)
    qed simp
    then show "commits H tokensSecretName ?R (case tokenText (newToken name role ttl creator now token) of
              None \<Rightarrow> State_Monad.return (Inl (PlainError ''json''))
            | Some data \<Rightarrow>
                attempt (retryOnConflict (moreAttempts api) (putToken api name data)) (\<lambda>_.
                  do { invalidateTokens;
                       State_Monad.return (Inr (token, newToken name role ttl creator now token\<lparr>tkHash := []\<rparr>)) }))"
      by (simp add: t_def commits_fail split: option.split)
  qed
  with True show ?thesis
    unfolding CreateToken_def Let_def
    by (auto intro!: commits_attempt grows_toAuth optimistic_growing [OF api])
qed (auto simp: CreateToken_def commits_fail)

lemma DeleteToken_commits:
  assumes "optimistic api H"
  shows "commits H tokensSecretName (\<lambda>c d _. tokenMap c name \<noteq> None \<and> tokenMap (Some d) = (tokenMap c)(name := None))
    (DeleteToken api name)"
  unfolding DeleteToken_def
  by (rule commits_then [OF commits_retry [OF grows_dropToken dropToken_commits]]) (simp_all add: assms)

subsection \<open>The cache of tokens\<close>

abbreviation tokenView :: "contents \<Rightarrow> (string \<times> TokenInfo) list" where
  "tokenView c \<equiv> byHash (recordList readToken setTokenName c)"

lemma reloadTokens_recent:
  assumes "timely api T S lat" "fresh tokensByHash tokensLoadedAt tokenView tokensSecretName T S lat h"
  shows "after (reloadTokens api)
    (recentAnswer tokensByHash tokensLoadedAt tokenView tokensSecretName T S lat (T (outside h)) (T (outside h))) h"
  unfolding reloadTokens_def loadTokens_def
  by (rule reload_recent [OF assms, where keep = "\<lambda>v t h. h\<lparr>tokensByHash := Some v, tokensLoadedAt := t\<rparr>"]) simp_all

interpretation token_cache: timed_cache currentTokens tokensByHash tokensLoadedAt tokenView tokensSecretName tokenCache
proof
  fix api :: "('w, 'l) authority" and T :: "'w \<Rightarrow> time" and S lat and h :: "('w, 'l) host"
  assume api: "timely api T S lat" and f: "fresh tokensByHash tokensLoadedAt tokenView tokensSecretName T S lat h"
  show "after (currentTokens api)
      (recentAnswer tokensByHash tokensLoadedAt tokenView tokensSecretName T S lat (T (outside h) - tokenCache - lat) (T (outside h))) h"
    unfolding currentTokens_def after_bind after_get after_call
  proof (rule after_now [OF api], goal_cases)
    case (1 w)
    have "after (reloadTokens api)
        (recentAnswer tokensByHash tokensLoadedAt tokenView tokensSecretName T S lat (T (outside h) - tokenCache - lat) (T (outside h)))
        (h\<lparr>outside := w\<rparr>)"
      by (rule after_mono [OF reloadTokens_recent [OF api fresh_later [OF f 1]]], simp)
        (erule recentAnswer_weaken, use 1 timely_lat [OF api] in \<open>simp_all add: tokenCache_def\<close>)
    then show ?case
      using cached_recent [OF f _ _ 1] by (auto split: option.split)
  qed
qed

text \<open>A token is only resolved to an identity out of a record with its hash.\<close>

lemma byHash_find: "map_of (byHash rs) x = Some t \<Longrightarrow> \<exists>k. (k, t) \<in> set rs \<and> tkHash t = x"
proof -
  have "map_of (foldl (\<lambda>m (_, t). AList.update (tkHash t) t m) m rs) x = Some t \<Longrightarrow>
      map_of m x = Some t \<or> (\<exists>k. (k, t) \<in> set rs \<and> tkHash t = x)" for m
  proof (induction rs arbitrary: m)
    case (Cons r rs)
    obtain k u where "r = (k, u)" by fastforce
    with Cons.IH [of "AList.update (tkHash u) u m"] Cons.prems show ?case
      by (auto simp: update_conv' split: if_splits)
  qed simp
  from this [of "[]"] show "map_of (byHash rs) x = Some t \<Longrightarrow> ?thesis" by (simp add: byHash_def)
qed

definition tokenValid :: "string \<Rightarrow> time \<Rightarrow> (string \<times> TokenInfo) list \<Rightarrow> Identity \<Rightarrow> bool" where
  "tokenValid token now m i \<longleftrightarrow>
     (\<exists>t. map_of m (hashToken token) = Some t \<and> i = tokenIdentity t
          \<and> (case tkExpiresAt t of None \<Rightarrow> True | Some e \<Rightarrow> now \<le> e))"

text \<open>Who gets an identity holds a token of the cache's view, not expired when the request came. \<open>P\<close> is
  what is known of the view at a time.\<close>

lemma AuthenticateToken_view:
  assumes api: "timely api T S lat" and f: "fresh tokensByHash tokensLoadedAt tokenView tokensSecretName T S lat h"
    and P: "after (currentTokens api) (\<lambda>r h'. \<forall>m. r = Inr m \<longrightarrow> P m (T (outside h'))) h"
    and later: "\<And>m a b. a \<le> b \<Longrightarrow> P m a \<Longrightarrow> P m b"
  shows "after (AuthenticateToken api token) (\<lambda>r h'. T (outside h) \<le> T (outside h')
      \<and> fresh tokensByHash tokensLoadedAt tokenView tokensSecretName T S lat h'
      \<and> (\<forall>i. r = Some i \<longrightarrow> (\<exists>m. P m (T (outside h')) \<and> tokenValid token (T (outside h)) m i))) h"
proof (cases "hasPrefix token TokenPrefix")
  case True
  let ?Q = "\<lambda>r h'. T (outside h) \<le> T (outside h')
      \<and> fresh tokensByHash tokensLoadedAt tokenView tokensSecretName T S lat h'
      \<and> (\<forall>i. r = Some i \<longrightarrow> (\<exists>m. P m (T (outside h')) \<and> tokenValid token (T (outside h)) m i))"
  have "after (currentTokens api) (\<lambda>r h'. T (outside h) \<le> T (outside h')
      \<and> fresh tokensByHash tokensLoadedAt tokenView tokensSecretName T S lat h' \<and> (\<forall>m. r = Inr m \<longrightarrow> P m (T (outside h')))) h"
    using token_cache.look_recent [OF api f] P by (auto simp: after_def recentAnswer_def)
  then have "after (currentTokens api) (\<lambda>r. after (case r of
      Inl _ \<Rightarrow> State_Monad.return None
    | Inr m \<Rightarrow> (case map_of m (hashToken token) of
         None \<Rightarrow> State_Monad.return None
       | Some t \<Rightarrow> (case tkExpiresAt t of
            None \<Rightarrow> State_Monad.return (Some (tokenIdentity t))
          | Some e \<Rightarrow> do { now \<leftarrow> call (timeNow api);
                        State_Monad.return (if e < now then None else Some (tokenIdentity t)) }))) ?Q) h"
  proof (rule after_mono, goal_cases)
    case (1 r h')
    show ?case
    proof (cases r)
      case (Inr m)
      show ?thesis
      proof (cases "map_of m (hashToken token)")
        case (Some t)
        have m: "P m (T (outside h'))" using 1 Inr by simp
        show ?thesis
        proof (cases "tkExpiresAt t")
          case None
          with 1 m Inr Some show ?thesis by (auto simp: tokenValid_def)
        next
          case e: (Some e)
          have "after (timeNow api) (\<lambda>now w'. ?Q (if e < now then None else Some (tokenIdentity t)) (h'\<lparr>outside := w'\<rparr>)) (outside h')"
          proof (rule after_now [OF api])
            fix w' assume w': "T (outside h') \<le> T w'"
            have "fresh tokensByHash tokensLoadedAt tokenView tokensSecretName T S lat (h'\<lparr>outside := w'\<rparr>)"
              by (rule fresh_later [OF _ w']) (use 1 in simp_all)
            with 1 Some e w' later [OF w' m]
            show "?Q (if e < T (outside h') then None else Some (tokenIdentity t)) (h'\<lparr>outside := w'\<rparr>)"
              by (auto simp: tokenValid_def)
          qed
          with Inr Some e show ?thesis by simp
        qed
      qed (use 1 Inr in simp)
    qed (use 1 in simp)
  qed
  with True show ?thesis by (simp add: AuthenticateToken_def)
qed (use f in \<open>simp add: AuthenticateToken_def\<close>)

end
