(* ===== verification/Users.thy ===== *)
theory Users
  imports Tokens
begin

section \<open>Local users (internal/auth/users.go)\<close>

text \<open>
  Accounts with a password: creating, changing, and deleting them in their Secret under
  optimistic concurrency, checking a password against the Secret itself and a session against
  the cached accounts. What bcrypt spends on names that do not exist, to take as long as for one
  that does, is not modelled: only the answer is.

  The lemmas give, for every operation, the change of the accounts it commits, that well-formed
  accounts stay so, and that a session ends with its account.
\<close>

definition usersSecretName :: string where "usersSecretName = ''costdeck-users''"
definition MinPasswordLength :: nat where "MinPasswordLength = 12"
definition maxPasswordLength :: nat where "maxPasswordLength = 72"
definition userCache :: duration where "userCache = 30 * second"
definition userSubjectPrefix :: string where "userSubjectPrefix = ''user:''"

definition userNameOK :: "string \<Rightarrow> bool" where
  "userNameOK s \<longleftrightarrow> namePattern ''._-'' s"

record UserPatch =
  upName :: "string option"
  upEmail :: "string option"
  upRole :: "Role option"
  upDisabled :: "bool option"

subsection \<open>Reading the accounts\<close>

definition setUsername :: "string \<Rightarrow> User \<Rightarrow> User" where
  "setUsername n u = u\<lparr>usUsername := n\<rparr>"

definition loadUsers :: "('w, 'l) authority \<Rightarrow> ('w, 'l, authError + Secret option \<times> (string \<times> User) list) auth" where
  "loadUsers api = loadRecords api usersSecretName readUser setUsername"

definition reloadUsers :: "('w, 'l) authority \<Rightarrow> ('w, 'l, authError + (string \<times> User) list) auth" where
  "reloadUsers api =
     attempt (loadUsers api) (\<lambda>(_, users).
       do { now \<leftarrow> call (timeNow api);
            changeHost (\<lambda>h. h\<lparr>usersByName := Some users, usersLoadedAt := now\<rparr>);
            State_Monad.return (Inr users) })"

definition cachedUsers :: "('w, 'l) authority \<Rightarrow> ('w, 'l, authError + (string \<times> User) list) auth" where
  "cachedUsers api =
     do { h \<leftarrow> State_Monad.get;
          case usersByName h of
            None \<Rightarrow> reloadUsers api
          | Some users \<Rightarrow>
              do { now \<leftarrow> call (timeNow api);
                   if now - usersLoadedAt h < userCache then State_Monad.return (Inr users) else reloadUsers api } }"

definition AnyUser :: "('w, 'l) authority \<Rightarrow> ('w, 'l, bool) auth" where
  "AnyUser api =
     do { r \<leftarrow> cachedUsers api;
          State_Monad.return (case r of Inl _ \<Rightarrow> False | Inr users \<Rightarrow> list_ex (\<lambda>(_, u). \<not> usDisabled u) users) }"

definition ListUsers :: "('w, 'l) authority \<Rightarrow> ('w, 'l, authError + User list) auth" where
  "ListUsers api =
     attempt (loadUsers api) (\<lambda>(_, users).
       State_Monad.return (Inr (sort_key usUsername (map (\<lambda>(_, u). u\<lparr>usHash := []\<rparr>) users))))"

subsection \<open>Checks\<close>

text \<open>\<open>utf8.RuneCountInString\<close> of valid UTF-8: the bytes that do not continue a rune.\<close>

definition runeCount :: "string \<Rightarrow> nat" where
  "runeCount s = length (filter (\<lambda>c. \<not> (128 \<le> charCode c \<and> charCode c < 192)) s)"

definition validateProfile :: "User \<Rightarrow> authError + User" where
  "validateProfile u =
     (let v = u\<lparr>usName := trimSpace (usName u), usEmail := trimSpace (usEmail u)\<rparr>
      in if \<not> knownRole (usRole v) then Inl (InvalidUser ''role must be viewer, operator or admin'')
         else if 100 < runeCount (usName v) \<or> 254 < length (usEmail v)
         then Inl (InvalidUser ''the name or email is too long'')
         else if usEmail v \<noteq> [] \<and> (CHR ''@'' \<notin> set (usEmail v)
                \<or> list_ex (\<lambda>c. c \<in> {CHR '' '', CHR 0x09, CHR 0x0D, CHR 0x0A}) (usEmail v))
         then Inl (InvalidUser (quoted (usEmail v) @ '' is not an email address''))
         else Inr v)"

definition hashPassword :: "('w, 'l) authority \<Rightarrow> string \<Rightarrow> ('w, 'l, authError + string) auth" where
  "hashPassword api password =
     (if runeCount password < MinPasswordLength
      then State_Monad.return (Inl (InvalidUser (''passwords have at least '' @ itoa (int MinPasswordLength) @ '' characters'')))
      else if maxPasswordLength < length password
      then State_Monad.return (Inl (InvalidUser (''passwords have at most '' @ itoa (int maxPasswordLength) @ '' bytes'')))
      else toAuth (bcryptHash api password))"

definition GeneratePassword :: "('w, 'l) authority \<Rightarrow> ('w, 'l, string) auth" where
  "GeneratePassword api = call (randomText api)"

subsection \<open>Changing an account\<close>

text \<open>The closure of \<open>write\<close>: \<open>change\<close> says what becomes of the account, nothing to delete it. Without
  a Secret there is no account to delete; the code would stop with a nil pointer.\<close>

definition putUser :: "('w, 'l) authority \<Rightarrow> string \<Rightarrow> ((string \<times> User) list \<Rightarrow> ('w, 'l, authError + User option) auth)
    \<Rightarrow> ('w, 'l, authError + User option) auth" where
  "putUser api username change =
     attempt (loadUsers api) (\<lambda>(secret, users).
     attempt (change users) (\<lambda>changed.
       case changed of
         None \<Rightarrow>
           (case secret of
              None \<Rightarrow> State_Monad.return (Inl (PlainError ''nil pointer''))
            | Some s \<Rightarrow>
                attempt (apiCall (updateSecret api (s\<lparr>secData := AList.delete username (secData s)\<rparr>))) (\<lambda>_.
                State_Monad.return (Inr None)))
       | Some u \<Rightarrow>
           (case userText (u\<lparr>usUsername := []\<rparr>) of
              None \<Rightarrow> State_Monad.return (Inl (PlainError ''json''))
            | Some data \<Rightarrow>
                attempt (storeRecord api usersSecretName secret username data) (\<lambda>_.
                State_Monad.return (Inr (Some u))))))"

definition writeUser :: "('w, 'l) authority \<Rightarrow> string \<Rightarrow> ((string \<times> User) list \<Rightarrow> ('w, 'l, authError + User option) auth)
    \<Rightarrow> ('w, 'l, authError + User option) auth" where
  "writeUser api username change =
     do { r \<leftarrow> retryOnConflict (moreAttempts api) (putUser api username change);
          changeHost (\<lambda>h. h\<lparr>usersByName := None\<rparr>);
          State_Monad.return r }"

definition addedUser :: "User \<Rightarrow> string \<Rightarrow> time \<Rightarrow> string \<Rightarrow> bool \<Rightarrow> User" where
  "addedUser u hash now by_whom mustChange =
     u\<lparr>usHash := hash, usCreatedAt := truncateTo second now, usCreatedBy := by_whom,
       usPasswordChangedAt := truncateTo second now, usMustChange := mustChange, usDisabled := False\<rparr>"

definition CreateUser :: "('w, 'l) authority \<Rightarrow> string \<Rightarrow> User \<Rightarrow> string \<Rightarrow> bool \<Rightarrow> string
    \<Rightarrow> ('w, 'l, authError + User) auth" where
  "CreateUser api reserved user password mustChange by_whom =
     (let name = toLower (trimSpace (usUsername user)); u = user\<lparr>usUsername := name\<rparr>
      in if \<not> userNameOK name
         then State_Monad.return (Inl (InvalidUser
                ''user names are lower-case letters, digits, dots, dashes and underscores (max 63)''))
         else if reserved \<noteq> [] \<and> name = toLower reserved
         then State_Monad.return (Inl (InvalidUser (quoted name @ '' is the built-in admin account'')))
         else attempt (State_Monad.return (validateProfile u)) (\<lambda>v.
              attempt (hashPassword api password) (\<lambda>hash.
              do { now \<leftarrow> call (timeNow api);
                   let w = addedUser v hash now by_whom mustChange;
                   attempt (writeUser api name (\<lambda>existing.
                       State_Monad.return (if name \<in> fst ` set existing
                         then Inl (InvalidUser (''a user named '' @ quoted name @ '' already exists''))
                         else Inr (Some w)))) (\<lambda>_.
                   State_Monad.return (Inr (w\<lparr>usHash := []\<rparr>))) })))"

definition patchedUser :: "UserPatch \<Rightarrow> User \<Rightarrow> User" where
  "patchedUser p u =
     u\<lparr>usName := (case upName p of Some x \<Rightarrow> x | None \<Rightarrow> usName u),
       usEmail := (case upEmail p of Some x \<Rightarrow> x | None \<Rightarrow> usEmail u),
       usRole := (case upRole p of Some x \<Rightarrow> x | None \<Rightarrow> usRole u),
       usDisabled := (case upDisabled p of Some x \<Rightarrow> x | None \<Rightarrow> usDisabled u)\<rparr>"

definition UpdateUser :: "('w, 'l) authority \<Rightarrow> string \<Rightarrow> UserPatch \<Rightarrow> ('w, 'l, authError + User) auth" where
  "UpdateUser api username patch =
     attempt (writeUser api username (\<lambda>existing.
         State_Monad.return (case map_of existing username of
             None \<Rightarrow> Inl UserNotFound
           | Some u \<Rightarrow> map_sum id Some (validateProfile (patchedUser patch u))))) (\<lambda>out.
     State_Monad.return (case out of
         Some u \<Rightarrow> Inr (u\<lparr>usHash := []\<rparr>)
       | None \<Rightarrow> Inl (PlainError ''nothing written''))) "

definition SetPassword :: "('w, 'l) authority \<Rightarrow> string \<Rightarrow> string \<Rightarrow> bool \<Rightarrow> ('w, 'l, authError + unit) auth" where
  "SetPassword api username password mustChange =
     attempt (hashPassword api password) (\<lambda>hash.
     attempt (writeUser api username (\<lambda>existing.
         case map_of existing username of
           None \<Rightarrow> State_Monad.return (Inl UserNotFound)
         | Some u \<Rightarrow>
             do { now \<leftarrow> call (timeNow api);
                  State_Monad.return (Inr (Some (u\<lparr>usHash := hash, usMustChange := mustChange,
                    usPasswordChangedAt := truncateTo second now\<rparr>))) })) (\<lambda>_.
     State_Monad.return (Inr ())))"

definition DeleteUser :: "('w, 'l) authority \<Rightarrow> string \<Rightarrow> ('w, 'l, authError + unit) auth" where
  "DeleteUser api username =
     attempt (writeUser api username (\<lambda>existing.
         State_Monad.return (if username \<in> fst ` set existing then Inr None else Inl UserNotFound))) (\<lambda>_.
     State_Monad.return (Inr ()))"

subsection \<open>Signing in, and sessions\<close>

definition AuthenticateUser :: "('w, 'l) authority \<Rightarrow> string \<Rightarrow> string \<Rightarrow> ('w, 'l, authError + User) auth" where
  "AuthenticateUser api username password =
     attempt (loadUsers api) (\<lambda>(_, users).
       State_Monad.return (case map_of users (toLower (trimSpace username)) of
           None \<Rightarrow> Inl UserNotFound
         | Some u \<Rightarrow>
             if \<not> bcryptMatches api (usHash u) password then Inl UserNotFound
             else if usDisabled u then Inl UserDisabled
             else Inr (u\<lparr>usHash := []\<rparr>)))"

text \<open>The account a session is checked against.\<close>

definition sessionAccount :: "(string \<times> User) list \<Rightarrow> Identity \<Rightarrow> authError + User" where
  "sessionAccount users i =
     (case map_of users (trimPrefix (idSubject i) userSubjectPrefix) of
        None \<Rightarrow> Inl UserNotFound
      | Some u \<Rightarrow>
          if usDisabled u then Inl UserDisabled
          else if 0 < idIssuedAt i \<and> idIssuedAt i < unixOf (usPasswordChangedAt u)
          then Inl (PlainError ''the password was changed; sign in again'')
          else Inr (u\<lparr>usHash := []\<rparr>))"

definition SessionUser :: "('w, 'l) authority \<Rightarrow> Identity \<Rightarrow> ('w, 'l, authError + User) auth" where
  "SessionUser api i =
     attempt (cachedUsers api) (\<lambda>users. State_Monad.return (sessionAccount users i))"

fun firstNonEmpty :: "string list \<Rightarrow> string" where
  "firstNonEmpty [] = []"
| "firstNonEmpty (v # vs) = (if v \<noteq> [] then v else firstNonEmpty vs)"

definition userIdentity :: "User \<Rightarrow> Identity" where
  "userIdentity u =
     \<lparr>idSubject = userSubjectPrefix @ usUsername u, idName = firstNonEmpty [usName u, usUsername u],
      idEmail = usEmail u, idRole = usRole u, idProvider = ''local'', idExpiresAt = 0, idIssuedAt = 0,
      idMustChange = usMustChange u\<rparr>"

definition ManagedUser :: "Identity option \<Rightarrow> string option" where
  "ManagedUser i = (case i of None \<Rightarrow> None | Some i \<Rightarrow> cutPrefix (idSubject i) userSubjectPrefix)"

subsection \<open>Users are records of a Secret\<close>

interpretation user_records: secret_records readUser setUsername userText "\<lambda>_. True"
  by unfold_locales (rule readUser_text)

abbreviation accounts :: "contents \<Rightarrow> (string \<rightharpoonup> User)" where
  "accounts \<equiv> recordsOf readUser setUsername"

lemma accounts_named: "accounts c k = Some u \<Longrightarrow> usUsername u = k"
  by (auto simp: recordsOf_def setUsername_def)

lemma setUsername_again [simp]: "setUsername k (u\<lparr>usUsername := n\<rparr>) = setUsername k u"
  by (simp add: setUsername_def)

lemma putUser_commits:
  assumes api: "optimistic api H" and g: "\<And>us. grows H (change us)"
    and P: "\<And>us h x h'. run_state (change us) h = (Inr x, h') \<Longrightarrow> P (map_of us) x"
  shows "commits H usersSecretName (\<lambda>c d x. P (accounts c) x
      \<and> accounts (Some d) = (accounts c)(username := map_option (setUsername username) x))
    (putUser api username change)"
    (is "commits H _ ?R _")
  unfolding putUser_def loadUsers_def
proof (rule commits_loadRecords [OF api], goal_cases)
  case (1 s rs)
  note s = 1
  show ?case
    unfolding prod.case
  proof (rule writesOn_attempt [OF g], goal_cases)
    case (1 h x h')
    from P [OF this, unfolded s(2)] s(1) show ?case
      by (auto intro!: writesOn_fail writesOn_answer writesOn_update [OF api] writesOn_store [OF api]
        simp: user_records.records_set user_records.records_delete split: option.split)
  qed
next
  case 2
  show ?case
    unfolding prod.case
  proof (rule writesOn_attempt [OF g], goal_cases)
    case (1 h x h')
    from P [OF this] show ?case
      by (auto intro!: writesOn_fail writesOn_answer writesOn_store [OF api]
        simp: user_records.records_new user_records.records_none split: option.split)
  qed
qed

lemma grows_putUser: "optimistic api H \<Longrightarrow> (\<And>us. grows H (change us)) \<Longrightarrow> grows H (putUser api username change)"
  unfolding putUser_def loadUsers_def
  by (auto intro!: grows_attempt grows_loadRecords grows_storeRecord grows_apiCall optimistic_growing grows_return split: option.split)

lemma writeUser_commits:
  assumes "optimistic api H" "\<And>us. grows H (change us)"
    and "\<And>us h x h'. run_state (change us) h = (Inr x, h') \<Longrightarrow> P (map_of us) x"
  shows "commits H usersSecretName (\<lambda>c d x. P (accounts c) x
      \<and> accounts (Some d) = (accounts c)(username := map_option (setUsername username) x))
    (writeUser api username change)"
  unfolding writeUser_def
  by (rule commits_then [OF commits_retry [OF grows_putUser [OF assms(1,2)] putUser_commits [OF assms(1,2)]]])
    (simp_all add: assms(3))

text \<open>What bcrypt promises: a hash made of a password matches it.\<close>

definition bcryptOK :: "('w, 'l) authority \<Rightarrow> bool" where
  "bcryptOK api \<longleftrightarrow> (\<forall>p w h w'. run_state (bcryptHash api p) w = (Inr h, w') \<longrightarrow> bcryptMatches api h p)"

definition passwordOK :: "string \<Rightarrow> bool" where
  "passwordOK p \<longleftrightarrow> MinPasswordLength \<le> runeCount p \<and> length p \<le> maxPasswordLength"

lemma hashPassword_matches:
  assumes "bcryptOK api" "run_state (hashPassword api p) h = (Inr hash, h')"
  shows "passwordOK p \<and> bcryptMatches api hash p"
  using assms unfolding hashPassword_def bcryptOK_def passwordOK_def toAuth_def call_def map_sum_def
  by (auto split: if_splits prod.splits sum.splits)

lemma grows_hashPassword: "optimistic api H \<Longrightarrow> grows H (hashPassword api p)"
  unfolding hashPassword_def by (auto intro!: grows_return grows_toAuth optimistic_growing)

subsection \<open>What the operations commit\<close>

lemma CreateUser_commits:
  assumes api: "optimistic api H" "bcryptOK api"
  shows "commits H usersSecretName (\<lambda>c d v.
      \<exists>k u hash now. k = toLower (trimSpace (usUsername user)) \<and> userNameOK k \<and> (reserved \<noteq> [] \<longrightarrow> k \<noteq> toLower reserved)
        \<and> validateProfile (user\<lparr>usUsername := k\<rparr>) = Inr u \<and> passwordOK password \<and> bcryptMatches api hash password
        \<and> accounts c k = None \<and> accounts (Some d) = (accounts c)(k \<mapsto> addedUser u hash now creator mustChange)
        \<and> v = addedUser u [] now creator mustChange)
    (CreateUser api reserved user password mustChange creator)"
    (is "commits H _ ?R _")
proof -
  define k where "k = toLower (trimSpace (usUsername user))"
  show ?thesis
  proof (cases "\<not> userNameOK k \<or> (reserved \<noteq> [] \<and> k = toLower reserved) \<or> (\<exists>e. validateProfile (user\<lparr>usUsername := k\<rparr>) = Inl e)")
    case True
    then show ?thesis
      by (auto simp: CreateUser_def Let_def k_def attempt_def intro!: commits_fail)
  next
    case False
    then obtain u where u: "validateProfile (user\<lparr>usUsername := k\<rparr>) = Inr u" by (cases "validateProfile (user\<lparr>usUsername := k\<rparr>)") auto
    then have uk: "usUsername u = k" by (auto simp: validateProfile_def Let_def split: if_splits)
    have "commits H usersSecretName ?R (attempt (hashPassword api password) (\<lambda>hash.
              do { now \<leftarrow> call (timeNow api);
                   let w = addedUser u hash now creator mustChange;
                   attempt (writeUser api k (\<lambda>existing.
                       State_Monad.return (if k \<in> fst ` set existing
                         then Inl (InvalidUser (''a user named '' @ quoted k @ '' already exists''))
                         else Inr (Some w)))) (\<lambda>_.
                   State_Monad.return (Inr (w\<lparr>usHash := []\<rparr>))) }))"
    proof (intro commits_attempt_run commits_bind grows_hashPassword api grows_call optimistic_growing [OF api(1)], goal_cases)
      case (1 h hash h' now)
      note p = hashPassword_matches [OF api(2) 1]
      define w where "w = addedUser u hash now creator mustChange"
      have w: "setUsername k w = w" by (simp add: w_def addedUser_def setUsername_def uk)
      have "commits H usersSecretName ?R (attempt (writeUser api k (\<lambda>existing.
          State_Monad.return (if k \<in> fst ` set existing
            then Inl (InvalidUser (''a user named '' @ quoted k @ '' already exists'')) else Inr (Some w)))) (\<lambda>_.
          State_Monad.return (Inr (w\<lparr>usHash := []\<rparr>))))"
      proof (rule commits_answer, rule commits_mono [OF writeUser_commits [OF api(1), where P = "\<lambda>m x. m k = None \<and> x = Some w"]], goal_cases)
        case (1 us)
        show ?case by (rule grows_return)
      next
        case (2 us h x h')
        then show ?case using mem_keys [OF refl, of k us] by (simp split: if_splits)
      next
        case (3 c d x)
        with False u p show ?case
          by - (intro allI impI, rule exI [of _ k], rule exI [of _ u], rule exI [of _ hash], rule exI [of _ now],
              auto simp: k_def [symmetric] w w_def [symmetric], auto simp: w_def addedUser_def)
      qed
      then show ?case by (simp only: w_def Let_def)
    qed
    moreover have "userNameOK k" "\<not> (reserved \<noteq> [] \<and> k = toLower reserved)" using False by auto
    ultimately show ?thesis
      by (simp only: CreateUser_def Let_def k_def [symmetric] u attempt_Inr if_False not_True_eq_False)
  qed
qed

lemma UpdateUser_commits:
  assumes api: "optimistic api H"
  shows "commits H usersSecretName (\<lambda>c d v. \<exists>u w. accounts c k = Some u \<and> validateProfile (patchedUser patch u) = Inr w
      \<and> accounts (Some d) = (accounts c)(k \<mapsto> w) \<and> v = w\<lparr>usHash := []\<rparr>)
    (UpdateUser api k patch)"
  unfolding UpdateUser_def
proof (rule commits_answer, rule commits_mono [OF writeUser_commits [OF api,
      where P = "\<lambda>m x. \<exists>u w. m k = Some u \<and> validateProfile (patchedUser patch u) = Inr w \<and> x = Some w"]], goal_cases)
  case (1 us)
  show ?case by (rule grows_return)
next
  case (2 us h x h')
  then show ?case by (auto simp: map_sum_def split: option.splits sum.splits)
next
  case (3 c d x)
  then obtain u w where u: "accounts c k = Some u" "validateProfile (patchedUser patch u) = Inr w" "x = Some w" by blast
  then have "setUsername k w = w"
    using accounts_named [OF u(1)] by (auto simp: validateProfile_def Let_def patchedUser_def setUsername_def split: if_splits)
  with 3 u show ?case by auto
qed

lemma SetPassword_commits:
  assumes api: "optimistic api H" "bcryptOK api"
  shows "commits H usersSecretName (\<lambda>c d _. \<exists>u hash now. accounts c k = Some u \<and> passwordOK password \<and> bcryptMatches api hash password
      \<and> accounts (Some d) = (accounts c)(k \<mapsto> u\<lparr>usHash := hash, usMustChange := mustChange, usPasswordChangedAt := truncateTo second now\<rparr>))
    (SetPassword api k password mustChange)"
    (is "commits H _ ?R _")
  unfolding SetPassword_def
proof (rule commits_attempt_run [OF grows_hashPassword [OF api(1)]], rule commits_answer, goal_cases)
  case (1 h hash h')
  note p = hashPassword_matches [OF api(2) 1]
  show ?case
  proof (rule commits_mono [OF writeUser_commits [OF api(1), where P = "\<lambda>m x. \<exists>u now. m k = Some u \<and>
      x = Some (u\<lparr>usHash := hash, usMustChange := mustChange, usPasswordChangedAt := truncateTo second now\<rparr>)"]], goal_cases)
    case (1 us)
    show ?case by (auto intro!: grows_return grows_bind grows_call optimistic_growing [OF api(1)] split: option.split)
  next
    case (2 us h x h')
    then show ?case by (cases "map_of us k") (auto simp: call_def split: prod.splits)
  next
    case (3 c d x)
    then obtain u now where u: "accounts c k = Some u"
      "x = Some (u\<lparr>usHash := hash, usMustChange := mustChange, usPasswordChangedAt := truncateTo second now\<rparr>)" by blast
    with 3 p show ?case
      using accounts_named [OF u(1)]
      by - (intro allI impI, rule exI [of _ u], rule exI [of _ hash], rule exI [of _ now], auto simp: setUsername_def)
  qed
qed

lemma DeleteUser_commits:
  assumes api: "optimistic api H"
  shows "commits H usersSecretName (\<lambda>c d _. accounts c k \<noteq> None \<and> accounts (Some d) = (accounts c)(k := None))
    (DeleteUser api k)"
  unfolding DeleteUser_def
proof (rule commits_answer, rule commits_mono [OF writeUser_commits [OF api, where P = "\<lambda>m x. m k \<noteq> None \<and> x = None"]], goal_cases)
  case (1 us)
  show ?case by (rule grows_return)
next
  case (2 us h x h')
  then show ?case using mem_keys [OF refl, of k us] by (simp split: if_splits)
qed simp

subsection \<open>Well-formed accounts\<close>

definition emailOK :: "string \<Rightarrow> bool" where
  "emailOK e \<longleftrightarrow> length e \<le> 254 \<and> (e = [] \<or> CHR ''@'' \<in> set e \<and> (\<forall>c \<in> set e. c \<notin> {CHR '' '', CHR 0x09, CHR 0x0D, CHR 0x0A}))"

definition profileOK :: "User \<Rightarrow> bool" where
  "profileOK u \<longleftrightarrow> knownRole (usRole u) \<and> runeCount (usName u) \<le> 100 \<and> emailOK (usEmail u)"

definition wellFormedAccounts :: "(string \<rightharpoonup> User) \<Rightarrow> bool" where
  "wellFormedAccounts m \<longleftrightarrow> (\<forall>k u. m k = Some u \<longrightarrow> usUsername u = k \<and> userNameOK k \<and> profileOK u)"

lemma emailOK_check: "emailOK e \<longleftrightarrow> \<not> 254 < length e \<and>
    \<not> (e \<noteq> [] \<and> (CHR ''@'' \<notin> set e \<or> list_ex (\<lambda>c. c \<in> {CHR '' '', CHR 0x09, CHR 0x0D, CHR 0x0A}) e))"
  unfolding emailOK_def list_ex_iff by (simp only: not_less) blast

lemma validateProfile_profileOK: "validateProfile u = Inr v \<Longrightarrow> profileOK v \<and> usUsername v = usUsername u"
  unfolding validateProfile_def Let_def profileOK_def emailOK_check by (simp split: if_split_asm) auto

lemma profileOK_more [simp]:
  "profileOK (u\<lparr>usHash := a, usMustChange := b, usPasswordChangedAt := t\<rparr>) = profileOK u"
  "profileOK (addedUser u hash now creator mustChange) = profileOK u"
  by (simp_all add: profileOK_def addedUser_def)

lemma patchedUser_username [simp]: "usUsername (patchedUser p u) = usUsername u"
  by (simp add: patchedUser_def)

lemma wellFormed_set:
  "wellFormedAccounts m \<Longrightarrow> usUsername u = k \<Longrightarrow> userNameOK k \<Longrightarrow> profileOK u \<Longrightarrow> wellFormedAccounts (m(k \<mapsto> u))"
  by (simp add: wellFormedAccounts_def)

lemma wellFormed_delete: "wellFormedAccounts m \<Longrightarrow> wellFormedAccounts (m(k := None))"
  by (simp add: wellFormedAccounts_def)

definition keepsWellFormed :: "contents \<Rightarrow> (string \<times> string) list \<Rightarrow> 'a \<Rightarrow> bool" where
  "keepsWellFormed c d x \<longleftrightarrow> (wellFormedAccounts (accounts c) \<longrightarrow> wellFormedAccounts (accounts (Some d)))"

lemma CreateUser_wellFormed:
  assumes "optimistic api H" "bcryptOK api"
  shows "commits H usersSecretName keepsWellFormed (CreateUser api reserved user password mustChange creator)"
proof (rule commits_mono [OF CreateUser_commits [OF assms]], goal_cases)
  case (1 c d v)
  then obtain k u hash now where *: "userNameOK k" "validateProfile (user\<lparr>usUsername := k\<rparr>) = Inr u"
    "accounts (Some d) = (accounts c)(k \<mapsto> addedUser u hash now creator mustChange)" by blast
  moreover from this have "usUsername (addedUser u hash now creator mustChange) = k"
    using validateProfile_profileOK [OF *(2)] by (simp add: addedUser_def)
  ultimately show ?case
    using validateProfile_profileOK [OF *(2)] by (simp add: keepsWellFormed_def wellFormed_set)
qed

lemma UpdateUser_wellFormed:
  assumes "optimistic api H"
  shows "commits H usersSecretName keepsWellFormed (UpdateUser api k patch)"
proof (rule commits_mono [OF UpdateUser_commits [OF assms]], goal_cases)
  case (1 c d v)
  then obtain u w where *: "accounts c k = Some u" "validateProfile (patchedUser patch u) = Inr w"
    "accounts (Some d) = (accounts c)(k \<mapsto> w)" by blast
  from validateProfile_profileOK [OF *(2)] * show ?case
    unfolding keepsWellFormed_def by (auto intro!: wellFormed_set simp: wellFormedAccounts_def [of "accounts c"])
qed

lemma SetPassword_wellFormed:
  assumes "optimistic api H" "bcryptOK api"
  shows "commits H usersSecretName keepsWellFormed (SetPassword api k password mustChange)"
proof (rule commits_mono [OF SetPassword_commits [OF assms]], goal_cases)
  case (1 c d v)
  then obtain u hash now where "accounts c k = Some u"
    "accounts (Some d) = (accounts c)(k \<mapsto> u\<lparr>usHash := hash, usMustChange := mustChange, usPasswordChangedAt := truncateTo second now\<rparr>)"
    by blast
  then show ?case
    unfolding keepsWellFormed_def by (auto intro!: wellFormed_set simp: wellFormedAccounts_def [of "accounts c"])
qed

lemma DeleteUser_wellFormed:
  assumes "optimistic api H"
  shows "commits H usersSecretName keepsWellFormed (DeleteUser api k)"
  by (rule commits_mono [OF DeleteUser_commits [OF assms]]) (simp add: keepsWellFormed_def wellFormed_delete)

subsection \<open>The cache of users\<close>

abbreviation userView :: "contents \<Rightarrow> (string \<times> User) list" where
  "userView c \<equiv> recordList readUser setUsername c"

lemma reloadUsers_recent:
  assumes "timely api T S lat" "fresh usersByName usersLoadedAt userView usersSecretName T S lat h"
  shows "after (reloadUsers api)
    (recentAnswer usersByName usersLoadedAt userView usersSecretName T S lat (T (outside h)) (T (outside h))) h"
  unfolding reloadUsers_def loadUsers_def
  by (rule reload_recent [OF assms(1), where g = "\<lambda>x. x" and keep = "\<lambda>v t h. h\<lparr>usersByName := Some v, usersLoadedAt := t\<rparr>"])
    (use assms(2) in simp_all)

interpretation user_cache: timed_cache cachedUsers usersByName usersLoadedAt userView usersSecretName userCache
proof
  fix api :: "('w, 'l) authority" and T :: "'w \<Rightarrow> time" and S lat and h :: "('w, 'l) host"
  assume api: "timely api T S lat" and f: "fresh usersByName usersLoadedAt userView usersSecretName T S lat h"
  have reload: "after (reloadUsers api)
        (recentAnswer usersByName usersLoadedAt userView usersSecretName T S lat (T (outside h) - userCache - lat) (T (outside h)))
        (h\<lparr>outside := w\<rparr>)" if w: "T (outside h) \<le> T w" for w
    by (rule after_mono [OF reloadUsers_recent [OF api fresh_later [OF f w]]], simp)
      (erule recentAnswer_weaken, use w timely_lat [OF api] in \<open>simp_all add: userCache_def\<close>)
  show "after (cachedUsers api)
      (recentAnswer usersByName usersLoadedAt userView usersSecretName T S lat (T (outside h) - userCache - lat) (T (outside h))) h"
  proof (cases "usersByName h")
    case None
    with reload [of "outside h"] show ?thesis by (simp add: cachedUsers_def)
  next
    case (Some users)
    have "after (timeNow api) (\<lambda>now w. after (if now - usersLoadedAt h < userCache then State_Monad.return (Inr users) else reloadUsers api)
        (recentAnswer usersByName usersLoadedAt userView usersSecretName T S lat (T (outside h) - userCache - lat) (T (outside h)))
        (h\<lparr>outside := w\<rparr>)) (outside h)"
    proof (rule after_now [OF api], goal_cases)
      case (1 w)
      then show ?case using reload cached_recent [OF f Some _ 1] by simp
    qed
    with Some show ?thesis by (simp add: cachedUsers_def)
  qed
qed

text \<open>A session is accepted only for an account of the cache's view that is enabled and whose password
  was not changed after it was issued, and what it gets is that account.\<close>

lemma sessionAccount_Inr: "sessionAccount users i = Inr u \<Longrightarrow>
    \<exists>v. map_of users (trimPrefix (idSubject i) userSubjectPrefix) = Some v \<and> u = v\<lparr>usHash := []\<rparr> \<and> \<not> usDisabled v
      \<and> (idIssuedAt i \<le> 0 \<or> unixOf (usPasswordChangedAt v) \<le> idIssuedAt i)"
  by (auto simp: sessionAccount_def split: option.splits if_splits)

lemma SessionUser_view:
  assumes api: "timely api T S lat" and f: "fresh usersByName usersLoadedAt userView usersSecretName T S lat h"
    and P: "after (cachedUsers api) (\<lambda>r h'. \<forall>m. r = Inr m \<longrightarrow> P m (T (outside h'))) h"
  shows "after (SessionUser api i) (\<lambda>r h'. T (outside h) \<le> T (outside h')
      \<and> fresh usersByName usersLoadedAt userView usersSecretName T S lat h'
      \<and> (\<forall>u. r = Inr u \<longrightarrow> (\<exists>m. P m (T (outside h')) \<and> sessionAccount m i = Inr u))) h"
proof -
  have "after (cachedUsers api) (\<lambda>r h'. T (outside h) \<le> T (outside h')
      \<and> fresh usersByName usersLoadedAt userView usersSecretName T S lat h' \<and> (\<forall>m. r = Inr m \<longrightarrow> P m (T (outside h')))) h"
    using user_cache.look_recent [OF api f] P by (auto simp: after_def recentAnswer_def)
  then show ?thesis
    unfolding SessionUser_def after_attempt by (rule after_mono) (auto split: sum.split)
qed

end
