(* ===== verification/SignIns.thy ===== *)
theory SignIns
  imports Users
begin

section \<open>The record of sign-ins (internal/auth/users.go)\<close>

text \<open>
  Who signed in last, how and when, in a Secret of at most 500 records. A stored record that does
  not read counts as empty here, where Go would keep the fields it had read before the one of the
  wrong type. The lemmas show that pruning keeps the most recent records and how many, and what
  recording a sign-in commits.
\<close>

definition signInsSecretName :: string where "signInsSecretName = ''costdeck-sign-ins''"
definition maxSignIns :: nat where "maxSignIns = 500"

definition signInKey :: "string \<Rightarrow> string" where
  "signInKey subject = encodeHex (take 12 (sha256 subject))"

definition emptySignIn :: SignIn where
  "emptySignIn = \<lparr>siSubject = [], siName = [], siEmail = [], siProvider = [], siRole = [], siAt = zeroTime, siCount = 0\<rparr>"

definition signInOf :: "string \<Rightarrow> SignIn" where
  "signInOf raw = (case readSignIn raw of Some r \<Rightarrow> r | None \<Rightarrow> emptySignIn)"

text \<open>\<open>sort.Slice\<close> puts the latest first, in any order among records of one second; that order is
  the one of the list here, and a Go map has none.\<close>

definition pruneSignIns :: "(string \<times> string) list \<Rightarrow> (string \<times> string) list" where
  "pruneSignIns data =
     (if length data \<le> maxSignIns then data
      else let entries = sort_key (\<lambda>(_, t). - t) (map (\<lambda>(k, raw). (k, siAt (signInOf raw))) data)
           in foldl (\<lambda>d (k, _). AList.delete k d) data (drop maxSignIns entries))"

definition signInRecord :: "Identity \<Rightarrow> time \<Rightarrow> SignIn \<Rightarrow> SignIn" where
  "signInRecord i now prev =
     \<lparr>siSubject = idSubject i, siName = idName i, siEmail = idEmail i, siProvider = idProvider i,
      siRole = idRole i, siAt = truncateTo second now, siCount = i64 (siCount prev + 1)\<rparr>"

definition previousSignIn :: "(string \<times> string) list \<Rightarrow> string \<Rightarrow> SignIn" where
  "previousSignIn data k = (case map_of data k of Some raw \<Rightarrow> signInOf raw | None \<Rightarrow> emptySignIn)"

definition putSignIn :: "('w, 'l) authority \<Rightarrow> Identity \<Rightarrow> Secret option \<Rightarrow> ('w, 'l, authError + unit) auth" where
  "putSignIn api i secret =
     do { let data = (case secret of Some s \<Rightarrow> secData s | None \<Rightarrow> []);
          let k = signInKey (idSubject i);
          now \<leftarrow> call (timeNow api);
          case signInText (signInRecord i now (previousSignIn data k)) of
            None \<Rightarrow> State_Monad.return (Inl (PlainError ''json''))
          | Some t \<Rightarrow>
              (case secret of
                 None \<Rightarrow> apiCall (createSecret api \<lparr>secName = signInsSecretName, secLabels = managedLabels,
                     secData = pruneSignIns (AList.update k t data), secVersion = 0\<rparr>)
               | Some s \<Rightarrow> apiCall (updateSecret api (s\<lparr>secData := pruneSignIns (AList.update k t data)\<rparr>))) }"

definition recordOnce :: "('w, 'l) authority \<Rightarrow> Identity \<Rightarrow> ('w, 'l, authError + unit) auth" where
  "recordOnce api i =
     do { r \<leftarrow> call (getSecret api signInsSecretName);
          case r of
            Inl e \<Rightarrow> if e \<noteq> SecretMissing then State_Monad.return (Inl (OfApi e)) else putSignIn api i None
          | Inr s \<Rightarrow> putSignIn api i (Some s) }"

definition RecordSignIn :: "('w, 'l) authority \<Rightarrow> Identity \<Rightarrow> ('w, 'l, authError + unit) auth" where
  "RecordSignIn api i = retryOnConflict (moreAttempts api) (recordOnce api i)"

definition ListSignIns :: "('w, 'l) authority \<Rightarrow> ('w, 'l, authError + SignIn list) auth" where
  "ListSignIns api =
     do { r \<leftarrow> call (getSecret api signInsSecretName);
          State_Monad.return (case r of
              Inl e \<Rightarrow> if e = SecretMissing then Inr [] else Inl (OfApi e)
            | Inr s \<Rightarrow> Inr (sort_key (\<lambda>x. - siAt x) (map snd (readRecords readSignIn (\<lambda>_ x. x) (secData s))))) }"

interpretation sign_in_records: secret_records readSignIn "\<lambda>_ r. r" signInText "\<lambda>r. \<bar>siCount r\<bar> \<le> 2 ^ 53"
  by unfold_locales (rule readSignIn_text)

subsection \<open>Pruning\<close>

lemma foldl_delete: "foldl (\<lambda>d (k, _). AList.delete k d) d es = filter (\<lambda>x. fst x \<notin> fst ` set es) d"
  by (induction es arbitrary: d) (auto simp: AList.delete_eq filter_filter split_beta intro!: filter_cong)

lemma filter_fst_length:
  assumes "distinct (map fst d)" "distinct ks" "set ks \<subseteq> fst ` set d"
  shows "length (filter (\<lambda>x. fst x \<notin> set ks) d) = length d - length ks"
proof -
  have "length (filter (\<lambda>x. fst x \<in> set ks) d) = length (filter (\<lambda>k. k \<in> set ks) (map fst d))"
    by (simp add: filter_map comp_def)
  also have "\<dots> = card (set (filter (\<lambda>k. k \<in> set ks) (map fst d)))"
    by (rule distinct_card [symmetric]) (use assms(1) in simp)
  also have "set (filter (\<lambda>k. k \<in> set ks) (map fst d)) = set ks" using assms(3) by auto
  also have "card (set ks) = length ks" using assms(2) by (rule distinct_card)
  finally show ?thesis
    using sum_length_filter_compl [of "\<lambda>x. fst x \<in> set ks" d] by simp
qed

lemma distinct_map_sort: "distinct (map f (sort_key g xs)) = distinct (map f xs)"
  by (simp add: distinct_map)

text \<open>Pruning keeps the most recent five hundred records, and as many when there are more.\<close>

lemma pruneSignIns_kept:
  assumes "distinct (map fst data)"
  shows "length (pruneSignIns data) = min maxSignIns (length data) \<and> set (pruneSignIns data) \<subseteq> set data
    \<and> distinct (map fst (pruneSignIns data))
    \<and> (\<forall>(k, x) \<in> set (pruneSignIns data). \<forall>(k', y) \<in> set data - set (pruneSignIns data). siAt (signInOf y) \<le> siAt (signInOf x))"
proof (cases "length data \<le> maxSignIns")
  case True
  with assms show ?thesis by (simp add: pruneSignIns_def)
next
  case False
  define es where "es = sort_key (\<lambda>(_, t). - t) (map (\<lambda>(k, raw). (k, siAt (signInOf raw))) data)"
  define out where "out = drop maxSignIns es"
  have p: "pruneSignIns data = filter (\<lambda>x. fst x \<notin> fst ` set out) data"
    using False by (simp add: pruneSignIns_def es_def out_def foldl_delete)
  have se: "set es = (\<lambda>(k, raw). (k, siAt (signInOf raw))) ` set data" by (simp add: es_def)
  have "map fst (map (\<lambda>(k, raw). (k, siAt (signInOf raw))) data) = map fst data" by auto
  then have "distinct (map fst es)" unfolding es_def distinct_map_sort using assms by (simp only:)
  then have "distinct (map fst (take maxSignIns es) @ map fst out)"
    unfolding out_def map_append [symmetric] append_take_drop_id .
  then have d: "distinct (map fst out)" by simp
  have so: "set out \<subseteq> set es" by (simp add: out_def set_drop_subset)
  have "length (pruneSignIns data) = length data - length out"
    unfolding p using filter_fst_length [OF assms d] so se by force
  moreover have "length out = length data - maxSignIns" by (simp add: out_def es_def)
  moreover have later: "siAt (signInOf y) \<le> siAt (signInOf x)"
    if "(k, x) \<in> set (pruneSignIns data)" "(k', y) \<in> set data - set (pruneSignIns data)" for k x k' y
  proof -
    from that(1) have "(k, x) \<in> set data" "k \<notin> fst ` set out" by (auto simp: p)
    then have "(k, siAt (signInOf x)) \<in> set es" "(k, siAt (signInOf x)) \<notin> set out" using se by force+
    then have a: "(k, siAt (signInOf x)) \<in> set (take maxSignIns es)"
      by (metis Un_iff append_take_drop_id out_def set_append)
    from that(2) have "(k', y) \<in> set data" "k' \<in> fst ` set out" by (auto simp: p)
    then obtain t where t: "(k', t) \<in> set out" by auto
    with so se obtain y' where "(k', y') \<in> set data" "t = siAt (signInOf y')" by auto
    with \<open>(k', y) \<in> set data\<close> assms have "t = siAt (signInOf y)" by (metis map_of_eq_Some_iff option.inject)
    with t have b: "(k', siAt (signInOf y)) \<in> set (drop maxSignIns es)" by (simp add: out_def)
    have "sorted (map (\<lambda>(_, t). - t) es)" by (simp add: es_def)
    then have "sorted (map (\<lambda>(_, t). - t) (take maxSignIns es) @ map (\<lambda>(_, t). - t) (drop maxSignIns es))"
      by (metis append_take_drop_id map_append)
    with a b show ?thesis by (force simp: sorted_append)
  qed
  moreover have "\<forall>(k, x) \<in> set (pruneSignIns data). \<forall>(k', y) \<in> set data - set (pruneSignIns data). siAt (signInOf y) \<le> siAt (signInOf x)"
    using later by blast
  moreover have "set (pruneSignIns data) \<subseteq> set data" "distinct (map fst (pruneSignIns data))"
    using assms by (auto simp: p distinct_map_filter)
  ultimately show ?thesis
    using False by simp
qed

text \<open>Recording commits the new record, with one more sign-in than the record before, pruned.\<close>

definition recordedSignIn :: "Identity \<Rightarrow> contents \<Rightarrow> (string \<times> string) list \<Rightarrow> bool" where
  "recordedSignIn i c d \<longleftrightarrow>
     (let data = (case c of Some d \<Rightarrow> d | None \<Rightarrow> []); k = signInKey (idSubject i)
      in \<exists>now t. signInText (signInRecord i now (previousSignIn data k)) = Some t \<and> d = pruneSignIns (AList.update k t data))"

lemma putSignIn_writes:
  assumes "optimistic api H" "case sec of Some s \<Rightarrow> secName s = signInsSecretName | None \<Rightarrow> True"
  shows "writesOn H signInsSecretName sec (\<lambda>c d _. recordedSignIn i c d) (putSignIn api i sec)"
  unfolding putSignIn_def Let_def
proof (rule writesOn_bind [OF grows_call [OF optimistic_growing(4) [OF assms(1)]]], goal_cases)
  case (1 h now h')
  let ?k = "signInKey (idSubject i)"
  show ?case
  proof (cases sec)
    case None
    have "recordedSignIn i None (pruneSignIns [(?k, t)])" if "signInText (signInRecord i now (previousSignIn [] ?k)) = Some t" for t
      using that unfolding recordedSignIn_def Let_def by auto
    with None assms show ?thesis by (auto intro!: writesOn_fail writesOn_create split: option.split)
  next
    case (Some s)
    have "recordedSignIn i (Some (secData s)) (pruneSignIns (AList.update ?k t (secData s)))"
      if "signInText (signInRecord i now (previousSignIn (secData s) ?k)) = Some t" for t
      using that unfolding recordedSignIn_def Let_def by auto
    with Some assms show ?thesis by (auto intro!: writesOn_fail writesOn_update split: option.split)
  qed
qed

lemma recordOnce_commits:
  assumes api: "optimistic api H"
  shows "commits H signInsSecretName (\<lambda>c d _. recordedSignIn i c d) (recordOnce api i)"
  unfolding recordOnce_def
  by (rule commits_read [OF api]) (simp_all add: putSignIn_writes [OF api])

lemma grows_putSignIn: "optimistic api H \<Longrightarrow> grows H (putSignIn api i sec)"
  unfolding putSignIn_def Let_def
  by (auto intro!: grows_bind grows_call grows_return grows_apiCall optimistic_growing split: option.split)

lemma grows_recordOnce: "optimistic api H \<Longrightarrow> grows H (recordOnce api i)"
  unfolding recordOnce_def
  by (auto intro!: grows_bind grows_call grows_return grows_putSignIn optimistic_growing split: sum.split)

lemma RecordSignIn_commits:
  "optimistic api H \<Longrightarrow> commits H signInsSecretName (\<lambda>c d _. recordedSignIn i c d) (RecordSignIn api i)"
  unfolding RecordSignIn_def by (rule commits_retry [OF grows_recordOnce recordOnce_commits])

end
