(* ===== verification/AuthService.thy ===== *)
theory AuthService
  imports SignIns
begin

section \<open>The authentication service (internal/auth/service.go)\<close>

text \<open>
  The middleware that lets requests through to the API, and signing in and out with a password.
  The state a request works on is the one of \<open>AuthApi\<close>; the service itself holds the settings
  read at start-up. What \<open>NewService\<close> always sets (the tokens, the users, the record of sign-ins)
  is not optional here. Logging is left out.
\<close>

subsection \<open>The service and its settings\<close>

record Service =
  svSessions :: Sessions
  svLocalUser :: string
  svLocalPassword :: string
  svDisabled :: bool

definition adminSecretName :: string where "adminSecretName = ''costdeck-admin-credentials''"
definition defaultAdminUser :: string where "defaultAdminUser = ''costdeck''"

definition localConfigured :: "Service \<Rightarrow> bool" where
  "localConfigured s \<longleftrightarrow> svLocalUser s \<noteq> [] \<and> svLocalPassword s \<noteq> []"

definition BuiltinAdmin :: "Service \<Rightarrow> string" where
  "BuiltinAdmin s = (if localConfigured s then svLocalUser s else [])"

definition NewService :: "('w, 'l) authority \<Rightarrow> ('w, 'l, authError + Service) auth" where
  "NewService api =
     attempt (LoadOrCreateKey api) (\<lambda>key.
     attempt (State_Monad.return (NewSessions key)) (\<lambda>sessions.
       let s = \<lparr>svSessions = sessions, svLocalUser = environ api ''COSTDECK_AUTH_USER'',
                svLocalPassword = environ api ''COSTDECK_AUTH_PASSWORD'',
                svDisabled = equalFold (environ api ''COSTDECK_AUTH_DISABLED'') ''true''\<rparr>
       in if svDisabled s \<or> localConfigured s then State_Monad.return (Inr s)
          else do { r \<leftarrow> loadOrCreateSecret api adminSecretName
                      (\<lambda>d. dataField ''username'' d \<noteq> [] \<and> 16 \<le> length (dataField ''password'' d))
                      (do { p \<leftarrow> call (randomText api);
                            State_Monad.return (Inr [(''username'', defaultAdminUser), (''password'', p)]) });
                    State_Monad.return (case r of
                        Inl e \<Rightarrow> Inl (Context ''prepare the built-in admin account'' e)
                      | Inr d \<Rightarrow> Inr (s\<lparr>svLocalUser := dataField ''username'' d, svLocalPassword := dataField ''password'' d\<rparr>)) }))"

text \<open>\<open>config.Get\<close> of the sign-in settings: none without a CostDeckConfig.\<close>

definition emptySettings :: AuthConfig where
  "emptySettings = \<lparr>acEntra = None, acOIDC = None, acDisableLocalLogin = False\<rparr>"

definition readSettings :: "('w, 'l) authority \<Rightarrow> ('w, 'l, authError + AuthConfig) auth" where
  "readSettings api =
     do { r \<leftarrow> call (getSettings api);
          State_Monad.return (case r of
              Inr c \<Rightarrow> Inr c
            | Inl e \<Rightarrow> if e = SecretMissing then Inr emptySettings else Inl (Context ''get CostDeckConfig'' (OfApi e))) }"

text \<open>\<open>Entra.enabledConfig\<close> and \<open>OIDC.enabledConfig\<close>: nothing when the settings cannot be read.\<close>

definition enabledEntra :: "('w, 'l) authority \<Rightarrow> ('w, 'l, EntraConfig option) auth" where
  "enabledEntra api =
     do { r \<leftarrow> readSettings api;
          State_Monad.return (case r of
              Inl _ \<Rightarrow> None
            | Inr c \<Rightarrow> (case acEntra c of
                 None \<Rightarrow> None
               | Some ec \<Rightarrow> if \<not> enEnabled ec \<or> enTenantID ec = [] \<or> enClientID ec = [] then None else Some ec)) }"

definition enabledOIDC :: "('w, 'l) authority \<Rightarrow> ('w, 'l, OIDCConfig option) auth" where
  "enabledOIDC api =
     do { r \<leftarrow> readSettings api;
          State_Monad.return (case r of
              Inl _ \<Rightarrow> None
            | Inr c \<Rightarrow> (case acOIDC c of
                 None \<Rightarrow> None
               | Some oc \<Rightarrow> if \<not> ocEnabled oc \<or> ocIssuerURL oc = [] \<or> ocClientID oc = [] then None else Some oc)) }"

definition OIDCDisplayName :: "('w, 'l) authority \<Rightarrow> ('w, 'l, string) auth" where
  "OIDCDisplayName api =
     do { c \<leftarrow> enabledOIDC api;
          State_Monad.return (case c of
              Some oc \<Rightarrow> if ocDisplayName oc \<noteq> [] then ocDisplayName oc else ''single sign-on''
            | None \<Rightarrow> ''single sign-on'') }"

definition AuthDisabled :: "('w, 'l) authority \<Rightarrow> Service \<Rightarrow> ('w, 'l, bool) auth" where
  "AuthDisabled api s =
     (if \<not> svDisabled s then State_Monad.return False
      else do { e \<leftarrow> enabledEntra api;
                if e \<noteq> None then State_Monad.return False
                else do { o' \<leftarrow> enabledOIDC api; State_Monad.return (o' = None) } })"

definition localLoginHidden :: "('w, 'l) authority \<Rightarrow> ('w, 'l, bool) auth" where
  "localLoginHidden api =
     do { r \<leftarrow> readSettings api;
          case r of
            Inl _ \<Rightarrow> State_Monad.return False
          | Inr c \<Rightarrow>
              if \<not> acDisableLocalLogin c then State_Monad.return False
              else do { e \<leftarrow> enabledEntra api;
                        if e \<noteq> None then State_Monad.return True
                        else do { o' \<leftarrow> enabledOIDC api; State_Monad.return (o' \<noteq> None) } } }"

subsection \<open>Paths\<close>

definition webexWebhookPath :: string where "webexWebhookPath = ''/api/webex/webhook''"

definition PublicPath :: "string \<Rightarrow> bool" where
  "PublicPath p \<longleftrightarrow>
     p \<in> {''/api/login'', ''/api/logout'', ''/api/auth/config'', ''/api/docs'', ''/api/openapi.yaml'',
          ''/api/openapi.json'', webexWebhookPath}
     \<or> hasPrefix p ''/api/auth/entra/'' \<or> hasPrefix p ''/api/auth/oidc/''"

definition protectedPath :: "string \<Rightarrow> bool" where
  "protectedPath p \<longleftrightarrow> (hasPrefix p ''/api/'' \<and> \<not> PublicPath p) \<or> p = ''/mcp'' \<or> hasPrefix p ''/mcp/''"

definition passwordChangePath :: "string \<Rightarrow> bool" where
  "passwordChangePath p \<longleftrightarrow> p = ''/api/auth/me'' \<or> p = ''/api/auth/password''"

definition crossSiteWrite :: "('w, 'l) authority \<Rightarrow> Request \<Rightarrow> bool" where
  "crossSiteWrite api r \<longleftrightarrow>
     (if rqMethod r \<in> {''GET'', ''HEAD'', ''OPTIONS''} then False
      else if rqHeader r ''Sec-Fetch-Site'' \<noteq> []
      then rqHeader r ''Sec-Fetch-Site'' \<noteq> ''same-origin'' \<and> rqHeader r ''Sec-Fetch-Site'' \<noteq> ''none''
      else if rqHeader r ''Origin'' \<noteq> []
      then (case parseURL api (rqHeader r ''Origin'') of None \<Rightarrow> True | Some (_, host) \<Rightarrow> \<not> equalFold host (rqHost r))
      else False)"

subsection \<open>The middleware\<close>

definition anonymousAdmin :: Identity where
  "anonymousAdmin = \<lparr>idSubject = ''anonymous'', idName = ''Anonymous'', idEmail = [], idRole = RoleAdmin,
     idProvider = ''anonymous'', idExpiresAt = 0, idIssuedAt = 0, idMustChange = False\<rparr>"

definition refused :: answer where
  "refused = errorReply 403 ''Cross-site request refused''"

definition bearerRefused :: answer where
  "bearerRefused = Reply 401 [] [(''WWW-Authenticate'', ''Bearer realm='' @ quoted ''costdeck'')]
     (JsonBody (JObj [(''error'', JStr ''Invalid or expired API token'')]))"

definition sessionEnded :: "('w, 'l) authority \<Rightarrow> Request \<Rightarrow> authError \<Rightarrow> answer" where
  "sessionEnded api r e =
     Reply 401 [Clear r] [] (JsonBody (JObj [(''error'', JStr (''Your session has ended: '' @ errText api e))]))"

definition passwordRequired :: answer where
  "passwordRequired = Reply 403 [] [] (JsonBody (JObj [(''error'', JStr ''Choose a new password before continuing.''),
     (''code'', JStr ''password_change_required'')]))"

text \<open>A session cookie: a managed user's follows the account.\<close>

definition cookieAccess :: "('w, 'l) authority \<Rightarrow> Service \<Rightarrow> Request \<Rightarrow> ('w, 'l, answer) auth" where
  "cookieAccess api s r =
     do { now \<leftarrow> call (timeNow api);
          case Read (svSessions s) r now of
            Inl _ \<Rightarrow> State_Monad.return (errorReply 401 ''Authentication required'')
          | Inr i \<Rightarrow>
              (case ManagedUser (Some i) of
                 None \<Rightarrow> State_Monad.return (Forward (Some i))
               | Some _ \<Rightarrow>
                   do { u \<leftarrow> SessionUser api i;
                        State_Monad.return (case u of
                            Inl e \<Rightarrow> sessionEnded api r e
                          | Inr user \<Rightarrow>
                              let j = (userIdentity user)\<lparr>idExpiresAt := idExpiresAt i, idIssuedAt := idIssuedAt i\<rparr>
                              in if idMustChange j \<and> \<not> passwordChangePath (rqPath r) then passwordRequired
                                 else Forward (Some j)) }) }"

definition Middleware :: "('w, 'l) authority \<Rightarrow> Service \<Rightarrow> Request \<Rightarrow> ('w, 'l, answer) auth" where
  "Middleware api s r =
     (if \<not> protectedPath (rqPath r)
      then State_Monad.return (if hasPrefix (rqPath r) ''/api/'' \<and> rqPath r \<noteq> webexWebhookPath \<and> crossSiteWrite api r
             then refused else Forward None)
      else do { off \<leftarrow> AuthDisabled api s;
                if off then State_Monad.return (Forward (Some anonymousAdmin))
                else case cutPrefix (rqHeader r ''Authorization'') ''Bearer '' of
                       Some bearer \<Rightarrow>
                         do { t \<leftarrow> AuthenticateToken api (trimSpace bearer);
                              State_Monad.return (case t of Some i \<Rightarrow> Forward (Some i) | None \<Rightarrow> bearerRefused) }
                     | None \<Rightarrow>
                         if crossSiteWrite api r then State_Monad.return refused
                         else cookieAccess api s r })"

text \<open>A route with a minimum role, reached with what the middleware forwards.\<close>

definition Require :: "Role \<Rightarrow> answer \<Rightarrow> answer" where
  "Require least a =
     (case a of
        Forward (Some i) \<Rightarrow>
          if Allows (idRole i) least then a
          else errorReply 403 (''This action needs the '' @ least @ '' role; you are signed in as '' @ idRole i @ ''.'')
      | _ \<Rightarrow> a)"

subsection \<open>Limiting password attempts\<close>

definition loginBurst :: rat where "loginBurst = 5"
definition maxLimiters :: nat where "maxLimiters = 4096"

text \<open>The limiter of a key, made when there is none; at \<open>maxLimiters\<close> the idle ones go first.\<close>

definition withLimiter :: "('w, 'l) authority \<Rightarrow> time \<Rightarrow> string \<Rightarrow> (string \<times> 'l) list \<Rightarrow> (string \<times> 'l) list" where
  "withLimiter api now k ls =
     (if k \<in> fst ` set ls then ls
      else (if length ls < maxLimiters then ls else filter (\<lambda>(_, l). limiterTokens api now l < loginBurst) ls)
           @ [(k, freshLimiter api)])"

definition limiterOf :: "('w, 'l) authority \<Rightarrow> string \<Rightarrow> (string \<times> 'l) list \<Rightarrow> 'l" where
  "limiterOf api k ls = (case map_of ls k of Some l \<Rightarrow> l | None \<Rightarrow> freshLimiter api)"

definition allowAttempt :: "('w, 'l) authority \<Rightarrow> string \<Rightarrow> ('w, 'l, bool) auth" where
  "allowAttempt api k =
     do { now \<leftarrow> call (timeNow api);
          h \<leftarrow> State_Monad.get;
          let ls = withLimiter api now k (limiters h);
          let (ok, l) = limiterAllow api now (limiterOf api k ls);
          changeHost (\<lambda>h. h\<lparr>limiters := AList.update k l ls\<rparr>);
          State_Monad.return ok }"

definition attemptsLeft :: "('w, 'l) authority \<Rightarrow> string \<Rightarrow> ('w, 'l, rat) auth" where
  "attemptsLeft api k =
     do { now \<leftarrow> call (timeNow api);
          h \<leftarrow> State_Monad.get;
          let ls = withLimiter api now k (limiters h);
          changeHost (\<lambda>h. h\<lparr>limiters := ls\<rparr>);
          State_Monad.return (limiterTokens api now (limiterOf api k ls)) }"

definition accountKey :: "string \<Rightarrow> string" where
  "accountKey username = ''account:'' @ toLower (trimSpace username)"

text \<open>\<open>net.SplitHostPort\<close>: the host, or none when the address has no port or is malformed.\<close>

definition splitHost :: "string \<Rightarrow> string option" where
  "splitHost hp =
     (if CHR '':'' \<notin> set hp then None
      else case hp of
             c # cs \<Rightarrow>
               if c = CHR ''['' then
                 (case cutChar CHR '']'' cs of
                    None \<Rightarrow> None
                  | Some (host, rest) \<Rightarrow>
                      (case rest of
                         d # port \<Rightarrow>
                           if d = CHR '':'' \<and> CHR '':'' \<notin> set port \<and> CHR ''['' \<notin> set (host @ port) \<and> CHR '']'' \<notin> set port
                           then Some host else None
                       | [] \<Rightarrow> None))
               else let host = rev (tl (dropWhile (\<lambda>x. x \<noteq> CHR '':'') (rev hp)))
                    in if CHR '':'' \<in> set host \<or> CHR ''['' \<in> set hp \<or> CHR '']'' \<in> set hp then None else Some host
           | [] \<Rightarrow> None)"

definition clientIP :: "Request \<Rightarrow> string" where
  "clientIP r =
     (let fwd = rqHeader r ''X-Forwarded-For''; ip = trimSpace (last (splitChar CHR '','' fwd))
      in if fwd \<noteq> [] \<and> ip \<noteq> [] then ip
         else case splitHost (rqRemoteAddr r) of Some host \<Rightarrow> host | None \<Rightarrow> rqRemoteAddr r)"

subsection \<open>Passwords and signing in\<close>

text \<open>The built-in admin's password, against its hash made on first use. bcrypt refuses to hash a
  password longer than 72 bytes, and then the passwords are compared directly.\<close>

definition builtinPasswordOK :: "('w, 'l) authority \<Rightarrow> Service \<Rightarrow> string \<Rightarrow> ('w, 'l, bool) auth" where
  "builtinPasswordOK api s password =
     do { h \<leftarrow> State_Monad.get;
          stored \<leftarrow> (case adminHash h of
              Some x \<Rightarrow> State_Monad.return x
            | None \<Rightarrow> do { r \<leftarrow> call (bcryptHash api (svLocalPassword s));
                           let x = (case r of Inl _ \<Rightarrow> None | Inr hash \<Rightarrow> Some hash);
                           changeHost (\<lambda>h. h\<lparr>adminHash := Some x\<rparr>);
                           State_Monad.return x });
          State_Monad.return (case stored of
              None \<Rightarrow> password = svLocalPassword s
            | Some hash \<Rightarrow> bcryptMatches api hash password) }"

definition constantTimeEqual :: "string \<Rightarrow> string \<Rightarrow> bool" where
  "constantTimeEqual a b \<longleftrightarrow> sha256 a = sha256 b"

definition rejectLogin :: "('w, 'l) authority \<Rightarrow> string \<Rightarrow> nat \<Rightarrow> string \<Rightarrow> ('w, 'l, answer) auth" where
  "rejectLogin api user code msg =
     do { _ \<leftarrow> allowAttempt api (accountKey user); State_Monad.return (errorReply code msg) }"

definition identityJson :: "Identity \<Rightarrow> json" where
  "identityJson i = JObj (identityFields i)"

definition builtinIdentity :: "Service \<Rightarrow> Identity" where
  "builtinIdentity s = \<lparr>idSubject = ''local:'' @ svLocalUser s, idName = svLocalUser s, idEmail = [], idRole = RoleAdmin,
     idProvider = ''local'', idExpiresAt = 0, idIssuedAt = 0, idMustChange = False\<rparr>"

text \<open>Issuing the session at the end of a sign-in, and recording it; a record that fails is only
  logged.\<close>

definition startSession :: "('w, 'l) authority \<Rightarrow> Service \<Rightarrow> Request \<Rightarrow> bool \<Rightarrow> Identity \<Rightarrow> ('w, 'l, answer) auth" where
  "startSession api s r noted i =
     do { now \<leftarrow> call (timeNow api);
          case Issue (svSessions s) r now i of
            Inl _ \<Rightarrow> State_Monad.return (errorReply 500 ''Could not create session'')
          | Inr c \<Rightarrow>
              do { _ \<leftarrow> (if noted then RecordSignIn api i else State_Monad.return (Inr ()));
                   State_Monad.return (Reply 200 [c] [] (JsonBody (JObj [(''status'', JStr ''ok''), (''user'', identityJson i)]))) } }"

definition loginBodyLimit :: nat where "loginBodyLimit = 16384"

text \<open>A body with two strings, decoded into a struct of two fields.\<close>

definition bodyPair :: "string \<Rightarrow> string \<Rightarrow> string \<Rightarrow> (string \<times> string) option" where
  "bodyPair a b body =
     Option.bind (decodeBody loginBodyLimit [a, b] body) (\<lambda>fs.
     Option.bind (readField asString a [] fs) (\<lambda>x. map_option (Pair x) (readField asString b [] fs)))"

text \<open>Who signs in with these credentials, or the answer that refuses them.\<close>

definition checkCredentials :: "('w, 'l) authority \<Rightarrow> Service \<Rightarrow> string \<Rightarrow> string \<Rightarrow> ('w, 'l, answer + Identity) auth" where
  "checkCredentials api s user password =
     (if localConfigured s \<and> constantTimeEqual user (svLocalUser s) then
        do { ok \<leftarrow> builtinPasswordOK api s password;
             if ok then State_Monad.return (Inr (builtinIdentity s))
             else do { a \<leftarrow> rejectLogin api user 401 ''Invalid credentials''; State_Monad.return (Inl a) } }
      else
        do { hidden \<leftarrow> localLoginHidden api;
             if hidden then
               do { a \<leftarrow> rejectLogin api user 403 ''Password sign-in is turned off; use single sign-on.'';
                    State_Monad.return (Inl a) }
             else do { u \<leftarrow> AuthenticateUser api user password;
                       case u of
                         Inr v \<Rightarrow> State_Monad.return (Inr (userIdentity v))
                       | Inl e \<Rightarrow>
                           if e = UserDisabled then
                             do { a \<leftarrow> rejectLogin api user 403 ''This account is disabled. Ask an administrator.'';
                                  State_Monad.return (Inl a) }
                           else if e = UserNotFound then
                             do { a \<leftarrow> rejectLogin api user 401 ''Invalid credentials''; State_Monad.return (Inl a) }
                           else State_Monad.return (Inl (errorReply 500 ''Could not check the credentials'')) } })"

definition HandleLogin :: "('w, 'l) authority \<Rightarrow> Service \<Rightarrow> Request \<Rightarrow> ('w, 'l, answer) auth" where
  "HandleLogin api s r =
     do { off \<leftarrow> AuthDisabled api s;
          if off then State_Monad.return (Reply 200 [] [] (JsonBody (JObj [(''status'', JStr ''ok'')])))
          else do {
            usable \<leftarrow> (if localConfigured s then State_Monad.return True else AnyUser api);
            if \<not> usable then State_Monad.return (errorReply 403 ''Password sign-in is not configured; use single sign-on.'')
            else do {
              ok \<leftarrow> allowAttempt api (clientIP r);
              if \<not> ok then State_Monad.return (errorReply 429 ''Too many attempts, wait a minute and try again.'')
              else case bodyPair ''username'' ''password'' (rqBody r) of
                     None \<Rightarrow> State_Monad.return (errorReply 400 ''Invalid request body'')
                   | Some (user, password) \<Rightarrow>
                       do { left \<leftarrow> attemptsLeft api (accountKey user);
                            if left < 1 then State_Monad.return (errorReply 429
                                ''Too many failed attempts for this account, wait a minute and try again.'')
                            else do { c \<leftarrow> checkCredentials api s user password;
                                      case c of
                                        Inl a \<Rightarrow> State_Monad.return a
                                      | Inr i \<Rightarrow> startSession api s r True i } } } } }"

definition HandleChangePassword :: "('w, 'l) authority \<Rightarrow> Service \<Rightarrow> Request \<Rightarrow> Identity option \<Rightarrow> ('w, 'l, answer) auth" where
  "HandleChangePassword api s r i =
     (case ManagedUser i of
        None \<Rightarrow> State_Monad.return (errorReply 400
          (''Only local users change their password here. The built-in admin's password is in the Helm release's ''
           @ ''admin-credentials Secret; single sign-on passwords are managed by your identity provider.''))
      | Some name \<Rightarrow>
          do { ok \<leftarrow> allowAttempt api (clientIP r);
               if \<not> ok then State_Monad.return (errorReply 429 ''Too many attempts, wait a minute and try again.'')
               else case bodyPair ''currentPassword'' ''newPassword'' (rqBody r) of
                      None \<Rightarrow> State_Monad.return (errorReply 400 ''Invalid request body'')
                    | Some (current, new) \<Rightarrow>
                        do { a \<leftarrow> AuthenticateUser api name current;
                             case a of
                               Inl _ \<Rightarrow> State_Monad.return (errorReply 403 ''The current password is wrong'')
                             | Inr _ \<Rightarrow>
                                 if new = current then State_Monad.return (errorReply 400 ''Choose a password different from the current one'')
                                 else do { w \<leftarrow> SetPassword api name new False;
                                           case w of
                                             Inl e \<Rightarrow> State_Monad.return (case e of
                                                 InvalidUser m \<Rightarrow> errorReply 400 m
                                               | _ \<Rightarrow> errorReply 500 (errText api e))
                                           | Inr _ \<Rightarrow>
                                               do { b \<leftarrow> AuthenticateUser api name new;
                                                    case b of
                                                      Inl _ \<Rightarrow> State_Monad.return (errorReply 500 ''Could not read the account back'')
                                                    | Inr u \<Rightarrow> startSession api s r False (userIdentity u) } } } })"

definition HandleLogout :: "Request \<Rightarrow> answer" where
  "HandleLogout r = Reply 200 [Clear r] [] (JsonBody (JObj [(''status'', JStr ''ok'')]))"

definition HandleMe :: "Identity option \<Rightarrow> answer" where
  "HandleMe i =
     (case i of
        None \<Rightarrow> errorReply 401 ''Authentication required''
      | Some j \<Rightarrow> Reply 200 [] [] (JsonBody (identityJson j)))"

definition HandleConfig :: "('w, 'l) authority \<Rightarrow> Service \<Rightarrow> ('w, 'l, answer) auth" where
  "HandleConfig api s =
     do { off \<leftarrow> AuthDisabled api s;
          usable \<leftarrow> (if localConfigured s then State_Monad.return True else AnyUser api);
          hidden \<leftarrow> (if usable then localLoginHidden api else State_Monad.return False);
          e \<leftarrow> enabledEntra api;
          o' \<leftarrow> enabledOIDC api;
          name \<leftarrow> OIDCDisplayName api;
          State_Monad.return (Reply 200 [] [] (JsonBody (JObj
            [(''disabled'', JBool off), (''localLogin'', JBool (usable \<and> \<not> hidden)),
             (''entra'', JObj [(''enabled'', JBool (e \<noteq> None))]),
             (''oidc'', JObj [(''enabled'', JBool (o' \<noteq> None)), (''displayName'', JStr name)])]))) }"

end
