(* ===== verification/SingleSignOn.thy ===== *)
theory SingleSignOn
  imports AuthService
begin

section \<open>Single sign-on (internal/auth/entra.go, oidc.go)\<close>

text \<open>
  Signing in with Microsoft Entra ID or another OpenID Connect provider: the authorization code
  flow, whose state, nonce and verifier travel in a signed cookie. The provider, the exchange of
  the code and the check of the identity token are calls of libraries (\<open>AuthApi\<close>); the flow around
  them, the mapping of claims to a role and the redirects are the repository's. Logging and the
  text of its own errors with a cause are left out; characters beyond ASCII count as plain ones in
  return paths, where Go also refuses the white space and control characters among them.
\<close>

subsection \<open>Transactions\<close>

definition DefaultAuthorityHost :: string where "DefaultAuthorityHost = ''https://login.microsoftonline.com''"
definition CallbackPath :: string where "CallbackPath = ''/api/auth/entra/callback''"
definition SPACallbackPath :: string where "SPACallbackPath = ''/auth/callback''"
definition OIDCCallbackPath :: string where "OIDCCallbackPath = ''/api/auth/oidc/callback''"
definition SecretKeyClientSecret :: string where "SecretKeyClientSecret = ''CLIENT_SECRET''"
definition txnCookie :: string where "txnCookie = ''costdeck-oidc''"
definition oidcTxnCookie :: string where "oidcTxnCookie = ''costdeck-oidc-sso''"
definition txnTTL :: duration where "txnTTL = 10 * minute"

record oidcTxn =
  txState :: string
  txNonce :: string
  txVerifier :: string
  txRedirectURL :: string
  txReturnTo :: string
  txExpiresAt :: int

definition txnFields :: "oidcTxn \<Rightarrow> (string \<times> json) list" where
  "txnFields t =
     field ''state'' (JStr (txState t)) @ field ''nonce'' (JStr (txNonce t)) @ field ''verifier'' (JStr (txVerifier t))
     @ field ''redirect'' (JStr (txRedirectURL t)) @ field ''return'' (JStr (txReturnTo t)) @ field ''exp'' (JInt (txExpiresAt t))"

definition txnNames :: "string list" where
  "txnNames = [''state'', ''nonce'', ''verifier'', ''redirect'', ''return'', ''exp'']"

definition readTxn :: "string \<Rightarrow> oidcTxn option" where
  "readTxn s =
     Option.bind (readStruct txnNames s) (\<lambda>fs.
     Option.bind (readField asString ''state'' [] fs) (\<lambda>st.
     Option.bind (readField asString ''nonce'' [] fs) (\<lambda>nonce.
     Option.bind (readField asString ''verifier'' [] fs) (\<lambda>verifier.
     Option.bind (readField asString ''redirect'' [] fs) (\<lambda>redirect.
     Option.bind (readField asString ''return'' [] fs) (\<lambda>ret.
     Option.bind (readField asInt64 ''exp'' 0 fs) (\<lambda>ex.
     Some \<lparr>txState = st, txNonce = nonce, txVerifier = verifier, txRedirectURL = redirect, txReturnTo = ret,
           txExpiresAt = ex\<rparr>)))))))"

record SignInError =
  seCode :: string
  seDetail :: string

subsection \<open>Paths and redirects\<close>

text \<open>\<open>url.QueryEscape\<close> and the query of a failed sign-in, keys in order.\<close>

definition upperHex :: "nat \<Rightarrow> char" where
  "upperHex d = char_of (if d < 10 then 48 + d else 55 + d)"

definition queryEscape :: "string \<Rightarrow> string" where
  "queryEscape s = concat (map (\<lambda>c.
     if alnum c \<or> (65 \<le> charCode c \<and> charCode c \<le> 90) \<or> c \<in> set ''-_.~'' then [c]
     else if c = CHR '' '' then ''+''
     else [CHR ''%'', upperHex (charCode c div 16), upperHex (charCode c mod 16)]) s)"

definition badInPath :: "char \<Rightarrow> bool" where
  "badInPath c \<longleftrightarrow> c = CHR 0x5C \<or> isSpace c \<or> charCode c < 32 \<or> charCode c = 127"

definition safeReturnPath :: "('w, 'l) authority \<Rightarrow> string \<Rightarrow> string" where
  "safeReturnPath api p =
     (if (case p of
            [] \<Rightarrow> True
          | c # cs \<Rightarrow> c \<noteq> CHR ''/'' \<or> (case cs of [] \<Rightarrow> False | d # _ \<Rightarrow> d = CHR ''/'' \<or> d = CHR 0x5C))
         \<or> list_ex badInPath p
         \<or> hasPrefix p CallbackPath \<or> hasPrefix p SPACallbackPath \<or> hasPrefix p OIDCCallbackPath
      then ''/''
      else case parseURL api p of
             None \<Rightarrow> ''/''
           | Some (scheme, host) \<Rightarrow> if scheme \<noteq> [] \<or> host \<noteq> [] then ''/'' else p)"

definition errorTarget :: "('w, 'l) authority \<Rightarrow> string \<Rightarrow> SignInError \<Rightarrow> string" where
  "errorTarget api returnTo e =
     (let target = safeReturnPath api returnTo; sep = (if CHR ''?'' \<in> set target then ''&'' else ''?'')
      in target @ sep @ ''sso_detail='' @ queryEscape (seDetail e) @ ''&sso_error='' @ queryEscape (seCode e))"

definition redirectWithError :: "('w, 'l) authority \<Rightarrow> string \<Rightarrow> Cookie list \<Rightarrow> SignInError \<Rightarrow> answer" where
  "redirectWithError api returnTo cookies e = Redirect (errorTarget api returnTo e) cookies"

definition trimRightSlash :: "string \<Rightarrow> string" where
  "trimRightSlash s = rev (dropWhile (\<lambda>c. c = CHR ''/'') (rev s))"

definition authorityOf :: "EntraConfig \<Rightarrow> string" where
  "authorityOf cfg = (let host = trimRightSlash (enAuthorityHost cfg) in if host = [] then DefaultAuthorityHost else host)"

definition multiTenant :: "string \<Rightarrow> bool" where
  "multiTenant tenant \<longleftrightarrow> toLower tenant \<in> {''organizations'', ''common'', ''consumers''}"

definition callbackOnHost :: "Request \<Rightarrow> string" where
  "callbackOnHost r =
     (let fwd = rqHeader r ''X-Forwarded-Host'';
          host = (if fwd \<noteq> [] then trimSpace (hd (splitChar CHR '','' fwd)) else rqHost r)
      in (if isHTTPS r then ''https'' else ''http'') @ ''://'' @ host @ CallbackPath)"

definition redirectURL :: "Request \<Rightarrow> EntraConfig \<Rightarrow> string" where
  "redirectURL r cfg = (if enRedirectURL cfg \<noteq> [] then enRedirectURL cfg else callbackOnHost r)"

definition trimSuffix :: "string \<Rightarrow> string \<Rightarrow> string" where
  "trimSuffix s p = (case cutSuffix s p of Some t \<Rightarrow> t | None \<Rightarrow> s)"

definition oidcRedirectURL :: "Request \<Rightarrow> OIDCConfig \<Rightarrow> string" where
  "oidcRedirectURL r cfg =
     (if ocRedirectURL cfg \<noteq> [] then ocRedirectURL cfg else trimSuffix (callbackOnHost r) CallbackPath @ OIDCCallbackPath)"

subsection \<open>Roles out of claims\<close>

definition mappedRole :: "(string \<rightharpoonup> string) \<Rightarrow> string \<Rightarrow> Role option" where
  "mappedRole m g = ParseRole (case m g of Some r \<Rightarrow> r | None \<Rightarrow> [])"

text \<open>The highest of a role and those found.\<close>

definition raise :: "Role \<Rightarrow> Role option \<Rightarrow> Role" where
  "raise role r = (case r of Some x \<Rightarrow> Higher role x | None \<Rightarrow> role)"

definition ResolveRole :: "EntraConfig \<Rightarrow> string list \<Rightarrow> string list \<Rightarrow> Role option" where
  "ResolveRole cfg groups appRoles =
     (let mt = multiTenant (enTenantID cfg);
          byGroup = foldl (\<lambda>role g. raise role (mappedRole (enGroupRoleMapping cfg) g)) [] groups;
          role = (if mt then byGroup else foldl (\<lambda>role a. raise role (ParseRole a)) byGroup appRoles)
      in if role \<noteq> [] then Some role
         else if mt \<or> enAutoProvision cfg = Some False then None
         else case ParseRole (enDefaultRole cfg) of Some r \<Rightarrow> Some r | None \<Rightarrow> Some RoleViewer)"

definition oidcRole :: "OIDCConfig \<Rightarrow> string \<Rightarrow> Role option" where
  "oidcRole cfg name =
     (case ocRoleMapping cfg name of
        Some mapped \<Rightarrow> ParseRole mapped
      | None \<Rightarrow> if hasPrefix (toLower (trimSpace name)) ''costdeck.'' then ParseRole name else None)"

definition groupKeys :: "string \<Rightarrow> string list" where
  "groupKeys g = (let bare = trimPrefix g ''/'' in [g, bare, CHR ''/'' # bare])"

definition ResolveOIDCRole :: "OIDCConfig \<Rightarrow> string list \<Rightarrow> string list \<Rightarrow> Role option" where
  "ResolveOIDCRole cfg groups roles =
     (let byGroup = foldl (\<lambda>role k. raise role (mappedRole (ocGroupRoleMapping cfg) k)) [] (concat (map groupKeys groups));
          role = foldl (\<lambda>role n. raise role (oidcRole cfg n)) byGroup roles
      in if role \<noteq> [] then Some role
         else if ocAutoProvision cfg = Some False then None
         else case ParseRole (ocDefaultRole cfg) of Some r \<Rightarrow> Some r | None \<Rightarrow> Some RoleViewer)"

text \<open>A claim at a dotted path: a list of strings, or one string.\<close>

fun claimAt :: "json \<Rightarrow> string list \<Rightarrow> json option" where
  "claimAt j [] = Some j"
| "claimAt (JObj m) (k # ks) = claimAt (case map_of (rev m) k of Some v \<Rightarrow> v | None \<Rightarrow> JNull) ks"
| "claimAt j (k # ks) = None"

fun stringsOf :: "json list \<Rightarrow> string list" where
  "stringsOf [] = []"
| "stringsOf (JStr s # js) = s # stringsOf js"
| "stringsOf (_ # js) = stringsOf js"

definition ClaimStrings :: "json \<Rightarrow> string \<Rightarrow> string list" where
  "ClaimStrings claims path =
     (case claimAt claims (splitChar CHR ''.'' path) of
        Some (JStr s) \<Rightarrow> [s]
      | Some (JArr js) \<Rightarrow> stringsOf js
      | _ \<Rightarrow> [])"

subsection \<open>Settings and providers\<close>

definition SecretData :: "('w, 'l) authority \<Rightarrow> string \<Rightarrow> ('w, 'l, authError + (string \<times> string) list) auth" where
  "SecretData api n =
     (if n = [] then State_Monad.return (Inl (PlainError ''no secret configured''))
      else do { r \<leftarrow> call (getSecret api n);
                State_Monad.return (case r of
                    Inl e \<Rightarrow> Inl (Context (''read secret '' @ n) (OfApi e))
                  | Inr s \<Rightarrow> Inr (secData s)) })"

definition clientSecret :: "('w, 'l) authority \<Rightarrow> string \<Rightarrow> ('w, 'l, authError + string) auth" where
  "clientSecret api ref =
     (if ref = [] then State_Monad.return (Inr [])
      else attempt (SecretData api ref) (\<lambda>d. State_Monad.return (Inr (dataField SecretKeyClientSecret d))))"

definition entraSettings :: "('w, 'l) authority \<Rightarrow> ('w, 'l, authError + (EntraConfig \<times> string) option) auth" where
  "entraSettings api =
     do { c \<leftarrow> enabledEntra api;
          case c of
            None \<Rightarrow> State_Monad.return (Inr None)
          | Some ec \<Rightarrow> attempt (clientSecret api (enClientSecretRef ec)) (\<lambda>secret. State_Monad.return (Inr (Some (ec, secret)))) }"

definition oidcSettings :: "('w, 'l) authority \<Rightarrow> ('w, 'l, authError + (OIDCConfig \<times> string) option) auth" where
  "oidcSettings api =
     do { c \<leftarrow> enabledOIDC api;
          case c of
            None \<Rightarrow> State_Monad.return (Inr None)
          | Some oc \<Rightarrow> attempt (clientSecret api (ocClientSecretRef oc)) (\<lambda>secret. State_Monad.return (Inr (Some (oc, secret)))) }"

text \<open>A provider out of the cache of an hour, or discovered.\<close>

definition providerKey :: "string \<Rightarrow> bool \<Rightarrow> string" where
  "providerKey issuer skip = issuer @ ''|'' @ (if skip then ''true'' else ''false'')"

definition cachedProvider :: "(string \<times> nat \<times> time) list \<Rightarrow> time \<Rightarrow> string \<Rightarrow> nat option" where
  "cachedProvider ps now key =
     (case map_of ps key of Some (p, since) \<Rightarrow> if now - since < hour then Some p else None | None \<Rightarrow> None)"

definition entraProvider :: "('w, 'l) authority \<Rightarrow> EntraConfig \<Rightarrow> ('w, 'l, authError + nat) auth" where
  "entraProvider api cfg =
     do { h \<leftarrow> State_Monad.get;
          now \<leftarrow> call (timeNow api);
          let issuer = authorityOf cfg @ ''/'' @ enTenantID cfg @ ''/v2.0'';
          let key = providerKey issuer (enSkipSSLVerify cfg);
          case cachedProvider (entraProviders h) now key of
            Some p \<Rightarrow> State_Monad.return (Inr p)
          | None \<Rightarrow>
              do { r \<leftarrow> call (newProvider api (enSkipSSLVerify cfg)
                         (if multiTenant (enTenantID cfg) then authorityOf cfg @ ''/{tenantid}/v2.0'' else issuer) issuer);
                   case r of
                     Inl e \<Rightarrow> State_Monad.return (Inl (Context (''discover Entra tenant '' @ quoted (enTenantID cfg)) (PlainError e)))
                   | Inr p \<Rightarrow>
                       do { since \<leftarrow> call (timeNow api);
                            changeHost (\<lambda>h. h\<lparr>entraProviders := AList.update key (p, since) (entraProviders h)\<rparr>);
                            State_Monad.return (Inr p) } } }"

definition oidcProvider :: "('w, 'l) authority \<Rightarrow> OIDCConfig \<Rightarrow> ('w, 'l, authError + nat) auth" where
  "oidcProvider api cfg =
     do { h \<leftarrow> State_Monad.get;
          now \<leftarrow> call (timeNow api);
          let issuer = trimRightSlash (ocIssuerURL cfg);
          let key = providerKey issuer (ocSkipSSLVerify cfg);
          case cachedProvider (oidcProviders h) now key of
            Some p \<Rightarrow> State_Monad.return (Inr p)
          | None \<Rightarrow>
              do { r \<leftarrow> call (newProvider api (ocSkipSSLVerify cfg) issuer issuer);
                   case r of
                     Inl e \<Rightarrow> State_Monad.return (Inl (Context (''discover the OpenID Connect issuer '' @ issuer) (PlainError e)))
                   | Inr p \<Rightarrow>
                       do { since \<leftarrow> call (timeNow api);
                            changeHost (\<lambda>h. h\<lparr>oidcProviders := AList.update key (p, since) (oidcProviders h)\<rparr>);
                            State_Monad.return (Inr p) } } }"

definition entraOAuth :: "EntraConfig \<Rightarrow> string \<Rightarrow> string \<Rightarrow> OAuth" where
  "entraOAuth cfg secret redirect =
     \<lparr>oaClientID = enClientID cfg, oaClientSecret = secret, oaRedirectURL = redirect, oaScopes = [''openid'', ''profile'', ''email'']\<rparr>"

definition oidcOAuth :: "OIDCConfig \<Rightarrow> string \<Rightarrow> string \<Rightarrow> OAuth" where
  "oidcOAuth cfg secret redirect =
     (let extra = (if ocScopes cfg = [] then [''profile'', ''email''] else ocScopes cfg);
          scopes = foldl (\<lambda>scs sc. let t = trimSpace sc in if t \<noteq> [] \<and> t \<notin> set scs then scs @ [t] else scs) [''openid''] extra
      in \<lparr>oaClientID = ocClientID cfg, oaClientSecret = secret, oaRedirectURL = redirect, oaScopes = scopes\<rparr>)"

subsection \<open>Starting a sign-in\<close>

text \<open>\<open>randomToken\<close> keeps the zeros of its buffer when the system gives no random bytes.\<close>

definition randomToken :: "('w, 'l) authority \<Rightarrow> ('w, 'l, string) auth" where
  "randomToken api =
     do { r \<leftarrow> call (randomBytes api 24);
          State_Monad.return (encodeBase64 (case r of Inr b \<Rightarrow> b | Inl _ \<Rightarrow> replicate 24 (CHR 0x00))) }"

definition txnCookieOf :: "string \<Rightarrow> Request \<Rightarrow> string \<Rightarrow> Cookie" where
  "txnCookieOf name r token = \<lparr>ckName = name, ckValue = token, ckPath = ''/'', ckHttpOnly = True, ckSecure = isHTTPS r,
     ckSameSiteLax = True, ckMaxAge = txnTTL div second\<rparr>"

definition clearTxn :: "string \<Rightarrow> Request \<Rightarrow> Cookie" where
  "clearTxn name r = \<lparr>ckName = name, ckValue = [], ckPath = ''/'', ckHttpOnly = True, ckSecure = isHTTPS r,
     ckSameSiteLax = True, ckMaxAge = -1\<rparr>"

definition newTxn :: "('w, 'l) authority \<Rightarrow> string \<Rightarrow> string \<Rightarrow> ('w, 'l, oidcTxn) auth" where
  "newTxn api redirect returnTo =
     do { st \<leftarrow> randomToken api;
          nonce \<leftarrow> randomToken api;
          verifier \<leftarrow> call (newVerifier api);
          now \<leftarrow> call (timeNow api);
          State_Monad.return \<lparr>txState = st, txNonce = nonce, txVerifier = verifier, txRedirectURL = redirect,
            txReturnTo = safeReturnPath api returnTo, txExpiresAt = unixOf (now + txnTTL)\<rparr> }"

definition startTxn :: "('w, 'l) authority \<Rightarrow> Service \<Rightarrow> string \<Rightarrow> Request \<Rightarrow> nat \<Rightarrow> (string \<Rightarrow> OAuth) \<Rightarrow> string
    \<Rightarrow> (string \<times> string) list \<Rightarrow> ('w, 'l, answer) auth" where
  "startTxn api s cookie r p oauth redirect params =
     do { t \<leftarrow> newTxn api redirect (rqQuery r ''return'');
          State_Monad.return (case Sign (svSessions s) (Some (structText (txnFields t))) of
              Inl _ \<Rightarrow> Reply 500 [] [] (PlainBody ''could not start sign-in'')
            | Inr token \<Rightarrow> Redirect (authCodeURL api p (oauth redirect) (txState t) (txNonce t) (txVerifier t) params)
                [txnCookieOf cookie r token]) }"

definition entraDisabled :: SignInError where
  "entraDisabled = \<lparr>seCode = ''sso_disabled'', seDetail = ''Microsoft sign-in is not configured''\<rparr>"
definition entraUnavailable :: SignInError where
  "entraUnavailable = \<lparr>seCode = ''sso_unavailable'', seDetail = ''Microsoft Entra ID could not be reached''\<rparr>"
definition oidcDisabled :: SignInError where
  "oidcDisabled = \<lparr>seCode = ''sso_disabled'', seDetail = ''Single sign-on is not configured''\<rparr>"
definition oidcUnavailable :: SignInError where
  "oidcUnavailable = \<lparr>seCode = ''sso_unavailable'', seDetail = ''The sign-in provider could not be reached''\<rparr>"

definition EntraLogin :: "('w, 'l) authority \<Rightarrow> Service \<Rightarrow> Request \<Rightarrow> ('w, 'l, answer) auth" where
  "EntraLogin api s r =
     do { c \<leftarrow> entraSettings api;
          case c of
            Inr (Some (cfg, secret)) \<Rightarrow>
              do { p \<leftarrow> entraProvider api cfg;
                   case p of
                     Inl _ \<Rightarrow> State_Monad.return (redirectWithError api ''/'' [] entraUnavailable)
                   | Inr p \<Rightarrow> startTxn api s txnCookie r p (entraOAuth cfg secret) (redirectURL r cfg) [(''response_mode'', ''query'')] }
          | _ \<Rightarrow> State_Monad.return (redirectWithError api ''/'' [] entraDisabled) }"

definition OIDCLogin :: "('w, 'l) authority \<Rightarrow> Service \<Rightarrow> Request \<Rightarrow> ('w, 'l, answer) auth" where
  "OIDCLogin api s r =
     do { c \<leftarrow> oidcSettings api;
          case c of
            Inr (Some (cfg, secret)) \<Rightarrow>
              do { p \<leftarrow> oidcProvider api cfg;
                   case p of
                     Inl _ \<Rightarrow> State_Monad.return (redirectWithError api ''/'' [] oidcUnavailable)
                   | Inr p \<Rightarrow> startTxn api s oidcTxnCookie r p (oidcOAuth cfg secret) (oidcRedirectURL r cfg) [] }
          | _ \<Rightarrow> State_Monad.return (redirectWithError api ''/'' [] oidcDisabled) }"

subsection \<open>Completing a sign-in\<close>

text \<open>The checks both flows begin \<open>complete\<close> with: the transaction of the cookie, not expired, the
  provider's error and the state. A failure carries the path to return to.\<close>

definition openTxn :: "('w, 'l) authority \<Rightarrow> Service \<Rightarrow> string \<Rightarrow> Request \<Rightarrow> string \<Rightarrow> string \<Rightarrow> string
    \<Rightarrow> ('w, 'l, (SignInError \<times> string) + oidcTxn \<times> string) auth" where
  "openTxn api s cookie r st errCode errDesc =
     do { now \<leftarrow> call (timeNow api);
          State_Monad.return
            (case Option.bind (rqCookie r cookie) (\<lambda>v. case Verify (svSessions s) readTxn v of Inr t \<Rightarrow> Some t | Inl _ \<Rightarrow> None) of
               None \<Rightarrow> Inl (\<lparr>seCode = ''sign_in_expired'', seDetail =
                   ''The sign-in took too long or was started in another browser. Please try again.''\<rparr>, ''/'')
             | Some t \<Rightarrow>
                 if txExpiresAt t < unixOf now
                 then Inl (\<lparr>seCode = ''sign_in_expired'', seDetail =
                   ''The sign-in took too long or was started in another browser. Please try again.''\<rparr>, ''/'')
                 else let returnTo = safeReturnPath api (txReturnTo t)
                      in if errCode \<noteq> [] then Inl (\<lparr>seCode = errCode, seDetail = errDesc\<rparr>, returnTo)
                         else if st = [] \<or> st \<noteq> txState t
                         then Inl (\<lparr>seCode = ''state_mismatch'', seDetail =
                           ''The sign-in response does not belong to this browser session.''\<rparr>, returnTo)
                         else Inr (t, returnTo)) }"

record entraClaims =
  ecIssuer :: string
  ecSubject :: string
  ecObjectID :: string
  ecTenantID :: string
  ecName :: string
  ecPreferredUsername :: string
  ecEmail :: string
  ecGroups :: "string list"
  ecRoles :: "string list"

text \<open>A list of strings out of JSON, in which null stands for the empty string, and a map of strings.\<close>

fun asStrings :: "json \<Rightarrow> string list option" where
  "asStrings (JArr js) = allSome (map (\<lambda>j. case j of JStr s \<Rightarrow> Some s | JNull \<Rightarrow> Some [] | _ \<Rightarrow> None) js)"
| "asStrings _ = None"

fun asStringMap :: "json \<Rightarrow> unit option" where
  "asStringMap (JObj m) = (if list_all (\<lambda>(_, v). case v of JStr _ \<Rightarrow> True | JNull \<Rightarrow> True | _ \<Rightarrow> False) m then Some () else None)"
| "asStringMap _ = None"

definition claimNames :: "string list" where
  "claimNames = [''iss'', ''sub'', ''oid'', ''tid'', ''name'', ''preferred_username'', ''email'', ''groups'', ''roles'', ''_claim_names'']"

definition readClaims :: "json \<Rightarrow> entraClaims option" where
  "readClaims j =
     Option.bind (case j of JObj m \<Rightarrow> Some (memberFields claimNames m) | JNull \<Rightarrow> Some [] | _ \<Rightarrow> None) (\<lambda>fs.
     Option.bind (readField asString ''iss'' [] fs) (\<lambda>iss.
     Option.bind (readField asString ''sub'' [] fs) (\<lambda>sub.
     Option.bind (readField asString ''oid'' [] fs) (\<lambda>oid.
     Option.bind (readField asString ''tid'' [] fs) (\<lambda>tid.
     Option.bind (readField asString ''name'' [] fs) (\<lambda>name.
     Option.bind (readField asString ''preferred_username'' [] fs) (\<lambda>pref.
     Option.bind (readField asString ''email'' [] fs) (\<lambda>email.
     Option.bind (readField asStrings ''groups'' [] fs) (\<lambda>groups.
     Option.bind (readField asStrings ''roles'' [] fs) (\<lambda>roles.
     Option.bind (readField asStringMap ''_claim_names'' () fs) (\<lambda>_.
     Some \<lparr>ecIssuer = iss, ecSubject = sub, ecObjectID = oid, ecTenantID = tid, ecName = name,
           ecPreferredUsername = pref, ecEmail = email, ecGroups = groups, ecRoles = roles\<rparr>)))))))))))"

text \<open>The identity token is that of the sign-in (its nonce) and, where any tenant may sign in, of the
  user's own tenant.\<close>

definition verifyEntra :: "('w, 'l) authority \<Rightarrow> nat \<Rightarrow> EntraConfig \<Rightarrow> string \<Rightarrow> string \<Rightarrow> ('w, 'l, authError + entraClaims) auth" where
  "verifyEntra api p cfg rawID nonce =
     (if rawID = [] then State_Monad.return (Inl (PlainError ''token response carries no id_token''))
      else attempt (toAuth (verifyIDToken api p (enClientID cfg) (multiTenant (enTenantID cfg)) rawID)) (\<lambda>tok.
        State_Monad.return
          (if itNonce tok \<noteq> nonce then Inl (PlainError ''nonce mismatch'')
           else case readClaims (itClaims tok) of
                  None \<Rightarrow> Inl (PlainError ''json'')
                | Some c \<Rightarrow>
                    if multiTenant (enTenantID cfg) \<and> ecIssuer c \<noteq> authorityOf cfg @ ''/'' @ ecTenantID c @ ''/v2.0''
                    then Inl (PlainError (''unexpected issuer '' @ quoted (ecIssuer c)))
                    else Inr c)))"

definition entraIdentity :: "entraClaims \<Rightarrow> Role \<Rightarrow> Identity" where
  "entraIdentity c role =
     \<lparr>idSubject = ''entra:'' @ firstNonEmpty [ecObjectID c, ecSubject c],
      idName = firstNonEmpty [ecName c, ecPreferredUsername c, ecEmail c],
      idEmail = firstNonEmpty [ecEmail c, ecPreferredUsername c],
      idRole = role, idProvider = ''entra'', idExpiresAt = 0, idIssuedAt = 0, idMustChange = False\<rparr>"

definition completeEntra :: "('w, 'l) authority \<Rightarrow> Service \<Rightarrow> Request \<Rightarrow> string \<Rightarrow> string \<Rightarrow> string \<Rightarrow> string
    \<Rightarrow> ('w, 'l, (SignInError \<times> string) + Identity \<times> string) auth" where
  "completeEntra api s r code st errCode errDesc =
     attempt (openTxn api s txnCookie r st errCode errDesc) (\<lambda>(t, returnTo).
       do { c \<leftarrow> entraSettings api;
            case c of
              Inr (Some (cfg, secret)) \<Rightarrow>
                do { p \<leftarrow> entraProvider api cfg;
                     case p of
                       Inl _ \<Rightarrow> State_Monad.return (Inl (entraUnavailable, returnTo))
                     | Inr p \<Rightarrow>
                         do { x \<leftarrow> call (exchangeCode api p (entraOAuth cfg secret (txRedirectURL t)) code (txVerifier t));
                              case x of
                                Inl _ \<Rightarrow> State_Monad.return (Inl (\<lparr>seCode = ''exchange_failed'', seDetail =
                                    ''Entra ID rejected the sign-in (check the client secret and redirect URI).''\<rparr>, returnTo))
                              | Inr rawID \<Rightarrow>
                                  do { v \<leftarrow> verifyEntra api p cfg rawID (txNonce t);
                                       State_Monad.return (case v of
                                           Inl _ \<Rightarrow> Inl (\<lparr>seCode = ''invalid_token'', seDetail =
                                               ''The identity token could not be verified.''\<rparr>, returnTo)
                                         | Inr claims \<Rightarrow>
                                             (case ResolveRole cfg (ecGroups claims) (ecRoles claims) of
                                                None \<Rightarrow> Inl (\<lparr>seCode = ''user_not_provisioned'', seDetail =
                                                  ''Your account is not allowed to use CostDeck. Ask an administrator to map one of your groups to a role.''\<rparr>, returnTo)
                                              | Some role \<Rightarrow> Inr (entraIdentity claims role, returnTo))) } } }
            | _ \<Rightarrow> State_Monad.return (Inl (entraDisabled, returnTo)) })"

definition claimText :: "json \<Rightarrow> string \<Rightarrow> string" where
  "claimText j k = (case j of JObj m \<Rightarrow> (case map_of (rev m) k of Some (JStr s) \<Rightarrow> s | _ \<Rightarrow> []) | _ \<Rightarrow> [])"

definition oidcIdentity :: "json \<Rightarrow> Role \<Rightarrow> Identity" where
  "oidcIdentity j role =
     \<lparr>idSubject = ''oidc:'' @ claimText j ''sub'',
      idName = firstNonEmpty [claimText j ''name'', claimText j ''preferred_username'', claimText j ''email'', claimText j ''sub''],
      idEmail = firstNonEmpty [claimText j ''email'', claimText j ''preferred_username''],
      idRole = role, idProvider = ''oidc'', idExpiresAt = 0, idIssuedAt = 0, idMustChange = False\<rparr>"

definition oidcClaimRole :: "OIDCConfig \<Rightarrow> json \<Rightarrow> Role option" where
  "oidcClaimRole cfg claims =
     ResolveOIDCRole cfg (ClaimStrings claims (if ocGroupsClaim cfg = [] then ''groups'' else ocGroupsClaim cfg))
       (if ocRolesClaim cfg \<noteq> [] then ClaimStrings claims (ocRolesClaim cfg) else [])"

definition invalidToken :: "string \<Rightarrow> SignInError" where
  "invalidToken detail = \<lparr>seCode = ''invalid_token'', seDetail = detail\<rparr>"

text \<open>The claims of an OIDC token are decoded into a map: they must be an object, or null.\<close>

definition completeOIDC :: "('w, 'l) authority \<Rightarrow> Service \<Rightarrow> Request \<Rightarrow> string \<Rightarrow> string \<Rightarrow> string \<Rightarrow> string
    \<Rightarrow> ('w, 'l, (SignInError \<times> string) + Identity \<times> string) auth" where
  "completeOIDC api s r code st errCode errDesc =
     attempt (openTxn api s oidcTxnCookie r st errCode errDesc) (\<lambda>(t, returnTo).
       do { c \<leftarrow> oidcSettings api;
            case c of
              Inr (Some (cfg, secret)) \<Rightarrow>
                do { p \<leftarrow> oidcProvider api cfg;
                     case p of
                       Inl _ \<Rightarrow> State_Monad.return (Inl (oidcUnavailable, returnTo))
                     | Inr p \<Rightarrow>
                         do { x \<leftarrow> call (exchangeCode api p (oidcOAuth cfg secret (txRedirectURL t)) code (txVerifier t));
                              case x of
                                Inl _ \<Rightarrow> State_Monad.return (Inl (\<lparr>seCode = ''exchange_failed'', seDetail =
                                    ''The provider rejected the sign-in (check the client secret and redirect URI).''\<rparr>, returnTo))
                              | Inr rawID \<Rightarrow>
                                  if rawID = [] then State_Monad.return (Inl (invalidToken ''The provider sent no identity token.'', returnTo))
                                  else do { v \<leftarrow> call (verifyIDToken api p (ocClientID cfg) False rawID);
                                            State_Monad.return (case v of
                                                Inl _ \<Rightarrow> Inl (invalidToken ''The identity token could not be verified.'', returnTo)
                                              | Inr tok \<Rightarrow>
                                                  if itNonce tok \<noteq> txNonce t
                                                  then Inl (invalidToken ''The identity token could not be verified.'', returnTo)
                                                  else if \<not> (case itClaims tok of JObj _ \<Rightarrow> True | JNull \<Rightarrow> True | _ \<Rightarrow> False)
                                                  then Inl (invalidToken ''The identity token could not be read.'', returnTo)
                                                  else (case oidcClaimRole cfg (itClaims tok) of
                                                          None \<Rightarrow> Inl (\<lparr>seCode = ''user_not_provisioned'', seDetail =
                                                            ''Your account is not allowed to use CostDeck. Ask an administrator to map one of your groups or roles.''\<rparr>, returnTo)
                                                        | Some role \<Rightarrow> Inr (oidcIdentity (itClaims tok) role, returnTo))) } } }
            | _ \<Rightarrow> State_Monad.return (Inl (oidcDisabled, returnTo)) })"

text \<open>The end of a callback: the session, the record of the sign-in and the way back.\<close>

definition finishCallback :: "('w, 'l) authority \<Rightarrow> Service \<Rightarrow> string \<Rightarrow> Request
    \<Rightarrow> (SignInError \<times> string) + Identity \<times> string \<Rightarrow> ('w, 'l, answer) auth" where
  "finishCallback api s cookie r c =
     (case c of
        Inl (e, returnTo) \<Rightarrow> State_Monad.return (redirectWithError api returnTo [clearTxn cookie r] e)
      | Inr (i, returnTo) \<Rightarrow>
          do { now \<leftarrow> call (timeNow api);
               case Issue (svSessions s) r now i of
                 Inl e \<Rightarrow> State_Monad.return (redirectWithError api returnTo [clearTxn cookie r]
                     \<lparr>seCode = ''session_failed'', seDetail = errText api e\<rparr>)
               | Inr ck \<Rightarrow>
                   do { _ \<leftarrow> RecordSignIn api i;
                        State_Monad.return (Redirect returnTo [clearTxn cookie r, ck]) } })"

definition EntraCallback :: "('w, 'l) authority \<Rightarrow> Service \<Rightarrow> Request \<Rightarrow> ('w, 'l, answer) auth" where
  "EntraCallback api s r =
     do { c \<leftarrow> completeEntra api s r (rqQuery r ''code'') (rqQuery r ''state'') (rqQuery r ''error'') (rqQuery r ''error_description'');
          finishCallback api s txnCookie r c }"

definition OIDCCallback :: "('w, 'l) authority \<Rightarrow> Service \<Rightarrow> Request \<Rightarrow> ('w, 'l, answer) auth" where
  "OIDCCallback api s r =
     do { c \<leftarrow> completeOIDC api s r (rqQuery r ''code'') (rqQuery r ''state'') (rqQuery r ''error'') (rqQuery r ''error_description'');
          finishCallback api s oidcTxnCookie r c }"

definition EntraSPACallback :: "('w, 'l) authority \<Rightarrow> Service \<Rightarrow> Request \<Rightarrow> ('w, 'l, answer) auth" where
  "EntraSPACallback api s r =
     (case Option.bind (decodeBody 65536 [''code'', ''state'', ''error'', ''error_description''] (rqBody r)) (\<lambda>fs.
           Option.bind (readField asString ''code'' [] fs) (\<lambda>code.
           Option.bind (readField asString ''state'' [] fs) (\<lambda>st.
           Option.bind (readField asString ''error'' [] fs) (\<lambda>err.
           map_option (\<lambda>desc. (code, st, err, desc)) (readField asString ''error_description'' [] fs))))) of
        None \<Rightarrow> State_Monad.return (errorReply 400 ''invalid request'')
      | Some (code, st, err, desc) \<Rightarrow>
          do { c \<leftarrow> completeEntra api s r code st err desc;
               case c of
                 Inl (e, _) \<Rightarrow> State_Monad.return (Reply 401 [clearTxn txnCookie r] []
                     (JsonBody (JObj [(''error'', JStr (seCode e)), (''detail'', JStr (seDetail e))])))
               | Inr (i, returnTo) \<Rightarrow>
                   do { now \<leftarrow> call (timeNow api);
                        case Issue (svSessions s) r now i of
                          Inl _ \<Rightarrow> State_Monad.return (Reply 500 [clearTxn txnCookie r] []
                              (JsonBody (JObj [(''error'', JStr ''session_failed'')])))
                        | Inr ck \<Rightarrow>
                            do { _ \<leftarrow> RecordSignIn api i;
                                 State_Monad.return (Reply 200 [clearTxn txnCookie r, ck] []
                                   (JsonBody (JObj [(''user'', identityJson i), (''returnTo'', JStr returnTo)]))) } } })"

end
