(* ===== verification/AuthHost.thy ===== *)
theory AuthHost
  imports SingleSignOn
begin

section \<open>What the process keeps between requests\<close>

text \<open>
  The caches of tokens and users are views of their Secret from the time they were read, at most
  the latency of a read ago, and the hash kept of the built-in admin's password is one bcrypt made
  of it (\<open>hostOK\<close>). Every operation of the package keeps that, so it holds of whatever state the
  process reaches by serving requests and by the chat bots and handlers that manage tokens and
  users (\<open>served\<close>).
\<close>

subsection \<open>Fresh caches\<close>

text \<open>The hash kept of the built-in admin's password is one that bcrypt made of it, or none.\<close>

definition madeOf :: "('w, 'l) authority \<Rightarrow> string \<Rightarrow> string option \<Rightarrow> bool" where
  "madeOf api p x \<longleftrightarrow>
     (\<exists>w r w'. run_state (bcryptHash api p) w = (r, w') \<and> x = (case r of Inl _ \<Rightarrow> None | Inr hash \<Rightarrow> Some hash))"

definition hostOK :: "('w, 'l) authority \<Rightarrow> Service \<Rightarrow> ('w \<Rightarrow> time) \<Rightarrow> (time \<Rightarrow> string \<Rightarrow> contents) \<Rightarrow> duration \<Rightarrow> ('w, 'l) host \<Rightarrow> bool" where
  "hostOK api s T S lat h \<longleftrightarrow>
     fresh tokensByHash tokensLoadedAt tokenView tokensSecretName T S lat h
     \<and> fresh usersByName usersLoadedAt userView usersSecretName T S lat h
     \<and> (case adminHash h of None \<Rightarrow> True | Some x \<Rightarrow> madeOf api (svLocalPassword s) x)"

definition keepsHost :: "('w, 'l) authority \<Rightarrow> Service \<Rightarrow> ('w \<Rightarrow> time) \<Rightarrow> (time \<Rightarrow> string \<Rightarrow> contents) \<Rightarrow> duration \<Rightarrow> ('w, 'l, 'a) auth \<Rightarrow> bool" where
  "keepsHost api s T S lat m \<longleftrightarrow>
     (\<forall>h. hostOK api s T S lat h \<longrightarrow> after m (\<lambda>_ h'. hostOK api s T S lat h' \<and> T (outside h) \<le> T (outside h')) h)"

lemma keepsHostD: "keepsHost api s T S lat m \<Longrightarrow> hostOK api s T S lat h \<Longrightarrow>
    after m (\<lambda>_ h'. hostOK api s T S lat h' \<and> T (outside h) \<le> T (outside h')) h"
  by (simp add: keepsHost_def)

lemma keeps_return: "keepsHost api s T S lat (State_Monad.return x)"
  by (simp add: keepsHost_def)

lemma keeps_get: "keepsHost api s T S lat State_Monad.get"
  by (simp add: keepsHost_def)

lemma keeps_bind:
  fixes m :: "('w, 'l, 'a) auth" and f :: "'a \<Rightarrow> ('w, 'l, 'b) auth"
  assumes "keepsHost api s T S lat m" "\<And>x. keepsHost api s T S lat (f x)"
  shows "keepsHost api s T S lat (m \<bind> f)"
  unfolding keepsHost_def after_bind
proof (intro allI impI)
  fix h :: "('w, 'l) host" assume h: "hostOK api s T S lat h"
  show "after m (\<lambda>x. after (f x) (\<lambda>_ h'. hostOK api s T S lat h' \<and> T (outside h) \<le> T (outside h'))) h"
  proof (rule after_mono [OF keepsHostD [OF assms(1) h]], goal_cases)
    case (1 x h')
    then have "after (f x) (\<lambda>_ h''. hostOK api s T S lat h'' \<and> T (outside h') \<le> T (outside h'')) h'"
      using keepsHostD [OF assms(2)] by blast
    then show ?case by (rule after_mono) (use 1 in auto)
  qed
qed

lemma keeps_attempt: "keepsHost api s T S lat m \<Longrightarrow> (\<And>x. keepsHost api s T S lat (f x)) \<Longrightarrow> keepsHost api s T S lat (attempt m f)"
  unfolding attempt_def by (rule keeps_bind) (auto intro: keeps_return split: sum.split)

lemma hostOK_later:
  assumes "hostOK api s T S lat h" "T (outside h) \<le> T w"
  shows "hostOK api s T S lat (h\<lparr>outside := w\<rparr>)"
  using assms unfolding hostOK_def by (auto intro!: fresh_later)

lemma keeps_call: "forward T m \<Longrightarrow> keepsHost api s T S lat (call m)"
  unfolding keepsHost_def after_call
  by (auto simp: forward_def intro!: afterI hostOK_later)

lemma keeps_apiCall: "forward T m \<Longrightarrow> keepsHost api s T S lat (apiCall m)"
  unfolding apiCall_def by (intro keeps_bind keeps_call keeps_return)

lemma keeps_toAuth: "forward T m \<Longrightarrow> keepsHost api s T S lat (toAuth m)"
  unfolding toAuth_def by (intro keeps_bind keeps_call keeps_return)

text \<open>Forgetting a cache, and what concerns neither.\<close>

lemma keeps_forget: "keepsHost api s T S lat (changeHost (\<lambda>h. h\<lparr>tokensByHash := None\<rparr>))"
  "keepsHost api s T S lat (changeHost (\<lambda>h. h\<lparr>usersByName := None\<rparr>))"
  "keepsHost api s T S lat (changeHost (\<lambda>h. h\<lparr>limiters := ls\<rparr>))"
  "keepsHost api s T S lat (changeHost (\<lambda>h. h\<lparr>entraProviders := f h\<rparr>))"
  "keepsHost api s T S lat (changeHost (\<lambda>h. h\<lparr>oidcProviders := f h\<rparr>))"
  by (auto simp: keepsHost_def hostOK_def fresh_def split: option.splits)

lemma keeps_retry: "keepsHost api s T S lat m \<Longrightarrow> keepsHost api s T S lat (retryOnConflict k m)"
  by (induction k) (auto intro!: keeps_bind keeps_return split: sum.split)

lemma keeps_loadRecords: "timely api T S lat \<Longrightarrow> keepsHost api s T S lat (loadRecords api n rd named)"
  unfolding loadRecords_def by (intro keeps_bind keeps_call keeps_return timely_forward)

lemma keeps_storeRecord: "timely api T S lat \<Longrightarrow> keepsHost api s T S lat (storeRecord api n sec k text)"
  unfolding storeRecord_def by (auto intro!: keeps_apiCall timely_forward split: option.split)

text \<open>What leaves a part of the host as it is.\<close>

definition leaves :: "(('w, 'l) host \<Rightarrow> 'b) \<Rightarrow> ('w, 'l, 'a) auth \<Rightarrow> bool" where
  "leaves g m \<longleftrightarrow> (\<forall>h. after m (\<lambda>_ h'. g h' = g h) h)"

lemma leaves_return: "leaves g (State_Monad.return x)"
  by (simp add: leaves_def)

lemma leaves_get: "leaves g State_Monad.get"
  by (simp add: leaves_def)

lemma leaves_bind: "leaves g m \<Longrightarrow> (\<And>x. leaves g (f x)) \<Longrightarrow> leaves g (m \<bind> f)"
  unfolding leaves_def after_bind by (fastforce simp: after_def split: prod.splits)

lemma leavesD: "leaves g m \<Longrightarrow> run_state m h = (x, h') \<Longrightarrow> g h' = g h"
  unfolding leaves_def by (auto dest: spec [of _ h] simp: after_def)

lemma leaves_attempt: "leaves g m \<Longrightarrow> (\<And>x. leaves g (f x)) \<Longrightarrow> leaves g (attempt m f)"
  unfolding attempt_def by (rule leaves_bind) (auto intro: leaves_return split: sum.split)

lemma leaves_call: "(\<And>w h. g (h\<lparr>outside := w\<rparr>) = g h) \<Longrightarrow> leaves g (call m)"
  by (simp add: leaves_def after_True)

lemma leaves_changeHost: "(\<And>h. g (f h) = g h) \<Longrightarrow> leaves g (changeHost f)"
  by (simp add: leaves_def)

lemma leaves_loadRecords: "(\<And>w h. g (h\<lparr>outside := w\<rparr>) = g h) \<Longrightarrow> leaves g (loadRecords api n rd named)"
  unfolding loadRecords_def by (intro leaves_bind leaves_call leaves_return)

abbreviation usersPart :: "('w, 'l) host \<Rightarrow> (string \<times> User) list option \<times> time \<times> string option option" where
  "usersPart h \<equiv> (usersByName h, usersLoadedAt h, adminHash h)"

abbreviation tokensPart :: "('w, 'l) host \<Rightarrow> (string \<times> TokenInfo) list option \<times> time \<times> string option option" where
  "tokensPart h \<equiv> (tokensByHash h, tokensLoadedAt h, adminHash h)"

lemma currentTokens_leaves: "leaves usersPart (currentTokens api)"
  unfolding currentTokens_def reloadTokens_def loadTokens_def
  by (auto intro!: leaves_bind leaves_get leaves_call leaves_attempt leaves_loadRecords leaves_changeHost leaves_return
    split: option.split)

lemma cachedUsers_leaves: "leaves tokensPart (cachedUsers api)"
  unfolding cachedUsers_def reloadUsers_def loadUsers_def
  by (auto intro!: leaves_bind leaves_get leaves_call leaves_attempt leaves_loadRecords leaves_changeHost leaves_return
    split: option.split)

lemma fresh_transfer:
  "fresh cacheOf loadedAt view n T S lat h \<Longrightarrow> cacheOf h' = cacheOf h \<Longrightarrow> loadedAt h' = loadedAt h \<Longrightarrow>
   T (outside h) \<le> T (outside h') \<Longrightarrow> fresh cacheOf loadedAt view n T S lat h'"
  by (auto simp: fresh_def split: option.splits)

lemma keeps_currentTokens:
  fixes api :: "('w, 'l) authority"
  assumes api: "timely api T S lat"
  shows "keepsHost api s T S lat (currentTokens api)"
  unfolding keepsHost_def
proof (intro allI impI)
  fix h :: "('w, 'l) host" assume h: "hostOK api s T S lat h"
  show "after (currentTokens api) (\<lambda>_ h'. hostOK api s T S lat h' \<and> T (outside h) \<le> T (outside h')) h"
  proof (rule afterI)
    fix r h' assume run: "run_state (currentTokens api) h = (r, h')"
    have "fresh tokensByHash tokensLoadedAt tokenView tokensSecretName T S lat h'" "T (outside h) \<le> T (outside h')"
      using afterD [OF token_cache.look_recent [OF api] run] h by (simp_all add: hostOK_def recentAnswer_def)
    moreover have "usersPart h' = usersPart h"
      by (rule leavesD [OF currentTokens_leaves run])
    ultimately show "hostOK api s T S lat h' \<and> T (outside h) \<le> T (outside h')"
      using h by (auto simp: hostOK_def intro: fresh_transfer)
  qed
qed

lemma keeps_cachedUsers:
  fixes api :: "('w, 'l) authority"
  assumes api: "timely api T S lat"
  shows "keepsHost api s T S lat (cachedUsers api)"
  unfolding keepsHost_def
proof (intro allI impI)
  fix h :: "('w, 'l) host" assume h: "hostOK api s T S lat h"
  show "after (cachedUsers api) (\<lambda>_ h'. hostOK api s T S lat h' \<and> T (outside h) \<le> T (outside h')) h"
  proof (rule afterI)
    fix r h' assume run: "run_state (cachedUsers api) h = (r, h')"
    have "fresh usersByName usersLoadedAt userView usersSecretName T S lat h'" "T (outside h) \<le> T (outside h')"
      using afterD [OF user_cache.look_recent [OF api] run] h by (simp_all add: hostOK_def recentAnswer_def)
    moreover have "tokensPart h' = tokensPart h"
      by (rule leavesD [OF cachedUsers_leaves run])
    ultimately show "hostOK api s T S lat h' \<and> T (outside h) \<le> T (outside h')"
      using h by (auto simp: hostOK_def intro: fresh_transfer)
  qed
qed

lemma keeps_calls:
  assumes api: "timely api T S lat"
  shows "keepsHost api s T S lat (call (getSecret api n))" "keepsHost api s T S lat (call (timeNow api))"
    "keepsHost api s T S lat (call (getSettings api))" "keepsHost api s T S lat (call (bcryptHash api p))"
    "keepsHost api s T S lat (call (randomText api))" "keepsHost api s T S lat (toAuth (randomBytes api k))"
    "keepsHost api s T S lat (toAuth (bcryptHash api p))" "keepsHost api s T S lat (apiCall (createSecret api sec))"
    "keepsHost api s T S lat (apiCall (updateSecret api sec))"
  by (intro keeps_call keeps_toAuth keeps_apiCall timely_forward [OF api])+

lemma keeps_sso_calls:
  assumes api: "timely api T S lat"
  shows "keepsHost api s T S lat (call (newProvider api b u i))" "keepsHost api s T S lat (call (exchangeCode api j a c v))"
    "keepsHost api s T S lat (call (verifyIDToken api j c b i))" "keepsHost api s T S lat (toAuth (verifyIDToken api j c b i))"
    "keepsHost api s T S lat (call (newVerifier api))" "keepsHost api s T S lat (call (randomBytes api k))"
  by (intro keeps_call keeps_toAuth timely_forward [OF api])+

lemmas keeps_intros = keeps_return keeps_get keeps_bind keeps_attempt keeps_retry keeps_forget
  keeps_loadRecords keeps_storeRecord keeps_currentTokens keeps_cachedUsers keeps_calls

lemma keeps_if: "(b \<Longrightarrow> keepsHost api s T S lat m) \<Longrightarrow> (\<not> b \<Longrightarrow> keepsHost api s T S lat n) \<Longrightarrow> keepsHost api s T S lat (if b then m else n)"
  by simp

lemma keeps_option: "keepsHost api s T S lat m \<Longrightarrow> (\<And>x. keepsHost api s T S lat (f x)) \<Longrightarrow>
    keepsHost api s T S lat (case r of None \<Rightarrow> m | Some x \<Rightarrow> f x)"
  by (simp split: option.split)

lemma keeps_sum: "(\<And>e. keepsHost api s T S lat (f e)) \<Longrightarrow> (\<And>x. keepsHost api s T S lat (g x)) \<Longrightarrow>
    keepsHost api s T S lat (case r of Inl e \<Rightarrow> f e | Inr x \<Rightarrow> g x)"
  by (simp split: sum.split)

lemma keeps_prod: "(\<And>x y. keepsHost api s T S lat (f x y)) \<Longrightarrow> keepsHost api s T S lat (case p of (x, y) \<Rightarrow> f x y)"
  by (simp split: prod.split)

lemmas keeps_cases = keeps_if keeps_option keeps_sum keeps_prod

lemma keeps_settings:
  assumes "timely api T S lat"
  shows "keepsHost api s T S lat (readSettings api)" "keepsHost api s T S lat (enabledEntra api)" "keepsHost api s T S lat (enabledOIDC api)"
    "keepsHost api s T S lat (OIDCDisplayName api)" "keepsHost api s T S lat (AuthDisabled api s)" "keepsHost api s T S lat (localLoginHidden api)"
  unfolding readSettings_def enabledEntra_def enabledOIDC_def OIDCDisplayName_def AuthDisabled_def localLoginHidden_def
  by (intro keeps_intros keeps_cases assms)+

lemma keeps_tokens:
  assumes "timely api T S lat"
  shows "keepsHost api s T S lat (ListTokens api)" "keepsHost api s T S lat (CreateToken api name role ttl creator)"
    "keepsHost api s T S lat (DeleteToken api name)" "keepsHost api s T S lat (AuthenticateToken api token)"
  unfolding ListTokens_def loadTokens_def CreateToken_def putToken_def invalidateTokens_def DeleteToken_def dropToken_def
    AuthenticateToken_def Let_def
  by (intro keeps_intros keeps_cases assms)+

lemma keeps_hashPassword: "timely api T S lat \<Longrightarrow> keepsHost api s T S lat (hashPassword api p)"
  unfolding hashPassword_def by (intro keeps_intros keeps_cases)

lemma keeps_writeUser:
  assumes "timely api T S lat" "\<And>us. keepsHost api s T S lat (change us)"
  shows "keepsHost api s T S lat (writeUser api k change)"
  unfolding writeUser_def putUser_def loadUsers_def
  by (intro keeps_intros keeps_cases assms)

lemma keeps_users:
  assumes "timely api T S lat"
  shows "keepsHost api s T S lat (AnyUser api)" "keepsHost api s T S lat (ListUsers api)"
    "keepsHost api s T S lat (CreateUser api reserved user password mustChange creator)"
    "keepsHost api s T S lat (UpdateUser api k patch)" "keepsHost api s T S lat (SetPassword api k password mustChange)"
    "keepsHost api s T S lat (DeleteUser api k)" "keepsHost api s T S lat (AuthenticateUser api k password)"
    "keepsHost api s T S lat (SessionUser api i)" "keepsHost api s T S lat (GeneratePassword api)"
  unfolding AnyUser_def ListUsers_def loadUsers_def CreateUser_def UpdateUser_def SetPassword_def DeleteUser_def
    AuthenticateUser_def SessionUser_def GeneratePassword_def Let_def
  by (intro keeps_intros keeps_cases keeps_hashPassword keeps_writeUser assms)+

lemma keeps_signIns:
  assumes "timely api T S lat"
  shows "keepsHost api s T S lat (RecordSignIn api i)" "keepsHost api s T S lat (ListSignIns api)"
  unfolding RecordSignIn_def recordOnce_def putSignIn_def ListSignIns_def Let_def
  by (intro keeps_intros keeps_cases assms)+

lemma keeps_limiters:
  assumes "timely api T S lat"
  shows "keepsHost api s T S lat (allowAttempt api k)" "keepsHost api s T S lat (attemptsLeft api k)"
    "keepsHost api s T S lat (rejectLogin api user code msg)"
  unfolding allowAttempt_def attemptsLeft_def rejectLogin_def Let_def
  by (intro keeps_intros keeps_cases assms)+

lemma keeps_builtinPassword:
  fixes api :: "('w, 'l) authority"
  assumes api: "timely api T S lat"
  shows "keepsHost api s T S lat (builtinPasswordOK api s password)"
  unfolding keepsHost_def
proof (intro allI impI)
  fix h :: "('w, 'l) host" assume h: "hostOK api s T S lat h"
  show "after (builtinPasswordOK api s password) (\<lambda>_ h'. hostOK api s T S lat h' \<and> T (outside h) \<le> T (outside h')) h"
  proof (cases "adminHash h")
    case None
    have "after (bcryptHash api (svLocalPassword s)) (\<lambda>r w. hostOK api s T S lat
        (h\<lparr>outside := w, adminHash := Some (case r of Inl _ \<Rightarrow> None | Inr hash \<Rightarrow> Some hash)\<rparr>) \<and> T (outside h) \<le> T w) (outside h)"
    proof (rule afterI)
      fix r w assume r: "run_state (bcryptHash api (svLocalPassword s)) (outside h) = (r, w)"
      then have "T (outside h) \<le> T w" using timely_forward(5) [OF api] by (auto simp: forward_def)
      moreover have "madeOf api (svLocalPassword s) (case r of Inl _ \<Rightarrow> None | Inr hash \<Rightarrow> Some hash)"
        unfolding madeOf_def using r by blast
      ultimately show "hostOK api s T S lat
        (h\<lparr>outside := w, adminHash := Some (case r of Inl _ \<Rightarrow> None | Inr hash \<Rightarrow> Some hash)\<rparr>) \<and> T (outside h) \<le> T w"
        using hostOK_later [OF h, of w] by (auto simp: hostOK_def fresh_def split: option.splits)
    qed
    with None show ?thesis by (simp add: builtinPasswordOK_def Let_def)
  qed (use h in \<open>simp add: builtinPasswordOK_def\<close>)
qed

lemma keeps_credentials: "timely api T S lat \<Longrightarrow> keepsHost api s T S lat (checkCredentials api s user password)"
  unfolding checkCredentials_def
  by (intro keeps_intros keeps_cases keeps_settings keeps_users keeps_limiters keeps_builtinPassword)

lemma keeps_service:
  assumes "timely api T S lat"
  shows "keepsHost api s T S lat (Middleware api s r)" "keepsHost api s T S lat (HandleLogin api s r)"
    "keepsHost api s T S lat (HandleChangePassword api s r i)" "keepsHost api s T S lat (HandleConfig api s)"
  unfolding Middleware_def cookieAccess_def HandleLogin_def HandleChangePassword_def HandleConfig_def
    startSession_def Let_def
  by (intro keeps_intros keeps_cases keeps_settings keeps_tokens keeps_users keeps_signIns keeps_limiters
      keeps_credentials assms)+

lemma keeps_providers:
  assumes "timely api T S lat"
  shows "keepsHost api s T S lat (entraSettings api)" "keepsHost api s T S lat (oidcSettings api)"
    "keepsHost api s T S lat (entraProvider api ec)" "keepsHost api s T S lat (oidcProvider api oc)"
  unfolding entraSettings_def oidcSettings_def clientSecret_def SecretData_def entraProvider_def oidcProvider_def Let_def
  by (intro keeps_intros keeps_cases keeps_settings keeps_sso_calls assms)+

lemma keeps_transactions:
  assumes "timely api T S lat"
  shows "keepsHost api s T S lat (startTxn api s cookie r p oauth redirect params)"
    "keepsHost api s T S lat (openTxn api s cookie r st errCode errDesc)"
    "keepsHost api s T S lat (finishCallback api s cookie r c)"
  unfolding startTxn_def newTxn_def randomToken_def openTxn_def finishCallback_def Let_def
  by (intro keeps_intros keeps_cases keeps_signIns keeps_sso_calls assms)+

lemma keeps_complete:
  assumes "timely api T S lat"
  shows "keepsHost api s T S lat (completeEntra api s r code st errCode errDesc)"
    "keepsHost api s T S lat (completeOIDC api s r code st errCode errDesc)"
  unfolding completeEntra_def completeOIDC_def verifyEntra_def
  by (intro keeps_intros keeps_cases keeps_providers keeps_transactions keeps_sso_calls assms)+

lemma keeps_sso:
  assumes "timely api T S lat"
  shows "keepsHost api s T S lat (EntraLogin api s r)" "keepsHost api s T S lat (OIDCLogin api s r)"
    "keepsHost api s T S lat (EntraCallback api s r)" "keepsHost api s T S lat (OIDCCallback api s r)"
    "keepsHost api s T S lat (EntraSPACallback api s r)"
  unfolding EntraLogin_def OIDCLogin_def EntraCallback_def OIDCCallback_def EntraSPACallback_def
  by (intro keeps_intros keeps_cases keeps_signIns keeps_providers keeps_transactions keeps_complete keeps_sso_calls assms)+

subsection \<open>A process that serves\<close>

datatype operation =
    Admit Request
  | Login Request
  | ChangePassword Request "Identity option"
  | Config
  | EntraStart Request
  | EntraBack Request
  | EntraSPABack Request
  | OIDCStart Request
  | OIDCBack Request
  | TokensListed
  | TokenCreated string Role duration string
  | TokenDeleted string
  | UsersListed
  | UserCreated string User string bool string
  | UserUpdated string UserPatch
  | PasswordSet string string bool
  | UserDeleted string
  | SignInsListed

definition ignoring :: "('w, 'l, 'a) auth \<Rightarrow> ('w, 'l, unit) auth" where
  "ignoring m = do { _ \<leftarrow> m; State_Monad.return () }"

fun perform :: "('w, 'l) authority \<Rightarrow> Service \<Rightarrow> operation \<Rightarrow> ('w, 'l, unit) auth" where
  "perform api s (Admit r) = ignoring (Middleware api s r)"
| "perform api s (Login r) = ignoring (HandleLogin api s r)"
| "perform api s (ChangePassword r i) = ignoring (HandleChangePassword api s r i)"
| "perform api s Config = ignoring (HandleConfig api s)"
| "perform api s (EntraStart r) = ignoring (EntraLogin api s r)"
| "perform api s (EntraBack r) = ignoring (EntraCallback api s r)"
| "perform api s (EntraSPABack r) = ignoring (EntraSPACallback api s r)"
| "perform api s (OIDCStart r) = ignoring (OIDCLogin api s r)"
| "perform api s (OIDCBack r) = ignoring (OIDCCallback api s r)"
| "perform api s TokensListed = ignoring (ListTokens api)"
| "perform api s (TokenCreated n role ttl creator) = ignoring (CreateToken api n role ttl creator)"
| "perform api s (TokenDeleted n) = ignoring (DeleteToken api n)"
| "perform api s UsersListed = ignoring (ListUsers api)"
| "perform api s (UserCreated reserved u p must creator) = ignoring (CreateUser api reserved u p must creator)"
| "perform api s (UserUpdated k patch) = ignoring (UpdateUser api k patch)"
| "perform api s (PasswordSet k p must) = ignoring (SetPassword api k p must)"
| "perform api s (UserDeleted k) = ignoring (DeleteUser api k)"
| "perform api s SignInsListed = ignoring (ListSignIns api)"

text \<open>What a process gets to that starts with nothing cached: operations, and time passing between them.\<close>

inductive served :: "('w, 'l) authority \<Rightarrow> ('w \<Rightarrow> time) \<Rightarrow> Service \<Rightarrow> ('w, 'l) host \<Rightarrow> bool"
  for api :: "('w, 'l) authority" and T :: "'w \<Rightarrow> time" and s :: Service where
  started: "tokensByHash h = None \<Longrightarrow> usersByName h = None \<Longrightarrow> adminHash h = None \<Longrightarrow> served api T s h"
| idle: "served api T s h \<Longrightarrow> T (outside h) \<le> T w \<Longrightarrow> served api T s (h\<lparr>outside := w\<rparr>)"
| performed: "served api T s h \<Longrightarrow> run_state (perform api s a) h = ((), h') \<Longrightarrow> served api T s h'"

lemma keeps_perform: "timely api T S lat \<Longrightarrow> keepsHost api s T S lat (perform api s a)"
  by (cases a)
    (simp_all add: ignoring_def keeps_bind keeps_return keeps_service keeps_sso keeps_tokens keeps_users keeps_signIns)

lemma served_hostOK:
  assumes "served api T s h" and api: "timely api T S lat"
  shows "hostOK api s T S lat h"
  using assms(1)
proof induction
  case (started h)
  then show ?case by (simp add: hostOK_def fresh_def)
next
  case (idle h w)
  from idle.IH idle.hyps(2) show ?case by (rule hostOK_later)
next
  case (performed h a h')
  from afterD [OF keepsHostD [OF keeps_perform [OF api] performed.IH] performed.hyps(2)] show ?case by simp
qed

end
