(* ===== verification/AuthSamples.thy ===== *)
theory AuthSamples
  imports AuthHost
begin

section \<open>Surroundings that keep the laws\<close>

text \<open>
  Two concrete surroundings that the theorems are applied to: one with a clock, whose Secrets are
  given by the time and can only be read (\<open>clocked\<close>), and one in which they are kept and written
  like the API server does (\<open>kept\<close>). Hashes of passwords carry the password; the identity provider
  answers one token. They show that what the theorems assume of the surroundings can hold.
\<close>

definition sampleAuthority ::
    "(string \<Rightarrow> ('w, secretError + Secret) state) \<Rightarrow> (Secret \<Rightarrow> ('w, secretError + unit) state)
     \<Rightarrow> (Secret \<Rightarrow> ('w, secretError + unit) state) \<Rightarrow> ('w, time) state \<Rightarrow> AuthConfig \<Rightarrow> IDToken \<Rightarrow> ('w, unit) authority" where
  "sampleAuthority rd cr up clock settings tok =
     \<lparr>getSecret = rd, createSecret = cr, updateSecret = up, getSettings = State_Monad.return (Inr settings), timeNow = clock,
      randomBytes = (\<lambda>n. State_Monad.return (Inr (replicate n (CHR ''r'')))), randomText = State_Monad.return ''text'',
      bcryptHash = (\<lambda>p. State_Monad.return (Inr (''$'' @ p))), bcryptMatches = (\<lambda>h p. h = ''$'' @ p), moreAttempts = 4,
      environ = (\<lambda>_. []), parseURL = (\<lambda>_. Some ([], [])), secretErrorText = (\<lambda>_. ''error''),
      freshLimiter = (), limiterAllow = (\<lambda>_ l. (True, l)), limiterTokens = (\<lambda>_ _. 5),
      newProvider = (\<lambda>_ _ _. State_Monad.return (Inr 0)), authCodeURL = (\<lambda>_ _ _ _ _ _. ''https://idp''),
      exchangeCode = (\<lambda>_ _ _ _. State_Monad.return (Inr ''jwt'')), verifyIDToken = (\<lambda>_ _ _ _. State_Monad.return (Inr tok)),
      newVerifier = State_Monad.return ''verifier''\<rparr>"

definition noToken :: IDToken where
  "noToken = \<lparr>itNonce = [], itClaims = JNull\<rparr>"

text \<open>The world is the time.\<close>

definition clocked :: "(time \<Rightarrow> string \<Rightarrow> contents) \<Rightarrow> AuthConfig \<Rightarrow> IDToken \<Rightarrow> (time, unit) authority" where
  "clocked S settings tok = sampleAuthority
     (\<lambda>n. State (\<lambda>w. (case S w n of None \<Rightarrow> Inl SecretMissing
        | Some d \<Rightarrow> Inr \<lparr>secName = n, secLabels = managedLabels, secData = d, secVersion = 1\<rparr>, w)))
     (\<lambda>_. State_Monad.return (Inl SecretExists)) (\<lambda>_. State_Monad.return (Inl SecretConflict)) State_Monad.get settings tok"

lemmas clocked_simps = clocked_def sampleAuthority_def

lemma forward_return [simp]: "forward T (State_Monad.return x)"
  by (simp add: forward_def)

lemma clocked_timely:
  assumes "\<And>t n d. S t n = Some d \<Longrightarrow> distinct (map fst d)"
  shows "timely (clocked S settings tok) (\<lambda>w. w) S 0"
proof -
  have "case (case S w n of None \<Rightarrow> Inl SecretMissing
        | Some d \<Rightarrow> Inr \<lparr>secName = n, secLabels = managedLabels, secData = d, secVersion = 1\<rparr>) of
       Inr s \<Rightarrow> distinct (map fst (secData s)) \<and> (\<exists>t. w \<le> t \<and> t \<le> w \<and> S t n = Some (secData s))
     | Inl e \<Rightarrow> e = SecretMissing \<longrightarrow> (\<exists>t. w \<le> t \<and> t \<le> w \<and> S t n = None)" for w n
    using assms [of w n] by (auto split: option.split)
  then show ?thesis unfolding timely_def by (auto simp: clocked_simps)
qed

text \<open>A process that has just started.\<close>

definition newHost :: "'w \<Rightarrow> ('w, 'l) host" where
  "newHost w = \<lparr>outside = w, tokensByHash = None, tokensLoadedAt = 0, usersByName = None, usersLoadedAt = 0,
     limiters = [], adminHash = None, entraProviders = [], oidcProviders = []\<rparr>"

lemma newHost_served: "served api T s (newHost w)"
  by (rule served.started) (simp_all add: newHost_def)

text \<open>The world is what every Secret went through.\<close>

definition kept :: "(string \<Rightarrow> contents list, unit) authority" where
  "kept = sampleAuthority
     (\<lambda>n. State (\<lambda>w. (case latest (w n) of None \<Rightarrow> Inl SecretMissing
        | Some d \<Rightarrow> if distinct (map fst d) then Inr \<lparr>secName = n, secLabels = managedLabels, secData = d, secVersion = length (w n)\<rparr>
            else Inl (SecretError ''repeated key''), w)))
     (\<lambda>s. State (\<lambda>w. if latest (w (secName s)) = None then (Inr (), w(secName s := w (secName s) @ [Some (secData s)]))
        else (Inl SecretExists, w)))
     (\<lambda>s. State (\<lambda>w. if length (w (secName s)) = secVersion s then (Inr (), w(secName s := w (secName s) @ [Some (secData s)]))
        else (Inl SecretConflict, w)))
     (State_Monad.return 0) emptySettings noToken"

lemma growing_return: "growing H (State_Monad.return x)"
  by (simp add: growing_def)

lemma kept_optimistic: "optimistic kept (\<lambda>w. w)"
proof -
  have "growing (\<lambda>w. w) (getSecret kept n)" for n
    by (auto simp: growing_def kept_def sampleAuthority_def)
  moreover have "growing (\<lambda>w. w) (createSecret kept s)" "growing (\<lambda>w. w) (updateSecret kept s)" for s
    by (auto simp: growing_def kept_def sampleAuthority_def)
  ultimately show ?thesis
    unfolding optimistic_def
    by (auto simp: kept_def sampleAuthority_def growing_return split: option.splits if_splits)
qed

lemma kept_bcryptOK: "bcryptOK kept"
  by (auto simp: bcryptOK_def kept_def sampleAuthority_def)

definition sampleRequest :: Request where
  "sampleRequest = \<lparr>rqMethod = ''GET'', rqPath = ''/api/groups'', rqHeader = (\<lambda>_. []), rqQuery = (\<lambda>_. []),
     rqCookie = (\<lambda>_. None), rqHost = ''costdeck'', rqRemoteAddr = ''10.0.0.1:80'', rqTLS = True, rqBody = []\<rparr>"

definition sampleService :: Service where
  "sampleService = \<lparr>svSessions = \<lparr>ssKey = replicate 32 (CHR ''k''), ssTTL = sessionTTL\<rparr>, svLocalUser = ''root'',
     svLocalPassword = ''secret'', svDisabled = False\<rparr>"

end
