(* ===== verification/AuthGuarantees.thy ===== *)
theory AuthGuarantees
  imports AuthSamples
begin

section \<open>What the authentication service guarantees\<close>

text \<open>
  Over whatever a process has served, the middleware admits a request only with a token or a
  session that was good at most the cache's time to live ago; a password sign-in needs the
  password; single sign-on needs the browser's own transaction and a verified token; and every
  change of the accounts and tokens is the one asked for, applied to what it replaced.
\<close>

subsection \<open>Who is let in\<close>

lemma keeps_run: "keepsHost api s T S lat m \<Longrightarrow> hostOK api s T S lat h \<Longrightarrow> run_state m h = (x, h') \<Longrightarrow>
    hostOK api s T S lat h' \<and> T (outside h) \<le> T (outside h')"
  using afterD [OF keepsHostD] by fastforce

text \<open>A view of a Secret during a request, or up to the time to live of the cache before it.\<close>

definition recently :: "duration \<Rightarrow> duration \<Rightarrow> time \<Rightarrow> time \<Rightarrow> time \<Rightarrow> bool" where
  "recently ttl lat start end t \<longleftrightarrow> start - ttl - lat \<le> t \<and> t \<le> end"

lemma look_recently:
  assumes "timely api T S lat" "hostOK api s T S lat h"
  shows "after (currentTokens api) (\<lambda>r h'. \<forall>m. r = Inr m \<longrightarrow>
      (\<exists>t. recently tokenCache lat (T (outside h)) (T (outside h')) t \<and> m = tokenView (S t tokensSecretName))) h"
    "after (cachedUsers api) (\<lambda>r h'. \<forall>m. r = Inr m \<longrightarrow>
      (\<exists>t. recently userCache lat (T (outside h)) (T (outside h')) t \<and> m = userView (S t usersSecretName))) h"
proof -
  have f: "fresh tokensByHash tokensLoadedAt tokenView tokensSecretName T S lat h"
    "fresh usersByName usersLoadedAt userView usersSecretName T S lat h" using assms(2) by (simp_all add: hostOK_def)
  show "after (currentTokens api) (\<lambda>r h'. \<forall>m. r = Inr m \<longrightarrow>
      (\<exists>t. recently tokenCache lat (T (outside h)) (T (outside h')) t \<and> m = tokenView (S t tokensSecretName))) h"
    by (rule after_mono [OF token_cache.look_recent [OF assms(1) f(1)]]) (auto simp: recentAnswer_def recently_def)
  show "after (cachedUsers api) (\<lambda>r h'. \<forall>m. r = Inr m \<longrightarrow>
      (\<exists>t. recently userCache lat (T (outside h)) (T (outside h')) t \<and> m = userView (S t usersSecretName))) h"
    by (rule after_mono [OF user_cache.look_recent [OF assms(1) f(2)]]) (auto simp: recentAnswer_def recently_def)
qed

definition tokenAdmits :: "(time \<Rightarrow> string \<Rightarrow> contents) \<Rightarrow> duration \<Rightarrow> time \<Rightarrow> time \<Rightarrow> string \<Rightarrow> Identity \<Rightarrow> bool" where
  "tokenAdmits S lat start end token i \<longleftrightarrow>
     (\<exists>t. recently tokenCache lat start end t \<and> tokenValid token start (tokenView (S t tokensSecretName)) i)"

definition accountAdmits :: "(time \<Rightarrow> string \<Rightarrow> contents) \<Rightarrow> duration \<Rightarrow> time \<Rightarrow> time \<Rightarrow> Request \<Rightarrow> Identity \<Rightarrow> Identity \<Rightarrow> bool" where
  "accountAdmits S lat start end r j i \<longleftrightarrow>
     (\<exists>t u. recently userCache lat start end t \<and> sessionAccount (userView (S t usersSecretName)) j = Inr u
        \<and> i = (userIdentity u)\<lparr>idExpiresAt := idExpiresAt j, idIssuedAt := idIssuedAt j\<rparr>
        \<and> (if usMustChange u then passwordChangePath (rqPath r) else True))"

definition sessionAdmits :: "Service \<Rightarrow> (time \<Rightarrow> string \<Rightarrow> contents) \<Rightarrow> duration \<Rightarrow> time \<Rightarrow> time \<Rightarrow> Request \<Rightarrow> Identity \<Rightarrow> bool" where
  "sessionAdmits s S lat start end r i \<longleftrightarrow>
     (\<exists>now j. start \<le> now \<and> now \<le> end \<and> Read (svSessions s) r now = Inr j
        \<and> (if ManagedUser (Some j) = None then i = j else accountAdmits S lat start end r j i))"

lemma recently_mono: "recently ttl lat a b t \<Longrightarrow> a' \<le> a \<Longrightarrow> b \<le> b' \<Longrightarrow> recently ttl lat a' b' t"
  by (simp add: recently_def)

lemma tokenValid_mono: "tokenValid token now m i \<Longrightarrow> now' \<le> now \<Longrightarrow> tokenValid token now' m i"
  by (auto simp: tokenValid_def split: option.splits)

lemma AuthenticateToken_admits:
  assumes api: "timely api T S lat" and h: "hostOK api s T S lat h"
    and run: "run_state (AuthenticateToken api token) h = (Some i, h')" and start: "start \<le> T (outside h)"
  shows "tokenAdmits S lat start (T (outside h')) token i"
proof -
  have f: "fresh tokensByHash tokensLoadedAt tokenView tokensSecretName T S lat h" using h by (simp add: hostOK_def)
  from afterD [OF AuthenticateToken_view [OF api f look_recently(1) [OF api h]] run]
  obtain m where m: "\<exists>t. recently tokenCache lat (T (outside h)) (T (outside h')) t \<and> m = tokenView (S t tokensSecretName)"
    "tokenValid token (T (outside h)) m i" by (force intro: recently_mono)
  then show ?thesis
    using start recently_mono tokenValid_mono unfolding tokenAdmits_def by blast
qed

lemma SessionUser_admits:
  assumes api: "timely api T S lat" and h: "hostOK api s T S lat h" and run: "run_state (SessionUser api j) h = (Inr u, h')"
  shows "\<exists>t. recently userCache lat (T (outside h)) (T (outside h')) t \<and> sessionAccount (userView (S t usersSecretName)) j = Inr u"
proof -
  have f: "fresh usersByName usersLoadedAt userView usersSecretName T S lat h" using h by (simp add: hostOK_def)
  from afterD [OF SessionUser_view [OF api f look_recently(2) [OF api h]] run] show ?thesis by blast
qed

lemma cookieAccess_admits:
  assumes api: "timely api T S lat" and h: "hostOK api s T S lat h"
    and run: "run_state (cookieAccess api s r) h = (Forward i, h')" and start: "start \<le> T (outside h)"
  shows "\<exists>j. i = Some j \<and> sessionAdmits s S lat start (T (outside h')) r j"
proof -
  obtain now w where now: "run_state (timeNow api) (outside h) = (now, w)" by fastforce
  note t = timely_now [OF api now]
  have h1: "hostOK api s T S lat (h\<lparr>outside := w\<rparr>)" by (rule hostOK_later [OF h]) (use t in simp)
  from run obtain j where j: "Read (svSessions s) r now = Inr j"
    by (cases "Read (svSessions s) r now") (auto simp: cookieAccess_def call_def now errorReply_def)
  show ?thesis
  proof (cases "ManagedUser (Some j)")
    case None
    with run j now have "i = Some j" "h' = h\<lparr>outside := w\<rparr>" by (auto simp: cookieAccess_def call_def)
    moreover have "sessionAdmits s S lat start (T w) r j"
      unfolding sessionAdmits_def by (rule exI [of _ now], rule exI [of _ j]) (use None t j start in simp)
    ultimately show ?thesis by simp
  next
    case (Some k)
    obtain v h2 where v: "run_state (SessionUser api j) (h\<lparr>outside := w\<rparr>) = (v, h2)" by fastforce
    from run j now Some v obtain u where u: "v = Inr u" "h' = h2"
      and i: "i = Some ((userIdentity u)\<lparr>idExpiresAt := idExpiresAt j, idIssuedAt := idIssuedAt j\<rparr>)"
      and must: "usMustChange u \<Longrightarrow> passwordChangePath (rqPath r)"
      by (cases v) (auto simp: cookieAccess_def call_def sessionEnded_def passwordRequired_def Let_def userIdentity_def split: if_splits)
    from SessionUser_admits [OF api h1 v [unfolded u]]
    obtain x where x: "recently userCache lat (T w) (T (outside h2)) x" "sessionAccount (userView (S x usersSecretName)) j = Inr u"
      by auto
    have m: "T w \<le> T (outside h2)" using keeps_run [OF keeps_users(8) [OF api] h1 v] by simp
    have "accountAdmits S lat start (T (outside h2)) r j ((userIdentity u)\<lparr>idExpiresAt := idExpiresAt j, idIssuedAt := idIssuedAt j\<rparr>)"
      unfolding accountAdmits_def
      by (rule exI [of _ x], rule exI [of _ u]) (use x must recently_mono [OF x(1)] t start in simp)
    with t j Some m start have "start \<le> now \<and> now \<le> T (outside h2) \<and> Read (svSessions s) r now = Inr j \<and>
        (if ManagedUser (Some j) = None then (userIdentity u)\<lparr>idExpiresAt := idExpiresAt j, idIssuedAt := idIssuedAt j\<rparr> = j
         else accountAdmits S lat start (T (outside h2)) r j ((userIdentity u)\<lparr>idExpiresAt := idExpiresAt j, idIssuedAt := idIssuedAt j\<rparr>))"
      by simp
    then have "sessionAdmits s S lat start (T (outside h2)) r ((userIdentity u)\<lparr>idExpiresAt := idExpiresAt j, idIssuedAt := idIssuedAt j\<rparr>)"
      unfolding sessionAdmits_def by blast
    with i u show ?thesis by simp
  qed
qed

lemma AuthDisabled_disabled: "run_state (AuthDisabled api s) h = (True, h') \<Longrightarrow> svDisabled s"
  by (cases "svDisabled s") (simp_all add: AuthDisabled_def)

lemma Middleware_lets_in:
  assumes "timely api T S lat" "served api T s h" "protectedPath (rqPath r)"
    and "run_state (Middleware api s r) h = (Forward i, h')"
  shows "case i of
      None \<Rightarrow> False
    | Some j \<Rightarrow>
        if j = anonymousAdmin \<and> svDisabled s then True
        else case cutPrefix (rqHeader r ''Authorization'') ''Bearer '' of
               Some bearer \<Rightarrow> tokenAdmits S lat (T (outside h)) (T (outside h')) (trimSpace bearer) j
             | None \<Rightarrow> \<not> crossSiteWrite api r \<and> sessionAdmits s S lat (T (outside h)) (T (outside h')) r j"
proof -
  note api = assms(1)
  note h = served_hostOK [OF assms(2) api]
  obtain b h1 where off: "run_state (AuthDisabled api s) h = (b, h1)" by fastforce
  note h1 = keeps_run [OF keeps_settings(5) [OF api] h off]
  show ?thesis
  proof (cases b)
    case True
    with off have "run_state (AuthDisabled api s) h = (True, h1)" by simp
    from AuthDisabled_disabled [OF this] this assms(3,4) show ?thesis by (auto simp: Middleware_def)
  next
    case False
    show ?thesis
    proof (cases "cutPrefix (rqHeader r ''Authorization'') ''Bearer ''")
      case None
      with False assms(3,4) off have c: "\<not> crossSiteWrite api r" "run_state (cookieAccess api s r) h1 = (Forward i, h')"
        by (auto simp: Middleware_def refused_def errorReply_def split: if_splits)
      from cookieAccess_admits [OF api _ c(2), of "T (outside h)"] h1
      obtain j where "i = Some j" "sessionAdmits s S lat (T (outside h)) (T (outside h')) r j" by blast
      with None c(1) show ?thesis by simp
    next
      case (Some bearer)
      obtain v h2 where v: "run_state (AuthenticateToken api (trimSpace bearer)) h1 = (v, h2)" by fastforce
      with Some False assms(3,4) off obtain j where "v = Some j" "i = Some j" "h2 = h'"
        by (cases v) (auto simp: Middleware_def bearerRefused_def)
      with AuthenticateToken_admits [OF api _ v [unfolded \<open>v = Some j\<close>]] h1 Some show ?thesis by auto
    qed
  qed
qed


lemma Middleware_bearer:
  assumes "protectedPath (rqPath r)" "\<not> svDisabled s" "cutPrefix (rqHeader r ''Authorization'') ''Bearer '' = Some bearer"
  shows "Middleware api s r = do { t \<leftarrow> AuthenticateToken api (trimSpace bearer);
    State_Monad.return (case t of Some i \<Rightarrow> Forward (Some i) | None \<Rightarrow> bearerRefused) }"
  using assms by (simp add: Middleware_def AuthDisabled_def)

text \<open>C12. A token that is gone from the Secret is refused once thirty seconds and the latency of a read have
  passed, whatever the process has served before.\<close>

theorem revoked_token_refused:
  assumes "timely api T S lat" "served api T s h" "protectedPath (rqPath r)" "\<not> svDisabled s"
    and "cutPrefix (rqHeader r ''Authorization'') ''Bearer '' = Some bearer"
    and "\<And>t. t0 \<le> t \<Longrightarrow> map_of (tokenView (S t tokensSecretName)) (hashToken (trimSpace bearer)) = None"
    and "t0 + tokenCache + lat \<le> T (outside h)"
  shows "fst (run_state (Middleware api s r) h) = bearerRefused"
proof -
  note h = served_hostOK [OF assms(2,1)]
  obtain v h' where v: "run_state (AuthenticateToken api (trimSpace bearer)) h = (v, h')" by fastforce
  have "v = None"
  proof (rule ccontr)
    assume "v \<noteq> None"
    then obtain i where i: "v = Some i" by auto
    from AuthenticateToken_admits [OF assms(1) h v [unfolded i], of "T (outside h)"] assms(6,7)
    show False by (auto simp: tokenAdmits_def tokenValid_def recently_def)
  qed
  with v show ?thesis by (simp add: Middleware_bearer [OF assms(3-5)])
qed

text \<open>A session of a local user whose account was deleted or disabled, or whose password was changed, is
  let in nowhere once thirty seconds and the latency of a read have passed.\<close>

theorem ended_session_refused:
  assumes "timely api T S lat" "served api T s h" "protectedPath (rqPath r)" "\<not> svDisabled s"
    and "cutPrefix (rqHeader r ''Authorization'') ''Bearer '' = None"
    and "rqCookie r SessionCookie = Some token" "Verify (svSessions s) readIdentity token = Inr j" "ManagedUser (Some j) = Some k"
    and "\<And>t. t0 \<le> t \<Longrightarrow> (case map_of (userView (S t usersSecretName)) k of
           None \<Rightarrow> True | Some u \<Rightarrow> usDisabled u \<or> (0 < idIssuedAt j \<and> idIssuedAt j < unixOf (usPasswordChangedAt u)))"
    and "t0 + userCache + lat \<le> T (outside h)"
  shows "case fst (run_state (Middleware api s r) h) of Forward _ \<Rightarrow> False | _ \<Rightarrow> True"
proof -
  obtain a h' where a: "run_state (Middleware api s r) h = (a, h')" by fastforce
  have k: "k = trimPrefix (idSubject j) userSubjectPrefix"
    using assms(8) by (simp add: ManagedUser_def trimPrefix_def cutPrefix_def split: if_splits)
  have "a \<noteq> Forward i" for i
  proof
    assume i: "a = Forward i"
    from Middleware_lets_in [OF assms(1-3) a [unfolded i]] assms(4,5)
    obtain i' now j' where j': "Read (svSessions s) r now = Inr j'"
      "if ManagedUser (Some j') = None then i' = j' else accountAdmits S lat (T (outside h)) (T (outside h')) r j' i'"
      unfolding sessionAdmits_def by (fastforce split: option.splits)
    from j'(1) assms(6,7) have "j' = j" by (auto simp: Read_def split: if_splits)
    with j'(2) assms(8) obtain t u where "recently userCache lat (T (outside h)) (T (outside h')) t"
      "sessionAccount (userView (S t usersSecretName)) j = Inr u" unfolding accountAdmits_def by auto
    with assms(9) [of t] assms(10) sessionAccount_Inr [of "userView (S t usersSecretName)" j u]
    show False by (auto simp: recently_def k)
  qed
  with a show ?thesis by (simp split: answer.split)
qed

subsection \<open>Signing in with a password\<close>

lemma after_keeps:
  assumes "keepsHost api s T S lat m" "hostOK api s T S lat h"
    and "\<And>x h'. run_state m h = (x, h') \<Longrightarrow> hostOK api s T S lat h' \<Longrightarrow> T (outside h) \<le> T (outside h') \<Longrightarrow> Q x h'"
  shows "after m Q h"
  using keeps_run [OF assms(1,2)] assms(3) by (intro afterI) blast

definition builtinMatches :: "('w, 'l) authority \<Rightarrow> Service \<Rightarrow> string \<Rightarrow> bool" where
  "builtinMatches api s password \<longleftrightarrow>
     (\<exists>x. madeOf api (svLocalPassword s) x
        \<and> (case x of None \<Rightarrow> password = svLocalPassword s | Some hash \<Rightarrow> bcryptMatches api hash password))"

definition accountMatches :: "('w, 'l) authority \<Rightarrow> (time \<Rightarrow> string \<Rightarrow> contents) \<Rightarrow> time \<Rightarrow> time \<Rightarrow> string \<Rightarrow> string \<Rightarrow> User \<Rightarrow> bool" where
  "accountMatches api S start end user password v \<longleftrightarrow>
     (\<exists>t u. start \<le> t \<and> t \<le> end \<and> map_of (userView (S t usersSecretName)) (toLower (trimSpace user)) = Some u
        \<and> \<not> usDisabled u \<and> bcryptMatches api (usHash u) password \<and> v = u\<lparr>usHash := []\<rparr>)"

definition passwordAdmits :: "('w, 'l) authority \<Rightarrow> Service \<Rightarrow> (time \<Rightarrow> string \<Rightarrow> contents) \<Rightarrow> time \<Rightarrow> time
    \<Rightarrow> string \<Rightarrow> string \<Rightarrow> Identity \<Rightarrow> bool" where
  "passwordAdmits api s S start end user password i \<longleftrightarrow>
     (if localConfigured s \<and> constantTimeEqual user (svLocalUser s)
      then builtinMatches api s password \<and> i = builtinIdentity s
      else \<exists>v. accountMatches api S start end user password v \<and> i = userIdentity v)"

lemma accountMatches_mono:
  assumes "accountMatches api S a b user password v" "a' \<le> a" "b \<le> b'"
  shows "accountMatches api S a' b' user password v"
proof -
  obtain t u where "a \<le> t" "t \<le> b" "map_of (userView (S t usersSecretName)) (toLower (trimSpace user)) = Some u"
    "\<not> usDisabled u" "bcryptMatches api (usHash u) password" "v = u\<lparr>usHash := []\<rparr>"
    using assms(1) unfolding accountMatches_def by blast
  with assms(2,3) show ?thesis unfolding accountMatches_def by (intro exI [of _ t] exI [of _ u]) simp
qed

lemma passwordAdmits_mono: "passwordAdmits api s S a b user password i \<Longrightarrow> a' \<le> a \<Longrightarrow> b \<le> b' \<Longrightarrow>
    passwordAdmits api s S a' b' user password i"
  unfolding passwordAdmits_def using accountMatches_mono [of api S a b user password _ a' b'] by (simp split: if_splits) blast

lemma AuthenticateUser_matches:
  assumes "timely api T S lat"
  shows "after (AuthenticateUser api user password)
    (\<lambda>r h'. T (outside h) \<le> T (outside h') \<and> (\<forall>v. r = Inr v \<longrightarrow> accountMatches api S (T (outside h)) (T (outside h')) user password v)) h"
  unfolding AuthenticateUser_def after_attempt loadUsers_def
  by (rule after_loadRecords [OF assms _ _ refl]) (auto simp: accountMatches_def split: option.split)

lemma builtinPassword_matches:
  assumes "hostOK api s T S lat h"
  shows "after (builtinPasswordOK api s password) (\<lambda>ok _. ok \<longrightarrow> builtinMatches api s password) h"
proof (cases "adminHash h")
  case None
  have "after (bcryptHash api (svLocalPassword s))
      (\<lambda>r _. (case (case r of Inl _ \<Rightarrow> None | Inr hash \<Rightarrow> Some hash) of
          None \<Rightarrow> password = svLocalPassword s | Some hash \<Rightarrow> bcryptMatches api hash password) \<longrightarrow> builtinMatches api s password) (outside h)"
    unfolding builtinMatches_def madeOf_def by (rule afterI) blast
  with None show ?thesis by (simp add: builtinPasswordOK_def Let_def)
next
  case (Some x)
  with assms show ?thesis by (auto simp: builtinPasswordOK_def builtinMatches_def hostOK_def)
qed

lemma checkCredentials_admits:
  assumes api: "timely api T S lat" and h: "hostOK api s T S lat h"
    and run: "run_state (checkCredentials api s user password) h = (Inr i, h')"
  shows "passwordAdmits api s S (T (outside h)) (T (outside h')) user password i"
proof (cases "localConfigured s \<and> constantTimeEqual user (svLocalUser s)")
  case True
  obtain ok h1 where b: "run_state (builtinPasswordOK api s password) h = (ok, h1)" by fastforce
  with True run have "ok" "i = builtinIdentity s"
    by (auto simp: checkCredentials_def split: if_splits prod.splits)
  with afterD [OF builtinPassword_matches [OF h] b] True show ?thesis by (simp add: passwordAdmits_def)
next
  case False
  obtain b h1 where b: "run_state (localLoginHidden api) h = (b, h1)" by fastforce
  obtain a h2 where a: "run_state (AuthenticateUser api user password) h1 = (a, h2)" by fastforce
  have t: "T (outside h) \<le> T (outside h1)" using keeps_run [OF keeps_settings(6) [OF api] h b] by simp
  from False run a b obtain v where "a = Inr v" "i = userIdentity v" "h' = h2"
    by (cases a) (auto simp: checkCredentials_def split: if_splits prod.splits)
  with afterD [OF AuthenticateUser_matches [OF api] a] False
  have "passwordAdmits api s S (T (outside h1)) (T (outside h')) user password i"
    unfolding passwordAdmits_def by (simp del: de_Morgan_conj) blast
  then show ?thesis by (rule passwordAdmits_mono [OF _ t order_refl])
qed

lemma checkCredentials_plain: "run_state (checkCredentials api s user password) h = (Inl a, h') \<Longrightarrow>
    \<exists>code msg. a = errorReply code msg"
  by (auto simp: checkCredentials_def rejectLogin_def split: if_splits sum.splits prod.splits)

lemma startSession_issues:
  assumes api: "timely api T S lat" and h: "hostOK api s T S lat h"
    and run: "run_state (startSession api s r noted i) h = (Reply code (c # cs) headers text, h')"
  shows "\<exists>now. T (outside h) \<le> now \<and> now \<le> T (outside h') \<and> Issue (svSessions s) r now i = Inr c \<and> cs = []"
proof -
  obtain now w where now: "run_state (timeNow api) (outside h) = (now, w)" by fastforce
  note t = timely_now [OF api now]
  have h1: "hostOK api s T S lat (h\<lparr>outside := w\<rparr>)" by (rule hostOK_later [OF h]) (use t in simp)
  obtain x h2 where x: "run_state (if noted then RecordSignIn api i else State_Monad.return (Inr ())) (h\<lparr>outside := w\<rparr>) = (x, h2)"
    by fastforce
  have "T w \<le> T (outside h2)"
    using keeps_run [OF keeps_if [OF keeps_signIns(1) [OF api] keeps_return] h1 x] by simp
  moreover have "Issue (svSessions s) r now i = Inr c \<and> cs = [] \<and> h' = h2"
    using run now x by (auto simp: startSession_def call_def errorReply_def split: sum.splits prod.splits)
  ultimately show ?thesis using t by (intro exI [of _ now]) simp
qed

text \<open>C9. A sign-in that sets a cookie was given the password: of the built-in administrator, against a hash
  bcrypt made of it, or of an account that was enabled and had that password while the request was
  served; the cookie is the session of that identity and nothing else is set.\<close>

theorem HandleLogin_needs_password:
  assumes "timely api T S lat" "served api T s h"
    and "run_state (HandleLogin api s r) h = (Reply code (c # cs) headers text, h')"
  shows "\<exists>user password now i. bodyPair ''username'' ''password'' (rqBody r) = Some (user, password)
    \<and> T (outside h) \<le> now \<and> now \<le> T (outside h') \<and> Issue (svSessions s) r now i = Inr c \<and> cs = []
    \<and> passwordAdmits api s S (T (outside h)) (T (outside h')) user password i"
proof -
  note api = assms(1)
  obtain off h1 where 1: "run_state (AuthDisabled api s) h = (off, h1)" by fastforce
  obtain u h2 where 2: "run_state (if localConfigured s then State_Monad.return True else AnyUser api) h1 = (u, h2)" by fastforce
  obtain ok h3 where 3: "run_state (allowAttempt api (clientIP r)) h2 = (ok, h3)" by fastforce
  show ?thesis
  proof (cases "bodyPair ''username'' ''password'' (rqBody r)")
    case None
    with 1 2 3 assms(3) show ?thesis by (auto simp: HandleLogin_def errorReply_def split: if_splits)
  next
    case (Some p)
    obtain user password where p: "p = (user, password)" by fastforce
    obtain left h4 where 4: "run_state (attemptsLeft api (accountKey user)) h3 = (left, h4)" by fastforce
    obtain a h5 where 5: "run_state (checkCredentials api s user password) h4 = (a, h5)" by fastforce
    have run: "\<not> off" u ok "\<not> left < 1" "\<exists>i. a = Inr i \<and> run_state (startSession api s r True i) h5 = (Reply code (c # cs) headers text, h')"
      using assms(3) 1 2 3 4 5 Some p checkCredentials_plain [of api s user password h4]
      by (auto simp: HandleLogin_def errorReply_def split: if_splits sum.splits)
    then obtain i where i: "a = Inr i" "run_state (startSession api s r True i) h5 = (Reply code (c # cs) headers text, h')" by blast
    note k1 = keeps_run [OF keeps_settings(5) [OF api] served_hostOK [OF assms(2) api] 1]
    note k2 = keeps_run [OF keeps_if [OF keeps_return keeps_users(1) [OF api]] conjunct1 [OF k1] 2]
    note k3 = keeps_run [OF keeps_limiters(1) [OF api] conjunct1 [OF k2] 3]
    note k4 = keeps_run [OF keeps_limiters(2) [OF api] conjunct1 [OF k3] 4]
    note k5 = keeps_run [OF keeps_credentials [OF api] conjunct1 [OF k4] 5]
    from startSession_issues [OF api conjunct1 [OF k5] i(2)]
    obtain now where "T (outside h5) \<le> now" "now \<le> T (outside h')" "Issue (svSessions s) r now i = Inr c" "cs = []" by blast
    moreover have "passwordAdmits api s S (T (outside h)) (T (outside h')) user password i"
      by (rule passwordAdmits_mono [OF checkCredentials_admits [OF api conjunct1 [OF k4] 5 [unfolded i(1)]]])
        (use k1 k2 k3 k4 k5 calculation in linarith)+
    ultimately show ?thesis using Some p k1 k2 k3 k4 k5 by (intro exI [of _ user] exI [of _ password] exI [of _ now] exI [of _ i]) auto
  qed
qed

subsection \<open>Changes of accounts and tokens\<close>

text \<open>C11. Whatever other clients write to the Secret in between, a change of an account that succeeds is the
  one asked for, applied to what it replaced: a new account under a free, allowed name that is
  not the built-in administrator's, with a hash of the password; an account with its patch; one
  with another password; one account less. Nothing else changes.\<close>

theorem account_changes_committed:
  assumes "optimistic api H" "bcryptOK api"
  shows "commits H usersSecretName (\<lambda>c d v.
      \<exists>k u hash now. k = toLower (trimSpace (usUsername user)) \<and> userNameOK k \<and> (if reserved = [] then True else k \<noteq> toLower reserved)
        \<and> validateProfile (user\<lparr>usUsername := k\<rparr>) = Inr u \<and> passwordOK password \<and> bcryptMatches api hash password
        \<and> accounts c k = None \<and> accounts (Some d) = (accounts c)(k \<mapsto> addedUser u hash now creator mustChange)
        \<and> v = addedUser u [] now creator mustChange)
    (CreateUser api reserved user password mustChange creator)
    \<and> commits H usersSecretName (\<lambda>c d v. \<exists>u w. accounts c k = Some u \<and> validateProfile (patchedUser patch u) = Inr w
      \<and> accounts (Some d) = (accounts c)(k \<mapsto> w) \<and> v = w\<lparr>usHash := []\<rparr>)
    (UpdateUser api k patch)
    \<and> commits H usersSecretName (\<lambda>c d _. \<exists>u hash now. accounts c k = Some u \<and> passwordOK password \<and> bcryptMatches api hash password
      \<and> accounts (Some d) = (accounts c)(k \<mapsto> u\<lparr>usHash := hash, usMustChange := mustChange, usPasswordChangedAt := truncateTo second now\<rparr>))
    (SetPassword api k password mustChange)
    \<and> commits H usersSecretName (\<lambda>c d _. accounts c k \<noteq> None \<and> accounts (Some d) = (accounts c)(k := None))
    (DeleteUser api k)"
  using CreateUser_commits [OF assms, of user reserved password creator mustChange] UpdateUser_commits [OF assms(1)]
    SetPassword_commits [OF assms] DeleteUser_commits [OF assms(1)] by (simp only: if_bool_eq_conj simp_thms)

text \<open>C13. Every operation keeps the accounts well-formed: kept under their own, allowed name, with one of
  the three roles, a name of at most a hundred characters and an address that could be one.\<close>

theorem accounts_stay_well_formed:
  assumes "optimistic api H" "bcryptOK api"
  shows "commits H usersSecretName keepsWellFormed (CreateUser api reserved user password mustChange creator)
    \<and> commits H usersSecretName keepsWellFormed (UpdateUser api k patch)
    \<and> commits H usersSecretName keepsWellFormed (SetPassword api k password mustChange)
    \<and> commits H usersSecretName keepsWellFormed (DeleteUser api k)"
  by (intro conjI CreateUser_wellFormed UpdateUser_wellFormed SetPassword_wellFormed DeleteUser_wellFormed assms)

text \<open>A token that is created gets a free name, a known role and the hash of the token that is handed
  out, and nothing else of the tokens changes; deleting one takes away that one only.\<close>

theorem token_changes_committed:
  assumes "optimistic api H"
  shows "commits H tokensSecretName (\<lambda>c d (token, info).
      tokenNameOK name \<and> knownRole role \<and> tokenMap c name = None \<and>
      (\<exists>t. tokenMap (Some d) = (tokenMap c)(name \<mapsto> t) \<and> tkName t = name \<and> tkRole t = role \<and> tkHash t = hashToken token
           \<and> info = t\<lparr>tkHash := []\<rparr>))
    (CreateToken api name role ttl creator)
    \<and> commits H tokensSecretName (\<lambda>c d _. tokenMap c name \<noteq> None \<and> tokenMap (Some d) = (tokenMap c)(name := None))
    (DeleteToken api name)"
  by (intro conjI CreateToken_commits DeleteToken_commits assms)

subsection \<open>The key of the sessions\<close>

text \<open>The key a replica signs with is the one the Secret holds, whichever of several replicas that start
  together created or repaired it.\<close>

theorem LoadOrCreateKey_agrees:
  assumes "optimistic api H" "environ api ''COSTDECK_SESSION_KEY'' = []"
  shows "after (LoadOrCreateKey api) (\<lambda>r h. case r of
      Inl _ \<Rightarrow> True
    | Inr key \<Rightarrow> \<exists>d. latest (H (outside h) keySecretName) = Some d \<and> key = dataField keySecretKey d) h"
proof -
  let ?m = "loadOrCreateSecret api keySecretName (\<lambda>d. 32 \<le> length (dataField keySecretKey d))
      (attempt (toAuth (randomBytes api 48)) (\<lambda>fresh. State_Monad.return (Inr [(keySecretKey, fresh)])))"
  have "after ?m (holdsAnswer H keySecretName) h" by (rule loadOrCreateSecret_holds [OF assms(1)])
  then have "after ?m (\<lambda>r. case r of
      Inl e \<Rightarrow> (\<lambda>h. True)
    | Inr d \<Rightarrow> (\<lambda>h. latest (H (outside h) keySecretName) = Some d)) h"
    by (rule after_mono) (simp add: holdsAnswer_def split: sum.splits)
  then show ?thesis
    using assms(2) by (simp add: LoadOrCreateKey_def) (erule after_mono, auto split: sum.splits)
qed

end
