(* ===== verification/SignInFlows.thy ===== *)
theory SignInFlows
  imports AuthSamples
begin

section \<open>What single sign-on guarantees\<close>

text \<open>
  Where the callbacks redirect to, which cookies they take, what an identity of single sign-on
  rests on, and the role it gets.
\<close>

subsection \<open>Redirects stay on the site\<close>

definition localTarget :: "string \<Rightarrow> bool" where
  "localTarget p \<longleftrightarrow>
     (case p of
        [] \<Rightarrow> False
      | c # cs \<Rightarrow> c = CHR ''/'' \<and> (case cs of [] \<Rightarrow> True | d # _ \<Rightarrow> d \<noteq> CHR ''/'' \<and> d \<noteq> CHR 0x5C))
     \<and> list_all (\<lambda>c. \<not> badInPath c) p"

lemma badInPath_slash [simp]: "\<not> badInPath (CHR ''/'')"
  by (simp add: badInPath_def isSpace_def)

lemma localTarget_root [simp]: "localTarget ''/''"
  by (simp add: localTarget_def)

lemma safeReturnPath_local: "localTarget (safeReturnPath api p)"
proof -
  let ?bad = "(case p of [] \<Rightarrow> True | c # cs \<Rightarrow> c \<noteq> CHR ''/'' \<or> (case cs of [] \<Rightarrow> False | d # _ \<Rightarrow> d = CHR ''/'' \<or> d = CHR 0x5C))
      \<or> list_ex badInPath p"
  have "localTarget p" if "\<not> ?bad"
    using that by (cases p) (auto simp: localTarget_def list_ex_iff list_all_iff split: list.splits)
  then show ?thesis
    unfolding safeReturnPath_def by (auto split: option.splits)
qed

lemma plainCode: "33 \<le> charCode c \<Longrightarrow> charCode c \<noteq> 92 \<Longrightarrow> charCode c \<noteq> 127 \<Longrightarrow> \<not> badInPath c"
  by (auto simp: badInPath_def isSpace_def)

lemma upperHex_plain: "d < 16 \<Longrightarrow> \<not> badInPath (upperHex d)"
  by (rule plainCode) (simp_all add: upperHex_def)

lemma queryEscape_plain: "c \<in> set (queryEscape s) \<Longrightarrow> \<not> badInPath c"
proof -
  have d: "isDigit c \<Longrightarrow> \<not> badInPath c" "c \<in> set ''-_.~+%'' \<Longrightarrow> \<not> badInPath c" for c
    by (auto simp: isDigit_def badInPath_def isSpace_def)
  have a: "alnum c \<or> (65 \<le> charCode c \<and> charCode c \<le> 90) \<Longrightarrow> \<not> badInPath c" for c
    using d(1) [of c] plainCode [of c] by (auto simp: alnum_def Let_def)
  have h: "\<not> badInPath (upperHex (charCode c div 16))" "\<not> badInPath (upperHex (charCode c mod 16))" for c
    by (rule upperHex_plain, simp add: less_mult_imp_div_less)+
  assume "c \<in> set (queryEscape s)"
  then show "\<not> badInPath c"
    using a d h by (auto simp: queryEscape_def split: if_splits)
qed

lemma errorTarget_local: "localTarget (errorTarget api returnTo e)"
proof -
  have l: "localTarget (safeReturnPath api returnTo)" by (rule safeReturnPath_local)
  have q: "list_all (\<lambda>c. \<not> badInPath c) (queryEscape s)" for s
    using queryEscape_plain by (simp add: list_all_iff)
  show ?thesis using l q [of "seDetail e"] q [of "seCode e"]
    by (auto simp: errorTarget_def Let_def localTarget_def badInPath_def isSpace_def split: list.splits)
qed

subsection \<open>Transactions\<close>

lemma readTxn_text:
  assumes "\<bar>txExpiresAt t\<bar> \<le> 2 ^ 53"
  shows "readTxn (structText (txnFields t)) = Some t"
proof -
  have "\<forall>(k, v) \<in> set (txnFields t). k \<in> set txnNames \<and> scalar v"
    using assms by (auto simp: txnFields_def txnNames_def)
  from readStruct_text [OF this] show ?thesis
    using assms by (simp add: readTxn_def txnFields_def field_reads del: asInt64.simps)
qed

text \<open>What the transaction of a cookie is when a sign-in is completed with it.\<close>

definition openedTxn :: "Service \<Rightarrow> string \<Rightarrow> Request \<Rightarrow> string \<Rightarrow> time \<Rightarrow> oidcTxn \<Rightarrow> bool" where
  "openedTxn s cookie r st now t \<longleftrightarrow>
     (\<exists>token payload. rqCookie r cookie = Some token \<and> signedBy (svSessions s) token payload \<and> readTxn payload = Some t)
     \<and> unixOf now \<le> txExpiresAt t \<and> st \<noteq> [] \<and> st = txState t"

definition clockAt :: "('w, 'l) authority \<Rightarrow> ('w, 'l) host \<Rightarrow> time" where
  "clockAt api h = fst (run_state (timeNow api) (outside h))"

lemma openTxn_opened:
  assumes run: "run_state (openTxn api s cookie r st errCode errDesc) h = (Inr (t, returnTo), h')"
  shows "openedTxn s cookie r st (clockAt api h) t \<and> errCode = [] \<and> returnTo = safeReturnPath api (txReturnTo t)"
proof -
  obtain now w where now: "run_state (timeNow api) (outside h) = (now, w)" by fastforce
  let ?o = "Option.bind (rqCookie r cookie) (\<lambda>v. case Verify (svSessions s) readTxn v of Inr t \<Rightarrow> Some t | Inl _ \<Rightarrow> None)"
  from run now have t: "?o = Some t" "unixOf now \<le> txExpiresAt t" "errCode = []" "st \<noteq> []" "st = txState t"
    "returnTo = safeReturnPath api (txReturnTo t)"
    by (auto simp: openTxn_def call_def Let_def split: option.splits if_splits)
  from t(1) obtain token where token: "rqCookie r cookie = Some token" "Verify (svSessions s) readTxn token = Inr t"
    by (cases "rqCookie r cookie"; cases "Verify (svSessions s) readTxn (the (rqCookie r cookie))") auto
  from Verify_signed [OF token(2)] token t now show ?thesis by (auto simp: openedTxn_def clockAt_def)
qed

text \<open>A transaction that was started can be completed with its state for ten minutes.\<close>

theorem started_sign_in_completes:
  assumes "Sign (svSessions s) (Some (structText (txnFields t))) = Inr token"
    and "rqCookie r cookie = Some token" "\<bar>txExpiresAt t\<bar> \<le> 2 ^ 53" "txState t \<noteq> []"
  shows "fst (run_state (openTxn api s cookie r (txState t) [] errDesc) h) =
    (if txExpiresAt t < unixOf (clockAt api h) then Inl (\<lparr>seCode = ''sign_in_expired'',
        seDetail = ''The sign-in took too long or was started in another browser. Please try again.''\<rparr>, ''/'')
     else Inr (t, safeReturnPath api (txReturnTo t)))"
proof -
  obtain now w where now: "run_state (timeNow api) (outside h) = (now, w)" by fastforce
  have "now = clockAt api h" using now by (simp add: clockAt_def)
  moreover have "Verify (svSessions s) readTxn token = Inr t"
    using Verify_Sign [OF assms(1), of readTxn] readTxn_text [OF assms(3)] by simp
  ultimately show ?thesis using assms(2,4) now by (simp add: openTxn_def call_def)
qed

lemma txn_role:
  assumes "\<bar>txExpiresAt t\<bar> \<le> 2 ^ 53" "readIdentity (structText (txnFields t)) = Some i"
  shows "idRole i = []"
proof -
  have "\<forall>(k, v) \<in> set (txnFields t). scalar v" using assms(1) by (auto simp: txnFields_def)
  then have "readStruct identityNames (structText (txnFields t)) = Some [(''exp'', canon (JInt (txExpiresAt t)))]"
    by (simp add: readStruct_def parse_structText txnFields_def field_def fieldNamed_def identityNames_def
        equalFold_def toLower_def lowerChar_def)
  with assms show ?thesis by (auto simp: readIdentity_def)
qed

lemma session_state:
  assumes "\<bar>idExpiresAt i\<bar> \<le> 2 ^ 53" "\<bar>idIssuedAt i\<bar> \<le> 2 ^ 53" "readTxn (structText (identityFields i)) = Some t"
  shows "txState t = []"
proof -
  have "\<forall>(k, v) \<in> set (identityFields i). scalar v"
    using assms(1,2) by (auto simp: identityFields_def dest!: set_omitEmpty)
  then have "readStruct txnNames (structText (identityFields i)) = Some [(''exp'', canon (JInt (idExpiresAt i)))]"
    by (simp add: readStruct_def parse_structText identityFields_def field_def omitEmpty_def fieldNamed_def txnNames_def
        equalFold_def toLower_def lowerChar_def)
  with assms show ?thesis by (auto simp: readTxn_def)
qed

text \<open>Sessions and sign-in transactions are signed with one key, and neither passes for the other: the
  value of a transaction is refused as a session, and that of a session as a transaction.\<close>

theorem cookies_not_interchangeable:
  assumes "clockRange now" "ssTTL s = sessionTTL" "\<bar>txExpiresAt t\<bar> \<le> 2 ^ 53"
    and "Issue s r0 now i = Inr c" "Sign s (Some (structText (txnFields t))) = Inr token"
    and "svSessions srv = s" "rqCookie r cookie = Some (ckValue c)" "rqCookie q SessionCookie = Some token"
  shows "(case Read s q later of Inl _ \<Rightarrow> True | Inr _ \<Rightarrow> False)
    \<and> (case fst (run_state (openTxn api srv cookie r st errCode errDesc) h) of Inl _ \<Rightarrow> True | Inr _ \<Rightarrow> False)"
proof
  have "Read s q later \<noteq> Inr j" for j
  proof
    assume "Read s q later = Inr j"
    then have "Verify s readIdentity token = Inr j" "knownRole (idRole j)"
      using assms(8) by (auto simp: Read_def split: sum.splits if_splits)
    moreover from this Verify_Sign [OF assms(5), of readIdentity]
    have "readIdentity (structText (txnFields t)) = Some j" by (simp split: option.splits)
    ultimately show False using txn_role [OF assms(3)] by (simp add: knownRole_def role_defs)
  qed
  then show "case Read s q later of Inl _ \<Rightarrow> True | Inr _ \<Rightarrow> False" by (simp split: sum.split)
next
  obtain v where v: "Sign s (identityText (stamped s now i)) = Inr v" "ckValue c = v"
    using assms(4) by (cases "Sign s (identityText (stamped s now i))") (auto simp: Issue_def)
  have b: "\<bar>idExpiresAt (stamped s now i)\<bar> \<le> 2 ^ 53" "\<bar>idIssuedAt (stamped s now i)\<bar> \<le> 2 ^ 53"
    using stamped_range [OF assms(1,2)] by simp_all
  have "txState u = []" if "Verify s readTxn v = Inr u" for u
    using that Verify_Sign [OF v(1) [unfolded identityText_def], of readTxn] session_state [OF b]
    by (simp split: option.splits)
  then show "case fst (run_state (openTxn api srv cookie r st errCode errDesc) h) of Inl _ \<Rightarrow> True | Inr _ \<Rightarrow> False"
    using assms(6,7) v(2) by (cases "Verify s readTxn v") (auto simp: openTxn_def call_def Let_def split: prod.split)
qed

subsection \<open>Identities of single sign-on\<close>

lemma run_attempt_Inr:
  assumes "run_state (attempt m f) h = (Inr y, h')"
  obtains x h1 where "run_state m h = (Inr x, h1)" "run_state (f x) h1 = (Inr y, h')"
  using assms by (cases "run_state m h") (auto simp: attempt_def split: sum.splits)

lemma run_call: "run_state (call m) h = (case run_state m (outside h) of (x, w) \<Rightarrow> (x, h\<lparr>outside := w\<rparr>))"
  by (simp add: call_def)

definition answers :: "('w, 'a) state \<Rightarrow> 'a \<Rightarrow> bool" where
  "answers m x \<longleftrightarrow> (\<exists>w w'. run_state m w = (x, w'))"

lemma answersI: "run_state m w = (x, w') \<Longrightarrow> answers m x"
  unfolding answers_def by blast

lemma enabledEntra_answers: "run_state (enabledEntra api) h = (Some cfg, h') \<Longrightarrow>
    enEnabled cfg \<and> (\<exists>c. answers (getSettings api) (Inr c) \<and> acEntra c = Some cfg)"
  by (auto simp: enabledEntra_def readSettings_def run_call emptySettings_def intro!: answersI
      split: sum.splits option.splits if_splits prod.splits)

lemma enabledOIDC_answers: "run_state (enabledOIDC api) h = (Some cfg, h') \<Longrightarrow>
    ocEnabled cfg \<and> (\<exists>c. answers (getSettings api) (Inr c) \<and> acOIDC c = Some cfg)"
  by (auto simp: enabledOIDC_def readSettings_def run_call emptySettings_def intro!: answersI
      split: sum.splits option.splits if_splits prod.splits)

lemma entraSettings_answers:
  assumes "run_state (entraSettings api) h = (Inr (Some (cfg, secret)), h')"
  shows "enEnabled cfg \<and> (\<exists>c. answers (getSettings api) (Inr c) \<and> acEntra c = Some cfg)"
proof -
  obtain o' h1 where e: "run_state (enabledEntra api) h = (o', h1)" by fastforce
  with assms have "o' = Some cfg"
    by (auto simp: entraSettings_def attempt_def split: option.splits prod.splits sum.splits)
  with enabledEntra_answers e show ?thesis by blast
qed

lemma oidcSettings_answers:
  assumes "run_state (oidcSettings api) h = (Inr (Some (cfg, secret)), h')"
  shows "ocEnabled cfg \<and> (\<exists>c. answers (getSettings api) (Inr c) \<and> acOIDC c = Some cfg)"
proof -
  obtain o' h1 where e: "run_state (enabledOIDC api) h = (o', h1)" by fastforce
  with assms have "o' = Some cfg"
    by (auto simp: oidcSettings_def attempt_def split: option.splits prod.splits sum.splits)
  with enabledOIDC_answers e show ?thesis by blast
qed

text \<open>An identity token the library verified for the nonce of a transaction.\<close>

definition verifiedToken :: "('w, 'l) authority \<Rightarrow> string \<Rightarrow> bool \<Rightarrow> string \<Rightarrow> json \<Rightarrow> bool" where
  "verifiedToken api client anyIssuer nonce claims \<longleftrightarrow>
     (\<exists>p raw tok. answers (verifyIDToken api p client anyIssuer raw) (Inr tok) \<and> itNonce tok = nonce \<and> itClaims tok = claims)"

lemma verifyEntra_verified:
  assumes "run_state (verifyEntra api p cfg raw nonce) h = (Inr c, h')"
  shows "(\<exists>j. verifiedToken api (enClientID cfg) (multiTenant (enTenantID cfg)) nonce j \<and> readClaims j = Some c)
    \<and> (if multiTenant (enTenantID cfg) then ecIssuer c = authorityOf cfg @ ''/'' @ ecTenantID c @ ''/v2.0'' else True)"
proof -
  obtain v w where v: "run_state (verifyIDToken api p (enClientID cfg) (multiTenant (enTenantID cfg)) raw) (outside h) = (v, w)"
    by fastforce
  from assms v obtain tok where "v = Inr tok" "itNonce tok = nonce" "readClaims (itClaims tok) = Some c"
    "if multiTenant (enTenantID cfg) then ecIssuer c = authorityOf cfg @ ''/'' @ ecTenantID c @ ''/v2.0'' else True"
    by (cases v) (auto simp: verifyEntra_def attempt_def toAuth_def run_call split: if_splits option.splits)
  with answersI [OF v] show ?thesis unfolding verifiedToken_def by blast
qed

lemma completeEntra_verified:
  assumes "run_state (completeEntra api s r code st errCode errDesc) h = (Inr (i, returnTo), h')"
  shows "\<exists>t cfg j c role. openedTxn s txnCookie r st (clockAt api h) t \<and> errCode = [] \<and> returnTo = safeReturnPath api (txReturnTo t)
    \<and> enEnabled cfg \<and> (\<exists>ac. answers (getSettings api) (Inr ac) \<and> acEntra ac = Some cfg)
    \<and> verifiedToken api (enClientID cfg) (multiTenant (enTenantID cfg)) (txNonce t) j \<and> readClaims j = Some c
    \<and> (if multiTenant (enTenantID cfg) then ecIssuer c = authorityOf cfg @ ''/'' @ ecTenantID c @ ''/v2.0'' else True)
    \<and> ResolveRole cfg (ecGroups c) (ecRoles c) = Some role \<and> i = entraIdentity c role"
proof -
  from assms obtain t ret h1 where o1: "run_state (openTxn api s txnCookie r st errCode errDesc) h = (Inr (t, ret), h1)"
    by (auto simp: completeEntra_def elim: run_attempt_Inr)
  obtain x h2 where set: "run_state (entraSettings api) h1 = (x, h2)" by fastforce
  with assms o1 obtain cfg secret where x: "x = Inr (Some (cfg, secret))"
    by (auto simp: completeEntra_def attempt_def split: sum.splits option.splits)
  obtain p h3 where p: "run_state (entraProvider api cfg) h2 = (p, h3)" by fastforce
  with assms o1 set x obtain pr where pr: "p = Inr pr"
    by (cases p) (auto simp: completeEntra_def attempt_def)
  obtain y w where y: "run_state (exchangeCode api pr (entraOAuth cfg secret (txRedirectURL t)) code (txVerifier t)) (outside h3) = (y, w)"
    by fastforce
  with assms o1 set x p pr obtain raw where raw: "y = Inr raw"
    by (cases y) (auto simp: completeEntra_def attempt_def run_call)
  obtain v h4 where v: "run_state (verifyEntra api pr cfg raw (txNonce t)) (h3\<lparr>outside := w\<rparr>) = (v, h4)" by fastforce
  with assms o1 set x p pr y raw obtain c role where c: "v = Inr c" "ResolveRole cfg (ecGroups c) (ecRoles c) = Some role"
    "i = entraIdentity c role" "returnTo = ret"
    by (cases v) (auto simp: completeEntra_def attempt_def run_call split: option.splits)
  from openTxn_opened [OF o1] entraSettings_answers [OF set [unfolded x]] verifyEntra_verified [OF v [unfolded c(1)]] c(2-4)
  show ?thesis by blast
qed


lemma completeOIDC_verified:
  assumes "run_state (completeOIDC api s r code st errCode errDesc) h = (Inr (i, returnTo), h')"
  shows "\<exists>t cfg j role. openedTxn s oidcTxnCookie r st (clockAt api h) t \<and> errCode = [] \<and> returnTo = safeReturnPath api (txReturnTo t)
    \<and> ocEnabled cfg \<and> (\<exists>ac. answers (getSettings api) (Inr ac) \<and> acOIDC ac = Some cfg)
    \<and> verifiedToken api (ocClientID cfg) False (txNonce t) j \<and> oidcClaimRole cfg j = Some role \<and> i = oidcIdentity j role"
proof -
  from assms obtain t ret h1 where o1: "run_state (openTxn api s oidcTxnCookie r st errCode errDesc) h = (Inr (t, ret), h1)"
    by (auto simp: completeOIDC_def elim: run_attempt_Inr)
  obtain x h2 where set: "run_state (oidcSettings api) h1 = (x, h2)" by fastforce
  with assms o1 obtain cfg secret where x: "x = Inr (Some (cfg, secret))"
    by (auto simp: completeOIDC_def attempt_def split: sum.splits option.splits)
  obtain p h3 where p: "run_state (oidcProvider api cfg) h2 = (p, h3)" by fastforce
  with assms o1 set x obtain pr where pr: "p = Inr pr"
    by (cases p) (auto simp: completeOIDC_def attempt_def)
  obtain y w where y: "run_state (exchangeCode api pr (oidcOAuth cfg secret (txRedirectURL t)) code (txVerifier t)) (outside h3) = (y, w)"
    by fastforce
  with assms o1 set x p pr obtain raw where raw: "y = Inr raw" "raw \<noteq> []"
    by (cases y) (auto simp: completeOIDC_def attempt_def run_call split: if_splits)
  obtain v w2 where v: "run_state (verifyIDToken api pr (ocClientID cfg) False raw) w = (v, w2)" by fastforce
  with assms o1 set x p pr y raw obtain tok role where tok: "v = Inr tok" "itNonce tok = txNonce t"
    "oidcClaimRole cfg (itClaims tok) = Some role" "i = oidcIdentity (itClaims tok) role" "returnTo = ret"
    by (cases v) (auto simp: completeOIDC_def attempt_def run_call split: option.splits if_splits)
  have "verifiedToken api (ocClientID cfg) False (txNonce t) (itClaims tok)"
    unfolding verifiedToken_def using answersI [OF v] tok(1,2) by blast
  with openTxn_opened [OF o1] oidcSettings_answers [OF set [unfolded x]] tok(3-5)
  show ?thesis by blast
qed

text \<open>An identity out of OpenID Connect rests on a transaction of this browser and a verified token of its
  nonce in the same way.\<close>

theorem OIDC_identity_verified:
  assumes "run_state (completeOIDC api s r code st errCode errDesc) h = (Inr (i, returnTo), h')"
  shows "\<exists>t cfg j role. openedTxn s oidcTxnCookie r st (clockAt api h) t \<and> errCode = [] \<and> returnTo = safeReturnPath api (txReturnTo t)
    \<and> ocEnabled cfg \<and> (\<exists>ac. answers (getSettings api) (Inr ac) \<and> acOIDC ac = Some cfg)
    \<and> verifiedToken api (ocClientID cfg) False (txNonce t) j \<and> oidcClaimRole cfg j = Some role \<and> i = oidcIdentity j role"
  by (rule completeOIDC_verified [OF assms])

subsection \<open>No open redirect\<close>

lemma finishCallback_local:
  assumes "\<And>i ret. c = Inr (i, ret) \<Longrightarrow> localTarget ret"
  shows "case fst (run_state (finishCallback api s cookie r c) h) of Redirect target _ \<Rightarrow> localTarget target | _ \<Rightarrow> False"
  using assms errorTarget_local
  by (auto simp: finishCallback_def redirectWithError_def run_call split: sum.split prod.split)

text \<open>C14. Both callbacks always redirect, and only to a path on the site itself, without a character that a
  browser or proxy could read as another host or header.\<close>

theorem callbacks_redirect_locally:
  "(case fst (run_state (EntraCallback api s r) h) of Redirect target _ \<Rightarrow> localTarget target | _ \<Rightarrow> False)
   \<and> (case fst (run_state (OIDCCallback api s r) h) of Redirect target _ \<Rightarrow> localTarget target | _ \<Rightarrow> False)"
proof
  obtain c h1 where c: "run_state (completeEntra api s r (rqQuery r ''code'') (rqQuery r ''state'') (rqQuery r ''error'')
      (rqQuery r ''error_description'')) h = (c, h1)" by fastforce
  have "localTarget ret" if "c = Inr (i, ret)" for i ret
    using completeEntra_verified [OF c [unfolded that]] safeReturnPath_local by auto
  with c finishCallback_local [of c api s txnCookie r h1]
  show "case fst (run_state (EntraCallback api s r) h) of Redirect target _ \<Rightarrow> localTarget target | _ \<Rightarrow> False"
    by (simp add: EntraCallback_def)
next
  obtain c h1 where c: "run_state (completeOIDC api s r (rqQuery r ''code'') (rqQuery r ''state'') (rqQuery r ''error'')
      (rqQuery r ''error_description'')) h = (c, h1)" by fastforce
  have "localTarget ret" if "c = Inr (i, ret)" for i ret
    using completeOIDC_verified [OF c [unfolded that]] safeReturnPath_local by auto
  with c finishCallback_local [of c api s oidcTxnCookie r h1]
  show "case fst (run_state (OIDCCallback api s r) h) of Redirect target _ \<Rightarrow> localTarget target | _ \<Rightarrow> False"
    by (simp add: OIDCCallback_def)
qed

subsection \<open>Roles out of claims\<close>

lemma roleRank_raise: "roleRank (raise r x) = max (roleRank r) (case x of None \<Rightarrow> 0 | Some y \<Rightarrow> roleRank y)"
  by (simp add: raise_def Higher_def split: option.split)

lemma raises:
  fixes f :: "'a \<Rightarrow> Role option"
  defines "best r xs \<equiv> foldl (\<lambda>role x. raise role (f x)) r xs"
  shows "(best r xs = r \<or> (\<exists>x \<in> set xs. f x = Some (best r xs))) \<and> roleRank r \<le> roleRank (best r xs)
    \<and> (\<forall>x \<in> set xs. \<forall>y. f x = Some y \<longrightarrow> roleRank y \<le> roleRank (best r xs))"
proof (induction xs arbitrary: r)
  case (Cons x xs)
  define q where "q = raise r (f x)"
  have step: "best r (x # xs) = best q xs" by (simp add: best_def q_def)
  have q: "q = r \<or> f x = Some q" "roleRank r \<le> roleRank q" "\<And>y. f x = Some y \<Longrightarrow> roleRank y \<le> roleRank q"
    by (auto simp: q_def raise_def Higher_def split: option.split)
  note IH = Cons.IH [of q]
  have "best q xs = r \<or> (\<exists>z \<in> set (x # xs). f z = Some (best q xs))"
    using IH q(1) by auto
  moreover have "roleRank r \<le> roleRank (best q xs)" using IH q(2) by simp
  moreover have "roleRank y \<le> roleRank (best q xs)" if "z \<in> set (x # xs)" "f z = Some y" for z y
    using that IH q(3) [of y] by (cases "z = x") auto
  ultimately show ?case unfolding step by blast
qed (simp add: best_def)

text \<open>The roles the claims map to; where any tenant may sign in, only groups count.\<close>

definition entraGrants :: "EntraConfig \<Rightarrow> string list \<Rightarrow> string list \<Rightarrow> Role set" where
  "entraGrants cfg groups appRoles =
     {r. \<exists>g \<in> set groups. mappedRole (enGroupRoleMapping cfg) g = Some r}
     \<union> (if multiTenant (enTenantID cfg) then {} else {r. \<exists>a \<in> set appRoles. ParseRole a = Some r})"

lemma entraGrants_known: "r \<in> entraGrants cfg groups appRoles \<Longrightarrow> knownRole r"
  by (auto simp: entraGrants_def mappedRole_def dest: ParseRole_known split: if_splits)

text \<open>A role that is resolved is one of the three and the highest the claims map to. Without any there is
  the default role, unless accounts are not provisioned or any tenant may sign in: then nobody
  gets in who is not mapped.\<close>

theorem ResolveRole_highest:
  "case ResolveRole cfg groups appRoles of
     None \<Rightarrow> entraGrants cfg groups appRoles = {} \<and> (multiTenant (enTenantID cfg) \<or> enAutoProvision cfg = Some False)
   | Some role \<Rightarrow> knownRole role
       \<and> (if entraGrants cfg groups appRoles = {}
          then \<not> multiTenant (enTenantID cfg) \<and> enAutoProvision cfg \<noteq> Some False
               \<and> role = (case ParseRole (enDefaultRole cfg) of Some r \<Rightarrow> r | None \<Rightarrow> RoleViewer)
          else role \<in> entraGrants cfg groups appRoles
               \<and> entraGrants cfg groups appRoles \<subseteq> {r. roleRank r \<le> roleRank role})"
proof -
  let ?mt = "multiTenant (enTenantID cfg)" and ?G = "entraGrants cfg groups appRoles"
  define byGroup where "byGroup = foldl (\<lambda>role g. raise role (mappedRole (enGroupRoleMapping cfg) g)) [] groups"
  define role where "role = (if ?mt then byGroup else foldl (\<lambda>role a. raise role (ParseRole a)) byGroup appRoles)"
  note g = raises [of "mappedRole (enGroupRoleMapping cfg)" "[]" groups, folded byGroup_def]
  note a = raises [of ParseRole byGroup appRoles]
  have in_G: "role = [] \<or> role \<in> ?G"
    using g a by (auto simp: role_def entraGrants_def)
  have above: "roleRank r \<le> roleRank role" if "r \<in> ?G" for r
    using that g a by (auto simp: role_def entraGrants_def split: if_splits)
  have empty: "role = [] \<longleftrightarrow> ?G = {}"
    using in_G above entraGrants_known [of _ cfg groups appRoles] by (fastforce simp: knownRole_rank roleRank_def role_defs)
  have R: "ResolveRole cfg groups appRoles = (if role \<noteq> [] then Some role
      else if ?mt \<or> enAutoProvision cfg = Some False then None
      else case ParseRole (enDefaultRole cfg) of Some r \<Rightarrow> Some r | None \<Rightarrow> Some RoleViewer)"
    by (simp add: ResolveRole_def Let_def role_def byGroup_def)
  show ?thesis
  proof (cases "role = []")
    case True
    moreover have "knownRole RoleViewer" by (simp add: knownRole_def)
    ultimately show ?thesis
      using R empty by (auto dest: ParseRole_known split: option.split)
  next
    case False
    with R empty in_G above entraGrants_known show ?thesis by auto
  qed
qed

end
