(* ===== verification/AuthExamples.thy ===== *)
theory AuthExamples
  imports AuthGuarantees SignInFlows
begin

section \<open>The guarantees of authentication at work\<close>

text \<open>
  The theorems of \<open>AuthGuarantees\<close> and \<open>SignInFlows\<close> applied in the surroundings of
  \<open>AuthSamples\<close>: a bearer token that is let in and later refused, a sign-in with a password, a
  session whose account is gone, a sign-in with Microsoft and with another provider.
\<close>

subsection \<open>A bearer token\<close>

definition sampleToken :: TokenInfo where
  "sampleToken = \<lparr>tkName = ''ci'', tkRole = RoleViewer, tkCreatedAt = 0, tkCreatedBy = [], tkExpiresAt = None,
     tkHash = hashToken ''cdk_ci''\<rparr>"

definition tokenUntil :: "time \<Rightarrow> time \<Rightarrow> string \<Rightarrow> contents" where
  "tokenUntil t0 t n = (if n = tokensSecretName \<and> t < t0 then map_option (\<lambda>x. [(''ci'', x)]) (tokenText sampleToken) else None)"

definition bearerRequest :: Request where
  "bearerRequest = sampleRequest\<lparr>rqHeader := (\<lambda>k. if k = ''Authorization'' then ''Bearer cdk_ci'' else [])\<rparr>"

lemma hasTimeText_0: "hasTimeText 0"
  by code_simp

lemma sampleToken_text: "\<exists>x. tokenText sampleToken = Some x \<and> readToken x = Some sampleToken"
proof -
  have "tokenPrintable sampleToken" by (simp add: tokenPrintable_def sampleToken_def hasTimeText_0)
  then obtain x where "tokenText sampleToken = Some x" by (simp add: tokenText_def)
  then show ?thesis using readToken_text by blast
qed

lemma tokenUntil_timely: "timely (clocked (tokenUntil t0) settings tok) (\<lambda>w. w) (tokenUntil t0) 0"
  by (rule clocked_timely) (auto simp: tokenUntil_def split: if_splits)

lemma sampleToken_view: "tokenView (tokenUntil t0 t tokensSecretName) = (if t < t0 then [(hashToken ''cdk_ci'', sampleToken)] else [])"
proof -
  obtain x where "tokenText sampleToken = Some x" "readToken x = Some sampleToken" using sampleToken_text by blast
  then show ?thesis by (simp add: tokenUntil_def recordList_def byHash_def) (simp add: sampleToken_def setTokenName_def)
qed

lemma bearerRequest_path: "protectedPath (rqPath bearerRequest)"
  "cutPrefix (rqHeader bearerRequest ''Authorization'') ''Bearer '' = Some ''cdk_ci''" "trimSpace ''cdk_ci'' = ''cdk_ci''"
  by (simp_all add: bearerRequest_def sampleRequest_def protectedPath_def PublicPath_def go_str webexWebhookPath_def)

text \<open>The token of the sample lets its bearer in as a viewer.\<close>

lemma bearer_let_in:
  "\<exists>h. run_state (Middleware (clocked (tokenUntil 100) emptySettings noToken) sampleService bearerRequest) (newHost 5)
     = (Forward (Some (tokenIdentity sampleToken)), h)"
proof -
  obtain x where x: "tokenText sampleToken = Some x" "readToken x = Some sampleToken" using sampleToken_text by blast
  let ?api = "clocked (tokenUntil 100) emptySettings noToken :: (time, unit) authority"
  have "run_state (currentTokens ?api) (newHost 5) = (Inr [(hashToken ''cdk_ci'', sampleToken)],
      (newHost 5)\<lparr>tokensByHash := Some [(hashToken ''cdk_ci'', sampleToken)], tokensLoadedAt := 5\<rparr>)"
    using x by (simp add: currentTokens_def reloadTokens_def loadTokens_def loadRecords_def attempt_def call_def changeHost_def
      clocked_simps newHost_def tokenUntil_def byHash_def) (simp add: sampleToken_def setTokenName_def)
  moreover have "\<not> svDisabled sampleService" "tkExpiresAt sampleToken = None" by (simp_all add: sampleService_def sampleToken_def)
  ultimately show ?thesis
    using Middleware_bearer [OF bearerRequest_path(1) _ bearerRequest_path(2), of sampleService ?api]
    by (simp add: bearerRequest_path(3) AuthenticateToken_def TokenPrefix_def hasPrefix_def)
qed


theorem revoked_token_refused_witness:
  "fst (run_state (Middleware (clocked (tokenUntil 100) emptySettings noToken) sampleService bearerRequest) (newHost (100 + tokenCache)))
    = bearerRefused"
proof -
  have "\<not> svDisabled sampleService" by (simp add: sampleService_def)
  note r = revoked_token_refused [OF tokenUntil_timely newHost_served bearerRequest_path(1) this bearerRequest_path(2)]
  show ?thesis
    by (rule r [where ?t0.0 = 100]) (simp_all add: bearerRequest_path(3) sampleToken_view newHost_def)
qed

subsection \<open>A sign-in with a password, and a session\<close>

lemma decodeBody_structText:
  assumes "\<forall>(k, v) \<in> set fs. k \<in> set names \<and> scalar v" "length (structText fs) \<le> n"
  shows "decodeBody n names (structText fs) = Some (map (\<lambda>(k, v). (k, canon v)) fs)"
proof -
  have "\<forall>(k, v) \<in> set fs. readsAs (marshalJson v) (canon v)"
    using assms(1) by (fastforce simp: scalar_def intro: marshal_reads split: json.splits)
  from readsAsD [OF object_reads [OF this], of "2 * n + 2" "[]"] assms(2)
  have "parseValue (2 * n + 2) (structText fs) = Some (JObj (map (\<lambda>(k, v). (k, canon v)) fs), [])"
    by (simp add: structText_def stops_def)
  moreover have "memberFields names (map (\<lambda>(k, v). (k, canon v)) fs) = map (\<lambda>(k, v). (k, canon v)) fs"
    by (rule memberFields_exact) (use assms(1) in auto)
  ultimately show ?thesis using assms(2) by (simp add: decodeBody_def)
qed

definition loginRequest :: Request where
  "loginRequest = sampleRequest\<lparr>rqMethod := ''POST'', rqPath := ''/api/login'',
     rqBody := structText [(''username'', JStr ''root''), (''password'', JStr ''secret'')]\<rparr>"

lemma loginRequest_body: "bodyPair ''username'' ''password'' (rqBody loginRequest) = Some (''root'', ''secret'')"
proof -
  have l: "length (structText [(''username'', JStr ''root''), (''password'', JStr ''secret'')]) \<le> 60" by code_simp
  show ?thesis
    by (simp add: bodyPair_def loginRequest_def, subst decodeBody_structText) (use l in \<open>simp_all add: loginBodyLimit_def\<close>)
qed

definition sampleCookie :: "Identity \<Rightarrow> Cookie" where
  "sampleCookie i = (case Issue (svSessions sampleService) sampleRequest 0 i of Inr c \<Rightarrow> c | Inl _ \<Rightarrow> Clear sampleRequest)"

lemma sampleCookie_issued: "Issue (svSessions sampleService) r 0 i = Inr (sampleCookie i\<lparr>ckSecure := isHTTPS r\<rparr>)"
  by (simp add: sampleCookie_def Issue_def Sign_def identityText_def)

lemma sampleService_ttl: "ssTTL (svSessions sampleService) = sessionTTL" "\<not> svDisabled sampleService"
  by (simp_all add: sampleService_def)

lemma sampleCookie_verifies:
  "Verify (svSessions sampleService) readIdentity (ckValue (sampleCookie i)) = Inr (stamped (svSessions sampleService) 0 i)"
proof -
  obtain v where v: "Sign (svSessions sampleService) (identityText (stamped (svSessions sampleService) 0 i)) = Inr v"
    by (simp add: Sign_def identityText_def)
  then have "ckValue (sampleCookie i) = v" by (simp add: sampleCookie_def Issue_def)
  with Verify_Sign [OF v [unfolded identityText_def], of readIdentity] readIdentity_stamped [OF _ sampleService_ttl(1), of 0]
  show ?thesis by (simp add: clockRange_def)
qed

theorem HandleLogin_needs_password_witness:
  "\<exists>c h. fst (run_state (HandleLogin (clocked (\<lambda>_ _. None) emptySettings noToken) sampleService loginRequest) (newHost 0))
      = Reply 200 [c] [] (JsonBody (JObj [(''status'', JStr ''ok''), (''user'', identityJson (builtinIdentity sampleService))]))
    \<and> passwordAdmits (clocked (\<lambda>_ _. None) emptySettings noToken) sampleService (\<lambda>_ _. None) 0 h ''root'' ''secret''
        (builtinIdentity sampleService)"
proof -
  let ?api = "clocked (\<lambda>_ _. None) emptySettings noToken :: (time, unit) authority"
  let ?c = "sampleCookie (builtinIdentity sampleService)\<lparr>ckSecure := isHTTPS loginRequest\<rparr>"
  let ?a = "Reply 200 [?c] [] (JsonBody (JObj [(''status'', JStr ''ok''), (''user'', identityJson (builtinIdentity sampleService))]))"
  have c: "constantTimeEqual ''root'' (svLocalUser sampleService)" "localConfigured sampleService"
    by (simp_all add: constantTimeEqual_def sampleService_def localConfigured_def)
  then have "fst (run_state (HandleLogin ?api sampleService loginRequest) (newHost 0)) = ?a"
    using loginRequest_body sampleCookie_issued [of loginRequest "builtinIdentity sampleService"]
    by (simp add: HandleLogin_def AuthDisabled_def sampleService_ttl allowAttempt_def attemptsLeft_def checkCredentials_def
      builtinPasswordOK_def startSession_def clocked_simps call_def changeHost_def newHost_def Let_def split: prod.split)
      (simp add: sampleService_def)
  then obtain h where r: "run_state (HandleLogin ?api sampleService loginRequest) (newHost 0) = (?a, h)"
    by (metis prod.collapse)
  have t: "timely ?api (\<lambda>w. w) (\<lambda>_ _. None) 0" by (rule clocked_timely) simp
  from HandleLogin_needs_password [OF t newHost_served r] loginRequest_body
  obtain i where i: "passwordAdmits ?api sampleService (\<lambda>_ _. None) (outside (newHost 0 :: (time, unit) host)) (outside h) ''root'' ''secret'' i"
    by auto
  with c have "i = builtinIdentity sampleService" by (simp add: passwordAdmits_def)
  with i r show ?thesis by (intro exI [of _ ?c] exI [of _ "outside h"]) (simp add: newHost_def)
qed

definition sessionRequest :: "Identity \<Rightarrow> Request" where
  "sessionRequest i = sampleRequest\<lparr>rqCookie := (\<lambda>k. if k = SessionCookie then Some (ckValue (sampleCookie i)) else None)\<rparr>"

lemma sessionRequest_path: "protectedPath (rqPath (sessionRequest i))"
  "cutPrefix (rqHeader (sessionRequest i) ''Authorization'') ''Bearer '' = None"
  by (simp_all add: sessionRequest_def sampleRequest_def protectedPath_def PublicPath_def go_str webexWebhookPath_def)

definition sampleUser :: Identity where
  "sampleUser = \<lparr>idSubject = ''user:bob'', idName = ''Bob'', idEmail = [], idRole = RoleOperator, idProvider = ''local'',
     idExpiresAt = 0, idIssuedAt = 0, idMustChange = False\<rparr>"

theorem ended_session_refused_witness:
  "case fst (run_state (Middleware (clocked (\<lambda>_ _. None) emptySettings noToken) sampleService (sessionRequest sampleUser)) (newHost userCache)) of
     Forward _ \<Rightarrow> False | _ \<Rightarrow> True"
proof -
  have t: "timely (clocked (\<lambda>_ _. None) emptySettings noToken) (\<lambda>w. w) (\<lambda>_ _. None) 0" by (rule clocked_timely) simp
  have c: "rqCookie (sessionRequest sampleUser) SessionCookie = Some (ckValue (sampleCookie sampleUser))"
    by (simp add: sessionRequest_def)
  have k: "ManagedUser (Some (stamped (svSessions sampleService) 0 sampleUser)) = Some ''bob''"
    by (simp add: ManagedUser_def stamped_def sampleUser_def userSubjectPrefix_def go_str)
  show ?thesis
    by (rule ended_session_refused [OF t newHost_served sessionRequest_path(1) sampleService_ttl(2) sessionRequest_path(2) c
        sampleCookie_verifies k, where ?t0.0 = 0]) (simp_all add: recordList_def newHost_def)
qed

theorem account_changes_committed_witness:
  "commits (\<lambda>w. w) usersSecretName (\<lambda>c d _. accounts c ''bob'' \<noteq> None \<and> accounts (Some d) = (accounts c)(''bob'' := None))
    (DeleteUser kept ''bob'')"
  using account_changes_committed [OF kept_optimistic kept_bcryptOK, where k = "''bob''"] by blast

theorem accounts_stay_well_formed_witness:
  "commits (\<lambda>w. w) usersSecretName keepsWellFormed (SetPassword kept ''bob'' ''correct horse'' False)"
  using accounts_stay_well_formed [OF kept_optimistic kept_bcryptOK] by blast

theorem LoadOrCreateKey_agrees_witness:
  "after (LoadOrCreateKey kept) (\<lambda>r h. case r of
      Inl _ \<Rightarrow> True
    | Inr key \<Rightarrow> \<exists>d. latest (outside h keySecretName) = Some d \<and> key = dataField keySecretKey d) (newHost (\<lambda>_. []))"
  by (rule LoadOrCreateKey_agrees [OF kept_optimistic]) (simp add: kept_def sampleAuthority_def)

lemma token_created:
  "\<exists>x h. run_state (CreateToken kept ''ci'' RoleViewer 0 ''bob'') (newHost (\<lambda>_. [])) = (Inr x, h)"
proof -
  define tok where "tok = TokenPrefix @ encodeBase64 (replicate 32 (CHR ''r''))"
  have ok: "tokenNameOK ''ci''" "knownRole RoleViewer"
    by (simp_all add: tokenNameOK_def namePattern_def alnum_def knownRole_def isDigit_def Let_def)
  have "tokenPrintable (newToken ''ci'' RoleViewer 0 ''bob'' 0 tok)"
  proof -
    have "hasTimeText 0" by code_simp
    moreover have "truncateTo second 0 = 0" by code_simp
    ultimately show ?thesis by (simp add: tokenPrintable_def newToken_def)
  qed
  then obtain data where d: "tokenText (newToken ''ci'' RoleViewer 0 ''bob'' 0 tok) = Some data" by (simp add: tokenText_def)
  have "run_state (retryOnConflict (moreAttempts kept) (putToken kept ''ci'' data)) (newHost (\<lambda>_. [])) =
      (Inr (), newHost ((\<lambda>_. [])(tokensSecretName := [Some [(''ci'', data)]])))"
    by (simp add: kept_def sampleAuthority_def putToken_def loadTokens_def loadRecords_def storeRecord_def attempt_def call_def
      apiCall_def latest_def newHost_def numeral_eq_Suc)
  with ok d show ?thesis
    by (simp add: CreateToken_def kept_def sampleAuthority_def toAuth_def attempt_def call_def tok_def [symmetric] newHost_def
      invalidateTokens_def changeHost_def)
qed

text \<open>The key of an account can be the address a client gives for itself.\<close>

lemma clientIP_account_key:
  "clientIP (sampleRequest\<lparr>rqHeader := (\<lambda>k. if k = ''X-Forwarded-For'' then ''account:bob'' else [])\<rparr>) = accountKey ''bob''"
  by (simp add: clientIP_def accountKey_def sampleRequest_def splitChar.simps toLower_def lowerChar_def trimSpace_def isSpace_def Let_def)

subsection \<open>Single sign-on\<close>

definition sampleTxn :: oidcTxn where
  "sampleTxn = \<lparr>txState = ''st'', txNonce = ''nonce'', txVerifier = ''verifier'', txRedirectURL = ''https://costdeck/api/auth/entra/callback'',
     txReturnTo = ''/groups'', txExpiresAt = 600\<rparr>"

lemma sampleTxn_fields: "txState sampleTxn = ''st''" "txReturnTo sampleTxn = ''/groups''" "txExpiresAt sampleTxn = 600"
  by (simp_all add: sampleTxn_def)

definition txnToken :: string where
  "txnToken = (case Sign (svSessions sampleService) (Some (structText (txnFields sampleTxn))) of Inr v \<Rightarrow> v | Inl _ \<Rightarrow> [])"

lemma txnToken_signed: "Sign (svSessions sampleService) (Some (structText (txnFields sampleTxn))) = Inr txnToken"
  by (simp add: txnToken_def Sign_def)

definition callbackRequest :: Request where
  "callbackRequest = sampleRequest\<lparr>rqPath := CallbackPath, rqCookie := (\<lambda>_. Some txnToken)\<rparr>"

lemma callbackRequest_opens:
  assumes "timeNow api = State_Monad.get" "outside h \<le> 600 * second"
  shows "run_state (openTxn api sampleService cookie callbackRequest ''st'' [] errDesc) h = (Inr (sampleTxn, safeReturnPath api ''/groups''), h)"
proof -
  have "Verify (svSessions sampleService) readTxn txnToken = Inr sampleTxn"
    using Verify_Sign [OF txnToken_signed, of readTxn] readTxn_text [of sampleTxn] by (simp add: sampleTxn_def)
  moreover have "\<not> 600 < unixOf (outside h)" using unixOf_mono [OF assms(2)] by (simp add: unixOf_def)
  ultimately show ?thesis
    using assms(1) by (simp add: openTxn_def call_def callbackRequest_def) (simp add: sampleTxn_def)
qed

lemma clockAt_clocked: "clockAt (clocked S settings tok) (newHost w) = w"
  by (simp add: clockAt_def clocked_simps newHost_def)

theorem started_sign_in_completes_witness:
  "fst (run_state (openTxn (clocked (\<lambda>_ _. None) emptySettings noToken) sampleService txnCookie callbackRequest ''st'' [] []) (newHost 0))
    = Inr (sampleTxn, safeReturnPath (clocked (\<lambda>_ _. None) emptySettings noToken) ''/groups'')"
proof -
  have c: "rqCookie callbackRequest txnCookie = Some txnToken" by (simp add: callbackRequest_def)
  have "\<bar>txExpiresAt sampleTxn\<bar> \<le> 2 ^ 53" "txState sampleTxn \<noteq> []" by (simp_all add: sampleTxn_def)
  from started_sign_in_completes [OF txnToken_signed c this, of "clocked (\<lambda>_ _. None) emptySettings noToken" "[]" "newHost 0"]
  show ?thesis by (simp add: clockAt_clocked sampleTxn_fields unixOf_def)
qed

theorem cookies_not_interchangeable_witness:
  "(case Read (svSessions sampleService) (sampleRequest\<lparr>rqCookie := (\<lambda>_. Some txnToken)\<rparr>) 0 of Inl _ \<Rightarrow> True | Inr _ \<Rightarrow> False)
   \<and> (case fst (run_state (openTxn (clocked (\<lambda>_ _. None) emptySettings noToken) sampleService txnCookie
        (sampleRequest\<lparr>rqCookie := (\<lambda>_. Some (ckValue (sampleCookie sampleUser)))\<rparr>) ''st'' [] []) (newHost 0)) of
      Inl _ \<Rightarrow> True | Inr _ \<Rightarrow> False)"
  by (rule cookies_not_interchangeable [OF _ sampleService_ttl(1) _ sampleCookie_issued [of sampleRequest] txnToken_signed refl])
    (simp_all add: clockRange_def sampleTxn_def)

definition sampleEntra :: EntraConfig where
  "sampleEntra = \<lparr>enEnabled = True, enTenantID = ''contoso'', enClientID = ''costdeck'', enClientSecretRef = [], enRedirectURL = [],
     enAuthorityHost = [], enDefaultRole = ''viewer'', enAutoProvision = None, enGroupRoleMapping = [''g1'' \<mapsto> ''operator''],
     enSkipSSLVerify = False\<rparr>"

definition sampleOIDC :: OIDCConfig where
  "sampleOIDC = \<lparr>ocEnabled = True, ocDisplayName = [], ocIssuerURL = ''https://idp'', ocClientID = ''costdeck'', ocClientSecretRef = [],
     ocRedirectURL = [], ocScopes = [], ocGroupsClaim = [], ocRolesClaim = [], ocRoleMapping = Map.empty, ocDefaultRole = ''viewer'',
     ocAutoProvision = None, ocGroupRoleMapping = [''g1'' \<mapsto> ''operator''], ocSkipSSLVerify = False\<rparr>"

definition provider :: "(time, unit) authority" where
  "provider = clocked (\<lambda>_ _. None) \<lparr>acEntra = Some sampleEntra, acOIDC = Some sampleOIDC, acDisableLocalLogin = False\<rparr>
     \<lparr>itNonce = ''nonce'', itClaims = JObj [(''sub'', JStr ''u1''), (''groups'', JArr [JStr ''g1''])]\<rparr>"

lemma sample_roles:
  "mappedRole [''g1'' \<mapsto> ''operator''] ''g1'' = Some RoleOperator" "mappedRole [''g1'' \<mapsto> ''operator''] ''/g1'' = None"
  by (simp_all add: mappedRole_def ParseRole_def RoleOperator_def toLower_def lowerChar_def go_str Let_def)

lemma Entra_signs_in: "\<exists>i ret h. run_state (completeEntra provider sampleService callbackRequest ''code'' ''st'' [] []) (newHost 0) = (Inr (i, ret), h)
    \<and> idRole i = RoleOperator"
proof -
  have o': "run_state (openTxn provider sampleService txnCookie callbackRequest ''st'' [] []) (newHost 0)
      = (Inr (sampleTxn, safeReturnPath provider ''/groups''), newHost 0)"
    by (rule callbackRequest_opens) (simp_all add: provider_def clocked_simps newHost_def)
  have mt: "\<not> multiTenant ''contoso''" by (simp add: multiTenant_def toLower_def lowerChar_def)
  then have r: "ResolveRole sampleEntra [''g1''] [] = Some RoleOperator"
    by (simp add: ResolveRole_def sampleEntra_def sample_roles raise_def Higher_def roleRank_def role_defs)
  have "\<exists>c. readClaims (JObj [(''sub'', JStr ''u1''), (''groups'', JArr [JStr ''g1''])]) = Some c \<and> ecGroups c = [''g1''] \<and> ecRoles c = []"
    by (simp add: readClaims_def claimNames_def fieldNamed_def)
  then obtain c where c: "readClaims (JObj [(''sub'', JStr ''u1''), (''groups'', JArr [JStr ''g1''])]) = Some c" "ecGroups c = [''g1'']" "ecRoles c = []" by blast
  have x: "txNonce sampleTxn = ''nonce''" "enTenantID sampleEntra = ''contoso''" by (simp_all add: sampleTxn_def sampleEntra_def)
  have s: "run_state (entraSettings provider) (newHost 0) = (Inr (Some (sampleEntra, [])), newHost 0)"
    by (simp add: entraSettings_def enabledEntra_def readSettings_def clientSecret_def attempt_def call_def provider_def clocked_simps newHost_def)
      (simp add: sampleEntra_def)
  obtain h where p: "run_state (entraProvider provider sampleEntra) (newHost 0) = (Inr 0, h)"
    by (simp add: entraProvider_def Let_def cachedProvider_def call_def changeHost_def provider_def clocked_simps newHost_def)
  have v: "run_state (verifyEntra provider 0 sampleEntra ''jwt'' (txNonce sampleTxn)) h = (Inr c, h)"
    using c by (simp add: verifyEntra_def toAuth_def attempt_def call_def provider_def clocked_simps x mt)
  have e: "run_state (call (exchangeCode provider 0 a k vf)) h = (Inr ''jwt'', h)" for a k vf
    by (simp add: call_def provider_def clocked_simps)
  have "run_state (completeEntra provider sampleService callbackRequest ''code'' ''st'' [] []) (newHost 0)
      = (Inr (entraIdentity c RoleOperator, safeReturnPath provider ''/groups''), h)"
    by (simp add: completeEntra_def attempt_def o' s p v e r c)
  moreover have "idRole (entraIdentity c RoleOperator) = RoleOperator" by (simp add: entraIdentity_def)
  ultimately show ?thesis by blast
qed

lemma clockAt_provider: "clockAt provider (newHost 0) = 0"
  by (simp add: provider_def clockAt_clocked)


lemma OIDC_signs_in: "\<exists>i ret h. run_state (completeOIDC provider sampleService callbackRequest ''code'' ''st'' [] []) (newHost 0) = (Inr (i, ret), h)
    \<and> idRole i = RoleOperator"
proof -
  have o': "run_state (openTxn provider sampleService oidcTxnCookie callbackRequest ''st'' [] []) (newHost 0)
      = (Inr (sampleTxn, safeReturnPath provider ''/groups''), newHost 0)"
    by (rule callbackRequest_opens) (simp_all add: provider_def clocked_simps newHost_def)
  let ?j = "JObj [(''sub'', JStr ''u1''), (''groups'', JArr [JStr ''g1''])]"
  have "ClaimStrings ?j ''groups'' = [''g1'']" by (simp add: ClaimStrings_def splitChar.simps)
  then have r: "oidcClaimRole sampleOIDC ?j = Some RoleOperator"
    by (simp add: oidcClaimRole_def ResolveOIDCRole_def groupKeys_def sampleOIDC_def sample_roles raise_def Higher_def
      roleRank_def role_defs trimPrefix_def cutPrefix_def hasPrefix_def Let_def)
  have s: "run_state (oidcSettings provider) (newHost 0) = (Inr (Some (sampleOIDC, [])), newHost 0)"
    by (simp add: oidcSettings_def enabledOIDC_def readSettings_def clientSecret_def attempt_def call_def provider_def clocked_simps newHost_def)
      (simp add: sampleOIDC_def)
  obtain h where p: "run_state (oidcProvider provider sampleOIDC) (newHost 0) = (Inr 0, h)"
    by (simp add: oidcProvider_def Let_def cachedProvider_def call_def changeHost_def provider_def clocked_simps newHost_def)
  have e: "run_state (call (exchangeCode provider 0 a k vf)) h = (Inr ''jwt'', h)" for a k vf
    by (simp add: call_def provider_def clocked_simps)
  have v: "run_state (call (verifyIDToken provider 0 k False ''jwt'')) h = (Inr \<lparr>itNonce = ''nonce'', itClaims = ?j\<rparr>, h)" for k
    by (simp add: call_def provider_def clocked_simps)
  have "run_state (completeOIDC provider sampleService callbackRequest ''code'' ''st'' [] []) (newHost 0)
      = (Inr (oidcIdentity ?j RoleOperator, safeReturnPath provider ''/groups''), h)"
    by (simp add: completeOIDC_def attempt_def o' s p v e r) (simp add: sampleTxn_def)
  moreover have "idRole (oidcIdentity ?j RoleOperator) = RoleOperator" by (simp add: oidcIdentity_def)
  ultimately show ?thesis by blast
qed

theorem OIDC_identity_verified_witness:
  "\<exists>i ret t cfg. openedTxn sampleService oidcTxnCookie callbackRequest ''st'' 0 t \<and> ret = safeReturnPath provider (txReturnTo t)
    \<and> ocEnabled (cfg :: OIDCConfig) \<and> Ex (verifiedToken provider (ocClientID cfg) False (txNonce t)) \<and> idRole (i :: Identity) = RoleOperator"
proof -
  obtain i ret h where "run_state (completeOIDC provider sampleService callbackRequest ''code'' ''st'' [] []) (newHost 0) = (Inr (i, ret), h)"
    "idRole i = RoleOperator" using OIDC_signs_in by blast
  note r = this and v = OIDC_identity_verified [OF this(1), unfolded clockAt_provider]
  show ?thesis
    using v
  proof (elim exE conjE, goal_cases)
    case (1 t cfg j)
    show ?case
      by (rule exI [of _ i], rule exI [of _ ret], rule exI [of _ t], rule exI [of _ cfg], intro conjI 1 r(2), rule exI [of _ j], intro 1)
  qed
qed

theorem Issue_Read_witness:
  "Read (svSessions sampleService) (sessionRequest sampleUser) (11 * hour) = Inr (stamped (svSessions sampleService) 0 sampleUser)"
proof -
  let ?c = "sampleCookie sampleUser\<lparr>ckSecure := isHTTPS sampleRequest\<rparr>"
  have "ckName ?c = SessionCookie" by (simp add: sampleCookie_def Issue_def Sign_def identityText_def)
  then have c: "rqCookie (sessionRequest sampleUser) (ckName ?c) = Some (ckValue ?c)" by (simp add: sessionRequest_def)
  have "clockRange 0" "knownRole (idRole sampleUser)" by (simp_all add: clockRange_def sampleUser_def knownRole_def)
  from Issue_Read [OF sampleCookie_issued c this(1) sampleService_ttl(1) this(2)] show ?thesis
    by (simp add: unixOf_def sessionTTL_def)
qed

theorem pruneSignIns_kept_witness:
  "length (pruneSignIns (map (\<lambda>n. (replicate n (CHR ''k''), [])) [0..<501])) = 500"
proof -
  have "map fst (map (\<lambda>n. (replicate n (CHR ''k''), [] :: string)) [0..<501]) = map (\<lambda>n. replicate n (CHR ''k'')) [0..<501]" by simp
  moreover have "inj_on (\<lambda>n. replicate n (CHR ''k'')) (set [0..<501])" by (rule inj_onI) (metis length_replicate)
  ultimately have "distinct (map fst (map (\<lambda>n. (replicate n (CHR ''k''), [] :: string)) [0..<501]))"
    by (simp only: distinct_map distinct_upt simp_thms)
  from pruneSignIns_kept [OF this] show ?thesis by (simp add: maxSignIns_def)
qed

theorem token_changes_committed_witness:
  "\<exists>token info h d. run_state (CreateToken kept ''ci'' RoleViewer 0 ''bob'') (newHost (\<lambda>_. [])) = (Inr (token, info), h)
    \<and> latest (outside h tokensSecretName) = Some d \<and> tokenMap (Some d) ''ci'' \<noteq> None"
proof -
  obtain x h where r: "run_state (CreateToken kept ''ci'' RoleViewer 0 ''bob'') (newHost (\<lambda>_. [])) = (Inr x, h)" using token_created by blast
  obtain token info where x: "x = (token, info)" by fastforce
  from commitsD [OF conjunct1 [OF token_changes_committed [OF kept_optimistic]] r] x
  show ?thesis using r by (fastforce simp: latest_def)
qed

end
