(* ===== verification/GoDuration.thy ===== *)
theory GoDuration
  imports StoredText
begin

section \<open>Prelude: reading durations and times in RFC 3339\<close>

text \<open>
  \<open>time.ParseDuration\<close> and \<open>time.Parse(time.RFC3339, _)\<close>. A duration is a sum of decimal numbers with
  units, kept in 64 bits with the checks of the library. The library multiplies a fraction by a
  quotient of two \<open>float64\<close>; the model takes the exact product, rounded down, which is the same for
  fractions of up to nine digits. Reading a time this way is more lenient than reading one in JSON:
  an hour may have one digit, a comma may start the fraction, and an offset of a whole day is let
  through.
\<close>

subsection \<open>Durations\<close>

text \<open>\<open>leadingInt\<close>: the digits at the front, an error beyond \<open>1<<63\<close>.\<close>

fun leadingInt :: "nat \<Rightarrow> string \<Rightarrow> (nat \<times> string) option" where
  "leadingInt x [] = Some (x, [])"
| "leadingInt x (c # cs) =
     (if \<not> isDigit c then Some (x, c # cs)
      else if 2 ^ 63 div 10 < x then None
      else let y = 10 * x + digitVal c in if 2 ^ 63 < y then None else leadingInt y cs)"

text \<open>\<open>leadingFraction\<close>: the digits as a number with its scale; digits that no longer fit are skipped.\<close>

fun leadingFraction :: "nat \<Rightarrow> nat \<Rightarrow> bool \<Rightarrow> string \<Rightarrow> nat \<times> nat \<times> string" where
  "leadingFraction x scale full [] = (x, scale, [])"
| "leadingFraction x scale full (c # cs) =
     (if \<not> isDigit c then (x, scale, c # cs)
      else if full \<or> (2 ^ 63 - 1) div 10 < x then leadingFraction x scale True cs
      else let y = 10 * x + digitVal c
           in if 2 ^ 63 < y then leadingFraction x scale True cs else leadingFraction y (10 * scale) False cs)"

definition unitOf :: "string \<Rightarrow> nat option" where
  "unitOf = map_of [(''ns'', 1), (''us'', 1000), ([CHR 0xC2, CHR 0xB5, CHR ''s''], 1000),
     ([CHR 0xCE, CHR 0xBC, CHR ''s''], 1000), (''ms'', 1000000), (''s'', 1000000000),
     (''m'', 60000000000), (''h'', 3600000000000)]"

text \<open>One number with its unit, in nanoseconds, and the text after it.\<close>

definition durationItem :: "string \<Rightarrow> (nat \<times> string) option" where
  "durationItem s =
     (if s = [] \<or> \<not> (hd s = CHR ''.'' \<or> isDigit (hd s)) then None
      else Option.bind (leadingInt 0 s) (\<lambda>(v, r).
        let point = r \<noteq> [] \<and> hd r = CHR ''.'';
            (f, scale, q) = (if point then leadingFraction 0 1 False (tl r) else (0, 1, r));
            digits = length r \<noteq> length s \<or> (point \<and> length q \<noteq> length (tl r));
            u = takeWhile (\<lambda>c. \<not> (c = CHR ''.'' \<or> isDigit c)) q
        in if \<not> digits \<or> u = [] then None
           else Option.bind (unitOf u) (\<lambda>unit.
             if 2 ^ 63 div unit < v then None
             else let w = v * unit + f * unit div scale
                  in if 2 ^ 63 < w then None else Some (w, drop (length u) q))))"

lemma leadingInt_length: "leadingInt x s = Some (v, r) \<Longrightarrow> length r \<le> length s"
  by (induction x s rule: leadingInt.induct) (auto simp: Let_def split: if_splits)

lemma leadingFraction_length: "leadingFraction x scale full s = (f, d, r) \<Longrightarrow> length r \<le> length s"
  by (induction x scale full s rule: leadingFraction.induct) (auto simp: Let_def split: if_splits)

lemma durationItem_length [termination_simp]:
  assumes "durationItem s = Some (w, r)"
  shows "length r < length s"
proof -
  obtain v p where p: "leadingInt 0 s = Some (v, p)"
    using assms by (auto simp: durationItem_def split: if_splits Option.bind_splits)
  define t where "t = (if p \<noteq> [] \<and> hd p = CHR ''.'' then leadingFraction 0 1 False (tl p) else (0, 1, p))"
  obtain f d q where t: "t = (f, d, q)" by (cases t) auto
  have q: "length q \<le> length s"
    using t leadingInt_length [OF p] leadingFraction_length [of 0 1 False "tl p" f d q]
    by (auto simp: t_def split: if_splits)
  define u where "u = takeWhile (\<lambda>c. \<not> (c = CHR ''.'' \<or> isDigit c)) q"
  have "u \<noteq> [] \<and> r = drop (length u) q"
    using assms by (simp add: durationItem_def p Let_def t [unfolded t_def] u_def split: if_splits Option.bind_splits)
  moreover have "length u \<le> length q" by (simp add: u_def length_takeWhile_le)
  ultimately show ?thesis using q by (cases u) auto
qed

fun durationItems :: "nat \<Rightarrow> string \<Rightarrow> nat option" where
  "durationItems d s =
     (if s = [] then Some d
      else case durationItem s of
             None \<Rightarrow> None
           | Some (w, r) \<Rightarrow> if 2 ^ 63 < d + w then None else durationItems (d + w) r)"

declare durationItems.simps [simp del]

text \<open>\<open>time.ParseDuration\<close>.\<close>

definition ParseDuration :: "string \<Rightarrow> duration option" where
  "ParseDuration s =
     (let signed = s \<noteq> [] \<and> (hd s = CHR ''-'' \<or> hd s = CHR ''+'');
          neg = signed \<and> hd s = CHR ''-'';
          r = (if signed then tl s else s)
      in if r = ''0'' then Some 0
         else if r = [] then None
         else Option.bind (durationItems 0 r) (\<lambda>d.
           if neg then Some (- int d) else if 2 ^ 63 - 1 < d then None else Some (int d)))"

lemma durationItems_bound: "durationItems d s = Some n \<Longrightarrow> d \<le> 2 ^ 63 \<Longrightarrow> n \<le> 2 ^ 63"
proof (induction d s rule: durationItems.induct)
  case (1 d s)
  then show ?case
    by (subst (asm) durationItems.simps) (auto split: if_splits option.splits prod.splits)
qed

text \<open>What it reads fits a \<open>time.Duration\<close>.\<close>

lemma ParseDuration_range: "ParseDuration s = Some d \<Longrightarrow> - (2 ^ 63) \<le> d \<and> d < 2 ^ 63"
  by (auto simp: ParseDuration_def Let_def split: if_splits Option.bind_splits dest!: durationItems_bound)

subsection \<open>Times\<close>

definition lenientFraction :: "string \<Rightarrow> int \<times> string" where
  "lenientFraction s =
     (case s of
        c # ds \<Rightarrow> if (c = CHR ''.'' \<or> c = CHR '','') \<and> takeWhile isDigit ds \<noteq> []
                  then (int (readNat (take 9 (takeWhile isDigit ds @ replicate 9 (CHR ''0'')))), dropWhile isDigit ds)
                  else (0, s)
      | [] \<Rightarrow> (0, s))"

definition lenientZone :: "string \<Rightarrow> int option" where
  "lenientZone s =
     (case s of
        [] \<Rightarrow> None
      | c # cs \<Rightarrow>
          if c = CHR ''Z'' then (if cs = [] then Some 0 else None)
          else if c \<noteq> CHR ''+'' \<and> c \<noteq> CHR ''-'' then None
          else Option.bind (getnum True cs) (\<lambda>(h, r).
               Option.bind (skipChar CHR '':'' r) (\<lambda>r1.
               Option.bind (getnum True r1) (\<lambda>(m, r2).
               if 24 < h \<or> 60 < m \<or> r2 \<noteq> [] then None
               else Some ((if c = CHR ''-'' then -1 else 1) * (h * 3600 + m * 60))))))"

definition parseRFC3339 :: "string \<Rightarrow> time option" where
  "parseRFC3339 s =
     Option.bind (parseYMD s) (\<lambda>((y, m, d), r).
     Option.bind (skipChar CHR ''T'' r) (\<lambda>r1.
     Option.bind (getnum False r1) (\<lambda>(h, r2).
     Option.bind (skipChar CHR '':'' r2) (\<lambda>r3.
     Option.bind (getnum True r3) (\<lambda>(mi, r4).
     Option.bind (skipChar CHR '':'' r4) (\<lambda>r5.
     Option.bind (getnum True r5) (\<lambda>(se, r6).
     case lenientFraction r6 of (ns, r7) \<Rightarrow>
     Option.bind (lenientZone r7) (\<lambda>off.
     if 24 \<le> h \<or> 60 \<le> mi \<or> 60 \<le> se \<or> d < 1 \<or> daysIn m y < d then None
     else Some ((dayNumber y m d * 86400 + h * 3600 + mi * 60 + se - off) * second + ns)))))))))"

text \<open>Without its fraction a time prints as the second it is in.\<close>

lemma formatRFC3339_text: "formatRFC3339 t = timeText (t - t mod second)"
proof -
  have d: "(t - t mod second) div second = t div second"
    by (simp add: minus_mod_eq_mult_div)
  have m: "(t - t mod second) mod second = 0"
    by (simp add: minus_mod_eq_mult_div)
  have "padded 9 0 = replicate 9 (CHR ''0'')"
  proof -
    have "itoa 0 = [CHR ''0'']" by (simp add: itoa_def showNat.simps digitChar_def, code_simp)
    moreover have "replicate 8 c @ [c] = replicate (Suc 8) c" for c :: char
      by (simp only: replicate_append_same replicate_Suc)
    ultimately show ?thesis by (simp add: padded_def)
  qed
  then have f: "fractionText 0 = []" by (simp add: fractionText_def)
  show ?thesis by (simp add: formatRFC3339_def timeText_def d m f Let_def split: prod.split)
qed

lemma getnum_lenient: "getnum True s = Some x \<Longrightarrow> getnum False s = Some x"
  by (auto simp: getnum_def split: list.splits if_splits)

lemma parseZone_lenient: "parseZone s = Some off \<Longrightarrow> lenientZone s = Some off"
  by (auto simp: parseZone_def lenientZone_def split: list.splits if_splits Option.bind_splits)

lemma parseFraction_lenient: "parseFraction s = (n, r) \<Longrightarrow> parseZone r = Some off \<Longrightarrow> lenientFraction s = (n, r)"
  by (auto simp: parseFraction_def lenientFraction_def parseZone_def split: list.splits if_splits)

lemma parseRFC3339_strict:
  assumes "parseTimeText s = Some t"
  shows "parseRFC3339 s = Some t"
proof -
  from assms obtain y m d r r1 h r2 r3 mi r4 r5 se r6 where p:
    "parseYMD s = Some ((y, m, d), r)" "skipChar CHR ''T'' r = Some r1" "getnum True r1 = Some (h, r2)"
    "skipChar CHR '':'' r2 = Some r3" "getnum True r3 = Some (mi, r4)" "skipChar CHR '':'' r4 = Some r5"
    "getnum True r5 = Some (se, r6)"
    by (auto simp: parseTimeText_def bind_eq_Some_conv)
  obtain ns r7 where f: "parseFraction r6 = (ns, r7)" by fastforce
  from assms p f obtain off where z: "parseZone r7 = Some off"
    by (auto simp: parseTimeText_def bind_eq_Some_conv)
  show ?thesis
    using assms
    by (simp add: parseRFC3339_def parseTimeText_def p f z getnum_lenient [OF p(3)] parseFraction_lenient [OF f z]
        parseZone_lenient [OF z])
qed

text \<open>A time printed without its fraction reads as the second it is in.\<close>

lemma parseRFC3339_format:
  assumes "hasTimeText t"
  shows "parseRFC3339 (formatRFC3339 t) = Some (t - t mod second)"
proof -
  have "(t - t mod second) div second = t div second"
    by (simp add: minus_mod_eq_mult_div)
  with assms have "hasTimeText (t - t mod second)" by (simp add: hasTimeText_def)
  then show ?thesis
    unfolding formatRFC3339_text by (intro parseRFC3339_strict parse_timeText)
qed

end
