(* ===== verification/Upkeep.thy ===== *)
theory Upkeep
  imports GoDuration Release
begin

section \<open>The boundary of the upkeep of namespaces\<close>

text \<open>
  The cleanup of preview namespaces and the right-sizing of workloads call the cluster beside what
  the scaling engine calls: the operator's configuration, its ConfigMaps, namespaces with their
  labels and times, the record of changed workloads, pods with the states of their containers, and
  the alerts of internal/notify. These calls are one record, with the calls of the scaling engine
  as a field of it; nothing is assumed about their answers. A selector is what it matches and
  whether it is empty, a quantity its value and its text.
\<close>

record Quantity =
  qValue :: rat
  qText :: string                                    \<comment> \<open>\<open>String()\<close>\<close>

text \<open>A container: its name, its requests and limits by resource, and the rest of it.\<close>

record Container =
  ctName :: string
  ctRequests :: "(string \<times> Quantity) list"
  ctLimits :: "(string \<times> Quantity) list"
  ctRest :: json

record ContainerStatus =
  csName :: string
  csRestarts :: int
  csTerminated :: "string option"                    \<comment> \<open>reason of the last termination\<close>
  csWaiting :: "string option"

record ObservedPod =
  opName :: string
  opCreated :: time
  opContainers :: "ContainerStatus list"

record 'w upkeep =
  cluster :: "'w api"
  getCostDeckConfig :: "('w, CostDeckConfig reply) state"
  getConfigMap :: "string \<Rightarrow> string \<Rightarrow> ('w, ConfigMap reply) state"
  createConfigMap :: "ConfigMap \<Rightarrow> ('w, unit reply) state"
  updateConfigMap :: "ConfigMap \<Rightarrow> ('w, unit reply) state"
  parseLabels :: "string \<Rightarrow> string + bool \<times> ((string \<rightharpoonup> string) \<Rightarrow> bool)"   \<comment> \<open>\<open>labels.Parse\<close>\<close>
  listSelected :: "((string \<rightharpoonup> string) \<Rightarrow> bool) \<Rightarrow> ('w, PreviewNamespace list reply) state"
  patchNamespace :: "string \<Rightarrow> json \<Rightarrow> ('w, unit reply) state"
  deleteNamespace :: "string \<Rightarrow> string \<Rightarrow> ('w, unit reply) state"   \<comment> \<open>with the UID it must have\<close>
  sendNotice :: "(string \<Rightarrow> string \<Rightarrow> ('w, string list reply) state) option"
  mayDelete :: "('w, bool reply) state option"       \<comment> \<open>\<open>SelfSubjectAccessReview\<close>\<close>
  getDeployment :: "string \<Rightarrow> string \<Rightarrow> ('w, AppWorkload reply) state"
  listObservedPods :: "string \<Rightarrow> LabelSelector \<Rightarrow> ('w, ObservedPod list reply) state"
  getOptimization :: "string \<Rightarrow> string \<Rightarrow> ('w, NamespaceOptimization reply) state"
  createOptimization :: "NamespaceOptimization \<Rightarrow> ('w, NamespaceOptimization reply) state"
  updateOptimizationStatus :: "NamespaceOptimization \<Rightarrow> ('w, unit reply) state"
  listOptimizations :: "string \<Rightarrow> ('w, NamespaceOptimization list reply) state"
  parseQuantity :: "string \<Rightarrow> Quantity option"      \<comment> \<open>\<open>resource.ParseQuantity\<close>\<close>
  readContainer :: "json \<Rightarrow> Container option"        \<comment> \<open>\<open>FromUnstructured\<close>\<close>
  writeContainer :: "Container \<Rightarrow> string + json"     \<comment> \<open>\<open>ToUnstructured\<close>\<close>
  podContainers :: "json \<Rightarrow> Container list"          \<comment> \<open>\<open>Spec.Containers\<close> of a pod template\<close>
  withPodContainers :: "Container list \<Rightarrow> json \<Rightarrow> json"   \<comment> \<open>and its assignment\<close>
  selectorLeft :: "json \<Rightarrow> LabelSelector"            \<comment> \<open>what \<open>FromUnstructured\<close> leaves, errors ignored\<close>
  moreTries :: nat                                   \<comment> \<open>of \<open>retry.DefaultBackoff\<close>, after the first\<close>

text \<open>\<open>config.OperatorNamespace\<close> and \<open>config.Get\<close>: a missing configuration is an empty one.\<close>

definition operatorNamespace :: "'w upkeep \<Rightarrow> string" where
  "operatorNamespace up = OperatorNamespace (cluster up)"

definition emptyCostDeckConfig :: CostDeckConfig where
  "emptyCostDeckConfig =
     \<lparr>cdNamespaceTTL = \<lparr>ntEnabled = False, ntDryRun = False, ntSelector = [], ntTTL = None, ntWarnBefore = None\<rparr>,
      cdGuardMinutes = 0\<rparr>"

definition readCostDeckConfig :: "'w upkeep \<Rightarrow> ('w, CostDeckConfig reply) io" where
  "readCostDeckConfig up =
     do { r \<leftarrow> ask (getCostDeckConfig up);
          State_Monad.return
            (case r of
               Inl e \<Rightarrow> if IsNotFound e then Inr emptyCostDeckConfig
                        else Inl (Wrap (''get CostDeckConfig '' @ operatorNamespace up @ ''/default'') e)
             | Inr cfg \<Rightarrow> Inr cfg) }"

text \<open>An alert of internal/notify (\<open>Sender.Send\<close>), when there is a dispatcher.\<close>

definition notice :: "'w upkeep \<Rightarrow> string \<Rightarrow> string \<Rightarrow> ('w, unit reply) io" where
  "notice up event msg =
     (case sendNotice up of
        None \<Rightarrow> State_Monad.return (Inr ())
      | Some send \<Rightarrow> attempt (act (SendNotice event msg) (send event msg)) (\<lambda>_. State_Monad.return (Inr ())))"

text \<open>\<open>retry.OnError\<close>: again while the error is one to retry and attempts are left.\<close>

fun retryOnError :: "nat \<Rightarrow> ('e \<Rightarrow> bool) \<Rightarrow> ('w, 'e + 'a) io \<Rightarrow> ('w, 'e + 'a) io" where
  "retryOnError 0 retriable m = m"
| "retryOnError (Suc n) retriable m =
     do { r \<leftarrow> m;
          case r of
            Inl e \<Rightarrow> if retriable e then retryOnError n retriable m else State_Monad.return (Inl e)
          | Inr x \<Rightarrow> State_Monad.return (Inr x) }"

subsection \<open>What they ask for\<close>

lemma readCostDeckConfig_reads: "reads (readCostDeckConfig up)"
  by (rule readsI) (auto simp: readCostDeckConfig_def intro!: only_intros)

lemma readCostDeckConfig_answers:
  "gives (readCostDeckConfig up) (\<lambda>r cs. cs = [] \<and> (\<forall>cfg. r = Inr cfg \<longrightarrow>
     cfg = emptyCostDeckConfig \<or> Inr cfg \<in> set_state (getCostDeckConfig up)))"
  unfolding readCostDeckConfig_def by (intro wp) (auto split: sum.splits)

lemma notice_only: "P (SendNotice event msg) \<Longrightarrow> only P (notice up event msg)"
  unfolding notice_def by (auto intro!: only_intros split: option.split)

lemma retryOnError_only: "only P m \<Longrightarrow> only P (retryOnError n retriable m)"
  by (induction n) (auto intro!: only_intros split: sum.split)

text \<open>With what is known of what was read.\<close>

lemma only_attempt_after:
  assumes "gives m (\<lambda>r cs. cs = [] \<and> (\<forall>x. r = Inr x \<longrightarrow> A x))" "\<And>x. A x \<Longrightarrow> only P (f x)"
  shows "only P (attempt m f)"
  unfolding only_def
  by (rule gives_attempt, rule gives_mono [OF assms(1)])
     (auto simp: only_def [symmetric] intro: assms(2) split: sum.split)

lemma only_ask_after: "(\<And>x. x \<in> set_state m \<Longrightarrow> only P (f x)) \<Longrightarrow> only P (ask m \<bind> f)"
  unfolding only_def by (rule gives_bind, rule gives_ask) simp

end
