(* ===== verification/Jvm.thy ===== *)
theory Jvm
  imports Complex_Main GoBase
begin

section \<open>Java containers (internal/jvm/jvm.go)\<close>

text \<open>
  Whether a container runs a JVM, the options it starts with, the heap these give under a memory
  limit, what is wrong with the setup and a plan for a better one. Sizes are rational numbers, where
  the code has a \<open>float64\<close>. How package strconv reads and fmt prints a float, and how
  apimachinery prints a quantity, are parameters.
\<close>

record numberText =
  readFloat :: "string \<Rightarrow> rat option"               \<comment> \<open>\<open>strconv.ParseFloat\<close>; none also for no number and infinities\<close>
  showFloat :: "rat \<Rightarrow> string"                      \<comment> \<open>\<open>%g\<close>\<close>
  binaryText :: "int \<Rightarrow> string"                     \<comment> \<open>\<open>NewQuantity(_, BinarySI).String()\<close>\<close>
  milliText :: "int \<Rightarrow> string"                      \<comment> \<open>\<open>NewMilliQuantity(_, DecimalSI).String()\<close>\<close>

subsection \<open>Constants\<close>

abbreviation RuntimeJava :: string where "RuntimeJava \<equiv> ''java''"
abbreviation RuntimeNone :: string where "RuntimeNone \<equiv> ''none''"
abbreviation DetectedByAnnotation :: string where "DetectedByAnnotation \<equiv> ''annotation''"
abbreviation DetectedByCommand :: string where "DetectedByCommand \<equiv> ''command''"
abbreviation DetectedByOptions :: string where "DetectedByOptions \<equiv> ''options''"
abbreviation DetectedByImage :: string where "DetectedByImage \<equiv> ''image''"
abbreviation DetectedByMetrics :: string where "DetectedByMetrics \<equiv> ''metrics''"
abbreviation SeverityRisk :: string where "SeverityRisk \<equiv> ''risk''"
abbreviation SeverityWaste :: string where "SeverityWaste \<equiv> ''waste''"
abbreviation SeverityNote :: string where "SeverityNote \<equiv> ''note''"
abbreviation CodeHeapOversized :: string where "CodeHeapOversized \<equiv> ''heap-oversized''"
abbreviation CodeHeapTight :: string where "CodeHeapTight \<equiv> ''heap-tight''"
abbreviation CodeHeapOverLimit :: string where "CodeHeapOverLimit \<equiv> ''heap-over-limit''"

abbreviation mebibyte :: rat where "mebibyte \<equiv> 1048576"

text \<open>The built-in heap is divided as an integer constant.\<close>

definition defaultMaxRAMPercentage :: rat where "defaultMaxRAMPercentage = 25"
definition defaultMinRAMPercentage :: rat where "defaultMinRAMPercentage = 50"
definition builtInMaxHeapSize :: rat where "builtInMaxHeapSize = 130862284"
definition minimumNativeMemory :: rat where "minimumNativeMemory = 128 * mebibyte"
definition nativeShareOfHeap :: rat where "nativeShareOfHeap = 1 / 4"
definition threadsAndBuffers :: rat where "threadsAndBuffers = 64 * mebibyte"
definition observedNonHeapHeadroom :: rat where "observedNonHeapHeadroom = 12 / 10"
definition liveSetMultiple :: rat where "liveSetMultiple = 2"
definition minimumHeap :: rat where "minimumHeap = 128 * mebibyte"
definition serverClassMemory :: rat where "serverClassMemory = 1792 * mebibyte"
abbreviation serverClassProcessors :: int where "serverClassProcessors \<equiv> 2"
definition tightHeapShare :: rat where "tightHeapShare = 8 / 10"
definition oversizedHeapShare :: rat where "oversizedHeapShare = 8 / 10"
definition reportedHeapTolerance :: rat where "reportedHeapTolerance = 105 / 100"
abbreviation recommendedRAMPercentage :: int where "recommendedRAMPercentage \<equiv> 75"
definition defaultShareAppliesFrom :: rat where
  "defaultShareAppliesFrom = builtInMaxHeapSize * 100 / defaultMaxRAMPercentage"

abbreviation toolOptions :: string where "toolOptions \<equiv> ''JAVA_TOOL_OPTIONS''"
abbreviation launcherOptions :: string where "launcherOptions \<equiv> ''JDK_JAVA_OPTIONS''"
abbreviation scriptOptions :: string where "scriptOptions \<equiv> ''JAVA_OPTS''"
abbreviation overrideOptions :: string where "overrideOptions \<equiv> ''_JAVA_OPTIONS''"

definition optionVariables :: "string list" where
  "optionVariables = [toolOptions, launcherOptions, scriptOptions, overrideOptions]"

definition javaImageWords :: "string list" where
  "javaImageWords =
     [''java'', ''jre'', ''jdk'', ''openjdk'', ''temurin'', ''corretto'', ''amazoncorretto'', ''zulu'', ''liberica'',
      ''semeru'', ''graalvm'', ''sapmachine'', ''dragonwell'']"

subsection \<open>Types\<close>

record Options =
  MaxHeap :: int
  InitialHeap :: int
  MaxRAM :: int
  MaxRAMPercentage :: rat
  MinRAMPercentage :: rat
  ContainerSupportOff :: bool
  ActiveProcessorCount :: int
  GC :: string
  Flags :: "string list"
  UnreadFrom :: "string list"

record Runtime =
  DetectedBy :: string
  rtOptions :: Options

record Heap =
  hpMax :: rat
  hpSource :: string
  hpKnown :: bool

record Resources =
  rsMemoryRequest :: rat
  rsMemoryLimit :: rat
  rsCPULimit :: rat

record HeapUse =
  HeapUsed :: rat
  HeapAfterGC :: rat
  NonHeap :: rat

record HeapPlan =
  plHeap :: rat
  plMemory :: rat
  plOptions :: string

record Finding =
  fnSeverity :: string
  fnCode :: string
  fnMessage :: string

text \<open>A container as finding out about Java reads it.\<close>

record EnvVar =
  evName :: string
  evValue :: string
  evFrom :: bool                                     \<comment> \<open>\<open>ValueFrom\<close> is set\<close>

record JavaContainer =
  jcName :: string
  jcImage :: string
  jcCommand :: "string list"
  jcArgs :: "string list"
  jcEnv :: "EnvVar list"

definition noOptions :: Options where
  "noOptions =
     \<lparr>MaxHeap = 0, InitialHeap = 0, MaxRAM = 0, MaxRAMPercentage = 0, MinRAMPercentage = 0, ContainerSupportOff = False,
      ActiveProcessorCount = 0, GC = [], Flags = [], UnreadFrom = []\<rparr>"

subsection \<open>Sizes\<close>

definition sizeUnit :: "char \<Rightarrow> int" where
  "sizeUnit c =
     (if c \<in> {CHR ''k'', CHR ''K''} then 2 ^ 10 else if c \<in> {CHR ''m'', CHR ''M''} then 2 ^ 20
      else if c \<in> {CHR ''g'', CHR ''G''} then 2 ^ 30 else if c \<in> {CHR ''t'', CHR ''T''} then 2 ^ 40 else 1)"

definition parseSize :: "string \<Rightarrow> int option" where
  "parseSize s =
     (if s = [] then None
      else let multiplier = sizeUnit (last s);
               digits = (if 1 < multiplier then butlast s else s)
           in if digits = [] \<or> \<not> list_all isDigit digits then None
              else (case parseInt 64 digits of
                      None \<Rightarrow> None
                    | Some n \<Rightarrow>
                        if n \<le> 0 \<or> (2 ^ 63 - 1) div multiplier < n then None else Some (n * multiplier)))"

definition parsePercentage :: "numberText \<Rightarrow> string \<Rightarrow> rat option" where
  "parsePercentage nt s =
     (case readFloat nt s of Some v \<Rightarrow> if 0 < v \<and> v \<le> 100 then Some v else None | None \<Rightarrow> None)"

definition roundMebibytes :: "rat \<Rightarrow> rat" where
  "roundMebibytes bytes = of_int \<lceil>bytes / mebibyte\<rceil> * mebibyte"

definition jvmSize :: "rat \<Rightarrow> string" where
  "jvmSize bytes =
     (let mebibytes = \<lceil>bytes / mebibyte\<rceil>
      in if mebibytes mod 1024 = 0 then itoa (mebibytes div 1024) @ ''g'' else itoa mebibytes @ ''m'')"

text \<open>\<open>math.Round\<close> of what is not negative, and the conversion to \<open>int64\<close> that drops the fraction.\<close>

definition roundHalfUp :: "rat \<Rightarrow> rat" where
  "roundHalfUp x = of_int \<lfloor>x + 1 / 2\<rfloor>"

definition quantityText :: "numberText \<Rightarrow> rat \<Rightarrow> string" where
  "quantityText nt bytes =
     (let b = (if mebibyte \<le> bytes then roundHalfUp (bytes / mebibyte) * mebibyte else bytes) in binaryText nt \<lfloor>b\<rfloor>)"

subsection \<open>Options\<close>

text \<open>The settings of a token with its key; a later one of a key replaces the token in its place.\<close>

definition collectorFlags :: "(string \<times> string) list" where
  "collectorFlags =
     [(''-XX:+UseG1GC'', ''G1''), (''-XX:+UseParallelGC'', ''Parallel''), (''-XX:+UseSerialGC'', ''Serial''),
      (''-XX:+UseZGC'', ''Z''), (''-XX:+UseShenandoahGC'', ''Shenandoah'')]"

definition tokenSetting :: "numberText \<Rightarrow> string \<Rightarrow> (string \<times> (Options \<Rightarrow> Options)) option" where
  "tokenSetting nt t =
     (if hasPrefix t ''-Xmx''
      then map_option (\<lambda>v. (''max-heap'', \<lambda>os. os\<lparr>MaxHeap := v\<rparr>)) (parseSize (drop 4 t))
      else if hasPrefix t ''-XX:MaxHeapSize=''
      then map_option (\<lambda>v. (''max-heap'', \<lambda>os. os\<lparr>MaxHeap := v\<rparr>)) (parseSize (drop 16 t))
      else if hasPrefix t ''-Xms''
      then map_option (\<lambda>v. (''initial-heap'', \<lambda>os. os\<lparr>InitialHeap := v\<rparr>)) (parseSize (drop 4 t))
      else if hasPrefix t ''-XX:InitialHeapSize=''
      then map_option (\<lambda>v. (''initial-heap'', \<lambda>os. os\<lparr>InitialHeap := v\<rparr>)) (parseSize (drop 20 t))
      else if hasPrefix t ''-XX:MaxRAMPercentage=''
      then map_option (\<lambda>v. (''max-ram-percentage'', \<lambda>os. os\<lparr>MaxRAMPercentage := v\<rparr>)) (parsePercentage nt (drop 21 t))
      else if hasPrefix t ''-XX:MinRAMPercentage=''
      then map_option (\<lambda>v. (''min-ram-percentage'', \<lambda>os. os\<lparr>MinRAMPercentage := v\<rparr>)) (parsePercentage nt (drop 21 t))
      else if hasPrefix t ''-XX:MaxRAM=''
      then map_option (\<lambda>v. (''max-ram'', \<lambda>os. os\<lparr>MaxRAM := v\<rparr>)) (parseSize (drop 11 t))
      else if t = ''-XX:-UseContainerSupport'' \<or> t = ''-XX:+UseContainerSupport''
      then Some (''container-support'', \<lambda>os. os\<lparr>ContainerSupportOff := (t = ''-XX:-UseContainerSupport'')\<rparr>)
      else if hasPrefix t ''-XX:ActiveProcessorCount=''
      then (case parseInt 64 (drop 25 t) of
              Some v \<Rightarrow> if 0 < v then Some (''processors'', \<lambda>os. os\<lparr>ActiveProcessorCount := v\<rparr>) else None
            | None \<Rightarrow> None)
      else map_option (\<lambda>gc. (''gc'', \<lambda>os. os\<lparr>GC := gc\<rparr>)) (map_of collectorFlags t))"

fun parseTokens :: "numberText \<Rightarrow> string list \<Rightarrow> (string \<times> string) list \<Rightarrow> Options \<Rightarrow> Options" where
  "parseTokens nt [] written os = os\<lparr>Flags := map snd written\<rparr>"
| "parseTokens nt (t # ts) written os =
     (case tokenSetting nt t of
        Some (key, f) \<Rightarrow> parseTokens nt ts (AList.update key t written) (f os)
      | None \<Rightarrow> parseTokens nt ts written os)"

definition Parse :: "numberText \<Rightarrow> string list \<Rightarrow> Options" where
  "Parse nt tokens = parseTokens nt tokens [] noOptions"

subsection \<open>The heap\<close>

definition HeapFor :: "numberText \<Rightarrow> Options \<Rightarrow> rat \<Rightarrow> Heap" where
  "HeapFor nt os memoryLimit =
     (if 0 < MaxHeap os
      then \<lparr>hpMax = of_int (MaxHeap os), hpSource = ''set by -Xmx'', hpKnown = True\<rparr>
      else
        let (physical, basis) =
              (if 0 < MaxRAM os then (of_int (MaxRAM os), ''-XX:MaxRAM'')
               else (if ContainerSupportOff os then 0 else memoryLimit, ''the limit''));
            maxShare = (if MaxRAMPercentage os \<noteq> 0 then MaxRAMPercentage os else defaultMaxRAMPercentage);
            minShare = (if MinRAMPercentage os \<noteq> 0 then MinRAMPercentage os else defaultMinRAMPercentage);
            share = max (physical * maxShare / 100) builtInMaxHeapSize
        in if physical \<le> 0
           then \<lparr>hpMax = 0,
                 hpSource = (if ContainerSupportOff os then ''-XX:-UseContainerSupport: sized from the memory of the node''
                             else ''no memory limit: sized from the memory of the node''),
                 hpKnown = False\<rparr>
           else if physical * minShare / 100 < builtInMaxHeapSize
           then \<lparr>hpMax = physical * minShare / 100,
                 hpSource = ''the JVM default for a small amount of memory, '' @ showFloat nt minShare @ ''% of '' @ basis, hpKnown = True\<rparr>
           else if 0 < MaxRAMPercentage os
           then \<lparr>hpMax = share, hpSource = showFloat nt maxShare @ ''% of '' @ basis @ '', set by -XX:MaxRAMPercentage'', hpKnown = True\<rparr>
           else \<lparr>hpMax = share, hpSource = ''the JVM default, '' @ showFloat nt maxShare @ ''% of '' @ basis, hpKnown = True\<rparr>)"

definition defaultHeap :: "Options \<Rightarrow> bool" where
  "defaultHeap os \<longleftrightarrow> MaxHeap os = 0 \<and> MaxRAMPercentage os = 0 \<and> MaxRAM os = 0"

definition NativeMemory :: "rat \<Rightarrow> rat \<Rightarrow> rat" where
  "NativeMemory heap observedNonHeap =
     (if 0 < observedNonHeap then observedNonHeap * observedNonHeapHeadroom + threadsAndBuffers
      else max (heap * nativeShareOfHeap) minimumNativeMemory)"

definition PlanFor :: "Options \<Rightarrow> HeapUse \<Rightarrow> HeapPlan option" where
  "PlanFor os u =
     (if HeapAfterGC u \<le> 0 then None
      else let heap = roundMebibytes (max (HeapAfterGC u * liveSetMultiple) minimumHeap);
               memory = roundMebibytes (heap + NativeMemory heap (NonHeap u))
           in Some \<lparr>plHeap = heap, plMemory = memory,
                    plOptions = (if MaxHeap os = 0 then ''-XX:MaxRAMPercentage='' @ itoa \<lfloor>heap / memory * 100\<rfloor>
                                 else ''-Xmx'' @ jvmSize heap)\<rparr>)"

definition serialCollector :: "Options \<Rightarrow> Resources \<Rightarrow> bool" where
  "serialCollector os r \<longleftrightarrow>
     (let processors = (if ActiveProcessorCount os = 0 \<and> 0 < rsCPULimit r then \<lceil>rsCPULimit r\<rceil> else ActiveProcessorCount os)
      in 0 < processors \<and> processors < serverClassProcessors \<or> 0 < rsMemoryLimit r \<and> rsMemoryLimit r < serverClassMemory)"

subsection \<open>The audit\<close>

definition severityRank :: "string \<Rightarrow> nat" where
  "severityRank s = (if s = SeverityWaste then 1 else if s = SeverityNote then 2 else 0)"

abbreviation finding :: "string \<Rightarrow> string \<Rightarrow> string \<Rightarrow> Finding" where
  "finding severity code message \<equiv> \<lparr>fnSeverity = severity, fnCode = code, fnMessage = message\<rparr>"

text \<open>The problems with the limit, of which only the first that applies is reported.\<close>

definition limitFindings :: "numberText \<Rightarrow> Options \<Rightarrow> Heap \<Rightarrow> Resources \<Rightarrow> rat \<Rightarrow> Finding list" where
  "limitFindings nt os heap r native =
     (if ContainerSupportOff os \<and> MaxHeap os = 0 \<and> MaxRAM os = 0
      then [finding SeverityRisk ''container-support-off''
              (''-XX:-UseContainerSupport makes the JVM ignore the container limit and size its heap ''
               @ ''from the memory of the node, so the heap can outgrow the limit and the container is OOM-killed. Remove the flag or set -Xmx.'')]
      else if \<not> hpKnown heap
      then [finding SeverityRisk ''no-memory-limit''
              (''There is no memory limit and no -Xmx, so the JVM sizes its heap from the memory of whichever ''
               @ ''node the pod lands on: the same image takes a different heap on every node size. Set a memory limit and ''
               @ ''-XX:MaxRAMPercentage='' @ itoa recommendedRAMPercentage @ ''.'')]
      else if 0 < rsMemoryLimit r \<and> rsMemoryLimit r \<le> hpMax heap
      then [finding SeverityRisk CodeHeapOverLimit
              (''The heap can grow to '' @ quantityText nt (hpMax heap) @ '', as much as the '' @ quantityText nt (rsMemoryLimit r)
               @ '' memory limit or more, so the container is OOM-killed before the heap fills. Keep the heap at about ''
               @ itoa recommendedRAMPercentage @ ''% of the limit.'')]
      else if 0 < rsMemoryLimit r \<and> rsMemoryLimit r - hpMax heap < native
      then [finding SeverityRisk ''no-room-for-native''
              (''The heap can grow to '' @ quantityText nt (hpMax heap) @ '' of the '' @ quantityText nt (rsMemoryLimit r)
               @ '' limit, which leaves '' @ quantityText nt (rsMemoryLimit r - hpMax heap)
               @ '' for metaspace, thread stacks, the code cache and buffers, where a JVM like this needs about ''
               @ quantityText nt native @ ''. Lower the heap or raise the limit.'')]
      else [])"

definition defaultFindings :: "numberText \<Rightarrow> Options \<Rightarrow> Heap \<Rightarrow> Resources \<Rightarrow> Finding list" where
  "defaultFindings nt os heap r =
     (if hpKnown heap \<and> defaultHeap os \<and> defaultShareAppliesFrom < rsMemoryLimit r
      then [finding SeverityWaste ''default-heap''
              (''No heap size is set, so the JVM keeps to the default '' @ showFloat nt defaultMaxRAMPercentage @ ''% of the ''
               @ quantityText nt (rsMemoryLimit r) @ '' limit ('' @ quantityText nt (hpMax heap)
               @ '') and most of the memory the pod reserves stays unused. Set -XX:MaxRAMPercentage='' @ itoa recommendedRAMPercentage
               @ '', then lower the request and limit to what the application needs.'')]
      else [])"

definition requestFindings :: "numberText \<Rightarrow> Heap \<Rightarrow> Resources \<Rightarrow> rat \<Rightarrow> Finding list" where
  "requestFindings nt heap r native =
     (if hpKnown heap \<and> 0 < rsMemoryRequest r \<and> rsMemoryRequest r < hpMax heap + native
      then [finding SeverityRisk ''request-below-heap''
              (''The memory request ('' @ quantityText nt (rsMemoryRequest r) @ '') is below what the JVM can grow to: a ''
               @ quantityText nt (hpMax heap) @ '' heap plus about '' @ quantityText nt native
               @ '' of native memory. Once the heap fills, the pod uses more than it reserved and is among the first evicted under memory pressure.'')]
      else [])"

definition planFindings :: "numberText \<Rightarrow> Options \<Rightarrow> Heap \<Rightarrow> HeapUse \<Rightarrow> Finding list" where
  "planFindings nt os heap u =
     (case PlanFor os u of
        None \<Rightarrow> []
      | Some plan \<Rightarrow>
          if \<not> hpKnown heap then []
          else if hpMax heap * tightHeapShare < HeapAfterGC u
          then [finding SeverityRisk CodeHeapTight
                  (''After garbage collection the heap still held '' @ quantityText nt (HeapAfterGC u) @ '' of its ''
                   @ quantityText nt (hpMax heap) @ '', so the JVM collects more and more often and risks OutOfMemoryError. Raise the heap to about ''
                   @ quantityText nt (plHeap plan) @ ''.'')]
          else if plHeap plan \<le> hpMax heap * oversizedHeapShare
          then [finding SeverityWaste CodeHeapOversized
                  (''After garbage collection the heap held at most '' @ quantityText nt (HeapAfterGC u) @ '', so a ''
                   @ quantityText nt (plHeap plan) @ '' heap is enough instead of '' @ quantityText nt (hpMax heap)
                   @ '', and the container then needs about '' @ quantityText nt (plMemory plan) @ '' of memory.'')]
          else [])"

definition noteFindings :: "numberText \<Rightarrow> Options \<Rightarrow> Heap \<Rightarrow> Resources \<Rightarrow> HeapUse \<Rightarrow> Finding list" where
  "noteFindings nt os heap r u =
     (if hpKnown heap \<and> hpMax heap * reportedHeapTolerance < HeapUsed u
      then [finding SeverityNote ''heap-differs''
              (''The JVM reported '' @ quantityText nt (HeapUsed u) @ '' of heap in use, more than the '' @ quantityText nt (hpMax heap)
               @ '' its flags allow, so its options also come from somewhere Cost Deck does not see, such as the image.'')]
      else [])
     @ (if GC os = [] \<and> serialCollector os r
        then [finding SeverityNote ''serial-gc''
                (''With fewer than '' @ itoa serverClassProcessors @ '' CPUs or less than '' @ quantityText nt serverClassMemory
                 @ '' of memory the JVM picks the Serial garbage collector, which stops the application for every collection. ''
                 @ ''That suits a small service; for steady latency set -XX:+UseG1GC or -XX:ActiveProcessorCount=''
                 @ itoa serverClassProcessors @ ''.'')]
        else [])
     @ map (\<lambda>name. finding SeverityNote ''unread-options''
          (name @ '' comes from a ConfigMap or Secret, which Cost Deck does not read, so flags set there are not part of this analysis.''))
         (UnreadFrom os)"

definition Audit :: "numberText \<Rightarrow> Options \<Rightarrow> Heap \<Rightarrow> Resources \<Rightarrow> HeapUse \<Rightarrow> Finding list" where
  "Audit nt os heap r u =
     (let native = NativeMemory (hpMax heap) (NonHeap u)
      in sort_key (severityRank \<circ> fnSeverity)
           (limitFindings nt os heap r native @ defaultFindings nt os heap r @ requestFindings nt heap r native
            @ planFindings nt os heap u @ noteFindings nt os heap r u))"

subsection \<open>Finding Java\<close>

definition lastIndex :: "char \<Rightarrow> string \<Rightarrow> int" where
  "lastIndex c s = (case cutChar c (rev s) of Some (_, rest) \<Rightarrow> int (length rest) | None \<Rightarrow> - 1)"

text \<open>The runs without a separator.\<close>

fun wordsAux :: "string \<Rightarrow> string \<Rightarrow> string list" where
  "wordsAux acc [] = (if acc = [] then [] else [rev acc])"
| "wordsAux acc (c # cs) =
     (if c \<in> {CHR ''-'', CHR ''_'', CHR ''.''} then (if acc = [] then wordsAux [] cs else rev acc # wordsAux [] cs)
      else wordsAux (c # acc) cs)"

definition imageWords :: "string \<Rightarrow> string list" where
  "imageWords s = wordsAux [] (toLower s)"

definition JavaImage :: "string \<Rightarrow> bool" where
  "JavaImage img \<longleftrightarrow>
     (let repository = (case cutChar CHR ''@'' img of Some (a, _) \<Rightarrow> a | None \<Rightarrow> img);
          i = lastIndex CHR '':'' repository;
          (repository, tag) = (if lastIndex CHR ''/'' repository < i then (take (nat i) repository, drop (nat i + 1) repository)
                               else (repository, []));
          segments = splitChar CHR ''/'' repository;
          segments = (if 1 < length segments \<and> list_ex (\<lambda>c. c = CHR ''.'' \<or> c = CHR '':'') (hd segments) then tl segments else segments)
      in list_ex (\<lambda>segment. list_ex (\<lambda>w. w \<in> set javaImageWords) (imageWords segment)) segments
         \<or> list_ex (\<lambda>w. w = ''jre'' \<or> w = ''jdk'') (imageWords tag))"

text \<open>\<open>path.Base\<close>.\<close>

definition pathBase :: "string \<Rightarrow> string" where
  "pathBase s =
     (if s = [] then ''.''
      else let t = rev (dropWhile (\<lambda>c. c = CHR ''/'') (rev s))
           in if t = [] then ''/'' else rev (takeWhile (\<lambda>c. c \<noteq> CHR ''/'') (rev t)))"

definition runsJava :: "string list \<Rightarrow> string list \<Rightarrow> bool" where
  "runsJava command args \<longleftrightarrow>
     list_ex (\<lambda>part. list_ex (\<lambda>f. pathBase f = ''java'') (GoBase.fields part)) (command @ args)"

definition setsOptionVariable :: "EnvVar list \<Rightarrow> bool" where
  "setsOptionVariable env \<longleftrightarrow> list_ex (\<lambda>e. evName e \<in> set optionVariables) env"

definition unreadOptionVariables :: "EnvVar list \<Rightarrow> string list" where
  "unreadOptionVariables env = map evName (filter (\<lambda>e. evFrom e \<and> evName e \<in> set optionVariables) env)"

text \<open>A reference to a variable after the dollar sign: its name and what follows. A name is matched
  greedily.\<close>

definition nameStart :: "char \<Rightarrow> bool" where
  "nameStart c \<longleftrightarrow> c = CHR ''_'' \<or> CHR ''A'' \<le> c \<and> c \<le> CHR ''Z'' \<or> CHR ''a'' \<le> c \<and> c \<le> CHR ''z''"

definition variableName :: "string \<Rightarrow> string" where
  "variableName s = (if s \<noteq> [] \<and> nameStart (hd s) then takeWhile (\<lambda>c. nameStart c \<or> isDigit c) s else [])"

definition enclosed :: "char \<Rightarrow> string \<Rightarrow> (string \<times> string) option" where
  "enclosed close s =
     (let n = variableName s; r = drop (length n) s
      in if n \<noteq> [] \<and> r \<noteq> [] \<and> hd r = close then Some (n, tl r) else None)"

definition variableReference :: "string \<Rightarrow> (string \<times> string) option" where
  "variableReference s =
     (if s = [] then None
      else if hd s = CHR ''('' then enclosed CHR '')'' (tl s)
      else if hd s = CHR ''{'' then enclosed CHR ''}'' (tl s)
      else if variableName s \<noteq> [] then Some (variableName s, drop (length (variableName s)) s)
      else None)"

lemma variableReference_length [termination_simp]: "variableReference s = Some (n, r) \<Longrightarrow> length r < length s"
  by (cases s) (auto simp: variableReference_def enclosed_def Let_def split: if_splits)

fun expand :: "(string \<rightharpoonup> string) \<Rightarrow> string \<Rightarrow> string" where
  "expand env [] = []"
| "expand env (c # cs) =
     (if c \<noteq> CHR ''$'' then c # expand env cs
      else case variableReference cs of
             None \<Rightarrow> c # expand env cs
           | Some (n, r) \<Rightarrow>
               (case env n of Some v \<Rightarrow> v | None \<Rightarrow> c # take (length cs - length r) cs) @ expand env r)"

definition literalEnv :: "EnvVar list \<Rightarrow> (string \<rightharpoonup> string)" where
  "literalEnv env = foldl (\<lambda>m e. if evFrom e then m else m(evName e \<mapsto> expand m (evValue e))) Map.empty env"

definition fieldsOf :: "(string \<rightharpoonup> string) \<Rightarrow> string \<Rightarrow> string list" where
  "fieldsOf env name = (case env name of Some v \<Rightarrow> GoBase.fields v | None \<Rightarrow> [])"

definition OptionTokens :: "JavaContainer \<Rightarrow> string list" where
  "OptionTokens c =
     (let env = literalEnv (jcEnv c)
      in fieldsOf env toolOptions @ fieldsOf env launcherOptions
         @ (if runsJava (jcCommand c) (jcArgs c) then [] else fieldsOf env scriptOptions)
         @ concat (map (\<lambda>part. GoBase.fields (expand env part)) (jcCommand c @ jcArgs c))
         @ fieldsOf env overrideOptions)"

definition Inspect :: "numberText \<Rightarrow> JavaContainer \<Rightarrow> string \<Rightarrow> Runtime option" where
  "Inspect nt c annotation =
     (let options = (Parse nt (OptionTokens c))\<lparr>UnreadFrom := unreadOptionVariables (jcEnv c)\<rparr>
      in if annotation = RuntimeNone then None
         else if annotation = RuntimeJava then Some \<lparr>DetectedBy = DetectedByAnnotation, rtOptions = options\<rparr>
         else if runsJava (jcCommand c) (jcArgs c) then Some \<lparr>DetectedBy = DetectedByCommand, rtOptions = options\<rparr>
         else if setsOptionVariable (jcEnv c) then Some \<lparr>DetectedBy = DetectedByOptions, rtOptions = options\<rparr>
         else if JavaImage (jcImage c) then Some \<lparr>DetectedBy = DetectedByImage, rtOptions = options\<rparr>
         else None)"

end
