(* ===== verification/Advice.thy ===== *)
theory Advice
  imports Jvm ApiTypes "HOL-Library.Char_ord" "HOL-Library.List_Lexorder" "HOL-Library.Product_Lexorder"
begin

section \<open>Right-sizing advice (internal/rightsizing/rightsizing.go)\<close>

text \<open>
  From the demand of a workload's pods to advice on the requests of its containers, within the bounds
  of the RightsizingPolicy that picks the workload. Sizes, shares and money are rational numbers,
  where the code has a \<open>float64\<close>; what is measured comes as lists for the code's maps, whose
  order is of no importance.
\<close>

subsection \<open>Constants and types\<close>

abbreviation ActionReduce :: string where "ActionReduce \<equiv> ''reduce''"
abbreviation ActionIncrease :: string where "ActionIncrease \<equiv> ''increase''"
abbreviation ActionKeep :: string where "ActionKeep \<equiv> ''keep''"
abbreviation ActionSet :: string where "ActionSet \<equiv> ''set''"
abbreviation ActionUnknown :: string where "ActionUnknown \<equiv> ''unknown''"

record Settings =
  stCPUHeadroom :: rat
  stMemoryHeadroom :: rat
  stMinCPU :: rat
  stMinMemory :: rat
  stReduceThreshold :: rat

definition DefaultSettings :: "bool \<Rightarrow> Settings" where
  "DefaultSettings historical =
     (if historical
      then \<lparr>stCPUHeadroom = 12 / 10, stMemoryHeadroom = 12 / 10, stMinCPU = 1 / 100, stMinMemory = 32 * mebibyte,
            stReduceThreshold = 2 / 10\<rparr>
      else \<lparr>stCPUHeadroom = 15 / 10, stMemoryHeadroom = 15 / 10, stMinCPU = 1 / 100, stMinMemory = 64 * mebibyte,
            stReduceThreshold = 2 / 10\<rparr>)"

record Bounds =
  bnMin :: rat
  bnMax :: rat
  bnHeadroom :: "rat option"

record Policy =
  poName :: string
  poApplyForbidden :: bool
  poExclude :: bool
  poCPU :: Bounds
  poMemory :: Bounds

text \<open>A container of a workload, zero for what is not set.\<close>

record SizedContainer =
  scName :: string
  scCPURequest :: rat
  scMemoryRequest :: rat
  scMemoryLimit :: rat
  scCPULimit :: rat
  scJava :: "Runtime option"
  scHoldCPU :: string
  scHoldMemory :: string

record SizedWorkload =
  swKind :: string
  swName :: string
  swReplicas :: int
  swContainers :: "SizedContainer list"
  swPolicy :: "Policy option"

record ResourceAdvice =
  raRequest :: string
  raObserved :: string
  raRecommended :: string
  raAction :: string
  raHeld :: string

record JVMAdvice =
  jaDetectedBy :: string
  jaOptions :: "string list"
  jaHeap :: string
  jaHeapSource :: string
  jaHeapUsed :: string
  jaHeapAfterGC :: string
  jaNonHeap :: string
  jaRecommendedHeap :: string
  jaRecommendedMemory :: string
  jaRecommendedOptions :: string
  jaMonthlySavings :: rat
  jaFindings :: "Finding list"

record ContainerAdvice =
  caName :: string
  caCPU :: ResourceAdvice
  caMemory :: ResourceAdvice
  caJVM :: "JVMAdvice option"

record WorkloadAdvice =
  waKind :: string
  waName :: string
  waReplicas :: int
  waMonthlySavings :: rat
  waPolicy :: string
  waApplyForbidden :: bool
  waContainers :: "ContainerAdvice list"

text \<open>The report with the fields the analysis sets; its callers add where the demand came from.\<close>

record Report =
  rpCurrency :: string
  rpMonthlySavings :: rat
  rpJavaMonthlySavings :: rat
  rpWorkloads :: "WorkloadAdvice list"

record Rates =
  rtCPUCoreHour :: rat
  rtMemoryGBHour :: rat
  rtCurrency :: string

abbreviation HoursPerMonth :: rat where "HoursPerMonth \<equiv> 730"

text \<open>What was measured, by pod and container.\<close>

type_synonym demand = "((string \<times> string) \<times> (rat \<times> rat)) list"
type_synonym heapDemand = "((string \<times> string) \<times> HeapUse) list"

subsection \<open>Rounding and printing\<close>

definition clamp :: "Bounds \<Rightarrow> rat \<Rightarrow> rat" where
  "clamp b v =
     (let v = (if 0 < bnMin b then max v (bnMin b) else v) in if 0 < bnMax b then min v (bnMax b) else v)"

definition roundingSlack :: rat where "roundingSlack = 1 / 1000000000"

definition roundCPU :: "rat \<Rightarrow> rat" where
  "roundCPU cores = of_int \<lceil>cores * 1000 / 5 - roundingSlack\<rceil> * 5 / 1000"

definition roundMemory :: "rat \<Rightarrow> rat" where
  "roundMemory bytes = of_int \<lceil>bytes / mebibyte - roundingSlack\<rceil> * mebibyte"

definition formatCPU :: "numberText \<Rightarrow> rat \<Rightarrow> string" where
  "formatCPU nt cores = milliText nt \<lfloor>roundHalfUp (cores * 1000)\<rfloor>"

definition formatMemory :: "numberText \<Rightarrow> rat \<Rightarrow> string" where
  "formatMemory nt bytes =
     (let b = (if mebibyte \<le> bytes then roundHalfUp (bytes / mebibyte) * mebibyte else bytes) in binaryText nt \<lfloor>b\<rfloor>)"

subsection \<open>The pods of a workload\<close>

definition safeAlphabet :: string where "safeAlphabet = ''bcdfghjklmnpqrstvwxz2456789''"

text \<open>\<open>podPattern\<close> as a match: the name of the StatefulSet and an ordinal, or the name, a hash of
  one to ten safe characters and a suffix of five.\<close>

definition OwnsPod :: "string \<Rightarrow> string \<Rightarrow> string \<Rightarrow> bool" where
  "OwnsPod kind name pod \<longleftrightarrow>
     (case cutPrefix pod (name @ ''-'') of
        None \<Rightarrow> False
      | Some r \<Rightarrow>
          if kind = ''StatefulSet'' then r \<noteq> [] \<and> list_all isDigit r
          else (case cutChar CHR ''-'' r of
                  None \<Rightarrow> False
                | Some (h, s) \<Rightarrow>
                    h \<noteq> [] \<and> length h \<le> 10 \<and> length s = 5 \<and> list_all (\<lambda>c. c \<in> set safeAlphabet) (h @ s)))"

definition peakDemand :: "SizedWorkload \<Rightarrow> demand \<Rightarrow> string \<Rightarrow> (rat \<times> rat) option" where
  "peakDemand w d container =
     (let us = map snd (filter (\<lambda>((pod, c), _). OwnsPod (swKind w) (swName w) pod \<and> c = container) d)
      in if us = [] then None else Some (foldl max 0 (map fst us), foldl max 0 (map snd us)))"

definition peakHeapDemand :: "SizedWorkload \<Rightarrow> heapDemand \<Rightarrow> string \<Rightarrow> HeapUse option" where
  "peakHeapDemand w d container =
     (let us = map snd (filter (\<lambda>((pod, c), _). OwnsPod (swKind w) (swName w) pod \<and> c = container) d)
      in if us = [] then None
         else Some \<lparr>HeapUsed = foldl max 0 (map HeapUsed us), HeapAfterGC = foldl max 0 (map HeapAfterGC us),
                    NonHeap = foldl max 0 (map NonHeap us)\<rparr>)"

subsection \<open>The Java side\<close>

text \<open>Heap series without a container label are under the empty name.\<close>

definition ownsUnlabelledSeries :: "SizedWorkload \<Rightarrow> SizedContainer \<Rightarrow> bool" where
  "ownsUnlabelledSeries w c \<longleftrightarrow>
     (let java = length (filter (\<lambda>x. scJava x \<noteq> None) (swContainers w))
      in if java = 0 then length (swContainers w) = 1 else scJava c \<noteq> None \<and> java = 1)"

definition noHeapUse :: HeapUse where "noHeapUse = \<lparr>HeapUsed = 0, HeapAfterGC = 0, NonHeap = 0\<rparr>"

definition javaRuntime :: "SizedWorkload \<Rightarrow> SizedContainer \<Rightarrow> (string \<Rightarrow> HeapUse option) \<Rightarrow> (Runtime \<times> HeapUse) option" where
  "javaRuntime w c heapPeaks =
     (let found = (case heapPeaks (scName c) of
                     Some u \<Rightarrow> Some u
                   | None \<Rightarrow> if ownsUnlabelledSeries w c then heapPeaks [] else None);
          heapUse = (case found of Some u \<Rightarrow> u | None \<Rightarrow> noHeapUse)
      in case scJava c of
           Some r \<Rightarrow> Some (r, heapUse)
         | None \<Rightarrow> if found \<noteq> None then Some (\<lparr>DetectedBy = DetectedByMetrics, rtOptions = noOptions\<rparr>, heapUse) else None)"

definition formatPositive :: "numberText \<Rightarrow> rat \<Rightarrow> string" where
  "formatPositive nt v = (if 0 < v then formatMemory nt v else [])"

definition adviseJVM :: "numberText \<Rightarrow> Runtime \<Rightarrow> SizedContainer \<Rightarrow> HeapUse \<Rightarrow> Rates \<Rightarrow> int \<Rightarrow> JVMAdvice \<times> rat" where
  "adviseJVM nt java c heapUse rates replicas =
     (let os = rtOptions java;
          r = \<lparr>rsMemoryRequest = scMemoryRequest c, rsMemoryLimit = scMemoryLimit c, rsCPULimit = scCPULimit c\<rparr>;
          heap = HeapFor nt os (scMemoryLimit c);
          findings = Audit nt os heap r heapUse;
          memoryFloor = (if hpKnown heap then roundMemory (hpMax heap + NativeMemory (hpMax heap) (NonHeap heapUse)) else 0);
          oversized = list_ex (\<lambda>f. fnCode f = CodeHeapOversized) findings;
          tight = list_ex (\<lambda>f. fnCode f = CodeHeapTight) findings;
          plan = (if oversized \<or> tight \<or> \<not> hpKnown heap then PlanFor os heapUse else None)
      in (\<lparr>jaDetectedBy = DetectedBy java, jaOptions = Flags os,
           jaHeap = (if hpKnown heap then formatMemory nt (hpMax heap) else []), jaHeapSource = hpSource heap,
           jaHeapUsed = formatPositive nt (HeapUsed heapUse), jaHeapAfterGC = formatPositive nt (HeapAfterGC heapUse),
           jaNonHeap = formatPositive nt (NonHeap heapUse),
           jaRecommendedHeap = (case plan of Some p \<Rightarrow> formatMemory nt (plHeap p) | None \<Rightarrow> []),
           jaRecommendedMemory = (case plan of Some p \<Rightarrow> formatMemory nt (plMemory p) | None \<Rightarrow> []),
           jaRecommendedOptions = (case plan of Some p \<Rightarrow> plOptions p | None \<Rightarrow> []),
           jaMonthlySavings =
             (case plan of
                Some p \<Rightarrow>
                  if oversized \<and> plMemory p < scMemoryRequest c
                  then (scMemoryRequest c - plMemory p) / 2 ^ 30 * rtMemoryGBHour rates * of_int replicas * HoursPerMonth else 0
              | None \<Rightarrow> 0),
           jaFindings = findings\<rparr>,
          memoryFloor))"

subsection \<open>The advice on one resource\<close>

definition advise :: "rat \<Rightarrow> rat \<Rightarrow> rat \<Rightarrow> bool \<Rightarrow> rat \<Rightarrow> (rat \<Rightarrow> string) \<Rightarrow> ResourceAdvice" where
  "advise request observed rec seen threshold format =
     (let req = (if 0 < request then format request else [])
      in if \<not> seen then \<lparr>raRequest = req, raObserved = [], raRecommended = [], raAction = ActionUnknown, raHeld = []\<rparr>
         else let a = (if request \<le> 0 then ActionSet
                       else if request < observed then ActionIncrease
                       else if rec \<le> request * (1 - threshold) then ActionReduce
                       else ActionKeep)
              in \<lparr>raRequest = req, raObserved = format observed,
                  raRecommended = (if a = ActionKeep then [] else format rec), raAction = a, raHeld = []\<rparr>)"

definition holdReduction :: "string \<Rightarrow> ResourceAdvice \<Rightarrow> ResourceAdvice" where
  "holdReduction reason a =
     (if reason = [] \<or> raAction a \<noteq> ActionReduce then a
      else a\<lparr>raAction := ActionKeep, raRecommended := [], raHeld := reason\<rparr>)"

subsection \<open>The analysis\<close>

definition noPolicy :: Policy where
  "noPolicy =
     \<lparr>poName = [], poApplyForbidden = False, poExclude = False, poCPU = \<lparr>bnMin = 0, bnMax = 0, bnHeadroom = None\<rparr>,
      poMemory = \<lparr>bnMin = 0, bnMax = 0, bnHeadroom = None\<rparr>\<rparr>"

definition policyOf :: "SizedWorkload \<Rightarrow> Policy" where
  "policyOf w = (case swPolicy w of Some p \<Rightarrow> p | None \<Rightarrow> noPolicy)"

definition headroom :: "Bounds \<Rightarrow> rat \<Rightarrow> rat" where
  "headroom b standard = (case bnHeadroom b of Some h \<Rightarrow> h | None \<Rightarrow> standard)"

text \<open>The requests recommended for a container: for CPU, and for memory with the floor that a Java heap
  sets, as far as the policy allows it.\<close>

definition recommendedCPU :: "Settings \<Rightarrow> Policy \<Rightarrow> rat \<Rightarrow> rat" where
  "recommendedCPU s p cpu = roundCPU (clamp (poCPU p) (max (cpu * headroom (poCPU p) (stCPUHeadroom s)) (stMinCPU s)))"

definition recommendedMemory :: "Settings \<Rightarrow> Policy \<Rightarrow> rat \<Rightarrow> rat option \<Rightarrow> rat" where
  "recommendedMemory s p mem heapFloor =
     (let m = roundMemory (max (mem * headroom (poMemory p) (stMemoryHeadroom s)) (stMinMemory s));
          m = (case heapFloor of Some f \<Rightarrow> max m f | None \<Rightarrow> m)
      in roundMemory (clamp (poMemory p) m))"

definition adviseSized ::
    "numberText \<Rightarrow> Rates \<Rightarrow> Settings \<Rightarrow> SizedWorkload \<Rightarrow> demand \<Rightarrow> heapDemand \<Rightarrow> SizedContainer
      \<Rightarrow> ContainerAdvice \<times> rat \<times> rat" where
  "adviseSized nt rates s w d heaps c =
     (let p = policyOf w;
          peak = peakDemand w d (scName c);
          (cpu, mem) = (case peak of Some u \<Rightarrow> u | None \<Rightarrow> (0, 0));
          seen = (peak \<noteq> None);
          java = map_option (\<lambda>(r, u). adviseJVM nt r c u rates (swReplicas w)) (javaRuntime w c (peakHeapDemand w heaps));
          cpuRec = recommendedCPU s p cpu;
          memRec = recommendedMemory s p mem (map_option snd java);
          memoryFloor = min (case java of Some (_, f) \<Rightarrow> f | None \<Rightarrow> 0) memRec;
          mem0 = advise (scMemoryRequest c) mem memRec seen (stReduceThreshold s) (formatMemory nt);
          mem1 = (if scMemoryRequest c < memoryFloor
                  then mem0\<lparr>raAction := (if scMemoryRequest c \<le> 0 then ActionSet else ActionIncrease),
                            raRecommended := formatMemory nt memRec\<rparr>
                  else mem0);
          cpuAdvice = holdReduction (scHoldCPU c) (advise (scCPURequest c) cpu cpuRec seen (stReduceThreshold s) (formatCPU nt));
          memAdvice = holdReduction (scHoldMemory c) mem1;
          hourly = (if raAction cpuAdvice = ActionReduce then (scCPURequest c - cpuRec) * rtCPUCoreHour rates else 0)
                   + (if raAction memAdvice = ActionReduce then (scMemoryRequest c - memRec) / 2 ^ 30 * rtMemoryGBHour rates else 0)
      in (\<lparr>caName = scName c, caCPU = cpuAdvice, caMemory = memAdvice, caJVM = map_option fst java\<rparr>,
          hourly * of_int (swReplicas w) * HoursPerMonth,
          case java of Some (a, _) \<Rightarrow> jaMonthlySavings a | None \<Rightarrow> 0))"

definition adviseWorkload ::
    "numberText \<Rightarrow> Rates \<Rightarrow> Settings \<Rightarrow> demand \<Rightarrow> heapDemand \<Rightarrow> SizedWorkload \<Rightarrow> WorkloadAdvice \<times> rat" where
  "adviseWorkload nt rates s d heaps w =
     (let cs = map (adviseSized nt rates s w d heaps) (swContainers w)
      in (\<lparr>waKind = swKind w, waName = swName w, waReplicas = swReplicas w,
           waMonthlySavings = sum_list (map (\<lambda>(_, v, _). v) cs),
           waPolicy = poName (policyOf w), waApplyForbidden = poApplyForbidden (policyOf w),
           waContainers = map fst cs\<rparr>,
          sum_list (map (\<lambda>(_, _, j). j) cs)))"

definition Analyze :: "numberText \<Rightarrow> SizedWorkload list \<Rightarrow> demand \<Rightarrow> heapDemand \<Rightarrow> Rates \<Rightarrow> Settings \<Rightarrow> Report" where
  "Analyze nt workloads d heaps rates s =
     (let advised = map (adviseWorkload nt rates s d heaps) (filter (\<lambda>w. \<not> poExclude (policyOf w)) workloads)
      in \<lparr>rpCurrency = rtCurrency rates,
          rpMonthlySavings = sum_list (map (waMonthlySavings \<circ> fst) advised),
          rpJavaMonthlySavings = sum_list (map snd advised),
          rpWorkloads = sort_key (\<lambda>a. (- waMonthlySavings a, waName a)) (map fst advised)\<rparr>)"

subsection \<open>Policies (internal/api/rightsizing\_handlers.go) and pressure (internal/risks/risks.go)\<close>

record ResourcePolicy =
  rpMin :: "rat option"
  rpMax :: "rat option"
  rpHeadroomPercent :: "int option"

record RightsizingPolicy =
  rzName :: string
  rzCreated :: time
  rzSelector :: "LabelSelector option"
  rzApply :: string
  rzExclude :: bool
  rzCPU :: ResourcePolicy
  rzMemory :: ResourcePolicy

abbreviation RightsizingApplyForbidden :: string where "RightsizingApplyForbidden \<equiv> ''Forbidden''"

definition toBounds :: "ResourcePolicy \<Rightarrow> Bounds" where
  "toBounds r =
     \<lparr>bnMin = (case rpMin r of Some v \<Rightarrow> v | None \<Rightarrow> 0), bnMax = (case rpMax r of Some v \<Rightarrow> v | None \<Rightarrow> 0),
      bnHeadroom = map_option (\<lambda>pc. 1 + of_int pc / 100) (rpHeadroomPercent r)\<rparr>"

definition toPolicy :: "RightsizingPolicy \<Rightarrow> Policy" where
  "toPolicy p =
     \<lparr>poName = rzName p, poApplyForbidden = (rzApply p = RightsizingApplyForbidden), poExclude = rzExclude p,
      poCPU = toBounds (rzCPU p), poMemory = toBounds (rzMemory p)\<rparr>"

text \<open>The matcher is \<open>LabelSelectorAsSelector\<close>, none for an invalid selector.\<close>

definition policyFor ::
    "(LabelSelector \<Rightarrow> ((string \<rightharpoonup> string) \<Rightarrow> bool) option) \<Rightarrow> RightsizingPolicy list \<Rightarrow> (string \<rightharpoonup> string) \<Rightarrow> RightsizingPolicy option" where
  "policyFor matcher policies podLabels =
     find (\<lambda>p. case rzSelector p of
                 None \<Rightarrow> True
               | Some sel \<Rightarrow> (case matcher sel of Some matches \<Rightarrow> matches podLabels | None \<Rightarrow> False)) policies"

definition oldestFirst :: "RightsizingPolicy list \<Rightarrow> RightsizingPolicy list" where
  "oldestFirst policies = sort_key (\<lambda>p. (rzCreated p, rzName p)) policies"

record Pressure =
  prThrottledShare :: rat
  prOOMKills :: int
  prRestarts :: int
  prLastReason :: string
  prLastExitCode :: int
  prCrashLooping :: bool

definition throttledWarning :: rat where "throttledWarning = 10 / 100"
definition nearLimitShare :: rat where "nearLimitShare = 9 / 10"

definition percent :: "rat \<Rightarrow> int" where "percent share = \<lfloor>roundHalfUp (share * 100)\<rfloor>"

definition HoldReductions :: "Pressure \<Rightarrow> int \<Rightarrow> rat \<Rightarrow> rat \<Rightarrow> string \<times> string" where
  "HoldReductions p evictions peakMemory memoryLimit =
     (if throttledWarning \<le> prThrottledShare p
      then ''throttled in '' @ itoa (percent (prThrottledShare p)) @ ''% of CPU periods at busy times'' else [],
      if 0 < prOOMKills p then ''OOM-killed''
      else if 0 < evictions then ''its pods were evicted''
      else if 0 < memoryLimit \<and> memoryLimit * nearLimitShare \<le> peakMemory
      then ''at '' @ itoa (percent (peakMemory / memoryLimit)) @ ''% of its memory limit'' else [])"

end
