(* ===== verification/Optimize.thy ===== *)
theory Optimize
  imports Upkeep GitOps Advice
begin

section \<open>Right-sizing of workloads (internal/optimize/optimize.go)\<close>

text \<open>
  \<open>Apply\<close> sets the requests of a workload's containers to the advice of
  internal/rightsizing, records what they were in the namespace's NamespaceOptimization and undoes
  the change when it cannot be recorded; \<open>Revert\<close> writes the recorded requests and limits
  back. The functions between the calls are split off: \<open>prepared\<close> is the workload with the
  advice and its record, \<open>recorded\<close> the status with a change in it, \<open>restored\<close> the
  workload with its old requests.
\<close>

subsection \<open>States and errors\<close>

abbreviation StateApplied :: string where "StateApplied \<equiv> ''applied''"
abbreviation StateKept :: string where "StateKept \<equiv> ''kept''"
abbreviation StateReverted :: string where "StateReverted \<equiv> ''reverted''"
abbreviation StateProposed :: string where "StateProposed \<equiv> ''proposed''"

definition ErrManagedByGitOps :: goError where "ErrManagedByGitOps = Msg ''managed by GitOps''"
definition ErrNothingToApply :: goError where
  "ErrNothingToApply = Msg ''the advice changes no request of this workload''"
definition ErrUnsupported :: goError where
  "ErrUnsupported = Msg ''only Deployments, StatefulSets and Argo Rollouts with their own pod template can be changed''"
definition ErrAmbiguousWorkload :: goError where "ErrAmbiguousWorkload = Msg ''more than one workload matches''"

subsection \<open>Reading a workload\<close>

definition rolloutNamed :: "string \<Rightarrow> string \<Rightarrow> Unstr" where
  "rolloutNamed ns name =
     \<lparr>uGroup = ''argoproj.io'', uVersion = ''v1alpha1'', uKind = ''Rollout'',
      uMeta = \<lparr>omName = name, omNamespace = ns, omLabels = (\<lambda>_. None), omAnnotations = (\<lambda>_. None), omOwners = [],
               omGeneration = 0\<rparr>, uObject = JObj []\<rparr>"

definition load :: "'w upkeep \<Rightarrow> string \<Rightarrow> string \<Rightarrow> string \<Rightarrow> ('w, workload reply) io" where
  "load up ns kind name =
     (if kind = ''Deployment''
      then do { r \<leftarrow> ask (getDeployment up ns name); State_Monad.return (map_sum id Deployment r) }
      else if kind = ''StatefulSet''
      then do { r \<leftarrow> ask (getStatefulSet (cluster up) ns name); State_Monad.return (map_sum id StatefulSet r) }
      else if kind = ''Rollout''
      then do { r \<leftarrow> ask (getUnstructured (cluster up) (rolloutNamed ns name)); State_Monad.return (map_sum id Unstructured r) }
      else State_Monad.return (Inl ErrUnsupported))"

text \<open>The containers of a Rollout that do not convert are left out of the list, and so of what is
  written back.\<close>

abbreviation containersPath :: "string list" where
  "containersPath \<equiv> [''spec'', ''template'', ''spec'', ''containers'']"

fun rawContainer :: "'w upkeep \<Rightarrow> json \<Rightarrow> Container option" where
  "rawContainer up (JObj m) = readContainer up (JObj m)"
| "rawContainer up _ = None"

fun writeContainers :: "'w upkeep \<Rightarrow> Container list \<Rightarrow> json list reply" where
  "writeContainers up [] = Inr []"
| "writeContainers up (c # cs) =
     (case writeContainer up c of
        Inl e \<Rightarrow> Inl (Msg e)
      | Inr j \<Rightarrow> map_sum id (\<lambda>js. j # js) (writeContainers up cs))"

definition setRollout :: "'w upkeep \<Rightarrow> Unstr \<Rightarrow> Container list \<Rightarrow> workload reply" where
  "setRollout up u cs =
     (case writeContainers up cs of
        Inl e \<Rightarrow> Inl e
      | Inr js \<Rightarrow>
          (case setNestedField containersPath (JArr js) (uObject u) of
             None \<Rightarrow> Inl (Msg ''value cannot be set because .spec.template.spec is not a map'')
           | Some j \<Rightarrow> Inr (Unstructured (u\<lparr>uObject := j\<rparr>))))"

fun podSpec ::
    "'w upkeep \<Rightarrow> workload \<Rightarrow> (Container list \<times> (Container list \<Rightarrow> workload reply) \<times> LabelSelector option) reply" where
  "podSpec up (Deployment d) =
     Inr (podContainers up (awTemplate d),
          \<lambda>cs. Inr (Deployment (d\<lparr>awTemplate := withPodContainers up cs (awTemplate d)\<rparr>)), awSelector d)"
| "podSpec up (StatefulSet s) =
     Inr (podContainers up (awTemplate s),
          \<lambda>cs. Inr (StatefulSet (s\<lparr>awTemplate := withPodContainers up cs (awTemplate s)\<rparr>)), awSelector s)"
| "podSpec up (Unstructured u) =
     (case nestedField containersPath (uObject u) of
        Some (JArr raw) \<Rightarrow>
          Inr (List.map_filter (rawContainer up) raw, setRollout up u,
               map_option (\<lambda>m. selectorLeft up (JObj m)) (nestedMap [''spec'', ''selector''] (uObject u)))
      | _ \<Rightarrow> Inl (Wrap ''this Rollout takes its pods from a Deployment (workloadRef); change that Deployment'' ErrUnsupported))"

subsection \<open>Requests and limits\<close>

abbreviation CPU :: string where "CPU \<equiv> ''cpu''"
abbreviation Memory :: string where "Memory \<equiv> ''memory''"

definition quantityString :: "(string \<times> Quantity) list \<Rightarrow> string \<Rightarrow> string" where
  "quantityString l n = (case map_of l n of Some q \<Rightarrow> qText q | None \<Rightarrow> [])"

definition valuesOf :: "Container \<Rightarrow> ResourceValues" where
  "valuesOf c =
     \<lparr>rvCPURequest = quantityString (ctRequests c) CPU, rvCPULimit = quantityString (ctLimits c) CPU,
      rvMemoryRequest = quantityString (ctRequests c) Memory, rvMemoryLimit = quantityString (ctLimits c) Memory\<rparr>"

definition parsedResource :: "'w upkeep \<Rightarrow> string \<Rightarrow> Quantity option" where
  "parsedResource up s = (if s = [] then None else parseQuantity up s)"

text \<open>A nil map reads as an empty one; the order of a list that stands for a map is of no importance.\<close>

definition resources :: "'w upkeep \<Rightarrow> string \<Rightarrow> string \<Rightarrow> (string \<times> Quantity) list" where
  "resources up cpu mem =
     (case parsedResource up cpu of Some q \<Rightarrow> [(CPU, q)] | None \<Rightarrow> [])
     @ (case parsedResource up mem of Some q \<Rightarrow> [(Memory, q)] | None \<Rightarrow> [])"

definition recommended :: "'w upkeep \<Rightarrow> ResourceAdvice \<Rightarrow> Quantity option" where
  "recommended up a =
     (if raAction a \<in> {ActionReduce, ActionIncrease, ActionSet} then parsedResource up (raRecommended a) else None)"

definition setRequest :: "string \<Rightarrow> Quantity \<Rightarrow> Container \<Rightarrow> Container" where
  "setRequest n q c =
     (let q' = (case map_of (ctLimits c) n of Some limit \<Rightarrow> if qValue limit < qValue q then limit else q | None \<Rightarrow> q)
      in c\<lparr>ctRequests := AList.update n q' (ctRequests c)\<rparr>)"

subsection \<open>Applying\<close>

definition adviceFor :: "WorkloadAdvice \<Rightarrow> string \<Rightarrow> ContainerAdvice option" where
  "adviceFor a container = find (\<lambda>ca. caName ca = container) (waContainers a)"

definition setAdvised :: "'w upkeep \<Rightarrow> string \<Rightarrow> ResourceAdvice \<Rightarrow> Container \<Rightarrow> Container" where
  "setAdvised up n a c = (case recommended up a of Some q \<Rightarrow> setRequest n q c | None \<Rightarrow> c)"

text \<open>A container with its advice, and what to record when a value changed.\<close>

definition adviseContainer :: "'w upkeep \<Rightarrow> WorkloadAdvice \<Rightarrow> Container \<Rightarrow> Container \<times> ContainerOptimization option" where
  "adviseContainer up advice c =
     (case adviceFor advice (ctName c) of
        None \<Rightarrow> (c, None)
      | Some ca \<Rightarrow>
          let c' = setAdvised up Memory (caMemory ca) (setAdvised up CPU (caCPU ca) c)
          in (c', if valuesOf c' \<noteq> valuesOf c
                  then Some \<lparr>coName = ctName c, coOriginal = valuesOf c, coOptimized = valuesOf c'\<rparr> else None))"

definition noValues :: ResourceValues where
  "noValues = \<lparr>rvCPURequest = [], rvCPULimit = [], rvMemoryRequest = [], rvMemoryLimit = []\<rparr>"

definition newChange :: "WorkloadAdvice \<Rightarrow> string \<Rightarrow> WorkloadOptimization" where
  "newChange advice who =
     \<lparr>woName = waName advice, woKind = waKind advice, woOriginal = noValues, woOptimized = noValues, woContainers = [],
      woAppliedAt = None, woAppliedBy = who, woState = StateApplied, woReason = [], woPullRequest = []\<rparr>"

definition prepared :: "'w upkeep \<Rightarrow> WorkloadAdvice \<Rightarrow> string \<Rightarrow> workload \<Rightarrow>
    (WorkloadOptimization \<times> goError) + WorkloadOptimization \<times> workload" where
  "prepared up advice who obj =
     (let change = newChange advice who
      in case GitOpsOwnerOf obj of
           Some owner \<Rightarrow>
             Inl (change, Wrap (ownerString owner @ '' would put the old requests back; open a pull request instead'') ErrManagedByGitOps)
         | None \<Rightarrow>
             (case podSpec up obj of
                Inl e \<Rightarrow> Inl (change, e)
              | Inr (containers, put, _) \<Rightarrow>
                  let advised = map (adviseContainer up advice) containers;
                      change' = change\<lparr>woContainers := List.map_filter snd advised\<rparr>
                  in if woContainers change' = [] then Inl (change', ErrNothingToApply)
                     else (case put (map fst advised) of
                             Inl e \<Rightarrow> Inl (change', e)
                           | Inr obj' \<Rightarrow> Inr (change', obj'))))"

definition appliedAt :: "time \<Rightarrow> WorkloadOptimization \<Rightarrow> WorkloadOptimization" where
  "appliedAt now change =
     change\<lparr>woAppliedAt := Some now, woOriginal := coOriginal (hd (woContainers change)),
            woOptimized := coOptimized (hd (woContainers change))\<rparr>"

subsection \<open>The record of changes\<close>

definition recorded :: "WorkloadOptimization \<Rightarrow> NamespaceOptimization \<Rightarrow> NamespaceOptimization" where
  "recorded change opt =
     (let ws = filter (\<lambda>w. \<not> (woKind w = woKind change \<and> woName w = woName change)) (noWorkloads opt) @ [change]
      in opt\<lparr>noWorkloads := ws,
             noOptimizedAt := (case woAppliedAt change of Some t \<Rightarrow> t | None \<Rightarrow> noOptimizedAt opt),
             noActive := list_ex (\<lambda>w. woState w = StateApplied \<or> woState w = StateKept \<or> (woState w = [] \<and> noActive opt)) ws\<rparr>)"

definition newOptimization :: "'w upkeep \<Rightarrow> string \<Rightarrow> NamespaceOptimization" where
  "newOptimization up ns =
     \<lparr>noNamespace = operatorNamespace up, noName = ns, noVersion = 0, noTarget = ns, noActive = False,
      noOptimizedAt = zeroTime, noWorkloads = []\<rparr>"

definition changeRecord :: "'w upkeep \<Rightarrow> string \<Rightarrow> WorkloadOptimization \<Rightarrow> ('w, unit reply) io" where
  "changeRecord up ns change =
     do { r \<leftarrow> ask (getOptimization up (operatorNamespace up) ns);
          attempt (case r of
                     Inr opt \<Rightarrow> State_Monad.return (Inr opt)
                   | Inl e \<Rightarrow>
                       if IsNotFound e
                       then act (CreateOptimization (newOptimization up ns)) (createOptimization up (newOptimization up ns))
                       else State_Monad.return (Inl e)) (\<lambda>opt.
          act (UpdateOptimizationStatus (recorded change opt)) (updateOptimizationStatus up (recorded change opt))) }"

definition Record :: "'w upkeep \<Rightarrow> string \<Rightarrow> WorkloadOptimization \<Rightarrow> ('w, unit reply) io" where
  "Record up ns change =
     retryOnError (moreTries up) (\<lambda>e. IsConflict e \<or> IsAlreadyExists e) (changeRecord up ns change)"

subsection \<open>Putting back\<close>

definition restoreContainer :: "'w upkeep \<Rightarrow> ResourceValues \<Rightarrow> Container \<Rightarrow> Container" where
  "restoreContainer up v c =
     c\<lparr>ctRequests := resources up (rvCPURequest v) (rvMemoryRequest v),
       ctLimits := resources up (rvCPULimit v) (rvMemoryLimit v)\<rparr>"

fun restoreContainers :: "'w upkeep \<Rightarrow> ContainerOptimization list \<Rightarrow> Container list \<Rightarrow> Container list" where
  "restoreContainers up [] cs = cs"
| "restoreContainers up (co # rest) cs =
     restoreContainers up rest
       (map (\<lambda>c. if ctName c = coName co then restoreContainer up (coOriginal co) c else c) cs)"

text \<open>A record made before containers were recorded is about the first one.\<close>

definition originals :: "WorkloadOptimization \<Rightarrow> Container \<Rightarrow> ContainerOptimization list" where
  "originals change c =
     (if woContainers change = []
      then [\<lparr>coName = ctName c, coOriginal = woOriginal change, coOptimized = noValues\<rparr>] else woContainers change)"

text \<open>A workload without containers is left as it is.\<close>

definition restored :: "'w upkeep \<Rightarrow> WorkloadOptimization \<Rightarrow> workload \<Rightarrow> workload option reply" where
  "restored up change obj =
     (case podSpec up obj of
        Inl e \<Rightarrow> Inl e
      | Inr ([], put, _) \<Rightarrow> Inr None
      | Inr (c # cs, put, _) \<Rightarrow> map_sum id Some (put (restoreContainers up (originals change c) (c # cs))))"

definition restore :: "'w upkeep \<Rightarrow> string \<Rightarrow> WorkloadOptimization \<Rightarrow> ('w, unit reply) io" where
  "restore up ns change =
     attempt (load up ns (woKind change) (woName change)) (\<lambda>obj.
     case restored up change obj of
       Inl e \<Rightarrow> State_Monad.return (Inl e)
     | Inr None \<Rightarrow> State_Monad.return (Inr ())
     | Inr (Some obj') \<Rightarrow>
         attempt (act (PatchWorkload obj obj') (patchWorkload (cluster up) obj obj')) (\<lambda>_. State_Monad.return (Inr ())))"

text \<open>With an error comes the change as far as it was made.\<close>

definition Apply ::
    "'w upkeep \<Rightarrow> string \<Rightarrow> WorkloadAdvice \<Rightarrow> string \<Rightarrow> time \<Rightarrow> ('w, WorkloadOptimization \<times> goError option) io" where
  "Apply up ns advice who now =
     do { r \<leftarrow> load up ns (waKind advice) (waName advice);
          case r of
            Inl e \<Rightarrow> State_Monad.return (newChange advice who, Some e)
          | Inr obj \<Rightarrow>
              (case prepared up advice who obj of
                 Inl (change, e) \<Rightarrow> State_Monad.return (change, Some e)
               | Inr (change, obj') \<Rightarrow>
                   do { p \<leftarrow> act (PatchWorkload obj obj') (patchWorkload (cluster up) obj obj');
                        case p of
                          Inl e \<Rightarrow> State_Monad.return (change, Some e)
                        | Inr _ \<Rightarrow>
                            do { s \<leftarrow> Record up ns (appliedAt now change);
                                 case s of
                                   Inr _ \<Rightarrow> State_Monad.return (appliedAt now change, None)
                                 | Inl e \<Rightarrow>
                                     do { u \<leftarrow> restore up ns (appliedAt now change);
                                          State_Monad.return (appliedAt now change, Some
                                            (case u of
                                               Inl e' \<Rightarrow> Wrap ''could not record the change, and putting the old requests back failed too''
                                                           (Aggregate [e, e'])
                                             | Inr _ \<Rightarrow> Wrap ''could not record the change, so it was undone'' e)) } } }) }"

definition noChange :: WorkloadOptimization where
  "noChange =
     \<lparr>woName = [], woKind = [], woOriginal = noValues, woOptimized = noValues, woContainers = [],
      woAppliedAt = None, woAppliedBy = [], woState = [], woReason = [], woPullRequest = []\<rparr>"

definition reverted :: "string \<Rightarrow> WorkloadOptimization \<Rightarrow> WorkloadOptimization" where
  "reverted reason change = change\<lparr>woState := StateReverted, woReason := reason\<rparr>"

definition putBack ::
    "'w upkeep \<Rightarrow> string \<Rightarrow> string \<Rightarrow> WorkloadOptimization \<Rightarrow> ('w, WorkloadOptimization \<times> goError option) io" where
  "putBack up ns reason change =
     do { s \<leftarrow> Record up ns (reverted reason change);
          State_Monad.return (reverted reason change, case s of Inl e \<Rightarrow> Some e | Inr _ \<Rightarrow> None) }"

definition Revert ::
    "'w upkeep \<Rightarrow> string \<Rightarrow> string \<Rightarrow> string \<Rightarrow> string \<Rightarrow> ('w, WorkloadOptimization \<times> goError option) io" where
  "Revert up ns kind name reason =
     do { r \<leftarrow> ask (getOptimization up (operatorNamespace up) ns);
          case r of
            Inl e \<Rightarrow> State_Monad.return (noChange, Some e)
          | Inr opt \<Rightarrow>
              (case filter (\<lambda>w. woName w = name \<and> (kind = [] \<or> woKind w = kind)) (noWorkloads opt) of
                 [] \<Rightarrow> State_Monad.return (noChange, Some (Api NotFound))
               | [change] \<Rightarrow>
                   do { u \<leftarrow> (if woState change \<noteq> StateProposed \<and> woState change \<noteq> StateReverted
                              then restore up ns change else State_Monad.return (Inr ()));
                        case u of
                          Inl e \<Rightarrow>
                            if IsNotFound e then putBack up ns reason change else State_Monad.return (change, Some e)
                        | Inr _ \<Rightarrow> putBack up ns reason change }
               | ms \<Rightarrow>
                   State_Monad.return (noChange, Some (Wrap (itoa (int (length ms)) @ '' workloads named '' @ name
                     @ '' have a change; say which kind'') ErrAmbiguousWorkload))) }"

fun revertEach :: "'w upkeep \<Rightarrow> string \<Rightarrow> string \<Rightarrow> WorkloadOptimization list \<Rightarrow> ('w, unit reply) io" where
  "revertEach up ns reason [] = State_Monad.return (Inr ())"
| "revertEach up ns reason (w # ws) =
     (if woState w = StateReverted \<or> woState w = StateProposed then revertEach up ns reason ws
      else do { (_, failure) \<leftarrow> Revert up ns (woKind w) (woName w) reason;
                case failure of
                  Some e \<Rightarrow> State_Monad.return (Inl (Wrap (''could not restore '' @ woKind w @ '' '' @ woName w) e))
                | None \<Rightarrow> revertEach up ns reason ws })"

definition RevertAll :: "'w upkeep \<Rightarrow> string \<Rightarrow> string \<Rightarrow> ('w, unit reply) io" where
  "RevertAll up ns reason =
     attempt (ask (getOptimization up (operatorNamespace up) ns)) (\<lambda>opt. revertEach up ns reason (noWorkloads opt))"

end
