(* ===== verification/Guard.thy ===== *)
theory Guard
  imports Optimize
begin

section \<open>The guard of right-sized workloads (internal/optimize/guard.go)\<close>

text \<open>
  The guard watches the changes that are applied: one whose new pods are killed, crash-loop or
  restart is put back, one that stays quiet for the period is kept. What is wrong is a text, empty
  when nothing is. The 30-second ticker only calls \<open>Check\<close>; logs are left out.
\<close>

abbreviation DefaultGuardMinutes :: int where "DefaultGuardMinutes \<equiv> 30"

text \<open>The period is computed in 64 bits.\<close>

definition guardPeriod :: "CostDeckConfig \<Rightarrow> duration" where
  "guardPeriod cfg = i64 ((if 0 < cdGuardMinutes cfg then cdGuardMinutes cfg else DefaultGuardMinutes) * minute)"

definition containerTrouble :: "string \<Rightarrow> ContainerStatus \<Rightarrow> string" where
  "containerTrouble pod cs =
     (let which = ''container '' @ csName cs @ '' of pod '' @ pod
      in if csTerminated cs = Some ''OOMKilled'' then which @ '' was OOMKilled''
         else if csWaiting cs = Some ''CrashLoopBackOff'' then which @ '' is crash-looping''
         else if 0 < csRestarts cs then which @ '' restarted '' @ itoa (csRestarts cs) @ '' time(s)''
         else [])"

text \<open>A pod from before the change is left out.\<close>

fun podTrouble :: "time \<Rightarrow> ObservedPod list \<Rightarrow> string" where
  "podTrouble since [] = []"
| "podTrouble since (p # ps) =
     (if opCreated p < since then podTrouble since ps
      else case find (\<lambda>t. t \<noteq> []) (map (containerTrouble (opName p)) (opContainers p)) of
             Some t \<Rightarrow> t
           | None \<Rightarrow> podTrouble since ps)"

definition trouble :: "'w upkeep \<Rightarrow> string \<Rightarrow> time \<Rightarrow> WorkloadOptimization \<Rightarrow> ('w, string) io" where
  "trouble up ns since w =
     do { r \<leftarrow> load up ns (woKind w) (woName w);
          case r of
            Inl _ \<Rightarrow> State_Monad.return []
          | Inr obj \<Rightarrow>
              (case podSpec up obj of
                 Inr (_, _, Some sel) \<Rightarrow>
                   (case asSelector (cluster up) sel of
                      Some False \<Rightarrow>
                        do { l \<leftarrow> ask (listObservedPods up ns sel);
                             State_Monad.return (case l of Inl _ \<Rightarrow> [] | Inr pods \<Rightarrow> podTrouble since pods) }
                    | _ \<Rightarrow> State_Monad.return [])
               | _ \<Rightarrow> State_Monad.return []) }"

text \<open>The arrow is UTF-8.\<close>

definition putBackText :: "string \<Rightarrow> WorkloadOptimization \<Rightarrow> string \<Rightarrow> string" where
  "putBackText ns w t =
     [CHR 0xE2, CHR 0x86, CHR 0xA9, CHR 0xEF, CHR 0xB8, CHR 0x8F] @ '' Put back the requests of '' @ woKind w @ '' `'' @ ns @ ''/''
     @ woName w @ ''`: '' @ t @ '' after right-sizing.''"

definition guardOne ::
    "'w upkeep \<Rightarrow> time \<Rightarrow> duration \<Rightarrow> string \<Rightarrow> WorkloadOptimization \<Rightarrow> ('w, goError list) io" where
  "guardOne up now period ns w =
     (case woAppliedAt w of
        Some since \<Rightarrow>
          if woState w \<noteq> StateApplied then State_Monad.return []
          else do { t \<leftarrow> trouble up ns since w;
                    if t \<noteq> []
                    then do { (_, failure) \<leftarrow> Revert up ns (woKind w) (woName w) t;
                              case failure of
                                Some e \<Rightarrow> State_Monad.return [Wrap (''put back '' @ woKind w @ '' '' @ ns @ ''/'' @ woName w) e]
                              | None \<Rightarrow> do { _ \<leftarrow> notice up ''alerts'' (putBackText ns w t); State_Monad.return [] } }
                    else if period \<le> now - since
                    then do { r \<leftarrow> Record up ns (w\<lparr>woState := StateKept\<rparr>);
                              State_Monad.return (case r of
                                  Inl e \<Rightarrow> [Wrap (''keep '' @ woKind w @ '' '' @ ns @ ''/'' @ woName w) e]
                                | Inr _ \<Rightarrow> []) }
                    else State_Monad.return [] }
      | None \<Rightarrow> State_Monad.return [])"

fun guardEach ::
    "'w upkeep \<Rightarrow> time \<Rightarrow> duration \<Rightarrow> (string \<times> WorkloadOptimization) list \<Rightarrow> ('w, goError list) io" where
  "guardEach up now period [] = State_Monad.return []"
| "guardEach up now period ((ns, w) # ws) =
     do { errs \<leftarrow> guardOne up now period ns w; more \<leftarrow> guardEach up now period ws; State_Monad.return (errs @ more) }"

definition Check :: "'w upkeep \<Rightarrow> ('w, unit reply) io" where
  "Check up =
     attempt (readCostDeckConfig up) (\<lambda>cfg.
     do { now \<leftarrow> ask (clockNow (cluster up));
          attempt (ask (listOptimizations up (operatorNamespace up))) (\<lambda>opts.
          do { errs \<leftarrow> guardEach up now (guardPeriod cfg)
                         (concat (map (\<lambda>opt. map (Pair (noTarget opt)) (noWorkloads opt)) opts));
               State_Monad.return (if errs = [] then Inr () else Inl (Aggregate errs)) }) })"

end
