(* ===== verification/RightSizing.thy ===== *)
theory RightSizing
  imports Guard
begin

section \<open>The properties of right-sizing\<close>

text \<open>
  What applying advice changes of a workload, that putting it back gives the old requests and limits
  again, and that the guard acts only with a reason.
\<close>

subsection \<open>The containers of a workload\<close>

definition containersOf :: "'w upkeep \<Rightarrow> workload \<Rightarrow> Container list" where
  "containersOf up obj = (case podSpec up obj of Inr (cs, _, _) \<Rightarrow> cs | Inl _ \<Rightarrow> [])"

text \<open>What is written into a pod template is read from it, and a container converts to JSON and back.\<close>

definition keepsContainers :: "'w upkeep \<Rightarrow> bool" where
  "keepsContainers up \<longleftrightarrow>
     (\<forall>cs t. podContainers up (withPodContainers up cs t) = cs) \<and>
     (\<forall>c. \<exists>j. writeContainer up c = Inr j \<and> rawContainer up j = Some c)"

text \<open>The text of a quantity that was parsed is read as the same quantity.\<close>

definition canonicalQuantities :: "'w upkeep \<Rightarrow> bool" where
  "canonicalQuantities up \<longleftrightarrow> (\<forall>s q. parseQuantity up s = Some q \<longrightarrow> parsedResource up (qText q) = Some q)"

lemma writeContainers_total:
  assumes "keepsContainers up"
  obtains js where "writeContainers up cs = Inr js" "List.map_filter (rawContainer up) js = cs"
proof -
  have "\<exists>js. writeContainers up cs = Inr js \<and> List.map_filter (rawContainer up) js = cs"
  proof (induction cs)
    case (Cons c cs)
    from assms obtain j where "writeContainer up c = Inr j" "rawContainer up j = Some c"
      unfolding keepsContainers_def by blast
    with Cons show ?case by (auto simp: List.map_filter_simps)
  qed (simp add: List.map_filter_simps)
  then show thesis using that by blast
qed

lemma setNestedField_present:
  "nestedField ks j = Some v \<Longrightarrow> ks \<noteq> [] \<Longrightarrow> \<exists>j'. setNestedField ks w j = Some j'"
proof (induction ks w j rule: setNestedField.induct)
  case (2 k ks w m)
  from 2(3) obtain j where j: "map_of m k = Some j" "nestedField ks j = Some v"
    by (auto simp: Option.bind_eq_Some_conv)
  show ?case
  proof (cases ks)
    case (Cons k' ks')
    with 2(2) [OF j(1) j(2)] j show ?thesis by auto
  qed (use j in simp)
qed auto

lemma podSpec_put:
  assumes "keepsContainers up" "podSpec up obj = Inr (cs, put, sel)"
  obtains obj' put' sel' where "put cs' = Inr obj'" "podSpec up obj' = Inr (cs', put', sel')" "metaOf obj' = metaOf obj"
proof (cases obj)
  case (Unstructured u)
  from assms(2) Unstructured obtain raw where raw: "nestedField containersPath (uObject u) = Some (JArr raw)"
      "put = setRollout up u"
    by (auto split: option.splits json.splits)
  obtain js where js: "writeContainers up cs' = Inr js" "List.map_filter (rawContainer up) js = cs'"
    by (rule writeContainers_total [OF assms(1)])
  obtain j where j: "setNestedField containersPath (JArr js) (uObject u) = Some j"
    using setNestedField_present [OF raw(1)] by blast
  then have "nestedField containersPath j = Some (JArr js)" by (rule nestedField_set)
  with that [of "Unstructured (u\<lparr>uObject := j\<rparr>)"] js j raw(2) Unstructured show thesis
    by (simp add: setRollout_def del: nestedField.simps setNestedField.simps)
next
  case (Deployment d)
  with assms that show ?thesis by (auto simp: keepsContainers_def)
next
  case (StatefulSet d)
  with assms that show ?thesis by (auto simp: keepsContainers_def)
qed

subsection \<open>What the advice changes\<close>

text \<open>Only the requests for CPU and memory, each only to what the advice says or to a lower limit.\<close>

definition resized :: "'w upkeep \<Rightarrow> WorkloadAdvice \<Rightarrow> Container \<Rightarrow> Container \<Rightarrow> bool" where
  "resized up advice c c' \<longleftrightarrow>
     ctName c' = ctName c \<and> ctRest c' = ctRest c \<and> ctLimits c' = ctLimits c \<and>
     (\<forall>n. map_of (ctRequests c') n = map_of (ctRequests c) n \<or>
        (\<exists>ca a q. adviceFor advice (ctName c) = Some ca \<and> (n, a) \<in> {(CPU, caCPU ca), (Memory, caMemory ca)} \<and>
           recommended up a = Some q \<and>
           map_of (ctRequests c') n = Some (case map_of (ctLimits c) n of
              Some limit \<Rightarrow> if qValue limit < qValue q then limit else q | None \<Rightarrow> q)))"

lemma setRequest_fields [simp]:
  "ctName (setRequest n q c) = ctName c" "ctRest (setRequest n q c) = ctRest c" "ctLimits (setRequest n q c) = ctLimits c"
  "map_of (ctRequests (setRequest n q c)) m =
     (if m = n then Some (case map_of (ctLimits c) n of Some limit \<Rightarrow> if qValue limit < qValue q then limit else q | None \<Rightarrow> q)
      else map_of (ctRequests c) m)"
  by (simp_all add: setRequest_def Let_def update_conv')

lemma setAdvised_fields [simp]:
  "ctName (setAdvised up n a c) = ctName c" "ctRest (setAdvised up n a c) = ctRest c"
  "ctLimits (setAdvised up n a c) = ctLimits c"
  "map_of (ctRequests (setAdvised up n a c)) m =
     (case recommended up a of
        None \<Rightarrow> map_of (ctRequests c) m
      | Some q \<Rightarrow>
          if m = n then Some (case map_of (ctLimits c) n of Some limit \<Rightarrow> if qValue limit < qValue q then limit else q | None \<Rightarrow> q)
          else map_of (ctRequests c) m)"
  by (simp_all add: setAdvised_def split: option.split)

lemma adviseContainer_resized: "resized up advice c (fst (adviseContainer up advice c))"
  by (auto simp: resized_def adviseContainer_def Let_def split: option.split)

lemma adviseContainer_name [simp]: "ctName (fst (adviseContainer up advice c)) = ctName c"
  using adviseContainer_resized [of up advice c] by (simp add: resized_def)

lemma adviseContainer_recorded:
  assumes "snd (adviseContainer up advice c) = Some co"
  shows "coName co = ctName c" "coOriginal co = valuesOf c"
  using assms by (auto simp: adviseContainer_def Let_def split: option.splits if_splits)

lemma adviseContainer_unrecorded:
  "snd (adviseContainer up advice c) = None \<Longrightarrow> valuesOf (fst (adviseContainer up advice c)) = valuesOf c"
  by (auto simp: adviseContainer_def Let_def split: option.splits if_splits)

lemma preparedE:
  assumes "prepared up advice who obj = Inr (change, obj')"
  obtains cs put sel where "GitOpsOwnerOf obj = None" "podSpec up obj = Inr (cs, put, sel)"
    "woContainers change = List.map_filter (\<lambda>c. snd (adviseContainer up advice c)) cs" "woContainers change \<noteq> []"
    "put (map (\<lambda>c. fst (adviseContainer up advice c)) cs) = Inr obj'"
    "woKind change = waKind advice" "woName change = waName advice" "woState change = StateApplied"
  using assms unfolding prepared_def newChange_def Let_def
  by (auto simp: List.map_filter_def comp_def filter_map split: option.splits sum.splits if_splits)

subsection \<open>Putting back is exact for CPU and memory\<close>

definition canonical :: "'w upkeep \<Rightarrow> Container \<Rightarrow> bool" where
  "canonical up c \<longleftrightarrow>
     (\<forall>n q. n \<in> {CPU, Memory} \<and> (map_of (ctRequests c) n = Some q \<or> map_of (ctLimits c) n = Some q) \<longrightarrow> parsedResource up (qText q) = Some q)"

definition alike :: "Container \<Rightarrow> Container \<Rightarrow> bool" where
  "alike c c' \<longleftrightarrow>
     ctName c' = ctName c \<and> ctRest c' = ctRest c \<and>
     (\<forall>n \<in> {CPU, Memory}. map_of (ctRequests c') n = map_of (ctRequests c) n \<and> map_of (ctLimits c') n = map_of (ctLimits c) n)"

lemma parsed_quantityString:
  assumes "\<And>q. map_of l n = Some q \<Longrightarrow> parsedResource up (qText q) = Some q"
  shows "parsedResource up (quantityString l n) = map_of l n"
  using assms by (cases "map_of l n") (auto simp: quantityString_def parsedResource_def)

lemma map_of_resources [simp]:
  "map_of (resources up cpu mem) n =
     (if n = CPU then parsedResource up cpu else if n = Memory then parsedResource up mem else None)"
  by (auto simp: resources_def split: option.split)

lemma restoreContainer_alike:
  assumes "canonical up c" "resized up advice c c'"
  shows "alike c (restoreContainer up (valuesOf c) c')"
proof -
  have "parsedResource up (quantityString (ctRequests c) n) = map_of (ctRequests c) n"
       "parsedResource up (quantityString (ctLimits c) n) = map_of (ctLimits c) n" if "n \<in> {CPU, Memory}" for n
    using assms(1) that by (auto intro!: parsed_quantityString simp: canonical_def)
  with assms(2) show ?thesis
    by (auto simp: alike_def resized_def restoreContainer_def valuesOf_def)
qed

text \<open>A container whose values read the same was not changed.\<close>

lemma resized_canonical:
  assumes "canonicalQuantities up" "canonical up c" "resized up advice c c'"
  shows "canonical up c'"
  unfolding canonical_def
proof (intro allI impI, elim conjE)
  fix n q assume n: "n \<in> {CPU, Memory}" and q: "map_of (ctRequests c') n = Some q \<or> map_of (ctLimits c') n = Some q"
  have rec: "parsedResource up (qText x) = Some x" if "recommended up a = Some x" for a x
    using that assms(1) by (auto simp: recommended_def parsedResource_def canonicalQuantities_def split: if_splits)
  from assms(2) n have c: "map_of (ctRequests c) n = Some x \<or> map_of (ctLimits c) n = Some x \<Longrightarrow> parsedResource up (qText x) = Some x" for x
    unfolding canonical_def by blast
  have l: "ctLimits c' = ctLimits c" using assms(3) by (simp add: resized_def)
  have "map_of (ctRequests c') n = map_of (ctRequests c) n \<or> (\<exists>a x. recommended up a = Some x \<and> map_of (ctRequests c') n =
      Some (case map_of (ctLimits c) n of Some limit \<Rightarrow> if qValue limit < qValue x then limit else x | None \<Rightarrow> x))"
    using assms(3) unfolding resized_def by blast
  then show "parsedResource up (qText q) = Some q"
  proof (elim disjE exE conjE)
    assume "map_of (ctRequests c') n = map_of (ctRequests c) n"
    with q l c show ?thesis by auto
  next
    fix a x assume x: "recommended up a = Some x" and r: "map_of (ctRequests c') n =
      Some (case map_of (ctLimits c) n of Some limit \<Rightarrow> if qValue limit < qValue x then limit else x | None \<Rightarrow> x)"
    from q show ?thesis
    proof
      assume "map_of (ctRequests c') n = Some q"
      with r have "q = x \<or> map_of (ctLimits c) n = Some q" by (auto split: option.splits if_splits)
      with rec [OF x] c show ?thesis by auto
    qed (use l c in auto)
  qed
qed

lemma valuesOf_alike:
  assumes "canonical up c" "canonical up c'" "valuesOf c' = valuesOf c" "ctName c' = ctName c" "ctRest c' = ctRest c"
  shows "alike c c'"
proof -
  have "parsedResource up (quantityString (ctRequests x) n) = map_of (ctRequests x) n"
       "parsedResource up (quantityString (ctLimits x) n) = map_of (ctLimits x) n" if "canonical up x" "n \<in> {CPU, Memory}" for x n
    using that by (auto intro!: parsed_quantityString simp: canonical_def)
  note p = this
  show ?thesis
    using assms(3-5) p [OF assms(1)] p [OF assms(2)] unfolding alike_def valuesOf_def
    by (metis insertE ResourceValues.ext_inject singletonD)
qed

lemma restoreContainers_lookup:
  assumes "distinct (map coName orig)"
  shows "restoreContainers up orig cs = map (\<lambda>c. case find (\<lambda>co. coName co = ctName c) orig of
           Some co \<Rightarrow> restoreContainer up (coOriginal co) c | None \<Rightarrow> c) cs"
  using assms
proof (induction orig arbitrary: cs)
  case (Cons co orig)
  have n: "ctName (restoreContainer up v c) = ctName c" for v c by (simp add: restoreContainer_def)
  have "find (\<lambda>x. coName x = coName co) orig = None"
    using Cons.prems by (auto simp: find_None_iff) (metis image_eqI)
  with Cons n show ?case by (auto simp: comp_def intro!: map_cong)
qed simp

lemma appliedAt_fields [simp]: "woContainers (appliedAt now change) = woContainers change"
  by (simp add: appliedAt_def)

lemma recorded_names:
  "map coName (List.map_filter (\<lambda>c. snd (adviseContainer up advice c)) cs) =
     map ctName (filter (\<lambda>c. snd (adviseContainer up advice c) \<noteq> None) cs)"
  by (induction cs) (auto simp: List.map_filter_simps adviseContainer_recorded split: option.split)

lemma recorded_lookup:
  assumes "distinct (map ctName cs)" "c \<in> set cs"
  shows "find (\<lambda>co. coName co = ctName c) (List.map_filter (\<lambda>c. snd (adviseContainer up advice c)) cs)
    = snd (adviseContainer up advice c)"
  using assms
proof (induction cs)
  case (Cons x cs)
  have other: "find (\<lambda>co. coName co = ctName x) (List.map_filter (\<lambda>c. snd (adviseContainer up advice c)) cs) = None"
    if "ctName x \<notin> ctName ` set cs"
  proof -
    have "ctName x \<notin> set (map coName (List.map_filter (\<lambda>c. snd (adviseContainer up advice c)) cs))"
      using that unfolding recorded_names by auto
    then show ?thesis by (auto simp: find_None_iff) (metis image_eqI)
  qed
  show ?case
  proof (cases "c = x")
    case True
    with Cons.prems other show ?thesis
      by (auto simp: List.map_filter_simps adviseContainer_recorded split: option.split)
  next
    case False
    with Cons have "ctName x \<noteq> ctName c" "c \<in> set cs" by auto
    with Cons show ?thesis
      by (auto simp: List.map_filter_simps adviseContainer_recorded split: option.split)
  qed
qed simp

text \<open>C28. Putting a change back undoes it: when the advice was applied to a workload whose containers
  have different names, putting the recorded change back on the workload as it was patched gives every
  container its old CPU and memory requests and limits, and touches nothing else of it but other
  resources.\<close>

theorem Revert_undoes_Apply:
  assumes "keepsContainers up" "canonicalQuantities up"
    and "distinct (map ctName (containersOf up obj))" "list_all (canonical up) (containersOf up obj)"
    and "prepared up advice who obj = Inr (change, obj')"
  shows "\<exists>obj''. restored up (appliedAt now change) obj' = Inr (Some obj'')
    \<and> metaOf obj'' = metaOf obj \<and> list_all2 alike (containersOf up obj) (containersOf up obj'')"
proof -
  obtain cs put sel where p: "podSpec up obj = Inr (cs, put, sel)"
      "woContainers change = List.map_filter (\<lambda>c. snd (adviseContainer up advice c)) cs" "woContainers change \<noteq> []"
      "put (map (\<lambda>c. fst (adviseContainer up advice c)) cs) = Inr obj'"
    by (rule preparedE [OF assms(5)])
  have d: "distinct (map ctName cs)" "list_all (canonical up) cs" using assms(3,4) p(1) by (simp_all add: containersOf_def)
  let ?cs' = "map (\<lambda>c. fst (adviseContainer up advice c)) cs"
  obtain put' sel' where o': "podSpec up obj' = Inr (?cs', put', sel')" "metaOf obj' = metaOf obj"
    by (rule podSpec_put [OF assms(1) p(1), of ?cs']) (use p(4) in auto)
  let ?cs'' = "restoreContainers up (woContainers change) ?cs'"
  obtain obj'' put'' sel'' where o'': "put' ?cs'' = Inr obj''" "podSpec up obj'' = Inr (?cs'', put'', sel'')"
      "metaOf obj'' = metaOf obj'"
    by (rule podSpec_put [OF assms(1) o'(1)])
  have "?cs' \<noteq> []" using p(2,3) by (auto simp: List.map_filter_simps)
  then have "restored up (appliedAt now change) obj' = Inr (Some obj'')"
    using o'(1) o''(1) p(3) by (auto simp: restored_def originals_def split: list.split)
  moreover have "distinct (map coName (woContainers change))"
    unfolding p(2) recorded_names using d(1) by (rule distinct_map_filter)
  then have "?cs'' = map (\<lambda>c. case snd (adviseContainer up advice c) of
      Some co \<Rightarrow> restoreContainer up (coOriginal co) (fst (adviseContainer up advice c))
    | None \<Rightarrow> fst (adviseContainer up advice c)) cs"
    using recorded_lookup [OF d(1), of _ up advice]
    by (simp add: restoreContainers_lookup p(2) comp_def cong: map_cong)
  moreover have "alike c (case snd (adviseContainer up advice c) of
      Some co \<Rightarrow> restoreContainer up (coOriginal co) (fst (adviseContainer up advice c))
    | None \<Rightarrow> fst (adviseContainer up advice c))" if "c \<in> set cs" for c
  proof (cases "snd (adviseContainer up advice c)")
    case None
    have r: "resized up advice c (fst (adviseContainer up advice c))" by (rule adviseContainer_resized)
    from d(2) that have c: "canonical up c" by (simp add: list_all_iff)
    show ?thesis
      using valuesOf_alike [OF c resized_canonical [OF assms(2) c r] adviseContainer_unrecorded [OF None]] r
      by (simp add: None resized_def)
  next
    case (Some co)
    from d(2) that have "canonical up c" by (simp add: list_all_iff)
    from restoreContainer_alike [OF this adviseContainer_resized] show ?thesis
      by (simp add: Some adviseContainer_recorded(2) [OF Some])
  qed
  ultimately show ?thesis
    using p(1) o'(2) o''(2,3) by (auto simp: containersOf_def list_all2_conv_all_nth)
qed

text \<open>What is neither CPU nor memory is lost when a change is put back.\<close>

lemma putting_back_drops_other_resources:
  assumes "n \<notin> {CPU, Memory}"
  shows "map_of (ctRequests (restoreContainer up v c)) n = None" "map_of (ctLimits (restoreContainer up v c)) n = None"
  using assms by (simp_all add: restoreContainer_def)

subsection \<open>What the operations ask for\<close>

definition loaded :: "'w upkeep \<Rightarrow> string \<Rightarrow> string \<Rightarrow> string \<Rightarrow> workload \<Rightarrow> bool" where
  "loaded up ns kind name obj \<longleftrightarrow>
     (case obj of
        Deployment d \<Rightarrow> kind = ''Deployment'' \<and> Inr d \<in> set_state (getDeployment up ns name)
      | StatefulSet s \<Rightarrow> kind = ''StatefulSet'' \<and> Inr s \<in> set_state (getStatefulSet (cluster up) ns name)
      | Unstructured u \<Rightarrow> kind = ''Rollout'' \<and> Inr u \<in> set_state (getUnstructured (cluster up) (rolloutNamed ns name)))"

definition recordsChange :: "'w upkeep \<Rightarrow> string \<Rightarrow> WorkloadOptimization \<Rightarrow> change \<Rightarrow> bool" where
  "recordsChange up ns change c \<longleftrightarrow>
     c = CreateOptimization (newOptimization up ns) \<or> (\<exists>opt. c = UpdateOptimizationStatus (recorded change opt))"

definition putsBack :: "'w upkeep \<Rightarrow> WorkloadOptimization \<Rightarrow> change \<Rightarrow> bool" where
  "putsBack up change c \<longleftrightarrow> (\<exists>obj obj'. c = PatchWorkload obj obj' \<and> restored up change obj = Inr (Some obj'))"

lemma load_gives: "gives (load up ns kind name) (\<lambda>r cs. cs = [] \<and> (\<forall>obj. r = Inr obj \<longrightarrow> loaded up ns kind name obj))"
  unfolding load_def by (intro wp) (auto simp: loaded_def map_sum_def split: sum.splits)

lemma load_only: "only P (load up ns kind name)"
  unfolding load_def by (intro only_if only_bind only_ask only_return)

lemma Record_only: "only (recordsChange up ns change) (Record up ns change)"
  unfolding Record_def changeRecord_def
  by (rule retryOnError_only) (auto intro!: only_intros simp: recordsChange_def split: sum.split)

lemma restore_only: "only (putsBack up change) (restore up ns change)"
  unfolding restore_def
  by (auto intro!: only_attempt [OF load_only] only_intros simp: putsBack_def split: sum.split option.split)


end
