(* ===== verification/GuardGuarantees.thy ===== *)
theory GuardGuarantees
  imports RightSizing
begin

section \<open>The guard acts with a reason\<close>

text \<open>
  What the guard changes: a watched change is put back only when a pod started since then is in
  trouble, and kept only when its period is over. Everything it asks for is about such a change.
\<close>

subsection \<open>Trouble\<close>

definition troubled :: "time \<Rightarrow> ObservedPod list \<Rightarrow> bool" where
  "troubled since pods \<longleftrightarrow>
     (\<exists>p \<in> set pods. since \<le> opCreated p \<and>
        (\<exists>cs \<in> set (opContainers p). csTerminated cs = Some ''OOMKilled'' \<or> csWaiting cs = Some ''CrashLoopBackOff'' \<or> 0 < csRestarts cs))"

lemma containerTrouble_iff:
  "containerTrouble pod cs \<noteq> [] \<longleftrightarrow>
     csTerminated cs = Some ''OOMKilled'' \<or> csWaiting cs = Some ''CrashLoopBackOff'' \<or> 0 < csRestarts cs"
  by (simp add: containerTrouble_def Let_def)

lemma podTrouble_iff: "podTrouble since pods \<noteq> [] \<longleftrightarrow> troubled since pods"
proof (induction pods)
  case (Cons p pods)
  show ?case
  proof (cases "opCreated p < since")
    case True
    with Cons show ?thesis by (auto simp: troubled_def)
  next
    case False
    show ?thesis
    proof (cases "find (\<lambda>t. t \<noteq> []) (map (containerTrouble (opName p)) (opContainers p))")
      case None
      then have "\<forall>cs \<in> set (opContainers p). containerTrouble (opName p) cs = []" by (auto simp: find_None_iff)
      with containerTrouble_iff [of "opName p"] have "troubled since (p # pods) = troubled since pods"
        by (auto simp: troubled_def)
      with False Cons None show ?thesis by simp
    next
      case (Some t)
      then obtain cs where cs: "cs \<in> set (opContainers p)" "t = containerTrouble (opName p) cs" "t \<noteq> []"
        by (auto simp: find_Some_iff) (metis nth_mem)
      with containerTrouble_iff [of "opName p" cs] False have "troubled since (p # pods)"
        unfolding troubled_def by (intro bexI [of _ p] conjI bexI [of _ cs]) auto
      with cs False Some show ?thesis by simp
    qed
  qed
qed (simp add: troubled_def)

definition inTrouble :: "'w upkeep \<Rightarrow> string \<Rightarrow> time \<Rightarrow> WorkloadOptimization \<Rightarrow> string \<Rightarrow> bool" where
  "inTrouble up ns since w t \<longleftrightarrow>
     (\<exists>obj cs put sel pods. loaded up ns (woKind w) (woName w) obj \<and> podSpec up obj = Inr (cs, put, Some sel)
        \<and> asSelector (cluster up) sel = Some False \<and> Inr pods \<in> set_state (listObservedPods up ns sel)
        \<and> troubled since pods \<and> t = podTrouble since pods)"

lemma trouble_gives: "gives (trouble up ns since w) (\<lambda>t cs. cs = [] \<and> (t \<noteq> [] \<longrightarrow> inTrouble up ns since w t))"
  unfolding trouble_def
proof (rule gives_bind, rule gives_mono [OF load_gives], goal_cases)
  case (1 r cs)
  show ?case
  proof (cases r)
    case (Inr obj)
    with 1 have l: "cs = []" "loaded up ns (woKind w) (woName w) obj" by auto
    have "gives (ask (listObservedPods up ns sel) \<bind> (\<lambda>l. State_Monad.return (case l of Inl _ \<Rightarrow> [] | Inr pods \<Rightarrow> podTrouble since pods)))
        (\<lambda>t cs. cs = [] \<and> (t \<noteq> [] \<longrightarrow> inTrouble up ns since w t))"
      if "podSpec up obj = Inr (cs', put, Some sel)" "asSelector (cluster up) sel = Some False" for cs' put sel
    proof (intro wp, clarsimp split: sum.splits, goal_cases)
      case (1 pods)
      with l that show ?case
        unfolding podTrouble_iff inTrouble_def by (intro exI [of _ obj] exI [of _ cs'] exI [of _ put] exI [of _ sel] exI [of _ pods]) simp
    qed
    with Inr l show ?thesis
      by (auto intro!: gives_return split: sum.split prod.split option.split bool.split)
  qed (use 1 in \<open>simp add: gives_return\<close>)
qed

lemma trouble_kind: "inTrouble up ns since w t \<Longrightarrow> woKind w \<noteq> []"
  unfolding inTrouble_def
proof (elim exE conjE)
  fix obj assume "loaded up ns (woKind w) (woName w) obj"
  then show "woKind w \<noteq> []" by (cases obj) (auto simp: loaded_def)
qed

subsection \<open>Putting back and keeping\<close>

text \<open>What putting the change of one workload back asks for.\<close>

definition revertsChange :: "'w upkeep \<Rightarrow> string \<Rightarrow> string \<Rightarrow> string \<Rightarrow> string \<Rightarrow> change \<Rightarrow> bool" where
  "revertsChange up ns kind name reason c \<longleftrightarrow>
     (\<exists>change. woKind change = kind \<and> woName change = name \<and>
        (woState change \<noteq> StateProposed \<and> woState change \<noteq> StateReverted \<and> putsBack up change c
         \<or> recordsChange up ns (reverted reason change) c))"

lemma Revert_only:
  assumes "kind \<noteq> []"
  shows "only (revertsChange up ns kind name reason) (Revert up ns kind name reason)"
proof -
  have put: "only (revertsChange up ns (woKind change) (woName change) reason) (putBack up ns reason change)" for change
    unfolding putBack_def
    by (rule only_bind, rule only_mono [OF Record_only]) (auto simp: revertsChange_def intro: only_return)
  have res: "only (revertsChange up ns (woKind change) (woName change) reason) (restore up ns change)"
    if "woState change \<noteq> StateProposed" "woState change \<noteq> StateReverted" for change
    by (rule only_mono [OF restore_only]) (use that in \<open>auto simp: revertsChange_def\<close>)
  have m: "filter (\<lambda>w. woName w = name \<and> (kind = [] \<or> woKind w = kind)) ws = [change] \<Longrightarrow>
      woKind change = kind \<and> woName change = name" for ws change
  proof -
    assume f: "filter (\<lambda>w. woName w = name \<and> (kind = [] \<or> woKind w = kind)) ws = [change]"
    have "change \<in> set (filter (\<lambda>w. woName w = name \<and> (kind = [] \<or> woKind w = kind)) ws)" unfolding f by simp
    with assms show ?thesis by auto
  qed
  show ?thesis
    unfolding Revert_def
    by (auto intro!: only_intros only_if put res dest!: m split: sum.split list.split)
qed

subsection \<open>The guard\<close>

text \<open>A change that is listed as applied.\<close>

definition watched :: "'w upkeep \<Rightarrow> string \<Rightarrow> WorkloadOptimization \<Rightarrow> time \<Rightarrow> bool" where
  "watched up ns w since \<longleftrightarrow>
     woState w = StateApplied \<and> woAppliedAt w = Some since \<and>
     (\<exists>opts opt. Inr opts \<in> set_state (listOptimizations up (operatorNamespace up)) \<and> opt \<in> set opts
        \<and> noTarget opt = ns \<and> w \<in> set (noWorkloads opt))"

definition periodOver :: "'w upkeep \<Rightarrow> time \<Rightarrow> bool" where
  "periodOver up since \<longleftrightarrow>
     (\<exists>cfg now. (cfg = emptyCostDeckConfig \<or> Inr cfg \<in> set_state (getCostDeckConfig up))
        \<and> now \<in> set_state (clockNow (cluster up)) \<and> guardPeriod cfg \<le> now - since)"

definition guardMay :: "'w upkeep \<Rightarrow> change \<Rightarrow> bool" where
  "guardMay up c \<longleftrightarrow>
     (\<exists>ns w since. watched up ns w since \<and>
        ((\<exists>t. inTrouble up ns since w t \<and>
            (revertsChange up ns (woKind w) (woName w) t c \<or> c = SendNotice ''alerts'' (putBackText ns w t)))
         \<or> periodOver up since \<and> recordsChange up ns (w\<lparr>woState := StateKept\<rparr>) c))"

lemma guardOne_only:
  assumes "\<And>since. woState w = StateApplied \<Longrightarrow> woAppliedAt w = Some since \<Longrightarrow> watched up ns w since"
    and "\<And>since. period \<le> now - since \<Longrightarrow> periodOver up since"
  shows "only (guardMay up) (guardOne up now period ns w)"
proof (cases "woAppliedAt w")
  case (Some since)
  show ?thesis
  proof (cases "woState w = StateApplied")
    case True
    have wt: "watched up ns w since" by (rule assms(1) [OF True Some])
    have "only (guardMay up) (Revert up ns (woKind w) (woName w) t)" if "inTrouble up ns since w t" for t
      by (rule only_mono [OF Revert_only [OF trouble_kind [OF that]]])
         (use wt that in \<open>auto simp: guardMay_def\<close>)
    moreover have "only (guardMay up) (notice up ''alerts'' (putBackText ns w t))" if "inTrouble up ns since w t" for t
      by (rule notice_only) (use wt that in \<open>auto simp: guardMay_def\<close>)
    moreover have "only (guardMay up) (Record up ns (w\<lparr>woState := StateKept\<rparr>))" if "period \<le> now - since"
    proof (rule only_mono [OF Record_only])
      fix c assume "recordsChange up ns (w\<lparr>woState := StateKept\<rparr>) c"
      with wt assms(2) [OF that] show "guardMay up c" unfolding guardMay_def by blast
    qed
    ultimately have rest: "only (guardMay up)
        (if t \<noteq> [] then do { (_, failure) \<leftarrow> Revert up ns (woKind w) (woName w) t;
              case failure of
                Some e \<Rightarrow> State_Monad.return [Wrap (''put back '' @ woKind w @ '' '' @ ns @ ''/'' @ woName w) e]
              | None \<Rightarrow> do { _ \<leftarrow> notice up ''alerts'' (putBackText ns w t); State_Monad.return [] } }
         else if period \<le> now - since
         then do { r \<leftarrow> Record up ns (w\<lparr>woState := StateKept\<rparr>);
              State_Monad.return (case r of
                  Inl e \<Rightarrow> [Wrap (''keep '' @ woKind w @ '' '' @ ns @ ''/'' @ woName w) e]
                | Inr _ \<Rightarrow> []) }
         else State_Monad.return [])" if "t \<noteq> [] \<longrightarrow> inTrouble up ns since w t" for t
      using that by (auto intro!: only_bind only_return split: prod.split option.split)
    show ?thesis
      unfolding guardOne_def Some option.case
    proof (rule only_if [OF only_return], unfold only_def, rule gives_bind, rule gives_mono [OF trouble_gives], goal_cases)
      case (1 t cs)
      with rest [of t] show ?case by (simp add: only_def)
    qed
  qed (simp add: guardOne_def Some only_return)
qed (simp add: guardOne_def only_return)

lemma guardEach_only:
  assumes "\<And>ns w. (ns, w) \<in> set ws \<Longrightarrow> only P (guardOne up now period ns w)"
  shows "only P (guardEach up now period ws)"
  using assms by (induction ws) (auto intro!: only_bind only_return)

text \<open>C32. Everything the guard asks for is about a change that is listed as applied. It puts the change
  back, with the reason and an alert, only when the workload it names has a pod started since the change
  that was killed for memory, crash-loops or restarted; it marks the change kept only when its period is
  over by the clock.\<close>

theorem guard_acts_with_reason: "only (guardMay up) (Check up)"
  unfolding Check_def
proof (rule only_attempt_after [OF readCostDeckConfig_answers], rule only_ask_after, goal_cases)
  case (1 cfg now)
  have period: "guardPeriod cfg \<le> now - since \<Longrightarrow> periodOver up since" for since
    using 1 unfolding periodOver_def by blast
  show ?case
    unfolding attempt_def
  proof (rule only_ask_after, goal_cases)
    case (1 r)
    show ?case
    proof (cases r)
      case (Inr opts)
      have "only (guardMay up) (guardEach up now (guardPeriod cfg)
          (concat (map (\<lambda>opt. map (Pair (noTarget opt)) (noWorkloads opt)) opts)))"
        by (rule guardEach_only, rule guardOne_only [OF _ period])
           (use 1 Inr in \<open>auto simp: watched_def\<close>)
      with Inr show ?thesis by (auto intro!: only_bind only_return)
    qed (simp add: only_return)
  qed
qed

text \<open>A change put back by hand between the listing and the record of a quiet one is marked kept again:
  the entry is written as it was listed.\<close>

lemma kept_overwrites_a_revert:
  fixes w :: WorkloadOptimization
  assumes "w0 \<in> set (noWorkloads opt)" "woKind w0 = woKind w" "woName w0 = woName w" "woState w0 = StateReverted"
  shows "filter (\<lambda>x. woKind x = woKind w \<and> woName x = woName w) (noWorkloads (recorded (w\<lparr>woState := StateKept\<rparr>) opt))
    = [w\<lparr>woState := StateKept\<rparr>]"
  by (simp add: recorded_def Let_def)

end
