(* ===== verification/Cleanup.thy ===== *)
theory Cleanup
  imports Upkeep "HOL-Library.Product_Lexorder"
begin

section \<open>Preview namespaces and their time to live (internal/cleanup/cleanup.go)\<close>

text \<open>
  The setting selects namespaces by label and gives them a time to live; a label of the namespace
  overrides it and an annotation extends it. \<open>Plan\<close> lists what is selected with its expiry,
  \<open>Run\<close> warns and deletes, within a budget an hour that the log ConfigMap carries from run to run,
  and \<open>Extend\<close> moves an expiry. A postponed or an extended expiry is an annotation on the namespace.
  Logs are left out; the record of deletions prints its times in UTC.
\<close>

subsection \<open>Constants and types\<close>

abbreviation TTLLabel :: string where "TTLLabel \<equiv> ''costdeck.io/ttl''"
abbreviation ExpiresAnnotation :: string where "ExpiresAnnotation \<equiv> ''costdeck.io/expires-at''"
abbreviation WarnedAnnotation :: string where "WarnedAnnotation \<equiv> ''costdeck.io/ttl-warned''"
abbreviation logConfigMap :: string where "logConfigMap \<equiv> ''costdeck-namespace-ttl''"
abbreviation logKey :: string where "logKey \<equiv> ''deleted.json''"
abbreviation logSize :: nat where "logSize \<equiv> 100"
abbreviation maxDeletionsAnHour :: int where "maxDeletionsAnHour \<equiv> 20"
abbreviation defaultWarnBefore :: duration where "defaultWarnBefore \<equiv> 24 * hour"
abbreviation SourceTTL :: string where "SourceTTL \<equiv> ''ttl''"
abbreviation SourceLabel :: string where "SourceLabel \<equiv> ''label''"
abbreviation SourceExtended :: string where "SourceExtended \<equiv> ''extended''"

record Entry =
  peNamespace :: string
  peCreatedAt :: time
  peExpiresAt :: time
  peSource :: string
  peWarned :: bool
  peProtected :: string
  peUID :: string

record DeletedNamespace =
  dlNamespace :: string
  dlCreatedAt :: time
  dlExpiresAt :: time
  dlDeletedAt :: time

subsection \<open>Reading the setting\<close>

text \<open>A number of days is multiplied in 64 bits.\<close>

definition ParseTTL :: "string \<Rightarrow> string + duration \<times> bool" where
  "ParseTTL t =
     (let s = trimSpace t
      in if s = ''off'' then Inr (0, True)
         else if hasSuffix s ''d''
         then (case parseInt 64 (butlast s) of
                 Some days \<Rightarrow> if days \<le> 0 then Inl (quoted s @ '' is not a number of days'')
                              else Inr (i64 (i64 (days * 24) * hour), False)
               | None \<Rightarrow> Inl (quoted s @ '' is not a number of days''))
         else (case ParseDuration s of
                 Some d \<Rightarrow> if d \<le> 0 then Inl (quoted s @ '' is not a duration such as 3d or 36h'') else Inr (d, False)
               | None \<Rightarrow> Inl (quoted s @ '' is not a duration such as 3d or 36h'')))"

definition Selector :: "'w upkeep \<Rightarrow> string \<Rightarrow> string + ((string \<rightharpoonup> string) \<Rightarrow> bool)" where
  "Selector up s =
     (case parseLabels up (trimSpace s) of
        Inl e \<Rightarrow> Inl e
      | Inr (isEmpty, matches) \<Rightarrow>
          if isEmpty then Inl ''the selector is empty and would match every namespace'' else Inr matches)"

definition ScheduledByName :: "'w upkeep \<Rightarrow> ('w, string list reply) io" where
  "ScheduledByName up =
     attempt (ask (listGroups (cluster up) (Some (operatorNamespace up)))) (\<lambda>groups.
     attempt (ask (listConfigs (cluster up) (Some (operatorNamespace up)))) (\<lambda>configs.
     State_Monad.return (Inr (concat (map (\<lambda>g. gNamespaces (Spec g)) groups)
                              @ map (\<lambda>sc. TargetNamespace (cSpec sc)) configs))))"

subsection \<open>The plan\<close>

definition protectedBy :: "string \<Rightarrow> string list \<Rightarrow> PreviewNamespace \<Rightarrow> string" where
  "protectedBy opns named ns =
     (if hasPrefix (nsName ns) ''kube-'' \<or> nsName ns = ''default'' \<or> nsName ns = opns then ''a system namespace''
      else if nsLabels ns TTLLabel = Some ''off'' then TTLLabel @ ''=off keeps it''
      else if nsName ns \<in> set named then ''a schedule lists it by name''
      else [])"

definition annotationOf :: "PreviewNamespace \<Rightarrow> string \<Rightarrow> string" where
  "annotationOf ns k = (case nsAnnotations ns k of Some v \<Rightarrow> v | None \<Rightarrow> [])"

definition planEntry :: "string \<Rightarrow> string list \<Rightarrow> duration \<Rightarrow> PreviewNamespace \<Rightarrow> Entry" where
  "planEntry opns named ttl ns =
     (let prot = protectedBy opns named ns;
          (life, source, prot) =
            (case nsLabels ns TTLLabel of
               Some v \<Rightarrow> if prot = []
                         then (case ParseTTL v of
                                 Inr (d, _) \<Rightarrow> (d, SourceLabel, prot)
                               | Inl _ \<Rightarrow> (ttl, SourceTTL, ''its '' @ TTLLabel @ '' label is not a duration''))
                         else (ttl, SourceTTL, prot)
             | None \<Rightarrow> (ttl, SourceTTL, prot));
          (expires, source) =
            (case parseRFC3339 (annotationOf ns ExpiresAnnotation) of
               Some t \<Rightarrow> (t, SourceExtended)
             | None \<Rightarrow> (nsCreated ns + life, source));
          prot = (if life \<le> 0 \<and> source \<noteq> SourceExtended \<and> prot = [] then ''no time to live is set'' else prot)
      in \<lparr>peNamespace = nsName ns, peCreatedAt = nsCreated ns, peExpiresAt = expires, peSource = source,
          peWarned = (annotationOf ns WarnedAnnotation = formatRFC3339 expires),
          peProtected = prot, peUID = nsUID ns\<rparr>)"

text \<open>\<open>sort.Slice\<close> leaves the order among equal expiries open; no result depends on it.\<close>

definition Plan :: "'w upkeep \<Rightarrow> NamespaceTTLConfig \<Rightarrow> ('w, Entry list reply) io" where
  "Plan up t =
     (case Selector up (ntSelector t) of
        Inl e \<Rightarrow> State_Monad.return (Inl (Msg e))
      | Inr matches \<Rightarrow>
          attempt (ScheduledByName up) (\<lambda>named.
          attempt (ask (listSelected up matches)) (\<lambda>namespaces.
          State_Monad.return (Inr
            (sort_key (\<lambda>e. (peProtected e \<noteq> [], peExpiresAt e))
              (map (planEntry (operatorNamespace up) named (case ntTTL t of Some d \<Rightarrow> d | None \<Rightarrow> 0))
                (filter (\<lambda>ns. \<not> nsDeleting ns) namespaces)))))))"

subsection \<open>The record of deletions\<close>

definition deletionNames :: "string list" where
  "deletionNames = [''namespace'', ''createdAt'', ''expiresAt'', ''deletedAt'']"

definition deletionFields :: "DeletedNamespace \<Rightarrow> (string \<times> json) list" where
  "deletionFields d =
     field ''namespace'' (JStr (dlNamespace d)) @ field ''createdAt'' (timeJson (dlCreatedAt d))
     @ field ''expiresAt'' (timeJson (dlExpiresAt d)) @ field ''deletedAt'' (timeJson (dlDeletedAt d))"

text \<open>Marshalling fails on a time whose year does not have four digits.\<close>

definition deletionsText :: "DeletedNamespace list \<Rightarrow> string option" where
  "deletionsText ds =
     (if list_all (\<lambda>d. hasTimeText (dlCreatedAt d) \<and> hasTimeText (dlExpiresAt d) \<and> hasTimeText (dlDeletedAt d)) ds
      then Some (''['' @ join '','' (map (\<lambda>d. structText (deletionFields d)) ds) @ '']'') else None)"

definition deletionOf :: "json \<Rightarrow> DeletedNamespace option" where
  "deletionOf j =
     (case (case j of JObj m \<Rightarrow> Some (memberFields deletionNames m) | JNull \<Rightarrow> Some [] | _ \<Rightarrow> None) of
        None \<Rightarrow> None
      | Some fs \<Rightarrow>
          Option.bind (readField asString ''namespace'' [] fs) (\<lambda>n.
          Option.bind (readField asTime ''createdAt'' zeroTime fs) (\<lambda>c.
          Option.bind (readField asTime ''expiresAt'' zeroTime fs) (\<lambda>e.
          Option.bind (readField asTime ''deletedAt'' zeroTime fs) (\<lambda>d.
          Some \<lparr>dlNamespace = n, dlCreatedAt = c, dlExpiresAt = e, dlDeletedAt = d\<rparr>)))))"

definition deletionsOf :: "string \<Rightarrow> DeletedNamespace list option" where
  "deletionsOf s =
     (case parseJson s of
        Some (JArr xs) \<Rightarrow> allSome (map deletionOf xs)
      | Some JNull \<Rightarrow> Some []
      | _ \<Rightarrow> None)"

definition Deleted :: "'w upkeep \<Rightarrow> ('w, DeletedNamespace list reply) io" where
  "Deleted up =
     do { r \<leftarrow> ask (getConfigMap up (operatorNamespace up) logConfigMap);
          State_Monad.return
            (case r of
               Inl e \<Rightarrow> if IsNotFound e then Inr [] else Inl e
             | Inr cm \<Rightarrow>
                 (case map_of (cmData cm) logKey of
                    None \<Rightarrow> Inr []
                  | Some raw \<Rightarrow>
                      if raw = [] then Inr []
                      else (case deletionsOf raw of
                              None \<Rightarrow> Inl (Msg ''the record of deletions is not JSON'')
                            | Some ds \<Rightarrow> Inr ds))) }"

definition saveRecord :: "'w upkeep \<Rightarrow> string \<Rightarrow> ('w, unit reply) io" where
  "saveRecord up raw =
     do { r \<leftarrow> ask (getConfigMap up (operatorNamespace up) logConfigMap);
          case r of
            Inl e \<Rightarrow>
              if IsNotFound e
              then let cm = \<lparr>cmNamespace = operatorNamespace up, cmName = logConfigMap,
                             cmLabels = [(''app.kubernetes.io/managed-by'', ''costdeck'')],
                             cmData = [(logKey, raw)], cmVersion = 0\<rparr>
                   in act (CreateConfigMap cm) (createConfigMap up cm)
              else State_Monad.return (Inl e)
          | Inr cm \<Rightarrow>
              let cm' = cm\<lparr>cmData := AList.update logKey raw (cmData cm)\<rparr>
              in act (UpdateConfigMap cm') (updateConfigMap up cm') }"

definition recordDeletion :: "'w upkeep \<Rightarrow> DeletedNamespace \<Rightarrow> ('w, unit reply) io" where
  "recordDeletion up d =
     attempt (Deleted up) (\<lambda>ds.
     case deletionsText (take logSize (d # ds)) of
       None \<Rightarrow> State_Monad.return (Inl (Msg ''a time of the record has no text''))
     | Some raw \<Rightarrow> saveRecord up raw)"

definition deletionBudget :: "'w upkeep \<Rightarrow> time \<Rightarrow> ('w, int reply) io" where
  "deletionBudget up now =
     attempt (Deleted up) (\<lambda>ds.
     State_Monad.return (Inr (maxDeletionsAnHour - int (length (filter (\<lambda>d. now - dlDeletedAt d < hour) ds)))))"

subsection \<open>Messages\<close>

text \<open>\<open>t.UTC().Format("Mon 2 Jan 15:04 MST")\<close>.\<close>

definition noticeTime :: "time \<Rightarrow> string" where
  "noticeTime t =
     (let s = t div second; (y, m, d) = dateOf (s div 86400); c = s mod 86400
      in [''Sun'', ''Mon'', ''Tue'', ''Wed'', ''Thu'', ''Fri'', ''Sat''] ! nat (weekdayIn (\<lambda>_. 0) t) @ '' '' @ itoa d @ '' ''
         @ [''Jan'', ''Feb'', ''Mar'', ''Apr'', ''May'', ''Jun'', ''Jul'', ''Aug'', ''Sep'', ''Oct'', ''Nov'', ''Dec''] ! nat (m - 1)
         @ '' '' @ padded 2 (c div 3600) @ '':'' @ padded 2 (c mod 3600 div 60) @ '' UTC'')"

definition humanDuration :: "duration \<Rightarrow> string" where
  "humanDuration d = (if 24 * hour \<le> d \<and> d mod (24 * hour) = 0 then itoa (d div (24 * hour)) @ ''d'' else durationText d)"

definition describe :: "Entry \<Rightarrow> string" where
  "describe e =
     (if peSource e = SourceExtended then ''at the time it was extended to''
      else if peSource e = SourceLabel then ''after the time its '' @ TTLLabel @ '' label gives''
      else humanDuration (peExpiresAt e - peCreatedAt e) @ '' after it was created'')"

text \<open>The hourglass, the bin and the arrow are UTF-8.\<close>

definition warningText :: "Entry \<Rightarrow> bool \<Rightarrow> string" where
  "warningText e postponed =
     [CHR 0xE2, CHR 0x8F, CHR 0xB3] @ '' Namespace `'' @ peNamespace e @ ''` will be deleted at '' @ noticeTime (peExpiresAt e) @ '': ''
     @ (if postponed then ''it had expired before Cost Deck could warn about it, so it gets this much notice''
        else ''preview cleanup deletes it '' @ describe e)
     @ ''. To keep it longer, extend it in Cost Deck (Settings '' @ [CHR 0xE2, CHR 0x86, CHR 0x92]
     @ '' Preview cleanup) or label it '' @ TTLLabel @ ''=off.''"

definition deletedText :: "Entry \<Rightarrow> string" where
  "deletedText e =
     [CHR 0xF0, CHR 0x9F, CHR 0x97, CHR 0x91, CHR 0xEF, CHR 0xB8, CHR 0x8F] @ '' Deleted namespace `'' @ peNamespace e
     @ ''`, created '' @ noticeTime (peCreatedAt e) @ '': preview cleanup deletes it '' @ describe e @ ''.''"

subsection \<open>Warning and deleting\<close>

definition annotationPatch :: "(string \<times> json) list \<Rightarrow> json" where
  "annotationPatch m = JObj [(''metadata'', JObj [(''annotations'', JObj m)])]"

definition warn :: "'w upkeep \<Rightarrow> Entry \<Rightarrow> bool \<Rightarrow> ('w, unit reply) io" where
  "warn up e postponed =
     attempt (wrapped (''warn about '' @ peNamespace e) (notice up ''alerts'' (warningText e postponed))) (\<lambda>_.
     let stamp = JStr (formatRFC3339 (peExpiresAt e));
         patch = annotationPatch ((WarnedAnnotation, stamp) # (if postponed then [(ExpiresAnnotation, stamp)] else []))
     in act (PatchNamespace (peNamespace e) patch) (patchNamespace up (peNamespace e) patch))"

definition deleteExpired :: "'w upkeep \<Rightarrow> Entry \<Rightarrow> time \<Rightarrow> ('w, unit reply) io" where
  "deleteExpired up e now =
     do { r \<leftarrow> act (DeleteNamespace (peNamespace e) (peUID e)) (deleteNamespace up (peNamespace e) (peUID e));
          case r of
            Inl err \<Rightarrow>
              State_Monad.return (if IsNotFound err \<or> IsConflict err then Inr ()
                                  else Inl (Wrap (''delete namespace '' @ peNamespace e) err))
          | Inr _ \<Rightarrow>
              do { _ \<leftarrow> recordDeletion up \<lparr>dlNamespace = peNamespace e, dlCreatedAt = peCreatedAt e,
                          dlExpiresAt = peExpiresAt e, dlDeletedAt = now\<rparr>;
                   _ \<leftarrow> notice up ''alerts'' (deletedText e);
                   State_Monad.return (Inr ()) } }"

text \<open>The pass over the plan, with the budget that is left.\<close>

fun reapEach :: "'w upkeep \<Rightarrow> duration \<Rightarrow> time \<Rightarrow> int \<Rightarrow> Entry list \<Rightarrow> ('w, unit reply) io" where
  "reapEach up warnBefore now budget [] = State_Monad.return (Inr ())"
| "reapEach up warnBefore now budget (e # es) =
     (let expired = \<not> now < peExpiresAt e
      in if peProtected e \<noteq> [] then reapEach up warnBefore now budget es
         else if expired \<and> 0 < warnBefore \<and> \<not> peWarned e
         then attempt (warn up (e\<lparr>peExpiresAt := now + warnBefore\<rparr>) True) (\<lambda>_. reapEach up warnBefore now budget es)
         else if expired \<and> budget \<le> 0 then reapEach up warnBefore now budget es
         else if expired then attempt (deleteExpired up e now) (\<lambda>_. reapEach up warnBefore now (budget - 1) es)
         else if 0 < warnBefore \<and> \<not> peWarned e \<and> \<not> now < peExpiresAt e - warnBefore
         then attempt (warn up e False) (\<lambda>_. reapEach up warnBefore now budget es)
         else reapEach up warnBefore now budget es)"

definition Run :: "'w upkeep \<Rightarrow> ('w, unit reply) io" where
  "Run up =
     attempt (readCostDeckConfig up) (\<lambda>cfg.
     let t = cdNamespaceTTL cfg
     in if \<not> ntEnabled t \<or> ntDryRun t then State_Monad.return (Inr ())
        else attempt (Plan up t) (\<lambda>plan.
             do { now \<leftarrow> ask (clockNow (cluster up));
                  attempt (deletionBudget up now) (\<lambda>budget.
                  reapEach up (case ntWarnBefore t of Some d \<Rightarrow> d | None \<Rightarrow> defaultWarnBefore) now budget plan) }))"

subsection \<open>Extending\<close>

text \<open>With the error comes the entry, which is empty when none is of that name.\<close>

definition noEntry :: Entry where
  "noEntry = \<lparr>peNamespace = [], peCreatedAt = zeroTime, peExpiresAt = zeroTime, peSource = [], peWarned = False,
     peProtected = [], peUID = []\<rparr>"

definition extended :: "Entry \<Rightarrow> duration \<Rightarrow> time \<Rightarrow> Entry" where
  "extended e extra now =
     e\<lparr>peExpiresAt := truncateTo second ((if peExpiresAt e < now then now else peExpiresAt e) + extra),
       peSource := SourceExtended, peWarned := False\<rparr>"

definition Extend ::
    "'w upkeep \<Rightarrow> NamespaceTTLConfig \<Rightarrow> string \<Rightarrow> duration \<Rightarrow> time \<Rightarrow> ('w, Entry \<times> goError option) io" where
  "Extend up t namespace extra now =
     do { r \<leftarrow> Plan up t;
          case r of
            Inl e \<Rightarrow> State_Monad.return (noEntry, Some e)
          | Inr plan \<Rightarrow>
              (case find (\<lambda>e. peNamespace e = namespace) plan of
                 None \<Rightarrow> State_Monad.return (noEntry, Some (Api NotFound))
               | Some e \<Rightarrow>
                   if peProtected e \<noteq> []
                   then State_Monad.return (e, Some (Msg (namespace @ '' is never deleted: '' @ peProtected e)))
                   else let e' = extended e extra now;
                            patch = annotationPatch [(ExpiresAnnotation, JStr (formatRFC3339 (peExpiresAt e'))), (WarnedAnnotation, JNull)]
                        in do { r \<leftarrow> act (PatchNamespace namespace patch) (patchNamespace up namespace patch);
                                State_Monad.return (e', case r of Inl err \<Rightarrow> Some err | Inr _ \<Rightarrow> None) }) }"

end
