(* ===== verification/RateLog.thy ===== *)
theory RateLog
  imports GoTime
begin

section \<open>The interface of a log that limits a rate\<close>

text \<open>
  An action is allowed at most \<open>limit\<close> times in any period of length \<open>window\<close>. What limits it is a
  log of the latest actions, newest first, cut to \<open>keep\<close> entries. The locale states what the log
  needs and proves that the cut loses nothing the limit depends on, and that recording an action
  the limit allows keeps the rate of the whole history.
\<close>

definition recentOf :: "('d \<Rightarrow> time) \<Rightarrow> duration \<Rightarrow> time \<Rightarrow> 'd list \<Rightarrow> 'd list" where
  "recentOf stamp window now ds = filter (\<lambda>d. now - stamp d < window) ds"

text \<open>Newest first, and at most \<open>limit\<close> in any period.\<close>

definition newestFirst :: "('d \<Rightarrow> time) \<Rightarrow> 'd list \<Rightarrow> bool" where
  "newestFirst stamp ds \<longleftrightarrow> sorted_wrt (\<lambda>a b. stamp b \<le> stamp a) ds"

definition rateKept :: "('d \<Rightarrow> time) \<Rightarrow> nat \<Rightarrow> duration \<Rightarrow> 'd list \<Rightarrow> bool" where
  "rateKept stamp limit window ds \<longleftrightarrow>
     (\<forall>t. length (filter (\<lambda>d. t - window < stamp d \<and> stamp d \<le> t) ds) \<le> limit)"

locale rate_log =
  fixes stamp :: "'d \<Rightarrow> time"
    and limit :: nat
    and keep :: nat
    and window :: duration
  assumes room: "limit \<le> keep"
begin

lemma recent_prefix: "newestFirst stamp ds \<Longrightarrow> recentOf stamp window now ds = takeWhile (\<lambda>d. now - stamp d < window) ds"
proof (induction ds)
  case (Cons d ds)
  have "recentOf stamp window now ds = []" if "\<not> now - stamp d < window"
    using that Cons.prems by (force simp: recentOf_def newestFirst_def filter_empty_conv)
  with Cons show ?case by (auto simp: recentOf_def newestFirst_def)
qed (simp add: recentOf_def)

text \<open>The entries cut off the log are not recent.\<close>

lemma recent_cut:
  assumes "newestFirst stamp ds" "rateKept stamp limit window ds" "\<forall>d \<in> set ds. stamp d \<le> now"
  shows "recentOf stamp window now (take keep ds) = recentOf stamp window now ds"
proof -
  have "recentOf stamp window now ds = filter (\<lambda>d. now - window < stamp d \<and> stamp d \<le> now) ds"
    unfolding recentOf_def by (rule filter_cong) (use assms(3) in auto)
  with assms(2) have "length (recentOf stamp window now ds) \<le> limit" by (simp add: rateKept_def)
  with room have len: "length (takeWhile (\<lambda>d. now - stamp d < window) ds) \<le> keep"
    by (simp add: recent_prefix [OF assms(1)])
  have cut: "newestFirst stamp (take keep ds)"
    using assms(1) unfolding newestFirst_def by (rule sorted_wrt_take)
  have "takeWhile P (take n xs) = takeWhile P xs" if "length (takeWhile P xs) \<le> n" for P n and xs :: "'d list"
    using that by (induction xs arbitrary: n) (auto simp: take_Cons' split: if_splits)
  from this [OF len] show ?thesis by (simp add: recent_prefix [OF cut] recent_prefix [OF assms(1)])
qed

lemma rate_kept_Cons:
  assumes "newestFirst stamp ds" "rateKept stamp limit window ds" "\<forall>d \<in> set ds. stamp d \<le> stamp x" "length (recentOf stamp window (stamp x) ds) < limit"
  shows "newestFirst stamp (x # ds)" "rateKept stamp limit window (x # ds)"
proof -
  show "newestFirst stamp (x # ds)" using assms(1,3) by (simp add: newestFirst_def)
  show "rateKept stamp limit window (x # ds)" unfolding rateKept_def
  proof
    fix t
    define P where "P t = (\<lambda>d. t - window < stamp d \<and> stamp d \<le> t)" for t
    have "length (filter (P t) (x # ds)) \<le> limit"
    proof (cases "P t x")
      case True
      then have "filter (P t) ds = filter (P t) (recentOf stamp window (stamp x) ds)"
        unfolding recentOf_def filter_filter by (intro filter_cong) (auto simp: P_def)
      then have "length (filter (P t) ds) \<le> length (recentOf stamp window (stamp x) ds)"
        by (metis length_filter_le)
      with True assms(4) show ?thesis by simp
    next
      case False
      with assms(2) show ?thesis by (auto simp: rateKept_def P_def)
    qed
    then show "length (filter (\<lambda>d. t - window < stamp d \<and> stamp d \<le> t) (x # ds)) \<le> limit"
      by (simp add: P_def)
  qed
qed

lemma rate_kept_Nil: "newestFirst stamp []" "rateKept stamp limit window []"
  by (simp_all add: newestFirst_def rateKept_def)

end

end
