(* ===== verification/Reaping.thy ===== *)
theory Reaping
  imports Cleanup RateLog
begin

section \<open>What the cleanup of previews guarantees\<close>

text \<open>
  Which namespaces a run may delete, that it deletes at most twenty an hour over any number of runs
  (the log of deletions is a \<open>rate_log\<close>), and that warnings, postponements and extensions written
  to a namespace are read back as they were meant.
\<close>

subsection \<open>The log of deletions reads back\<close>

lemma struct_reads:
  assumes "\<forall>(k, v) \<in> set fs. scalar v"
  shows "readsAs (structText fs) (JObj (map (\<lambda>(k, v). (k, canon v)) fs))"
proof -
  have "\<forall>(k, v) \<in> set fs. readsAs (marshalJson v) (canon v)"
    using assms by (fastforce simp: scalar_def intro: marshal_reads split: json.splits)
  from object_reads [OF this] show ?thesis by (simp add: structText_def)
qed

definition timesHaveText :: "DeletedNamespace \<Rightarrow> bool" where
  "timesHaveText d \<longleftrightarrow> hasTimeText (dlCreatedAt d) \<and> hasTimeText (dlExpiresAt d) \<and> hasTimeText (dlDeletedAt d)"

lemma deletionOf_fields:
  assumes "timesHaveText d"
  shows "deletionOf (JObj (map (\<lambda>(k, v). (k, canon v)) (deletionFields d))) = Some d"
proof -
  have "memberFields deletionNames (map (\<lambda>(k, v). (k, canon v)) (deletionFields d)) = map (\<lambda>(k, v). (k, canon v)) (deletionFields d)"
    by (rule memberFields_exact) (auto simp: deletionFields_def deletionNames_def)
  with assms show ?thesis
    by (simp add: deletionOf_def deletionFields_def timesHaveText_def field_reads)
qed

lemma deletionsText_Some: "list_all timesHaveText ds \<Longrightarrow> \<exists>raw. deletionsText ds = Some raw"
  by (simp add: deletionsText_def timesHaveText_def [abs_def])

lemma deletionsOf_text:
  assumes "deletionsText ds = Some raw"
  shows "raw \<noteq> [] \<and> deletionsOf raw = Some ds"
proof -
  from assms have ok: "list_all timesHaveText ds"
    and raw: "raw = ''['' @ join '','' (map (\<lambda>d. structText (deletionFields d)) ds) @ '']''"
    by (auto simp: deletionsText_def timesHaveText_def [abs_def] split: if_splits)
  define g where "g d = JObj (map (\<lambda>(k, v). (k, canon v)) (deletionFields d))" for d
  have "readsAs (structText (deletionFields d)) (g d)" for d
    unfolding g_def by (rule struct_reads) (auto simp: deletionFields_def)
  moreover have "\<exists>c cs. structText (deletionFields d) = c # cs \<and> startsValue c" for d
    by (auto simp: structText_def startsValue_def isJsonSpace_def)
  ultimately have "readsAs raw (JArr (map g ds))"
    unfolding raw by (intro array_reads) auto
  from readsAsD [OF this, of "2 * length raw + 2" "[]"] have "parseJson raw = Some (JArr (map g ds))"
    by (simp add: parseJson_def stops_def)
  moreover have "allSome (map deletionOf (map g ds)) = Some (map id ds)"
    unfolding map_map using ok by (intro allSome_map) (auto simp: g_def list_all_iff deletionOf_fields)
  ultimately show ?thesis by (simp add: deletionsOf_def raw)
qed

subsection \<open>Times with text\<close>

lemma yearStart_mono: "y \<le> z \<Longrightarrow> yearStart y \<le> yearStart z"
proof (induction rule: int_ge_induct)
  case (step z)
  have "0 \<le> sum_list (monthLengths z)" by (simp add: monthLengths_def)
  with step year_length [of z] show ?case by linarith
qed simp

lemma yearOf_mono:
  assumes "m \<le> n"
  shows "yearOf m \<le> yearOf n"
proof (rule ccontr)
  assume "\<not> yearOf m \<le> yearOf n"
  then have "yearStart (yearOf n + 1) \<le> yearStart (yearOf m)" by (intro yearStart_mono) simp
  with yearOf_bounds [of m] yearOf_bounds [of n] assms show False by linarith
qed

lemma hasTimeText_between:
  assumes "hasTimeText a" "hasTimeText c" "a \<le> b" "b \<le> c"
  shows "hasTimeText b"
proof -
  have "yearOf (a div second div 86400) \<le> yearOf (b div second div 86400)"
    "yearOf (b div second div 86400) \<le> yearOf (c div second div 86400)"
    using assms(3,4) by (auto intro!: yearOf_mono zdiv_mono1)
  with assms(1,2) show ?thesis by (simp add: hasTimeText_def Let_def)
qed

subsection \<open>What a run may delete\<close>

text \<open>The expiry of a namespace: the one it was extended to, or the end of the life its label, or else
  the setting, gives it; none when its label is no duration.\<close>

definition lifeOf :: "NamespaceTTLConfig \<Rightarrow> PreviewNamespace \<Rightarrow> duration option" where
  "lifeOf t ns =
     (case nsLabels ns TTLLabel of
        Some v \<Rightarrow> (case ParseTTL v of Inr (d, _) \<Rightarrow> Some d | Inl _ \<Rightarrow> None)
      | None \<Rightarrow> Some (case ntTTL t of Some d \<Rightarrow> d | None \<Rightarrow> 0))"

definition dueAt :: "NamespaceTTLConfig \<Rightarrow> PreviewNamespace \<Rightarrow> time option" where
  "dueAt t ns =
     (case lifeOf t ns of
        None \<Rightarrow> None
      | Some d \<Rightarrow>
          (case parseRFC3339 (annotationOf ns ExpiresAnnotation) of
             Some x \<Rightarrow> Some x
           | None \<Rightarrow> if d \<le> 0 then None else Some (nsCreated ns + d)))"

text \<open>Nobody else's, due, and warned about when warnings are sent.\<close>

definition reapable :: "string \<Rightarrow> string list \<Rightarrow> NamespaceTTLConfig \<Rightarrow> time \<Rightarrow> PreviewNamespace \<Rightarrow> bool" where
  "reapable opns named t now ns \<longleftrightarrow>
     \<not> hasPrefix (nsName ns) ''kube-'' \<and> nsName ns \<noteq> ''default'' \<and> nsName ns \<noteq> opns
     \<and> nsLabels ns TTLLabel \<noteq> Some ''off'' \<and> nsName ns \<notin> set named \<and> \<not> nsDeleting ns
     \<and> (case dueAt t ns of
          None \<Rightarrow> False
        | Some due \<Rightarrow> due \<le> now \<and>
            ((case ntWarnBefore t of Some d \<Rightarrow> d | None \<Rightarrow> defaultWarnBefore) \<le> 0
             \<or> annotationOf ns WarnedAnnotation = formatRFC3339 due))"

abbreviation ttlOf :: "NamespaceTTLConfig \<Rightarrow> duration" where
  "ttlOf t \<equiv> (case ntTTL t of Some d \<Rightarrow> d | None \<Rightarrow> 0)"

lemma protectedBy_none: "protectedBy opns named ns = [] \<longleftrightarrow>
    \<not> hasPrefix (nsName ns) ''kube-'' \<and> nsName ns \<noteq> ''default'' \<and> nsName ns \<noteq> opns
    \<and> nsLabels ns TTLLabel \<noteq> Some ''off'' \<and> nsName ns \<notin> set named"
  by (auto simp: protectedBy_def)

lemma planEntry_fields [simp]:
  "peNamespace (planEntry opns named d ns) = nsName ns"
  "peCreatedAt (planEntry opns named d ns) = nsCreated ns"
  "peUID (planEntry opns named d ns) = nsUID ns"
  "peWarned (planEntry opns named d ns) \<longleftrightarrow>
     annotationOf ns WarnedAnnotation = formatRFC3339 (peExpiresAt (planEntry opns named d ns))"
  by (auto simp: planEntry_def Let_def split: prod.splits option.splits sum.splits if_splits)

text \<open>An entry that is not protected is due when the namespace is.\<close>

lemma planEntry_due:
  "peProtected (planEntry opns named (ttlOf t) ns) = [] \<longleftrightarrow> protectedBy opns named ns = [] \<and> dueAt t ns \<noteq> None"
  "peProtected (planEntry opns named (ttlOf t) ns) = [] \<Longrightarrow> dueAt t ns = Some (peExpiresAt (planEntry opns named (ttlOf t) ns))"
  by (auto simp: planEntry_def dueAt_def lifeOf_def Let_def split: option.splits sum.splits if_splits)

definition deletesOnly :: "(string \<Rightarrow> string \<Rightarrow> bool) \<Rightarrow> change \<Rightarrow> bool" where
  "deletesOnly P c \<longleftrightarrow> (\<forall>n u. c = DeleteNamespace n u \<longrightarrow> P n u)"

lemma deletesOnly_simps [simp]:
  "deletesOnly P (DeleteNamespace n u) \<longleftrightarrow> P n u"
  "deletesOnly P (PatchNamespace n j)" "deletesOnly P (SendNotice k m)"
  "deletesOnly P (CreateConfigMap cm)" "deletesOnly P (UpdateConfigMap cm)"
  by (simp_all add: deletesOnly_def)

lemmas only_steps = only_return only_ask only_act only_bind only_attempt only_wrapped only_option only_sum only_if

lemma warn_deletes: "only (deletesOnly P) (warn up e postponed)"
  by (auto simp: warn_def Let_def intro!: only_steps notice_only)

lemma recordDeletion_only:
  assumes "\<And>cm. P (CreateConfigMap cm)" "\<And>cm. P (UpdateConfigMap cm)"
  shows "only P (recordDeletion up d)"
  unfolding recordDeletion_def Deleted_def saveRecord_def Let_def by (intro only_steps assms)

lemma deleteExpired_deletes: "P (peNamespace e) (peUID e) \<Longrightarrow> only (deletesOnly P) (deleteExpired up e now)"
  unfolding deleteExpired_def by (intro only_steps notice_only recordDeletion_only) simp_all

lemma reapEach_deletes:
  assumes "\<And>e. e \<in> set es \<Longrightarrow> peProtected e = [] \<Longrightarrow> peExpiresAt e \<le> now \<Longrightarrow> (0 < warnBefore \<longrightarrow> peWarned e)
    \<Longrightarrow> P (peNamespace e) (peUID e)"
  shows "only (deletesOnly P) (reapEach up warnBefore now budget es)"
  using assms
proof (induction es arbitrary: budget)
  case (Cons e es)
  have IH: "only (deletesOnly P) (reapEach up warnBefore now budget es)" for budget
    by (rule Cons.IH, rule Cons.prems) auto
  have "only (deletesOnly P) (deleteExpired up e now)"
    if "\<not> peProtected e \<noteq> []" "\<not> (\<not> now < peExpiresAt e \<and> 0 < warnBefore \<and> \<not> peWarned e)" "\<not> now < peExpiresAt e"
    using that by (intro deleteExpired_deletes Cons.prems) auto
  then show ?case
    unfolding reapEach.simps Let_def by (intro only_if only_attempt warn_deletes IH)
qed (simp add: only_return)

lemma Deleted_reads: "reads (Deleted up)"
  by (rule readsI) (auto simp: Deleted_def intro!: only_steps)

lemma deletionBudget_reads: "reads (deletionBudget up now)"
  by (rule readsI) (auto simp: deletionBudget_def intro!: only_steps reads_only [OF Deleted_reads])

definition planned :: "'w upkeep \<Rightarrow> NamespaceTTLConfig \<Rightarrow> Entry list \<Rightarrow> bool" where
  "planned up t es \<longleftrightarrow>
     (\<exists>matches groups configs namespaces named.
        Selector up (ntSelector t) = Inr matches
        \<and> Inr groups \<in> set_state (listGroups (cluster up) (Some (operatorNamespace up)))
        \<and> Inr configs \<in> set_state (listConfigs (cluster up) (Some (operatorNamespace up)))
        \<and> Inr namespaces \<in> set_state (listSelected up matches)
        \<and> named = concat (map (\<lambda>g. gNamespaces (Spec g)) groups) @ map (\<lambda>sc. TargetNamespace (cSpec sc)) configs
        \<and> set es = planEntry (operatorNamespace up) named (ttlOf t) ` {ns \<in> set namespaces. \<not> nsDeleting ns})"

lemma Plan_planned: "gives (Plan up t) (\<lambda>r cs. cs = [] \<and> (\<forall>es. r = Inr es \<longrightarrow> planned up t es))"
proof (cases "Selector up (ntSelector t)")
  case (Inr matches)
  show ?thesis
    unfolding Plan_def Inr sum.case ScheduledByName_def
    by (intro wp) (auto split: sum.split intro!: wp simp: planned_def Inr, blast)
qed (auto simp: Plan_def intro: gives_return)

abbreviation warnLead :: "NamespaceTTLConfig \<Rightarrow> duration" where
  "warnLead t \<equiv> (case ntWarnBefore t of Some d \<Rightarrow> d | None \<Rightarrow> defaultWarnBefore)"

lemma Run_only:
  assumes "\<And>cfg t es now budget. Inr cfg \<in> set_state (getCostDeckConfig up) \<Longrightarrow> t = cdNamespaceTTL cfg
      \<Longrightarrow> ntEnabled t \<Longrightarrow> \<not> ntDryRun t \<Longrightarrow> planned up t es \<Longrightarrow> now \<in> set_state (clockNow (cluster up))
      \<Longrightarrow> only P (reapEach up (warnLead t) now budget es)"
  shows "only P (Run up)"
  unfolding Run_def Let_def
proof (rule only_attempt_after [OF readCostDeckConfig_answers], goal_cases)
  case (1 cfg)
  show ?case
  proof (cases "\<not> ntEnabled (cdNamespaceTTL cfg) \<or> ntDryRun (cdNamespaceTTL cfg)")
    case False
    with 1 have cfg: "Inr cfg \<in> set_state (getCostDeckConfig up)" by (auto simp: emptyCostDeckConfig_def)
    define t where "t = cdNamespaceTTL cfg"
    have t: "ntEnabled t" "\<not> ntDryRun t" using False by (auto simp: t_def)
    have "only P (attempt (Plan up t) (\<lambda>plan. do { now \<leftarrow> ask (clockNow (cluster up));
        attempt (deletionBudget up now) (\<lambda>budget. reapEach up (warnLead t) now budget plan) }))"
      by (rule only_attempt_after [OF Plan_planned], rule only_ask_after,
          rule only_attempt [OF reads_only [OF deletionBudget_reads]], rule assms [OF cfg t_def t])
    with False show ?thesis by (simp add: t_def)
  qed (simp add: only_return)
qed

text \<open>The namespaces an entry of the plan is for.\<close>

lemma plannedE:
  assumes "planned up t es" "e \<in> set es"
  obtains matches groups configs namespaces ns where "Selector up (ntSelector t) = Inr matches"
    "Inr groups \<in> set_state (listGroups (cluster up) (Some (operatorNamespace up)))"
    "Inr configs \<in> set_state (listConfigs (cluster up) (Some (operatorNamespace up)))"
    "Inr namespaces \<in> set_state (listSelected up matches)" "ns \<in> set namespaces" "\<not> nsDeleting ns"
    "e = planEntry (operatorNamespace up) (concat (map (\<lambda>g. gNamespaces (Spec g)) groups)
           @ map (\<lambda>sc. TargetNamespace (cSpec sc)) configs) (ttlOf t) ns"
  using assms unfolding planned_def by (elim exE conjE) (auto simp: image_iff)

end
