(* ===== verification/ReapingRate.thy ===== *)
theory ReapingRate
  imports Reaping
begin

section \<open>At most twenty deletions an hour\<close>

text \<open>
  The budget of a run is what the log of deletions leaves of twenty in the last hour. For it to hold
  over many runs the log has to work, and nobody else may write it; then it does, whatever else the
  cluster answers and however the deletions end.
\<close>

subsection \<open>What the cluster promises\<close>

text \<open>Of the world are known the log (the text under its key, if any), the namespaces deleted so far
  with the time of each, latest first, and the clock. A call that leaves the first two alone:\<close>

definition calm ::
    "('w \<Rightarrow> string option) \<Rightarrow> ('w \<Rightarrow> (string \<times> time) list) \<Rightarrow> ('w \<Rightarrow> time) \<Rightarrow> 'w \<Rightarrow> 'w \<Rightarrow> bool" where
  "calm L G T e e' \<longleftrightarrow> L e' = L e \<and> G e' = G e \<and> T e \<le> T e'"

definition calmCall ::
    "('w \<Rightarrow> string option) \<Rightarrow> ('w \<Rightarrow> (string \<times> time) list) \<Rightarrow> ('w \<Rightarrow> time) \<Rightarrow> ('w, 'a) state \<Rightarrow> bool" where
  "calmCall L G T m \<longleftrightarrow> (\<forall>e. after m (\<lambda>_ e'. calm L G T e e') e)"

text \<open>Everything but the log and the deletions is such a call. A deletion that succeeds adds to the
  deletions, at some time while it runs; the log answers what was last written to it, and its calls
  succeed; clock and listed namespaces have times of four-digit years.\<close>

definition keepsLog ::
    "'w upkeep \<Rightarrow> ('w \<Rightarrow> string option) \<Rightarrow> ('w \<Rightarrow> (string \<times> time) list) \<Rightarrow> ('w \<Rightarrow> time) \<Rightarrow> bool" where
  "keepsLog up L G T \<longleftrightarrow>
     calmCall L G T (getCostDeckConfig up)
     \<and> (\<forall>n. calmCall L G T (listGroups (cluster up) n)) \<and> (\<forall>n. calmCall L G T (listConfigs (cluster up) n))
     \<and> (\<forall>m. calmCall L G T (listSelected up m)) \<and> (\<forall>n p. calmCall L G T (patchNamespace up n p))
     \<and> (\<forall>send k m. sendNotice up = Some send \<longrightarrow> calmCall L G T (send k m))
     \<and> (\<forall>e. after (clockNow (cluster up)) (\<lambda>now e'. calm L G T e e' \<and> T e \<le> now \<and> now \<le> T e') e)
     \<and> (\<forall>n u e. after (deleteNamespace up n u) (\<lambda>r e'. L e' = L e \<and> T e \<le> T e'
          \<and> (case r of Inl _ \<Rightarrow> G e' = G e | Inr _ \<Rightarrow> \<exists>g. G e' = (n, g) # G e \<and> T e \<le> g \<and> g \<le> T e')) e)
     \<and> (\<forall>e. after (getConfigMap up (operatorNamespace up) logConfigMap) (\<lambda>r e'. calm L G T e e'
          \<and> (case r of Inl err \<Rightarrow> IsNotFound err \<and> L e = None | Inr cm \<Rightarrow> map_of (cmData cm) logKey = L e)) e)
     \<and> (\<forall>cm e. cmName cm = logConfigMap \<longrightarrow> after (createConfigMap up cm) (\<lambda>r e'.
          r = Inr () \<and> L e' = map_of (cmData cm) logKey \<and> G e' = G e \<and> T e \<le> T e') e)
     \<and> (\<forall>cm e. after (updateConfigMap up cm) (\<lambda>r e'.
          r = Inr () \<and> L e' = map_of (cmData cm) logKey \<and> G e' = G e \<and> T e \<le> T e') e)
     \<and> (\<forall>e. hasTimeText (T e))
     \<and> (\<forall>m namespaces ns. Inr namespaces \<in> set_state (listSelected up m) \<longrightarrow> ns \<in> set namespaces \<longrightarrow>
          hasTimeText (nsCreated ns)
          \<and> (\<forall>x. parseRFC3339 (annotationOf ns ExpiresAnnotation) = Some x \<longrightarrow> hasTimeText x))"

text \<open>The runs of the reaper, each at most \<open>lat\<close> long, with anything calm happening between them.\<close>

inductive reaped ::
    "'w upkeep \<Rightarrow> ('w \<Rightarrow> string option) \<Rightarrow> ('w \<Rightarrow> (string \<times> time) list) \<Rightarrow> ('w \<Rightarrow> time) \<Rightarrow> duration \<Rightarrow> 'w world \<Rightarrow> bool"
  for up L G T lat
where
  start: "L (ext w) = None \<Longrightarrow> G (ext w) = [] \<Longrightarrow> reaped up L G T lat w"
| run: "reaped up L G T lat w \<Longrightarrow> run_state (Run up) w = (r, w') \<Longrightarrow> T (ext w') \<le> T (ext w) + lat
    \<Longrightarrow> reaped up L G T lat w'"
| meanwhile: "reaped up L G T lat w \<Longrightarrow> calm L G T (ext w) (ext w') \<Longrightarrow> reaped up L G T lat w'"

subsection \<open>The account of the deletions\<close>

interpretation dl: rate_log dlDeletedAt 20 logSize hour
  by unfold_locales simp

definition logHolds :: "string option \<Rightarrow> DeletedNamespace list \<Rightarrow> bool" where
  "logHolds l ds \<longleftrightarrow> (case l of None \<Rightarrow> ds = [] | Some raw \<Rightarrow> raw \<noteq> [] \<and> deletionsOf raw = Some ds)"

text \<open>A history of deletions that agrees with those that were made, up to how long a run takes.\<close>

definition accountsFor :: "duration \<Rightarrow> time \<Rightarrow> time \<Rightarrow> DeletedNamespace list \<Rightarrow> (string \<times> time) list \<Rightarrow> bool" where
  "accountsFor lat now latest hs gs \<longleftrightarrow>
     list_all2 (\<lambda>d (n, g). dlNamespace d = n \<and> dlDeletedAt d \<le> g
       \<and> (g \<le> dlDeletedAt d + lat \<or> dlDeletedAt d = now \<and> g \<le> latest)) hs gs"

definition sound :: "time \<Rightarrow> DeletedNamespace list \<Rightarrow> bool" where
  "sound now hs \<longleftrightarrow> newestFirst dlDeletedAt hs \<and> rateKept dlDeletedAt 20 hour hs \<and> list_all timesHaveText hs
     \<and> (\<forall>d \<in> set hs. dlDeletedAt d \<le> now)"

definition accounted ::
    "('w \<Rightarrow> string option) \<Rightarrow> ('w \<Rightarrow> (string \<times> time) list) \<Rightarrow> ('w \<Rightarrow> time) \<Rightarrow> duration \<Rightarrow> time \<Rightarrow> int
       \<Rightarrow> DeletedNamespace list \<Rightarrow> 'w \<Rightarrow> bool" where
  "accounted L G T lat now budget hs e \<longleftrightarrow>
     sound now hs \<and> logHolds (L e) (take logSize hs) \<and> accountsFor lat now (T e) hs (G e) \<and> now \<le> T e
     \<and> int (length (recentOf dlDeletedAt hour now hs)) + budget \<le> 20"

lemma accountsFor_later: "accountsFor lat now t hs gs \<Longrightarrow> t \<le> t' \<Longrightarrow> accountsFor lat now t' hs gs"
  unfolding accountsFor_def by (erule list_all2_mono) auto

lemma accounted_calm:
  "accounted L G T lat now budget hs e \<Longrightarrow> calm L G T e e' \<Longrightarrow> accounted L G T lat now budget hs e'"
  by (auto simp: accounted_def calm_def intro: accountsFor_later)

lemma calm_trans: "calm L G T a b \<Longrightarrow> calm L G T b c \<Longrightarrow> calm L G T a c"
  by (auto simp: calm_def)

subsection \<open>Reading and writing the log\<close>

text \<open>The rules for \<open>after\<close> without a state.\<close>

lemma after_bound: "after (State_Monad.return x) Q = Q x" "after (m \<bind> f) Q = after m (\<lambda>x. after (f x) Q)"
  by (simp_all add: fun_eq_iff)

lemma after_calm: "calmCall L G T m \<Longrightarrow> (\<And>x e'. calm L G T e e' \<Longrightarrow> Q x e') \<Longrightarrow> after m Q e"
  unfolding calmCall_def by (blast intro: after_mono)

lemma Deleted_logged:
  assumes "keepsLog up L G T" "logHolds (L (ext w)) ds"
  shows "after (Deleted up) (\<lambda>r w'. r = Inr ds \<and> calm L G T (ext w) (ext w')) w"
proof -
  from assms(1) have "after (getConfigMap up (operatorNamespace up) logConfigMap) (\<lambda>r e'. calm L G T (ext w) e'
          \<and> (case r of Inl err \<Rightarrow> IsNotFound err \<and> L (ext w) = None | Inr cm \<Rightarrow> map_of (cmData cm) logKey = L (ext w))) (ext w)"
    unfolding keepsLog_def by blast
  then show ?thesis
    unfolding Deleted_def after_bind after_ask after_return
    by (rule after_mono) (use assms(2) in \<open>auto simp: logHolds_def split: sum.splits option.splits\<close>)
qed

lemma saveRecord_logged:
  assumes up: "keepsLog up L G T"
  shows "after (saveRecord up raw) (\<lambda>r w'. L (ext w') = Some raw \<and> G (ext w') = G (ext w) \<and> T (ext w) \<le> T (ext w')) w"
proof -
  have get: "after (getConfigMap up (operatorNamespace up) logConfigMap) (\<lambda>r e'. calm L G T e e'
          \<and> (case r of Inl err \<Rightarrow> IsNotFound err \<and> L e = None | Inr cm \<Rightarrow> map_of (cmData cm) logKey = L e)) e" for e
    using up unfolding keepsLog_def by blast
  have create: "after (createConfigMap up cm) (\<lambda>r e'. r = Inr () \<and> L e' = map_of (cmData cm) logKey \<and> G e' = G e \<and> T e \<le> T e') e"
    if "cmName cm = logConfigMap" for cm e using up that unfolding keepsLog_def by blast
  have update: "after (updateConfigMap up cm) (\<lambda>r e'. r = Inr () \<and> L e' = map_of (cmData cm) logKey \<and> G e' = G e \<and> T e \<le> T e') e"
    for cm e using up unfolding keepsLog_def by blast
  show ?thesis
    unfolding saveRecord_def after_bind after_ask
  proof (rule after_mono [OF get], elim conjE, goal_cases)
    case (1 r e')
    show ?case
    proof (cases r)
      case (Inl err)
      with 1 show ?thesis by (auto simp: Let_def calm_def intro!: after_mono [OF create])
    next
      case (Inr cm)
      with 1 show ?thesis by (auto simp: Let_def update_conv' calm_def intro!: after_mono [OF update])
    qed
  qed
qed

lemma recordDeletion_logged:
  assumes up: "keepsLog up L G T" and log: "logHolds (L (ext w)) (take logSize hs)"
    and ok: "list_all timesHaveText (d # hs)"
  shows "after (recordDeletion up d) (\<lambda>r w'. logHolds (L (ext w')) (take logSize (d # hs)) \<and> G (ext w') = G (ext w)
           \<and> T (ext w) \<le> T (ext w')) w"
proof -
  have "list_all timesHaveText (take logSize (d # hs))"
    using ok unfolding list_all_iff by (meson in_set_takeD)
  then obtain raw where raw: "deletionsText (take logSize (d # hs)) = Some raw" using deletionsText_Some by blast
  have "after (saveRecord up raw) (\<lambda>r w'. logHolds (L (ext w')) (take logSize (d # hs)) \<and> G (ext w') = G (ext w)
           \<and> T (ext w) \<le> T (ext w')) w1" if "calm L G T (ext w) (ext w1)" for w1
    by (rule after_mono [OF saveRecord_logged [OF up]])
      (use that deletionsOf_text [OF raw] in \<open>auto simp: logHolds_def calm_def\<close>)
  then show ?thesis
    unfolding recordDeletion_def after_attempt
    by (intro after_mono [OF Deleted_logged [OF up log]]) (auto simp: raw [simplified])
qed

subsection \<open>Deleting keeps the account\<close>

text \<open>A computation all of whose calls are calm.\<close>

definition calmIo ::
    "('w \<Rightarrow> string option) \<Rightarrow> ('w \<Rightarrow> (string \<times> time) list) \<Rightarrow> ('w \<Rightarrow> time) \<Rightarrow> ('w, 'a) io \<Rightarrow> bool" where
  "calmIo L G T m \<longleftrightarrow> (\<forall>w. after m (\<lambda>_ w'. calm L G T (ext w) (ext w')) w)"

lemma calmIoD: "calmIo L G T m \<Longrightarrow> after m (\<lambda>_ w'. calm L G T (ext w) (ext w')) w"
  by (simp add: calmIo_def)

lemma calmIo_return: "calmIo L G T (State_Monad.return x)"
  by (simp add: calmIo_def calm_def)

lemma calmIo_ask: "calmCall L G T m \<Longrightarrow> calmIo L G T (ask m)"
  by (auto simp: calmIo_def intro: after_calm)

lemma calmIo_act: "calmCall L G T m \<Longrightarrow> calmIo L G T (act c m)"
  by (auto simp: calmIo_def intro: after_calm)

lemma calmIo_bind:
  assumes "calmIo L G T m" "\<And>x. calmIo L G T (f x)"
  shows "calmIo L G T (m \<bind> f)"
  unfolding calmIo_def after_bind
proof
  fix w
  show "after m (\<lambda>x. after (f x) (\<lambda>_ w'. calm L G T (ext w) (ext w'))) w"
    by (rule after_mono [OF calmIoD [OF assms(1)]], rule after_mono [OF calmIoD [OF assms(2)]], rule calm_trans)
qed

lemma calmIo_attempt: "calmIo L G T m \<Longrightarrow> (\<And>x. calmIo L G T (f x)) \<Longrightarrow> calmIo L G T (attempt m f)"
  unfolding attempt_def by (rule calmIo_bind) (auto intro: calmIo_return split: sum.split)

lemma calmIo_wrapped: "calmIo L G T m \<Longrightarrow> calmIo L G T (wrapped c m)"
  unfolding wrapped_def by (intro calmIo_bind calmIo_return)

lemmas calm_steps = calmIo_return calmIo_ask calmIo_act calmIo_bind calmIo_attempt calmIo_wrapped

lemma keepsLog_calm:
  assumes "keepsLog up L G T"
  shows "calmCall L G T (getCostDeckConfig up)" "calmCall L G T (listGroups (cluster up) n)"
    "calmCall L G T (listConfigs (cluster up) n)" "calmCall L G T (listSelected up m)"
    "calmCall L G T (patchNamespace up ns p)" "sendNotice up = Some send \<Longrightarrow> calmCall L G T (send k msg)"
  using assms by (simp_all add: keepsLog_def)

lemma notice_calm: "keepsLog up L G T \<Longrightarrow> calmIo L G T (notice up event msg)"
  by (auto simp: notice_def intro!: calm_steps keepsLog_calm split: option.split)

lemma warn_calm: "keepsLog up L G T \<Longrightarrow> calmIo L G T (warn up e postponed)"
  unfolding warn_def Let_def by (intro calm_steps notice_calm keepsLog_calm)

lemma readCostDeckConfig_calm: "keepsLog up L G T \<Longrightarrow> calmIo L G T (readCostDeckConfig up)"
  unfolding readCostDeckConfig_def by (intro calm_steps keepsLog_calm)

lemma Plan_calm: "keepsLog up L G T \<Longrightarrow> calmIo L G T (Plan up t)"
  by (auto simp: Plan_def ScheduledByName_def intro!: calm_steps keepsLog_calm split: sum.split)

lemma accounted_delete:
  assumes up: "keepsLog up L G T" and a: "accounted L G T lat now budget hs (ext w)" and b: "0 < budget"
    and t: "hasTimeText (peCreatedAt e)" "hasTimeText (peExpiresAt e)" "hasTimeText now"
  shows "after (deleteExpired up e now) (\<lambda>_ w'. \<exists>new. accounted L G T lat now (budget - 1) (new @ hs) (ext w')) w"
proof -
  define d where "d = \<lparr>dlNamespace = peNamespace e, dlCreatedAt = peCreatedAt e, dlExpiresAt = peExpiresAt e, dlDeletedAt = now\<rparr>"
  have d [simp]: "dlDeletedAt d = now" "dlNamespace d = peNamespace e" by (simp_all add: d_def)
  have dt: "timesHaveText d" using t by (simp add: d_def timesHaveText_def)
  note snd = a [unfolded accounted_def sound_def]
  have s: "sound now (d # hs)"
    using snd b dt dl.rate_kept_Cons [of hs d] by (simp add: sound_def)
  have more: "int (length (recentOf dlDeletedAt hour now (d # hs))) + (budget - 1) \<le> 20"
    using snd by (simp add: recentOf_def)
  have kept: "\<exists>new. accounted L G T lat now (budget - 1) (new @ hs) e'"
    if "L e' = L (ext w)" "G e' = G (ext w)" "T (ext w) \<le> T e'" for e'
    using that a by (intro exI [of _ "[]"]) (auto simp: accounted_def intro: accountsFor_later)
  have added: "\<exists>new. accounted L G T lat now (budget - 1) (new @ hs) e'"
    if "logHolds (L e') (take logSize (d # hs))" "G e' = (peNamespace e, g) # G (ext w)" "T (ext w) \<le> g" "g \<le> T e'" for e' g
    using that a s more
    by (intro exI [of _ "[d]"]) (auto simp: accounted_def accountsFor_def elim!: list_all2_mono)
  have del: "after (deleteNamespace up n u) (\<lambda>r e'. L e' = L (ext w) \<and> T (ext w) \<le> T e'
          \<and> (case r of Inl _ \<Rightarrow> G e' = G (ext w) | Inr _ \<Rightarrow> \<exists>g. G e' = (n, g) # G (ext w) \<and> T (ext w) \<le> g \<and> g \<le> T e')) (ext w)" for n u
    using up unfolding keepsLog_def by blast
  show ?thesis
    unfolding deleteExpired_def after_bind after_act
  proof (rule after_mono [OF del], elim conjE, goal_cases)
    case (1 r e')
    show ?case
    proof (cases r)
      case (Inl err)
      with 1 kept show ?thesis by simp
    next
      case (Inr x)
      with 1 obtain g where g: "G e' = (peNamespace e, g) # G (ext w)" "T (ext w) \<le> g" "g \<le> T e'" by auto
      define w1 where "w1 = w\<lparr>ext := e', trace := trace w @ [DeleteNamespace (peNamespace e) (peUID e)]\<rparr>"
      have "logHolds (L (ext w1)) (take logSize hs)" "list_all timesHaveText (d # hs)"
        using 1(1) snd dt by (simp_all add: w1_def accounted_def)
      from recordDeletion_logged [OF up this]
      have "after (recordDeletion up d) (\<lambda>_ w2. after (notice up ''alerts'' (deletedText e))
              (\<lambda>_ w'. \<exists>new. accounted L G T lat now (budget - 1) (new @ hs) (ext w')) w2) w1"
      proof (rule after_mono, elim conjE, goal_cases)
        case (1 r2 w2)
        then show ?case
          using g by (intro after_mono [OF calmIoD [OF notice_calm [OF up]]]) (auto simp: calm_def w1_def intro!: added)
      qed
      then show ?thesis by (simp add: Inr w1_def d_def after_bound)
    qed
  qed
qed

text \<open>What happened so far and what comes next.\<close>

definition grows ::
    "('w \<Rightarrow> string option) \<Rightarrow> ('w \<Rightarrow> (string \<times> time) list) \<Rightarrow> ('w \<Rightarrow> time) \<Rightarrow> duration \<Rightarrow> time
       \<Rightarrow> DeletedNamespace list \<Rightarrow> 'w \<Rightarrow> bool" where
  "grows L G T lat now hs e \<longleftrightarrow> (\<exists>new budget. accounted L G T lat now budget (new @ hs) e)"

lemma reapEach_accounted:
  assumes up: "keepsLog (up :: 'w upkeep) L G T" and now: "hasTimeText now"
  shows "accounted L G T lat now budget hs (ext w)
    \<Longrightarrow> \<forall>e \<in> set es. peProtected e = [] \<longrightarrow> peExpiresAt e \<le> now \<longrightarrow> hasTimeText (peCreatedAt e) \<and> hasTimeText (peExpiresAt e)
    \<Longrightarrow> after (reapEach up warnBefore now budget es) (\<lambda>_ w'. grows L G T lat now hs (ext w')) w"
proof (induction es arbitrary: budget hs w)
  case Nil
  then have "accounted L G T lat now budget ([] @ hs) (ext w)" by simp
  then show ?case unfolding grows_def reapEach.simps after_return by blast
next
  case (Cons e es)
  have here: "grows L G T lat now hs e'" if "accounted L G T lat now b (new @ hs) e'" for e' b new
    using that unfolding grows_def by blast
  have rest: "after (reapEach up warnBefore now b es) (\<lambda>_ w'. grows L G T lat now hs (ext w')) w1"
    if "accounted L G T lat now b (new @ hs) (ext w1)" for b new w1
  proof (rule after_mono [OF Cons.IH [OF that]])
    show "\<forall>e \<in> set es. peProtected e = [] \<longrightarrow> peExpiresAt e \<le> now \<longrightarrow> hasTimeText (peCreatedAt e) \<and> hasTimeText (peExpiresAt e)"
      using Cons.prems(2) by simp
    show "grows L G T lat now hs (ext h')" if "grows L G T lat now (new @ hs) (ext h')" for h'
      using that unfolding grows_def by (metis append.assoc)
  qed
  have same: "after (reapEach up warnBefore now budget es) (\<lambda>_ w'. grows L G T lat now hs (ext w')) w"
    by (rule rest [where new = "[]"]) (use Cons.prems(1) in simp)
  have warned: "after (attempt (warn up x p) (\<lambda>_. reapEach up warnBefore now budget es)) (\<lambda>_ w'. grows L G T lat now hs (ext w')) w" for x p
    unfolding after_attempt
  proof (rule after_mono [OF calmIoD [OF warn_calm [OF up]]], goal_cases)
    case (1 r w1)
    from accounted_calm [OF Cons.prems(1) this] have a: "accounted L G T lat now budget ([] @ hs) (ext w1)" by simp
    show ?case using here [OF a] rest [OF a] by (simp split: sum.split)
  qed
  have deleted: "after (attempt (deleteExpired up e now) (\<lambda>_. reapEach up warnBefore now (budget - 1) es))
      (\<lambda>_ w'. grows L G T lat now hs (ext w')) w"
    if "\<not> peProtected e \<noteq> []" "\<not> (\<not> now < peExpiresAt e \<and> budget \<le> 0)" "\<not> now < peExpiresAt e"
    unfolding after_attempt
  proof (rule after_mono [OF accounted_delete [OF up Cons.prems(1)]], goal_cases)
    case (5 r w1)
    then obtain new where a: "accounted L G T lat now (budget - 1) (new @ hs) (ext w1)" ..
    show ?case using here [OF a] rest [OF a] by (simp split: sum.split)
  qed (use that Cons.prems(2) now in auto)
  from same warned deleted show ?case unfolding reapEach.simps Let_def after_if by simp
qed

subsection \<open>Every run, and all of them\<close>

lemma planned_times:
  assumes "keepsLog up L G T" "planned up t es" "e \<in> set es" "peProtected e = []" "peExpiresAt e \<le> now" "hasTimeText now"
  shows "hasTimeText (peCreatedAt e) \<and> hasTimeText (peExpiresAt e)"
proof -
  from assms(2,3) obtain matches namespaces named ns where ns: "Inr namespaces \<in> set_state (listSelected up matches)"
    "ns \<in> set namespaces" "e = planEntry (operatorNamespace up) named (ttlOf t) ns"
    unfolding planned_def by blast
  have c: "hasTimeText (nsCreated ns)" "\<And>x. parseRFC3339 (annotationOf ns ExpiresAnnotation) = Some x \<Longrightarrow> hasTimeText x"
    using assms(1) ns(1,2) unfolding keepsLog_def by blast+
  have "dueAt t ns = Some (peExpiresAt e)" using planEntry_due(2) assms(4) ns(3) by blast
  then have "parseRFC3339 (annotationOf ns ExpiresAnnotation) = Some (peExpiresAt e) \<or> nsCreated ns < peExpiresAt e"
    by (auto simp: dueAt_def split: option.splits if_splits)
  with c assms(5,6) have "hasTimeText (peExpiresAt e)"
    by (auto intro: hasTimeText_between)
  with c(1) ns(3) show ?thesis by simp
qed

text \<open>Between runs the account has no budget to keep.\<close>

definition balanced ::
    "('w \<Rightarrow> string option) \<Rightarrow> ('w \<Rightarrow> (string \<times> time) list) \<Rightarrow> ('w \<Rightarrow> time) \<Rightarrow> duration \<Rightarrow> DeletedNamespace list \<Rightarrow> 'w \<Rightarrow> bool" where
  "balanced L G T lat hs e \<longleftrightarrow> sound (T e) hs \<and> logHolds (L e) (take logSize hs)
     \<and> list_all2 (\<lambda>d (n, g). dlNamespace d = n \<and> dlDeletedAt d \<le> g \<and> g \<le> dlDeletedAt d + lat) hs (G e)"

lemma balanced_calm:
  assumes "balanced L G T lat hs e" "calm L G T e e'"
  shows "balanced L G T lat hs e'"
  using assms by (fastforce simp: balanced_def calm_def sound_def)

lemma grows_balanced:
  assumes "grows L G T lat now hs e" "T e \<le> now + lat"
  shows "\<exists>new. balanced L G T lat (new @ hs) e"
proof -
  from assms(1) obtain new b where a: "accounted L G T lat now b (new @ hs) e" unfolding grows_def by blast
  then have "balanced L G T lat (new @ hs) e"
    unfolding balanced_def accounted_def sound_def accountsFor_def using assms(2)
    by (fastforce elim!: list_all2_mono)
  then show ?thesis ..
qed

lemma after_conj: "after m Q h \<Longrightarrow> after m R h \<Longrightarrow> after m (\<lambda>x h'. Q x h' \<and> R x h') h"
  by (auto simp: after_def)

lemma after_gives: "gives m (\<lambda>r cs. cs = [] \<and> A r) \<Longrightarrow> after m (\<lambda>r _. A r) w"
  by (rule afterI) (auto elim: givesD)

lemma Run_balanced:
  assumes up: "keepsLog (up :: 'w upkeep) L G T" and s: "balanced L G T lat hs (ext w)"
    and r: "run_state (Run up) w = (x, w')" and lat: "T (ext w') \<le> T (ext w) + lat"
  shows "\<exists>new. balanced L G T lat (new @ hs) (ext w')"
proof -
  define e0 where "e0 = ext w"
  have fin: "T e1 \<le> T e0 + lat \<longrightarrow> (\<exists>new. balanced L G T lat (new @ hs) e1)" if "calm L G T e0 e1" for e1
    using balanced_calm [OF s [folded e0_def] that] by (auto intro: exI [of _ "[]"])
  have reap: "after (reapEach up warnBefore now budget es)
      (\<lambda>_ w'. T (ext w') \<le> T e0 + lat \<longrightarrow> (\<exists>new. balanced L G T lat (new @ hs) (ext w'))) w1"
    if "planned up t es" "calm L G T e0 (ext w1)" "T e0 \<le> now" "now \<le> T (ext w1)"
      "budget = 20 - int (length (recentOf dlDeletedAt hour now hs))" for t es w1 warnBefore now budget
  proof -
    have s1: "balanced L G T lat hs (ext w1)" by (rule balanced_calm [OF s that(2) [unfolded e0_def]])
    have "hasTimeText (T e0)" "hasTimeText (T (ext w1))" using up unfolding keepsLog_def by blast+
    then have now: "hasTimeText now" by (rule hasTimeText_between) (use that in auto)
    have "sound now hs" using s that(3) by (fastforce simp: balanced_def sound_def e0_def)
    then have "accounted L G T lat now budget hs (ext w1)"
      using s1 that(4,5) unfolding accounted_def balanced_def accountsFor_def by (fastforce elim!: list_all2_mono)
    from reapEach_accounted [OF up now this] planned_times [OF up that(1) _ _ _ now]
    have "after (reapEach up warnBefore now budget es) (\<lambda>_ w'. grows L G T lat now hs (ext w')) w1" by blast
    then show ?thesis by (rule after_mono) (use that(3) in \<open>auto dest: grows_balanced\<close>)
  qed
  have "after (Run up) (\<lambda>_ w'. T (ext w') \<le> T e0 + lat \<longrightarrow> (\<exists>new. balanced L G T lat (new @ hs) (ext w'))) w"
  proof -
    have budget: "after (deletionBudget up now) (\<lambda>r w2. r = Inr (20 - int (length (recentOf dlDeletedAt hour now hs)))
        \<and> calm L G T (ext w1) (ext w2)) w1" if "calm L G T e0 (ext w1)" "T e0 \<le> now" for now w1
    proof -
      have "balanced L G T lat hs (ext w1)" by (rule balanced_calm [OF s that(1) [unfolded e0_def]])
      then have log: "logHolds (L (ext w1)) (take logSize hs)" by (simp add: balanced_def)
      have "recentOf dlDeletedAt hour now (take logSize hs) = recentOf dlDeletedAt hour now hs"
        by (rule dl.recent_cut) (use s that(2) in \<open>fastforce simp: balanced_def sound_def e0_def\<close>)+
      then show ?thesis
        unfolding deletionBudget_def after_attempt
        by (intro after_mono [OF Deleted_logged [OF up log]]) (auto simp: recentOf_def)
    qed
    have clock: "after (clockNow (cluster up)) (\<lambda>now e'. calm L G T e e' \<and> T e \<le> now \<and> now \<le> T e') e" for e
      using up unfolding keepsLog_def by blast
    have tail: "after (do { now \<leftarrow> ask (clockNow (cluster up));
          attempt (deletionBudget up now) (\<lambda>budget. reapEach up warnBefore now budget es) })
        (\<lambda>_ w'. T (ext w') \<le> T e0 + lat \<longrightarrow> (\<exists>new. balanced L G T lat (new @ hs) (ext w'))) w1"
      if "planned up t es" "calm L G T e0 (ext w1)" for t es w1 warnBefore
      unfolding after_bind after_ask after_attempt
    proof (rule after_mono [OF clock], elim conjE, goal_cases)
      case (1 now e1)
      then have c: "calm L G T e0 (ext (w1\<lparr>ext := e1\<rparr>))" "T e0 \<le> now" "now \<le> T (ext (w1\<lparr>ext := e1\<rparr>))"
        using that(2) by (auto simp: calm_def)
      show ?case
        by (rule after_mono [OF budget [OF c(1,2)]])
          (use c in \<open>auto intro!: reap [OF that(1)] dest: calm_trans simp: calm_def\<close>)
    qed
    show ?thesis
      unfolding Run_def Let_def after_attempt
    proof (rule after_mono [OF calmIoD [OF readCostDeckConfig_calm [OF up]]], goal_cases)
      case (1 r w1)
      then have c: "calm L G T e0 (ext w1)" by (simp add: e0_def)
      show ?case
      proof (cases r)
        case (Inr cfg)
        have "after (attempt (Plan up t) (\<lambda>plan. do { now \<leftarrow> ask (clockNow (cluster up));
              attempt (deletionBudget up now) (\<lambda>budget. reapEach up warnBefore now budget plan) }))
            (\<lambda>_ w'. T (ext w') \<le> T e0 + lat \<longrightarrow> (\<exists>new. balanced L G T lat (new @ hs) (ext w'))) w1" for t warnBefore
          unfolding after_attempt [of "Plan up t"]
          by (rule after_mono [OF after_conj [OF calmIoD [OF Plan_calm [OF up]] after_gives [OF Plan_planned]]])
            (use c in \<open>auto split: sum.split intro!: fin tail dest: calm_trans simp del: after_bind\<close>)
        with c show ?thesis by (auto simp: Inr fin)
      qed (use fin [OF c] in simp)
    qed
  qed
  with r lat show ?thesis by (simp add: after_def e0_def)
qed

end
