(* ===== verification/CleanupGuarantees.thy ===== *)
theory CleanupGuarantees
  imports ReapingRate
begin

section \<open>The properties of the cleanup of previews\<close>

text \<open>
  Safety of the deletions, their rate, and the notices: what a warning, a postponement or an extension
  writes is read back by the next plan as it was meant. The durations a setting or a label may give
  are read in 64 bits.
\<close>

subsection \<open>Patches of annotations read back\<close>

text \<open>What a merge patch does to the annotations of a namespace.\<close>

fun mergeAnnotations :: "(string \<times> json) list \<Rightarrow> (string \<rightharpoonup> string) \<Rightarrow> (string \<rightharpoonup> string)" where
  "mergeAnnotations [] m = m"
| "mergeAnnotations ((k, v) # ps) m =
     mergeAnnotations ps (case v of JNull \<Rightarrow> m(k := None) | JStr s \<Rightarrow> m(k \<mapsto> s) | _ \<Rightarrow> m)"

definition patched :: "PreviewNamespace \<Rightarrow> json \<Rightarrow> PreviewNamespace" where
  "patched ns j =
     (case nestedMap [''metadata'', ''annotations''] j of
        Some ps \<Rightarrow> ns\<lparr>nsAnnotations := mergeAnnotations ps (nsAnnotations ns)\<rparr>
      | None \<Rightarrow> ns)"

lemma patched_annotations [simp]:
  "patched ns (annotationPatch ps) = ns\<lparr>nsAnnotations := mergeAnnotations ps (nsAnnotations ns)\<rparr>"
  by (simp add: patched_def annotationPatch_def nestedMap_def)

lemma annotationOf_update [simp]:
  "annotationOf (ns\<lparr>nsAnnotations := m\<rparr>) k = (case m k of Some v \<Rightarrow> v | None \<Rightarrow> [])"
  by (simp add: annotationOf_def)

lemma lifeOf_update [simp]: "lifeOf t (ns\<lparr>nsAnnotations := m\<rparr>) = lifeOf t ns"
  by (simp add: lifeOf_def)

text \<open>The expiry written to a namespace that is not protected is the one read.\<close>

lemma dueAt_written:
  assumes "dueAt t ns \<noteq> None" "hasTimeText x" "m ExpiresAnnotation = Some (formatRFC3339 x)"
  shows "dueAt t (ns\<lparr>nsAnnotations := m\<rparr>) = Some (x - x mod second)"
  using assms by (auto simp: dueAt_def parseRFC3339_format split: option.splits)

lemma dueAt_kept:
  assumes "m ExpiresAnnotation = nsAnnotations ns ExpiresAnnotation"
  shows "dueAt t (ns\<lparr>nsAnnotations := m\<rparr>) = dueAt t ns"
  using assms by (simp add: dueAt_def annotationOf_def split: option.split)

lemma format_floor: "formatRFC3339 (x - x mod second) = formatRFC3339 x"
proof -
  have "(x - x mod second) mod second = 0" by (simp add: minus_mod_eq_mult_div)
  then show ?thesis by (simp add: formatRFC3339_text)
qed

text \<open>The patches of a warning and of a postponement.\<close>

definition warningPatch :: "Entry \<Rightarrow> bool \<Rightarrow> json" where
  "warningPatch e postponed =
     annotationPatch ((WarnedAnnotation, JStr (formatRFC3339 (peExpiresAt e)))
       # (if postponed then [(ExpiresAnnotation, JStr (formatRFC3339 (peExpiresAt e)))] else []))"

definition patchesOnly :: "(string \<Rightarrow> json \<Rightarrow> bool) \<Rightarrow> change \<Rightarrow> bool" where
  "patchesOnly P c \<longleftrightarrow> (\<forall>n p. c = PatchNamespace n p \<longrightarrow> P n p)"

lemma patchesOnly_simps [simp]:
  "patchesOnly P (PatchNamespace n j) \<longleftrightarrow> P n j"
  "patchesOnly P (DeleteNamespace n u)" "patchesOnly P (SendNotice k m)"
  "patchesOnly P (CreateConfigMap cm)" "patchesOnly P (UpdateConfigMap cm)"
  by (simp_all add: patchesOnly_def)

lemma warn_patches: "P (peNamespace e) (warningPatch e postponed) \<Longrightarrow> only (patchesOnly P) (warn up e postponed)"
  unfolding warn_def Let_def warningPatch_def by (intro only_steps notice_only) simp_all

lemma deleteExpired_patches: "only (patchesOnly P) (deleteExpired up e now)"
  unfolding deleteExpired_def by (intro only_steps notice_only recordDeletion_only) simp_all

lemma reapEach_patches:
  assumes "\<And>e. e \<in> set es \<Longrightarrow> peProtected e = [] \<Longrightarrow> 0 < warnBefore \<Longrightarrow> \<not> now < peExpiresAt e
      \<Longrightarrow> P (peNamespace e) (warningPatch (e\<lparr>peExpiresAt := now + warnBefore\<rparr>) True)"
    and "\<And>e. e \<in> set es \<Longrightarrow> peProtected e = [] \<Longrightarrow> 0 < warnBefore \<Longrightarrow> now < peExpiresAt e
      \<Longrightarrow> P (peNamespace e) (warningPatch e False)"
  shows "only (patchesOnly P) (reapEach up warnBefore now budget es)"
  using assms
proof (induction es arbitrary: budget)
  case (Cons e es)
  have IH: "only (patchesOnly P) (reapEach up warnBefore now budget es)" for budget
    by (rule Cons.IH; rule Cons.prems) auto
  have "only (patchesOnly P) (warn up (e\<lparr>peExpiresAt := now + warnBefore\<rparr>) True)"
    if "\<not> peProtected e \<noteq> []" "\<not> now < peExpiresAt e \<and> 0 < warnBefore \<and> \<not> peWarned e"
    using that Cons.prems(1) [of e] by (intro warn_patches) auto
  moreover have "only (patchesOnly P) (warn up e False)"
    if "\<not> peProtected e \<noteq> []" "\<not> \<not> now < peExpiresAt e" "0 < warnBefore \<and> \<not> peWarned e \<and> \<not> now < peExpiresAt e - warnBefore"
    using that Cons.prems(2) [of e] by (intro warn_patches) auto
  ultimately show ?case
    unfolding reapEach.simps Let_def by (intro only_if only_attempt deleteExpired_patches IH)
qed (simp add: only_return)

subsection \<open>Deletions\<close>

text \<open>C16. A run of the reaper asks to delete a namespace only when the cleanup is on and not a dry run,
  and only with the name and the UID of a namespace that the cluster listed for the setting's selector
  and that is its to delete then: no system namespace, not kept by its label, not named by a group or
  a config, not being deleted, with a time to live that is readable and over, and, when warnings are
  sent, warned about for exactly this expiry.\<close>

theorem Run_deletes_only_due:
  assumes "run_state (Run up) w = (r, w')"
  shows "\<exists>cs. trace w' = trace w @ cs \<and> (\<forall>n u. DeleteNamespace n u \<in> set cs \<longrightarrow>
      (\<exists>cfg matches groups configs namespaces now ns.
         Inr cfg \<in> set_state (getCostDeckConfig up) \<and> ntEnabled (cdNamespaceTTL cfg) \<and> \<not> ntDryRun (cdNamespaceTTL cfg)
         \<and> Selector up (ntSelector (cdNamespaceTTL cfg)) = Inr matches
         \<and> Inr groups \<in> set_state (listGroups (cluster up) (Some (operatorNamespace up)))
         \<and> Inr configs \<in> set_state (listConfigs (cluster up) (Some (operatorNamespace up)))
         \<and> Inr namespaces \<in> set_state (listSelected up matches) \<and> now \<in> set_state (clockNow (cluster up))
         \<and> ns \<in> set namespaces \<and> nsName ns = n \<and> nsUID ns = u
         \<and> reapable (operatorNamespace up)
             (concat (map (\<lambda>g. gNamespaces (Spec g)) groups) @ map (\<lambda>sc. TargetNamespace (cSpec sc)) configs)
             (cdNamespaceTTL cfg) now ns))"
proof -
  let ?P = "\<lambda>n u. \<exists>cfg matches groups configs namespaces now ns.
         Inr cfg \<in> set_state (getCostDeckConfig up) \<and> ntEnabled (cdNamespaceTTL cfg) \<and> \<not> ntDryRun (cdNamespaceTTL cfg)
         \<and> Selector up (ntSelector (cdNamespaceTTL cfg)) = Inr matches
         \<and> Inr groups \<in> set_state (listGroups (cluster up) (Some (operatorNamespace up)))
         \<and> Inr configs \<in> set_state (listConfigs (cluster up) (Some (operatorNamespace up)))
         \<and> Inr namespaces \<in> set_state (listSelected up matches) \<and> now \<in> set_state (clockNow (cluster up))
         \<and> ns \<in> set namespaces \<and> nsName ns = n \<and> nsUID ns = u
         \<and> reapable (operatorNamespace up)
             (concat (map (\<lambda>g. gNamespaces (Spec g)) groups) @ map (\<lambda>sc. TargetNamespace (cSpec sc)) configs)
             (cdNamespaceTTL cfg) now ns"
  have "only (deletesOnly ?P) (Run up)"
  proof (rule Run_only, rule reapEach_deletes, goal_cases)
    case (1 cfg t es now budget e)
    from 1(5,7) show ?case
    proof (cases rule: plannedE)
      case (1 matches groups configs namespaces ns)
      let ?named = "concat (map (\<lambda>g. gNamespaces (Spec g)) groups) @ map (\<lambda>sc. TargetNamespace (cSpec sc)) configs"
      have "reapable (operatorNamespace up) ?named t now ns"
        using \<open>peProtected e = []\<close> \<open>peExpiresAt e \<le> now\<close> \<open>0 < warnLead t \<longrightarrow> peWarned e\<close> 1(6,7)
          planEntry_due [of "operatorNamespace up" ?named t ns]
        by (auto simp: reapable_def protectedBy_none not_le)
      then show ?thesis
        using 1 \<open>Inr cfg \<in> _\<close> \<open>t = _\<close> \<open>ntEnabled t\<close> \<open>\<not> ntDryRun t\<close> \<open>now \<in> _\<close> by (intro exI conjI) auto
    qed
  qed
  from onlyD [OF this assms] show ?thesis by (auto simp: deletesOnly_def)
qed


subsection \<open>Notice\<close>

text \<open>C18. A patch a run asks for is a warning or a postponement, and it gives the namespace notice: read
  back with the patch, the namespace is marked as warned about for its expiry, which lies ahead and,
  if the namespace had expired unwarned, ahead by the whole lead time but for a fraction of a second.\<close>

theorem warnings_give_notice:
  assumes "run_state (Run up) w = (r, w')"
    and "\<forall>cfg now. Inr cfg \<in> set_state (getCostDeckConfig up) \<longrightarrow> now \<in> set_state (clockNow (cluster up)) \<longrightarrow>
           hasTimeText (now + warnLead (cdNamespaceTTL cfg))"
  shows "\<exists>cs. trace w' = trace w @ cs \<and> (\<forall>n p. PatchNamespace n p \<in> set cs \<longrightarrow>
      (\<exists>cfg t now matches namespaces ns due due'.
         Inr cfg \<in> set_state (getCostDeckConfig up) \<and> t = cdNamespaceTTL cfg \<and> 0 < warnLead t
         \<and> now \<in> set_state (clockNow (cluster up))
         \<and> Selector up (ntSelector t) = Inr matches \<and> Inr namespaces \<in> set_state (listSelected up matches)
         \<and> ns \<in> set namespaces \<and> nsName ns = n \<and> dueAt t ns = Some due \<and> dueAt t (patched ns p) = Some due'
         \<and> annotationOf (patched ns p) WarnedAnnotation = formatRFC3339 due'
         \<and> (if due \<le> now then now + warnLead t - second < due' else due' = due)))"
proof -
  let ?P = "\<lambda>n p. \<exists>cfg t now matches namespaces ns due due'.
         Inr cfg \<in> set_state (getCostDeckConfig up) \<and> t = cdNamespaceTTL cfg \<and> 0 < warnLead t
         \<and> now \<in> set_state (clockNow (cluster up))
         \<and> Selector up (ntSelector t) = Inr matches \<and> Inr namespaces \<in> set_state (listSelected up matches)
         \<and> ns \<in> set namespaces \<and> nsName ns = n \<and> dueAt t ns = Some due \<and> dueAt t (patched ns p) = Some due'
         \<and> annotationOf (patched ns p) WarnedAnnotation = formatRFC3339 due'
         \<and> (if due \<le> now then now + warnLead t - second < due' else due' = due)"
  have "only (patchesOnly ?P) (Run up)"
  proof (rule Run_only, rule reapEach_patches, goal_cases)
    case (1 cfg t es now budget e)
    from 1(5,7) show ?case
    proof (cases rule: plannedE)
      case p: (1 matches groups configs namespaces ns)
      let ?x = "now + warnLead t"
      have due: "dueAt t ns = Some (peExpiresAt e)" using planEntry_due(2) 1(8) p(7) by blast
      have x: "hasTimeText ?x" using assms(2) 1 by blast
      let ?m = "mergeAnnotations [(WarnedAnnotation, JStr (formatRFC3339 ?x)), (ExpiresAnnotation, JStr (formatRFC3339 ?x))] (nsAnnotations ns)"
      define due' where "due' = ?x - ?x mod second"
      have "dueAt t (ns\<lparr>nsAnnotations := ?m\<rparr>) = Some due'"
        unfolding due'_def by (rule dueAt_written) (use due x in auto)
      moreover have "formatRFC3339 ?x = formatRFC3339 due'" by (simp add: due'_def format_floor)
      moreover have "now + warnLead t - second < due'"
        unfolding due'_def using pos_mod_bound [of second ?x] by linarith
      ultimately show ?thesis
        using 1 p due by (intro exI [of _ cfg] exI [of _ t] exI [of _ now] exI [of _ matches] exI [of _ namespaces]
          exI [of _ ns] exI [of _ "peExpiresAt e"] exI [of _ due']) (auto simp: warningPatch_def)
    qed
  next
    case (2 cfg t es now budget e)
    from 2(5,7) show ?case
    proof (cases rule: plannedE)
      case p: (1 matches groups configs namespaces ns)
      have due: "dueAt t ns = Some (peExpiresAt e)" using planEntry_due(2) 2(8) p(7) by blast
      let ?m = "mergeAnnotations [(WarnedAnnotation, JStr (formatRFC3339 (peExpiresAt e)))] (nsAnnotations ns)"
      have "dueAt t (ns\<lparr>nsAnnotations := ?m\<rparr>) = dueAt t ns"
        by (rule dueAt_kept) simp
      then show ?thesis
        using 2 p due by (intro exI conjI) (auto simp: warningPatch_def)
    qed
  qed
  from onlyD [OF this assms(1)] obtain cs where cs: "trace w' = trace w @ cs" "\<forall>c \<in> set cs. patchesOnly ?P c" by blast
  have "?P n p" if "PatchNamespace n p \<in> set cs" for n p
  proof -
    have "patchesOnly ?P (PatchNamespace n p)" using cs(2) that by (rule bspec)
    then show ?thesis by (simp only: patchesOnly_simps)
  qed
  with cs(1) show ?thesis by (intro exI [of _ cs] conjI allI impI)
qed

text \<open>C19. An extension that is answered with an entry has asked for one patch, of a namespace the plan lets
  be deleted, and read back with it the namespace expires when the entry says, unwarned: the given time
  after its expiry, or after now when that has passed, cut to the second.\<close>

theorem Extend_moves_expiry:
  assumes "run_state (Extend up t n extra now) w = ((e, None), w')"
    and "hasTimeText (peExpiresAt e)"
  shows "\<exists>p matches namespaces ns due. trace w' = trace w @ [PatchNamespace n p]
      \<and> Selector up (ntSelector t) = Inr matches \<and> Inr namespaces \<in> set_state (listSelected up matches)
      \<and> ns \<in> set namespaces \<and> nsName ns = n \<and> dueAt t ns = Some due
      \<and> dueAt t (patched ns p) = Some (peExpiresAt e) \<and> annotationOf (patched ns p) WarnedAnnotation = []
      \<and> max due now + extra - second < peExpiresAt e \<and> peExpiresAt e \<le> max due now + extra"
proof -
  let ?R = "\<lambda>r cs. \<forall>e. r = (e, None) \<longrightarrow> hasTimeText (peExpiresAt e) \<longrightarrow>
      (\<exists>p matches namespaces ns due. cs = [PatchNamespace n p]
      \<and> Selector up (ntSelector t) = Inr matches \<and> Inr namespaces \<in> set_state (listSelected up matches)
      \<and> ns \<in> set namespaces \<and> nsName ns = n \<and> dueAt t ns = Some due
      \<and> dueAt t (patched ns p) = Some (peExpiresAt e) \<and> annotationOf (patched ns p) WarnedAnnotation = []
      \<and> max due now + extra - second < peExpiresAt e \<and> peExpiresAt e \<le> max due now + extra)"
  have step: "gives (do { r \<leftarrow> act (PatchNamespace n p) (patchNamespace up n p);
        State_Monad.return (e', case r of Inl err \<Rightarrow> Some err | Inr _ \<Rightarrow> None) }) ?R"
    if es: "planned up t es" and e: "e \<in> set es" "peNamespace e = n" "peProtected e = []" and e': "e' = extended e extra now"
      and p: "p = annotationPatch [(ExpiresAnnotation, JStr (formatRFC3339 (peExpiresAt e'))), (WarnedAnnotation, JNull)]" for es e e' p
    using es e(1)
  proof (cases rule: plannedE)
    case q: (1 matches groups configs namespaces ns)
    define y where "y = max (peExpiresAt e) now + extra"
    have z: "zeroTime mod second = 0" by (simp add: zeroTime_def)
    have x: "peExpiresAt e' = y - y mod second"
    proof -
      have "(y - zeroTime) mod second = y mod second" using z by (simp add: mod_diff_eq [symmetric])
      moreover have "y = (if peExpiresAt e < now then now else peExpiresAt e) + extra"
        by (simp add: y_def max_def)
      ultimately show ?thesis by (simp add: e' extended_def truncateTo_def)
    qed
    have due: "dueAt t ns = Some (peExpiresAt e)" using planEntry_due(2) e(3) q(7) by blast
    have "dueAt t (patched ns p) = Some (peExpiresAt e')" if "hasTimeText (peExpiresAt e')"
    proof -
      have "peExpiresAt e' mod second = 0" by (simp add: x minus_mod_eq_mult_div)
      moreover have "dueAt t (patched ns p) = Some (peExpiresAt e' - peExpiresAt e' mod second)"
        unfolding p patched_annotations by (rule dueAt_written) (use due that in auto)
      ultimately show ?thesis by simp
    qed
    moreover have "annotationOf (patched ns p) WarnedAnnotation = []" by (simp add: p)
    moreover have "y - second < peExpiresAt e'" "peExpiresAt e' \<le> y"
      unfolding x using pos_mod_bound [of second y] pos_mod_sign [of second y] by linarith+
    ultimately show ?thesis
      using q due e(2) unfolding y_def
      by (intro wp) (auto intro!: exI [of _ p] exI [of _ matches] exI [of _ namespaces] exI [of _ ns] split: sum.splits)
  qed
  have g: "gives (Extend up t n extra now) ?R"
    unfolding Extend_def
  proof (rule gives_bind, rule gives_mono [OF Plan_planned], elim conjE, goal_cases)
    case (1 r cs)
    show ?case
    proof (cases r)
      case (Inr es)
      then have es: "planned up t es" using 1 by blast
      show ?thesis
      proof (cases "find (\<lambda>e. peNamespace e = n) es")
        case (Some e)
        then have e: "e \<in> set es" "peNamespace e = n" by (auto simp: find_Some_iff)
        show ?thesis
          using step [OF es e _ refl refl] 1 by (auto simp: Inr Some Let_def intro: gives_return)
      qed (auto simp: Inr intro: gives_return)
    qed (auto intro: gives_return)
  qed
  from g [unfolded gives_def, THEN spec, THEN spec, THEN spec, THEN mp, OF assms(1)]
  obtain cs where cs: "trace w' = trace w @ cs" "?R (e, None :: goError option) cs" by (elim exE conjE)
  from cs(2) assms(2) have "\<exists>p matches namespaces ns due. cs = [PatchNamespace n p]
      \<and> Selector up (ntSelector t) = Inr matches \<and> Inr namespaces \<in> set_state (listSelected up matches)
      \<and> ns \<in> set namespaces \<and> nsName ns = n \<and> dueAt t ns = Some due
      \<and> dueAt t (patched ns p) = Some (peExpiresAt e) \<and> annotationOf (patched ns p) WarnedAnnotation = []
      \<and> max due now + extra - second < peExpiresAt e \<and> peExpiresAt e \<le> max due now + extra" by blast
  with cs(1) show ?thesis by blast
qed

end
