(* ===== verification/CleanupApi.thy ===== *)
theory CleanupApi
  imports CleanupGuarantees AuthApi
begin

section \<open>Preview cleanup in the API (internal/api/namespace\_ttl.go)\<close>

text \<open>
  The settings page reads and writes the setting, the dashboard shows the plan and extends a
  namespace. A request is what the handler reads of it; the answer is that of the authentication
  handlers. The role each route asks for is in \<open>Routes\<close>.
\<close>

subsection \<open>Requests and errors (httputil.go, scaling\_handlers.go)\<close>

definition maxRequestBody :: nat where "maxRequestBody = 4 * 1024 * 1024"

text \<open>A body that is empty leaves every field unset.\<close>

definition decodeJSON :: "string list \<Rightarrow> string \<Rightarrow> (string \<times> json) list option" where
  "decodeJSON names s = (if list_all isJsonSpace s then Some [] else decodeBody maxRequestBody names s)"

text \<open>A field that is a pointer: null, and a member left out, is none.\<close>

fun readPointer :: "(json \<Rightarrow> 'a option) \<Rightarrow> string \<Rightarrow> 'a option \<Rightarrow> (string \<times> json) list \<Rightarrow> 'a option option" where
  "readPointer rd n x [] = Some x"
| "readPointer rd n x ((k, v) # fs) =
     (if k \<noteq> n then readPointer rd n x fs
      else if v = JNull then readPointer rd n None fs
      else Option.bind (rd v) (\<lambda>y. readPointer rd n (Some y) fs))"

definition writeK8sError :: "'w api \<Rightarrow> goError \<Rightarrow> answer" where
  "writeK8sError api e =
     errorReply
       (if IsNotFound e then 404
        else if IsAlreadyExists e \<or> IsConflict e then 409
        else if rootError e = Api Invalid \<or> rootError e = Api BadRequest then 422
        else if IsForbidden e then 403 else 500)
       (errorText api e)"

definition okReply :: "json \<Rightarrow> answer" where
  "okReply j = Reply 200 [] [] (JsonBody j)"

subsection \<open>The setting\<close>

record NamespaceTTLUpdate =
  nuEnabled :: "bool option"
  nuDryRun :: "bool option"
  nuSelector :: "string option"
  nuTTL :: "string option"
  nuWarnBefore :: "string option"

definition namespaceTTLSettings :: "NamespaceTTLConfig \<Rightarrow> (string \<times> json) list" where
  "namespaceTTLSettings t =
     (let ttl = (case ntTTL t of Some d \<Rightarrow> durationText d | None \<Rightarrow> []);
          before = (case ntWarnBefore t of Some d \<Rightarrow> durationText d | None \<Rightarrow> [])
      in field ''enabled'' (JBool (ntEnabled t)) @ field ''dryRun'' (JBool (ntDryRun t)) @ field ''selector'' (JStr (ntSelector t))
         @ omitEmpty (ttl = []) ''ttl'' (JStr ttl) @ omitEmpty (before = []) ''warnBefore'' (JStr before))"

definition settingDuration :: "string \<Rightarrow> string \<Rightarrow> string + duration option" where
  "settingDuration what raw =
     (if trimSpace raw = [] then Inr None
      else if raw = ''0s'' \<or> raw = ''0'' then Inr (Some 0)
      else (case ParseTTL raw of
              Inr (d, False) \<Rightarrow> Inr (Some d)
            | _ \<Rightarrow> Inl (''preview cleanup: '' @ what @ '' '' @ quoted raw @ '' is not a duration such as 7d or 36h'')))"

definition givenOr :: "'a option \<Rightarrow> 'a \<Rightarrow> 'a" where
  "givenOr x y = (case x of Some z \<Rightarrow> z | None \<Rightarrow> y)"

definition updatedDuration :: "string \<Rightarrow> string option \<Rightarrow> duration option \<Rightarrow> string + duration option" where
  "updatedDuration what raw old = (case raw of None \<Rightarrow> Inr old | Some r \<Rightarrow> settingDuration what r)"

definition applyNamespaceTTLSettings ::
    "'w upkeep \<Rightarrow> NamespaceTTLConfig \<Rightarrow> NamespaceTTLUpdate option \<Rightarrow> string + NamespaceTTLConfig" where
  "applyNamespaceTTLSettings up t req =
     (case req of
        None \<Rightarrow> Inr t
      | Some u \<Rightarrow>
          (case updatedDuration ''the time to live'' (nuTTL u) (ntTTL t) of
             Inl e \<Rightarrow> Inl e
           | Inr ttl \<Rightarrow>
               (case updatedDuration ''the warning'' (nuWarnBefore u) (ntWarnBefore t) of
                  Inl e \<Rightarrow> Inl e
                | Inr before \<Rightarrow>
                    let t' = \<lparr>ntEnabled = givenOr (nuEnabled u) (ntEnabled t), ntDryRun = givenOr (nuDryRun u) (ntDryRun t),
                              ntSelector = (case nuSelector u of Some s \<Rightarrow> trimSpace s | None \<Rightarrow> ntSelector t),
                              ntTTL = ttl, ntWarnBefore = before\<rparr>
                    in case (if ntSelector t' \<noteq> [] \<or> ntEnabled t' then map_sum id (\<lambda>_. ()) (Selector up (ntSelector t')) else Inr ()) of
                         Inl e \<Rightarrow> Inl (''preview cleanup: '' @ e)
                       | Inr _ \<Rightarrow>
                           if ntEnabled t' \<and> (case ttl of None \<Rightarrow> True | Some d \<Rightarrow> d < hour)
                           then Inl ''preview cleanup: the time to live must be at least an hour''
                           else if (case (ttl, before) of (Some d, Some b) \<Rightarrow> d \<le> b | _ \<Rightarrow> False)
                           then Inl ''preview cleanup: the warning must come before the time to live is up''
                           else Inr t')))"

subsection \<open>Handlers\<close>

definition entryJson :: "Entry \<Rightarrow> json" where
  "entryJson e =
     JObj (field ''namespace'' (JStr (peNamespace e)) @ field ''createdAt'' (timeJson (peCreatedAt e))
       @ field ''expiresAt'' (timeJson (peExpiresAt e)) @ field ''source'' (JStr (peSource e)) @ field ''warned'' (JBool (peWarned e))
       @ omitEmpty (peProtected e = []) ''protected'' (JStr (peProtected e)))"

definition mayDeleteNamespaces :: "'w upkeep \<Rightarrow> ('w, bool) io" where
  "mayDeleteNamespaces up =
     (case mayDelete up of
        None \<Rightarrow> State_Monad.return False
      | Some review \<Rightarrow> do { r \<leftarrow> ask review; State_Monad.return (case r of Inl _ \<Rightarrow> False | Inr allowed \<Rightarrow> allowed) })"

text \<open>The text of a decoding error, the library's, is not modelled. \<open>?selector=\<close>, when it is there, and \<open>?ttl=\<close> stand in for the saved setting.\<close>

definition handleNamespaceTTL :: "'w upkeep \<Rightarrow> string option \<Rightarrow> string \<Rightarrow> ('w, answer) io" where
  "handleNamespaceTTL up selector ttl =
     do { r \<leftarrow> readCostDeckConfig up;
          case r of
            Inl e \<Rightarrow> State_Monad.return (writeK8sError (cluster up) e)
          | Inr cfg \<Rightarrow>
              do { permitted \<leftarrow> mayDeleteNamespaces up;
                   let saved = cdNamespaceTTL cfg;
                   let t = saved\<lparr>ntSelector := (case selector of Some s \<Rightarrow> trimSpace s | None \<Rightarrow> ntSelector saved),
                             ntTTL := (case ParseTTL ttl of Inr (d, False) \<Rightarrow> if ttl = [] then ntTTL saved else Some d
                                           | _ \<Rightarrow> ntTTL saved)\<rparr>;
                   plan \<leftarrow> (if ntSelector t = [] then State_Monad.return (Inr []) else Plan up t);
                   deleted \<leftarrow> Deleted up;
                   State_Monad.return (okReply (JObj
                     (namespaceTTLSettings saved @ field ''permitted'' (JBool permitted)
                      @ (case plan of
                           Inl e \<Rightarrow> omitEmpty (errorText (cluster up) e = []) ''error'' (JStr (errorText (cluster up) e))
                                    @ field ''namespaces'' (JArr [])
                         | Inr es \<Rightarrow> field ''namespaces'' (JArr (map entryJson es)))
                      @ field ''deleted'' (JArr (case deleted of Inl _ \<Rightarrow> [] | Inr ds \<Rightarrow> map (\<lambda>d. JObj (deletionFields d)) ds))))) } }"

definition handleExtendNamespace :: "'w upkeep \<Rightarrow> string \<Rightarrow> string \<Rightarrow> ('w, answer) io" where
  "handleExtendNamespace up body ns =
     (case Option.bind (decodeJSON [''by''] body) (readField asString ''by'' []) of
        None \<Rightarrow> State_Monad.return (errorReply 400 ''invalid body'')
      | Some by_text \<Rightarrow>
          (case ParseTTL by_text of
             Inr (extra, False) \<Rightarrow>
               if 90 * 24 * hour < extra
               then State_Monad.return (errorReply 400 ''extend by a duration such as 3d or 12h, at most 90d'')
               else do { r \<leftarrow> readCostDeckConfig up;
                         case r of
                           Inl e \<Rightarrow> State_Monad.return (writeK8sError (cluster up) e)
                         | Inr cfg \<Rightarrow>
                             if ntSelector (cdNamespaceTTL cfg) = []
                             then State_Monad.return (errorReply 400 ''preview cleanup is not set up'')
                             else do { now \<leftarrow> ask (clockNow (cluster up));
                                       (entry, err) \<leftarrow> Extend up (cdNamespaceTTL cfg) ns extra now;
                                       State_Monad.return
                                         (case err of
                                            None \<Rightarrow> okReply (entryJson entry)
                                          | Some e \<Rightarrow>
                                              if IsNotFound e then errorReply 404 (''preview cleanup does not select '' @ ns)
                                              else if IsForbidden e then errorReply 403 ''the operator may not change namespaces: install with namespaceTTL.enabled=true''
                                              else if peProtected entry \<noteq> [] then errorReply 400 (errorText (cluster up) e)
                                              else writeK8sError (cluster up) e) } }
           | _ \<Rightarrow> State_Monad.return (errorReply 400 ''extend by a duration such as 3d or 12h, at most 90d'')))"

subsection \<open>Durations of days\<close>

lemma ParseTTL_days:
  assumes "0 < n" "n \<le> 106751"
  shows "ParseTTL (itoa n @ ''d'') = Inr (n * 24 * hour, False)"
proof -
  obtain c cs where s: "itoa n = c # cs" "isDigit c" "list_all isDigit cs"
    using showNat_head [of "nat n"] assms(1) by (auto simp: itoa_def)
  have ns: "\<not> isSpace x" if "isDigit x" for x using that by (auto simp: isSpace_def isDigit_def)
  have "trimSpace (itoa n @ ''d'') = itoa n @ ''d''"
    using ns [OF s(2)] by (simp add: trimSpace_def s(1) isSpace_def)
  moreover have "itoa n @ ''d'' \<noteq> ''off''" by simp
  moreover have "hasSuffix (itoa n @ ''d'') ''d''" by (simp add: hasSuffix_def hasPrefix_def)
  moreover have "parseInt 64 (itoa n) = Some n" by (rule parseInt_itoa) (use assms in auto)
  ultimately show ?thesis using assms by (simp add: ParseTTL_def Let_def)
qed

lemma map_sum_unit: "map_sum id (\<lambda>_. ()) x = Inr u \<longleftrightarrow> (\<exists>y. x = Inr y)"
  by (cases x) auto

lemma i64_mod: "i64 x = (x + 2 ^ 63) mod 2 ^ 64 - 2 ^ 63"
  unfolding i64_def signed_take_bit_eq_take_bit_shift take_bit_int_def by simp

text \<open>A setting the page accepts while the cleanup is on has a selector that is not empty, a time to live
  of at least an hour and, when it says how long before a deletion to warn, a warning that comes after
  the creation.\<close>

theorem accepted_setting_is_safe:
  assumes "applyNamespaceTTLSettings up t (Some u) = Inr t'" and "ntEnabled t'"
  shows "\<exists>matches ttl. Selector up (ntSelector t') = Inr matches \<and> ntTTL t' = Some ttl \<and> hour \<le> ttl
      \<and> (case ntWarnBefore t' of Some b \<Rightarrow> b < ttl | None \<Rightarrow> True)"
  using assms
  by (auto simp: applyNamespaceTTLSettings_def Let_def map_sum_unit split: sum.splits option.splits if_splits)

text \<open>A number of days is not checked against the range of a duration: the label that asks for 213504
  days, almost six centuries, reads as a time to live of less than half an hour.\<close>

lemma days_wrap_around:
  "ParseTTL ''213504d'' = Inr (25 * minute + 26 * second + 290448384, False)"
proof -
  have "trimSpace ''213504d'' = ''213504d''" "hasSuffix ''213504d'' ''d''" "parseInt 64 ''213504'' = Some 213504"
    by (simp_all add: go_str parseInt_def readNat_def digitVal_def isDigit_def)
  then show ?thesis by (simp add: ParseTTL_def i64_mod)
qed

end
