(* ===== verification/CleanupExamples.thy ===== *)
theory CleanupExamples
  imports CleanupApi
begin

section \<open>A cluster with a preview namespace\<close>

text \<open>
  A cluster in which the properties of the cleanup apply: its log and its deletions are kept, its
  clock stands still at 1970, and it lists one preview namespace, two days old.
\<close>

type_synonym shed = "string option \<times> (string \<times> time) list"

definition oldPreview :: PreviewNamespace where
  "oldPreview = \<lparr>nsName = ''pr-7'', nsLabels = [''env'' \<mapsto> ''preview''], nsDeleting = False, nsAnnotations = Map.empty,
     nsCreated = - 48 * hour, nsUID = ''u-7''\<rparr>"

definition previewSetting :: "duration option \<Rightarrow> NamespaceTTLConfig" where
  "previewSetting warnBefore = \<lparr>ntEnabled = True, ntDryRun = False, ntSelector = ''env=preview'', ntTTL = Some (24 * hour),
     ntWarnBefore = warnBefore\<rparr>"

definition saveShed :: "ConfigMap \<Rightarrow> (shed, unit reply) state" where
  "saveShed cm = state.State (\<lambda>(l, g). (Inr (), (map_of (cmData cm) logKey, g)))"

definition janitor :: "duration option \<Rightarrow> shed upkeep" where
  "janitor warnBefore =
     \<lparr>cluster = quietApi,
      getCostDeckConfig = State_Monad.return (Inr \<lparr>cdNamespaceTTL = previewSetting warnBefore, cdGuardMinutes = 0\<rparr>),
      getConfigMap = (\<lambda>ns n. state.State (\<lambda>(l, g).
        (case l of None \<Rightarrow> Inl (Api NotFound)
         | Some raw \<Rightarrow> Inr \<lparr>cmNamespace = ns, cmName = n, cmLabels = [], cmData = [(logKey, raw)], cmVersion = 1\<rparr>, (l, g)))),
      createConfigMap = saveShed, updateConfigMap = saveShed,
      parseLabels = (\<lambda>s. Inr (s = [], \<lambda>m. m ''env'' = Some ''preview'')),
      listSelected = (\<lambda>matches. State_Monad.return (Inr (filter (\<lambda>ns. matches (nsLabels ns)) [oldPreview]))),
      patchNamespace = (\<lambda>_ _. State_Monad.return (Inr ())),
      deleteNamespace = (\<lambda>n u. state.State (\<lambda>(l, g). (Inr (), (l, (n, 0) # g)))),
      sendNotice = None, mayDelete = None,
      getDeployment = (\<lambda>_ _. State_Monad.return (Inl (Api NotFound))), listObservedPods = (\<lambda>_ _. State_Monad.return (Inr [])),
      getOptimization = (\<lambda>_ _. State_Monad.return (Inl (Api NotFound))), createOptimization = (\<lambda>opt. State_Monad.return (Inr opt)),
      updateOptimizationStatus = (\<lambda>_. State_Monad.return (Inr ())), listOptimizations = (\<lambda>_. State_Monad.return (Inr [])),
      parseQuantity = (\<lambda>_. None), readContainer = (\<lambda>_. None), writeContainer = (\<lambda>_. Inl []), podContainers = (\<lambda>_. []), withPodContainers = (\<lambda>_ t. t),
      selectorLeft = (\<lambda>_. \<lparr>MatchLabels = [], MatchExpressions = []\<rparr>), moreTries = 0\<rparr>"

definition emptyShed :: "shed world" where
  "emptyShed = \<lparr>ext = (None, []), trace = [], kedaMissing = False, kedaCheckedAt = 0,
     measuredAt = Map.empty, announcedPhase = Map.empty\<rparr>"

lemma hasTimeText_1970: "hasTimeText 0" "hasTimeText (- 172800000000000)" "hasTimeText 3600000000000"
  by code_simp+

lemma janitor_keepsLog: "keepsLog (janitor b) fst snd (\<lambda>_. 0)"
  unfolding keepsLog_def
  by (auto simp: janitor_def quietApi_def calmCall_def calm_def after_def saveShed_def oldPreview_def set_state_iff
      IsNotFound_def hasTimeText_1970 annotationOf_def parseRFC3339_def parseYMD_def split: option.splits)

text \<open>The reaper deletes it.\<close>

lemma janitor_plan:
  "run_state (Plan (janitor b) (previewSetting b)) emptyShed =
     (Inr [planEntry ''costdeck'' [] 86400000000000 oldPreview], emptyShed)"
  by (simp add: Plan_def Selector_def ScheduledByName_def janitor_def previewSetting_def quietApi_def attempt_def ask_def
      emptyShed_def operatorNamespace_def OperatorNamespace_def oldPreview_def trimSpace_def isSpace_def)

lemma oldPreview_entry:
  "planEntry ''costdeck'' [] 86400000000000 oldPreview =
     \<lparr>peNamespace = ''pr-7'', peCreatedAt = - 172800000000000, peExpiresAt = - 86400000000000, peSource = SourceTTL,
      peWarned = False, peProtected = [], peUID = ''u-7''\<rparr>"
proof -
  have "formatRFC3339 (- 86400000000000) \<noteq> []" by (simp add: formatRFC3339_def Let_def split: prod.split)
  then show ?thesis
    by (simp add: planEntry_def oldPreview_def protectedBy_def hasPrefix_def annotationOf_def parseRFC3339_def parseYMD_def)
qed

lemma janitor_deletes:
  "snd (ext (snd (run_state (Run (janitor (Some 0))) emptyShed))) = [(''pr-7'', 0)]"
proof -
  have cfg: "run_state (readCostDeckConfig (janitor b)) emptyShed = (Inr \<lparr>cdNamespaceTTL = previewSetting b, cdGuardMinutes = 0\<rparr>, emptyShed)" for b
    by (simp add: readCostDeckConfig_def ask_def janitor_def emptyShed_def)
  have clock: "run_state (ask (clockNow (cluster (janitor b)))) emptyShed = (0, emptyShed)" for b
    by (simp add: ask_def janitor_def quietApi_def emptyShed_def)
  have budget: "run_state (deletionBudget (janitor b) 0) emptyShed = (Inr 20, emptyShed)" for b
    by (simp add: deletionBudget_def Deleted_def attempt_def ask_def janitor_def emptyShed_def IsNotFound_def)
  have del: "snd (ext (snd (run_state (deleteExpired (janitor b) e 0) emptyShed))) = [(peNamespace e, 0)]" for b e
    by (simp add: deleteExpired_def recordDeletion_def saveRecord_def saveShed_def Deleted_def attempt_def ask_def act_def notice_def
        janitor_def emptyShed_def IsNotFound_def Let_def split: option.split prod.split)
  have deleted: "snd (ext x) = [(peNamespace e, 0)]" if "run_state (deleteExpired (janitor b) e 0) emptyShed = (r, x)" for b e r x
    using del [of b e] that by simp
  have s: "ntEnabled (previewSetting b)" "\<not> ntDryRun (previewSetting b)" "ntWarnBefore (previewSetting b) = b" for b
    by (simp_all add: previewSetting_def)
  show ?thesis
    by (auto simp: Run_def attempt_def cfg clock budget janitor_plan oldPreview_entry s Let_def
        dest!: deleted split: prod.split sum.split)
qed

subsection \<open>Applications\<close>

lemma emptyShed_reaped: "reaped (janitor b) fst snd (\<lambda>_. 0) 0 (snd (run_state (Run (janitor b)) emptyShed))"
  by (rule reaped.run [of _ _ _ _ _ emptyShed "fst (run_state (Run (janitor b)) emptyShed)"])
     (auto intro: reaped.start simp: emptyShed_def)

lemma Run_deletes_only_due_witness:
  "\<exists>cs. trace (snd (run_state (Run (janitor (Some 0))) emptyShed)) = trace emptyShed @ cs
     \<and> (\<forall>n u. DeleteNamespace n u \<in> set cs \<longrightarrow> n = ''pr-7'' \<and> u = ''u-7'')"
proof -
  have one: "Inr namespaces \<in> set_state (listSelected (janitor (Some 0)) matches) \<Longrightarrow> ns \<in> set namespaces \<Longrightarrow> ns = oldPreview"
    for namespaces matches ns by (auto simp: janitor_def set_state_iff split: if_splits)
  obtain cs where cs: "trace (snd (run_state (Run (janitor (Some 0))) emptyShed)) = trace emptyShed @ cs"
    "\<forall>n u. DeleteNamespace n u \<in> set cs \<longrightarrow> (\<exists>matches namespaces ns. Inr namespaces \<in> set_state (listSelected (janitor (Some 0)) matches)
       \<and> ns \<in> set namespaces \<and> nsName ns = n \<and> nsUID ns = u)"
    using Run_deletes_only_due [of "janitor (Some 0)" emptyShed, OF surjective_pairing] by blast
  have "n = ''pr-7'' \<and> u = ''u-7''" if "DeleteNamespace n u \<in> set cs" for n u
  proof -
    from cs(2) that obtain matches namespaces ns where *: "Inr namespaces \<in> set_state (listSelected (janitor (Some 0)) matches)"
      "ns \<in> set namespaces" "nsName ns = n" "nsUID ns = u" by blast
    with one [OF *(1,2)] show ?thesis by (auto simp: oldPreview_def)
  qed
  with cs(1) show ?thesis by blast
qed


lemma warnings_give_notice_witness:
  "\<exists>cs. trace (snd (run_state (Run (janitor (Some hour))) emptyShed)) = trace emptyShed @ cs
     \<and> (\<forall>n p. PatchNamespace n p \<in> set cs \<longrightarrow> n = ''pr-7'')"
proof -
  have one: "Inr namespaces \<in> set_state (listSelected (janitor (Some hour)) matches) \<Longrightarrow> ns \<in> set namespaces \<Longrightarrow> ns = oldPreview"
    for namespaces matches ns by (auto simp: janitor_def set_state_iff split: if_splits)
  have later: "\<forall>cfg now. Inr cfg \<in> set_state (getCostDeckConfig (janitor (Some hour))) \<longrightarrow>
      now \<in> set_state (clockNow (cluster (janitor (Some hour)))) \<longrightarrow> hasTimeText (now + warnLead (cdNamespaceTTL cfg))"
    by (simp add: janitor_def quietApi_def previewSetting_def set_state_iff hasTimeText_1970)
  from warnings_give_notice [of "janitor (Some hour)" emptyShed, OF surjective_pairing later]
  obtain cs where cs: "trace (snd (run_state (Run (janitor (Some hour))) emptyShed)) = trace emptyShed @ cs"
    "\<forall>n p. PatchNamespace n p \<in> set cs \<longrightarrow> (\<exists>matches namespaces ns. Inr namespaces \<in> set_state (listSelected (janitor (Some hour)) matches)
       \<and> ns \<in> set namespaces \<and> nsName ns = n)" by blast
  have "n = ''pr-7''" if "PatchNamespace n p \<in> set cs" for n p
  proof -
    from cs(2) that obtain matches namespaces ns where *: "Inr namespaces \<in> set_state (listSelected (janitor (Some hour)) matches)"
      "ns \<in> set namespaces" "nsName ns = n" by blast
    with one [OF *(1,2)] show ?thesis by (auto simp: oldPreview_def)
  qed
  with cs(1) show ?thesis by blast
qed

lemma accepted_setting_is_safe_witness:
  "\<exists>matches ttl. Selector (janitor None) ''env=preview'' = Inr matches \<and> Some (24 * hour) = Some ttl \<and> hour \<le> ttl"
proof -
  have "applyNamespaceTTLSettings (janitor None) (previewSetting (Some hour))
      (Some \<lparr>nuEnabled = Some True, nuDryRun = None, nuSelector = None, nuTTL = None, nuWarnBefore = None\<rparr>)
    = Inr (previewSetting (Some hour))"
    by (simp add: applyNamespaceTTLSettings_def updatedDuration_def givenOr_def previewSetting_def Selector_def janitor_def
        trimSpace_def isSpace_def)
  from accepted_setting_is_safe [OF this] show ?thesis by (auto simp: previewSetting_def)
qed

lemma Extend_moves_expiry_witness:
  "\<exists>p ns due. trace (snd (run_state (Extend (janitor None) (previewSetting None) ''pr-7'' hour 0) emptyShed))
       = trace emptyShed @ [PatchNamespace ''pr-7'' p]
     \<and> dueAt (previewSetting None) (patched ns p) = Some hour \<and> max due 0 + hour - second < hour"
proof -
  define e where "e = \<lparr>peNamespace = ''pr-7'', peCreatedAt = - 172800000000000, peExpiresAt = - 86400000000000,
    peSource = SourceTTL, peWarned = False, peProtected = [], peUID = ''u-7''\<rparr>"
  have x: "peExpiresAt (extended e hour 0) = hour"
    by (simp add: extended_def e_def truncateTo_def zeroTime_def)
  have plan: "run_state (Plan (janitor None) (previewSetting None)) emptyShed = (Inr [e], emptyShed)"
    unfolding janitor_plan oldPreview_entry e_def ..
  have patch: "run_state (patchNamespace (janitor None) n p) w = (Inr (), w)" for n p w
    by (simp add: janitor_def)
  have n: "peNamespace e = ''pr-7''" "peProtected e = []" by (simp_all add: e_def)
  obtain w' where r: "run_state (Extend (janitor None) (previewSetting None) ''pr-7'' hour 0) emptyShed = ((extended e hour 0, None), w')"
    by (simp add: Extend_def plan n act_def patch Let_def)
  have "hasTimeText (peExpiresAt (extended e hour 0))" unfolding x by (simp add: hasTimeText_1970)
  from Extend_moves_expiry [OF r this] show ?thesis unfolding x r snd_conv by blast
qed

end
