(* ===== verification/RightSizingExamples.thy ===== *)
theory RightSizingExamples
  imports GuardGuarantees CleanupExamples
begin

section \<open>A workload that is right-sized\<close>

text \<open>
  A cluster with one Deployment, whose pod template keeps its containers as JSON, and the advice to
  lower its requests.
\<close>

definition quantityJson :: "Quantity \<Rightarrow> json" where
  "quantityJson q = JArr [JInt (fst (quotient_of (qValue q))), JInt (snd (quotient_of (qValue q))), JStr (qText q)]"

fun quantityIn :: "json \<Rightarrow> Quantity option" where
  "quantityIn (JArr [JInt a, JInt b, JStr t]) = Some \<lparr>qValue = of_int a / of_int b, qText = t\<rparr>"
| "quantityIn _ = None"

definition quantitiesJson :: "(string \<times> Quantity) list \<Rightarrow> json" where
  "quantitiesJson l = JObj (map (\<lambda>(n, q). (n, quantityJson q)) l)"

fun quantitiesIn :: "json \<Rightarrow> (string \<times> Quantity) list" where
  "quantitiesIn (JObj m) = List.map_filter (\<lambda>(n, j). map_option (Pair n) (quantityIn j)) m"
| "quantitiesIn _ = []"

definition containerJson :: "Container \<Rightarrow> json" where
  "containerJson c = JObj [(''name'', JStr (ctName c)), (''requests'', quantitiesJson (ctRequests c)),
     (''limits'', quantitiesJson (ctLimits c)), (''rest'', ctRest c)]"

fun containerIn :: "json \<Rightarrow> Container option" where
  "containerIn (JObj [(_, JStr n), (_, rs), (_, ls), (_, r)]) =
     Some \<lparr>ctName = n, ctRequests = quantitiesIn rs, ctLimits = quantitiesIn ls, ctRest = r\<rparr>"
| "containerIn _ = None"

fun containersIn :: "json \<Rightarrow> Container list" where
  "containersIn (JArr js) = List.map_filter containerIn js"
| "containersIn _ = []"

lemma quantityIn_json: "quantityIn (quantityJson q) = Some q"
  by (simp add: quantityJson_def quotient_of_div [of "qValue q" "fst (quotient_of (qValue q))" "snd (quotient_of (qValue q))", symmetric])

lemma quantitiesIn_json: "quantitiesIn (quantitiesJson l) = l"
  by (induction l) (auto simp: quantitiesJson_def List.map_filter_simps quantityIn_json)

lemma containerIn_json: "containerIn (containerJson c) = Some c"
  by (simp add: containerJson_def quantitiesIn_json)

lemma containersIn_json: "containersIn (JArr (map containerJson cs)) = cs"
  by (induction cs) (auto simp: List.map_filter_simps containerIn_json)

definition knownQuantity :: "string \<Rightarrow> Quantity option" where
  "knownQuantity s = map_of
     [(''50m'', \<lparr>qValue = 1 / 20, qText = ''50m''\<rparr>), (''200m'', \<lparr>qValue = 1 / 5, qText = ''200m''\<rparr>),
      (''64Mi'', \<lparr>qValue = 67108864, qText = ''64Mi''\<rparr>), (''128Mi'', \<lparr>qValue = 134217728, qText = ''128Mi''\<rparr>)] s"

definition webContainer :: Container where
  "webContainer = \<lparr>ctName = ''app'',
     ctRequests = [(CPU, \<lparr>qValue = 1 / 5, qText = ''200m''\<rparr>), (Memory, \<lparr>qValue = 67108864, qText = ''64Mi''\<rparr>)],
     ctLimits = [(Memory, \<lparr>qValue = 134217728, qText = ''128Mi''\<rparr>)], ctRest = JObj []\<rparr>"

definition webDeployment :: AppWorkload where
  "webDeployment = \<lparr>awMeta = emptyMeta ''shop'' ''web'', awReplicas = Some 1, awSelector = None, awReadyReplicas = 1,
     awStatusReplicas = 1, awTemplate = JArr [containerJson webContainer]\<rparr>"

definition office :: "shed upkeep" where
  "office = (janitor None)\<lparr>getDeployment := \<lambda>_ _. State_Monad.return (Inr webDeployment),
     parseQuantity := knownQuantity, readContainer := containerIn, writeContainer := \<lambda>c. Inr (containerJson c),
     podContainers := containersIn, withPodContainers := \<lambda>cs _. JArr (map containerJson cs)\<rparr>"

definition slimmer :: WorkloadAdvice where
  "slimmer = \<lparr>waKind = ''Deployment'', waName = ''web'', waReplicas = 1, waMonthlySavings = 0, waPolicy = [],
     waApplyForbidden = False, waContainers = [\<lparr>caName = ''app'',
       caCPU = \<lparr>raRequest = ''200m'', raObserved = ''20m'', raRecommended = ''50m'', raAction = ActionReduce, raHeld = []\<rparr>,
       caMemory = \<lparr>raRequest = ''64Mi'', raObserved = ''50Mi'', raRecommended = [], raAction = ActionKeep, raHeld = []\<rparr>,
       caJVM = None\<rparr>]\<rparr>"

lemma office_keepsContainers: "keepsContainers office"
proof -
  have "rawContainer office (containerJson c) = Some c" for c
    using containerIn_json [of c] by (simp add: containerJson_def office_def del: containerIn.simps)
  moreover have "podContainers office (withPodContainers office cs t) = cs" for cs t
    using containersIn_json [of cs] by (simp add: office_def)
  ultimately show ?thesis by (auto simp: keepsContainers_def office_def)
qed

lemma office_canonicalQuantities: "canonicalQuantities office"
  by (auto simp: canonicalQuantities_def parsedResource_def office_def knownQuantity_def split: if_splits)

lemma office_prepared:
  "\<exists>change obj'. prepared office slimmer ''ann'' (Deployment webDeployment) = Inr (change, obj')"
  by (simp add: prepared_def GitOpsOwnerOf_def webDeployment_def emptyMeta_def office_def containerIn_json List.map_filter_simps
     adviseContainer_def adviceFor_def slimmer_def webContainer_def setAdvised_def recommended_def parsedResource_def
     knownQuantity_def setRequest_def valuesOf_def quantityString_def annotation_def)

lemma office_containers: "containersOf office (Deployment webDeployment) = [webContainer]"
  by (simp add: containersOf_def office_def webDeployment_def List.map_filter_simps containerIn_json)

lemma webContainer_canonical: "canonical office webContainer"
  by (auto simp: canonical_def webContainer_def office_def parsedResource_def knownQuantity_def split: if_splits)

lemma Revert_undoes_Apply_witness:
  "\<exists>change obj' obj''. prepared office slimmer ''ann'' (Deployment webDeployment) = Inr (change, obj')
     \<and> restored office (appliedAt 0 change) obj' = Inr (Some obj'')
     \<and> list_all2 alike [webContainer] (containersOf office obj'')"
proof -
  obtain change obj' where p: "prepared office slimmer ''ann'' (Deployment webDeployment) = Inr (change, obj')"
    using office_prepared by blast
  with Revert_undoes_Apply [OF office_keepsContainers office_canonicalQuantities _ _ p, of 0] show ?thesis
    by (auto simp: office_containers webContainer_canonical)
qed

lemma office_applies:
  "\<exists>change w'. run_state (Apply office ''shop'' slimmer ''ann'' 0) emptyShed = ((change, None), w')"
proof -
  obtain change obj' where p: "prepared office slimmer ''ann'' (Deployment webDeployment) = Inr (change, obj')"
    using office_prepared by blast
  have "getDeployment office = (\<lambda>_ _. State_Monad.return (Inr webDeployment))" "moreTries office = 0" "cluster office = quietApi"
    "getOptimization office = (\<lambda>_ _. State_Monad.return (Inl (Api NotFound)))"
    "createOptimization office = (\<lambda>opt. State_Monad.return (Inr opt))"
    "updateOptimizationStatus office = (\<lambda>_. State_Monad.return (Inr ()))"
    by (simp_all add: office_def janitor_def)
  with p show ?thesis
    by (simp add: Apply_def load_def slimmer_def ask_def act_def Record_def changeRecord_def attempt_def IsNotFound_def quietApi_def)
qed


text \<open>A GPU does not survive that a change is put back.\<close>

lemma GPU_is_lost:
  fixes c :: Container
  assumes "map_of (ctLimits c) ''nvidia.com/gpu'' = Some q"
  shows "map_of (ctLimits (restoreContainer up (valuesOf c) c)) ''nvidia.com/gpu'' = None"
  by (rule putting_back_drops_other_resources) simp

end
