(* ===== verification/AdviceGuarantees.thy ===== *)
theory AdviceGuarantees
  imports Advice
begin

section \<open>The properties of the advice\<close>

text \<open>
  What a recommended request covers, when the policy sets no maximum, and to which workload a pod
  belongs.
\<close>

subsection \<open>Rounding\<close>

lemma roundMemory_ge: "v \<le> roundMemory v + roundingSlack * mebibyte"
proof -
  have "v / mebibyte - roundingSlack \<le> of_int \<lceil>v / mebibyte - roundingSlack\<rceil>" by (rule le_of_int_ceiling)
  then show ?thesis unfolding roundMemory_def by linarith
qed

lemma roundCPU_ge: "v \<le> roundCPU v + roundingSlack * 5 / 1000"
proof -
  have "v * 1000 / 5 - roundingSlack \<le> of_int \<lceil>v * 1000 / 5 - roundingSlack\<rceil>" by (rule le_of_int_ceiling)
  then show ?thesis unfolding roundCPU_def by linarith
qed

lemma clamp_ge: "bnMax b \<le> 0 \<Longrightarrow> v \<le> clamp b v"
  by (simp add: clamp_def Let_def)

lemma clamp_le: "0 < bnMax b \<Longrightarrow> clamp b v \<le> bnMax b"
  by (simp add: clamp_def Let_def)

text \<open>Rounding twice is rounding once: what is on a step stays on it.\<close>

lemma roundMemory_step: "roundMemory (of_int k * mebibyte) = of_int k * mebibyte"
proof -
  have "\<lceil>of_int k - roundingSlack\<rceil> = k" by (rule ceiling_unique) (simp_all add: roundingSlack_def)
  then show ?thesis by (simp add: roundMemory_def)
qed

lemma recommendedCPU_ge:
  assumes "bnMax (poCPU p) \<le> 0" "1 \<le> headroom (poCPU p) (stCPUHeadroom s)" "0 \<le> cpu"
  shows "cpu \<le> recommendedCPU s p cpu + roundingSlack * 5 / 1000"
proof -
  have "cpu \<le> cpu * headroom (poCPU p) (stCPUHeadroom s)" using mult_left_mono [OF assms(2,3)] by simp
  also have "\<dots> \<le> clamp (poCPU p) (max (cpu * headroom (poCPU p) (stCPUHeadroom s)) (stMinCPU s))"
    by (rule order_trans [OF _ clamp_ge [OF assms(1)]]) simp
  finally show ?thesis using roundCPU_ge unfolding recommendedCPU_def by (rule order_trans)
qed

lemma roundMemory_mono: "a \<le> b \<Longrightarrow> roundMemory a \<le> roundMemory b"
  unfolding roundMemory_def by (intro mult_right_mono of_int_le_iff [THEN iffD2] ceiling_mono) (simp_all add: divide_right_mono)

lemma recommendedMemory_ge:
  assumes "bnMax (poMemory p) \<le> 0" "1 \<le> headroom (poMemory p) (stMemoryHeadroom s)" "0 \<le> mem"
  shows "mem \<le> recommendedMemory s p mem f + roundingSlack * mebibyte"
    and "f = Some (roundMemory x) \<Longrightarrow> roundMemory x \<le> recommendedMemory s p mem f"
proof -
  define m where "m = max (mem * headroom (poMemory p) (stMemoryHeadroom s)) (stMinMemory s)"
  define m' where "m' = (case f of Some f \<Rightarrow> max (roundMemory m) f | None \<Rightarrow> roundMemory m)"
  have r: "recommendedMemory s p mem f = roundMemory (clamp (poMemory p) m')"
    unfolding recommendedMemory_def Let_def m'_def m_def ..
  have step: "roundMemory (roundMemory x) = roundMemory x" for x
    using roundMemory_step by (simp add: roundMemory_def [of x])
  have "mem \<le> m" using mult_left_mono [OF assms(2,3)] by (simp add: m_def)
  also have "m \<le> roundMemory m + roundingSlack * mebibyte" by (rule roundMemory_ge)
  also have "roundMemory m = roundMemory (roundMemory m)" by (simp add: step)
  also have "\<dots> \<le> recommendedMemory s p mem f"
    unfolding r by (intro roundMemory_mono order_trans [OF _ clamp_ge [OF assms(1)]]) (simp add: m'_def split: option.split)
  finally show "mem \<le> recommendedMemory s p mem f + roundingSlack * mebibyte" by simp
  show "roundMemory x \<le> recommendedMemory s p mem f" if "f = Some (roundMemory x)"
    unfolding r
    by (subst step [symmetric], intro roundMemory_mono order_trans [OF _ clamp_ge [OF assms(1)]]) (simp add: m'_def that)
qed

subsection \<open>What a recommendation covers\<close>

text \<open>The readings of the pods of a workload for one of its containers.\<close>

definition readings :: "SizedWorkload \<Rightarrow> demand \<Rightarrow> string \<Rightarrow> (rat \<times> rat) list" where
  "readings w d container = map snd (filter (\<lambda>((pod, c), _). OwnsPod (swKind w) (swName w) pod \<and> c = container) d)"

definition covers ::
    "ResourceAdvice \<Rightarrow> (rat \<Rightarrow> string) \<Rightarrow> rat \<Rightarrow> rat \<Rightarrow> rat list \<Rightarrow> rat \<Rightarrow> string \<Rightarrow> bool" where
  "covers a format slack threshold observed request hold \<longleftrightarrow>
     raAction a \<in> {ActionKeep, ActionUnknown} \<and> raRecommended a = [] \<or>
     (\<exists>r. raRecommended a = format r \<and> list_all (\<lambda>u. u \<le> r + slack) observed
        \<and> (if raAction a = ActionReduce then hold = [] \<and> r \<le> request * (1 - threshold)
           else raAction a \<in> {ActionIncrease, ActionSet} \<and> request \<le> r + slack))"

lemma foldl_max_upper:
  fixes x :: rat
  shows "z \<le> foldl max z xs" "x \<in> set xs \<Longrightarrow> x \<le> foldl max z xs"
proof -
  have b: "z \<le> foldl max z ys" for z :: rat and ys by (induction ys arbitrary: z) (auto intro: order_trans [OF max.cobounded1])
  then show "z \<le> foldl max z xs" .
  show "x \<in> set xs \<Longrightarrow> x \<le> foldl max z xs"
  proof (induction xs arbitrary: z)
    case (Cons y xs)
    show ?case
    proof (cases "x = y")
      case True
      show ?thesis unfolding True by (simp, rule order_trans [OF max.cobounded2 b])
    qed (use Cons in simp)
  qed simp
qed

lemma peakDemand_readings:
  "peakDemand w d c = (if readings w d c = [] then None
     else Some (foldl max 0 (map fst (readings w d c)), foldl max 0 (map snd (readings w d c))))"
  by (simp add: peakDemand_def readings_def Let_def)

text \<open>The advice on a resource, held or not, covers what was observed.\<close>

lemma advise_covers:
  assumes "list_all (\<lambda>u. u \<le> peak) observed" "peak \<le> rec + slack" "0 \<le> peak" "seen \<or> observed = []"
  shows "covers (holdReduction hold (advise request peak rec seen threshold format)) format slack threshold observed request hold"
proof (cases "seen")
  case True
  have o': "list_all (\<lambda>u. u \<le> rec + slack) observed"
    using assms(1,2) by (auto simp: list_all_iff intro: order_trans)
  show ?thesis
    using True o' assms(2,3) by (auto simp: covers_def advise_def holdReduction_def Let_def intro!: exI [of _ rec])
next
  case False
  then show ?thesis by (simp add: covers_def advise_def holdReduction_def Let_def)
qed

text \<open>A memory floor above the request makes it an increase.\<close>

lemma floor_covers:
  assumes "list_all (\<lambda>u. u \<le> peak) observed" "peak \<le> rec + slack" "0 \<le> slack" "request < heapFloor" "heapFloor \<le> rec"
  shows "covers (holdReduction hold (a\<lparr>raAction := (if request \<le> 0 then ActionSet else ActionIncrease), raRecommended := format rec\<rparr>))
     format slack threshold observed request hold"
proof -
  have o': "list_all (\<lambda>u. u \<le> rec + slack) observed"
    using assms(1,2) by (auto simp: list_all_iff intro: order_trans)
  show ?thesis
    using o' assms(3-5) by (auto simp: covers_def holdReduction_def intro!: exI [of _ rec])
qed

text \<open>A policy that sets no maximum and no headroom below one.\<close>

definition unbounded :: "Settings \<Rightarrow> Policy \<Rightarrow> bool" where
  "unbounded s p \<longleftrightarrow> bnMax (poCPU p) \<le> 0 \<and> bnMax (poMemory p) \<le> 0
     \<and> 1 \<le> headroom (poCPU p) (stCPUHeadroom s) \<and> 1 \<le> headroom (poMemory p) (stMemoryHeadroom s)"

abbreviation "cpuSlack \<equiv> roundingSlack * 5 / 1000"
abbreviation "memorySlack \<equiv> roundingSlack * mebibyte"

lemma adviseSized_covers:
  assumes "unbounded s (policyOf w)"
  shows "covers (caCPU (fst (adviseSized nt rates s w d heaps c))) (formatCPU nt) cpuSlack (stReduceThreshold s)
      (map fst (readings w d (scName c))) (scCPURequest c) (scHoldCPU c)"
    and "covers (caMemory (fst (adviseSized nt rates s w d heaps c))) (formatMemory nt) memorySlack (stReduceThreshold s)
      (map snd (readings w d (scName c))) (scMemoryRequest c) (scHoldMemory c)"
proof -
  let ?us = "readings w d (scName c)"
  define cpu where "cpu = foldl max 0 (map fst ?us)"
  define mem where "mem = foldl max 0 (map snd ?us)"
  define java where "java = map_option (\<lambda>(r, u). adviseJVM nt r c u rates (swReplicas w)) (javaRuntime w c (peakHeapDemand w heaps))"
  define memRec where "memRec = recommendedMemory s (policyOf w) mem (map_option snd java)"
  have pos: "0 \<le> cpu" "0 \<le> mem" unfolding cpu_def mem_def by (rule foldl_max_upper)+
  have upper: "list_all (\<lambda>u. u \<le> cpu) (map fst ?us)" "list_all (\<lambda>u. u \<le> mem) (map snd ?us)"
    unfolding cpu_def mem_def list_all_iff by (blast intro: foldl_max_upper(2))+
  have peak: "(case peakDemand w d (scName c) of Some u \<Rightarrow> u | None \<Rightarrow> (0, 0)) = (cpu, mem)"
    "peakDemand w d (scName c) \<noteq> None \<longleftrightarrow> ?us \<noteq> []"
    by (simp_all add: peakDemand_readings cpu_def mem_def)
  note u = assms [unfolded unbounded_def]
  have c: "cpu \<le> recommendedCPU s (policyOf w) cpu + cpuSlack" using u pos by (intro recommendedCPU_ge) auto
  have m: "mem \<le> memRec + memorySlack" unfolding memRec_def using u pos by (intro recommendedMemory_ge) auto
  have s: "0 \<le> memorySlack" by (simp add: roundingSlack_def)
  show "covers (caCPU (fst (adviseSized nt rates s w d heaps c))) (formatCPU nt) cpuSlack (stReduceThreshold s)
      (map fst ?us) (scCPURequest c) (scHoldCPU c)"
    unfolding adviseSized_def Let_def peak prod.case fst_conv ContainerAdvice.simps
    by (rule advise_covers [OF upper(1) c pos(1)]) auto
  have fl: "min (case java of Some (_, f) \<Rightarrow> f | None \<Rightarrow> 0) memRec \<le> memRec" by simp
  show "covers (caMemory (fst (adviseSized nt rates s w d heaps c))) (formatMemory nt) memorySlack (stReduceThreshold s)
      (map snd ?us) (scMemoryRequest c) (scHoldMemory c)"
    unfolding adviseSized_def Let_def peak prod.case fst_conv ContainerAdvice.simps java_def [symmetric] memRec_def [symmetric]
    using advise_covers [OF upper(2) m pos(2)] floor_covers [OF upper(2) m s _ fl] by (auto split: if_split)
qed

lemma adviseSized_name: "caName (fst (adviseSized nt rates s w d heaps c)) = scName c"
  by (simp add: adviseSized_def Let_def split: prod.split)

text \<open>C33. Where the policies set no maximum, every request the analysis recommends covers what any pod of
  the workload was measured to use, up to the slack of rounding. A recommendation is a cut only when
  nothing holds the resource, and then of the smallest share worth it at least; any other one is not
  below the request.\<close>

theorem advice_covers_demand:
  assumes "\<forall>w \<in> set ws. unbounded s (policyOf w)" "wa \<in> set (rpWorkloads (Analyze nt ws d heaps rates s))"
  shows "\<exists>w \<in> set ws. \<not> poExclude (policyOf w) \<and> waKind wa = swKind w \<and> waName wa = swName w
    \<and> list_all2 (\<lambda>c ca. caName ca = scName c
        \<and> covers (caCPU ca) (formatCPU nt) cpuSlack (stReduceThreshold s)
            (map fst (readings w d (scName c))) (scCPURequest c) (scHoldCPU c)
        \<and> covers (caMemory ca) (formatMemory nt) memorySlack (stReduceThreshold s)
            (map snd (readings w d (scName c))) (scMemoryRequest c) (scHoldMemory c))
      (swContainers w) (waContainers wa)"
proof -
  from assms(2) obtain w where w: "w \<in> set ws" "\<not> poExclude (policyOf w)" "wa = fst (adviseWorkload nt rates s d heaps w)"
    by (auto simp: Analyze_def Let_def)
  from assms(1) w(1) have "unbounded s (policyOf w)" by blast
  from adviseSized_covers [OF this] w show ?thesis
    by (intro bexI [of _ w] conjI)
       (simp_all add: adviseWorkload_def Let_def list_all2_conv_all_nth adviseSized_name)
qed

subsection \<open>A Java heap\<close>

text \<open>The memory recommended for a container with a Java heap is room for the heap and for what the JVM
  needs beside it, unless the policy sets a lower maximum.\<close>

lemma memory_covers_heap:
  assumes "unbounded s p" "0 \<le> mem" "hpKnown (HeapFor nt (rtOptions java) (scMemoryLimit c))"
  shows "hpMax (HeapFor nt (rtOptions java) (scMemoryLimit c))
      + NativeMemory (hpMax (HeapFor nt (rtOptions java) (scMemoryLimit c))) (NonHeap heapUse)
    \<le> recommendedMemory s p mem (Some (snd (adviseJVM nt java c heapUse rates replicas))) + memorySlack"
proof -
  let ?need = "hpMax (HeapFor nt (rtOptions java) (scMemoryLimit c))
      + NativeMemory (hpMax (HeapFor nt (rtOptions java) (scMemoryLimit c))) (NonHeap heapUse)"
  have f: "snd (adviseJVM nt java c heapUse rates replicas) = roundMemory ?need"
    using assms(3) by (simp add: adviseJVM_def Let_def)
  have "roundMemory ?need \<le> recommendedMemory s p mem (Some (roundMemory ?need))"
    using assms(1,2) by (intro recommendedMemory_ge(2)) (auto simp: unbounded_def)
  with roundMemory_ge [of ?need] show ?thesis unfolding f by linarith
qed

subsection \<open>Whose pod it is\<close>

lemma dash_not_safe: "CHR ''-'' \<notin> set safeAlphabet" "\<not> isDigit CHR ''-''"
  by (simp_all add: safeAlphabet_def isDigit_def)

lemma cut_unique:
  fixes x :: char
  assumes "a @ x # b = a' @ x # b'" "x \<notin> set b" "x \<notin> set b'"
  shows "a = a' \<and> b = b'"
proof -
  have "rev b @ x # rev a = rev b' @ x # rev a'" using arg_cong [OF assms(1), of rev] by simp
  then have "cutChar x (rev b @ x # rev a) = cutChar x (rev b' @ x # rev a')" by simp
  with assms(2,3) show ?thesis by (simp add: cutChar_append)
qed

text \<open>A pod belongs to one workload of a kind: no two names own the same pod, so the demand of a
  workload is never taken for that of another whose name it begins with.\<close>

theorem OwnsPod_unique:
  assumes "OwnsPod kind name pod" "OwnsPod kind name' pod"
  shows "name = name'"
proof (cases "kind = ''StatefulSet''")
  case True
  have "\<exists>r. pod = n @ CHR ''-'' # r \<and> CHR ''-'' \<notin> set r" if "OwnsPod kind n pod" for n
  proof -
    from that True obtain r where r: "cutPrefix pod (n @ ''-'') = Some r" "list_all isDigit r"
      unfolding OwnsPod_def by (cases "cutPrefix pod (n @ ''-'')") simp_all
    from r(2) dash_not_safe(2) have "CHR ''-'' \<notin> set r" by (auto simp: list_all_iff)
    with r(1) [unfolded cutPrefix_Some] show ?thesis by (intro exI [of _ r]) simp
  qed
  from this [OF assms(1)] this [OF assms(2)] show ?thesis using cut_unique by blast
next
  case False
  have "\<exists>h s. pod = (n @ CHR ''-'' # h) @ CHR ''-'' # s \<and> CHR ''-'' \<notin> set h \<and> CHR ''-'' \<notin> set s" if "OwnsPod kind n pod" for n
  proof -
    from that False obtain r h s where r: "cutPrefix pod (n @ ''-'') = Some r" "cutChar CHR ''-'' r = Some (h, s)"
        "list_all (\<lambda>c. c \<in> set safeAlphabet) (h @ s)"
      unfolding OwnsPod_def by (cases "cutPrefix pod (n @ ''-'')") (auto split: option.splits)
    from r(3) dash_not_safe(1) have "CHR ''-'' \<notin> set h" "CHR ''-'' \<notin> set s" by (auto simp: list_all_iff)
    with r(1) [unfolded cutPrefix_Some] cutChar_Some [OF r(2)] show ?thesis
      by (intro exI [of _ h] exI [of _ s]) simp
  qed
  from this [OF assms(1)] this [OF assms(2)] show ?thesis using cut_unique by metis
qed

end
