(* ===== verification/JavaHeap.thy ===== *)
theory JavaHeap
  imports Jvm
begin

section \<open>The heap that a plan's option gives\<close>

text \<open>
  An option that a plan proposes, added to the options of the container, gives the JVM the heap that
  was planned under the memory that was planned, unless that memory is so small that another default
  applies.
\<close>

subsection \<open>The last setting counts\<close>

definition settings :: "numberText \<Rightarrow> string list \<Rightarrow> Options \<Rightarrow> Options" where
  "settings nt ts os = foldl (\<lambda>os t. case tokenSetting nt t of Some (_, f) \<Rightarrow> f os | None \<Rightarrow> os) os ts"

lemma parseTokens_settings: "\<exists>F. parseTokens nt ts written os = (settings nt ts os)\<lparr>Flags := F\<rparr>"
  by (induction nt ts written os rule: parseTokens.induct) (auto simp: settings_def split: option.splits)

lemma Parse_snoc:
  assumes "tokenSetting nt t = Some (key, f)"
  obtains F F' where "Parse nt ts = (settings nt ts noOptions)\<lparr>Flags := F\<rparr>"
    "Parse nt (ts @ [t]) = (f (settings nt ts noOptions))\<lparr>Flags := F'\<rparr>"
proof -
  obtain F where F: "Parse nt ts = (settings nt ts noOptions)\<lparr>Flags := F\<rparr>"
    unfolding Parse_def using parseTokens_settings by blast
  obtain F' where "Parse nt (ts @ [t]) = (settings nt (ts @ [t]) noOptions)\<lparr>Flags := F'\<rparr>"
    unfolding Parse_def using parseTokens_settings by blast
  with F assms that show thesis by (simp add: settings_def)
qed

subsection \<open>Sizes are read as they are written\<close>

lemma digits_of_itoa: "0 \<le> n \<Longrightarrow> list_all isDigit (itoa n) \<and> itoa n \<noteq> []"
  by (simp add: itoa_def showNat_props)

lemma sizeUnit_simps [simp]: "sizeUnit CHR ''g'' = 2 ^ 30" "sizeUnit CHR ''m'' = 2 ^ 20"
  by (simp_all add: sizeUnit_def)

lemma parseSize_suffix:
  assumes "0 < n" "n < 2 ^ 43" "n \<le> (2 ^ 63 - 1) div sizeUnit c" "1 < sizeUnit c"
  shows "parseSize (itoa n @ [c]) = Some (n * sizeUnit c)"
proof -
  have "parseInt 64 (itoa n) = Some n" by (rule parseInt_itoa) (use assms in auto)
  with assms digits_of_itoa [of n] show ?thesis by (simp add: parseSize_def Let_def)
qed

lemma parseSize_jvmSize:
  assumes "0 < n" "n < 2 ^ 43"
  shows "parseSize (jvmSize (of_int n * mebibyte)) = Some (n * 2 ^ 20)"
proof (cases "n mod 1024 = 0")
  case True
  then have j: "jvmSize (of_int n * mebibyte) = itoa (n div 1024) @ ''g''" by (simp add: jvmSize_def Let_def)
  from True obtain k where k: "n = 1024 * k" by auto
  have "parseSize (itoa k @ [CHR ''g'']) = Some (k * sizeUnit CHR ''g'')"
    by (rule parseSize_suffix) (use assms k in auto)
  with k show ?thesis unfolding j by simp
next
  case False
  have "parseSize (itoa n @ [CHR ''m'']) = Some (n * sizeUnit CHR ''m'')"
    by (rule parseSize_suffix) (use assms in auto)
  with False show ?thesis by (simp add: jvmSize_def)
qed

text \<open>Whole percentages are read as they are written.\<close>

definition readsPercentages :: "numberText \<Rightarrow> bool" where
  "readsPercentages nt \<longleftrightarrow> (\<forall>n \<in> {1..100}. readFloat nt (itoa n) = Some (of_int n))"

lemma tokenSetting_Xmx:
  "tokenSetting nt (''-Xmx'' @ s) = map_option (\<lambda>v. (''max-heap'', \<lambda>os. os\<lparr>MaxHeap := v\<rparr>)) (parseSize s)"
  by (simp add: tokenSetting_def hasPrefix_def)

lemma tokenSetting_percentage:
  "tokenSetting nt (''-XX:MaxRAMPercentage='' @ s) =
     map_option (\<lambda>v. (''max-ram-percentage'', \<lambda>os. os\<lparr>MaxRAMPercentage := v\<rparr>)) (parsePercentage nt s)"
  by (simp add: tokenSetting_def hasPrefix_def)

subsection \<open>The plan\<close>

lemma planE:
  assumes "PlanFor os u = Some plan"
  obtains n m where "plHeap plan = of_int n * mebibyte" "128 \<le> n" "plMemory plan = of_int m * mebibyte" "n < m"
    "plOptions plan = (if MaxHeap os = 0 then ''-XX:MaxRAMPercentage='' @ itoa \<lfloor>plHeap plan / plMemory plan * 100\<rfloor>
       else ''-Xmx'' @ jvmSize (plHeap plan))"
proof -
  define n where "n = \<lceil>max (HeapAfterGC u * liveSetMultiple) minimumHeap / mebibyte\<rceil>"
  define native where "native = NativeMemory (of_int n * mebibyte) (NonHeap u)"
  define m where "m = \<lceil>(of_int n * mebibyte + native) / mebibyte\<rceil>"
  have "128 \<le> max (HeapAfterGC u * liveSetMultiple) minimumHeap / mebibyte" by (simp add: minimumHeap_def)
  then have n: "128 \<le> n" unfolding n_def by (simp add: le_ceiling_iff)
  have "0 < native" by (auto simp: native_def NativeMemory_def observedNonHeapHeadroom_def threadsAndBuffers_def
        minimumNativeMemory_def add_pos_pos less_max_iff_disj)
  then have "of_int n < (of_int n * mebibyte + native) / mebibyte" by simp
  then have "n < m" unfolding m_def by (simp add: less_ceiling_iff)
  with n that show thesis
    using assms by (auto simp: PlanFor_def Let_def roundMebibytes_def n_def [symmetric] native_def [symmetric] m_def [symmetric] split: if_splits)
qed


end
