(* ===== verification/AdviceExamples.thy ===== *)
theory AdviceExamples
  imports AdviceGuarantees JavaHeap
begin

section \<open>Advice on examples\<close>

text \<open>
  A workload with one container on which the properties of the advice apply, and the inputs on which
  the code does not do what its documentation says.
\<close>

definition plainText :: numberText where
  "plainText = \<lparr>readFloat = (\<lambda>s. map_option of_int (parseInt 64 s)), showFloat = (\<lambda>_. ''?''), binaryText = itoa,
     milliText = (\<lambda>n. itoa n @ ''m'')\<rparr>"

definition webSized :: SizedWorkload where
  "webSized = \<lparr>swKind = ''Deployment'', swName = ''web'', swReplicas = 2, swContainers =
     [\<lparr>scName = ''app'', scCPURequest = 1, scMemoryRequest = 536870912, scMemoryLimit = 0, scCPULimit = 0, scJava = None,
       scHoldCPU = [], scHoldMemory = ''OOM-killed''\<rparr>], swPolicy = None\<rparr>"

definition webReadings :: demand where
  "webReadings = [((''web-7f5d4c5b6-x2x4z'', ''app''), (1 / 10, 104857600)), ((''web-ui-7f5d4c5b6-x2x4z'', ''app''), (4, 0))]"

definition flatRates :: Rates where
  "flatRates = \<lparr>rtCPUCoreHour = 1, rtMemoryGBHour = 1, rtCurrency = ''EUR''\<rparr>"

lemma web_unbounded: "unbounded (DefaultSettings True) (policyOf webSized)"
  by (simp add: unbounded_def policyOf_def webSized_def noPolicy_def headroom_def DefaultSettings_def)

lemma web_analyzed:
  "fst (adviseWorkload plainText flatRates (DefaultSettings True) webReadings [] webSized)
     \<in> set (rpWorkloads (Analyze plainText [webSized] webReadings [] flatRates (DefaultSettings True)))"
  by (simp add: Analyze_def policyOf_def webSized_def noPolicy_def Let_def)

lemma advice_covers_demand_witness:
  "\<exists>wa. wa \<in> set (rpWorkloads (Analyze plainText [webSized] webReadings [] flatRates (DefaultSettings True)))
     \<and> waName wa = ''web'' \<and> list_all2 (\<lambda>c ca. covers (caCPU ca) (formatCPU plainText) cpuSlack (2 / 10)
         (map fst (readings webSized webReadings (scName c))) (scCPURequest c) (scHoldCPU c))
       (swContainers webSized) (waContainers wa)"
proof -
  let ?wa = "fst (adviseWorkload plainText flatRates (DefaultSettings True) webReadings [] webSized)"
  have "\<forall>w \<in> set [webSized]. unbounded (DefaultSettings True) (policyOf w)" using web_unbounded by simp
  from advice_covers_demand [OF this web_analyzed]
  have "list_all2 (\<lambda>c ca. covers (caCPU ca) (formatCPU plainText) cpuSlack (2 / 10)
         (map fst (readings webSized webReadings (scName c))) (scCPURequest c) (scHoldCPU c))
       (swContainers webSized) (waContainers ?wa)" "waName ?wa = ''web''"
    by (auto simp: DefaultSettings_def webSized_def elim!: list_all2_mono)
  with web_analyzed show ?thesis by blast
qed

lemma OwnsPod_unique_witness:
  "OwnsPod ''Deployment'' ''web'' ''web-7f5d4c5b6-x2x4z'' \<and> \<not> OwnsPod ''Deployment'' ''web-7f5d4c5b6'' ''web-7f5d4c5b6-x2x4z''"
proof -
  have o': "OwnsPod ''Deployment'' ''web'' ''web-7f5d4c5b6-x2x4z''" by code_simp
  with OwnsPod_unique [OF this, of "''web-7f5d4c5b6''"] show ?thesis by auto
qed

lemma plainText_percentages: "readsPercentages plainText"
  by (auto simp: readsPercentages_def plainText_def intro!: exI parseInt_itoa)

definition smallLiveSet :: HeapUse where
  "smallLiveSet = \<lparr>HeapUsed = 0, HeapAfterGC = 62914560, NonHeap = 10485760\<rparr>"

definition liveSet :: HeapUse where
  "liveSet = \<lparr>HeapUsed = 0, HeapAfterGC = 209715200, NonHeap = 0\<rparr>"


subsection \<open>Where the code differs from its documentation\<close>

text \<open>A plan for a small heap proposes a share of the memory that the JVM does not apply to so little.\<close>

lemma small_plan_gets_less_heap:
  "\<exists>plan. PlanFor noOptions smallLiveSet = Some plan \<and> plOptions plan = ''-XX:MaxRAMPercentage=62''
     \<and> hpMax (HeapFor nt (noOptions\<lparr>MaxRAMPercentage := 62\<rparr>) (plMemory plan)) \<le> plHeap plan * 8 / 10"
proof -
  have i: "itoa 62 = ''62''" by code_simp
  have f: "\<lfloor>3200 / 51 :: rat\<rfloor> = 62" by (rule floor_unique) simp_all
  have "PlanFor noOptions smallLiveSet =
      Some \<lparr>plHeap = 134217728, plMemory = 213909504, plOptions = ''-XX:MaxRAMPercentage='' @ itoa 62\<rparr>"
    by (simp add: PlanFor_def smallLiveSet_def noOptions_def roundMebibytes_def NativeMemory_def liveSetMultiple_def
        minimumHeap_def observedNonHeapHeadroom_def threadsAndBuffers_def Let_def f)
  then show ?thesis
    by (simp add: i HeapFor_def noOptions_def Let_def defaultMinRAMPercentage_def builtInMaxHeapSize_def)
qed

text \<open>A maximum below the request turns an increase into a cut, whatever holds the resource.\<close>

definition tightPolicy :: Policy where
  "tightPolicy = noPolicy\<lparr>poName := ''team'', poMemory := \<lparr>bnMin = 0, bnMax = 268435456, bnHeadroom = None\<rparr>\<rparr>"

lemma increase_below_the_request:
  "let r = recommendedMemory (DefaultSettings True) tightPolicy 629145600 None;
       a = holdReduction ''OOM-killed'' (advise 536870912 629145600 r True (2 / 10) (formatMemory nt))
   in raAction a = ActionIncrease \<and> raRecommended a = formatMemory nt r \<and> r = 268435456"
  by code_simp

text \<open>Rounding comes after the maximum.\<close>

lemma rounding_passes_the_maximum:
  "recommendedCPU (DefaultSettings True) (noPolicy\<lparr>poCPU := \<lparr>bnMin = 0, bnMax = 252 / 1000, bnHeadroom = None\<rparr>\<rparr>) 1 = 255 / 1000"
  by code_simp

end
