(* ===== verification/DurationText.thy ===== *)
theory DurationText
  imports GoDuration
begin

section \<open>Prelude: durations read back\<close>

text \<open>
  The text of a duration, as messages and settings show it, reads back as that duration. The text is
  a sequence of numbers with units; a number is read digit by digit, and its fraction, of up to nine
  digits, scales its unit exactly.
\<close>

subsection \<open>Digits\<close>

lemma readNat_from: "foldl (\<lambda>n c. 10 * n + digitVal c) x s = x * 10 ^ length s + readNat s"
proof (induction s arbitrary: x)
  case Nil
  show ?case by (simp add: readNat_def)
next
  case (Cons c s)
  from Cons [of "digitVal c"] have "readNat (c # s) = digitVal c * 10 ^ length s + readNat s" by (simp add: readNat_def)
  with Cons [of "10 * x + digitVal c"] show ?case by (simp add: algebra_simps)
qed

lemma readNat_Cons: "readNat (c # s) = digitVal c * 10 ^ length s + readNat s"
  using readNat_from [of "digitVal c" s] by (simp add: readNat_def)

lemma readNat_append: "readNat (s @ t) = readNat s * 10 ^ length t + readNat t"
  using readNat_from [of "readNat s" t] by (simp add: readNat_def)

lemma readNat_less: "list_all isDigit s \<Longrightarrow> readNat s < 10 ^ length s"
proof (induction s)
  case (Cons c s)
  then have "digitVal c \<le> 9" "readNat s < 10 ^ length s" by (auto simp: isDigit_def digitVal_def)
  then have "digitVal c * 10 ^ length s + readNat s < 9 * 10 ^ length s + 10 ^ length s"
    by (intro add_le_less_mono mult_le_mono1)
  then show ?case by (simp add: readNat_Cons)
qed (simp add: readNat_def)

lemma le_times: "1 \<le> k \<Longrightarrow> x \<le> x * (k :: nat)"
  using mult_le_mono2 [of 1 k x] by (simp only: mult_1_right)

lemma not_over: "10 * x \<le> M \<Longrightarrow> \<not> M div 10 < (x :: nat)"
  by (simp add: not_less less_eq_div_iff_mult_less_eq mult.commute)

text \<open>What stops a number.\<close>

definition ends :: "string \<Rightarrow> bool" where
  "ends r \<longleftrightarrow> r = [] \<or> \<not> isDigit (hd r)"

lemma leadingInt_digits:
  assumes "list_all isDigit ds" "x * 10 ^ length ds + readNat ds \<le> 2 ^ 63" "ends r"
  shows "leadingInt x (ds @ r) = Some (x * 10 ^ length ds + readNat ds, r)"
  using assms(1,2)
proof (induction ds arbitrary: x)
  case Nil
  then show ?case using assms(3) by (cases r) (simp_all add: readNat_def ends_def)
next
  case (Cons c ds)
  define y where "y = 10 * x + digitVal c"
  have t: "y * 10 ^ length ds + readNat ds = x * 10 ^ length (c # ds) + readNat (c # ds)"
    by (simp add: y_def readNat_Cons algebra_simps)
  have "y \<le> y * 10 ^ length ds" by (rule le_times) simp
  with t Cons.prems(2) have y: "y \<le> 2 ^ 63" by linarith
  then have "10 * x \<le> 2 ^ 63" by (simp add: y_def)
  then have n: "\<not> 2 ^ 63 div 10 < x" by (rule not_over)
  have "leadingInt y (ds @ r) = Some (y * 10 ^ length ds + readNat ds, r)"
    by (rule Cons.IH) (use Cons.prems t in simp_all)
  with n y Cons.prems(1) t show ?case by (simp add: Let_def y_def [symmetric] del: power_Suc)
qed

lemma leadingFraction_digits:
  assumes "list_all isDigit ds" "x * 10 ^ length ds + readNat ds \<le> 2 ^ 63 - 1" "ends r"
  shows "leadingFraction x scale False (ds @ r) = (x * 10 ^ length ds + readNat ds, scale * 10 ^ length ds, r)"
  using assms(1,2)
proof (induction ds arbitrary: x scale)
  case Nil
  then show ?case using assms(3) by (cases r) (simp_all add: readNat_def ends_def)
next
  case (Cons c ds)
  define y where "y = 10 * x + digitVal c"
  have t: "y * 10 ^ length ds + readNat ds = x * 10 ^ length (c # ds) + readNat (c # ds)"
    by (simp add: y_def readNat_Cons algebra_simps)
  have "y \<le> y * 10 ^ length ds" by (rule le_times) simp
  with t Cons.prems(2) have y: "y \<le> 2 ^ 63 - 1" by linarith
  then have "10 * x \<le> 2 ^ 63 - 1" by (simp add: y_def)
  then have n: "\<not> (2 ^ 63 - 1) div 10 < x" by (rule not_over)
  have y': "\<not> 2 ^ 63 < y" using y by simp
  have "leadingFraction y (10 * scale) False (ds @ r) = (y * 10 ^ length ds + readNat ds, 10 * scale * 10 ^ length ds, r)"
    by (rule Cons.IH) (use Cons.prems t in simp_all)
  moreover have "leadingFraction x scale False (c # ds @ r) = leadingFraction y (10 * scale) False (ds @ r)"
    using n y' Cons.prems(1) by (simp add: Let_def y_def)
  moreover have "10 * scale * 10 ^ length ds = scale * 10 ^ length (c # ds)" by simp
  ultimately show ?case unfolding append_Cons t [symmetric] by (simp only:)
qed

subsection \<open>A number with its unit\<close>

definition isUnit :: "string \<Rightarrow> nat \<Rightarrow> bool" where
  "isUnit u c \<longleftrightarrow> unitOf u = Some c \<and> 0 < c \<and> u \<noteq> [] \<and> list_all (\<lambda>x. \<not> (x = CHR ''.'' \<or> isDigit x)) u"

definition begins :: "string \<Rightarrow> bool" where
  "begins r \<longleftrightarrow> r = [] \<or> isDigit (hd r)"

definition point :: "string \<Rightarrow> string" where
  "point f = (if f = [] then [] else CHR ''.'' # f)"

lemma durationItem_text:
  assumes f: "list_all isDigit f" "length f \<le> 9" and u: "isUnit u c" and r: "begins r"
    and w: "w = v * c + readNat f * c div 10 ^ length f" "w \<le> 2 ^ 63"
  shows "durationItem (showNat v @ point f @ u @ r) = Some (w, r)"
proof -
  obtain d ds where s: "showNat v = d # ds" "isDigit d" "list_all isDigit ds" using showNat_head by blast
  have sv: "list_all isDigit (showNat v)" "readNat (showNat v) = v" using showNat_props by blast+
  obtain e es where e: "u = e # es" "e \<noteq> CHR ''.''" "\<not> isDigit e" using u by (cases u) (auto simp: isUnit_def)
  have c: "unitOf u = Some c" "0 < c" using u by (auto simp: isUnit_def)
  have vc: "v * c \<le> 2 ^ 63" using w by simp
  have "v \<le> v * c" by (rule le_times) (use c in simp)
  with vc have v: "v \<le> 2 ^ 63" by linarith
  have vd: "\<not> 2 ^ 63 div c < v" using vc c(2) by (simp add: not_less less_eq_div_iff_mult_less_eq mult.commute)
  have "\<not> isDigit (CHR ''.'')" by (simp add: isDigit_def)
  then have "ends (point f @ u @ r)" using e by (simp add: ends_def point_def)
  with leadingInt_digits [of "showNat v" 0 "point f @ u @ r"] sv v
  have li: "leadingInt 0 (showNat v @ point f @ u @ r) = Some (v, point f @ u @ r)" by simp
  have "readNat f < 10 ^ length f" by (rule readNat_less [OF f(1)])
  also have "\<dots> \<le> 10 ^ 9" by (rule power_increasing) (use f(2) in simp_all)
  finally have "readNat f \<le> 2 ^ 63 - 1" by simp
  moreover have "ends (u @ r)" using e by (simp add: ends_def)
  ultimately have lf: "leadingFraction 0 1 False (f @ u @ r) = (readNat f, 10 ^ length f, u @ r)"
    using leadingFraction_digits [of f 0 "u @ r" 1] f(1) by simp
  define P where "P = (\<lambda>x. \<not> (x = CHR ''.'' \<or> isDigit x))"
  have "takeWhile P (u @ r) = u @ takeWhile P r" by (rule takeWhile_append2) (use u in \<open>simp add: isUnit_def P_def list_all_iff\<close>)
  moreover have "takeWhile P r = []" using r by (cases r) (auto simp: begins_def P_def)
  ultimately have tw: "takeWhile P (u @ r) = u" by simp
  define q where "q = (if point f @ u @ r \<noteq> [] \<and> hd (point f @ u @ r) = CHR ''.''
      then leadingFraction 0 1 False (tl (point f @ u @ r)) else (0, 1, point f @ u @ r))"
  have q: "\<exists>s. q = (readNat f, s, u @ r) \<and> readNat f * c div s = readNat f * c div 10 ^ length f"
    by (rule exI [of _ "10 ^ length f"]) (use e lf in \<open>auto simp: q_def point_def readNat_def\<close>)
  then obtain s where qs: "q = (readNat f, s, u @ r)" "readNat f * c div s = readNat f * c div 10 ^ length f" by blast
  have ne: "showNat v @ point f @ u @ r \<noteq> []" "isDigit (hd (showNat v @ point f @ u @ r))" using s by simp_all
  show ?thesis
    unfolding durationItem_def li Option.bind.bind_lunit Let_def prod.case q_def [symmetric] qs(1) P_def [symmetric] tw
    using ne s(1) c vd w e(1) qs(2) by (simp add: Let_def)
qed

lemma durationItem_whole: "isUnit u c \<Longrightarrow> begins r \<Longrightarrow> v * c \<le> 2 ^ 63 \<Longrightarrow> durationItem (showNat v @ u @ r) = Some (v * c, r)"
  using durationItem_text [of "[]" u c r "v * c" v] by (simp add: point_def readNat_def)

text \<open>The digits of a fraction, without the zeros at its end.\<close>

lemma withFraction_digits:
  assumes "0 \<le> n" "0 < k"
  obtains f where "withFraction k n = showNat (nat (n div 10 ^ k)) @ point f" "list_all isDigit f" "length f \<le> k"
    "readNat f * 10 ^ (k - length f) = nat (n mod 10 ^ k)"
proof -
  define p where "p = padded k (n mod 10 ^ k)"
  have p: "length p = k" "list_all isDigit p" "int (readNat p) = n mod 10 ^ k"
    unfolding p_def using padded_props [of "n mod 10 ^ k" k] assms(2) by simp_all
  define zs where "zs = takeWhile (\<lambda>c. c = CHR ''0'') (rev p)"
  define f where "f = rev (dropWhile (\<lambda>c. c = CHR ''0'') (rev p))"
  have "rev p = zs @ rev f" by (simp add: zs_def f_def)
  then have s: "p = f @ rev zs" by (metis rev_append rev_rev_ident)
  have "\<forall>c \<in> set zs. c = CHR ''0''" unfolding zs_def by (auto dest: set_takeWhileD)
  then have z: "rev zs = replicate (length zs) (CHR ''0'')" by (metis length_rev replicate_length_same set_rev)
  have l: "length zs = k - length f" "length f \<le> k" using p(1) s by auto
  have "readNat (replicate j (CHR ''0'')) = 0" for j using readNat_zeros [of j "[]"] by (simp add: readNat_def)
  then have "readNat p = readNat f * 10 ^ (k - length f)"
    unfolding s readNat_append z by (simp add: l(1))
  with p(3) have "readNat f * 10 ^ (k - length f) = nat (n mod 10 ^ k)" by (metis nat_int)
  moreover have "withFraction k n = showNat (nat (n div 10 ^ k)) @ point f"
    using assms(1) by (simp add: withFraction_def f_def p_def point_def itoa_def pos_imp_zdiv_neg_iff not_less)
  ultimately show ?thesis using that p(2) s l(2) by simp
qed

lemma durationItem_withFraction:
  assumes "0 \<le> n" "n \<le> 2 ^ 63" "0 < k" "k \<le> 9" "isUnit u (10 ^ k)" "begins r"
  shows "durationItem (withFraction k n @ u @ r) = Some (nat n, r)"
proof -
  obtain f where f: "withFraction k n = showNat (nat (n div 10 ^ k)) @ point f" "list_all isDigit f" "length f \<le> k"
    "readNat f * 10 ^ (k - length f) = nat (n mod 10 ^ k)"
    by (rule withFraction_digits [OF assms(1,3)])
  have "(10 :: nat) ^ k = 10 ^ (k - length f) * 10 ^ length f"
    using f(3) by (simp flip: power_add)
  then have "readNat f * 10 ^ k div 10 ^ length f = nat (n mod 10 ^ k)"
    by (simp add: f(4) flip: mult.assoc)
  moreover have "nat (n div 10 ^ k) * 10 ^ k + nat (n mod 10 ^ k) = nat n"
  proof -
    have "nat (n div 10 ^ k) * 10 ^ k + nat (n mod 10 ^ k) = nat (n div 10 ^ k * 10 ^ k + n mod 10 ^ k)"
      using assms(1) by (simp add: nat_add_distrib nat_mult_distrib nat_power_eq pos_imp_zdiv_nonneg_iff)
    then show ?thesis by (simp only: div_mult_mod_eq)
  qed
  moreover have "nat n \<le> 2 ^ 63" using assms(2) by simp
  ultimately show ?thesis
    using durationItem_text [OF f(2) _ assms(5,6), of "nat n" "nat (n div 10 ^ k)"] f(1,3) assms(4) by simp
qed

lemma units: "isUnit ''ns'' 1" "isUnit [CHR 0xC2, CHR 0xB5, CHR ''s''] (10 ^ 3)" "isUnit ''ms'' (10 ^ 6)" "isUnit ''s'' (10 ^ 9)"
    "isUnit ''m'' 60000000000" "isUnit ''h'' 3600000000000"
  by (simp_all add: isUnit_def unitOf_def isDigit_def)

lemma begins_withFraction: "0 \<le> n \<Longrightarrow> 0 < k \<Longrightarrow> begins (withFraction k n @ r)"
  using showNat_head [of "nat (n div 10 ^ k)"] by (metis append_Cons append_assoc begins_def list.sel(1) withFraction_digits)

subsection \<open>Durations\<close>

lemma durationItems_step: "durationItem s = Some (w, r) \<Longrightarrow> d + w \<le> 2 ^ 63 \<Longrightarrow> durationItems d s = durationItems (d + w) r"
  by (subst durationItems.simps) (auto simp: durationItem_def)

lemma durationItems_last: "durationItem s = Some (w, []) \<Longrightarrow> d + w \<le> 2 ^ 63 \<Longrightarrow> durationItems d s = Some (d + w)"
  by (simp add: durationItems_step durationItems.simps [of _ "[]"])

lemma itoa_int: "itoa (int n) = showNat n"
  by (simp add: itoa_def)

text \<open>Hours and minutes are left out where there are none.\<close>

lemma durationItems_clock:
  assumes "0 \<le> u" "u \<le> 2 ^ 63"
  shows "durationItems 0 ((if 60 \<le> u div minute then itoa (u div minute div 60) @ ''h'' else [])
     @ (if 0 < u div minute then itoa (u div minute mod 60) @ ''m'' else []) @ withFraction 9 (u mod minute) @ ''s'') = Some (nat u)"
proof -
  define m where "m = nat (u div minute)"
  define s where "s = nat (u mod minute)"
  have m: "u div minute = int m" "u mod minute = int s"
    using assms(1) by (simp_all add: m_def s_def pos_imp_zdiv_nonneg_iff)
  have i: "itoa (u div minute mod 60) = showNat (m mod 60)" "itoa (u div minute div 60) = showNat (m div 60)"
    unfolding m(1) by (metis itoa_int of_nat_mod of_nat_numeral, metis itoa_int of_nat_div of_nat_numeral)
  have "u = int m * minute + int s" using div_mult_mod_eq [of u minute] m by simp
  then have u: "nat u = m * 60000000000 + s" by (simp add: nat_plus_as_int)
  have b: "m * 60000000000 + s \<le> 2 ^ 63" using assms(2) u by simp
  define S where "S = withFraction 9 (u mod minute) @ ''s''"
  have S: "durationItems d S = Some (d + s)" if "d + s \<le> 2 ^ 63" for d
  proof (rule durationItems_last)
    have "0 \<le> u mod minute" "u mod minute \<le> 2 ^ 63" using b by (simp_all add: m(2))
    then have "durationItem (withFraction 9 (u mod minute) @ ''s'' @ []) = Some (nat (u mod minute), [])"
      by (rule durationItem_withFraction) (use units(4) in \<open>simp_all add: begins_def\<close>)
    then show "durationItem S = Some (s, [])" by (simp add: S_def s_def)
  qed (rule that)
  have bS: "begins S" unfolding S_def by (rule begins_withFraction) simp_all
  define M where "M = (if 0 < u div minute then itoa (u div minute mod 60) @ ''m'' else []) @ S"
  have M: "durationItems d M = Some (d + (m mod 60 * 60000000000 + s))"
    if "d + (m mod 60 * 60000000000 + s) \<le> 2 ^ 63" for d
  proof (cases "m = 0")
    case True
    then show ?thesis using S that by (simp add: M_def m(1))
  next
    case False
    have "durationItem (showNat (m mod 60) @ ''m'' @ S) = Some (m mod 60 * 60000000000, S)"
      by (rule durationItem_whole [OF units(5) bS]) (use that in simp)
    then have "durationItem M = Some (m mod 60 * 60000000000, S)"
      using False by (simp add: M_def i) (simp add: m(1))
    from durationItems_step [OF this, of d] S [of "d + m mod 60 * 60000000000"] that show ?thesis by simp
  qed
  have bM: "begins M"
    using bS showNat_head [of "m mod 60"] unfolding M_def i by (auto simp: begins_def)
  have t: "m div 60 * 3600000000000 + (m mod 60 * 60000000000 + s) = nat u"
  proof -
    have "m div 60 * 3600000000000 + m mod 60 * 60000000000 = (m div 60 * 60 + m mod 60) * 60000000000"
      by (simp only: distrib_right mult.assoc)
    also have "\<dots> = m * 60000000000" by (simp only: div_mult_mod_eq)
    finally show ?thesis by (simp only: u add.assoc [symmetric])
  qed
  show ?thesis
  proof (cases "60 \<le> m")
    case True
    have le: "m div 60 * 3600000000000 \<le> 2 ^ 63" using t b u by linarith
    have "durationItem (showNat (m div 60) @ ''h'' @ M) = Some (m div 60 * 3600000000000, M)"
      by (rule durationItem_whole [OF units(6) bM le])
    from durationItems_step [OF this, of 0] M [of "m div 60 * 3600000000000"] le t b u
    have "durationItems 0 (showNat (m div 60) @ ''h'' @ M) = Some (nat u)" by simp
    with True show ?thesis unfolding M_def S_def i by (simp add: m(1))
  next
    case False
    then have "m div 60 = 0" by simp
    with M [of 0] t b u have "durationItems 0 M = Some (nat u)" by simp
    with False show ?thesis by (simp add: M_def S_def m(1))
  qed
qed

text \<open>A text of items is no sign and not \<open>0\<close> alone.\<close>

lemma parse_body:
  assumes "durationItems 0 b = Some n" "b \<noteq> []" "n \<le> 2 ^ 63 - (if neg then 0 else 1)"
  shows "ParseDuration ((if neg then ''-'' else []) @ b) = Some (if neg then - int n else int n)"
proof -
  obtain c cs where b: "b = c # cs" using assms(2) by (cases b) auto
  have c: "c = CHR ''.'' \<or> isDigit c"
    using assms(1) by (subst (asm) durationItems.simps) (auto simp: b durationItem_def split: if_splits)
  then have "c \<noteq> CHR ''-''" "c \<noteq> CHR ''+''" by (auto simp: isDigit_def)
  moreover have "b \<noteq> ''0''"
    using assms(1) by (subst (asm) durationItems.simps) (auto simp: durationItem_def isDigit_def digitVal_def)
  ultimately show ?thesis
    using assms(1,3) by (cases neg) (auto simp: ParseDuration_def Let_def b)
qed

text \<open>The text of a duration is no sign, \<open>0\<close> alone or number of days, and reads back.\<close>

lemma ParseDuration_text:
  assumes "- (2 ^ 63) \<le> d" "d < 2 ^ 63"
  shows "ParseDuration (durationText d) = Some d"
proof -
  define u where "u = \<bar>d\<bar>"
  have u: "0 \<le> u" "u \<le> 2 ^ 63" "0 \<le> d \<Longrightarrow> u < 2 ^ 63" using assms by (auto simp: u_def)
  define body where "body = (if u = 0 then ''0s'' else if u < 1000 then itoa u @ ''ns''
      else if u < 1000000 then withFraction 3 u @ [CHR 0xC2, CHR 0xB5] @ ''s''
      else if u < second then withFraction 6 u @ ''ms''
      else (if 60 \<le> u div minute then itoa (u div minute div 60) @ ''h'' else [])
        @ (if 0 < u div minute then itoa (u div minute mod 60) @ ''m'' else []) @ withFraction 9 (u mod minute) @ ''s'')"
  have printed: "durationText d = (if d < 0 then ''-'' else []) @ body"
    by (simp add: durationText_def body_def u_def Let_def)
  have fraction: "durationItems 0 (withFraction k u @ s) = Some (nat u)" if "isUnit s (10 ^ k)" "0 < k" "k \<le> 9" for k s
    using durationItems_last [OF durationItem_withFraction [OF u(1,2) that(2,3,1), of "[]", simplified begins_def], of 0] u(2)
    by simp
  have "durationItems 0 body = Some (nat u)"
  proof -
    consider "u = 0" | "0 < u" "u < 1000" | "1000 \<le> u" "u < 1000000" | "1000000 \<le> u" "u < second" | "second \<le> u"
      using u(1) by linarith
    then show ?thesis
    proof cases
      case 1
      have z: "showNat 0 = ''0''" by code_simp
      have "durationItem (showNat 0 @ ''s'' @ []) = Some (0 * 10 ^ 9, [])"
        by (rule durationItem_whole [OF units(4)]) (simp_all add: begins_def)
      from durationItems_last [of "showNat 0 @ ''s''" 0 0] this 1 show ?thesis
        by (simp add: body_def z)
    next
      case 2
      have "durationItem (showNat (nat u) @ ''ns'' @ []) = Some (nat u * 1, [])"
        by (rule durationItem_whole [OF units(1)]) (use u(2) in \<open>simp_all add: begins_def\<close>)
      from durationItems_last [of "showNat (nat u) @ ''ns''" "nat u" 0] this 2 u(2) show ?thesis
        by (simp add: body_def itoa_def)
    next
      case 3
      with fraction [OF units(2)] show ?thesis by (simp add: body_def)
    next
      case 4
      with fraction [OF units(3)] show ?thesis by (simp add: body_def)
    next
      case 5
      then have "body = (if 60 \<le> u div minute then itoa (u div minute div 60) @ ''h'' else [])
        @ (if 0 < u div minute then itoa (u div minute mod 60) @ ''m'' else []) @ withFraction 9 (u mod minute) @ ''s''"
        by (simp add: body_def)
      with durationItems_clock [OF u(1,2)] show ?thesis by simp
    qed
  qed
  moreover have "body \<noteq> []" by (simp add: body_def)
  moreover have "nat u \<le> 2 ^ 63 - (if d < 0 then 0 else 1)" using u by (cases "d < 0") simp_all
  ultimately have "ParseDuration (durationText d) = Some (if d < 0 then - int (nat u) else int (nat u))"
    unfolding printed by (rule parse_body)
  also have "(if d < 0 then - int (nat u) else int (nat u)) = d" by (simp add: u_def)
  finally show ?thesis .
qed

lemma durationText_end: "\<exists>p. durationText d = p @ ''s''"
  by (auto simp: durationText_def Let_def)

lemma ParseDuration_start: "ParseDuration s = Some d \<Longrightarrow> \<exists>c cs. s = c # cs \<and> (c \<in> {CHR ''-'', CHR ''+'', CHR ''.''} \<or> isDigit c)"
  by (cases s) (auto simp: isDigit_def ParseDuration_def Let_def durationItems.simps durationItem_def split: if_splits Option.bind_splits option.splits)

lemma durationText_shape:
  assumes "- (2 ^ 63) \<le> d" "d < 2 ^ 63"
  shows "\<exists>c p. durationText d = c # p @ ''s'' \<and> \<not> isSpace c \<and> c \<noteq> CHR ''o''"
proof -
  obtain c cs where c: "durationText d = c # cs" "c \<in> {CHR ''-'', CHR ''+'', CHR ''.''} \<or> isDigit c"
    using ParseDuration_start [OF ParseDuration_text [OF assms]] by blast
  then have n: "\<not> isSpace c" "c \<noteq> CHR ''o''" "c \<noteq> CHR ''s''" by (auto simp: isSpace_def isDigit_def)
  obtain p where p: "durationText d = p @ ''s''" using durationText_end by blast
  with c n(3) obtain q where "p = c # q" by (cases p) auto
  with p n(1,2) show ?thesis by auto
qed

end
