(* ===== verification/CleanupSettings.thy ===== *)
theory CleanupSettings
  imports CleanupExamples DurationText
begin

section \<open>The settings page read back\<close>

text \<open>
  The settings page shows what is saved (\<open>namespaceTTLSettings\<close>) and sends back what its form holds
  (\<open>applyNamespaceTTLSettings\<close>). Times to live go through text both ways: printed by Go, read by
  \<open>ParseTTL\<close>, which knows numbers of days beside Go's durations.
\<close>

text \<open>An update that sends back the fields of an object, as far as it has them.\<close>

definition sentText :: "json option \<Rightarrow> string option" where
  "sentText j = (case j of Some (JStr s) \<Rightarrow> Some s | _ \<Rightarrow> None)"

definition sentFlag :: "json option \<Rightarrow> bool option" where
  "sentFlag j = (case j of Some (JBool b) \<Rightarrow> Some b | _ \<Rightarrow> None)"

definition sentBack :: "(string \<times> json) list \<Rightarrow> NamespaceTTLUpdate" where
  "sentBack fs =
     \<lparr>nuEnabled = sentFlag (map_of fs ''enabled''), nuDryRun = sentFlag (map_of fs ''dryRun''),
      nuSelector = sentText (map_of fs ''selector''), nuTTL = sentText (map_of fs ''ttl''),
      nuWarnBefore = sentText (map_of fs ''warnBefore'')\<rparr>"

subsection \<open>One duration\<close>

lemma ParseTTL_text:
  assumes "- (2 ^ 63) \<le> d" "d < 2 ^ 63"
  shows "ParseTTL (durationText d) =
      (if d \<le> 0 then Inl (quoted (durationText d) @ '' is not a duration such as 3d or 36h'') else Inr (d, False))"
proof -
  obtain c p where s: "durationText d = c # p @ ''s''" "\<not> isSpace c" "c \<noteq> CHR ''o''"
    using durationText_shape [OF assms] by blast
  have "trimSpace (durationText d) = durationText d" using s(2) by (simp add: s(1) trimSpace_def isSpace_def)
  moreover have "\<not> hasSuffix (durationText d) ''d''" by (simp add: s(1) hasSuffix_def hasPrefix_def)
  moreover have "durationText d \<noteq> ''off''" using s(3) by (simp add: s(1))
  ultimately show ?thesis by (simp add: ParseTTL_def Let_def ParseDuration_text [OF assms])
qed

lemma settingDuration_text:
  assumes "0 \<le> d" "d < 2 ^ 63"
  shows "settingDuration what (durationText d) = Inr (Some d)"
proof (cases "d = 0")
  case True
  have "durationText 0 = ''0s''" by (simp add: durationText_def)
  then show ?thesis by (simp add: True settingDuration_def trimSpace_def isSpace_def)
next
  case False
  have d: "- (2 ^ 63) \<le> d" using assms by simp
  obtain c p where s: "durationText d = c # p @ ''s''" "\<not> isSpace c"
    using durationText_shape [OF d assms(2)] by blast
  have "trimSpace (durationText d) \<noteq> []" using s(2) by (simp add: s(1) trimSpace_def isSpace_def)
  moreover have "durationText d \<noteq> ''0s''"
  proof
    assume "durationText d = ''0s''"
    also have "''0s'' = durationText 0" by (simp add: durationText_def)
    finally have "ParseDuration (durationText d) = ParseDuration (durationText 0)" by simp
    with False show False by (simp add: ParseDuration_text [OF d assms(2)] ParseDuration_text)
  qed
  moreover have "durationText d \<noteq> ''0''" by (simp add: s(1))
  ultimately show ?thesis
    using False assms(1) by (simp add: settingDuration_def ParseTTL_text [OF d assms(2)])
qed

text \<open>A number of days that wrapped round to a negative duration is not read back: the page shows it, and
  refuses it when the form is sent.\<close>

lemma negative_setting_refused:
  assumes "- (2 ^ 63) \<le> d" "d < 0"
  shows "\<exists>e. settingDuration what (durationText d) = Inl e"
proof -
  have d: "d < 2 ^ 63" using assms(2) by simp
  obtain c p where s: "durationText d = c # p @ ''s''" "\<not> isSpace c"
    using durationText_shape [OF assms(1) d] by blast
  have "trimSpace (durationText d) \<noteq> []" using s(2) by (simp add: s(1) trimSpace_def isSpace_def)
  moreover have "hd (durationText d) = CHR ''-''" using assms(2) by (simp add: durationText_def Let_def)
  then have "durationText d \<noteq> ''0s''" "durationText d \<noteq> ''0''" by auto
  ultimately show ?thesis using assms(2) by (simp add: settingDuration_def ParseTTL_text [OF assms(1) d])
qed

lemma wrapped_warning_accepted:
  "settingDuration what ''150000d'' = Inr (Some (- 5486744073709551616))"
proof -
  have "trimSpace ''150000d'' = ''150000d''" "hasSuffix ''150000d'' ''d''" "parseInt 64 ''150000'' = Some 150000"
    by (simp_all add: go_str parseInt_def readNat_def digitVal_def isDigit_def)
  then show ?thesis by (simp add: settingDuration_def ParseTTL_def i64_mod)
qed

subsection \<open>The whole form\<close>

text \<open>What the page saves from what it shows: durations that are not negative, and a selector without
  spaces around it.\<close>

definition plainSetting :: "NamespaceTTLConfig \<Rightarrow> bool" where
  "plainSetting t \<longleftrightarrow>
     list_all (\<lambda>d. case d of None \<Rightarrow> True | Some x \<Rightarrow> 0 \<le> x \<and> x < 2 ^ 63) [ntTTL t, ntWarnBefore t]
     \<and> trimSpace (ntSelector t) = ntSelector t"

lemma sentBack_shown:
  "sentBack (namespaceTTLSettings t) =
     \<lparr>nuEnabled = Some (ntEnabled t), nuDryRun = Some (ntDryRun t), nuSelector = Some (ntSelector t),
      nuTTL = map_option durationText (ntTTL t), nuWarnBefore = map_option durationText (ntWarnBefore t)\<rparr>"
proof -
  have "durationText d \<noteq> []" for d using durationText_end [of d] by auto
  then show ?thesis
    by (simp add: sentBack_def namespaceTTLSettings_def Let_def field_def omitEmpty_def sentText_def sentFlag_def split: option.split)
qed

lemma updatedDuration_shown:
  assumes "case d of None \<Rightarrow> True | Some x \<Rightarrow> 0 \<le> x \<and> x < 2 ^ 63"
  shows "updatedDuration what (map_option durationText d) d = Inr d"
  using assms by (cases d) (simp_all add: updatedDuration_def settingDuration_text)



end
