(* ===== verification/Overrides.thy ===== *)
theory Overrides
  imports CleanupApi
begin

section \<open>Schedules and manual overrides through the API (internal/api)\<close>

text \<open>
  What the dashboard, the assistant and other clients change of groups and configs:
  scaling\_handlers.go (create, read, replace and delete them, and the manual override),
  exceptions.go (the checks of a schedule, its dated exceptions and the holiday calendars) and the
  confirmed actions of assistant\_tools.go that scale. A group or config is an \<open>owner\<close> where the
  code takes either. Decoding a request into an object of the API and printing one are those of the
  API's types and parameters; what the API server answers to a write is the object as it then is.
\<close>

subsection \<open>Printing times\<close>

definition weekdayNames :: "string list" where
  "weekdayNames = [''Sun'', ''Mon'', ''Tue'', ''Wed'', ''Thu'', ''Fri'', ''Sat'']"

definition monthNames :: "string list" where
  "monthNames = [''Jan'', ''Feb'', ''Mar'', ''Apr'', ''May'', ''Jun'', ''Jul'', ''Aug'', ''Sep'', ''Oct'', ''Nov'', ''Dec'']"

definition weekdayName :: "time \<Rightarrow> string" where
  "weekdayName t = weekdayNames ! nat ((t div second div 86400 + 4) mod 7)"

definition clockText :: "time \<Rightarrow> string" where
  "clockText t = (let c = t div second mod 86400 in padded 2 (c div 3600) @ '':'' @ padded 2 (c mod 3600 div 60))"

text \<open>In UTC, \<open>time.RFC1123\<close> and \<open>Mon 15:04 MST\<close>.\<close>

definition formatRFC1123 :: "time \<Rightarrow> string" where
  "formatRFC1123 t =
     (let (y, m, d) = dateOf (t div second div 86400)
      in weekdayName t @ '', '' @ padded 2 d @ '' '' @ monthNames ! nat (m - 1) @ '' '' @ padded 4 y @ '' '' @ clockText t
         @ '':'' @ padded 2 (t div second mod 60) @ '' UTC'')"

definition formatDayClock :: "time \<Rightarrow> string" where
  "formatDayClock t = weekdayName t @ '' '' @ clockText t @ '' UTC''"

subsection \<open>The boundary\<close>

record 'w frontend =
  engine :: "'w api"
  createGroup :: "ScalingGroup \<Rightarrow> ('w, ScalingGroup reply) state"
  saveGroup :: "ScalingGroup \<Rightarrow> ('w, ScalingGroup reply) state"
  deleteGroup :: "string \<Rightarrow> string \<Rightarrow> ('w, unit reply) state"
  createConfig :: "ScalingConfig \<Rightarrow> ('w, ScalingConfig reply) state"
  saveConfig :: "ScalingConfig \<Rightarrow> ('w, ScalingConfig reply) state"
  deleteConfig :: "string \<Rightarrow> string \<Rightarrow> ('w, unit reply) state"
  readGroup :: "string \<Rightarrow> string + ScalingGroup"          \<comment> \<open>\<open>decodeJSON\<close> into the type\<close>
  readConfig :: "string \<Rightarrow> string + ScalingConfig"
  groupJson :: "ScalingGroup \<Rightarrow> json"
  configJson :: "ScalingConfig \<Rightarrow> json"
  selectorProblem :: string                              \<comment> \<open>what apimachinery says of an invalid selector\<close>
  conflictRetries :: nat                                 \<comment> \<open>of \<open>retry.DefaultRetry\<close>, after the first\<close>

datatype owner = GroupObj ScalingGroup | ConfigObj ScalingConfig

text \<open>The key of an object: its namespace and name.\<close>

datatype ownerKey = GroupKey string string | ConfigKey string string

fun keyOf :: "owner \<Rightarrow> ownerKey" where
  "keyOf (GroupObj g) = GroupKey (gNamespace g) (gName g)"
| "keyOf (ConfigObj c) = ConfigKey (cNamespace c) (cName c)"

fun getOwner :: "'w frontend \<Rightarrow> ownerKey \<Rightarrow> ('w, owner reply) io" where
  "getOwner fe (GroupKey ns name) =
     do { r \<leftarrow> ask (getGroup (engine fe) ns name); State_Monad.return (map_sum id GroupObj r) }"
| "getOwner fe (ConfigKey ns name) =
     do { r \<leftarrow> ask (getConfig (engine fe) ns name); State_Monad.return (map_sum id ConfigObj r) }"

fun saveOwner :: "'w frontend \<Rightarrow> owner \<Rightarrow> ('w, owner reply) io" where
  "saveOwner fe (GroupObj g) =
     do { r \<leftarrow> act (UpdateGroup g) (saveGroup fe g); State_Monad.return (map_sum id GroupObj r) }"
| "saveOwner fe (ConfigObj c) =
     do { r \<leftarrow> act (UpdateConfig c) (saveConfig fe c); State_Monad.return (map_sum id ConfigObj r) }"

fun ownerJson :: "'w frontend \<Rightarrow> owner \<Rightarrow> json" where
  "ownerJson fe (GroupObj g) = groupJson fe g"
| "ownerJson fe (ConfigObj c) = configJson fe c"

subsection \<open>When an object runs on its own (exceptions.go)\<close>

definition calendars :: "'w api \<Rightarrow> ('w, HolidayCalendar list) io" where
  "calendars api =
     do { r \<leftarrow> ask (readCalendars api); State_Monad.return (case r of Inl _ \<Rightarrow> [] | Inr cs \<Rightarrow> cs) }"

fun scheduleOf :: "owner \<Rightarrow> ScalingSchedule list \<times> ScheduleException list \<times> string list" where
  "scheduleOf (GroupObj g) = (gSchedules (Spec g), gExceptions (Spec g), gCalendars (Spec g))"
| "scheduleOf (ConfigObj c) = (cSchedules (cSpec c), cExceptions (cSpec c), cCalendars (cSpec c))"

fun prewarmLeadOf :: "owner \<Rightarrow> duration" where
  "prewarmLeadOf (GroupObj g) = PrewarmLead (gPrewarm (Spec g)) (RecentWakeUps (gScheduleStatus (Status g)))"
| "prewarmLeadOf (ConfigObj c) = PrewarmLead (cPrewarm (cSpec c)) (RecentWakeUps (cScheduleStatus (cStatus c)))"

definition timetableWith :: "zoneinfo \<Rightarrow> HolidayCalendar list \<Rightarrow> owner \<Rightarrow> Timetable" where
  "timetableWith zi cals o' =
     (case scheduleOf o' of
        (schedules, own, names) \<Rightarrow>
          \<lparr>ttSchedules = schedules,
           ttExceptions = fst (ResolveExceptions zi own names cals (ExceptionZone schedules)),
           ttLead = prewarmLeadOf o'\<rparr>)"

definition timetableOf :: "'w api \<Rightarrow> owner \<Rightarrow> ('w, Timetable) io" where
  "timetableOf api o' = do { cals \<leftarrow> calendars api; State_Monad.return (timetableWith (zones api) cals o') }"

subsection \<open>Checking a schedule before it is saved\<close>

definition maxSchedules :: nat where "maxSchedules = 50"
definition maxExceptions :: nat where "maxExceptions = 100"
definition maxCalendars :: nat where "maxCalendars = 10"

definition checkScheduleSize :: "ScalingSchedule list \<Rightarrow> ScheduleException list \<Rightarrow> string list \<Rightarrow> string + unit" where
  "checkScheduleSize schedules own names =
     (let atMost = (\<lambda>verb most what n. Inl (''a schedule '' @ verb @ '' at most '' @ itoa (int most) @ what @ itoa (int n)))
      in if maxSchedules < length schedules then atMost ''has'' maxSchedules '' time windows, not '' (length schedules)
         else if maxExceptions < length own then atMost ''has'' maxExceptions '' exceptions, not '' (length own)
         else if maxCalendars < length names then atMost ''uses'' maxCalendars '' calendars, not '' (length names)
         else Inr ())"

primrec hibernateProblemText :: "hibernateProblem \<Rightarrow> string" where
  "hibernateProblemText (UnknownPreset p) = ''unknown preset '' @ quoted p @ '' (cnpg, zalando-postgres or strimzi)''"
| "hibernateProblemText PresetTakesNoFields = ''a preset takes no apiVersion, kind, replicasField or readyField''"
| "hibernateProblemText SetPresetOrFields = ''set a preset, or apiVersion, kind and replicasField''"
| "hibernateProblemText (BadAPIVersion v) =
     ''apiVersion '' @ quoted v @ '' must be group/version, such as redis.example.com/v1''"
| "hibernateProblemText BadFieldPath = ''replicasField and readyField are dotted paths such as spec.replicas''"
| "hibernateProblemText (BadName g) = quoted g @ '' is not a name or glob''"

definition checkHibernate :: "gvParser \<Rightarrow> HibernateRule list \<Rightarrow> string + unit" where
  "checkHibernate parseGV rules =
     (case ValidateHibernate parseGV rules of
        None \<Rightarrow> Inr ()
      | Some (i, p) \<Rightarrow> Inl (''hibernate rule '' @ itoa (int i) @ '': '' @ hibernateProblemText p))"

text \<open>Matching against no namespaces checks the selector itself.\<close>

definition checkSelector :: "'w frontend \<Rightarrow> owner \<Rightarrow> string + unit" where
  "checkSelector fe o' =
     (case o' of
        ConfigObj _ \<Rightarrow> Inr ()
      | GroupObj g \<Rightarrow>
          (case SelectNamespaces (namespaceMatcher (engine fe)) (NamespaceSelector (Spec g)) [] [] of
             Inr _ \<Rightarrow> Inr ()
           | Inl EmptySelector \<Rightarrow>
               Inl ''namespaceSelector has no labels to match; an empty selector would select every namespace''
           | Inl InvalidSelector \<Rightarrow> Inl (''namespaceSelector: '' @ selectorProblem fe)))"

fun hibernateOf :: "owner \<Rightarrow> HibernateRule list" where
  "hibernateOf (GroupObj g) = gHibernate (Spec g)"
| "hibernateOf (ConfigObj c) = cHibernate (cSpec c)"

definition validateWith :: "'w frontend \<Rightarrow> HolidayCalendar list \<Rightarrow> owner \<Rightarrow> string + unit" where
  "validateWith fe cals o' =
     (case scheduleOf o' of
        (schedules, own, names) \<Rightarrow>
          let problems = snd (ResolveExceptions (zones (engine fe)) own names cals (ExceptionZone schedules))
          in if problems = [] then Inr () else Inl (join ''; '' (map problemText problems)))"

definition validateSchedule :: "'w frontend \<Rightarrow> owner \<Rightarrow> ('w, string + unit) io" where
  "validateSchedule fe o' =
     attempt (State_Monad.return (checkSelector fe o')) (\<lambda>_.
     attempt (State_Monad.return (checkHibernate (groupVersionOf (engine fe)) (hibernateOf o'))) (\<lambda>_.
     attempt (State_Monad.return (case scheduleOf o' of (schedules, own, names) \<Rightarrow> checkScheduleSize schedules own names)) (\<lambda>_.
       do { cals \<leftarrow> calendars (engine fe); State_Monad.return (validateWith fe cals o') })))"

subsection \<open>Manual overrides (scaling\_handlers.go)\<close>

abbreviation UntilNextTransition :: string where "UntilNextTransition \<equiv> ''nextTransition''"

definition checkDeadline :: "bool \<Rightarrow> time option \<Rightarrow> time \<Rightarrow> string + (bool option \<times> time option)" where
  "checkDeadline active activeUntil now =
     (case activeUntil of
        None \<Rightarrow> Inr (Some active, None)
      | Some u \<Rightarrow>
          if isZero u then Inr (Some active, None)
          else if \<not> now < u then Inl ''activeUntil must be in the future''
          else Inr (Some active, Some u))"

definition ResolveOverride ::
    "zoneinfo \<Rightarrow> bool option \<Rightarrow> time option \<Rightarrow> string \<Rightarrow> Timetable \<Rightarrow> time
       \<Rightarrow> string + (bool option \<times> time option)" where
  "ResolveOverride zi active activeUntil until tt now =
     (case active of
        None \<Rightarrow> Inr (None, None)
      | Some a \<Rightarrow>
          if until = UntilNextTransition then
            (case NextChange zi tt now of
               None \<Rightarrow> Inl ''the schedule never changes state on its own; use a duration or an explicit activeUntil''
             | Some next \<Rightarrow> checkDeadline a (Some next) now)
          else if until \<noteq> [] then
            (case ParseDuration until of
               None \<Rightarrow> Inl (''until must be '' @ quoted UntilNextTransition @ '' or a positive duration such as 4h'')
             | Some d \<Rightarrow>
                 if d \<le> 0 then Inl (''until must be '' @ quoted UntilNextTransition @ '' or a positive duration such as 4h'')
                 else checkDeadline a (Some (truncateTo second (now + d))) now)
          else checkDeadline a activeUntil now)"

text \<open>The object with an override, or without one; then the annotation of old overrides goes too.\<close>

fun withOverride :: "bool option \<Rightarrow> time option \<Rightarrow> owner \<Rightarrow> owner" where
  "withOverride active until (GroupObj g) =
     GroupObj (g\<lparr>Spec := (Spec g)\<lparr>gActive := active, gActiveUntil := until\<rparr>,
       gAnnotations := (if active = None then (gAnnotations g)(LegacyOverrideAnnotation := None) else gAnnotations g)\<rparr>)"
| "withOverride active until (ConfigObj c) =
     ConfigObj (c\<lparr>cSpec := (cSpec c)\<lparr>cActive := active, cActiveUntil := until\<rparr>,
       cAnnotations := (if active = None then (cAnnotations c)(LegacyOverrideAnnotation := None) else cAnnotations c)\<rparr>)"

text \<open>\<open>errBadOverride\<close>, \<open>errNoScalingConfig\<close>, or an error of the cluster.\<close>

datatype changeError = BadOverride string | NoScalingConfig string | OfCluster goError

fun retriable :: "changeError \<Rightarrow> bool" where
  "retriable (OfCluster e) = IsConflict e"
| "retriable _ = False"

definition inCluster :: "('w, 'a reply) io \<Rightarrow> ('w, changeError + 'a) io" where
  "inCluster m = do { r \<leftarrow> m; State_Monad.return (map_sum OfCluster id r) }"

text \<open>\<open>retry.RetryOnConflict\<close> around reading the object, editing it and writing it; what the last edit
  says of itself is kept.\<close>

definition changeOwner ::
    "'w frontend \<Rightarrow> ownerKey \<Rightarrow> (owner \<Rightarrow> ('w, changeError + owner \<times> 'm) io) \<Rightarrow> ('w, changeError + owner \<times> 'm) io" where
  "changeOwner fe key edit =
     retryOnError (conflictRetries fe) retriable
       (attempt (inCluster (getOwner fe key)) (\<lambda>current.
        attempt (edit current) (\<lambda>(new, m).
        attempt (inCluster (saveOwner fe new)) (\<lambda>saved. State_Monad.return (Inr (saved, m))))))"

text \<open>The override of a request, and the deadline it got.\<close>

definition overrideEdit ::
    "'w frontend \<Rightarrow> bool option \<Rightarrow> time option \<Rightarrow> (Timetable \<Rightarrow> ('w, string) io) \<Rightarrow> owner
       \<Rightarrow> ('w, changeError + owner \<times> time option) io" where
  "overrideEdit fe active activeUntil untilOf o' =
     do { tt \<leftarrow> timetableOf (engine fe) o';
          until \<leftarrow> untilOf tt;
          now \<leftarrow> ask (clockNow (engine fe));
          State_Monad.return
            (case ResolveOverride (zones (engine fe)) active activeUntil until tt now of
               Inl e \<Rightarrow> Inl (BadOverride e)
             | Inr (a, u) \<Rightarrow> Inr (withOverride a u o', u)) }"

end
