(* ===== verification/ScheduleApi.thy ===== *)
theory ScheduleApi
  imports Overrides
begin

section \<open>The handlers of schedules (internal/api/scaling\_handlers.go, exceptions.go, assistant\_tools.go)\<close>

text \<open>
  The handlers of groups and configs, and the actions on them that the assistant offers and a user
  confirms. The texts of errors of the cluster are parameters, like everywhere; what a handler logs is
  left out.
\<close>

subsection \<open>Groups and configs\<close>

definition emptyGroupStatus :: ScalingGroupStatus where
  "emptyGroupStatus =
     \<lparr>gPhase = PhaseUnset, gLastAction = zeroTime, gOriginalReplicas = [], ManagedCount = 0, NamespacesReady = 0,
      NamespacesTotal = 0, ReadyNamespaces = [], CurrentStage = 0, SkippedNamespaces = [], gsRequiredBy = [],
      ManagedNamespaces = [], SelectedNamespaces = [], gsConflictingNamespaces = [], StoppedExternalTargets = [],
      gScheduleStatus = emptyScheduleStatus, gConditions = []\<rparr>"

definition emptyConfigStatus :: ScalingConfigStatus where
  "emptyConfigStatus =
     \<lparr>cPhase = PhaseUnset, cLastAction = zeroTime, cOriginalReplicas = [], cScheduleStatus = emptyScheduleStatus,
      cConditions = []\<rparr>"

definition objectReply :: "'w frontend \<Rightarrow> nat \<Rightarrow> ('a \<Rightarrow> json) \<Rightarrow> 'a reply \<Rightarrow> answer" where
  "objectReply fe code print r =
     (case r of Inl e \<Rightarrow> writeK8sError (engine fe) e | Inr x \<Rightarrow> Reply code [] [] (JsonBody (print x)))"

definition deletedReply :: "'w frontend \<Rightarrow> unit reply \<Rightarrow> answer" where
  "deletedReply fe r =
     (case r of Inl e \<Rightarrow> writeK8sError (engine fe) e | Inr _ \<Rightarrow> Reply 204 [] [] (PlainBody []))"

definition listScalingGroups :: "'w frontend \<Rightarrow> ('w, answer) io" where
  "listScalingGroups fe =
     do { r \<leftarrow> ask (listGroups (engine fe) (Some (OperatorNamespace (engine fe))));
          State_Monad.return (objectReply fe 200 (\<lambda>gs. JArr (map (groupJson fe) gs)) r) }"

definition newGroup :: "'w frontend \<Rightarrow> ScalingGroup \<Rightarrow> ScalingGroup" where
  "newGroup fe g =
     g\<lparr>gNamespace := OperatorNamespace (engine fe), Status := emptyGroupStatus,
       Spec := (Spec g)\<lparr>gActive := None, gActiveUntil := None\<rparr>\<rparr>"

definition createScalingGroup :: "'w frontend \<Rightarrow> string \<Rightarrow> ('w, answer) io" where
  "createScalingGroup fe body =
     (case readGroup fe body of
        Inl e \<Rightarrow> State_Monad.return (errorReply 400 e)
      | Inr g \<Rightarrow>
          do { v \<leftarrow> validateSchedule fe (GroupObj (newGroup fe g));
               case v of
                 Inl e \<Rightarrow> State_Monad.return (errorReply 400 e)
               | Inr _ \<Rightarrow>
                   do { r \<leftarrow> act (CreateGroup (newGroup fe g)) (createGroup fe (newGroup fe g));
                        State_Monad.return (objectReply fe 201 (groupJson fe) r) } })"

definition scalingKey :: "'w frontend \<Rightarrow> (string \<Rightarrow> string \<Rightarrow> ownerKey) \<Rightarrow> string \<Rightarrow> ownerKey" where
  "scalingKey fe kind name = kind (OperatorNamespace (engine fe)) name"

definition getScaling :: "'w frontend \<Rightarrow> ownerKey \<Rightarrow> ('w, answer) io" where
  "getScaling fe key =
     do { r \<leftarrow> getOwner fe key; State_Monad.return (objectReply fe 200 (ownerJson fe) r) }"

text \<open>Replacing the specification, whatever the current one is.\<close>

fun withSpecOf :: "owner \<Rightarrow> owner \<Rightarrow> owner" where
  "withSpecOf (GroupObj new) (GroupObj g) = GroupObj (g\<lparr>Spec := Spec new\<rparr>)"
| "withSpecOf (ConfigObj new) (ConfigObj c) = ConfigObj (c\<lparr>cSpec := cSpec new\<rparr>)"
| "withSpecOf _ o' = o'"

definition changeReply :: "'w frontend \<Rightarrow> changeError + owner \<Rightarrow> answer" where
  "changeReply fe r =
     (case r of
        Inr o' \<Rightarrow> Reply 200 [] [] (JsonBody (ownerJson fe o'))
      | Inl (BadOverride e) \<Rightarrow> errorReply 400 e
      | Inl (NoScalingConfig ns) \<Rightarrow>
          errorReply 500 (''namespace '' @ ns @ '' has no ScalingConfig; create one on the Workload Scaling page first'')
      | Inl (OfCluster e) \<Rightarrow> writeK8sError (engine fe) e)"

definition updateScaling :: "'w frontend \<Rightarrow> ownerKey \<Rightarrow> string + owner \<Rightarrow> ('w, answer) io" where
  "updateScaling fe key decoded =
     (case decoded of
        Inl e \<Rightarrow> State_Monad.return (errorReply 400 e)
      | Inr updated \<Rightarrow>
          do { v \<leftarrow> validateSchedule fe updated;
               case v of
                 Inl e \<Rightarrow> State_Monad.return (errorReply 400 e)
               | Inr _ \<Rightarrow>
                   do { r \<leftarrow> changeOwner fe key (\<lambda>current. State_Monad.return (Inr (withSpecOf updated current, ())));
                        State_Monad.return (changeReply fe (map_sum id fst r)) } })"

definition updateScalingGroup :: "'w frontend \<Rightarrow> string \<Rightarrow> string \<Rightarrow> ('w, answer) io" where
  "updateScalingGroup fe name body = updateScaling fe (scalingKey fe GroupKey name) (map_sum id GroupObj (readGroup fe body))"

definition deleteScalingGroup :: "'w frontend \<Rightarrow> string \<Rightarrow> ('w, answer) io" where
  "deleteScalingGroup fe name =
     do { r \<leftarrow> act (DeleteGroup (OperatorNamespace (engine fe)) name) (deleteGroup fe (OperatorNamespace (engine fe)) name);
          State_Monad.return (deletedReply fe r) }"

definition listScalingConfigs :: "'w frontend \<Rightarrow> ('w, answer) io" where
  "listScalingConfigs fe =
     do { r \<leftarrow> ask (listConfigs (engine fe) (Some (OperatorNamespace (engine fe))));
          State_Monad.return (objectReply fe 200 (\<lambda>cs. JArr (map (configJson fe) cs)) r) }"

definition newConfig :: "'w frontend \<Rightarrow> ScalingConfig \<Rightarrow> ScalingConfig" where
  "newConfig fe c =
     c\<lparr>cNamespace := OperatorNamespace (engine fe), cStatus := emptyConfigStatus,
       cSpec := (cSpec c)\<lparr>cActive := None, cActiveUntil := None\<rparr>\<rparr>"

definition createScalingConfig :: "'w frontend \<Rightarrow> string \<Rightarrow> ('w, answer) io" where
  "createScalingConfig fe body =
     (case readConfig fe body of
        Inl e \<Rightarrow> State_Monad.return (errorReply 400 e)
      | Inr c \<Rightarrow>
          do { v \<leftarrow> validateSchedule fe (ConfigObj (newConfig fe c));
               case v of
                 Inl e \<Rightarrow> State_Monad.return (errorReply 400 e)
               | Inr _ \<Rightarrow>
                   do { r \<leftarrow> act (CreateConfig (newConfig fe c)) (createConfig fe (newConfig fe c));
                        State_Monad.return (objectReply fe 201 (configJson fe) r) } })"

definition updateScalingConfig :: "'w frontend \<Rightarrow> string \<Rightarrow> string \<Rightarrow> ('w, answer) io" where
  "updateScalingConfig fe name body = updateScaling fe (scalingKey fe ConfigKey name) (map_sum id ConfigObj (readConfig fe body))"

definition deleteScalingConfig :: "'w frontend \<Rightarrow> string \<Rightarrow> ('w, answer) io" where
  "deleteScalingConfig fe name =
     do { r \<leftarrow> act (DeleteConfig (OperatorNamespace (engine fe)) name) (deleteConfig fe (OperatorNamespace (engine fe)) name);
          State_Monad.return (deletedReply fe r) }"

subsection \<open>The manual override\<close>

fun asMetaTime :: "json \<Rightarrow> time option" where
  "asMetaTime (JStr s) = parseRFC3339 s"
| "asMetaTime _ = None"

text \<open>The three fields of \<open>manualOverrideRequest\<close>.\<close>

definition manualRequest :: "string \<Rightarrow> (bool option \<times> time option \<times> string) option" where
  "manualRequest body =
     Option.bind (decodeJSON [''active'', ''activeUntil'', ''until''] body) (\<lambda>fs.
     Option.bind (readPointer asBool ''active'' None fs) (\<lambda>active.
     Option.bind (readPointer asMetaTime ''activeUntil'' None fs) (\<lambda>activeUntil.
     map_option (\<lambda>until. (active, activeUntil, until)) (readField asString ''until'' [] fs))))"

definition handleManual :: "'w frontend \<Rightarrow> ownerKey \<Rightarrow> string \<Rightarrow> ('w, answer) io" where
  "handleManual fe key body =
     (case manualRequest body of
        None \<Rightarrow> State_Monad.return (errorReply 400 ''invalid body'')
      | Some (active, activeUntil, until) \<Rightarrow>
          do { r \<leftarrow> changeOwner fe key (overrideEdit fe active activeUntil (\<lambda>_. State_Monad.return until));
               State_Monad.return (changeReply fe (map_sum id fst r)) })"

definition handleScalingGroupManual :: "'w frontend \<Rightarrow> string \<Rightarrow> string \<Rightarrow> ('w, answer) io" where
  "handleScalingGroupManual fe name body = handleManual fe (scalingKey fe GroupKey name) body"

definition handleScalingConfigManual :: "'w frontend \<Rightarrow> string \<Rightarrow> string \<Rightarrow> ('w, answer) io" where
  "handleScalingConfigManual fe name body = handleManual fe (scalingKey fe ConfigKey name) body"

subsection \<open>Exceptions\<close>

definition configForNamespace :: "'w frontend \<Rightarrow> string \<Rightarrow> ('w, changeError + ScalingConfig) io" where
  "configForNamespace fe ns =
     attempt (inCluster (ask (listConfigs (engine fe) (Some (OperatorNamespace (engine fe)))))) (\<lambda>cs.
       State_Monad.return (case find (\<lambda>c. TargetNamespace (cSpec c) = ns \<or> cName c = ns) cs of
         Some c \<Rightarrow> Inr c | None \<Rightarrow> Inl (NoScalingConfig ns)))"

fun exceptionsField :: "owner \<Rightarrow> ScheduleException list" where
  "exceptionsField (GroupObj g) = gExceptions (Spec g)"
| "exceptionsField (ConfigObj c) = cExceptions (cSpec c)"

fun withExceptions :: "ScheduleException list \<Rightarrow> owner \<Rightarrow> owner" where
  "withExceptions es (GroupObj g) = GroupObj (g\<lparr>Spec := (Spec g)\<lparr>gExceptions := es\<rparr>\<rparr>)"
| "withExceptions es (ConfigObj c) = ConfigObj (c\<lparr>cSpec := (cSpec c)\<lparr>cExceptions := es\<rparr>\<rparr>)"

type_synonym exceptionEdit = "ScheduleException list \<Rightarrow> changeError + ScheduleException list \<times> string"

definition editExceptions :: "'w frontend \<Rightarrow> exceptionEdit \<Rightarrow> owner \<Rightarrow> ('w, changeError + owner \<times> string) io" where
  "editExceptions fe change current =
     attempt (State_Monad.return (change (exceptionsField current))) (\<lambda>(updated, msg).
       do { v \<leftarrow> validateSchedule fe (withExceptions updated current);
            State_Monad.return (case v of Inl e \<Rightarrow> Inl (BadOverride e) | Inr _ \<Rightarrow> Inr (withExceptions updated current, msg)) })"

definition exceptionTarget :: "'w frontend \<Rightarrow> string \<Rightarrow> string \<Rightarrow> ('w, changeError + ownerKey) io" where
  "exceptionTarget fe target name =
     (if target = ''group'' then State_Monad.return (Inr (scalingKey fe GroupKey name))
      else if target = ''namespace''
      then attempt (configForNamespace fe name) (\<lambda>c. State_Monad.return (Inr (keyOf (ConfigObj c))))
      else State_Monad.return (Inl (BadOverride ''target must be group or namespace'')))"

definition changeExceptions ::
    "'w frontend \<Rightarrow> string \<Rightarrow> string \<Rightarrow> exceptionEdit \<Rightarrow> ('w, changeError + string) io" where
  "changeExceptions fe target name change =
     attempt (exceptionTarget fe target name) (\<lambda>key.
     attempt (changeOwner fe key (editExceptions fe change)) (\<lambda>(_, msg).
       State_Monad.return (Inr (target @ '' '' @ name @ '': '' @ msg @ ''.''))))"

definition describeExceptionDates :: "ScheduleException \<Rightarrow> string" where
  "describeExceptionDates ex =
     (if exEnd ex \<noteq> [] \<and> exEnd ex \<noteq> exStart ex then ''from '' @ exStart ex @ '' to '' @ exEnd ex else ''on '' @ exStart ex)
     @ (if exName ex \<noteq> [] then '' ('' @ exName ex @ '')'' else [])"

definition addException :: "ScheduleException \<Rightarrow> exceptionEdit" where
  "addException ex own = Inr (own @ [ex], ''added: kept '' @ toLower (exState ex) @ '' '' @ describeExceptionDates ex)"

definition removeException :: "string \<Rightarrow> exceptionEdit" where
  "removeException which own =
     (let kept = filter (\<lambda>e. \<not> (equalFold (exName e) which \<or> exStart e = which)) own
      in if length kept = length own then Inl (BadOverride (''no exception is labelled or starts '' @ quoted which))
         else Inr (kept, ''removed '' @ itoa (int (length own - length kept)) @ '' exception(s) matching '' @ quoted which))"

subsection \<open>Actions of the assistant\<close>

text \<open>\<open>applyOverride\<close>: without a duration an override holds until the next change of the schedule, if it
  has one.\<close>

definition defaultDuration :: "'w frontend \<Rightarrow> string \<Rightarrow> Timetable \<Rightarrow> ('w, string) io" where
  "defaultDuration fe duration tt =
     (if duration = ''forever'' then State_Monad.return []
      else if duration \<noteq> [] then State_Monad.return duration
      else do { now \<leftarrow> ask (clockNow (engine fe));
                State_Monad.return (if NextChange (zones (engine fe)) tt now \<noteq> None then UntilNextTransition else []) })"

definition actionState :: "string \<Rightarrow> bool option" where
  "actionState action = (if action = ''up'' then Some True else if action = ''down'' then Some False else None)"

fun keyName :: "ownerKey \<Rightarrow> string" where
  "keyName (GroupKey _ name) = name"
| "keyName (ConfigKey _ name) = name"

definition applyOverride ::
    "'w frontend \<Rightarrow> ownerKey \<Rightarrow> string \<Rightarrow> string \<Rightarrow> ('w, changeError + string) io" where
  "applyOverride fe key action duration =
     attempt (changeOwner fe key (overrideEdit fe (actionState action) None (defaultDuration fe duration))) (\<lambda>(_, until).
       State_Monad.return (Inr
         (if actionState action = None then keyName key @ '' now follows its schedule again.''
          else case until of
                 Some u \<Rightarrow> keyName key @ '' is forced '' @ action @ '' until '' @ formatRFC1123 u @ ''.''
               | None \<Rightarrow> keyName key @ '' is forced '' @ action @ '' until the override is removed.'')))"

end
