(* ===== verification/ChatBot.thy ===== *)
theory ChatBot
  imports ScheduleApi
begin

section \<open>The chat bot (internal/webex/bot.go)\<close>

text \<open>
  Messages in a chat room as commands: showing what is scaled, and overriding it. Sending a message
  is a parameter; the commands change groups and configs as the API does, so the steps of
  \<open>Overrides\<close> are used. Progress is reported by a background task, whose ticks are \<open>monitorTick\<close>; its
  ticker is left out, like the logs.
\<close>

subsection \<open>Messages and commands\<close>

record Person =
  perID :: string
  perName :: string
  perEmails :: "string list"

record Message =
  msID :: string
  msParent :: string
  msRoom :: string
  msRoomType :: string
  msText :: string
  msPerson :: string
  msEmail :: string
  msCreated :: time

record 'w Bot =
  botFrontend :: "'w frontend"
  sendMessage :: "string \<Rightarrow> string \<Rightarrow> string \<Rightarrow> ('w, string + unit) state"   \<comment> \<open>room, parent, text\<close>
  botNamespace :: string
  ClusterName :: string
  SpaceID :: string
  botMe :: "Person option"

datatype verb = VerbHelp | VerbList | VerbStatus | VerbScale | VerbResume | VerbUnknown

primrec verbText :: "verb \<Rightarrow> string" where
  "verbText VerbHelp = ''help''"
| "verbText VerbList = ''list''"
| "verbText VerbStatus = ''status''"
| "verbText VerbScale = ''scale''"
| "verbText VerbResume = ''resume''"
| "verbText VerbUnknown = ''unknown''"

abbreviation targetGroup :: string where "targetGroup \<equiv> ''group''"
abbreviation targetConfig :: string where "targetConfig \<equiv> ''config''"
abbreviation targetNamespaces :: string where "targetNamespaces \<equiv> ''namespaces''"
abbreviation holdForever :: string where "holdForever \<equiv> ''forever''"
abbreviation invalidMark :: string where "invalidMark \<equiv> ''invalid:''"

record command =
  cmdVerb :: verb
  cmdType :: string
  cmdTarget :: string
  cmdAction :: string
  cmdUntil :: string
  cmdAddressed :: bool

definition isOwnMessage :: "'w Bot \<Rightarrow> Message \<Rightarrow> bool" where
  "isOwnMessage b msg \<longleftrightarrow>
     (case botMe b of
        None \<Rightarrow> False
      | Some me \<Rightarrow> (msPerson msg \<noteq> [] \<and> msPerson msg = perID me) \<or> list_ex (\<lambda>e. equalFold e (msEmail msg)) (perEmails me))"

text \<open>\<open>stripMention\<close>: the text after the first of the names that it starts with, as a word.\<close>

definition mentionRest :: "string \<Rightarrow> string \<Rightarrow> string option" where
  "mentionRest s c =
     (if length c \<le> length s \<and> equalFold (take (length c) s) c
      then let rest = drop (length c) s
           in if rest = [] \<or> hd rest \<in> {CHR '' '', CHR '','', CHR '':''}
              then Some (dropWhile (\<lambda>x. x \<in> {CHR '' '', CHR '','', CHR '':''}) rest) else None
      else None)"

fun firstMention :: "string \<Rightarrow> string list \<Rightarrow> string" where
  "firstMention s [] = s"
| "firstMention s (c # cs) = (case mentionRest s c of Some rest \<Rightarrow> rest | None \<Rightarrow> firstMention s cs)"

text \<open>A display name of nothing but spaces has no first word: the code indexes an empty list and
  panics.\<close>

definition mentionNames :: "'w Bot \<Rightarrow> string list option" where
  "mentionNames b =
     (case botMe b of
        None \<Rightarrow> Some [''costdeck'']
      | Some me \<Rightarrow>
          if perName me = [] then Some [''costdeck'']
          else let name = trimSpace (perName me)
               in case GoBase.fields name of
                    [] \<Rightarrow> None
                  | w # _ \<Rightarrow> Some [name, w, ''costdeck''])"

definition stripMention :: "'w Bot \<Rightarrow> string \<Rightarrow> string option" where
  "stripMention b s = map_option (firstMention (trimPrefix (trimSpace s) ''@'')) (mentionNames b)"

definition parseUntil :: "string list \<Rightarrow> string" where
  "parseUntil tokens =
     (let words = trimSpace (trimPrefix (toLower (join '' '' tokens)) ''for '')
      in if words = [] then []
         else if words = holdForever \<or> words = ''always'' \<or> words = ''until resumed'' then holdForever
         else if hasPrefix words ''until next'' \<or> words = ''next'' then UntilNextTransition
         else case ParseDuration words of
                Some d \<Rightarrow> if 0 < d then durationText d else invalidMark @ words
              | None \<Rightarrow> invalidMark @ words)"

definition tokenAt :: "string list \<Rightarrow> nat \<Rightarrow> string" where
  "tokenAt tokens i = (if i < length tokens then tokens ! i else [])"

definition plainCommand :: "verb \<Rightarrow> bool \<Rightarrow> command" where
  "plainCommand v addressed =
     \<lparr>cmdVerb = v, cmdType = [], cmdTarget = [], cmdAction = [], cmdUntil = [], cmdAddressed = addressed\<rparr>"

text \<open>The words of a message, the first one in lower case without a slash, and whether the message is
  for this cluster for sure.\<close>

definition addressedWords :: "'w Bot \<Rightarrow> Message \<Rightarrow> string list \<Rightarrow> string list \<times> bool" where
  "addressedWords b msg tokens =
     (let named = ClusterName b \<noteq> [] \<and> tokens \<noteq> [] \<and> equalFold (hd tokens) (ClusterName b);
          words = (if named then tl tokens else tokens);
          addressed = named \<or> ClusterName b = [] \<or> msRoomType msg = ''direct''
      in (case words of [] \<Rightarrow> [] | w # ws \<Rightarrow> trimPrefix (toLower w) ''/'' # ws, addressed))"

definition commandOf :: "string list \<Rightarrow> bool \<Rightarrow> command \<times> bool" where
  "commandOf tokens addressed =
     (if tokens = [] then (plainCommand VerbHelp addressed, addressed)
      else
        let w = hd tokens; kind = toLower (tokenAt tokens 1); name = tokenAt tokens 2;
            plain = (\<lambda>v. plainCommand v addressed);
            aimed = (\<lambda>v. (plainCommand v addressed)\<lparr>cmdType := kind, cmdTarget := name\<rparr>)
        in if w = ''help'' \<or> w = ''?'' then (plain VerbHelp, True)
           else if w = ''list'' \<or> w = ''groups'' \<or> w = ''overview'' then (plain VerbList, True)
           else if w = ''status'' then (aimed (if kind = [] then VerbList else VerbStatus), True)
           else if w = ''scale''
           then ((aimed VerbScale)\<lparr>cmdAction := toLower (tokenAt tokens 3), cmdUntil := parseUntil (drop 4 tokens)\<rparr>, True)
           else if w = ''resume'' \<or> w = ''schedule'' \<or> w = ''follow'' then (aimed VerbResume, True)
           else (plain VerbUnknown, addressed))"

text \<open>\<open>parse\<close>: the command, and whether it may be meant for this cluster.\<close>

definition parse :: "'w Bot \<Rightarrow> Message \<Rightarrow> (command \<times> bool) option" where
  "parse b msg =
     map_option (\<lambda>s. case addressedWords b msg (GoBase.fields s) of (tokens, addressed) \<Rightarrow> commandOf tokens addressed)
       (stripMention b (msText msg))"

subsection \<open>Texts\<close>

definition nl :: string where "nl = [CHR 0x0A]"
definition warningSign :: string where "warningSign = [CHR 0xE2, CHR 0x9A, CHR 0xA0, CHR 0xEF, CHR 0xB8, CHR 0x8F]"
definition rocket :: string where "rocket = [CHR 0xF0, CHR 0x9F, CHR 0x9A, CHR 0x80]"
definition calendarSign :: string where "calendarSign = [CHR 0xF0, CHR 0x9F, CHR 0x93, CHR 0x85]"
definition hourglass :: string where "hourglass = [CHR 0xE2, CHR 0x8F, CHR 0xB3]"
definition checkMark :: string where "checkMark = [CHR 0xE2, CHR 0x9C, CHR 0x85]"
definition middleDot :: string where "middleDot = [CHR 0xC2, CHR 0xB7]"
definition arrow :: string where "arrow = [CHR 0xE2, CHR 0x86, CHR 0x92]"

definition code :: "string \<Rightarrow> string" where "code s = ''`'' @ s @ ''`''"

definition prefixText :: "'w Bot \<Rightarrow> string" where
  "prefixText b = (if ClusterName b = [] then [] else ''**['' @ ClusterName b @ '']** '')"

definition refuseChange :: "'w Bot \<Rightarrow> Message \<Rightarrow> string" where
  "refuseChange b msg =
     (if SpaceID b = []
      then ''Scaling from chat is turned off until a CostDeck space is configured (Settings '' @ arrow @ '' Notifications ''
           @ arrow @ '' Webex '' @ arrow @ '' Space ID). Only members of that space can scale; '' @ code ''list'' @ '' and ''
           @ code ''status'' @ '' work here.''
      else if msRoom msg \<noteq> SpaceID b
      then ''Scaling commands are only accepted in the CostDeck space. '' @ code ''list'' @ '' and '' @ code ''status'' @ '' work here.''
      else [])"

definition helpText :: "'w Bot \<Rightarrow> string" where
  "helpText b =
     (let p = (if ClusterName b = [] then [] else ClusterName b @ '' '')
      in ''**CostDeck commands**'' @ nl @ nl
         @ ''- '' @ code (p @ ''list'') @ '': all groups and namespace configs with their state'' @ nl
         @ ''- '' @ code (p @ ''status group <name>'') @ '' / '' @ code (p @ ''status config <name>'') @ '': details'' @ nl
         @ ''- '' @ code (p @ ''scale group <name> up|down [for 4h | until next | forever]'') @ nl
         @ ''- '' @ code (p @ ''scale config <namespace> up|down [...]'') @ nl
         @ ''- '' @ code (p @ ''resume group|config <name>'') @ '': drop the override, follow the schedule again'' @ nl
         @ nl @ ''Without a duration, a scale command holds until the next scheduled change.''
         @ (if ClusterName b \<noteq> [] then '' In a space shared by several clusters, start with the cluster name to target one.'' else []))"

definition describeState :: "phase \<Rightarrow> ScheduleStatus \<Rightarrow> string" where
  "describeState ph st =
     (let p = (if ph = PhaseUnset then ''Pending'' else phaseText ph);
          m = (if Mode st = ModeManualUp \<or> Mode st = ModeManualDown then ''manual''
               else if Mode st = ModeUnset then ''unknown'' else toLower (modeText (Mode st)))
      in ''**'' @ p @ ''** ('' @ m @ '')'')"

definition describeNext :: "ScheduleStatus \<Rightarrow> string" where
  "describeNext st =
     (case NextTransition st of
        None \<Rightarrow> []
      | Some n \<Rightarrow> '' '' @ middleDot @ '' '' @ toLower (stDesiredState n) @ '' at '' @ formatDayClock (stTime n))"

definition readyText :: "ScalingGroup \<Rightarrow> string" where
  "readyText g = itoa (NamespacesReady (Status g)) @ ''/'' @ itoa (NamespacesTotal (Status g)) @ '' ready''"

definition overviewText :: "ScalingGroup list \<Rightarrow> ScalingConfig list \<Rightarrow> string" where
  "overviewText gs cs =
     (if gs = [] \<and> cs = [] then ''No ScalingGroups or ScalingConfigs are defined yet.''
      else (if gs = [] then [] else ''**Groups**'' @ nl @ concat (map (\<lambda>g. ''- '' @ code (gName g) @ '' ''
               @ describeState (gPhase (Status g)) (gScheduleStatus (Status g)) @ '' '' @ middleDot @ '' '' @ readyText g
               @ describeNext (gScheduleStatus (Status g)) @ nl) (sort_key gName gs)))
         @ (if cs = [] then [] else nl @ ''**Namespace configs**'' @ nl @ concat (map (\<lambda>c. ''- '' @ code (cName c) @ '' (''
               @ TargetNamespace (cSpec c) @ '') '' @ describeState (cPhase (cStatus c)) (cScheduleStatus (cStatus c))
               @ describeNext (cScheduleStatus (cStatus c)) @ nl) (sort_key cName cs))))"

definition groupText :: "ScalingGroup \<Rightarrow> string" where
  "groupText g =
     ''**Group '' @ code (gName g) @ ''**: '' @ describeState (gPhase (Status g)) (gScheduleStatus (Status g))
     @ describeNext (gScheduleStatus (Status g)) @ nl @ ''Namespaces: '' @ readyText g @ nl
     @ (if DependsOn (Spec g) = [] then [] else ''Depends on: '' @ join '', '' (DependsOn (Spec g)) @ nl)
     @ (if gsRequiredBy (Status g) = [] then [] else ''Kept up for: '' @ join '', '' (gsRequiredBy (Status g)) @ nl)
     @ concat (map (\<lambda>ns. ''- '' @ code ns @ nl) (Members g))"

definition configText :: "ScalingConfig \<Rightarrow> string" where
  "configText c =
     ''**Config '' @ code (cName c) @ ''** ('' @ TargetNamespace (cSpec c) @ ''): ''
     @ describeState (cPhase (cStatus c)) (cScheduleStatus (cStatus c)) @ describeNext (cScheduleStatus (cStatus c))"

subsection \<open>Finding what a command names\<close>

text \<open>\<open>errNotHere\<close>, an error of the command, or one of the cluster.\<close>

datatype botError = NotHere | Say string | Failed changeError

fun botErrorText :: "'w Bot \<Rightarrow> botError \<Rightarrow> string" where
  "botErrorText b NotHere = ''target not found in this cluster''"
| "botErrorText b (Say s) = s"
| "botErrorText b (Failed (BadOverride s)) = s"
| "botErrorText b (Failed (NoScalingConfig ns)) = ''namespace '' @ ns @ '' has no ScalingConfig; create one on the Workload Scaling page first''"
| "botErrorText b (Failed (OfCluster e)) = errorText (engine (botFrontend b)) e"

abbreviation botApi :: "'w Bot \<Rightarrow> 'w api" where "botApi b \<equiv> engine (botFrontend b)"

definition failing :: "('w, 'a reply) io \<Rightarrow> ('w, botError + 'a) io" where
  "failing m = do { r \<leftarrow> m; State_Monad.return (map_sum (Failed \<circ> OfCluster) id r) }"

definition findGroup :: "'w Bot \<Rightarrow> command \<Rightarrow> ('w, botError + ScalingGroup) io" where
  "findGroup b cmd =
     (if cmdTarget cmd = []
      then State_Monad.return (Inl (Say (''which group? usage: '' @ code (verbText (cmdVerb cmd) @ '' group <name>''))))
      else do { r \<leftarrow> ask (getGroup (botApi b) (botNamespace b) (cmdTarget cmd));
                State_Monad.return (case r of
                    Inr g \<Rightarrow> Inr g
                  | Inl e \<Rightarrow> if \<not> IsNotFound e then Inl (Failed (OfCluster e))
                            else if \<not> cmdAddressed cmd then Inl NotHere
                            else Inl (Say (''group '' @ code (cmdTarget cmd) @ '' not found''))) })"

definition findConfig :: "'w Bot \<Rightarrow> command \<Rightarrow> ('w, botError + ScalingConfig) io" where
  "findConfig b cmd =
     (if cmdTarget cmd = []
      then State_Monad.return (Inl (Say (''which namespace? usage: '' @ code (verbText (cmdVerb cmd) @ '' config <namespace>''))))
      else do { r \<leftarrow> ask (getConfig (botApi b) (botNamespace b) (cmdTarget cmd));
                case r of
                  Inr c \<Rightarrow> State_Monad.return (Inr c)
                | Inl e \<Rightarrow>
                    if \<not> IsNotFound e then State_Monad.return (Inl (Failed (OfCluster e)))
                    else attempt (failing (ask (listConfigs (botApi b) (Some (botNamespace b))))) (\<lambda>cs.
                      State_Monad.return (case find (\<lambda>c. TargetNamespace (cSpec c) = cmdTarget cmd) cs of
                          Some c \<Rightarrow> Inr c
                        | None \<Rightarrow> if \<not> cmdAddressed cmd then Inl NotHere
                                  else Inl (Say (''no namespace config '' @ code (cmdTarget cmd))))) })"

text \<open>The object of a command on a group or config; another target is answered with the usage.\<close>

definition findTarget :: "'w Bot \<Rightarrow> command \<Rightarrow> string \<Rightarrow> ('w, botError + owner) io" where
  "findTarget b cmd usage =
     (if cmdType cmd = targetGroup
      then attempt (findGroup b cmd) (\<lambda>g. State_Monad.return (Inr (GroupObj g)))
      else if cmdType cmd = targetConfig
      then attempt (findConfig b cmd) (\<lambda>c. State_Monad.return (Inr (ConfigObj c)))
      else State_Monad.return (Inl (Say usage)))"

fun ownerName :: "owner \<Rightarrow> string" where
  "ownerName (GroupObj g) = gName g"
| "ownerName (ConfigObj c) = cName c"

subsection \<open>Commands\<close>

definition overview :: "'w Bot \<Rightarrow> ('w, botError + string) io" where
  "overview b =
     attempt (failing (ask (listGroups (botApi b) (Some (botNamespace b))))) (\<lambda>gs.
     attempt (failing (ask (listConfigs (botApi b) (Some (botNamespace b))))) (\<lambda>cs.
       State_Monad.return (Inr (overviewText gs cs))))"

definition status :: "'w Bot \<Rightarrow> command \<Rightarrow> ('w, botError + string) io" where
  "status b cmd =
     (if cmdType cmd = targetGroup then attempt (findGroup b cmd) (\<lambda>g. State_Monad.return (Inr (groupText g)))
      else if cmdType cmd = targetConfig then attempt (findConfig b cmd) (\<lambda>c. State_Monad.return (Inr (configText c)))
      else if cmdType cmd = targetNamespaces then overview b
      else State_Monad.return (Inl (Say (''usage: '' @ code ''status group <name>'' @ '' or '' @ code ''status config <name>''))))"

text \<open>A deadline for \<open>spec.activeUntil\<close>.\<close>

definition resolveUntil :: "zoneinfo \<Rightarrow> string \<Rightarrow> Timetable \<Rightarrow> time \<Rightarrow> string + time option" where
  "resolveUntil zi until tt now =
     (if until = [] \<or> until = holdForever then Inr None
      else if until = UntilNextTransition then Inr (NextChange zi tt now)
      else case ParseDuration until of
             None \<Rightarrow> Inl (''time: invalid duration '' @ quoted until)
           | Some d \<Rightarrow> Inr (Some (truncateTo second (now + d))))"

definition holdEdit :: "'w Bot \<Rightarrow> bool \<Rightarrow> string \<Rightarrow> owner \<Rightarrow> ('w, changeError + owner \<times> time option) io" where
  "holdEdit b active until o' =
     do { tt \<leftarrow> timetableOf (botApi b) o';
          now \<leftarrow> ask (clockNow (botApi b));
          State_Monad.return (case resolveUntil (zones (botApi b)) until tt now of
              Inl e \<Rightarrow> Inl (BadOverride e)
            | Inr u \<Rightarrow> Inr (withOverride (Some active) u o', u)) }"

definition describeHold :: "zoneinfo \<Rightarrow> string \<Rightarrow> Timetable \<Rightarrow> time \<Rightarrow> string" where
  "describeHold zi until tt now =
     (if until = [] \<or> until = holdForever then ''holding until you '' @ code ''resume'' @ '' the schedule''
      else if until = UntilNextTransition then
        (case NextChange zi tt now of
           Some t \<Rightarrow> ''holding until the next scheduled change at '' @ formatDayClock t
         | None \<Rightarrow> ''holding until you '' @ code ''resume'' @ '' (the schedule never changes)'')
      else ''holding for '' @ until)"

definition scaleUsage :: string where
  "scaleUsage = ''usage: '' @ code ''scale group <name> up|down'' @ '' or '' @ code ''scale config <namespace> up|down''"

definition changing :: "('w, changeError + 'a) io \<Rightarrow> ('w, botError + 'a) io" where
  "changing m = do { r \<leftarrow> m; State_Monad.return (map_sum Failed id r) }"

text \<open>How long a command without a duration holds: until the next change, if the schedule has one.\<close>

definition untilOrNext :: "'w Bot \<Rightarrow> string \<Rightarrow> owner \<Rightarrow> ('w, string) io" where
  "untilOrNext b until o' =
     (if until \<noteq> [] then State_Monad.return until
      else do { tt \<leftarrow> timetableOf (botApi b) o';
                now \<leftarrow> ask (clockNow (botApi b));
                State_Monad.return (if NextChange (zones (botApi b)) tt now \<noteq> None then UntilNextTransition else []) })"

definition scaleTarget :: "'w Bot \<Rightarrow> command \<Rightarrow> bool \<Rightarrow> ('w, botError + string) io" where
  "scaleTarget b cmd active =
     attempt (findTarget b cmd scaleUsage) (\<lambda>o'.
       do { until \<leftarrow> untilOrNext b (cmdUntil cmd) o';
            attempt (changing (changeOwner (botFrontend b) (keyOf o') (holdEdit b active until))) (\<lambda>(saved, _).
              do { tt \<leftarrow> timetableOf (botApi b) saved;
                   now \<leftarrow> ask (clockNow (botApi b));
                   State_Monad.return (Inr (rocket @ '' Scaling '' @ cmdType cmd @ '' '' @ code (ownerName o')
                     @ (if active then '' up, '' else '' down, '') @ describeHold (zones (botApi b)) until tt now @ ''.'')) }) })"

definition scale :: "'w Bot \<Rightarrow> command \<Rightarrow> ('w, botError + string) io" where
  "scale b cmd =
     (if cmdAction cmd \<noteq> ''up'' \<and> cmdAction cmd \<noteq> ''down''
      then State_Monad.return (Inl (Say (''usage: '' @ code (''scale '' @ (if cmdType cmd = [] then targetGroup else cmdType cmd)
             @ '' <name> up|down [for 4h | until next | forever]''))))
      else case cutPrefix (cmdUntil cmd) invalidMark of
             Some bad \<Rightarrow> State_Monad.return (Inl (Say (''could not read '' @ quoted bad @ '' as a duration; use e.g. '' @ code ''for 4h''
               @ '', '' @ code ''until next'' @ '' or '' @ code ''forever'')))
           | None \<Rightarrow> scaleTarget b cmd (cmdAction cmd = ''up''))"

definition capitalize :: "string \<Rightarrow> string" where
  "capitalize s = (case s of [] \<Rightarrow> [] | c # cs \<Rightarrow> (if CHR ''a'' \<le> c \<and> c \<le> CHR ''z'' then char_of (of_char c - 32 :: nat) else c) # cs)"

definition resume :: "'w Bot \<Rightarrow> command \<Rightarrow> ('w, botError + string) io" where
  "resume b cmd =
     attempt (findTarget b cmd (''usage: '' @ code ''resume group <name>'' @ '' or '' @ code ''resume config <namespace>'')) (\<lambda>o'.
     attempt (changing (changeOwner (botFrontend b) (keyOf o') (\<lambda>current. State_Monad.return (Inr (withOverride None None current, ()))))) (\<lambda>(saved, _).
       State_Monad.return (Inr (calendarSign @ '' '' @ capitalize (cmdType cmd) @ '' '' @ code (ownerName saved) @ '' follows its schedule again.''))))"

definition execute :: "'w Bot \<Rightarrow> Message \<Rightarrow> command \<Rightarrow> ('w, botError + string) io" where
  "execute b msg cmd =
     (case cmdVerb cmd of
        VerbHelp \<Rightarrow> State_Monad.return (Inr (helpText b))
      | VerbUnknown \<Rightarrow> State_Monad.return (Inr (''I did not understand that.'' @ nl @ nl @ helpText b))
      | VerbList \<Rightarrow> overview b
      | VerbStatus \<Rightarrow> status b cmd
      | VerbScale \<Rightarrow> if refuseChange b msg \<noteq> [] then State_Monad.return (Inr (refuseChange b msg)) else scale b cmd
      | VerbResume \<Rightarrow> if refuseChange b msg \<noteq> [] then State_Monad.return (Inr (refuseChange b msg)) else resume b cmd)"

subsection \<open>Messages\<close>

definition threadRoot :: "Message \<Rightarrow> string" where
  "threadRoot msg = (if msParent msg \<noteq> [] then msParent msg else msID msg)"

definition send :: "'w Bot \<Rightarrow> Message \<Rightarrow> string \<Rightarrow> ('w, string + unit) io" where
  "send b msg text = act (SendMessage (msRoom msg) (threadRoot msg) (prefixText b @ text))
     (sendMessage b (msRoom msg) (threadRoot msg) (prefixText b @ text))"

definition ProcessMessage :: "'w Bot \<Rightarrow> Message \<Rightarrow> ('w, goError + unit) io" where
  "ProcessMessage b msg =
     (if isOwnMessage b msg then State_Monad.return (Inr ())
      else case parse b msg of
             None \<Rightarrow> State_Monad.return (Inl (Panic ''index out of range''))
           | Some (cmd, mine) \<Rightarrow>
               if \<not> mine then State_Monad.return (Inr ())
               else do { r \<leftarrow> execute b msg cmd;
                         let reply = (case r of Inr t \<Rightarrow> t | Inl e \<Rightarrow> warningSign @ '' '' @ botErrorText b e);
                         if r = Inl NotHere \<or> reply = [] then State_Monad.return (Inr ())
                         else do { s \<leftarrow> send b msg reply; State_Monad.return (map_sum Msg id s) } })"

subsection \<open>Progress\<close>

text \<open>What the task that follows a scale command does at a tick, and whether that was its last; and what
  it says when its time is up. The command's object is given by its kind and name.\<close>

definition observe :: "'w Bot \<Rightarrow> string \<Rightarrow> string \<Rightarrow> ('w, phase \<times> bool option) io" where
  "observe b kind name =
     (if kind = targetGroup
      then do { r \<leftarrow> ask (getGroup (botApi b) (botNamespace b) name);
                State_Monad.return (case r of Inl _ \<Rightarrow> (PhaseUnset, None) | Inr g \<Rightarrow> (gPhase (Status g), gActive (Spec g))) }
      else do { r \<leftarrow> ask (getConfig (botApi b) (botNamespace b) name);
                State_Monad.return (case r of Inl _ \<Rightarrow> (PhaseUnset, None) | Inr c \<Rightarrow> (cPhase (cStatus c), cActive (cSpec c))) })"

definition wantedPhase :: "bool \<Rightarrow> phase" where
  "wantedPhase active = (if active then PhaseScaledUp else PhaseScaledDown)"

definition monitorTick :: "'w Bot \<Rightarrow> Message \<Rightarrow> string \<Rightarrow> string \<Rightarrow> bool \<Rightarrow> ('w, bool) io" where
  "monitorTick b msg kind name active =
     do { (ph, spec) \<leftarrow> observe b kind name;
          if spec \<noteq> Some active then State_Monad.return True
          else if ph = wantedPhase active
          then do { _ \<leftarrow> send b msg (checkMark @ '' '' @ capitalize kind @ '' '' @ code name @ '' is '' @ phaseText ph @ ''.'');
                    State_Monad.return True }
          else State_Monad.return False }"

definition monitorTimeout :: "'w Bot \<Rightarrow> Message \<Rightarrow> string \<Rightarrow> string \<Rightarrow> bool \<Rightarrow> duration \<Rightarrow> ('w, unit) io" where
  "monitorTimeout b msg kind name active timeout =
     do { _ \<leftarrow> send b msg (hourglass @ '' '' @ capitalize kind @ '' '' @ code name @ '' has not reached ''
            @ phaseText (wantedPhase active) @ '' after '' @ durationText timeout @ ''; check ''
            @ code (''status '' @ kind @ '' '' @ name) @ ''.'');
          State_Monad.return () }"

end
