(* ===== verification/Sha1.thy ===== *)
theory Sha1
  imports Encodings
begin

section \<open>Prelude: crypto/sha1 and its keyed digest\<close>

text \<open>
  Webex signs what it sends with HMAC-SHA1. The digest shares the padding, the words and the block
  structure of SHA-256 in \<open>Encodings\<close>.
\<close>

definition rotl :: "nat \<Rightarrow> w32 \<Rightarrow> w32" where
  "rotl n x = push_bit n x OR drop_bit (32 - n) x"

definition sha1Init :: "w32 list" where
  "sha1Init = [0x67452301, 0xEFCDAB89, 0x98BADCFE, 0x10325476, 0xC3D2E1F0]"

fun sha1Expand :: "nat \<Rightarrow> w32 list \<Rightarrow> w32 list" where
  "sha1Expand 0 w = w"
| "sha1Expand (Suc n) w =
     (let i = length w
      in sha1Expand n (w @ [rotl 1 (w ! (i - 3) XOR w ! (i - 8) XOR w ! (i - 14) XOR w ! (i - 16))]))"

text \<open>The function and the constant of a round, by its number.\<close>

definition sha1Choice :: "nat \<Rightarrow> w32 \<Rightarrow> w32 \<Rightarrow> w32 \<Rightarrow> w32 \<times> w32" where
  "sha1Choice t b c d =
     (if t < 20 then ((b AND c) OR (NOT b AND d), 0x5A827999)
      else if t < 40 then (b XOR c XOR d, 0x6ED9EBA1)
      else if t < 60 then ((b AND c) OR (b AND d) OR (c AND d), 0x8F1BBCDC)
      else (b XOR c XOR d, 0xCA62C1D6))"

fun sha1Round :: "w32 list \<Rightarrow> nat \<times> w32 \<Rightarrow> w32 list" where
  "sha1Round [a, b, c, d, e] (t, w) =
     (let (f, k) = sha1Choice t b c d in [rotl 5 a + f + e + k + w, a, rotl 30 b, c, d])"
| "sha1Round hs _ = hs"

definition sha1Block :: "w32 list \<Rightarrow> w32 list \<Rightarrow> w32 list" where
  "sha1Block hs block = map2 (+) hs (foldl sha1Round hs (zip [0..<80] (sha1Expand 64 block)))"

function sha1Blocks :: "w32 list \<Rightarrow> w32 list \<Rightarrow> w32 list" where
  "sha1Blocks hs w = (if length w < 16 then hs else sha1Blocks (sha1Block hs (take 16 w)) (drop 16 w))"
  by auto
termination by (relation "measure (\<lambda>(_, w). length w)") auto

declare sha1Blocks.simps [simp del]

definition sha1 :: "string \<Rightarrow> string" where
  "sha1 s = concat (map (\<lambda>w. bigEndian 4 (unat w)) (sha1Blocks sha1Init (wordsOf (shaPad s))))"

definition hmacSHA1 :: "string \<Rightarrow> string \<Rightarrow> string" where
  "hmacSHA1 key msg =
     (let k = (if length key > 64 then sha1 key else key);
          k0 = map charCode (k @ replicate (64 - length k) (CHR 0x00));
          ipad = map (\<lambda>b. byteOf (b XOR 0x36)) k0;
          opad = map (\<lambda>b. byteOf (b XOR 0x5c)) k0
      in sha1 (opad @ sha1 (ipad @ msg)))"

text \<open>A digest has 20 bytes.\<close>

lemma sha1Round_length: "length hs = 5 \<Longrightarrow> length (sha1Round hs tw) = 5"
  by (cases "(hs, tw)" rule: sha1Round.cases) (auto split: prod.split)

lemma sha1Block_length: "length hs = 5 \<Longrightarrow> length (sha1Block hs block) = 5"
proof -
  have "length hs = 5 \<Longrightarrow> length (foldl sha1Round hs ks) = 5" for hs ks
    by (induction ks arbitrary: hs) (auto simp: sha1Round_length)
  then show "length hs = 5 \<Longrightarrow> ?thesis" by (simp add: sha1Block_def)
qed

lemma sha1Blocks_length: "length hs = 5 \<Longrightarrow> length (sha1Blocks hs w) = 5"
  by (induction hs w rule: sha1Blocks.induct) (subst sha1Blocks.simps, simp add: sha1Block_length)

lemma sha1_length [simp]: "length (sha1 s) = 20"
proof -
  have "length (concat (map (\<lambda>w. bigEndian 4 (unat w)) ws)) = 4 * length ws" for ws :: "w32 list"
    by (induction ws) (auto simp: bigEndian_def)
  moreover have "length (sha1Blocks sha1Init w) = 5" for w
    by (rule sha1Blocks_length) (simp add: sha1Init_def)
  ultimately show ?thesis by (simp add: sha1_def)
qed

lemma hmacSHA1_length [simp]: "length (hmacSHA1 key msg) = 20"
  by (simp add: hmacSHA1_def Let_def)

end
