(* ===== verification/Delivery.thy ===== *)
theory Delivery
  imports ChatBot Sha1
begin

section \<open>Delivery of chat messages (internal/webex/poller.go, notifier.go, internal/api/webex\_handlers.go)\<close>

text \<open>
  How messages reach the bot and how Cost Deck writes to its space: the poller, which asks Webex every
  few seconds for what is new, the webhook, which Webex calls for each message, and the announcements.
  The calls to Webex (client.go) are parameters, by the token they are made with. The poller is one
  task, so its memory is passed on; the lock of the webhook's memory makes each of its uses one step.
  Tickers and logs are left out, except for the last error, which the poller keeps.
\<close>

subsection \<open>Settings\<close>

record WebexConfig =
  wxEnabled :: bool
  wxRoomID :: string
  wxNotifyTransitions :: bool
  wxSecretRef :: string

record Room =
  rmID :: string
  rmTitle :: string
  rmType :: string

text \<open>\<open>getWebex\<close> reads the configuration: its messenger settings, when it has some, and the name of the
  cluster. \<open>Rooms\<close> and \<open>Messages\<close> may answer without a list. \<open>mapOrder\<close> is the order in which a loop
  meets the entries of a map.\<close>

record 'w messenger =
  messengerFrontend :: "'w frontend"
  getWebex :: "('w, (WebexConfig option \<times> string) reply) state"
  getSecretData :: "string \<Rightarrow> string \<Rightarrow> ('w, (string \<rightharpoonup> string) reply) state"
  webexMe :: "string \<Rightarrow> ('w, string + Person) state"
  webexRoom :: "string \<Rightarrow> string \<Rightarrow> ('w, string + Room) state"
  webexRooms :: "string \<Rightarrow> nat \<Rightarrow> ('w, string + Room list option) state"
  webexMessages :: "string \<Rightarrow> string \<Rightarrow> bool \<Rightarrow> nat \<Rightarrow> ('w, string + Message list) state"
  webexMessage :: "string \<Rightarrow> string \<Rightarrow> ('w, string + Message) state"
  webexSend :: "string \<Rightarrow> string \<Rightarrow> string \<Rightarrow> string \<Rightarrow> ('w, string + unit) state"   \<comment> \<open>token, room, parent, text\<close>
  mapOrder :: "(string \<times> time) list \<Rightarrow> (string \<times> time) list"

abbreviation messengerApi :: "'w messenger \<Rightarrow> 'w api" where
  "messengerApi m \<equiv> engine (messengerFrontend m)"

record WebexSettings =
  stToken :: string
  stWebhookSecret :: string
  stRoomID :: string
  stClusterName :: string

definition readWebex :: "'w messenger \<Rightarrow> ('w, (WebexConfig option \<times> string) reply) io" where
  "readWebex m =
     do { r \<leftarrow> ask (getWebex m);
          State_Monad.return
            (case r of
               Inl e \<Rightarrow> if IsNotFound e then Inr (None, [])
                        else Inl (Wrap (''get CostDeckConfig '' @ OperatorNamespace (messengerApi m) @ ''/default'') e)
             | Inr x \<Rightarrow> Inr x) }"

definition webexSecret :: "'w messenger \<Rightarrow> string \<Rightarrow> ('w, (string \<rightharpoonup> string) reply) io" where
  "webexSecret m name =
     (let ns = OperatorNamespace (messengerApi m)
      in if name = [] then State_Monad.return (Inl (Msg ''no secret configured''))
         else wrapped (''read secret '' @ ns @ ''/'' @ name) (ask (getSecretData m ns name)))"

definition SecretKeyBotToken :: string where "SecretKeyBotToken = ''BOT_TOKEN''"
definition SecretKeyWebhookSecret :: string where "SecretKeyWebhookSecret = ''WEBHOOK_SECRET''"

definition dataAt :: "(string \<rightharpoonup> string) \<Rightarrow> string \<Rightarrow> string" where
  "dataAt data k = (case data k of Some v \<Rightarrow> v | None \<Rightarrow> [])"

definition LoadSettings :: "'w messenger \<Rightarrow> ('w, WebexSettings option reply) io" where
  "LoadSettings m =
     attempt (readWebex m) (\<lambda>(wx, name).
       case wx of
         None \<Rightarrow> State_Monad.return (Inr None)
       | Some c \<Rightarrow>
           if \<not> wxEnabled c then State_Monad.return (Inr None)
           else attempt (webexSecret m (wxSecretRef c)) (\<lambda>data.
             State_Monad.return (Inr (Some
               \<lparr>stToken = dataAt data SecretKeyBotToken, stWebhookSecret = dataAt data SecretKeyWebhookSecret,
                stRoomID = wxRoomID c, stClusterName = name\<rparr>))))"

definition botOf :: "'w messenger \<Rightarrow> WebexSettings \<Rightarrow> Person \<Rightarrow> 'w Bot" where
  "botOf m st me =
     \<lparr>botFrontend = messengerFrontend m, sendMessage = webexSend m (stToken st),
      botNamespace = OperatorNamespace (messengerApi m), ClusterName = stClusterName st, SpaceID = stRoomID st,
      botMe = Some me\<rparr>"

subsection \<open>Polling\<close>

record Poller =
  plToken :: string
  plMe :: "Person option"
  plRooms :: "Room list option"
  plRoomsAt :: time
  plLastSeen :: "string \<rightharpoonup> time"
  plLastError :: string

definition resetPoller :: "string \<Rightarrow> Poller \<Rightarrow> Poller" where
  "resetPoller token p =
     (if plToken p = token then p
      else p\<lparr>plToken := token, plMe := None, plRooms := None, plRoomsAt := zeroTime, plLastSeen := Map.empty\<rparr>)"

definition logOnce :: "string \<Rightarrow> Poller \<Rightarrow> Poller" where
  "logOnce e p = p\<lparr>plLastError := e\<rparr>"

definition identity :: "'w messenger \<Rightarrow> string \<Rightarrow> Poller \<Rightarrow> ('w, (string + Person) \<times> Poller) io" where
  "identity m token p =
     (case plMe p of
        Some me \<Rightarrow> State_Monad.return (Inr me, p)
      | None \<Rightarrow> do { r \<leftarrow> ask (webexMe m token);
                     State_Monad.return (r, case r of Inl _ \<Rightarrow> p | Inr me \<Rightarrow> p\<lparr>plMe := Some me\<rparr>) })"

text \<open>An answer without a list of rooms is not kept.\<close>

definition roomsToPoll :: "'w messenger \<Rightarrow> string \<Rightarrow> string \<Rightarrow> Poller \<Rightarrow> ('w, (string + Room list option) \<times> Poller) io" where
  "roomsToPoll m token roomID p =
     do { now \<leftarrow> ask (clockNow (messengerApi m));
          if plRooms p \<noteq> None \<and> now - plRoomsAt p < 5 * minute then State_Monad.return (Inr (plRooms p), p)
          else do { r \<leftarrow> (if roomID \<noteq> []
                          then do { r \<leftarrow> ask (webexRoom m token roomID);
                                    State_Monad.return (map_sum id (\<lambda>room. Some [room]) r) }
                          else ask (webexRooms m token 50));
                    case r of
                      Inl e \<Rightarrow> State_Monad.return (Inl e, p)
                    | Inr rooms \<Rightarrow>
                        do { stamp \<leftarrow> ask (clockNow (messengerApi m));
                             State_Monad.return (Inr rooms, p\<lparr>plRooms := rooms, plRoomsAt := stamp\<rparr>) } } }"

text \<open>The messages created after the last one seen, oldest first; the first round in a room only notes how
  far it is.\<close>

definition freshMessages :: "'w messenger \<Rightarrow> string \<Rightarrow> Message list \<Rightarrow> Poller \<Rightarrow> ('w, Poller \<times> Message list) io" where
  "freshMessages m roomID msgs p =
     (let msgs = sort_key msCreated msgs; seen = (\<lambda>t. p\<lparr>plLastSeen := (plLastSeen p)(roomID \<mapsto> t)\<rparr>)
      in case plLastSeen p roomID of
           None \<Rightarrow> do { now \<leftarrow> ask (clockNow (messengerApi m));
                        State_Monad.return (seen (if msgs \<noteq> [] \<and> now < msCreated (last msgs) then msCreated (last msgs) else now), []) }
         | Some watermark \<Rightarrow>
             let out = filter (\<lambda>msg. watermark < msCreated msg) msgs
             in State_Monad.return (if out = [] then p else seen (msCreated (last out)), out))"

definition withRoomType :: "Room \<Rightarrow> Message \<Rightarrow> Message" where
  "withRoomType room msg = (if msRoomType msg = [] then msg\<lparr>msRoomType := rmType room\<rparr> else msg)"

fun processEach :: "'w Bot \<Rightarrow> Message list \<Rightarrow> ('w, unit) io" where
  "processEach b [] = State_Monad.return ()"
| "processEach b (msg # msgs) = do { _ \<leftarrow> ProcessMessage b msg; processEach b msgs }"

text \<open>The result names the messages handed to the bot, by the room they were listed for.\<close>

fun pollRooms :: "'w messenger \<Rightarrow> string \<Rightarrow> 'w Bot \<Rightarrow> Room list \<Rightarrow> Poller \<Rightarrow> ('w, Poller \<times> (string \<times> Message) list) io" where
  "pollRooms m token b [] p = State_Monad.return (p, [])"
| "pollRooms m token b (room # rooms) p =
     do { r \<leftarrow> ask (webexMessages m token (rmID room) (rmType room \<noteq> ''direct'') 20);
          (p1, handed) \<leftarrow> (case r of
              Inl e \<Rightarrow> State_Monad.return (logOnce e p, [])
            | Inr msgs \<Rightarrow>
                do { (p1, out) \<leftarrow> freshMessages m (rmID room) msgs p;
                     let out = map (withRoomType room) out;
                     _ \<leftarrow> processEach b out;
                     State_Monad.return (p1, map (Pair (rmID room)) out) });
          (p2, more) \<leftarrow> pollRooms m token b rooms p1;
          State_Monad.return (p2, handed @ more) }"

definition pollWith :: "'w messenger \<Rightarrow> WebexSettings \<Rightarrow> Poller \<Rightarrow> ('w, Poller \<times> (string \<times> Message) list) io" where
  "pollWith m st p =
     do { (r, p1) \<leftarrow> identity m (stToken st) p;
          case r of
            Inl e \<Rightarrow> State_Monad.return (logOnce e p1, [])
          | Inr me \<Rightarrow>
              do { (r, p2) \<leftarrow> roomsToPoll m (stToken st) (stRoomID st) p1;
                   case r of
                     Inl e \<Rightarrow> State_Monad.return (logOnce e p2, [])
                   | Inr rooms \<Rightarrow>
                       do { (p3, handed) \<leftarrow> pollRooms m (stToken st) (botOf m st me) (case rooms of None \<Rightarrow> [] | Some rs \<Rightarrow> rs) p2;
                            State_Monad.return (p3\<lparr>plLastError := []\<rparr>, handed) } } }"

definition Poll :: "'w messenger \<Rightarrow> Poller \<Rightarrow> ('w, Poller \<times> (string \<times> Message) list) io" where
  "Poll m p =
     do { r \<leftarrow> LoadSettings m;
          case r of
            Inl e \<Rightarrow> State_Monad.return (logOnce (errorText (messengerApi m) e) p, [])
          | Inr None \<Rightarrow> State_Monad.return (resetPoller [] p, [])
          | Inr (Some st) \<Rightarrow>
              if stToken st = [] \<or> stWebhookSecret st \<noteq> [] then State_Monad.return (resetPoller [] p, [])
              else pollWith m st (resetPoller (stToken st) p) }"

subsection \<open>Checking the settings\<close>

definition CheckWebex :: "'w messenger \<Rightarrow> WebexSettings \<Rightarrow> ('w, string + string) io" where
  "CheckWebex m st =
     (if stToken st = [] then State_Monad.return (Inl (''the Webex credentials Secret has no '' @ SecretKeyBotToken))
      else attempt (ask (webexMe m (stToken st))) (\<lambda>me.
        let done = (\<lambda>delivery. State_Monad.return (Inr (''Connected as '' @ perName me @ '' '' @ middleDot @ '' '' @ delivery)));
            delivery = (if stWebhookSecret st \<noteq> [] then ''signed webhooks'' else ''polling all spaces the bot is in'')
        in if stRoomID st = [] then done delivery
           else do { r \<leftarrow> ask (webexRoom m (stToken st) (stRoomID st));
                     case r of
                       Inl e \<Rightarrow> State_Monad.return (Inl (''bot '' @ quoted (perName me) @ '' cannot access space '' @ stRoomID st @ '': '' @ e))
                     | Inr room \<Rightarrow> done (if stWebhookSecret st = [] then ''polling space '' @ quoted (rmTitle room) else delivery) }))"

subsection \<open>Announcements\<close>

definition ErrNoSpace :: goError where
  "ErrNoSpace = Msg ''webex is not enabled or has no space configured''"

definition Post :: "'w messenger \<Rightarrow> string \<Rightarrow> ('w, unit reply) io" where
  "Post m markdown =
     attempt (readWebex m) (\<lambda>(wx, _).
       if (case wx of None \<Rightarrow> True | Some c \<Rightarrow> \<not> wxEnabled c \<or> wxRoomID c = []) then State_Monad.return (Inl ErrNoSpace)
       else attempt (LoadSettings m) (\<lambda>s.
         case s of
           None \<Rightarrow> State_Monad.return (Inl (Msg ''webex has no bot token''))
         | Some st \<Rightarrow>
             if stToken st = [] then State_Monad.return (Inl (Msg ''webex has no bot token''))
             else let text = (if stClusterName st \<noteq> [] then ''**['' @ stClusterName st @ '']** '' @ markdown else markdown)
                  in do { r \<leftarrow> act (SendMessage (stRoomID st) [] text) (webexSend m (stToken st) (stRoomID st) [] text);
                          State_Monad.return (map_sum Msg id r) }))"

definition Notify :: "'w messenger \<Rightarrow> string \<Rightarrow> ('w, unit) io" where
  "Notify m markdown =
     do { r \<leftarrow> readWebex m;
          case r of
            Inl _ \<Rightarrow> State_Monad.return ()
          | Inr (wx, _) \<Rightarrow>
              if (case wx of None \<Rightarrow> True | Some c \<Rightarrow> \<not> wxNotifyTransitions c) then State_Monad.return ()
              else do { _ \<leftarrow> Post m markdown; State_Monad.return () } }"

subsection \<open>The webhook\<close>

record webhookPayload =
  whResource :: string
  whEvent :: string
  whID :: string
  whRoomID :: string

text \<open>The members of the inner struct, in the order of the text.\<close>

fun dataFields :: "(string \<times> json) list \<Rightarrow> (string \<times> json) list option" where
  "dataFields [] = Some []"
| "dataFields ((k, v) # fs) =
     (if k \<noteq> ''data'' \<or> v = JNull then dataFields fs
      else case v of
             JObj ms \<Rightarrow> map_option ((@) (memberFields [''id'', ''roomId''] ms)) (dataFields fs)
           | _ \<Rightarrow> None)"

definition readPayload :: "string \<Rightarrow> webhookPayload option" where
  "readPayload body =
     Option.bind (readStruct [''resource'', ''event'', ''data''] body) (\<lambda>fs.
     Option.bind (readField asString ''resource'' [] fs) (\<lambda>resource.
     Option.bind (readField asString ''event'' [] fs) (\<lambda>event.
     Option.bind (dataFields fs) (\<lambda>ds.
     Option.bind (readField asString ''id'' [] ds) (\<lambda>i.
     Option.bind (readField asString ''roomId'' [] ds) (\<lambda>room.
       Some \<lparr>whResource = resource, whEvent = event, whID = i, whRoomID = room\<rparr>))))))"

definition validWebexSignature :: "string \<Rightarrow> string \<Rightarrow> string \<Rightarrow> bool" where
  "validWebexSignature body secret signature \<longleftrightarrow>
     signature \<noteq> [] \<and> encodeHex (hmacSHA1 secret body) = signature"

definition deliveriesKept :: nat where "deliveriesKept = 1000"
definition deliveryWindow :: duration where "deliveryWindow = hour"

text \<open>The deliveries of the last hour by message: a map, as the list of its entries. At the limit the expired
  ones are dropped and then as many as a loop over the map meets first.\<close>

type_synonym deliveries = "(string \<times> time) list"

definition evict :: "'w messenger \<Rightarrow> time \<Rightarrow> deliveries \<Rightarrow> deliveries" where
  "evict m now seen =
     (let recent = filter (\<lambda>(_, t). now - t < deliveryWindow) seen
      in drop (length recent - (deliveriesKept - 1)) (mapOrder m recent))"

definition first :: "'w messenger \<Rightarrow> string \<Rightarrow> time \<Rightarrow> deliveries \<Rightarrow> bool \<times> deliveries" where
  "first m i now seen =
     (case map_of seen i of
        Some t \<Rightarrow>
          if now - t < deliveryWindow then (False, seen)
          else (True, AList.update i now (if deliveriesKept \<le> length seen then evict m now seen else seen))
      | None \<Rightarrow> (True, AList.update i now (if deliveriesKept \<le> length seen then evict m now seen else seen)))"

text \<open>The answer, what is remembered, and the message to process after the answer.\<close>

definition handleWebexWebhook ::
    "'w messenger \<Rightarrow> Request \<Rightarrow> deliveries \<Rightarrow> ('w, answer \<times> deliveries \<times> (WebexSettings \<times> string) option) io" where
  "handleWebexWebhook m r seen =
     (let refuse = (\<lambda>a. State_Monad.return (a, seen, None));
          ignored = Reply 204 [] [] (PlainBody [])
      in if 1048576 < length (rqBody r) then refuse (errorReply 400 ''could not read body'')
         else do { s \<leftarrow> LoadSettings m;
           case s of
             Inl _ \<Rightarrow> refuse (errorReply 500 ''webex is misconfigured'')
           | Inr None \<Rightarrow> refuse (errorReply 403 ''webhook delivery is not enabled (set WEBHOOK_SECRET in the Webex credentials Secret)'')
           | Inr (Some st) \<Rightarrow>
               if stWebhookSecret st = []
               then refuse (errorReply 403 ''webhook delivery is not enabled (set WEBHOOK_SECRET in the Webex credentials Secret)'')
               else if \<not> validWebexSignature (rqBody r) (stWebhookSecret st) (rqHeader r ''X-Spark-Signature'')
               then refuse (errorReply 401 ''invalid webhook signature'')
               else case readPayload (rqBody r) of
                      None \<Rightarrow> refuse (errorReply 400 ''invalid payload'')
                    | Some w \<Rightarrow>
                        if whResource w \<noteq> ''messages'' \<or> whEvent w \<noteq> ''created'' then refuse ignored
                        else if stRoomID st \<noteq> [] \<and> whRoomID w \<noteq> stRoomID st then refuse ignored
                        else do { now \<leftarrow> ask (clockNow (messengerApi m));
                                  case first m (whID w) now seen of
                                    (False, seen') \<Rightarrow> State_Monad.return (ignored, seen', None)
                                  | (True, seen') \<Rightarrow> State_Monad.return (Reply 202 [] [] (PlainBody []), seen', Some (st, whID w)) } })"

definition processWebexMessage :: "'w messenger \<Rightarrow> WebexSettings \<Rightarrow> string \<Rightarrow> ('w, unit) io" where
  "processWebexMessage m st messageID =
     do { r \<leftarrow> ask (webexMe m (stToken st));
          case r of
            Inl _ \<Rightarrow> State_Monad.return ()
          | Inr me \<Rightarrow>
              do { r \<leftarrow> ask (webexMessage m (stToken st) messageID);
                   case r of
                     Inl _ \<Rightarrow> State_Monad.return ()
                   | Inr msg \<Rightarrow> do { _ \<leftarrow> ProcessMessage (botOf m st me) msg; State_Monad.return () } } }"

end
