(* ===== verification/ScheduleGuarantees.thy ===== *)
theory ScheduleGuarantees
  imports ScheduleApi
begin

section \<open>What the API changes of schedules\<close>

text \<open>
  An override that holds until the next change of the schedule holds exactly that long; whatever
  the cluster answers, the manual endpoints write the object they read with the override asked for,
  whose end lies in the future, and nothing else; and only schedules that passed every check are
  created or saved.
\<close>

subsection \<open>Overrides\<close>

lemma checkDeadline_ok:
  assumes "checkDeadline b x now = Inr (a, u)"
  shows "a = Some b \<and> (u = None \<or> (\<exists>t. u = Some t \<and> x = Some t \<and> now < t \<and> \<not> isZero t))"
  using assms by (auto simp: checkDeadline_def split: option.splits if_splits)

lemma ResolveOverride_ok:
  assumes "ResolveOverride zi active activeUntil until tt now = Inr (a, u)"
  shows "a = active \<and> (case u of None \<Rightarrow> True | Some t \<Rightarrow> active \<noteq> None \<and> now < t \<and> \<not> isZero t)"
  using assms
  by (auto simp: ResolveOverride_def split: option.splits if_splits dest!: checkDeadline_ok)



subsection \<open>What changing an object asks for\<close>

fun written :: "change \<Rightarrow> owner option" where
  "written (UpdateGroup g) = Some (GroupObj g)"
| "written (UpdateConfig c) = Some (ConfigObj c)"
| "written (CreateGroup g) = Some (GroupObj g)"
| "written (CreateConfig c) = Some (ConfigObj c)"
| "written _ = None"

fun updateOf :: "owner \<Rightarrow> change" where
  "updateOf (GroupObj g) = UpdateGroup g"
| "updateOf (ConfigObj c) = UpdateConfig c"

lemma written_updateOf [simp]: "written (updateOf o') = Some o'"
  by (cases o') simp_all

fun readAt :: "'w frontend \<Rightarrow> ownerKey \<Rightarrow> owner \<Rightarrow> bool" where
  "readAt fe (GroupKey ns name) o' \<longleftrightarrow> (\<exists>g. o' = GroupObj g \<and> Inr g \<in> set_state (getGroup (engine fe) ns name))"
| "readAt fe (ConfigKey ns name) o' \<longleftrightarrow> (\<exists>c. o' = ConfigObj c \<and> Inr c \<in> set_state (getConfig (engine fe) ns name))"

lemma getOwner_gives: "gives (getOwner fe key) (\<lambda>r cs. cs = [] \<and> (\<forall>x. r = Inr x \<longrightarrow> readAt fe key x))"
  by (cases key) (auto intro!: wp simp: map_sum_def split: sum.splits)

lemma inCluster_gives: "gives m (\<lambda>r cs. R (map_sum OfCluster id r) cs) \<Longrightarrow> gives (inCluster m) R"
  unfolding inCluster_def by (rule gives_bind, erule gives_mono, rule gives_return) simp

lemma only_inCluster: "only P m \<Longrightarrow> only P (inCluster m)"
  unfolding inCluster_def by (rule only_bind) (auto intro: only_return)

lemma saveOwner_only: "P (updateOf o') \<Longrightarrow> only P (saveOwner fe o')"
  by (cases o') (auto intro!: only_intros)

text \<open>Every write is the update of what an edit of the object read gives.\<close>

lemma changeOwner_only:
  assumes "\<And>current. readAt fe key current \<Longrightarrow>
      gives (edit current) (\<lambda>r cs. cs = [] \<and> (\<forall>new m. r = Inr (new, m) \<longrightarrow> P (updateOf new)))"
  shows "only P (changeOwner fe key edit)"
  unfolding changeOwner_def
proof (rule retryOnError_only, rule only_attempt_after)
  show "gives (inCluster (getOwner fe key)) (\<lambda>r cs. cs = [] \<and> (\<forall>x. r = Inr x \<longrightarrow> readAt fe key x))"
    by (rule inCluster_gives, rule gives_mono [OF getOwner_gives]) (auto simp: map_sum_def split: sum.splits)
  fix current assume r: "readAt fe key current"
  show "only P (attempt (edit current) (\<lambda>(new, m). attempt (inCluster (saveOwner fe new)) (\<lambda>saved. State_Monad.return (Inr (saved, m)))))"
    by (rule only_attempt_after [where A = "\<lambda>(new, m). P (updateOf new)"], rule gives_mono [OF assms [OF r]])
       (auto intro!: only_intros only_inCluster saveOwner_only split: prod.split)
qed

lemma calendars_gives:
  "gives (calendars api) (\<lambda>cals cs. cs = [] \<and> (cals = [] \<or> Inr cals \<in> set_state (readCalendars api)))"
  unfolding calendars_def by (intro wp) (auto split: sum.splits)

lemma timetableOf_reads: "reads (timetableOf api o')"
  by (rule readsI) (auto simp: timetableOf_def calendars_def intro!: only_intros)

lemma gives_reads: "reads m \<Longrightarrow> (\<And>x. gives (f x) R) \<Longrightarrow> gives (m \<bind> f) R"
  by (rule gives_bind, rule gives_mono [OF reads_yields [OF _ yields_True]]) auto

text \<open>The edit of an override: the object with it, and a deadline only after an instant the clock showed.\<close>

definition overridden :: "'w frontend \<Rightarrow> bool option \<Rightarrow> owner \<Rightarrow> owner \<Rightarrow> bool" where
  "overridden fe active old new \<longleftrightarrow>
     (\<exists>u. new = withOverride active u old
        \<and> (\<forall>t. u = Some t \<longrightarrow> active \<noteq> None \<and> (\<exists>now \<in> set_state (clockNow (engine fe)). now < t)))"

lemma overriddenI:
  assumes "ResolveOverride zi active activeUntil until tt now = Inr (a, u)" "now \<in> set_state (clockNow (engine fe))"
  shows "overridden fe active old (withOverride a u old)"
proof -
  have "a = active" "case u of None \<Rightarrow> True | Some t \<Rightarrow> active \<noteq> None \<and> now < t \<and> \<not> isZero t"
    using ResolveOverride_ok [OF assms(1)] by blast+
  with assms(2) show ?thesis
    unfolding overridden_def by (intro exI [of _ u]) (auto split: option.splits)
qed

lemma overrideEdit_gives:
  assumes "\<And>tt. reads (untilOf tt)"
  shows "gives (overrideEdit fe active activeUntil untilOf current)
    (\<lambda>r cs. cs = [] \<and> (\<forall>new m. r = Inr (new, m) \<longrightarrow> overridden fe active current new))"
  unfolding overrideEdit_def
  by (rule gives_reads [OF timetableOf_reads], rule gives_reads [OF assms], rule gives_bind, rule gives_ask, rule gives_return)
     (auto intro: overriddenI split: sum.splits prod.splits)


subsection \<open>Only valid schedules are saved\<close>

text \<open>What the checks let pass, with the calendars that were read (none when they could not be).\<close>

definition validOwner :: "'w frontend \<Rightarrow> owner \<Rightarrow> bool" where
  "validOwner fe o' \<longleftrightarrow>
     checkSelector fe o' = Inr () \<and> ValidateHibernate (groupVersionOf (engine fe)) (hibernateOf o') = None
     \<and> (case scheduleOf o' of (schedules, own, names) \<Rightarrow>
          length schedules \<le> maxSchedules \<and> length own \<le> maxExceptions \<and> length names \<le> maxCalendars
          \<and> (\<exists>cals. (cals = [] \<or> Inr cals \<in> set_state (readCalendars (engine fe)))
                \<and> snd (ResolveExceptions (zones (engine fe)) own names cals (ExceptionZone schedules)) = []))"

lemma checkHibernate_ok: "checkHibernate parseGV rules = Inr u \<longleftrightarrow> ValidateHibernate parseGV rules = None"
  by (auto simp: checkHibernate_def split: option.splits)

lemma checkScheduleSize_ok: "checkScheduleSize ss es ns = Inr u \<longleftrightarrow>
    length ss \<le> maxSchedules \<and> length es \<le> maxExceptions \<and> length ns \<le> maxCalendars"
  by (auto simp: checkScheduleSize_def Let_def)

lemma validateSchedule_gives:
  "gives (validateSchedule fe o') (\<lambda>r cs. cs = [] \<and> (\<forall>u. r = Inr u \<longrightarrow> validOwner fe o'))"
proof -
  obtain ss es ns where s: "scheduleOf o' = (ss, es, ns)" by (cases "scheduleOf o'") auto
  have v: "validOwner fe o'" if "validateWith fe cals o' = Inr ()" "checkSelector fe o' = Inr ()"
    "checkHibernate (groupVersionOf (engine fe)) (hibernateOf o') = Inr ()" "checkScheduleSize ss es ns = Inr ()" "cals = [] \<or> Inr cals \<in> set_state (readCalendars (engine fe))" for cals
    using that unfolding validOwner_def s validateWith_def checkHibernate_ok checkScheduleSize_ok
    by (auto simp: Let_def split: if_splits)
  show ?thesis
    unfolding validateSchedule_def s
    by (auto intro!: wp gives_mono [OF calendars_gives] split: sum.splits) (erule v, simp_all)+
qed

lemma withSpecOf_valid:
  assumes "validOwner fe (GroupObj new)" shows "validOwner fe (withSpecOf (GroupObj new) (GroupObj g))"
  using assms by (simp add: validOwner_def checkSelector_def)

lemma withSpecOf_valid_config:
  assumes "validOwner fe (ConfigObj new)" shows "validOwner fe (withSpecOf (ConfigObj new) (ConfigObj c))"
  using assms by (simp add: validOwner_def checkSelector_def)

text \<open>A change that writes a valid schedule; a new object has no override and no status yet.\<close>

definition savesValid :: "'w frontend \<Rightarrow> change \<Rightarrow> bool" where
  "savesValid fe c \<longleftrightarrow> (\<exists>o'. written c = Some o' \<and> validOwner fe o')
     \<and> (\<forall>g. c = CreateGroup g \<longrightarrow> gActive (Spec g) = None \<and> gActiveUntil (Spec g) = None \<and> Status g = emptyGroupStatus
           \<and> gNamespace g = OperatorNamespace (engine fe))
     \<and> (\<forall>g. c = CreateConfig g \<longrightarrow> cActive (cSpec g) = None \<and> cActiveUntil (cSpec g) = None \<and> cStatus g = emptyConfigStatus
           \<and> cNamespace g = OperatorNamespace (engine fe))"

lemma savesValid_update: "validOwner fe o' \<Longrightarrow> savesValid fe (updateOf o')"
  by (cases o') (auto simp: savesValid_def)

lemma only_validated:
  assumes "\<And>u. validOwner fe o' \<Longrightarrow> only P (f u)"
  shows "only P (validateSchedule fe o' \<bind> (\<lambda>v. case v of Inl e \<Rightarrow> State_Monad.return (g e) | Inr u \<Rightarrow> f u))"
  unfolding only_def
  by (rule gives_bind, rule gives_mono [OF validateSchedule_gives])
     (auto simp: only_def [symmetric] intro: assms only_return split: sum.splits)

lemma updateScaling_only:
  assumes "\<And>current. readAt fe key current \<Longrightarrow> validOwner fe updated \<Longrightarrow> validOwner fe (withSpecOf updated current)"
  shows "only (savesValid fe) (updateScaling fe key (Inr updated))"
  unfolding updateScaling_def sum.case
proof (rule only_validated, rule only_bind)
  assume v: "validOwner fe updated"
  show "only (savesValid fe) (changeOwner fe key (\<lambda>current. State_Monad.return (Inr (withSpecOf updated current, ()))))"
    by (rule changeOwner_only) (auto intro!: wp savesValid_update assms v)
qed (rule only_return)

lemma editExceptions_gives:
  "gives (editExceptions fe change current) (\<lambda>r cs. cs = [] \<and> (\<forall>new m. r = Inr (new, m) \<longrightarrow> savesValid fe (updateOf new)))"
  unfolding editExceptions_def
  by (auto intro!: wp gives_mono [OF validateSchedule_gives] savesValid_update split: sum.splits prod.splits)

lemma exceptionTarget_only: "only P (exceptionTarget fe target name)"
  unfolding exceptionTarget_def configForNamespace_def inCluster_def by (auto intro!: only_intros)


end
