(* ===== verification/ChatGuarantees.thy ===== *)
theory ChatGuarantees
  imports ChatBot ScheduleGuarantees DurationText
begin

section \<open>What the chat bot changes\<close>

text \<open>
  Anyone may write to a bot, so only the membership of the configured space authorizes changes. Whatever
  the cluster answers, a message from elsewhere changes nothing, and one from the space changes the
  object it names in the way its words say; all else is an answer in the thread of the message. The
  deadlines the bot sets are those of the API, where the API accepts them.
\<close>

text \<open>What a command makes of the object it read.\<close>

definition commanded :: "'w Bot \<Rightarrow> command \<Rightarrow> owner \<Rightarrow> owner \<Rightarrow> bool" where
  "commanded b cmd old new \<longleftrightarrow>
     (\<exists>key. readAt (botFrontend b) key old) \<and>
     (if cmdVerb cmd = VerbScale
      then cmdAction cmd \<in> {''up'', ''down''} \<and> (\<exists>u. new = withOverride (Some (cmdAction cmd = ''up'')) u old)
      else cmdVerb cmd = VerbResume \<and> new = withOverride None None old)"

definition inThread :: "'w Bot \<Rightarrow> Message \<Rightarrow> change \<Rightarrow> bool" where
  "inThread b msg c \<longleftrightarrow> (\<exists>reply. c = SendMessage (msRoom msg) (threadRoot msg) (prefixText b @ reply))"

definition chatChange :: "'w Bot \<Rightarrow> Message \<Rightarrow> change \<Rightarrow> bool" where
  "chatChange b msg c \<longleftrightarrow>
     SpaceID b \<noteq> [] \<and> msRoom msg = SpaceID b \<and> \<not> isOwnMessage b msg
     \<and> (\<exists>cmd old new. parse b msg = Some (cmd, True) \<and> commanded b cmd old new \<and> c = updateOf new)"

lemma findGroup_only: "only P (findGroup b cmd)"
  unfolding findGroup_def by (auto intro!: only_intros)

lemma failing_only: "only P m \<Longrightarrow> only P (failing m)"
  unfolding failing_def by (rule only_bind) (auto intro: only_return)

lemma findConfig_only: "only P (findConfig b cmd)"
  unfolding findConfig_def by (auto intro!: only_intros failing_only split: sum.split)

lemma findTarget_only: "only P (findTarget b cmd usage)"
  unfolding findTarget_def by (auto intro!: only_intros findGroup_only findConfig_only)

lemma overview_only: "only P (overview b)"
  unfolding overview_def by (auto intro!: only_intros failing_only)

lemma status_only: "only P (status b cmd)"
  unfolding status_def by (auto intro!: only_intros findGroup_only findConfig_only overview_only)

lemma changing_only: "only P m \<Longrightarrow> only P (changing m)"
  unfolding changing_def by (rule only_bind) (auto intro: only_return)

lemma timetableOf_only: "only P (timetableOf api o')"
  by (rule reads_only [OF timetableOf_reads])

lemma holdEdit_gives:
  "gives (holdEdit b active until old) (\<lambda>r cs. cs = [] \<and> (\<forall>new m. r = Inr (new, m) \<longrightarrow> (\<exists>u. new = withOverride (Some active) u old)))"
  unfolding holdEdit_def
  by (rule gives_reads [OF timetableOf_reads], rule gives_bind, rule gives_ask, rule gives_return) (auto split: sum.splits)

lemma scale_only:
  assumes "\<And>old u. \<exists>key. readAt (botFrontend b) key old \<Longrightarrow> cmdAction cmd \<in> {''up'', ''down''} \<Longrightarrow>
      P (updateOf (withOverride (Some (cmdAction cmd = ''up'')) u old))"
  shows "only P (scale b cmd)"
proof (cases "cmdAction cmd \<in> {''up'', ''down''}")
  case True
  have "only P (changeOwner (botFrontend b) key (holdEdit b (cmdAction cmd = ''up'') until))" for key until
    by (rule changeOwner_only, rule gives_mono [OF holdEdit_gives]) (use assms True in blast)
  then show ?thesis
    unfolding scale_def scaleTarget_def untilOrNext_def
    by (auto intro!: only_intros findTarget_only timetableOf_only changing_only split: option.split prod.split)
next
  case False
  then show ?thesis by (simp add: scale_def only_return)
qed

lemma resume_only:
  assumes "\<And>old. \<exists>key. readAt (botFrontend b) key old \<Longrightarrow> P (updateOf (withOverride None None old))"
  shows "only P (resume b cmd)"
proof -
  have "only P (changeOwner (botFrontend b) key (\<lambda>current. State_Monad.return (Inr (withOverride None None current, ()))))" for key
    by (rule changeOwner_only) (auto intro!: wp assms)
  then show ?thesis
    unfolding resume_def by (auto intro!: only_intros findTarget_only changing_only)
qed

lemma refuseChange_empty: "refuseChange b msg = [] \<longleftrightarrow> SpaceID b \<noteq> [] \<and> msRoom msg = SpaceID b"
  by (simp add: refuseChange_def)

lemma execute_only:
  assumes "\<And>old new. SpaceID b \<noteq> [] \<Longrightarrow> msRoom msg = SpaceID b \<Longrightarrow> commanded b cmd old new \<Longrightarrow> P (updateOf new)"
  shows "only P (execute b msg cmd)"
proof (cases "refuseChange b msg = []")
  case True
  then have s: "SpaceID b \<noteq> []" "msRoom msg = SpaceID b" by (simp_all add: refuseChange_empty)
  show ?thesis
    by (auto simp: execute_def True commanded_def intro!: only_return overview_only status_only scale_only resume_only
          assms [OF s] split: verb.split)
next
  case False
  then show ?thesis
    by (auto simp: execute_def intro!: only_return overview_only status_only split: verb.split)
qed

text \<open>Whatever the cluster answers, the chat bot asks for nothing but answers in the thread of the message and, only
  for a message of another person in the configured space, the update of an object it read with the
  override that the command names, or without one.\<close>

lemma ProcessMessage_only:
  "only (\<lambda>c. inThread b msg c \<or> chatChange b msg c) (ProcessMessage b msg)"
proof (cases "isOwnMessage b msg")
  case True
  then show ?thesis by (simp add: ProcessMessage_def only_return)
next
  case mine: False
  show ?thesis
  proof (cases "parse b msg")
    case None
    with mine show ?thesis by (simp add: ProcessMessage_def only_return)
  next
    case (Some p)
    obtain cmd ok where p: "p = (cmd, ok)" by (cases p) auto
    have "only (\<lambda>c. inThread b msg c \<or> chatChange b msg c) (execute b msg cmd)" if "ok"
      by (rule execute_only) (use that mine Some p in \<open>auto simp: chatChange_def\<close>)
    with mine Some p show ?thesis
      by (auto simp: ProcessMessage_def send_def inThread_def Let_def intro!: only_intros)
  qed
qed

subsection \<open>Deadlines\<close>

text \<open>A deadline the API gives for a request in these words is the one the bot sets.\<close>

lemma resolveUntil_as_ResolveOverride:
  assumes "ResolveOverride zi (Some a) None until tt now = Inr (Some a, Some t)" "until \<noteq> holdForever"
  shows "resolveUntil zi until tt now = Inr (Some t)"
proof -
  have "x = t" if "checkDeadline a (Some x) now = Inr (Some a, Some t)" for x
    using checkDeadline_ok [OF that] by auto
  then show ?thesis using assms
    by (auto simp: ResolveOverride_def resolveUntil_def checkDeadline_def [of a None] split: if_splits option.splits)
qed

text \<open>A duration the bot has read is one it can set: it keeps its text, and reads it again for each try.\<close>

lemma hold_as_asked:
  assumes words: "ParseDuration (trimSpace (trimPrefix (toLower (join '' '' tokens)) ''for '')) = Some d" "0 < d"
  shows "parseUntil tokens = durationText d"
    and "resolveUntil zi (parseUntil tokens) tt now = Inr (Some (truncateTo second (now + d)))"
    and "cutPrefix (parseUntil tokens) invalidMark = None"
proof -
  have d: "- (2 ^ 63) \<le> d" "d < 2 ^ 63" using ParseDuration_range [OF words(1)] by simp_all
  obtain c cs where "trimSpace (trimPrefix (toLower (join '' '' tokens)) ''for '') = c # cs"
      "c \<in> {CHR ''-'', CHR ''+'', CHR ''.''} \<or> isDigit c"
    using ParseDuration_start [OF words(1)] by blast
  then show p: "parseUntil tokens = durationText d"
    using words by (auto simp: parseUntil_def Let_def hasPrefix_def isDigit_def)
  obtain e es where e: "durationText d = e # es" "e \<in> {CHR ''-'', CHR ''+'', CHR ''.''} \<or> isDigit e"
    using ParseDuration_start [OF ParseDuration_text [OF d]] by blast
  have "e \<noteq> CHR ''f''" "e \<noteq> CHR ''n''" "e \<noteq> CHR ''i''" using e(2) by (auto simp: isDigit_def)
  then show "resolveUntil zi (parseUntil tokens) tt now = Inr (Some (truncateTo second (now + d)))"
    and "cutPrefix (parseUntil tokens) invalidMark = None"
    unfolding p using ParseDuration_text [OF d] by (auto simp: resolveUntil_def e(1) cutPrefix_def hasPrefix_def)
qed

text \<open>Where they differ: the API refuses a deadline that has passed, the bot sets it and answers that it
  holds. A hold of less than a second can end before it starts.\<close>

lemma short_hold_has_passed:
  "resolveUntil zi ''300ms'' tt (second + 100) = Inr (Some second)"
proof -
  have "ParseDuration ''300ms'' = Some 300000000"
    by (simp add: ParseDuration_def durationItems.simps durationItem_def unitOf_def isDigit_def digitVal_def)
  then show ?thesis by (simp add: resolveUntil_def truncateTo_def zeroTime_def)
qed

text \<open>A bot whose display name is blank cannot read any message: the code takes the first word of the name.\<close>

lemma blank_name_panics:
  assumes "botMe b = Some me" "perName me = '' ''" "\<not> isOwnMessage b msg"
  shows "ProcessMessage b msg = State_Monad.return (Inl (Panic ''index out of range''))"
  using assms by (simp add: ProcessMessage_def parse_def stripMention_def mentionNames_def GoBase.fields_def trimSpace_def isSpace_def)

end
