(* ===== verification/DeliveryGuarantees.thy ===== *)
theory DeliveryGuarantees
  imports Delivery ChatGuarantees
begin

section \<open>What reaches the chat bot\<close>

text \<open>
  A message is handled once, whichever way it comes: the poller keeps a watermark for each room, which
  only rises until the token changes, and the webhook the deliveries of the last hour. What a webhook
  brings about needs its signature. Nothing is assumed of Webex or the cluster.
\<close>

subsection \<open>Polling\<close>

definition answersFor :: "'w Bot \<Rightarrow> Message \<Rightarrow> change \<Rightarrow> bool" where
  "answersFor b msg c \<longleftrightarrow> inThread b msg c \<or> chatChange b msg c"

text \<open>A step of the poller that hands over these messages: each newer than what was seen of its room, and
  seen afterwards; nothing is forgotten.\<close>

definition advances :: "Poller \<Rightarrow> (string \<times> Message) list \<Rightarrow> Poller \<Rightarrow> bool" where
  "advances p handed q \<longleftrightarrow>
     plToken q = plToken p
     \<and> (\<forall>room t. plLastSeen p room = Some t \<longrightarrow> (\<exists>t'. plLastSeen q room = Some t' \<and> t \<le> t'))
     \<and> (\<forall>(room, msg) \<in> set handed. (\<forall>t. plLastSeen p room = Some t \<longrightarrow> t < msCreated msg)
          \<and> (\<exists>t. plLastSeen q room = Some t \<and> msCreated msg \<le> t))"

lemma advances_same: "plToken q = plToken p \<Longrightarrow> plLastSeen q = plLastSeen p \<Longrightarrow> advances p [] q"
  by (simp add: advances_def)

lemma advances_trans:
  assumes "advances p hs q" "advances q gs r"
  shows "advances p (hs @ gs) r"
proof -
  have q: "\<exists>t'. plLastSeen q room = Some t' \<and> t \<le> t'" if "plLastSeen p room = Some t" for room t
    using assms(1) that by (simp add: advances_def)
  have r: "\<exists>t'. plLastSeen r room = Some t' \<and> t \<le> t'" if "plLastSeen q room = Some t" for room t
    using assms(2) that by (simp add: advances_def)
  have hs: "(\<forall>t. plLastSeen p room = Some t \<longrightarrow> t < msCreated msg) \<and> (\<exists>t. plLastSeen q room = Some t \<and> msCreated msg \<le> t)"
    if "(room, msg) \<in> set hs" for room msg using assms(1) that by (auto simp: advances_def)
  have gs: "(\<forall>t. plLastSeen q room = Some t \<longrightarrow> t < msCreated msg) \<and> (\<exists>t. plLastSeen r room = Some t \<and> msCreated msg \<le> t)"
    if "(room, msg) \<in> set gs" for room msg using assms(2) that by (auto simp: advances_def)
  have "plToken r = plToken p" using assms by (simp add: advances_def)
  moreover have "\<exists>t'. plLastSeen r room = Some t' \<and> t \<le> t'" if "plLastSeen p room = Some t" for room t
    using q [OF that] r by (meson order_trans)
  moreover have "\<forall>(room, msg) \<in> set (hs @ gs). (\<forall>t. plLastSeen p room = Some t \<longrightarrow> t < msCreated msg)
      \<and> (\<exists>t. plLastSeen r room = Some t \<and> msCreated msg \<le> t)"
  proof (intro ballI, clarify)
    fix room msg assume "(room, msg) \<in> set (hs @ gs)"
    then consider "(room, msg) \<in> set hs" | "(room, msg) \<in> set gs" by auto
    then show "(\<forall>t. plLastSeen p room = Some t \<longrightarrow> t < msCreated msg) \<and> (\<exists>t. plLastSeen r room = Some t \<and> msCreated msg \<le> t)"
    proof cases
      case 1
      with hs [OF 1] r show ?thesis by (meson order_trans)
    next
      case 2
      with gs [OF 2] q show ?thesis by (meson order_le_less_trans)
    qed
  qed
  ultimately show ?thesis by (simp add: advances_def)
qed

lemma withRoomType_created [simp]: "msCreated (withRoomType room msg) = msCreated msg"
  by (simp add: withRoomType_def)

lemma freshMessages_first: "plLastSeen p room = None \<Longrightarrow> gives (freshMessages m room msgs p) (\<lambda>(q, out) cs. cs = [] \<and> out = [])"
  by (auto simp: freshMessages_def Let_def intro!: wp)

lemma freshMessages_gives:
  "gives (freshMessages m (rmID room) msgs p) (\<lambda>(q, out) cs. cs = [] \<and> advances p (map (Pair (rmID room)) (map (withRoomType room) out)) q)"
proof (cases "plLastSeen p (rmID room)")
  case None
  then show ?thesis by (auto simp: freshMessages_def Let_def advances_def intro!: wp)
next
  case (Some w)
  define out where "out = filter (\<lambda>msg. w < msCreated msg) (sort_key msCreated msgs)"
  have s: "sorted (map msCreated out)" unfolding out_def by (rule sorted_filter) simp
  have new: "w < msCreated msg" if "msg \<in> set out" for msg using that by (simp add: out_def)
  have le: "msCreated msg \<le> msCreated (last out)" if "msg \<in> set out" for msg
    using s that by (induction out rule: rev_induct) (auto simp: sorted_append)
  have "advances p (map (Pair (rmID room)) (map (withRoomType room) out))
      (if out = [] then p else p\<lparr>plLastSeen := (plLastSeen p)(rmID room \<mapsto> msCreated (last out))\<rparr>)"
  proof (cases "out = []")
    case False
    with new [of "last out"] have "w \<le> msCreated (last out)" by simp
    with False Some new le show ?thesis by (auto simp: advances_def)
  qed (simp add: advances_same)
  with Some show ?thesis by (auto simp: freshMessages_def Let_def out_def [symmetric] intro!: wp)
qed

lemma processEach_only: "only (\<lambda>c. \<exists>msg \<in> set msgs. answersFor b msg c) (processEach b msgs)"
proof (induction msgs)
  case (Cons msg msgs)
  have "only (\<lambda>c. answersFor b msg c) (ProcessMessage b msg)"
    unfolding answersFor_def by (rule ProcessMessage_only)
  then have "only (\<lambda>c. \<exists>m \<in> set (msg # msgs). answersFor b m c) (ProcessMessage b msg)"
    by (rule only_mono) auto
  moreover have "only (\<lambda>c. \<exists>m \<in> set (msg # msgs). answersFor b m c) (processEach b msgs)"
    by (rule only_mono [OF Cons.IH]) auto
  ultimately show ?case by (auto intro!: only_bind)
qed (simp add: only_return)

definition pollStep :: "'w Bot \<Rightarrow> Poller \<Rightarrow> Poller \<times> (string \<times> Message) list \<Rightarrow> change list \<Rightarrow> bool" where
  "pollStep b p r cs \<longleftrightarrow>
     (case r of (q, handed) \<Rightarrow> advances p handed q \<and> (\<forall>c \<in> set cs. \<exists>(_, msg) \<in> set handed. answersFor b msg c))"

lemma pollRoom_gives:
  "gives (do { (q, out) \<leftarrow> freshMessages m (rmID room) msgs p;
               let out = map (withRoomType room) out;
               _ \<leftarrow> processEach b out;
               State_Monad.return (q, map (Pair (rmID room)) out) }) (pollStep b p)"
  by (rule gives_bind, rule gives_mono [OF freshMessages_gives])
    (fastforce simp: pollStep_def Let_def intro!: gives_bind gives_return
      intro: gives_mono [OF processEach_only [unfolded only_def]])

lemma pollRooms_gives: "gives (pollRooms m token b rooms p) (pollStep b p)"
proof (induction rooms arbitrary: p)
  case Nil
  show ?case by (auto simp: pollStep_def advances_same intro!: wp)
next
  case (Cons room rooms)
  have one: "gives (case r of Inl e \<Rightarrow> State_Monad.return (logOnce e p, [])
      | Inr msgs \<Rightarrow>
          do { (q, out) \<leftarrow> freshMessages m (rmID room) msgs p;
               let out = map (withRoomType room) out;
               _ \<leftarrow> processEach b out;
               State_Monad.return (q, map (Pair (rmID room)) out) }) (pollStep b p)" for r
  proof (cases r)
    case (Inl e)
    then show ?thesis by (auto simp: pollStep_def logOnce_def advances_same intro!: wp)
  next
    case (Inr msgs)
    then show ?thesis by (simp only: sum.case pollRoom_gives)
  qed
  have both: "pollStep b p (r, hs @ gs) (cs @ ds)" if "pollStep b p (q, hs) cs" "pollStep b q (r, gs) ds" for q r hs gs cs ds
    using that advances_trans unfolding pollStep_def by fastforce
  have rest: "gives (case x of (p1, handed) \<Rightarrow>
      do { (p2, more) \<leftarrow> pollRooms m token b rooms p1; State_Monad.return (p2, handed @ more) }) (\<lambda>y ds. pollStep b p y (cs @ ds))"
    if "pollStep b p x cs" for x cs
    by (cases x) (use that both in \<open>auto intro!: gives_bind gives_mono [OF Cons.IH] gives_return\<close>)
  show ?case
    unfolding pollRooms.simps
    by (rule gives_bind, rule gives_ask, rule gives_bind, rule gives_mono [OF one]) (simp add: rest)
qed

text \<open>What a poll hands over, and a poll: one that keeps the token only advances, one with another starts over.\<close>

definition handsOver :: "'w messenger \<Rightarrow> Poller \<Rightarrow> Poller \<times> (string \<times> Message) list \<Rightarrow> change list \<Rightarrow> bool" where
  "handsOver m p r cs \<longleftrightarrow>
     advances p (snd r) (fst r)
     \<and> (\<forall>c \<in> set cs. \<exists>st me. stWebhookSecret st = [] \<and> (\<exists>(_, msg) \<in> set (snd r). answersFor (botOf m st me) msg c))"

definition polled :: "'w messenger \<Rightarrow> Poller \<Rightarrow> Poller \<times> (string \<times> Message) list \<Rightarrow> change list \<Rightarrow> bool" where
  "polled m p r cs \<longleftrightarrow> handsOver m (resetPoller (plToken (fst r)) p) r cs"

lemma resetPoller_token [simp]: "plToken (resetPoller token p) = token"
  by (simp add: resetPoller_def)

lemma resetPoller_same [simp]: "resetPoller (plToken p) p = p"
  by (simp add: resetPoller_def)

lemma handsOver_nothing: "plToken q = plToken p \<Longrightarrow> plLastSeen q = plLastSeen p \<Longrightarrow> handsOver m p (q, []) []"
  by (simp add: handsOver_def advances_same)

lemma identity_keeps: "gives (identity m token p) (\<lambda>(r, q) cs. cs = [] \<and> plToken q = plToken p \<and> plLastSeen q = plLastSeen p)"
  by (auto simp: identity_def intro!: wp split: option.split sum.split)

lemma roomsToPoll_keeps:
  "gives (roomsToPoll m token i p) (\<lambda>(r, q) cs. cs = [] \<and> plToken q = plToken p \<and> plLastSeen q = plLastSeen p)"
proof -
  let ?R = "\<lambda>(r :: string + Room list option, q) (cs :: change list). cs = [] \<and> plToken q = plToken p \<and> plLastSeen q = plLastSeen p"
  have kept: "gives (case r of Inl e \<Rightarrow> State_Monad.return (Inl e, p)
      | Inr rooms \<Rightarrow>
          do { stamp \<leftarrow> ask (clockNow (messengerApi m));
               State_Monad.return (Inr rooms, p\<lparr>plRooms := rooms, plRoomsAt := stamp\<rparr>) }) ?R" for r
    by (cases r) (auto intro!: gives_bind gives_ask gives_return)
  show ?thesis
    unfolding roomsToPoll_def
    by (rule gives_bind, rule gives_ask, rule gives_if, simp add: gives_return, rule gives_bind, rule gives_if)
      (auto intro!: gives_bind gives_ask gives_return kept)
qed

lemma handsOver_rooms:
  assumes "stWebhookSecret st = []" "plToken p2 = plToken p" "plLastSeen p2 = plLastSeen p" "pollStep (botOf m st me) p2 (q, hs) cs"
  shows "handsOver m p (q\<lparr>plLastError := []\<rparr>, hs) cs"
  using assms by (fastforce simp: handsOver_def pollStep_def advances_def)

lemma pollWith_gives:
  assumes "stWebhookSecret st = []"
  shows "gives (pollWith m st p) (handsOver m p)"
proof -
  have rooms: "gives (case r of Inl e \<Rightarrow> State_Monad.return (logOnce e p2, [])
      | Inr rooms \<Rightarrow>
          do { (p3, handed) \<leftarrow> pollRooms m (stToken st) (botOf m st me) (case rooms of None \<Rightarrow> [] | Some rs \<Rightarrow> rs) p2;
               State_Monad.return (p3\<lparr>plLastError := []\<rparr>, handed) }) (handsOver m p)"
    if "plToken p2 = plToken p" "plLastSeen p2 = plLastSeen p" for r p2 me
  proof (cases r)
    case (Inl e)
    with that show ?thesis by (auto simp: logOnce_def intro!: gives_return handsOver_nothing)
  next
    case (Inr rooms)
    then show ?thesis
      by (auto intro!: gives_bind gives_mono [OF pollRooms_gives] gives_return handsOver_rooms [OF assms that])
  qed
  show ?thesis
    unfolding pollWith_def
    by (rule gives_bind, rule gives_mono [OF identity_keeps])
      (auto simp: logOnce_def rooms intro!: gives_return gives_bind gives_mono [OF roomsToPoll_keeps] handsOver_nothing split: sum.split)
qed

lemma LoadSettings_reads: "reads (LoadSettings m)"
  by (rule readsI) (auto simp: LoadSettings_def readWebex_def webexSecret_def Let_def intro!: only_intros split: option.split)

lemma Poll_gives: "gives (Poll m p) (polled m p)"
proof -
  have quiet: "gives (State_Monad.return (q, [])) (polled m p)" if "q = logOnce e p \<or> q = resetPoller [] p" for q e
    using that by (auto simp: polled_def logOnce_def intro!: gives_return handsOver_nothing)
  have work: "gives (pollWith m st (resetPoller (stToken st) p)) (polled m p)" if "stWebhookSecret st = []" for st
    by (rule gives_mono [OF pollWith_gives [OF that]]) (auto simp: polled_def handsOver_def advances_def)
  show ?thesis
    unfolding Poll_def
    by (rule gives_reads [OF LoadSettings_reads]) (auto intro: quiet work split: sum.split option.split)
qed

text \<open>The rooms are kept for five minutes whatever space is configured by then: after a change of the space
  the old one is still polled, and the new one not yet.\<close>

lemma rooms_outlive_the_space:
  assumes "plRooms p \<noteq> None" "\<And>now. now \<in> set_state (clockNow (messengerApi m)) \<Longrightarrow> now - plRoomsAt p < 5 * minute"
  shows "gives (roomsToPoll m token roomID p) (\<lambda>r cs. cs = [] \<and> r = (Inr (plRooms p), p))"
  unfolding roomsToPoll_def using assms by (intro gives_bind gives_ask) (simp add: gives_return)

text \<open>Polls of one token, with whatever happens in between.\<close>

inductive polls :: "'w messenger \<Rightarrow> Poller \<Rightarrow> Poller \<Rightarrow> bool" for m where
  start: "polls m p p"
| round: "polls m p q \<Longrightarrow> run_state (Poll m q) w = ((q', handed), w') \<Longrightarrow> plToken q' = plToken q \<Longrightarrow> polls m p q'"

lemma Poll_advances:
  assumes "run_state (Poll m p) w = ((q, handed), w')"
  shows "advances (resetPoller (plToken q) p) handed q"
  by (rule givesD [OF Poll_gives assms]) (simp add: polled_def handsOver_def)

lemma polls_advance: "polls m p q \<Longrightarrow> \<exists>handed. advances p handed q"
proof (induction rule: polls.induct)
  case (start p)
  then show ?case using advances_same by blast
next
  case (round p q w q' handed w')
  with Poll_advances [OF round(2)] show ?case by (auto simp: resetPoller_def dest: advances_trans)
qed

text \<open>C30. While the token stays, a poll hands the bot only messages of a room that are newer than all that
  earlier polls have handed over of it, whatever Webex lists: no message is answered twice.\<close>

theorem polls_never_repeat:
  assumes "run_state (Poll m p) w = ((p1, handed), w')" "polls m p1 p2"
    "run_state (Poll m p2) v = ((p3, later), v')" "plToken p3 = plToken p2"
    "(room, a) \<in> set handed" "(room, b) \<in> set later"
  shows "msCreated a < msCreated b"
proof -
  have "\<exists>t. plLastSeen p1 room = Some t \<and> msCreated a \<le> t"
    using Poll_advances [OF assms(1)] assms(5) by (auto simp: advances_def)
  moreover obtain between where "advances p1 between p2" using polls_advance [OF assms(2)] by blast
  ultimately obtain t where t: "plLastSeen p2 room = Some t" "msCreated a \<le> t"
    by (auto simp: advances_def) (meson order_trans)
  have "advances p2 later p3" using Poll_advances [OF assms(3)] assms(4) by (simp add: resetPoller_def)
  with t assms(6) show ?thesis by (auto simp: advances_def)
qed

subsection \<open>The webhook\<close>

text \<open>What a request to the webhook brings about: its answer, and the message processed after it.\<close>

definition serveWebhook ::
    "'w messenger \<Rightarrow> Request \<Rightarrow> deliveries \<Rightarrow> ('w, answer \<times> deliveries \<times> (WebexSettings \<times> string) option) io" where
  "serveWebhook m r seen =
     do { (a, seen', task) \<leftarrow> handleWebexWebhook m r seen;
          _ \<leftarrow> (case task of None \<Rightarrow> State_Monad.return () | Some (st, i) \<Rightarrow> processWebexMessage m st i);
          State_Monad.return (a, seen', task) }"

definition signedTask :: "'w messenger \<Rightarrow> Request \<Rightarrow> deliveries \<Rightarrow> deliveries \<Rightarrow> WebexSettings \<Rightarrow> string \<Rightarrow> bool" where
  "signedTask m r seen seen' st i \<longleftrightarrow>
     stWebhookSecret st \<noteq> [] \<and> rqHeader r ''X-Spark-Signature'' = encodeHex (hmacSHA1 (stWebhookSecret st) (rqBody r))
     \<and> (\<exists>w. readPayload (rqBody r) = Some w \<and> whID w = i \<and> (stRoomID st = [] \<or> whRoomID w = stRoomID st))
     \<and> (\<exists>now \<in> set_state (clockNow (messengerApi m)). first m i now seen = (True, seen'))"

lemma handleWebexWebhook_gives:
  "gives (handleWebexWebhook m r seen)
     (\<lambda>(a, seen', task) cs. cs = [] \<and> (case task of None \<Rightarrow> True | Some (st, i) \<Rightarrow> signedTask m r seen seen' st i))"
  unfolding handleWebexWebhook_def Let_def
  by (rule gives_if, simp add: gives_return, rule gives_reads [OF LoadSettings_reads])
    (auto simp: signedTask_def validWebexSignature_def intro!: gives_return gives_bind gives_ask bexI split: sum.split option.split prod.split bool.split)

lemma processWebexMessage_only:
  "only (\<lambda>c. \<exists>me msg. Inr msg \<in> set_state (webexMessage m (stToken st) i) \<and> answersFor (botOf m st me) msg c) (processWebexMessage m st i)"
proof -
  let ?P = "\<lambda>c. \<exists>me msg. Inr msg \<in> set_state (webexMessage m (stToken st) i) \<and> answersFor (botOf m st me) msg c"
  have one: "only ?P (ProcessMessage (botOf m st me) msg)" if "Inr msg \<in> set_state (webexMessage m (stToken st) i)" for me msg
    by (rule only_mono [OF ProcessMessage_only]) (use that in \<open>auto simp: answersFor_def\<close>)
  have "gives (do { _ \<leftarrow> ProcessMessage (botOf m st me) msg; State_Monad.return () }) (\<lambda>_ cs. \<forall>c \<in> set cs. ?P c)"
    if "Inr msg \<in> set_state (webexMessage m (stToken st) i)" for me msg
    using only_bind [OF one [OF that] only_return] unfolding only_def .
  then have answered: "gives (case r of Inl _ \<Rightarrow> State_Monad.return ()
      | Inr msg \<Rightarrow> do { _ \<leftarrow> ProcessMessage (botOf m st me) msg; State_Monad.return () }) (\<lambda>_ cs. \<forall>c \<in> set cs. ?P c)"
    if "r \<in> set_state (webexMessage m (stToken st) i)" for r me
    using that by (cases r) (simp_all add: gives_return)
  have fetched: "gives (case r of Inl _ \<Rightarrow> State_Monad.return ()
      | Inr me \<Rightarrow>
          do { r \<leftarrow> ask (webexMessage m (stToken st) i);
               case r of
                 Inl _ \<Rightarrow> State_Monad.return ()
               | Inr msg \<Rightarrow> do { _ \<leftarrow> ProcessMessage (botOf m st me) msg; State_Monad.return () } }) (\<lambda>_ cs. \<forall>c \<in> set cs. ?P c)" for r
    by (cases r) (simp_all add: gives_return, rule gives_bind, rule gives_ask, simp add: answered)
  show ?thesis
    unfolding processWebexMessage_def only_def
    by (rule gives_bind, rule gives_ask) (simp add: fetched)
qed


subsection \<open>The deliveries of the last hour\<close>

text \<open>The deliveries accepted, of those that come with these instants.\<close>

fun deliver :: "'w messenger \<Rightarrow> deliveries \<Rightarrow> (string \<times> time) list \<Rightarrow> (string \<times> time) list" where
  "deliver m seen [] = []"
| "deliver m seen ((i, now) # rs) =
     (case first m i now seen of (new, seen') \<Rightarrow> (if new then [(i, now)] else []) @ deliver m seen' rs)"

lemma length_update_le: "length (AList.update k v al) \<le> Suc (length al)"
  by (induction al) auto

definition deliveredRecently :: "deliveries \<Rightarrow> string \<Rightarrow> time \<Rightarrow> bool" where
  "deliveredRecently seen i now \<longleftrightarrow> (case map_of seen i of None \<Rightarrow> False | Some t \<Rightarrow> now - t < deliveryWindow)"

lemma first_below_limit:
  assumes "length seen < deliveriesKept"
  shows "first m i now seen =
    (if deliveredRecently seen i now then (False, seen) else (True, AList.update i now seen))"
  using assms by (auto simp: first_def deliveredRecently_def split: option.split)

lemma deliver_step:
  assumes "length seen < deliveriesKept"
  shows "deliver m seen ((j, now) # rs) =
    (if deliveredRecently seen j now then deliver m seen rs
     else (j, now) # deliver m (AList.update j now seen) rs)"
  using assms by (simp add: first_below_limit)

lemma deliver_later:
  assumes "length seen + length rs \<le> deliveriesKept" "map_of seen i = Some s" "(i, t) \<in> set (deliver m seen rs)"
  shows "s + deliveryWindow \<le> t"
  using assms
proof (induction rs arbitrary: seen s)
  case (Cons r rs)
  obtain j now where r: "r = (j, now)" by (cases r)
  have len: "length seen < deliveriesKept" using Cons.prems(1) by simp
  have w: "0 \<le> deliveryWindow" by (simp add: deliveryWindow_def)
  have len': "length (AList.update j now seen) + length rs \<le> deliveriesKept"
    using length_update_le [of j now seen] Cons.prems(1) by simp
  consider "deliveredRecently seen j now"
    | "\<not> deliveredRecently seen j now" "j = i"
    | "\<not> deliveredRecently seen j now" "j \<noteq> i" by blast
  then show ?case
  proof cases
    case 1
    then have "deliver m seen (r # rs) = deliver m seen rs" using len by (simp add: r deliver_step del: deliver.simps)
    with Cons.IH [of seen s] Cons.prems show ?thesis by simp
  next
    case 2
    then have s: "s + deliveryWindow \<le> now" using Cons.prems(2) by (simp add: deliveredRecently_def)
    have "now + deliveryWindow \<le> t" if "(i, t) \<in> set (deliver m (AList.update j now seen) rs)"
      by (rule Cons.IH [OF len' _ that]) (simp add: 2 update_conv')
    with 2(1) Cons.prems(3) len s w show ?thesis by (auto simp: r deliver_step simp del: deliver.simps)
  next
    case 3
    have "s + deliveryWindow \<le> t" if "(i, t) \<in> set (deliver m (AList.update j now seen) rs)"
      by (rule Cons.IH [OF len' _ that]) (use 3 Cons.prems(2) in \<open>simp add: update_conv'\<close>)
    with 3 Cons.prems(3) len show ?thesis by (auto simp: r deliver_step simp del: deliver.simps)
  qed
qed simp

text \<open>C31. While no more messages come than the webhook remembers, it accepts none twice within an hour, whatever
  it remembered before and in whatever order the clock shows the instants.\<close>

theorem messages_answered_once:
  assumes "length seen + length rs \<le> deliveriesKept" "deliver m seen rs = xs @ (i, s) # ys @ (i, t) # zs"
  shows "s + deliveryWindow \<le> t"
  using assms
proof (induction rs arbitrary: seen xs)
  case (Cons r rs)
  obtain j now where r: "r = (j, now)" by (cases r)
  have len: "length seen < deliveriesKept" using Cons.prems(1) by simp
  have len': "length (AList.update j now seen) + length rs \<le> deliveriesKept"
    using length_update_le [of j now seen] Cons.prems(1) by simp
  show ?case
  proof (cases "deliveredRecently seen j now")
    case True
    then have "deliver m seen (r # rs) = deliver m seen rs" using len by (simp add: r deliver_step del: deliver.simps)
    with Cons.IH [of seen xs] Cons.prems show ?thesis by simp
  next
    case False
    then have d: "(j, now) # deliver m (AList.update j now seen) rs = xs @ (i, s) # ys @ (i, t) # zs"
      using Cons.prems(2) len by (simp add: r deliver_step del: deliver.simps)
    show ?thesis
    proof (cases xs)
      case Nil
      with d have e: "j = i" "now = s" "deliver m (AList.update j now seen) rs = ys @ (i, t) # zs" by auto
      show ?thesis by (rule deliver_later [OF len', of i s t m]) (simp_all add: e update_conv' flip: e(1,2))
    next
      case (Cons x xs')
      with d show ?thesis by (intro Cons.IH [OF len']) simp
    qed
  qed
qed simp

text \<open>What is remembered stays bounded, as long as a loop over a map meets each entry once.\<close>

lemma first_bounded:
  assumes "length seen \<le> deliveriesKept" "\<And>xs. length (mapOrder m xs) = length xs"
  shows "length (snd (first m i now seen)) \<le> deliveriesKept"
proof -
  have k: "deliveriesKept = 1000" by (simp add: deliveriesKept_def)
  have e: "length (evict m now seen) \<le> deliveriesKept - 1" by (simp add: evict_def assms(2) Let_def k)
  have "length (AList.update i now (if deliveriesKept \<le> length seen then evict m now seen else seen)) \<le> deliveriesKept"
    using length_update_le [of i now "evict m now seen"] length_update_le [of i now seen] e assms(1) k by auto
  with assms(1) show ?thesis by (auto simp: first_def split: option.split)
qed

end
