(* ===== verification/DeliveryExamples.thy ===== *)
theory DeliveryExamples
  imports DeliveryGuarantees
begin

section \<open>A space with two messages\<close>

text \<open>
  A surrounding in which the properties of deliveries apply: Webex lists the first messages of a room, as
  many as the world counts, and all come from the bot itself, which leaves them unanswered.
\<close>

definition lobbyFrontend :: "'w frontend" where
  "lobbyFrontend =
     \<lparr>engine = quietApi, createGroup = \<lambda>g. State_Monad.return (Inr g), saveGroup = \<lambda>g. State_Monad.return (Inr g),
      deleteGroup = \<lambda>_ _. State_Monad.return (Inr ()), createConfig = \<lambda>c. State_Monad.return (Inr c),
      saveConfig = \<lambda>c. State_Monad.return (Inr c), deleteConfig = \<lambda>_ _. State_Monad.return (Inr ()),
      readGroup = \<lambda>_. Inl [], readConfig = \<lambda>_. Inl [], groupJson = \<lambda>_. JNull, configJson = \<lambda>_. JNull,
      selectorProblem = [], conflictRetries = 4\<rparr>"

definition lobbyBot :: Person where
  "lobbyBot = \<lparr>perID = ''bot'', perName = ''CostDeck'', perEmails = []\<rparr>"

definition lobbyRoom :: Room where
  "lobbyRoom = \<lparr>rmID = ''lobby'', rmTitle = ''Lobby'', rmType = ''group''\<rparr>"

definition lobbyMessage :: "nat \<Rightarrow> Message" where
  "lobbyMessage n =
     \<lparr>msID = replicate n (CHR ''m''), msParent = [], msRoom = ''lobby'', msRoomType = ''group'', msText = ''hello'',
      msPerson = ''bot'', msEmail = [], msCreated = int n\<rparr>"

definition lobby :: "nat messenger" where
  "lobby =
     \<lparr>messengerFrontend = lobbyFrontend,
      getWebex = State_Monad.return (Inr (Some \<lparr>wxEnabled = True, wxRoomID = ''lobby'', wxNotifyTransitions = False, wxSecretRef = ''webex''\<rparr>, [])),
      getSecretData = \<lambda>_ _. State_Monad.return (Inr [''BOT_TOKEN'' \<mapsto> ''t'']),
      webexMe = \<lambda>_. State_Monad.return (Inr lobbyBot), webexRoom = \<lambda>_ _. State_Monad.return (Inr lobbyRoom),
      webexRooms = \<lambda>_ _. State_Monad.return (Inr None),
      webexMessages = \<lambda>_ _ _ _. state.State (\<lambda>n. (Inr (map lobbyMessage [1..<Suc n]), n)),
      webexMessage = \<lambda>_ _. State_Monad.return (Inl []), webexSend = \<lambda>_ _ _ _. State_Monad.return (Inr ()),
      mapOrder = id\<rparr>"

definition lobbyPoller :: "time \<Rightarrow> Poller" where
  "lobbyPoller t =
     \<lparr>plToken = ''t'', plMe = Some lobbyBot, plRooms = Some [lobbyRoom], plRoomsAt = 0, plLastSeen = [''lobby'' \<mapsto> t], plLastError = []\<rparr>"

definition lobbyWorld :: "nat \<Rightarrow> nat world" where
  "lobbyWorld n = \<lparr>ext = n, trace = [], kedaMissing = False, kedaCheckedAt = 0, measuredAt = Map.empty, announcedPhase = Map.empty\<rparr>"

lemma lobby_settings:
  "run_state (LoadSettings lobby) (lobbyWorld n) =
     (Inr (Some \<lparr>stToken = ''t'', stWebhookSecret = [], stRoomID = ''lobby'', stClusterName = []\<rparr>), lobbyWorld n)"
  by (simp add: LoadSettings_def readWebex_def webexSecret_def lobby_def lobbyFrontend_def quietApi_def attempt_def ask_def wrapped_def
      lobbyWorld_def OperatorNamespace_def dataAt_def SecretKeyBotToken_def SecretKeyWebhookSecret_def)

lemma lobby_ignored: "ProcessMessage (botOf lobby st lobbyBot) (lobbyMessage n) = State_Monad.return (Inr ())"
  by (simp add: ProcessMessage_def isOwnMessage_def botOf_def lobbyBot_def lobbyMessage_def)

lemma lobby_typed: "withRoomType room (lobbyMessage n) = lobbyMessage n"
  by (simp add: withRoomType_def lobbyMessage_def)

lemma lobby_fresh:
  "run_state (freshMessages lobby ''lobby'' (map lobbyMessage [1..<Suc (Suc n)]) (lobbyPoller (int n))) w =
    ((lobbyPoller (int (Suc n)), [lobbyMessage (Suc n)]), w)"
proof -
  have c: "msCreated (lobbyMessage k) = int k" for k by (simp add: lobbyMessage_def)
  have "sorted (map int [1..<Suc (Suc n)])" by (simp add: sorted_map del: upt_Suc)
  then have "sorted (map msCreated (map lobbyMessage [1..<Suc (Suc n)]))" by (simp add: comp_def c del: upt_Suc)
  then have s: "sort_key msCreated (map lobbyMessage [1..<Suc (Suc n)]) = map lobbyMessage [1..<Suc (Suc n)]"
    by (rule sort_key_id_if_sorted)
  have "[1..<Suc (Suc n)] = [1..<Suc n] @ [Suc n]" by simp
  moreover have "filter (\<lambda>k. int n < int k) [1..<Suc n] = []" by (auto simp: filter_empty_conv)
  ultimately have f: "filter (\<lambda>msg. int n < msCreated msg) (map lobbyMessage [1..<Suc (Suc n)]) = [lobbyMessage (Suc n)]"
    by (simp add: filter_map comp_def c del: upt_Suc)
  have l: "plLastSeen (lobbyPoller t) = [''lobby'' \<mapsto> t]" "lobbyPoller t\<lparr>plLastSeen := [''lobby'' \<mapsto> t']\<rparr> = lobbyPoller t'" for t t'
    by (simp_all add: lobbyPoller_def)
  show ?thesis by (simp add: freshMessages_def Let_def s f c l del: upt_Suc One_nat_def)
qed

lemma lobby_poll:
  "run_state (Poll lobby (lobbyPoller (int n))) (lobbyWorld (Suc n)) =
    ((lobbyPoller (int (Suc n)), [(''lobby'', lobbyMessage (Suc n))]), lobbyWorld (Suc n))"
proof -
  have reset: "resetPoller ''t'' (lobbyPoller t) = lobbyPoller t" for t by (simp add: resetPoller_def lobbyPoller_def)
  have me: "identity lobby ''t'' (lobbyPoller t) = State_Monad.return (Inr lobbyBot, lobbyPoller t)" for t
    by (simp add: identity_def lobbyPoller_def)
  have rooms: "run_state (roomsToPoll lobby ''t'' ''lobby'' (lobbyPoller t)) w = ((Inr (Some [lobbyRoom]), lobbyPoller t), w)" for t w
    by (simp add: roomsToPoll_def lobbyPoller_def ask_def lobby_def lobbyFrontend_def quietApi_def)
  have list: "run_state (ask (webexMessages lobby tk i d k)) (lobbyWorld n) = (Inr (map lobbyMessage [1..<Suc n]), lobbyWorld n)" for tk i d k n
    by (simp add: ask_def lobby_def lobbyWorld_def)
  have quiet: "lobbyPoller t\<lparr>plLastError := []\<rparr> = lobbyPoller t" for t by (simp add: lobbyPoller_def)
  have id: "rmID lobbyRoom = ''lobby''" by (simp add: lobbyRoom_def)
  show ?thesis
    by (simp add: Poll_def lobby_settings reset pollWith_def me rooms list quiet id lobby_fresh lobby_typed lobby_ignored
        Let_def del: upt_Suc upt.simps One_nat_def)
qed

lemma polls_never_repeat_witness: "msCreated (lobbyMessage 1) < msCreated (lobbyMessage 2)"
proof -
  have one: "run_state (Poll lobby (lobbyPoller 0)) (lobbyWorld 1) = ((lobbyPoller 1, [(''lobby'', lobbyMessage 1)]), lobbyWorld 1)"
    using lobby_poll [of 0] by simp
  have two: "run_state (Poll lobby (lobbyPoller 1)) (lobbyWorld 2) = ((lobbyPoller 2, [(''lobby'', lobbyMessage 2)]), lobbyWorld 2)"
    using lobby_poll [of 1] by (simp add: numeral_2_eq_2)
  show ?thesis
    by (rule polls_never_repeat [OF one polls.start two]) (simp_all add: lobbyPoller_def)
qed

text \<open>A message delivered again after a second is not answered again, and after two hours it is.\<close>

lemma messages_answered_once_witness:
  "deliver lobby [] [(''m'', 0), (''m'', second), (''m'', 2 * hour)] = [(''m'', 0), (''m'', 2 * hour)] \<and> 0 + deliveryWindow \<le> 2 * hour"
proof
  show d: "deliver lobby [] [(''m'', 0), (''m'', second), (''m'', 2 * hour)] = [(''m'', 0), (''m'', 2 * hour)]"
    by (simp add: deliver_step deliveredRecently_def deliveryWindow_def deliveriesKept_def del: deliver.simps(2))
  show "0 + deliveryWindow \<le> 2 * hour"
    by (rule messages_answered_once [of "[]" "[(''m'', 0), (''m'', second), (''m'', 2 * hour)]" lobby "[]" "''m''" 0 "[]" _ "[]"])
      (simp add: deliveriesKept_def, simp only: d append_Nil)
qed

end
