(* ===== verification/Spec2Isabelle.thy ===== *)
theory Spec2Isabelle
  imports GroupGuarantees Suggest AuthExamples RightSizingExamples AdviceExamples CleanupSettings DeliveryExamples
begin

text \<open>
  Cost Deck is a Kubernetes operator, in Go, that scales namespaces down and up by schedule and
  reports what the cluster costs. This development models its scaling core: what decides whether a
  namespace is to be up (\<^verbatim>\<open>src/internal/scaling\<close>), what changes the cluster
  accordingly (the same package), and the reconcilers that drive ScalingConfigs and ScalingGroups
  (\<^verbatim>\<open>src/internal/controller\<close>); the authentication that guards its API
  (\<^verbatim>\<open>src/internal/auth\<close>); the deletion of preview namespaces
  (\<^verbatim>\<open>src/internal/cleanup\<close>); and right-sizing, from the advice on requests and
  memory to its application, the guard that undoes it and the way back
  (\<^verbatim>\<open>src/internal/rightsizing\<close>, \<^verbatim>\<open>jvm\<close>,
  \<^verbatim>\<open>optimize\<close>); and the chat bot (\<^verbatim>\<open>src/internal/webex\<close>). Names are those of the code where Isabelle allows it.

  \<^bold>\<open>How the parts interact.\<close> A reconcile reads its object, resolves the exceptions and
  calendars it names, decides whether the object is to be up now, and takes the cluster there:
  services run by operators, workloads stage by stage with their CronJobs and autoscalers, GitOps
  tools, routes to the sleep page, cloud targets. It writes the status, announces a finished
  transition and says when to look again. Groups are planned together, since they own namespaces
  exclusively and depend on each other; a group owns its namespaces before a config does. An object
  that is deleted, or a namespace that leaves a group, is given back first. Requests to the API pass
  the middleware of the authentication service, which resolves API tokens and session cookies
  against Secrets that several replicas share; users sign in with a password or through an identity
  provider. The reaper reads the settings, plans the namespaces the settings select and deletes what
  is due, with its log in a ConfigMap; the API shows the plan and postpones a deletion. Advice is
  computed from metrics, applied to the containers of a namespace after their resources were saved in
  a NamespaceOptimization, watched by the guard and put back from there.

  \<^bold>\<open>Prelude.\<close> \<open>GoBase\<close>, \<open>GoTime\<close>, \<open>GoFormat\<close>,
  \<open>GoPath\<close> and \<open>GoJson\<close> model what the code uses of Go's standard library:
  strings, integers at their width, instants and zones (nanoseconds since 1970; time zone data is a
  parameter), printing of times, durations and quoted text, \<^verbatim>\<open>path.Match\<close>, and JSON
  texts with their parser. \<open>ApiTypes\<close> holds the objects of
  \<^verbatim>\<open>src/api/v1\<close> as records. \<open>KubeApi\<close> is the boundary to the cluster: the
  calls the code makes are fields of a record \<open>api\<close>, state transformers on a world of any
  type about which nothing is assumed, and a trace keeps the changes the code asks for. What a
  function may ask for is stated with \<open>gives\<close>, \<open>only\<close> and \<open>ordered\<close>, what
  it returns with \<open>yields\<close>, whatever the cluster answers. Errors are values of a sum type;
  a panic is one of them.

  \<^bold>\<open>Deciding.\<close> \<open>Schedule\<close> (engine.go) has the weekly windows in minutes of the
  week and their agreement with the reading by weekday and clock. \<open>Timetable\<close> (exceptions.go)
  has exceptions, calendars, the state at an instant and the search for the next change;
  \<open>Intervals\<close> the periods of one state, in a locale for such a search. The weekly search
  scans at most the minutes of eight days; that this is enough is proved for zones of fixed offset.
  \<open>Decision\<close> (decision.go, idle.go) has the decision with its mode and next transition.
  \<open>Cycles\<close> and \<open>GroupPlans\<close> (dependencies.go, members.go) have the cycle
  search, the plans of all groups together and the owners of namespaces. The recursion over
  dependents takes fuel, the number of groups; the locale \<open>dependency_order\<close> shows that
  the search leaves no cycle and that the fuel is enough. \<open>Suggest\<close> (suggest.go) proposes
  schedules from measured use, with rational numbers for floats.

  \<^bold>\<open>Acting.\<close> \<open>Workloads\<close> (workloads.go, rollouts.go), \<open>Companions\<close>
  (companions.go, engine.go), \<open>Hibernate\<close> (hibernate.go), \<open>GitOps\<close> (gitops.go),
  \<open>SleepPage\<close> (sleep.go) and \<open>Previews\<close> (preview.go, nodes.go) have the changes to
  a namespace: which objects, in which order, what is recorded on them and how it is undone.
  \<open>Pausing\<close> is the interface of what is paused and resumed, interpreted on CronJobs and
  ScaledObjects.

  \<^bold>\<open>Reconciling.\<close> \<open>StatusReport\<close> (schedule\_status.go) has conditions, wake-up
  timing, requeue times and the announcements, which refine a log of settled phases.
  \<open>Release\<close> (gitops.go, sleep.go, realized.go, release.go of the controllers) has the steps
  both reconcilers share, \<open>Deletion\<close> the interface of objects with a finalizer,
  \<open>IdleWatch\<close> (idle.go) the sleep of unused namespaces. \<open>ConfigController\<close>
  (scalingconfig\_controller.go) is the reconciler of configs. \<open>GroupTargets\<close> and
  \<open>GroupController\<close> (scalinggroup\_controller.go) are that of groups: the stages with what
  they scale, and the rest; \<open>GroupGuarantees\<close> has its properties. Each concrete object or
  cluster in these theories only serves to apply a theorem.

  \<^bold>\<open>Authentication.\<close> \<open>Encodings\<close> (base64, hex, SHA-256 and HMAC) and
  \<open>StoredText\<close> (times and structs as JSON) continue the prelude. \<open>Accounts\<close> has roles,
  identities and the stored records with their texts. \<open>AuthApi\<close> is the boundary: requests,
  answers, the calls to Secrets, clock, random bytes, bcrypt and the OpenID Connect libraries as a
  record of state transformers, and what the process keeps in memory. Its law \<open>optimistic\<close>
  says what the API server promises of versions, over the history of a Secret; \<open>commits\<close> what an
  operation then writes. \<open>Sessions\<close> (session.go) signs cookies; \<open>SecretRecords\<close> has the
  two interfaces \<open>secret\_records\<close> and \<open>timed\_cache\<close>, interpreted in
  \<open>Tokens\<close> (tokens.go), \<open>Users\<close> and \<open>SignIns\<close> (users.go).
  \<open>AuthService\<close> (service.go) and \<open>SingleSignOn\<close> (entra.go, oidc.go) are the handlers.
  \<open>AuthHost\<close> shows what every operation keeps of the process's memory, so that it holds of all a
  process serves; \<open>AuthGuarantees\<close> and \<open>SignInFlows\<close> have the properties,
  \<open>AuthSamples\<close> and \<open>AuthExamples\<close> surroundings in which they apply.

  \<^bold>\<open>Preview cleanup.\<close> \<open>GoDuration\<close> (the grammar of Go's durations) and
  \<open>Upkeep\<close> continue the prelude: the record of the calls that the upkeep jobs make, the
  settings object and what it holds. \<open>Cleanup\<close> (cleanup.go) has times to live, the plan, the
  hourly budget with its log, the reaper and extensions; \<open>RateLog\<close> the interface of such a log
  and why it bounds any hour; \<open>Reaping\<close> and \<open>ReapingRate\<close> what a run may ask for and
  how many deletions runs make, \<open>CleanupGuarantees\<close> the properties. \<open>CleanupApi\<close>
  (namespace\_ttl.go) has the settings section and the two requests, \<open>CleanupExamples\<close> the
  surroundings in which the properties apply. \<open>DurationText\<close> shows that the text of a duration
  reads back as that duration, and \<open>CleanupSettings\<close> that so does what the settings page shows. The relation \<open>after\<close> of \<open>KubeApi\<close> says
  what has been asked for before a given change, so that an order of effects is one lemma.

  \<^bold>\<open>Right-sizing.\<close> \<open>Jvm\<close> (jvm.go) finds Java processes, the heap they are given and
  the options a plan sets; \<open>JavaHeap\<close> shows that these options give the heap planned.
  \<open>Advice\<close> (rightsizing.go, and the policies of rightsizing\_handlers.go) computes the requests
  of a container from its measured use, with rational numbers for floats, and holds reductions back;
  \<open>AdviceGuarantees\<close> and \<open>AdviceExamples\<close> have its properties and three cases in which
  the advice does less than its comments say. \<open>Optimize\<close> (optimize.go) saves, applies and puts
  back, \<open>Guard\<close> (guard.go) watches what was applied; \<open>RightSizing\<close> and
  \<open>GuardGuarantees\<close> have their properties, \<open>RightSizingExamples\<close> a namespace with two
  workloads. Workloads keep their JSON, so that whatever the code does not touch is shown to stay.

  \<^bold>\<open>Schedules through the API.\<close> \<open>Overrides\<close> and \<open>ScheduleApi\<close>
  (scaling\_handlers.go, exceptions.go and the scaling actions of assistant\_tools.go under
  \<^verbatim>\<open>src/internal/api\<close>) have the checks of a schedule, the handlers of groups and configs,
  the manual override and the dated exceptions; \<open>ScheduleGuarantees\<close> what they may write, and that
  an override held until the next change of the schedule ends exactly there.

  \<^bold>\<open>The chat bot.\<close> \<open>ChatBot\<close> (bot.go under \<^verbatim>\<open>src/internal/webex\<close>)
  reads a message as a command, answers it, and overrides groups and configs as the API does.
  \<open>Delivery\<close> (poller.go, notifier.go and webex\_handlers.go) has how messages reach it: the poller
  with its watermark for each room, and the webhook with its signature (\<open>Sha1\<close>) and the deliveries of
  the last hour. \<open>ChatGuarantees\<close> and \<open>DeliveryGuarantees\<close> have their properties,
  \<open>DeliveryExamples\<close> a space with two messages. The calls to Webex (client.go) are parameters.

  \<^bold>\<open>What the lemmas show.\<close> The next change is exactly the first instant at which the
  state differs; decisions follow their precedence and announce it; planning ends and a needed group
  is up; no namespace has two owners; scaling keeps its order, leaves exclusions alone and restores
  replica counts; what is paused, put to sleep or stopped is only ever undone by its own mark; a
  reconcile keeps to one order and one direction, waits for dependencies, loses no namespace it
  could not give back and no cloud target it stopped; deletions end. A request is let in only with
  credentials that were good at most the caches' thirty seconds ago; a sign-in needs the password or
  a verified token of the browser's own transaction; changes of accounts and tokens lose no other
  client's write and keep the accounts well-formed. Only previews that are due, warned about and
  not protected are deleted, at most twenty an hour for as long as the log can be written, and a
  warning or an extension reads back as such. Advice on requests covers the demand it was computed
  from, and the options of a plan give the heap it planned; applying it changes nothing but requests and limits of the
  containers named, and putting it back restores them exactly as far as CPU and memory go; the guard
  only acts on a workload with a reason it records. The API saves only schedules that passed every
  check, and an override by hand writes nothing but itself. The chat bot changes nothing but
  the override that a message of the configured space asks for, a webhook without a valid signature brings nothing about, and no
  message is handled twice.

  \<^bold>\<open>Not modelled.\<close> The calls to cloud providers, metrics and price lists are
  parameters, and so is how Go prints a floating-point number (\<open>numberText\<close>). Cost accounting,
  prices, reports, budgets and estimates are floating-point arithmetic over cluster objects and are
  left out, as are the handlers of the HTTP API outside sign-in, cleanup, schedules and chat with the UI, Slack,
  Teams and mail, the AI assistant but for its scaling actions, generated code and start-up, and of authentication the two checks of a
  configuration that the settings page makes. Logs, events and telemetry of the modelled
  functions are left out; maps iterated by the code are association lists, whose order no result
  depends on unless a comment says so. Concurrency within one function (the mutexes around the small
  maps kept in memory) is not modelled: the API calls of one reconcile are a sequence, between any
  two of which the cluster may change at will. Requests are taken one at a time; other replicas and
  clients are part of the world. What a password hash or a signature is worth cryptographically is
  not stated: the theorems say which text was compared with what.
\<close>

end
